(* ===== verification/Prelude.thy ===== *)
theory Prelude
  imports Main "HOL-Library.AList"
begin

text \<open>
  Shared vocabulary of the development: Go's 64-bit integers and its \<open>time\<close> package,
  Go errors and \<open>errors.Is\<close>, Go maps as association lists, and the generic lemmas the
  component theories use.

  \<^item> \<^bold>\<open>Integers.\<close> A Go \<open>int64\<close> is an \<open>int\<close>; where an addition or multiplication could leave
    the range, the operation is \<open>add64\<close>/\<open>mul64\<close>, which wrap in two's complement. Counters that
    only ever move by one per event are plain \<open>int\<close>.
  \<^item> \<^bold>\<open>Time.\<close> A \<open>time.Time\<close> is the \<open>int\<close> number of nanoseconds since Go's zero time, so the zero
    time is 0 and \<open>IsZero\<close> is a comparison with 0. A \<open>time.Duration\<close> is an \<open>int\<close> in nanoseconds.
    \<open>t.Sub(u)\<close> saturates at the \<open>int64\<close> bounds, as the Go library documents.
  \<^item> \<^bold>\<open>Maps.\<close> A Go map that is iterated over is an association list with distinct keys; the
    order of the list is the (unspecified) order in which \<open>range\<close> visits it, so a theorem about
    all lists is a theorem about all iteration orders.
\<close>

section \<open>Collections of rewrite rules\<close>

named_theorems go_arith \<comment> \<open>64-bit arithmetic inside its range\<close>
named_theorems go_time \<comment> \<open>comparisons of times and durations\<close>

section \<open>64-bit integers\<close>

type_synonym int64 = int

definition max_int64 :: int where
  "max_int64 = 9223372036854775807"

definition min_int64 :: int where
  "min_int64 = -9223372036854775808"

definition wrap64 :: "int \<Rightarrow> int64" where
  "wrap64 x = (x + 9223372036854775808) mod 18446744073709551616 - 9223372036854775808"

definition add64 :: "int64 \<Rightarrow> int64 \<Rightarrow> int64" where
  "add64 a b = wrap64 (a + b)"

definition mul64 :: "int64 \<Rightarrow> int64 \<Rightarrow> int64" where
  "mul64 a b = wrap64 (a * b)"

definition in_int64 :: "int \<Rightarrow> bool" where
  "in_int64 x \<longleftrightarrow> min_int64 \<le> x \<and> x \<le> max_int64"

lemma wrap64_id [go_arith]: "in_int64 x \<Longrightarrow> wrap64 x = x"
  by (simp add: wrap64_def in_int64_def min_int64_def max_int64_def)

lemma wrap64_range: "in_int64 (wrap64 x)"
proof -
  have "0 \<le> (x + 9223372036854775808) mod 18446744073709551616"
    and "(x + 9223372036854775808) mod 18446744073709551616 < 18446744073709551616"
    by simp_all
  then show ?thesis
    by (simp add: wrap64_def in_int64_def min_int64_def max_int64_def)
qed

lemma add64_id [go_arith]: "in_int64 (a + b) \<Longrightarrow> add64 a b = a + b"
  by (simp add: add64_def wrap64_id)

lemma mul64_id [go_arith]: "in_int64 (a * b) \<Longrightarrow> mul64 a b = a * b"
  by (simp add: mul64_def wrap64_id)

lemma in_int64_between: "in_int64 a \<Longrightarrow> in_int64 c \<Longrightarrow> a \<le> b \<Longrightarrow> b \<le> c \<Longrightarrow> in_int64 b"
  by (simp add: in_int64_def)

section \<open>Time and durations\<close>

type_synonym time = int
type_synonym duration = int

definition zero_time :: time where
  [simp]: "zero_time = 0"

definition millisecond :: duration where
  "millisecond = 1000000"

definition second :: duration where
  "second = 1000000000"

definition minute :: duration where
  "minute = 60000000000"

definition hour :: duration where
  "hour = 3600000000000"

lemmas duration_units = millisecond_def second_def minute_def hour_def

text \<open>\<open>t.Sub(u)\<close>: the difference, saturated at the extreme durations.\<close>

definition time_sub :: "time \<Rightarrow> time \<Rightarrow> duration" where
  "time_sub t u = max min_int64 (min max_int64 (t - u))"

lemma time_sub_gt_iff [go_time]:
  "min_int64 \<le> d \<Longrightarrow> d < max_int64 \<Longrightarrow> d < time_sub t u \<longleftrightarrow> d < t - u"
  by (auto simp: time_sub_def min_int64_def max_int64_def)

lemma time_sub_exact [go_time]: "in_int64 (t - u) \<Longrightarrow> time_sub t u = t - u"
  by (simp add: time_sub_def in_int64_def)

lemma time_sub_mono: "t \<le> t' \<Longrightarrow> u' \<le> u \<Longrightarrow> time_sub t u \<le> time_sub t' u'"
  unfolding time_sub_def by linarith

lemma time_sub_in_range: "in_int64 (time_sub t u)"
  by (simp add: time_sub_def in_int64_def min_int64_def max_int64_def)

section \<open>Go errors\<close>

text \<open>
  The dynamic types of the errors the modelled code tells apart. A package-level sentinel is
  identified by its message (no two sentinels of the repository share one); \<open>ErrNew\<close> is a fresh
  error with no cause; \<open>ErrWrap\<close> is \<open>fmt.Errorf\<close> with its rendered message and its \<open>%w\<close>
  operands, which may be several; \<open>ErrRateLimited\<close> is \<open>*common.RateLimitedError\<close> with its
  \<open>RetryAfter\<close> and \<open>cause\<close> (nil is \<open>None\<close>); \<open>ErrHTTPStatus\<close> is
  \<open>*lavasession.HTTPStatusError\<close> with its rendered message, its status code and its \<open>RetryAfter\<close>
  (its \<open>Unwrap\<close> presents a 429 as a \<open>RateLimitedError\<close> without a cause).
\<close>

datatype go_error =
    ErrSentinel string
  | ErrNew string
  | ErrWrap string "go_error list"
  | ErrRateLimited duration "go_error option"
  | ErrHTTPStatus string int duration

text \<open>The sentinel of \<open>protocol/common/errors.go\<close> that marks a rate refusal.\<close>

definition StatusCodeError429 :: string where
  "StatusCodeError429 = ''Disallowed status code error (429)''"

text \<open>\<open>errors.Is(err, target)\<close> for a sentinel target: a walk over the tree of wrapped errors.\<close>

fun errors_is :: "go_error \<Rightarrow> string \<Rightarrow> bool" where
  "errors_is (ErrSentinel n) s = (n = s)"
| "errors_is (ErrNew _) s = False"
| "errors_is (ErrWrap _ es) s = list_ex (\<lambda>e. errors_is e s) es"
| "errors_is (ErrRateLimited _ None) s = (s = StatusCodeError429)"
| "errors_is (ErrRateLimited _ (Some c)) s = errors_is c s"
| "errors_is (ErrHTTPStatus _ code _) s = (code = 429 \<and> s = StatusCodeError429)"

text \<open>The nil error is \<open>None\<close>; \<open>errors.Is(nil, target)\<close> is false.\<close>

definition errors_is_opt :: "go_error option \<Rightarrow> string \<Rightarrow> bool" where
  "errors_is_opt e s = (case e of None \<Rightarrow> False | Some x \<Rightarrow> errors_is x s)"

lemma errors_is_opt_simps [simp]:
  "errors_is_opt None s = False"
  "errors_is_opt (Some e) s = errors_is e s"
  by (simp_all add: errors_is_opt_def)

section \<open>Go maps as association lists\<close>

type_synonym ('k, 'v) gomap = "('k \<times> 'v) list"

abbreviation mget :: "('k, 'v) gomap \<Rightarrow> 'k \<Rightarrow> 'v option" where
  "mget \<equiv> map_of"

abbreviation mput :: "'k \<Rightarrow> 'v \<Rightarrow> ('k, 'v) gomap \<Rightarrow> ('k, 'v) gomap" where
  "mput \<equiv> AList.update"

abbreviation mdel :: "'k \<Rightarrow> ('k, 'v) gomap \<Rightarrow> ('k, 'v) gomap" where
  "mdel \<equiv> AList.delete"

definition wf_map :: "('k, 'v) gomap \<Rightarrow> bool" where
  "wf_map m \<longleftrightarrow> distinct (map fst m)"

lemma wf_map_Nil [simp]: "wf_map []"
  by (simp add: wf_map_def)

lemma wf_map_single [simp]: "wf_map [kv]"
  by (simp add: wf_map_def)

lemma wf_map_mput [simp]: "wf_map m \<Longrightarrow> wf_map (mput k v m)"
  by (simp add: wf_map_def distinct_update)

lemma wf_map_mdel [simp]: "wf_map m \<Longrightarrow> wf_map (mdel k m)"
  by (simp add: wf_map_def distinct_delete)

lemma mget_mput [simp]: "mget (mput k v m) = (mget m)(k \<mapsto> v)"
  by (simp add: update_conv')

lemma mget_mdel [simp]: "mget (mdel k m) = (mget m)(k := None)"
  by (simp add: delete_conv')

lemma wf_map_in_iff: "wf_map m \<Longrightarrow> (k, v) \<in> set m \<longleftrightarrow> mget m k = Some v"
  by (simp add: wf_map_def)

lemma wf_map_filter [simp]: "wf_map m \<Longrightarrow> wf_map (filter P m)"
  unfolding wf_map_def by (induction m) auto

lemma mget_map_snd: "mget (map (\<lambda>kv. (fst kv, f (snd kv))) m) k = map_option f (mget m k)"
  by (induction m) auto

lemma wf_map_map_snd [simp]: "wf_map (map (\<lambda>kv. (fst kv, f (snd kv))) m) \<longleftrightarrow> wf_map m"
  by (simp add: wf_map_def comp_def)

lemma mget_filter:
  assumes "wf_map m"
  shows "mget (filter (\<lambda>kv. P (snd kv)) m) k
    = (case mget m k of Some v \<Rightarrow> if P v then Some v else None | None \<Rightarrow> None)"
  using assms
proof (induction m)
  case Nil
  then show ?case by simp
next
  case (Cons kv m)
  then have "wf_map m" and "fst kv \<notin> fst ` set m" by (simp_all add: wf_map_def)
  moreover have "mget m (fst kv) = None" using \<open>fst kv \<notin> fst ` set m\<close> by (simp add: map_of_eq_None_iff)
  ultimately show ?case using Cons.IH by (cases kv) auto
qed

text \<open>
  The contract of a keyed store, as its clients use it: what a lookup returns after an insert,
  an overwrite and a delete, under an invariant every operation keeps.
\<close>

locale keyed_store =
  fixes get :: "'s \<Rightarrow> 'k \<Rightarrow> 'v option"
    and put :: "'k \<Rightarrow> 'v \<Rightarrow> 's \<Rightarrow> 's"
    and del :: "'k \<Rightarrow> 's \<Rightarrow> 's"
    and inv :: "'s \<Rightarrow> bool"
  assumes get_put: "inv s \<Longrightarrow> get (put k v s) = (get s)(k \<mapsto> v)"
    and get_del: "inv s \<Longrightarrow> get (del k s) = (get s)(k := None)"
    and inv_put: "inv s \<Longrightarrow> inv (put k v s)"
    and inv_del: "inv s \<Longrightarrow> inv (del k s)"
begin

lemma put_other: "inv s \<Longrightarrow> k' \<noteq> k \<Longrightarrow> get (put k v s) k' = get s k'"
  by (simp add: get_put)

lemma del_put: "inv s \<Longrightarrow> get (del k (put k v s)) = get (del k s)"
  by (simp add: get_put get_del inv_put)

lemma put_put: "inv s \<Longrightarrow> get (put k w (put k v s)) = get (put k w s)"
  by (simp add: get_put inv_put)

lemma puts_get:
  assumes "inv s"
  shows "inv (fold (\<lambda>(k, v). put k v) kvs s)
    \<and> get (fold (\<lambda>(k, v). put k v) kvs s) = (get s) ++ map_of (rev kvs)"
  using assms
proof (induction kvs arbitrary: s)
  case Nil
  then show ?case by simp
next
  case (Cons kv kvs)
  obtain k v where kv: "kv = (k, v)" by (cases kv)
  from Cons.prems have "inv (put k v s)" by (rule inv_put)
  from Cons.IH [OF this] Cons.prems show ?case
    by (simp add: kv get_put map_add_upd_left)
       (auto simp: map_add_def fun_eq_iff split: option.splits)
qed

end

interpretation gomap: keyed_store mget mput mdel wf_map
  by unfold_locales simp_all

section \<open>Strings\<close>

text \<open>\<open>strconv.Itoa\<close> and \<open>strings.Join\<close>.\<close>

fun format_nat :: "nat \<Rightarrow> string" where
  "format_nat n = (if n < 10 then [char_of (n + 48)] else format_nat (n div 10) @ [char_of (n mod 10 + 48)])"

declare format_nat.simps [simp del]

definition format_int :: "int \<Rightarrow> string" where
  "format_int i = (if i < 0 then ''-'' @ format_nat (nat (- i)) else format_nat (nat i))"

lemma format_nat_digits: "c \<in> set (format_nat n) \<Longrightarrow> 48 \<le> (of_char c :: nat) \<and> (of_char c :: nat) < 58"
proof (induction n rule: format_nat.induct)
  case (1 n)
  show ?case
  proof (cases "n < 10")
    case True
    with 1 show ?thesis by (simp add: format_nat.simps [of n])
  next
    case False
    with 1 show ?thesis by (auto simp: format_nat.simps [of n])
  qed
qed

text \<open>Rendering by integer division, for evaluation.\<close>

function digits_of :: "int \<Rightarrow> string" where
  "digits_of i = (if i < 10 then [char_of (i + 48)] else digits_of (i div 10) @ [char_of (i mod 10 + 48)])"
  by pat_completeness auto

termination
  by (relation "measure nat") auto

declare digits_of.simps [simp del]

lemma digits_of_nat: "digits_of (int n) = format_nat n"
proof (induction n rule: format_nat.induct)
  case (1 n)
  have "char_of (int m + 48) = (char_of (m + 48) :: char)" for m
    by (metis char_of_nat of_nat_add of_nat_numeral)
  from this [of n] this [of "n mod 10"] 1 show ?case
    by (cases "n < 10") (simp_all add: format_nat.simps [of n] digits_of.simps [of "int n"] zdiv_int zmod_int del: of_nat_add)
qed

lemma format_int_code [code]: "format_int i = (if i < 0 then CHR ''-'' # digits_of (- i) else digits_of i)"
  by (cases "i < 0") (simp_all add: format_int_def flip: digits_of_nat)

fun strings_join :: "string \<Rightarrow> string list \<Rightarrow> string" where
  "strings_join sep [] = []"
| "strings_join sep [x] = x"
| "strings_join sep (x # y # xs) = x @ sep @ strings_join sep (y # xs)"

text \<open>\<open>strings.ToLower\<close> on the ASCII letters, \<open>strings.HasPrefix\<close>, \<open>strings.Contains\<close> and
  \<open>strings.Index\<close> (nothing where Go returns -1).\<close>

definition to_lower_char :: "char \<Rightarrow> char" where
  "to_lower_char c = (if (65::int) \<le> of_char c \<and> of_char c \<le> (90::int) then char_of (of_char c + (32::int)) else c)"

definition to_lower :: "string \<Rightarrow> string" where
  "to_lower = map to_lower_char"

fun is_prefix_of :: "string \<Rightarrow> string \<Rightarrow> bool" where
  "is_prefix_of [] s = True"
| "is_prefix_of (p # ps) [] = False"
| "is_prefix_of (p # ps) (c # cs) = (p = c \<and> is_prefix_of ps cs)"

fun str_contains :: "string \<Rightarrow> string \<Rightarrow> bool" where
  "str_contains [] sub = (sub = [])"
| "str_contains (c # cs) sub = (is_prefix_of sub (c # cs) \<or> str_contains cs sub)"

fun str_index :: "string \<Rightarrow> string \<Rightarrow> nat option" where
  "str_index [] sub = (if sub = [] then Some 0 else None)"
| "str_index (c # cs) sub = (if is_prefix_of sub (c # cs) then Some 0 else map_option Suc (str_index cs sub))"

lemma is_prefix_of_iff: "is_prefix_of p s \<longleftrightarrow> (\<exists>r. s = p @ r)"
  by (induction p s rule: is_prefix_of.induct) auto

lemma str_contains_iff: "str_contains s p \<longleftrightarrow> (\<exists>a b. s = a @ p @ b)"
proof (induction s)
  case (Cons c s)
  have "(\<exists>a b. c # s = a @ p @ b) \<longleftrightarrow> (\<exists>b. c # s = p @ b) \<or> (\<exists>a b. s = a @ p @ b)"
    by (metis append_Cons append_Nil list.exhaust list.inject)
  with Cons show ?case by (simp add: is_prefix_of_iff)
qed simp

lemma str_index_Some: "str_index s p = Some i \<Longrightarrow> \<exists>r. s = take i s @ p @ r \<and> i \<le> length s"
proof (induction s p arbitrary: i rule: str_index.induct)
  case (2 c s p)
  then show ?case by (auto simp: is_prefix_of_iff split: if_splits)
qed (auto split: if_splits)

lemma str_index_first: "str_index s p = Some i \<Longrightarrow> s = a @ p @ b \<Longrightarrow> i \<le> length a"
proof (induction s p arbitrary: i a rule: str_index.induct)
  case (2 c s p)
  show ?case
  proof (cases a)
    case Nil
    with 2 have "is_prefix_of p (c # s)" by (auto simp: is_prefix_of_iff)
    with "2.prems"(1) show ?thesis by simp
  next
    case (Cons d a')
    with 2 show ?thesis by (auto split: if_splits)
  qed
qed (auto split: if_splits)

lemma str_index_None: "str_index s p = None \<longleftrightarrow> \<not> str_contains s p"
  by (induction s p rule: str_index.induct) auto

lemma to_lower_char_idem [simp]: "to_lower_char (to_lower_char c) = to_lower_char c"
proof (cases "(65::int) \<le> of_char c \<and> of_char c \<le> (90::int)")
  case True
  then have "(of_char (char_of (of_char c + 32 :: int) :: char) :: int) = of_char c + 32"
    by (simp add: of_char_of take_bit_eq_mod)
  with True show ?thesis by (simp add: to_lower_char_def)
qed (auto simp: to_lower_char_def)

lemma to_lower_idem [simp]: "to_lower (to_lower s) = to_lower s"
  by (simp add: to_lower_def)

section \<open>Lists\<close>

text \<open>The last index at which a predicate holds: Go's downward search loop.\<close>

fun find_last_index :: "('a \<Rightarrow> bool) \<Rightarrow> 'a list \<Rightarrow> nat option" where
  "find_last_index P [] = None"
| "find_last_index P (x # xs) =
     (case find_last_index P xs of
        Some i \<Rightarrow> Some (Suc i)
      | None \<Rightarrow> (if P x then Some 0 else None))"

lemma find_last_index_Some:
  "find_last_index P xs = Some i \<Longrightarrow>
     i < length xs \<and> P (xs ! i) \<and> (\<forall>j. i < j \<and> j < length xs \<longrightarrow> \<not> P (xs ! j))"
proof (induction P xs arbitrary: i rule: find_last_index.induct)
  case (1 P)
  then show ?case by simp
next
  case (2 P x xs)
  show ?case
  proof (cases "find_last_index P xs")
    case None
    have "\<not> P y" if "y \<in> set xs" for y
      using None that by (induction xs) (auto split: option.splits if_splits)
    with None "2.prems" show ?thesis
      by (auto simp: nth_Cons split: if_splits nat.splits)
  next
    case (Some k)
    with "2.prems" have "i = Suc k" by simp
    with "2.IH" [OF Some] show ?thesis
      by (auto simp: nth_Cons split: nat.splits)
  qed
qed

lemma find_last_index_None: "find_last_index P xs = None \<longleftrightarrow> (\<forall>x\<in>set xs. \<not> P x)"
  by (induction xs) (auto split: option.splits)

end
