(* ===== verification/SpecExpand.thy ===== *)
theory SpecExpand
  imports Prelude "HOL-Library.List_Lexorder" "HOL-Library.Char_ord"
begin

text \<open>
  Spec inheritance (\<open>src/types/spec/combinable.go\<close>, \<open>api_collection.go\<close>, \<open>spec.go\<close>, \<open>expand.go\<close> and
  \<open>expandSpecWithDependencies\<close> of \<open>src/utils/keeper/spec.go\<close>): how a chain's specification takes
  over the API collections of the specs it imports.

  API collections and verifications are shared through pointers and changed in place, so both live
  in an explicit heap; a spec holds pointers. A pointer to a collection carries the collection's
  \<open>CollectionData\<close>, the one field that is never assigned. The other merged items (APIs, headers,
  parse directives, extensions) are never changed and are values. A function tag is represented by
  its name. Errors keep the fixed part of their text; the trace string \<open>details\<close> is left out. On an error the
  heap with what was merged so far is dropped: every caller gives the expansion up.
\<close>

section \<open>Data\<close>

record CollectionData =
  ApiInterface :: string
  InternalPath :: string
  cd_Type :: string
  AddOn :: string

definition CollectionData_String :: "CollectionData \<Rightarrow> string" where
  "CollectionData_String cd = ''{apiInterface:'' @ ApiInterface cd @ '' internalPath:'' @ InternalPath cd @
     '' type:'' @ cd_Type cd @ '' addOn:'' @ AddOn cd @ ''}''"

definition CanExpand :: "CollectionData \<Rightarrow> CollectionData \<Rightarrow> bool" where
  "CanExpand cd other \<longleftrightarrow> ApiInterface cd = ApiInterface other \<and> cd_Type cd = cd_Type other \<or> ApiInterface other = []"

record SpecCategory =
  Deterministic :: bool
  Stateful_level :: int
  HangingApi :: bool

definition SpecCategory_Combine :: "SpecCategory \<Rightarrow> SpecCategory \<Rightarrow> SpecCategory" where
  "SpecCategory_Combine sc other = \<lparr>Deterministic = (Deterministic sc \<and> Deterministic other),
     Stateful_level = max (Stateful_level sc) (Stateful_level other),
     HangingApi = (HangingApi sc \<or> HangingApi other)\<rparr>"

record BlockParser =
  ParserArg :: "string list"
  ParserFunc :: int
  DefaultValue :: string
  Encoding :: string

record GenericParser =
  ParsePath :: string
  gp_Value :: string
  ParseType :: int
  gp_Rule :: string

record Api =
  api_Enabled :: bool
  api_Name :: string
  ComputeUnits :: int
  api_Category :: SpecCategory
  BlockParsing :: BlockParser
  TimeoutMs :: int
  api_Parsers :: "GenericParser list"

record Header =
  hdr_Name :: string
  hdr_Kind :: int
  hdr_FunctionTag :: string
  hdr_Value :: string

record ParseDirective =
  FunctionTag :: string
  FunctionTemplate :: string
  ResultParsing :: BlockParser
  ApiName :: string
  pd_Parsers :: "GenericParser list"

record Extension =
  ext_Name :: string
  ext_Rule :: "int option"
  CuMultiplier :: int

record ParseValue =
  pv_Extension :: string
  ExpectedValue :: string
  LatestDistance :: int
  Severity :: int

record Verification =
  ver_Name :: string
  ver_ParseDirective :: "ParseDirective option"
  ver_Values :: "ParseValue list"

type_synonym coll_ptr = "CollectionData \<times> nat"
type_synonym ver_ptr = nat

record ApiCollection =
  coll_Enabled :: bool
  Apis :: "Api list"
  Headers :: "Header list"
  InheritanceApis :: "CollectionData list"
  ParseDirectives :: "ParseDirective list"
  Extensions :: "Extension list"
  Verifications :: "ver_ptr list"

record spec_heap =
  colls :: "coll_ptr \<Rightarrow> ApiCollection"
  vers :: "ver_ptr \<Rightarrow> Verification"

definition set_coll :: "coll_ptr \<Rightarrow> ApiCollection \<Rightarrow> spec_heap \<Rightarrow> spec_heap" where
  "set_coll p c h = h\<lparr>colls := (colls h)(p := c)\<rparr>"

record Spec =
  Index :: string
  Imports :: "string list"
  ApiCollections :: "coll_ptr list"

section \<open>Combinable items\<close>

text \<open>The Go interface \<open>Combinable\<close> as a record of its methods.\<close>

record 't combinable =
  Differeniator :: "spec_heap \<Rightarrow> 't \<Rightarrow> string"
  GetEnabled :: "'t \<Rightarrow> bool"
  Equal :: "spec_heap \<Rightarrow> 't \<Rightarrow> 't \<Rightarrow> bool"
  Overwrite :: "'t \<Rightarrow> 't \<Rightarrow> spec_heap \<Rightarrow> bool \<times> spec_heap"

definition api_combinable :: "Api combinable" where
  "api_combinable = \<lparr>Differeniator = (\<lambda>h. api_Name), GetEnabled = api_Enabled,
     Equal = (\<lambda>h a b. api_Enabled a = api_Enabled b \<and> api_Name a = api_Name b \<and> ComputeUnits a = ComputeUnits b),
     Overwrite = (\<lambda>a b h. (False, h))\<rparr>"

definition header_combinable :: "Header combinable" where
  "header_combinable = \<lparr>Differeniator = (\<lambda>h. hdr_Name), GetEnabled = (\<lambda>_. True),
     Equal = (\<lambda>h a b. hdr_Name a = hdr_Name b \<and> hdr_Kind a = hdr_Kind b \<and>
       hdr_FunctionTag a = hdr_FunctionTag b \<and> hdr_Value a = hdr_Value b),
     Overwrite = (\<lambda>a b h. (False, h))\<rparr>"

definition directive_Differeniator :: "ParseDirective \<Rightarrow> string" where
  "directive_Differeniator p =
     (if FunctionTag p = ''SUBSCRIBE'' \<or> FunctionTag p = ''UNSUBSCRIBE'' then FunctionTag p @ ''_'' @ ApiName p
      else FunctionTag p)"

definition directive_combinable :: "ParseDirective combinable" where
  "directive_combinable = \<lparr>Differeniator = (\<lambda>h. directive_Differeniator), GetEnabled = (\<lambda>_. True),
     Equal = (\<lambda>h a b. FunctionTag a = FunctionTag b \<and> FunctionTemplate a = FunctionTemplate b \<and> ApiName a = ApiName b),
     Overwrite = (\<lambda>a b h. (False, h))\<rparr>"

definition extension_combinable :: "Extension combinable" where
  "extension_combinable = \<lparr>Differeniator = (\<lambda>h. ext_Name), GetEnabled = (\<lambda>_. True),
     Equal = (\<lambda>h a b. ext_Name a = ext_Name b \<and> CuMultiplier a = CuMultiplier b),
     Overwrite = (\<lambda>a b h. (False, h))\<rparr>"

text \<open>A verification without a directive borrows the other's, and its values for extensions it has
  none for, in place.\<close>

definition Verification_Overwrite :: "ver_ptr \<Rightarrow> ver_ptr \<Rightarrow> spec_heap \<Rightarrow> bool \<times> spec_heap" where
  "Verification_Overwrite v other h =
     (let me = vers h v; o' = vers h other
      in if ver_ParseDirective me = None \<and> ver_ParseDirective o' \<noteq> None then
           let existing = set (map pv_Extension (ver_Values me));
               me' = me\<lparr>ver_ParseDirective := ver_ParseDirective o',
                        ver_Values := ver_Values me @ filter (\<lambda>x. pv_Extension x \<notin> existing) (ver_Values o')\<rparr>
           in (True, h\<lparr>vers := (vers h)(v := me')\<rparr>)
         else (False, h))"

definition verification_combinable :: "ver_ptr combinable" where
  "verification_combinable = \<lparr>Differeniator = (\<lambda>h v. ver_Name (vers h v)), GetEnabled = (\<lambda>_. True),
     Equal = (\<lambda>h a b. ver_Name (vers h a) = ver_Name (vers h b)),
     Overwrite = Verification_Overwrite\<rparr>"

type_synonym 't current_map = "(string, nat \<times> 't) gomap"

definition GetCurrentFromCombinable :: "'t combinable \<Rightarrow> spec_heap \<Rightarrow> 't list \<Rightarrow> 't current_map" where
  "GetCurrentFromCombinable D h cur =
     fold (\<lambda>(idx, c) m. mput (Differeniator D h c) (idx, c) m) (zip [0..<length cur] cur) []"

fun CombineFields :: "'t combinable \<Rightarrow> spec_heap \<Rightarrow> 't current_map \<Rightarrow> bool \<Rightarrow> 't list \<Rightarrow>
    (string, 't) gomap \<times> 't list \<Rightarrow> go_error + ((string, 't) gomap \<times> 't list)" where
  "CombineFields D h child allowOverwrite [] (mergedMap, merged) = Inr (mergedMap, merged)"
| "CombineFields D h child allowOverwrite (c # cs) (mergedMap, merged) =
     (if \<not> GetEnabled D c then CombineFields D h child allowOverwrite cs (mergedMap, merged)
      else
        let key = Differeniator D h c;
            next' = (mput key c mergedMap, merged @ [c])
        in case mget mergedMap key of
             None \<Rightarrow> CombineFields D h child allowOverwrite cs next'
           | Some existing \<Rightarrow>
               if \<not> Equal D h c existing \<and> \<not> allowOverwrite then
                 Inl (ErrNew ''try overwrite existing collection combination'')
               else if \<not> Equal D h c existing \<and> mget child key = None then
                 Inl (ErrNew ''duplicate imported combinable'')
               else CombineFields D h child allowOverwrite cs next')"

fun CombineUnique :: "'t combinable \<Rightarrow> 't current_map \<Rightarrow> bool \<Rightarrow> 't list \<Rightarrow> 't list \<Rightarrow> spec_heap \<Rightarrow>
    go_error + ('t list \<times> spec_heap)" where
  "CombineUnique D currentMap allowOverwrite [] appendTo h = Inr (appendTo, h)"
| "CombineUnique D currentMap allowOverwrite (c # cs) appendTo h =
     (case mget currentMap (Differeniator D h c) of
        None \<Rightarrow> CombineUnique D currentMap allowOverwrite cs (appendTo @ [c]) h
      | Some (index, current) \<Rightarrow>
          if \<not> allowOverwrite then
            if \<not> Equal D h c current then Inl (ErrNew ''existing combinable in collection combination'')
            else CombineUnique D currentMap allowOverwrite cs appendTo h
          else
            (case Overwrite D current c h of
               (False, h') \<Rightarrow> CombineUnique D currentMap allowOverwrite cs appendTo h'
             | (True, h') \<Rightarrow>
                 if length appendTo \<le> index \<or> Differeniator D h' (appendTo ! index) \<noteq> Differeniator D h' c then
                   Inl (ErrNew ''differentiator mismatch in overwrite'')
                 else CombineUnique D currentMap allowOverwrite cs (appendTo[index := current]) h'))"

section \<open>Combining collections\<close>

fun carry_disabled :: "string set \<Rightarrow> Api list \<Rightarrow> Api list \<Rightarrow> string set \<times> Api list" where
  "carry_disabled named [] apis = (named, apis)"
| "carry_disabled named (api # rest) apis =
     (if api_Enabled api \<or> api_Name api \<in> named then carry_disabled named rest apis
      else carry_disabled (insert (api_Name api) named) rest (apis @ [api]))"

text \<open>The collections a combination reads: the enabled ones, or all.\<close>

definition relevant :: "bool \<Rightarrow> spec_heap \<Rightarrow> coll_ptr list \<Rightarrow> ApiCollection list" where
  "relevant combineWithDisabled h others =
     filter (\<lambda>c. coll_Enabled c \<or> combineWithDisabled) (map (colls h) others)"

definition appendInheritedDisabledApis :: "spec_heap \<Rightarrow> Api list \<Rightarrow> coll_ptr list \<Rightarrow> bool \<Rightarrow> Api list" where
  "appendInheritedDisabledApis h apis others combineWithDisabled =
     snd (carry_disabled (api_Name ` set apis) (concat (map Apis (relevant combineWithDisabled h others))) apis)"

record merged_fields =
  m_apis :: "(string, Api) gomap \<times> Api list"
  m_headers :: "(string, Header) gomap \<times> Header list"
  m_parsers :: "(string, ParseDirective) gomap \<times> ParseDirective list"
  m_extensions :: "(string, Extension) gomap \<times> Extension list"
  m_verifications :: "(string, ver_ptr) gomap \<times> ver_ptr list"

text \<open>One round of the merging loop: the five fields of one collection, in the order of the code.\<close>

definition merge_collection :: "spec_heap \<Rightarrow> ApiCollection \<Rightarrow> bool \<Rightarrow> ApiCollection \<Rightarrow> merged_fields \<Rightarrow>
    go_error + merged_fields" where
  "merge_collection h me allowOverwrite c s =
     (case CombineFields api_combinable h (GetCurrentFromCombinable api_combinable h (Apis me)) allowOverwrite (Apis c) (m_apis s) of
        Inl e \<Rightarrow> Inl (ErrWrap ''merging apis error'' [e])
      | Inr a \<Rightarrow>
     (case CombineFields header_combinable h (GetCurrentFromCombinable header_combinable h (Headers me)) allowOverwrite (Headers c) (m_headers s) of
        Inl e \<Rightarrow> Inl (ErrWrap ''merging headers error'' [e])
      | Inr hd' \<Rightarrow>
     (case CombineFields directive_combinable h (GetCurrentFromCombinable directive_combinable h (ParseDirectives me)) allowOverwrite (ParseDirectives c) (m_parsers s) of
        Inl e \<Rightarrow> Inl (ErrWrap ''merging parse directives error'' [e])
      | Inr p \<Rightarrow>
     (case CombineFields extension_combinable h (GetCurrentFromCombinable extension_combinable h (Extensions me)) allowOverwrite (Extensions c) (m_extensions s) of
        Inl e \<Rightarrow> Inl (ErrWrap ''merging extensions error'' [e])
      | Inr x \<Rightarrow>
     (case CombineFields verification_combinable h (GetCurrentFromCombinable verification_combinable h (Verifications me)) allowOverwrite (Verifications c) (m_verifications s) of
        Inl e \<Rightarrow> Inl (ErrWrap ''merging verifications error'' [e])
      | Inr v \<Rightarrow> Inr \<lparr>m_apis = a, m_headers = hd', m_parsers = p, m_extensions = x, m_verifications = v\<rparr>)))))"

fun merge_collections :: "spec_heap \<Rightarrow> ApiCollection \<Rightarrow> bool \<Rightarrow> ApiCollection list \<Rightarrow> merged_fields \<Rightarrow>
    go_error + merged_fields" where
  "merge_collections h me allowOverwrite [] s = Inr s"
| "merge_collections h me allowOverwrite (c # cs) s =
     (case merge_collection h me allowOverwrite c s of
        Inl e \<Rightarrow> Inl e
      | Inr s' \<Rightarrow> merge_collections h me allowOverwrite cs s')"

definition no_fields :: merged_fields where
  "no_fields = \<lparr>m_apis = ([], []), m_headers = ([], []), m_parsers = ([], []), m_extensions = ([], []), m_verifications = ([], [])\<rparr>"

definition CombineWithOthers :: "coll_ptr \<Rightarrow> coll_ptr list \<Rightarrow> bool \<Rightarrow> bool \<Rightarrow> spec_heap \<Rightarrow> go_error + spec_heap" where
  "CombineWithOthers apic others combineWithDisabled allowOverwrite h =
     (let me = colls h apic in
      case merge_collections h me allowOverwrite (relevant combineWithDisabled h others) no_fields of
        Inl e \<Rightarrow> Inl e
      | Inr s \<Rightarrow>
     (case CombineUnique api_combinable (GetCurrentFromCombinable api_combinable h (Apis me)) allowOverwrite (snd (m_apis s)) (Apis me) h of
        Inl e \<Rightarrow> Inl (ErrWrap ''apis combination in collection'' [e])
      | Inr (apis, h1) \<Rightarrow>
     (case CombineUnique header_combinable (GetCurrentFromCombinable header_combinable h (Headers me)) allowOverwrite (snd (m_headers s)) (Headers me) h1 of
        Inl e \<Rightarrow> Inl (ErrWrap ''headers combination in collection'' [e])
      | Inr (headers, h2) \<Rightarrow>
     (case CombineUnique directive_combinable (GetCurrentFromCombinable directive_combinable h (ParseDirectives me)) allowOverwrite (snd (m_parsers s)) (ParseDirectives me) h2 of
        Inl e \<Rightarrow> Inl (ErrWrap ''parse directive combination in collection'' [e])
      | Inr (parsers, h3) \<Rightarrow>
     (case CombineUnique extension_combinable (GetCurrentFromCombinable extension_combinable h (Extensions me)) allowOverwrite (snd (m_extensions s)) (Extensions me) h3 of
        Inl e \<Rightarrow> Inl (ErrWrap ''extension combination in collection'' [e])
      | Inr (extensions, h4) \<Rightarrow>
     (case CombineUnique verification_combinable (GetCurrentFromCombinable verification_combinable h (Verifications me)) allowOverwrite (snd (m_verifications s)) (Verifications me) h4 of
        Inl e \<Rightarrow> Inl (ErrWrap ''verification combination in collection'' [e])
      | Inr (verifications, h5) \<Rightarrow>
          Inr (set_coll apic (me\<lparr>
            Apis := appendInheritedDisabledApis (set_coll apic (me\<lparr>Apis := apis\<rparr>) h1) apis others combineWithDisabled,
            Headers := headers,
            ParseDirectives := parsers, Extensions := extensions, Verifications := verifications\<rparr>) h5)))))))"

definition Inherit :: "coll_ptr \<Rightarrow> coll_ptr list \<Rightarrow> spec_heap \<Rightarrow> go_error + spec_heap" where
  "Inherit apic relevantCollections h = CombineWithOthers apic relevantCollections False True h"

text \<open>The map of a spec's own collections: of two with the same key the later one is found.\<close>

definition my_collection :: "coll_ptr list \<Rightarrow> CollectionData \<Rightarrow> coll_ptr option" where
  "my_collection my key = find (\<lambda>p. fst p = key) (rev my)"

lemma my_collection_Some: "my_collection my key = Some p \<Longrightarrow> fst p = key \<and> p \<in> set my"
  unfolding my_collection_def by (auto simp: find_Some_iff) (metis length_rev nth_mem set_rev)

lemma card_remaining_less:
  assumes "x \<in> set xs" "x \<notin> D" "finite (set xs)"
  shows "card (set xs - insert x D) < card (set xs - D)"
  using assms by (intro psubset_card_mono) auto

text \<open>\<open>dependencies\<close> is the set of collections on the call stack; what a call adds it removes when it
  returns, so a caller sees the set unchanged.\<close>

function (sequential) Expand :: "coll_ptr list \<Rightarrow> CollectionData set \<Rightarrow> coll_ptr \<Rightarrow> spec_heap \<Rightarrow> go_error + spec_heap"
  and expand_loop :: "coll_ptr list \<Rightarrow> CollectionData set \<Rightarrow> coll_ptr \<Rightarrow> CollectionData list \<Rightarrow> spec_heap \<Rightarrow>
    go_error + (coll_ptr list \<times> spec_heap)" where
  "Expand my dependencies apic h =
     (let me = colls h apic in
      case expand_loop my (insert (fst apic) dependencies) apic (InheritanceApis me)
             (set_coll apic (me\<lparr>InheritanceApis := []\<rparr>) h) of
        Inl e \<Rightarrow> Inl e
      | Inr (relevantCollections, h') \<Rightarrow> CombineWithOthers apic relevantCollections True True h')"
| "expand_loop my dependencies apic [] h = Inr ([], h)"
| "expand_loop my dependencies apic (inheriting # rest) h =
     (case my_collection my inheriting of
        None \<Rightarrow> Inl (ErrNew ''did not find inheritingCollection in myCollections'')
      | Some collection \<Rightarrow>
          if \<not> CanExpand (fst apic) (fst collection) then Inl (ErrNew ''invalid inheriting collection'')
          else if fst collection \<in> dependencies then Inl (ErrNew ''circular dependency in inheritance'')
          else
            (case Expand my dependencies collection h of
               Inl e \<Rightarrow> Inl e
             | Inr h' \<Rightarrow>
                 (case expand_loop my dependencies apic rest h' of
                    Inl e \<Rightarrow> Inl e
                  | Inr (relevantCollections, h'') \<Rightarrow> Inr (collection # relevantCollections, h''))))"
  by pat_completeness auto

termination
proof (relation "inv_image (less_than <*lex*> less_than <*lex*> less_than)
    (\<lambda>x. case x of Inl (my, d, a, h) \<Rightarrow> (card (set (map fst my) - insert (fst a) d), 1, 0)
                 | Inr (my, d, a, l, h) \<Rightarrow> (card (set (map fst my) - d), 0, length l))", goal_cases)
  case 1
  show ?case by auto
next
  case (2 my d a h x)
  then show ?case by simp
next
  case (3 my d a k rest h c)
  then have "fst c \<in> set (map fst my)" by (auto dest: my_collection_Some)
  then show ?case using 3 card_remaining_less [of "fst c" "map fst my" d] by simp
next
  case 4
  then show ?case by simp
qed

definition InheritAllFields :: "coll_ptr list \<Rightarrow> coll_ptr list \<Rightarrow> coll_ptr \<Rightarrow> spec_heap \<Rightarrow> go_error + spec_heap" where
  "InheritAllFields my relevantParentCollections apic h =
     (if \<not> list_all (\<lambda>other. fst other = fst apic) relevantParentCollections then
        Inl (ErrNew ''incompatible inheritance, apiCollections aren't equal'')
      else case Expand my {} apic h of
             Inl e \<Rightarrow> Inl e
           | Inr h' \<Rightarrow> Inherit apic relevantParentCollections h')"

section \<open>Expanding a spec\<close>

type_synonym parents_map = "(CollectionData, coll_ptr list) gomap"

text \<open>The enabled collections of the parents under their keys, in the order of the imports.\<close>

definition parentsCollections :: "spec_heap \<Rightarrow> Spec list \<Rightarrow> parents_map" where
  "parentsCollections h parents =
     fold (\<lambda>p m. if coll_Enabled (colls h p)
                  then mput (fst p) ((case mget m (fst p) of None \<Rightarrow> [] | Some ps \<Rightarrow> ps) @ [p]) m
                  else m)
       (concat (map ApiCollections parents)) []"

fun inherit_own :: "coll_ptr list \<Rightarrow> coll_ptr list \<Rightarrow> parents_map \<Rightarrow> spec_heap \<Rightarrow> go_error + (parents_map \<times> spec_heap)" where
  "inherit_own my [] pc h = Inr (pc, h)"
| "inherit_own my (collection # rest) pc h =
     (case InheritAllFields my (case mget pc (fst collection) of None \<Rightarrow> [] | Some ps \<Rightarrow> ps) collection h of
        Inl e \<Rightarrow> Inl e
      | Inr h' \<Rightarrow> inherit_own my rest (mdel (fst collection) pc) h')"

text \<open>The first enabled collection of a group takes in the others; without one the group is skipped.\<close>

fun split_enabled :: "spec_heap \<Rightarrow> coll_ptr list \<Rightarrow> coll_ptr list \<Rightarrow> (coll_ptr \<times> coll_ptr list) option" where
  "split_enabled h before [] = None"
| "split_enabled h before (p # rest) =
     (if coll_Enabled (colls h p) then Some (p, before @ rest) else split_enabled h (before @ [p]) rest)"

fun combine_groups :: "parents_map \<Rightarrow> CollectionData list \<Rightarrow> spec_heap \<Rightarrow> go_error + (coll_ptr list \<times> spec_heap)" where
  "combine_groups pc [] h = Inr ([], h)"
| "combine_groups pc (key # keys) h =
     (let collectionsToCombine = (case mget pc key of None \<Rightarrow> [] | Some ps \<Rightarrow> ps) in
      if collectionsToCombine = [] then Inl (ErrNew ''collection with length 0'')
      else case split_enabled h [] collectionsToCombine of
             None \<Rightarrow> combine_groups pc keys h
           | Some (combined, others) \<Rightarrow>
               (case CombineWithOthers combined others False False h of
                  Inl e \<Rightarrow> Inl e
                | Inr h' \<Rightarrow>
                    (case combine_groups pc keys h' of
                       Inl e \<Rightarrow> Inl e
                     | Inr (appended, h'') \<Rightarrow> Inr (combined # appended, h''))))"

definition CombineCollections :: "Spec \<Rightarrow> parents_map \<Rightarrow> spec_heap \<Rightarrow> go_error + (Spec \<times> spec_heap)" where
  "CombineCollections spec pc h =
     (case combine_groups pc (sort_key CollectionData_String (map fst pc)) h of
        Inl e \<Rightarrow> Inl e
      | Inr (appended, h') \<Rightarrow> Inr (spec\<lparr>ApiCollections := ApiCollections spec @ appended\<rparr>, h'))"

text \<open>The second half of \<open>DoExpandSpec\<close>: the spec takes over what its expanded parents hold.\<close>

definition take_over :: "Spec \<Rightarrow> Spec list \<Rightarrow> spec_heap \<Rightarrow> go_error + (Spec \<times> spec_heap)" where
  "take_over spec parents h =
     (case inherit_own (ApiCollections spec) (ApiCollections spec) (parentsCollections h parents) h of
        Inl e \<Rightarrow> Inl e
      | Inr (pc, h') \<Rightarrow> CombineCollections spec pc h')"

type_synonym spec_pool = "(string, Spec) gomap"

function (sequential) DoExpandSpec :: "spec_pool \<Rightarrow> string set \<Rightarrow> string set \<Rightarrow> Spec \<Rightarrow> spec_heap \<Rightarrow>
    go_error + (Spec \<times> string set \<times> spec_heap)"
  and import_loop :: "spec_pool \<Rightarrow> string set \<Rightarrow> string set \<Rightarrow> string list \<Rightarrow> spec_heap \<Rightarrow>
    go_error + (Spec list \<times> string set \<times> spec_heap)" where
  "DoExpandSpec specs depends inherit spec h =
     (case import_loop specs depends (inherit \<union> set (Imports spec)) (Imports spec) h of
        Inl e \<Rightarrow> Inl e
      | Inr (parents, inherit', h') \<Rightarrow>
          (case take_over spec parents h' of
             Inl e \<Rightarrow> Inl e
           | Inr (spec', h'') \<Rightarrow> Inr (spec', inherit', h'')))"
| "import_loop specs depends inherit [] h = Inr ([], inherit, h)"
| "import_loop specs depends inherit (index # rest) h =
     (case mget specs index of
        None \<Rightarrow> Inl (ErrNew ''imported spec unknown'')
      | Some imported \<Rightarrow>
          if index \<in> depends then Inl (ErrNew ''import loops not allowed for spec'')
          else
            (case DoExpandSpec specs (insert index depends) inherit imported h of
               Inl e \<Rightarrow> Inl e
             | Inr (imported', inherit', h') \<Rightarrow>
                 (case import_loop specs depends inherit' rest h' of
                    Inl e \<Rightarrow> Inl e
                  | Inr (parents, inherit'', h'') \<Rightarrow> Inr (imported' # parents, inherit'', h''))))"
  by pat_completeness auto

termination
proof (relation "inv_image (less_than <*lex*> less_than <*lex*> less_than)
    (\<lambda>x. case x of Inl (pool, d, i, s, h) \<Rightarrow> (card (set (map fst pool) - d), 1, 0)
                 | Inr (pool, d, i, l, h) \<Rightarrow> (card (set (map fst pool) - d), 0, length l))", goal_cases)
  case 1
  show ?case by auto
next
  case 2
  then show ?case by simp
next
  case (3 pool d i index rest h imported)
  then have "index \<in> set (map fst pool)" by (auto dest: map_of_SomeD intro: rev_image_eqI)
  then show ?case using 3 card_remaining_less [of index "map fst pool" d] by simp
next
  case 4
  then show ?case by simp
qed

definition expandSpecWithDependencies :: "spec_pool \<Rightarrow> string \<Rightarrow> spec_heap \<Rightarrow> go_error + (Spec \<times> spec_heap)" where
  "expandSpecWithDependencies specs index h =
     (case mget specs index of
        None \<Rightarrow> Inl (ErrNew ''spec not found for chainId'')
      | Some spec \<Rightarrow>
          (case DoExpandSpec specs {index} {} spec h of
             Inl e \<Rightarrow> Inl (ErrWrap ''spec expand failed'' [e])
           | Inr (spec', inherit, h') \<Rightarrow> Inr (spec', h')))"

declare Expand.simps [simp del] DoExpandSpec.simps [simp del]

section \<open>Imports\<close>

text \<open>The import graph of a pool, and what a list of imports reaches in it.\<close>

definition imports_of :: "spec_pool \<Rightarrow> (string \<times> string) set" where
  "imports_of specs = {(i, j). \<exists>s. mget specs i = Some s \<and> j \<in> set (Imports s)}"

definition reached :: "spec_pool \<Rightarrow> string list \<Rightarrow> string set" where
  "reached specs is = {j. \<exists>i \<in> set is. (i, j) \<in> (imports_of specs)\<^sup>*}"

lemma reached_Nil [simp]: "reached specs [] = {}"
  by (simp add: reached_def)

lemma reached_Cons:
  assumes "mget specs i = Some s"
  shows "reached specs (i # is) = insert i (reached specs (Imports s)) \<union> reached specs is"
proof -
  have "(i, j) \<in> (imports_of specs)\<^sup>* \<longleftrightarrow> j = i \<or> j \<in> reached specs (Imports s)" for j
    using assms by (auto simp: reached_def imports_of_def elim: converse_rtranclE intro: converse_rtrancl_into_rtrancl)
  then show ?thesis by (auto simp: reached_def)
qed

lemma reached_closed: "i \<in> reached specs is \<Longrightarrow> (i, j) \<in> (imports_of specs)\<^sup>+ \<Longrightarrow> j \<in> reached specs is"
  by (auto simp: reached_def) (meson rtrancl_trans trancl_into_rtrancl)

lemma reached_imports: "mget specs i = Some s \<Longrightarrow> j \<in> reached specs (Imports s) \<longleftrightarrow> (i, j) \<in> (imports_of specs)\<^sup>+"
  unfolding reached_def trancl_unfold_left by (auto simp: imports_of_def)

text \<open>A set of specs is sound to import from a call stack: all known, none on the stack, none in a cycle.\<close>

definition importable :: "spec_pool \<Rightarrow> string set \<Rightarrow> string set \<Rightarrow> bool" where
  "importable specs depends js \<longleftrightarrow>
     (\<forall>j \<in> js. mget specs j \<noteq> None \<and> j \<notin> depends \<and> (j, j) \<notin> (imports_of specs)\<^sup>+)"

lemma importable_Un [simp]: "importable specs D (A \<union> B) \<longleftrightarrow> importable specs D A \<and> importable specs D B"
  by (auto simp: importable_def)

lemma importable_Cons:
  assumes "mget specs i = Some s"
  shows "importable specs D (reached specs (i # is)) \<longleftrightarrow>
    i \<notin> D \<and> importable specs (insert i D) (reached specs (Imports s)) \<and> importable specs D (reached specs is)"
  using assms by (auto simp: reached_Cons importable_def reached_imports dest: reached_imports)

text \<open>What \<open>DoExpandSpec\<close> does to the call stack and to \<open>inherit\<close>, whatever the merging does.\<close>

lemma expand_success:
  "DoExpandSpec specs D inh s h = Inr r \<Longrightarrow>
     fst (snd r) = inh \<union> reached specs (Imports s) \<and> importable specs D (reached specs (Imports s))"
  "import_loop specs D inh is h = Inr r' \<Longrightarrow> set is \<subseteq> inh \<Longrightarrow>
     fst (snd r') = inh \<union> reached specs is \<and> importable specs D (reached specs is)"
proof (induction specs D inh s h and specs D inh "is" h arbitrary: r and r' rule: DoExpandSpec_import_loop.induct)
  case (1 specs D inh s h)
  have "set (Imports s) \<subseteq> reached specs (Imports s)" by (auto simp: reached_def)
  with 1 show ?case by (fastforce simp: DoExpandSpec.simps split: sum.splits prod.splits)
next
  case (2 specs D inh h)
  then show ?case by (auto simp: importable_def)
next
  case (3 specs D inh i rest h)
  then obtain s s' inh1 h1 ps where parts: "mget specs i = Some s" "i \<notin> D"
    "DoExpandSpec specs (insert i D) inh s h = Inr (s', inh1, h1)"
    "import_loop specs D inh1 rest h1 = Inr ps" "fst (snd r') = fst (snd ps)"
    by (auto split: option.splits sum.splits if_splits prod.splits)
  have one: "inh1 = inh \<union> reached specs (Imports s) \<and> importable specs (insert i D) (reached specs (Imports s))"
    using 3(1) [OF parts(1-3)] by simp
  then have "set rest \<subseteq> inh1" using 3(4) by auto
  then have two: "fst (snd ps) = inh1 \<union> reached specs rest \<and> importable specs D (reached specs rest)"
    using 3(2) [OF parts(1-3) refl refl] parts by simp
  have "importable specs D (reached specs (i # rest))"
    using one two parts(1,2) by (simp add: importable_Cons)
  then show ?case using one two parts 3(4) by (auto simp: reached_Cons)
qed

definition import_errors :: "go_error set" where
  "import_errors = {ErrNew ''imported spec unknown'', ErrNew ''import loops not allowed for spec''}"

lemma CombineWithOthers_wraps: "CombineWithOthers a others cd ao h = Inl e \<Longrightarrow> e \<notin> import_errors"
proof -
  have "merge_collection h me ao' c s = Inl e \<Longrightarrow> \<exists>t es. e = ErrWrap t es" for me ao' c s h
    by (auto simp: merge_collection_def split: sum.splits)
  then have "merge_collections h me ao' cs s = Inl e \<Longrightarrow> \<exists>t es. e = ErrWrap t es" for me ao' cs s h
    by (induction cs arbitrary: s) (auto split: sum.splits)
  moreover assume "CombineWithOthers a others cd ao h = Inl e"
  ultimately show ?thesis
    by (fastforce simp: CombineWithOthers_def Let_def import_errors_def split: sum.splits prod.splits)
qed

lemma Expand_errors:
  "Expand my D a h = Inl e \<Longrightarrow> e \<notin> import_errors"
  "expand_loop my D a l h = Inl e \<Longrightarrow> e \<notin> import_errors"
proof (induction my D a h and my D a l h rule: Expand_expand_loop.induct)
  case 1
  then show ?case by (auto simp: Expand.simps Let_def split: sum.splits prod.splits dest: CombineWithOthers_wraps)
next
  case 3
  then show ?case
    by (simp split: option.splits sum.splits if_splits prod.splits) (auto simp: import_errors_def)
qed simp

lemma take_over_errors: "take_over spec parents h = Inl e \<Longrightarrow> e \<notin> import_errors"
proof -
  have "combine_groups pc keys h = Inl e \<Longrightarrow> e \<notin> import_errors" for pc keys h
    by (induction pc keys h rule: combine_groups.induct)
      (auto simp: Let_def import_errors_def dest: CombineWithOthers_wraps split: if_splits option.splits sum.splits prod.splits)
  moreover have "inherit_own my l pc h = Inl e \<Longrightarrow> e \<notin> import_errors" for my l pc h
    by (induction my l pc h rule: inherit_own.induct)
      (auto simp: InheritAllFields_def Inherit_def dest: CombineWithOthers_wraps Expand_errors(1)
        split: if_splits option.splits sum.splits, auto simp: import_errors_def)
  moreover assume "take_over spec parents h = Inl e"
  ultimately show ?thesis
    by (auto simp: take_over_def CombineCollections_def split: sum.splits prod.splits)
qed

lemma expand_failure:
  "DoExpandSpec specs D inh s h = Inl e \<Longrightarrow> importable specs D (reached specs (Imports s)) \<Longrightarrow> e \<notin> import_errors"
  "import_loop specs D inh is h = Inl e \<Longrightarrow> importable specs D (reached specs is) \<Longrightarrow> e \<notin> import_errors"
proof (induction specs D inh s h and specs D inh "is" h rule: DoExpandSpec_import_loop.induct)
  case 1
  then show ?case by (auto simp: DoExpandSpec.simps split: sum.splits prod.splits dest: take_over_errors)
next
  case (3 specs D inh i rest h)
  have "i \<in> reached specs (i # rest)" by (auto simp: reached_def)
  with 3(4) obtain s where s: "mget specs i = Some s" by (auto simp: importable_def)
  then show ?case using 3 by (auto simp: importable_Cons split: if_splits sum.splits prod.splits)
qed simp

text \<open>The specs reachable from \<open>index\<close> include an unknown one, or one that imports itself.\<close>

definition import_fault :: "spec_pool \<Rightarrow> string \<Rightarrow> bool" where
  "import_fault specs index \<longleftrightarrow>
     (\<exists>j. (index, j) \<in> (imports_of specs)\<^sup>* \<and> (mget specs j = None \<or> (j, j) \<in> (imports_of specs)\<^sup>+))"

lemma import_fault_importable:
  assumes "mget specs index = Some spec"
  shows "import_fault specs index \<longleftrightarrow> \<not> importable specs {index} (reached specs (Imports spec))"
  unfolding import_fault_def importable_def using assms
  by (auto simp: rtrancl_eq_or_trancl reached_imports Bex_def)

text \<open>C34. Termination of spec expansion against cyclic imports. \<open>DoExpandSpec\<close> is total: its recursion
  through the import graph ends on every pool. When it succeeds for the spec \<open>index\<close>, every spec
  imported directly or through others is in the pool, none of them, nor \<open>index\<close>, imports itself
  through others, and \<open>inherit\<close> has become exactly the set of the specs imported. It fails with one of the
  two import errors only when there is such a fault in the import graph.\<close>

theorem import_cycles_are_refused:
  assumes "mget specs index = Some spec"
  shows "case DoExpandSpec specs {index} {} spec h of
      Inr (spec', inherit, h') \<Rightarrow> \<not> import_fault specs index \<and> inherit = {j. (index, j) \<in> (imports_of specs)\<^sup>+}
    | Inl e \<Rightarrow> e \<in> import_errors \<longrightarrow> import_fault specs index"
  using assms expand_success(1) [of specs "{index}" "{}" spec h] expand_failure(1) [of specs "{index}" "{}" spec h]
  by (auto simp: import_fault_importable reached_imports split: sum.split)

text \<open>Two specs that import each other: refused, and there is a fault.\<close>

definition empty_heap :: spec_heap where
  "empty_heap = \<lparr>colls = (\<lambda>_. \<lparr>coll_Enabled = True, Apis = [], Headers = [], InheritanceApis = [], ParseDirectives = [],
      Extensions = [], Verifications = []\<rparr>),
     vers = (\<lambda>_. \<lparr>ver_Name = [], ver_ParseDirective = None, ver_Values = []\<rparr>)\<rparr>"

definition cyclic_pool :: spec_pool where
  "cyclic_pool = [(''A'', \<lparr>Index = ''A'', Imports = [''B''], ApiCollections = []\<rparr>),
                  (''B'', \<lparr>Index = ''B'', Imports = [''A''], ApiCollections = []\<rparr>)]"

theorem import_cycles_are_refused_witness:
  "DoExpandSpec cyclic_pool {''A''} {} (the (mget cyclic_pool ''A'')) empty_heap =
     Inl (ErrNew ''import loops not allowed for spec'') \<and> import_fault cyclic_pool ''A''"
proof -
  have "DoExpandSpec cyclic_pool {''A''} {} (the (mget cyclic_pool ''A'')) empty_heap =
     Inl (ErrNew ''import loops not allowed for spec'')"
    by (simp add: cyclic_pool_def DoExpandSpec.simps)
  then show ?thesis
    using import_cycles_are_refused [of cyclic_pool "''A''" "the (mget cyclic_pool ''A'')" empty_heap]
    by (simp add: cyclic_pool_def import_errors_def)
qed

section \<open>What a collection inherits\<close>

text \<open>The specification of one field after a combination: the collection's own items, then the enabled
  items of the others whose keys it does not have. The items taken in agree wherever they share a
  key, except, when an overwrite is allowed, under a key the collection defines itself.\<close>

definition inherited :: "'t combinable \<Rightarrow> spec_heap \<Rightarrow> 't list \<Rightarrow> 't list \<Rightarrow> 't list" where
  "inherited D h own items =
     own @ filter (\<lambda>c. GetEnabled D c \<and> Differeniator D h c \<notin> Differeniator D h ` set own) items"

definition agree :: "'t combinable \<Rightarrow> spec_heap \<Rightarrow> 't list \<Rightarrow> bool \<Rightarrow> 't list \<Rightarrow> bool" where
  "agree D h own allowOverwrite items \<longleftrightarrow>
     (\<forall>c \<in> set items. \<forall>c' \<in> set items.
        GetEnabled D c \<and> GetEnabled D c' \<and> Differeniator D h c = Differeniator D h c' \<longrightarrow>
        Equal D h c c' \<or> allowOverwrite \<and> Differeniator D h c \<in> Differeniator D h ` set own)"

text \<open>What the merging relies on in a type of items: \<open>Equal\<close> is an equivalence that implies the same
  key, and an overwrite keeps every key.\<close>

locale combinable_items =
  fixes D :: "'t combinable"
  assumes Equal_refl: "Equal D h a a"
    and Equal_sym: "Equal D h a b \<Longrightarrow> Equal D h b a"
    and Equal_trans: "Equal D h a b \<Longrightarrow> Equal D h b c \<Longrightarrow> Equal D h a c"
    and Equal_key: "Equal D h a b \<Longrightarrow> Differeniator D h a = Differeniator D h b"
    and Overwrite_key: "Overwrite D a b h = (ok, h') \<Longrightarrow> Differeniator D h' = Differeniator D h"
    and Overwrite_colls: "Overwrite D a b h = (ok, h') \<Longrightarrow> colls h' = colls h"
begin

definition current_of :: "spec_heap \<Rightarrow> 't list \<Rightarrow> 't current_map \<Rightarrow> bool" where
  "current_of h cur m \<longleftrightarrow> (\<forall>k. mget m k \<noteq> None \<longleftrightarrow> k \<in> Differeniator D h ` set cur) \<and>
     (\<forall>k i c. mget m k = Some (i, c) \<longrightarrow> i < length cur \<and> cur ! i = c \<and> Differeniator D h c = k)"

lemma current_of_snoc:
  assumes m: "current_of h cur m"
  shows "current_of h (cur @ [c]) (mput (Differeniator D h c) (length cur, c) m)"
proof -
  let ?k = "Differeniator D h c" and ?m = "mput (Differeniator D h c) (length cur, c) m"
  have "i < length (cur @ [c]) \<and> (cur @ [c]) ! i = c' \<and> Differeniator D h c' = k"
    if "mget ?m k = Some (i, c')" for k i c'
  proof (cases "k = ?k")
    case False
    then have "mget m k = Some (i, c')" using that by simp
    then have "i < length cur \<and> cur ! i = c' \<and> Differeniator D h c' = k" using m unfolding current_of_def by blast
    then show ?thesis by (simp add: nth_append)
  qed (use that in auto)
  moreover have "mget ?m k \<noteq> None \<longleftrightarrow> k \<in> Differeniator D h ` set (cur @ [c])" for k
    using m unfolding current_of_def by (cases "k = ?k") (simp_all del: not_None_eq)
  ultimately show ?thesis unfolding current_of_def by blast
qed

lemma GetCurrent_ok: "current_of h cur (GetCurrentFromCombinable D h cur)"
proof (induction cur rule: rev_induct)
  case Nil
  then show ?case by (simp add: GetCurrentFromCombinable_def current_of_def)
next
  case (snoc c cur)
  then show ?case using current_of_snoc [OF snoc] by (simp add: GetCurrentFromCombinable_def)
qed

text \<open>Merged so far: every item agrees with the one the map has under its key, except where the child
  settles the conflict.\<close>

definition merged_ok :: "spec_heap \<Rightarrow> 't current_map \<Rightarrow> bool \<Rightarrow> (string, 't) gomap \<times> 't list \<Rightarrow> bool" where
  "merged_ok h child ao s \<longleftrightarrow> (\<forall>c \<in> set (snd s). ao \<and> mget child (Differeniator D h c) \<noteq> None \<or>
     (\<exists>x. mget (fst s) (Differeniator D h c) = Some x \<and> Equal D h c x))"

lemma merged_ok_step:
  assumes ok: "merged_ok h child ao (mm, ml)"
    and old: "\<And>x. mget mm (Differeniator D h c) = Some x \<Longrightarrow>
      Equal D h c x \<or> ao \<and> mget child (Differeniator D h c) \<noteq> None"
  shows "merged_ok h child ao (mput (Differeniator D h c) c mm, ml @ [c])"
proof -
  let ?mm = "mput (Differeniator D h c) c mm"
  have "ao \<and> mget child (Differeniator D h d) \<noteq> None \<or> (\<exists>x. mget ?mm (Differeniator D h d) = Some x \<and> Equal D h d x)"
    if d: "d \<in> set ml \<or> d = c" for d
  proof (cases "d = c \<or> ao \<and> mget child (Differeniator D h d) \<noteq> None")
    case False
    then obtain x where x: "mget mm (Differeniator D h d) = Some x" "Equal D h d x"
      using ok d by (fastforce simp: merged_ok_def simp del: not_None_eq)
    show ?thesis
    proof (cases "Differeniator D h d = Differeniator D h c")
      case True
      then have "Equal D h c x" using old x False by metis
      then show ?thesis using True x by (auto intro: Equal_sym Equal_trans)
    qed (use x in simp)
  qed (auto intro: Equal_refl)
  then show ?thesis unfolding merged_ok_def by (simp add: Equal_refl del: not_None_eq)
qed

lemma CombineFields_success:
  "CombineFields D h child ao cs s = Inr s' \<Longrightarrow>
    snd s' = snd s @ filter (GetEnabled D) cs \<and> (merged_ok h child ao s \<longrightarrow> merged_ok h child ao s')"
proof (induction cs arbitrary: s)
  case (Cons c cs)
  obtain mm ml where s: "s = (mm, ml)" by (cases s)
  show ?case
  proof (cases "GetEnabled D c")
    case True
    let ?s = "(mput (Differeniator D h c) c mm, ml @ [c])"
    have "CombineFields D h child ao cs ?s = Inr s'"
      and "mget mm (Differeniator D h c) = Some x \<Longrightarrow> Equal D h c x \<or> ao \<and> mget child (Differeniator D h c) \<noteq> None" for x
      using Cons.prems True by (auto simp: s Let_def split: if_splits option.splits)
    then show ?thesis using Cons.IH [of ?s] True merged_ok_step [of h child ao mm ml c] by (auto simp: s)
  qed (use Cons in \<open>simp add: s\<close>)
qed auto

text \<open>The items of \<open>cur\<close> come first and stay where they are; of the others those with a new key follow.\<close>

lemma CombineUnique_result:
  assumes "current_of h cur m"
    and "CombineUnique D m ao cs (cur @ ext) h1 = Inr (res, h')"
    and "Differeniator D h1 = Differeniator D h"
  shows "res = cur @ ext @ filter (\<lambda>c. Differeniator D h c \<notin> Differeniator D h ` set cur) cs \<and>
    Differeniator D h' = Differeniator D h \<and> colls h' = colls h1"
  using assms
proof (induction cs arbitrary: ext h1)
  case (Cons c cs)
  have in_cur: "mget m (Differeniator D h c) \<noteq> None \<longleftrightarrow> Differeniator D h c \<in> Differeniator D h ` set cur"
    using Cons.prems(1) unfolding current_of_def by blast
  show ?case
  proof (cases "mget m (Differeniator D h c)")
    case None
    then show ?thesis using Cons.IH [of "ext @ [c]" h1] Cons.prems in_cur by simp
  next
    case (Some ic)
    obtain i d where ic: "ic = (i, d)" by (cases ic)
    obtain ok h2 where ow: "Overwrite D d c h1 = (ok, h2)" by (cases "Overwrite D d c h1")
    have at: "i < length cur" "cur ! i = d" using Cons.prems(1) Some ic unfolding current_of_def by blast+
    then have same: "(cur @ ext)[i := d] = cur @ ext" by (metis list_update_append1 list_update_id)
    have keys: "Differeniator D h2 = Differeniator D h" "colls h2 = colls h1"
      using Overwrite_key [OF ow] Overwrite_colls [OF ow] Cons.prems(3) by simp_all
    have "CombineUnique D m ao cs (cur @ ext) h1 = Inr (res, h') \<or> CombineUnique D m ao cs (cur @ ext) h2 = Inr (res, h')"
      using Cons.prems(2,3) Some ic ow same by (auto split: if_splits bool.splits)
    then show ?thesis
      using Cons.IH [of ext h1] Cons.IH [of ext h2] Cons.prems(1,3) keys Some in_cur by auto
  qed
qed auto

text \<open>With \<open>allowOverwrite\<close> the second pass cannot fail.\<close>

lemma CombineUnique_total:
  assumes "current_of h cur m" "Differeniator D h1 = Differeniator D h"
  shows "\<exists>r. CombineUnique D m True cs (cur @ ext) h1 = Inr r"
  using assms
proof (induction cs arbitrary: ext h1)
  case (Cons c cs)
  show ?case
  proof (cases "mget m (Differeniator D h c)")
    case None
    then show ?thesis using Cons.IH [of h1 "ext @ [c]"] Cons.prems by simp
  next
    case (Some ic)
    obtain i d where ic: "ic = (i, d)" by (cases ic)
    obtain ok h2 where ow: "Overwrite D d c h1 = (ok, h2)" by (cases "Overwrite D d c h1")
    have at: "i < length cur" "cur ! i = d" "Differeniator D h d = Differeniator D h c"
      using Cons.prems(1) Some ic unfolding current_of_def by blast+
    then have same: "(cur @ ext)[i := d] = cur @ ext" by (metis list_update_append1 list_update_id)
    have "Differeniator D h2 = Differeniator D h" using Overwrite_key [OF ow] Cons.prems(2) by simp
    then show ?thesis
      using Cons.IH [of h1 ext] Cons.IH [of h2 ext] Cons.prems Some ic ow same at by (auto simp: nth_append split: bool.splits)
  qed
qed simp

text \<open>The state of one field during the merging loop, after the items \<open>items\<close>.\<close>

definition field_ok :: "spec_heap \<Rightarrow> 't list \<Rightarrow> bool \<Rightarrow> 't list \<Rightarrow> (string, 't) gomap \<times> 't list \<Rightarrow> bool" where
  "field_ok h own ao items s \<longleftrightarrow>
     snd s = filter (GetEnabled D) items \<and> merged_ok h (GetCurrentFromCombinable D h own) ao s"

lemma field_ok_start: "field_ok h own ao [] ([], [])"
  by (simp add: field_ok_def merged_ok_def)

lemma field_ok_step:
  "field_ok h own ao items s \<Longrightarrow>
   CombineFields D h (GetCurrentFromCombinable D h own) ao cs s = Inr s' \<Longrightarrow> field_ok h own ao (items @ cs) s'"
  by (auto simp: field_ok_def dest: CombineFields_success)

lemma field_ok_agree:
  assumes "field_ok h own ao items s"
  shows "agree D h own ao items"
proof -
  have key: "mget (GetCurrentFromCombinable D h own) k \<noteq> None \<longleftrightarrow> k \<in> Differeniator D h ` set own" for k
    using GetCurrent_ok [of h own] unfolding current_of_def by blast
  have "ao \<and> Differeniator D h c \<in> Differeniator D h ` set own \<or>
      (\<exists>x. mget (fst s) (Differeniator D h c) = Some x \<and> Equal D h c x)"
    if "c \<in> set items" "GetEnabled D c" for c
    using assms that by (simp add: field_ok_def merged_ok_def key del: not_None_eq)
  then show ?thesis unfolding agree_def by (metis Equal_sym Equal_trans option.inject)
qed

text \<open>Conversely, items that agree are never refused.\<close>

definition merged_from :: "spec_heap \<Rightarrow> 't list \<Rightarrow> (string, 't) gomap \<times> 't list \<Rightarrow> bool" where
  "merged_from h items s \<longleftrightarrow>
     (\<forall>k x. mget (fst s) k = Some x \<longrightarrow> x \<in> set items \<and> GetEnabled D x \<and> Differeniator D h x = k)"

lemma CombineFields_total:
  "merged_from h items s \<Longrightarrow> agree D h own ao (items @ cs) \<Longrightarrow>
    \<exists>s'. CombineFields D h (GetCurrentFromCombinable D h own) ao cs s = Inr s' \<and> merged_from h (items @ cs) s'"
proof (induction cs arbitrary: items s)
  case (Cons c cs)
  obtain mm ml where s: "s = (mm, ml)" by (cases s)
  let ?m = "GetCurrentFromCombinable D h own"
  let ?s = "if GetEnabled D c then (mput (Differeniator D h c) c mm, ml @ [c]) else s"
  have key: "mget ?m k \<noteq> None \<longleftrightarrow> k \<in> Differeniator D h ` set own" for k
    using GetCurrent_ok [of h own] unfolding current_of_def by blast
  have "Equal D h c x \<or> ao \<and> mget ?m (Differeniator D h c) \<noteq> None"
    if "GetEnabled D c" "mget mm (Differeniator D h c) = Some x" for x
  proof -
    have "x \<in> set items" "GetEnabled D x" "Differeniator D h x = Differeniator D h c"
      using Cons.prems(1) that(2) by (auto simp: merged_from_def s)
    moreover have "c \<in> set (items @ c # cs)" "x \<in> set (items @ c # cs)" using calculation(1) by simp_all
    ultimately show ?thesis using Cons.prems(2) that(1) unfolding agree_def key by metis
  qed
  then have "CombineFields D h ?m ao (c # cs) s = CombineFields D h ?m ao cs ?s"
    by (auto simp: s Let_def split: option.split)
  moreover have "merged_from h (items @ [c]) ?s" using Cons.prems(1) by (auto simp: merged_from_def s)
  ultimately show ?case using Cons.IH [of "items @ [c]" ?s] Cons.prems(2) by simp
next
  case Nil
  then show ?case by (cases s) simp
qed

lemma merged_from_start: "merged_from h [] ([], [])"
  by (simp add: merged_from_def)

lemma field_result:
  assumes "field_ok h own ao items s"
    and "CombineUnique D (GetCurrentFromCombinable D h own) ao (snd s) own h1 = Inr (res, h')"
    and "Differeniator D h1 = Differeniator D h"
  shows "res = inherited D h own items \<and> colls h' = colls h1"
  using CombineUnique_result [OF GetCurrent_ok [of h own], of ao "snd s" "[]" h1 res h'] assms
  by (auto simp: inherited_def field_ok_def conj_commute)

end

interpretation apis: combinable_items api_combinable
  by unfold_locales (auto simp: api_combinable_def)

interpretation headers: combinable_items header_combinable
  by unfold_locales (auto simp: header_combinable_def)

interpretation directives: combinable_items directive_combinable
  by unfold_locales (auto simp: directive_combinable_def directive_Differeniator_def)

interpretation extensions: combinable_items extension_combinable
  by unfold_locales (auto simp: extension_combinable_def)

interpretation verifications: combinable_items verification_combinable
  by unfold_locales
    (auto simp: verification_combinable_def Verification_Overwrite_def Let_def fun_eq_iff split: if_splits)

lemmas field_steps = apis.field_ok_step headers.field_ok_step directives.field_ok_step extensions.field_ok_step
  verifications.field_ok_step

definition all_ok :: "spec_heap \<Rightarrow> ApiCollection \<Rightarrow> bool \<Rightarrow> ApiCollection list \<Rightarrow> merged_fields \<Rightarrow> bool" where
  "all_ok h me ao cs s \<longleftrightarrow>
     apis.field_ok h (Apis me) ao (concat (map Apis cs)) (m_apis s) \<and>
     headers.field_ok h (Headers me) ao (concat (map Headers cs)) (m_headers s) \<and>
     directives.field_ok h (ParseDirectives me) ao (concat (map ParseDirectives cs)) (m_parsers s) \<and>
     extensions.field_ok h (Extensions me) ao (concat (map Extensions cs)) (m_extensions s) \<and>
     verifications.field_ok h (Verifications me) ao (concat (map Verifications cs)) (m_verifications s)"

lemma merge_collection_ok:
  "all_ok h me ao cs s \<Longrightarrow> merge_collection h me ao c s = Inr s' \<Longrightarrow> all_ok h me ao (cs @ [c]) s'"
  by (auto simp: all_ok_def merge_collection_def intro: field_steps split: sum.splits)

lemma merge_collections_ok:
  "all_ok h me ao done s \<Longrightarrow> merge_collections h me ao cs s = Inr s' \<Longrightarrow> all_ok h me ao (done @ cs) s'"
proof (induction cs arbitrary: "done" s)
  case (Cons c cs)
  then obtain s1 where "merge_collection h me ao c s = Inr s1" "merge_collections h me ao cs s1 = Inr s'"
    by (auto split: sum.splits)
  then show ?case using Cons.IH [of "done @ [c]" s1] Cons.prems(1) merge_collection_ok by fastforce
qed simp

lemma all_ok_start: "all_ok h me ao [] no_fields"
  by (simp add: all_ok_def no_fields_def apis.field_ok_start headers.field_ok_start directives.field_ok_start
      extensions.field_ok_start verifications.field_ok_start)

lemma carry_disabled_result:
  "carry_disabled named rest apis = (named', res) \<Longrightarrow> api_Name ` set apis \<subseteq> named \<Longrightarrow>
     \<exists>ms. res = apis @ ms \<and> set ms \<subseteq> {x \<in> set rest. \<not> api_Enabled x} \<and> distinct (map api_Name ms) \<and>
       api_Name ` set ms \<inter> named = {} \<and> (\<forall>x \<in> set rest. \<not> api_Enabled x \<longrightarrow> api_Name x \<in> named \<union> api_Name ` set ms)"
proof (induction named rest apis rule: carry_disabled.induct)
  case (2 named api rest apis)
  show ?case
  proof (cases "api_Enabled api \<or> api_Name api \<in> named")
    case False
    then have "carry_disabled (insert (api_Name api) named) rest (apis @ [api]) = (named', res)"
      and "api_Name ` set (apis @ [api]) \<subseteq> insert (api_Name api) named"
      using 2(3,4) by auto
    from 2(2) [OF False this] obtain ms where "res = (apis @ [api]) @ ms" "set ms \<subseteq> {x \<in> set rest. \<not> api_Enabled x}"
      "distinct (map api_Name ms)" "api_Name ` set ms \<inter> insert (api_Name api) named = {}"
      "\<forall>x \<in> set rest. \<not> api_Enabled x \<longrightarrow> api_Name x \<in> insert (api_Name api) named \<union> api_Name ` set ms"
      by blast
    then show ?thesis using False by (intro exI [of _ "api # ms"]) auto
  next
    case True
    then have "carry_disabled named rest apis = (named', res)" using 2(3) by simp
    then obtain ms where "res = apis @ ms" "set ms \<subseteq> {x \<in> set rest. \<not> api_Enabled x}"
      "distinct (map api_Name ms)" "api_Name ` set ms \<inter> named = {}"
      "\<forall>x \<in> set rest. \<not> api_Enabled x \<longrightarrow> api_Name x \<in> named \<union> api_Name ` set ms"
      using 2(1) [OF True _ 2(4)] by blast
    then show ?thesis using True by (intro exI [of _ ms]) auto
  qed
qed auto

text \<open>The collections read again after the first field was set: what the receiver has by then is
  named already.\<close>

lemma in_relevant:
  "x \<in> set (concat (map Apis (relevant cd h others))) \<longleftrightarrow>
    (\<exists>p \<in> set others. (coll_Enabled (colls h p) \<or> cd) \<and> x \<in> set (Apis (colls h p)))"
  by (auto simp: relevant_def)

lemma relevant_after_set:
  assumes "set (Apis (colls h a)) \<subseteq> set as"
  shows "set (concat (map Apis (relevant cd h others))) \<subseteq>
      set (concat (map Apis (relevant cd (set_coll a ((colls h a)\<lparr>Apis := as\<rparr>) h) others)))"
    and "set (concat (map Apis (relevant cd (set_coll a ((colls h a)\<lparr>Apis := as\<rparr>) h) others))) \<subseteq>
      set as \<union> set (concat (map Apis (relevant cd h others)))"
proof -
  let ?h = "set_coll a ((colls h a)\<lparr>Apis := as\<rparr>) h"
  have same: "coll_Enabled (colls ?h p) = coll_Enabled (colls h p)"
    and grows: "set (Apis (colls h p)) \<subseteq> set (Apis (colls ?h p))"
    and only: "set (Apis (colls ?h p)) \<subseteq> set as \<union> set (Apis (colls h p))" for p
    using assms by (simp_all add: set_coll_def)
  show "set (concat (map Apis (relevant cd h others))) \<subseteq> set (concat (map Apis (relevant cd ?h others)))"
    unfolding subset_iff in_relevant same using grows by blast
  show "set (concat (map Apis (relevant cd ?h others))) \<subseteq> set as \<union> set (concat (map Apis (relevant cd h others)))"
    unfolding subset_iff Un_iff in_relevant same using only by blast
qed

definition markers_of :: "string set \<Rightarrow> Api list \<Rightarrow> Api list \<Rightarrow> bool" where
  "markers_of named items ms \<longleftrightarrow> set ms \<subseteq> {x \<in> set items. \<not> api_Enabled x} \<and> distinct (map api_Name ms) \<and>
     api_Name ` set ms \<inter> named = {} \<and>
     (\<forall>x \<in> set items. \<not> api_Enabled x \<longrightarrow> api_Name x \<in> named \<union> api_Name ` set ms)"

lemma appendInheritedDisabledApis_markers:
  assumes "set (Apis (colls h a)) \<subseteq> set as"
  shows "\<exists>ms. appendInheritedDisabledApis (set_coll a ((colls h a)\<lparr>Apis := as\<rparr>) h) as others cd = as @ ms \<and>
    markers_of (api_Name ` set as) (concat (map Apis (relevant cd h others))) ms"
proof -
  let ?new = "concat (map Apis (relevant cd (set_coll a ((colls h a)\<lparr>Apis := as\<rparr>) h) others))"
  obtain named' res where eq: "carry_disabled (api_Name ` set as) ?new as = (named', res)" by (cases "carry_disabled (api_Name ` set as) ?new as")
  from carry_disabled_result [OF eq] obtain ms where ms: "res = as @ ms" "set ms \<subseteq> {x \<in> set ?new. \<not> api_Enabled x}"
    "distinct (map api_Name ms)" "api_Name ` set ms \<inter> api_Name ` set as = {}"
    "\<forall>x \<in> set ?new. \<not> api_Enabled x \<longrightarrow> api_Name x \<in> api_Name ` set as \<union> api_Name ` set ms"
    by blast
  have "x \<in> set (concat (map Apis (relevant cd h others))) \<and> \<not> api_Enabled x" if "x \<in> set ms" for x
    using that ms(2,4) relevant_after_set(2) [OF assms, of cd others] by (auto simp del: set_concat)
  then have "markers_of (api_Name ` set as) (concat (map Apis (relevant cd h others))) ms"
    using ms relevant_after_set(1) [OF assms, of cd others] unfolding markers_of_def by blast
  then show ?thesis using ms(1) eq by (auto simp: appendInheritedDisabledApis_def)
qed

text \<open>The specification of a combination of the collection \<open>me\<close> with the collections \<open>cs\<close>.\<close>

definition fields_agree :: "spec_heap \<Rightarrow> ApiCollection \<Rightarrow> bool \<Rightarrow> ApiCollection list \<Rightarrow> bool" where
  "fields_agree h me ao cs \<longleftrightarrow>
     agree api_combinable h (Apis me) ao (concat (map Apis cs)) \<and>
     agree header_combinable h (Headers me) ao (concat (map Headers cs)) \<and>
     agree directive_combinable h (ParseDirectives me) ao (concat (map ParseDirectives cs)) \<and>
     agree extension_combinable h (Extensions me) ao (concat (map Extensions cs)) \<and>
     agree verification_combinable h (Verifications me) ao (concat (map Verifications cs))"

definition combination_of :: "spec_heap \<Rightarrow> ApiCollection \<Rightarrow> ApiCollection list \<Rightarrow> ApiCollection \<Rightarrow> bool" where
  "combination_of h me cs me' \<longleftrightarrow>
     (let enabled = inherited api_combinable h (Apis me) (concat (map Apis cs)) in
      \<exists>ms. markers_of (api_Name ` set enabled) (concat (map Apis cs)) ms \<and>
        me' = me\<lparr>Apis := enabled @ ms,
          Headers := inherited header_combinable h (Headers me) (concat (map Headers cs)),
          ParseDirectives := inherited directive_combinable h (ParseDirectives me) (concat (map ParseDirectives cs)),
          Extensions := inherited extension_combinable h (Extensions me) (concat (map Extensions cs)),
          Verifications := inherited verification_combinable h (Verifications me) (concat (map Verifications cs))\<rparr>)"

lemma no_overwrite_heap:
  assumes "\<And>a b h. Overwrite D a b h = (False, h)" "CombineUnique D m ao cs to h = Inr (res, h')"
  shows "h' = h"
  using assms(2) by (induction cs arbitrary: to) (auto simp: assms(1) split: if_splits option.splits prod.splits)

lemma CombineWithOthers_steps:
  assumes "CombineWithOthers a others cd ao h = Inr h'"
  obtains s where "all_ok h (colls h a) ao (relevant cd h others) s"
    and "combination_of h (colls h a) (relevant cd h others) (colls h' a)"
    and "\<forall>p. p \<noteq> a \<longrightarrow> colls h' p = colls h p"
proof -
  let ?me = "colls h a" and ?cs = "relevant cd h others"
  obtain s as h1 hs h2 ps h3 es h4 vs h5 where parts: "merge_collections h ?me ao ?cs no_fields = Inr s"
    "CombineUnique api_combinable (GetCurrentFromCombinable api_combinable h (Apis ?me)) ao (snd (m_apis s)) (Apis ?me) h = Inr (as, h1)"
    "CombineUnique header_combinable (GetCurrentFromCombinable header_combinable h (Headers ?me)) ao (snd (m_headers s)) (Headers ?me) h1 = Inr (hs, h2)"
    "CombineUnique directive_combinable (GetCurrentFromCombinable directive_combinable h (ParseDirectives ?me)) ao (snd (m_parsers s)) (ParseDirectives ?me) h2 = Inr (ps, h3)"
    "CombineUnique extension_combinable (GetCurrentFromCombinable extension_combinable h (Extensions ?me)) ao (snd (m_extensions s)) (Extensions ?me) h3 = Inr (es, h4)"
    "CombineUnique verification_combinable (GetCurrentFromCombinable verification_combinable h (Verifications ?me)) ao (snd (m_verifications s)) (Verifications ?me) h4 = Inr (vs, h5)"
    "h' = set_coll a (?me\<lparr>Apis := appendInheritedDisabledApis (set_coll a (?me\<lparr>Apis := as\<rparr>) h1) as others cd,
       Headers := hs, ParseDirectives := ps, Extensions := es, Verifications := vs\<rparr>) h5"
    using assms by (auto simp: CombineWithOthers_def Let_def split: sum.splits prod.splits)
  have heaps: "h1 = h" "h2 = h" "h3 = h" "h4 = h"
    using parts(2-5) by (auto dest!: no_overwrite_heap [rotated]
      simp: api_combinable_def header_combinable_def directive_combinable_def extension_combinable_def)
  have ok: "all_ok h ?me ao ?cs s" using merge_collections_ok [OF all_ok_start parts(1)] by simp
  note fields = ok [unfolded all_ok_def]
  have as: "as = inherited api_combinable h (Apis ?me) (concat (map Apis ?cs))"
    using apis.field_result parts(2) fields by blast
  have hs: "hs = inherited header_combinable h (Headers ?me) (concat (map Headers ?cs))"
    using headers.field_result parts(3) fields heaps by blast
  have ps: "ps = inherited directive_combinable h (ParseDirectives ?me) (concat (map ParseDirectives ?cs))"
    using directives.field_result parts(4) fields heaps by blast
  have es: "es = inherited extension_combinable h (Extensions ?me) (concat (map Extensions ?cs))"
    using extensions.field_result parts(5) fields heaps by blast
  have vs: "vs = inherited verification_combinable h (Verifications ?me) (concat (map Verifications ?cs)) \<and> colls h5 = colls h"
    using verifications.field_result parts(6) fields heaps by blast
  have "set (Apis ?me) \<subseteq> set as" by (auto simp: as inherited_def)
  from appendInheritedDisabledApis_markers [OF this, of others cd]
  have "combination_of h ?me ?cs (colls h' a)"
    unfolding combination_of_def Let_def as [symmetric]
    using parts(7) heaps hs ps es vs by (auto simp: set_coll_def)
  moreover have "\<forall>p. p \<noteq> a \<longrightarrow> colls h' p = colls h p" using parts(7) vs by (simp add: set_coll_def)
  ultimately show thesis using that ok by blast
qed

text \<open>When the fields agree and an overwrite is allowed, no step fails.\<close>

lemmas fields_total = apis.CombineFields_total headers.CombineFields_total directives.CombineFields_total
  extensions.CombineFields_total verifications.CombineFields_total

definition all_from :: "spec_heap \<Rightarrow> ApiCollection list \<Rightarrow> merged_fields \<Rightarrow> bool" where
  "all_from h cs s \<longleftrightarrow>
     apis.merged_from h (concat (map Apis cs)) (m_apis s) \<and>
     headers.merged_from h (concat (map Headers cs)) (m_headers s) \<and>
     directives.merged_from h (concat (map ParseDirectives cs)) (m_parsers s) \<and>
     extensions.merged_from h (concat (map Extensions cs)) (m_extensions s) \<and>
     verifications.merged_from h (concat (map Verifications cs)) (m_verifications s)"

lemma agree_append: "agree D h own ao (xs @ ys) \<Longrightarrow> agree D h own ao xs"
  by (simp add: agree_def)

lemma merge_collection_total:
  assumes "all_from h cs s" "fields_agree h me ao (cs @ [c])"
  shows "\<exists>s'. merge_collection h me ao c s = Inr s' \<and> all_from h (cs @ [c]) s'"
proof -
  note start = assms(1) [unfolded all_from_def] and ag = assms(2) [unfolded fields_agree_def, simplified]
  obtain a where a: "CombineFields api_combinable h (GetCurrentFromCombinable api_combinable h (Apis me)) ao (Apis c) (m_apis s) = Inr a"
      "apis.merged_from h (concat (map Apis cs) @ Apis c) a"
    using fields_total(1) start ag by meson
  obtain hd' where h: "CombineFields header_combinable h (GetCurrentFromCombinable header_combinable h (Headers me)) ao (Headers c) (m_headers s) = Inr hd'"
      "headers.merged_from h (concat (map Headers cs) @ Headers c) hd'"
    using fields_total(2) start ag by meson
  obtain p where p: "CombineFields directive_combinable h (GetCurrentFromCombinable directive_combinable h (ParseDirectives me)) ao (ParseDirectives c) (m_parsers s) = Inr p"
      "directives.merged_from h (concat (map ParseDirectives cs) @ ParseDirectives c) p"
    using fields_total(3) start ag by meson
  obtain x where x: "CombineFields extension_combinable h (GetCurrentFromCombinable extension_combinable h (Extensions me)) ao (Extensions c) (m_extensions s) = Inr x"
      "extensions.merged_from h (concat (map Extensions cs) @ Extensions c) x"
    using fields_total(4) start ag by meson
  obtain v where v: "CombineFields verification_combinable h (GetCurrentFromCombinable verification_combinable h (Verifications me)) ao (Verifications c) (m_verifications s) = Inr v"
      "verifications.merged_from h (concat (map Verifications cs) @ Verifications c) v"
    using fields_total(5) start ag by meson
  show ?thesis using a h p x v by (simp add: merge_collection_def all_from_def)
qed

lemma merge_collections_total:
  "all_from h cs s \<Longrightarrow> fields_agree h me ao (cs @ rest) \<Longrightarrow> \<exists>s'. merge_collections h me ao rest s = Inr s'"
proof (induction rest arbitrary: cs s)
  case (Cons c rest)
  have "fields_agree h me ao (cs @ [c])"
    using Cons.prems(2) unfolding fields_agree_def by (auto intro: agree_append)
  then obtain s1 where "merge_collection h me ao c s = Inr s1" "all_from h (cs @ [c]) s1"
    using merge_collection_total [OF Cons.prems(1)] by blast
  then show ?case using Cons.IH [of "cs @ [c]" s1] Cons.prems(2) by simp
qed simp

lemma CombineUnique_own_total:
  assumes "combinable_items D" "Differeniator D h1 = Differeniator D h"
  shows "\<exists>r h2. CombineUnique D (GetCurrentFromCombinable D h own) True cs own h1 = Inr (r, h2) \<and>
    Differeniator D h2 = Differeniator D h"
proof -
  obtain r h2 where "CombineUnique D (GetCurrentFromCombinable D h own) True cs own h1 = Inr (r, h2)"
    using combinable_items.CombineUnique_total [OF assms(1) combinable_items.GetCurrent_ok [OF assms(1)] assms(2), of own cs "[]"]
    by auto
  then show ?thesis
    using combinable_items.CombineUnique_result [OF assms(1) combinable_items.GetCurrent_ok [OF assms(1)], of h own True cs "[]" h1 r h2] assms(2)
    by auto
qed

lemma overwrite_total:
  assumes "fields_agree h (colls h a) True (relevant cd h others)"
  shows "\<exists>h'. CombineWithOthers a others cd True h = Inr h'"
proof -
  let ?me = "colls h a"
  have "all_from h [] no_fields"
    by (simp add: all_from_def no_fields_def apis.merged_from_start headers.merged_from_start directives.merged_from_start
      extensions.merged_from_start verifications.merged_from_start)
  then obtain s where s: "merge_collections h ?me True (relevant cd h others) no_fields = Inr s"
    using merge_collections_total assms by fastforce
  note own = CombineUnique_own_total [where h = h]
  note heap_kept = no_overwrite_heap [rotated, of _ _ _ _ _ h]
  obtain as h1 where as: "CombineUnique api_combinable (GetCurrentFromCombinable api_combinable h (Apis ?me)) True (snd (m_apis s)) (Apis ?me) h = Inr (as, h1)"
    using own [OF apis.combinable_items_axioms refl] by blast
  have h1: "h1 = h" using as by (rule heap_kept) (simp add: api_combinable_def)
  obtain hs h2 where hs: "CombineUnique header_combinable (GetCurrentFromCombinable header_combinable h (Headers ?me)) True (snd (m_headers s)) (Headers ?me) h = Inr (hs, h2)"
    using own [OF headers.combinable_items_axioms refl] by blast
  have h2: "h2 = h" using hs by (rule heap_kept) (simp add: header_combinable_def)
  obtain ps h3 where ps: "CombineUnique directive_combinable (GetCurrentFromCombinable directive_combinable h (ParseDirectives ?me)) True (snd (m_parsers s)) (ParseDirectives ?me) h = Inr (ps, h3)"
    using own [OF directives.combinable_items_axioms refl] by blast
  have h3: "h3 = h" using ps by (rule heap_kept) (simp add: directive_combinable_def)
  obtain es h4 where es: "CombineUnique extension_combinable (GetCurrentFromCombinable extension_combinable h (Extensions ?me)) True (snd (m_extensions s)) (Extensions ?me) h = Inr (es, h4)"
    using own [OF extensions.combinable_items_axioms refl] by blast
  have h4: "h4 = h" using es by (rule heap_kept) (simp add: extension_combinable_def)
  obtain vs h5 where vs: "CombineUnique verification_combinable (GetCurrentFromCombinable verification_combinable h (Verifications ?me)) True (snd (m_verifications s)) (Verifications ?me) h = Inr (vs, h5)"
    using own [OF verifications.combinable_items_axioms refl] by blast
  show ?thesis using s as h1 hs h2 ps h3 es h4 vs by (simp add: CombineWithOthers_def Let_def)
qed

lemma all_ok_agree: "all_ok h me ao cs s \<Longrightarrow> fields_agree h me ao cs"
  by (auto simp: all_ok_def fields_agree_def intro: apis.field_ok_agree headers.field_ok_agree directives.field_ok_agree
      extensions.field_ok_agree verifications.field_ok_agree)

text \<open>C35. Inheritance implements its specification. A combination that succeeds leaves the
  receiving collection with its own items first and unchanged, followed by the enabled items of
  the collections it reads whose keys it does not define, for each of the five fields; an API that one of
  those collections disables and nobody defines is carried along once, as disabled; and no other
  collection changes. An inheritance with overwriting, as \<open>Expand\<close> and \<open>Inherit\<close> call it, succeeds
  exactly when the collections agree on every key that the receiver does not define itself.\<close>

theorem inheritance_meets_specification:
  "(CombineWithOthers apic others combineWithDisabled allowOverwrite h = Inr h' \<longrightarrow>
      combination_of h (colls h apic) (relevant combineWithDisabled h others) (colls h' apic) \<and>
      fields_agree h (colls h apic) allowOverwrite (relevant combineWithDisabled h others) \<and>
      (\<forall>p. p \<noteq> apic \<longrightarrow> colls h' p = colls h p)) \<and>
   ((\<exists>h'. CombineWithOthers apic others combineWithDisabled True h = Inr h') \<longleftrightarrow>
      fields_agree h (colls h apic) True (relevant combineWithDisabled h others))"
  by (auto elim!: CombineWithOthers_steps intro: all_ok_agree overwrite_total)

text \<open>A child with an API of its own that its parent defines differently, a parent with one more API and one
  it disables.\<close>

definition sample_api :: "string \<Rightarrow> bool \<Rightarrow> int \<Rightarrow> Api" where
  "sample_api name enabled cu = \<lparr>api_Enabled = enabled, api_Name = name, ComputeUnits = cu,
     api_Category = \<lparr>Deterministic = True, Stateful_level = 0, HangingApi = False\<rparr>,
     BlockParsing = \<lparr>ParserArg = [''latest''], ParserFunc = 1, DefaultValue = [], Encoding = []\<rparr>, TimeoutMs = 0, api_Parsers = []\<rparr>"

definition sample_key :: CollectionData where
  "sample_key = \<lparr>ApiInterface = ''jsonrpc'', InternalPath = [], cd_Type = ''POST'', AddOn = []\<rparr>"

definition sample_heap :: spec_heap where
  "sample_heap =
     set_coll (sample_key, 0) ((colls empty_heap (sample_key, 0))\<lparr>Apis := [sample_api ''eth_call'' True 10]\<rparr>)
       (set_coll (sample_key, 1) ((colls empty_heap (sample_key, 1))\<lparr>Apis :=
          [sample_api ''eth_call'' True 20, sample_api ''eth_logs'' True 60, sample_api ''eth_sign'' False 10]\<rparr>) empty_heap)"

theorem inheritance_meets_specification_witness:
  "\<exists>h'. CombineWithOthers (sample_key, 0) [(sample_key, 1)] False True sample_heap = Inr h' \<and>
     combination_of sample_heap (colls sample_heap (sample_key, 0)) [colls sample_heap (sample_key, 1)] (colls h' (sample_key, 0))"
proof -
  let ?c = "colls sample_heap (sample_key, 0)"
  have rel: "relevant False sample_heap [(sample_key, 1)] = [colls sample_heap (sample_key, 1)]"
    by (simp add: relevant_def sample_heap_def set_coll_def empty_heap_def)
  have "fields_agree sample_heap ?c True [colls sample_heap (sample_key, 1)]"
    by (simp add: fields_agree_def agree_def sample_heap_def set_coll_def empty_heap_def api_combinable_def sample_api_def)
  then show ?thesis
    using inheritance_meets_specification [of "(sample_key, 0)" "[(sample_key, 1)]" False True sample_heap] unfolding rel by blast
qed

lemma sample_inherits:
  "map (\<lambda>x. (api_Name x, api_Enabled x, ComputeUnits x))
     (Apis (colls (projr (CombineWithOthers (sample_key, 0) [(sample_key, 1)] False True sample_heap)) (sample_key, 0)))
   = [(''eth_call'', True, 10), (''eth_logs'', True, 60), (''eth_sign'', False, 10)]"
  by code_simp

text \<open>\<open>Equal\<close> on APIs looks at the name, the compute units and whether they are enabled. Two parents that
  disagree on anything else, such as whether a method changes the chain's state, are combined
  without an error, and the collection ends up with both definitions.\<close>

definition disagreeing_heap :: spec_heap where
  "disagreeing_heap =
     set_coll (sample_key, 1) ((colls empty_heap (sample_key, 1))\<lparr>Apis := [sample_api ''send'' True 10]\<rparr>)
       (set_coll (sample_key, 2) ((colls empty_heap (sample_key, 2))\<lparr>Apis :=
          [(sample_api ''send'' True 10)\<lparr>api_Category := \<lparr>Deterministic = False, Stateful_level = 1, HangingApi = False\<rparr>\<rparr>]\<rparr>)
       empty_heap)"

theorem stateful_disagreement_is_not_seen:
  "map (\<lambda>x. (api_Name x, Stateful_level (api_Category x)))
     (Apis (colls (projr (CombineWithOthers (sample_key, 0) [(sample_key, 1), (sample_key, 2)] False True disagreeing_heap))
       (sample_key, 0)))
   = [(''send'', 0), (''send'', 1)]"
  by code_simp

end
