(* ===== verification/CacheKeys.thy ===== *)
theory CacheKeys
  imports Prelude
begin

text \<open>
  The key scheme and the lifetime table of the relay cache
  (\<open>src/ecosystem/cache/core/keys.go\<close>, \<open>policy.go\<close>).

  A key is a string: a kind prefix, the chain id scoped to the router's keyspace, and the
  components of the kind, separated by colons. A \<open>[]byte\<close> is a string of 8-bit characters. The
  theorems show that a key determines what it addresses, that routers with different key
  prefixes share no key, and which lifetimes the table can hand out.
\<close>

section \<open>Scoping a chain id to a keyspace\<close>

text \<open>\<open>KeyPrefixPattern\<close> is the regular expression \<open>^[A-Za-z0-9._-]+$\<close>.\<close>

definition key_prefix_char :: "char \<Rightarrow> bool" where
  "key_prefix_char c \<longleftrightarrow> (of_char c :: nat) \<in> {65..90} \<union> {97..122} \<union> {48..57} \<or> c \<in> set ''._-''"

definition KeyPrefixPattern :: "string \<Rightarrow> bool" where
  "KeyPrefixPattern s \<longleftrightarrow> s \<noteq> [] \<and> list_all key_prefix_char s"

text \<open>The result is the error, nil when the prefix is accepted.\<close>

definition ValidateKeyPrefix :: "string \<Rightarrow> go_error option" where
  "ValidateKeyPrefix prefix =
     (if prefix = [] \<or> KeyPrefixPattern prefix then None
      else Some (ErrNew ''invalid cache key prefix''))"

definition ScopedChainId :: "string \<Rightarrow> string \<Rightarrow> string" where
  "ScopedChainId keyPrefix chainId =
     (if keyPrefix = [] then chainId else keyPrefix @ '':'' @ chainId)"

section \<open>The keys\<close>

definition RelayFinalizedPrefix :: string where "RelayFinalizedPrefix = ''rel:f:''"

definition RelayTempPrefix :: string where "RelayTempPrefix = ''rel:t:''"

definition SharedTipPrefix :: string where "SharedTipPrefix = ''tip:''"

definition ChainTipPrefix :: string where "ChainTipPrefix = ''chaintip:''"

definition HeightPrefix :: string where "HeightPrefix = ''h2h:''"

definition StickyPrefix :: string where "StickyPrefix = ''sticky:''"

definition EndpointObservationPrefix :: string where "EndpointObservationPrefix = ''obs:''"

lemmas kind_prefixes = RelayFinalizedPrefix_def RelayTempPrefix_def SharedTipPrefix_def
  ChainTipPrefix_def HeightPrefix_def StickyPrefix_def EndpointObservationPrefix_def

text \<open>\<open>hex.EncodeToString\<close>: two lower-case digits per byte.\<close>

definition hex_digit :: "nat \<Rightarrow> char" where
  "hex_digit n = char_of (if n < 10 then n + 48 else n + 87)"

fun hex_EncodeToString :: "string \<Rightarrow> string" where
  "hex_EncodeToString [] = []"
| "hex_EncodeToString (c # cs) =
     hex_digit (of_char c div 16) # hex_digit (of_char c mod 16) # hex_EncodeToString cs"

definition RelayKey :: "bool \<Rightarrow> string \<Rightarrow> string \<Rightarrow> int64 \<Rightarrow> string" where
  "RelayKey finalized chainId requestHash block =
     (if finalized then RelayFinalizedPrefix else RelayTempPrefix) @ chainId @ '':'' @
     hex_EncodeToString requestHash @ '':'' @ format_int block"

definition RelayLookupKeys :: "bool \<Rightarrow> string \<Rightarrow> string \<Rightarrow> int64 \<Rightarrow> string list" where
  "RelayLookupKeys finalized chainId requestHash block =
     [RelayKey finalized chainId requestHash block, RelayKey (\<not> finalized) chainId requestHash block]"

definition SharedTipKey :: "string \<Rightarrow> string \<Rightarrow> string" where
  "SharedTipKey chainId sharedStateId = SharedTipPrefix @ chainId @ '':'' @ sharedStateId"

definition ChainTipKey :: "string \<Rightarrow> string" where
  "ChainTipKey chainId = ChainTipPrefix @ chainId"

definition HeightKey :: "string \<Rightarrow> string \<Rightarrow> string" where
  "HeightKey chainId blockHash = HeightPrefix @ chainId @ '':'' @ blockHash"

definition StickyKey :: "string \<Rightarrow> string \<Rightarrow> string \<Rightarrow> string \<Rightarrow> string" where
  "StickyKey chainId apiInterface service stickyId =
     StickyPrefix @ chainId @ '':'' @ apiInterface @ '':'' @ service @ '':'' @ stickyId"

definition EndpointObservationKey :: "string \<Rightarrow> string \<Rightarrow> string \<Rightarrow> string" where
  "EndpointObservationKey chainId apiInterface endpointId =
     EndpointObservationPrefix @ chainId @ '':'' @ apiInterface @ '':'' @ endpointId"

section \<open>The lifetime table\<close>

definition DefaultExpirationForNonFinalized :: duration where
  "DefaultExpirationForNonFinalized = 500 * millisecond"

definition DefaultExpirationTimeFinalized :: duration where
  "DefaultExpirationTimeFinalized = hour"

definition DefaultExpirationNodeErrors :: duration where
  "DefaultExpirationNodeErrors = 250 * millisecond"

definition DefaultExpirationBlocksHashesToHeights :: duration where
  "DefaultExpirationBlocksHashesToHeights = 48 * hour"

definition SharedStateTipBlockMultiplier :: int where
  "SharedStateTipBlockMultiplier = 10"

definition MinSharedStateTipExpiration :: duration where
  "MinSharedStateTipExpiration = 2 * second"

lemmas cache_durations = DefaultExpirationForNonFinalized_def DefaultExpirationTimeFinalized_def
  DefaultExpirationNodeErrors_def DefaultExpirationBlocksHashesToHeights_def
  SharedStateTipBlockMultiplier_def MinSharedStateTipExpiration_def duration_units

record Policy =
  Finalized :: duration
  NonFinalized :: duration
  NodeErrors :: duration
  BlocksHashesToHeights_ttl :: duration

definition DefaultPolicy :: Policy where
  "DefaultPolicy = \<lparr>Finalized = DefaultExpirationTimeFinalized,
     NonFinalized = DefaultExpirationForNonFinalized, NodeErrors = DefaultExpirationNodeErrors,
     BlocksHashesToHeights_ttl = DefaultExpirationBlocksHashesToHeights\<rparr>"

text \<open>Go's integer division truncates towards zero.\<close>

definition quot :: "int \<Rightarrow> int \<Rightarrow> int" where
  "quot a b = sgn a * sgn b * (\<bar>a\<bar> div \<bar>b\<bar>)"

definition ForChain :: "Policy \<Rightarrow> duration \<Rightarrow> duration" where
  "ForChain p averageBlockTimeForChain = max (quot averageBlockTimeForChain 8) (NonFinalized p)"

definition SharedStateTip :: "Policy \<Rightarrow> duration \<Rightarrow> duration" where
  "SharedStateTip p averageBlockTimeForChain =
     max (max (mul64 averageBlockTimeForChain SharedStateTipBlockMultiplier) (NonFinalized p))
       MinSharedStateTipExpiration"

text \<open>A nil byte slice is \<open>None\<close>: an empty slice that is not nil counts as a hash here.\<close>

definition ForRelayEntry :: "Policy \<Rightarrow> bool \<Rightarrow> bool \<Rightarrow> duration \<Rightarrow> string option \<Rightarrow> duration" where
  "ForRelayEntry p finalized isNodeError averageBlockTime blockHash =
     (if finalized then
        if isNodeError then
          if averageBlockTime \<le> 0 then NodeErrors p else min averageBlockTime (NodeErrors p)
        else Finalized p
      else if blockHash \<noteq> None then Finalized p
      else ForChain p averageBlockTime)"

section \<open>Reading a key back\<close>

text \<open>A component without a colon is determined by the last colon, one before it by the first.\<close>

lemma split_at_first_colon:
  "a @ CHR '':'' # x = b @ CHR '':'' # y \<Longrightarrow> CHR '':'' \<notin> set a \<Longrightarrow> CHR '':'' \<notin> set b \<Longrightarrow> a = b \<and> x = y"
proof (induction a arbitrary: b)
  case Nil
  then show ?case by (cases b) auto
next
  case (Cons c a)
  then show ?case by (cases b) auto
qed

lemma split_at_last_colon:
  assumes "a @ CHR '':'' # x = b @ CHR '':'' # y" and "CHR '':'' \<notin> set x" and "CHR '':'' \<notin> set y"
  shows "a = b \<and> x = y"
proof -
  have "rev x @ CHR '':'' # rev a = rev y @ CHR '':'' # rev b"
    using arg_cong [OF assms(1), of rev] by simp
  from split_at_first_colon [OF this] assms(2,3) show ?thesis by simp
qed

lemma hex_digit_inj: "m < 16 \<Longrightarrow> n < 16 \<Longrightarrow> hex_digit m = hex_digit n \<Longrightarrow> m = n"
  by (auto simp: hex_digit_def char_of_eq_iff take_bit_eq_mod split: if_splits)

lemma hex_digit_not_colon: "n < 16 \<Longrightarrow> hex_digit n \<noteq> CHR '':''"
proof
  assume "n < 16" and "hex_digit n = CHR '':''"
  then have "of_char (hex_digit n) = (58 :: nat)" by simp
  with \<open>n < 16\<close> show False by (auto simp: hex_digit_def split: if_splits)
qed

lemma byte_halves: "(of_char c :: nat) div 16 < 16" "(of_char c :: nat) mod 16 < 16"
  using nat_of_char_less_256 [of c] by (simp_all add: less_mult_imp_div_less)

lemma hex_no_colon: "CHR '':'' \<notin> set (hex_EncodeToString bs)"
  by (induction bs) (simp_all add: hex_digit_not_colon [OF byte_halves(1), THEN not_sym]
      hex_digit_not_colon [OF byte_halves(2), THEN not_sym])

lemma hex_inj: "hex_EncodeToString a = hex_EncodeToString b \<Longrightarrow> a = b"
proof (induction a arbitrary: b)
  case Nil
  then show ?case by (cases b) auto
next
  case (Cons c a)
  then obtain d b' where b: "b = d # b'" by (cases b) auto
  from Cons.prems b have "(of_char c :: nat) div 16 = of_char d div 16"
    and "(of_char c :: nat) mod 16 = of_char d mod 16"
    by (auto intro: hex_digit_inj byte_halves)
  then have "(of_char c :: nat) = of_char d" by (metis div_mult_mod_eq)
  with Cons b show ?case by simp
qed

text \<open>A decimal numeral is read back digit by digit.\<close>

definition read_digits :: "string \<Rightarrow> nat" where
  "read_digits s = foldl (\<lambda>n c. n * 10 + (of_char c - 48)) 0 s"

lemma read_format_nat: "read_digits (format_nat n) = n"
proof (induction n rule: format_nat.induct)
  case (1 n)
  show ?case
  proof (cases "n < 10")
    case True
    then show ?thesis by (simp add: format_nat.simps [of n] read_digits_def)
  next
    case False
    with 1 have "read_digits (format_nat (n div 10)) = n div 10" by simp
    with False show ?thesis by (simp add: format_nat.simps [of n] read_digits_def)
  qed
qed

lemma format_nat_not_minus: "format_nat n \<noteq> CHR ''-'' # s"
  using format_nat_digits [of "CHR ''-''" n] by auto

lemma format_int_inj: "format_int a = format_int b \<Longrightarrow> a = b"
  using format_nat_not_minus read_format_nat
  by (auto simp: format_int_def split: if_splits)
     (metis nat_eq_iff2 neg_0_le_iff_le linorder_not_le minus_minus int_nat_eq le_less read_format_nat)+

lemma format_int_no_colon: "CHR '':'' \<notin> set (format_int i)"
  using format_nat_digits [of "CHR '':''"] by (auto simp: format_int_def split: if_splits)

text \<open>Two routers in one keyspace on one chain address the same reply exactly when they ask the same.\<close>

lemma RelayKey_eq_iff [simp]:
  "RelayKey f c h b = RelayKey f' c' h' b' \<longleftrightarrow> f = f' \<and> c = c' \<and> h = h' \<and> b = b'"
proof
  assume eq: "RelayKey f c h b = RelayKey f' c' h' b'"
  then have f: "f = f'" by (auto simp: RelayKey_def kind_prefixes split: if_splits)
  with eq have "(c @ CHR '':'' # hex_EncodeToString h) @ CHR '':'' # format_int b
      = (c' @ CHR '':'' # hex_EncodeToString h') @ CHR '':'' # format_int b'"
    by (simp add: RelayKey_def split: if_splits)
  from split_at_last_colon [OF this format_int_no_colon format_int_no_colon]
  have "c @ CHR '':'' # hex_EncodeToString h = c' @ CHR '':'' # hex_EncodeToString h'"
    and "b = b'" by (auto dest: format_int_inj)
  with split_at_last_colon [OF this(1) hex_no_colon hex_no_colon] f
  show "f = f' \<and> c = c' \<and> h = h' \<and> b = b'" by (auto dest: hex_inj)
qed simp

lemma kinds_differ [simp]:
  "RelayKey f c h b \<noteq> SharedTipKey d i" "RelayKey f c h b \<noteq> HeightKey d x"
  "SharedTipKey d i \<noteq> RelayKey f c h b" "HeightKey d x \<noteq> RelayKey f c h b"
  "SharedTipKey d i \<noteq> HeightKey c x" "HeightKey c x \<noteq> SharedTipKey d i"
  by (simp_all add: RelayKey_def SharedTipKey_def HeightKey_def kind_prefixes)

section \<open>Keyspaces\<close>

text \<open>The keys a router derives for its own chain: everything but endpoint observations, which
  are not scoped.\<close>

inductive derives :: "string \<Rightarrow> string \<Rightarrow> string \<Rightarrow> bool" for p c where
  relay: "derives p c (RelayKey f (ScopedChainId p c) h b)"
| shared_tip: "derives p c (SharedTipKey (ScopedChainId p c) i)"
| chain_tip: "derives p c (ChainTipKey (ScopedChainId p c))"
| height: "derives p c (HeightKey (ScopedChainId p c) x)"
| sticky: "derives p c (StickyKey (ScopedChainId p c) a s i)"

text \<open>Each such key is a kind prefix, the keyspace head (the prefix, or the chain where there is
  none), and a rest that starts with the separator or is empty.\<close>

definition keyspace_head :: "string \<Rightarrow> string \<Rightarrow> string" where
  "keyspace_head p c = (if p = [] then c else p)"

definition kind_list :: "string list" where
  "kind_list = [RelayFinalizedPrefix, RelayTempPrefix, SharedTipPrefix, ChainTipPrefix, HeightPrefix, StickyPrefix]"

lemma ScopedChainId_head:
  "\<exists>r. ScopedChainId p c = keyspace_head p c @ r \<and> (r = [] \<or> hd r = CHR '':'')"
  by (auto simp: ScopedChainId_def keyspace_head_def)

lemma scoped_shape:
  assumes "kind \<in> set kind_list" and "k = kind @ ScopedChainId p c @ t" and "t = [] \<or> hd t = CHR '':''"
  shows "\<exists>kind r. kind \<in> set kind_list \<and> k = kind @ keyspace_head p c @ r \<and> (r = [] \<or> hd r = CHR '':'')"
proof -
  obtain r where "ScopedChainId p c = keyspace_head p c @ r" "r = [] \<or> hd r = CHR '':''"
    using ScopedChainId_head by blast
  with assms have "k = kind @ keyspace_head p c @ (r @ t)" and "r @ t = [] \<or> hd (r @ t) = CHR '':''"
    by (auto simp: hd_append)
  with assms(1) show ?thesis by blast
qed

lemma derives_shape:
  "derives p c k \<Longrightarrow>
     \<exists>kind r. kind \<in> set kind_list \<and> k = kind @ keyspace_head p c @ r \<and> (r = [] \<or> hd r = CHR '':'')"
proof (induction rule: derives.induct)
  case (relay f h b)
  show ?case
    by (rule scoped_shape [of "if f then RelayFinalizedPrefix else RelayTempPrefix"])
       (simp add: RelayKey_def kind_list_def, simp add: RelayKey_def, simp)
next
  case (shared_tip i)
  show ?case by (rule scoped_shape [of SharedTipPrefix]) (simp add: kind_list_def, simp add: SharedTipKey_def, simp)
next
  case chain_tip
  show ?case by (rule scoped_shape [of ChainTipPrefix]) (simp add: kind_list_def, simp add: ChainTipKey_def, simp)
next
  case (height x)
  show ?case by (rule scoped_shape [of HeightPrefix]) (simp add: kind_list_def, simp add: HeightKey_def, simp)
next
  case (sticky a s i)
  show ?case by (rule scoped_shape [of StickyPrefix]) (simp add: kind_list_def, simp add: StickyKey_def, simp)
qed

text \<open>No kind prefix begins another, so equal keys are of one kind.\<close>

lemma kind_unique: "k1 \<in> set kind_list \<Longrightarrow> k2 \<in> set kind_list \<Longrightarrow> k1 @ x = k2 @ y \<Longrightarrow> k1 = k2"
  by (auto simp: kind_list_def kind_prefixes)

lemma prefix_char_not_colon: "\<not> key_prefix_char (CHR '':'')"
  by (simp add: key_prefix_char_def)

lemma valid_prefix_no_colon: "ValidateKeyPrefix p = None \<Longrightarrow> CHR '':'' \<notin> set p"
  using prefix_char_not_colon
  by (auto simp: ValidateKeyPrefix_def KeyPrefixPattern_def list_all_iff split: if_splits)

lemma same_head:
  assumes "a @ r = b @ s" and "CHR '':'' \<notin> set a" and "CHR '':'' \<notin> set b"
    and "r = [] \<or> hd r = CHR '':''" and "s = [] \<or> hd s = CHR '':''"
  shows "a = b"
  using assms
proof (induction a arbitrary: b)
  case Nil
  then show ?case by (cases b; cases r) auto
next
  case (Cons c a)
  then show ?case by (cases b; cases s) auto
qed

text \<open>Routers whose key prefixes pass validation and differ share no key: not a relay entry,
  not a shared or chain tip, not a height, not a sticky claim, whatever the other components of
  the key are. Chain ids carry no colon; a router without a prefix is separated from one whose
  prefix is not the name of its chain.\<close>

theorem keyspaces_share_no_key:
  assumes "ValidateKeyPrefix p = None" and "ValidateKeyPrefix q = None" and "p \<noteq> q"
    and "CHR '':'' \<notin> set c" and "CHR '':'' \<notin> set d"
    and "p = [] \<Longrightarrow> c \<noteq> q" and "q = [] \<Longrightarrow> d \<noteq> p"
    and "derives p c k"
  shows "\<not> derives q d k"
proof
  assume "derives q d k"
  from derives_shape [OF this] derives_shape [OF \<open>derives p c k\<close>] obtain k1 r k2 s where
    k: "k1 \<in> set kind_list" "k2 \<in> set kind_list" "k = k1 @ keyspace_head p c @ r" "k = k2 @ keyspace_head q d @ s"
    and rs: "r = [] \<or> hd r = CHR '':''" "s = [] \<or> hd s = CHR '':''" by blast
  then have "k1 = k2" by (metis kind_unique)
  with k have "keyspace_head p c @ r = keyspace_head q d @ s" by simp
  moreover have "CHR '':'' \<notin> set (keyspace_head p c)" "CHR '':'' \<notin> set (keyspace_head q d)"
    using assms(1-5) by (simp_all add: keyspace_head_def valid_prefix_no_colon)
  ultimately have "keyspace_head p c = keyspace_head q d" using rs by (auto intro: same_head)
  with assms(3,6,7) show False by (auto simp: keyspace_head_def split: if_splits)
qed

theorem keyspaces_share_no_key_witness:
  "\<not> derives [] ''ETH1'' (RelayKey True (ScopedChainId ''blue'' ''ETH1'') ''ab'' 7)"
  by (rule keyspaces_share_no_key [of "''blue''" "[]" "''ETH1''"])
     (simp_all add: ValidateKeyPrefix_def KeyPrefixPattern_def key_prefix_char_def derives.relay)

text \<open>A relay key determines what it addresses: finality, scoped chain, request hash and
  block. Hash and block are rendered without the separator, so no chain id can make two different
  requests collide.\<close>

theorem relay_key_determines_request:
  "RelayKey f c h b = RelayKey f' c' h' b' \<longleftrightarrow> f = f' \<and> c = c' \<and> h = h' \<and> b = b'"
  by (rule RelayKey_eq_iff)

section \<open>Lifetimes\<close>

lemma tip_ttl_floor: "MinSharedStateTipExpiration \<le> SharedStateTip p a"
  by (simp add: SharedStateTip_def)

text \<open>Every lifetime the table hands out is positive when its three settings are, so no entry
  is written without an expiry; a finalized node error never outlives the node-error setting nor,
  where the block time is known, one block; and the shared tip lives at least two seconds under
  any settings and any block time, even one whose tenfold wraps around.\<close>

theorem entry_lifetimes:
  assumes "0 < Finalized p" and "0 < NonFinalized p" and "0 < NodeErrors p"
  shows "0 < ForRelayEntry p fin isErr avg hash
    \<and> ForRelayEntry p True True avg hash \<le> (if 0 < avg then min avg (NodeErrors p) else NodeErrors p)
    \<and> 2 * second \<le> SharedStateTip q avg"
  using assms tip_ttl_floor [of q avg]
  by (auto simp: ForRelayEntry_def ForChain_def MinSharedStateTipExpiration_def)

theorem entry_lifetimes_witness:
  "0 < ForRelayEntry DefaultPolicy False False 0 None
    \<and> ForRelayEntry DefaultPolicy True True 0 None \<le> 250 * millisecond"
  using entry_lifetimes [of DefaultPolicy False False 0 None]
  by (simp add: DefaultPolicy_def cache_durations)

text \<open>Settings of zero are not caught by the table: the entry then never expires in either
  store.\<close>

theorem zero_setting_is_permanent:
  "NonFinalized p = 0 \<Longrightarrow> ForRelayEntry p False isErr 0 None = 0"
  by (simp add: ForRelayEntry_def ForChain_def quot_def)

end
