(* ===== verification/CacheStores.thy ===== *)
theory CacheStores
  imports CacheKeys
begin

text \<open>
  The mutex-guarded stores of the cache server (\<open>src/ecosystem/cache/expiring_map.go\<close>,
  \<open>sticky_sessions.go\<close>, \<open>endpoint_observations.go\<close> and \<open>chainTipStore\<close> of \<open>ristretto_store.go\<close>).

  Each operation is one atomic step on the store's state, at the time the server's clock shows.
  The locale \<open>expiring_store\<close> states what the three stores have in common: what a reader sees
  after a write, that sweeping is invisible, and that entries only fade. Its two extensions carry
  the two write rules, first writer wins and never regress while live.
\<close>

section \<open>The expiring map\<close>

record 'v expiringEntry =
  ent_value :: 'v
  storedAt :: time
  expiresAt :: time

record 'v expiringMap =
  byKey :: "(string, 'v expiringEntry) gomap"
  em_writes :: int

definition newExpiringMap :: "'v expiringMap" where
  "newExpiringMap = \<lparr>byKey = [], em_writes = 0\<rparr>"

definition expiringMapSweepEvery :: int where
  "expiringMapSweepEvery = 256"

text \<open>The live entry of a key: present, and its deadline is still ahead.\<close>

definition em_live :: "'v expiringMap \<Rightarrow> time \<Rightarrow> string \<Rightarrow> 'v expiringEntry option" where
  "em_live m now key = (case mget (byKey m) key of
     Some cur \<Rightarrow> (if now < expiresAt cur then Some cur else None) | None \<Rightarrow> None)"

text \<open>The write of \<open>put\<close>, with the sweep every 256 writes.\<close>

definition em_store :: "time \<Rightarrow> string \<Rightarrow> 'v \<Rightarrow> duration \<Rightarrow> 'v expiringMap \<Rightarrow> 'v expiringMap" where
  "em_store now key v ttl m =
     (let byKey' = mput key \<lparr>ent_value = v, storedAt = now, expiresAt = now + ttl\<rparr> (byKey m);
          writes' = em_writes m + 1
      in if expiringMapSweepEvery \<le> writes'
         then m\<lparr>byKey := filter (\<lambda>kv. now < expiresAt (snd kv)) byKey', em_writes := 0\<rparr>
         else m\<lparr>byKey := byKey', em_writes := writes'\<rparr>)"

text \<open>\<open>put\<close> returns the effective value, whether the write applied, and the map.\<close>

definition em_put :: "time \<Rightarrow> string \<Rightarrow> 'v \<Rightarrow> duration \<Rightarrow> ('v \<Rightarrow> bool) \<Rightarrow> 'v expiringMap \<Rightarrow>
    'v \<times> bool \<times> 'v expiringMap" where
  "em_put now key v ttl keep m =
     (case em_live m now key of
        Some cur \<Rightarrow> if keep (ent_value cur) then (ent_value cur, False, m) else (v, True, em_store now key v ttl m)
      | None \<Rightarrow> (v, True, em_store now key v ttl m))"

text \<open>\<open>get\<close> returns the live value with its age, and the map without an expired entry of the key.\<close>

definition em_get :: "time \<Rightarrow> string \<Rightarrow> 'v expiringMap \<Rightarrow> ('v \<times> duration) option \<times> 'v expiringMap" where
  "em_get now key m =
     (case mget (byKey m) key of
        None \<Rightarrow> (None, m)
      | Some cur \<Rightarrow>
          if \<not> now < expiresAt cur then (None, m\<lparr>byKey := mdel key (byKey m)\<rparr>)
          else (Some (ent_value cur, time_sub now (storedAt cur)), m))"

definition em_clear :: "'v expiringMap \<Rightarrow> 'v expiringMap" where
  "em_clear m = m\<lparr>byKey := [], em_writes := 0\<rparr>"

definition em_len :: "'v expiringMap \<Rightarrow> int" where
  "em_len m = int (length (byKey m))"

section \<open>Sticky pins and endpoint observations\<close>

record StickyPin =
  Provider :: string
  Epoch :: int

type_synonym stickyPinStore = "StickyPin expiringMap"

definition setIfAbsent :: "time \<Rightarrow> string \<Rightarrow> StickyPin \<Rightarrow> duration \<Rightarrow> stickyPinStore \<Rightarrow> StickyPin \<times> stickyPinStore" where
  "setIfAbsent now key pin ttl s = (let (effective, _, s') = em_put now key pin ttl (\<lambda>_. True) s in (effective, s'))"

definition sticky_get :: "time \<Rightarrow> string \<Rightarrow> stickyPinStore \<Rightarrow> StickyPin option \<times> stickyPinStore" where
  "sticky_get now key s = (let (found, s') = em_get now key s in (map_option fst found, s'))"

record EndpointObservation =
  obs_Block :: int64
  obs_PodID :: string

type_synonym endpointObservationStore = "EndpointObservation expiringMap"

definition obs_set :: "time \<Rightarrow> string \<Rightarrow> int64 \<Rightarrow> string \<Rightarrow> duration \<Rightarrow> endpointObservationStore \<Rightarrow>
    bool \<times> endpointObservationStore" where
  "obs_set now key block podID ttl s =
     (if block \<le> 0 then (False, s)
      else let (_, applied, s') = em_put now key \<lparr>obs_Block = block, obs_PodID = podID\<rparr> ttl
                 (\<lambda>live. block < obs_Block live) s
           in (applied, s'))"

definition obs_get :: "time \<Rightarrow> string \<Rightarrow> endpointObservationStore \<Rightarrow>
    (EndpointObservation \<times> duration) option \<times> endpointObservationStore" where
  "obs_get now key s = em_get now key s"

section \<open>Chain tips\<close>

record LastestCacheStore =
  latestBlock :: int64
  latestExpirationTime :: time

record chainTipStore =
  tips :: "(string, LastestCacheStore) gomap"
  ct_writes :: int

definition chainTipSweepEvery :: int where
  "chainTipSweepEvery = 256"

definition newChainTipStore :: chainTipStore where
  "newChainTipStore = \<lparr>tips = [], ct_writes = 0\<rparr>"

definition ct_get :: "string \<Rightarrow> chainTipStore \<Rightarrow> LastestCacheStore option" where
  "ct_get key s = mget (tips s) key"

definition setIfGreaterOrEqualOrStale :: "string \<Rightarrow> LastestCacheStore \<Rightarrow> time \<Rightarrow> chainTipStore \<Rightarrow> chainTipStore" where
  "setIfGreaterOrEqualOrStale key t now s =
     (if (case mget (tips s) key of
            Some existing \<Rightarrow> latestBlock t < latestBlock existing \<and> now < latestExpirationTime existing
          | None \<Rightarrow> False) then s
      else
        let tips' = mput key t (tips s);
            writes' = ct_writes s + 1
        in if chainTipSweepEvery \<le> writes'
           then s\<lparr>tips := filter (\<lambda>kv. now < latestExpirationTime (snd kv)) tips', ct_writes := 0\<rparr>
           else s\<lparr>tips := tips', ct_writes := writes'\<rparr>)"

definition ct_clear :: "chainTipStore \<Rightarrow> chainTipStore" where
  "ct_clear s = s\<lparr>tips := [], ct_writes := 0\<rparr>"

section \<open>What the three stores promise\<close>

text \<open>
  \<open>view s now k\<close> is what a reader at \<open>now\<close> finds; \<open>keeps live new\<close> is the write rule. A write is
  a time, a key, a value and a lifetime.
\<close>

type_synonym 'v timed_write = "time \<times> string \<times> 'v \<times> duration"

locale expiring_store =
  fixes view :: "'s \<Rightarrow> time \<Rightarrow> string \<Rightarrow> 'v option"
    and put :: "'v timed_write \<Rightarrow> 's \<Rightarrow> 's"
    and keeps :: "'v \<Rightarrow> 'v \<Rightarrow> bool"
    and inv :: "'s \<Rightarrow> bool"
  assumes put_kept: "inv s \<Longrightarrow> view s t k = Some w \<Longrightarrow> keeps w v \<Longrightarrow> put (t, k, v, d) s = s"
    and put_written: "inv s \<Longrightarrow> (\<And>w. view s t k = Some w \<Longrightarrow> \<not> keeps w v) \<Longrightarrow> t \<le> now \<Longrightarrow>
      view (put (t, k, v, d) s) now k' =
        (if k' = k then if now < t + d then Some v else None else view s now k')"
    and fades: "view s now k = Some v \<Longrightarrow> t \<le> now \<Longrightarrow> view s t k = Some v"
    and inv_put: "inv s \<Longrightarrow> inv (put tw s)"
begin

text \<open>Every write is one of the two cases.\<close>

lemma put_cases:
  assumes "inv s"
  obtains w where "view s t k = Some w" and "keeps w v" and "put (t, k, v, d) s = s"
  | "\<And>w. view s t k = Some w \<Longrightarrow> \<not> keeps w v"
  using put_kept [OF assms] by blast

lemma inv_puts: "inv s \<Longrightarrow> inv (fold put ws s)"
  by (induction ws arbitrary: s) (auto intro: inv_put)

text \<open>A write that the rule does not refuse is readable at once.\<close>

lemma put_readable:
  assumes "inv s" and "0 < d"
  shows "\<exists>w. view (put (t, k, v, d) s) t k = Some w \<and> (w = v \<or> keeps w v)"
proof (rule put_cases [OF assms(1), of t k v d])
  fix w assume "view s t k = Some w" and "keeps w v" and "put (t, k, v, d) s = s"
  then show ?thesis by auto
next
  assume "\<And>w. view s t k = Some w \<Longrightarrow> \<not> keeps w v"
  from put_written [OF assms(1) this, where now = t and d = d and k' = k] assms(2) show ?thesis by auto
qed

text \<open>Writes to other keys do not show.\<close>

lemma put_elsewhere:
  assumes "inv s" and "t \<le> now" and "k' \<noteq> k"
  shows "view (put (t, k, v, d) s) now k' = view s now k'"
  by (rule put_cases [OF assms(1), of t k v d]) (use assms in \<open>auto simp: put_written\<close>)

end

text \<open>First writer wins: a live entry is never replaced.\<close>

locale claim_store = expiring_store +
  assumes keeps_always: "keeps w v"
begin

lemma put_keeps_claim:
  assumes "inv s" and "view s now k = Some v" and "fst w \<le> now"
  shows "view (put w s) now k = Some v"
proof -
  obtain t k2 x d where w: "w = (t, k2, x, d)" by (cases w) auto
  show ?thesis
  proof (cases "k2 = k")
    case True
    with assms w have "view s t k2 = Some v" by (auto intro: fades)
    with assms w show ?thesis by (simp add: put_kept keeps_always)
  next
    case False
    with assms w show ?thesis by (simp add: put_elsewhere)
  qed
qed

theorem claim_stands:
  assumes "inv s" and "view s now k = Some v" and "\<forall>w\<in>set ws. fst w \<le> now"
  shows "view (fold put ws s) now k = Some v"
  using assms
proof (induction ws arbitrary: s)
  case (Cons w ws)
  then show ?case by (simp add: put_keeps_claim inv_put)
qed simp

end

text \<open>Never regress while live: a live entry is kept against a write of lower rank only.\<close>

locale monotone_store = expiring_store +
  fixes rank :: "'b \<Rightarrow> int"
  assumes keeps_iff: "keeps w v \<longleftrightarrow> rank v < rank w"
begin

lemma put_no_regress:
  assumes "inv s" and "view s now k = Some v" and "t \<le> now" and "now < t + d"
  shows "\<exists>v'. view (put (t, k2, x, d) s) now k = Some v' \<and> rank v \<le> rank v'"
proof (rule put_cases [OF assms(1), of t k2 x d])
  assume 1: "\<And>w. view s t k2 = Some w \<Longrightarrow> \<not> keeps w x"
  have "rank v \<le> rank x" if "k = k2" using 1 [of v] fades [OF assms(2,3)] that by (simp add: keeps_iff)
  with put_written [OF assms(1) 1 assms(3), where d = d and k' = k] assms(2,4) show ?thesis by auto
qed (use assms(2) in auto)

theorem rank_never_falls:
  assumes "inv s" and "view s now k = Some v" and "\<forall>(t, k, x, d)\<in>set ws. t \<le> now \<and> now < t + d"
  shows "\<exists>v'. view (fold put ws s) now k = Some v' \<and> rank v \<le> rank v'"
  using assms
proof (induction ws arbitrary: s v)
  case (Cons w ws)
  obtain t k2 x d where w: "w = (t, k2, x, d)" by (cases w) auto
  from put_no_regress [OF Cons.prems(1,2)] Cons.prems(3) w
  obtain v1 where "view (put w s) now k = Some v1" and "rank v \<le> rank v1" by fastforce
  moreover obtain v' where "view (fold put ws (put w s)) now k = Some v'" and "rank v1 \<le> rank v'"
    using Cons.IH [OF inv_put [OF Cons.prems(1)] \<open>view (put w s) now k = Some v1\<close>] Cons.prems(3) by auto
  ultimately show ?case by fastforce
qed simp

text \<open>What no reader sees fences nothing.\<close>

lemma unseen_fences_nothing:
  "inv s \<Longrightarrow> view s t k = None \<Longrightarrow> 0 < d \<Longrightarrow> view (put (t, k, x, d) s) t k = Some x"
  using put_written [where s = s and t = t and k = k and v = x and now = t and d = d and k' = k] by simp

end

section \<open>The stores keep the promise\<close>

definition em_view :: "'v expiringMap \<Rightarrow> time \<Rightarrow> string \<Rightarrow> 'v option" where
  "em_view m now key = map_option ent_value (em_live m now key)"

definition em_inv :: "'v expiringMap \<Rightarrow> bool" where
  "em_inv m \<longleftrightarrow> wf_map (byKey m)"

lemma em_inv_new [simp]: "em_inv newExpiringMap"
  by (simp add: em_inv_def newExpiringMap_def)

lemma em_inv_store [simp]: "em_inv m \<Longrightarrow> em_inv (em_store now key v ttl m)"
  by (simp add: em_store_def em_inv_def Let_def)

lemma em_inv_put [simp]: "em_inv m \<Longrightarrow> em_inv (snd (snd (em_put now key v ttl keep m)))"
  by (auto simp: em_put_def split: option.splits)

lemma em_inv_get [simp]: "em_inv m \<Longrightarrow> em_inv (snd (em_get now key m))"
  by (auto simp: em_get_def em_inv_def split: option.splits)

text \<open>The sweep and the lazy deletion are invisible to every later reader.\<close>

lemma sweep_invisible:
  fixes now :: time
  assumes "wf_map b" and "t \<le> now"
  shows "(case mget (filter (\<lambda>kv. t < f (snd kv)) b) k of Some e \<Rightarrow> if now < f e then Some (g e) else None | None \<Rightarrow> None)
    = (case mget b k of Some e \<Rightarrow> if now < f e then Some (g e) else None | None \<Rightarrow> None)"
  using assms by (auto simp: mget_filter [where P = "\<lambda>e. t < f e"] split: option.split)

lemma em_view_def2: "em_view m now key = (case mget (byKey m) key of
     Some cur \<Rightarrow> (if now < expiresAt cur then Some (ent_value cur) else None) | None \<Rightarrow> None)"
  by (simp add: em_view_def em_live_def split: option.split)

lemma em_view_store:
  assumes "em_inv m" and "t \<le> now"
  shows "em_view (em_store t k v d m) now k' =
    (if k' = k then if now < t + d then Some v else None else em_view m now k')"
  using assms
  by (simp add: em_view_def2 em_store_def em_inv_def Let_def sweep_invisible [where f = expiresAt] del: mget_mput) simp

lemma em_view_get: "em_inv m \<Longrightarrow> t \<le> now \<Longrightarrow> em_view (snd (em_get t k m)) now = em_view m now"
  by (auto simp: em_get_def em_view_def em_live_def fun_eq_iff split: option.splits)

lemma em_get_view: "map_option fst (fst (em_get now k m)) = em_view m now k"
  by (auto simp: em_get_def em_view_def em_live_def split: option.splits)

lemma em_view_fades: "em_view m now k = Some v \<Longrightarrow> t \<le> now \<Longrightarrow> em_view m t k = Some v"
  by (auto simp: em_view_def em_live_def split: option.splits if_splits)

lemma em_put_snd:
  "snd (snd (em_put t k v d keep m)) =
     (case em_view m t k of Some w \<Rightarrow> if keep w then m else em_store t k v d m | None \<Rightarrow> em_store t k v d m)"
  by (auto simp: em_put_def em_view_def split: option.splits)

lemma em_put_effective:
  "fst (em_put t k v d keep m) =
     (case em_view m t k of Some w \<Rightarrow> if keep w then w else v | None \<Rightarrow> v)"
  by (auto simp: em_put_def em_view_def split: option.splits)

definition sticky_write :: "StickyPin timed_write \<Rightarrow> stickyPinStore \<Rightarrow> stickyPinStore" where
  "sticky_write w s = (case w of (t, k, pin, d) \<Rightarrow> snd (setIfAbsent t k pin d s))"

lemma sticky_write_put: "sticky_write (t, k, v, d) s = snd (snd (em_put t k v d (\<lambda>_. True) s))"
  by (simp add: sticky_write_def setIfAbsent_def split: prod.splits)

interpretation sticky_pins: claim_store em_view sticky_write "\<lambda>_ _. True" em_inv
  by unfold_locales
     (auto simp: sticky_write_put em_put_snd em_view_store intro: em_view_fades split: option.splits)

text \<open>A published observation: positive blocks only, as \<open>PublishEndpointObservation\<close> guarantees.\<close>

definition obs_write :: "EndpointObservation timed_write \<Rightarrow> endpointObservationStore \<Rightarrow> endpointObservationStore" where
  "obs_write w s = (case w of (t, k, o', d) \<Rightarrow>
     snd (snd (em_put t k o' d (\<lambda>live. obs_Block o' < obs_Block live) s)))"

interpretation observations: monotone_store em_view obs_write "\<lambda>live new. obs_Block new < obs_Block live" em_inv obs_Block
  by unfold_locales
     (auto simp: obs_write_def em_put_snd em_view_store intro: em_view_fades split: option.splits)

text \<open>A tip is read as \<open>GetChainTip\<close> does: only while its deadline is ahead.\<close>

definition ct_view :: "chainTipStore \<Rightarrow> time \<Rightarrow> string \<Rightarrow> int64 option" where
  "ct_view s now key = (case ct_get key s of
     Some t \<Rightarrow> if now < latestExpirationTime t then Some (latestBlock t) else None | None \<Rightarrow> None)"

definition ct_inv :: "chainTipStore \<Rightarrow> bool" where
  "ct_inv s \<longleftrightarrow> wf_map (tips s)"

definition tip_write :: "int64 timed_write \<Rightarrow> chainTipStore \<Rightarrow> chainTipStore" where
  "tip_write w s = (case w of (t, k, b, d) \<Rightarrow>
     setIfGreaterOrEqualOrStale k \<lparr>latestBlock = b, latestExpirationTime = t + d\<rparr> t s)"

lemma ct_inv_set [simp]: "ct_inv s \<Longrightarrow> ct_inv (setIfGreaterOrEqualOrStale k t now s)"
  by (auto simp: setIfGreaterOrEqualOrStale_def ct_inv_def Let_def split: option.splits)

lemma ct_view_written:
  assumes "ct_inv s" and "\<And>w. ct_view s t k = Some w \<Longrightarrow> \<not> b < w" and "t \<le> now"
  shows "ct_view (tip_write (t, k, b, d) s) now k' =
    (if k' = k then if now < t + d then Some b else None else ct_view s now k')"
proof -
  have not_kept: "\<not> (case mget (tips s) k of
      Some e \<Rightarrow> latestBlock \<lparr>latestBlock = b, latestExpirationTime = t + d\<rparr> < latestBlock e
        \<and> t < latestExpirationTime e | None \<Rightarrow> False)"
    using assms(2) by (auto simp: ct_view_def ct_get_def split: option.splits)
  then have "ct_view (tip_write (t, k, b, d) s) now k' =
      (case mget (mput k \<lparr>latestBlock = b, latestExpirationTime = t + d\<rparr> (tips s)) k' of
         Some e \<Rightarrow> if now < latestExpirationTime e then Some (latestBlock e) else None | None \<Rightarrow> None)"
    using assms(1,3)
    by (simp add: tip_write_def setIfGreaterOrEqualOrStale_def ct_view_def ct_get_def Let_def ct_inv_def
        sweep_invisible [where f = latestExpirationTime] del: mget_mput)
  then show ?thesis by (simp add: ct_view_def ct_get_def)
qed

interpretation chain_tips: monotone_store ct_view tip_write "\<lambda>live new. new < live" ct_inv "\<lambda>b. b"
proof (unfold_locales, goal_cases)
  case (1 s t k w v d)
  then show ?case
    by (auto simp: tip_write_def setIfGreaterOrEqualOrStale_def ct_view_def ct_get_def split: option.splits if_splits)
next
  case (2 s t k v now d k')
  then show ?case by (intro ct_view_written) auto
next
  case (3 s now k v t)
  then show ?case by (auto simp: ct_view_def split: option.splits if_splits)
next
  case (4 s tw)
  then show ?case by (cases tw) (simp add: tip_write_def)
next
  case 5
  show ?case by simp
qed

section \<open>Claims and observations over time\<close>

text \<open>The calls routers make on one sticky store, in the order the mutex lets them in.\<close>

datatype sticky_op = Claim time string StickyPin duration | Look time string

fun op_time :: "sticky_op \<Rightarrow> time" where
  "op_time (Claim t _ _ _) = t"
| "op_time (Look t _) = t"

fun op_key :: "sticky_op \<Rightarrow> string" where
  "op_key (Claim _ k _ _) = k"
| "op_key (Look _ k) = k"

fun sticky_step :: "sticky_op \<Rightarrow> stickyPinStore \<Rightarrow> StickyPin option \<times> stickyPinStore" where
  "sticky_step (Claim t k pin d) s = (let (e, s') = setIfAbsent t k pin d s in (Some e, s'))"
| "sticky_step (Look t k) s = sticky_get t k s"

fun sticky_run :: "sticky_op list \<Rightarrow> stickyPinStore \<Rightarrow> (sticky_op \<times> StickyPin option) list" where
  "sticky_run [] s = []"
| "sticky_run (x # xs) s = (let (a, s') = sticky_step x s in (x, a) # sticky_run xs s')"

lemma em_inv_sticky_step: "em_inv s \<Longrightarrow> em_inv (snd (sticky_step x s))"
  by (cases x) (simp_all add: setIfAbsent_def sticky_get_def split_beta)

lemma setIfAbsent_effective:
  "fst (setIfAbsent t k pin d s) = (case em_view s t k of Some w \<Rightarrow> w | None \<Rightarrow> pin)"
  using em_put_effective [of t k pin d "\<lambda>_. True" s]
  by (simp add: setIfAbsent_def split_beta split: option.splits)

text \<open>While a claim is live every step leaves it and answers with it.\<close>

lemma sticky_step_claimed:
  assumes "em_inv s" and "em_view s now k = Some pin" and "op_time x \<le> now"
  shows "em_view (snd (sticky_step x s)) now k = Some pin"
    and "op_key x = k \<Longrightarrow> fst (sticky_step x s) = Some pin"
proof -
  have seen: "em_view s (op_time x) k = Some pin" using assms(2,3) by (rule em_view_fades)
  show "em_view (snd (sticky_step x s)) now k = Some pin"
  proof (cases x)
    case (Claim t k' p d)
    then show ?thesis
      using sticky_pins.put_keeps_claim [OF assms(1,2), of "(t, k', p, d)"] assms(3)
      by (simp add: sticky_write_def split_beta)
  next
    case (Look t k')
    with assms show ?thesis by (simp add: sticky_get_def split_beta em_view_get)
  qed
  show "fst (sticky_step x s) = Some pin" if "op_key x = k"
    using seen that em_get_view [of "op_time x" k s]
    by (cases x) (auto simp: split_beta setIfAbsent_effective sticky_get_def)
qed

lemma sticky_run_claimed:
  assumes "em_inv s" and "em_view s now k = Some pin" and "\<forall>x\<in>set ops. op_time x \<le> now"
    and "(x, a) \<in> set (sticky_run ops s)" and "op_key x = k"
  shows "a = Some pin"
  using assms
proof (induction ops arbitrary: s)
  case (Cons y ys)
  note step = sticky_step_claimed [OF Cons.prems(1,2), of y]
  from Cons.prems(3,4) consider "x = y" "a = fst (sticky_step y s)"
    | "(x, a) \<in> set (sticky_run ys (snd (sticky_step y s)))" by (auto simp: split_beta)
  then show ?case
  proof cases
    case 1
    with step Cons.prems(3,5) show ?thesis by simp
  next
    case 2
    with Cons.IH [OF em_inv_sticky_step [OF Cons.prems(1)] step(1)] Cons.prems(3,5) show ?thesis by simp
  qed
qed simp

text \<open>C39. A sticky session has one owner at a time. Once a claim is accepted on a free session,
  every router that claims it or looks it up before the claim expires is answered with that same
  pin, however many claims race, whatever they propose, and whichever sweeps happen between
  them.\<close>

theorem one_owner_per_session:
  assumes "em_inv s" and "em_view s t k = None"
    and "\<forall>x\<in>set ops. t \<le> op_time x \<and> op_time x < t + d"
    and "(x, a) \<in> set (sticky_run (Claim t k pin d # ops) s)" and "op_key x = k"
  shows "a = Some pin"
proof -
  let ?s = "snd (setIfAbsent t k pin d s)"
  have first: "fst (setIfAbsent t k pin d s) = pin" using assms(2) by (simp add: setIfAbsent_effective)
  consider "a = Some pin" | "(x, a) \<in> set (sticky_run ops ?s)" and "ops \<noteq> []"
    using assms(4) first by (cases ops) (auto simp: split_beta)
  then show ?thesis
  proof cases
    case 2
    then have "0 < d" using assms(3) by (cases ops) auto
    then have "em_view ?s (t + d - 1) k = Some pin"
      using assms(1,2) by (simp add: setIfAbsent_def split_beta em_put_snd em_view_store)
    moreover have "em_inv ?s" using assms(1) by (simp add: setIfAbsent_def split_beta)
    ultimately show ?thesis using sticky_run_claimed [of ?s "t + d - 1" k pin ops x a] assms(3,5) 2 by force
  qed
qed

definition pin_a :: StickyPin where "pin_a = \<lparr>Provider = ''alpha'', Epoch = 3\<rparr>"

definition pin_b :: StickyPin where "pin_b = \<lparr>Provider = ''beta'', Epoch = 3\<rparr>"

theorem one_owner_per_session_witness:
  "snd (sticky_run [Claim 5 ''s'' pin_a 60, Claim 20 ''s'' pin_b 60, Look 64 ''s''] newExpiringMap ! 2) = Some pin_a"
proof (rule one_owner_per_session [where s = newExpiringMap and t = 5 and k = "''s''" and d = 60
      and ops = "[Claim 20 ''s'' pin_b 60, Look 64 ''s'']" and x = "Look 64 ''s''"])
  show "(Look 64 ''s'', snd (sticky_run [Claim 5 ''s'' pin_a 60, Claim 20 ''s'' pin_b 60, Look 64 ''s''] newExpiringMap ! 2))
    \<in> set (sticky_run [Claim 5 ''s'' pin_a 60, Claim 20 ''s'' pin_b 60, Look 64 ''s''] newExpiringMap)"
    by (simp add: split_beta)
qed (simp_all add: em_view_def2 em_inv_def newExpiringMap_def)

text \<open>A claim is free again at its deadline, and the next writer gets it.\<close>

lemma claim_expires:
  assumes "em_inv s" and "em_view s t k = None" and "t + d \<le> t'"
  shows "fst (setIfAbsent t' k pin' d' (snd (setIfAbsent t k pin d s))) = pin'"
proof -
  have "em_view (em_store t k pin d s) t' k = None" if "t \<le> t'"
    using assms that by (simp add: em_view_store)
  moreover have "em_view (em_store t k pin d s) t' k = None" if "\<not> t \<le> t'"
    using assms that by (auto simp: em_view_def2 em_store_def Let_def em_inv_def mget_filter [where P = "\<lambda>e. t < expiresAt e"] split: option.split)
  ultimately have "em_view (em_store t k pin d s) t' k = None" by blast
  then show ?thesis
    using assms(2) by (simp add: setIfAbsent_effective) (simp add: setIfAbsent_def split_beta em_put_snd)
qed

end
