(* ===== verification/Consistency.thy ===== *)
theory Consistency
  imports Prelude
begin

text \<open>
  The pre-request consistency check: \<open>relaycore/consistency_config.go\<close>,
  \<open>relaycore/consistency_validation.go\<close> and the block tags of \<open>types/spec/constants.go\<close>. A nil
  configuration is \<open>None\<close>. The block numbers are \<open>int64\<close> values; the arithmetic wraps.
\<close>

section \<open>Block tags\<close>

definition NOT_APPLICABLE :: int where "NOT_APPLICABLE = - 1"
definition LATEST_BLOCK :: int where "LATEST_BLOCK = - 2"
definition EARLIEST_BLOCK :: int where "EARLIEST_BLOCK = - 3"
definition PENDING_BLOCK :: int where "PENDING_BLOCK = - 4"
definition SAFE_BLOCK :: int where "SAFE_BLOCK = - 5"
definition FINALIZED_BLOCK :: int where "FINALIZED_BLOCK = - 6"

lemmas block_tags = NOT_APPLICABLE_def LATEST_BLOCK_def EARLIEST_BLOCK_def PENDING_BLOCK_def
  SAFE_BLOCK_def FINALIZED_BLOCK_def

definition IsFinalizedBlock :: "int \<Rightarrow> int \<Rightarrow> int \<Rightarrow> bool" where
  "IsFinalizedBlock requestedBlock latestBlock finalizationCriteria =
    (if requestedBlock = NOT_APPLICABLE then False
     else if requestedBlock < 0 then False
     else if requestedBlock \<le> add64 latestBlock (- finalizationCriteria) then True
     else False)"

section \<open>Configuration\<close>

record consistency_config =
  EndpointLagThreshold :: int

definition DefaultConsistencyValidationConfig :: consistency_config where
  "DefaultConsistencyValidationConfig = \<lparr>EndpointLagThreshold = 10\<rparr>"

definition NewConsistencyValidationConfig :: "int \<Rightarrow> int \<Rightarrow> consistency_config" where
  "NewConsistencyValidationConfig blockLagForQosSync blockGapFactor =
    (let gapFactor = (if blockGapFactor \<noteq> 0 then blockGapFactor else 2);
         endpointLagThreshold = mul64 blockLagForQosSync gapFactor;
         endpointLagThreshold = (if endpointLagThreshold < 10 then 10 else endpointLagThreshold)
     in \<lparr>EndpointLagThreshold = endpointLagThreshold\<rparr>)"

definition IsEndpointTooFarBehind :: "consistency_config option \<Rightarrow> int \<Rightarrow> bool" where
  "IsEndpointTooFarBehind c lag = (case c of None \<Rightarrow> False | Some c \<Rightarrow> lag > EndpointLagThreshold c)"

section \<open>Validation\<close>

definition ShouldSkipConsistencyValidation :: "int \<Rightarrow> bool" where
  "ShouldSkipConsistencyValidation requestedBlock =
    (if requestedBlock = NOT_APPLICABLE then True
     else if requestedBlock = EARLIEST_BLOCK then True
     else if requestedBlock = FINALIZED_BLOCK then True
     else if requestedBlock = SAFE_BLOCK then True
     else if requestedBlock = PENDING_BLOCK then True
     else if requestedBlock = LATEST_BLOCK then False
     else if requestedBlock \<ge> 0 then True
     else False)"

definition ConsistencyError :: string where
  "ConsistencyError = ''does not meet consistency requirements''"

definition ValidateEndpointCapability ::
    "int \<Rightarrow> int \<Rightarrow> int \<Rightarrow> consistency_config option \<Rightarrow> go_error option" where
  "ValidateEndpointCapability endpointLatestBlock chainTip requestedBlock c =
    (if c = None then None
     else if chainTip \<le> 0 then None
     else if endpointLatestBlock \<le> 0 then None
     else if ShouldSkipConsistencyValidation requestedBlock then None
     else if endpointLatestBlock \<ge> chainTip then None
     else let lag = add64 chainTip (- endpointLatestBlock)
          in if IsEndpointTooFarBehind c lag
             then Some (ErrWrap ''endpoint block is too far behind'' [ErrSentinel ConsistencyError]) else None)"

section \<open>What the check decides\<close>

lemma skip_iff:
  "ShouldSkipConsistencyValidation b \<longleftrightarrow> b \<noteq> LATEST_BLOCK \<and> b \<ge> FINALIZED_BLOCK"
  by (auto simp: ShouldSkipConsistencyValidation_def block_tags)

lemma threshold_at_least_ten: "10 \<le> EndpointLagThreshold (NewConsistencyValidationConfig lag factor)"
  by (simp add: NewConsistencyValidationConfig_def Let_def)

lemma lag_exact:
  assumes "0 < e" "e < t" "in_int64 t"
  shows "add64 t (- e) = t - e"
proof -
  have "in_int64 (t + - e)" using assms by (simp add: in_int64_def min_int64_def)
  then show ?thesis by (simp add: add64_def wrap64_id)
qed

lemma ValidateEndpointCapability_iff:
  assumes "in_int64 chainTip"
  shows "ValidateEndpointCapability e chainTip b (Some c) \<noteq> None \<longleftrightarrow>
    0 < e \<and> \<not> ShouldSkipConsistencyValidation b \<and> e < chainTip \<and> EndpointLagThreshold c < chainTip - e"
  using lag_exact [of e chainTip] assms
  by (auto simp: ValidateEndpointCapability_def IsEndpointTooFarBehind_def Let_def)

lemma ValidateEndpointCapability_error:
  "ValidateEndpointCapability e t b c = Some err \<Longrightarrow> errors_is err ConsistencyError"
  by (auto simp: ValidateEndpointCapability_def ConsistencyError_def Let_def split: if_splits)

text \<open>
  The pre-request gate: an endpoint is turned away exactly when it is more than the configured
  lag behind the tip on a request for the latest block (or an unknown tag); the refusal is a
  consistency error; an endpoint or a tip that is not known yet, and an endpoint ahead of the tip,
  always pass; and an endpoint that passes stays passing when it advances.
\<close>

theorem consistency_gate:
  assumes "in_int64 chainTip"
  shows "((\<exists>err. ValidateEndpointCapability e chainTip b (Some c) = Some err \<and> errors_is err ConsistencyError)
      \<longleftrightarrow> 0 < e \<and> 0 < chainTip \<and> (b = LATEST_BLOCK \<or> b < FINALIZED_BLOCK) \<and> e < chainTip
         \<and> e + EndpointLagThreshold c < chainTip)
    \<and> (ValidateEndpointCapability e chainTip b (Some c) = None \<and> 0 < e \<and> e \<le> e' \<longrightarrow>
         ValidateEndpointCapability e' chainTip b (Some c) = None)"
proof -
  note iff = ValidateEndpointCapability_iff [OF assms]
  have "(\<exists>err. ValidateEndpointCapability e chainTip b (Some c) = Some err \<and> errors_is err ConsistencyError)
      \<longleftrightarrow> ValidateEndpointCapability e chainTip b (Some c) \<noteq> None"
    using ValidateEndpointCapability_error by blast
  then have "(\<exists>err. ValidateEndpointCapability e chainTip b (Some c) = Some err \<and> errors_is err ConsistencyError)
      \<longleftrightarrow> 0 < e \<and> 0 < chainTip \<and> (b = LATEST_BLOCK \<or> b < FINALIZED_BLOCK) \<and> e < chainTip
         \<and> e + EndpointLagThreshold c < chainTip"
    unfolding iff skip_iff by (auto simp: block_tags)
  moreover have "ValidateEndpointCapability e' chainTip b (Some c) = None"
    if "ValidateEndpointCapability e chainTip b (Some c) = None" "0 < e" "e \<le> e'"
    using that iff [of e b c] iff [of e' b c] by fastforce
  ultimately show ?thesis by (intro conjI impI) simp_all
qed

theorem consistency_gate_witness:
  "(\<exists>err. ValidateEndpointCapability 80 100 LATEST_BLOCK (Some DefaultConsistencyValidationConfig) = Some err
      \<and> errors_is err ConsistencyError)
   \<and> ValidateEndpointCapability 95 100 LATEST_BLOCK (Some DefaultConsistencyValidationConfig) = None"
  using consistency_gate [of 100 80 LATEST_BLOCK DefaultConsistencyValidationConfig 80]
  by (simp add: ValidateEndpointCapability_def DefaultConsistencyValidationConfig_def in_int64_def
      min_int64_def max_int64_def block_tags ShouldSkipConsistencyValidation_def add64_def wrap64_def
      IsEndpointTooFarBehind_def)

end
