(* ===== verification/CacheEngine.thy ===== *)
theory CacheEngine
  imports CacheStores Consistency
begin

text \<open>
  The cache engine (\<open>src/ecosystem/cache/core/engine.go\<close>, \<open>envelope.go\<close>, \<open>kvstore.go\<close>) over any
  store: the Go interface \<open>KVStore\<close> is a record of operations, and the engine's functions take it as
  they take the receiver's \<open>Store\<close> field.

  Every operation of a store returns its result and the store's next state; an error is \<open>Inl\<close>.
  The three goroutines of \<open>GetRelay\<close> read under disjoint keys and write disjoint variables; they
  run here in the order of the text. Errors built with \<open>errors.Join\<close> keep their operands; the
  rendered text, which only reaches logs, is not modelled. Gzip is a parameter of the model: \<open>gzip\<close>
  and \<open>gunzip\<close> return nothing where the Go call returns an error.
\<close>

section \<open>Messages\<close>

record relay_reply =
  Data :: string
  Sig :: string
  LatestBlock :: int64
  FinalizedBlocksHashes :: string
  SigBlocks :: string
  rr_Metadata :: "(string \<times> string) list"

type_synonym BlockHashToHeight = "string \<times> int64"

record CacheRelayReply =
  cr_Reply :: "relay_reply option"
  cr_OptionalMetadata :: "(string \<times> string) list"
  cr_SeenBlock :: int64
  cr_BlocksHashesToHeights :: "BlockHashToHeight list"
  cr_IsNodeError :: bool
  cr_StatusCode :: int
  cr_KeyPrefix :: string

record RelayCacheGet =
  cg_RequestHash :: string
  cg_BlockHash :: "string option"
  cg_Finalized :: bool
  cg_RequestedBlock :: int64
  cg_SharedStateId :: string
  cg_ChainId :: string
  cg_SeenBlock :: int64
  cg_BlocksHashesToHeights :: "BlockHashToHeight list"
  cg_KeyPrefix :: string

record RelayCacheSet =
  cs_RequestHash :: string
  cs_BlockHash :: "string option"
  cs_Response :: relay_reply
  cs_Finalized :: bool
  cs_OptionalMetadata :: "(string \<times> string) list"
  cs_SharedStateId :: string
  cs_RequestedBlock :: int64
  cs_ChainId :: string
  cs_SeenBlock :: int64
  cs_AverageBlockTime :: duration
  cs_IsNodeError :: bool
  cs_BlocksHashesToHeights :: "BlockHashToHeight list"
  cs_StatusCode :: int
  cs_KeyPrefix :: string

definition empty_reply :: CacheRelayReply where
  "empty_reply = \<lparr>cr_Reply = None, cr_OptionalMetadata = [], cr_SeenBlock = 0,
     cr_BlocksHashesToHeights = [], cr_IsNodeError = False, cr_StatusCode = 0, cr_KeyPrefix = []\<rparr>"

section \<open>Envelopes\<close>

record codec =
  gzip :: "string \<Rightarrow> string option"
  gunzip :: "string \<Rightarrow> string option"

record Envelope =
  Response :: relay_reply
  Hash :: "string option"
  env_OptionalMetadata :: "(string \<times> string) list"
  env_SeenBlock :: int64
  env_IsNodeError :: bool
  env_StatusCode :: int
  IsCompressed :: bool

definition CompressionThreshold :: nat where
  "CompressionThreshold = 1024"

text \<open>The result is the bytes and whether they are compressed, or nothing for an error.\<close>

definition compressData :: "codec \<Rightarrow> string \<Rightarrow> (string \<times> bool) option" where
  "compressData z d =
     (if length d < CompressionThreshold then Some (d, False)
      else case gzip z d of
        None \<Rightarrow> None
      | Some compressed \<Rightarrow> if length d \<le> length compressed then Some (d, False) else Some (compressed, True))"

definition decompressData :: "codec \<Rightarrow> string \<Rightarrow> string option" where
  "decompressData z d = gunzip z d"

definition ToCacheReply :: "codec \<Rightarrow> Envelope \<Rightarrow> CacheRelayReply" where
  "ToCacheReply z cv =
     (let response = Response cv;
          response' = (if IsCompressed cv \<and> Data response \<noteq> [] then
             case decompressData z (Data response) of None \<Rightarrow> response | Some d \<Rightarrow> response\<lparr>Data := d\<rparr>
           else response)
      in \<lparr>cr_Reply = Some response', cr_OptionalMetadata = env_OptionalMetadata cv,
          cr_SeenBlock = env_SeenBlock cv, cr_BlocksHashesToHeights = [],
          cr_IsNodeError = env_IsNodeError cv, cr_StatusCode = env_StatusCode cv, cr_KeyPrefix = []\<rparr>)"

definition Cost :: "Envelope \<Rightarrow> int64" where
  "Cost cv = int (length (Data (Response cv)))"

definition NewEnvelope :: "codec \<Rightarrow> relay_reply \<Rightarrow> string option \<Rightarrow> bool \<Rightarrow> (string \<times> string) list \<Rightarrow>
    int64 \<Rightarrow> bool \<Rightarrow> int \<Rightarrow> Envelope" where
  "NewEnvelope z response hash finalized optionalMetadata seenBlock isNodeError statusCode =
     (let response1 = response\<lparr>Sig := []\<rparr>;
          (response2, isCompressed) = (case compressData z (Data response1) of
             None \<Rightarrow> (response1, False)
           | Some (compressed, isC) \<Rightarrow> (if isC then response1\<lparr>Data := compressed\<rparr> else response1, isC))
      in \<lparr>Response = response2, Hash = (if finalized then None else hash),
          env_OptionalMetadata = optionalMetadata, env_SeenBlock = seenBlock,
          env_IsNodeError = isNodeError, env_StatusCode = statusCode, IsCompressed = isCompressed\<rparr>)"

section \<open>The store interface\<close>

record 's KVStore =
  kv_GetEntries :: "string list \<Rightarrow> 's \<Rightarrow> (go_error + Envelope option list) \<times> 's"
  kv_SetEntry :: "string \<Rightarrow> Envelope \<Rightarrow> duration \<Rightarrow> 's \<Rightarrow> go_error option \<times> 's"
  kv_GetInt64 :: "string \<Rightarrow> 's \<Rightarrow> (go_error + int64 option) \<times> 's"
  kv_SetInt64IfGreaterOrEqual :: "string \<Rightarrow> int64 \<Rightarrow> duration \<Rightarrow> 's \<Rightarrow> go_error option \<times> 's"
  kv_GetChainTip :: "string \<Rightarrow> 's \<Rightarrow> (go_error + int64 option) \<times> 's"
  kv_SetChainTipIfGreaterOrEqualOrStale :: "string \<Rightarrow> int64 \<Rightarrow> 's \<Rightarrow> go_error option \<times> 's"
  kv_GetHeights :: "string list \<Rightarrow> 's \<Rightarrow> (go_error + int64 option list) \<times> 's"
  kv_SetHeight :: "string \<Rightarrow> int64 \<Rightarrow> duration \<Rightarrow> 's \<Rightarrow> go_error option \<times> 's"
  kv_GetSticky :: "string \<Rightarrow> 's \<Rightarrow> (go_error + StickyPin option) \<times> 's"
  kv_SetStickyIfAbsent :: "string \<Rightarrow> StickyPin \<Rightarrow> duration \<Rightarrow> 's \<Rightarrow> (go_error + StickyPin) \<times> 's"
  kv_PublishEndpointObservation :: "string \<Rightarrow> EndpointObservation \<Rightarrow> duration \<Rightarrow> 's \<Rightarrow> (go_error + bool) \<times> 's"
  kv_GetEndpointObservation :: "string \<Rightarrow> 's \<Rightarrow> (go_error + (EndpointObservation \<times> duration) option) \<times> 's"
  kv_Purge :: "'s \<Rightarrow> go_error option \<times> 's"

record 's Engine =
  Store :: "'s KVStore"
  eng_Policy :: Policy
  eng_codec :: codec

section \<open>Errors\<close>

definition NotFoundError :: string where
  "NotFoundError = ''cache entry for specific block and request wasn't found''"

definition HashMismatchError :: string where
  "HashMismatchError = ''cache entry for specific block and request had a mismatching hash stored''"

definition ErrEmptyStickyId :: string where
  "ErrEmptyStickyId = ''sticky session id is empty''"

definition ErrInvalidEndpointObservation :: string where
  "ErrInvalidEndpointObservation = ''invalid endpoint observation''"

definition StoreError :: string where
  "StoreError = ''cache store operation failed''"

definition errChainTipUnreadable :: string where
  "errChainTipUnreadable = ''chain tip could not be read from the store''"

lemmas cache_errors = NotFoundError_def HashMismatchError_def ErrEmptyStickyId_def
  ErrInvalidEndpointObservation_def StoreError_def errChainTipUnreadable_def

definition errors_join :: "go_error list \<Rightarrow> go_error" where
  "errors_join es = ErrWrap ''errors.Join'' es"

section \<open>Symbolic blocks\<close>

definition tipReadFailed :: int64 where
  "tipReadFailed = min_int64"

definition replaceRequestedBlock :: "int64 \<Rightarrow> int64 \<Rightarrow> int64" where
  "replaceRequestedBlock requestedBlock latest =
     (if latest = tipReadFailed then tipReadFailed
      else if requestedBlock \<in> {LATEST_BLOCK, SAFE_BLOCK, FINALIZED_BLOCK, PENDING_BLOCK} then latest
      else if requestedBlock = EARLIEST_BLOCK then NOT_APPLICABLE
      else requestedBlock)"

definition chainTip :: "'s Engine \<Rightarrow> string \<Rightarrow> 's \<Rightarrow> int64 \<times> 's" where
  "chainTip e chainId s =
     (case kv_GetChainTip (Store e) (ChainTipKey chainId) s of
        (Inl _, s') \<Rightarrow> (tipReadFailed, s')
      | (Inr None, s') \<Rightarrow> (NOT_APPLICABLE, s')
      | (Inr (Some t), s') \<Rightarrow> (t, s'))"

section \<open>Shared tips and heights\<close>

definition GetSharedTip :: "'s Engine \<Rightarrow> string \<Rightarrow> string \<Rightarrow> 's \<Rightarrow> int64 \<times> 's" where
  "GetSharedTip e chainId sharedStateId s =
     (if sharedStateId = [] then (0, s)
      else case kv_GetInt64 (Store e) (SharedTipKey chainId sharedStateId) s of
        (Inr (Some v), s') \<Rightarrow> (v, s')
      | (_, s') \<Rightarrow> (0, s'))"

definition SetSharedTip :: "'s Engine \<Rightarrow> string \<Rightarrow> string \<Rightarrow> int64 \<Rightarrow> duration \<Rightarrow> 's \<Rightarrow> 's" where
  "SetSharedTip e chainId sharedStateId seenBlock ttl s =
     (if sharedStateId = [] then s
      else snd (kv_SetInt64IfGreaterOrEqual (Store e) (SharedTipKey chainId sharedStateId) seenBlock ttl s))"

definition getBlockHeightsFromHashes :: "'s Engine \<Rightarrow> string \<Rightarrow> BlockHashToHeight list \<Rightarrow> 's \<Rightarrow>
    BlockHashToHeight list \<times> 's" where
  "getBlockHeightsFromHashes e chainId hashes s =
     (if hashes = [] then (hashes, s)
      else case kv_GetHeights (Store e) (map (HeightKey chainId \<circ> fst) hashes) s of
        (Inl _, s') \<Rightarrow> (map (\<lambda>h. (fst h, NOT_APPLICABLE)) hashes, s')
      | (Inr found, s') \<Rightarrow>
          (map (\<lambda>(h, r). (fst h, case r of Some x \<Rightarrow> x | None \<Rightarrow> NOT_APPLICABLE)) (zip hashes found), s'))"

fun setBlocksHashesToHeights :: "'s Engine \<Rightarrow> string \<Rightarrow> BlockHashToHeight list \<Rightarrow> 's \<Rightarrow> 's" where
  "setBlocksHashesToHeights e chainId [] s = s"
| "setBlocksHashesToHeights e chainId ((h, height) # hs) s =
     setBlocksHashesToHeights e chainId hs
       (if 0 \<le> height then
          snd (kv_SetHeight (Store e) (HeightKey chainId h) height (BlocksHashesToHeights_ttl (eng_Policy e)) s)
        else s)"

section \<open>Reading a relay\<close>

text \<open>\<open>bytes.Equal\<close> does not tell a nil slice from an empty one.\<close>

definition bytes_of :: "string option \<Rightarrow> string" where
  "bytes_of b = (case b of Some x \<Rightarrow> x | None \<Rightarrow> [])"

definition bytes_Equal :: "string option \<Rightarrow> string option \<Rightarrow> bool" where
  "bytes_Equal a b \<longleftrightarrow> bytes_of a = bytes_of b"

fun first_present :: "'a option list \<Rightarrow> 'a option" where
  "first_present [] = None"
| "first_present (None # xs) = first_present xs"
| "first_present (Some x # xs) = Some x"

definition getRelayInner :: "'s Engine \<Rightarrow> RelayCacheGet \<Rightarrow> int64 \<Rightarrow> string \<Rightarrow> 's \<Rightarrow>
    (go_error + CacheRelayReply) \<times> 's" where
  "getRelayInner e req requestedBlock chainId s =
     (case kv_GetEntries (Store e)
             (RelayLookupKeys (cg_Finalized req) chainId (cg_RequestHash req) requestedBlock) s of
        (Inl err, s') \<Rightarrow> (Inl (errors_join [ErrSentinel StoreError, err]), s')
      | (Inr entries, s') \<Rightarrow>
          (case first_present entries of
             None \<Rightarrow> (Inl (ErrSentinel NotFoundError), s')
           | Some cacheVal \<Rightarrow>
               if Hash cacheVal = None then (Inr (ToCacheReply (eng_codec e) cacheVal), s')
               else if bytes_Equal (Hash cacheVal) (cg_BlockHash req)
               then (Inr (ToCacheReply (eng_codec e) cacheVal), s')
               else (Inl (ErrSentinel HashMismatchError), s')))"

text \<open>The requested block, a symbolic one resolved against the chain tip.\<close>

definition resolveBlock :: "'s Engine \<Rightarrow> RelayCacheGet \<Rightarrow> 's \<Rightarrow> int64 \<times> 's" where
  "resolveBlock e req s =
     (if cg_RequestedBlock req < 0 then
        let (latest, s') = chainTip e (ScopedChainId (cg_KeyPrefix req) (cg_ChainId req)) s
        in (replaceRequestedBlock (cg_RequestedBlock req) latest, s')
      else (cg_RequestedBlock req, s))"

text \<open>The lookup of a resolved block: the entry, the seen block merged from the shared tip, and
  the heights.\<close>

definition getResolved :: "'s Engine \<Rightarrow> RelayCacheGet \<Rightarrow> int64 \<Rightarrow> 's \<Rightarrow>
    (CacheRelayReply \<times> go_error option) \<times> 's" where
  "getResolved e req block s =
     (let chainId = ScopedChainId (cg_KeyPrefix req) (cg_ChainId req);
          (inner, s1) = getRelayInner e req block chainId s;
          (cacheReply, err) = (case inner of Inl x \<Rightarrow> (empty_reply, Some x) | Inr r \<Rightarrow> (r, None));
          (shared, s2) = GetSharedTip e chainId (cg_SharedStateId req) s1;
          seenBlock = max shared (cg_SeenBlock req);
          (blockHashes, s3) = getBlockHeightsFromHashes e chainId (cg_BlocksHashesToHeights req) s2;
          err' = (if err = None \<and> cr_SeenBlock cacheReply < min seenBlock block
                  then Some (ErrNew ''reply seen block is smaller than our expectations'') else err);
          cacheReply' = cacheReply\<lparr>cr_SeenBlock := max seenBlock (cr_SeenBlock cacheReply),
                                   cr_BlocksHashesToHeights := blockHashes\<rparr>
      in ((cacheReply', err'), s3))"

text \<open>\<open>GetRelay\<close> returns the reply, whether an entry was found, and the miss reason. Its deferred
  function drops the reply of a failed lookup after the hit was decided. \<open>ctxErr\<close> is what
  \<open>ctx.Err()\<close> returns.\<close>

definition GetRelay :: "'s Engine \<Rightarrow> go_error option \<Rightarrow> RelayCacheGet \<Rightarrow> 's \<Rightarrow>
    (CacheRelayReply \<times> bool \<times> go_error option) \<times> 's" where
  "GetRelay e ctxErr req s =
     (let chainId = ScopedChainId (cg_KeyPrefix req) (cg_ChainId req);
          (block, s1) = resolveBlock e req s
      in if 0 \<le> block then
           let ((cacheReply, err), s2) = getResolved e req block s1
           in ((if err = None then cacheReply else cacheReply\<lparr>cr_Reply := None\<rparr>,
                cr_Reply cacheReply \<noteq> None, err), s2)
         else if block = tipReadFailed then
           ((empty_reply, False,
             Some (errors_join ([ErrSentinel StoreError, ErrSentinel errChainTipUnreadable] @
                                (case ctxErr of None \<Rightarrow> [] | Some x \<Rightarrow> [x])))), s1)
         else
           let (blockHashes, s2) = getBlockHeightsFromHashes e chainId (cg_BlocksHashesToHeights req) s1
           in ((empty_reply\<lparr>cr_BlocksHashesToHeights := blockHashes\<rparr>, False,
                Some (ErrNew ''Requested block is invalid'')), s2))"

section \<open>Writing a relay\<close>

text \<open>A conversion to \<open>float64\<close> rounds an integer to 53 significant bits, ties to even; the
  conversion back of a value outside the range gives the smallest \<open>int64\<close>, as on amd64.\<close>

fun bit_length :: "nat \<Rightarrow> nat" where
  "bit_length n = (if n = 0 then 0 else 1 + bit_length (n div 2))"

declare bit_length.simps [simp del]

definition to_float64 :: "int64 \<Rightarrow> int" where
  "to_float64 x =
     (let a = \<bar>x\<bar> in
      if a \<le> 2 ^ 53 then x
      else let m = 2 ^ (bit_length (nat a) - 53);
               q = a div m; r = a mod m;
               q' = (if m < 2 * r \<or> (2 * r = m \<and> odd q) then q + 1 else q)
           in sgn x * q' * m)"

definition int64_of_float64 :: "int \<Rightarrow> int64" where
  "int64_of_float64 x = (if in_int64 x then x else min_int64)"

definition latestKnownBlock :: "RelayCacheSet \<Rightarrow> int64" where
  "latestKnownBlock req =
     int64_of_float64 (max (to_float64 (LatestBlock (cs_Response req))) (to_float64 (cs_SeenBlock req)))"

definition stored_key :: "RelayCacheSet \<Rightarrow> string" where
  "stored_key req = RelayKey (cs_Finalized req) (ScopedChainId (cs_KeyPrefix req) (cs_ChainId req))
     (cs_RequestHash req) (cs_RequestedBlock req)"

definition stored_envelope :: "codec \<Rightarrow> RelayCacheSet \<Rightarrow> Envelope" where
  "stored_envelope z req = NewEnvelope z (cs_Response req) (cs_BlockHash req) (cs_Finalized req)
     (cs_OptionalMetadata req) (latestKnownBlock req) (cs_IsNodeError req) (cs_StatusCode req)"

definition SetRelay :: "'s Engine \<Rightarrow> RelayCacheSet \<Rightarrow> 's \<Rightarrow> go_error option \<times> 's" where
  "SetRelay e req s =
     (if cs_RequestedBlock req < 0
      then (Some (ErrNew ''invalid relay cache set data, request block is negative''), s)
      else
        let latest = latestKnownBlock req;
            chainId = ScopedChainId (cs_KeyPrefix req) (cs_ChainId req);
            ttl = ForRelayEntry (eng_Policy e) (cs_Finalized req) (cs_IsNodeError req)
                    (cs_AverageBlockTime req) (cs_BlockHash req);
            (err, s1) = kv_SetEntry (Store e) (stored_key req) (stored_envelope (eng_codec e) req) ttl s;
            storeErr = map_option (\<lambda>x. errors_join [ErrSentinel StoreError, x]) err;
            s2 = SetSharedTip e chainId (cs_SharedStateId req) latest
                   (SharedStateTip (eng_Policy e) (cs_AverageBlockTime req)) s1;
            s3 = (if 0 < latest
                  then snd (kv_SetChainTipIfGreaterOrEqualOrStale (Store e) (ChainTipKey chainId) latest s2)
                  else s2);
            s4 = setBlocksHashesToHeights e chainId (cs_BlocksHashesToHeights req) s3
        in (storeErr, s4))"

definition engine_Purge :: "'s Engine \<Rightarrow> 's \<Rightarrow> go_error option \<times> 's" where
  "engine_Purge e s = kv_Purge (Store e) s"

section \<open>Sticky sessions and observations\<close>

definition MinStickyTTL :: duration where "MinStickyTTL = minute"

definition MaxStickyTTL :: duration where "MaxStickyTTL = 6 * hour"

definition ClampStickyTTL :: "duration \<Rightarrow> duration" where
  "ClampStickyTTL requested = min (max requested MinStickyTTL) MaxStickyTTL"

definition engine_GetSticky :: "'s Engine \<Rightarrow> string \<Rightarrow> string \<Rightarrow> string \<Rightarrow> string \<Rightarrow> 's \<Rightarrow>
    (go_error + StickyPin option) \<times> 's" where
  "engine_GetSticky e chainId apiInterface service stickyId s =
     (if stickyId = [] then (Inr None, s)
      else case kv_GetSticky (Store e) (StickyKey chainId apiInterface service stickyId) s of
        (Inl err, s') \<Rightarrow> (Inl (errors_join [ErrSentinel StoreError, err]), s')
      | (Inr pin, s') \<Rightarrow> (Inr pin, s'))"

definition engine_SetStickyIfAbsent :: "'s Engine \<Rightarrow> string \<Rightarrow> string \<Rightarrow> string \<Rightarrow> string \<Rightarrow> StickyPin \<Rightarrow>
    duration \<Rightarrow> 's \<Rightarrow> (go_error + StickyPin) \<times> 's" where
  "engine_SetStickyIfAbsent e chainId apiInterface service stickyId pin ttl s =
     (if stickyId = [] then (Inl (ErrSentinel ErrEmptyStickyId), s)
      else case kv_SetStickyIfAbsent (Store e) (StickyKey chainId apiInterface service stickyId) pin
                  (ClampStickyTTL ttl) s of
        (Inl err, s') \<Rightarrow> (Inl (errors_join [ErrSentinel StoreError, err]), s')
      | (Inr effective, s') \<Rightarrow> (Inr effective, s'))"

definition MinEndpointObservationTTL :: duration where
  "MinEndpointObservationTTL = 500 * millisecond"

definition MaxEndpointObservationTTL :: duration where
  "MaxEndpointObservationTTL = 5 * minute"

definition ClampEndpointObservationTTL :: "duration \<Rightarrow> duration" where
  "ClampEndpointObservationTTL requested = min (max requested MinEndpointObservationTTL) MaxEndpointObservationTTL"

definition engine_PublishEndpointObservation :: "'s Engine \<Rightarrow> string \<Rightarrow> string \<Rightarrow> string \<Rightarrow> string \<Rightarrow>
    int64 \<Rightarrow> duration \<Rightarrow> 's \<Rightarrow> (go_error + bool) \<times> 's" where
  "engine_PublishEndpointObservation e chainId apiInterface endpointId podId block ttl s =
     (if chainId = [] \<or> endpointId = []
      then (Inl (ErrWrap ''invalid endpoint observation: missing chain id or endpoint id''
                   [ErrSentinel ErrInvalidEndpointObservation]), s)
      else if block \<le> 0
      then (Inl (ErrWrap (''invalid endpoint observation: block '' @ format_int block @ '' is not positive'')
                   [ErrSentinel ErrInvalidEndpointObservation]), s)
      else case kv_PublishEndpointObservation (Store e) (EndpointObservationKey chainId apiInterface endpointId)
                  \<lparr>obs_Block = block, obs_PodID = podId\<rparr> (ClampEndpointObservationTTL ttl) s of
        (Inl err, s') \<Rightarrow> (Inl (errors_join [ErrSentinel StoreError, err]), s')
      | (Inr applied, s') \<Rightarrow> (Inr applied, s'))"

definition engine_GetEndpointObservation :: "'s Engine \<Rightarrow> string \<Rightarrow> string \<Rightarrow> string \<Rightarrow> 's \<Rightarrow>
    (go_error + (EndpointObservation \<times> duration) option) \<times> 's" where
  "engine_GetEndpointObservation e chainId apiInterface endpointId s =
     (if chainId = [] \<or> endpointId = [] then (Inr None, s)
      else case kv_GetEndpointObservation (Store e) (EndpointObservationKey chainId apiInterface endpointId) s of
        (Inl err, s') \<Rightarrow> (Inl (errors_join [ErrSentinel StoreError, err]), s')
      | (Inr r, s') \<Rightarrow> (Inr r, s'))"

section \<open>What a stored reply gives back\<close>

text \<open>The documented law of gzip: what it produces can be read back, and is not empty.\<close>

definition codec_ok :: "codec \<Rightarrow> bool" where
  "codec_ok z \<longleftrightarrow> (\<forall>d c. gzip z d = Some c \<longrightarrow> c \<noteq> [] \<and> gunzip z c = Some d)"

text \<open>The reply a reader gets for an entry: what was written, without the signature.\<close>

definition served_form :: "RelayCacheSet \<Rightarrow> relay_reply" where
  "served_form q = (cs_Response q)\<lparr>Sig := []\<rparr>"

lemma envelope_round_trip:
  assumes "codec_ok z"
  shows "cr_Reply (ToCacheReply z (stored_envelope z q)) = Some (served_form q)"
  using assms
  by (auto simp: ToCacheReply_def stored_envelope_def NewEnvelope_def served_form_def compressData_def
      decompressData_def codec_ok_def Let_def split: option.splits if_splits)

lemma stored_envelope_simps [simp]:
  "Hash (stored_envelope z q) = (if cs_Finalized q then None else cs_BlockHash q)"
  "env_SeenBlock (stored_envelope z q) = latestKnownBlock q"
  "env_IsNodeError (stored_envelope z q) = cs_IsNodeError q"
  "env_StatusCode (stored_envelope z q) = cs_StatusCode q"
  "env_OptionalMetadata (stored_envelope z q) = cs_OptionalMetadata q"
  by (auto simp: stored_envelope_def NewEnvelope_def Let_def split: option.splits)

lemma ToCacheReply_simps [simp]:
  "cr_SeenBlock (ToCacheReply z v) = env_SeenBlock v"
  "cr_IsNodeError (ToCacheReply z v) = env_IsNodeError v"
  "cr_StatusCode (ToCacheReply z v) = env_StatusCode v"
  "cr_OptionalMetadata (ToCacheReply z v) = env_OptionalMetadata v"
  "cr_Reply (ToCacheReply z v) \<noteq> None"
  by (simp_all add: ToCacheReply_def Let_def)

lemma first_present_Some: "first_present xs = Some x \<Longrightarrow> Some x \<in> set xs"
  by (induction xs rule: first_present.induct) auto

lemma latestKnownBlock_exact:
  assumes "\<bar>LatestBlock (cs_Response q)\<bar> \<le> 2 ^ 53" and "\<bar>cs_SeenBlock q\<bar> \<le> 2 ^ 53"
  shows "latestKnownBlock q = max (LatestBlock (cs_Response q)) (cs_SeenBlock q)"
  using assms by (auto simp: latestKnownBlock_def to_float64_def int64_of_float64_def in_int64_def
      min_int64_def max_int64_def max_def)

text \<open>A lookup without an error serves the entry it found, and the entry is recent enough.\<close>

lemma getResolved_ok:
  assumes "getResolved e req b s = ((reply, None), s')"
  shows "\<exists>r s1. getRelayInner e req b (ScopedChainId (cg_KeyPrefix req) (cg_ChainId req)) s = (Inr r, s1)
    \<and> cr_Reply reply = cr_Reply r \<and> cr_IsNodeError reply = cr_IsNodeError r
    \<and> cr_StatusCode reply = cr_StatusCode r \<and> min (cg_SeenBlock req) b \<le> cr_SeenBlock r"
proof -
  let ?c = "ScopedChainId (cg_KeyPrefix req) (cg_ChainId req)"
  obtain i s1 where i: "getRelayInner e req b ?c s = (i, s1)" by fastforce
  obtain m s2 where m: "GetSharedTip e ?c (cg_SharedStateId req) s1 = (m, s2)" by fastforce
  obtain h s3 where h: "getBlockHeightsFromHashes e ?c (cg_BlocksHashesToHeights req) s2 = (h, s3)" by fastforce
  show ?thesis
  proof (cases i)
    case (Inl x)
    with assms i m h show ?thesis by (simp add: getResolved_def Let_def)
  next
    case (Inr r)
    with assms i m h show ?thesis by (auto simp: getResolved_def Let_def split: if_splits)
  qed
qed

section \<open>What the engine relies on\<close>

text \<open>
  \<open>holds s k v\<close>: the store may answer a read of \<open>k\<close> with \<open>v\<close>. A store may lose an entry at any
  time and may apply a write late, but it never answers with what was not written under that key
  since the last purge. \<open>env s s'\<close> is what the store does between calls (time passes, entries
  expire or are evicted, buffered writes land).
\<close>

definition adds_nothing :: "('s \<Rightarrow> string \<Rightarrow> Envelope \<Rightarrow> bool) \<Rightarrow> ('s \<Rightarrow> 'r \<times> 's) \<Rightarrow> bool" where
  "adds_nothing holds f \<longleftrightarrow> (\<forall>s k v. holds (snd (f s)) k v \<longrightarrow> holds s k v)"

locale kv_store =
  fixes e :: "'s Engine"
    and holds :: "'s \<Rightarrow> string \<Rightarrow> Envelope \<Rightarrow> bool"
    and env :: "'s \<Rightarrow> 's \<Rightarrow> bool"
  assumes get_entries: "kv_GetEntries (Store e) ks s = (Inr es, s') \<Longrightarrow> length es = length ks"
    and get_entries_held: "kv_GetEntries (Store e) ks s = (Inr es, s') \<Longrightarrow> i < length ks \<Longrightarrow> es ! i = Some v \<Longrightarrow> holds s (ks ! i) v"
    and set_entry: "holds (snd (kv_SetEntry (Store e) key v ttl s)) k w \<Longrightarrow> holds s k w \<or> (k = key \<and> w = v)"
    and get_entries_adds: "adds_nothing holds (kv_GetEntries (Store e) ks)"
    and get_int_adds: "adds_nothing holds (kv_GetInt64 (Store e) key)"
    and set_int_adds: "adds_nothing holds (kv_SetInt64IfGreaterOrEqual (Store e) key n ttl)"
    and get_tip_adds: "adds_nothing holds (kv_GetChainTip (Store e) key)"
    and set_tip_adds: "adds_nothing holds (kv_SetChainTipIfGreaterOrEqualOrStale (Store e) key n)"
    and get_heights_adds: "adds_nothing holds (kv_GetHeights (Store e) ks)"
    and set_height_adds: "adds_nothing holds (kv_SetHeight (Store e) key n ttl)"
    and get_sticky_adds: "adds_nothing holds (kv_GetSticky (Store e) key)"
    and set_sticky_adds: "adds_nothing holds (kv_SetStickyIfAbsent (Store e) key pin ttl)"
    and publish_adds: "adds_nothing holds (kv_PublishEndpointObservation (Store e) key obs ttl)"
    and get_obs_adds: "adds_nothing holds (kv_GetEndpointObservation (Store e) key)"
    and purge_empties: "kv_Purge (Store e) s = (None, s') \<Longrightarrow> \<not> holds s' k v"
    and purge_adds: "adds_nothing holds (kv_Purge (Store e))"
    and env_adds: "env s s' \<Longrightarrow> holds s' k v \<Longrightarrow> holds s k v"

text \<open>The calls routers make, and the relays written since the last successful purge.\<close>

datatype cache_call =
    CallSet RelayCacheSet
  | CallGet RelayCacheGet "go_error option"
  | CallGetSticky string string string string
  | CallSetSticky string string string string StickyPin duration
  | CallPublish string string string string int64 duration
  | CallGetObservation string string string
  | CallPurge

fun perform :: "'s Engine \<Rightarrow> cache_call \<Rightarrow> 's \<Rightarrow> 's" where
  "perform e (CallSet q) s = snd (SetRelay e q s)"
| "perform e (CallGet q c) s = snd (GetRelay e c q s)"
| "perform e (CallGetSticky c a v i) s = snd (engine_GetSticky e c a v i s)"
| "perform e (CallSetSticky c a v i pin ttl) s = snd (engine_SetStickyIfAbsent e c a v i pin ttl s)"
| "perform e (CallPublish c a i p b ttl) s = snd (engine_PublishEndpointObservation e c a i p b ttl s)"
| "perform e (CallGetObservation c a i) s = snd (engine_GetEndpointObservation e c a i s)"
| "perform e CallPurge s = snd (engine_Purge e s)"

fun written_after :: "'s Engine \<Rightarrow> cache_call \<Rightarrow> 's \<Rightarrow> RelayCacheSet list \<Rightarrow> RelayCacheSet list" where
  "written_after e (CallSet q) s H = q # H"
| "written_after e CallPurge s H = (if fst (engine_Purge e s) = None then [] else H)"
| "written_after e _ s H = H"

inductive cache_run :: "'s Engine \<Rightarrow> ('s \<Rightarrow> 's \<Rightarrow> bool) \<Rightarrow> 's \<Rightarrow> RelayCacheSet list \<Rightarrow> 's \<Rightarrow> bool"
  for e env s0 where
  start: "cache_run e env s0 [] s0"
| call: "cache_run e env s0 H s \<Longrightarrow> cache_run e env s0 (written_after e c s H) (perform e c s)"
| background: "cache_run e env s0 H s \<Longrightarrow> env s s' \<Longrightarrow> cache_run e env s0 H s'"

text \<open>A relay that answers a request: the same scoped chain, request and block, and a block hash
  that either needs no check or matches.\<close>

definition answers_request :: "RelayCacheSet \<Rightarrow> RelayCacheGet \<Rightarrow> int64 \<Rightarrow> bool" where
  "answers_request q req block \<longleftrightarrow>
     ScopedChainId (cs_KeyPrefix q) (cs_ChainId q) = ScopedChainId (cg_KeyPrefix req) (cg_ChainId req) \<and>
     cs_RequestHash q = cg_RequestHash req \<and> cs_RequestedBlock q = block \<and>
     (cs_Finalized q \<or> cs_BlockHash q = None \<or> bytes_Equal (cs_BlockHash q) (cg_BlockHash req))"

context kv_store
begin

lemma addsD: "adds_nothing holds f \<Longrightarrow> f s = (r, s') \<Longrightarrow> holds s' k v \<Longrightarrow> holds s k v"
  by (metis adds_nothing_def snd_conv)

lemma adds_snd: "adds_nothing holds f \<Longrightarrow> holds (snd (f s)) k v \<Longrightarrow> holds s k v"
  by (metis adds_nothing_def)

lemma chainTip_adds: "holds (snd (chainTip e c s)) k v \<Longrightarrow> holds s k v"
  by (auto simp: chainTip_def split: prod.splits sum.splits option.splits dest: addsD [OF get_tip_adds])

lemma resolveBlock_adds: "holds (snd (resolveBlock e req s)) k v \<Longrightarrow> holds s k v"
  by (auto simp: resolveBlock_def split_beta dest: chainTip_adds split: if_splits)

lemma GetSharedTip_adds: "holds (snd (GetSharedTip e c i s)) k v \<Longrightarrow> holds s k v"
  by (auto simp: GetSharedTip_def split: prod.splits sum.splits option.splits if_splits dest: addsD [OF get_int_adds])

lemma SetSharedTip_adds: "holds (SetSharedTip e c i n d s) k v \<Longrightarrow> holds s k v"
  by (auto simp: SetSharedTip_def split: if_splits dest: adds_snd [OF set_int_adds])

lemma getHeights_adds: "holds (snd (getBlockHeightsFromHashes e c hs s)) k v \<Longrightarrow> holds s k v"
  by (auto simp: getBlockHeightsFromHashes_def split: prod.splits sum.splits if_splits dest: addsD [OF get_heights_adds])

lemma setHeights_adds: "holds (setBlocksHashesToHeights e c hs s) k v \<Longrightarrow> holds s k v"
proof (induction hs arbitrary: s)
  case (Cons h hs)
  obtain a b where "h = (a, b)" by (cases h)
  with Cons.IH Cons.prems show ?case by (cases "0 \<le> b") (auto dest!: Cons.IH adds_snd [OF set_height_adds])
qed simp

lemma getRelayInner_adds: "holds (snd (getRelayInner e req b c s)) k v \<Longrightarrow> holds s k v"
  by (auto simp: getRelayInner_def split: prod.splits sum.splits option.splits if_splits dest: addsD [OF get_entries_adds])

lemma getResolved_adds: "holds (snd (getResolved e req b s)) k v \<Longrightarrow> holds s k v"
  by (auto simp: getResolved_def Let_def split_beta dest!: getHeights_adds GetSharedTip_adds getRelayInner_adds)

lemma GetRelay_adds: "holds (snd (GetRelay e c req s)) k v \<Longrightarrow> holds s k v"
  by (auto simp: GetRelay_def Let_def split_beta split: if_splits
      dest!: getResolved_adds getHeights_adds resolveBlock_adds)

lemma SetRelay_adds:
  assumes "holds (snd (SetRelay e q s)) k v"
  shows "holds s k v \<or> (0 \<le> cs_RequestedBlock q \<and> k = stored_key q \<and> v = stored_envelope (eng_codec e) q)"
  using assms
  by (auto simp: SetRelay_def Let_def split_beta split: if_splits
      dest!: setHeights_adds SetSharedTip_adds adds_snd [OF set_tip_adds] set_entry)

lemma sticky_adds:
  "holds (snd (engine_GetSticky e c a w i s)) k v \<Longrightarrow> holds s k v"
  "holds (snd (engine_SetStickyIfAbsent e c a w i pin d s)) k v \<Longrightarrow> holds s k v"
  by (auto simp: engine_GetSticky_def engine_SetStickyIfAbsent_def split: prod.splits sum.splits if_splits
      dest: addsD [OF get_sticky_adds] addsD [OF set_sticky_adds])

lemma observation_adds:
  "holds (snd (engine_PublishEndpointObservation e c a i p b d s)) k v \<Longrightarrow> holds s k v"
  "holds (snd (engine_GetEndpointObservation e c a i s)) k v \<Longrightarrow> holds s k v"
  by (auto simp: engine_PublishEndpointObservation_def engine_GetEndpointObservation_def
      split: prod.splits sum.splits if_splits dest: addsD [OF publish_adds] addsD [OF get_obs_adds])

lemma perform_adds:
  assumes "holds (perform e c s) k v"
  shows "holds s k v \<or> (\<exists>q. c = CallSet q \<and> 0 \<le> cs_RequestedBlock q \<and> k = stored_key q
    \<and> v = stored_envelope (eng_codec e) q)"
  using assms
  by (cases c) (auto simp: engine_Purge_def dest!: SetRelay_adds dest: GetRelay_adds sticky_adds observation_adds
      adds_snd [OF purge_adds])

text \<open>Everything the store may hold was written by a call of the run.\<close>

lemma run_holds:
  assumes "cache_run e env s0 H s" and "\<And>k v. \<not> holds s0 k v" and "holds s k v"
  shows "\<exists>q\<in>set H. k = stored_key q \<and> v = stored_envelope (eng_codec e) q"
  using assms(1,3)
proof (induction arbitrary: k v rule: cache_run.induct)
  case start
  with assms(2) show ?case by simp
next
  case (call H s c)
  show ?case
  proof (cases "c = CallPurge \<and> fst (engine_Purge e s) = None")
    case True
    then have "kv_Purge (Store e) s = (None, perform e c s)"
      by (simp add: engine_Purge_def prod_eq_iff)
    with purge_empties call.prems show ?thesis by blast
  next
    case False
    with perform_adds [OF call.prems] call.IH [of k v] show ?thesis by (cases c) auto
  qed
next
  case (background H s s')
  with env_adds show ?case by blast
qed

text \<open>What a successful lookup serves was held under one of its two keys.\<close>

lemma getRelayInner_served:
  assumes "getRelayInner e req b c s = (Inr reply, s')"
  shows "\<exists>f v. holds s (RelayKey f c (cg_RequestHash req) b) v \<and> reply = ToCacheReply (eng_codec e) v
    \<and> (Hash v = None \<or> bytes_Equal (Hash v) (cg_BlockHash req))"
proof -
  let ?ks = "RelayLookupKeys (cg_Finalized req) c (cg_RequestHash req) b"
  from assms obtain es v where es: "kv_GetEntries (Store e) ?ks s = (Inr es, s')" and v: "first_present es = Some v"
    and reply: "reply = ToCacheReply (eng_codec e) v" "Hash v = None \<or> bytes_Equal (Hash v) (cg_BlockHash req)"
    by (auto simp: getRelayInner_def split: prod.splits sum.splits option.splits if_splits)
  from v obtain i where i: "i < length es" "es ! i = Some v" by (metis first_present_Some in_set_conv_nth)
  with get_entries [OF es] have "i < length ?ks" by simp
  with get_entries_held [OF es] i have "holds s (?ks ! i) v" by blast
  moreover have "\<exists>f. ?ks ! i = RelayKey f c (cg_RequestHash req) b"
    using \<open>i < length ?ks\<close> by (auto simp: RelayLookupKeys_def less_Suc_eq)
  ultimately show ?thesis using reply by metis
qed

theorem served_was_written:
  assumes "cache_run e env s0 H s" and "\<And>k v. \<not> holds s0 k v" and "codec_ok (eng_codec e)"
    and "GetRelay e c req s = ((reply, hit, None), s')"
  shows "\<exists>q\<in>set H. answers_request q req (fst (resolveBlock e req s))
    \<and> cr_Reply reply = Some (served_form q)
    \<and> cr_IsNodeError reply = cs_IsNodeError q \<and> cr_StatusCode reply = cs_StatusCode q
    \<and> min (cg_SeenBlock req) (fst (resolveBlock e req s)) \<le> latestKnownBlock q"
proof -
  let ?b = "fst (resolveBlock e req s)" and ?s1 = "snd (resolveBlock e req s)"
  let ?c = "ScopedChainId (cg_KeyPrefix req) (cg_ChainId req)"
  from assms(4) have b: "0 \<le> ?b" by (auto simp: GetRelay_def Let_def split_beta split: if_splits)
  with assms(4) have "getResolved e req ?b ?s1 = ((reply, None), s')"
    by (auto simp: GetRelay_def Let_def split_beta prod_eq_iff split: if_splits)
  from getResolved_ok [OF this] obtain r s3 where inner: "getRelayInner e req ?b ?c ?s1 = (Inr r, s3)"
    and r: "cr_Reply reply = cr_Reply r" "cr_IsNodeError reply = cr_IsNodeError r"
      "cr_StatusCode reply = cr_StatusCode r"
    and seen: "min (cg_SeenBlock req) ?b \<le> cr_SeenBlock r" by blast
  from getRelayInner_served [OF inner] obtain f v where
    held: "holds ?s1 (RelayKey f ?c (cg_RequestHash req) ?b) v" and v: "r = ToCacheReply (eng_codec e) v"
      "Hash v = None \<or> bytes_Equal (Hash v) (cg_BlockHash req)" by blast
  from run_holds [OF assms(1,2) resolveBlock_adds [OF held]] obtain q where
    q: "q \<in> set H" "RelayKey f ?c (cg_RequestHash req) ?b = stored_key q" "v = stored_envelope (eng_codec e) q"
    by blast
  then have "answers_request q req ?b"
    using v(2) by (auto simp: answers_request_def stored_key_def split: if_splits)
  with q r v(1) seen envelope_round_trip [OF assms(3)] show ?thesis by (intro bexI [of _ q]) auto
qed

end

end
