(* ===== verification/CacheServer.thy ===== *)
theory CacheServer
  imports CacheEngine
begin

text \<open>
  The cache server (\<open>src/ecosystem/cache/ristretto_store.go\<close>, \<open>handlers.go\<close> and the RPC methods of
  \<open>sticky_sessions.go\<close> and \<open>endpoint_observations.go\<close>): the store adapter over three ristretto
  caches, three mutex-guarded stores and the server's clock, and the handlers on top of the engine.

  Ristretto is a library outside the repository: its operations are a parameter \<open>R\<close>, and the locale
  \<open>ristretto_cache\<close> states what its documentation promises and the server relies on, which is
  little: it never answers a key with what was not set under it, and a cleared cache is empty. It
  may drop a write, apply it late, expire or evict an entry. Only the round trip of a write needs
  more, the locale \<open>roomy_ristretto\<close>. The stores that \<open>InitCache\<close> builds are
  always present, so the nil checks of the adapter are not branches here.
\<close>

section \<open>Ristretto\<close>

datatype cache_value = VEnvelope Envelope | VInt64 int64

record 'c ristretto =
  r_Get :: "string \<Rightarrow> 'c \<Rightarrow> cache_value option"
  r_SetWithTTL :: "string \<Rightarrow> cache_value \<Rightarrow> int64 \<Rightarrow> duration \<Rightarrow> 'c \<Rightarrow> 'c"
  r_Clear :: "'c \<Rightarrow> 'c"
  r_Wait :: "'c \<Rightarrow> 'c"

section \<open>The server's state and the store adapter\<close>

record 'c CacheServer =
  finalizedCache :: 'c
  tempCache :: 'c
  blocksHashesToHeightsCache :: 'c
  chainTips :: chainTipStore
  endpointObservations :: endpointObservationStore
  stickyPins :: stickyPinStore
  ExpirationFinalized :: duration
  ExpirationNonFinalized :: duration
  ExpirationNodeErrors :: duration
  ExpirationBlocksHashesToHeights :: duration
  clock :: time

datatype tier = FinalizedTier | TempTier | HeightsTier

definition route :: "string \<Rightarrow> tier" where
  "route key =
     (if is_prefix_of RelayFinalizedPrefix key then FinalizedTier
      else if is_prefix_of RelayTempPrefix key then TempTier
      else if is_prefix_of HeightPrefix key then HeightsTier
      else FinalizedTier)"

fun tier_of :: "tier \<Rightarrow> 'c CacheServer \<Rightarrow> 'c" where
  "tier_of FinalizedTier s = finalizedCache s"
| "tier_of TempTier s = tempCache s"
| "tier_of HeightsTier s = blocksHashesToHeightsCache s"

fun set_tier :: "tier \<Rightarrow> 'c \<Rightarrow> 'c CacheServer \<Rightarrow> 'c CacheServer" where
  "set_tier FinalizedTier c s = s\<lparr>finalizedCache := c\<rparr>"
| "set_tier TempTier c s = s\<lparr>tempCache := c\<rparr>"
| "set_tier HeightsTier c s = s\<lparr>blocksHashesToHeightsCache := c\<rparr>"

definition getNonExpiredFromCache :: "'c ristretto \<Rightarrow> string \<Rightarrow> 'c CacheServer \<Rightarrow> cache_value option" where
  "getNonExpiredFromCache R key s = r_Get R key (tier_of (route key) s)"

definition rs_set :: "'c ristretto \<Rightarrow> string \<Rightarrow> cache_value \<Rightarrow> int64 \<Rightarrow> duration \<Rightarrow> 'c CacheServer \<Rightarrow> 'c CacheServer" where
  "rs_set R key v cost ttl s =
     set_tier (route key) (r_SetWithTTL R key v cost ttl (tier_of (route key) s)) s"

text \<open>An entry of another type is logged and read as a miss.\<close>

definition rs_GetEntries :: "'c ristretto \<Rightarrow> string list \<Rightarrow> 'c CacheServer \<Rightarrow>
    (go_error + Envelope option list) \<times> 'c CacheServer" where
  "rs_GetEntries R keys s =
     (Inr (map (\<lambda>key. case getNonExpiredFromCache R key s of Some (VEnvelope v) \<Rightarrow> Some v | _ \<Rightarrow> None) keys), s)"

definition rs_SetEntry :: "'c ristretto \<Rightarrow> string \<Rightarrow> Envelope \<Rightarrow> duration \<Rightarrow> 'c CacheServer \<Rightarrow>
    go_error option \<times> 'c CacheServer" where
  "rs_SetEntry R key v ttl s = (None, rs_set R key (VEnvelope v) (Cost v) ttl s)"

text \<open>A shared tip of another type ends the process (\<open>LavaFormatFatal\<close>), which is this error.\<close>

definition FatalExit :: go_error where
  "FatalExit = ErrNew ''Failed converting cache result to int64''"

definition rs_GetInt64 :: "'c ristretto \<Rightarrow> string \<Rightarrow> 'c CacheServer \<Rightarrow> (go_error + int64 option) \<times> 'c CacheServer" where
  "rs_GetInt64 R key s =
     (case getNonExpiredFromCache R key s of
        None \<Rightarrow> (Inr None, s)
      | Some (VInt64 n) \<Rightarrow> (Inr (Some n), s)
      | Some (VEnvelope _) \<Rightarrow> (Inl FatalExit, s))"

definition DbValueConfirmationAttempts :: nat where
  "DbValueConfirmationAttempts = 5"

text \<open>The \<open>get\<close> callback of \<open>SetInt64IfGreaterOrEqual\<close>, and one pass of the confirmation loop: it
  stops at a higher value and rewrites a lost one. The passes run after the call returned, one
  millisecond apart, between other calls.\<close>

definition currentInt64 :: "'c ristretto \<Rightarrow> string \<Rightarrow> 'c CacheServer \<Rightarrow> int64" where
  "currentInt64 R key s = (case fst (rs_GetInt64 R key s) of Inr (Some n) \<Rightarrow> n | _ \<Rightarrow> 0)"

definition confirmInt64 :: "'c ristretto \<Rightarrow> string \<Rightarrow> int64 \<Rightarrow> duration \<Rightarrow> 'c CacheServer \<Rightarrow> bool \<times> 'c CacheServer" where
  "confirmInt64 R key n ttl s =
     (if n < currentInt64 R key s then (False, s)
      else if currentInt64 R key s < n then (True, rs_set R key (VInt64 n) 0 ttl s)
      else (True, s))"

definition performInt64Write :: "'c ristretto \<Rightarrow> string \<Rightarrow> int64 \<Rightarrow> duration \<Rightarrow> 'c CacheServer \<Rightarrow> 'c CacheServer" where
  "performInt64Write R key n ttl s =
     (if currentInt64 R key s \<le> n then rs_set R key (VInt64 n) 0 ttl s else s)"

definition rs_SetInt64IfGreaterOrEqual :: "'c ristretto \<Rightarrow> string \<Rightarrow> int64 \<Rightarrow> duration \<Rightarrow> 'c CacheServer \<Rightarrow>
    go_error option \<times> 'c CacheServer" where
  "rs_SetInt64IfGreaterOrEqual R key n ttl s = (None, performInt64Write R key n ttl s)"

definition chainTipRaw :: "string \<Rightarrow> 'c CacheServer \<Rightarrow> int64 \<times> time" where
  "chainTipRaw key s = (case ct_get key (chainTips s) of
     None \<Rightarrow> (NOT_APPLICABLE, zero_time)
   | Some t \<Rightarrow> (latestBlock t, latestExpirationTime t))"

definition rs_GetChainTip :: "string \<Rightarrow> 'c CacheServer \<Rightarrow> (go_error + int64 option) \<times> 'c CacheServer" where
  "rs_GetChainTip key s =
     (let (latest, expirationTime) = chainTipRaw key s
      in (Inr (if latest \<noteq> NOT_APPLICABLE \<and> clock s < expirationTime then Some latest else None), s))"

definition rs_SetChainTip :: "string \<Rightarrow> int64 \<Rightarrow> 'c CacheServer \<Rightarrow> go_error option \<times> 'c CacheServer" where
  "rs_SetChainTip key block s =
     (None, s\<lparr>chainTips := setIfGreaterOrEqualOrStale key
        \<lparr>latestBlock = block, latestExpirationTime = clock s + DefaultExpirationForNonFinalized\<rparr>
        (clock s) (chainTips s)\<rparr>)"

definition rs_GetHeight :: "'c ristretto \<Rightarrow> string \<Rightarrow> 'c CacheServer \<Rightarrow> int64 option" where
  "rs_GetHeight R key s = (case getNonExpiredFromCache R key s of Some (VInt64 n) \<Rightarrow> Some n | _ \<Rightarrow> None)"

definition rs_GetHeights :: "'c ristretto \<Rightarrow> string list \<Rightarrow> 'c CacheServer \<Rightarrow>
    (go_error + int64 option list) \<times> 'c CacheServer" where
  "rs_GetHeights R keys s = (Inr (map (\<lambda>key. rs_GetHeight R key s) keys), s)"

definition rs_SetHeight :: "'c ristretto \<Rightarrow> string \<Rightarrow> int64 \<Rightarrow> duration \<Rightarrow> 'c CacheServer \<Rightarrow>
    go_error option \<times> 'c CacheServer" where
  "rs_SetHeight R key height ttl s = (None, rs_set R key (VInt64 height) 1 ttl s)"

definition rs_GetSticky :: "string \<Rightarrow> 'c CacheServer \<Rightarrow> (go_error + StickyPin option) \<times> 'c CacheServer" where
  "rs_GetSticky key s =
     (let (pin, store) = sticky_get (clock s) key (stickyPins s) in (Inr pin, s\<lparr>stickyPins := store\<rparr>))"

definition rs_SetStickyIfAbsent :: "string \<Rightarrow> StickyPin \<Rightarrow> duration \<Rightarrow> 'c CacheServer \<Rightarrow>
    (go_error + StickyPin) \<times> 'c CacheServer" where
  "rs_SetStickyIfAbsent key pin ttl s =
     (let (effective, store) = setIfAbsent (clock s) key pin ttl (stickyPins s)
      in (Inr effective, s\<lparr>stickyPins := store\<rparr>))"

definition rs_PublishEndpointObservation :: "string \<Rightarrow> EndpointObservation \<Rightarrow> duration \<Rightarrow> 'c CacheServer \<Rightarrow>
    (go_error + bool) \<times> 'c CacheServer" where
  "rs_PublishEndpointObservation key obs ttl s =
     (let (applied, store) = obs_set (clock s) key (obs_Block obs) (obs_PodID obs) ttl (endpointObservations s)
      in (Inr applied, s\<lparr>endpointObservations := store\<rparr>))"

definition rs_GetEndpointObservation :: "string \<Rightarrow> 'c CacheServer \<Rightarrow>
    (go_error + (EndpointObservation \<times> duration) option) \<times> 'c CacheServer" where
  "rs_GetEndpointObservation key s =
     (let (found, store) = obs_get (clock s) key (endpointObservations s)
      in (Inr found, s\<lparr>endpointObservations := store\<rparr>))"

definition rs_Purge :: "'c ristretto \<Rightarrow> 'c CacheServer \<Rightarrow> go_error option \<times> 'c CacheServer" where
  "rs_Purge R s =
     (None, s\<lparr>tempCache := r_Wait R (r_Clear R (tempCache s)),
              finalizedCache := r_Wait R (r_Clear R (finalizedCache s)),
              blocksHashesToHeightsCache := r_Wait R (r_Clear R (blocksHashesToHeightsCache s)),
              chainTips := ct_clear (chainTips s), stickyPins := em_clear (stickyPins s),
              endpointObservations := em_clear (endpointObservations s)\<rparr>)"

definition ristrettoStore :: "'c ristretto \<Rightarrow> 'c CacheServer KVStore" where
  "ristrettoStore R = \<lparr>kv_GetEntries = rs_GetEntries R, kv_SetEntry = rs_SetEntry R,
     kv_GetInt64 = rs_GetInt64 R, kv_SetInt64IfGreaterOrEqual = rs_SetInt64IfGreaterOrEqual R,
     kv_GetChainTip = rs_GetChainTip, kv_SetChainTipIfGreaterOrEqualOrStale = rs_SetChainTip,
     kv_GetHeights = rs_GetHeights R, kv_SetHeight = rs_SetHeight R,
     kv_GetSticky = rs_GetSticky, kv_SetStickyIfAbsent = rs_SetStickyIfAbsent,
     kv_PublishEndpointObservation = rs_PublishEndpointObservation,
     kv_GetEndpointObservation = rs_GetEndpointObservation, kv_Purge = rs_Purge R\<rparr>"

section \<open>The handlers\<close>

record 'c RelayerCacheServer =
  rc_CacheServer :: "'c CacheServer"
  cacheHits :: int
  cacheMisses :: int

text \<open>\<open>engine\<close>: the core over this server's stores, with the live settings.\<close>

definition server_engine :: "'c ristretto \<Rightarrow> codec \<Rightarrow> 'c CacheServer \<Rightarrow> 'c CacheServer Engine" where
  "server_engine R z cs = \<lparr>Store = ristrettoStore R,
     eng_Policy = \<lparr>Finalized = ExpirationFinalized cs, NonFinalized = ExpirationNonFinalized cs,
        NodeErrors = ExpirationNodeErrors cs, BlocksHashesToHeights_ttl = ExpirationBlocksHashesToHeights cs\<rparr>,
     eng_codec = z\<rparr>"

definition refuseInvalidKeyPrefix :: "string \<Rightarrow> go_error option" where
  "refuseInvalidKeyPrefix prefix = (case ValidateKeyPrefix prefix of
     Some err \<Rightarrow> Some (ErrWrap ''InvalidArgument'' [err]) | None \<Rightarrow> None)"

text \<open>The lookup error is not returned: a miss is a reply without a payload. The hit and miss
  counters are raised by a goroutine of the call.\<close>

definition server_GetRelay :: "'c ristretto \<Rightarrow> codec \<Rightarrow> go_error option \<Rightarrow> RelayCacheGet \<Rightarrow> 'c RelayerCacheServer \<Rightarrow>
    (go_error + CacheRelayReply) \<times> 'c RelayerCacheServer" where
  "server_GetRelay R z ctxErr req s =
     (case refuseInvalidKeyPrefix (cg_KeyPrefix req) of
        Some err \<Rightarrow> (Inl err, s)
      | None \<Rightarrow>
          let ((cacheReply, cacheHit, _), cs) = GetRelay (server_engine R z (rc_CacheServer s)) ctxErr req (rc_CacheServer s)
          in (Inr (cacheReply\<lparr>cr_KeyPrefix := cg_KeyPrefix req\<rparr>),
              if cacheHit then s\<lparr>rc_CacheServer := cs, cacheHits := cacheHits s + 1\<rparr>
              else s\<lparr>rc_CacheServer := cs, cacheMisses := cacheMisses s + 1\<rparr>))"

definition server_SetRelay :: "'c ristretto \<Rightarrow> codec \<Rightarrow> RelayCacheSet \<Rightarrow> 'c RelayerCacheServer \<Rightarrow>
    go_error option \<times> 'c RelayerCacheServer" where
  "server_SetRelay R z req s =
     (case refuseInvalidKeyPrefix (cs_KeyPrefix req) of
        Some err \<Rightarrow> (Some err, s)
      | None \<Rightarrow>
          let (err, cs) = SetRelay (server_engine R z (rc_CacheServer s)) req (rc_CacheServer s)
          in (err, s\<lparr>rc_CacheServer := cs\<rparr>))"

definition FlushCache :: "'c ristretto \<Rightarrow> codec \<Rightarrow> 'c RelayerCacheServer \<Rightarrow> go_error option \<times> 'c RelayerCacheServer" where
  "FlushCache R z s =
     (let (err, cs) = engine_Purge (server_engine R z (rc_CacheServer s)) (rc_CacheServer s)
      in (err, s\<lparr>rc_CacheServer := cs\<rparr>))"

record StickySessionReply =
  ss_Found :: bool
  ss_Provider :: string
  ss_Epoch :: int
  ss_KeyPrefix :: string

record StickySessionRequest =
  sr_ChainId :: string
  sr_ApiInterface :: string
  sr_Service :: string
  sr_StickyId :: string
  sr_Provider :: string
  sr_Epoch :: int
  sr_TtlMs :: int64
  sr_KeyPrefix :: string

definition SetStickySession :: "'c ristretto \<Rightarrow> codec \<Rightarrow> StickySessionRequest \<Rightarrow> 'c CacheServer \<Rightarrow>
    (go_error + StickySessionReply) \<times> 'c CacheServer" where
  "SetStickySession R z req cs =
     (case refuseInvalidKeyPrefix (sr_KeyPrefix req) of
        Some err \<Rightarrow> (Inl err, cs)
      | None \<Rightarrow>
          (case engine_SetStickyIfAbsent (server_engine R z cs)
                  (ScopedChainId (sr_KeyPrefix req) (sr_ChainId req)) (sr_ApiInterface req) (sr_Service req)
                  (sr_StickyId req) \<lparr>Provider = sr_Provider req, Epoch = sr_Epoch req\<rparr>
                  (mul64 (sr_TtlMs req) millisecond) cs of
             (Inl err, cs') \<Rightarrow> (Inl err, cs')
           | (Inr pin, cs') \<Rightarrow> (Inr \<lparr>ss_Found = True, ss_Provider = Provider pin, ss_Epoch = Epoch pin,
                ss_KeyPrefix = sr_KeyPrefix req\<rparr>, cs')))"

definition GetStickySession :: "'c ristretto \<Rightarrow> codec \<Rightarrow> StickySessionRequest \<Rightarrow> 'c CacheServer \<Rightarrow>
    (go_error + StickySessionReply) \<times> 'c CacheServer" where
  "GetStickySession R z req cs =
     (case refuseInvalidKeyPrefix (sr_KeyPrefix req) of
        Some err \<Rightarrow> (Inl err, cs)
      | None \<Rightarrow>
          (case engine_GetSticky (server_engine R z cs)
                  (ScopedChainId (sr_KeyPrefix req) (sr_ChainId req)) (sr_ApiInterface req) (sr_Service req)
                  (sr_StickyId req) cs of
             (Inl err, cs') \<Rightarrow> (Inl err, cs')
           | (Inr None, cs') \<Rightarrow> (Inr \<lparr>ss_Found = False, ss_Provider = [], ss_Epoch = 0,
                ss_KeyPrefix = sr_KeyPrefix req\<rparr>, cs')
           | (Inr (Some pin), cs') \<Rightarrow> (Inr \<lparr>ss_Found = True, ss_Provider = Provider pin, ss_Epoch = Epoch pin,
                ss_KeyPrefix = sr_KeyPrefix req\<rparr>, cs')))"

record EndpointObservationReply =
  or_Found :: bool
  or_Block :: int64
  or_AgeMs :: int64
  or_PodId :: string

text \<open>\<open>SetEndpointObservation\<close> replies with an empty message or the engine's error, wrapped.\<close>

definition SetEndpointObservation :: "'c ristretto \<Rightarrow> codec \<Rightarrow> string \<Rightarrow> string \<Rightarrow> string \<Rightarrow> string \<Rightarrow> int64 \<Rightarrow> int64 \<Rightarrow>
    'c CacheServer \<Rightarrow> go_error option \<times> 'c CacheServer" where
  "SetEndpointObservation R z chainId apiInterface endpointId podId block ttlMs cs =
     (case engine_PublishEndpointObservation (server_engine R z cs) chainId apiInterface endpointId podId block
             (mul64 ttlMs millisecond) cs of
        (Inl err, cs') \<Rightarrow> (Some (ErrWrap ''invalid endpoint observation set'' [err]), cs')
      | (Inr _, cs') \<Rightarrow> (None, cs'))"

definition GetEndpointObservation :: "'c ristretto \<Rightarrow> codec \<Rightarrow> string \<Rightarrow> string \<Rightarrow> string \<Rightarrow> 'c CacheServer \<Rightarrow>
    (go_error + EndpointObservationReply) \<times> 'c CacheServer" where
  "GetEndpointObservation R z chainId apiInterface endpointId cs =
     (case engine_GetEndpointObservation (server_engine R z cs) chainId apiInterface endpointId cs of
        (Inl err, cs') \<Rightarrow> (Inl err, cs')
      | (Inr None, cs') \<Rightarrow> (Inr \<lparr>or_Found = False, or_Block = 0, or_AgeMs = 0, or_PodId = []\<rparr>, cs')
      | (Inr (Some (obs, age)), cs') \<Rightarrow> (Inr \<lparr>or_Found = True, or_Block = obs_Block obs,
           or_AgeMs = quot age 1000000, or_PodId = obs_PodID obs\<rparr>, cs'))"

section \<open>What ristretto promises and what the server builds on it\<close>

locale ristretto_cache =
  fixes R :: "'c ristretto"
    and may_hold :: "'c \<Rightarrow> string \<Rightarrow> cache_value \<Rightarrow> bool"
    and bg :: "'c \<Rightarrow> 'c \<Rightarrow> bool"
  assumes r_get: "r_Get R k c = Some v \<Longrightarrow> may_hold c k v"
    and r_set: "may_hold (r_SetWithTTL R k v cost ttl c) k' w \<Longrightarrow> may_hold c k' w \<or> (k' = k \<and> w = v)"
    and r_clear: "\<not> may_hold (r_Wait R (r_Clear R c)) k v"
    and r_background: "bg c c' \<Longrightarrow> may_hold c' k v \<Longrightarrow> may_hold c k v"

definition server_holds :: "('c \<Rightarrow> string \<Rightarrow> cache_value \<Rightarrow> bool) \<Rightarrow> 'c CacheServer \<Rightarrow> string \<Rightarrow> Envelope \<Rightarrow> bool" where
  "server_holds may_hold s k v \<longleftrightarrow> may_hold (tier_of (route k) s) k (VEnvelope v)"

text \<open>Between calls the clock moves, the caches do what they do, and confirmation passes run.\<close>

inductive server_background :: "'c ristretto \<Rightarrow> ('c \<Rightarrow> 'c \<Rightarrow> bool) \<Rightarrow> 'c CacheServer \<Rightarrow> 'c CacheServer \<Rightarrow> bool"
  for R bg where
  idle: "clock s \<le> t \<Longrightarrow> bg (finalizedCache s) f \<Longrightarrow> bg (tempCache s) m \<Longrightarrow> bg (blocksHashesToHeightsCache s) h \<Longrightarrow>
    server_background R bg s
      (s\<lparr>clock := t, finalizedCache := f, tempCache := m, blocksHashesToHeightsCache := h\<rparr>)"
| confirm: "server_background R bg s (snd (confirmInt64 R (SharedTipKey c i) n ttl s))"

lemma tier_of_rs_set:
  "tier_of t (rs_set R key v cost ttl s) =
     (if t = route key then r_SetWithTTL R key v cost ttl (tier_of t s) else tier_of t s)"
  by (cases t; cases "route key") (simp_all add: rs_set_def)

context ristretto_cache
begin

lemma holds_rs_set:
  "server_holds may_hold (rs_set R key v cost ttl s) k w \<Longrightarrow>
     server_holds may_hold s k w \<or> (k = key \<and> v = VEnvelope w)"
  by (auto simp: server_holds_def tier_of_rs_set dest!: r_set split: if_splits)

lemma holds_set_int: "server_holds may_hold (rs_set R key (VInt64 n) cost ttl s) k w \<Longrightarrow> server_holds may_hold s k w"
  using holds_rs_set by blast

lemma holds_same_tiers: "(\<And>t. tier_of t s' = tier_of t s) \<Longrightarrow> server_holds may_hold s' k v = server_holds may_hold s k v"
  by (simp add: server_holds_def)

lemma background_adds:
  "server_background R bg s s' \<Longrightarrow> server_holds may_hold s' k v \<Longrightarrow> server_holds may_hold s k v"
proof (induction rule: server_background.induct)
  case (idle s t f m h)
  then show ?case by (cases "route k") (auto simp: server_holds_def dest: r_background)
next
  case (confirm s c i n ttl)
  then show ?case by (auto simp: confirmInt64_def dest: holds_set_int split: if_splits)
qed

end

lemma tier_of_other_fields [simp]:
  "tier_of t (s\<lparr>chainTips := a\<rparr>) = tier_of t s"
  "tier_of t (s\<lparr>stickyPins := p\<rparr>) = tier_of t s"
  "tier_of t (s\<lparr>endpointObservations := q\<rparr>) = tier_of t s"
  "tier_of t (s\<lparr>clock := now\<rparr>) = tier_of t s"
  by (cases t; simp)+

lemmas adapter = adds_nothing_def server_engine_def ristrettoStore_def

locale cache_server = ristretto_cache R may_hold bg
  for R :: "'c ristretto" and may_hold and bg +
  fixes z :: codec
    and settings :: "'c CacheServer"

sublocale cache_server \<subseteq> kv: kv_store "server_engine R z settings" "server_holds may_hold" "server_background R bg"
proof (unfold_locales, goal_cases)
  case (1 ks s es s')
  then show ?case by (auto simp: adapter rs_GetEntries_def)
next
  case (2 ks s es s' i v)
  then show ?case
    by (auto simp: adapter rs_GetEntries_def server_holds_def getNonExpiredFromCache_def
        split: option.splits cache_value.splits dest: r_get)
next
  case (3 key v ttl s k w)
  then show ?case
    by (auto simp: adapter rs_SetEntry_def dest: holds_rs_set)
next
  case (4 ks)
  then show ?case by (simp add: adapter rs_GetEntries_def)
next
  case (5 key)
  then show ?case
    by (auto simp: adapter rs_GetInt64_def split: option.splits cache_value.splits)
next
  case (6 key n ttl)
  then show ?case
    by (auto simp: adapter rs_SetInt64IfGreaterOrEqual_def
        performInt64Write_def dest: holds_set_int split: if_splits)
next
  case (7 key)
  then show ?case by (simp add: adapter rs_GetChainTip_def split_beta)
next
  case (8 key n)
  then show ?case
    by (simp add: adapter rs_SetChainTip_def server_holds_def)
next
  case (9 ks)
  then show ?case by (simp add: adapter rs_GetHeights_def)
next
  case (10 key n ttl)
  then show ?case
    by (auto simp: adapter rs_SetHeight_def dest: holds_set_int)
next
  case (11 key)
  then show ?case
    by (simp add: adapter rs_GetSticky_def split_beta server_holds_def)
next
  case (12 key pin ttl)
  then show ?case
    by (simp add: adapter rs_SetStickyIfAbsent_def split_beta server_holds_def)
next
  case (13 key obs ttl)
  then show ?case
    by (simp add: adapter rs_PublishEndpointObservation_def split_beta server_holds_def)
next
  case (14 key)
  then show ?case
    by (simp add: adapter rs_GetEndpointObservation_def split_beta server_holds_def)
next
  case (15 s s' k v)
  then show ?case
    by (cases "route k") (auto simp: adapter rs_Purge_def server_holds_def r_clear)
next
  case 16
  then show ?case
    by (auto simp: adapter rs_Purge_def server_holds_def r_clear
        split: tier.splits) (case_tac "route k"; simp add: r_clear)
next
  case (17 s s' k v)
  then show ?case by (rule background_adds)
qed

context cache_server
begin

lemmas server_served = kv.served_was_written

text \<open>The process-ending branch of \<open>GetInt64\<close> is out of reach: only relay keys ever hold envelopes.\<close>

lemma shared_tip_typed:
  assumes "cache_run (server_engine R z settings) (server_background R bg) s0 H s"
    and "\<And>k v. \<not> server_holds may_hold s0 k v"
  shows "fst (rs_GetInt64 R (SharedTipKey c i) s) \<noteq> Inl FatalExit"
proof
  assume "fst (rs_GetInt64 R (SharedTipKey c i) s) = Inl FatalExit"
  then obtain v where "r_Get R (SharedTipKey c i) (tier_of (route (SharedTipKey c i)) s) = Some (VEnvelope v)"
    by (auto simp: rs_GetInt64_def getNonExpiredFromCache_def split: option.splits cache_value.splits)
  then have "server_holds may_hold s (SharedTipKey c i) v" by (simp add: server_holds_def r_get)
  from kv.run_holds [OF assms this] show False by (auto simp: stored_key_def)
qed

end

section \<open>A cache that loses nothing\<close>

text \<open>A plain map keeps what it is given: an instance of the contract, used where a concrete
  cache is needed.\<close>

definition map_ristretto :: "(string, cache_value) gomap ristretto" where
  "map_ristretto = \<lparr>r_Get = (\<lambda>k c. mget c k), r_SetWithTTL = (\<lambda>k v cost ttl c. mput k v c),
     r_Clear = (\<lambda>c. []), r_Wait = (\<lambda>c. c)\<rparr>"

definition map_holds :: "(string, cache_value) gomap \<Rightarrow> string \<Rightarrow> cache_value \<Rightarrow> bool" where
  "map_holds c k v \<longleftrightarrow> mget c k = Some v"

lemma map_ristretto_cache: "ristretto_cache map_ristretto map_holds (\<lambda>c c'. mget c' \<subseteq>\<^sub>m mget c)"
  by unfold_locales (auto simp: map_ristretto_def map_holds_def map_le_def dom_def split: if_splits)

interpretation map_cache: ristretto_cache map_ristretto map_holds "\<lambda>c c'. mget c' \<subseteq>\<^sub>m mget c"
  by (rule map_ristretto_cache)

definition plain_codec :: codec where
  "plain_codec = \<lparr>gzip = (\<lambda>d. Some (CHR ''z'' # d)), gunzip = (\<lambda>c. Some (tl c))\<rparr>"

lemma plain_codec_ok [simp]: "codec_ok plain_codec"
  by (simp add: codec_ok_def plain_codec_def)

definition empty_server :: "(string, cache_value) gomap CacheServer" where
  "empty_server = \<lparr>finalizedCache = [], tempCache = [], blocksHashesToHeightsCache = [],
     chainTips = newChainTipStore, endpointObservations = newExpiringMap, stickyPins = newExpiringMap,
     ExpirationFinalized = DefaultExpirationTimeFinalized, ExpirationNonFinalized = DefaultExpirationForNonFinalized,
     ExpirationNodeErrors = DefaultExpirationNodeErrors,
     ExpirationBlocksHashesToHeights = DefaultExpirationBlocksHashesToHeights, clock = 1000\<rparr>"

interpretation map_server: cache_server map_ristretto map_holds "\<lambda>c c'. mget c' \<subseteq>\<^sub>m mget c" plain_codec empty_server
  by unfold_locales

lemma empty_server_holds [simp]: "\<not> server_holds map_holds empty_server k v"
  by (cases "route k") (simp_all add: server_holds_def map_holds_def empty_server_def)

definition sample_set :: RelayCacheSet where
  "sample_set = \<lparr>cs_RequestHash = ''h'', cs_BlockHash = None,
     cs_Response = \<lparr>Data = ''ok'', Sig = ''sig'', LatestBlock = 100, FinalizedBlocksHashes = [], SigBlocks = [], rr_Metadata = []\<rparr>,
     cs_Finalized = False, cs_OptionalMetadata = [], cs_SharedStateId = [], cs_RequestedBlock = 100,
     cs_ChainId = ''ETH1'', cs_SeenBlock = 90, cs_AverageBlockTime = 12 * second, cs_IsNodeError = False,
     cs_BlocksHashesToHeights = [], cs_StatusCode = 200, cs_KeyPrefix = ''blue''\<rparr>"

definition sample_get :: RelayCacheGet where
  "sample_get = \<lparr>cg_RequestHash = ''h'', cg_BlockHash = None, cg_Finalized = False,
     cg_RequestedBlock = LATEST_BLOCK, cg_SharedStateId = [], cg_ChainId = ''ETH1'', cg_SeenBlock = 90,
     cg_BlocksHashesToHeights = [], cg_KeyPrefix = ''blue''\<rparr>"

abbreviation sample_engine :: "(string, cache_value) gomap CacheServer Engine" where
  "sample_engine \<equiv> server_engine map_ristretto plain_codec empty_server"

definition sample_state :: "(string, cache_value) gomap CacheServer" where
  "sample_state = snd (SetRelay sample_engine sample_set empty_server)"

lemma sample_run:
  "cache_run sample_engine (server_background map_ristretto (\<lambda>c c'. mget c' \<subseteq>\<^sub>m mget c)) empty_server [sample_set] sample_state"
  using cache_run.call [OF cache_run.start, of sample_engine _ empty_server "CallSet sample_set"]
  by (simp add: sample_state_def)

lemma sample_lookup:
  "fst (GetRelay sample_engine None sample_get sample_state) =
     (\<lparr>cr_Reply = Some (served_form sample_set), cr_OptionalMetadata = [], cr_SeenBlock = 100,
       cr_BlocksHashesToHeights = [], cr_IsNodeError = False, cr_StatusCode = 200, cr_KeyPrefix = []\<rparr>, True, None)"
  unfolding sample_state_def by code_simp

section \<open>Properties of the server\<close>

text \<open>C33. The cache never invents an answer. Whatever calls were made on the server, whatever
  ristretto lost, delayed or evicted in between, a reply that a lookup serves without an error is
  the payload (without the signature) of a relay written since the last flush, for the same
  keyspace and chain, the same request hash and the same block (a symbolic block resolved against
  the chain tip), whose block hash needs no check or matches the request's, with the node-error
  flag and status it was written with, and seen at least up to the block the reader expects. The relay may have
  been written as finalized or not, whichever the reader asks for: the lookup falls back to the other variant.\<close>

theorem served_reply_was_written:
  assumes "ristretto_cache R may_hold bg" and "codec_ok z"
    and "\<And>k v. \<not> server_holds may_hold s0 k v"
    and "cache_run (server_engine R z settings) (server_background R bg) s0 H s"
    and "GetRelay (server_engine R z settings) c req s = ((reply, hit, None), s')"
  shows "\<exists>q\<in>set H. answers_request q req (fst (resolveBlock (server_engine R z settings) req s))
    \<and> cr_Reply reply = Some (served_form q)
    \<and> cr_IsNodeError reply = cs_IsNodeError q \<and> cr_StatusCode reply = cs_StatusCode q
    \<and> min (cg_SeenBlock req) (fst (resolveBlock (server_engine R z settings) req s)) \<le> latestKnownBlock q"
proof -
  have "cache_server R may_hold bg" using assms(1) by (rule cache_server.intro)
  from cache_server.server_served [OF this assms(4,3)] assms(2,5) show ?thesis
    by (auto simp: server_engine_def)
qed

theorem served_reply_was_written_witness:
  "\<exists>q\<in>set [sample_set]. answers_request q sample_get (fst (resolveBlock sample_engine sample_get sample_state))
    \<and> cr_Reply (fst (fst (GetRelay sample_engine None sample_get sample_state))) = Some (served_form q)"
proof -
  have "GetRelay sample_engine None sample_get sample_state =
      ((fst (fst (GetRelay sample_engine None sample_get sample_state)), True, None),
       snd (GetRelay sample_engine None sample_get sample_state))"
    using sample_lookup by (simp add: prod_eq_iff)
  from served_reply_was_written [OF map_ristretto_cache plain_codec_ok empty_server_holds sample_run this]
  show ?thesis by blast
qed

text \<open>C37. The process never ends over a mistyped shared tip: on every server that started without relay
  entries and was driven through its engine, a read under a shared-tip key never meets a relay entry, so the fatal
  exit is out of reach, although tips and finalized replies share one cache.\<close>

theorem shared_tip_read_is_typed:
  assumes "ristretto_cache R may_hold bg" and "\<And>k v. \<not> server_holds may_hold s0 k v"
    and "cache_run (server_engine R z settings) (server_background R bg) s0 H s"
  shows "fst (rs_GetInt64 R (SharedTipKey c i) s) \<noteq> Inl FatalExit"
  by (rule cache_server.shared_tip_typed [OF cache_server.intro [OF assms(1)] assms(3,2)])

theorem shared_tip_read_is_typed_witness:
  "fst (rs_GetInt64 map_ristretto (SharedTipKey ''ETH1'' ''pod'') sample_state) \<noteq> Inl FatalExit"
  by (rule shared_tip_read_is_typed [OF map_ristretto_cache empty_server_holds sample_run])

section \<open>Reading a relay back\<close>

text \<open>
  What is read back needs more of ristretto than the contract above: that it applies a write and
  keeps the entry until it expires. \<open>lasts c k v d\<close> says that the cache answers \<open>k\<close> with \<open>v\<close> for
  another \<open>d\<close> nanoseconds, and \<open>passes t\<close> is the passage of \<open>t\<close> nanoseconds. Ristretto promises
  this while it accepts the write and its budget evicts nothing; a write without a positive
  lifetime is not covered.
\<close>

locale roomy_ristretto =
  fixes R :: "'c ristretto"
    and lasts :: "'c \<Rightarrow> string \<Rightarrow> cache_value \<Rightarrow> duration \<Rightarrow> bool"
    and passes :: "duration \<Rightarrow> 'c \<Rightarrow> 'c \<Rightarrow> bool"
  assumes set_lasts: "0 < ttl \<Longrightarrow> lasts (r_SetWithTTL R k v cost ttl c) k v ttl"
    and set_other: "lasts c k v d \<Longrightarrow> k' \<noteq> k \<Longrightarrow> lasts (r_SetWithTTL R k' w cost ttl c) k v d"
    and time_passes: "lasts c k v d \<Longrightarrow> passes t c c' \<Longrightarrow> lasts c' k v (d - t)"
    and get_lasts: "lasts c k v d \<Longrightarrow> 0 < d \<Longrightarrow> r_Get R k c = Some v"

definition server_lasts :: "('c \<Rightarrow> string \<Rightarrow> cache_value \<Rightarrow> duration \<Rightarrow> bool) \<Rightarrow> 'c CacheServer \<Rightarrow>
    string \<Rightarrow> cache_value \<Rightarrow> duration \<Rightarrow> bool" where
  "server_lasts lasts s k v d \<longleftrightarrow> lasts (tier_of (route k) s) k v d"

text \<open>What may happen to a server in \<open>d\<close> nanoseconds that does not touch the key \<open>k\<close>: time passes,
  relays are written under other keys, lookups are answered, confirmation passes run.\<close>

inductive meanwhile :: "'c ristretto \<Rightarrow> codec \<Rightarrow> (duration \<Rightarrow> 'c \<Rightarrow> 'c \<Rightarrow> bool) \<Rightarrow> string \<Rightarrow>
    'c RelayerCacheServer \<Rightarrow> duration \<Rightarrow> 'c RelayerCacheServer \<Rightarrow> bool"
  for R z passes k s0 where
  nothing: "meanwhile R z passes k s0 0 s0"
| time: "meanwhile R z passes k s0 d s \<Longrightarrow> 0 \<le> t \<Longrightarrow> cs = rc_CacheServer s \<Longrightarrow> passes t (finalizedCache cs) f \<Longrightarrow>
    passes t (tempCache cs) m \<Longrightarrow> passes t (blocksHashesToHeightsCache cs) h \<Longrightarrow>
    meanwhile R z passes k s0 (d + t)
      (s\<lparr>rc_CacheServer := cs\<lparr>clock := clock cs + t, finalizedCache := f, tempCache := m,
         blocksHashesToHeightsCache := h\<rparr>\<rparr>)"
| other_write: "meanwhile R z passes k s0 d s \<Longrightarrow> stored_key q \<noteq> k \<Longrightarrow>
    meanwhile R z passes k s0 d (snd (server_SetRelay R z q s))"
| lookup: "meanwhile R z passes k s0 d s \<Longrightarrow> meanwhile R z passes k s0 d (snd (server_GetRelay R z c req s))"
| confirm: "meanwhile R z passes k s0 d s \<Longrightarrow>
    meanwhile R z passes k s0 d
      (s\<lparr>rc_CacheServer := snd (confirmInt64 R (SharedTipKey c i) n ttl (rc_CacheServer s))\<rparr>)"

text \<open>A lookup changes nothing in the stores.\<close>

lemma chainTip_reads: "snd (chainTip (server_engine R z st) c s) = s"
  by (simp add: chainTip_def server_engine_def ristrettoStore_def rs_GetChainTip_def split_beta split: option.split)

lemma resolveBlock_reads: "snd (resolveBlock (server_engine R z st) req s) = s"
  by (simp add: resolveBlock_def split_beta chainTip_reads)

lemma getRelayInner_reads: "snd (getRelayInner (server_engine R z st) req b c s) = s"
  by (simp add: getRelayInner_def server_engine_def ristrettoStore_def rs_GetEntries_def split: option.split)

lemma GetSharedTip_reads: "snd (GetSharedTip (server_engine R z st) c i s) = s"
  by (simp add: GetSharedTip_def server_engine_def ristrettoStore_def rs_GetInt64_def
      split: option.split cache_value.split)

lemma getHeights_reads: "snd (getBlockHeightsFromHashes (server_engine R z st) c hs s) = s"
  by (simp add: getBlockHeightsFromHashes_def server_engine_def ristrettoStore_def rs_GetHeights_def)

lemma getResolved_reads: "snd (getResolved (server_engine R z st) req b s) = s"
  by (simp add: getResolved_def Let_def split_beta getRelayInner_reads GetSharedTip_reads getHeights_reads)

lemma GetRelay_reads: "snd (GetRelay (server_engine R z st) c req s) = s"
  by (simp add: GetRelay_def Let_def split_beta getResolved_reads getHeights_reads resolveBlock_reads)

lemma server_GetRelay_reads: "rc_CacheServer (snd (server_GetRelay R z c req s)) = rc_CacheServer s"
  using GetRelay_reads [of R z "rc_CacheServer s" c req "rc_CacheServer s"]
  by (auto simp: server_GetRelay_def split_beta split: option.split)


context roomy_ristretto
begin

lemma lasts_other:
  "server_lasts lasts s k v d \<Longrightarrow> key \<noteq> k \<Longrightarrow> server_lasts lasts (rs_set R key w cost ttl s) k v d"
  by (auto simp: server_lasts_def tier_of_rs_set set_other)

lemma lasts_written: "0 < ttl \<Longrightarrow> server_lasts lasts (rs_set R k v cost ttl s) k v ttl"
  by (simp add: server_lasts_def tier_of_rs_set set_lasts)

text \<open>The bookkeeping of a write never touches a relay entry.\<close>

lemma lasts_SetSharedTip:
  "server_lasts lasts s (RelayKey f c h b) v d \<Longrightarrow>
     server_lasts lasts (SetSharedTip (server_engine R z st) c' i n ttl s) (RelayKey f c h b) v d"
  by (simp add: SetSharedTip_def server_engine_def ristrettoStore_def rs_SetInt64IfGreaterOrEqual_def
      performInt64Write_def lasts_other)

lemma lasts_heights:
  "server_lasts lasts s (RelayKey f c h b) v d \<Longrightarrow>
     server_lasts lasts (setBlocksHashesToHeights (server_engine R z st) c' hs s) (RelayKey f c h b) v d"
proof (induction hs arbitrary: s)
  case (Cons x hs)
  obtain y n where "x = (y, n)" by (cases x)
  with Cons show ?case
    by (simp add: server_engine_def ristrettoStore_def rs_SetHeight_def lasts_other)
qed simp

lemma lasts_SetRelay:
  assumes "server_lasts lasts (if 0 \<le> cs_RequestedBlock q
      then rs_set R (stored_key q) (VEnvelope (stored_envelope z q)) (Cost (stored_envelope z q))
             (ForRelayEntry (eng_Policy (server_engine R z st)) (cs_Finalized q) (cs_IsNodeError q)
                (cs_AverageBlockTime q) (cs_BlockHash q)) s
      else s) (RelayKey f c h b) v d"
  shows "server_lasts lasts (snd (SetRelay (server_engine R z st) q s)) (RelayKey f c h b) v d"
proof (cases "0 \<le> cs_RequestedBlock q")
  case True
  let ?e = "server_engine R z st"
  have tip: "server_lasts lasts (snd (kv_SetChainTipIfGreaterOrEqualOrStale (Store ?e) k n s)) k' v d
      = server_lasts lasts s k' v d" for k n s k'
    by (simp add: server_lasts_def server_engine_def ristrettoStore_def rs_SetChainTip_def)
  have entry: "kv_SetEntry (Store ?e) k w ttl s = (None, rs_set R k (VEnvelope w) (Cost w) ttl s)" for k w ttl
    by (simp add: server_engine_def ristrettoStore_def rs_SetEntry_def)
  have "eng_codec ?e = z" by (simp add: server_engine_def)
  with True assms show ?thesis
    by (auto simp: SetRelay_def Let_def entry tip intro!: lasts_heights lasts_SetSharedTip)
qed (use assms in \<open>simp add: SetRelay_def\<close>)

lemma lasts_own_write:
  fixes z st
  defines "ttl \<equiv> \<lambda>q. ForRelayEntry (eng_Policy (server_engine R z st)) (cs_Finalized q) (cs_IsNodeError q)
    (cs_AverageBlockTime q) (cs_BlockHash q)"
  assumes "0 \<le> cs_RequestedBlock q" and "0 < ttl q"
  shows "server_lasts lasts (snd (SetRelay (server_engine R z st) q s)) (stored_key q) (VEnvelope (stored_envelope z q)) (ttl q)"
  using lasts_SetRelay [of q z st s "cs_Finalized q" "ScopedChainId (cs_KeyPrefix q) (cs_ChainId q)" "cs_RequestHash q"
      "cs_RequestedBlock q", folded stored_key_def] lasts_written assms by simp

lemma lasts_time:
  assumes "server_lasts lasts cs k v d" and "passes t (finalizedCache cs) f"
    and "passes t (tempCache cs) m" and "passes t (blocksHashesToHeightsCache cs) h"
  shows "server_lasts lasts (cs\<lparr>clock := n, finalizedCache := f, tempCache := m, blocksHashesToHeightsCache := h\<rparr>) k v (d - t)"
  using assms by (cases "route k") (auto simp: server_lasts_def intro: time_passes)

lemma lasts_meanwhile:
  assumes "meanwhile R z passes (RelayKey f c h b) s d s'"
    and "server_lasts lasts (rc_CacheServer s) (RelayKey f c h b) v ttl"
  shows "0 \<le> d \<and> server_lasts lasts (rc_CacheServer s') (RelayKey f c h b) v (ttl - d)"
  using assms(1)
proof induction
  case nothing
  with assms(2) show ?case by simp
next
  case (time d s t cs f' m h')
  from lasts_time [OF conjunct2 [OF time.IH, folded time.hyps(3)] time.hyps(4-6)] time.IH time.hyps(2)
  show ?case by (simp add: algebra_simps)
next
  case (other_write d s q)
  have "server_lasts lasts (snd (SetRelay (server_engine R z (rc_CacheServer s)) q (rc_CacheServer s)))
      (RelayKey f c h b) v (ttl - d)"
    using other_write by (intro lasts_SetRelay) (simp add: lasts_other)
  with other_write.IH show ?case by (simp add: server_SetRelay_def split_beta split: option.split)
next
  case (lookup d s c req)
  then show ?case by (simp add: server_GetRelay_reads)
next
  case (confirm d s c' i n ttl')
  then show ?case by (simp add: confirmInt64_def lasts_other)
qed

end


text \<open>A map with deadlines: a lifetime of zero never expires and a negative one writes nothing, as
  ristretto documents it.\<close>

type_synonym timed_map = "time \<times> (string, cache_value \<times> time option) gomap"

definition timed_ristretto :: "timed_map ristretto" where
  "timed_ristretto = \<lparr>
     r_Get = (\<lambda>k (now, m). case mget m k of
        Some (v, Some deadline) \<Rightarrow> if now < deadline then Some v else None
      | Some (v, None) \<Rightarrow> Some v
      | None \<Rightarrow> None),
     r_SetWithTTL = (\<lambda>k v cost ttl (now, m).
        if ttl < 0 then (now, m) else (now, mput k (v, if ttl = 0 then None else Some (now + ttl)) m)),
     r_Clear = (\<lambda>(now, m). (now, [])), r_Wait = (\<lambda>c. c)\<rparr>"

definition timed_lasts :: "timed_map \<Rightarrow> string \<Rightarrow> cache_value \<Rightarrow> duration \<Rightarrow> bool" where
  "timed_lasts c k v d \<longleftrightarrow> (\<exists>dl. mget (snd c) k = Some (v, dl) \<and> (\<forall>x. dl = Some x \<longrightarrow> fst c + d \<le> x))"

definition timed_passes :: "duration \<Rightarrow> timed_map \<Rightarrow> timed_map \<Rightarrow> bool" where
  "timed_passes t c c' \<longleftrightarrow> c' = (fst c + t, snd c)"

lemma timed_roomy: "roomy_ristretto timed_ristretto timed_lasts timed_passes"
proof
  fix c :: timed_map and k v d
  assume "timed_lasts c k v d" and "0 < d"
  then show "r_Get timed_ristretto k c = Some v"
    by (force simp: timed_lasts_def timed_ristretto_def split_beta split: option.split)
qed (auto simp: timed_lasts_def timed_ristretto_def timed_passes_def split_beta)

interpretation timed_cache: roomy_ristretto timed_ristretto timed_lasts timed_passes
  by (rule timed_roomy)






section \<open>Chain tips\<close>

text \<open>The writes of tips, each at the time its caller reached the server.\<close>

fun write_tips :: "(time \<times> string \<times> int64) list \<Rightarrow> 'c CacheServer \<Rightarrow> 'c CacheServer" where
  "write_tips [] s = s"
| "write_tips ((t, k, b) # ws) s = write_tips ws (snd (rs_SetChainTip k b (s\<lparr>clock := t\<rparr>)))"

definition read_tip :: "time \<Rightarrow> string \<Rightarrow> 'c CacheServer \<Rightarrow> int64 option" where
  "read_tip now k s = (case fst (rs_GetChainTip k (s\<lparr>clock := now\<rparr>)) of Inr r \<Rightarrow> r | Inl _ \<Rightarrow> None)"

lemma write_tips_fold:
  "chainTips (write_tips ws s) =
     fold tip_write (map (\<lambda>(t, k, b). (t, k, b, DefaultExpirationForNonFinalized)) ws) (chainTips s)"
  by (induction ws s rule: write_tips.induct) (simp_all add: rs_SetChainTip_def tip_write_def)

lemma read_tip_view:
  "read_tip now k s = (case ct_view (chainTips s) now k of Some b \<Rightarrow> if b = NOT_APPLICABLE then None else Some b | None \<Rightarrow> None)"
  by (auto simp: read_tip_def rs_GetChainTip_def chainTipRaw_def ct_view_def split: option.splits)

text \<open>A chain tip that readers can see never falls: as long as the tip would still be fresh on
  its own, no sequence of writes from any number of routers within the freshness window lowers or
  hides it, sweeps included. A tip that readers no longer see fences nothing: the next write
  replaces it, however low.\<close>

theorem visible_tip_never_falls:
  assumes "ct_inv (chainTips s)" and "read_tip now k s = Some b" and "0 \<le> b"
    and "\<forall>(t, k', b')\<in>set ws. t \<le> now \<and> now < t + DefaultExpirationForNonFinalized"
  shows "(\<exists>b'\<ge>b. read_tip now k (write_tips ws s) = Some b')
    \<and> (\<forall>t low. read_tip t k2 s = None \<and> ct_view (chainTips s) t k2 \<noteq> Some NOT_APPLICABLE \<and> 0 < low \<longrightarrow>
         read_tip t k2 (write_tips [(t, k2, low)] s) = Some low)"
proof (intro conjI allI impI)
  have "ct_view (chainTips s) now k = Some b" using assms(2) by (auto simp: read_tip_view split: option.splits if_splits)
  moreover have "\<forall>(t, k, x, d)\<in>set (map (\<lambda>(t, k, b). (t, k, b, DefaultExpirationForNonFinalized)) ws). t \<le> now \<and> now < t + d"
    using assms(4) by auto
  ultimately obtain b' where "ct_view (chainTips (write_tips ws s)) now k = Some b'" and "b \<le> b'"
    using chain_tips.rank_never_falls [OF assms(1)] unfolding write_tips_fold by blast
  with assms(3) show "\<exists>b'\<ge>b. read_tip now k (write_tips ws s) = Some b'"
    by (auto simp: read_tip_view NOT_APPLICABLE_def)
next
  fix t :: time and low :: int64
  assume "read_tip t k2 s = None \<and> ct_view (chainTips s) t k2 \<noteq> Some NOT_APPLICABLE \<and> 0 < low"
  then have "ct_view (chainTips s) t k2 = None" and low: "0 < low"
    by (auto simp: read_tip_view split: option.splits if_splits)
  from chain_tips.unseen_fences_nothing [OF assms(1) this(1), of DefaultExpirationForNonFinalized low]
  have "ct_view (chainTips (write_tips [(t, k2, low)] s)) t k2 = Some low"
    unfolding write_tips_fold by (simp add: cache_durations)
  with low show "read_tip t k2 (write_tips [(t, k2, low)] s) = Some low"
    by (simp add: read_tip_view NOT_APPLICABLE_def)
qed

theorem visible_tip_never_falls_witness:
  "\<exists>b'\<ge>100. read_tip 1200 (ChainTipKey ''blue:ETH1'')
     (write_tips [(1100, ChainTipKey ''blue:ETH1'', 99), (1150, ChainTipKey ''blue:ETH1'', 98)] sample_state) = Some b'"
proof -
  have tip: "read_tip 1200 (ChainTipKey ''blue:ETH1'') sample_state = Some 100"
    and inv: "ct_inv (chainTips sample_state)"
    unfolding sample_state_def ct_inv_def wf_map_def by code_simp+
  from visible_tip_never_falls [OF inv tip, of
      "[(1100, ChainTipKey ''blue:ETH1'', 99), (1150, ChainTipKey ''blue:ETH1'', 98)]"]
  show ?thesis by (simp add: cache_durations)
qed

end
