(* ===== verification/ChainState.thy ===== *)
theory ChainState
  imports Prelude
begin

text \<open>
  The per-chain tip: \<open>protocol/chainstate/chain_state.go\<close>. \<open>SetLatestBlock\<close> is the guarded
  per-observation write, \<open>Recompute\<close> the consensus step over the endpoints' observations, and
  \<open>computeMajorityBaseline\<close> the strict-majority clustering. The clock reading \<open>cs.now()\<close> of a
  call is its argument \<open>nowReal\<close>; the lock makes each operation atomic, so an operation is a
  function from state to state. The hook \<open>Config.OnRegression\<close> is a flag of the configuration and
  the call it would receive is returned as an optional report.
\<close>

section \<open>Configuration\<close>

definition DefaultBucketWidth :: int64 where "DefaultBucketWidth = 5"

definition DefaultOutlierThreshold :: int64 where "DefaultOutlierThreshold = 100"

definition OutlierTimeBudget :: duration where "OutlierTimeBudget = 1200 * second"

definition outlierFloorBlocks :: int64 where "outlierFloorBlocks = 32"

definition outlierCeilBlocks :: int64 where "outlierCeilBlocks = 512"

definition DefaultStalenessMultiplier :: int where "DefaultStalenessMultiplier = 10"

definition minStalenessWindow :: duration where "minStalenessWindow = 2 * second"

record chain_config =
  BucketWidth :: int64
  OutlierThreshold :: int64
  StalenessWindowCfg :: duration
  TTL :: duration
  OnRegression :: bool

record block_observation =
  URL :: string
  Block :: int64
  ObservedAt :: time

definition outlierThresholdForBlockTime :: "duration \<Rightarrow> int64" where
  "outlierThresholdForBlockTime averageBlockTime =
    (if averageBlockTime \<le> 0 then DefaultOutlierThreshold
     else let bt = averageBlockTime;
              blocks = (add64 OutlierTimeBudget (bt div 2)) div bt
          in if blocks < outlierFloorBlocks then outlierFloorBlocks
             else if blocks > outlierCeilBlocks then outlierCeilBlocks
             else blocks)"

definition StalenessWindow :: "duration \<Rightarrow> duration" where
  "StalenessWindow averageBlockTime =
     max (mul64 DefaultStalenessMultiplier averageBlockTime) minStalenessWindow"

definition DefaultConfig :: "duration \<Rightarrow> chain_config" where
  "DefaultConfig averageBlockTime =
     (let window = StalenessWindow averageBlockTime
      in \<lparr>BucketWidth = DefaultBucketWidth,
          OutlierThreshold = outlierThresholdForBlockTime averageBlockTime,
          StalenessWindowCfg = window, TTL = window, OnRegression = False\<rparr>)"

section \<open>State\<close>

record chain_state =
  chainID :: string
  cfg :: chain_config
  warpOffset :: duration
  latestBlock :: int64
  lastObservedAt :: time
  latestSince :: time
  initialized :: bool
  baseline :: int64
  hasBaseline :: bool
  baselineAt :: time
  baselineSince :: time

definition NewWithClock :: "string \<Rightarrow> chain_config \<Rightarrow> chain_state" where
  "NewWithClock cid c =
    (let c1 = (if BucketWidth c \<le> 0 then c\<lparr>BucketWidth := DefaultBucketWidth\<rparr> else c);
         c2 = (if OutlierThreshold c1 \<le> 0 then c1\<lparr>OutlierThreshold := DefaultOutlierThreshold\<rparr> else c1);
         c3 = (if StalenessWindowCfg c2 \<le> 0 then c2\<lparr>StalenessWindowCfg := minStalenessWindow\<rparr> else c2);
         c4 = (if TTL c3 \<le> 0 then c3\<lparr>TTL := StalenessWindowCfg c3\<rparr> else c3)
     in \<lparr>chainID = cid, cfg = c4, warpOffset = 0, latestBlock = 0, lastObservedAt = zero_time,
         latestSince = zero_time, initialized = False, baseline = 0, hasBaseline = False,
         baselineAt = zero_time, baselineSince = zero_time\<rparr>)"

definition effectiveNow :: "chain_state \<Rightarrow> time \<Rightarrow> time" where
  "effectiveNow cs nowReal = nowReal + warpOffset cs"

definition SetDebugClockOffset :: "chain_state \<Rightarrow> duration \<Rightarrow> chain_state" where
  "SetDebugClockOffset cs d = cs\<lparr>warpOffset := d\<rparr>"

definition Reset :: "chain_state \<Rightarrow> chain_state" where
  "Reset cs = cs\<lparr>latestBlock := 0, lastObservedAt := zero_time, latestSince := zero_time,
     initialized := False, baseline := 0, hasBaseline := False, baselineAt := zero_time,
     baselineSince := zero_time\<rparr>"

section \<open>Reading the tip\<close>

definition freshLatestLocked :: "chain_state \<Rightarrow> time \<Rightarrow> int64 option" where
  "freshLatestLocked cs now =
    (if latestBlock cs \<le> 0 then None
     else if TTL (cfg cs) > 0 \<and> time_sub now (lastObservedAt cs) > TTL (cfg cs) then None
     else Some (latestBlock cs))"

definition GetLatestBlock :: "chain_state \<Rightarrow> time \<Rightarrow> int64 option" where
  "GetLatestBlock cs nowReal = freshLatestLocked cs (effectiveNow cs nowReal)"

definition GetLatestBlockAllowStale :: "chain_state \<Rightarrow> int64" where
  "GetLatestBlockAllowStale cs = latestBlock cs"

definition GetLatestBlockWithTime :: "chain_state \<Rightarrow> time \<Rightarrow> (int64 \<times> time) option" where
  "GetLatestBlockWithTime cs nowReal =
     (case freshLatestLocked cs (effectiveNow cs nowReal) of
        None \<Rightarrow> None
      | Some block \<Rightarrow> Some (block, latestSince cs))"

definition freshBaselineLocked :: "chain_state \<Rightarrow> time \<Rightarrow> (int64 \<times> time) option" where
  "freshBaselineLocked cs now =
    (if \<not> hasBaseline cs \<or> baseline cs \<le> 0 then None
     else if TTL (cfg cs) > 0 \<and> time_sub now (baselineAt cs) > TTL (cfg cs) then None
     else Some (baseline cs, baselineSince cs))"

definition consensusBaselineWithTime :: "chain_state \<Rightarrow> time \<Rightarrow> (int64 \<times> time) option" where
  "consensusBaselineWithTime cs nowReal = freshBaselineLocked cs (effectiveNow cs nowReal)"

definition consensusBaseline :: "chain_state \<Rightarrow> time \<Rightarrow> int64 option" where
  "consensusBaseline cs nowReal = map_option fst (consensusBaselineWithTime cs nowReal)"

definition ConsensusBucketWidth :: "chain_state \<Rightarrow> int64" where
  "ConsensusBucketWidth cs = BucketWidth (cfg cs)"

definition Initialized :: "chain_state \<Rightarrow> bool" where
  "Initialized cs = initialized cs"

record chain_state_snapshot =
  ObservedTip :: int64
  LastObservedAt :: time
  ConsensusBaseline :: int64
  HasBaseline :: bool
  BaselineSince :: time
  InitializedFlag :: bool
  TipFresh :: bool
  BaselineFresh :: bool

definition DebugSnapshot :: "chain_state \<Rightarrow> time \<Rightarrow> chain_state_snapshot" where
  "DebugSnapshot cs nowReal =
    (let now = effectiveNow cs nowReal
     in \<lparr>ObservedTip = latestBlock cs, LastObservedAt = lastObservedAt cs,
         ConsensusBaseline = baseline cs, HasBaseline = hasBaseline cs,
         BaselineSince = baselineSince cs, InitializedFlag = initialized cs,
         TipFresh = (freshLatestLocked cs now \<noteq> None),
         BaselineFresh = (freshBaselineLocked cs now \<noteq> None)\<rparr>)"

section \<open>The guarded write\<close>

definition RegressionReasonConsensus :: string where
  "RegressionReasonConsensus = ''consensus''"

definition RegressionReasonStaleTip :: string where
  "RegressionReasonStaleTip = ''stale_tip''"

type_synonym regression = "(int64 \<times> int64 \<times> string) option"

definition reportRegression :: "chain_state \<Rightarrow> int64 \<Rightarrow> int64 \<Rightarrow> string \<Rightarrow> regression" where
  "reportRegression cs frm to reason =
     (if OnRegression (cfg cs) then Some (frm, to, reason) else None)"

text \<open>
  The deferred call at the end of \<open>SetLatestBlock\<close> and \<open>Recompute\<close>: the hook runs when
  \<open>regressedFrom\<close> was set to a positive block.
\<close>

definition deferredRegression :: "chain_state \<Rightarrow> int64 \<Rightarrow> int64 \<Rightarrow> string \<Rightarrow> regression" where
  "deferredRegression cs regressedFrom to reason =
     (if regressedFrom > 0 then reportRegression cs regressedFrom to reason else None)"

record set_result =
  newState :: chain_state
  latest :: int64
  at :: time
  advanced :: bool
  reported :: regression

definition set_unchanged :: "chain_state \<Rightarrow> set_result" where
  "set_unchanged cs = \<lparr>newState = cs, latest = latestBlock cs, at = lastObservedAt cs,
     advanced = False, reported = None\<rparr>"

definition SetLatestBlock :: "chain_state \<Rightarrow> time \<Rightarrow> int64 \<Rightarrow> set_result" where
  "SetLatestBlock cs nowReal block =
    (if block \<le> 0 then set_unchanged cs
     else
       let tipFresh = (freshLatestLocked cs (nowReal + warpOffset cs) \<noteq> None)
       in if initialized cs \<and> block < latestBlock cs then
            (if tipFresh then set_unchanged cs
             else \<lparr>newState = cs\<lparr>latestBlock := block, lastObservedAt := nowReal, latestSince := nowReal\<rparr>,
                   latest = block, at = nowReal, advanced = False,
                   reported = deferredRegression cs (latestBlock cs) block RegressionReasonStaleTip\<rparr>)
          else if initialized cs \<and> block = latestBlock cs then
            \<lparr>newState = cs\<lparr>lastObservedAt := nowReal\<rparr>, latest = latestBlock cs, at = nowReal,
             advanced = False, reported = None\<rparr>
          else if hasBaseline cs \<and> block > add64 (baseline cs) (OutlierThreshold (cfg cs)) then
            set_unchanged cs
          else if \<not> hasBaseline cs \<and> initialized cs \<and> tipFresh
                  \<and> block > add64 (latestBlock cs) (OutlierThreshold (cfg cs)) then
            set_unchanged cs
          else
            \<lparr>newState = cs\<lparr>latestBlock := block, lastObservedAt := nowReal, latestSince := nowReal,
                            initialized := True\<rparr>,
             latest = block, at = nowReal, advanced = True, reported = None\<rparr>)"

section \<open>Consensus\<close>

text \<open>The votes: for each URL its most recent fresh positive observation.\<close>

fun latestByURL_loop ::
    "chain_config \<Rightarrow> time \<Rightarrow> block_observation list \<Rightarrow> (string, block_observation) gomap
      \<Rightarrow> (string, block_observation) gomap" where
  "latestByURL_loop c now [] m = m"
| "latestByURL_loop c now (obs # rest) m =
     (if Block obs \<le> 0 then latestByURL_loop c now rest m
      else if StalenessWindowCfg c > 0 \<and> time_sub now (ObservedAt obs) > StalenessWindowCfg c
        then latestByURL_loop c now rest m
      else (case mget m (URL obs) of
              None \<Rightarrow> latestByURL_loop c now rest (mput (URL obs) obs m)
            | Some prev \<Rightarrow>
                if ObservedAt obs > ObservedAt prev
                then latestByURL_loop c now rest (mput (URL obs) obs m)
                else latestByURL_loop c now rest m))"

text \<open>
  The inner loop \<open>for blocks[j]-blocks[i] > cfg.BucketWidth { i++ }\<close>. It never passes \<open>j\<close> for a
  non-negative width; the bound on \<open>i\<close> stands for the end of the slice.
\<close>

function window_start :: "int64 list \<Rightarrow> int64 \<Rightarrow> nat \<Rightarrow> nat \<Rightarrow> nat" where
  "window_start blocks width j i =
     (if i < length blocks \<and> blocks ! j - blocks ! i > width
      then window_start blocks width j (Suc i) else i)"
  by pat_completeness auto
termination
  by (relation "measure (\<lambda>(blocks, width, j, i). length blocks - i)") auto

declare window_start.simps [simp del]

function best_window ::
    "int64 list \<Rightarrow> int64 \<Rightarrow> nat \<Rightarrow> nat \<Rightarrow> int \<Rightarrow> int64 \<Rightarrow> int \<times> int64" where
  "best_window blocks width j i bestCount bestMax =
     (if j < length blocks then
        let i' = window_start blocks width j i;
            count = int j - int i' + 1
        in if count > bestCount \<or> (count = bestCount \<and> blocks ! j > bestMax)
           then best_window blocks width (Suc j) i' count (blocks ! j)
           else best_window blocks width (Suc j) i' bestCount bestMax
      else (bestCount, bestMax))"
  by pat_completeness auto
termination
  by (relation "measure (\<lambda>(blocks, width, j, i, bc, bm). length blocks - j)") auto

declare best_window.simps [simp del]

definition computeMajorityBaseline ::
    "block_observation list \<Rightarrow> time \<Rightarrow> chain_config \<Rightarrow> int64 option" where
  "computeMajorityBaseline obs now c =
    (let latestByURL = latestByURL_loop c now obs [];
         total = length latestByURL
     in if total < 2 then None
        else
          let blocks = sort (map (\<lambda>kv. Block (snd kv)) latestByURL);
              best = best_window blocks (BucketWidth c) 0 0 0 0
          in if fst best \<ge> 2 \<and> fst best * 2 > int total then Some (snd best) else None)"

definition Recompute :: "chain_state \<Rightarrow> time \<Rightarrow> block_observation list \<Rightarrow> chain_state \<times> regression" where
  "Recompute cs nowReal snapshots =
    (case computeMajorityBaseline snapshots (nowReal + warpOffset cs) (cfg cs) of
       None \<Rightarrow> (cs\<lparr>hasBaseline := False, baseline := 0\<rparr>, None)
     | Some b \<Rightarrow>
        let cs1 = cs\<lparr>hasBaseline := True, baseline := b, baselineAt := nowReal\<rparr>;
            cs2 = (if \<not> hasBaseline cs \<or> baseline cs \<noteq> b
                   then cs1\<lparr>baselineSince := nowReal\<rparr> else cs1)
        in if latestBlock cs > add64 b (OutlierThreshold (cfg cs)) then
             (cs2\<lparr>latestBlock := b, lastObservedAt := nowReal, latestSince := nowReal,
                  initialized := True\<rparr>,
              deferredRegression cs (latestBlock cs) b RegressionReasonConsensus)
           else if latestBlock cs < b then
             (cs2\<lparr>latestBlock := b, lastObservedAt := nowReal, latestSince := nowReal,
                  initialized := True\<rparr>, None)
           else (cs2, None))"

section \<open>The sliding window finds the largest cluster\<close>

text \<open>How many of the first \<open>j + 1\<close> blocks lie within the width below block \<open>j\<close>.\<close>

definition wcount :: "int64 list \<Rightarrow> int64 \<Rightarrow> nat \<Rightarrow> int" where
  "wcount bs w j = int (card {k. k \<le> j \<and> bs ! j - bs ! k \<le> w})"

lemma window_start_spec:
  assumes "j < length bs" "0 \<le> w" "i \<le> j" "\<forall>k<i. bs ! j - bs ! k > w"
  shows "i \<le> window_start bs w j i \<and> window_start bs w j i \<le> j
    \<and> (\<forall>k<window_start bs w j i. bs ! j - bs ! k > w)
    \<and> bs ! j - bs ! window_start bs w j i \<le> w"
  using assms
proof (induction bs w j i rule: window_start.induct)
  case (1 bs w j i)
  show ?case
  proof (cases "bs ! j - bs ! i > w")
    case True
    with "1.prems" have "i \<noteq> j" and less: "i < length bs" by auto
    with "1.prems" have "Suc i \<le> j" by simp
    moreover from True "1.prems" have "\<forall>k<Suc i. bs ! j - bs ! k > w"
      by (auto simp: less_Suc_eq)
    ultimately have
      "Suc i \<le> window_start bs w j (Suc i) \<and> window_start bs w j (Suc i) \<le> j
       \<and> (\<forall>k<window_start bs w j (Suc i). bs ! j - bs ! k > w)
       \<and> bs ! j - bs ! window_start bs w j (Suc i) \<le> w"
      using "1.IH" "1.prems" True less by blast
    then show ?thesis using True less by (simp add: window_start.simps [of bs w j i])
  next
    case False
    with "1.prems" show ?thesis by (simp add: window_start.simps [of bs w j i])
  qed
qed

lemma window_start_count:
  assumes "sorted bs" "j < length bs" "0 \<le> w" "i \<le> j" "\<forall>k<i. bs ! j - bs ! k > w"
  shows "int j - int (window_start bs w j i) + 1 = wcount bs w j"
proof -
  let ?i = "window_start bs w j i"
  note spec = window_start_spec [OF assms(2-5)]
  have "k < ?i \<longleftrightarrow> bs ! j - bs ! k > w" if "k \<le> j" for k
  proof (cases "k < ?i")
    case True
    with spec show ?thesis by simp
  next
    case False
    then have "bs ! ?i \<le> bs ! k" using that assms(1,2) by (simp add: sorted_nth_mono)
    with spec False show ?thesis by linarith
  qed
  then have "{k. k \<le> j \<and> bs ! j - bs ! k \<le> w} = {?i..j}"
    by (auto simp: not_less) (metis linorder_not_le not_le_imp_less)+
  with spec show ?thesis by (simp add: wcount_def of_nat_diff)
qed

definition best_so_far :: "int64 list \<Rightarrow> int64 \<Rightarrow> nat \<Rightarrow> int \<Rightarrow> int64 \<Rightarrow> bool" where
  "best_so_far bs w j bc bm \<longleftrightarrow>
     (if j = 0 then bc = 0 \<and> bm = 0 else \<exists>m<j. bc = wcount bs w m \<and> bm = bs ! m)
     \<and> (\<forall>m<j. wcount bs w m < bc \<or> (wcount bs w m = bc \<and> bs ! m \<le> bm))"

lemma wcount_pos: "0 \<le> w \<Longrightarrow> 0 < wcount bs w j"
proof -
  assume "0 \<le> w"
  then have "j \<in> {k. k \<le> j \<and> bs ! j - bs ! k \<le> w}" by simp
  then show ?thesis unfolding wcount_def by (auto simp: card_gt_0_iff)
qed

lemma best_so_far_Suc:
  assumes "best_so_far bs w j bc bm" "0 \<le> w"
  shows "best_so_far bs w (Suc j)
    (if wcount bs w j > bc \<or> (wcount bs w j = bc \<and> bs ! j > bm) then wcount bs w j else bc)
    (if wcount bs w j > bc \<or> (wcount bs w j = bc \<and> bs ! j > bm) then bs ! j else bm)"
  using assms wcount_pos [OF assms(2), of bs j]
  unfolding best_so_far_def by (auto simp: less_Suc_eq split: if_splits)

lemma best_window_spec:
  assumes "sorted bs" "0 \<le> w" "i \<le> j" "j \<le> length bs"
    "\<forall>k<i. \<forall>m. j \<le> m \<and> m < length bs \<longrightarrow> bs ! m - bs ! k > w"
    "best_so_far bs w j bc bm"
  shows "case best_window bs w j i bc bm of (c, b) \<Rightarrow> best_so_far bs w (length bs) c b"
  using assms
proof (induction bs w j i bc bm rule: best_window.induct)
  case (1 bs w j i bc bm)
  show ?case
  proof (cases "j < length bs")
    case False
    with "1.prems" have "j = length bs" by simp
    with "1.prems"(6) show ?thesis by (subst best_window.simps) simp
  next
    case True
    let ?i = "window_start bs w j i"
    from True "1.prems" have small: "\<forall>k<i. bs ! j - bs ! k > w" by simp
    note spec = window_start_spec [OF True "1.prems"(2,3) small]
    have cnt: "int j - int ?i + 1 = wcount bs w j"
      by (rule window_start_count [OF "1.prems"(1) True "1.prems"(2,3) small])
    have far: "\<forall>k<?i. \<forall>m. Suc j \<le> m \<and> m < length bs \<longrightarrow> bs ! m - bs ! k > w"
    proof (intro allI impI)
      fix k m assume k: "k < ?i" and m: "Suc j \<le> m \<and> m < length bs"
      from m "1.prems"(1) have "bs ! j \<le> bs ! m" by (simp add: sorted_nth_mono)
      with k spec show "bs ! m - bs ! k > w" by force
    qed
    have le: "?i \<le> Suc j" "Suc j \<le> length bs" using spec True by simp_all
    have step: "best_window bs w j i bc bm =
        (if wcount bs w j > bc \<or> (wcount bs w j = bc \<and> bs ! j > bm)
         then best_window bs w (Suc j) ?i (wcount bs w j) (bs ! j)
         else best_window bs w (Suc j) ?i bc bm)"
      by (subst best_window.simps) (simp only: Let_def True if_True cnt)
    note next_best = best_so_far_Suc [OF "1.prems"(6,2)]
    show ?thesis
    proof (cases "wcount bs w j > bc \<or> (wcount bs w j = bc \<and> bs ! j > bm)")
      case better: True
      have "case best_window bs w (Suc j) ?i (wcount bs w j) (bs ! j) of
          (c, b) \<Rightarrow> best_so_far bs w (length bs) c b"
        using "1.IH"(1) [OF True refl cnt [symmetric] better "1.prems"(1,2) le far]
          next_best better by simp
      then show ?thesis
        using better by (simp only: step if_True)
    next
      case worse: False
      have "case best_window bs w (Suc j) ?i bc bm of
          (c, b) \<Rightarrow> best_so_far bs w (length bs) c b"
        using "1.IH"(2) [OF True refl cnt [symmetric] worse "1.prems"(1,2) le far]
          next_best worse by simp
      then show ?thesis
        using worse by (simp only: step if_False)
    qed
  qed
qed

text \<open>The support of a block: how many votes lie within the width below it.\<close>

definition support :: "int64 list \<Rightarrow> int64 \<Rightarrow> int64 \<Rightarrow> int" where
  "support bs w b = int (length (filter (\<lambda>v. b - w \<le> v \<and> v \<le> b) bs))"

lemma support_card:
  "support bs w b = int (card {k. k < length bs \<and> b - w \<le> bs ! k \<and> bs ! k \<le> b})"
  by (simp add: support_def length_filter_conv_card)

lemma wcount_le_support:
  assumes "sorted bs" "j < length bs"
  shows "wcount bs w j \<le> support bs w (bs ! j)"
proof -
  have "{k. k \<le> j \<and> bs ! j - bs ! k \<le> w}
      \<subseteq> {k. k < length bs \<and> bs ! j - w \<le> bs ! k \<and> bs ! k \<le> bs ! j}"
    using assms by (auto simp: sorted_nth_mono)
  then show ?thesis
    unfolding wcount_def support_card by (simp add: card_mono)
qed

lemma support_attained:
  assumes "sorted bs" "v \<in> set bs"
  shows "\<exists>j<length bs. bs ! j = v \<and> wcount bs w j = support bs w v"
proof -
  obtain j where "find_last_index (\<lambda>x. x = v) bs = Some j"
    using assms(2) find_last_index_None [of "\<lambda>x. x = v" bs] by fastforce
  from find_last_index_Some [OF this] have j: "j < length bs" "bs ! j = v"
    and last: "\<forall>m. j < m \<and> m < length bs \<longrightarrow> bs ! m \<noteq> v" by auto
  have "k \<le> j" if "k < length bs" "bs ! k \<le> v" for k
  proof (rule ccontr)
    assume "\<not> k \<le> j"
    with that assms(1) j have "bs ! k = v"
      by (metis linorder_not_le order_antisym sorted_nth_mono less_imp_le)
    with last that \<open>\<not> k \<le> j\<close> show False by simp
  qed
  then have "{k. k < length bs \<and> v - w \<le> bs ! k \<and> bs ! k \<le> v}
      = {k. k \<le> j \<and> bs ! j - bs ! k \<le> w}"
    using j assms(1) by (auto simp: sorted_nth_mono)
  then show ?thesis using j unfolding wcount_def support_card by auto
qed

lemma best_window_support:
  assumes "sorted bs" "0 \<le> w" "bs \<noteq> []" "best_window bs w 0 0 0 0 = (c, b)"
  shows "b \<in> set bs \<and> c = support bs w b
    \<and> (\<forall>v\<in>set bs. support bs w v < c \<or> (support bs w v = c \<and> v \<le> b))"
proof -
  have "best_so_far bs w (length bs) c b"
    using best_window_spec [OF assms(1,2), of 0 0 0 0] assms(4)
    by (simp add: best_so_far_def)
  then obtain m where m: "m < length bs" "c = wcount bs w m" "b = bs ! m"
    and best: "\<forall>m<length bs. wcount bs w m < c \<or> (wcount bs w m = c \<and> bs ! m \<le> b)"
    using assms(3) by (auto simp: best_so_far_def)
  have all: "support bs w v < c \<or> (support bs w v = c \<and> v \<le> b)" if "v \<in> set bs" for v
    using support_attained [OF assms(1) that] best by metis
  moreover have "b \<in> set bs" using m by simp
  moreover have "c = support bs w b"
    using all [OF \<open>b \<in> set bs\<close>] wcount_le_support [OF assms(1) m(1), of w] m by simp
  ultimately show ?thesis by blast
qed

section \<open>Votes\<close>

definition counts_vote :: "chain_config \<Rightarrow> time \<Rightarrow> block_observation \<Rightarrow> bool" where
  "counts_vote c now ob \<longleftrightarrow> Block ob > 0
     \<and> \<not> (StalenessWindowCfg c > 0 \<and> time_sub now (ObservedAt ob) > StalenessWindowCfg c)"

definition vote_map :: "chain_config \<Rightarrow> time \<Rightarrow> block_observation list
    \<Rightarrow> (string, block_observation) gomap" where
  "vote_map c now obs = latestByURL_loop c now obs []"

definition vote_blocks :: "chain_config \<Rightarrow> time \<Rightarrow> block_observation list \<Rightarrow> int64 list" where
  "vote_blocks c now obs = map (\<lambda>kv. Block (snd kv)) (vote_map c now obs)"

definition votes_ok where
  "votes_ok c now os m \<longleftrightarrow> wf_map m
     \<and> (\<forall>u ob. mget m u = Some ob \<longrightarrow> ob \<in> os \<and> URL ob = u \<and> counts_vote c now ob)"

text \<open>One iteration of the loop, and the loop as a fold of it.\<close>

definition vote_step :: "chain_config \<Rightarrow> time \<Rightarrow> block_observation
    \<Rightarrow> (string, block_observation) gomap \<Rightarrow> (string, block_observation) gomap" where
  "vote_step c now ob m =
     (if counts_vote c now ob
         \<and> (case mget m (URL ob) of None \<Rightarrow> True | Some prev \<Rightarrow> ObservedAt ob > ObservedAt prev)
      then mput (URL ob) ob m else m)"

lemma latestByURL_loop_fold: "latestByURL_loop c now obs m = fold (vote_step c now) obs m"
  by (induction obs arbitrary: m) (auto simp: vote_step_def counts_vote_def split: option.split)

lemma vote_step_ok: "votes_ok c now os m \<Longrightarrow> ob \<in> os \<Longrightarrow> votes_ok c now os (vote_step c now ob m)"
  by (auto simp: votes_ok_def vote_step_def split: if_splits option.splits)

lemma vote_step_grows:
  "mget m u = Some ob \<Longrightarrow> \<exists>ob'. mget (vote_step c now x m) u = Some ob' \<and> ObservedAt ob \<le> ObservedAt ob'"
  by (auto simp: vote_step_def split: option.split)

lemma vote_step_counts:
  "counts_vote c now ob \<Longrightarrow>
     \<exists>ob'. mget (vote_step c now ob m) (URL ob) = Some ob' \<and> ObservedAt ob \<le> ObservedAt ob'"
  by (auto simp: vote_step_def not_less split: option.split)

lemma fold_vote_step_ok:
  "votes_ok c now os m \<Longrightarrow> set obs \<subseteq> os \<Longrightarrow> votes_ok c now os (fold (vote_step c now) obs m)"
  by (induction obs arbitrary: m) (auto intro: vote_step_ok)

lemma fold_vote_step_grows:
  "mget m u = Some ob \<Longrightarrow>
     \<exists>ob'. mget (fold (vote_step c now) obs m) u = Some ob' \<and> ObservedAt ob \<le> ObservedAt ob'"
proof (induction obs arbitrary: m ob)
  case Nil
  then show ?case by simp
next
  case (Cons x obs)
  from vote_step_grows [OF Cons.prems] Cons.IH show ?case
    by (metis fold_simps(2) order_trans)
qed

lemma fold_vote_step_complete:
  "ob \<in> set obs \<Longrightarrow> counts_vote c now ob \<Longrightarrow>
     \<exists>ob'. mget (fold (vote_step c now) obs m) (URL ob) = Some ob' \<and> ObservedAt ob \<le> ObservedAt ob'"
proof (induction obs arbitrary: m)
  case Nil
  then show ?case by simp
next
  case (Cons x obs)
  show ?case
  proof (cases "ob = x")
    case True
    with vote_step_counts [OF Cons.prems(2), of m] fold_vote_step_grows show ?thesis
      by (metis fold_simps(2) order_trans)
  next
    case False
    with Cons show ?thesis by simp
  qed
qed

lemma vote_map_ok: "votes_ok c now (set obs) (vote_map c now obs)"
  unfolding vote_map_def latestByURL_loop_fold
  by (rule fold_vote_step_ok) (simp_all add: votes_ok_def)

lemma vote_map_wf: "wf_map (vote_map c now obs)"
  using vote_map_ok [of c now obs] by (simp add: votes_ok_def)

lemma vote_map_entry:
  assumes "(u, ob) \<in> set (vote_map c now obs)"
  shows "ob \<in> set obs \<and> URL ob = u \<and> counts_vote c now ob"
  using assms vote_map_ok [of c now obs] by (auto simp: votes_ok_def wf_map_in_iff)

lemma vote_blocks_pos: "v \<in> set (vote_blocks c now obs) \<Longrightarrow> 0 < v"
  using vote_map_entry by (fastforce simp: vote_blocks_def counts_vote_def)

lemma support_sort: "support (sort bs) w b = support bs w b"
  by (simp add: support_def filter_sort)

lemma support_le_length: "support bs w b \<le> int (length bs)"
  by (simp add: support_def)

definition wins_majority :: "int64 list \<Rightarrow> int64 \<Rightarrow> int64 \<Rightarrow> bool" where
  "wins_majority bs w b \<longleftrightarrow> b \<in> set bs \<and> 2 \<le> support bs w b \<and> int (length bs) < 2 * support bs w b
     \<and> (\<forall>v\<in>set bs. support bs w v < support bs w b \<or> (support bs w v = support bs w b \<and> v \<le> b))"

lemma computeMajorityBaseline_correct:
  assumes "0 \<le> BucketWidth c"
  shows "computeMajorityBaseline obs now c = Some b \<longleftrightarrow>
    wins_majority (vote_blocks c now obs) (BucketWidth c) b"
proof -
  let ?bs = "vote_blocks c now obs" and ?w = "BucketWidth c"
  have len: "length (vote_map c now obs) = length ?bs" by (simp add: vote_blocks_def)
  show ?thesis
  proof (cases "length ?bs < 2")
    case True
    then have "\<not> wins_majority ?bs ?w b"
      using support_le_length [of ?bs ?w b] by (auto simp: wins_majority_def)
    with True len show ?thesis
      by (simp add: computeMajorityBaseline_def vote_map_def [symmetric])
  next
    case False
    obtain cnt m where best: "best_window (sort ?bs) ?w 0 0 0 0 = (cnt, m)"
      by (cases "best_window (sort ?bs) ?w 0 0 0 0")
    from False have "0 < length ?bs" by linarith
    then have ne: "sort ?bs \<noteq> []" by (metis length_greater_0_conv length_sort)
    note win = best_window_support [OF sorted_sort assms ne best, unfolded support_sort set_sort]
    have "computeMajorityBaseline obs now c
        = (if cnt \<ge> 2 \<and> cnt * 2 > int (length ?bs) then Some m else None)"
      using False len best
      by (simp add: computeMajorityBaseline_def vote_map_def [symmetric]
          vote_blocks_def [symmetric] Let_def)
    moreover have "wins_majority ?bs ?w b \<longleftrightarrow> b = m \<and> cnt \<ge> 2 \<and> cnt * 2 > int (length ?bs)"
    proof
      assume b: "wins_majority ?bs ?w b"
      then have "b \<in> set ?bs" by (simp add: wins_majority_def)
      with win have "support ?bs ?w b < cnt \<or> (support ?bs ?w b = cnt \<and> b \<le> m)"
        by blast
      moreover from b win have "cnt < support ?bs ?w b \<or> (cnt = support ?bs ?w b \<and> m \<le> b)"
        unfolding wins_majority_def by blast
      ultimately have "b = m" "cnt = support ?bs ?w b" by auto
      with b show "b = m \<and> cnt \<ge> 2 \<and> cnt * 2 > int (length ?bs)"
        by (simp add: wins_majority_def)
    next
      assume "b = m \<and> cnt \<ge> 2 \<and> cnt * 2 > int (length ?bs)"
      with win show "wins_majority ?bs ?w b"
        unfolding wins_majority_def by (metis mult.commute)
    qed
    ultimately show ?thesis by auto
  qed
qed


definition obs_at :: "string \<Rightarrow> int64 \<Rightarrow> time \<Rightarrow> block_observation" where
  "obs_at u b t = \<lparr>URL = u, Block = b, ObservedAt = t\<rparr>"

definition sample_obs :: "block_observation list" where
  "sample_obs = [obs_at ''a'' 1000 7, obs_at ''b'' 1002 7, obs_at ''c'' 900000 7, obs_at ''a'' 1001 8]"

lemma sample_vote_blocks: "vote_blocks (DefaultConfig second) 10 sample_obs = [1001, 1002, 900000]"
  by (simp add: vote_blocks_def vote_map_def sample_obs_def obs_at_def DefaultConfig_def
      StalenessWindow_def DefaultStalenessMultiplier_def minStalenessWindow_def duration_units
      Let_def mul64_def wrap64_def time_sub_def min_int64_def max_int64_def)


section \<open>A lying minority\<close>

definition honest_votes :: "(string \<Rightarrow> bool) \<Rightarrow> chain_config \<Rightarrow> time \<Rightarrow> block_observation list
    \<Rightarrow> (string, block_observation) gomap" where
  "honest_votes H c now obs = filter (\<lambda>kv. H (fst kv)) (vote_map c now obs)"

lemma majority_meets:
  assumes "int (length xs) < 2 * int (length (filter P xs))"
    and "length xs \<le> 2 * length (filter Q xs)"
  shows "\<exists>x\<in>set xs. P x \<and> Q x"
proof (rule ccontr)
  assume "\<not> (\<exists>x\<in>set xs. P x \<and> Q x)"
  then have "length (filter P xs) + length (filter Q xs) \<le> length xs"
    by (induction xs) auto
  with assms show False by linarith
qed

lemma baseline_near_honest_vote:
  assumes "0 \<le> BucketWidth c" "computeMajorityBaseline obs now c = Some b"
    and "length (vote_map c now obs) \<le> 2 * length (honest_votes H c now obs)"
  shows "\<exists>u ob. (u, ob) \<in> set (vote_map c now obs) \<and> H u
    \<and> b - BucketWidth c \<le> Block ob \<and> Block ob \<le> b"
proof -
  let ?V = "vote_map c now obs"
    and ?P = "\<lambda>kv. b - BucketWidth c \<le> Block (snd kv) \<and> Block (snd kv) \<le> b"
  have "support (vote_blocks c now obs) (BucketWidth c) b = int (length (filter ?P ?V))"
    by (simp add: support_def vote_blocks_def filter_map comp_def)
  with assms(1,2) have "int (length ?V) < 2 * int (length (filter ?P ?V))"
    by (simp add: computeMajorityBaseline_correct wins_majority_def) (simp add: vote_blocks_def)
  then obtain kv where "kv \<in> set ?V" "?P kv" "H (fst kv)"
    using majority_meets [of ?V ?P "\<lambda>kv. H (fst kv)"] assms(3) by (auto simp: honest_votes_def)
  then show ?thesis by (metis prod.collapse)
qed

text \<open>
  A lying minority cannot move the consensus: when at least half of the voting endpoints are
  honest and their fresh observations lie between \<open>lo\<close> and \<open>hi\<close>, a baseline that forms lies
  between \<open>lo\<close> and \<open>hi + BucketWidth\<close>, whatever blocks the other endpoints report.
\<close>

theorem minority_cannot_move_baseline:
  assumes "0 \<le> BucketWidth c" and "computeMajorityBaseline obs now c = Some b"
    and "length (vote_map c now obs) \<le> 2 * length (honest_votes H c now obs)"
    and "\<forall>ob\<in>set obs. H (URL ob) \<and> counts_vote c now ob \<longrightarrow> lo \<le> Block ob \<and> Block ob \<le> hi"
  shows "lo \<le> b \<and> b \<le> hi + BucketWidth c"
proof -
  from baseline_near_honest_vote [OF assms(1-3)] obtain u ob where
    v: "(u, ob) \<in> set (vote_map c now obs)" "H u"
    and near: "b - BucketWidth c \<le> Block ob" "Block ob \<le> b" by blast
  from vote_map_entry [OF v(1)] v(2) assms(4) have "lo \<le> Block ob" "Block ob \<le> hi" by auto
  with near show ?thesis by simp
qed

lemmas sample_votes_simps = vote_map_def sample_obs_def obs_at_def DefaultConfig_def
  StalenessWindow_def DefaultStalenessMultiplier_def minStalenessWindow_def duration_units
  Let_def mul64_def wrap64_def time_sub_def min_int64_def max_int64_def

theorem minority_cannot_move_baseline_witness:
  "\<exists>b. computeMajorityBaseline sample_obs 10 (DefaultConfig second) = Some b
     \<and> 1000 \<le> b \<and> b \<le> 1002 + 5"
proof -
  have w: "BucketWidth (DefaultConfig second) = 5"
    by (simp add: DefaultConfig_def DefaultBucketWidth_def Let_def)
  then have w0: "0 \<le> BucketWidth (DefaultConfig second)" by simp
  have c: "computeMajorityBaseline sample_obs 10 (DefaultConfig second) = Some 1002"
    by (simp add: computeMajorityBaseline_correct [OF w0] wins_majority_def w sample_vote_blocks
        support_def)
  have half: "length (vote_map (DefaultConfig second) 10 sample_obs)
      \<le> 2 * length (honest_votes (\<lambda>u. u \<noteq> ''c'') (DefaultConfig second) 10 sample_obs)"
    by (simp add: honest_votes_def sample_votes_simps)
  have honest: "\<forall>ob\<in>set sample_obs. ob_ok ob \<longrightarrow> 1000 \<le> Block ob \<and> Block ob \<le> 1002"
    if "\<forall>ob. ob_ok ob \<longrightarrow> URL ob \<noteq> ''c''" for ob_ok
    using that by (auto simp: sample_obs_def obs_at_def)
  show ?thesis
    using minority_cannot_move_baseline [OF w0 c half honest] c w by fastforce
qed

section \<open>The state invariant\<close>

inductive chain_step :: "chain_state \<Rightarrow> chain_state \<Rightarrow> bool" where
  observe: "chain_step cs (newState (SetLatestBlock cs now block))"
| recompute: "chain_step cs (fst (Recompute cs now snapshots))"
| warp: "chain_step cs (SetDebugClockOffset cs d)"
| reset: "chain_step cs (Reset cs)"

inductive chain_reachable :: "chain_state \<Rightarrow> bool" where
  start: "chain_reachable (NewWithClock cid c)"
| step: "chain_reachable cs \<Longrightarrow> chain_step cs cs' \<Longrightarrow> chain_reachable cs'"

definition wf_config :: "chain_config \<Rightarrow> bool" where
  "wf_config c \<longleftrightarrow> 0 < BucketWidth c \<and> 0 < OutlierThreshold c \<and> 0 < StalenessWindowCfg c \<and> 0 < TTL c"

definition chain_inv :: "chain_state \<Rightarrow> bool" where
  "chain_inv cs \<longleftrightarrow> wf_config (cfg cs) \<and> 0 \<le> latestBlock cs
     \<and> (initialized cs \<longleftrightarrow> 0 < latestBlock cs)
     \<and> (if hasBaseline cs
        then 0 < baseline cs \<and> latestBlock cs \<le> baseline cs + OutlierThreshold (cfg cs)
        else baseline cs = 0)"

lemma wrap64_le: "min_int64 \<le> x \<Longrightarrow> wrap64 x \<le> x"
proof -
  assume "min_int64 \<le> x"
  then have "(x + 9223372036854775808) mod 18446744073709551616 \<le> x + 9223372036854775808"
    by (intro zmod_le_nonneg_dividend) (simp add: min_int64_def)
  then show ?thesis by (simp add: wrap64_def)
qed

lemma add64_le: "0 \<le> a \<Longrightarrow> 0 \<le> b \<Longrightarrow> add64 a b \<le> a + b"
  unfolding add64_def by (rule wrap64_le) (simp add: min_int64_def)

lemma NewWithClock_inv: "chain_inv (NewWithClock cid c)"
  by (simp add: chain_inv_def NewWithClock_def wf_config_def Let_def DefaultBucketWidth_def
      DefaultOutlierThreshold_def minStalenessWindow_def second_def)

lemma SetLatestBlock_cfg [simp]: "cfg (newState (SetLatestBlock cs now block)) = cfg cs"
  by (simp add: SetLatestBlock_def set_unchanged_def Let_def)

lemma SetLatestBlock_inv:
  assumes "chain_inv cs" shows "chain_inv (newState (SetLatestBlock cs now block))"
proof -
  have "add64 (baseline cs) (OutlierThreshold (cfg cs)) \<le> baseline cs + OutlierThreshold (cfg cs)"
    if "hasBaseline cs"
    using that assms by (intro add64_le) (auto simp: chain_inv_def wf_config_def)
  with assms show ?thesis
    by (auto simp: SetLatestBlock_def set_unchanged_def chain_inv_def Let_def)
qed

lemma baseline_pos:
  "0 \<le> BucketWidth c \<Longrightarrow> computeMajorityBaseline obs now c = Some b \<Longrightarrow> 0 < b"
  by (auto simp: computeMajorityBaseline_correct wins_majority_def intro: vote_blocks_pos)

lemma Recompute_cfg [simp]: "cfg (fst (Recompute cs now obs)) = cfg cs"
  by (simp add: Recompute_def Let_def split: option.split)

lemma Recompute_band:
  assumes "chain_inv cs"
    and "computeMajorityBaseline obs (now + warpOffset cs) (cfg cs) = Some b"
  shows "b \<le> latestBlock (fst (Recompute cs now obs))"
    and "latestBlock (fst (Recompute cs now obs)) \<le> b + OutlierThreshold (cfg cs)"
    and "hasBaseline (fst (Recompute cs now obs))"
    and "baseline (fst (Recompute cs now obs)) = b"
    and "initialized (fst (Recompute cs now obs))"
proof -
  from assms have "0 < b" "0 < OutlierThreshold (cfg cs)"
    by (auto simp: chain_inv_def wf_config_def intro: baseline_pos less_imp_le)
  then have "add64 b (OutlierThreshold (cfg cs)) \<le> b + OutlierThreshold (cfg cs)"
    by (simp add: add64_le)
  with assms \<open>0 < b\<close> \<open>0 < OutlierThreshold (cfg cs)\<close>
  show "b \<le> latestBlock (fst (Recompute cs now obs))"
    and "latestBlock (fst (Recompute cs now obs)) \<le> b + OutlierThreshold (cfg cs)"
    and "hasBaseline (fst (Recompute cs now obs))"
    and "baseline (fst (Recompute cs now obs)) = b"
    and "initialized (fst (Recompute cs now obs))"
    by (auto simp: Recompute_def Let_def chain_inv_def)
qed

lemma Recompute_inv:
  assumes "chain_inv cs" shows "chain_inv (fst (Recompute cs now obs))"
proof (cases "computeMajorityBaseline obs (now + warpOffset cs) (cfg cs)")
  case None
  with assms show ?thesis by (simp add: Recompute_def chain_inv_def)
next
  case (Some b)
  have "0 < b" using Some assms by (auto simp: chain_inv_def wf_config_def intro: baseline_pos less_imp_le)
  with Recompute_band [OF assms Some] assms show ?thesis by (simp add: chain_inv_def)
qed

lemma chain_step_inv: "chain_step cs cs' \<Longrightarrow> chain_inv cs \<Longrightarrow> chain_inv cs'"
proof (induction rule: chain_step.induct)
  case (warp cs d)
  then show ?case by (simp add: SetDebugClockOffset_def chain_inv_def)
next
  case (reset cs)
  then show ?case by (simp add: Reset_def chain_inv_def)
qed (auto intro: SetLatestBlock_inv Recompute_inv)

lemma chain_reachable_inv: "chain_reachable cs \<Longrightarrow> chain_inv cs"
  by (induction rule: chain_reachable.induct) (auto intro: NewWithClock_inv chain_step_inv)

text \<open>
  In every state the operations can reach, in any order and with any clock and blocks: the tip is
  never negative, "initialized" means exactly that the tip is positive, and while a consensus
  baseline is held the tip leads it by at most \<open>OutlierThreshold\<close> (64-bit wrap-around included).
\<close>

theorem tip_within_band:
  assumes "chain_reachable cs"
  shows "0 \<le> latestBlock cs \<and> (initialized cs \<longleftrightarrow> 0 < latestBlock cs)
    \<and> (hasBaseline cs \<longrightarrow> 0 < baseline cs
        \<and> latestBlock cs \<le> baseline cs + OutlierThreshold (cfg cs))"
  using chain_reachable_inv [OF assms] by (auto simp: chain_inv_def)

theorem tip_within_band_witness:
  "0 \<le> latestBlock (newState (SetLatestBlock (NewWithClock ''ETH1'' (DefaultConfig second)) 5 77))"
  using tip_within_band [OF chain_reachable.step [OF chain_reachable.start chain_step.observe],
      of "''ETH1''" "DefaultConfig second" 5 77]
  by blast

text \<open>
  Edge correction: when a recompute finds a majority at block \<open>b\<close>, the tip afterwards lies in
  \<open>[b, b + OutlierThreshold]\<close>, and a tip already inside that band is left as it was.
\<close>

theorem Recompute_corrects_to_band:
  assumes "chain_reachable cs"
    and "computeMajorityBaseline obs (now + warpOffset cs) (cfg cs) = Some b"
    and "in_int64 (b + OutlierThreshold (cfg cs))"
  shows "b \<le> latestBlock (fst (Recompute cs now obs))
    \<and> latestBlock (fst (Recompute cs now obs)) \<le> b + OutlierThreshold (cfg cs)
    \<and> (b \<le> latestBlock cs \<and> latestBlock cs \<le> b + OutlierThreshold (cfg cs)
       \<longrightarrow> latestBlock (fst (Recompute cs now obs)) = latestBlock cs
         \<and> lastObservedAt (fst (Recompute cs now obs)) = lastObservedAt cs)"
  using Recompute_band(1,2) [OF chain_reachable_inv [OF assms(1)] assms(2)] assms(2,3)
  by (simp add: Recompute_def Let_def add64_id)

definition sample_chain :: chain_state where
  "sample_chain = NewWithClock ''ETH1'' (DefaultConfig second)"

lemma sample_chain_reachable: "chain_reachable sample_chain"
  unfolding sample_chain_def by (rule chain_reachable.start)

lemma sample_chain_cfg: "cfg sample_chain = DefaultConfig second" "warpOffset sample_chain = 0"
  by (simp_all add: sample_chain_def NewWithClock_def sample_votes_simps DefaultBucketWidth_def
      outlierThresholdForBlockTime_def OutlierTimeBudget_def outlierFloorBlocks_def
      outlierCeilBlocks_def add64_def)

lemma sample_threshold: "OutlierThreshold (DefaultConfig second) = 512"
  by (simp add: DefaultConfig_def outlierThresholdForBlockTime_def OutlierTimeBudget_def
      outlierFloorBlocks_def outlierCeilBlocks_def add64_def wrap64_def second_def Let_def)

lemma sample_majority: "computeMajorityBaseline sample_obs 10 (DefaultConfig second) = Some 1002"
proof -
  have w: "BucketWidth (DefaultConfig second) = 5"
    by (simp add: DefaultConfig_def DefaultBucketWidth_def Let_def)
  then have "0 \<le> BucketWidth (DefaultConfig second)" by simp
  from computeMajorityBaseline_correct [OF this] show ?thesis
    by (simp add: wins_majority_def w sample_vote_blocks support_def)
qed

theorem Recompute_corrects_to_band_witness:
  "1002 \<le> latestBlock (fst (Recompute sample_chain 10 sample_obs))
   \<and> latestBlock (fst (Recompute sample_chain 10 sample_obs)) \<le> 1002 + 512"
proof -
  have maj: "computeMajorityBaseline sample_obs (10 + warpOffset sample_chain) (cfg sample_chain)
      = Some 1002"
    by (simp add: sample_chain_cfg sample_majority)
  have "in_int64 (1002 + OutlierThreshold (cfg sample_chain))"
    by (simp add: sample_chain_cfg sample_threshold in_int64_def min_int64_def max_int64_def)
  from Recompute_corrects_to_band [OF sample_chain_reachable maj this] show ?thesis
    by (simp add: sample_chain_cfg sample_threshold)
qed

section \<open>The guarded write\<close>

lemma GetLatestBlock_Some: "GetLatestBlock cs now = Some t \<Longrightarrow> latestBlock cs = t \<and> 0 < t"
  by (auto simp: GetLatestBlock_def freshLatestLocked_def split: if_splits)

text \<open>
  The anti-lie guard: while the tip is fresh, an observation never lowers it, and whatever block
  is reported the new tip is at most \<open>OutlierThreshold\<close> above the consensus baseline, or above the
  tip itself when there is no baseline.
\<close>

theorem SetLatestBlock_guard:
  assumes "chain_reachable cs" and "GetLatestBlock cs now = Some t"
  shows "t \<le> latestBlock (newState (SetLatestBlock cs now block))
    \<and> latestBlock (newState (SetLatestBlock cs now block))
        \<le> (if hasBaseline cs then baseline cs else t) + OutlierThreshold (cfg cs)"
proof -
  from GetLatestBlock_Some [OF assms(2)] have t: "latestBlock cs = t" "0 < t" by simp_all
  note inv = chain_reachable_inv [OF assms(1)]
  then have thr: "0 < OutlierThreshold (cfg cs)" and init: "initialized cs"
    using t by (simp_all add: chain_inv_def wf_config_def)
  have fresh: "freshLatestLocked cs (now + warpOffset cs) \<noteq> None"
    using assms(2) by (simp add: GetLatestBlock_def effectiveNow_def)
  have "add64 t (OutlierThreshold (cfg cs)) \<le> t + OutlierThreshold (cfg cs)"
    using t thr by (simp add: add64_le)
  moreover have "add64 (baseline cs) (OutlierThreshold (cfg cs)) \<le> baseline cs + OutlierThreshold (cfg cs)"
    if "hasBaseline cs"
    using that inv by (intro add64_le) (auto simp: chain_inv_def wf_config_def)
  ultimately show ?thesis
    using inv t thr init fresh
    by (auto simp: SetLatestBlock_def set_unchanged_def Let_def chain_inv_def)
qed

definition sample_seen :: chain_state where
  "sample_seen = newState (SetLatestBlock sample_chain 5 77)"

lemma sample_seen_reachable: "chain_reachable sample_seen"
  unfolding sample_seen_def
  by (rule chain_reachable.step [OF sample_chain_reachable chain_step.observe])

lemma sample_seen_fields:
  "latestBlock sample_seen = 77" "lastObservedAt sample_seen = 5" "initialized sample_seen"
  "hasBaseline sample_seen = False" "warpOffset sample_seen = 0"
  "cfg sample_seen = DefaultConfig second"
  by (simp_all add: sample_seen_def SetLatestBlock_def Let_def sample_chain_cfg)
     (simp_all add: sample_chain_def NewWithClock_def Let_def)

lemma sample_TTL: "TTL (DefaultConfig second) = 10000000000" "TTL (DefaultConfig 1000000000) = 10000000000"
  by (simp_all add: sample_votes_simps)

theorem SetLatestBlock_guard_witness:
  "GetLatestBlock sample_seen 6 = Some 77
   \<and> latestBlock (newState (SetLatestBlock sample_seen 6 99999999)) \<le> 77 + 512"
proof -
  have fresh: "GetLatestBlock sample_seen 6 = Some 77"
    by (simp add: GetLatestBlock_def freshLatestLocked_def effectiveNow_def sample_seen_fields
        sample_TTL second_def time_sub_def min_int64_def max_int64_def)
  from SetLatestBlock_guard [OF sample_seen_reachable fresh, of 99999999] fresh show ?thesis
    by (simp add: sample_seen_fields sample_threshold)
qed

text \<open>
  Self-healing: once the tip has expired, the next plausible observation is adopted, downward as
  well as upward, and is readable as the fresh tip at once. So a poisoned or frozen tip lasts at most
  until the first honest observation after one TTL.
\<close>

theorem stale_tip_heals:
  assumes "chain_reachable cs" and "GetLatestBlock cs now = None" and "0 < block"
    and "hasBaseline cs \<longrightarrow> block \<le> add64 (baseline cs) (OutlierThreshold (cfg cs))"
    and "warpOffset cs \<le> TTL (cfg cs)"
  shows "GetLatestBlock (newState (SetLatestBlock cs now block)) now = Some block"
proof -
  note inv = chain_reachable_inv [OF assms(1)]
  from inv have ttl: "0 < TTL (cfg cs)" by (simp add: chain_inv_def wf_config_def)
  have stale: "freshLatestLocked cs (now + warpOffset cs) = None"
    using assms(2) by (simp add: GetLatestBlock_def effectiveNow_def)
  have sub: "\<not> TTL (cfg cs) < time_sub (now + warpOffset cs) now"
    using assms(5) ttl by (auto simp: time_sub_def min_int64_def)
  show ?thesis
    using assms(3,4) stale sub
    by (auto simp: SetLatestBlock_def set_unchanged_def Let_def GetLatestBlock_def effectiveNow_def
        freshLatestLocked_def)
qed

theorem stale_tip_heals_witness:
  "GetLatestBlock sample_seen (20 * second) = None
   \<and> GetLatestBlock (newState (SetLatestBlock sample_seen (20 * second) 40)) (20 * second) = Some 40"
proof -
  have stale: "GetLatestBlock sample_seen (20 * second) = None"
    by (simp add: GetLatestBlock_def freshLatestLocked_def effectiveNow_def sample_seen_fields
        sample_TTL second_def time_sub_def min_int64_def max_int64_def)
  have "warpOffset sample_seen \<le> TTL (cfg sample_seen)"
    by (simp add: sample_seen_fields sample_TTL second_def)
  from stale_tip_heals [OF sample_seen_reachable stale _ _ this, of 40] stale show ?thesis
    by (simp add: sample_seen_fields)
qed

text \<open>
  The regression hook tells the truth: with the hook installed, an observation or a recompute
  reports a regression exactly when it moves the tip down, and the report carries the tip before and
  after (for a recompute, as long as the baseline plus the threshold is a 64-bit number).
\<close>

theorem regression_reported_iff:
  assumes "chain_reachable cs" and "OnRegression (cfg cs)"
    and "\<forall>b. computeMajorityBaseline obs (now + warpOffset cs) (cfg cs) = Some b
      \<longrightarrow> in_int64 (b + OutlierThreshold (cfg cs))"
  shows "(reported (SetLatestBlock cs now block) =
      (if latestBlock (newState (SetLatestBlock cs now block)) < latestBlock cs
       then Some (latestBlock cs, latestBlock (newState (SetLatestBlock cs now block)),
                  RegressionReasonStaleTip)
       else None))
    \<and> (snd (Recompute cs now obs) =
      (if latestBlock (fst (Recompute cs now obs)) < latestBlock cs
       then Some (latestBlock cs, latestBlock (fst (Recompute cs now obs)),
                  RegressionReasonConsensus)
       else None))"
proof
  note inv = chain_reachable_inv [OF assms(1)]
  show "reported (SetLatestBlock cs now block) =
      (if latestBlock (newState (SetLatestBlock cs now block)) < latestBlock cs
       then Some (latestBlock cs, latestBlock (newState (SetLatestBlock cs now block)),
                  RegressionReasonStaleTip)
       else None)"
    using inv assms(2)
    by (auto simp: SetLatestBlock_def set_unchanged_def Let_def deferredRegression_def
        reportRegression_def chain_inv_def)
  show "snd (Recompute cs now obs) =
      (if latestBlock (fst (Recompute cs now obs)) < latestBlock cs
       then Some (latestBlock cs, latestBlock (fst (Recompute cs now obs)),
                  RegressionReasonConsensus)
       else None)"
  proof (cases "computeMajorityBaseline obs (now + warpOffset cs) (cfg cs)")
    case None
    then show ?thesis by (simp add: Recompute_def)
  next
    case (Some b)
    have "0 < b" using Some inv by (auto simp: chain_inv_def wf_config_def intro: baseline_pos less_imp_le)
    moreover from Some assms(3) have "in_int64 (b + OutlierThreshold (cfg cs))" by simp
    moreover from inv have "0 < OutlierThreshold (cfg cs)" by (simp add: chain_inv_def wf_config_def)
    ultimately show ?thesis using Some assms(2)
      by (simp add: Recompute_def Let_def deferredRegression_def reportRegression_def add64_id)
  qed
qed

theorem regression_reported_iff_witness:
  "reported (SetLatestBlock (NewWithClock ''ETH1'' ((DefaultConfig second)\<lparr>OnRegression := True\<rparr>)) 5 77)
     = None"
proof -
  let ?cs = "NewWithClock ''ETH1'' ((DefaultConfig second)\<lparr>OnRegression := True\<rparr>)"
  have hook: "OnRegression (cfg ?cs)" by (simp add: NewWithClock_def Let_def)
  have none: "\<forall>b. computeMajorityBaseline [] (5 + warpOffset ?cs) (cfg ?cs) = Some b
      \<longrightarrow> in_int64 (b + OutlierThreshold (cfg ?cs))"
    by (simp add: computeMajorityBaseline_def)
  have low: "latestBlock ?cs = 0" by (simp add: NewWithClock_def Let_def)
  have "0 \<le> latestBlock (newState (SetLatestBlock ?cs 5 77))"
    using chain_reachable_inv [OF chain_reachable.step [OF chain_reachable.start chain_step.observe]]
    by (simp add: chain_inv_def)
  with regression_reported_iff [OF chain_reachable.start hook none, of 77] low show ?thesis by simp
qed

end
