(* ===== verification/EndpointHealth.thy ===== *)
theory EndpointHealth
  imports ChainState "HOL-Library.List_Lexorder" "HOL-Library.Char_ord"
begin

text \<open>
  The health of one upstream url (\<open>src/protocol/lavasession/consumer_types.go\<close>, \<open>endpoint_state_reason.go\<close>,
  \<open>endpoint_disable_reason.go\<close>, \<open>common.go\<close>) and the probe loop that returns it to rotation
  (\<open>src/protocol/probing/contract.go\<close>, \<open>verdict.go\<close>, \<open>runProbeCycleCore\<close> in
  \<open>rpcsmartrouter/rpcsmartrouter_server.go\<close>, \<open>relayProbeRunner\<close> in \<open>recovery_probe.go\<close>).

  Failed relays take an endpoint out of rotation; a run of healthy polls, held back by one replay of
  the request that failed, brings it back on trial; a successful relay restores it fully. Each operation
  holds the endpoint's mutex for its whole effect and is one step; the step relation \<open>ep_step\<close> lets them come
  in any order. The provider-relay connections of the struct, which the router does not use, are left out. The refusal
  counter, a \<open>uint64\<close> raised by one per failure and compared with the limit, is an unbounded integer.
\<close>

section \<open>Endpoints\<close>

definition EndpointDisableUnreachable :: string where "EndpointDisableUnreachable = ''unreachable''"
definition EndpointDisableNodeError :: string where "EndpointDisableNodeError = ''node-error''"
definition EndpointDisableUnspecified :: string where "EndpointDisableUnspecified = ''unspecified''"
definition EndpointDisableHeadStalled :: string where "EndpointDisableHeadStalled = ''head-stalled''"

definition AllEndpointDisableReasons :: "string list" where
  "AllEndpointDisableReasons =
     [EndpointDisableUnreachable, EndpointDisableNodeError, EndpointDisableUnspecified, EndpointDisableHeadStalled]"

definition DefaultBenchAfter :: int where "DefaultBenchAfter = 50"
definition maxReenableProbeFlaps :: nat where "maxReenableProbeFlaps = 2"
definition probeReenableTrialBudget :: int where "probeReenableTrialBudget = 3"
definition maxRelayProbePayloadBytes :: nat where "maxRelayProbePayloadBytes = 8 * 1024"
definition maxRelayProbeAttempts :: int where "maxRelayProbeAttempts = 3"
definition endpointDisableWarningWindow :: int where "endpointDisableWarningWindow = 10"

text \<open>The value \<open>MaxConsecutiveConnectionAttempts\<close> has after the flag was applied.\<close>

definition SetBenchAfter :: "int \<Rightarrow> int" where
  "SetBenchAfter v = (if v = 0 then DefaultBenchAfter else v)"

datatype DirectRPCProtocol = ProtocolHTTP | ProtocolHTTPS | ProtocolWS | ProtocolWSS | ProtocolGRPC

record StateReasonRecord =
  sr_Reason :: string
  sr_Since :: time
  sr_Block :: int

text \<open>A nil direct connection is \<open>None\<close>; the sets of add-ons and extensions are lists.\<close>

record Endpoint =
  NetworkAddress :: string
  ep_Enabled :: bool
  DirectConnections :: "DirectRPCProtocol option list"
  ConnectionRefusals :: int
  consecutiveHealthyProbes :: int
  disabledAt :: time
  disableReason :: string
  lastRecoveryPoll :: time
  probeReenabled :: bool
  reenableProbeFlaps :: nat
  relayProbeMethod :: string
  relayProbePayload :: string
  relayProbeTimeout :: duration
  relayProbeAttempts :: int
  stateReasons :: "(string, StateReasonRecord) gomap"
  ep_Addons :: "string list"
  ep_Extensions :: "string list"
  StandaloneAddons :: bool
  InternalPath :: string

text \<open>A fresh endpoint as the session list is built: enabled, nothing recorded.\<close>

definition new_endpoint :: "string \<Rightarrow> DirectRPCProtocol option list \<Rightarrow> string list \<Rightarrow> string list \<Rightarrow> bool \<Rightarrow> string \<Rightarrow> Endpoint" where
  "new_endpoint url conns as exts standalone path =
     \<lparr>NetworkAddress = url, ep_Enabled = True, DirectConnections = conns, ConnectionRefusals = 0,
      consecutiveHealthyProbes = 0, disabledAt = zero_time, disableReason = '''', lastRecoveryPoll = zero_time,
      probeReenabled = False, reenableProbeFlaps = 0, relayProbeMethod = '''', relayProbePayload = '''',
      relayProbeTimeout = 0, relayProbeAttempts = 0, stateReasons = [], ep_Addons = as, ep_Extensions = exts,
      StandaloneAddons = standalone, InternalPath = path\<rparr>"

definition IsDirectRPC :: "Endpoint \<Rightarrow> bool" where
  "IsDirectRPC e \<longleftrightarrow> DirectConnections e \<noteq> []"

definition ServesDirectRelays :: "Endpoint \<Rightarrow> bool" where
  "ServesDirectRelays e =
     (case DirectConnections e of
        Some p # _ \<Rightarrow> p \<noteq> ProtocolWS \<and> p \<noteq> ProtocolWSS
      | _ \<Rightarrow> True)"

definition ServesInternalPath :: "string \<Rightarrow> Endpoint \<Rightarrow> bool" where
  "ServesInternalPath internalPath e \<longleftrightarrow> InternalPath e = internalPath"

definition ServesBaseCollection :: "bool \<Rightarrow> nat \<Rightarrow> bool" where
  "ServesBaseCollection standaloneAddons addonCount \<longleftrightarrow> \<not> standaloneAddons \<or> addonCount = 0"

definition ep_ServesBaseCollection :: "Endpoint \<Rightarrow> bool" where
  "ep_ServesBaseCollection e = ServesBaseCollection (StandaloneAddons e) (length (ep_Addons e))"

definition CheckSupportForServices :: "string \<Rightarrow> string list \<Rightarrow> Endpoint \<Rightarrow> bool" where
  "CheckSupportForServices addon extensions e \<longleftrightarrow>
     (if addon = '''' then ep_ServesBaseCollection e else addon \<in> set (ep_Addons e))
     \<and> list_all (\<lambda>x. x = '''' \<or> x \<in> set (ep_Extensions e)) extensions"

section \<open>State reasons\<close>

definition heldByStateLocked :: "Endpoint \<Rightarrow> bool" where
  "heldByStateLocked e \<longleftrightarrow> stateReasons e \<noteq> []"

definition IsUsable :: "Endpoint \<Rightarrow> bool" where
  "IsUsable e \<longleftrightarrow> ep_Enabled e \<and> \<not> heldByStateLocked e"

definition AddStateReason :: "string \<Rightarrow> time \<Rightarrow> int \<Rightarrow> Endpoint \<Rightarrow> bool \<times> Endpoint" where
  "AddStateReason reason now block e =
     (case mget (stateReasons e) reason of
        Some _ \<Rightarrow> (False, e)
      | None \<Rightarrow> (True, e\<lparr>stateReasons := mput reason \<lparr>sr_Reason = reason, sr_Since = now, sr_Block = block\<rparr> (stateReasons e)\<rparr>))"

definition RemoveStateReason :: "string \<Rightarrow> Endpoint \<Rightarrow> bool \<times> Endpoint" where
  "RemoveStateReason reason e =
     (case mget (stateReasons e) reason of
        None \<Rightarrow> (False, e)
      | Some _ \<Rightarrow> (True, e\<lparr>stateReasons := mdel reason (stateReasons e)\<rparr>))"

definition StateReason :: "string \<Rightarrow> Endpoint \<Rightarrow> StateReasonRecord option" where
  "StateReason reason e = mget (stateReasons e) reason"

definition ClearStateReasons :: "Endpoint \<Rightarrow> nat \<times> Endpoint" where
  "ClearStateReasons e = (length (stateReasons e), e\<lparr>stateReasons := []\<rparr>)"

section \<open>Out of rotation and back\<close>

definition clearRecoveryStreakLocked :: "Endpoint \<Rightarrow> Endpoint" where
  "clearRecoveryStreakLocked e = e\<lparr>consecutiveHealthyProbes := 0, lastRecoveryPoll := zero_time\<rparr>"

definition dropRelayProbeEvidenceLocked :: "Endpoint \<Rightarrow> Endpoint" where
  "dropRelayProbeEvidenceLocked e =
     e\<lparr>relayProbeMethod := '''', relayProbePayload := '''', relayProbeTimeout := 0, relayProbeAttempts := 0\<rparr>"

definition clearRecoveryTrackingLocked :: "Endpoint \<Rightarrow> Endpoint" where
  "clearRecoveryTrackingLocked e =
     dropRelayProbeEvidenceLocked ((clearRecoveryStreakLocked e)\<lparr>disabledAt := zero_time, disableReason := ''''\<rparr>)"

definition RecordFailingRelay :: "string \<Rightarrow> string \<Rightarrow> duration \<Rightarrow> Endpoint \<Rightarrow> Endpoint" where
  "RecordFailingRelay meth payload relayTimeout e =
     (if meth = '''' \<or> payload = '''' \<or> length payload > maxRelayProbePayloadBytes then e
      else e\<lparr>relayProbeMethod := meth, relayProbePayload := payload, relayProbeTimeout := relayTimeout,
             relayProbeAttempts := 0\<rparr>)"

text \<open>\<open>maxA\<close> is \<open>MaxConsecutiveConnectionAttempts\<close> throughout.\<close>

definition reenableFromProbeLocked :: "int \<Rightarrow> Endpoint \<Rightarrow> Endpoint" where
  "reenableFromProbeLocked maxA e =
     clearRecoveryTrackingLocked (e\<lparr>ep_Enabled := True,
       ConnectionRefusals := (if maxA > probeReenableTrialBudget then maxA - probeReenableTrialBudget else 0),
       probeReenabled := True\<rparr>)"

definition endpointApproachingDisable :: "int \<Rightarrow> bool \<Rightarrow> bool \<Rightarrow> int \<Rightarrow> bool" where
  "endpointApproachingDisable maxA wasEnabled transitioned refusals \<longleftrightarrow>
     wasEnabled \<and> \<not> transitioned \<and> refusals + endpointDisableWarningWindow \<ge> maxA"

definition disableLocked :: "time \<Rightarrow> string \<Rightarrow> Endpoint \<Rightarrow> Endpoint" where
  "disableLocked now reason e =
     clearRecoveryStreakLocked (e\<lparr>ep_Enabled := False, disabledAt := now,
       disableReason := (if reason = '''' then EndpointDisableUnspecified else reason)\<rparr>)"

definition markUnhealthyAt :: "int \<Rightarrow> time \<Rightarrow> string \<Rightarrow> Endpoint \<Rightarrow> Endpoint" where
  "markUnhealthyAt maxA now reason e =
     (let e1 = e\<lparr>ConnectionRefusals := ConnectionRefusals e + 1\<rparr> in
      if ConnectionRefusals e1 \<ge> maxA \<and> ep_Enabled e then
        let e2 = disableLocked now reason e1
        in e2\<lparr>reenableProbeFlaps := (if probeReenabled e2 \<and> reenableProbeFlaps e2 < maxReenableProbeFlaps
                                     then reenableProbeFlaps e2 + 1 else reenableProbeFlaps e2),
              probeReenabled := False\<rparr>
      else e1)"

text \<open>The shift wraps at 64 bits, as \<open>uint64\<close> does.\<close>

definition shl64 :: "int \<Rightarrow> nat \<Rightarrow> int" where
  "shl64 k n = (k * 2 ^ n) mod 18446744073709551616"

definition RecordProbeVerdict :: "int \<Rightarrow> time \<Rightarrow> bool \<Rightarrow> int \<Rightarrow> Endpoint \<Rightarrow> bool \<times> Endpoint" where
  "RecordProbeVerdict maxA recoveryPoll recoveryHealthy reEnableAfterK e =
     (let k = (if reEnableAfterK < 1 then 1 else reEnableAfterK) in
      if ep_Enabled e then (False, clearRecoveryStreakLocked e)
      else if \<not> (recoveryHealthy \<and> recoveryPoll \<noteq> zero_time \<and> recoveryPoll > disabledAt e) then
        (False, e\<lparr>consecutiveHealthyProbes := 0\<rparr>)
      else if \<not> recoveryPoll > lastRecoveryPoll e then (False, e)
      else
        let e1 = e\<lparr>lastRecoveryPoll := recoveryPoll, consecutiveHealthyProbes := consecutiveHealthyProbes e + 1\<rparr> in
        if consecutiveHealthyProbes e1 < shl64 k (reenableProbeFlaps e1) then (False, e1)
        else if relayProbePayload e1 \<noteq> '''' then (False, e1)
        else (True, reenableFromProbeLocked maxA e1))"

definition PendingRelayProbe :: "int \<Rightarrow> Endpoint \<Rightarrow> (string \<times> string \<times> duration) option" where
  "PendingRelayProbe reEnableAfterK e =
     (let k = (if reEnableAfterK < 1 then 1 else reEnableAfterK) in
      if ep_Enabled e \<or> relayProbePayload e = '''' then None
      else if consecutiveHealthyProbes e < shl64 k (reenableProbeFlaps e) then None
      else Some (relayProbeMethod e, relayProbePayload e, relayProbeTimeout e))"

definition ConfirmRelayRecovery :: "int \<Rightarrow> Endpoint \<Rightarrow> bool \<times> Endpoint" where
  "ConfirmRelayRecovery maxA e = (if ep_Enabled e then (False, e) else (True, reenableFromProbeLocked maxA e))"

definition advanceRelayProbeAttemptLocked :: "Endpoint \<Rightarrow> bool \<times> Endpoint" where
  "advanceRelayProbeAttemptLocked e =
     (if relayProbePayload e = '''' then (False, e)
      else
        let e1 = e\<lparr>relayProbeAttempts := relayProbeAttempts e + 1\<rparr>
        in if relayProbeAttempts e1 < maxRelayProbeAttempts then (False, e1)
           else (True, dropRelayProbeEvidenceLocked e1))"

definition RelayProbeFailed :: "Endpoint \<Rightarrow> Endpoint" where
  "RelayProbeFailed e =
     (if ep_Enabled e then e
      else snd (advanceRelayProbeAttemptLocked (e\<lparr>consecutiveHealthyProbes := 0,
             reenableProbeFlaps := (if reenableProbeFlaps e < maxReenableProbeFlaps
                                    then reenableProbeFlaps e + 1 else reenableProbeFlaps e)\<rparr>)))"

definition RelayProbeInconclusive :: "Endpoint \<Rightarrow> Endpoint" where
  "RelayProbeInconclusive e =
     (if ep_Enabled e then e else snd (advanceRelayProbeAttemptLocked (e\<lparr>consecutiveHealthyProbes := 0\<rparr>)))"

definition ResetHealth :: "Endpoint \<Rightarrow> bool \<times> Endpoint" where
  "ResetHealth e =
     (let e1 = e\<lparr>probeReenabled := False, reenableProbeFlaps := 0\<rparr> in
      if ConnectionRefusals e1 = 0 \<and> ep_Enabled e1 then (False, e1)
      else (True, clearRecoveryTrackingLocked (e1\<lparr>ConnectionRefusals := 0, ep_Enabled := True\<rparr>)))"

record EndpointHealthSnapshot =
  snap_Enabled :: bool
  snap_DisabledAt :: time
  snap_DisableReason :: string
  snap_ConsecutiveHealthyProbes :: int
  snap_LastRecoveryPoll :: time
  snap_RelayProbeMethod :: string
  snap_RelayProbeAttempts :: int
  snap_ReenableProbeFlaps :: nat
  snap_Usable :: bool
  snap_StateReasons :: "StateReasonRecord list"

definition HealthSnapshot :: "Endpoint \<Rightarrow> EndpointHealthSnapshot" where
  "HealthSnapshot e =
     \<lparr>snap_Enabled = ep_Enabled e, snap_DisabledAt = disabledAt e, snap_DisableReason = disableReason e,
      snap_ConsecutiveHealthyProbes = consecutiveHealthyProbes e, snap_LastRecoveryPoll = lastRecoveryPoll e,
      snap_RelayProbeMethod = relayProbeMethod e, snap_RelayProbeAttempts = relayProbeAttempts e,
      snap_ReenableProbeFlaps = reenableProbeFlaps e, snap_Usable = IsUsable e,
      snap_StateReasons = sort_key sr_Reason (map snd (stateReasons e))\<rparr>"

section \<open>Every order of events\<close>

datatype ep_event =
    RelayFailed time string
  | FailureRecorded string string duration
  | RelaySucceeded
  | Probed time bool int
  | ReplayRecovered
  | ReplayFailed
  | ReplayInconclusive
  | StateReasonAdded string time int
  | StateReasonRemoved string
  | StateReasonsCleared

fun ep_apply :: "int \<Rightarrow> ep_event \<Rightarrow> Endpoint \<Rightarrow> Endpoint" where
  "ep_apply maxA (RelayFailed now reason) e = markUnhealthyAt maxA now reason e"
| "ep_apply maxA (FailureRecorded meth payload timeout) e = RecordFailingRelay meth payload timeout e"
| "ep_apply maxA RelaySucceeded e = snd (ResetHealth e)"
| "ep_apply maxA (Probed poll healthy k) e = snd (RecordProbeVerdict maxA poll healthy k e)"
| "ep_apply maxA ReplayRecovered e = snd (ConfirmRelayRecovery maxA e)"
| "ep_apply maxA ReplayFailed e = RelayProbeFailed e"
| "ep_apply maxA ReplayInconclusive e = RelayProbeInconclusive e"
| "ep_apply maxA (StateReasonAdded reason now block) e = snd (AddStateReason reason now block e)"
| "ep_apply maxA (StateReasonRemoved reason) e = snd (RemoveStateReason reason e)"
| "ep_apply maxA StateReasonsCleared e = snd (ClearStateReasons e)"

inductive ep_reachable :: "int \<Rightarrow> Endpoint \<Rightarrow> bool" for maxA where
  fresh: "ep_reachable maxA (new_endpoint url conns as exts standalone path)"
| step: "ep_reachable maxA e \<Longrightarrow> ep_reachable maxA (ep_apply maxA ev e)"

lemmas endpoint_defs =
  markUnhealthyAt_def disableLocked_def RecordFailingRelay_def ResetHealth_def RecordProbeVerdict_def
  reenableFromProbeLocked_def clearRecoveryTrackingLocked_def clearRecoveryStreakLocked_def
  dropRelayProbeEvidenceLocked_def ConfirmRelayRecovery_def RelayProbeFailed_def RelayProbeInconclusive_def
  advanceRelayProbeAttemptLocked_def AddStateReason_def RemoveStateReason_def ClearStateReasons_def

lemmas endpoint_limits =
  maxReenableProbeFlaps_def probeReenableTrialBudget_def maxRelayProbePayloadBytes_def maxRelayProbeAttempts_def

text \<open>What always holds of an endpoint.\<close>

definition endpoint_ok :: "int \<Rightarrow> Endpoint \<Rightarrow> bool" where
  "endpoint_ok maxA e \<longleftrightarrow>
     (ep_Enabled e \<longrightarrow> disableReason e = '''' \<and> disabledAt e = zero_time \<and> lastRecoveryPoll e = zero_time
        \<and> consecutiveHealthyProbes e = 0 \<and> 0 \<le> ConnectionRefusals e \<and> ConnectionRefusals e < maxA)
     \<and> (\<not> ep_Enabled e \<longrightarrow> disableReason e \<noteq> '''' \<and> \<not> probeReenabled e \<and> maxA \<le> ConnectionRefusals e)
     \<and> 0 \<le> consecutiveHealthyProbes e
     \<and> reenableProbeFlaps e \<le> maxReenableProbeFlaps
     \<and> 0 \<le> relayProbeAttempts e \<and> relayProbeAttempts e < maxRelayProbeAttempts
     \<and> length (relayProbePayload e) \<le> maxRelayProbePayloadBytes
     \<and> (relayProbeMethod e = '''' \<longleftrightarrow> relayProbePayload e = '''')
     \<and> (relayProbePayload e = '''' \<longrightarrow> relayProbeAttempts e = 0)
     \<and> wf_map (stateReasons e)"

lemma endpoint_ok_apply:
  assumes "endpoint_ok maxA e" "1 \<le> maxA"
  shows "endpoint_ok maxA (ep_apply maxA ev e)"
  using assms
  by (cases ev) (auto simp: endpoint_ok_def endpoint_defs endpoint_limits EndpointDisableUnspecified_def Let_def split: option.splits if_splits)

lemma reachable_ok: "ep_reachable maxA e \<Longrightarrow> 1 \<le> maxA \<Longrightarrow> endpoint_ok maxA e"
  by (induction rule: ep_reachable.induct)
     (auto simp: endpoint_ok_apply, auto simp: endpoint_ok_def new_endpoint_def endpoint_limits)

text \<open>C29. In every order of events an endpoint is in one of two consistent conditions: enabled, with no
  disable recorded, no recovery streak and fewer failures than the limit; or disabled, with a reason and at least
  the limit of failures behind it and never on trial. The dampening, the replays charged to one piece of
  evidence and the size of that evidence stay within their caps, and an endpoint is offered for relays only while
  enabled and free of state reasons.\<close>

theorem endpoint_health_invariant:
  assumes "ep_reachable maxA e" "1 \<le> maxA"
  shows "endpoint_ok maxA e \<and> (IsUsable e \<longleftrightarrow> disableReason e = '''' \<and> stateReasons e = [])"
  using reachable_ok [OF assms] by (auto simp: endpoint_ok_def IsUsable_def heldByStateLocked_def)

definition sample_endpoint :: Endpoint where
  "sample_endpoint = new_endpoint ''u'' [Some ProtocolHTTPS] [] [] False ''''"

theorem endpoint_health_invariant_witness:
  "endpoint_ok 1 (markUnhealthyAt 1 7 EndpointDisableNodeError sample_endpoint)
   \<and> \<not> IsUsable (markUnhealthyAt 1 7 EndpointDisableNodeError sample_endpoint)"
proof -
  have "ep_reachable 1 (ep_apply 1 (RelayFailed 7 EndpointDisableNodeError) sample_endpoint)"
    unfolding sample_endpoint_def by (intro ep_reachable.intros)
  from endpoint_health_invariant [OF this] show ?thesis
    by (auto simp: IsUsable_def sample_endpoint_def new_endpoint_def endpoint_defs)
qed

section \<open>How many failures it takes\<close>

lemma refusals_after_failures:
  "ConnectionRefusals (fold (\<lambda>(t, r). markUnhealthyAt maxA t r) fs e) = ConnectionRefusals e + int (length fs)"
  by (induction fs arbitrary: e) (auto simp: endpoint_defs Let_def)

lemma failures_ok:
  "endpoint_ok maxA e \<Longrightarrow> 1 \<le> maxA \<Longrightarrow> endpoint_ok maxA (fold (\<lambda>(t, r). markUnhealthyAt maxA t r) fs e)"
proof (induction fs arbitrary: e)
  case (Cons f fs)
  then show ?case using endpoint_ok_apply [of maxA e "RelayFailed (fst f) (snd f)"] by (simp add: case_prod_beta)
qed simp

lemma enabled_after_failures:
  assumes "endpoint_ok maxA e" "1 \<le> maxA"
  shows "ep_Enabled (fold (\<lambda>(t, r). markUnhealthyAt maxA t r) fs e) \<longleftrightarrow> ConnectionRefusals e + int (length fs) < maxA"
  using failures_ok [OF assms, of fs] refusals_after_failures [of maxA fs e] by (auto simp: endpoint_ok_def)

lemma probe_reenables:
  assumes "RecordProbeVerdict maxA p h k e = (True, e')"
  shows "\<not> ep_Enabled e \<and> ConnectionRefusals e' = max 0 (maxA - 3) \<and> ep_Enabled e'"
  using assms by (auto simp: endpoint_defs endpoint_limits Let_def split: if_splits)

lemma confirm_reenables:
  assumes "ConfirmRelayRecovery maxA e = (True, e')"
  shows "\<not> ep_Enabled e \<and> ConnectionRefusals e' = max 0 (maxA - 3) \<and> ep_Enabled e'"
  using assms by (auto simp: endpoint_defs endpoint_limits Let_def split: if_splits)

text \<open>An endpoint the probe returns to rotation is on trial: the third failure in a row (or the
  \<open>maxA\<close>th, when the limit is lower) takes it out again, while one that served a relay has the full limit
  of failures before it goes.\<close>

theorem trial_budget:
  assumes "ep_reachable maxA e" "1 \<le> maxA" "RecordProbeVerdict maxA p h k e = (True, e') \<or> ConfirmRelayRecovery maxA e = (True, e')"
  shows "(ep_Enabled (fold (\<lambda>(t, r). markUnhealthyAt maxA t r) fs e') \<longleftrightarrow> int (length fs) < min 3 maxA)
    \<and> (ep_Enabled (fold (\<lambda>(t, r). markUnhealthyAt maxA t r) fs (snd (ResetHealth e'))) \<longleftrightarrow> int (length fs) < maxA)"
proof -
  have "e' = ep_apply maxA (Probed p h k) e \<or> e' = ep_apply maxA ReplayRecovered e" using assms(3) by auto
  then have r: "ep_reachable maxA e'" using ep_reachable.step [OF assms(1)] by blast
  note ok = reachable_ok [OF r assms(2)] and ok' = reachable_ok [OF ep_reachable.step [OF r, of RelaySucceeded] assms(2)]
  have "ConnectionRefusals e' = max 0 (maxA - 3)"
    using assms(3) probe_reenables [of maxA p h k e e'] confirm_reenables [of maxA e e'] by argo
  moreover have "ConnectionRefusals (snd (ResetHealth e')) = 0" by (simp add: endpoint_defs Let_def)
  ultimately show ?thesis
    using enabled_after_failures [OF ok assms(2), of fs] enabled_after_failures [OF ok' assms(2), of fs] assms(2) by auto
qed

definition sample_disabled :: Endpoint where
  "sample_disabled = markUnhealthyAt 1 7 EndpointDisableNodeError sample_endpoint"

lemma sample_disabled_reachable: "ep_reachable 1 sample_disabled"
  unfolding sample_disabled_def sample_endpoint_def
  using ep_reachable.step [OF ep_reachable.fresh, of 1 "RelayFailed 7 EndpointDisableNodeError"] by simp

theorem trial_budget_witness:
  "\<not> ep_Enabled (fold (\<lambda>(t, r). markUnhealthyAt 1 t r) [(9, EndpointDisableNodeError)] (snd (RecordProbeVerdict 1 8 True 1 sample_disabled)))"
proof -
  have "RecordProbeVerdict 1 8 True 1 sample_disabled = (True, snd (RecordProbeVerdict 1 8 True 1 sample_disabled))"
    by (simp add: sample_disabled_def sample_endpoint_def new_endpoint_def endpoint_defs shl64_def Let_def)
  from trial_budget [OF sample_disabled_reachable _ disjI1 [OF this], of "[(9, EndpointDisableNodeError)]"]
  show ?thesis by simp
qed

section \<open>What a probe needs to re-enable\<close>

fun stays_disabled :: "int \<Rightarrow> ep_event list \<Rightarrow> Endpoint \<Rightarrow> bool" where
  "stays_disabled maxA [] e \<longleftrightarrow> \<not> ep_Enabled e"
| "stays_disabled maxA (ev # evs) e \<longleftrightarrow> \<not> ep_Enabled e \<and> stays_disabled maxA evs (ep_apply maxA ev e)"

abbreviation ep_run :: "int \<Rightarrow> ep_event list \<Rightarrow> Endpoint \<Rightarrow> Endpoint" where
  "ep_run maxA evs e \<equiv> fold (ep_apply maxA) evs e"

text \<open>The successful polls after an instant that the probe reported.\<close>

definition healthy_polls :: "time \<Rightarrow> ep_event list \<Rightarrow> time set" where
  "healthy_polls t evs = {p. t < p \<and> (\<exists>k. Probed p True k \<in> set evs)}"

lemma healthy_polls_Cons: "healthy_polls t evs \<subseteq> healthy_polls t (ev # evs)"
  by (auto simp: healthy_polls_def)

lemma finite_healthy_polls [simp]: "finite (healthy_polls t evs)"
  by (rule finite_subset [of _ "(\<lambda>ev. case ev of Probed p h k \<Rightarrow> p | _ \<Rightarrow> 0) ` set evs"])
     (force simp: healthy_polls_def image_iff)+

text \<open>The streak is backed by distinct polls, all up to the newest one counted.\<close>

definition streak_backed :: "time set \<Rightarrow> Endpoint \<Rightarrow> bool" where
  "streak_backed S e \<longleftrightarrow> finite S \<and> consecutiveHealthyProbes e \<le> int (card S) \<and> (\<forall>p\<in>S. p \<le> lastRecoveryPoll e)"

lemma streak_step:
  assumes "\<not> ep_Enabled e" "\<not> ep_Enabled (ep_apply maxA ev e)" "streak_backed S e"
  shows "disabledAt (ep_apply maxA ev e) = disabledAt e
    \<and> (\<exists>S'. streak_backed S' (ep_apply maxA ev e) \<and> S' \<subseteq> S \<union> healthy_polls (disabledAt e) [ev])"
proof (cases "\<exists>p k. ev = Probed p True k \<and> p > disabledAt e \<and> p > lastRecoveryPoll e")
  case True
  then obtain p k where ev: "ev = Probed p True k" "p > disabledAt e" "p > lastRecoveryPoll e" by blast
  have "p \<notin> S" using assms(3) ev(3) by (auto simp: streak_backed_def)
  then have "streak_backed (insert p S) (ep_apply maxA ev e) \<or> streak_backed S (ep_apply maxA ev e)"
    using assms ev by (auto simp: streak_backed_def endpoint_defs Let_def split: if_splits)
  moreover have "disabledAt (ep_apply maxA ev e) = disabledAt e"
    using assms ev by (auto simp: endpoint_defs Let_def split: if_splits)
  ultimately show ?thesis using ev by (auto simp: healthy_polls_def)
next
  case False
  then have "streak_backed S (ep_apply maxA ev e) \<and> disabledAt (ep_apply maxA ev e) = disabledAt e"
    using assms by (cases ev) (auto simp: streak_backed_def endpoint_defs Let_def split: if_splits option.splits)
  then show ?thesis by blast
qed

lemma streak_run:
  assumes "stays_disabled maxA evs e" "streak_backed S e"
  shows "disabledAt (ep_run maxA evs e) = disabledAt e
    \<and> (\<exists>S'. streak_backed S' (ep_run maxA evs e) \<and> S' \<subseteq> S \<union> healthy_polls (disabledAt e) evs)"
  using assms
proof (induction evs arbitrary: e S)
  case (Cons ev evs)
  have dis: "\<not> ep_Enabled e" "stays_disabled maxA evs (ep_apply maxA ev e)" using Cons.prems(1) by simp_all
  moreover have "\<not> ep_Enabled (ep_apply maxA ev e)" using dis(2) by (cases evs) simp_all
  ultimately obtain S1 where S1: "streak_backed S1 (ep_apply maxA ev e)"
    "S1 \<subseteq> S \<union> healthy_polls (disabledAt e) [ev]" "disabledAt (ep_apply maxA ev e) = disabledAt e"
    using streak_step [OF _ _ Cons.prems(2)] by blast
  moreover have "healthy_polls t [ev] \<union> healthy_polls t evs \<subseteq> healthy_polls t (ev # evs)" for t
    by (auto simp: healthy_polls_def)
  ultimately show ?case using Cons.IH [OF dis(2) S1(1)] by fastforce
qed auto

lemma stays_disabled_end: "stays_disabled maxA evs e \<Longrightarrow> \<not> ep_Enabled (ep_run maxA evs e)"
  by (induction evs arbitrary: e) auto

lemma reenable_polls_counted:
  assumes "ep_Enabled e0" "e = markUnhealthyAt maxA t reason e0" "stays_disabled maxA evs e"
    and "RecordProbeVerdict maxA p h k (ep_run maxA evs e) = (True, e')"
  shows "shl64 (max 1 k) (reenableProbeFlaps (ep_run maxA evs e)) \<le> int (card (healthy_polls t (evs @ [Probed p h k])))
    \<and> relayProbePayload (ep_run maxA evs e) = ''''"
proof -
  let ?e = "ep_run maxA evs e"
  have "\<not> ep_Enabled e" using assms(3) by (cases evs) simp_all
  then have e: "disabledAt e = t" "streak_backed {} e"
    using assms(1,2) by (auto simp: streak_backed_def endpoint_defs Let_def split: if_splits)
  obtain S where S: "streak_backed S ?e" "S \<subseteq> healthy_polls t evs" and t: "disabledAt ?e = t"
    using streak_run [OF assms(3) e(2)] e(1) by auto
  have p: "h" "t < p" "lastRecoveryPoll ?e < p" "relayProbePayload ?e = ''''"
    "shl64 (max 1 k) (reenableProbeFlaps ?e) \<le> consecutiveHealthyProbes ?e + 1"
    using assms(4) t by (auto simp: RecordProbeVerdict_def Let_def max_def split: if_splits)
  have "p \<notin> S" using S(1) p(3) by (auto simp: streak_backed_def)
  then have "consecutiveHealthyProbes ?e + 1 \<le> int (card (insert p S))" using S(1) by (simp add: streak_backed_def)
  also have "\<dots> \<le> int (card (healthy_polls t (evs @ [Probed p h k])))"
    using S(2) p(1,2) unfolding of_nat_le_iff by (intro card_mono [OF finite_healthy_polls]) (auto simp: healthy_polls_def)
  finally show ?thesis using p(4,5) by simp
qed

text \<open>No endpoint returns to rotation on old or single evidence. When the probe re-enables an endpoint,
  it has reported, since the failure that disabled it and all of them later than that failure, as many distinct
  successful polls as the configured streak, doubled for every recent relapse; and no request that failed is
  still waiting to be replayed.\<close>

theorem reenable_needs_fresh_polls:
  assumes "ep_Enabled e0" "e = markUnhealthyAt maxA t reason e0" "stays_disabled maxA evs e"
    and "RecordProbeVerdict maxA p h k (ep_run maxA evs e) = (True, e')"
  shows "shl64 (max 1 k) (reenableProbeFlaps (ep_run maxA evs e)) \<le> int (card (healthy_polls t (evs @ [Probed p h k])))
    \<and> relayProbePayload (ep_run maxA evs e) = ''''"
  using assms by (rule reenable_polls_counted)

theorem reenable_needs_fresh_polls_witness:
  "1 \<le> int (card (healthy_polls 7 [Probed 8 True 1]))"
proof -
  have "RecordProbeVerdict 1 8 True 1 (ep_run 1 [] sample_disabled) = (True, snd (RecordProbeVerdict 1 8 True 1 sample_disabled))"
    "stays_disabled 1 [] sample_disabled" "ep_Enabled sample_endpoint"
    by (simp_all add: sample_disabled_def sample_endpoint_def new_endpoint_def endpoint_defs shl64_def Let_def)
  from reenable_needs_fresh_polls [OF this(3) sample_disabled_def this(2,1)] show ?thesis
    by (simp add: sample_disabled_def sample_endpoint_def new_endpoint_def endpoint_defs shl64_def Let_def)
qed

section \<open>One probe cycle\<close>

datatype relayProbeVerdict = relayProbeRecovered | relayProbeStillFailing | relayProbeInconclusive

text \<open>What a finished replay does to the endpoint; the flag is whether it was re-enabled.\<close>

definition apply_replay :: "int \<Rightarrow> relayProbeVerdict \<Rightarrow> Endpoint \<Rightarrow> bool \<times> Endpoint" where
  "apply_replay maxA verdict e =
     (case verdict of
        relayProbeRecovered \<Rightarrow> ConfirmRelayRecovery maxA e
      | relayProbeStillFailing \<Rightarrow> (False, RelayProbeFailed e)
      | relayProbeInconclusive \<Rightarrow> (False, RelayProbeInconclusive e))"

text \<open>One cycle of the probe loop for one endpoint, the replay finishing before the next cycle.\<close>

definition probe_endpoint :: "int \<Rightarrow> int \<Rightarrow> time \<Rightarrow> bool \<Rightarrow> relayProbeVerdict \<Rightarrow> Endpoint \<Rightarrow> bool \<times> Endpoint" where
  "probe_endpoint maxA k poll healthy replay e =
     (case RecordProbeVerdict maxA poll healthy k e of
        (True, e1) \<Rightarrow> (True, e1)
      | (False, e1) \<Rightarrow> (case PendingRelayProbe k e1 of None \<Rightarrow> (False, e1) | Some _ \<Rightarrow> apply_replay maxA replay e1))"

text \<open>How many healthy cycles a disabled endpoint can still be kept out, at the most.\<close>

definition recovery_budget :: "int \<Rightarrow> Endpoint \<Rightarrow> int" where
  "recovery_budget k e =
     (if relayProbePayload e = '''' then 0 else (maxRelayProbeAttempts - relayProbeAttempts e) * (4 * k + 1))
     + max 0 (4 * k - consecutiveHealthyProbes e)"

lemma shl64_small:
  assumes "0 \<le> k" "k < 1152921504606846976" "f \<le> 2"
  shows "shl64 k f = k * 2 ^ f \<and> shl64 k f \<le> 4 * k"
proof -
  have "f = 0 \<or> f = 1 \<or> f = 2" using assms(3) by linarith
  with assms(1,2) show ?thesis by (auto simp: shl64_def)
qed

lemma healthy_cycle_progress:
  fixes replay
  assumes "endpoint_ok maxA e" "\<not> ep_Enabled e" "1 \<le> k" "k < 1152921504606846976"
    and "poll \<noteq> 0" "poll > disabledAt e" "poll > lastRecoveryPoll e"
  defines "e' \<equiv> snd (probe_endpoint maxA k poll True replay e)"
  shows "ep_Enabled e' \<or> recovery_budget k e' < recovery_budget k e \<and> disabledAt e' = disabledAt e \<and> lastRecoveryPoll e' = poll"
proof -
  let ?c = "consecutiveHealthyProbes e + 1" and ?K = "shl64 k (reenableProbeFlaps e)"
  have K: "?K \<le> 4 * k" and c: "0 \<le> consecutiveHealthyProbes e" and a: "relayProbeAttempts e < 3"
    using shl64_small [of k "reenableProbeFlaps e"] assms(1,3,4) by (auto simp: endpoint_ok_def endpoint_limits)
  let ?e1 = "e\<lparr>lastRecoveryPoll := poll, consecutiveHealthyProbes := ?c\<rparr>"
  consider "?c < ?K" | "?K \<le> ?c" "relayProbePayload e = ''''" | "?K \<le> ?c" "relayProbePayload e \<noteq> ''''" by linarith
  then show ?thesis
  proof cases
    case 1
    then have "e' = ?e1" using assms(2-7) by (simp add: e'_def probe_endpoint_def RecordProbeVerdict_def PendingRelayProbe_def)
    with 1 K show ?thesis by (simp add: recovery_budget_def)
  next
    case 2
    then show ?thesis using assms(2-7) by (simp add: e'_def probe_endpoint_def endpoint_defs Let_def)
  next
    case 3
    then have e': "e' = snd (apply_replay maxA replay ?e1)"
      using assms(2-7) by (simp add: e'_def probe_endpoint_def RecordProbeVerdict_def PendingRelayProbe_def)
    have "(3 - (relayProbeAttempts e + 1)) * (4 * k + 1) = (3 - relayProbeAttempts e) * (4 * k + 1) - (4 * k + 1)"
      by (simp add: algebra_simps)
    moreover have "4 * k + 1 \<le> (3 - relayProbeAttempts e) * (4 * k + 1)"
      using mult_right_mono [of 1 "3 - relayProbeAttempts e" "4 * k + 1"] a assms(3) by simp
    ultimately show ?thesis using 3 assms(2,3) c
      by (cases replay) (auto simp: e' apply_replay_def recovery_budget_def endpoint_defs endpoint_limits Let_def)
  qed
qed

text \<open>A run of cycles with ever newer successful polls.\<close>

fun probe_cycles :: "int \<Rightarrow> int \<Rightarrow> (time \<times> relayProbeVerdict) list \<Rightarrow> Endpoint \<Rightarrow> Endpoint list" where
  "probe_cycles maxA k [] e = [e]"
| "probe_cycles maxA k ((poll, replay) # cs) e = e # probe_cycles maxA k cs (snd (probe_endpoint maxA k poll True replay e))"

lemma probe_endpoint_events:
  "\<exists>evs. snd (probe_endpoint maxA k poll healthy replay e) = ep_run maxA evs e"
proof -
  let ?p = "Probed poll healthy k"
  have *: "ep_run maxA [?p] e = snd (RecordProbeVerdict maxA poll healthy k e)" by simp
  show ?thesis
  proof (cases "fst (RecordProbeVerdict maxA poll healthy k e) \<or> PendingRelayProbe k (snd (RecordProbeVerdict maxA poll healthy k e)) = None")
    case True
    then have "snd (probe_endpoint maxA k poll healthy replay e) = ep_run maxA [?p] e"
      by (auto simp: probe_endpoint_def split: prod.split bool.split)
    then show ?thesis by blast
  next
    case False
    then have "snd (probe_endpoint maxA k poll healthy replay e) = snd (apply_replay maxA replay (ep_run maxA [?p] e))"
      by (auto simp: probe_endpoint_def split: prod.split bool.split)
    also have "\<dots> = ep_run maxA [?p, case replay of relayProbeRecovered \<Rightarrow> ReplayRecovered
        | relayProbeStillFailing \<Rightarrow> ReplayFailed | relayProbeInconclusive \<Rightarrow> ReplayInconclusive] e"
      by (cases replay) (simp_all add: apply_replay_def)
    finally show ?thesis by blast
  qed
qed

lemma ep_run_ok: "endpoint_ok maxA e \<Longrightarrow> 1 \<le> maxA \<Longrightarrow> endpoint_ok maxA (ep_run maxA evs e)"
  by (induction evs arbitrary: e) (auto simp: endpoint_ok_apply)

lemma cycles_recover:
  assumes "endpoint_ok maxA e" "1 \<le> maxA" "1 \<le> k" "k < 1152921504606846976" "\<not> ep_Enabled e"
    and "sorted_wrt (<) (map fst cs)" "\<forall>p\<in>fst ` set cs. p \<noteq> 0 \<and> disabledAt e < p \<and> lastRecoveryPoll e < p"
    and "recovery_budget k e < int (length cs)"
  shows "\<exists>e'\<in>set (probe_cycles maxA k cs e). ep_Enabled e'"
  using assms
proof (induction cs arbitrary: e)
  case Nil
  have "0 \<le> recovery_budget k e" using Nil.prems(1,3) by (auto simp: recovery_budget_def endpoint_ok_def endpoint_limits)
  then show ?case using Nil.prems(8) by simp
next
  case (Cons c cs)
  obtain poll replay where c: "c = (poll, replay)" by fastforce
  let ?e = "snd (probe_endpoint maxA k poll True replay e)"
  show ?case
  proof (cases "ep_Enabled ?e")
    case True
    then show ?thesis using c by (cases cs) auto
  next
    case False
    have "endpoint_ok maxA ?e" using probe_endpoint_events ep_run_ok [OF Cons.prems(1,2)] by metis
    moreover have "recovery_budget k ?e < recovery_budget k e \<and> disabledAt ?e = disabledAt e \<and> lastRecoveryPoll ?e = poll"
      using healthy_cycle_progress [OF Cons.prems(1,5,3,4), of poll replay] Cons.prems(7) c False by auto
    ultimately have "\<exists>e'\<in>set (probe_cycles maxA k cs ?e). ep_Enabled e'"
      using Cons.prems c False by (intro Cons.IH) auto
    then show ?thesis using c by simp
  qed
qed

text \<open>C28. No endpoint is parked for ever. Whatever happened before, and whatever the replays of its failed request
  say, an endpoint whose polls succeed is back in rotation after at most \<open>16 k + 4\<close> probe cycles with a
  fresh poll, \<open>k\<close> being the configured streak.\<close>

theorem recovery_is_bounded:
  assumes "ep_reachable maxA e" "1 \<le> maxA" "1 \<le> k" "k < 1152921504606846976" "\<not> ep_Enabled e"
    and "sorted_wrt (<) (map fst cs)" "\<forall>p\<in>fst ` set cs. p \<noteq> 0 \<and> disabledAt e < p \<and> lastRecoveryPoll e < p"
    and "16 * k + 4 \<le> int (length cs)"
  shows "\<exists>e'\<in>set (probe_cycles maxA k cs e). ep_Enabled e'"
proof -
  note ok = reachable_ok [OF assms(1,2)]
  then have "(3 - relayProbeAttempts e) * (4 * k + 1) \<le> 3 * (4 * k + 1)"
    using assms(3) by (intro mult_right_mono) (auto simp: endpoint_ok_def)
  then have "recovery_budget k e < 16 * k + 4"
    using ok assms(3) by (auto simp: recovery_budget_def endpoint_ok_def endpoint_limits)
  with assms(8) show ?thesis by (intro cycles_recover [OF ok assms(2-7)]) linarith
qed

theorem recovery_is_bounded_witness:
  "\<exists>e'\<in>set (probe_cycles 1 1 (map (\<lambda>i. (int i + 8, relayProbeStillFailing)) [0..<20])
      (RecordFailingRelay ''eth_call'' ''x'' 5 sample_disabled)). ep_Enabled e'"
proof -
  let ?e = "RecordFailingRelay ''eth_call'' ''x'' 5 sample_disabled"
  have "ep_reachable 1 ?e" using ep_reachable.step [OF sample_disabled_reachable, of "FailureRecorded ''eth_call'' ''x'' 5"] by simp
  moreover have "\<not> ep_Enabled ?e" "disabledAt ?e = 7" "lastRecoveryPoll ?e = 0"
    by (simp_all add: sample_disabled_def sample_endpoint_def new_endpoint_def endpoint_defs endpoint_limits Let_def)
  ultimately show ?thesis by (intro recovery_is_bounded) (auto simp: sorted_wrt_iff_nth_less)
qed

end
