(* ===== verification/UsedProviders.thy ===== *)
theory UsedProviders
  imports Prelude "HOL-Library.FSet" "HOL-Library.List_Lexorder" "HOL-Library.Char_ord"
begin

text \<open>
  Which providers a request has used and must not ask again: \<open>lavasession/used_providers.go\<close>,
  \<open>lavasession/router_key.go\<close> and \<open>common/eligibility.go\<close>. A \<open>map[string]struct{}\<close> is a finite set,
  the map of router keys an association list. Every method holds the lock for its whole body, so it is
  one step; the methods are those of a non-nil receiver. The answers of the error classifier on the
  error a method is given (\<open>IsUnsupportedMethodError\<close>, and the gRPC status code that
  \<open>IsSessionSyncLoss\<close> reads) are arguments.
\<close>

section \<open>Router keys\<close>

definition RouterKeySeparator :: string where "RouterKeySeparator = ''|''"
definition methodRouteSep :: string where "methodRouteSep = ''method-route:''"
definition internalPathSep :: string where "internalPathSep = ''internal-path:''"

record RouterKey =
  methodsRouteUniqueKey :: int
  uniqueExtensions :: "string list"
  internalPath :: string

definition SetExtensions :: "RouterKey \<Rightarrow> string list \<Rightarrow> RouterKey" where
  "SetExtensions rk extensions =
     rk\<lparr>uniqueExtensions := sort (remdups (if extensions = [] then [''''] else extensions))\<rparr>"

definition NewRouterKey :: "string list \<Rightarrow> RouterKey" where
  "NewRouterKey extensions =
     SetExtensions \<lparr>methodsRouteUniqueKey = 0, uniqueExtensions = [], internalPath = ''''\<rparr> extensions"

definition GetEmptyRouterKey :: RouterKey where "GetEmptyRouterKey = NewRouterKey []"

definition ApplyMethodsRoute :: "RouterKey \<Rightarrow> int \<Rightarrow> RouterKey" where
  "ApplyMethodsRoute rk routeNum = rk\<lparr>methodsRouteUniqueKey := routeNum\<rparr>"

definition ApplyInternalPath :: "RouterKey \<Rightarrow> string \<Rightarrow> RouterKey" where
  "ApplyInternalPath rk path = rk\<lparr>internalPath := path\<rparr>"

definition HasExtension :: "RouterKey \<Rightarrow> string \<Rightarrow> bool" where
  "HasExtension rk extension \<longleftrightarrow> extension \<in> set (uniqueExtensions rk)"

definition rk_String :: "RouterKey \<Rightarrow> string" where
  "rk_String rk =
    (let retStr = uniqueExtensions rk;
         retStr = (if retStr = [] then [''''] else retStr);
         retStr = (if methodsRouteUniqueKey rk \<noteq> 0
                   then retStr @ [methodRouteSep @ format_int (methodsRouteUniqueKey rk)] else retStr);
         retStr = (if internalPath rk \<noteq> '''' then retStr @ [internalPathSep @ internalPath rk] else retStr)
     in RouterKeySeparator @ strings_join RouterKeySeparator retStr @ RouterKeySeparator)"

section \<open>Eligibility\<close>

datatype EligibilityAction = EligibilityMarkUnwanted | EligibilityAllowRetry

definition DecideEligibility :: "bool \<Rightarrow> bool \<Rightarrow> bool \<Rightarrow> EligibilityAction" where
  "DecideEligibility isUnsupportedMethod isSyncLoss isFirstSyncLoss =
    (if isUnsupportedMethod then EligibilityMarkUnwanted
     else if isSyncLoss \<and> isFirstSyncLoss then EligibilityAllowRetry
     else EligibilityMarkUnwanted)"

definition SessionOutOfSyncError :: string where
  "SessionOutOfSyncError = ''Session went out of sync with the provider''"

definition SessionOutOfSyncGRPCCode :: int where "SessionOutOfSyncGRPCCode = 677"

definition IsSessionSyncLoss :: "int \<Rightarrow> go_error \<Rightarrow> bool" where
  "IsSessionSyncLoss statusCode err \<longleftrightarrow>
     statusCode = SessionOutOfSyncGRPCCode \<or> errors_is err SessionOutOfSyncError"

section \<open>The used providers of a request\<close>

record UniqueUsedProviders =
  providers :: "string fset"
  unwantedProviders :: "string fset"
  erroredProviders :: "string fset"
  blockOnSyncLoss :: "string fset"

record Dispatch =
  Provider :: string
  Batch :: int
  At :: time
  StaleFallback :: bool

record ConsistencySkip =
  skip_Provider :: string
  Lag :: int
  Threshold :: int
  skip_Batch :: int

record UsedProviders =
  uniqueUsedProviders :: "(string, UniqueUsedProviders) gomap"
  originalUnwantedProviders :: "string fset"
  selecting :: bool
  sessionsLatestBatch :: int
  dispatched :: "Dispatch list"
  batchNumber :: int
  consistencySkips :: "ConsistencySkip list"
  chainID :: string
  lastChanceTaken :: bool
  routerHealthCheck :: bool

text \<open>A session is known by its router key; an entry of a session map can be nil, or hold no session.\<close>

record SessionInfo =
  Session :: "RouterKey option"

type_synonym ConsumerSessionsMap = "(string, SessionInfo option) gomap"

definition newSeededUniqueUsedProviders :: "string fset \<Rightarrow> UniqueUsedProviders" where
  "newSeededUniqueUsedProviders original =
     \<lparr>providers = {||}, unwantedProviders = original, erroredProviders = {||}, blockOnSyncLoss = {||}\<rparr>"

definition NewUsedProviders :: "string list option \<Rightarrow> UsedProviders" where
  "NewUsedProviders blockedProviders =
    (let original = (case blockedProviders of None \<Rightarrow> {||} | Some ps \<Rightarrow> fset_of_list ps)
     in \<lparr>uniqueUsedProviders = [(rk_String GetEmptyRouterKey, newSeededUniqueUsedProviders original)],
         originalUnwantedProviders = original, selecting = False, sessionsLatestBatch = 0,
         dispatched = [], batchNumber = 0, consistencySkips = [], chainID = '''',
         lastChanceTaken = False, routerHealthCheck = False\<rparr>)"

definition SetChainID :: "string \<Rightarrow> UsedProviders \<Rightarrow> UsedProviders" where
  "SetChainID chain up = up\<lparr>chainID := chain\<rparr>"

definition TakeLastChance :: "UsedProviders \<Rightarrow> bool \<times> UsedProviders" where
  "TakeLastChance up = (if lastChanceTaken up then (False, up) else (True, up\<lparr>lastChanceTaken := True\<rparr>))"

definition MarkRouterHealthCheck :: "UsedProviders \<Rightarrow> UsedProviders" where
  "MarkRouterHealthCheck up = up\<lparr>routerHealthCheck := True\<rparr>"

definition IsRouterHealthCheck :: "UsedProviders \<Rightarrow> bool" where
  "IsRouterHealthCheck up = routerHealthCheck up"

definition CurrentlyUsed :: "UsedProviders \<Rightarrow> nat" where
  "CurrentlyUsed up = sum_list (map (\<lambda>kv. fcard (providers (snd kv))) (uniqueUsedProviders up))"

definition SessionsDispatched :: "UsedProviders \<Rightarrow> nat" where
  "SessionsDispatched up = length (dispatched up)"

definition DispatchedProviders :: "UsedProviders \<Rightarrow> string list" where
  "DispatchedProviders up = map Provider (dispatched up)"

definition RecordConsistencySkip :: "string \<Rightarrow> int \<Rightarrow> int \<Rightarrow> UsedProviders \<Rightarrow> UsedProviders" where
  "RecordConsistencySkip provider lag threshold up =
     up\<lparr>consistencySkips := consistencySkips up @
       [\<lparr>skip_Provider = provider, Lag = lag, Threshold = threshold, skip_Batch = max (batchNumber up - 1) 0\<rparr>]\<rparr>"

definition MarkStaleFallback :: "string \<Rightarrow> UsedProviders \<Rightarrow> UsedProviders" where
  "MarkStaleFallback provider up =
    (case find_last_index (\<lambda>d. Provider d = provider) (dispatched up) of
       None \<Rightarrow> up
     | Some i \<Rightarrow> up\<lparr>dispatched := (dispatched up)[i := (dispatched up ! i)\<lparr>StaleFallback := True\<rparr>]\<rparr>)"

definition CurrentlyUsedAddresses :: "UsedProviders \<Rightarrow> string fset" where
  "CurrentlyUsedAddresses up = ffUnion (fset_of_list (map (\<lambda>kv. providers (snd kv)) (uniqueUsedProviders up)))"

definition AllUnwantedAddresses :: "UsedProviders \<Rightarrow> string fset" where
  "AllUnwantedAddresses up =
     ffUnion (fset_of_list (map (\<lambda>kv. unwantedProviders (snd kv)) (uniqueUsedProviders up)))"

definition createOrUseUniqueUsedProvidersForKey ::
    "RouterKey \<Rightarrow> UsedProviders \<Rightarrow> UniqueUsedProviders \<times> UsedProviders" where
  "createOrUseUniqueUsedProvidersForKey key up =
    (case mget (uniqueUsedProviders up) (rk_String key) of
       Some uup \<Rightarrow> (uup, up)
     | None \<Rightarrow>
        let uup = newSeededUniqueUsedProviders (originalUnwantedProviders up)
        in (uup, up\<lparr>uniqueUsedProviders := mput (rk_String key) uup (uniqueUsedProviders up)\<rparr>))"

text \<open>The write through the pointer \<open>createOrUseUniqueUsedProvidersForKey\<close> returned.\<close>

definition put_unique :: "RouterKey \<Rightarrow> UniqueUsedProviders \<Rightarrow> UsedProviders \<Rightarrow> UsedProviders" where
  "put_unique key uup up = up\<lparr>uniqueUsedProviders := mput (rk_String key) uup (uniqueUsedProviders up)\<rparr>"

definition setUnwanted :: "string \<Rightarrow> UniqueUsedProviders \<Rightarrow> UniqueUsedProviders" where
  "setUnwanted provider uup = uup\<lparr>unwantedProviders := finsert provider (unwantedProviders uup)\<rparr>"

definition AddUnwantedAddresses :: "string \<Rightarrow> RouterKey \<Rightarrow> UsedProviders \<Rightarrow> UsedProviders" where
  "AddUnwantedAddresses address routerKey up =
    (case createOrUseUniqueUsedProvidersForKey routerKey up of (uup, up) \<Rightarrow>
       put_unique routerKey (uup\<lparr>unwantedProviders := finsert address (unwantedProviders uup)\<rparr>) up)"

text \<open>The backward loop that deletes the last dispatch of the provider.\<close>

definition delete_last :: "string \<Rightarrow> Dispatch list \<Rightarrow> Dispatch list" where
  "delete_last provider ds =
    (case find_last_index (\<lambda>d. Provider d = provider) ds of
       None \<Rightarrow> ds | Some i \<Rightarrow> take i ds @ drop (Suc i) ds)"

definition ReleaseFromLatestBatch ::
    "string \<Rightarrow> RouterKey \<Rightarrow> go_error option \<Rightarrow> UsedProviders \<Rightarrow> UsedProviders" where
  "ReleaseFromLatestBatch provider routerKey err up =
    (case createOrUseUniqueUsedProvidersForKey routerKey up of (uup, up) \<Rightarrow>
       if provider |\<notin>| providers uup then up
       else
         let uup = uup\<lparr>providers := providers uup |-| {|provider|}\<rparr>;
             uup = setUnwanted provider uup;
             uup = (if err \<noteq> None then uup\<lparr>erroredProviders := finsert provider (erroredProviders uup)\<rparr> else uup);
             up = put_unique routerKey uup up;
             up = (if sessionsLatestBatch up > 0
                   then up\<lparr>sessionsLatestBatch := sessionsLatestBatch up - 1\<rparr> else up)
         in up\<lparr>dispatched := delete_last provider (dispatched up)\<rparr>)"

definition session_key :: "SessionInfo \<Rightarrow> RouterKey" where
  "session_key info = (case Session info of Some key \<Rightarrow> key | None \<Rightarrow> NewRouterKey [])"

fun ReleaseSessionsFromLatestBatch ::
    "ConsumerSessionsMap \<Rightarrow> go_error option \<Rightarrow> UsedProviders \<Rightarrow> UsedProviders" where
  "ReleaseSessionsFromLatestBatch [] err up = up"
| "ReleaseSessionsFromLatestBatch ((provider, None) # sessions) err up =
     ReleaseSessionsFromLatestBatch sessions err up"
| "ReleaseSessionsFromLatestBatch ((provider, Some info) # sessions) err up =
     ReleaseSessionsFromLatestBatch sessions err (ReleaseFromLatestBatch provider (session_key info) err up)"

text \<open>
  \<open>unsupported\<close> is the classifier's answer on the error for the request's chain, \<open>statusCode\<close> the gRPC
  status of the error.
\<close>

definition RemoveUsed ::
    "(string \<Rightarrow> go_error \<Rightarrow> bool) \<Rightarrow> (go_error \<Rightarrow> int) \<Rightarrow> string \<Rightarrow> RouterKey \<Rightarrow> go_error option
      \<Rightarrow> UsedProviders \<Rightarrow> UsedProviders" where
  "RemoveUsed unsupported statusCode provider routerKey err up =
    (case createOrUseUniqueUsedProvidersForKey routerKey up of (uup, up) \<Rightarrow>
       let uup = (if err \<noteq> None then uup\<lparr>erroredProviders := finsert provider (erroredProviders uup)\<rparr> else uup);
           alreadyBlocked = (provider |\<in>| blockOnSyncLoss uup);
           isUnsupportedMethod = (case err of None \<Rightarrow> False | Some e \<Rightarrow> unsupported (chainID up) e);
           isSyncLoss = (case err of None \<Rightarrow> False | Some e \<Rightarrow> IsSessionSyncLoss (statusCode e) e);
           isFirstSyncLoss = (isSyncLoss \<and> \<not> alreadyBlocked);
           uup = (if DecideEligibility isUnsupportedMethod isSyncLoss isFirstSyncLoss = EligibilityAllowRetry
                  then uup\<lparr>blockOnSyncLoss := finsert provider (blockOnSyncLoss uup)\<rparr>
                  else setUnwanted provider uup);
           uup = uup\<lparr>providers := providers uup |-| {|provider|}\<rparr>
       in put_unique routerKey uup up)"

definition on_every_key :: "(UniqueUsedProviders \<Rightarrow> UniqueUsedProviders) \<Rightarrow> UsedProviders \<Rightarrow> UsedProviders" where
  "on_every_key f up = up\<lparr>uniqueUsedProviders := map (\<lambda>kv. (fst kv, f (snd kv))) (uniqueUsedProviders up)\<rparr>"

definition ClearUnwanted :: "UsedProviders \<Rightarrow> UsedProviders" where
  "ClearUnwanted = on_every_key (\<lambda>uup. uup\<lparr>unwantedProviders := {||}\<rparr>)"

definition RemoveUnwantedAddresses :: "string list \<Rightarrow> UsedProviders \<Rightarrow> UsedProviders" where
  "RemoveUnwantedAddresses addresses up =
    (if addresses = [] then up
     else on_every_key (\<lambda>uup. uup\<lparr>unwantedProviders := unwantedProviders uup |-| fset_of_list addresses\<rparr>) up)"

text \<open>The loop of \<open>AddUsed\<close> and its body; a nil entry of the session map is a nil dereference (\<open>None\<close>).\<close>

definition add_used_one :: "time \<Rightarrow> string \<Rightarrow> SessionInfo \<Rightarrow> UsedProviders \<Rightarrow> UsedProviders" where
  "add_used_one takenAt provider info up =
    (case createOrUseUniqueUsedProvidersForKey (session_key info) up of (uup, up) \<Rightarrow>
       let up = put_unique (session_key info) (uup\<lparr>providers := finsert provider (providers uup)\<rparr>) up
       in up\<lparr>sessionsLatestBatch := sessionsLatestBatch up + 1,
             dispatched := dispatched up @
               [\<lparr>Provider = provider, Batch = batchNumber up, At = takenAt, StaleFallback = False\<rparr>]\<rparr>)"

fun add_used_loop :: "time \<Rightarrow> ConsumerSessionsMap \<Rightarrow> UsedProviders \<Rightarrow> UsedProviders option" where
  "add_used_loop takenAt [] up = Some up"
| "add_used_loop takenAt ((provider, None) # sessions) up = None"
| "add_used_loop takenAt ((provider, Some info) # sessions) up =
     add_used_loop takenAt sessions (add_used_one takenAt provider info up)"

definition AddUsed ::
    "time \<Rightarrow> ConsumerSessionsMap \<Rightarrow> go_error option \<Rightarrow> UsedProviders \<Rightarrow> UsedProviders option" where
  "AddUsed takenAt sessions err up =
    (if sessions \<noteq> [] \<and> err = None
     then map_option (\<lambda>up. up\<lparr>batchNumber := batchNumber up + 1, selecting := False\<rparr>)
            (add_used_loop takenAt sessions (up\<lparr>sessionsLatestBatch := 0\<rparr>))
     else Some (up\<lparr>selecting := False\<rparr>))"

definition tryLockSelection :: "UsedProviders \<Rightarrow> bool \<times> UsedProviders" where
  "tryLockSelection up = (if \<not> selecting up then (True, up\<lparr>selecting := True\<rparr>) else (False, up))"

definition GetErroredProviders :: "RouterKey \<Rightarrow> UsedProviders \<Rightarrow> string fset \<times> UsedProviders" where
  "GetErroredProviders routerKey up =
    (case createOrUseUniqueUsedProvidersForKey routerKey up of (uup, up) \<Rightarrow> (erroredProviders uup, up))"

definition GetUnwantedProvidersToSend :: "RouterKey \<Rightarrow> UsedProviders \<Rightarrow> string fset \<times> UsedProviders" where
  "GetUnwantedProvidersToSend routerKey up =
    (case createOrUseUniqueUsedProvidersForKey routerKey up of (uup, up) \<Rightarrow>
       (providers uup |\<union>| unwantedProviders uup, up))"

definition MigrateUnwantedProviders :: "RouterKey \<Rightarrow> RouterKey \<Rightarrow> UsedProviders \<Rightarrow> UsedProviders" where
  "MigrateUnwantedProviders src dst up =
    (if rk_String src = rk_String dst then up
     else case createOrUseUniqueUsedProvidersForKey src up of (srcProviders, up) \<Rightarrow>
          case createOrUseUniqueUsedProvidersForKey dst up of (dstProviders, up) \<Rightarrow>
            put_unique dst (dstProviders\<lparr>unwantedProviders :=
              unwantedProviders dstProviders |\<union>| providers srcProviders |\<union>| unwantedProviders srcProviders\<rparr>) up)"

section \<open>The view of one router key\<close>

text \<open>What a router key owns, created or not: an absent key stands for the seeded one.\<close>

definition uup_at :: "UsedProviders \<Rightarrow> string \<Rightarrow> UniqueUsedProviders" where
  "uup_at up s = (case mget (uniqueUsedProviders up) s of
     Some uup \<Rightarrow> uup | None \<Rightarrow> newSeededUniqueUsedProviders (originalUnwantedProviders up))"

definition excluded_at :: "UsedProviders \<Rightarrow> string \<Rightarrow> string fset" where
  "excluded_at up s = providers (uup_at up s) |\<union>| unwantedProviders (uup_at up s)"

lemma create_view:
  obtains up' where "createOrUseUniqueUsedProvidersForKey key up = (uup_at up (rk_String key), up')"
    "uup_at up' = uup_at up"
    "\<And>uup. put_unique key uup up' = put_unique key uup up"
    "originalUnwantedProviders up' = originalUnwantedProviders up" "chainID up' = chainID up"
    "sessionsLatestBatch up' = sessionsLatestBatch up" "dispatched up' = dispatched up"
    "batchNumber up' = batchNumber up" "selecting up' = selecting up"
    "wf_map (uniqueUsedProviders up) \<Longrightarrow> wf_map (uniqueUsedProviders up')"
  by (cases "mget (uniqueUsedProviders up) (rk_String key)")
     (force simp: createOrUseUniqueUsedProvidersForKey_def put_unique_def uup_at_def Let_def update_last
        split: option.split)+

lemma put_unique_at [simp]:
  "uup_at (put_unique key uup up) = (uup_at up)(rk_String key := uup)"
  by (auto simp: put_unique_def uup_at_def fun_eq_iff split: option.split)

lemma uup_at_other_fields [simp]:
  "uup_at (up\<lparr>sessionsLatestBatch := n\<rparr>) = uup_at up" "uup_at (up\<lparr>dispatched := ds\<rparr>) = uup_at up"
  "uup_at (up\<lparr>selecting := b\<rparr>) = uup_at up" "uup_at (up\<lparr>batchNumber := n\<rparr>) = uup_at up"
  by (simp_all add: uup_at_def fun_eq_iff split: option.split)

lemma put_unique_fields [simp]:
  "originalUnwantedProviders (put_unique key uup up) = originalUnwantedProviders up"
  "sessionsLatestBatch (put_unique key uup up) = sessionsLatestBatch up"
  "dispatched (put_unique key uup up) = dispatched up"
  "batchNumber (put_unique key uup up) = batchNumber up"
  by (simp_all add: put_unique_def)

lemma ToSend_excluded: "fst (GetUnwantedProvidersToSend key up) = excluded_at up (rk_String key)"
  by (rule create_view [of key up]) (simp add: GetUnwantedProvidersToSend_def excluded_at_def)

lemma add_unwanted_at:
  "uup_at (AddUnwantedAddresses a key up) = (uup_at up)(rk_String key := setUnwanted a (uup_at up (rk_String key)))"
  by (rule create_view [of key up]) (simp add: AddUnwantedAddresses_def setUnwanted_def)

lemma release_at:
  "uup_at (ReleaseFromLatestBatch p key err up) =
    (let s = rk_String key; uup = uup_at up s in
     if p |\<notin>| providers uup then uup_at up
     else (uup_at up)(s := uup\<lparr>providers := providers uup |-| {|p|},
        unwantedProviders := finsert p (unwantedProviders uup),
        erroredProviders := (if err \<noteq> None then finsert p (erroredProviders uup) else erroredProviders uup)\<rparr>))"
  by (rule create_view [of key up])
     (simp add: ReleaseFromLatestBatch_def Let_def setUnwanted_def)

definition sync_retry :: "(string \<Rightarrow> go_error \<Rightarrow> bool) \<Rightarrow> (go_error \<Rightarrow> int) \<Rightarrow> string \<Rightarrow> string \<Rightarrow> go_error option
    \<Rightarrow> UsedProviders \<Rightarrow> bool" where
  "sync_retry unsupported statusCode p s err up \<longleftrightarrow> p |\<notin>| blockOnSyncLoss (uup_at up s) \<and>
     (\<exists>e. err = Some e \<and> \<not> unsupported (chainID up) e \<and> IsSessionSyncLoss (statusCode e) e)"

lemma remove_at:
  "uup_at (RemoveUsed unsupported statusCode p key err up) =
    (let s = rk_String key; uup = uup_at up s in
     (uup_at up)(s := uup\<lparr>providers := providers uup |-| {|p|},
        unwantedProviders := (if sync_retry unsupported statusCode p s err up
          then unwantedProviders uup else finsert p (unwantedProviders uup)),
        erroredProviders := (if err \<noteq> None then finsert p (erroredProviders uup) else erroredProviders uup),
        blockOnSyncLoss := (if sync_retry unsupported statusCode p s err up
          then finsert p (blockOnSyncLoss uup) else blockOnSyncLoss uup)\<rparr>))"
  by (rule create_view [of key up], cases err)
     (auto simp: RemoveUsed_def Let_def setUnwanted_def sync_retry_def DecideEligibility_def)

lemma migrate_at:
  "uup_at (MigrateUnwantedProviders src dst up) =
    (if rk_String src = rk_String dst then uup_at up
     else (uup_at up)(rk_String dst := (uup_at up (rk_String dst))\<lparr>unwantedProviders :=
       unwantedProviders (uup_at up (rk_String dst)) |\<union>| excluded_at up (rk_String src)\<rparr>))"
proof -
  obtain up1 where 1: "createOrUseUniqueUsedProvidersForKey src up = (uup_at up (rk_String src), up1)"
    "uup_at up1 = uup_at up" by (rule create_view [of src up])
  obtain up2 where 2: "createOrUseUniqueUsedProvidersForKey dst up1 = (uup_at up1 (rk_String dst), up2)"
    "uup_at up2 = uup_at up1" by (rule create_view [of dst up1])
  from 1 2 show ?thesis by (simp add: MigrateUnwantedProviders_def excluded_at_def sup.assoc)
qed

text \<open>The batch a session map registers under a router key.\<close>

definition batch_at :: "ConsumerSessionsMap \<Rightarrow> string \<Rightarrow> string fset" where
  "batch_at sessions s = fset_of_list (map fst
     (filter (\<lambda>kv. \<exists>info. snd kv = Some info \<and> rk_String (session_key info) = s) sessions))"

lemma batch_at_simps [simp]:
  "batch_at [] s = {||}"
  "batch_at ((p, None) # ss) s = batch_at ss s"
  "batch_at ((p, Some info) # ss) s =
     (if rk_String (session_key info) = s then finsert p (batch_at ss s) else batch_at ss s)"
  by (simp_all add: batch_at_def)

lemma add_used_one_view:
  "uup_at (add_used_one t p info up) =
     (\<lambda>s. (uup_at up s)\<lparr>providers := providers (uup_at up s) |\<union>| batch_at [(p, Some info)] s\<rparr>)"
  "sessionsLatestBatch (add_used_one t p info up) = sessionsLatestBatch up + 1"
  "dispatched (add_used_one t p info up) = dispatched up @
     [\<lparr>Provider = p, Batch = batchNumber up, At = t, StaleFallback = False\<rparr>]"
  "batchNumber (add_used_one t p info up) = batchNumber up"
  "originalUnwantedProviders (add_used_one t p info up) = originalUnwantedProviders up"
  by (rule create_view [of "session_key info" up]; auto simp: add_used_one_def Let_def fun_eq_iff)+

lemma add_used_loop_view:
  "add_used_loop t ss up = Some up' \<Longrightarrow>
     uup_at up' = (\<lambda>s. (uup_at up s)\<lparr>providers := providers (uup_at up s) |\<union>| batch_at ss s\<rparr>)
     \<and> sessionsLatestBatch up' = sessionsLatestBatch up + int (length ss)
     \<and> dispatched up' = dispatched up @
         map (\<lambda>kv. \<lparr>Provider = fst kv, Batch = batchNumber up, At = t, StaleFallback = False\<rparr>) ss
     \<and> batchNumber up' = batchNumber up \<and> originalUnwantedProviders up' = originalUnwantedProviders up"
  by (induction t ss up rule: add_used_loop.induct)
     (auto simp: add_used_one_view fun_eq_iff funion_assoc)

lemma AddUsed_view:
  assumes "AddUsed t ss err up = Some up'"
  shows "uup_at up' = (\<lambda>s. (uup_at up s)\<lparr>providers := providers (uup_at up s)
           |\<union>| (if err = None then batch_at ss s else {||})\<rparr>)"
    and "originalUnwantedProviders up' = originalUnwantedProviders up"
    and "\<not> selecting up'"
    and "err = None \<Longrightarrow> ss \<noteq> [] \<Longrightarrow> sessionsLatestBatch up' = int (length ss)
       \<and> batchNumber up' = batchNumber up + 1
       \<and> dispatched up' = dispatched up @
           map (\<lambda>kv. \<lparr>Provider = fst kv, Batch = batchNumber up, At = t, StaleFallback = False\<rparr>) ss"
  using assms add_used_loop_view [of t ss "up\<lparr>sessionsLatestBatch := 0\<rparr>"]
  by (auto simp: AddUsed_def split: if_splits)

section \<open>Runs of a request\<close>

text \<open>
  Every operation that only adds exclusions, in any order and under any router key; \<open>up_any\<close> also has
  the two operations that lift exclusions.
\<close>

inductive up_op ::
    "(string \<Rightarrow> go_error \<Rightarrow> bool) \<Rightarrow> (go_error \<Rightarrow> int) \<Rightarrow> UsedProviders \<Rightarrow> UsedProviders \<Rightarrow> bool"
  for unsupported statusCode where
  add_unwanted: "up_op unsupported statusCode up (AddUnwantedAddresses a key up)"
| release: "up_op unsupported statusCode up (ReleaseFromLatestBatch p key err up)"
| remove: "up_op unsupported statusCode up (RemoveUsed unsupported statusCode p key err up)"
| add_used: "AddUsed t ss err up = Some up' \<Longrightarrow> up_op unsupported statusCode up up'"
| migrate: "up_op unsupported statusCode up (MigrateUnwantedProviders src dst up)"
| create: "up_op unsupported statusCode up (snd (GetUnwantedProvidersToSend key up))"

inductive up_any ::
    "(string \<Rightarrow> go_error \<Rightarrow> bool) \<Rightarrow> (go_error \<Rightarrow> int) \<Rightarrow> UsedProviders \<Rightarrow> UsedProviders \<Rightarrow> bool"
  for unsupported statusCode where
  op: "up_op unsupported statusCode up up' \<Longrightarrow> up_any unsupported statusCode up up'"
| clear: "up_any unsupported statusCode up (ClearUnwanted up)"
| remove_unwanted: "up_any unsupported statusCode up (RemoveUnwantedAddresses as up)"

lemma migrate_original:
  "originalUnwantedProviders (MigrateUnwantedProviders src dst up) = originalUnwantedProviders up"
proof -
  obtain up1 where 1: "createOrUseUniqueUsedProvidersForKey src up = (uup_at up (rk_String src), up1)"
    "originalUnwantedProviders up1 = originalUnwantedProviders up" by (rule create_view [of src up])
  obtain up2 where 2: "createOrUseUniqueUsedProvidersForKey dst up1 = (uup_at up1 (rk_String dst), up2)"
    "originalUnwantedProviders up2 = originalUnwantedProviders up1" by (rule create_view [of dst up1])
  from 1 2 show ?thesis by (simp add: MigrateUnwantedProviders_def)
qed

lemma release_original:
  "originalUnwantedProviders (ReleaseFromLatestBatch p key err up) = originalUnwantedProviders up"
  by (rule create_view [of key up]) (simp add: ReleaseFromLatestBatch_def Let_def)

lemma remove_original:
  "originalUnwantedProviders (RemoveUsed unsupported statusCode p key err up) = originalUnwantedProviders up"
  by (rule create_view [of key up]) (simp add: RemoveUsed_def Let_def)

lemma add_unwanted_original:
  "originalUnwantedProviders (AddUnwantedAddresses a key up) = originalUnwantedProviders up"
  by (rule create_view [of key up]) (simp add: AddUnwantedAddresses_def)

lemma ToSend_view:
  "uup_at (snd (GetUnwantedProvidersToSend key up)) = uup_at up"
  "originalUnwantedProviders (snd (GetUnwantedProvidersToSend key up)) = originalUnwantedProviders up"
  by (rule create_view [of key up]; simp add: GetUnwantedProvidersToSend_def)+

lemmas up_original = migrate_original release_original remove_original add_unwanted_original ToSend_view(2)

lemma up_op_original: "up_op un sc up up' \<Longrightarrow> originalUnwantedProviders up' = originalUnwantedProviders up"
  by (induction rule: up_op.induct) (simp_all add: up_original AddUsed_view(2))

lemma up_any_original: "up_any un sc up up' \<Longrightarrow> originalUnwantedProviders up' = originalUnwantedProviders up"
  by (induction rule: up_any.induct)
     (simp_all add: up_op_original ClearUnwanted_def RemoveUnwantedAddresses_def on_every_key_def)

lemma up_op_unwanted:
  "up_op un sc up up' \<Longrightarrow> unwantedProviders (uup_at up s) |\<subseteq>| unwantedProviders (uup_at up' s)"
  by (induction rule: up_op.induct)
     (auto simp: add_unwanted_at release_at remove_at migrate_at ToSend_view(1) AddUsed_view(1)
        setUnwanted_def Let_def)

lemma up_op_sync_loss:
  "up_op un sc up up' \<Longrightarrow> blockOnSyncLoss (uup_at up s) |\<subseteq>| blockOnSyncLoss (uup_at up' s)"
  by (induction rule: up_op.induct)
     (auto simp: add_unwanted_at release_at remove_at migrate_at ToSend_view(1) AddUsed_view(1)
        setUnwanted_def Let_def)

lemma up_op_excluded:
  "up_op un sc up up' \<Longrightarrow> p |\<in>| excluded_at up s \<Longrightarrow>
     p |\<in>| excluded_at up' s
     \<or> (p |\<notin>| blockOnSyncLoss (uup_at up s) \<and> p |\<in>| blockOnSyncLoss (uup_at up' s))"
  by (induction rule: up_op.induct)
     (auto simp: excluded_at_def add_unwanted_at release_at remove_at migrate_at ToSend_view(1)
        AddUsed_view(1) setUnwanted_def sync_retry_def Let_def split: if_splits)

lemma new_original: "originalUnwantedProviders (NewUsedProviders b)
    = (case b of None \<Rightarrow> {||} | Some ps \<Rightarrow> fset_of_list ps)"
  by (simp add: NewUsedProviders_def Let_def)

lemma new_uup_at: "uup_at (NewUsedProviders b) s
    = newSeededUniqueUsedProviders (originalUnwantedProviders (NewUsedProviders b))"
  by (simp add: NewUsedProviders_def uup_at_def Let_def)

text \<open>
  The user's blocklist: no operation of a request ever changes it, whatever is excluded under
  any router key, and until exclusions are lifted on purpose every blocked provider is left out of
  the selection under every router key, keys created later included.
\<close>

theorem user_blocklist_isolated:
  assumes "(up_any unsupported statusCode)\<^sup>*\<^sup>* (NewUsedProviders (Some blocked)) up"
  shows "originalUnwantedProviders up = fset_of_list blocked
    \<and> ((up_op unsupported statusCode)\<^sup>*\<^sup>* (NewUsedProviders (Some blocked)) up \<longrightarrow>
        fset_of_list blocked |\<subseteq>| fst (GetUnwantedProvidersToSend key up))"
proof
  have new: "originalUnwantedProviders (NewUsedProviders (Some blocked)) = fset_of_list blocked"
    by (simp add: new_original)
  show "originalUnwantedProviders up = fset_of_list blocked"
    using assms by (induction rule: rtranclp_induct) (simp_all add: new up_any_original)
  show "(up_op unsupported statusCode)\<^sup>*\<^sup>* (NewUsedProviders (Some blocked)) up \<longrightarrow>
        fset_of_list blocked |\<subseteq>| fst (GetUnwantedProvidersToSend key up)"
  proof
    assume "(up_op unsupported statusCode)\<^sup>*\<^sup>* (NewUsedProviders (Some blocked)) up"
    then have "fset_of_list blocked |\<subseteq>| unwantedProviders (uup_at up (rk_String key))"
    proof (induction rule: rtranclp_induct)
      case base
      show ?case by (simp add: new_uup_at new newSeededUniqueUsedProviders_def)
    next
      case (step y z)
      from step.IH up_op_unwanted [OF step.hyps(2), of "rk_String key"] show ?case by (rule order_trans)
    qed
    then show "fset_of_list blocked |\<subseteq>| fst (GetUnwantedProvidersToSend key up)"
      by (auto simp: ToSend_excluded excluded_at_def)
  qed
qed

theorem user_blocklist_isolated_witness:
  "''bad'' |\<in>| fst (GetUnwantedProvidersToSend (NewRouterKey [''archive''])
     (AddUnwantedAddresses ''p1'' GetEmptyRouterKey (NewUsedProviders (Some [''bad'']))))"
proof -
  let ?up = "AddUnwantedAddresses ''p1'' GetEmptyRouterKey (NewUsedProviders (Some [''bad'']))"
  have step: "up_op (\<lambda>_ _. False) (\<lambda>_. 0) (NewUsedProviders (Some [''bad''])) ?up" by (rule add_unwanted)
  from user_blocklist_isolated [OF r_into_rtranclp, OF op, OF step, of "NewRouterKey [''archive'']"]
    r_into_rtranclp [of "up_op (\<lambda>_ _. False) (\<lambda>_. 0)", OF step]
  show ?thesis by auto
qed

text \<open>
  At most one second chance: a provider a request has used or ruled out under a router key stays
  out of every later selection under that key, with one exception, its first loss of session sync; after
  that one it never comes back, whatever else happens to the request.
\<close>

theorem one_sync_loss_retry:
  assumes "p |\<in>| fst (GetUnwantedProvidersToSend key up)"
    and "(up_op unsupported statusCode)\<^sup>*\<^sup>* up up'"
  shows "p |\<in>| fst (GetUnwantedProvidersToSend key up')
    \<or> (p |\<notin>| blockOnSyncLoss (uup_at up (rk_String key)) \<and> p |\<in>| blockOnSyncLoss (uup_at up' (rk_String key)))"
proof -
  let ?s = "rk_String key"
  have "blockOnSyncLoss (uup_at up ?s) |\<subseteq>| blockOnSyncLoss (uup_at up' ?s)
    \<and> (p |\<in>| excluded_at up' ?s
       \<or> (p |\<notin>| blockOnSyncLoss (uup_at up ?s) \<and> p |\<in>| blockOnSyncLoss (uup_at up' ?s)))"
    using assms(2)
  proof (induction rule: rtranclp_induct)
    case base
    from assms(1) show ?case by (simp add: ToSend_excluded)
  next
    case (step y z)
    with up_op_excluded [OF step.hyps(2), of p ?s] up_op_sync_loss [OF step.hyps(2), of ?s]
    show ?case by blast
  qed
  then show ?thesis by (simp add: ToSend_excluded)
qed

text \<open>
  A run in which a provider loses sync twice: it is selectable after the first time and ruled out
  after the second.
\<close>

definition sync_loss_once :: UsedProviders where
  "sync_loss_once = RemoveUsed (\<lambda>_ _. False) (\<lambda>_. 677) ''p1'' GetEmptyRouterKey (Some (ErrNew ''lost''))
     (NewUsedProviders None)"

definition sync_loss_twice :: UsedProviders where
  "sync_loss_twice = RemoveUsed (\<lambda>_ _. False) (\<lambda>_. 677) ''p1'' GetEmptyRouterKey (Some (ErrNew ''lost''))
     sync_loss_once"

lemma sync_loss_example:
  "''p1'' |\<notin>| fst (GetUnwantedProvidersToSend GetEmptyRouterKey sync_loss_once)"
  "''p1'' |\<in>| fst (GetUnwantedProvidersToSend GetEmptyRouterKey sync_loss_twice)"
  "''p1'' |\<in>| blockOnSyncLoss (uup_at sync_loss_twice (rk_String GetEmptyRouterKey))"
  by (simp_all add: sync_loss_once_def sync_loss_twice_def ToSend_excluded excluded_at_def remove_at Let_def
      sync_retry_def IsSessionSyncLoss_def SessionOutOfSyncGRPCCode_def new_uup_at
      newSeededUniqueUsedProviders_def new_original)

theorem one_sync_loss_retry_witness:
  "''p1'' |\<in>| fst (GetUnwantedProvidersToSend GetEmptyRouterKey
     (MigrateUnwantedProviders GetEmptyRouterKey (NewRouterKey [''archive'']) sync_loss_twice))"
proof -
  let ?up = "MigrateUnwantedProviders GetEmptyRouterKey (NewRouterKey [''archive'']) sync_loss_twice"
  have step: "up_op (\<lambda>_ _. False) (\<lambda>_. 677) sync_loss_twice ?up" by (rule migrate)
  from one_sync_loss_retry [OF sync_loss_example(2), OF r_into_rtranclp, OF step] sync_loss_example(3)
  show ?thesis by blast
qed

text \<open>
  An extension toggle forgets no attempt: after \<open>MigrateUnwantedProviders\<close> every provider that
  was out of selection under the old router key is out of selection under the new one, what the new key
  had already ruled out stays so, and the old key itself is unchanged.
\<close>

theorem migrate_keeps_exclusions:
  "fst (GetUnwantedProvidersToSend dst (MigrateUnwantedProviders src dst up))
     = fst (GetUnwantedProvidersToSend dst up) |\<union>| fst (GetUnwantedProvidersToSend src up)
   \<and> fst (GetUnwantedProvidersToSend src (MigrateUnwantedProviders src dst up))
     = fst (GetUnwantedProvidersToSend src up)"
  by (auto simp: ToSend_excluded migrate_at excluded_at_def)

section \<open>A batch and its release\<close>

lemma delete_last_append:
  assumes "p \<notin> Provider ` set ys" "Provider d = p"
  shows "delete_last p (xs @ d # ys) = xs @ ys"
proof -
  have "find_last_index (\<lambda>d. Provider d = p) ys = None"
    using assms(1) by (auto simp: find_last_index_None)
  then have "find_last_index (\<lambda>d. Provider d = p) (xs @ d # ys) = Some (length xs)"
    using assms(2) by (induction xs) simp_all
  then show ?thesis by (simp add: delete_last_def)
qed

lemma delete_last_set: "set (delete_last p ds) \<subseteq> set ds"
  by (auto simp: delete_last_def split: option.split dest: in_set_takeD in_set_dropD)

lemma release_counts:
  assumes "p |\<in>| providers (uup_at up (rk_String key))"
  shows "dispatched (ReleaseFromLatestBatch p key err up) = delete_last p (dispatched up)"
    and "sessionsLatestBatch (ReleaseFromLatestBatch p key err up)
       = (if sessionsLatestBatch up > 0 then sessionsLatestBatch up - 1 else sessionsLatestBatch up)"
  using assms
  by (rule_tac create_view [of key up]; auto simp: ReleaseFromLatestBatch_def Let_def put_unique_def)+

text \<open>
  Releasing the sessions of a batch one after the other, with the rest of the batch still registered:
  the state after \<open>n\<close> sessions are gone.
\<close>

lemma release_sessions:
  assumes "wf_map ss" "None \<notin> snd ` set ss"
    and "\<forall>p info. (p, Some info) \<in> set ss \<longrightarrow> p |\<in>| providers (uup_at up (rk_String (session_key info)))"
    and "dispatched up = ds @ map (\<lambda>kv. f (fst kv)) ss" and "\<And>p. Provider (f p) = p"
    and "sessionsLatestBatch up = n + int (length ss)" and "0 \<le> n"
  shows "dispatched (ReleaseSessionsFromLatestBatch ss err up) = ds
    \<and> sessionsLatestBatch (ReleaseSessionsFromLatestBatch ss err up) = n
    \<and> (\<forall>s. excluded_at (ReleaseSessionsFromLatestBatch ss err up) s = excluded_at up s)
    \<and> (\<forall>s. providers (uup_at (ReleaseSessionsFromLatestBatch ss err up) s)
          = providers (uup_at up s) |-| batch_at ss s)"
  using assms
proof (induction ss err up rule: ReleaseSessionsFromLatestBatch.induct)
  case (3 p info ss err up)
  let ?up = "ReleaseFromLatestBatch p (session_key info) err up"
  have p: "p |\<in>| providers (uup_at up (rk_String (session_key info)))" using "3.prems"(3) by simp
  have notin: "p \<notin> fst ` set ss" using "3.prems"(1) by (simp add: wf_map_def)
  have "dispatched ?up = ds @ map (\<lambda>kv. f (fst kv)) ss"
    unfolding release_counts(1) [OF p] "3.prems"(4) list.map fst_conv
    using notin "3.prems"(5) by (intro delete_last_append) (auto simp: image_iff)
  moreover have "sessionsLatestBatch ?up = n + int (length ss)"
    using "3.prems"(6,7) by (simp add: release_counts(2) [OF p])
  moreover have "\<forall>q i. (q, Some i) \<in> set ss \<longrightarrow> q |\<in>| providers (uup_at ?up (rk_String (session_key i)))"
    using "3.prems"(3) notin by (force simp: release_at Let_def)
  moreover have "\<forall>s. excluded_at ?up s = excluded_at up s"
    using p by (auto simp: excluded_at_def release_at Let_def)
  moreover have "\<forall>s. providers (uup_at ?up s) = providers (uup_at up s) |-| batch_at [(p, Some info)] s"
    using p by (auto simp: release_at Let_def)
  moreover have "wf_map ss" "None \<notin> snd ` set ss" using "3.prems"(1,2) by (simp_all add: wf_map_def)
  ultimately show ?case
    using "3.IH" "3.prems"(5,7) by (auto simp: fminus_funion)
qed simp_all

text \<open>
  Dropping a batch before it is sent undoes its accounting: after \<open>AddUsed\<close> the latest batch counts
  every session of the map, and when all of them are released again the request counts no session of
  that batch as dispatched or expected, its earlier dispatches are intact, nothing of the batch is in
  flight, and its providers stay out of later selections.
\<close>

theorem release_undoes_AddUsed:
  assumes "AddUsed t ss None up = Some up'" and "wf_map ss" and "ss \<noteq> []"
    and "\<forall>s. providers (uup_at up s) |\<inter>| batch_at ss s = {||}"
  shows "sessionsLatestBatch up' = int (length ss)
    \<and> SessionsDispatched up' = SessionsDispatched up + length ss
    \<and> dispatched (ReleaseSessionsFromLatestBatch ss err up') = dispatched up
    \<and> sessionsLatestBatch (ReleaseSessionsFromLatestBatch ss err up') = 0
    \<and> (\<forall>key. providers (uup_at (ReleaseSessionsFromLatestBatch ss err up') (rk_String key))
          = providers (uup_at up (rk_String key)))
    \<and> (\<forall>key. batch_at ss (rk_String key)
          |\<subseteq>| fst (GetUnwantedProvidersToSend key (ReleaseSessionsFromLatestBatch ss err up')))"
proof -
  note view = AddUsed_view [OF assms(1)]
  let ?f = "\<lambda>p. \<lparr>Provider = p, Batch = batchNumber up, At = t, StaleFallback = False\<rparr>"
  have batch: "p |\<in>| batch_at ss (rk_String (session_key info))" if "(p, Some info) \<in> set ss" for p info
    using that by (force simp: batch_at_def fset_of_list.rep_eq)
  have none: "None \<notin> snd ` set ss"
  proof
    assume "None \<in> snd ` set ss"
    then have "add_used_loop t ss u = None" for u
      by (induction t ss u rule: add_used_loop.induct) auto
    with assms(1,3) show False by (simp add: AddUsed_def)
  qed
  have "dispatched (ReleaseSessionsFromLatestBatch ss err up') = dispatched up
    \<and> sessionsLatestBatch (ReleaseSessionsFromLatestBatch ss err up') = 0
    \<and> (\<forall>s. excluded_at (ReleaseSessionsFromLatestBatch ss err up') s = excluded_at up' s)
    \<and> (\<forall>s. providers (uup_at (ReleaseSessionsFromLatestBatch ss err up') s)
          = providers (uup_at up' s) |-| batch_at ss s)"
    by (rule release_sessions [OF assms(2) none, where f = ?f])
       (use view(1,4) batch assms(3) in auto)
  moreover have "providers (uup_at up' s) |-| batch_at ss s = providers (uup_at up s)" for s
    using assms(4) by (auto simp: view(1))
  moreover have "batch_at ss s |\<subseteq>| excluded_at up' s" for s
    by (auto simp: excluded_at_def view(1))
  ultimately show ?thesis
    using view(4) assms(3) by (simp add: SessionsDispatched_def ToSend_excluded)
qed

definition two_sessions :: ConsumerSessionsMap where
  "two_sessions = [(''p1'', Some \<lparr>Session = None\<rparr>), (''p2'', Some \<lparr>Session = Some (NewRouterKey [''archive''])\<rparr>)]"

theorem release_undoes_AddUsed_witness:
  "\<exists>up'. AddUsed 7 two_sessions None (NewUsedProviders None) = Some up' \<and> sessionsLatestBatch up' = 2
     \<and> sessionsLatestBatch (ReleaseSessionsFromLatestBatch two_sessions None up') = 0
     \<and> dispatched (ReleaseSessionsFromLatestBatch two_sessions None up') = []"
proof -
  obtain up' where up': "AddUsed 7 two_sessions None (NewUsedProviders None) = Some up'"
    by (simp add: AddUsed_def two_sessions_def)
  have "wf_map two_sessions" "two_sessions \<noteq> []" by (simp_all add: two_sessions_def wf_map_def)
  moreover have "providers (uup_at (NewUsedProviders None) s) = {||}" for s
    by (simp add: new_uup_at newSeededUniqueUsedProviders_def)
  moreover have "dispatched (NewUsedProviders None) = []" by (simp add: NewUsedProviders_def Let_def)
  ultimately show ?thesis
    using release_undoes_AddUsed [OF up', of None] up' by (simp add: two_sessions_def)
qed

lemma release_idempotent:
  "ReleaseFromLatestBatch p key err (ReleaseFromLatestBatch p key err' up) = ReleaseFromLatestBatch p key err' up"
proof -
  let ?up = "ReleaseFromLatestBatch p key err' up"
  have "p |\<notin>| providers (uup_at ?up (rk_String key))" by (auto simp: release_at Let_def)
  moreover have "mget (uniqueUsedProviders ?up) (rk_String key) \<noteq> None"
    by (auto simp: ReleaseFromLatestBatch_def createOrUseUniqueUsedProvidersForKey_def put_unique_def Let_def
        split: option.split)
  ultimately show ?thesis
    by (auto simp: ReleaseFromLatestBatch_def [of p key err] createOrUseUniqueUsedProvidersForKey_def uup_at_def)
qed

section \<open>The selection lock\<close>

text \<open>
  \<open>TryLockSelection\<close> polls. A poll sees whether the context is done, the shared state at that moment,
  and the clock it reads after a failed attempt. The sequence of polls is an argument; running out of
  it (\<open>None\<close>) means the caller is still waiting.
\<close>

record poll =
  ctxDone :: bool
  shared :: UsedProviders
  clock :: time

definition selectionLockPollInterval :: duration where
  "selectionLockPollInterval = 5 * millisecond"

definition selectionLockMaxWait :: duration where
  "selectionLockMaxWait = second"

datatype lock_result = Locked UsedProviders | ContextDoneNoNeedToLockSelectionError

fun lock_loop :: "time \<Rightarrow> poll list \<Rightarrow> lock_result option" where
  "lock_loop deadline [] = None"
| "lock_loop deadline (q # qs) =
    (if ctxDone q then Some ContextDoneNoNeedToLockSelectionError
     else case tryLockSelection (shared q) of
        (True, up) \<Rightarrow> Some (Locked up)
      | (False, _) \<Rightarrow>
          if \<not> clock q < deadline then Some ContextDoneNoNeedToLockSelectionError
          else lock_loop deadline qs)"

definition TryLockSelection ::
    "bool \<Rightarrow> UsedProviders \<Rightarrow> time \<Rightarrow> time option \<Rightarrow> poll list \<Rightarrow> lock_result option" where
  "TryLockSelection ctxErr up now ctxDeadline polls =
    (if ctxErr then Some ContextDoneNoNeedToLockSelectionError
     else case tryLockSelection up of
        (True, up) \<Rightarrow> Some (Locked up)
      | (False, _) \<Rightarrow>
          let deadline = now + selectionLockMaxWait;
              deadline = (case ctxDeadline of Some d \<Rightarrow> if d < deadline then d else deadline | None \<Rightarrow> deadline)
          in lock_loop deadline polls)"

lemma lock_loop_locked:
  "lock_loop d qs = Some (Locked up) \<Longrightarrow> \<exists>q\<in>set qs. \<not> selecting (shared q) \<and> up = (shared q)\<lparr>selecting := True\<rparr>"
  by (induction qs) (auto simp: tryLockSelection_def split: if_splits)

lemma lock_loop_ends: "\<exists>q\<in>set qs. d \<le> clock q \<Longrightarrow> lock_loop d qs \<noteq> None"
  by (induction qs) (auto simp: tryLockSelection_def)

text \<open>
  Selections of one request do not overlap and none waits forever: the lock is handed out only from
  a state in which nobody selects, to a state that says somebody does, in which no other attempt
  succeeds until \<open>AddUsed\<close> ends the selection; and with the clock advancing by the poll interval, a
  caller is answered within 201 polls, one second.
\<close>

theorem selection_lock:
  assumes "\<forall>i<length polls. now + int i * selectionLockPollInterval \<le> clock (polls ! i)"
    and "200 < length polls"
  shows "\<exists>res. TryLockSelection ctxErr up now ctxDeadline polls = Some res
    \<and> (case res of ContextDoneNoNeedToLockSelectionError \<Rightarrow> True
       | Locked up' \<Rightarrow> \<not> ctxErr \<and> \<not> fst (tryLockSelection up') \<and> snd (tryLockSelection up') = up'
          \<and> (\<exists>u\<in>insert up (shared ` set polls). \<not> selecting u \<and> up' = u\<lparr>selecting := True\<rparr>)
          \<and> (\<forall>t ss err up''. AddUsed t ss err up' = Some up'' \<longrightarrow> fst (tryLockSelection up'')))"
proof -
  define d where "d = (case ctxDeadline of Some d \<Rightarrow> if d < now + selectionLockMaxWait then d
      else now + selectionLockMaxWait | None \<Rightarrow> now + selectionLockMaxWait)"
  have "d \<le> now + selectionLockMaxWait" by (simp add: d_def split: option.split)
  also have "\<dots> \<le> clock (polls ! 200)"
    using assms(1) [rule_format, OF assms(2)]
    by (simp add: selectionLockMaxWait_def selectionLockPollInterval_def duration_units)
  finally have "lock_loop d polls \<noteq> None" using assms(2) by (intro lock_loop_ends) force
  moreover have eq: "TryLockSelection ctxErr up now ctxDeadline polls =
      (if ctxErr then Some ContextDoneNoNeedToLockSelectionError
       else if selecting up then lock_loop d polls else Some (Locked (up\<lparr>selecting := True\<rparr>)))"
    unfolding TryLockSelection_def tryLockSelection_def Let_def d_def by simp
  ultimately obtain res where res: "TryLockSelection ctxErr up now ctxDeadline polls = Some res"
    by (cases ctxErr; cases "selecting up") auto
  moreover have "\<not> ctxErr \<and> (\<exists>u\<in>insert up (shared ` set polls). \<not> selecting u \<and> up' = u\<lparr>selecting := True\<rparr>)"
    if "res = Locked up'" for up'
    using res that lock_loop_locked unfolding eq by (auto split: if_splits)
  moreover have "fst (tryLockSelection up'')" if "AddUsed t ss err up' = Some up''" for t ss err up' up''
    using AddUsed_view(3) [OF that] by (simp add: tryLockSelection_def)
  ultimately show ?thesis
    by (intro exI [of _ res]) (force simp: tryLockSelection_def split: lock_result.split)
qed

definition busy_polls :: "poll list" where
  "busy_polls = map (\<lambda>i. \<lparr>ctxDone = False, shared = (NewUsedProviders None)\<lparr>selecting := True\<rparr>,
     clock = int i * selectionLockPollInterval\<rparr>) [0..<201]"

theorem selection_lock_witness:
  "\<exists>res. TryLockSelection False ((NewUsedProviders None)\<lparr>selecting := True\<rparr>) 0 None busy_polls = Some res"
  using selection_lock [of busy_polls 0 False "(NewUsedProviders None)\<lparr>selecting := True\<rparr>" None]
  by (auto simp: busy_polls_def simp del: upt_Suc)

section \<open>Router keys and their strings\<close>

lemma uniqueExtensions_new:
  "uniqueExtensions (NewRouterKey xs) = sorted_list_of_set (set (if xs = [] then [''''] else xs))"
  by (simp add: NewRouterKey_def SetExtensions_def sorted_list_of_set_sort_remdups)

lemma separator_split:
  assumes "c \<notin> set x" "c \<notin> set y" "x @ c # r = y @ c # r'"
  shows "x = y \<and> r = r'"
  using assms by (induction x arbitrary: y) (case_tac y; auto)+

lemma strings_join_Cons:
  "xs \<noteq> [] \<Longrightarrow> strings_join sep (x # xs) = x @ sep @ strings_join sep xs"
  by (cases xs) simp_all

lemma strings_join_inj:
  assumes "strings_join [c] xs @ [c] = strings_join [c] ys @ [c]" "xs \<noteq> []" "ys \<noteq> []"
    and "\<forall>x\<in>set xs. c \<notin> set x" "\<forall>y\<in>set ys. c \<notin> set y"
  shows "xs = ys"
  using assms
proof (induction xs arbitrary: ys)
  case (Cons x xs)
  define tail where "tail zs = (if zs = [] then [] else strings_join [c] zs @ [c])" for zs
  have tail: "strings_join [c] (z # zs) @ [c] = z @ c # tail zs" for z zs
    by (simp add: tail_def strings_join_Cons)
  from Cons.prems(3) obtain y ys' where ys: "ys = y # ys'" by (cases ys) auto
  from Cons.prems have "x = y \<and> tail xs = tail ys'"
    unfolding ys tail by (intro separator_split) simp_all
  then have "x = y" and "xs = [] \<longleftrightarrow> ys' = []" and "xs \<noteq> [] \<Longrightarrow> strings_join [c] xs @ [c] = strings_join [c] ys' @ [c]"
    by (auto simp: tail_def split: if_splits)
  with Cons.IH [of ys'] Cons.prems ys show ?case by (cases "xs = []") auto
qed simp

text \<open>
  A router key stands for a set of extensions: two requests share their exclusions exactly when
  they ask for the same set, in any order and with any repetition (no extension asked is the same as
  the empty name), as long as names are free of the separator.
\<close>

theorem router_key_is_extension_set:
  assumes "\<forall>x\<in>set xs \<union> set ys. CHR ''|'' \<notin> set x"
  shows "rk_String (NewRouterKey xs) = rk_String (NewRouterKey ys)
    \<longleftrightarrow> set (if xs = [] then [''''] else xs) = set (if ys = [] then [''''] else ys)"
proof -
  define ex where "ex zs = sorted_list_of_set (set (if zs = [] then [''''] else zs))" for zs :: "string list"
  have ne: "ex zs \<noteq> []" for zs by (simp add: ex_def)
  have str: "rk_String (NewRouterKey zs) = ''|'' @ strings_join ''|'' (ex zs) @ ''|''" for zs
    using ne [of zs] uniqueExtensions_new [of zs]
    by (simp add: rk_String_def Let_def ex_def RouterKeySeparator_def NewRouterKey_def SetExtensions_def)
  have clean: "\<forall>x\<in>set (ex zs). CHR ''|'' \<notin> set x" if "\<forall>x\<in>set zs. CHR ''|'' \<notin> set x" for zs
    using that by (auto simp: ex_def)
  have "rk_String (NewRouterKey xs) = rk_String (NewRouterKey ys) \<longleftrightarrow> ex xs = ex ys"
    using strings_join_inj [of "CHR ''|''" "ex xs" "ex ys"] ne clean assms by (auto simp: str)
  also have "\<dots> \<longleftrightarrow> set (if xs = [] then [''''] else xs) = set (if ys = [] then [''''] else ys)"
    unfolding ex_def by (metis finite_set sorted_list_of_set.set_sorted_key_list_of_set)
  finally show ?thesis .
qed

theorem router_key_is_extension_set_witness:
  "rk_String (NewRouterKey [''trace'', ''archive'', ''trace'']) = rk_String (NewRouterKey [''archive'', ''trace''])
   \<and> rk_String (NewRouterKey [''archive'']) \<noteq> rk_String (NewRouterKey [])"
  using router_key_is_extension_set [of "[''trace'', ''archive'', ''trace'']" "[''archive'', ''trace'']"]
    router_key_is_extension_set [of "[''archive'']" "[]"]
  by auto

end
