(* ===== verification/SessionPool.thy ===== *)
theory SessionPool
  imports EndpointHealth UsedProviders "HOL-Library.Word" "HOL-Library.Multiset"
begin

text \<open>
  The provider pool of the consumer session manager (\<open>lavasession/consumer_session_manager.go\<close>,
  \<open>block_reason.go\<close>, \<open>reported_providers.go\<close>, the provider half of \<open>consumer_types.go\<close>): which
  providers of the pairing are selectable, which are blocked and why, the caches per add-on, the
  epoch rebuild with its carry-over, and every route by which a blocked provider returns.

  \<^item> Providers and endpoints are shared, mutable objects in the code, so they live in two heaps
    indexed by \<open>ref\<close>; \<open>pairing\<close>, \<open>backupProviders\<close> and \<open>pairingPurge\<close> hold references, as the Go
    maps hold pointers. A rebuild inside one epoch keeps the objects, one that starts an epoch
    brings new ones.
  \<^item> \<open>uint64\<close> counters (compute units, epochs, report counts) are \<open>64 word\<close>.
  \<^item> A Go set (\<open>map[string]struct{}\<close>) is a list without repetition. \<open>sort.Slice\<close> leaves the order
    of equal elements open; the model takes the stable result, which is what the insertion sort
    it uses for short slices returns.
  \<^item> The nil slice \<open>CalculateAddonValidAddresses\<close> returns when nothing matches is told apart from
    an empty one, since the cache treats it as no entry.
  \<^item> Each operation here is one critical section under \<open>csm.lock\<close>; \<open>csm_reachable\<close> interleaves them
    freely, together with the changes other code makes to providers and endpoints.
\<close>

section \<open>Block reasons and records\<close>

definition BlockReasonAllEndpointsDisabled :: string where "BlockReasonAllEndpointsDisabled = ''all-endpoints-disabled''"
definition BlockReasonExplicitSignal :: string where "BlockReasonExplicitSignal = ''explicit-block-signal''"
definition BlockReasonPreviousEpoch :: string where "BlockReasonPreviousEpoch = ''blocked-in-previous-epoch''"
definition BlockReasonUnspecified :: string where "BlockReasonUnspecified = ''unspecified''"

definition AllBlockReasons :: "string list" where
  "AllBlockReasons = [BlockReasonAllEndpointsDisabled, BlockReasonExplicitSignal, BlockReasonPreviousEpoch, BlockReasonUnspecified]"

datatype ReleaseRoute =
    ReleaseHealthProbe | ReleaseReconnectLoop | ReleaseSuccessfulRelay | ReleaseEpochNotReported
  | ReleaseEpochProbe | ReleasePoolEmpty | ReleaseOperatorReset | ReleaseEpochRebuild

record BlockRecord =
  br_Reason :: string
  br_Since :: time
  br_Detail :: string
  br_Reported :: bool
  br_Backup :: bool
  br_Carries :: "32 word"

definition blockedFor :: "time \<Rightarrow> BlockRecord \<Rightarrow> duration" where
  "blockedFor now r = (if br_Since r = zero_time then 0 else time_sub now (br_Since r))"

definition withCarryOver :: "BlockRecord \<Rightarrow> BlockRecord" where
  "withCarryOver r =
     r\<lparr>br_Reason := (if br_Reason r = '''' then BlockReasonPreviousEpoch else br_Reason r),
       br_Carries := br_Carries r + 1\<rparr>"

definition blockDetail :: "64 word \<Rightarrow> 64 word \<Rightarrow> string" where
  "blockDetail disconnections consecutiveErrors =
     (if 0 < disconnections \<and> 0 < consecutiveErrors
      then ''disconnections='' @ format_nat (unat disconnections) @ '' consecutiveErrors='' @ format_nat (unat consecutiveErrors)
      else if 0 < disconnections then ''disconnections='' @ format_nat (unat disconnections)
      else if 0 < consecutiveErrors then ''consecutiveErrors='' @ format_nat (unat consecutiveErrors)
      else '''')"

definition blockScope :: "bool \<Rightarrow> string" where
  "blockScope backup = (if backup then ''backup'' else ''primary'')"

section \<open>Providers and the manager\<close>

type_synonym ref = nat

record SingleConsumerSession =
  CuSum :: "64 word"
  LatestRelayCu :: "64 word"
  scs_locked :: bool
  RelayNum :: "64 word"
  LatestBlock :: int64
  scs_Endpoint :: ref
  BlockListed :: bool
  ConsecutiveErrors :: "go_error list"
  errorsCount :: "64 word"
  scs_inUse :: bool
  scs_routerKey :: RouterKey
  scs_epoch :: "64 word"

text \<open>
  A session's \<open>usedProviders\<close> pointer is the flag \<open>scs_inUse\<close> (it is only compared with nil and
  told of the release); its \<open>lock\<close> is the flag \<open>scs_locked\<close>; the endpoint of its direct
  connection is a reference.
\<close>

record cswp =
  PublicLavaAddress :: string
  cs_Endpoints :: "ref list"
  Sessions :: "(int64, SingleConsumerSession) gomap"
  MaxComputeUnits :: "64 word"
  UsedComputeUnits :: "64 word"
  PairingEpoch :: "64 word"
  stakeSize :: int64
  blockedAndUsed :: bool
  StaticProvider :: bool
  GroupLabel :: string

text \<open>
  \<open>blockedAndUsed\<close> is \<open>blockedAndUsedWithChanceForRecoveryStatus\<close>: true for
  \<open>BlockedProviderSessionUsedStatus\<close>.
\<close>

definition NewConsumerSessionWithProvider :: "string \<Rightarrow> ref list \<Rightarrow> 64 word \<Rightarrow> 64 word \<Rightarrow> int64 \<Rightarrow> cswp" where
  "NewConsumerSessionWithProvider addr eps maxCu epoch stake =
     \<lparr>PublicLavaAddress = addr, cs_Endpoints = eps, Sessions = [], MaxComputeUnits = maxCu, UsedComputeUnits = 0,
      PairingEpoch = epoch, stakeSize = stake, blockedAndUsed = False, StaticProvider = False, GroupLabel = ''''\<rparr>"

record ReportedProviderEntry =
  Disconnections :: "64 word"
  rp_Errors :: "64 word"
  addedTime :: time
  reconnectCB :: "ref option"

record ReportedProviders =
  addedToPurgeAndReport :: "(string, ReportedProviderEntry) gomap"
  rp_generation :: "64 word"

record StickySession =
  ss_Provider :: string
  ss_Epoch :: "64 word"
  ss_Confirmed :: bool

record csm =
  providers :: "ref \<Rightarrow> cswp"
  endpoints :: "ref \<Rightarrow> Endpoint"
  pairing :: "(string, ref) gomap"
  stickySessions :: "(string, StickySession) gomap"
  currentEpoch :: "64 word"
  numberOfResets :: "64 word"
  pairingAddresses :: "(64 word, string) gomap"
  pairingAddressesLength :: "64 word"
  pairingGeneration :: "64 word"
  lastPairingUpdate :: time
  validAddresses :: "string list"
  currentlyBlockedProviderAddresses :: "string list"
  blockedProviderRecords :: "(string, BlockRecord) gomap"
  previousEpochBlockedProviders :: "(string, BlockRecord) gomap"
  backupProviders :: "(string, ref) gomap"
  blockedBackupProviders :: "string list"
  addonAddresses :: "(string, string list option) gomap"
  reportedProviders :: ReportedProviders
  pairingPurge :: "(string, ref) gomap"
  optimizerWeights :: "(string, int64) gomap"
  statefulToBackup :: bool

text \<open>
  \<open>optimizerWeights\<close> is what the last \<open>UpdateWeights\<close> call handed to the provider optimizer.
  A new manager over the heaps it will be given providers from:
\<close>

definition NewConsumerSessionManager :: "(ref \<Rightarrow> cswp) \<Rightarrow> (ref \<Rightarrow> Endpoint) \<Rightarrow> csm" where
  "NewConsumerSessionManager ps es =
     \<lparr>providers = ps, endpoints = es, pairing = [], stickySessions = [], currentEpoch = 0, numberOfResets = 0,
      pairingAddresses = [], pairingAddressesLength = 0, pairingGeneration = 0, lastPairingUpdate = zero_time,
      validAddresses = [], currentlyBlockedProviderAddresses = [], blockedProviderRecords = [],
      previousEpochBlockedProviders = [], backupProviders = [], blockedBackupProviders = [], addonAddresses = [],
      reportedProviders = \<lparr>addedToPurgeAndReport = [], rp_generation = 0\<rparr>, pairingPurge = [],
      optimizerWeights = [], statefulToBackup = False\<rparr>"

definition paired :: "csm \<Rightarrow> string \<Rightarrow> cswp option" where
  "paired c a = map_option (providers c) (mget (pairing c) a)"

definition backup :: "csm \<Rightarrow> string \<Rightarrow> cswp option" where
  "backup c a = map_option (providers c) (mget (backupProviders c) a)"

section \<open>What a provider serves\<close>

definition IsSupportingAddon :: "csm \<Rightarrow> string \<Rightarrow> cswp \<Rightarrow> bool" where
  "IsSupportingAddon c addon p =
     (if addon = '''' then list_ex (\<lambda>e. ep_ServesBaseCollection (endpoints c e)) (cs_Endpoints p)
      else list_ex (\<lambda>e. addon \<in> set (ep_Addons (endpoints c e))) (cs_Endpoints p))"

definition IsSupportingExtensions :: "csm \<Rightarrow> string list \<Rightarrow> cswp \<Rightarrow> bool" where
  "IsSupportingExtensions c exts p =
     list_ex (\<lambda>e. list_all (\<lambda>x. x \<in> set (ep_Extensions (endpoints c e))) exts) (cs_Endpoints p)"

definition serves :: "csm \<Rightarrow> string \<Rightarrow> string list \<Rightarrow> cswp option \<Rightarrow> bool" where
  "serves c addon exts p = (case p of None \<Rightarrow> False | Some p \<Rightarrow> IsSupportingAddon c addon p \<and> IsSupportingExtensions c exts p)"

definition inRotation :: "csm \<Rightarrow> cswp \<Rightarrow> bool" where
  "inRotation c p =
     (let es = map (endpoints c) (cs_Endpoints p) in
      if list_ex ServesDirectRelays es then list_ex (\<lambda>e. ServesDirectRelays e \<and> IsUsable e) es
      else list_ex IsUsable es)"

definition addonKey :: "string \<Rightarrow> string list \<Rightarrow> string" where
  "addonKey addon exts = rk_String (NewRouterKey (exts @ [addon]))"

definition RemoveAddonAddresses :: "string \<Rightarrow> string list \<Rightarrow> csm \<Rightarrow> csm" where
  "RemoveAddonAddresses addon exts c =
     (if addon = '''' \<and> exts = [] then c\<lparr>addonAddresses := []\<rparr>
      else c\<lparr>addonAddresses := mput (addonKey addon exts) (Some []) (addonAddresses c)\<rparr>)"

text \<open>A nil result is an absent cache entry, so an empty list is \<open>None\<close> as a cached value.\<close>

definition CalculateAddonValidAddresses :: "string \<Rightarrow> string list \<Rightarrow> csm \<Rightarrow> string list" where
  "CalculateAddonValidAddresses addon exts c = filter (\<lambda>a. serves c addon exts (paired c a)) (validAddresses c)"

definition slice_of :: "string list \<Rightarrow> string list option" where
  "slice_of xs = (if xs = [] then None else Some xs)"

definition getValidAddresses :: "string \<Rightarrow> string list \<Rightarrow> csm \<Rightarrow> string list" where
  "getValidAddresses addon exts c =
     (case mget (addonAddresses c) (addonKey addon exts) of
        Some (Some cached) \<Rightarrow> cached
      | _ \<Rightarrow> CalculateAddonValidAddresses addon exts c)"

definition cacheAddonAddresses :: "string \<Rightarrow> string list \<Rightarrow> csm \<Rightarrow> string list \<times> csm" where
  "cacheAddonAddresses addon exts c =
     (case mget (addonAddresses c) (addonKey addon exts) of
        Some (Some cached) \<Rightarrow> (cached, c)
      | _ \<Rightarrow> let result = CalculateAddonValidAddresses addon exts c in
            (result, c\<lparr>addonAddresses := mput (addonKey addon exts) (slice_of result) (addonAddresses c)\<rparr>))"

section \<open>The register of reported providers\<close>

definition ReconnectCandidateTime :: duration where "ReconnectCandidateTime = 30 * second"

definition rp_Reset :: "ReportedProviders \<Rightarrow> ReportedProviders" where
  "rp_Reset rp = rp\<lparr>addedToPurgeAndReport := [], rp_generation := rp_generation rp + 1\<rparr>"

definition ReportProvider :: "string \<Rightarrow> 64 word \<Rightarrow> 64 word \<Rightarrow> ref option \<Rightarrow> time \<Rightarrow> ReportedProviders \<Rightarrow> ReportedProviders" where
  "ReportProvider addr errs discs cb now rp =
     (let e = (case mget (addedToPurgeAndReport rp) addr of
                 Some e \<Rightarrow> e
               | None \<Rightarrow> \<lparr>Disconnections = 0, rp_Errors = 0, addedTime = now, reconnectCB = None\<rparr>);
          e = e\<lparr>Disconnections := Disconnections e + discs, rp_Errors := rp_Errors e + errs,
                reconnectCB := (if cb = None then reconnectCB e else cb)\<rparr>
      in rp\<lparr>addedToPurgeAndReport := mput addr e (addedToPurgeAndReport rp)\<rparr>)"

definition RemoveReport :: "string \<Rightarrow> ReportedProviders \<Rightarrow> ReportedProviders" where
  "RemoveReport addr rp = rp\<lparr>addedToPurgeAndReport := mdel addr (addedToPurgeAndReport rp)\<rparr>"

definition IsReported :: "string \<Rightarrow> ReportedProviders \<Rightarrow> bool" where
  "IsReported addr rp \<longleftrightarrow> mget (addedToPurgeAndReport rp) addr \<noteq> None"

definition ReconnectCandidates :: "time \<Rightarrow> ReportedProviders \<Rightarrow> (string \<times> ref option) list \<times> 64 word" where
  "ReconnectCandidates now rp =
     (map (\<lambda>(a, e). (a, reconnectCB e))
        (filter (\<lambda>(a, e). rp_Errors e = 0 \<and> ReconnectCandidateTime < time_sub now (addedTime e)) (addedToPurgeAndReport rp)),
      rp_generation rp)"

text \<open>
  One candidate of \<open>ReconnectProviders\<close>, after its callback returned: nothing when the register
  was reset meanwhile (the generation moved), else the entry goes or counts one disconnection more.
\<close>

definition reconnectOutcome :: "64 word \<Rightarrow> string \<Rightarrow> bool \<Rightarrow> time \<Rightarrow> ReportedProviders \<Rightarrow> ReportedProviders" where
  "reconnectOutcome generation addr succeeded now rp =
     (if rp_generation rp \<noteq> generation then rp
      else if succeeded then RemoveReport addr rp
      else ReportProvider addr 0 1 None now rp)"

section \<open>Releasing the record of a block\<close>

definition remainingBlockScopeLocked :: "string \<Rightarrow> csm \<Rightarrow> bool \<times> bool" where
  "remainingBlockScopeLocked addr c =
     (if addr \<in> set (blockedBackupProviders c) then (True, True)
      else if addr \<in> set (currentlyBlockedProviderAddresses c) then (False, True)
      else (False, False))"

definition blank_record :: BlockRecord where
  "blank_record = \<lparr>br_Reason = '''', br_Since = zero_time, br_Detail = '''', br_Reported = False, br_Backup = False, br_Carries = 0\<rparr>"

definition releaseBlockRecordLocked :: "string \<Rightarrow> bool \<Rightarrow> csm \<Rightarrow> (BlockRecord \<times> bool) \<times> csm" where
  "releaseBlockRecordLocked addr releasedBackup c =
     (case mget (blockedProviderRecords c) addr of
        None \<Rightarrow> ((blank_record\<lparr>br_Reason := BlockReasonUnspecified\<rparr>, False), c)
      | Some r \<Rightarrow>
          let ended = r\<lparr>br_Backup := releasedBackup\<rparr> in
          (case remainingBlockScopeLocked addr c of
             (backupRemains, True) \<Rightarrow>
               ((ended, True), c\<lparr>blockedProviderRecords := mput addr (r\<lparr>br_Backup := backupRemains\<rparr>) (blockedProviderRecords c)\<rparr>)
           | (_, False) \<Rightarrow> ((ended, True), c\<lparr>blockedProviderRecords := mdel addr (blockedProviderRecords c)\<rparr>)))"

definition blockRecordOrUnknownLocked :: "time \<Rightarrow> string \<Rightarrow> csm \<Rightarrow> BlockRecord" where
  "blockRecordOrUnknownLocked now addr c =
     (case mget (blockedProviderRecords c) addr of
        Some r \<Rightarrow> r
      | None \<Rightarrow> blank_record\<lparr>br_Reason := BlockReasonPreviousEpoch, br_Since := now, br_Reported := True\<rparr>)"

definition blockedTotalLocked :: "csm \<Rightarrow> nat" where
  "blockedTotalLocked c = length (currentlyBlockedProviderAddresses c) + length (blockedBackupProviders c)"

definition atomicWriteBlockedStatus :: "bool \<Rightarrow> ref \<Rightarrow> csm \<Rightarrow> csm" where
  "atomicWriteBlockedStatus used r c = c\<lparr>providers := (providers c)(r := (providers c r)\<lparr>blockedAndUsed := used\<rparr>)\<rparr>"

text \<open>Resetting the redemption flag of a provider, when the pairing holds it.\<close>

definition resetRedemption :: "string \<Rightarrow> csm \<Rightarrow> csm" where
  "resetRedemption addr c = (case mget (pairing c) addr of None \<Rightarrow> c | Some r \<Rightarrow> atomicWriteBlockedStatus False r c)"

section \<open>Blocking and releasing\<close>

text \<open>\<open>validAddresses\<close> refilled from the pairing, and the whole regular blocked list dropped.\<close>

definition releaseAll :: "ReleaseRoute \<Rightarrow> csm \<Rightarrow> csm" where
  "releaseAll route c =
     fold (\<lambda>a c. (let c = snd (releaseBlockRecordLocked a False c) in if route = ReleaseEpochRebuild then c else resetRedemption a c))
       (currentlyBlockedProviderAddresses c) (c\<lparr>currentlyBlockedProviderAddresses := []\<rparr>)"

definition addIfServing :: "string \<Rightarrow> string list \<Rightarrow> csm \<Rightarrow> string \<Rightarrow> string list \<Rightarrow> string list" where
  "addIfServing addon exts c a valid = (if serves c addon exts (paired c a) \<and> a \<notin> set valid then valid @ [a] else valid)"

definition setValidAddressesToDefaultValue :: "string \<Rightarrow> string list \<Rightarrow> ReleaseRoute \<Rightarrow> csm \<Rightarrow> csm" where
  "setValidAddressesToDefaultValue addon exts route c =
     (let c = releaseAll route c in
      if addon = '''' \<and> exts = [] then c\<lparr>validAddresses := map snd (pairingAddresses c)\<rparr>
      else
        let c = c\<lparr>validAddresses := fold (addIfServing addon exts c) (map snd (pairingAddresses c)) (validAddresses c)\<rparr>;
            c = RemoveAddonAddresses addon exts c
        in c\<lparr>addonAddresses := mput (addonKey addon exts) (slice_of (CalculateAddonValidAddresses addon exts c)) (addonAddresses c)\<rparr>)"

definition resetValidAddresses :: "string \<Rightarrow> string list \<Rightarrow> csm \<Rightarrow> bool \<times> csm" where
  "resetValidAddresses addon exts c =
     (if getValidAddresses addon exts c = []
      then let c = setValidAddressesToDefaultValue addon exts ReleasePoolEmpty c in (True, c\<lparr>numberOfResets := numberOfResets c + 1\<rparr>)
      else (False, c))"

definition usedOf :: "csm \<Rightarrow> string \<Rightarrow> 64 word" where
  "usedOf c a = (case paired c a of None \<Rightarrow> 0 | Some p \<Rightarrow> UsedComputeUnits p)"

definition sortBlockedProviderListByCuServed :: "csm \<Rightarrow> csm" where
  "sortBlockedProviderListByCuServed c =
     c\<lparr>currentlyBlockedProviderAddresses := sort_key (\<lambda>a. - uint (usedOf c a)) (currentlyBlockedProviderAddresses c)\<rparr>"

text \<open>\<open>False\<close> is \<open>AddressIndexWasNotFoundError\<close>.\<close>

definition removeAddressFromValidAddresses :: "string \<Rightarrow> BlockRecord \<Rightarrow> csm \<Rightarrow> bool \<times> csm" where
  "removeAddressFromValidAddresses addr r c =
     (if addr \<in> set (validAddresses c)
      then let c = RemoveAddonAddresses '''' [] (c\<lparr>validAddresses := remove1 addr (validAddresses c)\<rparr>);
               c = c\<lparr>currentlyBlockedProviderAddresses := currentlyBlockedProviderAddresses c @ [addr],
                     blockedProviderRecords := mput addr r (blockedProviderRecords c)\<rparr>
           in (True, sortBlockedProviderListByCuServed c)
      else (False, c))"

definition refreshBlockOutcomeLocked :: "string \<Rightarrow> bool \<Rightarrow> csm \<Rightarrow> csm" where
  "refreshBlockOutcomeLocked addr reportedNow c =
     (if \<not> reportedNow then c
      else case mget (blockedProviderRecords c) addr of
             None \<Rightarrow> c
           | Some r \<Rightarrow> if br_Reported r then c
                       else c\<lparr>blockedProviderRecords := mput addr (r\<lparr>br_Reported := True\<rparr>) (blockedProviderRecords c)\<rparr>)"

datatype block_error = EpochMismatchError

text \<open>
  The block itself: the record of a block that took effect, and the state with the address moved.
  A backup already blocked keeps its first record.
\<close>

definition takeOut :: "string \<Rightarrow> BlockRecord \<Rightarrow> csm \<Rightarrow> BlockRecord option \<times> csm" where
  "takeOut addr r c =
     (case removeAddressFromValidAddresses addr r c of
        (True, c) \<Rightarrow> (Some r, c)
      | (False, c) \<Rightarrow>
          if mget (backupProviders c) addr \<noteq> None \<and> addr \<notin> set (blockedBackupProviders c)
          then let r = r\<lparr>br_Backup := True\<rparr> in
               (Some r, c\<lparr>blockedBackupProviders := blockedBackupProviders c @ [addr],
                          blockedProviderRecords := mput addr r (blockedProviderRecords c)\<rparr>)
          else (None, c))"

definition blockProvider :: "string \<Rightarrow> string \<Rightarrow> bool \<Rightarrow> 64 word \<Rightarrow> 64 word \<Rightarrow> 64 word \<Rightarrow> ref option \<Rightarrow> time \<Rightarrow> csm \<Rightarrow> block_error option \<times> csm" where
  "blockProvider addr reason reportProvider sessionEpoch disconnections consecutiveErrors cb now c =
     (if sessionEpoch \<noteq> currentEpoch c then (Some EpochMismatchError, c)
      else
        let r = blank_record\<lparr>br_Reason := reason, br_Since := now, br_Detail := blockDetail disconnections consecutiveErrors\<rparr>;
            (blocked, c) = takeOut addr r c;
            c = (if reportProvider
                 then c\<lparr>reportedProviders := ReportProvider addr consecutiveErrors disconnections cb now (reportedProviders c)\<rparr> else c)
        in (None, (case blocked of
                     Some r \<Rightarrow> c\<lparr>blockedProviderRecords := mput addr (r\<lparr>br_Reported := reportProvider\<rparr>) (blockedProviderRecords c)\<rparr>
                   | None \<Rightarrow> refreshBlockOutcomeLocked addr reportProvider c)))"

definition validateAndReturnBlockedProviderToValidAddressesListLocked :: "string \<Rightarrow> csm \<Rightarrow> csm" where
  "validateAndReturnBlockedProviderToValidAddressesListLocked addr c =
     (if addr \<in> set (currentlyBlockedProviderAddresses c)
      then let c = c\<lparr>currentlyBlockedProviderAddresses := remove1 addr (currentlyBlockedProviderAddresses c)\<rparr>;
               c = snd (releaseBlockRecordLocked addr False c);
               c = (if addr \<in> set (validAddresses c) then c else c\<lparr>validAddresses := validAddresses c @ [addr]\<rparr>)
           in resetRedemption addr (RemoveAddonAddresses '''' [] c)
      else c)"

definition releaseBlockedBackupLocked :: "string \<Rightarrow> csm \<Rightarrow> csm" where
  "releaseBlockedBackupLocked addr c =
     (if addr \<in> set (blockedBackupProviders c)
      then snd (releaseBlockRecordLocked addr True (c\<lparr>blockedBackupProviders := removeAll addr (blockedBackupProviders c)\<rparr>))
      else c)"

definition releaseBlockedProvider :: "string \<Rightarrow> csm \<Rightarrow> csm" where
  "releaseBlockedProvider addr c = releaseBlockedBackupLocked addr (validateAndReturnBlockedProviderToValidAddressesListLocked addr c)"

definition RestoreRecoveredProvider :: "string \<Rightarrow> csm \<Rightarrow> csm" where
  "RestoreRecoveredProvider addr c =
     (let c = releaseBlockedProvider addr c in c\<lparr>reportedProviders := RemoveReport addr (reportedProviders c)\<rparr>)"

definition ResetTransientFailureState :: "csm \<Rightarrow> csm" where
  "ResetTransientFailureState c =
     (let c' = fold (\<lambda>a c. snd (releaseBlockRecordLocked a True c)) (blockedBackupProviders c)
                (c\<lparr>previousEpochBlockedProviders := [], blockedBackupProviders := []\<rparr>)
      in c'\<lparr>stickySessions := [], reportedProviders := rp_Reset (reportedProviders c')\<rparr>)"

definition ResetBlockedProviders :: "csm \<Rightarrow> csm" where
  "ResetBlockedProviders c =
     (if currentlyBlockedProviderAddresses c = [] then c
      else let c = RemoveAddonAddresses '''' [] (setValidAddressesToDefaultValue '''' [] ReleaseOperatorReset c)
           in fold (\<lambda>(a, r). atomicWriteBlockedStatus False r) (pairing c) c)"

definition ResetEndpointHealth :: "csm \<Rightarrow> nat \<times> csm" where
  "ResetEndpointHealth c =
     fold (\<lambda>e (n, c). case ResetHealth (endpoints c e) of
                        (reset, ep) \<Rightarrow> (if reset then n + 1 else n, c\<lparr>endpoints := (endpoints c)(e := ep)\<rparr>))
       (concat (map (\<lambda>(a, r). cs_Endpoints (providers c r)) (pairing c @ backupProviders c))) (0, c)"

section \<open>The epoch rebuild\<close>

definition WeightMultiplierForStaticProviders :: int64 where "WeightMultiplierForStaticProviders = 10"

definition CalcWeightsByStake :: "cswp list \<Rightarrow> (string, int64) gomap" where
  "CalcWeightsByStake ps =
     (let boost = (\<lambda>p. StaticProvider p \<and> stakeSize p = 0);
          stake = (\<lambda>p. if 0 < stakeSize p then stakeSize p else 10);
          plain = filter (\<lambda>p. \<not> boost p) ps;
          maxWeight = fold (\<lambda>p m. max m (stake p)) plain 1;
          weights = fold (\<lambda>p. mput (PublicLavaAddress p) (stake p)) plain []
      in fold (\<lambda>p. mput (PublicLavaAddress p) (mul64 maxWeight WeightMultiplierForStaticProviders)) (filter boost ps) weights)"

definition diffAddressSets :: "string list \<Rightarrow> string list \<Rightarrow> string list \<times> string list \<times> string list" where
  "diffAddressSets previous current =
     (sort (filter (\<lambda>a. a \<notin> set previous) current),
      sort (filter (\<lambda>a. a \<notin> set current) previous),
      sort (filter (\<lambda>a. a \<in> set previous) current))"

definition DeleteOldSessions :: "64 word \<Rightarrow> (string, StickySession) gomap \<Rightarrow> (string, StickySession) gomap" where
  "DeleteOldSessions epoch ss = filter (\<lambda>(id, s). \<not> ss_Epoch s < epoch) ss"

text \<open>The blocks of the outgoing epoch, regular ones first.\<close>

definition savedBlocks :: "time \<Rightarrow> csm \<Rightarrow> (string, BlockRecord) gomap" where
  "savedBlocks now c =
     fold (\<lambda>a m. mput a (blockRecordOrUnknownLocked now a c) m)
       (currentlyBlockedProviderAddresses c @ blockedBackupProviders c) []"

definition reblockRegular :: "string \<times> BlockRecord \<Rightarrow> csm \<Rightarrow> csm" where
  "reblockRegular kv c =
     (if mget (pairing c) (fst kv) \<noteq> None
      then snd (removeAddressFromValidAddresses (fst kv) ((withCarryOver (snd kv))\<lparr>br_Backup := False\<rparr>) c) else c)"

definition reblockBackup :: "string \<times> BlockRecord \<Rightarrow> csm \<Rightarrow> csm" where
  "reblockBackup kv c =
     (if mget (backupProviders c) (fst kv) \<noteq> None
      then c\<lparr>blockedBackupProviders := List.insert (fst kv) (blockedBackupProviders c),
             blockedProviderRecords := mput (fst kv) ((withCarryOver (snd kv))\<lparr>br_Backup := True\<rparr>) (blockedProviderRecords c)\<rparr>
      else c)"

text \<open>The outgoing epoch torn down: its blocks saved, the backup blocks and the reports dropped.\<close>

definition closeEpoch :: "64 word \<Rightarrow> nat \<Rightarrow> time \<Rightarrow> csm \<Rightarrow> csm" where
  "closeEpoch epoch n now c =
     (let c = c\<lparr>currentEpoch := epoch, pairingAddresses := [], previousEpochBlockedProviders := savedBlocks now c\<rparr>;
          c = fold (\<lambda>a c. snd (releaseBlockRecordLocked a True c)) (blockedBackupProviders c) (c\<lparr>blockedBackupProviders := []\<rparr>)
      in RemoveAddonAddresses '''' []
           (c\<lparr>reportedProviders := rp_Reset (reportedProviders c), pairingAddressesLength := of_nat n, numberOfResets := 0\<rparr>))"

definition installPairing :: "(64 word, ref) gomap \<Rightarrow> csm \<Rightarrow> csm" where
  "installPairing pairingList c =
     c\<lparr>pairingPurge := pairing c,
       pairingAddresses := map (\<lambda>(i, r). (i, PublicLavaAddress (providers c r))) pairingList,
       pairing := fold (\<lambda>(i, r). mput (PublicLavaAddress (providers c r)) r) pairingList []\<rparr>"

definition installBackups :: "(64 word, ref) gomap \<Rightarrow> csm \<Rightarrow> csm" where
  "installBackups backupList c =
     c\<lparr>backupProviders := fold (\<lambda>(i, r). mput (PublicLavaAddress (providers c r)) r) backupList []\<rparr>"

definition pushWeights :: "(64 word, ref) gomap \<Rightarrow> (64 word, ref) gomap \<Rightarrow> csm \<Rightarrow> csm" where
  "pushWeights pairingList backupList c =
     c\<lparr>optimizerWeights :=
        fold (\<lambda>(a, w). mput a w) (CalcWeightsByStake (map (providers c \<circ> snd) backupList))
          (CalcWeightsByStake (map (providers c \<circ> snd) pairingList))\<rparr>"

text \<open>\<open>False\<close> is the error for an epoch older than the current one, which leaves everything as it was.\<close>

definition UpdateAllProviders :: "64 word \<Rightarrow> (64 word, ref) gomap \<Rightarrow> (64 word, ref) gomap \<Rightarrow> time \<Rightarrow> csm \<Rightarrow> bool \<times> csm" where
  "UpdateAllProviders epoch pairingList backupList now c =
     (if epoch < currentEpoch c then (False, c)
      else
        let previousEpoch = currentEpoch c;
            c = installPairing pairingList (closeEpoch epoch (length pairingList) now c);
            c = setValidAddressesToDefaultValue '''' [] ReleaseEpochRebuild c;
            c = fold reblockRegular (previousEpochBlockedProviders c) c;
            c = installBackups backupList (pushWeights pairingList backupList c);
            c = fold reblockBackup (previousEpochBlockedProviders c) c
        in (True, c\<lparr>stickySessions := DeleteOldSessions previousEpoch (stickySessions c),
                    lastPairingUpdate := now, pairingGeneration := pairingGeneration c + 1\<rparr>))"

section \<open>The epoch check of carried-over blocks\<close>

text \<open>
  \<open>probeDirectRPCEndpoints\<close>: whether the provider has a usable url a relay can take, on a
  connection that exists (a probe of a provider-relay pool is a gRPC call and not modelled).
\<close>

definition probeDirectRPCEndpoints :: "csm \<Rightarrow> cswp \<Rightarrow> bool" where
  "probeDirectRPCEndpoints c p \<longleftrightarrow>
     list_ex (\<lambda>e. IsDirectRPC e \<and> IsUsable e \<and> ServesDirectRelays e \<and> list_ex (\<lambda>conn. conn \<noteq> None) (DirectConnections e))
       (map (endpoints c) (cs_Endpoints p))"

record reBlockedProviderInfo =
  rb_cswp :: ref
  rb_isBackup :: bool

text \<open>
  The first pass, under the lock: a carried block of a primary that was never reported is lifted at
  once, every other one still paired or still a backup has to pass a probe.
\<close>

definition needsProbe :: "csm \<Rightarrow> string \<times> BlockRecord \<Rightarrow> reBlockedProviderInfo option" where
  "needsProbe c kv =
     (case mget (pairing c) (fst kv) of
        Some r \<Rightarrow> if br_Reported (snd kv) then Some \<lparr>rb_cswp = r, rb_isBackup = False\<rparr> else None
      | None \<Rightarrow> map_option (\<lambda>r. \<lparr>rb_cswp = r, rb_isBackup = True\<rparr>) (mget (backupProviders c) (fst kv)))"

definition liftedAtOnce :: "csm \<Rightarrow> string \<times> BlockRecord \<Rightarrow> bool" where
  "liftedAtOnce c kv \<longleftrightarrow> mget (pairing c) (fst kv) \<noteq> None \<and> \<not> br_Reported (snd kv)"

definition checkFirstPass :: "64 word \<Rightarrow> csm \<Rightarrow> (string, reBlockedProviderInfo) gomap \<times> csm" where
  "checkFirstPass epoch c =
     (if epoch \<noteq> currentEpoch c then ([], c)
      else (List.map_filter (\<lambda>kv. map_option (\<lambda>i. (fst kv, i)) (needsProbe c kv)) (previousEpochBlockedProviders c),
            fold (\<lambda>kv c. if liftedAtOnce c kv then validateAndReturnBlockedProviderToValidAddressesListLocked (fst kv) c else c)
              (previousEpochBlockedProviders c) c))"

text \<open>What follows the probe of one of them (the probed provider's own address is released).\<close>

definition checkProbed :: "reBlockedProviderInfo \<Rightarrow> bool \<Rightarrow> csm \<Rightarrow> csm" where
  "checkProbed info ok c =
     (if ok
      then let addr = PublicLavaAddress (providers c (rb_cswp info));
               c = (if rb_isBackup info then releaseBlockedBackupLocked addr c
                    else validateAndReturnBlockedProviderToValidAddressesListLocked addr c)
           in c\<lparr>reportedProviders := RemoveReport addr (reportedProviders c)\<rparr>
      else c)"

definition checkDone :: "csm \<Rightarrow> csm" where
  "checkDone c = c\<lparr>previousEpochBlockedProviders := []\<rparr>"

section \<open>Every interleaving\<close>

datatype csm_event =
    Rebuilt "64 word" "(64 word, ref) gomap" "(64 word, ref) gomap" time
  | Blocked string string bool "64 word" "64 word" "64 word" "ref option" time
  | Released string
  | Restored string
  | CheckStarted "64 word"
  | CheckProbed reBlockedProviderInfo bool
  | CheckDone
  | PoolReset string "string list"
  | AddonCached string "string list"
  | TransientReset
  | BlockedReset
  | HealthReset
  | ReconnectTried "64 word" string bool time
  | StickyChanged "(string, StickySession) gomap"
  | ObjectsChanged "ref \<Rightarrow> cswp" "ref \<Rightarrow> Endpoint"

fun csm_apply :: "csm_event \<Rightarrow> csm \<Rightarrow> csm" where
  "csm_apply (Rebuilt epoch pl bl now) c = snd (UpdateAllProviders epoch pl bl now c)"
| "csm_apply (Blocked a reason rep epoch d e cb now) c = snd (blockProvider a reason rep epoch d e cb now c)"
| "csm_apply (Released a) c = releaseBlockedProvider a c"
| "csm_apply (Restored a) c = RestoreRecoveredProvider a c"
| "csm_apply (CheckStarted epoch) c = snd (checkFirstPass epoch c)"
| "csm_apply (CheckProbed info ok) c = checkProbed info ok c"
| "csm_apply CheckDone c = checkDone c"
| "csm_apply (PoolReset addon exts) c = snd (resetValidAddresses addon exts c)"
| "csm_apply (AddonCached addon exts) c = snd (cacheAddonAddresses addon exts c)"
| "csm_apply TransientReset c = ResetTransientFailureState c"
| "csm_apply BlockedReset c = ResetBlockedProviders c"
| "csm_apply HealthReset c = snd (ResetEndpointHealth c)"
| "csm_apply (ReconnectTried gen a ok now) c = c\<lparr>reportedProviders := reconnectOutcome gen a ok now (reportedProviders c)\<rparr>"
| "csm_apply (StickyChanged ss) c = c\<lparr>stickySessions := ss\<rparr>"
| "csm_apply (ObjectsChanged ps es) c = c\<lparr>providers := ps, endpoints := es\<rparr>"

text \<open>
  The lists a rebuild is given name each provider once: \<open>ValidateUniqueProviderNames\<close> refuses a
  configuration that does not.
\<close>

fun event_ok :: "csm \<Rightarrow> csm_event \<Rightarrow> bool" where
  "event_ok c (Rebuilt epoch pl bl now) \<longleftrightarrow> distinct (map (\<lambda>ir. PublicLavaAddress (providers c (snd ir))) pl)"
| "event_ok c _ \<longleftrightarrow> True"

inductive csm_reachable :: "csm \<Rightarrow> bool" where
  start: "csm_reachable (NewConsumerSessionManager ps es)"
| step: "csm_reachable c \<Longrightarrow> event_ok c ev \<Longrightarrow> csm_reachable (csm_apply ev c)"

section \<open>What every state satisfies\<close>

text \<open>The record of a block and the store that holds the block agree.\<close>

definition booked :: "(string \<Rightarrow> BlockRecord option) \<Rightarrow> string set \<Rightarrow> string set \<Rightarrow> bool" where
  "booked recs B BB \<longleftrightarrow> dom recs = B \<union> BB \<and> (\<forall>a r. recs a = Some r \<longrightarrow> a \<in> (if br_Backup r then BB else B))"

definition books_ok :: "csm \<Rightarrow> bool" where
  "books_ok c \<longleftrightarrow> booked (mget (blockedProviderRecords c)) (set (currentlyBlockedProviderAddresses c)) (set (blockedBackupProviders c))"

text \<open>Selectable and blocked primaries are paired, once each, and never both.\<close>

definition lists_ok :: "csm \<Rightarrow> bool" where
  "lists_ok c \<longleftrightarrow>
     distinct (validAddresses c) \<and> distinct (currentlyBlockedProviderAddresses c)
   \<and> set (validAddresses c) \<inter> set (currentlyBlockedProviderAddresses c) = {}
   \<and> set (validAddresses c) \<union> set (currentlyBlockedProviderAddresses c) \<subseteq> dom (mget (pairing c))
   \<and> distinct (map snd (pairingAddresses c)) \<and> snd ` set (pairingAddresses c) = dom (mget (pairing c))"

definition backups_ok :: "csm \<Rightarrow> bool" where
  "backups_ok c \<longleftrightarrow> distinct (blockedBackupProviders c) \<and> set (blockedBackupProviders c) \<subseteq> dom (mget (backupProviders c))"

text \<open>What a cache entry names is selectable, and an empty result is not kept as an entry.\<close>

definition caches_ok :: "csm \<Rightarrow> bool" where
  "caches_ok c \<longleftrightarrow> (\<forall>k xs. mget (addonAddresses c) k = Some (Some xs) \<longrightarrow> xs \<noteq> [] \<and> set xs \<subseteq> set (validAddresses c))"

definition csm_ok :: "csm \<Rightarrow> bool" where
  "csm_ok c \<longleftrightarrow> books_ok c \<and> lists_ok c \<and> backups_ok c \<and> caches_ok c"

section \<open>What each operation leaves alone\<close>

lemmas release_defs = releaseBlockRecordLocked_def remainingBlockScopeLocked_def

lemma release_fields [simp]:
  "providers (snd (releaseBlockRecordLocked a b c)) = providers c"
  "endpoints (snd (releaseBlockRecordLocked a b c)) = endpoints c"
  "pairing (snd (releaseBlockRecordLocked a b c)) = pairing c"
  "pairingAddresses (snd (releaseBlockRecordLocked a b c)) = pairingAddresses c"
  "validAddresses (snd (releaseBlockRecordLocked a b c)) = validAddresses c"
  "currentlyBlockedProviderAddresses (snd (releaseBlockRecordLocked a b c)) = currentlyBlockedProviderAddresses c"
  "blockedBackupProviders (snd (releaseBlockRecordLocked a b c)) = blockedBackupProviders c"
  "backupProviders (snd (releaseBlockRecordLocked a b c)) = backupProviders c"
  "addonAddresses (snd (releaseBlockRecordLocked a b c)) = addonAddresses c"
  "previousEpochBlockedProviders (snd (releaseBlockRecordLocked a b c)) = previousEpochBlockedProviders c"
  "currentEpoch (snd (releaseBlockRecordLocked a b c)) = currentEpoch c"
  "reportedProviders (snd (releaseBlockRecordLocked a b c)) = reportedProviders c"
  "stickySessions (snd (releaseBlockRecordLocked a b c)) = stickySessions c"
  by (simp_all add: release_defs Let_def split: option.split)

definition standing :: "string set \<Rightarrow> string set \<Rightarrow> string \<Rightarrow> BlockRecord option \<Rightarrow> BlockRecord option" where
  "standing B BB a r = (if a \<in> B \<union> BB then map_option (\<lambda>r. r\<lparr>br_Backup := a \<in> BB\<rparr>) r else None)"

lemma release_get:
  "mget (blockedProviderRecords (snd (releaseBlockRecordLocked a b c))) =
     (mget (blockedProviderRecords c))(a := standing (set (currentlyBlockedProviderAddresses c)) (set (blockedBackupProviders c)) a (mget (blockedProviderRecords c) a))"
  by (auto simp: release_defs Let_def standing_def fun_eq_iff split: option.split)

lemma release_fold_fields [simp]:
  "providers (fold (\<lambda>a c. snd (releaseBlockRecordLocked a b c)) xs c) = providers c"
  "endpoints (fold (\<lambda>a c. snd (releaseBlockRecordLocked a b c)) xs c) = endpoints c"
  "pairing (fold (\<lambda>a c. snd (releaseBlockRecordLocked a b c)) xs c) = pairing c"
  "pairingAddresses (fold (\<lambda>a c. snd (releaseBlockRecordLocked a b c)) xs c) = pairingAddresses c"
  "validAddresses (fold (\<lambda>a c. snd (releaseBlockRecordLocked a b c)) xs c) = validAddresses c"
  "currentlyBlockedProviderAddresses (fold (\<lambda>a c. snd (releaseBlockRecordLocked a b c)) xs c) = currentlyBlockedProviderAddresses c"
  "blockedBackupProviders (fold (\<lambda>a c. snd (releaseBlockRecordLocked a b c)) xs c) = blockedBackupProviders c"
  "backupProviders (fold (\<lambda>a c. snd (releaseBlockRecordLocked a b c)) xs c) = backupProviders c"
  "addonAddresses (fold (\<lambda>a c. snd (releaseBlockRecordLocked a b c)) xs c) = addonAddresses c"
  "previousEpochBlockedProviders (fold (\<lambda>a c. snd (releaseBlockRecordLocked a b c)) xs c) = previousEpochBlockedProviders c"
  "currentEpoch (fold (\<lambda>a c. snd (releaseBlockRecordLocked a b c)) xs c) = currentEpoch c"
  "reportedProviders (fold (\<lambda>a c. snd (releaseBlockRecordLocked a b c)) xs c) = reportedProviders c"
  "stickySessions (fold (\<lambda>a c. snd (releaseBlockRecordLocked a b c)) xs c) = stickySessions c"
  by (induction xs arbitrary: c; simp)+

lemma standing_idem [simp]: "standing B BB a (standing B BB a r) = standing B BB a r"
  by (cases r) (auto simp: standing_def)

lemma release_fold_get:
  "mget (blockedProviderRecords (fold (\<lambda>a c. snd (releaseBlockRecordLocked a b c)) xs c)) =
     (\<lambda>a. if a \<in> set xs
          then standing (set (currentlyBlockedProviderAddresses c)) (set (blockedBackupProviders c)) a (mget (blockedProviderRecords c) a)
          else mget (blockedProviderRecords c) a)"
  by (induction xs arbitrary: c) (auto simp: release_get fun_eq_iff)

lemma resetRedemption_fields [simp]:
  "endpoints (resetRedemption a c) = endpoints c"
  "pairing (resetRedemption a c) = pairing c"
  "pairingAddresses (resetRedemption a c) = pairingAddresses c"
  "validAddresses (resetRedemption a c) = validAddresses c"
  "currentlyBlockedProviderAddresses (resetRedemption a c) = currentlyBlockedProviderAddresses c"
  "blockedBackupProviders (resetRedemption a c) = blockedBackupProviders c"
  "backupProviders (resetRedemption a c) = backupProviders c"
  "addonAddresses (resetRedemption a c) = addonAddresses c"
  "blockedProviderRecords (resetRedemption a c) = blockedProviderRecords c"
  "previousEpochBlockedProviders (resetRedemption a c) = previousEpochBlockedProviders c"
  "currentEpoch (resetRedemption a c) = currentEpoch c"
  "reportedProviders (resetRedemption a c) = reportedProviders c"
  "stickySessions (resetRedemption a c) = stickySessions c"
  by (simp_all add: resetRedemption_def atomicWriteBlockedStatus_def split: option.split)

lemma purge_fields [simp]:
  "RemoveAddonAddresses '''' [] c = c\<lparr>addonAddresses := []\<rparr>"
  by (simp add: RemoveAddonAddresses_def)

definition releaseOne :: "ReleaseRoute \<Rightarrow> string \<Rightarrow> csm \<Rightarrow> csm" where
  "releaseOne route a c =
     (let c = snd (releaseBlockRecordLocked a False c) in if route = ReleaseEpochRebuild then c else resetRedemption a c)"

lemma releaseOne_fold_fields [simp]:
  "endpoints (fold (releaseOne route) xs c) = endpoints c"
  "pairing (fold (releaseOne route) xs c) = pairing c"
  "pairingAddresses (fold (releaseOne route) xs c) = pairingAddresses c"
  "validAddresses (fold (releaseOne route) xs c) = validAddresses c"
  "currentlyBlockedProviderAddresses (fold (releaseOne route) xs c) = currentlyBlockedProviderAddresses c"
  "blockedBackupProviders (fold (releaseOne route) xs c) = blockedBackupProviders c"
  "backupProviders (fold (releaseOne route) xs c) = backupProviders c"
  "addonAddresses (fold (releaseOne route) xs c) = addonAddresses c"
  "previousEpochBlockedProviders (fold (releaseOne route) xs c) = previousEpochBlockedProviders c"
  "currentEpoch (fold (releaseOne route) xs c) = currentEpoch c"
  "reportedProviders (fold (releaseOne route) xs c) = reportedProviders c"
  "stickySessions (fold (releaseOne route) xs c) = stickySessions c"
  by (induction xs arbitrary: c; simp add: releaseOne_def Let_def)+

lemma releaseOne_fold_get:
  "mget (blockedProviderRecords (fold (releaseOne route) xs c)) =
     (\<lambda>a. if a \<in> set xs
          then standing (set (currentlyBlockedProviderAddresses c)) (set (blockedBackupProviders c)) a (mget (blockedProviderRecords c) a)
          else mget (blockedProviderRecords c) a)"
proof (induction xs arbitrary: c)
  case (Cons x xs)
  then show ?case by (auto simp: releaseOne_def Let_def release_get fun_eq_iff)
qed simp

lemma releaseAll_eq:
  "releaseAll route c = fold (releaseOne route) (currentlyBlockedProviderAddresses c) (c\<lparr>currentlyBlockedProviderAddresses := []\<rparr>)"
  unfolding releaseAll_def releaseOne_def by (rule arg_cong [of _ _ "\<lambda>f. fold f _ _"]) (simp add: fun_eq_iff Let_def)

lemma releaseAll_fields [simp]:
  "endpoints (releaseAll route c) = endpoints c"
  "pairing (releaseAll route c) = pairing c"
  "pairingAddresses (releaseAll route c) = pairingAddresses c"
  "validAddresses (releaseAll route c) = validAddresses c"
  "currentlyBlockedProviderAddresses (releaseAll route c) = []"
  "blockedBackupProviders (releaseAll route c) = blockedBackupProviders c"
  "backupProviders (releaseAll route c) = backupProviders c"
  "addonAddresses (releaseAll route c) = addonAddresses c"
  "previousEpochBlockedProviders (releaseAll route c) = previousEpochBlockedProviders c"
  "currentEpoch (releaseAll route c) = currentEpoch c"
  "reportedProviders (releaseAll route c) = reportedProviders c"
  "stickySessions (releaseAll route c) = stickySessions c"
  by (simp_all add: releaseAll_eq)

section \<open>The books\<close>


lemma booked_drop_regular:
  assumes "booked recs B BB" and "B' \<subseteq> B"
  shows "booked (\<lambda>a. if a \<in> B - B' then standing B' BB a (recs a) else recs a) B' BB"
  using assms by (fastforce simp: booked_def standing_def dom_def split: if_splits)

lemma booked_drop_backup:
  assumes "booked recs B BB" and "BB' \<subseteq> BB"
  shows "booked (\<lambda>a. if a \<in> BB - BB' then standing B BB' a (recs a) else recs a) B BB'"
  using assms by (fastforce simp: booked_def standing_def dom_def split: if_splits)

lemma booked_put:
  assumes "booked recs B BB" and "a \<in> (if br_Backup r then BB' else B')" and "B' \<union> BB' = insert a (B \<union> BB)"
    and "B \<subseteq> B'" and "BB \<subseteq> BB'"
  shows "booked (recs(a \<mapsto> r)) B' BB'"
  using assms by (fastforce simp: booked_def split: if_splits)

lemma booked_release_regular:
  assumes "booked recs B BB" and "a \<in> B" and "B' = B - {a}"
  shows "booked (recs(a := standing B' BB a (recs a))) B' BB"
proof -
  have "(\<lambda>x. if x \<in> B - B' then standing B' BB x (recs x) else recs x) = recs(a := standing B' BB a (recs a))"
    using assms(2,3) by auto
  then show ?thesis using booked_drop_regular [OF assms(1), of B'] assms(3) by auto
qed

lemma booked_release_backup:
  assumes "booked recs B BB" and "a \<in> BB" and "BB' = BB - {a}"
  shows "booked (recs(a := standing B BB' a (recs a))) B BB'"
proof -
  have "(\<lambda>x. if x \<in> BB - BB' then standing B BB' x (recs x) else recs x) = recs(a := standing B BB' a (recs a))"
    using assms(2,3) by auto
  then show ?thesis using booked_drop_backup [OF assms(1), of BB'] assms(3) by auto
qed

lemma releaseAll_books: "books_ok c \<Longrightarrow> books_ok (releaseAll route c)"
  using booked_drop_regular [of "mget (blockedProviderRecords c)" "set (currentlyBlockedProviderAddresses c)" "set (blockedBackupProviders c)" "{}"]
  by (simp add: books_ok_def releaseAll_eq releaseOne_fold_get cong: if_cong)

lemma setValid_fields [simp]:
  "pairing (setValidAddressesToDefaultValue addon exts route c) = pairing c"
  "pairingAddresses (setValidAddressesToDefaultValue addon exts route c) = pairingAddresses c"
  "currentlyBlockedProviderAddresses (setValidAddressesToDefaultValue addon exts route c) = []"
  "blockedBackupProviders (setValidAddressesToDefaultValue addon exts route c) = blockedBackupProviders c"
  "backupProviders (setValidAddressesToDefaultValue addon exts route c) = backupProviders c"
  "previousEpochBlockedProviders (setValidAddressesToDefaultValue addon exts route c) = previousEpochBlockedProviders c"
  "currentEpoch (setValidAddressesToDefaultValue addon exts route c) = currentEpoch c"
  "reportedProviders (setValidAddressesToDefaultValue addon exts route c) = reportedProviders c"
  "stickySessions (setValidAddressesToDefaultValue addon exts route c) = stickySessions c"
  "endpoints (setValidAddressesToDefaultValue addon exts route c) = endpoints c"
  "blockedProviderRecords (setValidAddressesToDefaultValue addon exts route c) = blockedProviderRecords (releaseAll route c)"
  by (simp_all add: setValidAddressesToDefaultValue_def RemoveAddonAddresses_def Let_def)

lemma addIfServing_fold:
  "set (fold (addIfServing addon exts c) as valid) = set valid \<union> {a \<in> set as. serves c addon exts (paired c a)}"
  "distinct valid \<Longrightarrow> distinct (fold (addIfServing addon exts c) as valid)"
  by (induction as arbitrary: valid) (auto simp: addIfServing_def)

lemma releaseAll_urls [simp]: "cs_Endpoints (providers (releaseAll route c) r) = cs_Endpoints (providers c r)"
proof -
  have "cs_Endpoints (providers (fold (releaseOne route) xs c) r) = cs_Endpoints (providers c r)" for xs c
    by (induction xs arbitrary: c)
       (auto simp: releaseOne_def Let_def resetRedemption_def atomicWriteBlockedStatus_def split: option.split)
  then show ?thesis by (simp add: releaseAll_eq)
qed

lemma paired_releaseAll [simp]:
  "serves (releaseAll route c) addon exts (paired (releaseAll route c) a) = serves c addon exts (paired c a)"
  by (simp add: serves_def paired_def IsSupportingAddon_def IsSupportingExtensions_def split: option.split)

lemma setValid_valid:
  "set (validAddresses (setValidAddressesToDefaultValue addon exts route c)) =
     (if addon = '''' \<and> exts = [] then snd ` set (pairingAddresses c)
      else set (validAddresses c) \<union> {a \<in> snd ` set (pairingAddresses c). serves c addon exts (paired c a)})"
  by (auto simp: setValidAddressesToDefaultValue_def RemoveAddonAddresses_def Let_def addIfServing_fold)

lemma setValid_lists: "lists_ok c \<Longrightarrow> lists_ok (setValidAddressesToDefaultValue addon exts route c)"
  unfolding lists_ok_def setValid_valid
  by (auto simp: setValidAddressesToDefaultValue_def RemoveAddonAddresses_def Let_def addIfServing_fold)

lemma setValid_caches:
  assumes "caches_ok c" and "set (validAddresses c) \<subseteq> snd ` set (pairingAddresses c)"
  shows "caches_ok (setValidAddressesToDefaultValue addon exts route c)"
  using assms
  by (fastforce simp: caches_ok_def setValidAddressesToDefaultValue_def RemoveAddonAddresses_def Let_def addIfServing_fold
      CalculateAddonValidAddresses_def slice_of_def split: if_splits)

lemma setValid_ok: "csm_ok c \<Longrightarrow> csm_ok (setValidAddressesToDefaultValue addon exts route c)"
  using releaseAll_books [of c route]
  by (auto simp: csm_ok_def setValid_lists books_ok_def backups_ok_def intro!: setValid_caches) (auto simp: lists_ok_def)

lemma reset_ok: "csm_ok c \<Longrightarrow> csm_ok (snd (resetValidAddresses addon exts c))"
  using setValid_ok [of c addon exts ReleasePoolEmpty]
  by (simp add: resetValidAddresses_def Let_def csm_ok_def books_ok_def lists_ok_def backups_ok_def caches_ok_def)

lemma cache_ok: "csm_ok c \<Longrightarrow> csm_ok (snd (cacheAddonAddresses addon exts c))"
  by (auto simp: csm_ok_def books_ok_def lists_ok_def backups_ok_def caches_ok_def cacheAddonAddresses_def Let_def
      CalculateAddonValidAddresses_def slice_of_def split: option.splits if_splits)

section \<open>Every operation keeps them\<close>

lemma ok_frame [simp]:
  "caches_ok (c\<lparr>blockedBackupProviders := bb\<rparr>) = caches_ok c"
  "caches_ok (c\<lparr>blockedProviderRecords := rs\<rparr>) = caches_ok c"
  "lists_ok (c\<lparr>blockedBackupProviders := bb\<rparr>) = lists_ok c"
  "lists_ok (c\<lparr>blockedProviderRecords := rs\<rparr>) = lists_ok c"
  by (simp_all add: caches_ok_def lists_ok_def)

lemma remove_unfold:
  "removeAddressFromValidAddresses a r c =
     (if a \<in> set (validAddresses c)
      then (True, c\<lparr>validAddresses := remove1 a (validAddresses c), addonAddresses := [],
                    currentlyBlockedProviderAddresses := sort_key (\<lambda>a. - uint (usedOf c a)) (currentlyBlockedProviderAddresses c @ [a]),
                    blockedProviderRecords := mput a r (blockedProviderRecords c)\<rparr>)
      else (False, c))"
  by (simp add: removeAddressFromValidAddresses_def sortBlockedProviderListByCuServed_def Let_def usedOf_def paired_def o_def
      cong: option.case_cong)

lemma remove_ok:
  assumes "csm_ok c" and "\<not> br_Backup r"
  shows "csm_ok (snd (removeAddressFromValidAddresses a r c))"
proof (cases "a \<in> set (validAddresses c)")
  case True
  with assms show ?thesis
    by (auto simp: csm_ok_def books_ok_def lists_ok_def backups_ok_def caches_ok_def remove_unfold distinct_sort
        intro!: booked_put)
qed (simp add: remove_unfold assms)

lemma remove_fields [simp]:
  "pairing (snd (removeAddressFromValidAddresses a r c)) = pairing c"
  "pairingAddresses (snd (removeAddressFromValidAddresses a r c)) = pairingAddresses c"
  "backupProviders (snd (removeAddressFromValidAddresses a r c)) = backupProviders c"
  "blockedBackupProviders (snd (removeAddressFromValidAddresses a r c)) = blockedBackupProviders c"
  "previousEpochBlockedProviders (snd (removeAddressFromValidAddresses a r c)) = previousEpochBlockedProviders c"
  "providers (snd (removeAddressFromValidAddresses a r c)) = providers c"
  "endpoints (snd (removeAddressFromValidAddresses a r c)) = endpoints c"
  "currentEpoch (snd (removeAddressFromValidAddresses a r c)) = currentEpoch c"
  "reportedProviders (snd (removeAddressFromValidAddresses a r c)) = reportedProviders c"
  "stickySessions (snd (removeAddressFromValidAddresses a r c)) = stickySessions c"
  by (simp_all add: remove_unfold)

lemma takeOut_ok:
  assumes "csm_ok c" and "\<not> br_Backup r" and "takeOut a r c = (b, c')"
  shows "csm_ok c' \<and> (b = None \<or> (\<exists>r'. b = Some r' \<and> mget (blockedProviderRecords c') a = Some r'))"
proof (cases "a \<in> set (validAddresses c)")
  case True
  with assms remove_ok [OF assms(1,2), of a] show ?thesis
    by (auto simp: takeOut_def remove_unfold)
next
  case False
  with assms show ?thesis
    by (auto simp: takeOut_def remove_unfold Let_def csm_ok_def books_ok_def backups_ok_def
        intro!: booked_put split: if_splits)
qed

lemma reput_ok:
  assumes "csm_ok c" and "mget (blockedProviderRecords c) a = Some r" and "br_Backup r' = br_Backup r"
  shows "csm_ok (c\<lparr>blockedProviderRecords := mput a r' (blockedProviderRecords c)\<rparr>)"
proof -
  let ?B = "set (currentlyBlockedProviderAddresses c)" and ?BB = "set (blockedBackupProviders c)"
  from assms(1) have bk: "booked (mget (blockedProviderRecords c)) ?B ?BB" by (simp add: csm_ok_def books_ok_def)
  with assms(2,3) have "a \<in> (if br_Backup r' then ?BB else ?B)" by (auto simp: booked_def)
  then have "booked ((mget (blockedProviderRecords c))(a \<mapsto> r')) ?B ?BB"
    by (intro booked_put [OF bk]) (auto split: if_splits)
  then show ?thesis using assms(1) by (simp add: csm_ok_def books_ok_def lists_ok_def backups_ok_def caches_ok_def)
qed

lemma reported_ok: "csm_ok c \<Longrightarrow> csm_ok (c\<lparr>reportedProviders := rp\<rparr>)"
  by (simp add: csm_ok_def books_ok_def lists_ok_def backups_ok_def caches_ok_def)

lemma refresh_ok: "csm_ok c \<Longrightarrow> csm_ok (refreshBlockOutcomeLocked a rep c)"
  by (auto simp: refreshBlockOutcomeLocked_def intro: reput_ok split: option.split)

lemma block_ok: "csm_ok c \<Longrightarrow> csm_ok (snd (blockProvider a reason rep epoch d e cb now c))"
proof (cases "epoch = currentEpoch c")
  case True
  assume ok: "csm_ok c"
  let ?r = "blank_record\<lparr>br_Reason := reason, br_Since := now, br_Detail := blockDetail d e\<rparr>"
  obtain b c' where tk: "takeOut a ?r c = (b, c')" by fastforce
  from takeOut_ok [OF ok _ tk]
  have "csm_ok c'" and "b = None \<or> (\<exists>r'. b = Some r' \<and> mget (blockedProviderRecords c') a = Some r')"
    by (simp_all add: blank_record_def)
  moreover define c2 where "c2 = (if rep then c'\<lparr>reportedProviders := ReportProvider a e d cb now (reportedProviders c')\<rparr> else c')"
  ultimately have "csm_ok c2" and "b = None \<or> (\<exists>r'. b = Some r' \<and> mget (blockedProviderRecords c2) a = Some r')"
    by (auto simp: reported_ok)
  moreover have "snd (blockProvider a reason rep epoch d e cb now c) =
      (case b of Some r \<Rightarrow> c2\<lparr>blockedProviderRecords := mput a (r\<lparr>br_Reported := rep\<rparr>) (blockedProviderRecords c2)\<rparr>
       | None \<Rightarrow> refreshBlockOutcomeLocked a rep c2)"
    using True by (cases b; cases rep) (simp_all add: blockProvider_def tk Let_def c2_def)
  ultimately show ?thesis by (auto intro: refresh_ok intro!: reput_ok)
qed (simp add: blockProvider_def)

lemma return_ok:
  assumes "csm_ok c"
  shows "csm_ok (validateAndReturnBlockedProviderToValidAddressesListLocked a c)"
proof (cases "a \<in> set (currentlyBlockedProviderAddresses c)")
  case True
  let ?c = "c\<lparr>currentlyBlockedProviderAddresses := remove1 a (currentlyBlockedProviderAddresses c)\<rparr>"
  from assms have bk: "booked (mget (blockedProviderRecords c)) (set (currentlyBlockedProviderAddresses c)) (set (blockedBackupProviders c))"
    and "distinct (currentlyBlockedProviderAddresses c)" and "a \<notin> set (validAddresses c)"
    using True by (auto simp: csm_ok_def books_ok_def lists_ok_def)
  with booked_release_regular [OF bk True, of "set (remove1 a (currentlyBlockedProviderAddresses c))"]
  have "booked (mget (blockedProviderRecords (snd (releaseBlockRecordLocked a False ?c))))
          (set (remove1 a (currentlyBlockedProviderAddresses c))) (set (blockedBackupProviders c))"
    by (simp add: release_get)
  with assms True \<open>a \<notin> set (validAddresses c)\<close> show ?thesis
    by (auto simp: validateAndReturnBlockedProviderToValidAddressesListLocked_def Let_def csm_ok_def books_ok_def
        lists_ok_def backups_ok_def caches_ok_def)
qed (simp add: validateAndReturnBlockedProviderToValidAddressesListLocked_def assms)

lemma backup_release_ok:
  assumes "csm_ok c"
  shows "csm_ok (releaseBlockedBackupLocked a c)"
proof (cases "a \<in> set (blockedBackupProviders c)")
  case True
  let ?c = "c\<lparr>blockedBackupProviders := removeAll a (blockedBackupProviders c)\<rparr>"
  from assms have bk: "booked (mget (blockedProviderRecords c)) (set (currentlyBlockedProviderAddresses c)) (set (blockedBackupProviders c))"
    by (simp add: csm_ok_def books_ok_def)
  from booked_release_backup [OF bk True, of "set (removeAll a (blockedBackupProviders c))"]
  have "booked (mget (blockedProviderRecords (snd (releaseBlockRecordLocked a True ?c))))
          (set (currentlyBlockedProviderAddresses c)) (set (removeAll a (blockedBackupProviders c)))"
    by (simp add: release_get)
  with assms True show ?thesis
    by (auto simp: releaseBlockedBackupLocked_def Let_def csm_ok_def books_ok_def
        lists_ok_def backups_ok_def caches_ok_def distinct_removeAll)
qed (simp add: releaseBlockedBackupLocked_def assms)

lemma released_ok: "csm_ok c \<Longrightarrow> csm_ok (releaseBlockedProvider a c)"
  by (simp add: releaseBlockedProvider_def return_ok backup_release_ok)

lemma backups_dropped_books:
  assumes "books_ok c"
  shows "books_ok (fold (\<lambda>a c. snd (releaseBlockRecordLocked a True c)) (blockedBackupProviders c) (c\<lparr>blockedBackupProviders := []\<rparr>))"
  using booked_drop_backup [of "mget (blockedProviderRecords c)" "set (currentlyBlockedProviderAddresses c)" "set (blockedBackupProviders c)" "{}"] assms
  by (simp add: books_ok_def release_fold_get cong: if_cong)

lemma transient_ok: "csm_ok c \<Longrightarrow> csm_ok (ResetTransientFailureState c)"
  using backups_dropped_books [of "c\<lparr>previousEpochBlockedProviders := []\<rparr>"]
  by (simp add: ResetTransientFailureState_def Let_def csm_ok_def books_ok_def lists_ok_def backups_ok_def caches_ok_def)

lemma status_fold_fields [simp]:
  "pairing (fold (\<lambda>(a, r). atomicWriteBlockedStatus b r) kvs c) = pairing c"
  "pairingAddresses (fold (\<lambda>(a, r). atomicWriteBlockedStatus b r) kvs c) = pairingAddresses c"
  "validAddresses (fold (\<lambda>(a, r). atomicWriteBlockedStatus b r) kvs c) = validAddresses c"
  "currentlyBlockedProviderAddresses (fold (\<lambda>(a, r). atomicWriteBlockedStatus b r) kvs c) = currentlyBlockedProviderAddresses c"
  "blockedBackupProviders (fold (\<lambda>(a, r). atomicWriteBlockedStatus b r) kvs c) = blockedBackupProviders c"
  "backupProviders (fold (\<lambda>(a, r). atomicWriteBlockedStatus b r) kvs c) = backupProviders c"
  "blockedProviderRecords (fold (\<lambda>(a, r). atomicWriteBlockedStatus b r) kvs c) = blockedProviderRecords c"
  "addonAddresses (fold (\<lambda>(a, r). atomicWriteBlockedStatus b r) kvs c) = addonAddresses c"
  by (induction kvs arbitrary: c; auto simp: atomicWriteBlockedStatus_def)+

lemma blocked_reset_ok: "csm_ok c \<Longrightarrow> csm_ok (ResetBlockedProviders c)"
  using setValid_ok [of c "''''" "[]" ReleaseOperatorReset]
  by (cases "currentlyBlockedProviderAddresses c = []")
     (simp_all add: ResetBlockedProviders_def Let_def csm_ok_def books_ok_def lists_ok_def backups_ok_def caches_ok_def)

lemma health_fold:
  "\<exists>es. snd (fold (\<lambda>e (n, c). case ResetHealth (endpoints c e) of
       (reset, ep) \<Rightarrow> (if reset then n + 1 else n, c\<lparr>endpoints := (endpoints c)(e := ep)\<rparr>)) refs (k::nat, c)) = c\<lparr>endpoints := es\<rparr>"
proof (induction refs arbitrary: k c)
  case Nil
  show ?case by (rule exI [of _ "endpoints c"]) simp
next
  case (Cons e refs)
  obtain reset ep where r: "ResetHealth (endpoints c e) = (reset, ep)" by fastforce
  from Cons.IH [of "if reset then k + 1 else k" "c\<lparr>endpoints := (endpoints c)(e := ep)\<rparr>"]
  show ?case by (simp only: fold_simps(2) case_prod_conv r comp_apply csm.update_convs)
      (simp del: fun_upd_apply)
qed

lemma objects_ok: "csm_ok c \<Longrightarrow> csm_ok (c\<lparr>providers := ps, endpoints := es\<rparr>)"
  by (simp add: csm_ok_def books_ok_def lists_ok_def backups_ok_def caches_ok_def)

lemma health_ok:
  assumes "csm_ok c"
  shows "csm_ok (snd (ResetEndpointHealth c))"
proof -
  obtain es where "snd (ResetEndpointHealth c) = c\<lparr>endpoints := es\<rparr>"
    using health_fold unfolding ResetEndpointHealth_def by blast
  then show ?thesis using objects_ok [OF assms, where ps = "providers c" and es = es] by simp
qed

lemma restore_ok: "csm_ok c \<Longrightarrow> csm_ok (RestoreRecoveredProvider a c)"
  by (simp add: RestoreRecoveredProvider_def Let_def reported_ok released_ok)

lemma check_ok: "csm_ok c \<Longrightarrow> csm_ok (snd (checkFirstPass epoch c))"
proof -
  have "csm_ok c \<Longrightarrow> csm_ok (fold (\<lambda>kv c. if liftedAtOnce c kv
          then validateAndReturnBlockedProviderToValidAddressesListLocked (fst kv) c else c) kvs c)" for kvs c
    by (induction kvs arbitrary: c) (auto simp: return_ok)
  then show "csm_ok c \<Longrightarrow> ?thesis" by (simp add: checkFirstPass_def)
qed

lemma probed_ok: "csm_ok c \<Longrightarrow> csm_ok (checkProbed info ok c)"
  by (simp add: checkProbed_def Let_def reported_ok return_ok backup_release_ok)

text \<open>The rebuild, phase by phase.\<close>

lemma close_books:
  assumes "books_ok c"
  shows "books_ok (closeEpoch epoch n now c)"
  using backups_dropped_books
    [of "c\<lparr>currentEpoch := epoch, pairingAddresses := [], previousEpochBlockedProviders := savedBlocks now c\<rparr>"] assms
  by (simp add: closeEpoch_def Let_def books_ok_def)

lemma close_fields [simp]:
  "pairing (closeEpoch epoch n now c) = pairing c"
  "providers (closeEpoch epoch n now c) = providers c"
  "endpoints (closeEpoch epoch n now c) = endpoints c"
  "currentEpoch (closeEpoch epoch n now c) = epoch"
  "currentlyBlockedProviderAddresses (closeEpoch epoch n now c) = currentlyBlockedProviderAddresses c"
  "validAddresses (closeEpoch epoch n now c) = validAddresses c"
  "blockedBackupProviders (closeEpoch epoch n now c) = []"
  "backupProviders (closeEpoch epoch n now c) = backupProviders c"
  "addonAddresses (closeEpoch epoch n now c) = []"
  "previousEpochBlockedProviders (closeEpoch epoch n now c) = savedBlocks now c"
  "stickySessions (closeEpoch epoch n now c) = stickySessions c"
  by (simp_all add: closeEpoch_def Let_def)

lemma keyed_fold_dom:
  "dom (mget (fold (\<lambda>ir. mput (key (snd ir)) (snd ir)) xs m)) = dom (mget m) \<union> (\<lambda>ir. key (snd ir)) ` set xs"
  by (induction xs arbitrary: m) auto

text \<open>The manager once the new pairing is installed and every provider of it selectable.\<close>

definition refilled :: "64 word \<Rightarrow> (64 word, ref) gomap \<Rightarrow> time \<Rightarrow> csm \<Rightarrow> csm" where
  "refilled epoch pl now c =
     setValidAddressesToDefaultValue '''' [] ReleaseEpochRebuild (installPairing pl (closeEpoch epoch (length pl) now c))"

lemma refilled_fields [simp]:
  "validAddresses (refilled epoch pl now c) = map (\<lambda>ir. PublicLavaAddress (providers c (snd ir))) pl"
  "currentlyBlockedProviderAddresses (refilled epoch pl now c) = []"
  "blockedBackupProviders (refilled epoch pl now c) = []"
  "previousEpochBlockedProviders (refilled epoch pl now c) = savedBlocks now c"
  "dom (mget (pairing (refilled epoch pl now c))) = (\<lambda>ir. PublicLavaAddress (providers c (snd ir))) ` set pl"
  "currentEpoch (refilled epoch pl now c) = epoch"
  by (simp_all add: refilled_def installPairing_def setValidAddressesToDefaultValue_def Let_def keyed_fold_dom [of "\<lambda>r. PublicLavaAddress (providers c r)"]
      comp_def case_prod_unfold)

lemma refilled_ok:
  assumes "books_ok c" and "distinct (map (\<lambda>ir. PublicLavaAddress (providers c (snd ir))) pl)"
  shows "csm_ok (refilled epoch pl now c)"
proof -
  have "books_ok (installPairing pl (closeEpoch epoch (length pl) now c))"
    using close_books [OF assms(1)] by (simp add: installPairing_def books_ok_def)
  then have "books_ok (refilled epoch pl now c)"
    using releaseAll_books by (simp add: refilled_def books_ok_def)
  moreover have "caches_ok (refilled epoch pl now c)"
    by (simp add: caches_ok_def refilled_def setValidAddressesToDefaultValue_def installPairing_def Let_def)
  moreover have "lists_ok (refilled epoch pl now c)"
    using assms(2)
    by (simp add: lists_ok_def) (simp add: refilled_def installPairing_def comp_def case_prod_unfold image_image)
  moreover have "backups_ok (refilled epoch pl now c)" by (simp add: backups_ok_def)
  ultimately show ?thesis by (simp add: csm_ok_def)
qed

lemma reblockRegular_ok: "csm_ok c \<Longrightarrow> csm_ok (fold reblockRegular kvs c)"
  by (induction kvs arbitrary: c) (auto simp: reblockRegular_def remove_ok)

lemma reblockBackup_ok: "csm_ok c \<Longrightarrow> csm_ok (fold reblockBackup kvs c)"
proof (induction kvs arbitrary: c)
  case (Cons kv kvs)
  have "csm_ok (reblockBackup kv c)"
    using Cons.prems
    by (auto simp: reblockBackup_def csm_ok_def books_ok_def backups_ok_def intro!: booked_put)
  then show ?case by (simp add: Cons.IH)
qed simp

lemma update_unfold:
  "UpdateAllProviders epoch pl bl now c =
     (if epoch < currentEpoch c then (False, c)
      else let c' = fold reblockBackup (savedBlocks now c)
                      (installBackups bl (pushWeights pl bl (fold reblockRegular (savedBlocks now c) (refilled epoch pl now c))))
           in (True, c'\<lparr>stickySessions := DeleteOldSessions (currentEpoch c) (stickySessions c'),
                        lastPairingUpdate := now, pairingGeneration := pairingGeneration c' + 1\<rparr>))"
proof -
  have "previousEpochBlockedProviders (fold reblockRegular kvs c) = previousEpochBlockedProviders c" for kvs c
    by (induction kvs arbitrary: c) (auto simp: reblockRegular_def)
  then show ?thesis
    using refilled_fields(4) [of epoch pl now c]
    by (simp add: UpdateAllProviders_def refilled_def Let_def installBackups_def pushWeights_def)
qed

lemma update_ok:
  assumes "csm_ok c" and "distinct (map (\<lambda>ir. PublicLavaAddress (providers c (snd ir))) pl)"
  shows "csm_ok (snd (UpdateAllProviders epoch pl bl now c))"
proof -
  have bb: "blockedBackupProviders (fold reblockRegular kvs c) = blockedBackupProviders c" for kvs c
    by (induction kvs arbitrary: c) (auto simp: reblockRegular_def)
  define c1 where "c1 = fold reblockRegular (savedBlocks now c) (refilled epoch pl now c)"
  have "csm_ok c1" and "blockedBackupProviders c1 = []"
    using assms reblockRegular_ok refilled_ok by (simp_all add: c1_def csm_ok_def bb)
  then have "csm_ok (installBackups bl (pushWeights pl bl c1))"
    by (simp add: csm_ok_def books_ok_def lists_ok_def backups_ok_def caches_ok_def installBackups_def pushWeights_def)
  from reblockBackup_ok [OF this] assms(1) show ?thesis
    by (simp add: update_unfold Let_def c1_def csm_ok_def books_ok_def lists_ok_def backups_ok_def caches_ok_def)
qed

lemma csm_step_ok: "csm_ok c \<Longrightarrow> event_ok c ev \<Longrightarrow> csm_ok (csm_apply ev c)"
proof (cases ev)
  case StickyChanged
  then show "csm_ok c \<Longrightarrow> event_ok c ev \<Longrightarrow> csm_ok (csm_apply ev c)"
    by (simp add: csm_ok_def books_ok_def lists_ok_def backups_ok_def caches_ok_def)
next
  case CheckDone
  then show "csm_ok c \<Longrightarrow> event_ok c ev \<Longrightarrow> csm_ok (csm_apply ev c)"
    by (simp add: checkDone_def csm_ok_def books_ok_def lists_ok_def backups_ok_def caches_ok_def)
qed (simp_all add: update_ok block_ok released_ok restore_ok check_ok probed_ok reset_ok cache_ok transient_ok
    blocked_reset_ok health_ok reported_ok objects_ok)

lemma csm_reachable_ok: "csm_reachable c \<Longrightarrow> csm_ok c"
proof (induction rule: csm_reachable.induct)
  case (start ps es)
  show ?case
    by (simp add: NewConsumerSessionManager_def csm_ok_def books_ok_def booked_def lists_ok_def backups_ok_def caches_ok_def)
qed (rule csm_step_ok)

section \<open>What the bookkeeping promises\<close>

definition demo_endpoint :: "string list \<Rightarrow> Endpoint" where
  "demo_endpoint exts = new_endpoint ''https://node'' [Some ProtocolHTTPS] [] exts False ''''"

definition demo_providers :: "ref \<Rightarrow> cswp" where
  "demo_providers r =
     (NewConsumerSessionWithProvider (if r = 0 then ''alpha'' else if r = 1 then ''beta'' else ''gamma'') [r] 1000 1 0)\<lparr>StaticProvider := True\<rparr>"

definition demo_endpoints :: "ref \<Rightarrow> Endpoint" where
  "demo_endpoints r = demo_endpoint (if r = 1 then [''archive''] else [])"

definition demo_start :: csm where
  "demo_start = snd (UpdateAllProviders 1 [(0, 0), (1, 1)] [(0, 2)] 100 (NewConsumerSessionManager demo_providers demo_endpoints))"

definition demo_blocked :: csm where
  "demo_blocked = snd (blockProvider ''beta'' BlockReasonAllEndpointsDisabled True 1 50 0 (Some 1) 200 demo_start)"

lemma demo_start_reachable: "csm_reachable demo_start"
proof -
  have "csm_reachable (csm_apply (Rebuilt 1 [(0, 0), (1, 1)] [(0, 2)] 100) (NewConsumerSessionManager demo_providers demo_endpoints))"
    by (rule csm_reachable.step [OF csm_reachable.start])
       (simp add: NewConsumerSessionManager_def demo_providers_def NewConsumerSessionWithProvider_def)
  then show ?thesis by (simp add: demo_start_def)
qed

lemma demo_blocked_reachable: "csm_reachable demo_blocked"
proof -
  have "csm_reachable (csm_apply (Blocked ''beta'' BlockReasonAllEndpointsDisabled True 1 50 0 (Some 1) 200) demo_start)"
    by (rule csm_reachable.step [OF demo_start_reachable]) simp
  then show ?thesis by (simp add: demo_blocked_def)
qed

text \<open>C12. In every state the manager can reach, whatever the order of blocks, releases, epoch rebuilds,
  epoch checks, resets and probes: a provider has a block record exactly when it is blocked in one
  of the two stores, and the record's scope names a store that holds it; a primary is never
  selectable and blocked at once; both lists of primaries name paired providers only, each once,
  and the list of blocked backups names backup providers only, each once.
\<close>

theorem block_books_balance:
  assumes "csm_reachable c"
  shows "((\<exists>r. mget (blockedProviderRecords c) a = Some r)
            \<longleftrightarrow> a \<in> set (currentlyBlockedProviderAddresses c) \<or> a \<in> set (blockedBackupProviders c))
    \<and> (\<forall>r. mget (blockedProviderRecords c) a = Some r
            \<longrightarrow> a \<in> set (if br_Backup r then blockedBackupProviders c else currentlyBlockedProviderAddresses c))
    \<and> \<not> (a \<in> set (validAddresses c) \<and> a \<in> set (currentlyBlockedProviderAddresses c))
    \<and> (a \<in> set (validAddresses c) \<or> a \<in> set (currentlyBlockedProviderAddresses c) \<longrightarrow> (\<exists>r. mget (pairing c) a = Some r))
    \<and> distinct (validAddresses c) \<and> distinct (currentlyBlockedProviderAddresses c)
    \<and> (a \<in> set (blockedBackupProviders c) \<longrightarrow> (\<exists>r. mget (backupProviders c) a = Some r)) \<and> distinct (blockedBackupProviders c)"
proof -
  from csm_reachable_ok [OF assms] have "books_ok c" "lists_ok c" "backups_ok c" by (simp_all add: csm_ok_def)
  then show ?thesis by (auto simp: books_ok_def booked_def lists_ok_def backups_ok_def split: if_splits)
qed

text \<open>C13. A blocked primary is never among the addresses offered to a request, whatever add-on and
  extensions it asks for and whatever the caches hold: every offered address is selectable.
\<close>

theorem blocked_never_offered:
  assumes "csm_reachable c"
  shows "set (getValidAddresses addon exts c) \<subseteq> set (validAddresses c) - set (currentlyBlockedProviderAddresses c)"
proof -
  from csm_reachable_ok [OF assms] have "caches_ok c" "lists_ok c" by (simp_all add: csm_ok_def)
  then show ?thesis
    by (fastforce simp: caches_ok_def lists_ok_def getValidAddresses_def CalculateAddonValidAddresses_def split: option.splits)
qed

lemma demo_blocked_lists:
  "validAddresses demo_blocked = [''alpha'']" "currentlyBlockedProviderAddresses demo_blocked = [''beta'']"
  "map fst (pairing demo_blocked) = [''alpha'', ''beta'']" "currentEpoch demo_blocked = 1"
  by code_simp+

theorem block_books_balance_witness:
  "csm_reachable demo_blocked \<and> ''beta'' \<in> set (currentlyBlockedProviderAddresses demo_blocked)
   \<and> (\<exists>r. mget (blockedProviderRecords demo_blocked) ''beta'' = Some r) \<and> ''beta'' \<notin> set (validAddresses demo_blocked)"
  using block_books_balance [OF demo_blocked_reachable, of "''beta''"] demo_blocked_reachable
  by (simp add: demo_blocked_lists)

theorem blocked_never_offered_witness:
  "csm_reachable demo_blocked \<and> ''beta'' \<notin> set (getValidAddresses '''' [''archive''] demo_blocked)"
  using blocked_never_offered [OF demo_blocked_reachable, of "''''" "[''archive'']"] demo_blocked_reachable
  by (auto simp: demo_blocked_lists)

section \<open>The epoch transition\<close>

lemma saved_get:
  "mget (savedBlocks now c) =
     (\<lambda>a. if a \<in> set (currentlyBlockedProviderAddresses c) \<union> set (blockedBackupProviders c)
          then Some (blockRecordOrUnknownLocked now a c) else None)"
proof -
  have "mget (fold (\<lambda>a m. mput a (f a) m) xs m) = (\<lambda>a. if a \<in> set xs then Some (f a) else mget m a)" for f and m :: "(string, BlockRecord) gomap" and xs
    by (induction xs arbitrary: m) (auto simp: fun_eq_iff)
  then show ?thesis by (simp add: savedBlocks_def fun_eq_iff)
qed

lemma saved_wf: "wf_map (savedBlocks now c)"
proof -
  have "wf_map m \<Longrightarrow> wf_map (fold (\<lambda>a m. mput a (f a) m) xs m)" for f and m :: "(string, BlockRecord) gomap" and xs
    by (induction xs arbitrary: m) auto
  then show ?thesis by (simp add: savedBlocks_def)
qed

definition carried :: "bool \<Rightarrow> BlockRecord \<Rightarrow> BlockRecord" where
  "carried isBackup r = (withCarryOver r)\<lparr>br_Backup := isBackup\<rparr>"

lemma reblockRegular_step:
  assumes "lists_ok c"
  shows "reblockRegular kv c = (if fst kv \<in> set (validAddresses c)
      then c\<lparr>validAddresses := remove1 (fst kv) (validAddresses c), addonAddresses := [],
             currentlyBlockedProviderAddresses := sort_key (\<lambda>a. - uint (usedOf c a)) (currentlyBlockedProviderAddresses c @ [fst kv]),
             blockedProviderRecords := mput (fst kv) (carried False (snd kv)) (blockedProviderRecords c)\<rparr>
      else c)"
proof (cases "fst kv \<in> set (validAddresses c)")
  case True
  with assms have "mget (pairing c) (fst kv) \<noteq> None" by (auto simp: lists_ok_def)
  with True show ?thesis by (simp add: reblockRegular_def remove_unfold carried_def)
qed (simp add: reblockRegular_def remove_unfold)

lemma reblockRegular_lists: "lists_ok c \<Longrightarrow> lists_ok (reblockRegular kv c)"
  by (auto simp: reblockRegular_def lists_ok_def remove_unfold distinct_sort)

lemma reblockRegular_valid:
  assumes "lists_ok c" and "wf_map (kv # kvs)"
  shows "filter (\<lambda>a. mget kvs a = None) (validAddresses (reblockRegular kv c)) = filter (\<lambda>a. mget (kv # kvs) a = None) (validAddresses c)"
proof -
  have "mget kvs (fst kv) = None" using assms(2) by (simp add: wf_map_def map_of_eq_None_iff)
  moreover have "validAddresses (reblockRegular kv c) = remove1 (fst kv) (validAddresses c)"
    using assms(1) by (simp add: reblockRegular_step remove1_idem)
  moreover have "distinct (validAddresses c)" using assms(1) by (simp add: lists_ok_def)
  ultimately show ?thesis
    by (cases kv) (auto simp: distinct_remove1_removeAll removeAll_filter_not_eq intro!: filter_cong)
qed

lemma reblockRegular_fold:
  assumes "wf_map kvs" and "lists_ok c"
  shows "validAddresses (fold reblockRegular kvs c) = filter (\<lambda>a. mget kvs a = None) (validAddresses c)
    \<and> set (currentlyBlockedProviderAddresses (fold reblockRegular kvs c)) =
           set (currentlyBlockedProviderAddresses c) \<union> (set (validAddresses c) \<inter> dom (mget kvs))
    \<and> mget (blockedProviderRecords (fold reblockRegular kvs c)) =
           (\<lambda>a. if a \<in> set (validAddresses c) \<inter> dom (mget kvs) then map_option (carried False) (mget kvs a)
                else mget (blockedProviderRecords c) a)
    \<and> pairing (fold reblockRegular kvs c) = pairing c \<and> currentEpoch (fold reblockRegular kvs c) = currentEpoch c"
  using assms
proof (induction kvs arbitrary: c)
  case (Cons kv kvs)
  let ?c = "reblockRegular kv c"
  have wf: "wf_map kvs" and fresh: "mget kvs (fst kv) = None"
    using Cons.prems(1) by (auto simp: wf_map_def map_of_eq_None_iff)
  note ih = Cons.IH [OF wf reblockRegular_lists [OF Cons.prems(2)], of kv]
  have dist: "distinct (validAddresses c)" using Cons.prems(2) by (simp add: lists_ok_def)
  have sv: "set (validAddresses ?c) = set (validAddresses c) - {fst kv}"
    using Cons.prems(2) dist by (simp add: reblockRegular_step)
  have sb: "set (currentlyBlockedProviderAddresses ?c) = set (currentlyBlockedProviderAddresses c) \<union> (set (validAddresses c) \<inter> {fst kv})"
    using Cons.prems(2) by (simp add: reblockRegular_step)
  have sr: "mget (blockedProviderRecords ?c) a = (if a = fst kv \<and> a \<in> set (validAddresses c) then Some (carried False (snd kv))
      else mget (blockedProviderRecords c) a)" for a
    using Cons.prems(2) by (auto simp: reblockRegular_step)
  have "validAddresses (fold reblockRegular kvs ?c) = filter (\<lambda>a. mget (kv # kvs) a = None) (validAddresses c)"
    using ih reblockRegular_valid [OF Cons.prems(2,1)] by simp
  moreover have "set (currentlyBlockedProviderAddresses (fold reblockRegular kvs ?c)) =
      set (currentlyBlockedProviderAddresses c) \<union> (set (validAddresses c) \<inter> dom (mget (kv # kvs)))"
    using ih sv sb by (cases kv) auto
  moreover have "mget (blockedProviderRecords (fold reblockRegular kvs ?c)) a =
      (if a \<in> set (validAddresses c) \<inter> dom (mget (kv # kvs)) then map_option (carried False) (mget (kv # kvs) a)
       else mget (blockedProviderRecords c) a)" for a
    using ih sv sr [of a] fresh by (cases kv; cases "a = fst kv") simp_all
  moreover have "pairing ?c = pairing c" "currentEpoch ?c = currentEpoch c"
    using Cons.prems(2) by (simp_all add: reblockRegular_step)
  ultimately show ?case using ih by (auto simp del: map_of.simps)
qed simp

text \<open>The manager after a rebuild, in terms of the manager before it.\<close>

lemma reblockBackup_fields:
  "validAddresses (fold reblockBackup kvs c) = validAddresses c"
  "currentlyBlockedProviderAddresses (fold reblockBackup kvs c) = currentlyBlockedProviderAddresses c"
  "pairing (fold reblockBackup kvs c) = pairing c"
  "backupProviders (fold reblockBackup kvs c) = backupProviders c"
  "currentEpoch (fold reblockBackup kvs c) = currentEpoch c"
  "previousEpochBlockedProviders (fold reblockBackup kvs c) = previousEpochBlockedProviders c"
  by (induction kvs arbitrary: c; simp add: reblockBackup_def)+

lemma reblockBackup_fold:
  assumes "wf_map kvs"
  shows "set (blockedBackupProviders (fold reblockBackup kvs c)) = set (blockedBackupProviders c) \<union> (dom (mget kvs) \<inter> dom (mget (backupProviders c)))
    \<and> mget (blockedProviderRecords (fold reblockBackup kvs c)) =
        (\<lambda>a. if a \<in> dom (mget kvs) \<inter> dom (mget (backupProviders c)) then map_option (carried True) (mget kvs a)
             else mget (blockedProviderRecords c) a)"
  using assms
proof (induction kvs arbitrary: c)
  case (Cons kv kvs)
  have wf: "wf_map kvs" and fresh: "mget kvs (fst kv) = None"
    using Cons.prems by (auto simp: wf_map_def map_of_eq_None_iff)
  show ?case
  proof (cases "mget (backupProviders c) (fst kv) = None")
    case True
    then have same: "reblockBackup kv c = c" by (simp add: reblockBackup_def)
    have "dom (mget (kv # kvs)) \<inter> dom (mget (backupProviders c)) = dom (mget kvs) \<inter> dom (mget (backupProviders c))"
      using True by (cases kv) auto
    moreover have "(if a \<in> X \<inter> dom (mget (backupProviders c)) then map_option (carried True) (mget (kv # kvs) a) else r)
        = (if a \<in> X \<inter> dom (mget (backupProviders c)) then map_option (carried True) (mget kvs a) else r)" for a X r
      using True by (cases kv) auto
    ultimately show ?thesis using Cons.IH [OF wf, of c] by (simp only: same fold_simps(2))
  next
    case False
    then have "reblockBackup kv c = c\<lparr>blockedBackupProviders := List.insert (fst kv) (blockedBackupProviders c),
             blockedProviderRecords := mput (fst kv) (carried True (snd kv)) (blockedProviderRecords c)\<rparr>"
      by (simp add: reblockBackup_def carried_def)
    then show ?thesis using Cons.IH [OF wf, of "reblockBackup kv c"] False fresh by (cases kv) (auto simp: fun_eq_iff)
  qed
qed simp

lemma update_lists:
  fixes now :: time and bl :: "(64 word, ref) gomap"
  assumes "csm_ok c" and "\<not> epoch < currentEpoch c" and "distinct (map (\<lambda>ir. PublicLavaAddress (providers c (snd ir))) pl)"
  defines "new \<equiv> map (\<lambda>ir. PublicLavaAddress (providers c (snd ir))) pl"
    and "out \<equiv> set (currentlyBlockedProviderAddresses c) \<union> set (blockedBackupProviders c)"
    and "c' \<equiv> snd (UpdateAllProviders epoch pl bl now c)"
  shows "validAddresses c' = filter (\<lambda>a. a \<notin> out) new"
    and "set (currentlyBlockedProviderAddresses c') = set new \<inter> out"
    and "dom (mget (pairing c')) = set new"
    and "currentEpoch c' = epoch"
    and "\<And>a. a \<in> out \<Longrightarrow> a \<in> set new \<Longrightarrow>
      mget (blockedProviderRecords c') a = Some (carried (mget (backupProviders c') a \<noteq> None) (blockRecordOrUnknownLocked now a c))"
proof -
  let ?R = "refilled epoch pl now c" and ?kv = "savedBlocks now c"
  define c1 where "c1 = installBackups bl (pushWeights pl bl (fold reblockRegular ?kv ?R))"
  have ok: "csm_ok ?R" using refilled_ok assms(1,3) by (simp add: csm_ok_def)
  then have lo: "lists_ok ?R" by (simp add: csm_ok_def)
  note reg = reblockRegular_fold [OF saved_wf lo, of now c]
  have keys: "mget ?kv a = None \<longleftrightarrow> a \<notin> out" for a by (simp add: saved_get out_def)
  have dk: "dom (mget ?kv) = out" by (auto simp: saved_get out_def split: if_splits)
  have c1: "validAddresses c1 = validAddresses (fold reblockRegular ?kv ?R)"
    "currentlyBlockedProviderAddresses c1 = currentlyBlockedProviderAddresses (fold reblockRegular ?kv ?R)"
    "pairing c1 = pairing (fold reblockRegular ?kv ?R)"
    "blockedProviderRecords c1 = blockedProviderRecords (fold reblockRegular ?kv ?R)"
    "currentEpoch c1 = currentEpoch (fold reblockRegular ?kv ?R)"
    by (simp_all add: c1_def installBackups_def pushWeights_def)
  have c': "validAddresses c' = validAddresses (fold reblockBackup ?kv c1)"
    "currentlyBlockedProviderAddresses c' = currentlyBlockedProviderAddresses (fold reblockBackup ?kv c1)"
    "pairing c' = pairing (fold reblockBackup ?kv c1)"
    "backupProviders c' = backupProviders (fold reblockBackup ?kv c1)"
    "blockedProviderRecords c' = blockedProviderRecords (fold reblockBackup ?kv c1)"
    "currentEpoch c' = currentEpoch (fold reblockBackup ?kv c1)"
    using assms(2) by (simp_all add: c'_def update_unfold Let_def c1_def)
  show "validAddresses c' = filter (\<lambda>a. a \<notin> out) new"
    using reg by (simp add: c' c1 reblockBackup_fields keys new_def)
  show "set (currentlyBlockedProviderAddresses c') = set new \<inter> out"
    using reg by (simp add: c' c1 reblockBackup_fields dk new_def)
  show "dom (mget (pairing c')) = set new"
    using reg by (simp add: c' c1 reblockBackup_fields new_def)
  show "currentEpoch c' = epoch"
    using reg by (simp add: c' c1 reblockBackup_fields)
  show "mget (blockedProviderRecords c') a = Some (carried (mget (backupProviders c') a \<noteq> None) (blockRecordOrUnknownLocked now a c))"
    if "a \<in> out" "a \<in> set new" for a
  proof -
    have "mget ?kv a = Some (blockRecordOrUnknownLocked now a c)" using that(1) by (simp add: saved_get out_def)
    moreover have "mget (blockedProviderRecords c1) a = map_option (carried False) (mget ?kv a)"
      using reg that by (simp add: c1 dk new_def)
    ultimately show ?thesis
      using that(1) reblockBackup_fold [OF saved_wf, of now c c1]
      by (cases "mget (backupProviders c1) a") (simp_all add: c' reblockBackup_fields dk domIff)
  qed
qed

lemma return_sets:
  assumes "lists_ok c"
  shows "set (currentlyBlockedProviderAddresses (validateAndReturnBlockedProviderToValidAddressesListLocked a c)) = set (currentlyBlockedProviderAddresses c) - {a}"
    and "set (validAddresses (validateAndReturnBlockedProviderToValidAddressesListLocked a c)) =
           set (validAddresses c) \<union> (set (currentlyBlockedProviderAddresses c) \<inter> {a})"
    and "pairing (validateAndReturnBlockedProviderToValidAddressesListLocked a c) = pairing c"
    and "x \<noteq> a \<Longrightarrow> mget (blockedProviderRecords (validateAndReturnBlockedProviderToValidAddressesListLocked a c)) x = mget (blockedProviderRecords c) x"
  using assms by (auto simp: validateAndReturnBlockedProviderToValidAddressesListLocked_def Let_def lists_ok_def release_get)

lemma lift_fold:
  assumes "csm_ok c"
  defines "f \<equiv> \<lambda>kv c. if liftedAtOnce c kv then validateAndReturnBlockedProviderToValidAddressesListLocked (fst kv) c else c"
    and "lifted \<equiv> \<lambda>kvs. {fst kv | kv. kv \<in> set kvs \<and> liftedAtOnce c kv}"
  shows "set (currentlyBlockedProviderAddresses (fold f kvs c)) = set (currentlyBlockedProviderAddresses c) - lifted kvs
    \<and> set (validAddresses (fold f kvs c)) = set (validAddresses c) \<union> (set (currentlyBlockedProviderAddresses c) \<inter> lifted kvs)
    \<and> pairing (fold f kvs c) = pairing c
    \<and> (\<forall>a. a \<notin> lifted kvs \<longrightarrow> mget (blockedProviderRecords (fold f kvs c)) a = mget (blockedProviderRecords c) a)"
  using assms(1) unfolding lifted_def
proof (induction kvs arbitrary: c)
  case (Cons kv kvs)
  have "csm_ok (f kv c)" using Cons.prems by (simp add: f_def return_ok)
  note ih = Cons.IH [OF this]
  have lo: "lists_ok c" using Cons.prems by (simp add: csm_ok_def)
  have lft: "liftedAtOnce (f kv c) = liftedAtOnce c"
    using return_sets(3) [OF lo] by (simp add: f_def liftedAtOnce_def fun_eq_iff)
  show ?case
  proof (cases "liftedAtOnce c kv")
    case True
    have l: "{fst x | x. x \<in> set (kv # kvs) \<and> liftedAtOnce c x} = insert (fst kv) {fst x | x. x \<in> set kvs \<and> liftedAtOnce c x}"
      using True by (cases kv) force
    have fk: "f kv c = validateAndReturnBlockedProviderToValidAddressesListLocked (fst kv) c" using True by (simp add: f_def)
    let ?L = "{fst x | x. x \<in> set kvs \<and> liftedAtOnce c x}"
    note ih = ih [unfolded lft] and rs = return_sets [OF lo, where a = "fst kv", folded fk]
    have "set (currentlyBlockedProviderAddresses (fold f kvs (f kv c))) = set (currentlyBlockedProviderAddresses c) - insert (fst kv) ?L"
      using ih rs(1) by auto
    moreover have "set (validAddresses (fold f kvs (f kv c))) =
        set (validAddresses c) \<union> (set (currentlyBlockedProviderAddresses c) \<inter> insert (fst kv) ?L)"
      using ih rs(1,2) by auto
    moreover have "mget (blockedProviderRecords (fold f kvs (f kv c))) a = mget (blockedProviderRecords c) a"
      if "a \<notin> insert (fst kv) ?L" for a
      using ih rs(4) [of a] that by simp
    ultimately show ?thesis unfolding l using ih rs(3) by simp
  next
    case False
    then have l: "{fst x | x. x \<in> set (kv # kvs) \<and> liftedAtOnce c x} = {fst x | x. x \<in> set kvs \<and> liftedAtOnce c x}" by auto
    have "f kv c = c" using False by (simp add: f_def)
    then show ?thesis unfolding l using ih by simp
  qed
qed simp

text \<open>C14. An epoch transition gives no known-bad provider a clean slate. After the rebuild and the first
  pass of the epoch check, the blocked primaries are exactly the providers of the new pairing that
  were blocked, in either pool, with a report against them; every other provider of the pairing is
  selectable, also one that was blocked without a report, whose block the pass lifts. Each block that stands
  keeps its start, its detail and a reason it had, and counts one more carry. This is about the primaries; the
  backup store is not part of the statement.
\<close>

theorem epoch_keeps_known_bad:
  assumes "csm_reachable c" and "\<not> epoch < currentEpoch c"
    and "distinct (map (\<lambda>ir. PublicLavaAddress (providers c (snd ir))) pl)"
    and "c' = snd (checkFirstPass epoch (snd (UpdateAllProviders epoch pl bl now c)))"
  shows "set (currentlyBlockedProviderAddresses c') =
      {PublicLavaAddress (providers c (snd ir)) | ir. ir \<in> set pl
         \<and> (\<exists>r. mget (blockedProviderRecords c) (PublicLavaAddress (providers c (snd ir))) = Some r \<and> br_Reported r)}
    \<and> set (validAddresses c') = (\<lambda>ir. PublicLavaAddress (providers c (snd ir))) ` set pl - set (currentlyBlockedProviderAddresses c')
    \<and> (\<forall>a\<in>set (currentlyBlockedProviderAddresses c'). \<forall>r. mget (blockedProviderRecords c) a = Some r \<longrightarrow>
        (\<exists>r'. mget (blockedProviderRecords c') a = Some r' \<and> br_Since r' = br_Since r \<and> br_Detail r' = br_Detail r \<and> br_Reported r'
           \<and> (br_Reason r \<noteq> '''' \<longrightarrow> br_Reason r' = br_Reason r) \<and> br_Carries r' = br_Carries r + 1))"
proof -
  let ?c1 = "snd (UpdateAllProviders epoch pl bl now c)"
  let ?new = "map (\<lambda>ir. PublicLavaAddress (providers c (snd ir))) pl"
  let ?recs = "mget (blockedProviderRecords c)"
  from csm_reachable_ok [OF assms(1)] have ok: "csm_ok c" .
  then have out: "set (currentlyBlockedProviderAddresses c) \<union> set (blockedBackupProviders c) = dom ?recs"
    by (simp add: csm_ok_def books_ok_def booked_def)
  note up = update_lists [OF ok assms(2,3), where bl = bl and now = now, unfolded out]
  have ok1: "csm_ok ?c1" using update_ok [OF ok assms(3)] .
  have prev: "previousEpochBlockedProviders ?c1 = savedBlocks now c"
  proof -
    have "previousEpochBlockedProviders (fold reblockRegular kvs c) = previousEpochBlockedProviders c" for kvs c
      by (induction kvs arbitrary: c) (auto simp: reblockRegular_def)
    then show ?thesis using assms(2) by (simp add: update_unfold Let_def reblockBackup_fields installBackups_def pushWeights_def)
  qed
  have saved: "(a, r) \<in> set (savedBlocks now c) \<longleftrightarrow> ?recs a = Some r" for a r
    using out saved_wf [of now c] by (auto simp: wf_map_in_iff saved_get blockRecordOrUnknownLocked_def dom_def split: option.split if_splits)
  have pd: "mget (pairing ?c1) a \<noteq> None \<longleftrightarrow> a \<in> set ?new" for a using up(3) by (metis domIff)
  let ?lifted = "{fst kv | kv. kv \<in> set (savedBlocks now c) \<and> liftedAtOnce ?c1 kv}"
  have lifted: "?lifted = {a \<in> set ?new. \<exists>r. ?recs a = Some r \<and> \<not> br_Reported r}"
    using saved pd by (auto simp: liftedAtOnce_def simp del: not_None_eq set_map)
  have c': "set (currentlyBlockedProviderAddresses c') = set (currentlyBlockedProviderAddresses ?c1) - ?lifted"
    "set (validAddresses c') = set (validAddresses ?c1) \<union> (set (currentlyBlockedProviderAddresses ?c1) \<inter> ?lifted)"
    "\<And>a. a \<notin> ?lifted \<Longrightarrow> mget (blockedProviderRecords c') a = mget (blockedProviderRecords ?c1) a"
    using lift_fold [OF ok1, of "savedBlocks now c"] up(4) prev by (simp_all add: assms(4) checkFirstPass_def)
  have blocked: "set (currentlyBlockedProviderAddresses c') = {a \<in> set ?new. \<exists>r. ?recs a = Some r \<and> br_Reported r}"
    unfolding c' up lifted by auto
  moreover have "set (validAddresses c') = set ?new - set (currentlyBlockedProviderAddresses c')"
    unfolding blocked unfolding c' up lifted by auto
  moreover have "\<exists>r'. mget (blockedProviderRecords c') a = Some r' \<and> br_Since r' = br_Since r \<and> br_Detail r' = br_Detail r \<and> br_Reported r'
      \<and> (br_Reason r \<noteq> '''' \<longrightarrow> br_Reason r' = br_Reason r) \<and> br_Carries r' = br_Carries r + 1"
    if a: "a \<in> set (currentlyBlockedProviderAddresses c')" and r: "?recs a = Some r" for a r
  proof -
    have "a \<in> set ?new" and "br_Reported r" and "a \<notin> ?lifted" using a r unfolding blocked lifted by auto
    then have "\<exists>b. mget (blockedProviderRecords c') a = Some (carried b r)"
      using up(5) [of a] r c'(3) [of a] by (simp add: blockRecordOrUnknownLocked_def domIff) blast
    then show ?thesis using \<open>br_Reported r\<close> by (auto simp: carried_def withCarryOver_def)
  qed
  moreover have "{a \<in> set ?new. P a} = {PublicLavaAddress (providers c (snd ir)) | ir. ir \<in> set pl \<and> P (PublicLavaAddress (providers c (snd ir)))}" for P
    unfolding set_map by blast
  ultimately show ?thesis by (intro conjI ballI allI impI) (simp_all only: set_map)
qed

definition demo_epoch :: csm where
  "demo_epoch = snd (checkFirstPass 2 (snd (UpdateAllProviders 2 [(0, 0), (1, 1)] [(0, 2)] 300 demo_blocked)))"

theorem epoch_keeps_known_bad_witness:
  "csm_reachable demo_blocked \<and> \<not> 2 < currentEpoch demo_blocked
   \<and> ''beta'' \<in> set (currentlyBlockedProviderAddresses demo_epoch) \<and> ''alpha'' \<in> set (validAddresses demo_epoch)"
proof -
  have names: "map (\<lambda>ir. PublicLavaAddress (providers demo_blocked (snd ir))) [(0, 0), (1, 1)] = [''alpha'', ''beta'']" by code_simp
  have "map (\<lambda>kv. (fst kv, br_Reported (snd kv))) (blockedProviderRecords demo_blocked) = [(''beta'', True)]" by code_simp
  then have reported: "\<exists>r. mget (blockedProviderRecords demo_blocked) ''beta'' = Some r \<and> br_Reported r"
    "mget (blockedProviderRecords demo_blocked) ''alpha'' = None" by auto
  have later: "\<not> 2 < currentEpoch demo_blocked" by (simp add: demo_blocked_lists)
  have "distinct (map (\<lambda>ir. PublicLavaAddress (providers demo_blocked (snd ir))) [(0, 0), (1, 1)])" unfolding names by simp
  note bad = epoch_keeps_known_bad [OF demo_blocked_reachable later this demo_epoch_def]
  from names have who: "PublicLavaAddress (providers demo_blocked 0) = ''alpha''" "PublicLavaAddress (providers demo_blocked (Suc 0)) = ''beta''"
    by simp_all
  have "''beta'' \<in> set (currentlyBlockedProviderAddresses demo_epoch)"
    unfolding bad [THEN conjunct1] by (rule CollectI, rule exI [of _ "(1, 1)"]) (simp add: who reported)
  moreover have "''alpha'' \<notin> set (currentlyBlockedProviderAddresses demo_epoch)"
    unfolding bad [THEN conjunct1] using reported(2) by force
  then have "''alpha'' \<in> set (validAddresses demo_epoch)"
    unfolding bad [THEN conjunct2, THEN conjunct1] by (simp add: who)
  ultimately show ?thesis using demo_blocked_reachable later by blast
qed

section \<open>The last resort\<close>

definition EqualFold :: "string \<Rightarrow> string \<Rightarrow> bool" where
  "EqualFold s t \<longleftrightarrow> to_lower s = to_lower t"

text \<open>\<open>strings.EqualFold\<close> on the ASCII names of a configuration.\<close>

definition resolveSelectedProviderAddress :: "string \<Rightarrow> string list \<Rightarrow> string \<times> string list" where
  "resolveSelectedProviderAddress selected addresses =
     (if selected \<in> set addresses then (selected, [])
      else case filter (\<lambda>a. EqualFold a selected) addresses of
             [a] \<Rightarrow> (a, [])
           | folded \<Rightarrow> ('''', sort folded))"

definition releaseCouldServeThisRequest :: "string fset \<Rightarrow> string \<Rightarrow> string list \<Rightarrow> string \<Rightarrow> csm \<Rightarrow> bool" where
  "releaseCouldServeThisRequest ignored addon exts selected c =
     (let candidates = filter (\<lambda>a. serves c addon exts (paired c a)) (map snd (pairingAddresses c)) in
      if selected \<noteq> ''''
      then let resolved = fst (resolveSelectedProviderAddress selected candidates) in resolved \<noteq> '''' \<and> resolved |\<notin>| ignored
      else list_ex (\<lambda>a. a |\<notin>| ignored) candidates)"

lemma resolve_fst:
  "fst (resolveSelectedProviderAddress s xs) =
     (if s \<in> set xs then s
      else if length (filter (\<lambda>a. EqualFold a s) xs) = 1 then hd (filter (\<lambda>a. EqualFold a s) xs) else '''')"
  by (auto simp: resolveSelectedProviderAddress_def split: list.split)

lemma resolve_by_set:
  assumes "distinct xs" and "distinct ys" and "set xs = set ys"
  shows "fst (resolveSelectedProviderAddress s xs) = fst (resolveSelectedProviderAddress s ys)"
proof -
  let ?f = "filter (\<lambda>a. EqualFold a s)"
  have perm: "mset (?f xs) = mset (?f ys)"
    using assms by (simp add: set_eq_iff_mset_eq_distinct)
  have "?f xs = ?f ys" if one: "length (?f xs) = 1"
  proof -
    obtain a where "?f xs = [a]" using one by (cases "?f xs") auto
    with perm show ?thesis by (metis mset.simps mset_single_iff_right)
  qed
  with mset_eq_length [OF perm] assms(3) show ?thesis by (auto simp: resolve_fst)
qed


text \<open>What a pool release offers a request that found the pool empty.\<close>

lemma empty_pool_calc:
  assumes "csm_ok c" and "getValidAddresses addon exts c = []"
  shows "CalculateAddonValidAddresses addon exts c = []"
    and "mget (addonAddresses c) (addonKey addon exts) = Some (Some xs) \<Longrightarrow> False"
  using assms by (auto simp: getValidAddresses_def csm_ok_def caches_ok_def split: option.splits)

lemma reset_offers:
  assumes "csm_ok c" and "getValidAddresses addon exts c = []" and "c' = snd (resetValidAddresses addon exts c)"
  shows "distinct (getValidAddresses addon exts c')"
    and "set (getValidAddresses addon exts c') = {a. mget (pairing c) a \<noteq> None \<and> serves c addon exts (paired c a)}"
proof -
  note ok = reset_ok [OF assms(1), of addon exts, folded assms(3)]
  let ?s = "setValidAddressesToDefaultValue addon exts ReleasePoolEmpty c"
  have c': "c' = ?s\<lparr>numberOfResets := numberOfResets ?s + 1\<rparr>"
    using assms(2,3) by (simp add: resetValidAddresses_def Let_def)
  have same: "cs_Endpoints (providers c' r) = cs_Endpoints (providers c r)" "pairing c' = pairing c" "endpoints c' = endpoints c" for r
    by (simp_all add: c') (simp add: setValidAddressesToDefaultValue_def RemoveAddonAddresses_def Let_def)
  have sv: "serves c' addon exts (paired c' a) = serves c addon exts (paired c a)" for a
    by (simp add: serves_def paired_def IsSupportingAddon_def IsSupportingExtensions_def same split: option.split)
  have calc: "CalculateAddonValidAddresses addon exts c' = filter (\<lambda>a. serves c addon exts (paired c a)) (validAddresses c')"
    by (simp add: CalculateAddonValidAddresses_def sv)
  have eq: "getValidAddresses addon exts c' = CalculateAddonValidAddresses addon exts c'"
  proof (cases "addon = '''' \<and> exts = []")
    case True
    have "mget (addonAddresses c') (addonKey addon exts) = mget (addonAddresses c) (addonKey addon exts)"
      using True by (simp add: c' setValidAddressesToDefaultValue_def Let_def)
    then show ?thesis using empty_pool_calc(2) [OF assms(1,2)]
      by (auto simp: getValidAddresses_def split: option.splits)
  next
    case False
    have "mget (addonAddresses c') (addonKey addon exts) = Some (slice_of (CalculateAddonValidAddresses addon exts c'))"
      using False by (auto simp: c' setValidAddressesToDefaultValue_def RemoveAddonAddresses_def Let_def
          CalculateAddonValidAddresses_def serves_def paired_def IsSupportingAddon_def IsSupportingExtensions_def cong: option.case_cong)
    then show ?thesis by (auto simp: getValidAddresses_def slice_of_def)
  qed
  have lo: "lists_ok c" using assms(1) by (simp add: csm_ok_def)
  then have dom: "snd ` set (pairingAddresses c) = {a. mget (pairing c) a \<noteq> None}" by (auto simp: lists_ok_def dom_def)
  show "distinct (getValidAddresses addon exts c')"
    using ok by (simp add: eq CalculateAddonValidAddresses_def csm_ok_def lists_ok_def)
  show "set (getValidAddresses addon exts c') = {a. mget (pairing c) a \<noteq> None \<and> serves c addon exts (paired c a)}"
    using empty_pool_calc(1) [OF assms(1,2)] lo
    by (simp add: eq calc) (auto simp: c' setValid_valid dom CalculateAddonValidAddresses_def filter_empty_conv lists_ok_def)
qed

text \<open>C15. The guard of the last resort is exact: when the pool is empty for a request, the blocked list is
  allowed to be released just when the release would let this request be served, that is when
  after it selection could hand the request a provider it has not tried, or, for a pinned request,
  the pin would resolve to a provider it has not tried.
\<close>

theorem release_guard_exact:
  assumes "csm_reachable c" and "getValidAddresses addon exts c = []"
    and "offered = getValidAddresses addon exts (snd (resetValidAddresses addon exts c))"
  shows "releaseCouldServeThisRequest ignored addon exts selected c \<longleftrightarrow>
    (if selected = '''' then \<exists>a\<in>set offered. a |\<notin>| ignored
     else \<exists>a. fst (resolveSelectedProviderAddress selected offered) = a \<and> a \<noteq> '''' \<and> a |\<notin>| ignored)"
proof -
  let ?cand = "filter (\<lambda>a. serves c addon exts (paired c a)) (map snd (pairingAddresses c))"
  note ok = csm_reachable_ok [OF assms(1)]
  note off = reset_offers [OF ok assms(2) refl, folded assms(3)]
  have "snd ` set (pairingAddresses c) = {a. mget (pairing c) a \<noteq> None}" and d: "distinct ?cand"
    using ok by (auto simp: csm_ok_def lists_ok_def dom_def)
  then have s: "set ?cand = set offered" by (auto simp: off(2))
  from resolve_by_set [OF d off(1) s] s show ?thesis
    by (auto simp: releaseCouldServeThisRequest_def Let_def list_ex_iff simp del: set_map)
qed

definition demo_archive_served :: bool where
  "demo_archive_served = releaseCouldServeThisRequest {||} '''' [''archive''] '''' demo_blocked"

theorem release_guard_exact_witness:
  "csm_reachable demo_blocked \<and> getValidAddresses '''' [''archive''] demo_blocked = []
   \<and> (\<exists>a\<in>set (getValidAddresses '''' [''archive''] (snd (resetValidAddresses '''' [''archive''] demo_blocked))). a |\<notin>| {||})"
proof -
  have "getValidAddresses '''' [''archive''] demo_blocked = []" by code_simp
  moreover have "releaseCouldServeThisRequest {||} '''' [''archive''] '''' demo_blocked" by code_simp
  ultimately show ?thesis
    using release_guard_exact [OF demo_blocked_reachable _ refl, of "''''" "[''archive'']" "{||}" "''''"] demo_blocked_reachable by simp
qed

text \<open>
  A release for one add-on and the caches of the others. The manager below had \<open>beta\<close> blocked,
  served a plain request (which cached its answer), and then released the list for an archive
  request.
\<close>

definition demo_released :: csm where
  "demo_released = snd (resetValidAddresses '''' [''archive''] (snd (cacheAddonAddresses '''' [] demo_blocked)))"

lemma demo_released_reachable: "csm_reachable demo_released"
proof -
  have "csm_reachable (csm_apply (PoolReset '''' [''archive'']) (csm_apply (AddonCached '''' []) demo_blocked))"
    by (intro csm_reachable.step demo_blocked_reachable) simp_all
  then show ?thesis by (simp add: demo_released_def)
qed

text \<open>C16. A pool release made for an add-on or extension refreshes the cache of that request's key only.
  In the reachable state above the released provider is selectable, serves the base collection and
  is no longer blocked, yet a plain request is not offered it, because the entry of the plain key
  still holds the addresses from before the release; the uncached computation does offer it.
\<close>

theorem released_but_not_offered:
  "csm_reachable demo_released \<and> ''beta'' \<in> set (validAddresses demo_released)
   \<and> ''beta'' \<notin> set (currentlyBlockedProviderAddresses demo_released)
   \<and> ''beta'' \<in> set (CalculateAddonValidAddresses '''' [] demo_released)
   \<and> ''beta'' \<notin> set (getValidAddresses '''' [] demo_released)"
proof -
  have "validAddresses demo_released = [''alpha'', ''beta'']" "currentlyBlockedProviderAddresses demo_released = []"
    "CalculateAddonValidAddresses '''' [] demo_released = [''alpha'', ''beta'']" "getValidAddresses '''' [] demo_released = [''alpha'']"
    by code_simp+
  then show ?thesis using demo_released_reachable by simp
qed

section \<open>Providers in neither list\<close>

definition in_limbo :: "string \<Rightarrow> csm \<Rightarrow> bool" where
  "in_limbo a c \<longleftrightarrow> mget (pairing c) a \<noteq> None \<and> a \<notin> set (validAddresses c) \<and> a \<notin> set (currentlyBlockedProviderAddresses c)"

fun refills :: "csm_event \<Rightarrow> bool" where
  "refills (Rebuilt _ _ _ _) = True"
| "refills (PoolReset _ _) = True"
| "refills BlockedReset = True"
| "refills _ = False"

text \<open>No other event brings an address into the two lists that was in neither.\<close>

definition narrows :: "csm \<Rightarrow> csm \<Rightarrow> bool" where
  "narrows c c' \<longleftrightarrow> pairing c' = pairing c
     \<and> set (validAddresses c') \<union> set (currentlyBlockedProviderAddresses c') \<subseteq> set (validAddresses c) \<union> set (currentlyBlockedProviderAddresses c)"

lemma narrows_trans: "narrows c c' \<Longrightarrow> narrows c' c'' \<Longrightarrow> narrows c c''"
  by (auto simp: narrows_def)

lemma return_narrows: "narrows c (validateAndReturnBlockedProviderToValidAddressesListLocked a c)"
  by (auto simp: narrows_def validateAndReturnBlockedProviderToValidAddressesListLocked_def Let_def dest: set_mp [OF set_remove1_subset])

lemma backup_release_narrows: "narrows c (releaseBlockedBackupLocked a c)"
  by (simp add: narrows_def releaseBlockedBackupLocked_def)

lemma released_narrows: "narrows c (releaseBlockedProvider a c)"
  unfolding releaseBlockedProvider_def by (rule narrows_trans [OF return_narrows backup_release_narrows])

lemma takeOut_narrows: "narrows c (snd (takeOut a r c))"
  by (auto simp: narrows_def takeOut_def remove_unfold Let_def dest: set_mp [OF set_remove1_subset])

lemma refresh_fields [simp]:
  "validAddresses (refreshBlockOutcomeLocked a rep c) = validAddresses c"
  "pairing (refreshBlockOutcomeLocked a rep c) = pairing c"
  "currentlyBlockedProviderAddresses (refreshBlockOutcomeLocked a rep c) = currentlyBlockedProviderAddresses c"
  by (simp_all add: refreshBlockOutcomeLocked_def split: option.split)

lemma block_narrows: "narrows c (snd (blockProvider a reason rep epoch d e cb now c))"
proof -
  let ?r = "blank_record\<lparr>br_Reason := reason, br_Since := now, br_Detail := blockDetail d e\<rparr>"
  show ?thesis using takeOut_narrows [of c a ?r]
    by (cases "takeOut a ?r c") (simp add: blockProvider_def narrows_def Let_def split: option.split)
qed

lemma check_narrows: "narrows c (snd (checkFirstPass epoch c))"
proof -
  have "narrows c (fold (\<lambda>kv c. if liftedAtOnce c kv then validateAndReturnBlockedProviderToValidAddressesListLocked (fst kv) c else c) kvs c)" for kvs c
  proof (induction kvs arbitrary: c)
    case (Cons kv kvs)
    show ?case
      using Cons.IH [of "if liftedAtOnce c kv then validateAndReturnBlockedProviderToValidAddressesListLocked (fst kv) c else c"]
      by (auto intro: narrows_trans [OF return_narrows] simp: narrows_def [of c c])
  qed (simp add: narrows_def)
  then show ?thesis by (simp add: checkFirstPass_def narrows_def [of c c])
qed

lemma other_narrows: "\<not> refills ev \<Longrightarrow> narrows c (csm_apply ev c)"
proof (cases ev)
  case (Restored a)
  then show ?thesis using released_narrows [of c a] by (simp add: RestoreRecoveredProvider_def Let_def narrows_def)
next
  case (CheckProbed info ok)
  then show ?thesis
    using return_narrows [of c] backup_release_narrows [of c] by (simp add: checkProbed_def Let_def narrows_def)
next
  case (AddonCached addon exts)
  then show ?thesis by (simp add: narrows_def cacheAddonAddresses_def Let_def split: option.split)
next
  case HealthReset
  obtain es where "snd (ResetEndpointHealth c) = c\<lparr>endpoints := es\<rparr>"
    using health_fold unfolding ResetEndpointHealth_def by blast
  then show ?thesis using HealthReset by (simp add: narrows_def)
next
  case (Blocked a r rp ep d e cb now)
  then show ?thesis by (simp add: block_narrows)
next
  case (Released a)
  then show ?thesis by (simp add: released_narrows)
next
  case (CheckStarted ep)
  then show ?thesis by (simp add: check_narrows)
qed (simp_all add: narrows_def checkDone_def ResetTransientFailureState_def Let_def)

text \<open>A provider in neither list stays there: once a pool release for an add-on it does not serve has
  taken it off the blocked list, no block, no release, no recovery by the health prober and no
  epoch check brings it back, in any number and any order; only another refill of the pool can.
\<close>

theorem limbo_until_refill:
  assumes "in_limbo a c" and "\<forall>ev\<in>set evs. \<not> refills ev"
  shows "in_limbo a (fold csm_apply evs c)"
  using assms
proof (induction evs arbitrary: c)
  case (Cons ev evs)
  then have "narrows c (csm_apply ev c)" by (simp add: other_narrows)
  with Cons.prems(1) have "in_limbo a (csm_apply ev c)" by (auto simp: in_limbo_def narrows_def)
  with Cons show ?case by simp
qed simp

definition demo_limbo :: csm where
  "demo_limbo = snd (resetValidAddresses '''' [''archive'']
     (snd (blockProvider ''alpha'' BlockReasonAllEndpointsDisabled True 1 50 0 (Some 0) 250 demo_blocked)))"

theorem limbo_until_refill_witness:
  "in_limbo ''alpha'' demo_limbo \<and> in_limbo ''alpha'' (fold csm_apply [Restored ''alpha'', Released ''alpha'', HealthReset, CheckStarted 1] demo_limbo)"
proof -
  have "pairing demo_limbo = [(''alpha'', 0), (''beta'', 1)]" "validAddresses demo_limbo = [''beta'']" "currentlyBlockedProviderAddresses demo_limbo = []"
    by code_simp+
  then have "in_limbo ''alpha'' demo_limbo" by (simp add: in_limbo_def)
  then show ?thesis
    using limbo_until_refill [of "''alpha''" demo_limbo "[Restored ''alpha'', Released ''alpha'', HealthReset, CheckStarted 1]"] by simp
qed

section \<open>Why the pool is empty\<close>

record poolInventory =
  pairingSize :: nat
  validCount :: nat
  blockedCount :: nat
  backupPoolSize :: nat
  inv_lastPairingUpdate :: time
  capable :: nat
  capableBlocked :: nat
  generation :: "64 word"

definition snapshotPoolInventory :: "string \<Rightarrow> string list \<Rightarrow> csm \<Rightarrow> poolInventory" where
  "snapshotPoolInventory addon exts c =
     (let cap = filter (\<lambda>a. serves c addon exts (paired c a)) (map snd (pairingAddresses c)) in
      \<lparr>pairingSize = length (pairingAddresses c), validCount = length (validAddresses c),
       blockedCount = length (currentlyBlockedProviderAddresses c), backupPoolSize = length (backupProviders c),
       inv_lastPairingUpdate = lastPairingUpdate c, capable = length cap,
       capableBlocked = length (filter (\<lambda>a. a \<in> set (currentlyBlockedProviderAddresses c)) cap), generation = pairingGeneration c\<rparr>)"

definition inv_reason :: "string \<Rightarrow> string list \<Rightarrow> poolInventory \<Rightarrow> string" where
  "inv_reason addon exts pool =
     (if pairingSize pool = 0 then ''pairing-empty''
      else if capable pool = 0 \<and> (addon \<noteq> '''' \<or> exts \<noteq> []) then ''addon-filtered''
      else if capable pool = 0 then ''no-usable-endpoints''
      else if capable pool \<le> capableBlocked pool then ''all-blocked''
      else ''unspecified'')"

record poolEmptyReport =
  reportedEver :: bool
  reportedGen :: "64 word"
  reportedWhy :: string

text \<open>\<open>logPoolEmpty\<close>: whether this report is the first of its pairing and reason, and what is remembered.\<close>

definition logPoolEmpty :: "string \<Rightarrow> string list \<Rightarrow> poolInventory \<Rightarrow> poolEmptyReport \<Rightarrow> bool \<times> poolEmptyReport" where
  "logPoolEmpty addon exts pool rep =
     (let why = inv_reason addon exts pool;
          firstForThisPairing = (\<not> reportedEver rep \<or> reportedGen rep \<noteq> generation pool \<or> reportedWhy rep \<noteq> why)
      in (firstForThisPairing, if firstForThisPairing then \<lparr>reportedEver = True, reportedGen = generation pool, reportedWhy = why\<rparr> else rep))"

lemma filter_keeps_all: "length xs \<le> length (filter P xs) \<longleftrightarrow> (\<forall>x\<in>set xs. P x)"
  by (metis filter_True length_filter_less not_le order_refl)

text \<open>The reason reported for an empty pool is the true one: \<open>all-blocked\<close> exactly when providers
  that could serve the request are paired and every one of them is blocked, \<open>addon-filtered\<close> or
  \<open>no-usable-endpoints\<close> when the pairing is not empty and no member could serve it, and the
  unmodelled \<open>unspecified\<close> exactly when one that could serve it is in neither list.
\<close>

theorem empty_pool_reason_exact:
  assumes "csm_reachable c" and "getValidAddresses addon exts c = []" and "pairingAddresses c \<noteq> []"
    and "why = inv_reason addon exts (snapshotPoolInventory addon exts c)"
    and "able = {a. mget (pairing c) a \<noteq> None \<and> serves c addon exts (paired c a)}"
  shows "(why = ''all-blocked'' \<longleftrightarrow> able \<noteq> {} \<and> able \<subseteq> set (currentlyBlockedProviderAddresses c))
    \<and> (why = ''unspecified'' \<longleftrightarrow> (\<exists>a\<in>able. in_limbo a c))
    \<and> (why = ''addon-filtered'' \<or> why = ''no-usable-endpoints'' \<longleftrightarrow> able = {})
    \<and> why \<noteq> ''pairing-empty''"
proof -
  let ?cap = "filter (\<lambda>a. serves c addon exts (paired c a)) (map snd (pairingAddresses c))"
  let ?B = "set (currentlyBlockedProviderAddresses c)"
  note ok = csm_reachable_ok [OF assms(1)]
  then have lo: "lists_ok c" by (simp add: csm_ok_def)
  have able: "set ?cap = able" using lo by (auto simp: assms(5) lists_ok_def dom_def)
  have "able \<inter> set (validAddresses c) = {}"
    using empty_pool_calc(1) [OF ok assms(2)] by (auto simp: assms(5) CalculateAddonValidAddresses_def filter_empty_conv)
  then have limbo: "(\<exists>a\<in>able. in_limbo a c) \<longleftrightarrow> \<not> able \<subseteq> ?B" by (auto simp: in_limbo_def assms(5))
  have all: "length ?cap \<le> length (filter (\<lambda>a. a \<in> ?B) ?cap) \<longleftrightarrow> able \<subseteq> ?B"
    unfolding filter_keeps_all using able by blast
  have none: "length ?cap = 0 \<longleftrightarrow> able = {}" using able by (metis length_0_conv set_empty)
  have why: "why = (if length ?cap = 0 \<and> (addon \<noteq> '''' \<or> exts \<noteq> []) then ''addon-filtered''
      else if length ?cap = 0 then ''no-usable-endpoints''
      else if length ?cap \<le> length (filter (\<lambda>a. a \<in> ?B) ?cap) then ''all-blocked'' else ''unspecified'')"
    using assms(3) by (auto simp: assms(4) inv_reason_def snapshotPoolInventory_def Let_def)
  show ?thesis unfolding why none all limbo by auto
qed

theorem empty_pool_reason_exact_witness:
  "csm_reachable demo_blocked \<and> getValidAddresses '''' [''archive''] demo_blocked = [] \<and> pairingAddresses demo_blocked \<noteq> []
   \<and> inv_reason '''' [''archive''] (snapshotPoolInventory '''' [''archive''] demo_blocked) = ''all-blocked''
   \<and> {a. mget (pairing demo_blocked) a \<noteq> None \<and> serves demo_blocked '''' [''archive''] (paired demo_blocked a)} \<subseteq> set (currentlyBlockedProviderAddresses demo_blocked)"
proof -
  have "getValidAddresses '''' [''archive''] demo_blocked = []"
    "map snd (pairingAddresses demo_blocked) = [''alpha'', ''beta'']"
    "inv_reason '''' [''archive''] (snapshotPoolInventory '''' [''archive''] demo_blocked) = ''all-blocked''"
    by code_simp+
  moreover from this have "pairingAddresses demo_blocked \<noteq> []" by auto
  ultimately show ?thesis
    using empty_pool_reason_exact [OF demo_blocked_reachable _ _ refl refl, of "''''" "[''archive'']"] demo_blocked_reachable by simp
qed

end
