(* ===== verification/UpstreamSelector.thy ===== *)
theory UpstreamSelector
  imports Prelude Complex_Main "HOL-Library.FSet" "HOL-Library.Word"
begin

text \<open>
  The choice of one provider among candidates (\<open>provideroptimizer/upstream_selector.go\<close>,
  \<open>selection_mode.go\<close>, \<open>selection_priority.go\<close>, \<open>selection_weight.go\<close>, and from
  \<open>provider_optimizer.go\<close> the choice itself, the sync reference and the block floors).

  \<^item> A \<open>float64\<close> is a rational: sums, products and quotients are exact here, where the code
    rounds. A configured value that is NaN or infinite is \<open>None\<close>. \<open>math.Sqrt\<close> and \<open>math.Pow\<close> are
    parameters \<open>sqrtf\<close> and \<open>powf\<close>, since their results are rounded.
  \<^item> The random source is an argument: \<open>u\<close> for \<open>Float64\<close> and \<open>k\<close> for \<open>Intn\<close> (reduced to its range).
  \<^item> The decaying averages behind a provider's QoS report and the percentile sketch behind the
    adaptive bounds are not modelled; reports and bounds are arguments.
\<close>

section \<open>Configuration\<close>

datatype Strategy =
    StrategyBalanced | StrategyLatency | StrategySyncFreshness | StrategyCost | StrategyPrivacy
  | StrategyAccuracy | StrategyDistributed

datatype SelectionMode = SelectionModeWeightedRandom | SelectionModeBest

datatype SelectionPriority =
    SelectionPriorityBalanced | SelectionPriorityMostReliable | SelectionPriorityFastest | SelectionPriorityFreshest

fun SelectionMode_String :: "SelectionMode \<Rightarrow> string" where
  "SelectionMode_String SelectionModeWeightedRandom = ''weighted_random''"
| "SelectionMode_String SelectionModeBest = ''best''"

fun SelectionPriority_String :: "SelectionPriority \<Rightarrow> string" where
  "SelectionPriority_String SelectionPriorityBalanced = ''balanced''"
| "SelectionPriority_String SelectionPriorityMostReliable = ''most-reliable''"
| "SelectionPriority_String SelectionPriorityFastest = ''fastest''"
| "SelectionPriority_String SelectionPriorityFreshest = ''freshest''"

text \<open>\<open>strings.TrimSpace\<close> leaves nothing of an ASCII string that is all white space.\<close>

definition blank_string :: "string \<Rightarrow> bool" where
  "blank_string s \<longleftrightarrow> list_all (\<lambda>ch. of_char ch \<in> {9, 10, 11, 12, 13, 32 :: nat}) s"

definition replace_char :: "char \<Rightarrow> char \<Rightarrow> string \<Rightarrow> string" where
  "replace_char old new = map (\<lambda>ch. if ch = old then new else ch)"

text \<open>\<open>None\<close> is the error for an unknown spelling.\<close>

definition ParseSelectionMode :: "string \<Rightarrow> SelectionMode option" where
  "ParseSelectionMode str =
     (if blank_string str then Some SelectionModeWeightedRandom
      else List.find (\<lambda>m. to_lower (replace_char CHR ''-'' CHR ''_'' str) = to_lower (SelectionMode_String m))
             [SelectionModeWeightedRandom, SelectionModeBest])"

definition ParseSelectionPriority :: "string \<Rightarrow> SelectionPriority option" where
  "ParseSelectionPriority str =
     (if blank_string str then Some SelectionPriorityBalanced
      else List.find (\<lambda>p. to_lower (replace_char CHR ''_'' CHR ''-'' str) = to_lower (SelectionPriority_String p))
             [SelectionPriorityBalanced, SelectionPriorityMostReliable, SelectionPriorityFastest, SelectionPriorityFreshest])"

record UpstreamSelectorConfig =
  AvailabilityWeight :: "rat option"
  LatencyWeight :: "rat option"
  SyncWeight :: "rat option"
  StakeWeight :: "rat option"
  MinSelectionChance :: "rat option"
  cfg_Strategy :: Strategy
  cfg_SelectionMode :: SelectionMode

definition DefaultUpstreamSelectorConfig :: UpstreamSelectorConfig where
  "DefaultUpstreamSelectorConfig =
     \<lparr>AvailabilityWeight = Some (3/10), LatencyWeight = Some (3/10), SyncWeight = Some (2/10), StakeWeight = Some (2/10),
      MinSelectionChance = Some (1/100), cfg_Strategy = StrategyBalanced, cfg_SelectionMode = SelectionModeWeightedRandom\<rparr>"

fun presetWeights :: "SelectionPriority \<Rightarrow> rat \<times> rat \<times> rat \<times> rat" where
  "presetWeights SelectionPriorityBalanced = (30/100, 30/100, 20/100, 20/100)"
| "presetWeights SelectionPriorityMostReliable = (70/100, 15/100, 15/100, 0)"
| "presetWeights SelectionPriorityFastest = (20/100, 70/100, 10/100, 0)"
| "presetWeights SelectionPriorityFreshest = (20/100, 10/100, 70/100, 0)"

definition ApplyTo :: "SelectionPriority \<Rightarrow> UpstreamSelectorConfig \<Rightarrow> UpstreamSelectorConfig" where
  "ApplyTo p cfg =
     (case presetWeights p of (av, la, sy, st) \<Rightarrow>
        cfg\<lparr>AvailabilityWeight := Some av, LatencyWeight := Some la, SyncWeight := Some sy, StakeWeight := Some st\<rparr>)"

record UpstreamSelector =
  availabilityWeight :: rat
  latencyWeight :: rat
  syncWeight :: rat
  stakeWeight :: rat
  minSelectionChance :: rat
  ws_strategy :: Strategy
  selectionMode :: SelectionMode

fun validWeight :: "rat option \<Rightarrow> bool" where
  "validWeight None = False"
| "validWeight (Some w) = (0 \<le> w)"

definition the_weights :: "UpstreamSelectorConfig \<Rightarrow> rat \<times> rat \<times> rat \<times> rat" where
  "the_weights cfg =
     (let ws = [AvailabilityWeight cfg, LatencyWeight cfg, SyncWeight cfg, StakeWeight cfg] in
      if list_all validWeight ws \<and> 0 < sum_list (map the ws)
      then (the (AvailabilityWeight cfg), the (LatencyWeight cfg), the (SyncWeight cfg), the (StakeWeight cfg))
      else (3/10, 3/10, 2/10, 2/10))"

definition the_chance :: "UpstreamSelectorConfig \<Rightarrow> rat" where
  "the_chance cfg =
     (case MinSelectionChance cfg of
        Some x \<Rightarrow> if 0 \<le> x \<and> x \<le> 1 then x else 1/100
      | None \<Rightarrow> 1/100)"

definition NewUpstreamSelector :: "UpstreamSelectorConfig \<Rightarrow> UpstreamSelector" where
  "NewUpstreamSelector cfg =
     (case the_weights cfg of (av, la, sy, st) \<Rightarrow>
        let sumWeights = av + la + sy + st;
            scale = (if \<bar>sumWeights - 1\<bar> > 1/1000 then sumWeights else 1)
        in \<lparr>availabilityWeight = av / scale, latencyWeight = la / scale, syncWeight = sy / scale, stakeWeight = st / scale,
            minSelectionChance = the_chance cfg, ws_strategy = cfg_Strategy cfg, selectionMode = cfg_SelectionMode cfg\<rparr>)"

section \<open>Scoring\<close>

definition MinAcceptableAvailability :: rat where "MinAcceptableAvailability = 80/100"
definition WorstLatencyScore :: rat where "WorstLatencyScore = 30"
definition WorstSyncScore :: rat where "WorstSyncScore = 20 * 60"

definition normalizeAvailability :: "rat \<Rightarrow> rat" where
  "normalizeAvailability availability =
     (if availability < MinAcceptableAvailability then 0
      else let n = (availability - MinAcceptableAvailability) / (1 - MinAcceptableAvailability);
               n = (if n > 1 then 1 else n)
           in if n < 0 then 0 else n)"

text \<open>The adaptive bounds are \<open>None\<close> when the feature is off, its getter nil, or a bound not finite.\<close>

definition normalizeInverted :: "rat \<Rightarrow> rat \<Rightarrow> (rat \<times> rat) option \<Rightarrow> rat" where
  "normalizeInverted worst v bounds =
     (let fixed = (if v \<le> 0 then 1 else let n = 1 - v / worst in if n < 0 then 0 else n) in
      case bounds of
        None \<Rightarrow> fixed
      | Some (p10, p90) \<Rightarrow>
          if p10 \<le> 0 \<or> p90 \<le> 0 \<or> p90 \<le> p10 then fixed
          else let clamped = (if v < p10 then p10 else v);
                   clamped = (if clamped > p90 then p90 else clamped);
                   n = 1 - (clamped - p10) / (p90 - p10);
                   n = (if n < 0 then 0 else n)
               in if n > 1 then 1 else n)"

definition normalizeStake :: "(rat \<Rightarrow> rat) \<Rightarrow> rat \<Rightarrow> rat \<Rightarrow> rat" where
  "normalizeStake sqrtf stake totalStake =
     (if totalStake = 0 \<or> stake = 0 then 0
      else let r = stake / totalStake; r = (if r > 1 then 1 else r) in sqrtf r)"

definition applyStrategyAdjustments :: "(rat \<Rightarrow> rat \<Rightarrow> rat) \<Rightarrow> Strategy \<Rightarrow> rat \<Rightarrow> rat \<Rightarrow> rat \<times> rat" where
  "applyStrategyAdjustments powf strat lat syn =
     (case strat of
        StrategyLatency \<Rightarrow> (if lat > 7/10 then powf lat (8/10) else lat, syn)
      | StrategySyncFreshness \<Rightarrow> (lat, if syn > 7/10 then powf syn (8/10) else syn)
      | StrategyAccuracy \<Rightarrow> (powf lat (12/10), powf syn (12/10))
      | StrategyDistributed \<Rightarrow> (powf lat (12/10), powf syn (12/10))
      | _ \<Rightarrow> (lat, syn))"

record qos_report =
  qos_Latency :: rat
  qos_Sync :: rat
  qos_Availability :: rat

record adaptive_bounds =
  latencyBounds :: "(rat \<times> rat) option"
  syncBounds :: "(rat \<times> rat) option"

definition CalculateScore ::
  "(rat \<Rightarrow> rat) \<Rightarrow> (rat \<Rightarrow> rat \<Rightarrow> rat) \<Rightarrow> UpstreamSelector \<Rightarrow> adaptive_bounds \<Rightarrow> qos_report \<Rightarrow> rat \<Rightarrow> rat \<Rightarrow> rat" where
  "CalculateScore sqrtf powf ws ab q stake totalStake =
     (let av = normalizeAvailability (qos_Availability q);
          la = normalizeInverted WorstLatencyScore (qos_Latency q) (latencyBounds ab);
          sy = normalizeInverted WorstSyncScore (qos_Sync q) (syncBounds ab);
          st = normalizeStake sqrtf stake totalStake;
          (la, sy) = applyStrategyAdjustments powf (ws_strategy ws) la sy;
          composite = av * availabilityWeight ws + la * latencyWeight ws + sy * syncWeight ws + st * stakeWeight ws;
          composite = (if qos_Availability q < MinAcceptableAvailability \<or> composite < minSelectionChance ws
                       then minSelectionChance ws else composite)
      in if composite > 1 then 1 else composite)"

definition GetStake :: "(string, int64) gomap \<Rightarrow> string \<Rightarrow> int64" where
  "GetStake stakes a = (case mget stakes a of None \<Rightarrow> 1 | Some s \<Rightarrow> s)"

definition UpdateStakes :: "(string, int64) gomap \<Rightarrow> (string, int64) gomap \<Rightarrow> (string, int64) gomap" where
  "UpdateStakes new stakes = fold (\<lambda>(a, s). mput a s) new stakes"

record UpstreamScore =
  us_Address :: string
  SelectionWeight :: rat

text \<open>
  The candidates with their scores. \<open>qos a = None\<close> is a provider whose QoS could not be resolved,
  which is passed over; \<open>score\<close> is \<open>CalculateScore\<close> of the report, the stake and the totalStake stake.
\<close>

definition CalculateUpstreamScores ::
  "(qos_report \<Rightarrow> rat \<Rightarrow> rat \<Rightarrow> rat) \<Rightarrow> (string \<Rightarrow> qos_report option) \<Rightarrow> (string, int64) gomap \<Rightarrow> string list \<Rightarrow> string fset
    \<Rightarrow> UpstreamScore list" where
  "CalculateUpstreamScores score qos stakes allAddresses ignored =
     (let totalStake = fold (\<lambda>a t. add64 t (GetStake stakes a)) allAddresses 0 in
      List.map_filter (\<lambda>a. if a |\<in>| ignored then None
         else map_option (\<lambda>q. \<lparr>us_Address = a, SelectionWeight = score q (of_int (GetStake stakes a)) (of_int totalStake)\<rparr>) (qos a))
        allAddresses)"

section \<open>The pick\<close>

fun weighted_loop :: "rat \<Rightarrow> rat \<Rightarrow> nat \<Rightarrow> UpstreamScore list \<Rightarrow> nat option" where
  "weighted_loop v cum i [] = None"
| "weighted_loop v cum i (s # ss) =
     (let cum = cum + SelectionWeight s in if v \<le> cum then Some i else weighted_loop v cum (Suc i) ss)"

definition totalScore :: "UpstreamScore list \<Rightarrow> rat" where
  "totalScore ss = sum_list (map SelectionWeight ss)"

definition pickWeightedIndex :: "rat \<Rightarrow> UpstreamScore list \<Rightarrow> nat" where
  "pickWeightedIndex u ss =
     (case weighted_loop (u * totalScore ss) 0 0 ss of Some i \<Rightarrow> i | None \<Rightarrow> length ss - 1)"

fun best_loop :: "UpstreamScore list \<Rightarrow> nat \<Rightarrow> nat list \<Rightarrow> nat" where
  "best_loop ss best [] = best"
| "best_loop ss best (i # is) =
     best_loop ss (if SelectionWeight (ss ! i) > SelectionWeight (ss ! best) then i else best) is"

definition pickBestIndex :: "UpstreamScore list \<Rightarrow> nat" where
  "pickBestIndex ss = best_loop ss 0 [1..<length ss]"

text \<open>The winning index; an empty list has no winner (the code returns the empty address).\<close>

definition SelectUpstreamWithStats :: "SelectionMode \<Rightarrow> rat \<Rightarrow> nat \<Rightarrow> UpstreamScore list \<Rightarrow> nat option" where
  "SelectUpstreamWithStats mode u k ss =
     (if ss = [] then None
      else if length ss = 1 then Some 0
      else if totalScore ss \<le> 0 then Some (if mode = SelectionModeBest then 0 else k mod length ss)
      else Some (if mode = SelectionModeBest then pickBestIndex ss else pickWeightedIndex u ss))"

definition ChooseUpstream ::
  "SelectionMode \<Rightarrow> (qos_report \<Rightarrow> rat \<Rightarrow> rat \<Rightarrow> rat) \<Rightarrow> (string \<Rightarrow> qos_report option) \<Rightarrow> (string, int64) gomap
    \<Rightarrow> rat \<times> nat \<Rightarrow> string list \<Rightarrow> string fset \<Rightarrow> string list" where
  "ChooseUpstream mode score qos stakes draw allAddresses ignored =
     (let ss = CalculateUpstreamScores score qos stakes allAddresses ignored in
      case SelectUpstreamWithStats mode (fst draw) (snd draw) ss of
        None \<Rightarrow> []
      | Some i \<Rightarrow> [us_Address (ss ! i)])"

section \<open>Scores lie between the floor and one\<close>

lemma the_chance_unit: "0 \<le> the_chance cfg \<and> the_chance cfg \<le> 1"
  by (simp add: the_chance_def split: option.split)

text \<open>C25. Whatever the configuration (weights or a floor out of range, NaN or infinite included), a score
  computed by the selector built from it lies between the configured floor and 1; and a provider
  whose availability is below the acceptable minimum scores exactly the floor, so no live
  provider scores less, however good the latency and sync it was last seen with.
\<close>

theorem scores_bounded_dead_floored:
  "let ws = NewUpstreamSelector cfg; s = CalculateScore sqrtf powf ws ab q stake totalStake in
     minSelectionChance ws \<le> s \<and> s \<le> 1 \<and> 0 \<le> s
     \<and> (qos_Availability q < MinAcceptableAvailability
          \<longrightarrow> s = minSelectionChance ws \<and> (\<forall>ab' q' stake'. s \<le> CalculateScore sqrtf powf ws ab' q' stake' totalStake))"
proof -
  have "minSelectionChance (NewUpstreamSelector cfg) = the_chance cfg"
    by (simp add: NewUpstreamSelector_def Let_def split: prod.split)
  with the_chance_unit [of cfg] show ?thesis
    by (auto simp: CalculateScore_def Let_def split: prod.split)
qed
definition live_report :: qos_report where "live_report = \<lparr>qos_Latency = 1/10, qos_Sync = 1, qos_Availability = 1\<rparr>"
definition dead_report :: qos_report where "dead_report = \<lparr>qos_Latency = 1/10, qos_Sync = 1, qos_Availability = 1/2\<rparr>"

theorem scores_bounded_dead_floored_witness:
  "qos_Availability dead_report < MinAcceptableAvailability
   \<and> CalculateScore (\<lambda>x. x) (\<lambda>x y. x) (NewUpstreamSelector DefaultUpstreamSelectorConfig)
       \<lparr>latencyBounds = None, syncBounds = None\<rparr> dead_report 1 2 = 1/100"
proof -
  have dead: "qos_Availability dead_report < MinAcceptableAvailability"
    by (simp add: dead_report_def MinAcceptableAvailability_def)
  have "minSelectionChance (NewUpstreamSelector DefaultUpstreamSelectorConfig) = 1/100"
    by (simp add: NewUpstreamSelector_def DefaultUpstreamSelectorConfig_def the_weights_def the_chance_def Let_def)
  with dead scores_bounded_dead_floored [of DefaultUpstreamSelectorConfig "\<lambda>x. x" "\<lambda>x y. x"
      "\<lparr>latencyBounds = None, syncBounds = None\<rparr>" dead_report 1 2]
  show ?thesis by (simp add: Let_def)
qed

section \<open>What each mode picks\<close>

definition prefix_sum :: "UpstreamScore list \<Rightarrow> nat \<Rightarrow> rat" where
  "prefix_sum ss i = sum_list (map SelectionWeight (take i ss))"

lemma prefix_sum_Cons: "prefix_sum (s # ss) (Suc i) = SelectionWeight s + prefix_sum ss i"
  by (simp add: prefix_sum_def)

lemma prefix_sum_0 [simp]: "prefix_sum ss 0 = 0"
  by (simp add: prefix_sum_def)

lemma prefix_sum_nonneg: "\<forall>s\<in>set ss. 0 \<le> SelectionWeight s \<Longrightarrow> 0 \<le> prefix_sum ss i"
  unfolding prefix_sum_def by (rule sum_list_nonneg) (auto dest: in_set_takeD)

lemma weighted_loop_spec:
  assumes "\<forall>s\<in>set ss. 0 \<le> SelectionWeight s"
  shows "weighted_loop v cum i ss = Some j \<longleftrightarrow>
    (i \<le> j \<and> j < i + length ss \<and> v \<le> cum + prefix_sum ss (Suc (j - i)) \<and> (i < j \<longrightarrow> cum + prefix_sum ss (j - i) < v))"
  using assms
proof (induction ss arbitrary: cum i)
  case (Cons s ss)
  note ih = Cons.IH [of "cum + SelectionWeight s" "Suc i"] and nn = prefix_sum_nonneg [of ss]
  show ?case
  proof (cases "v \<le> cum + SelectionWeight s")
    case True
    have "\<not> (i < j \<and> cum + prefix_sum (s # ss) (j - i) < v)"
    proof
      assume "i < j \<and> cum + prefix_sum (s # ss) (j - i) < v"
      moreover from this obtain d where "j - i = Suc d" by (metis Suc_diff_Suc)
      ultimately show False using True nn [of d] Cons.prems by (simp add: prefix_sum_Cons)
    qed
    with True show ?thesis by (auto simp: prefix_sum_Cons not_less)
  next
    case False
    have "i \<le> j \<longleftrightarrow> j = i \<or> Suc i \<le> j" by auto
    moreover have "j - i = Suc (j - Suc i)" if "Suc i \<le> j" using that by simp
    ultimately show ?thesis using False ih Cons.prems
      by (cases "j = i") (auto simp: prefix_sum_Cons add.assoc not_le)
  qed
qed simp

lemma prefix_sum_all: "prefix_sum ss (length ss) = totalScore ss"
  by (simp add: prefix_sum_def totalScore_def)

lemma weighted_loop_total:
  assumes "\<forall>s\<in>set ss. 0 \<le> SelectionWeight s" and "ss \<noteq> []" and "v \<le> totalScore ss"
  shows "\<exists>j. weighted_loop v 0 0 ss = Some j"
proof -
  define P where "P j \<longleftrightarrow> v \<le> prefix_sum ss (Suc j)" for j
  have "P (length ss - 1)" using assms(2,3) by (simp add: P_def prefix_sum_all)
  define j where "j = (LEAST j. P j)"
  have "P j" unfolding j_def by (rule LeastI [of P]) fact
  moreover have "j < length ss" using Least_le [of P "length ss - 1"] \<open>P (length ss - 1)\<close> assms(2)
    unfolding j_def by (metis Suc_pred' length_greater_0_conv less_Suc_eq_le)
  moreover have "prefix_sum ss j < v" if "0 < j"
    using not_less_Least [of "j - 1" P] that unfolding j_def P_def by (simp add: not_le)
  ultimately show ?thesis using weighted_loop_spec [OF assms(1), of v 0 0 j] by (auto simp: P_def)
qed

text \<open>C26. The weighted draw is proportional: for positive weights and a draw \<open>u\<close> in \<open>[0, 1)\<close>, candidate
  \<open>i\<close> wins exactly when \<open>u\<close> times the total lies in the \<open>i\<close>-th of the consecutive intervals whose
  lengths are the weights (the first one also owning its left end), so its share of the unit
  interval is its share of the total weight, and the fallback to the last candidate is never taken.
\<close>

theorem weighted_draw_proportional:
  assumes "\<forall>s\<in>set ss. 0 < SelectionWeight s" and "ss \<noteq> []" and "0 \<le> u" and "u < 1" and "i < length ss"
  shows "(pickWeightedIndex u ss = i \<longleftrightarrow>
      (i = 0 \<and> u = 0) \<or> (prefix_sum ss i < u * totalScore ss \<and> u * totalScore ss \<le> prefix_sum ss (Suc i)))
    \<and> prefix_sum ss (Suc i) - prefix_sum ss i = SelectionWeight (ss ! i)"
proof -
  have nn: "\<forall>s\<in>set ss. 0 \<le> SelectionWeight s" using assms(1) by (simp add: order_less_imp_le)
  have "0 \<le> totalScore ss" using prefix_sum_nonneg [OF nn, of "length ss"] by (simp add: prefix_sum_all)
  then have le: "u * totalScore ss \<le> totalScore ss" and "0 \<le> u * totalScore ss"
    using assms(3,4) by (simp_all add: mult_left_le_one_le mult_nonneg_nonneg)
  obtain j where j: "weighted_loop (u * totalScore ss) 0 0 ss = Some j"
    using weighted_loop_total [OF nn assms(2) le] by blast
  then have pick: "pickWeightedIndex u ss = j" by (simp add: pickWeightedIndex_def)
  have step: "prefix_sum ss (Suc k) = prefix_sum ss k + SelectionWeight (ss ! k)" if "k < length ss" for k
    using that by (simp add: prefix_sum_def take_Suc_conv_app_nth)
  have pos: "0 < totalScore ss"
    using assms(1,2) nn by (cases ss) (auto simp: totalScore_def intro!: add_pos_nonneg sum_list_nonneg)
  have "j = i \<longleftrightarrow> weighted_loop (u * totalScore ss) 0 0 ss = Some i" using j by auto
  also have "\<dots> \<longleftrightarrow> u * totalScore ss \<le> prefix_sum ss (Suc i) \<and> (0 < i \<longrightarrow> prefix_sum ss i < u * totalScore ss)"
    using weighted_loop_spec [OF nn, of "u * totalScore ss" 0 0 i] assms(5) by simp
  also have "\<dots> \<longleftrightarrow> (i = 0 \<and> u = 0) \<or> (prefix_sum ss i < u * totalScore ss \<and> u * totalScore ss \<le> prefix_sum ss (Suc i))"
    using pos assms(3) prefix_sum_nonneg [OF nn, of "Suc i"] by (cases "i = 0") (auto simp: zero_less_mult_iff)
  finally show ?thesis using step [OF assms(5)] by (simp add: pick)
qed

lemma best_loop_spec:
  assumes "best < k" and "k \<le> length ss"
    and "\<forall>j<best. SelectionWeight (ss ! j) < SelectionWeight (ss ! best)"
    and "\<forall>j<k. SelectionWeight (ss ! j) \<le> SelectionWeight (ss ! best)"
  defines "r \<equiv> best_loop ss best [k..<length ss]"
  shows "r < length ss \<and> (\<forall>j<r. SelectionWeight (ss ! j) < SelectionWeight (ss ! r))
    \<and> (\<forall>j<length ss. SelectionWeight (ss ! j) \<le> SelectionWeight (ss ! r))"
  using assms(1-4) unfolding r_def
proof (induction "length ss - k" arbitrary: k best)
  case 0
  then show ?case by simp
next
  case (Suc d)
  let ?b = "if SelectionWeight (ss ! k) > SelectionWeight (ss ! best) then k else best"
  have "k < length ss" using Suc.hyps(2) by simp
  then have loop: "best_loop ss best [k..<length ss] = best_loop ss ?b [Suc k..<length ss]"
    by (simp add: upt_conv_Cons)
  have "\<forall>j<?b. SelectionWeight (ss ! j) < SelectionWeight (ss ! ?b)"
    using Suc.prems by (auto intro: le_less_trans)
  moreover have "\<forall>j<Suc k. SelectionWeight (ss ! j) \<le> SelectionWeight (ss ! ?b)"
    using Suc.prems(4) by (auto simp: less_Suc_eq not_less intro: order_trans order_less_imp_le)
  moreover have "?b < Suc k" using Suc.prems(1) by auto
  ultimately show ?case
    unfolding loop using Suc.hyps(1) [of "Suc k" ?b] Suc.hyps(2) \<open>k < length ss\<close> by simp
qed

text \<open>Mode \<open>best\<close> is deterministic and picks the earliest of the highest scores: the draws play no part
  in it, the winner's score is the maximum and every earlier candidate scores strictly less.
\<close>

theorem best_mode_picks_the_first_maximum:
  assumes "ss \<noteq> []" and "\<forall>s\<in>set ss. 0 \<le> SelectionWeight s"
  shows "\<exists>i<length ss. (\<forall>u k. SelectUpstreamWithStats SelectionModeBest u k ss = Some i)
    \<and> (\<forall>j<length ss. SelectionWeight (ss ! j) \<le> SelectionWeight (ss ! i))
    \<and> (\<forall>j<i. SelectionWeight (ss ! j) < SelectionWeight (ss ! i))"
proof (cases "length ss = 1 \<or> totalScore ss \<le> 0")
  case True
  have "SelectionWeight (ss ! j) \<le> SelectionWeight (ss ! 0)" if j: "j < length ss" for j
  proof (cases "length ss = 1")
    case True
    with j show ?thesis by simp
  next
    case False
    with \<open>length ss = 1 \<or> totalScore ss \<le> 0\<close> have "sum_list (map SelectionWeight ss) \<le> 0" by (simp add: totalScore_def)
    moreover have "0 \<le> sum_list (map SelectionWeight ss)" using assms(2) by (intro sum_list_nonneg) auto
    ultimately have "sum_list (map SelectionWeight ss) = 0" by (rule order_antisym)
    with assms(2) have "\<forall>s\<in>set ss. SelectionWeight s = 0" using sum_list_nonneg_eq_0_iff [of "map SelectionWeight ss"] by auto
    with j assms(1) show ?thesis by (metis length_greater_0_conv nth_mem order_refl)
  qed
  moreover have "SelectUpstreamWithStats SelectionModeBest u k ss = Some 0" for u k
    using True assms(1) by (auto simp: SelectUpstreamWithStats_def)
  ultimately show ?thesis using assms(1) by (intro exI [of _ 0]) simp
next
  case False
  have "pickBestIndex ss < length ss \<and> (\<forall>j<pickBestIndex ss. SelectionWeight (ss ! j) < SelectionWeight (ss ! pickBestIndex ss))
    \<and> (\<forall>j<length ss. SelectionWeight (ss ! j) \<le> SelectionWeight (ss ! pickBestIndex ss))"
    unfolding pickBestIndex_def using assms(1) by (intro best_loop_spec) (auto simp: Suc_le_eq)
  with False assms(1) show ?thesis
    by (intro exI [of _ "pickBestIndex ss"]) (auto simp: SelectUpstreamWithStats_def)
qed

section \<open>What its clients rely on\<close>

text \<open>
  The contract of \<open>ChooseUpstream\<close> as provider selection uses it: at most one address, never an
  ignored one, never one that was not offered, and none only when nothing is left to offer. The
  first argument numbers the calls, which may draw differently.
\<close>

locale upstream_choice =
  fixes pick :: "nat \<Rightarrow> string list \<Rightarrow> string fset \<Rightarrow> string list"
  assumes chosen: "pick n addrs ignored = [] \<or> (\<exists>a. pick n addrs ignored = [a] \<and> a \<in> set addrs \<and> a |\<notin>| ignored)"
    and chooses: "pick n addrs ignored = [] \<Longrightarrow> set addrs \<subseteq> fset ignored"
begin

lemma choose_sound: "a \<in> set (pick n addrs ignored) \<Longrightarrow> a \<in> set addrs \<and> a |\<notin>| ignored"
  using chosen [of n addrs ignored] by auto

lemma choose_complete: "a \<in> set addrs \<Longrightarrow> a |\<notin>| ignored \<Longrightarrow> pick n addrs ignored \<noteq> []"
  using chooses [of n addrs ignored] by auto

lemma choose_empty_iff: "pick n addrs ignored = [] \<longleftrightarrow> set addrs \<subseteq> fset ignored"
proof
  assume "set addrs \<subseteq> fset ignored"
  then show "pick n addrs ignored = []" using chosen [of n addrs ignored] by auto
qed (rule chooses)

end

lemma select_index: "ss \<noteq> [] \<Longrightarrow> \<exists>i<length ss. SelectUpstreamWithStats mode u k ss = Some i"
proof -
  assume ne: "ss \<noteq> []"
  have "weighted_loop v cum i xs = Some j \<Longrightarrow> j < i + length xs" for v cum i j and xs :: "UpstreamScore list"
    by (induction xs arbitrary: cum i) (auto simp: Let_def split: if_splits, fastforce)
  from this [of "u * totalScore ss" 0 0 ss] have "pickWeightedIndex u ss < length ss"
    using ne by (auto simp: pickWeightedIndex_def split: option.split)
  moreover have "best < length xs \<Longrightarrow> \<forall>i\<in>set is. i < length xs \<Longrightarrow> best_loop xs best is < length xs" for best "is" xs
    by (induction "is" arbitrary: best) auto
  then have "pickBestIndex ss < length ss" using ne by (simp add: pickBestIndex_def)
  ultimately show ?thesis using ne by (auto simp: SelectUpstreamWithStats_def)
qed

lemma scores_addresses:
  "us_Address ` set (CalculateUpstreamScores score (\<lambda>a. Some (qos a)) stakes addrs ignored) = set addrs - fset ignored"
  by (auto simp: CalculateUpstreamScores_def Let_def List.map_filter_def image_iff split: if_splits)

interpretation optimizer: upstream_choice "\<lambda>n. ChooseUpstream mode score (\<lambda>a. Some (qos a)) stakes (draws n)"
  for mode score qos stakes draws
proof
  fix n addrs ignored
  let ?ss = "CalculateUpstreamScores score (\<lambda>a. Some (qos a)) stakes addrs ignored"
  show "ChooseUpstream mode score (\<lambda>a. Some (qos a)) stakes (draws n) addrs ignored = []
    \<or> (\<exists>a. ChooseUpstream mode score (\<lambda>a. Some (qos a)) stakes (draws n) addrs ignored = [a] \<and> a \<in> set addrs \<and> a |\<notin>| ignored)"
  proof (cases "?ss = []")
    case False
    then obtain i where i: "i < length ?ss" "SelectUpstreamWithStats mode (fst (draws n)) (snd (draws n)) ?ss = Some i"
      using select_index by blast
    then have "us_Address (?ss ! i) \<in> set addrs - fset ignored"
      using scores_addresses [of score qos stakes addrs ignored] by (metis image_eqI nth_mem)
    then show ?thesis using i by (simp add: ChooseUpstream_def Let_def)
  qed (simp add: ChooseUpstream_def SelectUpstreamWithStats_def Let_def)
next
  fix n addrs ignored
  let ?ss = "CalculateUpstreamScores score (\<lambda>a. Some (qos a)) stakes addrs ignored"
  assume none: "ChooseUpstream mode score (\<lambda>a. Some (qos a)) stakes (draws n) addrs ignored = []"
  have "?ss = []"
  proof (rule ccontr)
    assume "?ss \<noteq> []"
    then obtain i where "SelectUpstreamWithStats mode (fst (draws n)) (snd (draws n)) ?ss = Some i" using select_index by blast
    with none show False by (simp add: ChooseUpstream_def Let_def)
  qed
  then show "set addrs \<subseteq> fset ignored" using scores_addresses [of score qos stakes addrs ignored] by auto
qed

definition three_scores :: "UpstreamScore list" where
  "three_scores = [\<lparr>us_Address = ''alpha'', SelectionWeight = 1/4\<rparr>, \<lparr>us_Address = ''beta'', SelectionWeight = 1/2\<rparr>,
     \<lparr>us_Address = ''gamma'', SelectionWeight = 1/2\<rparr>]"

theorem weighted_draw_proportional_witness: "pickWeightedIndex (1/2) three_scores = 1"
  using weighted_draw_proportional [of three_scores "1/2" 1]
  by (simp add: three_scores_def prefix_sum_def totalScore_def)

theorem best_mode_picks_the_first_maximum_witness:
  "three_scores \<noteq> [] \<and> (\<exists>i<length three_scores. \<forall>u k. SelectUpstreamWithStats SelectionModeBest u k three_scores = Some i)"
  using best_mode_picks_the_first_maximum [of three_scores] by (auto simp: three_scores_def)

section \<open>Sync evidence\<close>

record SyncReference =
  ConsensusConfigured :: bool
  ref_Block :: "64 word"
  ref_Time :: time
  ref_Fresh :: bool

record ConcurrentBlockStore =
  cbs_Time :: time
  cbs_Block :: "64 word"

definition updateLatestSyncData :: "64 word \<Rightarrow> time \<Rightarrow> ConcurrentBlockStore \<Rightarrow> (64 word \<times> time) \<times> ConcurrentBlockStore" where
  "updateLatestSyncData providerBlock sampleTime st =
     (let st = (if cbs_Block st < providerBlock then \<lparr>cbs_Time = sampleTime, cbs_Block = providerBlock\<rparr> else st)
      in ((cbs_Block st, cbs_Time st), st))"

text \<open>\<open>None\<close> is a sample without a usable reference, whose sync dimension is left out.\<close>

definition opt_resolveSyncReference :: "SyncReference \<Rightarrow> 64 word \<Rightarrow> time \<Rightarrow> ConcurrentBlockStore \<Rightarrow> (64 word \<times> time) option \<times> ConcurrentBlockStore" where
  "opt_resolveSyncReference ref providerBlock sampleTime st =
     (if ConsensusConfigured ref
      then (if ref_Fresh ref \<and> 0 < ref_Block ref then Some (ref_Block ref, ref_Time ref) else None, st)
      else case updateLatestSyncData providerBlock sampleTime st of (r, st) \<Rightarrow> (Some r, st))"

definition calculateSyncLag :: "duration \<Rightarrow> 64 word \<Rightarrow> time \<Rightarrow> 64 word \<Rightarrow> time \<Rightarrow> duration" where
  "calculateSyncLag averageBlockTime latestSync timeSync providerBlock sampleTime =
     (if latestSync \<le> providerBlock then 0
      else let firstBlockLag = min averageBlockTime (time_sub sampleTime timeSync);
               blocksGap = latestSync - providerBlock - 1
           in add64 firstBlockLag (mul64 (sint blocksGap) averageBlockTime))"

text \<open>
  The floor a stripe keeps per provider: the highest block ever accepted for it. \<open>cached\<close> is the
  \<open>SyncBlock\<close> read back from the (possibly stale) score cache; the result is what is written.
\<close>

definition applyLocked :: "string \<Rightarrow> 64 word \<Rightarrow> 64 word \<Rightarrow> (string, 64 word) gomap \<Rightarrow> 64 word \<times> (string, 64 word) gomap" where
  "applyLocked provider observed cached floors =
     (let f = (case mget floors provider of None \<Rightarrow> 0 | Some f \<Rightarrow> f);
          f = (if cached > f then cached else f);
          f = (if observed > f then observed else f)
      in (f, mput provider f floors))"

fun apply_samples :: "string \<Rightarrow> (64 word \<times> 64 word) list \<Rightarrow> (string, 64 word) gomap \<Rightarrow> 64 word list" where
  "apply_samples provider [] floors = []"
| "apply_samples provider ((observed, cached) # xs) floors =
     (case applyLocked provider observed cached floors of (f, floors) \<Rightarrow> f # apply_samples provider xs floors)"

text \<open>
  Whatever stale blocks the cache hands back, the blocks written for a provider never fall and
  never lie below an observed one.
\<close>

theorem sync_block_never_regresses:
  "sorted (apply_samples p xs floors) \<and> list_all2 (\<lambda>(observed, cached) f. observed \<le> f) xs (apply_samples p xs floors)
    \<and> (\<forall>f\<in>set (apply_samples p xs floors). case mget floors p of None \<Rightarrow> True | Some g \<Rightarrow> g \<le> f)"
proof (induction xs arbitrary: floors)
  case (Cons x xs)
  obtain observed cached where x: "x = (observed, cached)" by (cases x)
  define f where "f = fst (applyLocked p observed cached floors)"
  have fl: "applyLocked p observed cached floors = (f, mput p f floors)"
    by (simp add: f_def applyLocked_def Let_def)
  have "observed \<le> f" and "case mget floors p of None \<Rightarrow> True | Some g \<Rightarrow> g \<le> f"
    by (auto simp: f_def applyLocked_def Let_def not_less split: option.split)
  with Cons.IH [of "mput p f floors"] show ?case
    by (auto simp: x fl split: option.splits)
qed simp

end
