(* ===== verification/RetryAfter.thy ===== *)
theory RetryAfter
  imports Prelude
begin

text \<open>
  Retry-After capture, \<open>protocol/common/retry_after.go\<close>: reading the delay an upstream asked for from
  HTTP headers and from gRPC metadata, and the error type that carries it. The standard library's
  \<open>http.ParseTime\<close> and \<open>time.Duration.String\<close> are arguments; \<open>strconv.Atoi\<close>, \<open>strings.TrimSpace\<close>,
  \<open>strings.ToLower\<close> and \<open>strings.Contains\<close> are written out (ASCII).
\<close>

section \<open>Strings\<close>

definition is_digit :: "char \<Rightarrow> bool" where
  "is_digit c \<longleftrightarrow> (48::int) \<le> of_char c \<and> of_char c \<le> (57::int)"

definition digit_val :: "char \<Rightarrow> int" where
  "digit_val c = of_char c - 48"

fun digits_val :: "int \<Rightarrow> string \<Rightarrow> int" where
  "digits_val acc [] = acc"
| "digits_val acc (c # cs) = digits_val (acc * 10 + digit_val c) cs"

text \<open>\<open>strconv.Atoi\<close>: an optional sign, at least one digit, nothing else, and the \<open>int64\<close> range.\<close>

definition atoi :: "string \<Rightarrow> int option" where
  "atoi s =
    (let neg = (case s of c # _ \<Rightarrow> c = CHR ''-'' | [] \<Rightarrow> False);
         ds = (case s of c # cs \<Rightarrow> if c = CHR ''-'' \<or> c = CHR ''+'' then cs else s | [] \<Rightarrow> [])
     in if ds = [] \<or> \<not> list_all is_digit ds then None
        else let v = (if neg then - digits_val 0 ds else digits_val 0 ds)
             in if in_int64 v then Some v else None)"

definition is_space :: "char \<Rightarrow> bool" where
  "is_space c \<longleftrightarrow> ((9::int) \<le> of_char c \<and> of_char c \<le> (13::int)) \<or> of_char c = (32::int)"

definition trim_space :: "string \<Rightarrow> string" where
  "trim_space s = rev (dropWhile is_space (rev (dropWhile is_space s)))"

section \<open>The header\<close>

definition MaxRetryAfter :: duration where
  "MaxRetryAfter = hour"

definition maxRetryAfterSeconds :: int where
  "maxRetryAfterSeconds = MaxRetryAfter div second"

text \<open>An \<open>http.Header\<close>: nil is \<open>None\<close>, and \<open>Get\<close> of an absent key is the empty string.\<close>

type_synonym header = "(string \<rightharpoonup> string) option"

definition header_get :: "(string \<rightharpoonup> string) \<Rightarrow> string \<Rightarrow> string" where
  "header_get h k = (case h k of None \<Rightarrow> [] | Some v \<Rightarrow> v)"

definition retryAfterReferenceTime ::
    "(string \<Rightarrow> time option) \<Rightarrow> (string \<rightharpoonup> string) \<Rightarrow> time \<Rightarrow> time" where
  "retryAfterReferenceTime parse_time h now =
     (case parse_time (header_get h ''Date'') of Some date \<Rightarrow> date | None \<Rightarrow> now)"

definition ParseRetryAfter ::
    "(string \<Rightarrow> time option) \<Rightarrow> header \<Rightarrow> time \<Rightarrow> duration option" where
  "ParseRetryAfter parse_time hdr now =
    (case hdr of None \<Rightarrow> None
     | Some h \<Rightarrow>
        let raw = header_get h ''Retry-After''
        in if raw = [] then None
           else (case atoi raw of
              Some secs \<Rightarrow>
                if secs \<le> 0 then None
                else if secs > maxRetryAfterSeconds then Some MaxRetryAfter
                else Some (mul64 secs second)
            | None \<Rightarrow>
               (case parse_time raw of
                  None \<Rightarrow> None
                | Some t \<Rightarrow>
                   let d = time_sub t (retryAfterReferenceTime parse_time h now)
                   in if d > 0 then (if d > MaxRetryAfter then Some MaxRetryAfter else Some d)
                      else None)))"

section \<open>The error\<close>

text \<open>\<open>errors.As(err, &rle)\<close>: the first \<open>RateLimitedError\<close> of the tree, depth first.\<close>

fun find_rate_limited :: "go_error \<Rightarrow> duration option"
  and find_rate_limited_list :: "go_error list \<Rightarrow> duration option" where
  "find_rate_limited (ErrRateLimited d _) = Some d"
| "find_rate_limited (ErrWrap _ es) = find_rate_limited_list es"
| "find_rate_limited (ErrSentinel _) = None"
| "find_rate_limited (ErrNew _) = None"
| "find_rate_limited (ErrHTTPStatus _ code d) = (if code = 429 then Some d else None)"
| "find_rate_limited_list [] = None"
| "find_rate_limited_list (e # es) =
     (case find_rate_limited e of Some d \<Rightarrow> Some d | None \<Rightarrow> find_rate_limited_list es)"

definition RetryAfterFrom :: "go_error option \<Rightarrow> duration option" where
  "RetryAfterFrom err =
     (case err of None \<Rightarrow> None
      | Some e \<Rightarrow> (case find_rate_limited e of
          Some d \<Rightarrow> if d > 0 then Some d else None
        | None \<Rightarrow> None))"

text \<open>\<open>Error()\<close>; the rendering of a duration is the argument \<open>dur_str\<close>.\<close>

fun err_text :: "(duration \<Rightarrow> string) \<Rightarrow> go_error \<Rightarrow> string" where
  "err_text ds (ErrSentinel n) = n"
| "err_text ds (ErrNew m) = m"
| "err_text ds (ErrWrap m _) = m"
| "err_text ds (ErrRateLimited d None) =
     StatusCodeError429 @ (if d > 0 then '', retry after '' @ ds d else [])"
| "err_text ds (ErrRateLimited d (Some c)) =
     err_text ds c @ (if d > 0 then '', retry after '' @ ds d else [])"
| "err_text ds (ErrHTTPStatus m _ _) = m"

definition RateLimited :: "(duration \<Rightarrow> string) \<Rightarrow> go_error option \<Rightarrow> duration \<Rightarrow> go_error" where
  "RateLimited ds err retryAfter =
    (let cause = (case err of
            None \<Rightarrow> ErrSentinel StatusCodeError429
          | Some e \<Rightarrow> ErrWrap (StatusCodeError429 @ '': '' @ err_text ds e)
                              [ErrSentinel StatusCodeError429, e])
     in if retryAfter \<le> 0 then cause
        else ErrRateLimited (if retryAfter > MaxRetryAfter then MaxRetryAfter else retryAfter) (Some cause))"

definition WithRetryAfter ::
    "(string \<Rightarrow> time option) \<Rightarrow> go_error option \<Rightarrow> header \<Rightarrow> time \<Rightarrow> go_error option" where
  "WithRetryAfter parse_time err h now =
    (if err = None \<or> \<not> errors_is_opt err StatusCodeError429 then err
     else (case ParseRetryAfter parse_time h now of
             None \<Rightarrow> err
           | Some d \<Rightarrow> Some (ErrRateLimited d err)))"

section \<open>gRPC\<close>

definition GRPCRateLimitTexts :: "string list" where
  "GRPCRateLimitTexts = [''too many requests'', ''rate limit'', ''ratelimit'', ''enhance_your_calm'']"

type_synonym metadata = "string \<Rightarrow> string list"

definition md_first :: "metadata \<Rightarrow> string \<Rightarrow> string" where
  "md_first md key = (case md key of v # _ \<Rightarrow> v | [] \<Rightarrow> [])"

text \<open>The branch of \<open>grpcRetryDelayFromMD\<close> that reads the pushback header; the product wraps.\<close>

definition pushback_delay :: "string \<Rightarrow> duration option" where
  "pushback_delay raw =
    (if raw = [] then None
     else (case atoi (trim_space raw) of
        None \<Rightarrow> None
      | Some ms \<Rightarrow>
         if ms > 0 then
           let d = mul64 ms millisecond
           in Some (if d > MaxRetryAfter then MaxRetryAfter else d)
         else None))"

definition grpcRetryDelayFromMD :: "(string \<Rightarrow> time option) \<Rightarrow> metadata \<Rightarrow> time \<Rightarrow> duration" where
  "grpcRetryDelayFromMD parse_time md now =
    (case pushback_delay (md_first md ''grpc-retry-pushback-ms'') of
       Some d \<Rightarrow> d
     | None \<Rightarrow>
        let raw = md_first md ''retry-after''
        in if raw \<noteq> [] then
             (case ParseRetryAfter parse_time (Some [''Retry-After'' \<mapsto> raw]) now of
                Some d \<Rightarrow> d | None \<Rightarrow> 0)
           else 0)"

definition RateLimitFromGRPC ::
    "(string \<Rightarrow> time option) \<Rightarrow> int \<Rightarrow> string \<Rightarrow> metadata \<Rightarrow> time \<Rightarrow> duration option" where
  "RateLimitFromGRPC parse_time code message md now =
    (let retryAfter = grpcRetryDelayFromMD parse_time md now
     in if list_ex (\<lambda>sig. str_contains (to_lower message) sig) GRPCRateLimitTexts then Some retryAfter
        else if code = 8 \<and> retryAfter > 0 then Some retryAfter
        else None)"

section \<open>Bounds\<close>

text \<open>
  Whatever the header says, a delay that is reported lies in \<open>(0, MaxRetryAfter]\<close>; a
  delta-seconds value in that range is reported exactly.
\<close>

theorem ParseRetryAfter_bounds:
  "(\<forall>d. ParseRetryAfter pt h now = Some d \<longrightarrow> 0 < d \<and> d \<le> MaxRetryAfter)
   \<and> (\<forall>m secs. h = Some m \<and> atoi (header_get m ''Retry-After'') = Some secs
        \<and> 0 < secs \<and> secs \<le> 3600 \<longrightarrow> ParseRetryAfter pt h now = Some (secs * second))"
proof -
  have mul: "mul64 secs second = secs * second" if "0 < secs" "secs \<le> 3600" for secs
    using that by (intro mul64_id) (simp add: second_def in_int64_def min_int64_def max_int64_def)
  have "0 < d \<and> d \<le> MaxRetryAfter" if "ParseRetryAfter pt h now = Some d" for d
    using that mul
    by (auto simp: ParseRetryAfter_def Let_def MaxRetryAfter_def maxRetryAfterSeconds_def
        duration_units split: option.splits if_splits)
  moreover have "ParseRetryAfter pt (Some m) now = Some (secs * second)"
    if a: "atoi (header_get m ''Retry-After'') = Some secs" "0 < secs" "secs \<le> 3600" for m secs
  proof -
    from a(1) have "header_get m ''Retry-After'' \<noteq> []" by (auto simp: atoi_def)
    with a mul show ?thesis
      by (simp add: ParseRetryAfter_def maxRetryAfterSeconds_def MaxRetryAfter_def duration_units)
  qed
  ultimately show ?thesis by blast
qed

theorem ParseRetryAfter_bounds_witness:
  "ParseRetryAfter (\<lambda>_. None) (Some [''Retry-After'' \<mapsto> ''120'']) 0 = Some (120 * second)"
proof -
  have "atoi (header_get [''Retry-After'' \<mapsto> ''120''] ''Retry-After'') = Some 120"
    by (simp add: atoi_def header_get_def is_digit_def digit_val_def in_int64_def min_int64_def
        max_int64_def)
  with ParseRetryAfter_bounds [of "\<lambda>_. None" "Some [''Retry-After'' \<mapsto> ''120'']" 0] show ?thesis
    by simp
qed

text \<open>
  An error typed as a rate refusal is recognised as one, whatever it wraps, and carries the
  delay it was given, clamped to \<open>MaxRetryAfter\<close>; without a positive delay it carries none of its
  own.
\<close>

theorem RateLimited_roundtrip:
  "errors_is (RateLimited ds err d) StatusCodeError429
   \<and> (0 < d \<longrightarrow> RetryAfterFrom (Some (RateLimited ds err d)) = Some (min d MaxRetryAfter))
   \<and> (d \<le> 0 \<longrightarrow> RetryAfterFrom (Some (RateLimited ds err d)) = RetryAfterFrom err)"
  by (cases err) (auto simp: RateLimited_def Let_def RetryAfterFrom_def MaxRetryAfter_def hour_def
      min_def split: option.splits)

theorem RateLimited_roundtrip_witness:
  "RetryAfterFrom (Some (RateLimited (\<lambda>_. ''1s'') (Some (ErrNew ''slow down'')) (2 * hour))) = Some hour"
  using RateLimited_roundtrip [of "\<lambda>_. ''1s''" "Some (ErrNew ''slow down'')" "2 * hour"]
  by (simp add: MaxRetryAfter_def hour_def)

text \<open>
  Enriching an error never loses its identity: any sentinel the error matched, it still matches
  after \<open>WithRetryAfter\<close>, and an error that is not a rate refusal is returned unchanged.
\<close>

theorem WithRetryAfter_preserves:
  "errors_is_opt (WithRetryAfter pt err h now) s = errors_is_opt err s
   \<and> (\<not> errors_is_opt err StatusCodeError429 \<longrightarrow> WithRetryAfter pt err h now = err)"
  by (cases err) (auto simp: WithRetryAfter_def split: option.splits)

theorem WithRetryAfter_preserves_witness:
  "WithRetryAfter (\<lambda>_. None) (Some (ErrNew ''boom'')) None 0 = Some (ErrNew ''boom'')"
  using WithRetryAfter_preserves [of "\<lambda>_. None" "Some (ErrNew ''boom'')" None 0] by simp

section \<open>The pushback header overflows\<close>

text \<open>
  The HTTP header is range-checked before it is multiplied, the gRPC pushback header after. For a
  number of milliseconds whose nanoseconds fit an \<open>int64\<close> the clamp works.
\<close>

lemma pushback_in_range:
  assumes "atoi (trim_space raw) = Some ms" "0 < ms" "in_int64 (ms * millisecond)" "raw \<noteq> []"
  shows "pushback_delay raw = Some (min (ms * millisecond) MaxRetryAfter)"
  using assms by (simp add: pushback_delay_def Let_def mul64_id min_def)

lemma atoi_9223372036855: "atoi ''9223372036855'' = Some 9223372036855"
  by (simp add: atoi_def is_digit_def digit_val_def in_int64_def min_int64_def max_int64_def)

lemma trim_9223372036855: "trim_space ''9223372036855'' = ''9223372036855''"
  by (simp add: trim_space_def is_space_def)

text \<open>
  The clamp of the gRPC pushback delay misses large values: for a header of 9223372036855
  milliseconds the product wraps around, and the delay reported is negative instead of
  \<open>MaxRetryAfter\<close>, so a \<open>RESOURCE_EXHAUSTED\<close> carrying it is not recognised as a rate refusal.
\<close>

theorem grpc_pushback_overflow:
  "grpcRetryDelayFromMD pt (\<lambda>k. if k = ''grpc-retry-pushback-ms'' then [''9223372036855''] else []) now
     = -9223372036854551616
   \<and> RateLimitFromGRPC pt 8 ''quota''
       (\<lambda>k. if k = ''grpc-retry-pushback-ms'' then [''9223372036855''] else []) now = None"
proof
  let ?md = "\<lambda>k. if k = ''grpc-retry-pushback-ms'' then [''9223372036855''] else []"
  show d: "grpcRetryDelayFromMD pt ?md now = -9223372036854551616"
    by (simp add: grpcRetryDelayFromMD_def md_first_def pushback_delay_def atoi_9223372036855
        trim_9223372036855 mul64_def wrap64_def MaxRetryAfter_def duration_units)
  show "RateLimitFromGRPC pt 8 ''quota'' ?md now = None"
    by (simp add: RateLimitFromGRPC_def d GRPCRateLimitTexts_def to_lower_def to_lower_char_def)
qed

end
