(* ===== verification/Holdoff.thy ===== *)
theory Holdoff
  imports RetryAfter Complex_Main
begin

text \<open>
  The exponential ladder of \<open>utils/backoff/backoff.go\<close> and the rate-limit hold-off registry of
  \<open>protocol/holdoff/holdoff.go\<close>. Floating-point values are real numbers; a conversion to a duration
  truncates. The clock reading \<open>r.now()\<close> and the draw \<open>r.randFloat()\<close> of a call are its arguments.
  Metric calls are left out. The registry's lock makes each operation atomic.
\<close>

section \<open>Exponential back-off\<close>

record backoff_config =
  Initial :: duration
  Max :: duration
  Multiplier :: real
  JitterFactor :: real

definition delay :: "int \<Rightarrow> backoff_config \<Rightarrow> real" where
  "delay attempt c =
    (let attempt = (if attempt < 0 then 0 else attempt);
         d = of_int (Initial c);
         d = (if d > 0 then d * Multiplier c ^ nat attempt else d)
     in if d > of_int (Max c) then of_int (Max c) else d)"

text \<open>The conversion of a \<open>float64\<close> to a \<open>time.Duration\<close> drops the fraction.\<close>

definition to_duration :: "real \<Rightarrow> duration" where
  "to_duration x = (if x \<ge> 0 then \<lfloor>x\<rfloor> else \<lceil>x\<rceil>)"

definition Delay :: "int \<Rightarrow> backoff_config \<Rightarrow> duration" where
  "Delay attempt c = to_duration (delay attempt c)"

definition Jittered :: "int \<Rightarrow> backoff_config \<Rightarrow> real \<Rightarrow> duration" where
  "Jittered attempt c r =
    (let d = delay attempt c
     in to_duration (if JitterFactor c > 0
          then let jitter = d * JitterFactor c in d - jitter + (r * 2 * jitter)
          else d))"

section \<open>The registry\<close>

definition InitialHoldoff :: duration where "InitialHoldoff = 30 * second"

definition MaxHoldoff :: duration where "MaxHoldoff = 30 * minute"

definition maxUpstreamHoldoff :: duration where "maxUpstreamHoldoff = MaxRetryAfter"

definition HoldoffJitterFactor :: real where "HoldoffJitterFactor = 1 / 5"

definition EscalationDistinctURLs :: nat where "EscalationDistinctURLs = 2"

definition entryRetention :: duration where "entryRetention = hour"

record entry =
  strikes :: int
  readyAt :: time
  lastSeen :: time

record provider_state =
  urls :: "(string, entry) gomap"
  escalatedUntil :: time

type_synonym registry = "(string, provider_state) gomap"

definition exponentialFor :: "int \<Rightarrow> duration" where
  "exponentialFor n = Delay (n - 1)
     \<lparr>Initial = InitialHoldoff, Max = MaxHoldoff, Multiplier = 2, JitterFactor = 0\<rparr>"

definition boundedWithJitterLocked :: "real \<Rightarrow> duration \<Rightarrow> duration" where
  "boundedWithJitterLocked rnd d =
    (let d1 = (if d > maxUpstreamHoldoff then maxUpstreamHoldoff else d);
         d2 = d1 + to_duration (rnd * HoldoffJitterFactor * of_int d1)
     in if d2 > maxUpstreamHoldoff then maxUpstreamHoldoff else d2)"

definition entry_expired :: "time \<Rightarrow> entry \<Rightarrow> bool" where
  "entry_expired now e \<longleftrightarrow> readyAt e < now \<and> time_sub now (lastSeen e) > entryRetention"

definition gcLocked :: "registry \<Rightarrow> time \<Rightarrow> registry" where
  "gcLocked r now =
     filter (\<lambda>kv. \<not> (urls (snd kv) = [] \<and> escalatedUntil (snd kv) < now))
       (map (\<lambda>kv. (fst kv, (snd kv)\<lparr>urls := filter (\<lambda>ue. \<not> entry_expired now (snd ue)) (urls (snd kv))\<rparr>)) r)"

text \<open>The escalation loop: how many URLs are held, and the latest of their ready times.\<close>

fun held_loop :: "time \<Rightarrow> (string, entry) gomap \<Rightarrow> nat \<Rightarrow> time \<Rightarrow> nat \<times> time" where
  "held_loop now [] held latest = (held, latest)"
| "held_loop now (ue # ues) held latest =
     (if readyAt (snd ue) > now
      then held_loop now ues (Suc held) (if readyAt (snd ue) > latest then readyAt (snd ue) else latest)
      else held_loop now ues held latest)"

text \<open>The entry of the URL after a refusal: a strike, an extension, or nothing.\<close>

definition refuse_entry :: "entry \<Rightarrow> time \<Rightarrow> real \<Rightarrow> duration \<Rightarrow> entry" where
  "refuse_entry e0 now rnd retryAfter =
    (let e = e0\<lparr>lastSeen := now\<rparr>
     in if readyAt e > now then
          (if retryAfter > time_sub (readyAt e) now then
             let d = boundedWithJitterLocked rnd retryAfter
             in if now + d > readyAt e then e\<lparr>readyAt := now + d\<rparr> else e
           else e)
        else
          let e1 = e\<lparr>strikes := strikes e + 1\<rparr>;
              d0 = exponentialFor (strikes e1);
              d1 = (if retryAfter > d0 then retryAfter else d0);
              d2 = boundedWithJitterLocked rnd d1
          in e1\<lparr>readyAt := now + d2\<rparr>)"

definition new_entry :: entry where
  "new_entry = \<lparr>strikes = 0, readyAt = zero_time, lastSeen = zero_time\<rparr>"

definition new_provider :: provider_state where
  "new_provider = \<lparr>urls = [], escalatedUntil = zero_time\<rparr>"

definition RecordRateLimit ::
    "registry \<Rightarrow> time \<Rightarrow> real \<Rightarrow> string \<Rightarrow> string \<Rightarrow> duration \<Rightarrow> registry \<times> duration" where
  "RecordRateLimit r now rnd provider url retryAfter =
    (let r1 = gcLocked r now;
         ps = (case mget r1 provider of Some ps \<Rightarrow> ps | None \<Rightarrow> new_provider);
         e0 = (case mget (urls ps) url of Some e \<Rightarrow> e | None \<Rightarrow> new_entry);
         e = refuse_entry e0 now rnd retryAfter;
         us = mput url e (urls ps);
         hl = held_loop now us 0 zero_time;
         ps' = (if fst hl \<ge> EscalationDistinctURLs
                then ps\<lparr>urls := us, escalatedUntil := snd hl\<rparr> else ps\<lparr>urls := us\<rparr>)
     in (mput provider ps' r1, time_sub (readyAt e) now))"

definition clearLocked :: "registry \<Rightarrow> string \<Rightarrow> string \<Rightarrow> registry" where
  "clearLocked r provider url =
    (case mget r provider of None \<Rightarrow> r
     | Some ps \<Rightarrow>
        let us = mdel url (urls ps)
        in if us = [] then mdel provider r
           else mput provider (ps\<lparr>urls := us, escalatedUntil := zero_time\<rparr>) r)"

definition RecordAnswer :: "registry \<Rightarrow> string \<Rightarrow> string \<Rightarrow> registry" where
  "RecordAnswer r provider url =
     clearLocked (if provider \<noteq> url then clearLocked r url url else r) provider url"

definition ReadyAt :: "registry \<Rightarrow> time \<Rightarrow> string \<Rightarrow> string \<Rightarrow> time" where
  "ReadyAt r now provider url =
    (case mget r provider of None \<Rightarrow> zero_time
     | Some ps \<Rightarrow>
        let ready = escalatedUntil ps;
            ready = (case mget (urls ps) url of
                Some e \<Rightarrow> if readyAt e > ready then readyAt e else ready
              | None \<Rightarrow> ready)
        in if \<not> ready > now then zero_time else ready)"

definition HeldOff :: "registry \<Rightarrow> time \<Rightarrow> string \<Rightarrow> string \<Rightarrow> bool" where
  "HeldOff r now provider url \<longleftrightarrow> ReadyAt r now provider url \<noteq> zero_time"

text \<open>The loop of \<open>ProviderReadyAt\<close>: any free URL, the earliest held one, how many are held.\<close>

fun provider_loop :: "time \<Rightarrow> (string, entry) gomap \<Rightarrow> bool \<Rightarrow> time \<Rightarrow> nat \<Rightarrow> bool \<times> time \<times> nat" where
  "provider_loop now [] anyFree minHeld heldURLs = (anyFree, minHeld, heldURLs)"
| "provider_loop now (ue # ues) anyFree minHeld heldURLs =
     (if readyAt (snd ue) > now
      then provider_loop now ues anyFree
             (if minHeld = zero_time \<or> readyAt (snd ue) < minHeld then readyAt (snd ue) else minHeld)
             (Suc heldURLs)
      else provider_loop now ues True minHeld heldURLs)"

definition ProviderReadyAt :: "registry \<Rightarrow> time \<Rightarrow> string \<Rightarrow> time \<times> bool" where
  "ProviderReadyAt r now provider =
    (case mget r provider of None \<Rightarrow> (zero_time, False)
     | Some ps \<Rightarrow>
        (case provider_loop now (urls ps) False zero_time 0 of (anyFree, minHeld, heldURLs) \<Rightarrow>
           if escalatedUntil ps > now then
             (if \<not> anyFree \<and> minHeld > escalatedUntil ps then minHeld else escalatedUntil ps, True)
           else if heldURLs = 0 \<or> anyFree then (zero_time, False)
           else (minHeld, True)))"

section \<open>The ladder\<close>

lemma to_duration_of_int [simp]: "to_duration (of_int n) = n"
  by (simp add: to_duration_def)

lemma to_duration_nonneg: "0 \<le> x \<Longrightarrow> 0 \<le> to_duration x"
  by (simp add: to_duration_def)

lemma to_duration_le: "x \<le> of_int n \<Longrightarrow> 0 \<le> x \<Longrightarrow> to_duration x \<le> n"
  by (simp add: to_duration_def floor_le_iff)

lemma delay_integral:
  assumes "0 \<le> n" "0 < Initial c" "Multiplier c = of_int m"
  shows "delay n c = of_int (min (Initial c * m ^ nat n) (Max c))"
proof -
  define x where "x = Initial c * m ^ nat n"
  have "delay n c = (if real_of_int x > of_int (Max c) then of_int (Max c) else of_int x)"
    using assms by (simp add: delay_def Let_def x_def)
  then show ?thesis by (simp only: of_int_less_iff x_def [symmetric]) (simp add: min_def)
qed

lemma exponentialFor_eq:
  assumes "1 \<le> n"
  shows "exponentialFor n = min (InitialHoldoff * 2 ^ nat (n - 1)) MaxHoldoff"
  unfolding exponentialFor_def Delay_def
  using assms by (subst delay_integral [where m = 2]) (simp_all add: InitialHoldoff_def second_def)

lemma exponentialFor_bounds:
  assumes "1 \<le> n" shows "InitialHoldoff \<le> exponentialFor n \<and> exponentialFor n \<le> MaxHoldoff"
proof -
  have "(1::int) \<le> 2 ^ nat (n - 1)" by simp
  then show ?thesis
    using assms by (simp add: exponentialFor_eq InitialHoldoff_def MaxHoldoff_def duration_units min_def)
qed

text \<open>
  The penalty ladder: the hold-off after the \<open>n\<close>-th strike is thirty seconds doubled \<open>n - 1\<close>
  times, capped at thirty minutes.
\<close>

theorem exponentialFor_ladder:
  assumes "1 \<le> n"
  shows "exponentialFor n = min (30 * second * 2 ^ nat (n - 1)) (30 * minute)"
  using exponentialFor_eq [OF assms] by (simp add: InitialHoldoff_def MaxHoldoff_def)

theorem exponentialFor_ladder_witness: "exponentialFor 3 = 120 * second"
  using exponentialFor_ladder [of 3] by (simp add: duration_units)

section \<open>One refusal\<close>

lemma holdoff_consts:
  "maxUpstreamHoldoff = 3600000000000" "MaxRetryAfter = 3600000000000"
  "InitialHoldoff = 30000000000" "MaxHoldoff = 1800000000000" "entryRetention = 3600000000000"
  by (simp_all add: maxUpstreamHoldoff_def MaxRetryAfter_def InitialHoldoff_def MaxHoldoff_def
      entryRetention_def duration_units)

lemma boundedWithJitter_bounds:
  assumes "0 \<le> rnd" "0 < d"
  shows "min d MaxRetryAfter \<le> boundedWithJitterLocked rnd d"
    and "boundedWithJitterLocked rnd d \<le> MaxRetryAfter"
proof -
  define d1 where "d1 = (if d > maxUpstreamHoldoff then maxUpstreamHoldoff else d)"
  have "0 < d1" using assms by (simp add: d1_def holdoff_consts)
  then have "0 \<le> to_duration (rnd * HoldoffJitterFactor * of_int d1)"
    using assms by (intro to_duration_nonneg) (simp add: HoldoffJitterFactor_def)
  then show "min d MaxRetryAfter \<le> boundedWithJitterLocked rnd d"
    and "boundedWithJitterLocked rnd d \<le> MaxRetryAfter"
    using assms by (auto simp: boundedWithJitterLocked_def Let_def d1_def holdoff_consts)
qed

lemma refuse_entry_held:
  assumes "readyAt e > now" "0 \<le> rnd"
  shows "strikes (refuse_entry e now rnd ra) = strikes e"
    and "readyAt e \<le> readyAt (refuse_entry e now rnd ra)"
    and "ra \<le> time_sub (readyAt e) now \<Longrightarrow> readyAt (refuse_entry e now rnd ra) = readyAt e"
    and "readyAt (refuse_entry e now rnd ra) \<le> max (readyAt e) (now + MaxRetryAfter)"
    and "now + min ra MaxRetryAfter \<le> readyAt (refuse_entry e now rnd ra)"
proof -
  have pos: "0 < ra" if "ra > time_sub (readyAt e) now"
    using that assms(1) by (auto simp: time_sub_def min_int64_def max_int64_def split: if_splits)
  note b = boundedWithJitter_bounds [OF assms(2), of ra]
  show "strikes (refuse_entry e now rnd ra) = strikes e"
    "readyAt e \<le> readyAt (refuse_entry e now rnd ra)"
    "ra \<le> time_sub (readyAt e) now \<Longrightarrow> readyAt (refuse_entry e now rnd ra) = readyAt e"
    using assms by (auto simp: refuse_entry_def Let_def)
  show "readyAt (refuse_entry e now rnd ra) \<le> max (readyAt e) (now + MaxRetryAfter)"
    using assms b pos by (auto simp: refuse_entry_def Let_def)
  show "now + min ra MaxRetryAfter \<le> readyAt (refuse_entry e now rnd ra)"
  proof (cases "ra > time_sub (readyAt e) now")
    case True
    with assms b(1) [OF pos [OF True]] show ?thesis by (auto simp: refuse_entry_def Let_def)
  next
    case False
    then have "min ra MaxRetryAfter \<le> readyAt e - now"
      using assms(1)
      by (auto simp: time_sub_def holdoff_consts min_int64_def max_int64_def min_def max_def split: if_splits)
    with False assms show ?thesis by (simp add: refuse_entry_def Let_def)
  qed
qed

lemma refuse_entry_free:
  assumes "\<not> readyAt e > now" "0 \<le> strikes e" "0 \<le> rnd"
  shows "strikes (refuse_entry e now rnd ra) = strikes e + 1"
    and "now + min (max ra (exponentialFor (strikes e + 1))) MaxRetryAfter
       \<le> readyAt (refuse_entry e now rnd ra)"
    and "readyAt (refuse_entry e now rnd ra) \<le> now + MaxRetryAfter"
proof -
  have "0 < exponentialFor (strikes e + 1)"
    using exponentialFor_bounds [of "strikes e + 1"] assms(2) by (simp add: holdoff_consts)
  then have "0 < max ra (exponentialFor (strikes e + 1))" by simp
  note b = boundedWithJitter_bounds [OF assms(3) this]
  show "strikes (refuse_entry e now rnd ra) = strikes e + 1"
    "now + min (max ra (exponentialFor (strikes e + 1))) MaxRetryAfter
       \<le> readyAt (refuse_entry e now rnd ra)"
    "readyAt (refuse_entry e now rnd ra) \<le> now + MaxRetryAfter"
    using assms b by (auto simp: refuse_entry_def Let_def max_def split: if_splits)
qed

lemma refuse_entry_ready:
  assumes "0 \<le> strikes e" "0 \<le> rnd"
  shows "now < readyAt (refuse_entry e now rnd ra)"
    and "now + min ra MaxRetryAfter \<le> readyAt (refuse_entry e now rnd ra)"
    and "readyAt (refuse_entry e now rnd ra) \<le> max (readyAt e) (now + MaxRetryAfter)"
    and "0 \<le> strikes (refuse_entry e now rnd ra)"
proof -
  have exp: "InitialHoldoff \<le> exponentialFor (strikes e + 1)"
    using exponentialFor_bounds [of "strikes e + 1"] assms(1) by simp
  show "now < readyAt (refuse_entry e now rnd ra)"
    "now + min ra MaxRetryAfter \<le> readyAt (refuse_entry e now rnd ra)"
    "readyAt (refuse_entry e now rnd ra) \<le> max (readyAt e) (now + MaxRetryAfter)"
    "0 \<le> strikes (refuse_entry e now rnd ra)"
    using refuse_entry_held [of now e rnd ra] refuse_entry_free [of now e rnd ra] exp assms
    by (cases "readyAt e > now"; force simp: holdoff_consts min_def max_def split: if_splits)+
qed

section \<open>The registry through its entries\<close>

definition entry_of :: "registry \<Rightarrow> string \<Rightarrow> string \<Rightarrow> entry option" where
  "entry_of r p u = (case mget r p of None \<Rightarrow> None | Some ps \<Rightarrow> mget (urls ps) u)"

definition escalation_of :: "registry \<Rightarrow> string \<Rightarrow> time" where
  "escalation_of r p = (case mget r p of None \<Rightarrow> zero_time | Some ps \<Rightarrow> escalatedUntil ps)"

definition reg_ok :: "registry \<Rightarrow> bool" where
  "reg_ok r \<longleftrightarrow> wf_map r \<and> (\<forall>p ps. mget r p = Some ps \<longrightarrow> wf_map (urls ps))
     \<and> (\<forall>p u e. entry_of r p u = Some e \<longrightarrow> 0 \<le> strikes e)"

lemma ReadyAt_eq:
  "ReadyAt r now p u =
    (let t = (case entry_of r p u of None \<Rightarrow> escalation_of r p
                | Some e \<Rightarrow> max (escalation_of r p) (readyAt e))
     in if mget r p \<noteq> None \<and> t > now then t else 0)"
  by (auto simp: ReadyAt_def entry_of_def escalation_of_def Let_def max_def split: option.splits)

lemma mget_gc:
  assumes "reg_ok r"
  shows "mget (gcLocked r now) p = (case mget r p of None \<Rightarrow> None
    | Some ps \<Rightarrow>
       let ps' = ps\<lparr>urls := filter (\<lambda>ue. \<not> entry_expired now (snd ue)) (urls ps)\<rparr>
       in if urls ps' = [] \<and> escalatedUntil ps' < now then None else Some ps')"
proof -
  let ?f = "\<lambda>ps. ps\<lparr>urls := filter (\<lambda>ue. \<not> entry_expired now (snd ue)) (urls ps)\<rparr>"
  from assms wf_map_map_snd [of ?f r] have "wf_map (map (\<lambda>kv. (fst kv, ?f (snd kv))) r)"
    by (simp add: reg_ok_def)
  from mget_filter [OF this, of "\<lambda>ps. \<not> (urls ps = [] \<and> escalatedUntil ps < now)" p] show ?thesis
    unfolding gcLocked_def mget_map_snd [of ?f]
    by (cases "mget r p") (simp_all add: Let_def)
qed

lemma gc_entry:
  assumes "reg_ok r"
  shows "entry_of (gcLocked r now) p u = (case entry_of r p u of None \<Rightarrow> None
    | Some e \<Rightarrow> if entry_expired now e then None else Some e)"
proof (cases "mget r p")
  case None
  then show ?thesis by (simp add: entry_of_def mget_gc [OF assms])
next
  case (Some ps)
  from assms Some have "wf_map (urls ps)" by (auto simp: reg_ok_def)
  from mget_filter [OF this, of "\<lambda>e. \<not> entry_expired now e" u] Some show ?thesis
    by (auto simp: entry_of_def mget_gc [OF assms] Let_def split: option.splits)
qed

lemma gc_escalation: "reg_ok r \<Longrightarrow> escalation_of (gcLocked r now) p = escalation_of r p
    \<or> escalation_of (gcLocked r now) p = 0"
  by (auto simp: escalation_of_def mget_gc Let_def split: option.split)

lemma gc_ok:
  assumes "reg_ok r" shows "reg_ok (gcLocked r now)"
proof -
  have "wf_map (gcLocked r now)"
    using assms unfolding gcLocked_def by (intro wf_map_filter) (simp add: reg_ok_def wf_map_def comp_def)
  moreover have "wf_map (urls ps')" if "mget (gcLocked r now) p = Some ps'" for p ps'
    using that assms by (auto simp: mget_gc [OF assms] reg_ok_def Let_def split: option.splits if_splits)
  moreover have "0 \<le> strikes e" if "entry_of (gcLocked r now) p u = Some e" for p u e
    using that assms by (auto simp: gc_entry [OF assms] reg_ok_def split: option.splits if_splits)
  ultimately show ?thesis by (auto simp: reg_ok_def)
qed

lemma held_loop_spec:
  "held_loop now us h l = (h', l') \<Longrightarrow>
     h' = h + length (filter (\<lambda>ue. readyAt (snd ue) > now) us) \<and> l \<le> l'
     \<and> (\<forall>ue\<in>set us. readyAt (snd ue) > now \<longrightarrow> readyAt (snd ue) \<le> l')
     \<and> (l' = l \<or> (\<exists>ue\<in>set us. readyAt (snd ue) > now \<and> l' = readyAt (snd ue)))"
  by (induction us arbitrary: h l) (fastforce split: if_splits)+

text \<open>The entry of the URL before the refusal is applied, after the garbage collection.\<close>

definition prior_entry :: "registry \<Rightarrow> time \<Rightarrow> string \<Rightarrow> string \<Rightarrow> entry" where
  "prior_entry r now p u =
     (case entry_of (gcLocked r now) p u of Some e \<Rightarrow> e | None \<Rightarrow> new_entry)"

lemma record_entry:
  "entry_of (fst (RecordRateLimit r now rnd p u ra)) p u
     = Some (refuse_entry (prior_entry r now p u) now rnd ra)"
  by (auto simp: RecordRateLimit_def entry_of_def prior_entry_def new_provider_def Let_def
      split: option.split)

lemma record_entry_other:
  "p' \<noteq> p \<or> u' \<noteq> u \<Longrightarrow>
     entry_of (fst (RecordRateLimit r now rnd p u ra)) p' u' = entry_of (gcLocked r now) p' u'"
  by (auto simp: RecordRateLimit_def entry_of_def new_provider_def Let_def split: option.split)

lemma record_duration:
  "snd (RecordRateLimit r now rnd p u ra)
     = time_sub (readyAt (refuse_entry (prior_entry r now p u) now rnd ra)) now"
  by (auto simp: RecordRateLimit_def entry_of_def prior_entry_def new_provider_def Let_def
      split: option.split)

lemma record_present: "mget (fst (RecordRateLimit r now rnd p u ra)) p \<noteq> None"
  by (simp add: RecordRateLimit_def Let_def)

lemma prior_entry_strikes: "reg_ok r \<Longrightarrow> 0 \<le> strikes (prior_entry r now p u)"
  using gc_ok [of r now] by (auto simp: prior_entry_def reg_ok_def new_entry_def split: option.split)

lemma record_ok:
  assumes "reg_ok r" "0 \<le> rnd"
  shows "reg_ok (fst (RecordRateLimit r now rnd p u ra))"
proof -
  let ?r = "fst (RecordRateLimit r now rnd p u ra)"
  note gc = gc_ok [OF assms(1), of now]
  have "wf_map ?r" using gc by (simp add: RecordRateLimit_def Let_def reg_ok_def)
  moreover have "wf_map (urls ps)" if "mget ?r q = Some ps" for q ps
    using that gc
    by (auto simp: RecordRateLimit_def Let_def reg_ok_def new_provider_def split: if_splits option.splits)
  moreover have "0 \<le> strikes e" if "entry_of ?r q v = Some e" for q v e
  proof (cases "q = p \<and> v = u")
    case True
    with that record_entry [of r now rnd p u ra]
      refuse_entry_ready(4) [OF prior_entry_strikes [OF assms(1)] assms(2)] show ?thesis by auto
  next
    case False
    with that record_entry_other [of q p v u] gc show ?thesis by (auto simp: reg_ok_def)
  qed
  ultimately show ?thesis by (auto simp: reg_ok_def)
qed

text \<open>
  A refusal holds the URL off, for at least what the upstream asked (up to the one-hour bound)
  and for exactly the time the call returns at least; before that the URL is reported as held.
\<close>

theorem RecordRateLimit_holds_off:
  assumes "reg_ok r" and "0 \<le> rnd" and "0 \<le> now"
  shows "HeldOff (fst (RecordRateLimit r now rnd p u ra)) now p u
    \<and> now + min ra MaxRetryAfter \<le> ReadyAt (fst (RecordRateLimit r now rnd p u ra)) now p u
    \<and> 0 < snd (RecordRateLimit r now rnd p u ra)
    \<and> now + snd (RecordRateLimit r now rnd p u ra)
        \<le> ReadyAt (fst (RecordRateLimit r now rnd p u ra)) now p u"
proof -
  let ?r = "fst (RecordRateLimit r now rnd p u ra)"
  let ?e = "refuse_entry (prior_entry r now p u) now rnd ra"
  note strikes = prior_entry_strikes [OF assms(1), of now p u]
  have ready: "now < readyAt ?e" "now + min ra MaxRetryAfter \<le> readyAt ?e"
    using refuse_entry_ready(1,2) [OF strikes assms(2)] by simp_all
  have "ReadyAt ?r now p u = max (escalation_of ?r p) (readyAt ?e)"
    using ready(1) record_present [of r now rnd p u ra]
    by (simp add: ReadyAt_eq record_entry Let_def max_def)
  moreover have "time_sub (readyAt ?e) now \<le> readyAt ?e - now" "0 < time_sub (readyAt ?e) now"
    using ready(1) by (simp_all add: time_sub_def min_int64_def max_int64_def)
  ultimately show ?thesis
    using ready assms(3) by (auto simp: HeldOff_def record_duration max_def)
qed

theorem RecordRateLimit_holds_off_witness:
  "HeldOff (fst (RecordRateLimit [] 100 (1/2) ''acme'' ''u1'' (5 * minute))) 100 ''acme'' ''u1''
   \<and> 100 + min (5 * minute) MaxRetryAfter
       \<le> ReadyAt (fst (RecordRateLimit [] 100 (1/2) ''acme'' ''u1'' (5 * minute))) 100 ''acme'' ''u1''"
  using RecordRateLimit_holds_off [of "[]" "1/2" 100 "''acme''" "''u1''" "5 * minute"]
  by (simp add: reg_ok_def entry_of_def)

text \<open>A registry with one URL held for thirty seconds.\<close>

definition one_held :: registry where
  "one_held = [(''acme'',
     \<lparr>urls = [(''u1'', \<lparr>strikes = 1, readyAt = 30 * second, lastSeen = 0\<rparr>)], escalatedUntil = 0\<rparr>)]"

lemma one_held_entry:
  "entry_of one_held ''acme'' ''u1'' = Some \<lparr>strikes = 1, readyAt = 30 * second, lastSeen = 0\<rparr>"
  by (simp add: one_held_def entry_of_def)

lemma one_held_ok: "reg_ok one_held"
  by (auto simp: one_held_def reg_ok_def entry_of_def split: option.splits if_splits)

text \<open>
  One strike per hold-off: a refusal that lands while the URL is still held adds no strike,
  never shortens the hold-off, and leaves its end where it was unless the upstream asked for longer
  than what is left.
\<close>

theorem refusal_while_held:
  assumes "reg_ok r" and "0 \<le> rnd" and "entry_of r p u = Some e" and "now < readyAt e"
  shows "\<exists>e'. entry_of (fst (RecordRateLimit r now rnd p u ra)) p u = Some e'
    \<and> strikes e' = strikes e \<and> readyAt e \<le> readyAt e'
    \<and> (ra \<le> time_sub (readyAt e) now \<longrightarrow> readyAt e' = readyAt e)"
proof -
  have "prior_entry r now p u = e"
    using assms by (simp add: prior_entry_def gc_entry entry_expired_def)
  then show ?thesis
    using refuse_entry_held(1-3) [OF assms(4,2)] by (simp add: record_entry)
qed

theorem refusal_while_held_witness:
  "\<exists>e'. entry_of (fst (RecordRateLimit one_held second 0 ''acme'' ''u1'' (2 * second))) ''acme'' ''u1'' = Some e'
    \<and> strikes e' = 1 \<and> readyAt e' = 30 * second"
  using refusal_while_held [OF one_held_ok _ one_held_entry, of 0 second "2 * second"]
  by (auto simp: duration_units time_sub_def min_int64_def max_int64_def)

section \<open>Escalation\<close>

lemma record_state:
  assumes "mget (fst (RecordRateLimit r now rnd p u ra)) p = Some ps"
  obtains held latest where "held_loop now (urls ps) 0 zero_time = (held, latest)"
    and "held \<ge> EscalationDistinctURLs \<Longrightarrow> escalatedUntil ps = latest"
    and "held < EscalationDistinctURLs \<Longrightarrow> escalatedUntil ps = escalation_of (gcLocked r now) p"
proof
  show "held_loop now (urls ps) 0 zero_time
      = (fst (held_loop now (urls ps) 0 zero_time), snd (held_loop now (urls ps) 0 zero_time))"
    by simp
qed (use assms in \<open>auto simp: RecordRateLimit_def Let_def escalation_of_def new_provider_def
      split: if_splits option.splits\<close>)

lemma two_in_filter:
  assumes "mget m k1 = Some a" "mget m k2 = Some b" "k1 \<noteq> k2" "Q a" "Q b"
  shows "2 \<le> length (filter (\<lambda>kv. Q (snd kv)) m)"
proof -
  from assms have "{(k1, a), (k2, b)} \<subseteq> set (filter (\<lambda>kv. Q (snd kv)) m)"
    by (auto dest: map_of_SomeD)
  from card_mono [OF _ this] assms(3) have "2 \<le> card (set (filter (\<lambda>kv. Q (snd kv)) m))" by simp
  also have "\<dots> \<le> length (filter (\<lambda>kv. Q (snd kv)) m)" by (rule card_length)
  finally show ?thesis .
qed

text \<open>
  Provider-wide escalation: a refusal that leaves a second URL of the provider held at the same
  time puts every URL of the provider on hold, also one that never was refused, until the
  longest-held of them is free.
\<close>

theorem two_held_urls_escalate:
  assumes "reg_ok r" and "0 \<le> rnd" and "0 \<le> now"
    and "entry_of r p v = Some e" and "now < readyAt e" and "v \<noteq> u"
  shows "HeldOff (fst (RecordRateLimit r now rnd p u ra)) now p w
    \<and> readyAt e \<le> ReadyAt (fst (RecordRateLimit r now rnd p u ra)) now p w
    \<and> now + min ra MaxRetryAfter \<le> ReadyAt (fst (RecordRateLimit r now rnd p u ra)) now p w"
proof -
  let ?r = "fst (RecordRateLimit r now rnd p u ra)"
  let ?e = "refuse_entry (prior_entry r now p u) now rnd ra"
  obtain ps where ps: "mget ?r p = Some ps" using record_present [of r now rnd p u ra] by auto
  have u: "mget (urls ps) u = Some ?e"
    using record_entry [of r now rnd p u ra] ps by (simp add: entry_of_def)
  have v: "mget (urls ps) v = Some e"
    using record_entry_other [of p p v u r now rnd ra] assms ps
    by (simp add: entry_of_def [of ?r] gc_entry entry_expired_def)
  have ready: "now < readyAt ?e" "now + min ra MaxRetryAfter \<le> readyAt ?e"
    using refuse_entry_ready(1,2) [OF prior_entry_strikes [OF assms(1), of now p u] assms(2)]
    by simp_all
  obtain held latest where loop: "held_loop now (urls ps) 0 zero_time = (held, latest)"
    and esc: "held \<ge> EscalationDistinctURLs \<Longrightarrow> escalatedUntil ps = latest"
    using record_state [OF ps] by metis
  note spec = held_loop_spec [OF loop]
  have "2 \<le> held"
    using two_in_filter [OF v u assms(6), of "\<lambda>e. now < readyAt e"] ready(1) assms(5) spec by simp
  then have "escalation_of ?r p = latest" using esc ps by (simp add: escalation_of_def EscalationDistinctURLs_def)
  moreover have "readyAt e \<le> latest" "readyAt ?e \<le> latest"
    using spec map_of_SomeD [OF u] map_of_SomeD [OF v] ready(1) assms(5) by force+
  ultimately have "escalation_of ?r p \<le> ReadyAt ?r now p w" "readyAt e \<le> escalation_of ?r p"
      "readyAt ?e \<le> escalation_of ?r p"
    using ps assms(5) by (auto simp: ReadyAt_eq Let_def split: option.split)
  then show ?thesis using ready assms(3,5) by (auto simp: HeldOff_def)
qed

theorem two_held_urls_escalate_witness:
  "HeldOff (fst (RecordRateLimit one_held second 0 ''acme'' ''u2'' 0)) second ''acme'' ''u3''"
  using two_held_urls_escalate [OF one_held_ok _ _ one_held_entry, of 0 second "''u2''" 0 "''u3''"]
  by (simp add: duration_units)

section \<open>An answer clears\<close>

lemma clear_entry:
  "entry_of (clearLocked r p u) q v = (if q = p \<and> v = u then None else entry_of r q v)"
proof (cases "mget r p")
  case None
  then show ?thesis by (auto simp: clearLocked_def entry_of_def split: option.split)
next
  case (Some ps)
  have "mget (urls ps) v = None" if "mdel u (urls ps) = []" "v \<noteq> u" for v
  proof -
    have "mget (mdel u (urls ps)) v = mget (urls ps) v" using that(2) by (simp add: delete_conv')
    with that(1) show ?thesis by simp
  qed
  with Some show ?thesis
    by (auto simp: clearLocked_def entry_of_def Let_def split: option.splits)
qed

lemma clear_escalation:
  "escalation_of (clearLocked r p u) q = (if q = p then 0 else escalation_of r q)"
  by (auto simp: clearLocked_def escalation_of_def Let_def split: option.split)

lemma clear_ok:
  assumes "reg_ok r" shows "reg_ok (clearLocked r p u)"
proof -
  have "wf_map (clearLocked r p u)"
    using assms by (auto simp: clearLocked_def reg_ok_def Let_def split: option.split)
  moreover have "wf_map (urls ps)" if "mget (clearLocked r p u) q = Some ps" for q ps
    using that assms by (auto simp: clearLocked_def reg_ok_def Let_def split: option.splits if_splits)
  ultimately show ?thesis
    using assms by (auto simp: reg_ok_def clear_entry)
qed

lemma HeldOff_iff:
  assumes "0 \<le> now"
  shows "HeldOff r now p u \<longleftrightarrow> now < escalation_of r p
    \<or> (\<exists>e. entry_of r p u = Some e \<and> now < readyAt e)"
  using assms
  by (auto simp: HeldOff_def ReadyAt_def entry_of_def escalation_of_def Let_def split: option.splits if_splits)

text \<open>
  An answer clears the penalty: after \<open>RecordAnswer\<close> the URL is free under its provider and under
  its own name, no provider-wide hold-off covers it, and the entries of every other provider and URL
  are untouched.
\<close>

theorem RecordAnswer_clears:
  assumes "0 \<le> now"
  shows "\<not> HeldOff (RecordAnswer r p u) now p u \<and> \<not> HeldOff (RecordAnswer r p u) now u u
    \<and> escalation_of (RecordAnswer r p u) p = zero_time
    \<and> (\<forall>q v. (q, v) \<noteq> (p, u) \<and> (q, v) \<noteq> (u, u) \<longrightarrow>
         entry_of (RecordAnswer r p u) q v = entry_of r q v)
    \<and> (\<forall>q. q \<noteq> p \<and> q \<noteq> u \<longrightarrow> escalation_of (RecordAnswer r p u) q = escalation_of r q)"
  using assms by (auto simp: RecordAnswer_def HeldOff_iff clear_entry clear_escalation)

theorem RecordAnswer_clears_witness:
  "HeldOff one_held second ''acme'' ''u1''
   \<and> \<not> HeldOff (RecordAnswer one_held ''acme'' ''u1'') second ''acme'' ''u1''"
  using RecordAnswer_clears [of second one_held "''acme''" "''u1''"] one_held_entry
  by (simp add: HeldOff_iff duration_units)

section \<open>Every hold-off ends\<close>

text \<open>The registry over time: refusals, answers, and the clock going forward.\<close>

inductive holdoff_step :: "registry \<times> time \<Rightarrow> registry \<times> time \<Rightarrow> bool" where
  refused: "0 \<le> rnd \<Longrightarrow> holdoff_step (r, now) (fst (RecordRateLimit r now rnd p u ra), now)"
| answered: "holdoff_step (r, now) (RecordAnswer r p u, now)"
| tick: "now \<le> now' \<Longrightarrow> holdoff_step (r, now) (r, now')"

inductive holdoff_reachable :: "registry \<times> time \<Rightarrow> bool" where
  start: "0 \<le> now \<Longrightarrow> holdoff_reachable ([], now)"
| more: "holdoff_reachable s \<Longrightarrow> holdoff_step s s' \<Longrightarrow> holdoff_reachable s'"

definition reg_bounded :: "registry \<Rightarrow> time \<Rightarrow> bool" where
  "reg_bounded r now \<longleftrightarrow> reg_ok r \<and> 0 \<le> now
     \<and> (\<forall>p u e. entry_of r p u = Some e \<longrightarrow> readyAt e \<le> now + MaxRetryAfter)
     \<and> (\<forall>p. escalation_of r p \<le> now + MaxRetryAfter)"

lemma reg_bounded_dest:
  assumes "reg_bounded r now"
  shows "reg_ok r" "0 \<le> now" "entry_of r p u = Some e \<Longrightarrow> readyAt e \<le> now + MaxRetryAfter"
    "escalation_of r p \<le> now + MaxRetryAfter"
  using assms by (auto simp: reg_bounded_def)

lemma reg_bounded_later: "reg_bounded r now \<Longrightarrow> now \<le> now' \<Longrightarrow> reg_bounded r now'"
  unfolding reg_bounded_def by (meson add_right_mono order_trans)

lemma gc_bounded:
  assumes "reg_bounded r now" shows "reg_bounded (gcLocked r now) now"
proof -
  note b = reg_bounded_dest [OF assms]
  have "escalation_of (gcLocked r now) p \<le> now + MaxRetryAfter" for p
    using gc_escalation [OF b(1), of now p] b(2) b(4) [of p] by (auto simp: holdoff_consts)
  moreover have "readyAt e \<le> now + MaxRetryAfter" if "entry_of (gcLocked r now) p u = Some e" for p u e
    using that b(3) by (auto simp: gc_entry [OF b(1)] split: option.splits if_splits)
  ultimately show ?thesis using gc_ok [OF b(1)] b(2) by (auto simp: reg_bounded_def)
qed

lemma record_bounded_entry:
  assumes "reg_bounded r now" "0 \<le> rnd"
    and e: "entry_of (fst (RecordRateLimit r now rnd p u ra)) q v = Some e"
  shows "readyAt e \<le> now + MaxRetryAfter"
proof (cases "q = p \<and> v = u")
  case True
  have prior: "readyAt (prior_entry r now p u) \<le> now + MaxRetryAfter"
    using gc_bounded [OF assms(1)]
    by (auto simp: prior_entry_def reg_bounded_def new_entry_def holdoff_consts split: option.split)
  have "0 \<le> strikes (prior_entry r now p u)"
    using assms(1) by (intro prior_entry_strikes) (simp add: reg_bounded_def)
  from refuse_entry_ready(3) [OF this assms(2), of now ra] prior True e
    record_entry [of r now rnd p u ra] show ?thesis by (auto simp: max_def)
next
  case False
  with e record_entry_other [of q p v u] gc_bounded [OF assms(1)] show ?thesis
    by (auto simp: reg_bounded_def)
qed

lemma record_bounded:
  assumes "reg_bounded r now" "0 \<le> rnd"
  shows "reg_bounded (fst (RecordRateLimit r now rnd p u ra)) now"
proof -
  let ?r = "fst (RecordRateLimit r now rnd p u ra)"
  have ok: "reg_ok ?r" using assms by (simp add: reg_bounded_def record_ok)
  have "escalation_of ?r q \<le> now + MaxRetryAfter" for q
  proof (cases "q = p")
    case False
    then have "escalation_of ?r q = escalation_of (gcLocked r now) q"
      by (simp add: RecordRateLimit_def escalation_of_def Let_def)
    then show ?thesis using gc_bounded [OF assms(1)] by (simp add: reg_bounded_def)
  next
    case True
    obtain ps where ps: "mget ?r p = Some ps" using record_present [of r now rnd p u ra] by auto
    obtain held latest where loop: "held_loop now (urls ps) 0 zero_time = (held, latest)"
      and esc: "escalatedUntil ps = latest \<or> escalatedUntil ps = escalation_of (gcLocked r now) p"
      using record_state [OF ps] by (metis not_le)
    have "readyAt (snd ue) \<le> now + MaxRetryAfter" if "ue \<in> set (urls ps)" for ue
    proof (rule record_bounded_entry [OF assms])
      from ok ps have "wf_map (urls ps)" by (auto simp: reg_ok_def)
      with ps that show "entry_of ?r p (fst ue) = Some (snd ue)"
        by (simp add: entry_of_def wf_map_def)
    qed
    then have "latest \<le> now + MaxRetryAfter"
      using held_loop_spec [OF loop] assms(1) by (auto simp: reg_bounded_def holdoff_consts)
    then show ?thesis
      using esc ps True gc_bounded [OF assms(1)] by (auto simp: escalation_of_def [of ?r] reg_bounded_def)
  qed
  with ok record_bounded_entry [OF assms] assms(1) show ?thesis by (auto simp: reg_bounded_def)
qed

lemma answer_bounded: "reg_bounded r now \<Longrightarrow> reg_bounded (RecordAnswer r p u) now"
  by (auto simp: RecordAnswer_def reg_bounded_def clear_ok clear_entry clear_escalation holdoff_consts)

lemma reachable_bounded: "holdoff_reachable s \<Longrightarrow> reg_bounded (fst s) (snd s)"
proof (induction rule: holdoff_reachable.induct)
  case (start now)
  then show ?case by (simp add: reg_bounded_def reg_ok_def entry_of_def escalation_of_def holdoff_consts)
next
  case (more s s')
  from more(2,3) show ?case
    by (cases rule: holdoff_step.cases) (auto intro: record_bounded answer_bounded reg_bounded_later)
qed

text \<open>
  C40. No upstream is locked out for good: in every state the registry can reach, whatever the
  upstreams asked for, no URL is held for more than one hour from now; an hour without a further
  refusal frees every URL.
\<close>

theorem holdoff_at_most_an_hour:
  assumes "holdoff_reachable (r, now)"
  shows "ReadyAt r now p u \<le> now + hour \<and> (now + hour \<le> later \<longrightarrow> \<not> HeldOff r later p u)"
proof -
  from reachable_bounded [OF assms] have b: "reg_bounded r now" by simp
  then have "ReadyAt r now p u \<le> now + MaxRetryAfter"
    by (auto simp: ReadyAt_eq reg_bounded_def Let_def holdoff_consts split: option.split)
  moreover have "\<not> HeldOff r later p u" if "now + hour \<le> later"
  proof -
    note b' = reg_bounded_dest [OF b]
    from b'(2) that have later: "0 \<le> later" "now + MaxRetryAfter \<le> later"
      by (simp_all add: holdoff_consts duration_units)
    then show ?thesis using b'(3) [of p u] b'(4) [of p] by (auto simp: HeldOff_iff not_less)
  qed
  ultimately show ?thesis by (simp add: holdoff_consts duration_units)
qed

theorem holdoff_at_most_an_hour_witness:
  "ReadyAt (fst (RecordRateLimit [] 100 0 ''acme'' ''u1'' (24 * hour))) 100 ''acme'' ''u1'' \<le> 100 + hour"
  using holdoff_at_most_an_hour [OF holdoff_reachable.more [OF start refused], of 100 0]
  by simp

section \<open>Provider-level readiness\<close>

lemma provider_loop_spec:
  "provider_loop now us f m h = (f', m', h') \<Longrightarrow> 0 \<le> now \<Longrightarrow> 0 \<le> m \<Longrightarrow>
     (f' \<longleftrightarrow> f \<or> (\<exists>ue\<in>set us. readyAt (snd ue) \<le> now))
     \<and> (h' = 0 \<longleftrightarrow> h = 0 \<and> (\<forall>ue\<in>set us. readyAt (snd ue) \<le> now))
     \<and> (m' = m \<or> (\<exists>ue\<in>set us. now < readyAt (snd ue) \<and> m' = readyAt (snd ue)))
     \<and> (m \<noteq> 0 \<longrightarrow> m' \<noteq> 0 \<and> m' \<le> m)
     \<and> (\<forall>ue\<in>set us. now < readyAt (snd ue) \<longrightarrow> m' \<noteq> 0 \<and> m' \<le> readyAt (snd ue))"
proof (induction us arbitrary: f m h)
  case Nil then show ?case by auto
next
  case (Cons ue us)
  show ?case
  proof (cases "readyAt (snd ue) > now")
    case True
    let ?m = "if m = zero_time \<or> readyAt (snd ue) < m then readyAt (snd ue) else m"
    from True Cons.prems have "provider_loop now us f ?m (Suc h) = (f', m', h')" "0 \<le> ?m" by simp_all
    from Cons.IH [OF this(1) Cons.prems(2) this(2)] True Cons.prems show ?thesis by (auto split: if_splits)
  next
    case False
    with Cons.prems have "provider_loop now us True m h = (f', m', h')" by simp
    from Cons.IH [OF this Cons.prems(2,3)] False show ?thesis by auto
  qed
qed

text \<open>
  \<open>ProviderReadyAt\<close> agrees with the per-URL view: a provider is reported as held off exactly when
  it is escalated or it has recorded URLs and each of them is held, that is when every recorded URL is
  held off; and a held provider's ready time lies in the future.
\<close>

theorem ProviderReadyAt_agrees:
  assumes "reg_ok r" and "0 \<le> now" and "mget r p = Some ps" and "urls ps \<noteq> []"
  shows "(snd (ProviderReadyAt r now p) \<longleftrightarrow> (\<forall>u. mget (urls ps) u \<noteq> None \<longrightarrow> HeldOff r now p u))
    \<and> (snd (ProviderReadyAt r now p) \<longrightarrow> now < fst (ProviderReadyAt r now p))"
proof -
  obtain f m h where loop: "provider_loop now (urls ps) False zero_time 0 = (f, m, h)"
    by (metis prod_cases3)
  note spec = provider_loop_spec [OF loop assms(2)]
  from assms have wf: "wf_map (urls ps)" by (auto simp: reg_ok_def)
  have held: "HeldOff r now p u \<longleftrightarrow> now < escalatedUntil ps \<or> now < readyAt e"
    if "mget (urls ps) u = Some e" for u e
    using that assms(2,3) by (simp add: HeldOff_iff entry_of_def escalation_of_def)
  have every: "(\<forall>u. mget (urls ps) u \<noteq> None \<longrightarrow> HeldOff r now p u)
      \<longleftrightarrow> now < escalatedUntil ps \<or> (\<forall>ue\<in>set (urls ps). now < readyAt (snd ue))"
    (is "?l \<longleftrightarrow> ?r")
  proof
    assume ?l
    have "now < escalatedUntil ps \<or> now < readyAt (snd ue)" if "ue \<in> set (urls ps)" for ue
    proof -
      have "mget (urls ps) (fst ue) = Some (snd ue)" using wf that by (simp add: wf_map_def)
      with \<open>?l\<close> held show ?thesis by blast
    qed
    then show ?r by blast
  next
    assume ?r
    then show ?l using held by (force dest: map_of_SomeD)
  qed
  have fh: "f \<longleftrightarrow> \<not> (\<forall>ue\<in>set (urls ps). now < readyAt (snd ue))"
      "h = 0 \<Longrightarrow> f" "h \<noteq> 0 \<Longrightarrow> now < m"
    using spec list.set_sel(1) [OF assms(4)] by (cases "hd (urls ps)"; auto simp: not_less)+
  have eq: "ProviderReadyAt r now p = (if escalatedUntil ps > now then
        (if \<not> f \<and> m > escalatedUntil ps then m else escalatedUntil ps, True)
      else if h = 0 \<or> f then (zero_time, False) else (m, True))"
    by (simp add: ProviderReadyAt_def assms(3) loop del: zero_time_def)
  have "(\<forall>ue\<in>set (urls ps). now < readyAt (snd ue)) \<longleftrightarrow> \<not> f" using fh(1) by blast
  then show ?thesis unfolding every eq using fh(2,3) by auto
qed

theorem ProviderReadyAt_agrees_witness: "ProviderReadyAt one_held second ''acme'' = (30 * second, True)"
  using ProviderReadyAt_agrees [OF one_held_ok, of second "''acme''"]
  by (simp add: one_held_def ProviderReadyAt_def duration_units)

end
