(* ===== verification/GoRegexp.thy ===== *)
theory GoRegexp
  imports Prelude
begin

text \<open>
  The part of Go's \<open>regexp\<close> package the error classifier uses: character classes,
  sequence, alternation, repetition, the empty-width assertions \<open>\b\<close>, \<open>^\<close> and \<open>$\<close>, and the
  unanchored \<open>MatchString\<close>.

  Text is a string of bytes. As in \<open>to_lower\<close>, \<open>(?i)\<close> folds the ASCII letters; the handful of
  non-ASCII letters that Unicode folds to ASCII ones (the Kelvin sign, the long s) is not
  modelled. \<open>re_match\<close> is the meaning of an expression, \<open>ends\<close> the executable matcher, and the two
  are shown to agree.
\<close>

section \<open>Regular expressions\<close>

datatype regex =
    Eps
  | Cls "char \<Rightarrow> bool"
  | Seq regex regex
  | Alt regex regex
  | Star regex
  | WordB
  | BeginText
  | EndText

definition in_range :: "int \<Rightarrow> int \<Rightarrow> char \<Rightarrow> bool" where
  "in_range lo hi c \<longleftrightarrow> lo \<le> of_char c \<and> of_char c \<le> hi"

definition word_char :: "char \<Rightarrow> bool" where
  "word_char c \<longleftrightarrow> in_range 48 57 c \<or> in_range 65 90 c \<or> in_range 97 122 c \<or> c = CHR ''_''"

definition is_word_at :: "string \<Rightarrow> nat \<Rightarrow> bool" where
  "is_word_at s i \<longleftrightarrow> i < length s \<and> word_char (s ! i)"

text \<open>\<open>\b\<close>: a word character on exactly one side.\<close>

definition word_boundary :: "string \<Rightarrow> nat \<Rightarrow> bool" where
  "word_boundary s i \<longleftrightarrow> (0 < i \<and> is_word_at s (i - 1)) \<noteq> is_word_at s i"

inductive re_match :: "string \<Rightarrow> regex \<Rightarrow> nat \<Rightarrow> nat \<Rightarrow> bool" for s where
  eps: "re_match s Eps i i"
| cls: "i < length s \<Longrightarrow> P (s ! i) \<Longrightarrow> re_match s (Cls P) i (Suc i)"
| seq: "re_match s a i j \<Longrightarrow> re_match s b j k \<Longrightarrow> re_match s (Seq a b) i k"
| alt1: "re_match s a i j \<Longrightarrow> re_match s (Alt a b) i j"
| alt2: "re_match s b i j \<Longrightarrow> re_match s (Alt a b) i j"
| star0: "re_match s (Star a) i i"
| star1: "re_match s a i j \<Longrightarrow> re_match s (Star a) j k \<Longrightarrow> re_match s (Star a) i k"
| wordb: "word_boundary s i \<Longrightarrow> re_match s WordB i i"
| bot: "re_match s BeginText 0 0"
| eot: "i = length s \<Longrightarrow> re_match s EndText i i"

text \<open>The matcher: every end of a match that starts at a position. A repetition follows only
  steps that advance, so as many rounds as there are characters left are enough.\<close>

fun star_ends :: "(nat \<Rightarrow> nat list) \<Rightarrow> nat \<Rightarrow> nat \<Rightarrow> nat list" where
  "star_ends f 0 i = [i]"
| "star_ends f (Suc n) i = i # concat (map (star_ends f n) (filter (\<lambda>j. i < j) (f i)))"

fun ends :: "string \<Rightarrow> regex \<Rightarrow> nat \<Rightarrow> nat list" where
  "ends s Eps i = [i]"
| "ends s (Cls P) i = (if i < length s \<and> P (s ! i) then [Suc i] else [])"
| "ends s (Seq a b) i = concat (map (ends s b) (ends s a i))"
| "ends s (Alt a b) i = ends s a i @ ends s b i"
| "ends s (Star a) i = star_ends (ends s a) (length s - i) i"
| "ends s WordB i = (if word_boundary s i then [i] else [])"
| "ends s BeginText i = (if i = 0 then [i] else [])"
| "ends s EndText i = (if i = length s then [i] else [])"

definition MatchString :: "regex \<Rightarrow> string \<Rightarrow> bool" where
  "MatchString r s \<longleftrightarrow> list_ex (\<lambda>i. ends s r i \<noteq> []) [0..<Suc (length s)]"

lemma ends_bounds: "j \<in> set (ends s r i) \<Longrightarrow> i \<le> length s \<Longrightarrow> i \<le> j \<and> j \<le> length s"
proof (induction r arbitrary: i j)
  case (Seq a b)
  then show ?case by fastforce
next
  case (Star a)
  have "j \<in> set (star_ends (ends s a) n i) \<Longrightarrow> i \<le> length s \<Longrightarrow> i \<le> j \<and> j \<le> length s" for n i
  proof (induction n arbitrary: i)
    case (Suc n)
    with Star.IH [of _ i] show ?case by fastforce
  qed simp
  with Star.prems show ?case by simp
qed (auto split: if_splits)

lemma star_ends_sound: "j \<in> set (star_ends f n i) \<Longrightarrow> (\<And>a b. b \<in> set (f a) \<Longrightarrow> re_match s r a b) \<Longrightarrow> re_match s (Star r) i j"
  by (induction n arbitrary: i) (auto intro: re_match.star0 re_match.star1)

lemma star_ends_complete:
  assumes "re_match s (Star r) i j" and "\<And>a b. re_match s r a b \<Longrightarrow> a \<le> length s \<Longrightarrow> b \<in> set (ends s r a)"
    and "i \<le> length s" and "length s - i \<le> n"
  shows "j \<in> set (star_ends (ends s r) n i)"
  using assms(1,3,4)
proof (induction "Star r" i j arbitrary: n rule: re_match.induct)
  case (star0 i)
  then show ?case by (cases n) auto
next
  case (star1 i j k)
  from assms(2) star1.hyps(1) star1.prems have step: "j \<in> set (ends s r i)" by simp
  from ends_bounds [OF step] star1.prems have b: "i \<le> j" "j \<le> length s" by auto
  show ?case
  proof (cases "i = j")
    case True
    with star1 show ?thesis by simp
  next
    case False
    with b star1.prems obtain m where n: "n = Suc m" by (cases n) auto
    from False b star1.prems n have "length s - j \<le> m" by simp
    from star1.hyps(4) [OF b(2) this] step False b n show ?thesis by auto
  qed
qed

lemma ends_iff: "i \<le> length s \<Longrightarrow> j \<in> set (ends s r i) \<longleftrightarrow> re_match s r i j"
proof (induction r arbitrary: i j)
  case (Seq a b)
  show ?case
  proof
    assume "j \<in> set (ends s (Seq a b) i)"
    then obtain k where k: "k \<in> set (ends s a i)" "j \<in> set (ends s b k)" by auto
    with ends_bounds Seq show "re_match s (Seq a b) i j" by (metis re_match.seq)
  next
    assume "re_match s (Seq a b) i j"
    then obtain k where k: "re_match s a i k" "re_match s b k j" by (auto elim: re_match.cases)
    with Seq have ka: "k \<in> set (ends s a i)" by blast
    with k Seq ends_bounds have "j \<in> set (ends s b k)" by blast
    with ka show "j \<in> set (ends s (Seq a b) i)" by auto
  qed
next
  case (Alt a b)
  then show ?case by (auto intro: re_match.alt1 re_match.alt2 elim: re_match.cases)
next
  case (Star a)
  have "re_match s (Star a) i j" if "j \<in> set (star_ends (ends s a) n i)" "i \<le> length s" for n i
    using that
  proof (induction n arbitrary: i)
    case (Suc n)
    then consider "j = i" | k where "k \<in> set (ends s a i)" "j \<in> set (star_ends (ends s a) n k)" by auto
    then show ?case
    proof cases
      case 2
      with Suc Star.IH ends_bounds [OF 2(1)] show ?thesis by (auto intro: re_match.star1)
    qed (simp add: re_match.star0)
  qed (simp add: re_match.star0)
  moreover have "j \<in> set (star_ends (ends s a) (length s - i) i)" if "re_match s (Star a) i j"
    using star_ends_complete [OF that] Star by blast
  ultimately show ?case using Star.prems by auto
qed (auto intro: re_match.intros elim: re_match.cases split: if_splits)

lemma MatchString_search: "MatchString r s \<longleftrightarrow> (\<exists>i j. i \<le> length s \<and> re_match s r i j)"
proof -
  have "MatchString r s \<longleftrightarrow> (\<exists>i. i \<le> length s \<and> ends s r i \<noteq> [])"
    by (auto simp: MatchString_def list_ex_iff less_Suc_eq_le simp del: upt_Suc)
  also have "\<dots> \<longleftrightarrow> (\<exists>i j. i \<le> length s \<and> re_match s r i j)"
    by (metis ends_iff list.set_intros(1) neq_Nil_conv empty_iff set_empty)
  finally show ?thesis .
qed

text \<open>The matcher the model evaluates agrees with the meaning of the expression: a search
  succeeds exactly when some part of the text matches, for every expression and every text. The
  rounds it gives a repetition are enough.\<close>

theorem MatchString_iff: "MatchString r s \<longleftrightarrow> (\<exists>i j. i \<le> length s \<and> re_match s r i j)"
  by (rule MatchString_search)

section \<open>Building expressions\<close>

text \<open>A literal, as written and folded under \<open>(?i)\<close>, and the abbreviations of the syntax.\<close>

fun lit :: "string \<Rightarrow> regex" where
  "lit [] = Eps"
| "lit (c # cs) = Seq (Cls (\<lambda>x. x = c)) (lit cs)"

fun lit_i :: "string \<Rightarrow> regex" where
  "lit_i [] = Eps"
| "lit_i (c # cs) = Seq (Cls (\<lambda>x. to_lower_char x = to_lower_char c)) (lit_i cs)"

fun alts :: "regex list \<Rightarrow> regex" where
  "alts [] = Cls (\<lambda>_. False)"
| "alts [r] = r"
| "alts (r # rs) = Alt r (alts rs)"

fun seqs :: "regex list \<Rightarrow> regex" where
  "seqs [] = Eps"
| "seqs [r] = r"
| "seqs (r # rs) = Seq r (seqs rs)"

definition re_opt :: "regex \<Rightarrow> regex" where "re_opt r = Alt r Eps"

definition re_plus :: "regex \<Rightarrow> regex" where "re_plus r = Seq r (Star r)"

definition re_dot :: regex where "re_dot = Cls (\<lambda>c. c \<noteq> CHR 0x0A)"

definition none_of :: "string \<Rightarrow> regex" where "none_of cs = Cls (\<lambda>c. c \<notin> set cs)"

definition one_of :: "string \<Rightarrow> regex" where "one_of cs = Cls (\<lambda>c. c \<in> set cs)"

definition re_word :: regex where "re_word = Cls word_char"

definition re_digit :: regex where "re_digit = Cls (in_range 48 57)"

definition re_space :: regex where "re_space = Cls (\<lambda>c. c \<in> {CHR 0x09, CHR 0x0A, CHR 0x0C, CHR 0x0D, CHR '' ''})"

end
