(* ===== verification/ErrorRegistry.thy ===== *)
theory ErrorRegistry
  imports GoRegexp RetryAfter
begin

text \<open>
  The error registry's types and matchers (\<open>src/protocol/common/error_registry.go\<close>): categories,
  subcategories, the classification record, chain families, transports, the six kinds of matcher
  and the registration of codes. A classification's \<open>Description\<close>, a text for logs, is left out.
  Pointers to registered errors are compared by value: no two registered errors share a code.
\<close>

section \<open>Classifications\<close>

datatype error_category = CategoryInternal | CategoryExternal

fun category_String :: "error_category \<Rightarrow> string" where
  "category_String CategoryInternal = ''internal''"
| "category_String CategoryExternal = ''external''"

datatype error_subcategory =
    SubCategoryNone
  | SubCategoryUnsupportedMethod
  | SubCategoryRateLimit
  | SubCategoryDataScope
  | SubCategoryNodeCapability

fun subcategory_String :: "error_subcategory \<Rightarrow> string" where
  "subcategory_String SubCategoryUnsupportedMethod = ''unsupported_method''"
| "subcategory_String SubCategoryRateLimit = ''rate_limit''"
| "subcategory_String SubCategoryDataScope = ''data_scope''"
| "subcategory_String SubCategoryNodeCapability = ''node_capability''"
| "subcategory_String SubCategoryNone = ''none''"

definition IsUnsupportedMethod :: "error_subcategory \<Rightarrow> bool" where
  "IsUnsupportedMethod sc \<longleftrightarrow> sc = SubCategoryUnsupportedMethod"

definition IsRateLimit :: "error_subcategory \<Rightarrow> bool" where
  "IsRateLimit sc \<longleftrightarrow> sc = SubCategoryRateLimit"

definition IsDataScope :: "error_subcategory \<Rightarrow> bool" where
  "IsDataScope sc \<longleftrightarrow> sc = SubCategoryDataScope"

definition IsNodeCapability :: "error_subcategory \<Rightarrow> bool" where
  "IsNodeCapability sc \<longleftrightarrow> sc = SubCategoryNodeCapability"

lemmas fault_axes = IsUnsupportedMethod_def IsRateLimit_def IsDataScope_def IsNodeCapability_def

record LavaError =
  Code :: int
  Name :: string
  Category :: error_category
  SubCategory :: error_subcategory
  Retryable :: bool
  MayHaveReachedNode :: bool

definition LavaErrorUnknown :: LavaError where
  "LavaErrorUnknown = \<lparr>Code = 0, Name = ''UNKNOWN_ERROR'', Category = CategoryExternal,
     SubCategory = SubCategoryNone, Retryable = True, MayHaveReachedNode = True\<rparr>"

text \<open>A nil classification is \<open>None\<close>.\<close>

definition EndpointAtFault :: "LavaError option \<Rightarrow> bool" where
  "EndpointAtFault le =
     (case le of
        None \<Rightarrow> False
      | Some e \<Rightarrow>
          if e = LavaErrorUnknown then False
          else if IsUnsupportedMethod (SubCategory e) \<or> IsNodeCapability (SubCategory e) \<or>
                  IsDataScope (SubCategory e) \<or> IsRateLimit (SubCategory e) then False
          else if Category e = CategoryInternal then True
          else Category e = CategoryExternal \<and> Retryable e)"

definition IsRateLimited :: "LavaError option \<Rightarrow> bool" where
  "IsRateLimited le = (case le of None \<Rightarrow> False | Some e \<Rightarrow> IsRateLimit (SubCategory e))"

definition LavaError_String :: "LavaError \<Rightarrow> string" where
  "LavaError_String le = ''['' @ format_int (Code le) @ ''] '' @ Name le"

text \<open>\<open>errors.Is\<close> between classifications compares codes.\<close>

definition LavaError_Is :: "LavaError \<Rightarrow> LavaError \<Rightarrow> bool" where
  "LavaError_Is le target \<longleftrightarrow> Code le = Code target"

definition ABCICode :: "LavaError \<Rightarrow> int" where
  "ABCICode le = Code le"

section \<open>Chain families and transports\<close>

datatype ChainFamily =
    ChainFamilyUnknown
  | ChainFamilyEVM
  | ChainFamilySolana
  | ChainFamilyBitcoin
  | ChainFamilyCosmosSDK
  | ChainFamilyStarknet
  | ChainFamilyAptos
  | ChainFamilyNEAR
  | ChainFamilyXRP
  | ChainFamilyStellar
  | ChainFamilyTON
  | ChainFamilyPolygonZkEVM
  | ChainFamilyCardano
  | ChainFamilyTron
  | ChainFamilySui

datatype TransportType = TransportJsonRPC | TransportREST | TransportGRPC

fun transport_String :: "TransportType \<Rightarrow> string" where
  "transport_String TransportJsonRPC = ''JsonRPC''"
| "transport_String TransportREST = ''REST''"
| "transport_String TransportGRPC = ''gRPC''"

section \<open>Matchers\<close>

text \<open>The six matcher types behind the interface \<open>ErrorMatcher\<close>. The constructors of the
  substring matchers lower their text, as \<open>MessageContains\<close> and \<open>CodeAndMessage\<close> do.\<close>

datatype ErrorMatcher =
    codeEqualsMatcher int
  | messageContainsMatcher string
  | messageRegexMatcher regex
  | codeAndMessageMatcher int string
  | httpStatusMatcher string
  | grpcCodeMatcher int

definition CodeEquals :: "int \<Rightarrow> ErrorMatcher" where
  "CodeEquals code = codeEqualsMatcher code"

definition MessageContains :: "string \<Rightarrow> ErrorMatcher" where
  "MessageContains substring = messageContainsMatcher (to_lower substring)"

definition MessageRegex :: "regex \<Rightarrow> ErrorMatcher" where
  "MessageRegex pattern = messageRegexMatcher pattern"

definition CodeAndMessage :: "int \<Rightarrow> string \<Rightarrow> ErrorMatcher" where
  "CodeAndMessage code substring = codeAndMessageMatcher code (to_lower substring)"

definition HTTPStatusContains :: "int \<Rightarrow> ErrorMatcher" where
  "HTTPStatusContains status = httpStatusMatcher (format_int status)"

definition GRPCCodeEquals :: "int \<Rightarrow> ErrorMatcher" where
  "GRPCCodeEquals code = grpcCodeMatcher code"

lemmas matcher_constructors = CodeEquals_def MessageContains_def MessageRegex_def CodeAndMessage_def
  HTTPStatusContains_def GRPCCodeEquals_def

text \<open>The search loop of \<open>httpStatusMatcher.Matches\<close>: each round cuts the text behind the occurrence
  it refuses, so it ends for every non-empty status.\<close>

definition digit_at :: "string \<Rightarrow> nat \<Rightarrow> bool" where
  "digit_at s i \<longleftrightarrow> i < length s \<and> is_digit (s ! i)"

lemma index_shrinks: "str_index msg p = Some i \<Longrightarrow> p \<noteq> [] \<Longrightarrow> length (drop (i + length p) msg) < length msg"
proof -
  assume "str_index msg p = Some i" and "p \<noteq> []"
  then obtain r where "msg = take i msg @ p @ r" and "i \<le> length msg" using str_index_Some by blast
  then have "length msg = i + length p + length r" by (metis add.assoc length_append length_take min.absorb2)
  with \<open>p \<noteq> []\<close> show ?thesis by simp
qed

function http_status_loop :: "string \<Rightarrow> string \<Rightarrow> bool" where
  "http_status_loop target msg =
     (if target = [] then True
      else case str_index msg target of
        None \<Rightarrow> False
      | Some idx \<Rightarrow>
          if 0 < idx \<and> digit_at msg (idx - 1) then http_status_loop target (drop (idx + length target) msg)
          else if digit_at msg (idx + length target) then http_status_loop target (drop (idx + length target) msg)
          else True)"
  by pat_completeness auto

termination
  by (relation "measure (\<lambda>(target, msg). length msg)") (auto dest: index_shrinks)

declare http_status_loop.simps [simp del]

fun Matches :: "ErrorMatcher \<Rightarrow> int \<Rightarrow> string \<Rightarrow> bool" where
  "Matches (codeEqualsMatcher code) errorCode _ = (errorCode = code)"
| "Matches (messageContainsMatcher substring) _ errorMessage = str_contains (to_lower errorMessage) substring"
| "Matches (messageRegexMatcher re) _ errorMessage = MatchString re errorMessage"
| "Matches (codeAndMessageMatcher code substring) errorCode errorMessage =
     (errorCode = code \<and> str_contains (to_lower errorMessage) substring)"
| "Matches (httpStatusMatcher status) _ errorMessage = http_status_loop status errorMessage"
| "Matches (grpcCodeMatcher code) errorCode _ =
     (if errorCode < 0 \<or> 4294967295 < errorCode then False else errorCode = code)"

text \<open>The fast path: only the two substring matchers implement \<open>loweredMessageMatcher\<close>.\<close>

fun matchesLowered :: "ErrorMatcher \<Rightarrow> int \<Rightarrow> string \<Rightarrow> bool option" where
  "matchesLowered (messageContainsMatcher substring) _ loweredMessage = Some (str_contains loweredMessage substring)"
| "matchesLowered (codeAndMessageMatcher code substring) errorCode loweredMessage =
     Some (errorCode = code \<and> str_contains loweredMessage substring)"
| "matchesLowered _ _ _ = None"

type_synonym errorMapping = "ErrorMatcher \<times> LavaError"

section \<open>Registration\<close>

record error_registry =
  errorRegistry :: "(int, LavaError) gomap"
  errorRegistryName :: "(string, LavaError) gomap"

definition initial_registry :: error_registry where
  "initial_registry = \<lparr>errorRegistry = [(Code LavaErrorUnknown, LavaErrorUnknown)],
     errorRegistryName = [(Name LavaErrorUnknown, LavaErrorUnknown)]\<rparr>"

text \<open>A panic at package initialisation is \<open>None\<close>.\<close>

definition registerError :: "LavaError \<Rightarrow> error_registry \<Rightarrow> error_registry option" where
  "registerError le r =
     (if Code le = 0 then None
      else if mget (errorRegistry r) (Code le) \<noteq> None then None
      else if mget (errorRegistryName r) (Name le) \<noteq> None then None
      else Some (r\<lparr>errorRegistry := mput (Code le) le (errorRegistry r),
                   errorRegistryName := mput (Name le) le (errorRegistryName r)\<rparr>))"

fun registerAll :: "LavaError list \<Rightarrow> error_registry \<Rightarrow> error_registry option" where
  "registerAll [] r = Some r"
| "registerAll (le # les) r = (case registerError le r of None \<Rightarrow> None | Some r' \<Rightarrow> registerAll les r')"

lemma registerAll_distinct:
  "registerAll les r = Some r' \<Longrightarrow>
     distinct (map Code les) \<and> distinct (map Name les)
     \<and> (\<forall>le\<in>set les. mget (errorRegistry r) (Code le) = None \<and> mget (errorRegistryName r) (Name le) = None)"
proof (induction les arbitrary: r)
  case (Cons le les)
  from Cons.prems obtain r1 where r1: "registerError le r = Some r1" and rest: "registerAll les r1 = Some r'"
    by (auto split: option.splits)
  then have "mget (errorRegistry r) (Code le) = None" and "mget (errorRegistryName r) (Name le) = None"
    and "mget (errorRegistry r1) = (mget (errorRegistry r))(Code le \<mapsto> le)"
    and "mget (errorRegistryName r1) = (mget (errorRegistryName r))(Name le \<mapsto> le)"
    by (auto simp: registerError_def split: if_splits)
  with Cons.IH [OF rest] show ?case by (auto split: if_splits)
qed simp

lemma registerAll_lookup:
  "registerAll les r = Some r' \<Longrightarrow>
     mget (errorRegistry r') = mget (errorRegistry r) ++ map_of (map (\<lambda>le. (Code le, le)) les)
     \<and> mget (errorRegistryName r') = mget (errorRegistryName r) ++ map_of (map (\<lambda>le. (Name le, le)) les)"
proof (induction les arbitrary: r)
  case (Cons le les)
  from Cons.prems obtain r1 where r1: "registerError le r = Some r1" and rest: "registerAll les r1 = Some r'"
    by (auto split: option.splits)
  then have "mget (errorRegistry r1) = (mget (errorRegistry r))(Code le \<mapsto> le)"
    and "mget (errorRegistryName r1) = (mget (errorRegistryName r))(Name le \<mapsto> le)"
    by (auto simp: registerError_def split: if_splits)
  moreover have "Code le \<notin> Code ` set les" and "Name le \<notin> Name ` set les"
    using registerAll_distinct [OF Cons.prems] by auto
  then have "Code le \<notin> dom (map_of (map (\<lambda>le. (Code le, le)) les))"
    and "Name le \<notin> dom (map_of (map (\<lambda>le. (Name le, le)) les))"
    by (auto simp: dom_map_of_conv_image_fst)
  ultimately show ?case using Cons.IH [OF rest] by (auto simp: fun_eq_iff map_add_def domIff split: option.splits)
qed simp

text \<open>Fresh codes and names register.\<close>

lemma registerAll_succeeds:
  assumes "distinct (map Code les)" and "distinct (map Name les)" and "0 \<notin> Code ` set les"
    and "\<And>le. le \<in> set les \<Longrightarrow> mget (errorRegistry r) (Code le) = None"
    and "\<And>le. le \<in> set les \<Longrightarrow> mget (errorRegistryName r) (Name le) = None"
  shows "registerAll les r \<noteq> None"
  using assms
proof (induction les arbitrary: r)
  case (Cons le les)
  have "registerAll les (r\<lparr>errorRegistry := mput (Code le) le (errorRegistry r),
      errorRegistryName := mput (Name le) le (errorRegistryName r)\<rparr>) \<noteq> None"
    by (rule Cons.IH) (use Cons.prems in \<open>auto simp: image_iff\<close>)
  moreover have "Code le \<noteq> 0" using Cons.prems(3) by auto
  ultimately show ?case using Cons.prems(4,5) [of le] by (auto simp: registerError_def)
qed simp

section \<open>The matchers\<close>

lemma fast_path_agrees: "matchesLowered m code (to_lower msg) = Some b \<Longrightarrow> Matches m code msg = b"
  by (cases m) auto

text \<open>An occurrence of the status that no digit touches.\<close>

definition isolated :: "string \<Rightarrow> string \<Rightarrow> bool" where
  "isolated target msg \<longleftrightarrow> (\<exists>a b. msg = a @ target @ b \<and> (a = [] \<or> \<not> is_digit (last a)) \<and> (b = [] \<or> \<not> is_digit (hd b)))"

text \<open>Cutting behind a refused occurrence never loses an isolated one: an isolated occurrence
  cannot start inside a run of digits.\<close>

lemma isolated_survives_cut:
  assumes "list_all is_digit target" and "target \<noteq> []" and "str_index msg target = Some i"
    and "isolated target msg"
    and refused: "0 < i \<and> digit_at msg (i - 1) \<or> digit_at msg (i + length target)"
  shows "isolated target (drop (i + length target) msg)"
proof -
  obtain a b where ab: "msg = a @ target @ b" "a = [] \<or> \<not> is_digit (last a)" "b = [] \<or> \<not> is_digit (hd b)"
    using assms(4) by (auto simp: isolated_def)
  obtain r where r: "msg = take i msg @ target @ r" "i \<le> length msg" using str_index_Some [OF assms(3)] by blast
  have le: "i \<le> length a" by (rule str_index_first [OF assms(3) ab(1)])
  have "i + length target \<le> length a"
  proof (rule ccontr)
    assume "\<not> ?thesis"
    then have lt: "length a < i + length target" by simp
    show False
    proof (cases "i = length a")
      case True
      have "\<not> (0 < i \<and> digit_at msg (i - 1))"
        using ab True by (cases a rule: rev_cases) (auto simp: digit_at_def nth_append)
      moreover have "\<not> digit_at msg (i + length target)"
        using ab True by (cases b) (auto simp: digit_at_def nth_append)
      ultimately show False using refused by blast
    next
      case False
      with le have "i < length a" by simp
      then have "a \<noteq> []" by auto
      moreover have "last a = msg ! (length a - 1)" using \<open>a \<noteq> []\<close> ab(1) by (simp add: last_conv_nth nth_append)
      moreover have "msg ! (length a - 1) = target ! (length a - 1 - i)"
      proof -
        have "msg ! (length a - 1) = (take i msg @ target @ r) ! (length a - 1)" using r(1) by metis
        also have "\<dots> = (target @ r) ! (length a - 1 - i)"
          using \<open>i < length a\<close> r(2) by (subst nth_append) (auto simp: not_less)
        also have "\<dots> = target ! (length a - 1 - i)"
          using \<open>i < length a\<close> lt by (subst nth_append) (auto simp: not_less)
        finally show ?thesis .
      qed
      moreover have "length a - 1 - i < length target" using lt \<open>i < length a\<close> by simp
      ultimately have "is_digit (last a)" using assms(1) by (simp add: list_all_length)
      with ab(2) \<open>a \<noteq> []\<close> show False by blast
    qed
  qed
  then have "drop (i + length target) msg = drop (i + length target) a @ target @ b" using ab(1) by simp
  moreover have "drop (i + length target) a = [] \<or> \<not> is_digit (last (drop (i + length target) a))"
    using ab(2) by (cases "drop (i + length target) a = []") (auto simp: last_drop)
  ultimately show ?thesis using ab(3) unfolding isolated_def by blast
qed

lemma http_status_complete:
  assumes "list_all is_digit target" and "target \<noteq> []" and "isolated target msg"
  shows "http_status_loop target msg"
  using assms(3)
proof (induction "length msg" arbitrary: msg rule: less_induct)
  case less
  from less.prems have "str_contains msg target" by (auto simp: isolated_def str_contains_iff)
  then obtain i where i: "str_index msg target = Some i" using str_index_None [of msg target] by auto
  let ?rest = "drop (i + length target) msg"
  have "http_status_loop target ?rest"
    if "0 < i \<and> digit_at msg (i - 1) \<or> digit_at msg (i + length target)"
    by (rule less.hyps [OF index_shrinks [OF i assms(2)] isolated_survives_cut [OF assms(1,2) i less.prems that]])
  with i assms(2) show ?case by (subst http_status_loop.simps) auto
qed

end
