(* ===== verification/ErrorCodes.thy ===== *)
theory ErrorCodes
  imports ErrorRegistry
begin

text \<open>
  The registered error codes (\<open>src/protocol/common/error_codes.go\<close>), in the order of the file: the
  protocol's own errors (1000-1999), the nodes' (2000-2999), the chains' (3000-3999) and the
  users' (4000-4999). \<open>all_codes\<close> is the order in which package initialisation registers them.
\<close>

definition LavaErrorConnectionTimeout :: LavaError where
  "LavaErrorConnectionTimeout = \<lparr>Code = 1001, Name = ''PROTOCOL_CONNECTION_TIMEOUT'', Category = CategoryInternal,
     SubCategory = SubCategoryNone, Retryable = True, MayHaveReachedNode = True\<rparr>"

definition LavaErrorConnectionRefused :: LavaError where
  "LavaErrorConnectionRefused = \<lparr>Code = 1002, Name = ''PROTOCOL_CONNECTION_REFUSED'', Category = CategoryInternal,
     SubCategory = SubCategoryNone, Retryable = True, MayHaveReachedNode = False\<rparr>"

definition LavaErrorDNSFailure :: LavaError where
  "LavaErrorDNSFailure = \<lparr>Code = 1003, Name = ''PROTOCOL_DNS_FAILURE'', Category = CategoryInternal,
     SubCategory = SubCategoryNone, Retryable = True, MayHaveReachedNode = False\<rparr>"

definition LavaErrorTLSMismatch :: LavaError where
  "LavaErrorTLSMismatch = \<lparr>Code = 1004, Name = ''PROTOCOL_TLS_MISMATCH'', Category = CategoryInternal,
     SubCategory = SubCategoryNone, Retryable = True, MayHaveReachedNode = False\<rparr>"

definition LavaErrorConnectionReset :: LavaError where
  "LavaErrorConnectionReset = \<lparr>Code = 1005, Name = ''PROTOCOL_CONNECTION_RESET'', Category = CategoryInternal,
     SubCategory = SubCategoryNone, Retryable = True, MayHaveReachedNode = True\<rparr>"

definition LavaErrorConnectionClosed :: LavaError where
  "LavaErrorConnectionClosed = \<lparr>Code = 1006, Name = ''PROTOCOL_CONNECTION_CLOSED'', Category = CategoryInternal,
     SubCategory = SubCategoryNone, Retryable = True, MayHaveReachedNode = True\<rparr>"

definition LavaErrorNetworkUnreachable :: LavaError where
  "LavaErrorNetworkUnreachable = \<lparr>Code = 1009, Name = ''PROTOCOL_NETWORK_UNREACHABLE'', Category = CategoryInternal,
     SubCategory = SubCategoryNone, Retryable = True, MayHaveReachedNode = False\<rparr>"

definition LavaErrorContextDeadline :: LavaError where
  "LavaErrorContextDeadline = \<lparr>Code = 1007, Name = ''PROTOCOL_CONTEXT_DEADLINE'', Category = CategoryInternal,
     SubCategory = SubCategoryNone, Retryable = True, MayHaveReachedNode = True\<rparr>"

definition LavaErrorContextCanceled :: LavaError where
  "LavaErrorContextCanceled = \<lparr>Code = 1008, Name = ''PROTOCOL_CONTEXT_CANCELED'', Category = CategoryInternal,
     SubCategory = SubCategoryNone, Retryable = False, MayHaveReachedNode = True\<rparr>"

definition LavaErrorNoProviders :: LavaError where
  "LavaErrorNoProviders = \<lparr>Code = 1010, Name = ''PROTOCOL_NO_PROVIDERS'', Category = CategoryInternal,
     SubCategory = SubCategoryNone, Retryable = False, MayHaveReachedNode = False\<rparr>"

definition LavaErrorAllEndpointsDisabled :: LavaError where
  "LavaErrorAllEndpointsDisabled = \<lparr>Code = 1011, Name = ''PROTOCOL_ALL_ENDPOINTS_DISABLED'', Category = CategoryInternal,
     SubCategory = SubCategoryNone, Retryable = False, MayHaveReachedNode = False\<rparr>"

definition LavaErrorProviderUnavailable :: LavaError where
  "LavaErrorProviderUnavailable = \<lparr>Code = 1012, Name = ''PROTOCOL_PROVIDER_UNAVAILABLE'', Category = CategoryInternal,
     SubCategory = SubCategoryNone, Retryable = True, MayHaveReachedNode = False\<rparr>"

definition LavaErrorProviderAborted :: LavaError where
  "LavaErrorProviderAborted = \<lparr>Code = 1013, Name = ''PROTOCOL_PROVIDER_ABORTED'', Category = CategoryInternal,
     SubCategory = SubCategoryNone, Retryable = True, MayHaveReachedNode = False\<rparr>"

definition LavaErrorProviderDataLoss :: LavaError where
  "LavaErrorProviderDataLoss = \<lparr>Code = 1014, Name = ''PROTOCOL_PROVIDER_DATA_LOSS'', Category = CategoryInternal,
     SubCategory = SubCategoryNone, Retryable = True, MayHaveReachedNode = False\<rparr>"

definition LavaErrorInsufficientProviders :: LavaError where
  "LavaErrorInsufficientProviders = \<lparr>Code = 1015, Name = ''PROTOCOL_INSUFFICIENT_PROVIDERS'', Category = CategoryInternal,
     SubCategory = SubCategoryNone, Retryable = False, MayHaveReachedNode = False\<rparr>"

definition LavaErrorRateLimited :: LavaError where
  "LavaErrorRateLimited = \<lparr>Code = 1020, Name = ''PROTOCOL_RATE_LIMITED'', Category = CategoryInternal,
     SubCategory = SubCategoryRateLimit, Retryable = False, MayHaveReachedNode = False\<rparr>"

definition LavaErrorMaxCUExceeded :: LavaError where
  "LavaErrorMaxCUExceeded = \<lparr>Code = 1021, Name = ''PROTOCOL_MAX_CU_EXCEEDED'', Category = CategoryInternal,
     SubCategory = SubCategoryNone, Retryable = False, MayHaveReachedNode = False\<rparr>"

definition LavaErrorBatchSizeExceeded :: LavaError where
  "LavaErrorBatchSizeExceeded = \<lparr>Code = 1022, Name = ''PROTOCOL_BATCH_SIZE_EXCEEDED'', Category = CategoryInternal,
     SubCategory = SubCategoryNone, Retryable = False, MayHaveReachedNode = False\<rparr>"

definition LavaErrorCUMismatch :: LavaError where
  "LavaErrorCUMismatch = \<lparr>Code = 1023, Name = ''PROTOCOL_CU_MISMATCH'', Category = CategoryInternal,
     SubCategory = SubCategoryNone, Retryable = False, MayHaveReachedNode = False\<rparr>"

definition LavaErrorSessionNotFound :: LavaError where
  "LavaErrorSessionNotFound = \<lparr>Code = 1030, Name = ''PROTOCOL_SESSION_NOT_FOUND'', Category = CategoryInternal,
     SubCategory = SubCategoryNone, Retryable = False, MayHaveReachedNode = False\<rparr>"

definition LavaErrorEpochMismatch :: LavaError where
  "LavaErrorEpochMismatch = \<lparr>Code = 1031, Name = ''PROTOCOL_EPOCH_MISMATCH'', Category = CategoryInternal,
     SubCategory = SubCategoryNone, Retryable = False, MayHaveReachedNode = False\<rparr>"

definition LavaErrorConsumerBlocked :: LavaError where
  "LavaErrorConsumerBlocked = \<lparr>Code = 1032, Name = ''PROTOCOL_CONSUMER_BLOCKED'', Category = CategoryInternal,
     SubCategory = SubCategoryNone, Retryable = False, MayHaveReachedNode = False\<rparr>"

definition LavaErrorConsumerNotRegistered :: LavaError where
  "LavaErrorConsumerNotRegistered = \<lparr>Code = 1033, Name = ''PROTOCOL_CONSUMER_NOT_REGISTERED'', Category = CategoryInternal,
     SubCategory = SubCategoryNone, Retryable = False, MayHaveReachedNode = False\<rparr>"

definition LavaErrorRelayNumberMismatch :: LavaError where
  "LavaErrorRelayNumberMismatch = \<lparr>Code = 1034, Name = ''PROTOCOL_RELAY_NUMBER_MISMATCH'', Category = CategoryInternal,
     SubCategory = SubCategoryNone, Retryable = False, MayHaveReachedNode = False\<rparr>"

definition LavaErrorSessionOutOfSync :: LavaError where
  "LavaErrorSessionOutOfSync = \<lparr>Code = 1035, Name = ''PROTOCOL_SESSION_OUT_OF_SYNC'', Category = CategoryInternal,
     SubCategory = SubCategoryNone, Retryable = False, MayHaveReachedNode = False\<rparr>"

definition LavaErrorInvalidRelayRequest :: LavaError where
  "LavaErrorInvalidRelayRequest = \<lparr>Code = 1036, Name = ''PROTOCOL_INVALID_RELAY_REQUEST'', Category = CategoryInternal,
     SubCategory = SubCategoryNone, Retryable = False, MayHaveReachedNode = False\<rparr>"

definition LavaErrorRequestBlockMismatch :: LavaError where
  "LavaErrorRequestBlockMismatch = \<lparr>Code = 1037, Name = ''PROTOCOL_REQUEST_BLOCK_MISMATCH'', Category = CategoryInternal,
     SubCategory = SubCategoryNone, Retryable = True, MayHaveReachedNode = False\<rparr>"

definition LavaErrorSessionAccountingFailed :: LavaError where
  "LavaErrorSessionAccountingFailed = \<lparr>Code = 1038, Name = ''PROTOCOL_SESSION_ACCOUNTING_FAILED'', Category = CategoryInternal,
     SubCategory = SubCategoryNone, Retryable = False, MayHaveReachedNode = False\<rparr>"

definition LavaErrorSubscriptionCleanupFailed :: LavaError where
  "LavaErrorSubscriptionCleanupFailed = \<lparr>Code = 1039, Name = ''PROTOCOL_SUBSCRIPTION_CLEANUP_FAILED'', Category = CategoryInternal,
     SubCategory = SubCategoryNone, Retryable = False, MayHaveReachedNode = False\<rparr>"

definition LavaErrorFinalizationError :: LavaError where
  "LavaErrorFinalizationError = \<lparr>Code = 1040, Name = ''PROTOCOL_FINALIZATION_ERROR'', Category = CategoryInternal,
     SubCategory = SubCategoryNone, Retryable = True, MayHaveReachedNode = False\<rparr>"

definition LavaErrorConsistencyError :: LavaError where
  "LavaErrorConsistencyError = \<lparr>Code = 1041, Name = ''PROTOCOL_CONSISTENCY_ERROR'', Category = CategoryInternal,
     SubCategory = SubCategoryNone, Retryable = True, MayHaveReachedNode = False\<rparr>"

definition LavaErrorHashConsensusError :: LavaError where
  "LavaErrorHashConsensusError = \<lparr>Code = 1042, Name = ''PROTOCOL_HASH_CONSENSUS_ERROR'', Category = CategoryInternal,
     SubCategory = SubCategoryNone, Retryable = True, MayHaveReachedNode = False\<rparr>"

definition LavaErrorNoResponseTimeout :: LavaError where
  "LavaErrorNoResponseTimeout = \<lparr>Code = 1043, Name = ''PROTOCOL_NO_RESPONSE_TIMEOUT'', Category = CategoryInternal,
     SubCategory = SubCategoryNone, Retryable = True, MayHaveReachedNode = False\<rparr>"

definition LavaErrorRelayProcessingFailed :: LavaError where
  "LavaErrorRelayProcessingFailed = \<lparr>Code = 1044, Name = ''PROTOCOL_RELAY_PROCESSING_FAILED'', Category = CategoryInternal,
     SubCategory = SubCategoryNone, Retryable = True, MayHaveReachedNode = False\<rparr>"

definition LavaErrorSubscriptionNotFound :: LavaError where
  "LavaErrorSubscriptionNotFound = \<lparr>Code = 1050, Name = ''PROTOCOL_SUBSCRIPTION_NOT_FOUND'', Category = CategoryInternal,
     SubCategory = SubCategoryNone, Retryable = False, MayHaveReachedNode = False\<rparr>"

definition LavaErrorSubscriptionInitFailed :: LavaError where
  "LavaErrorSubscriptionInitFailed = \<lparr>Code = 1051, Name = ''PROTOCOL_SUBSCRIPTION_INIT_FAILED'', Category = CategoryInternal,
     SubCategory = SubCategoryNone, Retryable = False, MayHaveReachedNode = False\<rparr>"

definition LavaErrorWebSocketIdleTimeout :: LavaError where
  "LavaErrorWebSocketIdleTimeout = \<lparr>Code = 1052, Name = ''PROTOCOL_WEBSOCKET_IDLE_TIMEOUT'', Category = CategoryInternal,
     SubCategory = SubCategoryNone, Retryable = False, MayHaveReachedNode = False\<rparr>"

definition LavaErrorSubscriptionAlreadyExists :: LavaError where
  "LavaErrorSubscriptionAlreadyExists = \<lparr>Code = 1053, Name = ''PROTOCOL_SUBSCRIPTION_ALREADY_EXISTS'', Category = CategoryInternal,
     SubCategory = SubCategoryNone, Retryable = False, MayHaveReachedNode = False\<rparr>"

definition LavaErrorNodeMethodNotFound :: LavaError where
  "LavaErrorNodeMethodNotFound = \<lparr>Code = 2001, Name = ''NODE_METHOD_NOT_FOUND'', Category = CategoryExternal,
     SubCategory = SubCategoryNodeCapability, Retryable = True, MayHaveReachedNode = False\<rparr>"

definition LavaErrorNodeMethodNotSupported :: LavaError where
  "LavaErrorNodeMethodNotSupported = \<lparr>Code = 2002, Name = ''NODE_METHOD_NOT_SUPPORTED'', Category = CategoryExternal,
     SubCategory = SubCategoryNodeCapability, Retryable = True, MayHaveReachedNode = False\<rparr>"

definition LavaErrorNodeInternalError :: LavaError where
  "LavaErrorNodeInternalError = \<lparr>Code = 2003, Name = ''NODE_INTERNAL_ERROR'', Category = CategoryExternal,
     SubCategory = SubCategoryNone, Retryable = True, MayHaveReachedNode = False\<rparr>"

definition LavaErrorNodeServerError :: LavaError where
  "LavaErrorNodeServerError = \<lparr>Code = 2004, Name = ''NODE_SERVER_ERROR'', Category = CategoryExternal,
     SubCategory = SubCategoryNone, Retryable = True, MayHaveReachedNode = False\<rparr>"

definition LavaErrorNodeRateLimited :: LavaError where
  "LavaErrorNodeRateLimited = \<lparr>Code = 2005, Name = ''NODE_RATE_LIMITED'', Category = CategoryExternal,
     SubCategory = SubCategoryRateLimit, Retryable = True, MayHaveReachedNode = False\<rparr>"

definition LavaErrorNodeServiceUnavailable :: LavaError where
  "LavaErrorNodeServiceUnavailable = \<lparr>Code = 2006, Name = ''NODE_SERVICE_UNAVAILABLE'', Category = CategoryExternal,
     SubCategory = SubCategoryNone, Retryable = True, MayHaveReachedNode = False\<rparr>"

definition LavaErrorNodeSyncing :: LavaError where
  "LavaErrorNodeSyncing = \<lparr>Code = 2007, Name = ''NODE_SYNCING'', Category = CategoryExternal,
     SubCategory = SubCategoryNone, Retryable = True, MayHaveReachedNode = False\<rparr>"

definition LavaErrorNodeUnimplemented :: LavaError where
  "LavaErrorNodeUnimplemented = \<lparr>Code = 2008, Name = ''NODE_UNIMPLEMENTED'', Category = CategoryExternal,
     SubCategory = SubCategoryNodeCapability, Retryable = True, MayHaveReachedNode = False\<rparr>"

definition LavaErrorNodeEndpointNotFound :: LavaError where
  "LavaErrorNodeEndpointNotFound = \<lparr>Code = 2009, Name = ''NODE_ENDPOINT_NOT_FOUND'', Category = CategoryExternal,
     SubCategory = SubCategoryNodeCapability, Retryable = True, MayHaveReachedNode = False\<rparr>"

definition LavaErrorNodeMethodNotAllowed :: LavaError where
  "LavaErrorNodeMethodNotAllowed = \<lparr>Code = 2010, Name = ''NODE_METHOD_NOT_ALLOWED'', Category = CategoryExternal,
     SubCategory = SubCategoryNodeCapability, Retryable = True, MayHaveReachedNode = False\<rparr>"

definition LavaErrorNodeLimitExceeded :: LavaError where
  "LavaErrorNodeLimitExceeded = \<lparr>Code = 2011, Name = ''NODE_LIMIT_EXCEEDED'', Category = CategoryExternal,
     SubCategory = SubCategoryRateLimit, Retryable = False, MayHaveReachedNode = False\<rparr>"

definition LavaErrorNodeResourceNotFound :: LavaError where
  "LavaErrorNodeResourceNotFound = \<lparr>Code = 2012, Name = ''NODE_RESOURCE_NOT_FOUND'', Category = CategoryExternal,
     SubCategory = SubCategoryDataScope, Retryable = True, MayHaveReachedNode = False\<rparr>"

definition LavaErrorNodeResourceUnavailable :: LavaError where
  "LavaErrorNodeResourceUnavailable = \<lparr>Code = 2013, Name = ''NODE_RESOURCE_UNAVAILABLE'', Category = CategoryExternal,
     SubCategory = SubCategoryDataScope, Retryable = True, MayHaveReachedNode = False\<rparr>"

definition LavaErrorNodeGatewayTimeout :: LavaError where
  "LavaErrorNodeGatewayTimeout = \<lparr>Code = 2014, Name = ''NODE_GATEWAY_TIMEOUT'', Category = CategoryExternal,
     SubCategory = SubCategoryNone, Retryable = True, MayHaveReachedNode = True\<rparr>"

definition LavaErrorNodeBadGateway :: LavaError where
  "LavaErrorNodeBadGateway = \<lparr>Code = 2015, Name = ''NODE_BAD_GATEWAY'', Category = CategoryExternal,
     SubCategory = SubCategoryNone, Retryable = True, MayHaveReachedNode = True\<rparr>"

definition LavaErrorNodeUnauthorized :: LavaError where
  "LavaErrorNodeUnauthorized = \<lparr>Code = 2016, Name = ''NODE_UNAUTHORIZED'', Category = CategoryExternal,
     SubCategory = SubCategoryNodeCapability, Retryable = True, MayHaveReachedNode = False\<rparr>"

definition LavaErrorNodeAccessDenied :: LavaError where
  "LavaErrorNodeAccessDenied = \<lparr>Code = 2018, Name = ''NODE_ACCESS_DENIED'', Category = CategoryExternal,
     SubCategory = SubCategoryNodeCapability, Retryable = True, MayHaveReachedNode = False\<rparr>"

definition LavaErrorNodeDataNotHeld :: LavaError where
  "LavaErrorNodeDataNotHeld = \<lparr>Code = 2017, Name = ''NODE_DATA_NOT_HELD'', Category = CategoryExternal,
     SubCategory = SubCategoryDataScope, Retryable = True, MayHaveReachedNode = False\<rparr>"

definition LavaErrorNodeAborted :: LavaError where
  "LavaErrorNodeAborted = \<lparr>Code = 2019, Name = ''NODE_ABORTED'', Category = CategoryExternal,
     SubCategory = SubCategoryNone, Retryable = False, MayHaveReachedNode = True\<rparr>"

definition LavaErrorNodeBitcoinWarmup :: LavaError where
  "LavaErrorNodeBitcoinWarmup = \<lparr>Code = 2101, Name = ''NODE_BITCOIN_WARMUP'', Category = CategoryExternal,
     SubCategory = SubCategoryNone, Retryable = True, MayHaveReachedNode = False\<rparr>"

definition LavaErrorNodeBitcoinInitialDownload :: LavaError where
  "LavaErrorNodeBitcoinInitialDownload = \<lparr>Code = 2102, Name = ''NODE_BITCOIN_INITIAL_DOWNLOAD'', Category = CategoryExternal,
     SubCategory = SubCategoryNone, Retryable = True, MayHaveReachedNode = False\<rparr>"

definition LavaErrorNodeBitcoinNotConnected :: LavaError where
  "LavaErrorNodeBitcoinNotConnected = \<lparr>Code = 2103, Name = ''NODE_BITCOIN_NOT_CONNECTED'', Category = CategoryExternal,
     SubCategory = SubCategoryNone, Retryable = True, MayHaveReachedNode = False\<rparr>"

definition LavaErrorNodeSolanaUnhealthy :: LavaError where
  "LavaErrorNodeSolanaUnhealthy = \<lparr>Code = 2150, Name = ''NODE_SOLANA_UNHEALTHY'', Category = CategoryExternal,
     SubCategory = SubCategoryNone, Retryable = True, MayHaveReachedNode = False\<rparr>"

definition LavaErrorChainNonceTooLow :: LavaError where
  "LavaErrorChainNonceTooLow = \<lparr>Code = 3001, Name = ''CHAIN_NONCE_TOO_LOW'', Category = CategoryExternal,
     SubCategory = SubCategoryNone, Retryable = False, MayHaveReachedNode = False\<rparr>"

definition LavaErrorChainNonceTooHigh :: LavaError where
  "LavaErrorChainNonceTooHigh = \<lparr>Code = 3002, Name = ''CHAIN_NONCE_TOO_HIGH'', Category = CategoryExternal,
     SubCategory = SubCategoryNone, Retryable = False, MayHaveReachedNode = False\<rparr>"

definition LavaErrorChainInsufficientFunds :: LavaError where
  "LavaErrorChainInsufficientFunds = \<lparr>Code = 3003, Name = ''CHAIN_INSUFFICIENT_FUNDS'', Category = CategoryExternal,
     SubCategory = SubCategoryNone, Retryable = False, MayHaveReachedNode = False\<rparr>"

definition LavaErrorChainGasTooLow :: LavaError where
  "LavaErrorChainGasTooLow = \<lparr>Code = 3004, Name = ''CHAIN_GAS_TOO_LOW'', Category = CategoryExternal,
     SubCategory = SubCategoryNone, Retryable = False, MayHaveReachedNode = False\<rparr>"

definition LavaErrorChainGasLimitExceeded :: LavaError where
  "LavaErrorChainGasLimitExceeded = \<lparr>Code = 3005, Name = ''CHAIN_GAS_LIMIT_EXCEEDED'', Category = CategoryExternal,
     SubCategory = SubCategoryNone, Retryable = False, MayHaveReachedNode = False\<rparr>"

definition LavaErrorChainTxUnderpriced :: LavaError where
  "LavaErrorChainTxUnderpriced = \<lparr>Code = 3006, Name = ''CHAIN_TX_UNDERPRICED'', Category = CategoryExternal,
     SubCategory = SubCategoryNone, Retryable = False, MayHaveReachedNode = False\<rparr>"

definition LavaErrorChainTxAlreadyKnown :: LavaError where
  "LavaErrorChainTxAlreadyKnown = \<lparr>Code = 3007, Name = ''CHAIN_TX_ALREADY_KNOWN'', Category = CategoryExternal,
     SubCategory = SubCategoryNone, Retryable = False, MayHaveReachedNode = False\<rparr>"

definition LavaErrorChainTxReplacementUnderpriced :: LavaError where
  "LavaErrorChainTxReplacementUnderpriced = \<lparr>Code = 3008, Name = ''CHAIN_TX_REPLACEMENT_UNDERPRICED'', Category = CategoryExternal,
     SubCategory = SubCategoryNone, Retryable = False, MayHaveReachedNode = False\<rparr>"

definition LavaErrorChainMempoolFull :: LavaError where
  "LavaErrorChainMempoolFull = \<lparr>Code = 3009, Name = ''CHAIN_MEMPOOL_FULL'', Category = CategoryExternal,
     SubCategory = SubCategoryNone, Retryable = False, MayHaveReachedNode = False\<rparr>"

definition LavaErrorChainTxTooLarge :: LavaError where
  "LavaErrorChainTxTooLarge = \<lparr>Code = 3010, Name = ''CHAIN_TX_TOO_LARGE'', Category = CategoryExternal,
     SubCategory = SubCategoryNone, Retryable = False, MayHaveReachedNode = False\<rparr>"

definition LavaErrorChainMaxFeeBelowBase :: LavaError where
  "LavaErrorChainMaxFeeBelowBase = \<lparr>Code = 3011, Name = ''CHAIN_MAX_FEE_BELOW_BASE'', Category = CategoryExternal,
     SubCategory = SubCategoryNone, Retryable = False, MayHaveReachedNode = False\<rparr>"

definition LavaErrorChainInvalidSequence :: LavaError where
  "LavaErrorChainInvalidSequence = \<lparr>Code = 3012, Name = ''CHAIN_INVALID_SEQUENCE'', Category = CategoryExternal,
     SubCategory = SubCategoryNone, Retryable = False, MayHaveReachedNode = False\<rparr>"

definition LavaErrorChainInsufficientFee :: LavaError where
  "LavaErrorChainInsufficientFee = \<lparr>Code = 3013, Name = ''CHAIN_INSUFFICIENT_FEE'', Category = CategoryExternal,
     SubCategory = SubCategoryNone, Retryable = False, MayHaveReachedNode = False\<rparr>"

definition LavaErrorChainTxRejected :: LavaError where
  "LavaErrorChainTxRejected = \<lparr>Code = 3014, Name = ''CHAIN_TX_REJECTED'', Category = CategoryExternal,
     SubCategory = SubCategoryNone, Retryable = False, MayHaveReachedNode = False\<rparr>"

definition LavaErrorChainDoubleSpend :: LavaError where
  "LavaErrorChainDoubleSpend = \<lparr>Code = 3015, Name = ''CHAIN_DOUBLE_SPEND'', Category = CategoryExternal,
     SubCategory = SubCategoryNone, Retryable = False, MayHaveReachedNode = False\<rparr>"

definition LavaErrorChainInvalidSignature :: LavaError where
  "LavaErrorChainInvalidSignature = \<lparr>Code = 3016, Name = ''CHAIN_INVALID_SIGNATURE'', Category = CategoryExternal,
     SubCategory = SubCategoryNone, Retryable = False, MayHaveReachedNode = False\<rparr>"

definition LavaErrorChainExecutionReverted :: LavaError where
  "LavaErrorChainExecutionReverted = \<lparr>Code = 3101, Name = ''CHAIN_EXECUTION_REVERTED'', Category = CategoryExternal,
     SubCategory = SubCategoryNone, Retryable = False, MayHaveReachedNode = False\<rparr>"

definition LavaErrorChainOutOfGas :: LavaError where
  "LavaErrorChainOutOfGas = \<lparr>Code = 3102, Name = ''CHAIN_OUT_OF_GAS'', Category = CategoryExternal,
     SubCategory = SubCategoryNone, Retryable = False, MayHaveReachedNode = False\<rparr>"

definition LavaErrorChainStackOverflow :: LavaError where
  "LavaErrorChainStackOverflow = \<lparr>Code = 3103, Name = ''CHAIN_STACK_OVERFLOW'', Category = CategoryExternal,
     SubCategory = SubCategoryNone, Retryable = False, MayHaveReachedNode = False\<rparr>"

definition LavaErrorChainInvalidOpcode :: LavaError where
  "LavaErrorChainInvalidOpcode = \<lparr>Code = 3104, Name = ''CHAIN_INVALID_OPCODE'', Category = CategoryExternal,
     SubCategory = SubCategoryNone, Retryable = False, MayHaveReachedNode = False\<rparr>"

definition LavaErrorChainWriteProtection :: LavaError where
  "LavaErrorChainWriteProtection = \<lparr>Code = 3105, Name = ''CHAIN_WRITE_PROTECTION'', Category = CategoryExternal,
     SubCategory = SubCategoryNone, Retryable = False, MayHaveReachedNode = False\<rparr>"

definition LavaErrorChainContractSizeExceeded :: LavaError where
  "LavaErrorChainContractSizeExceeded = \<lparr>Code = 3106, Name = ''CHAIN_CONTRACT_SIZE_EXCEEDED'', Category = CategoryExternal,
     SubCategory = SubCategoryNone, Retryable = False, MayHaveReachedNode = False\<rparr>"

definition LavaErrorChainAccountNotFound :: LavaError where
  "LavaErrorChainAccountNotFound = \<lparr>Code = 3107, Name = ''CHAIN_ACCOUNT_NOT_FOUND'', Category = CategoryExternal,
     SubCategory = SubCategoryNone, Retryable = False, MayHaveReachedNode = False\<rparr>"

definition LavaErrorChainZkEVMOutOfCounters :: LavaError where
  "LavaErrorChainZkEVMOutOfCounters = \<lparr>Code = 3108, Name = ''CHAIN_ZKEVM_OUT_OF_COUNTERS'', Category = CategoryExternal,
     SubCategory = SubCategoryNone, Retryable = False, MayHaveReachedNode = False\<rparr>"

definition LavaErrorChainBlockNotFound :: LavaError where
  "LavaErrorChainBlockNotFound = \<lparr>Code = 3201, Name = ''CHAIN_BLOCK_NOT_FOUND'', Category = CategoryExternal,
     SubCategory = SubCategoryDataScope, Retryable = True, MayHaveReachedNode = False\<rparr>"

definition LavaErrorChainTxNotFound :: LavaError where
  "LavaErrorChainTxNotFound = \<lparr>Code = 3202, Name = ''CHAIN_TX_NOT_FOUND'', Category = CategoryExternal,
     SubCategory = SubCategoryDataScope, Retryable = True, MayHaveReachedNode = False\<rparr>"

definition LavaErrorChainReceiptNotFound :: LavaError where
  "LavaErrorChainReceiptNotFound = \<lparr>Code = 3203, Name = ''CHAIN_RECEIPT_NOT_FOUND'', Category = CategoryExternal,
     SubCategory = SubCategoryDataScope, Retryable = True, MayHaveReachedNode = False\<rparr>"

definition LavaErrorChainStatePruned :: LavaError where
  "LavaErrorChainStatePruned = \<lparr>Code = 3204, Name = ''CHAIN_STATE_PRUNED'', Category = CategoryExternal,
     SubCategory = SubCategoryDataScope, Retryable = True, MayHaveReachedNode = False\<rparr>"

definition LavaErrorChainDataNotAvailable :: LavaError where
  "LavaErrorChainDataNotAvailable = \<lparr>Code = 3205, Name = ''CHAIN_DATA_NOT_AVAILABLE'', Category = CategoryExternal,
     SubCategory = SubCategoryDataScope, Retryable = True, MayHaveReachedNode = False\<rparr>"

definition LavaErrorChainBlockTooOld :: LavaError where
  "LavaErrorChainBlockTooOld = \<lparr>Code = 3206, Name = ''CHAIN_BLOCK_TOO_OLD'', Category = CategoryExternal,
     SubCategory = SubCategoryDataScope, Retryable = True, MayHaveReachedNode = False\<rparr>"

definition LavaErrorChainLogResponseTooLarge :: LavaError where
  "LavaErrorChainLogResponseTooLarge = \<lparr>Code = 3207, Name = ''CHAIN_LOG_RESPONSE_TOO_LARGE'', Category = CategoryExternal,
     SubCategory = SubCategoryNone, Retryable = False, MayHaveReachedNode = False\<rparr>"

definition LavaErrorChainSolanaMissingLongTerm :: LavaError where
  "LavaErrorChainSolanaMissingLongTerm = \<lparr>Code = 3302, Name = ''CHAIN_SOLANA_MISSING_LONG_TERM'', Category = CategoryExternal,
     SubCategory = SubCategoryNone, Retryable = False, MayHaveReachedNode = False\<rparr>"

definition LavaErrorChainSolanaLedgerJump :: LavaError where
  "LavaErrorChainSolanaLedgerJump = \<lparr>Code = 3303, Name = ''CHAIN_SOLANA_LEDGER_JUMP'', Category = CategoryExternal,
     SubCategory = SubCategoryDataScope, Retryable = True, MayHaveReachedNode = False\<rparr>"

definition LavaErrorChainSolanaBlockhashNotFound :: LavaError where
  "LavaErrorChainSolanaBlockhashNotFound = \<lparr>Code = 3304, Name = ''CHAIN_SOLANA_BLOCKHASH_NOT_FOUND'', Category = CategoryExternal,
     SubCategory = SubCategoryNone, Retryable = False, MayHaveReachedNode = False\<rparr>"

definition LavaErrorChainSolanaSimulationFailed :: LavaError where
  "LavaErrorChainSolanaSimulationFailed = \<lparr>Code = 3305, Name = ''CHAIN_SOLANA_SIMULATION_FAILED'', Category = CategoryExternal,
     SubCategory = SubCategoryNone, Retryable = False, MayHaveReachedNode = False\<rparr>"

definition LavaErrorChainSolanaSignatureVerifyFailed :: LavaError where
  "LavaErrorChainSolanaSignatureVerifyFailed = \<lparr>Code = 3306, Name = ''CHAIN_SOLANA_SIGNATURE_VERIFY_FAILED'', Category = CategoryExternal,
     SubCategory = SubCategoryNone, Retryable = False, MayHaveReachedNode = False\<rparr>"

definition LavaErrorChainSolanaExcludedFromIndex :: LavaError where
  "LavaErrorChainSolanaExcludedFromIndex = \<lparr>Code = 3307, Name = ''CHAIN_SOLANA_EXCLUDED_FROM_INDEX'', Category = CategoryExternal,
     SubCategory = SubCategoryNone, Retryable = False, MayHaveReachedNode = False\<rparr>"

definition LavaErrorChainSolanaSignatureLengthMismatch :: LavaError where
  "LavaErrorChainSolanaSignatureLengthMismatch = \<lparr>Code = 3308, Name = ''CHAIN_SOLANA_SIGNATURE_LENGTH_MISMATCH'', Category = CategoryExternal,
     SubCategory = SubCategoryNone, Retryable = False, MayHaveReachedNode = False\<rparr>"

definition LavaErrorChainSolanaBlockStatusUnavailable :: LavaError where
  "LavaErrorChainSolanaBlockStatusUnavailable = \<lparr>Code = 3309, Name = ''CHAIN_SOLANA_BLOCK_STATUS_UNAVAILABLE'', Category = CategoryExternal,
     SubCategory = SubCategoryDataScope, Retryable = True, MayHaveReachedNode = False\<rparr>"

definition LavaErrorChainSolanaTxVersionUnsupported :: LavaError where
  "LavaErrorChainSolanaTxVersionUnsupported = \<lparr>Code = 3310, Name = ''CHAIN_SOLANA_TX_VERSION_UNSUPPORTED'', Category = CategoryExternal,
     SubCategory = SubCategoryNone, Retryable = False, MayHaveReachedNode = False\<rparr>"

definition LavaErrorChainSolanaMinContextSlotNotReached :: LavaError where
  "LavaErrorChainSolanaMinContextSlotNotReached = \<lparr>Code = 3311, Name = ''CHAIN_SOLANA_MIN_CONTEXT_SLOT_NOT_REACHED'', Category = CategoryExternal,
     SubCategory = SubCategoryDataScope, Retryable = True, MayHaveReachedNode = False\<rparr>"

definition LavaErrorChainStarknetFailedToReceiveTx :: LavaError where
  "LavaErrorChainStarknetFailedToReceiveTx = \<lparr>Code = 3320, Name = ''CHAIN_STARKNET_FAILED_TO_RECEIVE_TX'', Category = CategoryExternal,
     SubCategory = SubCategoryNone, Retryable = False, MayHaveReachedNode = False\<rparr>"

definition LavaErrorChainStarknetClassNotFound :: LavaError where
  "LavaErrorChainStarknetClassNotFound = \<lparr>Code = 3321, Name = ''CHAIN_STARKNET_CLASS_NOT_FOUND'', Category = CategoryExternal,
     SubCategory = SubCategoryNone, Retryable = False, MayHaveReachedNode = False\<rparr>"

definition LavaErrorChainStarknetCompilationFailed :: LavaError where
  "LavaErrorChainStarknetCompilationFailed = \<lparr>Code = 3322, Name = ''CHAIN_STARKNET_COMPILATION_FAILED'', Category = CategoryExternal,
     SubCategory = SubCategoryNone, Retryable = False, MayHaveReachedNode = False\<rparr>"

definition LavaErrorChainStarknetClassAlreadyDeclared :: LavaError where
  "LavaErrorChainStarknetClassAlreadyDeclared = \<lparr>Code = 3323, Name = ''CHAIN_STARKNET_CLASS_ALREADY_DECLARED'', Category = CategoryExternal,
     SubCategory = SubCategoryNone, Retryable = False, MayHaveReachedNode = False\<rparr>"

definition LavaErrorChainStarknetContractError :: LavaError where
  "LavaErrorChainStarknetContractError = \<lparr>Code = 3324, Name = ''CHAIN_STARKNET_CONTRACT_ERROR'', Category = CategoryExternal,
     SubCategory = SubCategoryNone, Retryable = False, MayHaveReachedNode = False\<rparr>"

definition LavaErrorChainStarknetTxExecError :: LavaError where
  "LavaErrorChainStarknetTxExecError = \<lparr>Code = 3325, Name = ''CHAIN_STARKNET_TX_EXEC_ERROR'', Category = CategoryExternal,
     SubCategory = SubCategoryNone, Retryable = False, MayHaveReachedNode = False\<rparr>"

definition LavaErrorChainStarknetInvalidNonce :: LavaError where
  "LavaErrorChainStarknetInvalidNonce = \<lparr>Code = 3326, Name = ''CHAIN_STARKNET_INVALID_NONCE'', Category = CategoryExternal,
     SubCategory = SubCategoryNone, Retryable = False, MayHaveReachedNode = False\<rparr>"

definition LavaErrorChainStarknetInsufficientFee :: LavaError where
  "LavaErrorChainStarknetInsufficientFee = \<lparr>Code = 3327, Name = ''CHAIN_STARKNET_INSUFFICIENT_FEE'', Category = CategoryExternal,
     SubCategory = SubCategoryNone, Retryable = False, MayHaveReachedNode = False\<rparr>"

definition LavaErrorChainStarknetInsufficientBalance :: LavaError where
  "LavaErrorChainStarknetInsufficientBalance = \<lparr>Code = 3328, Name = ''CHAIN_STARKNET_INSUFFICIENT_BALANCE'', Category = CategoryExternal,
     SubCategory = SubCategoryNone, Retryable = False, MayHaveReachedNode = False\<rparr>"

definition LavaErrorChainStarknetValidationFailure :: LavaError where
  "LavaErrorChainStarknetValidationFailure = \<lparr>Code = 3329, Name = ''CHAIN_STARKNET_VALIDATION_FAILURE'', Category = CategoryExternal,
     SubCategory = SubCategoryNone, Retryable = False, MayHaveReachedNode = False\<rparr>"

definition LavaErrorChainStarknetContractNotFound :: LavaError where
  "LavaErrorChainStarknetContractNotFound = \<lparr>Code = 3330, Name = ''CHAIN_STARKNET_CONTRACT_NOT_FOUND'', Category = CategoryExternal,
     SubCategory = SubCategoryNone, Retryable = False, MayHaveReachedNode = False\<rparr>"

definition LavaErrorChainStarknetBlockNotFound :: LavaError where
  "LavaErrorChainStarknetBlockNotFound = \<lparr>Code = 3331, Name = ''CHAIN_STARKNET_BLOCK_NOT_FOUND'', Category = CategoryExternal,
     SubCategory = SubCategoryDataScope, Retryable = True, MayHaveReachedNode = False\<rparr>"

definition LavaErrorChainStarknetTxHashNotFound :: LavaError where
  "LavaErrorChainStarknetTxHashNotFound = \<lparr>Code = 3332, Name = ''CHAIN_STARKNET_TX_HASH_NOT_FOUND'', Category = CategoryExternal,
     SubCategory = SubCategoryDataScope, Retryable = True, MayHaveReachedNode = False\<rparr>"

definition LavaErrorChainStarknetDuplicateTx :: LavaError where
  "LavaErrorChainStarknetDuplicateTx = \<lparr>Code = 3333, Name = ''CHAIN_STARKNET_DUPLICATE_TX'', Category = CategoryExternal,
     SubCategory = SubCategoryNone, Retryable = False, MayHaveReachedNode = False\<rparr>"

definition LavaErrorChainStarknetTxVersionUnsupported :: LavaError where
  "LavaErrorChainStarknetTxVersionUnsupported = \<lparr>Code = 3334, Name = ''CHAIN_STARKNET_TX_VERSION_UNSUPPORTED'', Category = CategoryExternal,
     SubCategory = SubCategoryNone, Retryable = False, MayHaveReachedNode = False\<rparr>"

definition LavaErrorChainStarknetUnexpectedError :: LavaError where
  "LavaErrorChainStarknetUnexpectedError = \<lparr>Code = 3335, Name = ''CHAIN_STARKNET_UNEXPECTED_ERROR'', Category = CategoryExternal,
     SubCategory = SubCategoryNone, Retryable = True, MayHaveReachedNode = False\<rparr>"

definition LavaErrorChainBitcoinVerifyError :: LavaError where
  "LavaErrorChainBitcoinVerifyError = \<lparr>Code = 3341, Name = ''CHAIN_BITCOIN_VERIFY_ERROR'', Category = CategoryExternal,
     SubCategory = SubCategoryNone, Retryable = False, MayHaveReachedNode = False\<rparr>"

definition LavaErrorChainBitcoinVerifyRejected :: LavaError where
  "LavaErrorChainBitcoinVerifyRejected = \<lparr>Code = 3342, Name = ''CHAIN_BITCOIN_VERIFY_REJECTED'', Category = CategoryExternal,
     SubCategory = SubCategoryNone, Retryable = False, MayHaveReachedNode = False\<rparr>"

definition LavaErrorChainBitcoinAlreadyInChain :: LavaError where
  "LavaErrorChainBitcoinAlreadyInChain = \<lparr>Code = 3343, Name = ''CHAIN_BITCOIN_ALREADY_IN_CHAIN'', Category = CategoryExternal,
     SubCategory = SubCategoryNone, Retryable = False, MayHaveReachedNode = False\<rparr>"

definition LavaErrorChainBitcoinWalletInsufficientFunds :: LavaError where
  "LavaErrorChainBitcoinWalletInsufficientFunds = \<lparr>Code = 3344, Name = ''CHAIN_BITCOIN_WALLET_INSUFFICIENT_FUNDS'', Category = CategoryExternal,
     SubCategory = SubCategoryNone, Retryable = False, MayHaveReachedNode = False\<rparr>"

definition LavaErrorChainNEARUnknownBlock :: LavaError where
  "LavaErrorChainNEARUnknownBlock = \<lparr>Code = 3360, Name = ''CHAIN_NEAR_UNKNOWN_BLOCK'', Category = CategoryExternal,
     SubCategory = SubCategoryDataScope, Retryable = True, MayHaveReachedNode = False\<rparr>"

definition LavaErrorChainNEARUnknownChunk :: LavaError where
  "LavaErrorChainNEARUnknownChunk = \<lparr>Code = 3361, Name = ''CHAIN_NEAR_UNKNOWN_CHUNK'', Category = CategoryExternal,
     SubCategory = SubCategoryDataScope, Retryable = True, MayHaveReachedNode = False\<rparr>"

definition LavaErrorChainNEARInvalidShardID :: LavaError where
  "LavaErrorChainNEARInvalidShardID = \<lparr>Code = 3362, Name = ''CHAIN_NEAR_INVALID_SHARD_ID'', Category = CategoryExternal,
     SubCategory = SubCategoryNone, Retryable = False, MayHaveReachedNode = False\<rparr>"

definition LavaErrorChainNEARNotSyncedYet :: LavaError where
  "LavaErrorChainNEARNotSyncedYet = \<lparr>Code = 3363, Name = ''CHAIN_NEAR_NOT_SYNCED_YET'', Category = CategoryExternal,
     SubCategory = SubCategoryNone, Retryable = True, MayHaveReachedNode = False\<rparr>"

definition LavaErrorUserParseError :: LavaError where
  "LavaErrorUserParseError = \<lparr>Code = 4001, Name = ''USER_PARSE_ERROR'', Category = CategoryExternal,
     SubCategory = SubCategoryNone, Retryable = False, MayHaveReachedNode = False\<rparr>"

definition LavaErrorUserInvalidRequest :: LavaError where
  "LavaErrorUserInvalidRequest = \<lparr>Code = 4002, Name = ''USER_INVALID_REQUEST'', Category = CategoryExternal,
     SubCategory = SubCategoryNone, Retryable = False, MayHaveReachedNode = False\<rparr>"

definition LavaErrorUserInvalidParams :: LavaError where
  "LavaErrorUserInvalidParams = \<lparr>Code = 4003, Name = ''USER_INVALID_PARAMS'', Category = CategoryExternal,
     SubCategory = SubCategoryNone, Retryable = False, MayHaveReachedNode = False\<rparr>"

definition LavaErrorUserInvalidBlockFormat :: LavaError where
  "LavaErrorUserInvalidBlockFormat = \<lparr>Code = 4004, Name = ''USER_INVALID_BLOCK_FORMAT'', Category = CategoryExternal,
     SubCategory = SubCategoryNone, Retryable = False, MayHaveReachedNode = False\<rparr>"

definition LavaErrorUserInvalidAddress :: LavaError where
  "LavaErrorUserInvalidAddress = \<lparr>Code = 4005, Name = ''USER_INVALID_ADDRESS'', Category = CategoryExternal,
     SubCategory = SubCategoryNone, Retryable = False, MayHaveReachedNode = False\<rparr>"

definition LavaErrorUserRequestTooLarge :: LavaError where
  "LavaErrorUserRequestTooLarge = \<lparr>Code = 4006, Name = ''USER_REQUEST_TOO_LARGE'', Category = CategoryExternal,
     SubCategory = SubCategoryNone, Retryable = False, MayHaveReachedNode = False\<rparr>"

definition LavaErrorUserInvalidHex :: LavaError where
  "LavaErrorUserInvalidHex = \<lparr>Code = 4007, Name = ''USER_INVALID_HEX'', Category = CategoryExternal,
     SubCategory = SubCategoryNone, Retryable = False, MayHaveReachedNode = False\<rparr>"

definition all_codes :: "LavaError list" where
  "all_codes = [
     LavaErrorConnectionTimeout, LavaErrorConnectionRefused, LavaErrorDNSFailure,
     LavaErrorTLSMismatch, LavaErrorConnectionReset, LavaErrorConnectionClosed,
     LavaErrorNetworkUnreachable, LavaErrorContextDeadline, LavaErrorContextCanceled,
     LavaErrorNoProviders, LavaErrorAllEndpointsDisabled, LavaErrorProviderUnavailable,
     LavaErrorProviderAborted, LavaErrorProviderDataLoss, LavaErrorInsufficientProviders,
     LavaErrorRateLimited, LavaErrorMaxCUExceeded, LavaErrorBatchSizeExceeded, LavaErrorCUMismatch,
     LavaErrorSessionNotFound, LavaErrorEpochMismatch, LavaErrorConsumerBlocked,
     LavaErrorConsumerNotRegistered, LavaErrorRelayNumberMismatch, LavaErrorSessionOutOfSync,
     LavaErrorInvalidRelayRequest, LavaErrorRequestBlockMismatch, LavaErrorSessionAccountingFailed,
     LavaErrorSubscriptionCleanupFailed, LavaErrorFinalizationError, LavaErrorConsistencyError,
     LavaErrorHashConsensusError, LavaErrorNoResponseTimeout, LavaErrorRelayProcessingFailed,
     LavaErrorSubscriptionNotFound, LavaErrorSubscriptionInitFailed, LavaErrorWebSocketIdleTimeout,
     LavaErrorSubscriptionAlreadyExists, LavaErrorNodeMethodNotFound,
     LavaErrorNodeMethodNotSupported, LavaErrorNodeInternalError, LavaErrorNodeServerError,
     LavaErrorNodeRateLimited, LavaErrorNodeServiceUnavailable, LavaErrorNodeSyncing,
     LavaErrorNodeUnimplemented, LavaErrorNodeEndpointNotFound, LavaErrorNodeMethodNotAllowed,
     LavaErrorNodeLimitExceeded, LavaErrorNodeResourceNotFound, LavaErrorNodeResourceUnavailable,
     LavaErrorNodeGatewayTimeout, LavaErrorNodeBadGateway, LavaErrorNodeUnauthorized,
     LavaErrorNodeAccessDenied, LavaErrorNodeDataNotHeld, LavaErrorNodeAborted,
     LavaErrorNodeBitcoinWarmup, LavaErrorNodeBitcoinInitialDownload,
     LavaErrorNodeBitcoinNotConnected, LavaErrorNodeSolanaUnhealthy, LavaErrorChainNonceTooLow,
     LavaErrorChainNonceTooHigh, LavaErrorChainInsufficientFunds, LavaErrorChainGasTooLow,
     LavaErrorChainGasLimitExceeded, LavaErrorChainTxUnderpriced, LavaErrorChainTxAlreadyKnown,
     LavaErrorChainTxReplacementUnderpriced, LavaErrorChainMempoolFull, LavaErrorChainTxTooLarge,
     LavaErrorChainMaxFeeBelowBase, LavaErrorChainInvalidSequence, LavaErrorChainInsufficientFee,
     LavaErrorChainTxRejected, LavaErrorChainDoubleSpend, LavaErrorChainInvalidSignature,
     LavaErrorChainExecutionReverted, LavaErrorChainOutOfGas, LavaErrorChainStackOverflow,
     LavaErrorChainInvalidOpcode, LavaErrorChainWriteProtection,
     LavaErrorChainContractSizeExceeded, LavaErrorChainAccountNotFound,
     LavaErrorChainZkEVMOutOfCounters, LavaErrorChainBlockNotFound, LavaErrorChainTxNotFound,
     LavaErrorChainReceiptNotFound, LavaErrorChainStatePruned, LavaErrorChainDataNotAvailable,
     LavaErrorChainBlockTooOld, LavaErrorChainLogResponseTooLarge,
     LavaErrorChainSolanaMissingLongTerm, LavaErrorChainSolanaLedgerJump,
     LavaErrorChainSolanaBlockhashNotFound, LavaErrorChainSolanaSimulationFailed,
     LavaErrorChainSolanaSignatureVerifyFailed, LavaErrorChainSolanaExcludedFromIndex,
     LavaErrorChainSolanaSignatureLengthMismatch, LavaErrorChainSolanaBlockStatusUnavailable,
     LavaErrorChainSolanaTxVersionUnsupported, LavaErrorChainSolanaMinContextSlotNotReached,
     LavaErrorChainStarknetFailedToReceiveTx, LavaErrorChainStarknetClassNotFound,
     LavaErrorChainStarknetCompilationFailed, LavaErrorChainStarknetClassAlreadyDeclared,
     LavaErrorChainStarknetContractError, LavaErrorChainStarknetTxExecError,
     LavaErrorChainStarknetInvalidNonce, LavaErrorChainStarknetInsufficientFee,
     LavaErrorChainStarknetInsufficientBalance, LavaErrorChainStarknetValidationFailure,
     LavaErrorChainStarknetContractNotFound, LavaErrorChainStarknetBlockNotFound,
     LavaErrorChainStarknetTxHashNotFound, LavaErrorChainStarknetDuplicateTx,
     LavaErrorChainStarknetTxVersionUnsupported, LavaErrorChainStarknetUnexpectedError,
     LavaErrorChainBitcoinVerifyError, LavaErrorChainBitcoinVerifyRejected,
     LavaErrorChainBitcoinAlreadyInChain, LavaErrorChainBitcoinWalletInsufficientFunds,
     LavaErrorChainNEARUnknownBlock, LavaErrorChainNEARUnknownChunk,
     LavaErrorChainNEARInvalidShardID, LavaErrorChainNEARNotSyncedYet, LavaErrorUserParseError,
     LavaErrorUserInvalidRequest, LavaErrorUserInvalidParams, LavaErrorUserInvalidBlockFormat,
     LavaErrorUserInvalidAddress, LavaErrorUserRequestTooLarge, LavaErrorUserInvalidHex]"

lemmas code_defs =
  LavaErrorConnectionTimeout_def LavaErrorConnectionRefused_def LavaErrorDNSFailure_def
  LavaErrorTLSMismatch_def LavaErrorConnectionReset_def LavaErrorConnectionClosed_def
  LavaErrorNetworkUnreachable_def LavaErrorContextDeadline_def LavaErrorContextCanceled_def
  LavaErrorNoProviders_def LavaErrorAllEndpointsDisabled_def LavaErrorProviderUnavailable_def
  LavaErrorProviderAborted_def LavaErrorProviderDataLoss_def LavaErrorInsufficientProviders_def
  LavaErrorRateLimited_def LavaErrorMaxCUExceeded_def LavaErrorBatchSizeExceeded_def
  LavaErrorCUMismatch_def LavaErrorSessionNotFound_def LavaErrorEpochMismatch_def
  LavaErrorConsumerBlocked_def LavaErrorConsumerNotRegistered_def LavaErrorRelayNumberMismatch_def
  LavaErrorSessionOutOfSync_def LavaErrorInvalidRelayRequest_def LavaErrorRequestBlockMismatch_def
  LavaErrorSessionAccountingFailed_def LavaErrorSubscriptionCleanupFailed_def
  LavaErrorFinalizationError_def LavaErrorConsistencyError_def LavaErrorHashConsensusError_def
  LavaErrorNoResponseTimeout_def LavaErrorRelayProcessingFailed_def
  LavaErrorSubscriptionNotFound_def LavaErrorSubscriptionInitFailed_def
  LavaErrorWebSocketIdleTimeout_def LavaErrorSubscriptionAlreadyExists_def
  LavaErrorNodeMethodNotFound_def LavaErrorNodeMethodNotSupported_def
  LavaErrorNodeInternalError_def LavaErrorNodeServerError_def LavaErrorNodeRateLimited_def
  LavaErrorNodeServiceUnavailable_def LavaErrorNodeSyncing_def LavaErrorNodeUnimplemented_def
  LavaErrorNodeEndpointNotFound_def LavaErrorNodeMethodNotAllowed_def
  LavaErrorNodeLimitExceeded_def LavaErrorNodeResourceNotFound_def
  LavaErrorNodeResourceUnavailable_def LavaErrorNodeGatewayTimeout_def LavaErrorNodeBadGateway_def
  LavaErrorNodeUnauthorized_def LavaErrorNodeAccessDenied_def LavaErrorNodeDataNotHeld_def
  LavaErrorNodeAborted_def LavaErrorNodeBitcoinWarmup_def LavaErrorNodeBitcoinInitialDownload_def
  LavaErrorNodeBitcoinNotConnected_def LavaErrorNodeSolanaUnhealthy_def
  LavaErrorChainNonceTooLow_def LavaErrorChainNonceTooHigh_def LavaErrorChainInsufficientFunds_def
  LavaErrorChainGasTooLow_def LavaErrorChainGasLimitExceeded_def LavaErrorChainTxUnderpriced_def
  LavaErrorChainTxAlreadyKnown_def LavaErrorChainTxReplacementUnderpriced_def
  LavaErrorChainMempoolFull_def LavaErrorChainTxTooLarge_def LavaErrorChainMaxFeeBelowBase_def
  LavaErrorChainInvalidSequence_def LavaErrorChainInsufficientFee_def LavaErrorChainTxRejected_def
  LavaErrorChainDoubleSpend_def LavaErrorChainInvalidSignature_def
  LavaErrorChainExecutionReverted_def LavaErrorChainOutOfGas_def LavaErrorChainStackOverflow_def
  LavaErrorChainInvalidOpcode_def LavaErrorChainWriteProtection_def
  LavaErrorChainContractSizeExceeded_def LavaErrorChainAccountNotFound_def
  LavaErrorChainZkEVMOutOfCounters_def LavaErrorChainBlockNotFound_def LavaErrorChainTxNotFound_def
  LavaErrorChainReceiptNotFound_def LavaErrorChainStatePruned_def
  LavaErrorChainDataNotAvailable_def LavaErrorChainBlockTooOld_def
  LavaErrorChainLogResponseTooLarge_def LavaErrorChainSolanaMissingLongTerm_def
  LavaErrorChainSolanaLedgerJump_def LavaErrorChainSolanaBlockhashNotFound_def
  LavaErrorChainSolanaSimulationFailed_def LavaErrorChainSolanaSignatureVerifyFailed_def
  LavaErrorChainSolanaExcludedFromIndex_def LavaErrorChainSolanaSignatureLengthMismatch_def
  LavaErrorChainSolanaBlockStatusUnavailable_def LavaErrorChainSolanaTxVersionUnsupported_def
  LavaErrorChainSolanaMinContextSlotNotReached_def LavaErrorChainStarknetFailedToReceiveTx_def
  LavaErrorChainStarknetClassNotFound_def LavaErrorChainStarknetCompilationFailed_def
  LavaErrorChainStarknetClassAlreadyDeclared_def LavaErrorChainStarknetContractError_def
  LavaErrorChainStarknetTxExecError_def LavaErrorChainStarknetInvalidNonce_def
  LavaErrorChainStarknetInsufficientFee_def LavaErrorChainStarknetInsufficientBalance_def
  LavaErrorChainStarknetValidationFailure_def LavaErrorChainStarknetContractNotFound_def
  LavaErrorChainStarknetBlockNotFound_def LavaErrorChainStarknetTxHashNotFound_def
  LavaErrorChainStarknetDuplicateTx_def LavaErrorChainStarknetTxVersionUnsupported_def
  LavaErrorChainStarknetUnexpectedError_def LavaErrorChainBitcoinVerifyError_def
  LavaErrorChainBitcoinVerifyRejected_def LavaErrorChainBitcoinAlreadyInChain_def
  LavaErrorChainBitcoinWalletInsufficientFunds_def LavaErrorChainNEARUnknownBlock_def
  LavaErrorChainNEARUnknownChunk_def LavaErrorChainNEARInvalidShardID_def
  LavaErrorChainNEARNotSyncedYet_def LavaErrorUserParseError_def LavaErrorUserInvalidRequest_def
  LavaErrorUserInvalidParams_def LavaErrorUserInvalidBlockFormat_def
  LavaErrorUserInvalidAddress_def LavaErrorUserRequestTooLarge_def LavaErrorUserInvalidHex_def
section \<open>The registry\<close>

text \<open>The layers of the code ranges: internal below 2000, external from there on.\<close>

definition in_layer :: "LavaError \<Rightarrow> bool" where
  "in_layer le \<longleftrightarrow> (1000 \<le> Code le \<and> Code le < 5000) \<and> (Category le = CategoryInternal \<longleftrightarrow> Code le < 2000)"

text \<open>A checksum that happens to tell all names apart: comparing numbers is cheaper than comparing
  strings.\<close>

definition name_sum :: "string \<Rightarrow> int" where
  "name_sum s = foldl (\<lambda>h c. (h * 31 + of_char c) mod 1000003) 0 s"

lemma all_codes_distinct: "distinct (map Code all_codes)"
  by code_simp

lemma all_names_distinct: "distinct (map name_sum (map Name all_codes))"
  by code_simp

lemma all_codes_fresh: "list_all (\<lambda>le. Code le \<noteq> 0 \<and> name_sum (Name le) \<noteq> name_sum ''UNKNOWN_ERROR'') all_codes"
  by code_simp

lemma all_codes_register: "registerAll all_codes initial_registry \<noteq> None"
proof (rule registerAll_succeeds)
  show "distinct (map Code all_codes)" by (rule all_codes_distinct)
  show "distinct (map Name all_codes)" using all_names_distinct distinct_map [of name_sum "map Name all_codes"] by blast
  show "0 \<notin> Code ` set all_codes" using all_codes_fresh by (auto simp: list_all_iff)
  show "mget (errorRegistry initial_registry) (Code le) = None" if "le \<in> set all_codes" for le
    using that all_codes_fresh by (auto simp: list_all_iff initial_registry_def LavaErrorUnknown_def)
  show "mget (errorRegistryName initial_registry) (Name le) = None" if "le \<in> set all_codes" for le
    using that all_codes_fresh by (auto simp: list_all_iff initial_registry_def LavaErrorUnknown_def)
qed

lemma all_codes_layered: "list_all in_layer all_codes"
  by code_simp

lemma no_unsupported_code: "list_all (\<lambda>le. \<not> IsUnsupportedMethod (SubCategory le)) all_codes"
  by code_simp

text \<open>Package initialisation never panics over the codes: all 133 register, each is found again
  under its code and under its name, no code is 0, the internal ones are exactly those below
  2000, and none carries the unsupported-method subcategory, whose hard stop is therefore never
  reached through a registered code.\<close>

theorem codes_register_without_panic:
  "\<exists>r. registerAll all_codes initial_registry = Some r
     \<and> list_all (\<lambda>le. mget (errorRegistry r) (Code le) = Some le \<and> mget (errorRegistryName r) (Name le) = Some le
          \<and> in_layer le \<and> \<not> IsUnsupportedMethod (SubCategory le)) all_codes"
proof -
  obtain r where r: "registerAll all_codes initial_registry = Some r" using all_codes_register by auto
  have "mget (errorRegistry r) (Code le) = Some le \<and> mget (errorRegistryName r) (Name le) = Some le"
    if "le \<in> set all_codes" for le
  proof -
    have "map_of (map (\<lambda>le. (Code le, le)) all_codes) (Code le) = Some le"
      and "map_of (map (\<lambda>le. (Name le, le)) all_codes) (Name le) = Some le"
      using registerAll_distinct [OF r] that by (auto intro!: map_of_is_SomeI simp: comp_def)
    then show ?thesis using registerAll_lookup [OF r] by simp
  qed
  with r all_codes_layered no_unsupported_code show ?thesis by (auto simp: list_all_iff)
qed

end
