(* ===== verification/ErrorClassifier.thy ===== *)
theory ErrorClassifier
  imports ErrorCodes
begin

text \<open>
  The error classifier (\<open>src/protocol/common/error_classifier.go\<close>, \<open>error_xrpl.go\<close>, the chain-family
  map of \<open>error_registry.go\<close> and \<open>checkXRPLSubmitResult\<close> of \<open>xrplEngineResult.go\<close>): the chain-specific
  tables, the tables per transport, the shared HTTP status rows, \<open>ClassifyError\<close> with its
  pre-lowered fast path, the verdict flags derived from it, and the detection of connection
  faults. The tables are in the order of the source, which is the order of evaluation.
\<close>

section \<open>Chain families\<close>

definition chainFamilyMap :: "(string \<times> ChainFamily) list" where
  "chainFamilyMap = [
      (''ETH1'', ChainFamilyEVM), (''SEP1'', ChainFamilyEVM), (''HOL1'', ChainFamilyEVM),
      (''ARBITRUM'', ChainFamilyEVM), (''ARBITRUMN'', ChainFamilyEVM), (''ARBITRUMS'', ChainFamilyEVM),
      (''POLYGON'', ChainFamilyEVM), (''POLYGONA'', ChainFamilyEVM), (''BASE'', ChainFamilyEVM),
      (''BASES'', ChainFamilyEVM), (''OPTM'', ChainFamilyEVM), (''OPTMS'', ChainFamilyEVM),
      (''AVAX'', ChainFamilyEVM), (''AVAXT'', ChainFamilyEVM), (''AVAXC'', ChainFamilyEVM),
      (''AVAXCT'', ChainFamilyEVM), (''AVAXP'', ChainFamilyEVM), (''AVAXPT'', ChainFamilyEVM),
      (''BSC'', ChainFamilyEVM), (''BSCT'', ChainFamilyEVM), (''BLAST'', ChainFamilyEVM),
      (''BLASTSP'', ChainFamilyEVM), (''FTM250'', ChainFamilyEVM), (''FTM4002'', ChainFamilyEVM),
      (''SONIC'', ChainFamilyEVM), (''SONICT'', ChainFamilyEVM), (''CELO'', ChainFamilyEVM),
      (''ALFAJORES'', ChainFamilyEVM), (''FUSE'', ChainFamilyEVM), (''FVM'', ChainFamilyEVM),
      (''FVMT'', ChainFamilyEVM), (''HEDERA'', ChainFamilyEVM), (''HEDERAT'', ChainFamilyEVM),
      (''HYPERLIQUID'', ChainFamilyEVM), (''HYPERLIQUIDT'', ChainFamilyEVM),
      (''WORLDCHAIN'', ChainFamilyEVM), (''WORLDCHAINS'', ChainFamilyEVM), (''AGR'', ChainFamilyEVM),
      (''AGRT'', ChainFamilyEVM), (''BERA'', ChainFamilyEVM), (''BERAT'', ChainFamilyEVM),
      (''BERAT2'', ChainFamilyEVM), (''CANTO'', ChainFamilyEVM), (''KAKAROTT'', ChainFamilyEVM),
      (''SPARK'', ChainFamilyEVM), (''ETHBEACON'', ChainFamilyEVM), (''MOVEMENT'', ChainFamilyEVM),
      (''MOVEMENTT'', ChainFamilyEVM), (''SOLANA'', ChainFamilySolana),
      (''SOLANAT'', ChainFamilySolana), (''BTC'', ChainFamilyBitcoin), (''BTCT'', ChainFamilyBitcoin),
      (''LTC'', ChainFamilyBitcoin), (''LTCT'', ChainFamilyBitcoin), (''DOGE'', ChainFamilyBitcoin),
      (''DOGET'', ChainFamilyBitcoin), (''BCH'', ChainFamilyBitcoin), (''BCHT'', ChainFamilyBitcoin),
      (''COSMOSHUB'', ChainFamilyCosmosSDK), (''COSMOSHUBT'', ChainFamilyCosmosSDK),
      (''LAVA'', ChainFamilyCosmosSDK), (''LAV1'', ChainFamilyCosmosSDK),
      (''AXELAR'', ChainFamilyCosmosSDK), (''AXELART'', ChainFamilyCosmosSDK),
      (''EVMOS'', ChainFamilyCosmosSDK), (''EVMOST'', ChainFamilyCosmosSDK),
      (''OSMOSIS'', ChainFamilyCosmosSDK), (''OSMOSIST'', ChainFamilyCosmosSDK),
      (''JUN1'', ChainFamilyCosmosSDK), (''JUNT1'', ChainFamilyCosmosSDK),
      (''CELESTIA'', ChainFamilyCosmosSDK), (''CELESTIATA'', ChainFamilyCosmosSDK),
      (''CELESTIATM'', ChainFamilyCosmosSDK), (''STRGZ'', ChainFamilyCosmosSDK),
      (''STRGZT'', ChainFamilyCosmosSDK), (''SECRET'', ChainFamilyCosmosSDK),
      (''SECRETP'', ChainFamilyCosmosSDK), (''IBC'', ChainFamilyCosmosSDK),
      (''COSMOSSDK'', ChainFamilyCosmosSDK), (''COSMOSSDK50'', ChainFamilyCosmosSDK),
      (''COSMOSSDK45DEP'', ChainFamilyCosmosSDK), (''COSMOSSDKFULL'', ChainFamilyCosmosSDK),
      (''COSMOSWASM'', ChainFamilyCosmosSDK), (''ETHERMINT'', ChainFamilyCosmosSDK),
      (''TENDERMINT'', ChainFamilyCosmosSDK), (''UNIONT'', ChainFamilyCosmosSDK),
      (''STRK'', ChainFamilyStarknet), (''STRKS'', ChainFamilyStarknet), (''APT1'', ChainFamilyAptos),
      (''SUI'', ChainFamilySui), (''SUIT'', ChainFamilySui), (''SUID'', ChainFamilySui),
      (''NEAR'', ChainFamilyNEAR), (''NEART'', ChainFamilyNEAR), (''XRP'', ChainFamilyXRP),
      (''XRPT'', ChainFamilyXRP), (''XLM'', ChainFamilyStellar), (''XLMT'', ChainFamilyStellar),
      (''TON'', ChainFamilyTON), (''TONT'', ChainFamilyTON), (''TRX'', ChainFamilyTron),
      (''TRXT'', ChainFamilyTron), (''CARDANO'', ChainFamilyCardano),
      (''CARDANOT'', ChainFamilyCardano), (''KOII'', ChainFamilySolana), (''KOIIT'', ChainFamilySolana)]"

definition GetChainFamily :: "string \<Rightarrow> ChainFamily option" where
  "GetChainFamily chainID = map_of chainFamilyMap chainID"

definition GetChainFamilyOrDefault :: "string \<Rightarrow> ChainFamily" where
  "GetChainFamilyOrDefault chainID =
     (case map_of chainFamilyMap chainID of Some family \<Rightarrow> family | None \<Rightarrow> ChainFamilyUnknown)"

section \<open>XRP Ledger verdicts\<close>

text \<open>\<open>te[fmlr][A-Z][A-Z0-9_]*\<close>\<close>

definition upper :: regex where
  "upper = Cls (in_range 65 90)"

definition xrplRejectionCode :: regex where
  "xrplRejectionCode = seqs [lit ''te'', one_of ''fmlr'', upper,
     Star (Cls (\<lambda>c. in_range 65 90 c \<or> in_range 48 57 c \<or> c = CHR ''_''))]"

definition xrplRejectionCodeExact :: regex where
  "xrplRejectionCodeExact = seqs [BeginText, xrplRejectionCode, EndText]"

definition IsXRPLRejection :: "string \<Rightarrow> bool" where
  "IsXRPLRejection engineResult \<longleftrightarrow> engineResult \<noteq> ''terQUEUED'' \<and> MatchString xrplRejectionCodeExact engineResult"

definition xrplAPIErrors :: "(string list \<times> LavaError) list" where
  "xrplAPIErrors = [
      ([''noNetwork'', ''noCurrent'', ''noClosed'', ''notSynced'', ''notReady''], LavaErrorNodeSyncing),
      ([''amendmentBlocked''], LavaErrorNodeServiceUnavailable),
      ([''tooBusy'', ''slowDown''], LavaErrorNodeRateLimited),
      ([''internal'', ''internalJson'', ''internalSubmit'', ''internalTransaction''], LavaErrorNodeInternalError),
      ([''invalidParams'', ''invalidTransaction'', ''badSyntax'', ''notSupported'', ''highFee'', ''badSecret''], LavaErrorUserInvalidParams)]"

definition xrplAPIErrorNames :: "string list" where
  "xrplAPIErrorNames = concat (map fst xrplAPIErrors)"

definition IsXRPLAPIError :: "string \<Rightarrow> bool" where
  "IsXRPLAPIError name \<longleftrightarrow> name \<in> set xrplAPIErrorNames"

text \<open>\<open>^(?:HTTP \d+: )?(?:alternatives)\b\<close>\<close>

definition http_prefix :: regex where
  "http_prefix = re_opt (seqs [lit ''HTTP '', re_plus re_digit, lit '': ''])"

definition startsWith :: "regex \<Rightarrow> ErrorMatcher" where
  "startsWith alternatives = MessageRegex (seqs [BeginText, http_prefix, alternatives, WordB])"

definition xrplErrorMappings :: "errorMapping list" where
  "xrplErrorMappings = [
      (startsWith (lit ''tefPAST_SEQ''), LavaErrorChainNonceTooLow),
      (startsWith (lit ''tefALREADY''), LavaErrorChainTxAlreadyKnown),
      (startsWith (lit ''terPRE_SEQ''), LavaErrorChainNonceTooHigh),
      (startsWith xrplRejectionCode, LavaErrorChainTxRejected)] @
     map (\<lambda>(names, lavaError). (startsWith (alts (map lit names)), lavaError)) xrplAPIErrors"

text \<open>\<open>joinXRPLVerdict\<close> and \<open>checkXRPLSubmitResult\<close>: \<open>text\<close> reads a string field of the decoded result,
  the empty string where it is absent, null or not a string. The result is the error message of a
  reply that is an error, nothing for one that is not.\<close>

definition joinXRPLVerdict :: "string \<Rightarrow> string \<Rightarrow> string" where
  "joinXRPLVerdict code detail = (if detail = [] then code else code @ '': '' @ detail)"

definition checkXRPLSubmitResult :: "(string \<Rightarrow> string) \<Rightarrow> string option" where
  "checkXRPLSubmitResult text =
     (if text ''engine_result'' \<noteq> [] then
        if \<not> IsXRPLRejection (text ''engine_result'') then None
        else Some (joinXRPLVerdict (text ''engine_result'') (text ''engine_result_message''))
      else if text ''status'' = ''error'' \<and> IsXRPLAPIError (text ''error'') then
        Some (joinXRPLVerdict (text ''error'')
               (if text ''error_message'' = [] then text ''error_exception'' else text ''error_message''))
      else None)"

section \<open>Chain-specific tables\<close>

definition solanaErrorMappings :: "errorMapping list" where
  "solanaErrorMappings = [
      (CodeEquals (- 32001), LavaErrorChainStatePruned),
      (CodeEquals (- 32002), LavaErrorChainSolanaSimulationFailed),
      (CodeEquals (- 32003), LavaErrorChainSolanaSignatureVerifyFailed),
      (CodeEquals (- 32004), LavaErrorChainBlockNotFound),
      (CodeEquals (- 32005), LavaErrorNodeSolanaUnhealthy),
      (CodeEquals (- 32007), LavaErrorChainSolanaLedgerJump),
      (CodeEquals (- 32009), LavaErrorChainSolanaMissingLongTerm),
      (MessageContains ''missing in long-term storage'', LavaErrorChainSolanaMissingLongTerm),
      (CodeEquals (- 32010), LavaErrorChainSolanaExcludedFromIndex),
      (CodeEquals (- 32013), LavaErrorChainSolanaSignatureLengthMismatch),
      (CodeEquals (- 32014), LavaErrorChainSolanaBlockStatusUnavailable),
      (CodeEquals (- 32015), LavaErrorChainSolanaTxVersionUnsupported),
      (CodeEquals (- 32016), LavaErrorChainSolanaMinContextSlotNotReached),
      (MessageContains ''blockhash not found'', LavaErrorChainSolanaBlockhashNotFound)]"

definition bitcoinErrorMappings :: "errorMapping list" where
  "bitcoinErrorMappings = [
      (CodeEquals (- 28), LavaErrorNodeBitcoinWarmup),
      (CodeEquals (- 10), LavaErrorNodeBitcoinInitialDownload),
      (CodeEquals (- 9), LavaErrorNodeBitcoinNotConnected),
      (CodeEquals (- 25), LavaErrorChainBitcoinVerifyError),
      (CodeEquals (- 26), LavaErrorChainBitcoinVerifyRejected),
      (CodeEquals (- 27), LavaErrorChainBitcoinAlreadyInChain),
      (CodeEquals (- 6), LavaErrorChainBitcoinWalletInsufficientFunds),
      (MessageContains ''already spent'', LavaErrorChainDoubleSpend),
      (MessageContains ''double spend'', LavaErrorChainDoubleSpend),
      (MessageContains ''txn-mempool-conflict'', LavaErrorChainDoubleSpend)]"

definition cosmosErrorMappings :: "errorMapping list" where
  "cosmosErrorMappings = [
      (MessageContains ''account sequence mismatch'', LavaErrorChainInvalidSequence),
      (MessageContains ''insufficient fees'', LavaErrorChainInsufficientFee),
      (MessageContains ''insufficient fee'', LavaErrorChainInsufficientFee),
      (MessageContains ''account not found'', LavaErrorChainAccountNotFound)]"

definition starknetErrorMappings :: "errorMapping list" where
  "starknetErrorMappings = [
      (CodeEquals 1, LavaErrorChainStarknetFailedToReceiveTx),
      (CodeEquals 20, LavaErrorChainStarknetContractNotFound),
      (CodeEquals 24, LavaErrorChainStarknetBlockNotFound),
      (CodeEquals 28, LavaErrorChainStarknetClassNotFound),
      (CodeEquals 29, LavaErrorChainStarknetTxHashNotFound),
      (CodeEquals 40, LavaErrorChainStarknetContractError),
      (CodeEquals 41, LavaErrorChainStarknetTxExecError),
      (CodeEquals 51, LavaErrorChainStarknetClassAlreadyDeclared),
      (CodeEquals 52, LavaErrorChainStarknetInvalidNonce),
      (CodeEquals 53, LavaErrorChainStarknetInsufficientFee),
      (CodeEquals 54, LavaErrorChainStarknetInsufficientBalance),
      (CodeEquals 55, LavaErrorChainStarknetValidationFailure),
      (CodeEquals 56, LavaErrorChainStarknetCompilationFailed),
      (CodeEquals 59, LavaErrorChainStarknetDuplicateTx),
      (CodeEquals 61, LavaErrorChainStarknetTxVersionUnsupported),
      (CodeEquals 63, LavaErrorChainStarknetUnexpectedError)]"

definition nearErrorMappings :: "errorMapping list" where
  "nearErrorMappings = [
      (MessageContains ''UNKNOWN_BLOCK'', LavaErrorChainNEARUnknownBlock),
      (MessageContains ''UNKNOWN_CHUNK'', LavaErrorChainNEARUnknownChunk),
      (MessageContains ''INVALID_SHARD_ID'', LavaErrorChainNEARInvalidShardID),
      (MessageContains ''NOT_SYNCED_YET'', LavaErrorChainNEARNotSyncedYet)]"

definition chainErrorMappings :: "ChainFamily \<Rightarrow> errorMapping list" where
  "chainErrorMappings f = (case f of
      ChainFamilySolana \<Rightarrow> solanaErrorMappings
    | ChainFamilyBitcoin \<Rightarrow> bitcoinErrorMappings
    | ChainFamilyCosmosSDK \<Rightarrow> cosmosErrorMappings
    | ChainFamilyStarknet \<Rightarrow> starknetErrorMappings
    | ChainFamilyNEAR \<Rightarrow> nearErrorMappings
    | ChainFamilyXRP \<Rightarrow> xrplErrorMappings
    | _ \<Rightarrow> [])"

section \<open>Generic tables\<close>

definition jsonRPCErrorMappings :: "errorMapping list" where
  "jsonRPCErrorMappings = [
      (CodeEquals (- 32601), LavaErrorNodeMethodNotFound),
      (CodeEquals (- 32700), LavaErrorUserParseError),
      (CodeAndMessage (- 32600) ''unsupported method'', LavaErrorNodeMethodNotSupported),
      (CodeEquals (- 32600), LavaErrorUserInvalidRequest),
      (CodeEquals (- 32602), LavaErrorUserInvalidParams),
      (CodeEquals (- 32603), LavaErrorNodeInternalError),
      (CodeEquals (- 32001), LavaErrorNodeResourceNotFound),
      (CodeEquals (- 32002), LavaErrorNodeResourceUnavailable),
      (CodeEquals (- 32003), LavaErrorChainTxRejected),
      (CodeEquals (- 32004), LavaErrorNodeMethodNotSupported),
      (CodeEquals (- 32005), LavaErrorNodeLimitExceeded),
      (MessageContains ''method not found'', LavaErrorNodeMethodNotFound),
      (MessageContains ''method not supported'', LavaErrorNodeMethodNotSupported),
      (MessageContains ''unknown method'', LavaErrorNodeMethodNotFound),
      (MessageContains ''method does not exist'', LavaErrorNodeMethodNotFound),
      (MessageRegex
         (seqs [lit_i ''method '', Star re_dot, lit_i '' does not exist'']), LavaErrorNodeMethodNotFound),
      (MessageRegex
         (seqs [WordB, alts [lit_i ''method'', lit_i ''rpc'', lit_i ''endpoint'', lit_i ''api''], WordB,
          Star (none_of '',;.''), WordB, lit_i ''is not available'', WordB]), LavaErrorNodeMethodNotSupported),
      (MessageRegex
         (seqs [lit_i ''invalid method'',
          alts [Seq (Star re_space) EndText, Seq (Star re_space) (one_of [CHR '':'', CHR 0x27, CHR 0x22]),
                seqs [re_plus re_space, lit_i ''name'', WordB]]]), LavaErrorNodeMethodNotFound),
      (MessageRegex
         (Alt (seqs [lit_i ''blocked'', Star (none_of '',''), WordB, alts [lit_i ''method'', lit_i ''rpc''], WordB])
          (seqs [WordB, alts [lit_i ''method'', lit_i ''rpc''], WordB, Star (none_of '',''), WordB, lit_i ''blocked'', WordB])), LavaErrorNodeMethodNotSupported),
      (MessageContains ''hex string without 0x prefix'', LavaErrorUserInvalidBlockFormat),
      (MessageContains ''invalid block number'', LavaErrorUserInvalidBlockFormat),
      (MessageContains ''invalid block hash'', LavaErrorUserInvalidBlockFormat),
      (MessageContains ''bad address checksum'', LavaErrorUserInvalidAddress),
      (MessageContains ''invalid address'', LavaErrorUserInvalidAddress),
      (MessageContains ''hex string has odd length'', LavaErrorUserInvalidHex),
      (MessageContains ''invalid hex'', LavaErrorUserInvalidHex),
      (MessageContains ''rate limit'', LavaErrorNodeRateLimited),
      (MessageContains ''enhance_your_calm'', LavaErrorNodeRateLimited),
      (CodeEquals 429, LavaErrorNodeRateLimited),
      (MessageContains ''too many requests'', LavaErrorNodeRateLimited),
      (MessageContains ''nonce too low'', LavaErrorChainNonceTooLow),
      (MessageContains ''nonce is too low'', LavaErrorChainNonceTooLow),
      (MessageContains ''nonce too high'', LavaErrorChainNonceTooHigh),
      (MessageContains ''nonce is too high'', LavaErrorChainNonceTooHigh),
      (MessageContains ''insufficient funds'', LavaErrorChainInsufficientFunds),
      (MessageContains ''insufficientfunds'', LavaErrorChainInsufficientFunds),
      (MessageContains ''insufficient maxfeeper'', LavaErrorChainInsufficientFunds),
      (MessageContains ''insufficient sender balance'', LavaErrorChainInsufficientFunds),
      (MessageContains ''intrinsic gas too low'', LavaErrorChainGasTooLow),
      (MessageContains ''intrinsicgas'', LavaErrorChainGasTooLow),
      (MessageContains ''gas limit below intrinsic gas'', LavaErrorChainGasTooLow),
      (MessageContains ''exceeds block gas limit'', LavaErrorChainGasLimitExceeded),
      (MessageContains ''replacement transaction underpriced'', LavaErrorChainTxReplacementUnderpriced),
      (MessageContains ''could not replace existing tx'', LavaErrorChainTxReplacementUnderpriced),
      (MessageContains ''transaction underpriced'', LavaErrorChainTxUnderpriced),
      (MessageContains ''underpriced'', LavaErrorChainTxUnderpriced),
      (MessageContains ''fee too low'', LavaErrorChainTxUnderpriced),
      (MessageContains ''already known'', LavaErrorChainTxAlreadyKnown),
      (MessageContains ''alreadyknown'', LavaErrorChainTxAlreadyKnown),
      (MessageRegex
         (seqs [WordB, lit_i ''known transaction'', WordB]), LavaErrorChainTxAlreadyKnown),
      (MessageContains ''txpool is full'', LavaErrorChainMempoolFull),
      (MessageContains ''max fee per gas less than block base fee'', LavaErrorChainMaxFeeBelowBase),
      (MessageContains ''node is syncing'', LavaErrorNodeSyncing),
      (MessageContains ''node is still syncing'', LavaErrorNodeSyncing),
      (MessageContains ''catching up to the chain'', LavaErrorNodeSyncing),
      (MessageContains ''oversized data'', LavaErrorChainTxTooLarge),
      (MessageContains ''transaction size exceeds'', LavaErrorChainTxTooLarge),
      (MessageContains ''tx too large'', LavaErrorChainTxTooLarge),
      (MessageContains ''invalid signature'', LavaErrorChainInvalidSignature),
      (MessageContains ''signature verification failed'', LavaErrorChainInvalidSignature),
      (MessageContains ''execution reverted'', LavaErrorChainExecutionReverted),
      (MessageContains ''out of gas'', LavaErrorChainOutOfGas),
      (MessageContains ''stack limit reached'', LavaErrorChainStackOverflow),
      (MessageContains ''invalid opcode'', LavaErrorChainInvalidOpcode),
      (MessageContains ''write protection'', LavaErrorChainWriteProtection),
      (MessageContains ''max code size exceeded'', LavaErrorChainContractSizeExceeded),
      (MessageContains ''out of counters'', LavaErrorChainZkEVMOutOfCounters),
      (MessageContains ''missing trie node'', LavaErrorChainStatePruned),
      (MessageContains ''historical state'', LavaErrorChainStatePruned),
      (MessageContains ''block not found'', LavaErrorChainBlockNotFound),
      (MessageRegex
         (seqs [lit_i ''block '', re_opt (lit ''#''), re_plus re_word, lit_i '' not found'']), LavaErrorChainBlockNotFound),
      (MessageContains ''transaction not found'', LavaErrorChainTxNotFound),
      (MessageContains ''receipt not found'', LavaErrorChainReceiptNotFound),
      (MessageContains ''response is too big'', LavaErrorChainLogResponseTooLarge),
      (MessageContains ''exceeded max limit'', LavaErrorChainLogResponseTooLarge),
      (MessageContains ''unexpected end of JSON input'', LavaErrorConnectionReset),
      (MessageContains ''all attempts exhausted'', LavaErrorNodeServerError),
      (CodeEquals (- 32000), LavaErrorNodeServerError)]"

definition restErrorMappings :: "errorMapping list" where
  "restErrorMappings = [
      (MessageContains ''endpoint not found'', LavaErrorNodeEndpointNotFound),
      (MessageContains ''route not found'', LavaErrorNodeEndpointNotFound),
      (MessageContains ''path not found'', LavaErrorNodeEndpointNotFound),
      (MessageContains ''method not allowed'', LavaErrorNodeMethodNotAllowed),
      (MessageContains ''larger than the current largest block'', LavaErrorChainBlockNotFound),
      (MessageContains ''requested block height is bigger then the chain length'', LavaErrorChainBlockNotFound),
      (CodeAndMessage 400 ''unknown block'', LavaErrorChainBlockNotFound),
      (CodeAndMessage 500 ''is not available, lowest height'', LavaErrorChainStatePruned),
      (CodeAndMessage 500 ''decoding bech32 failed'', LavaErrorUserInvalidParams),
      (CodeAndMessage 500 ''unable to retrieve header and parent'', LavaErrorChainBlockNotFound),
      (CodeAndMessage 500 ''transaction not found'', LavaErrorChainTxNotFound),
      (CodeEquals 400, LavaErrorUserInvalidRequest),
      (CodeEquals 406, LavaErrorUserInvalidRequest),
      (CodeEquals 411, LavaErrorUserInvalidRequest),
      (CodeEquals 412, LavaErrorUserInvalidRequest),
      (CodeEquals 414, LavaErrorUserInvalidRequest),
      (CodeEquals 415, LavaErrorUserInvalidRequest),
      (CodeEquals 416, LavaErrorUserInvalidRequest),
      (CodeEquals 417, LavaErrorUserInvalidRequest),
      (CodeEquals 428, LavaErrorUserInvalidRequest),
      (CodeEquals 431, LavaErrorUserInvalidRequest),
      (CodeEquals 422, LavaErrorUserInvalidParams),
      (CodeEquals 402, LavaErrorNodeAccessDenied),
      (CodeEquals 403, LavaErrorNodeAccessDenied),
      (CodeEquals 407, LavaErrorNodeAccessDenied),
      (CodeEquals 426, LavaErrorNodeAccessDenied),
      (CodeEquals 451, LavaErrorNodeAccessDenied),
      (CodeEquals 408, LavaErrorNodeServiceUnavailable),
      (CodeEquals 410, LavaErrorChainStatePruned),
      (CodeEquals 409, LavaErrorChainTxAlreadyKnown)]"

definition grpcErrorMappings :: "errorMapping list" where
  "grpcErrorMappings = [
      (GRPCCodeEquals 3, LavaErrorUserInvalidParams),
      (GRPCCodeEquals 5, LavaErrorNodeDataNotHeld),
      (GRPCCodeEquals 11, LavaErrorNodeDataNotHeld),
      (GRPCCodeEquals 12, LavaErrorNodeUnimplemented),
      (GRPCCodeEquals 10, LavaErrorNodeAborted)] @
     map (\<lambda>t. (MessageContains t, LavaErrorNodeRateLimited)) GRPCRateLimitTexts @ [
      (GRPCCodeEquals 14, LavaErrorNodeServiceUnavailable),
      (MessageContains ''unimplemented'', LavaErrorNodeUnimplemented),
      (MessageContains ''not implemented'', LavaErrorNodeUnimplemented),
      (MessageContains ''service not found'', LavaErrorNodeUnimplemented)]"

definition httpStatusRows :: "(int \<times> LavaError \<times> LavaError) list" where
  "httpStatusRows = [
      (401, LavaErrorNodeAccessDenied, LavaErrorNodeUnauthorized),
      (404, LavaErrorNodeDataNotHeld, LavaErrorNodeEndpointNotFound),
      (405, LavaErrorNodeMethodNotAllowed, LavaErrorNodeMethodNotAllowed),
      (413, LavaErrorUserRequestTooLarge, LavaErrorUserRequestTooLarge),
      (429, LavaErrorNodeRateLimited, LavaErrorNodeRateLimited),
      (500, LavaErrorNodeInternalError, LavaErrorNodeInternalError),
      (501, LavaErrorNodeUnimplemented, LavaErrorNodeUnimplemented),
      (502, LavaErrorNodeBadGateway, LavaErrorNodeBadGateway),
      (503, LavaErrorNodeServiceUnavailable, LavaErrorNodeServiceUnavailable),
      (504, LavaErrorNodeGatewayTimeout, LavaErrorNodeGatewayTimeout),
      (520, LavaErrorNodeServerError, LavaErrorNodeServerError),
      (521, LavaErrorNodeServerError, LavaErrorNodeServerError),
      (522, LavaErrorNodeGatewayTimeout, LavaErrorNodeGatewayTimeout),
      (523, LavaErrorNodeServerError, LavaErrorNodeServerError),
      (524, LavaErrorNodeGatewayTimeout, LavaErrorNodeGatewayTimeout),
      (525, LavaErrorNodeServerError, LavaErrorNodeServerError),
      (526, LavaErrorNodeServerError, LavaErrorNodeServerError),
      (527, LavaErrorNodeServerError, LavaErrorNodeServerError),
      (530, LavaErrorNodeServerError, LavaErrorNodeServerError)]"

definition httpStatusCodeMappings :: "errorMapping list" where
  "httpStatusCodeMappings = map (\<lambda>(status, byCode, byMessage). (CodeEquals status, byCode)) httpStatusRows"

definition httpStatusMessageMappings :: "errorMapping list" where
  "httpStatusMessageMappings = map (\<lambda>(status, byCode, byMessage). (HTTPStatusContains status, byMessage)) httpStatusRows"

text \<open>The tables after the package's \<open>init\<close>.\<close>

fun genericErrorMappings :: "TransportType \<Rightarrow> errorMapping list" where
  "genericErrorMappings TransportJsonRPC = jsonRPCErrorMappings @ httpStatusMessageMappings"
| "genericErrorMappings TransportREST = restErrorMappings @ httpStatusCodeMappings @ httpStatusMessageMappings"
| "genericErrorMappings TransportGRPC = grpcErrorMappings @ httpStatusMessageMappings"

section \<open>Classification\<close>

definition matchMapping :: "ErrorMatcher \<Rightarrow> int \<Rightarrow> string \<Rightarrow> string \<Rightarrow> bool" where
  "matchMapping m errorCode errorMessage loweredMessage =
     (case matchesLowered m errorCode loweredMessage of Some b \<Rightarrow> b | None \<Rightarrow> Matches m errorCode errorMessage)"

fun first_match :: "errorMapping list \<Rightarrow> int \<Rightarrow> string \<Rightarrow> string \<Rightarrow> LavaError option" where
  "first_match [] errorCode errorMessage loweredMessage = None"
| "first_match ((m, le) # rest) errorCode errorMessage loweredMessage =
     (if matchMapping m errorCode errorMessage loweredMessage then Some le
      else first_match rest errorCode errorMessage loweredMessage)"

definition ClassifyError :: "LavaError option \<Rightarrow> ChainFamily \<Rightarrow> TransportType \<Rightarrow> int \<Rightarrow> string \<Rightarrow> LavaError" where
  "ClassifyError connectionError chainFamily transport errorCode errorMessage =
     (case connectionError of
        Some c \<Rightarrow> c
      | None \<Rightarrow>
          let loweredMessage = to_lower errorMessage
          in case first_match (chainErrorMappings chainFamily) errorCode errorMessage loweredMessage of
               Some le \<Rightarrow> le
             | None \<Rightarrow>
                 (case first_match (genericErrorMappings transport) errorCode errorMessage loweredMessage of
                    Some le \<Rightarrow> le
                  | None \<Rightarrow> LavaErrorUnknown))"

definition transports :: "TransportType list" where
  "transports = [TransportJsonRPC, TransportREST, TransportGRPC]"

definition family_of :: "string \<Rightarrow> ChainFamily" where
  "family_of chainID = (if chainID \<noteq> [] then GetChainFamilyOrDefault chainID else ChainFamilyUnknown)"

definition classifySubCategoryAcrossTransports :: "string \<Rightarrow> int \<Rightarrow> string \<Rightarrow> error_subcategory" where
  "classifySubCategoryAcrossTransports chainID statusCode message =
     (case filter (\<lambda>c. c \<noteq> LavaErrorUnknown)
             (map (\<lambda>t. ClassifyError None (family_of chainID) t statusCode message) transports) of
        c # _ \<Rightarrow> SubCategory c
      | [] \<Rightarrow> SubCategoryNone)"

definition IsUnsupportedMethodError :: "string \<Rightarrow> int \<Rightarrow> string \<Rightarrow> bool" where
  "IsUnsupportedMethodError chainID statusCode message =
     IsUnsupportedMethod (classifySubCategoryAcrossTransports chainID statusCode message)"

definition IsNonRetryableNodeError :: "string \<Rightarrow> int \<Rightarrow> string \<Rightarrow> bool" where
  "IsNonRetryableNodeError chainID statusCode message =
     (case filter (\<lambda>c. c \<noteq> LavaErrorUnknown)
             (map (\<lambda>t. ClassifyError None (family_of chainID) t statusCode message) transports) of
        c # _ \<Rightarrow> \<not> Retryable c
      | [] \<Rightarrow> False)"

definition IsNonRetryableNodeErrorWithContext :: "ChainFamily \<Rightarrow> TransportType \<Rightarrow> int \<Rightarrow> string \<Rightarrow> bool" where
  "IsNonRetryableNodeErrorWithContext family transport statusCode message =
     (let c = ClassifyError None family transport statusCode message
      in if c = LavaErrorUnknown then False else \<not> Retryable c)"

record NodeErrorClassification =
  nec_IsNonRetryable :: bool
  nec_IsUnsupportedMethod :: bool
  nec_IsRateLimited :: bool
  nec_IsDataScope :: bool
  nec_IsNodeCapability :: bool
  nec_IsNodeAtFault :: bool

definition nodeErrorClassificationOf :: "LavaError option \<Rightarrow> NodeErrorClassification" where
  "nodeErrorClassificationOf c =
     (case c of
        None \<Rightarrow> \<lparr>nec_IsNonRetryable = False, nec_IsUnsupportedMethod = False, nec_IsRateLimited = False,
           nec_IsDataScope = False, nec_IsNodeCapability = False, nec_IsNodeAtFault = False\<rparr>
      | Some e \<Rightarrow>
          if e = LavaErrorUnknown then
            \<lparr>nec_IsNonRetryable = False, nec_IsUnsupportedMethod = False, nec_IsRateLimited = False,
             nec_IsDataScope = False, nec_IsNodeCapability = False, nec_IsNodeAtFault = False\<rparr>
          else \<lparr>nec_IsNonRetryable = \<not> Retryable e, nec_IsUnsupportedMethod = IsUnsupportedMethod (SubCategory e),
             nec_IsRateLimited = IsRateLimit (SubCategory e), nec_IsDataScope = IsDataScope (SubCategory e),
             nec_IsNodeCapability = IsNodeCapability (SubCategory e), nec_IsNodeAtFault = EndpointAtFault (Some e)\<rparr>)"

definition ClassifyNodeErrorForRetry :: "ChainFamily \<Rightarrow> TransportType \<Rightarrow> int \<Rightarrow> string \<Rightarrow> NodeErrorClassification" where
  "ClassifyNodeErrorForRetry family transport errorCode message =
     nodeErrorClassificationOf (Some (ClassifyError None family transport errorCode message))"

definition ApiInterfaceToTransport :: "string \<Rightarrow> TransportType" where
  "ApiInterfaceToTransport apiInterface =
     (if apiInterface = ''rest'' \<or> apiInterface = ''graphql'' then TransportREST
      else if apiInterface = ''grpc'' then TransportGRPC
      else TransportJsonRPC)"

section \<open>Connection faults\<close>

record stringConnectionFallback =
  mustContain :: "string list"
  mustNotContain :: "string list"
  fb_result :: LavaError
  transportOnly :: bool

definition fallback_matches :: "stringConnectionFallback \<Rightarrow> string \<Rightarrow> bool" where
  "fallback_matches r msg \<longleftrightarrow>
     list_all (str_contains msg) (mustContain r) \<and> \<not> list_ex (str_contains msg) (mustNotContain r)"

definition stringConnectionFallbacks :: "stringConnectionFallback list" where
  "stringConnectionFallbacks = [
      \<lparr>mustContain = [''context deadline exceeded''], mustNotContain = [''rpc error''], fb_result = LavaErrorContextDeadline, transportOnly = False\<rparr>,
      \<lparr>mustContain = [''context canceled''], mustNotContain = [''rpc error''], fb_result = LavaErrorContextCanceled, transportOnly = False\<rparr>,
      \<lparr>mustContain = [''goaway''], mustNotContain = [''enhance_your_calm''], fb_result = LavaErrorConnectionReset, transportOnly = False\<rparr>,
      \<lparr>mustContain = [''stream error''], mustNotContain = [], fb_result = LavaErrorConnectionReset, transportOnly = False\<rparr>,
      \<lparr>mustContain = [''connection refused''], mustNotContain = [], fb_result = LavaErrorConnectionRefused, transportOnly = False\<rparr>,
      \<lparr>mustContain = [''network is unreachable''], mustNotContain = [], fb_result = LavaErrorNetworkUnreachable, transportOnly = False\<rparr>,
      \<lparr>mustContain = [''host is unreachable''], mustNotContain = [], fb_result = LavaErrorNetworkUnreachable, transportOnly = False\<rparr>,
      \<lparr>mustContain = [''no route to host''], mustNotContain = [], fb_result = LavaErrorNetworkUnreachable, transportOnly = False\<rparr>,
      \<lparr>mustContain = [''connection reset''], mustNotContain = [], fb_result = LavaErrorConnectionReset, transportOnly = False\<rparr>,
      \<lparr>mustContain = [''connection termination''], mustNotContain = [], fb_result = LavaErrorConnectionReset, transportOnly = False\<rparr>,
      \<lparr>mustContain = [''no such host''], mustNotContain = [], fb_result = LavaErrorDNSFailure, transportOnly = True\<rparr>,
      \<lparr>mustContain = [''server misbehaving''], mustNotContain = [], fb_result = LavaErrorDNSFailure, transportOnly = True\<rparr>,
      \<lparr>mustContain = [''dns resolution failed''], mustNotContain = [], fb_result = LavaErrorDNSFailure, transportOnly = True\<rparr>,
      \<lparr>mustContain = [''server gave http response to https client''], mustNotContain = [], fb_result = LavaErrorTLSMismatch, transportOnly = True\<rparr>,
      \<lparr>mustContain = [''misconfigured http endpoint as https''], mustNotContain = [], fb_result = LavaErrorTLSMismatch, transportOnly = True\<rparr>,
      \<lparr>mustContain = [''unexpected eof''], mustNotContain = [], fb_result = LavaErrorConnectionClosed, transportOnly = True\<rparr>,
      \<lparr>mustContain = [''end of input stream reached''], mustNotContain = [], fb_result = LavaErrorConnectionClosed, transportOnly = True\<rparr>]"

definition detectConnectionErrorFromString :: "string \<Rightarrow> LavaError option" where
  "detectConnectionErrorFromString msg =
     map_option fb_result (find (\<lambda>row. fallback_matches row msg) stringConnectionFallbacks)"

definition DetectConnectionErrorInReplyText :: "string \<Rightarrow> LavaError option" where
  "DetectConnectionErrorInReplyText text =
     (let msg = to_lower text
      in map_option fb_result (find (\<lambda>row. \<not> transportOnly row \<and> fallback_matches row msg) stringConnectionFallbacks))"

text \<open>What \<open>DetectConnectionError\<close> asks of an error: its chain of sentinels, the network types in
  it, its text, the errno that a pointer of type \<open>*syscall.Errno\<close> inside a \<open>net.OpError\<close> holds (the
  target type of the lookup; the errno values of the standard library are not pointers, so for its
  errors this is \<open>None\<close>), and whether a gRPC call was never delivered.\<close>

datatype errno = ECONNREFUSED | ECONNRESET | ENETUNREACH | EHOSTUNREACH | EOTHER

record conn_error =
  is_Canceled :: bool
  is_DeadlineExceeded :: bool
  is_net_timeout :: bool
  is_DNSError :: bool
  is_EOF :: bool
  err_text :: string
  op_errno :: "errno option"
  is_undelivered :: bool

definition DetectConnectionError :: "conn_error option \<Rightarrow> LavaError option" where
  "DetectConnectionError err =
     (case err of
        None \<Rightarrow> None
      | Some e \<Rightarrow>
          if is_Canceled e then Some LavaErrorContextCanceled
          else if is_DeadlineExceeded e then Some LavaErrorContextDeadline
          else if is_net_timeout e then Some LavaErrorConnectionTimeout
          else if is_DNSError e then Some LavaErrorDNSFailure
          else if is_EOF e then Some LavaErrorConnectionClosed
          else case detectConnectionErrorFromString (to_lower (err_text e)) of
            Some le \<Rightarrow> Some le
          | None \<Rightarrow>
              (case op_errno e of
                 Some ECONNREFUSED \<Rightarrow> Some LavaErrorConnectionRefused
               | Some ECONNRESET \<Rightarrow> Some LavaErrorConnectionReset
               | Some ENETUNREACH \<Rightarrow> Some LavaErrorNetworkUnreachable
               | Some EHOSTUNREACH \<Rightarrow> Some LavaErrorNetworkUnreachable
               | _ \<Rightarrow> if is_undelivered e then Some LavaErrorProviderUnavailable else None))"

definition IsClientCancellation :: "conn_error option \<Rightarrow> go_error option \<Rightarrow> bool" where
  "IsClientCancellation err ctxErr = (case err of None \<Rightarrow> False | Some e \<Rightarrow> is_Canceled e \<and> ctxErr \<noteq> None)"

end
