(* ===== verification/ErrorVerdicts.thy ===== *)
theory ErrorVerdicts
  imports ErrorClassifier
begin

text \<open>
  Properties of the classifier, read as a search that hands every matcher the message itself: that every verdict
  is a registered code, which replies a status row reads and which it misreads, that the typed
  rate limit of the gRPC transport and the classifier agree, that no verdict flagged on an XRP
  Ledger submission goes unclassified or blames the node, and what a connection fault proves.
\<close>

section \<open>The classification as one search\<close>

text \<open>Without the lowered message that is passed along: the first row of the chain's table, then of the transport's,
  whose matcher accepts the code and the message as they came.\<close>

definition reference_verdict :: "ChainFamily \<Rightarrow> TransportType \<Rightarrow> int \<Rightarrow> string \<Rightarrow> LavaError" where
  "reference_verdict f t code msg =
     (case find (\<lambda>(m, _). Matches m code msg) (chainErrorMappings f @ genericErrorMappings t) of
        Some (_, le) \<Rightarrow> le
      | None \<Rightarrow> LavaErrorUnknown)"

lemma matchMapping_iff: "matchMapping m code msg (to_lower msg) = Matches m code msg"
  by (auto simp: matchMapping_def fast_path_agrees split: option.split)

lemma first_match_find:
  "first_match rows code msg (to_lower msg) = map_option snd (find (\<lambda>(m, _). Matches m code msg) rows)"
  by (induction rows) (auto simp: matchMapping_iff)

lemma find_append: "find P (xs @ ys) = (case find P xs of Some x \<Rightarrow> Some x | None \<Rightarrow> find P ys)"
  by (induction xs) auto

lemma ClassifyError_reference: "ClassifyError None f t code msg = reference_verdict f t code msg"
  by (auto simp: ClassifyError_def reference_verdict_def first_match_find find_append Let_def
      split: option.splits)

section \<open>Every verdict is registered\<close>

lemma find_in_set: "find P xs = Some x \<Longrightarrow> x \<in> set xs \<and> P x"
  by (induction xs) (auto split: if_splits)

lemma reference_hit:
  "find (\<lambda>(m, _). Matches m code msg) (chainErrorMappings f @ genericErrorMappings t) = Some (m, le) \<Longrightarrow>
     ClassifyError None f t code msg = le"
  by (simp add: ClassifyError_reference reference_verdict_def)

lemma verdict_from_tables:
  "ClassifyError None f t code msg = LavaErrorUnknown
     \<or> ClassifyError None f t code msg \<in> snd ` set (chainErrorMappings f @ genericErrorMappings t)"
proof (cases "find (\<lambda>(m, _). Matches m code msg) (chainErrorMappings f @ genericErrorMappings t)")
  case None
  then show ?thesis by (simp add: ClassifyError_reference reference_verdict_def)
next
  case (Some row)
  obtain m le where "row = (m, le)" by (cases row)
  with Some find_in_set [OF Some] reference_hit [of code msg f t m le] show ?thesis by force
qed

definition registered_table :: "errorMapping list \<Rightarrow> bool" where
  "registered_table rows \<longleftrightarrow> set (map snd rows) \<subseteq> set all_codes"

lemma registered_table_append [simp]:
  "registered_table (xs @ ys) \<longleftrightarrow> registered_table xs \<and> registered_table ys"
  by (simp add: registered_table_def)

lemma chain_tables_registered:
  "registered_table solanaErrorMappings" "registered_table bitcoinErrorMappings"
  "registered_table cosmosErrorMappings" "registered_table starknetErrorMappings"
  "registered_table nearErrorMappings" "registered_table xrplErrorMappings"
  by (simp_all add: registered_table_def all_codes_def solanaErrorMappings_def bitcoinErrorMappings_def
      cosmosErrorMappings_def starknetErrorMappings_def nearErrorMappings_def xrplErrorMappings_def xrplAPIErrors_def)

lemma generic_tables_registered:
  "registered_table jsonRPCErrorMappings" "registered_table restErrorMappings" "registered_table grpcErrorMappings"
  "registered_table httpStatusCodeMappings" "registered_table httpStatusMessageMappings"
  by (simp_all add: registered_table_def all_codes_def jsonRPCErrorMappings_def restErrorMappings_def
      grpcErrorMappings_def GRPCRateLimitTexts_def httpStatusCodeMappings_def httpStatusMessageMappings_def
      httpStatusRows_def)

lemma tables_registered: "registered_table (chainErrorMappings f @ genericErrorMappings t)"
  by (cases f; cases t)
     (simp_all add: chainErrorMappings_def chain_tables_registered generic_tables_registered registered_table_def [of "[]"])

lemma verdict_registered: "ClassifyError None f t code msg \<in> insert LavaErrorUnknown (set all_codes)"
  using verdict_from_tables [of f t code msg] tables_registered [of f t]
  unfolding registered_table_def by (metis image_set insertCI subsetD)

text \<open>No registered code is an unsupported method.\<close>

lemma unknown_not_unsupported: "\<not> IsUnsupportedMethod (SubCategory LavaErrorUnknown)"
  by (simp add: LavaErrorUnknown_def fault_axes)

lemma verdict_not_unsupported: "\<not> IsUnsupportedMethod (SubCategory (ClassifyError None f t code msg))"
  using verdict_registered [of f t code msg] no_unsupported_code unknown_not_unsupported
  by (auto simp: list_all_iff)

text \<open>Every verdict is the unknown error or one of the registered codes, whatever the chain,
  transport, code and message; so no error is ever read as an unsupported method, the hard stop
  that predates the node-capability codes, and the callers that branch on it never take that
  branch.\<close>

theorem verdicts_are_registered:
  "ClassifyError None f t code msg \<in> insert LavaErrorUnknown (set all_codes)
     \<and> \<not> IsUnsupportedMethodError chainID code msg
     \<and> \<not> nec_IsUnsupportedMethod (ClassifyNodeErrorForRetry f t code msg)"
proof -
  have "\<not> IsUnsupportedMethodError chainID code msg"
    using verdict_not_unsupported [of "family_of chainID" _ code msg]
    by (simp add: IsUnsupportedMethodError_def classifySubCategoryAcrossTransports_def transports_def fault_axes)
  moreover have "\<not> nec_IsUnsupportedMethod (ClassifyNodeErrorForRetry f t code msg)"
    using verdict_not_unsupported [of f t code msg]
    by (simp add: ClassifyNodeErrorForRetry_def nodeErrorClassificationOf_def)
  ultimately show ?thesis using verdict_registered by blast
qed

section \<open>HTTP statuses in a message\<close>

lemma is_digit_nat: "is_digit c \<longleftrightarrow> 48 \<le> (of_char c :: nat) \<and> (of_char c :: nat) \<le> 57"
proof -
  have "(of_char c :: int) = int (of_char c)" by (rule of_nat_of_char [symmetric])
  then show ?thesis unfolding is_digit_def by linarith
qed

lemma format_nat_is_digits: "list_all is_digit (format_nat n)" "format_nat n \<noteq> []"
proof -
  show "list_all is_digit (format_nat n)"
    using format_nat_digits [of _ n] by (auto simp: list_all_iff is_digit_nat dest!: format_nat_digits)
  show "format_nat n \<noteq> []" by (simp add: format_nat.simps [of n])
qed

text \<open>A status that stands alone in a message is always seen: when its digits occur with no
  digit before or after them, the status matcher accepts, however many longer digit runs contain
  the same digits before that place.\<close>

theorem standing_status_is_seen:
  assumes "isolated (format_nat n) msg"
  shows "Matches (HTTPStatusContains (int n)) code msg"
  using http_status_complete [OF _ _ assms] format_nat_is_digits [of n]
  by (simp add: HTTPStatusContains_def format_int_def)

theorem standing_status_is_seen_witness:
  "Matches (HTTPStatusContains (int 429)) 0 ''nonce 14290: HTTP status 429''"
proof (rule standing_status_is_seen)
  have "format_nat 429 = ''429''" by code_simp
  then show "isolated (format_nat 429) ''nonce 14290: HTTP status 429''"
    unfolding isolated_def
    by (intro exI [of _ "''nonce 14290: HTTP status ''"] exI [of _ "[]"]) (simp add: is_digit_def)
qed

text \<open>The other direction fails. After a refused occurrence the loop searches the rest of the
  text as if it began there, so the digit before the next occurrence is forgotten: in the amount
  500500 it sees an HTTP 500 although no 500 stands alone, and a reply that merely quotes the amount
  is classified as the node's internal error and blamed on a healthy endpoint.\<close>

theorem status_seen_inside_amount:
  "\<not> isolated ''500'' ''minimum is 500500''
     \<and> Matches (HTTPStatusContains 500) 0 ''minimum is 500500''
     \<and> ClassifyError None ChainFamilyEVM TransportJsonRPC (- 32099) ''minimum is 500500'' = LavaErrorNodeInternalError
     \<and> EndpointAtFault (Some LavaErrorNodeInternalError)"
proof (intro conjI)
  show "Matches (HTTPStatusContains 500) 0 ''minimum is 500500''" by code_simp
  show "ClassifyError None ChainFamilyEVM TransportJsonRPC (- 32099) ''minimum is 500500'' = LavaErrorNodeInternalError"
    by code_simp
  show "EndpointAtFault (Some LavaErrorNodeInternalError)" by code_simp
  show "\<not> isolated ''500'' ''minimum is 500500''"
  proof
    assume "isolated ''500'' ''minimum is 500500''"
    then obtain a b where ab: "''minimum is 500500'' = a @ ''500'' @ b"
      "a = [] \<or> \<not> is_digit (last a)" "b = [] \<or> \<not> is_digit (hd b)" by (auto simp: isolated_def)
    have "length a \<le> 14" using arg_cong [OF ab(1), of length] by simp
    moreover have "a = take (length a) ''minimum is 500500''" and "b = drop (length a + 3) ''minimum is 500500''"
      and "take 3 (drop (length a) ''minimum is 500500'') = ''500''" using ab(1) by simp_all
    ultimately show False using ab(2,3)
      by (auto simp: le_Suc_eq numeral_eq_Suc is_digit_def)
  qed
qed

section \<open>Rate limits on gRPC\<close>

definition carries_rate_limit_text :: "string \<Rightarrow> bool" where
  "carries_rate_limit_text msg \<longleftrightarrow> list_ex (\<lambda>sig. str_contains (to_lower msg) sig) GRPCRateLimitTexts"

lemma find_first_hit: "list_all (\<lambda>x. \<not> P x) xs \<Longrightarrow> find P (xs @ ys) = find P ys"
  by (induction xs) auto

lemma find_rate_limit_text:
  "carries_rate_limit_text msg \<Longrightarrow>
     \<exists>m. find (\<lambda>(m, _). Matches m code msg)
        (map (\<lambda>t. (MessageContains t, LavaErrorNodeRateLimited)) GRPCRateLimitTexts @ rest) = Some (m, LavaErrorNodeRateLimited)"
  by (auto simp: carries_rate_limit_text_def GRPCRateLimitTexts_def MessageContains_def to_lower_def to_lower_char_def)

text \<open>The typed rate limit of the gRPC transport and the classifier agree: a status whose
  message carries one of the rate-limit texts is a rate limit for \<open>RateLimitFromGRPC\<close> and, unless
  its code is one of the five that decide by themselves or the chain's own table claims it, is
  classified as the node's rate limit, which is retryable and never blames the endpoint, whatever
  the code (an UNAVAILABLE included).\<close>

theorem grpc_rate_limit_agrees:
  assumes "carries_rate_limit_text msg" and "code \<notin> {3, 5, 10, 11, 12}"
    and "list_all (\<lambda>(m, _). \<not> Matches m code msg) (chainErrorMappings f)"
  shows "RateLimitFromGRPC pt code msg md now \<noteq> None
    \<and> ClassifyError None f TransportGRPC code msg = LavaErrorNodeRateLimited
    \<and> Retryable LavaErrorNodeRateLimited \<and> \<not> EndpointAtFault (Some LavaErrorNodeRateLimited)"
proof (intro conjI)
  show "RateLimitFromGRPC pt code msg md now \<noteq> None"
    using assms(1) by (simp add: RateLimitFromGRPC_def carries_rate_limit_text_def Let_def)
  let ?five = "take 5 grpcErrorMappings"
  have split: "grpcErrorMappings = ?five @ map (\<lambda>t. (MessageContains t, LavaErrorNodeRateLimited)) GRPCRateLimitTexts
      @ drop 9 grpcErrorMappings"
    by (simp add: grpcErrorMappings_def GRPCRateLimitTexts_def numeral_eq_Suc)
  have "list_all (\<lambda>x. \<not> (case x of (m, _) \<Rightarrow> Matches m code msg)) (chainErrorMappings f @ ?five)"
    using assms(2,3) by (auto simp: list_all_iff grpcErrorMappings_def numeral_eq_Suc GRPCCodeEquals_def split: if_splits)
  moreover obtain m where "find (\<lambda>(m, _). Matches m code msg)
      (map (\<lambda>t. (MessageContains t, LavaErrorNodeRateLimited)) GRPCRateLimitTexts
        @ drop 9 grpcErrorMappings @ httpStatusMessageMappings) = Some (m, LavaErrorNodeRateLimited)"
    using find_rate_limit_text [OF assms(1)] by blast
  moreover have "chainErrorMappings f @ genericErrorMappings TransportGRPC
      = (chainErrorMappings f @ ?five) @ map (\<lambda>t. (MessageContains t, LavaErrorNodeRateLimited)) GRPCRateLimitTexts
        @ drop 9 grpcErrorMappings @ httpStatusMessageMappings"
    by (subst genericErrorMappings.simps, subst split) simp
  ultimately have "find (\<lambda>(m, _). Matches m code msg) (chainErrorMappings f @ genericErrorMappings TransportGRPC)
      = Some (m, LavaErrorNodeRateLimited)"
    by (simp only: find_first_hit)
  then show "ClassifyError None f TransportGRPC code msg = LavaErrorNodeRateLimited" by (rule reference_hit)
  show "Retryable LavaErrorNodeRateLimited" "\<not> EndpointAtFault (Some LavaErrorNodeRateLimited)" by code_simp+
qed

theorem grpc_rate_limit_agrees_witness:
  "ClassifyError None ChainFamilySui TransportGRPC 14 ''unavailable: 429 (Too Many Requests)'' = LavaErrorNodeRateLimited"
proof -
  have "carries_rate_limit_text ''unavailable: 429 (Too Many Requests)''" by code_simp
  from grpc_rate_limit_agrees [OF this, of 14 ChainFamilySui] show ?thesis by (simp add: chainErrorMappings_def)
qed

section \<open>Connection faults\<close>

text \<open>The transport-only rows come last, so a reply text that is read as a connection fault is read
  as the same fault everywhere.\<close>

lemma find_both:
  "find (\<lambda>x. \<not> t x \<and> p x) xs = Some y \<Longrightarrow> list_all (\<lambda>x. \<not> t x) xs \<Longrightarrow> find p (xs @ ys) = Some y"
  by (induction xs) (auto split: if_splits)

lemma fallbacks_split:
  "stringConnectionFallbacks = take 10 stringConnectionFallbacks @ drop 10 stringConnectionFallbacks
    \<and> list_all (\<lambda>r. \<not> transportOnly r) (take 10 stringConnectionFallbacks)
    \<and> list_all transportOnly (drop 10 stringConnectionFallbacks)"
  by (simp add: stringConnectionFallbacks_def numeral_eq_Suc)

lemma find_none_of: "list_all t ys \<Longrightarrow> find (\<lambda>x. \<not> t x \<and> p x) (xs @ ys) = find (\<lambda>x. \<not> t x \<and> p x) xs"
  by (induction xs; induction ys) auto

lemma reply_text_agrees:
  assumes "DetectConnectionErrorInReplyText tx = Some le"
  shows "detectConnectionErrorFromString (to_lower tx) = Some le"
proof -
  define a b where ab: "a = take 10 stringConnectionFallbacks" "b = drop 10 stringConnectionFallbacks"
  have rows: "stringConnectionFallbacks = a @ b" and a: "list_all (\<lambda>r. \<not> transportOnly r) a" and b: "list_all transportOnly b"
    using fallbacks_split by (simp_all add: ab)
  let ?p = "\<lambda>row. fallback_matches row (to_lower tx)"
  from assms obtain row where "find (\<lambda>row. \<not> transportOnly row \<and> ?p row) (a @ b) = Some row" and le: "le = fb_result row"
    by (auto simp: DetectConnectionErrorInReplyText_def Let_def rows)
  then have "find (\<lambda>row. \<not> transportOnly row \<and> ?p row) a = Some row" by (simp only: find_none_of [OF b])
  then have "find ?p (a @ b) = Some row" using a by (rule find_both)
  with le show ?thesis by (simp add: detectConnectionErrorFromString_def rows)
qed

definition connect_phase :: "LavaError list" where
  "connect_phase = [LavaErrorConnectionRefused, LavaErrorDNSFailure, LavaErrorTLSMismatch,
     LavaErrorNetworkUnreachable, LavaErrorProviderUnavailable]"

definition mid_flight :: "LavaError list" where
  "mid_flight = [LavaErrorContextCanceled, LavaErrorContextDeadline, LavaErrorConnectionTimeout,
     LavaErrorConnectionClosed, LavaErrorConnectionReset]"

lemma fallback_results: "list_all (\<lambda>r. fb_result r \<in> set (connect_phase @ mid_flight)) stringConnectionFallbacks"
  by (simp add: stringConnectionFallbacks_def connect_phase_def mid_flight_def)

lemma string_fallback_verdict:
  "detectConnectionErrorFromString msg = Some le \<Longrightarrow> le \<in> set (connect_phase @ mid_flight)"
  using fallback_results by (auto simp: detectConnectionErrorFromString_def list_all_iff dest!: find_in_set)

lemma connection_verdict:
  "DetectConnectionError err = Some le \<Longrightarrow> le \<in> set (connect_phase @ mid_flight)"
  using string_fallback_verdict
  by (auto simp: DetectConnectionError_def split: option.splits if_splits errno.splits)
     (auto simp: connect_phase_def mid_flight_def)

lemma phases:
  "list_all (\<lambda>le. Category le = CategoryInternal \<and> \<not> MayHaveReachedNode le \<and> Retryable le \<and> EndpointAtFault (Some le)) connect_phase"
  "list_all (\<lambda>le. Category le = CategoryInternal \<and> MayHaveReachedNode le) mid_flight"
  by code_simp+

text \<open>What a detected connection fault says about a write: the fault is the router's own
  (internal), and the request is taken as never delivered only for the faults of the connect
  phase (refused, unresolved, unreachable, not TLS, a gRPC call that opened no stream), each of
  which may be retried elsewhere and counts against the endpoint; a timeout, a deadline, a
  cancellation, a reset and an end of file leave it open. A text that reads as a connection
  fault in a reply reads as the same fault in an error.\<close>

theorem connection_fault_meaning:
  assumes "DetectConnectionError err = Some le"
  shows "Category le = CategoryInternal
    \<and> (MayHaveReachedNode le \<longleftrightarrow> le \<in> set mid_flight)
    \<and> (\<not> MayHaveReachedNode le \<longrightarrow> le \<in> set connect_phase \<and> Retryable le \<and> EndpointAtFault (Some le))
    \<and> (DetectConnectionErrorInReplyText tx = Some le' \<longrightarrow> detectConnectionErrorFromString (to_lower tx) = Some le')"
  using connection_verdict [OF assms] phases reply_text_agrees [of tx le']
  by (auto simp: list_all_iff)

theorem connection_fault_meaning_witness:
  "MayHaveReachedNode LavaErrorConnectionRefused = False \<and> Retryable LavaErrorConnectionRefused
     \<and> EndpointAtFault (Some LavaErrorConnectionRefused)"
proof -
  have "\<not> MayHaveReachedNode LavaErrorConnectionRefused" by code_simp
  moreover
  have "DetectConnectionError (Some \<lparr>is_Canceled = False, is_DeadlineExceeded = False, is_net_timeout = False,
      is_DNSError = False, is_EOF = False, err_text = ''dial tcp: connection refused'', op_errno = None,
      is_undelivered = False\<rparr>) = Some LavaErrorConnectionRefused"
    by code_simp
  from connection_fault_meaning [OF this] calculation show ?thesis by blast
qed

section \<open>XRP Ledger submissions\<close>

text \<open>An expression of classes inside \<open>Q\<close> and no assertions: a match covers only such characters
  and holds wherever the covered text stands.\<close>

fun classes_in :: "(char \<Rightarrow> bool) \<Rightarrow> regex \<Rightarrow> bool" where
  "classes_in Q Eps = True"
| "classes_in Q (Cls P) = (\<forall>c. P c \<longrightarrow> Q c)"
| "classes_in Q (Seq a b) = (classes_in Q a \<and> classes_in Q b)"
| "classes_in Q (Alt a b) = (classes_in Q a \<and> classes_in Q b)"
| "classes_in Q (Star a) = classes_in Q a"
| "classes_in Q WordB = False"
| "classes_in Q BeginText = False"
| "classes_in Q EndText = False"

lemma re_match_covers:
  "re_match s r i j \<Longrightarrow> classes_in Q r \<Longrightarrow> i \<le> j \<and> (\<forall>k. i \<le> k \<and> k < j \<longrightarrow> k < length s \<and> Q (s ! k))"
proof (induction rule: re_match.induct)
  case (cls i P)
  then show ?case using le_less_Suc_eq by auto
next
  case (seq a i j b k)
  then show ?case by (metis classes_in.simps(3) le_trans not_le_imp_less)
next
  case (star1 a i j k)
  then show ?case by (metis classes_in.simps(5) le_trans not_le_imp_less)
qed auto

lemma re_match_shift:
  "re_match s r i j \<Longrightarrow> classes_in Q r \<Longrightarrow> re_match (pre @ s @ post) r (length pre + i) (length pre + j)"
proof (induction rule: re_match.induct)
  case (cls i P)
  then have "(pre @ s @ post) ! (length pre + i) = s ! i" by (simp add: nth_append)
  with cls show ?case using re_match.cls [of "length pre + i" "pre @ s @ post" P] by simp
qed (auto intro: re_match.intros)

lemma lit_match: "re_match (pre @ w @ post) (lit w) (length pre) (length pre + length w)"
proof (induction w arbitrary: pre)
  case (Cons c w)
  have "re_match (pre @ (c # w) @ post) (Cls (\<lambda>x. x = c)) (length pre) (Suc (length pre))"
    by (rule re_match.cls) simp_all
  with Cons.IH [of "pre @ [c]"] show ?case by (auto intro: re_match.seq)
qed (simp add: re_match.eps)

lemma alts_match: "w \<in> set ws \<Longrightarrow> re_match s (lit w) i j \<Longrightarrow> re_match s (alts (map lit ws)) i j"
proof (induction ws)
  case (Cons v ws)
  then show ?case by (cases ws) (auto intro: re_match.alt1 re_match.alt2)
qed simp

text \<open>The messages a submission's verdict reaches the classifier in: the code or name, the rest
  after a colon, and the sender's prefix for a reply that was not a 2xx.\<close>

definition verdict_prefix :: "string \<Rightarrow> bool" where
  "verdict_prefix pre \<longleftrightarrow> pre = [] \<or> (\<exists>n. pre = ''HTTP '' @ format_nat n @ '': '')"

lemma digits_match:
  "list_all is_digit ds \<Longrightarrow> ds \<noteq> [] \<Longrightarrow> re_match (pre @ ds @ post) (re_plus re_digit) (length pre) (length pre + length ds)"
proof -
  have one: "re_match (pre @ (d # ds) @ post) re_digit (length pre) (Suc (length pre))" if "is_digit d" for d ds and pre :: string
    using that unfolding re_digit_def by (intro re_match.cls) (simp_all add: is_digit_def in_range_def)
  have star: "re_match (pre @ ds @ post) (Star re_digit) (length pre) (length pre + length ds)" if "list_all is_digit ds" for ds pre
    using that
  proof (induction ds arbitrary: pre)
    case (Cons d ds)
    then show ?case using one [of d pre ds] Cons.IH [of "pre @ [d]"] by (auto intro: re_match.star1)
  qed (simp add: re_match.star0)
  assume "list_all is_digit ds" and "ds \<noteq> []"
  then obtain d es where "ds = d # es" "is_digit d" "list_all is_digit es" by (cases ds) auto
  with one [of d pre es] star [of es "pre @ [d]"] show ?thesis by (auto simp: re_plus_def intro: re_match.seq)
qed

lemma prefix_match:
  assumes "verdict_prefix pre"
  shows "re_match (pre @ s) http_prefix 0 (length pre)"
proof (cases "pre = []")
  case True
  then show ?thesis by (simp add: http_prefix_def re_opt_def re_match.alt2 re_match.eps)
next
  case False
  with assms obtain n where pre: "pre = ''HTTP '' @ format_nat n @ '': ''" by (auto simp: verdict_prefix_def)
  let ?d = "format_nat n"
  have "re_match (pre @ s) (lit ''HTTP '') 0 5" using lit_match [of "[]" "''HTTP ''" "?d @ '': '' @ s"] pre by (simp add: numeral_eq_Suc)
  moreover have "re_match (pre @ s) (re_plus re_digit) 5 (5 + length ?d)"
    using digits_match [of ?d "''HTTP ''" "'': '' @ s"] format_nat_is_digits [of n] pre by (simp add: numeral_eq_Suc)
  moreover have "re_match (pre @ s) (lit '': '') (5 + length ?d) (length pre)"
    using lit_match [of "''HTTP '' @ ?d" "'': ''" s] pre by (simp add: numeral_eq_Suc)
  ultimately have "re_match (pre @ s) (seqs [lit ''HTTP '', re_plus re_digit, lit '': '']) 0 (length pre)"
    by (auto intro: re_match.seq)
  then show ?thesis unfolding http_prefix_def re_opt_def by (rule re_match.alt1)
qed

lemma startsWith_Matches:
  assumes "verdict_prefix pre" and "re_match (pre @ w @ post) r (length pre) (length pre + length w)"
    and "w \<noteq> []" and "word_char (last w)" and "post = [] \<or> \<not> word_char (hd post)"
  shows "Matches (startsWith r) code (pre @ w @ post)"
proof -
  let ?s = "pre @ w @ post" and ?e = "length pre + length w"
  have "is_word_at ?s (?e - 1)"
    using assms(3,4) by (cases w rule: rev_cases) (simp_all add: is_word_at_def nth_append)
  moreover have "\<not> is_word_at ?s ?e"
    using assms(5) by (cases post) (simp_all add: is_word_at_def nth_append)
  ultimately have wb: "re_match ?s WordB ?e ?e"
    using assms(3) by (intro re_match.wordb) (simp add: word_boundary_def)
  have "re_match ?s (Seq BeginText (Seq http_prefix (Seq r WordB))) 0 ?e"
    by (rule re_match.seq [OF re_match.bot re_match.seq [OF prefix_match [OF assms(1)] re_match.seq [OF assms(2) wb]]])
  then show ?thesis by (auto simp: startsWith_def MessageRegex_def MatchString_search)
qed

lemma rejection_classes: "classes_in word_char xrplRejectionCode"
  by (auto simp: xrplRejectionCode_def upper_def one_of_def word_char_def in_range_def)

lemma rejection_shape:
  assumes "IsXRPLRejection w"
  shows "re_match w xrplRejectionCode 0 (length w)" and "w \<noteq> []" and "word_char (last w)"
proof -
  from assms obtain i j where "re_match w xrplRejectionCodeExact i j"
    by (auto simp: IsXRPLRejection_def MatchString_search)
  then show m: "re_match w xrplRejectionCode 0 (length w)"
    by (auto simp: xrplRejectionCodeExact_def elim!: re_match.cases [of w "Seq _ _"] re_match.cases [of w BeginText]
        re_match.cases [of w EndText])
  show ne: "w \<noteq> []"
  proof
    assume "w = []"
    with m have "re_match [] xrplRejectionCode 0 0" by simp
    then have "0 \<in> set (ends [] xrplRejectionCode 0)" by (simp add: ends_iff)
    then show False by (simp add: xrplRejectionCode_def)
  qed
  have "word_char (w ! (length w - 1))" using re_match_covers [OF m rejection_classes] ne by simp
  with ne show "word_char (last w)" by (simp add: last_conv_nth)
qed

lemma joined: "joinXRPLVerdict w d = w @ (if d = [] then [] else '': '' @ d)"
  by (simp add: joinXRPLVerdict_def)

definition refusal_verdicts :: "LavaError list" where
  "refusal_verdicts = [LavaErrorChainNonceTooLow, LavaErrorChainTxAlreadyKnown, LavaErrorChainNonceTooHigh, LavaErrorChainTxRejected]"

lemma refusal_verdicts_blameless:
  "list_all (\<lambda>le. \<not> Retryable le \<and> \<not> EndpointAtFault (Some le)) refusal_verdicts"
  by code_simp

lemma xrpl_hit:
  assumes "m \<in> fst ` set rows" and "Matches m code msg" and "xrplErrorMappings = rows @ rest"
  shows "ClassifyError None ChainFamilyXRP t code msg \<in> snd ` set rows"
proof -
  obtain m' le where hit: "find (\<lambda>(m, _). Matches m code msg) rows = Some (m', le)"
    using assms(1,2) by (cases "find (\<lambda>(m, _). Matches m code msg) rows") (auto simp: find_None_iff)
  then have "find (\<lambda>(m, _). Matches m code msg) (chainErrorMappings ChainFamilyXRP @ genericErrorMappings t) = Some (m', le)"
    by (simp add: chainErrorMappings_def assms(3) find_append)
  with find_in_set [OF hit] reference_hit show ?thesis by force
qed

lemma not_unknown: "le \<in> snd ` set xrplErrorMappings \<Longrightarrow> le \<noteq> LavaErrorUnknown"
  by (auto simp: xrplErrorMappings_def xrplAPIErrors_def code_defs LavaErrorUnknown_def)

lemma api_name_words: "list_all (\<lambda>w. w \<noteq> [] \<and> word_char (last w)) xrplAPIErrorNames"
  by code_simp

text \<open>Nothing the XRP Ledger check flags goes unclassified: whenever a submission's result is
  read as an error, its message gets a registered verdict from the chain's own rows, behind an HTTP
  status prefix too; and when the node refused the transaction (an engine result), the verdict is
  a final answer about the transaction, never retried and never held against the node.\<close>

theorem xrpl_verdicts_classified:
  assumes "checkXRPLSubmitResult flds = Some msg" and "verdict_prefix pre"
  shows "ClassifyError None ChainFamilyXRP t code (pre @ msg) \<noteq> LavaErrorUnknown
    \<and> (flds ''engine_result'' \<noteq> [] \<longrightarrow>
         \<not> Retryable (ClassifyError None ChainFamilyXRP t code (pre @ msg))
         \<and> \<not> EndpointAtFault (Some (ClassifyError None ChainFamilyXRP t code (pre @ msg))))"
proof (cases "flds ''engine_result'' = []")
  case False
  define w d where wd: "w = flds ''engine_result''" "d = flds ''engine_result_message''"
  from assms(1) False have rej: "IsXRPLRejection w" and msg: "msg = w @ (if d = [] then [] else '': '' @ d)"
    by (auto simp: checkXRPLSubmitResult_def wd joined split: if_splits)
  note shape = rejection_shape [OF rej]
  have "Matches (startsWith xrplRejectionCode) code (pre @ msg)"
    unfolding msg using re_match_shift [OF shape(1) rejection_classes, of pre] shape(2,3)
    by (intro startsWith_Matches [OF assms(2)]) (auto simp: word_char_def in_range_def)
  then have "ClassifyError None ChainFamilyXRP t code (pre @ msg) \<in> snd ` set (take 4 xrplErrorMappings)"
    by (intro xrpl_hit [of "startsWith xrplRejectionCode" _ _ _ "drop 4 xrplErrorMappings"])
       (auto simp: xrplErrorMappings_def numeral_eq_Suc)
  then have "ClassifyError None ChainFamilyXRP t code (pre @ msg) \<in> set refusal_verdicts"
    by (auto simp: xrplErrorMappings_def refusal_verdicts_def numeral_eq_Suc)
  moreover have "LavaErrorUnknown \<notin> set refusal_verdicts"
    by (simp add: refusal_verdicts_def code_defs LavaErrorUnknown_def)
  ultimately show ?thesis using refusal_verdicts_blameless by (auto simp: list_all_iff)
next
  case True
  define w d where w: "w = flds ''error''"
    and d: "d = (if flds ''error_message'' = [] then flds ''error_exception'' else flds ''error_message'')"
  from assms(1) True have api: "w \<in> set xrplAPIErrorNames" and msg: "msg = w @ (if d = [] then [] else '': '' @ d)"
    by (auto simp: checkXRPLSubmitResult_def w d joined IsXRPLAPIError_def split: if_splits)
  from api obtain names le where row: "(names, le) \<in> set xrplAPIErrors" "w \<in> set names"
    by (auto simp: xrplAPIErrorNames_def)
  have "Matches (startsWith (alts (map lit names))) code (pre @ msg)"
    unfolding msg using api_name_words api alts_match [OF row(2) lit_match]
    by (intro startsWith_Matches [OF assms(2)]) (auto simp: list_all_iff word_char_def in_range_def)
  moreover have "startsWith (alts (map lit names)) \<in> fst ` set xrplErrorMappings"
    using row(1) by (force simp: xrplErrorMappings_def)
  ultimately have "ClassifyError None ChainFamilyXRP t code (pre @ msg) \<in> snd ` set xrplErrorMappings"
    by (intro xrpl_hit [of _ _ _ _ "[]"]) auto
  with not_unknown True show ?thesis by blast
qed

theorem xrpl_verdicts_classified_witness:
  "ClassifyError None ChainFamilyXRP TransportJsonRPC 0 ''tefPAST_SEQ: This sequence number has already passed.'' \<noteq> LavaErrorUnknown"
proof -
  let ?f = "\<lambda>k. if k = ''engine_result'' then ''tefPAST_SEQ''
      else if k = ''engine_result_message'' then ''This sequence number has already passed.'' else []"
  have "IsXRPLRejection ''tefPAST_SEQ''" by code_simp
  then have "checkXRPLSubmitResult ?f = Some ''tefPAST_SEQ: This sequence number has already passed.''"
    by (simp add: checkXRPLSubmitResult_def joinXRPLVerdict_def)
  from xrpl_verdicts_classified [OF this, of "[]" TransportJsonRPC 0] show ?thesis by (simp add: verdict_prefix_def)
qed

end
