(* ===== verification/AttemptHealth.thy ===== *)
theory AttemptHealth
  imports ErrorVerdicts Holdoff EndpointHealth
begin

text \<open>
  What one relay attempt means for the health of its endpoint: the error pipeline of
  \<open>src/protocol/chainlib/node_error_handler.go\<close>, the verdicts of
  \<open>src/protocol/rpcsmartrouter/error_mapper.go\<close>, the JSON-RPC sender (\<open>direct_rpc_relay.go\<close>), the health
  decisions of \<open>relayInnerDirect\<close> (\<open>rpcsmartrouter_server.go\<close>) and the replay of a failed request
  (\<open>recovery_probe.go\<close>).

  Errors are the dynamic types these functions tell apart. The JSON library and the parsing of a reply against
  the spec are arguments: \<open>unmarshal\<close> gives nothing when a body does not parse as a JSON-RPC message, and
  otherwise its error member, if any.
\<close>

section \<open>Errors of an attempt\<close>

text \<open>\<open>net/http\<close>'s status texts.\<close>

definition status_texts :: "(int \<times> string) list" where
  "status_texts = [
      (100, ''Continue''),
      (101, ''Switching Protocols''),
      (102, ''Processing''),
      (103, ''Early Hints''),
      (200, ''OK''),
      (201, ''Created''),
      (202, ''Accepted''),
      (203, ''Non-Authoritative Information''),
      (204, ''No Content''),
      (205, ''Reset Content''),
      (206, ''Partial Content''),
      (207, ''Multi-Status''),
      (208, ''Already Reported''),
      (226, ''IM Used''),
      (300, ''Multiple Choices''),
      (301, ''Moved Permanently''),
      (302, ''Found''),
      (303, ''See Other''),
      (304, ''Not Modified''),
      (305, ''Use Proxy''),
      (307, ''Temporary Redirect''),
      (308, ''Permanent Redirect''),
      (400, ''Bad Request''),
      (401, ''Unauthorized''),
      (402, ''Payment Required''),
      (403, ''Forbidden''),
      (404, ''Not Found''),
      (405, ''Method Not Allowed''),
      (406, ''Not Acceptable''),
      (407, ''Proxy Authentication Required''),
      (408, ''Request Timeout''),
      (409, ''Conflict''),
      (410, ''Gone''),
      (411, ''Length Required''),
      (412, ''Precondition Failed''),
      (413, ''Request Entity Too Large''),
      (414, ''Request URI Too Long''),
      (415, ''Unsupported Media Type''),
      (416, ''Requested Range Not Satisfiable''),
      (417, ''Expectation Failed''),
      (418, ''I'm a teapot''),
      (421, ''Misdirected Request''),
      (422, ''Unprocessable Entity''),
      (423, ''Locked''),
      (424, ''Failed Dependency''),
      (425, ''Too Early''),
      (426, ''Upgrade Required''),
      (428, ''Precondition Required''),
      (429, ''Too Many Requests''),
      (431, ''Request Header Fields Too Large''),
      (451, ''Unavailable For Legal Reasons''),
      (500, ''Internal Server Error''),
      (501, ''Not Implemented''),
      (502, ''Bad Gateway''),
      (503, ''Service Unavailable''),
      (504, ''Gateway Timeout''),
      (505, ''HTTP Version Not Supported''),
      (506, ''Variant Also Negotiates''),
      (507, ''Insufficient Storage''),
      (508, ''Loop Detected''),
      (510, ''Not Extended''),
      (511, ''Network Authentication Required'')]"

definition StatusText :: "int \<Rightarrow> string" where
  "StatusText code = (case map_of status_texts code of Some t \<Rightarrow> t | None \<Rightarrow> '''')"

text \<open>\<open>LavaError.Description\<close> of the registered codes and of the unknown error.\<close>

definition error_descriptions :: "(int \<times> string) list" where
  "error_descriptions = [
      (0, ''Unclassified error '' @ [CHR 0xE2, CHR 0x80, CHR 0x94] @ '' no matcher matched''),
      (1001, ''Network operation timed out connecting to provider''),
      (1002, ''Provider connection refused''),
      (1003, ''DNS resolution failed''),
      (1004, ''HTTP/HTTPS protocol mismatch''),
      (1005, ''Connection reset by peer''),
      (1006, ''Connection closed (EOF)''),
      (1009, ''Network or host unreachable (no route)''),
      (1007, ''Caller's context.Context deadline expired before the relay completed (can fire at any layer '' @ [CHR 0xE2, CHR 0x80, CHR 0x94] @ '' consumer request timeout, processing timeout, subrequest timeout)''),
      (1008, ''Request context was canceled (client disconnect or relay race resolved)''),
      (1010, ''No providers/pairings available''),
      (1011, ''All provider endpoints disabled''),
      (1012, ''Provider service unavailable (gRPC UNAVAILABLE)''),
      (1013, ''Provider aborted (gRPC ABORTED)''),
      (1014, ''Provider data loss (gRPC DATA_LOSS)''),
      (1015, ''Insufficient providers available for addon or cross-validation''),
      (1020, ''Lava-side rate limit exceeded''),
      (1021, ''Maximum compute units exceeded for session''),
      (1022, ''Batch request size exceeded limit''),
      (1023, ''CU accounting inconsistency or security violation''),
      (1030, ''Session does not exist''),
      (1031, ''Epoch mismatch or too old''),
      (1032, ''Consumer is blocklisted''),
      (1033, ''Consumer not registered''),
      (1034, ''Relay number mismatch''),
      (1035, ''Session out of sync''),
      (1036, ''Relay request validation failed (wrong provider/specID/chainID/seen block/content hash)''),
      (1037, ''Block height mismatch between consumer request and provider state''),
      (1038, ''Session accounting (OnSessionDone/OnSessionFailure) failed''),
      (1039, ''Subscription consumer removal (RemoveConsumer) failed''),
      (1040, ''Provider finalization data incorrect''),
      (1041, ''Response consistency validation failed''),
      (1042, ''Conflicting response hashes detected''),
      (1043, ''Relay race timeout '' @ [CHR 0xE2, CHR 0x80, CHR 0x94] @ '' no provider returned any response (success or error) within the protocol-level cutoff. Distinct from PROTOCOL_CONTEXT_DEADLINE (1007) which is the caller's own context expiring.''),
      (1044, ''Relay response processing failed on consumer side''),
      (1050, ''Subscription not found''),
      (1051, ''Failed to initialize subscription''),
      (1052, ''WebSocket idle timeout''),
      (1053, ''Subscription already exists for this consumer/key''),
      (2001, ''Node reports the method is not on its surface; another provider may serve it''),
      (2002, ''Method exists but is DISABLED on this specific node (provider tier / policy / admin config). Retryable on a different provider.''),
      (2003, ''Internal node error''),
      (2004, ''Generic server error''),
      (2005, ''Rate limited by node''),
      (2006, ''Node temporarily unavailable''),
      (2007, ''Node is syncing/catching up''),
      (2008, ''Method not implemented on this node (gRPC Unimplemented, HTTP 501); another provider may serve it''),
      (2009, ''Endpoint not found on this node; another provider may serve it''),
      (2010, ''HTTP method not allowed by this node (HTTP 405); another provider may serve it''),
      (2011, ''Request exceeds node limit (e.g., eth_getLogs range)''),
      (2012, ''Resource not found at node level''),
      (2013, ''Resource exists but unavailable''),
      (2014, ''Gateway timeout (HTTP 504 from provider)''),
      (2015, ''Bad gateway (HTTP 502 from provider)''),
      (2016, ''Upstream rejected router credentials (HTTP 401); another provider may serve it''),
      (2018, ''Endpoint refused the router (credentials, plan, WAF, region); another provider may serve it''),
      (2017, ''Endpoint does not hold the requested data (pruned or never existed)''),
      (2019, ''Node aborted the operation (gRPC ABORTED); on Sui, the validators' answer to a submitted transaction, retriable by the client with a new submission''),
      (2101, ''Node still warming up (RPC_IN_WARMUP, Bitcoin -28)''),
      (2102, ''Node in initial block download (RPC_CLIENT_IN_INITIAL_DOWNLOAD, Bitcoin -10)''),
      (2103, ''Node not connected / shutting down (RPC_CLIENT_NOT_CONNECTED, Bitcoin -9)''),
      (2150, ''Solana node behind/unhealthy (-32005)''),
      (3001, ''Nonce/sequence too low''),
      (3002, ''Nonce too high''),
      (3003, ''Insufficient funds for transfer/gas''),
      (3004, ''Intrinsic gas too low''),
      (3005, ''Exceeds block gas limit''),
      (3006, ''Transaction gas price too low''),
      (3007, ''Transaction already in mempool''),
      (3008, ''Replacement tx gas too low''),
      (3009, ''Mempool/tx pool is full''),
      (3010, ''Transaction exceeds size limit''),
      (3011, ''Max fee per gas below base fee''),
      (3012, ''Invalid sequence (Cosmos nonce equivalent)''),
      (3013, ''Insufficient fee''),
      (3014, ''Transaction rejected by network rules''),
      (3015, ''Double spend / UTXO already spent''),
      (3016, ''Invalid transaction signature''),
      (3101, ''Smart contract execution reverted''),
      (3102, ''Out of gas during execution''),
      (3103, ''Stack limit reached''),
      (3104, ''Invalid opcode encountered''),
      (3105, ''Write in STATICCALL context''),
      (3106, ''Contract bytecode exceeds 24KB EIP-170 limit (Geth: 'max code size exceeded')''),
      (3107, ''Account/contract does not exist''),
      (3108, ''Polygon zkEVM prover exceeded circuit counter budget''),
      (3201, ''Block not found''),
      (3202, ''Transaction not found''),
      (3203, ''Transaction receipt not found''),
      (3204, ''State pruned/missing trie node''),
      (3205, ''Historical data not available''),
      (3206, ''Block results only for recent blocks''),
      (3207, ''Log query returned too many results''),
      (3302, ''Slot missing in long-term storage (-32009)''),
      (3303, ''Missing due to ledger jump/snapshot (-32007)''),
      (3304, ''Blockhash not found/expired''),
      (3305, ''Transaction simulation failed (-32002)''),
      (3306, ''Signature verification failure (-32003)''),
      (3307, ''Excluded from account secondary indexes (-32010)''),
      (3308, ''Incorrectly formatted signature (-32013)''),
      (3309, ''Block status unavailable (-32014)''),
      (3310, ''Transaction version not supported (-32015)''),
      (3311, ''Minimum context slot not reached (-32016)''),
      (3320, ''Sequencer rejected transaction (code 1)''),
      (3321, ''Class hash not found (code 28)''),
      (3322, ''Sierra to CASM compilation failed (code 56)''),
      (3323, ''Class already declared (code 51)''),
      (3324, ''Contract error during execution (code 40)''),
      (3325, ''Transaction execution error (code 41)''),
      (3326, ''Invalid transaction nonce (code 52)''),
      (3327, ''Insufficient max fee (code 53)''),
      (3328, ''Insufficient account balance (code 54)''),
      (3329, ''Account validation failed (code 55)''),
      (3330, ''Contract address not found (code 20)''),
      (3331, ''Block not found (code 24)''),
      (3332, ''Transaction hash not found (code 29)''),
      (3333, ''Duplicate transaction in mempool (code 59)''),
      (3334, ''Unsupported transaction version (code 61)''),
      (3335, ''Unexpected server error (code 63)''),
      (3341, ''Transaction/block verification failed (RPC_VERIFY_ERROR, Bitcoin -25)''),
      (3342, ''Transaction rejected by network rules (RPC_VERIFY_REJECTED, Bitcoin -26)''),
      (3343, ''Transaction already confirmed (RPC_VERIFY_ALREADY_IN_CHAIN, Bitcoin -27)''),
      (3344, ''Wallet UTXO coin selection failed (RPC_WALLET_INSUFFICIENT_FUNDS, Bitcoin -6). Distinct from EVM CHAIN_INSUFFICIENT_FUNDS (3003) which is a tx submission failure.''),
      (3360, ''Block not found or garbage-collected (UNKNOWN_BLOCK)''),
      (3361, ''Chunk not found (UNKNOWN_CHUNK)''),
      (3362, ''Shard ID does not exist (INVALID_SHARD_ID)''),
      (3363, ''Node still syncing (NOT_SYNCED_YET)''),
      (4001, ''Invalid JSON in request''),
      (4002, ''Request is not a valid JSON-RPC/REST/gRPC object''),
      (4003, ''Invalid method parameters''),
      (4004, ''Invalid block number format (e.g., non-hex)''),
      (4005, ''Invalid address format''),
      (4006, ''Request body exceeds size limit''),
      (4007, ''Invalid hex encoding'')]"

definition Description :: "LavaError \<Rightarrow> string" where
  "Description le = (case map_of error_descriptions (Code le) of Some d \<Rightarrow> d | None \<Rightarrow> '''')"

text \<open>\<open>HTTPStatusError\<close> carries the status code, the upstream's status line, its body and the \<open>Retry-After\<close>;
  \<open>LavaWrappedError\<close> a verdict around its cause; any other error is what \<open>DetectConnectionError\<close> asks of it
  and its gRPC status, if it has one.\<close>

datatype direct_err =
    HTTPStatusError int string string duration
  | LavaWrappedError LavaError direct_err
  | OtherError conn_error "(int \<times> string) option"

definition HTTPStatusError_Error :: "int \<Rightarrow> string" where
  "HTTPStatusError_Error code =
     (if StatusText code \<noteq> '''' then ''HTTP '' @ format_int code @ '' '' @ StatusText code
      else ''HTTP '' @ format_int code)"

fun Error :: "direct_err \<Rightarrow> string" where
  "Error (HTTPStatusError code status body ra) = HTTPStatusError_Error code"
| "Error (LavaWrappedError le cause) =
     (if Error cause \<noteq> '''' then Error cause @ '': '' @ Description le else LavaError_String le)"
| "Error (OtherError c st) = err_text c"

text \<open>What the sentinel and type lookups see through the wrappers; the text is the error's own.\<close>

definition no_conn_error :: "string \<Rightarrow> conn_error" where
  "no_conn_error msg =
     \<lparr>is_Canceled = False, is_DeadlineExceeded = False, is_net_timeout = False, is_DNSError = False, is_EOF = False,
      err_text = msg, op_errno = None, is_undelivered = False\<rparr>"

fun lookup_view :: "direct_err \<Rightarrow> conn_error" where
  "lookup_view (HTTPStatusError code status body ra) = no_conn_error ''''"
| "lookup_view (LavaWrappedError le cause) = lookup_view cause"
| "lookup_view (OtherError c st) = c"

definition conn_view :: "direct_err \<Rightarrow> conn_error" where
  "conn_view e = (lookup_view e)\<lparr>err_text := Error e\<rparr>"

text \<open>\<open>status.FromError\<close>: a wrapped status keeps its code and takes the outer text.\<close>

fun FromError :: "direct_err \<Rightarrow> (int \<times> string) option" where
  "FromError (HTTPStatusError code status body ra) = None"
| "FromError (LavaWrappedError le cause) = map_option (\<lambda>(c, _). (c, Error (LavaWrappedError le cause))) (FromError cause)"
| "FromError (OtherError c st) = st"

fun AsLavaError :: "direct_err \<Rightarrow> LavaError option" where
  "AsLavaError (LavaWrappedError le cause) = Some le"
| "AsLavaError _ = None"

fun as_HTTPStatusError :: "direct_err \<Rightarrow> direct_err option" where
  "as_HTTPStatusError (HTTPStatusError code status body ra) = Some (HTTPStatusError code status body ra)"
| "as_HTTPStatusError (LavaWrappedError le cause) = as_HTTPStatusError cause"
| "as_HTTPStatusError (OtherError c st) = None"

section \<open>The classification pipeline\<close>

type_synonym unmarshal = "string \<Rightarrow> (int \<times> string) option option"

fun httpErrorParts :: "direct_err \<Rightarrow> (int \<times> string) option" where
  "httpErrorParts (HTTPStatusError code status body ra) = Some (code, body)"
| "httpErrorParts _ = None"

definition TryRecoverNodeErrorFromClientError :: "unmarshal \<Rightarrow> direct_err \<Rightarrow> (int \<times> string) option option" where
  "TryRecoverNodeErrorFromClientError unmarshal e =
     (case httpErrorParts e of Some (_, body) \<Rightarrow> unmarshal body | None \<Rightarrow> None)"

definition ExtractNodeErrorDetails :: "unmarshal \<Rightarrow> direct_err \<Rightarrow> int \<times> string" where
  "ExtractNodeErrorDetails unmarshal e =
     (case TryRecoverNodeErrorFromClientError unmarshal e of
        Some (Some (code, msg)) \<Rightarrow>
          (let m = (if msg \<noteq> '''' then msg else Error e)
           in case httpErrorParts e of
                Some (statusCode, _) \<Rightarrow>
                  (code, if statusCode < 200 \<or> statusCode \<ge> 300 then ''HTTP '' @ format_int statusCode @ '': '' @ m else m)
              | None \<Rightarrow> (code, m))
      | _ \<Rightarrow>
          (case FromError e of
             Some (code, msg) \<Rightarrow> (code, if msg \<noteq> '''' then msg else Error e)
           | None \<Rightarrow>
               (case httpErrorParts e of
                  Some (statusCode, _) \<Rightarrow> (statusCode, Error e)
                | None \<Rightarrow> (0, Error e))))"

definition ClassifyNodeErrorWithDetails :: "unmarshal \<Rightarrow> direct_err option \<Rightarrow> ChainFamily \<Rightarrow> TransportType \<Rightarrow> LavaError option \<times> int \<times> string" where
  "ClassifyNodeErrorWithDetails unmarshal err family transport =
     (case err of
        None \<Rightarrow> (None, 0, '''')
      | Some e \<Rightarrow>
          (case ExtractNodeErrorDetails unmarshal e of
             (code, msg) \<Rightarrow> (Some (ClassifyError (DetectConnectionError (Some (conn_view e))) family transport code msg), code, msg)))"

definition ClassifyNodeError :: "unmarshal \<Rightarrow> direct_err option \<Rightarrow> ChainFamily \<Rightarrow> TransportType \<Rightarrow> LavaError option" where
  "ClassifyNodeError unmarshal err family transport = fst (ClassifyNodeErrorWithDetails unmarshal err family transport)"

definition chainlib_IsUnsupportedMethodError :: "unmarshal \<Rightarrow> direct_err option \<Rightarrow> bool" where
  "chainlib_IsUnsupportedMethodError unmarshal err =
     (err \<noteq> None \<and> list_ex (\<lambda>t. case ClassifyNodeError unmarshal err ChainFamilyUnknown t of
                               Some c \<Rightarrow> IsUnsupportedMethod (SubCategory c) | None \<Rightarrow> False) transports)"

definition IsUnsupportedMethodErrorType :: "direct_err \<Rightarrow> bool" where
  "IsUnsupportedMethodErrorType e = (case AsLavaError e of Some le \<Rightarrow> IsUnsupportedMethod (SubCategory le) | None \<Rightarrow> False)"

definition IsSolanaNonRetryableErrorType :: "direct_err \<Rightarrow> bool" where
  "IsSolanaNonRetryableErrorType e = (case AsLavaError e of Some le \<Rightarrow> \<not> Retryable le | None \<Rightarrow> False)"

definition IsSolanaNonRetryableError :: "unmarshal \<Rightarrow> direct_err option \<Rightarrow> bool" where
  "IsSolanaNonRetryableError unmarshal err =
     (case ClassifyNodeError unmarshal err ChainFamilySolana TransportJsonRPC of
        Some c \<Rightarrow> c = LavaErrorChainSolanaMissingLongTerm \<or> c = LavaErrorUserInvalidParams
      | None \<Rightarrow> False)"

definition ShouldRetryErrorWithContext :: "unmarshal \<Rightarrow> direct_err option \<Rightarrow> ChainFamily \<Rightarrow> TransportType \<Rightarrow> bool" where
  "ShouldRetryErrorWithContext unmarshal err family transport =
     (case err of
        None \<Rightarrow> False
      | Some e \<Rightarrow>
          if IsUnsupportedMethodErrorType e then False
          else if IsSolanaNonRetryableErrorType e then False
          else case ClassifyNodeError unmarshal err family transport of
                 Some c \<Rightarrow>
                   if c \<noteq> LavaErrorUnknown then (if IsUnsupportedMethod (SubCategory c) then False else Retryable c)
                   else True
               | None \<Rightarrow> True)"

definition ShouldRetryError :: "unmarshal \<Rightarrow> direct_err option \<Rightarrow> bool" where
  "ShouldRetryError unmarshal err = ShouldRetryErrorWithContext unmarshal err ChainFamilyUnknown TransportJsonRPC"

section \<open>Verdicts of an attempt\<close>

definition endsRelay :: "unmarshal \<Rightarrow> LavaError \<Rightarrow> direct_err \<Rightarrow> bool" where
  "endsRelay unmarshal verdict e =
     (chainlib_IsUnsupportedMethodError unmarshal (Some (LavaWrappedError verdict e))
      \<or> \<not> ShouldRetryError unmarshal (Some (LavaWrappedError verdict e)))"

definition retryVerdict :: "unmarshal \<Rightarrow> direct_err \<Rightarrow> LavaError \<Rightarrow> ChainFamily \<Rightarrow> TransportType \<Rightarrow> LavaError" where
  "retryVerdict unmarshal e classified family transport =
     (case e of
        HTTPStatusError code status body ra \<Rightarrow>
          if body = '''' \<or> \<not> endsRelay unmarshal classified e then classified
          else (case ClassifyNodeError unmarshal (Some (HTTPStatusError code status '''' 0)) family transport of
                  Some statusOnly \<Rightarrow> if endsRelay unmarshal statusOnly e then classified else statusOnly
                | None \<Rightarrow> classified)
      | _ \<Rightarrow> classified)"

text \<open>The classification and the wrapped error; a nil error is \<open>None\<close>.\<close>

definition classifyDirectRPCError :: "unmarshal \<Rightarrow> direct_err option \<Rightarrow> ChainFamily \<Rightarrow> TransportType \<Rightarrow> LavaError \<times> direct_err option" where
  "classifyDirectRPCError unmarshal err family transport =
     (case err of
        None \<Rightarrow> (LavaErrorUnknown, None)
      | Some e \<Rightarrow>
          (case ClassifyNodeError unmarshal (Some e) family transport of
             Some classified \<Rightarrow> (classified, Some (LavaWrappedError (retryVerdict unmarshal e classified family transport) e))
           | None \<Rightarrow> (LavaErrorUnknown, None)))"

definition classifyAndWrap :: "unmarshal \<Rightarrow> direct_err option \<Rightarrow> ChainFamily \<Rightarrow> TransportType \<Rightarrow> direct_err option" where
  "classifyAndWrap unmarshal err family transport =
     (if err = None then None else snd (classifyDirectRPCError unmarshal err family transport))"

definition healthVerdict :: "unmarshal \<Rightarrow> direct_err \<Rightarrow> ChainFamily \<Rightarrow> TransportType \<Rightarrow> LavaError" where
  "healthVerdict unmarshal e family transport =
     (case as_HTTPStatusError e of
        Some httpErr \<Rightarrow> fst (classifyDirectRPCError unmarshal (Some httpErr) family TransportJsonRPC)
      | None \<Rightarrow>
          (case AsLavaError e of
             Some le \<Rightarrow> le
           | None \<Rightarrow> the (ClassifyNodeError unmarshal (Some e) family transport)))"

text \<open>\<open>budgetExpired\<close> is the callback's answer, \<open>None\<close> when there is no callback.\<close>

definition endpointCancellationIsExempt :: "bool \<Rightarrow> bool option \<Rightarrow> bool" where
  "endpointCancellationIsExempt isClientCancel budgetExpired =
     (if \<not> isClientCancel then False else budgetExpired = None \<or> budgetExpired = Some False)"

definition classifyEndpointHealth :: "LavaError option \<Rightarrow> bool \<Rightarrow> bool \<times> bool" where
  "classifyEndpointHealth classified isClientCancellation =
     (case classified of
        None \<Rightarrow> (False, False)
      | Some c \<Rightarrow>
          if isClientCancellation then (False, False)
          else if IsUnsupportedMethod (SubCategory c) \<or> IsNodeCapability (SubCategory c) \<or> IsDataScope (SubCategory c) then (False, False)
          else if IsRateLimited (Some c) then (False, True)
          else if c = LavaErrorUnknown then (True, True)
          else (EndpointAtFault (Some c), EndpointAtFault (Some c)))"

definition endpointDisableReasonFor :: "LavaError option \<Rightarrow> string" where
  "endpointDisableReasonFor classified =
     (case classified of
        None \<Rightarrow> EndpointDisableUnspecified
      | Some c \<Rightarrow> if Category c = CategoryInternal then EndpointDisableUnreachable else EndpointDisableNodeError)"

definition classifyHTTPStatus :: "int \<Rightarrow> LavaError option \<Rightarrow> bool \<times> bool" where
  "classifyHTTPStatus code classified =
     (if code = 501 then (True, True)
      else if code < 500 \<and> code \<noteq> 429 then (False, False)
      else classifyEndpointHealth classified False)"

section \<open>The result of an attempt\<close>

record direct_result =
  dr_StatusCode :: int
  dr_Data :: string
  dr_IsNodeError :: bool
  dr_IsNonRetryable :: bool
  dr_IsUnsupportedMethod :: bool
  dr_IsRateLimited :: bool
  dr_IsDataScope :: bool
  dr_IsNodeCapability :: bool
  dr_IsNodeAtFault :: bool

definition applyClassification :: "NodeErrorClassification \<Rightarrow> direct_result \<Rightarrow> direct_result" where
  "applyClassification c r =
     r\<lparr>dr_IsNonRetryable := nec_IsNonRetryable c, dr_IsUnsupportedMethod := nec_IsUnsupportedMethod c,
       dr_IsRateLimited := nec_IsRateLimited c, dr_IsDataScope := nec_IsDataScope c,
       dr_IsNodeCapability := nec_IsNodeCapability c, dr_IsNodeAtFault := nec_IsNodeAtFault c\<rparr>"

definition ApplyNodeErrorClassification :: "ChainFamily \<Rightarrow> TransportType \<Rightarrow> int \<Rightarrow> string \<Rightarrow> direct_result \<Rightarrow> direct_result" where
  "ApplyNodeErrorClassification family transport errorCode msg r =
     applyClassification (ClassifyNodeErrorForRetry family transport errorCode msg) r"

definition ExtractJSONRPCErrorCode :: "unmarshal \<Rightarrow> string \<Rightarrow> int" where
  "ExtractJSONRPCErrorCode unmarshal data = (case unmarshal data of Some (Some (code, _)) \<Rightarrow> code | _ \<Rightarrow> 0)"

definition classifyJSONRPCNodeError :: "unmarshal \<Rightarrow> ChainFamily \<Rightarrow> int \<Rightarrow> string \<Rightarrow> string \<Rightarrow> direct_result \<Rightarrow> direct_result" where
  "classifyJSONRPCNodeError unmarshal family statusCode responseData errorMessage r =
     (let jsonrpcCode = ExtractJSONRPCErrorCode unmarshal responseData;
          errorCode = (if jsonrpcCode \<noteq> 0 then jsonrpcCode else statusCode);
          odd = (statusCode < 200 \<or> statusCode \<ge> 300);
          msg = (if odd then ''HTTP '' @ format_int statusCode @ '': '' @ errorMessage else errorMessage);
          r1 = ApplyNodeErrorClassification family TransportJsonRPC errorCode msg r
      in if \<not> dr_IsNonRetryable r1 \<and> odd \<and> statusCode \<noteq> errorCode then
           let v = ClassifyNodeErrorForRetry family TransportJsonRPC statusCode msg
           in r1\<lparr>dr_IsNonRetryable := nec_IsNonRetryable v,
                 dr_IsNodeCapability := (if nec_IsNodeCapability v then True else dr_IsNodeCapability r1)\<rparr>
         else r1)"

text \<open>The JSON-RPC sender behind the HTTP exchange: \<open>json_valid\<close> and \<open>checkResponse\<close> (\<open>CheckResponseError\<close>) read the
  body.\<close>

definition sendJSONRPCRelay :: "unmarshal \<Rightarrow> (string \<Rightarrow> bool) \<Rightarrow> (string \<Rightarrow> int \<Rightarrow> bool \<times> string) \<Rightarrow> ChainFamily \<Rightarrow>
    direct_err + int \<times> string \<times> string \<Rightarrow> direct_err + direct_result" where
  "sendJSONRPCRelay unmarshal json_valid checkResponse family answer =
     (case answer of
        Inl e \<Rightarrow> Inl (the (classifyAndWrap unmarshal (Some e) family TransportJsonRPC))
      | Inr (statusCode, status, body) \<Rightarrow>
          if statusCode \<ge> 500 then
            Inl (the (classifyAndWrap unmarshal (Some (HTTPStatusError statusCode status body 0)) family TransportJsonRPC))
          else if statusCode \<ge> 200 \<and> statusCode < 300 \<and> body \<noteq> '''' \<and> \<not> json_valid body then
            Inl (the (classifyAndWrap unmarshal
              (Some (OtherError (no_conn_error ''malformed JSON-RPC response: body is not valid JSON'') None)) family TransportJsonRPC))
          else
            (case checkResponse body statusCode of
               (hasError, msg) \<Rightarrow>
                 let r = \<lparr>dr_StatusCode = statusCode, dr_Data = body, dr_IsNodeError = hasError, dr_IsNonRetryable = False,
                          dr_IsUnsupportedMethod = False, dr_IsRateLimited = False, dr_IsDataScope = False,
                          dr_IsNodeCapability = False, dr_IsNodeAtFault = False\<rparr>
                 in Inr (if hasError then classifyJSONRPCNodeError unmarshal family statusCode body msg r else r)))"

definition shouldFailSessionForResult :: "direct_err option \<Rightarrow> direct_result option \<Rightarrow> bool" where
  "shouldFailSessionForResult err res =
     (if err \<noteq> None then True
      else case res of
             None \<Rightarrow> False
           | Some r \<Rightarrow>
               if dr_StatusCode r \<ge> 500 \<or> dr_StatusCode r = 429 then True
               else dr_IsNodeError r \<and> \<not> dr_IsNonRetryable r \<and> \<not> dr_IsRateLimited r \<and> \<not> dr_IsDataScope r \<and> \<not> dr_IsNodeCapability r)"

definition relayProvesEndpointHealthy :: "direct_result option \<Rightarrow> bool" where
  "relayProvesEndpointHealthy res =
     (case res of
        None \<Rightarrow> False
      | Some r \<Rightarrow> if dr_IsNodeError r then False else dr_StatusCode r = 0 \<or> (dr_StatusCode r \<ge> 200 \<and> dr_StatusCode r < 300))"

definition ServerErrorIsNodeReply :: "(string \<Rightarrow> bool) \<Rightarrow> int \<Rightarrow> string \<Rightarrow> bool" where
  "ServerErrorIsNodeReply json_valid code data =
     (if code < 500 \<or> data = '''' \<or> \<not> json_valid data then False
      else \<not> MayHaveReachedNode (ClassifyError None ChainFamilyUnknown TransportREST code ''''))"

definition directRelayTransport :: "string \<Rightarrow> DirectRPCProtocol \<Rightarrow> TransportType" where
  "directRelayTransport apiInterface protocol =
     (case protocol of
        ProtocolGRPC \<Rightarrow> TransportGRPC
      | ProtocolHTTP \<Rightarrow> (if ApiInterfaceToTransport apiInterface = TransportREST then TransportREST else TransportJsonRPC)
      | ProtocolHTTPS \<Rightarrow> (if ApiInterfaceToTransport apiInterface = TransportREST then TransportREST else TransportJsonRPC)
      | _ \<Rightarrow> TransportJsonRPC)"

definition directRelayChainFamily :: "string \<Rightarrow> ChainFamily" where
  "directRelayChainFamily chain = (case GetChainFamily chain of Some f \<Rightarrow> f | None \<Rightarrow> ChainFamilyUnknown)"

section \<open>The effect on the endpoint\<close>

record chain_message =
  cm_Name :: string
  cm_Stateful :: int
  cm_HangingApi :: bool
  cm_FunctionTag :: "int option"

definition CONSISTENCY_SELECT_ALL_PROVIDERS :: int where "CONSISTENCY_SELECT_ALL_PROVIDERS = 1"
definition FUNCTION_TAG_SUBSCRIBE :: int where "FUNCTION_TAG_SUBSCRIBE = 7"

fun isBatchPayload :: "string \<Rightarrow> bool" where
  "isBatchPayload [] = False"
| "isBatchPayload (b # bs) =
     (if b = CHR '' '' \<or> b = CHR 0x09 \<or> b = CHR 0x0D \<or> b = CHR 0x0A then isBatchPayload bs else b = CHR ''['')"

definition recordRelayProbeEvidence :: "string \<Rightarrow> chain_message \<Rightarrow> string \<Rightarrow> duration \<Rightarrow> Endpoint \<Rightarrow> Endpoint" where
  "recordRelayProbeEvidence apiInterface msg requestData relayTimeout e =
     (if apiInterface \<noteq> ''jsonrpc'' then e
      else if cm_Stateful msg = CONSISTENCY_SELECT_ALL_PROVIDERS then e
      else if cm_HangingApi msg then e
      else if cm_FunctionTag msg = Some FUNCTION_TAG_SUBSCRIBE then e
      else if isBatchPayload requestData then e
      else RecordFailingRelay (cm_Name msg) requestData relayTimeout e)"

definition recordRelayEvidence :: "string \<Rightarrow> bool \<Rightarrow> chain_message \<Rightarrow> string \<Rightarrow> duration \<Rightarrow> Endpoint \<Rightarrow> Endpoint" where
  "recordRelayEvidence apiInterface routerHealthCheck msg requestData relayTimeout e =
     (if routerHealthCheck \<and> \<not> ep_Enabled e then e
      else recordRelayProbeEvidence apiInterface msg requestData relayTimeout e)"

definition lostBroadcastRejection :: "bool \<Rightarrow> bool \<Rightarrow> int \<Rightarrow> bool" where
  "lostBroadcastRejection stateful answeredWithNodeError acceptedElsewhere \<longleftrightarrow>
     stateful \<and> answeredWithNodeError \<and> acceptedElsewhere > 0"

text \<open>Where an attempt runs and what its callbacks answer; \<open>lostBroadcast\<close> is \<open>None\<close> outside a broadcast.\<close>

record attempt =
  at_ApiInterface :: string
  at_ChainID :: string
  at_Protocol :: DirectRPCProtocol
  at_Message :: chain_message
  at_RequestData :: string
  at_RelayTimeout :: duration
  at_HealthCheck :: bool
  at_ClientCancel :: bool
  at_BudgetExpired :: "bool option"
  at_LostBroadcast :: "(bool \<Rightarrow> bool) option"
  at_RetryAfter :: duration

text \<open>\<open>relayInnerDirect\<close> behind the sender: the endpoint, the calls to the health gauge and the error the attempt
  fails with, if any.\<close>

definition relayInnerDirect :: "int \<Rightarrow> time \<Rightarrow> unmarshal \<Rightarrow> (string \<Rightarrow> bool) \<Rightarrow> attempt \<Rightarrow> direct_err + direct_result \<Rightarrow> Endpoint \<Rightarrow>
    Endpoint \<times> bool list \<times> direct_err option" where
  "relayInnerDirect maxA now unmarshal json_valid a sent e =
     (let family = directRelayChainFamily (at_ChainID a);
          transport = directRelayTransport (at_ApiInterface a) (at_Protocol a);
          record_evidence = recordRelayEvidence (at_ApiInterface a) (at_HealthCheck a) (at_Message a) (at_RequestData a) (at_RelayTimeout a)
      in case sent of
           Inl err \<Rightarrow>
             let classified = healthVerdict unmarshal err family transport
             in if fst (classifyEndpointHealth (Some classified) (endpointCancellationIsExempt (at_ClientCancel a) (at_BudgetExpired a)))
                then (markUnhealthyAt maxA now (endpointDisableReasonFor (Some classified)) (record_evidence e), [False], Some err)
                else (e, [], Some err)
         | Inr r \<Rightarrow>
             let code = dr_StatusCode r;
                 carriesNodeReply = (dr_IsNodeError r \<and> ServerErrorIsNodeReply json_valid code (dr_Data r))
             in if (code \<ge> 500 \<and> code \<noteq> 501 \<and> \<not> carriesNodeReply) \<or> code = 429 then
                  let statusClassified = ClassifyError None family transport code '''';
                      err = Some (HTTPStatusError code '''' (dr_Data r) (if code = 429 then at_RetryAfter a else 0))
                  in if fst (classifyHTTPStatus code (Some statusClassified))
                     then (markUnhealthyAt maxA now (endpointDisableReasonFor (Some statusClassified)) (record_evidence e), [False], err)
                     else (e, [], err)
                else if dr_IsNodeAtFault r \<and> (case at_LostBroadcast a of None \<Rightarrow> True | Some lost \<Rightarrow> \<not> lost (dr_IsNodeError r)) then
                  (markUnhealthyAt maxA now EndpointDisableNodeError (record_evidence e), [False], None)
                else if relayProvesEndpointHealthy (Some r) then
                  (if at_HealthCheck a \<and> \<not> ep_Enabled e then (e, [], None)
                   else case ResetHealth e of (changed, e') \<Rightarrow> (e', if changed then [True] else [], None))
                else (e, [], None))"

section \<open>The replay of a failed request\<close>

definition minRelayProbeTimeout :: duration where "minRelayProbeTimeout = 10 * second"

definition judgedByItsBody :: "unmarshal \<Rightarrow> int \<Rightarrow> string \<Rightarrow> bool" where
  "judgedByItsBody unmarshal code body =
     (if code < 500 \<or> code = 501 then False
      else case unmarshal body of Some (Some _) \<Rightarrow> True | _ \<Rightarrow> False)"

text \<open>The HTTP connection's \<open>SendRequest\<close>: a reply with a status of 400 or more is an error.\<close>

definition SendRequest :: "direct_err + int \<times> string \<times> string \<times> duration \<Rightarrow> direct_err + string" where
  "SendRequest answer =
     (case answer of
        Inl e \<Rightarrow> Inl e
      | Inr (code, status, body, retryAfter) \<Rightarrow> if code \<ge> 400 then Inl (HTTPStatusError code status body retryAfter) else Inr body)"

text \<open>The verdict on the outcome of the replay and what the hold-off registry learns: \<open>None\<close> nothing, \<open>Some (Inl ra)\<close> a
  refusal for rate, \<open>Some (Inr ())\<close> an answer. A missing response is \<open>Inr None\<close>. \<open>unmarshalErr\<close> reads the error
  member only.\<close>

definition judge_replay :: "unmarshal \<Rightarrow> unmarshal \<Rightarrow> ChainFamily \<Rightarrow> direct_err + string option \<Rightarrow>
    relayProbeVerdict \<times> (duration + unit) option" where
  "judge_replay unmarshal unmarshalErr family sent =
     (let by_verdict = (\<lambda>classified.
            if IsRateLimited (Some classified) then (relayProbeInconclusive, Some (Inl 0))
            else if fst (classifyEndpointHealth (Some classified) False) then (relayProbeStillFailing, None)
            else (relayProbeRecovered, Some (Inr ())))
      in case sent of
           Inl err \<Rightarrow>
             (case err of
                HTTPStatusError code status body retryAfter \<Rightarrow>
                  if judgedByItsBody unmarshal code body then
                    by_verdict (fst (classifyDirectRPCError unmarshal (Some err) family TransportJsonRPC))
                  else if code = 429 then (relayProbeInconclusive, Some (Inl retryAfter))
                  else if code = 501 then (relayProbeRecovered, None)
                  else if fst (classifyHTTPStatus code (Some (ClassifyError None family TransportJsonRPC code ''''))) then
                    (relayProbeStillFailing, None)
                  else (relayProbeInconclusive, None)
              | _ \<Rightarrow> by_verdict (fst (classifyDirectRPCError unmarshal (Some err) family TransportJsonRPC)))
         | Inr None \<Rightarrow> (relayProbeInconclusive, None)
         | Inr (Some data) \<Rightarrow>
             (if data = '''' then (relayProbeInconclusive, None)
              else case unmarshalErr data of
                     None \<Rightarrow> (relayProbeInconclusive, None)
                   | Some None \<Rightarrow> (relayProbeRecovered, Some (Inr ()))
                   | Some (Some (code, msg)) \<Rightarrow> by_verdict (ClassifyError None family TransportJsonRPC code msg)))"

text \<open>The whole replay: the exchange \<open>sent\<close> runs under the given budget; the random draw of the hold-off's jitter is
  \<open>rnd\<close>.\<close>

definition replayFailingRelay :: "unmarshal \<Rightarrow> unmarshal \<Rightarrow> string \<Rightarrow> string \<Rightarrow> string \<Rightarrow> bool \<Rightarrow> string \<Rightarrow> duration \<Rightarrow>
    (duration \<Rightarrow> direct_err + string option) \<Rightarrow> time \<Rightarrow> real \<Rightarrow> registry \<Rightarrow> relayProbeVerdict \<times> registry" where
  "replayFailingRelay unmarshal unmarshalErr chain provider url hasConn payload relayTimeout sent now rnd reg =
     (if \<not> hasConn \<or> payload = '''' then (relayProbeInconclusive, reg)
      else if HeldOff reg now provider url then (relayProbeInconclusive, reg)
      else case judge_replay unmarshal unmarshalErr (directRelayChainFamily chain)
                  (sent (if relayTimeout < minRelayProbeTimeout then minRelayProbeTimeout else relayTimeout)) of
             (v, None) \<Rightarrow> (v, reg)
           | (v, Some (Inl ra)) \<Rightarrow> (v, fst (RecordRateLimit reg now rnd provider url ra))
           | (v, Some (Inr _)) \<Rightarrow> (v, RecordAnswer reg provider url))"

section \<open>Bare statuses\<close>

text \<open>What a row of a table may say of a bare status: only rows that blame match from 500 on (501 apart), only
  rate-limit rows match 429, and no row matches the empty text.\<close>

fun row_reads_status :: "errorMapping \<Rightarrow> bool" where
  "row_reads_status (codeEqualsMatcher c, le) =
     (if c = 429 then classifyEndpointHealth (Some le) False = (False, True)
      else c < 500 \<or> c = 501 \<or> classifyEndpointHealth (Some le) False = (True, True))"
| "row_reads_status (messageContainsMatcher s, le) = (s \<noteq> '''')"
| "row_reads_status (messageRegexMatcher re, le) = (\<not> MatchString re '''')"
| "row_reads_status (codeAndMessageMatcher c s, le) = (s \<noteq> '''')"
| "row_reads_status (httpStatusMatcher s, le) = (s \<noteq> '''')"
| "row_reads_status (grpcCodeMatcher c, le) = (c < 429)"

lemma to_lower_Nil [simp]: "to_lower s = [] \<longleftrightarrow> s = []"
  by (simp add: to_lower_def)

lemma not_in_empty: "s \<noteq> [] \<Longrightarrow> \<not> str_contains [] s" "s \<noteq> [] \<Longrightarrow> \<not> http_status_loop s []"
  by (cases s; simp add: http_status_loop.simps)+

lemma row_match_reads:
  assumes "row_reads_status (m, le)" "Matches m code ''''" "code = 429 \<or> 500 \<le> code" "code \<noteq> 501"
  shows "classifyEndpointHealth (Some le) False = (code \<noteq> 429, True)"
  using assms by (cases m) (auto simp: not_in_empty to_lower_def split: if_splits)

lemma chain_tables_read:
  "list_all row_reads_status solanaErrorMappings" "list_all row_reads_status bitcoinErrorMappings"
  "list_all row_reads_status cosmosErrorMappings" "list_all row_reads_status starknetErrorMappings"
  "list_all row_reads_status nearErrorMappings" "list_all row_reads_status xrplErrorMappings"
  by code_simp+

lemma generic_tables_read:
  "list_all row_reads_status jsonRPCErrorMappings" "list_all row_reads_status restErrorMappings"
  "list_all row_reads_status httpStatusCodeMappings" "list_all row_reads_status httpStatusMessageMappings"
  by code_simp+

lemma tables_read: "t \<noteq> TransportGRPC \<Longrightarrow> list_all row_reads_status (chainErrorMappings f @ genericErrorMappings t)"
  by (cases f; cases t) (simp_all add: chainErrorMappings_def chain_tables_read generic_tables_read)

lemma limit_row: "t \<noteq> TransportGRPC \<Longrightarrow> (CodeEquals 429, LavaErrorNodeRateLimited) \<in> set (genericErrorMappings t)"
proof -
  have "(CodeEquals 429, LavaErrorNodeRateLimited) \<in> set jsonRPCErrorMappings"
    unfolding jsonRPCErrorMappings_def list.set by (rule insertI1 | rule insertI2)+
  moreover have "(429, LavaErrorNodeRateLimited, LavaErrorNodeRateLimited) \<in> set httpStatusRows"
    unfolding httpStatusRows_def list.set by (rule insertI1 | rule insertI2)+
  then have "(CodeEquals 429, LavaErrorNodeRateLimited) \<in> set httpStatusCodeMappings"
    unfolding httpStatusCodeMappings_def by force
  moreover assume "t \<noteq> TransportGRPC"
  ultimately show ?thesis by (cases t) simp_all
qed

lemma find_hit: "x \<in> set xs \<Longrightarrow> P x \<Longrightarrow> find P xs \<noteq> None"
  by (induction xs) auto

lemma bare_status_verdict:
  assumes "t \<noteq> TransportGRPC" "code = 429 \<or> 500 \<le> code" "code \<noteq> 501"
  shows "classifyEndpointHealth (Some (ClassifyError None f t code '''')) False = (code \<noteq> 429, True)"
proof (cases "find (\<lambda>(m, _). Matches m code '''') (chainErrorMappings f @ genericErrorMappings t)")
  case None
  have "code \<noteq> 429"
  proof
    assume "code = 429"
    have "(CodeEquals 429, LavaErrorNodeRateLimited) \<in> set (chainErrorMappings f @ genericErrorMappings t)" using limit_row [OF assms(1)] by simp
    from find_hit [OF this, of "\<lambda>(m, _). Matches m code ''''"] \<open>code = 429\<close> None show False by (simp add: CodeEquals_def)
  qed
  moreover have "ClassifyError None f t code '''' = LavaErrorUnknown"
    using None by (simp add: ClassifyError_reference reference_verdict_def)
  ultimately show ?thesis
    by (simp add: classifyEndpointHealth_def LavaErrorUnknown_def IsRateLimited_def fault_axes)
next
  case (Some row)
  obtain m le where row: "row = (m, le)" by (cases row)
  from find_in_set [OF Some] row have m: "(m, le) \<in> set (chainErrorMappings f @ genericErrorMappings t)" "Matches m code ''''" by auto
  have "row_reads_status (m, le)" using m(1) tables_read [OF assms(1), of f] by (auto simp: list_all_iff)
  from row_match_reads [OF this m(2) assms(2,3)] reference_hit Some row show ?thesis by simp
qed

text \<open>For every chain and every HTTP status the registry's verdict on the bare status gives the status rule on
  JSON-RPC and REST: from 500 on the endpoint is marked unhealthy and backed off, on 429 it is backed off only,
  on any other status neither.\<close>

theorem status_rule_agrees:
  assumes "t \<noteq> TransportGRPC"
  shows "classifyHTTPStatus code (Some (ClassifyError None f t code '''')) = (500 \<le> code, 500 \<le> code \<or> code = 429)"
  using bare_status_verdict [OF assms, of code f] by (auto simp: classifyHTTPStatus_def)

theorem status_rule_agrees_witness:
  "classifyHTTPStatus 503 (Some (ClassifyError None ChainFamilyEVM TransportJsonRPC 503 '''')) = (True, True)"
  using status_rule_agrees [of TransportJsonRPC 503 ChainFamilyEVM] by simp

section \<open>The health check\<close>

text \<open>The router's own health check never brings a switched-off endpoint back and never replaces the request its
  recovery waits for: whatever the upstream answers, the endpoint stays off with the same recorded request, and
  no gauge is set to healthy.\<close>

theorem health_check_leaves_switched_off:
  assumes "at_HealthCheck a" "\<not> ep_Enabled e" "relayInnerDirect maxA now unmarshal json_valid a sent e = (e', gauge, err)"
  shows "\<not> ep_Enabled e' \<and> relayProbePayload e' = relayProbePayload e \<and> relayProbeMethod e' = relayProbeMethod e \<and> True \<notin> set gauge"
  using assms by (auto simp: relayInnerDirect_def Let_def recordRelayEvidence_def markUnhealthyAt_def split: sum.splits if_splits)

text \<open>An attempt is one of four sequences of the endpoint's events, so all that holds of them holds of attempts.\<close>

lemma evidence_events:
  "\<exists>evs. recordRelayEvidence ai hc msg req timeout e = ep_run maxA evs e"
proof (cases "recordRelayEvidence ai hc msg req timeout e = e")
  case True
  then show ?thesis by (intro exI [of _ "[]"]) simp
next
  case False
  then have "recordRelayEvidence ai hc msg req timeout e = ep_run maxA [FailureRecorded (cm_Name msg) req timeout] e"
    by (auto simp: recordRelayEvidence_def recordRelayProbeEvidence_def split: if_splits)
  then show ?thesis by blast
qed

lemma blame_events: "\<exists>evs. markUnhealthyAt maxA now reason (recordRelayEvidence ai hc msg req timeout e) = ep_run maxA evs e"
proof -
  obtain evs where "recordRelayEvidence ai hc msg req timeout e = ep_run maxA evs e" using evidence_events by blast
  then have "markUnhealthyAt maxA now reason (recordRelayEvidence ai hc msg req timeout e) = ep_run maxA (evs @ [RelayFailed now reason]) e"
    by simp
  then show ?thesis by blast
qed

lemma attempt_events:
  "\<exists>evs. fst (relayInnerDirect maxA now unmarshal json_valid a sent e) = ep_run maxA evs e"
proof -
  have "\<exists>evs. e = ep_run maxA evs e" by (rule exI [of _ "[]"]) simp
  moreover have "\<exists>evs. snd (ResetHealth e) = ep_run maxA evs e" by (rule exI [of _ "[RelaySucceeded]"]) simp
  ultimately show ?thesis using blame_events
    by (auto simp: relayInnerDirect_def Let_def split: sum.split prod.split)
qed

theorem health_check_leaves_switched_off_witness:
  "\<not> ep_Enabled (fst (relayInnerDirect 1 9 (\<lambda>_. None) (\<lambda>_. True)
     \<lparr>at_ApiInterface = ''jsonrpc'', at_ChainID = ''ETH1'', at_Protocol = ProtocolHTTPS,
      at_Message = \<lparr>cm_Name = ''eth_blockNumber'', cm_Stateful = 0, cm_HangingApi = False, cm_FunctionTag = None\<rparr>,
      at_RequestData = ''{}'', at_RelayTimeout = second, at_HealthCheck = True, at_ClientCancel = False,
      at_BudgetExpired = None, at_LostBroadcast = None, at_RetryAfter = 0\<rparr>
     (Inr \<lparr>dr_StatusCode = 200, dr_Data = ''{}'', dr_IsNodeError = False, dr_IsNonRetryable = False, dr_IsUnsupportedMethod = False,
       dr_IsRateLimited = False, dr_IsDataScope = False, dr_IsNodeCapability = False, dr_IsNodeAtFault = False\<rparr>) sample_disabled))"
  (is "\<not> ep_Enabled (fst (relayInnerDirect 1 9 ?u ?v ?a ?s _))")
proof -
  have "\<not> ep_Enabled sample_disabled"
    by (simp add: sample_disabled_def sample_endpoint_def new_endpoint_def endpoint_defs shl64_def Let_def)
  then show ?thesis
    using health_check_leaves_switched_off [of ?a sample_disabled 1 9 ?u ?v ?s "fst (relayInnerDirect 1 9 ?u ?v ?a ?s sample_disabled)"
        "fst (snd (relayInnerDirect 1 9 ?u ?v ?a ?s sample_disabled))" "snd (snd (relayInnerDirect 1 9 ?u ?v ?a ?s sample_disabled))"]
    by simp
qed

section \<open>Relay and replay\<close>

lemma extract_ignores: "ExtractNodeErrorDetails u (HTTPStatusError code st body ra) = ExtractNodeErrorDetails u (HTTPStatusError code st' body ra')"
  by (simp add: ExtractNodeErrorDetails_def TryRecoverNodeErrorFromClientError_def split: option.split)

lemma classify_ignores: "ClassifyNodeError u (Some (HTTPStatusError code st body ra)) f t = ClassifyNodeError u (Some (HTTPStatusError code st' body ra')) f t"
  by (simp only: ClassifyNodeError_def ClassifyNodeErrorWithDetails_def option.case extract_ignores [of u code st body ra st' ra']
      conn_view_def lookup_view.simps Error.simps)

lemma classify_some: "\<exists>c. ClassifyNodeError u (Some e) f t = Some c"
  by (simp add: ClassifyNodeError_def ClassifyNodeErrorWithDetails_def split: prod.split)

text \<open>Whether an attempt blames the endpoint.\<close>

definition blames :: "int \<Rightarrow> time \<Rightarrow> unmarshal \<Rightarrow> (string \<Rightarrow> bool) \<Rightarrow> attempt \<Rightarrow> direct_err + direct_result \<Rightarrow> Endpoint \<Rightarrow> bool" where
  "blames maxA now u jv a sent e \<longleftrightarrow> fst (snd (relayInnerDirect maxA now u jv a sent e)) = [False]"

lemma replay_transport:
  assumes "\<not> at_ClientCancel a"
    and w: "sendJSONRPCRelay u jv chk (directRelayChainFamily (at_ChainID a)) (Inl (OtherError c st)) = Inl w"
  shows "fst (judge_replay u u' (directRelayChainFamily (at_ChainID a)) (Inl (OtherError c st))) = relayProbeStillFailing
    \<longleftrightarrow> blames maxA now u jv a (Inl w) e"
proof -
  let ?f = "directRelayChainFamily (at_ChainID a)"
  obtain v where v: "ClassifyNodeError u (Some (OtherError c st)) ?f TransportJsonRPC = Some v" using classify_some by blast
  with w have "w = LavaWrappedError v (OtherError c st)"
    by (simp add: sendJSONRPCRelay_def classifyAndWrap_def classifyDirectRPCError_def retryVerdict_def)
  then have "healthVerdict u w ?f t = v" for t by (simp add: healthVerdict_def)
  then show ?thesis using v assms(1)
    by (auto simp: judge_replay_def blames_def relayInnerDirect_def Let_def classifyDirectRPCError_def endpointCancellationIsExempt_def
        classifyEndpointHealth_def)
qed

lemma replay_server_error:
  assumes "\<not> at_ClientCancel a" "500 \<le> code" "code \<noteq> 501" "u body = Some (Some err)"
    and w: "sendJSONRPCRelay u jv chk (directRelayChainFamily (at_ChainID a)) (Inr (code, status, body)) = Inl w"
  shows "fst (judge_replay u u' (directRelayChainFamily (at_ChainID a)) (Inl (HTTPStatusError code status body ra))) = relayProbeStillFailing
    \<longleftrightarrow> blames maxA now u jv a (Inl w) e"
proof -
  let ?f = "directRelayChainFamily (at_ChainID a)" and ?e = "HTTPStatusError code status body 0"
  obtain v where v: "ClassifyNodeError u (Some ?e) ?f TransportJsonRPC = Some v" using classify_some by blast
  have v': "ClassifyNodeError u (Some (HTTPStatusError code status body ra)) ?f TransportJsonRPC = Some v"
    using v classify_ignores by metis
  from v w assms(2) have "as_HTTPStatusError w = Some ?e"
    by (auto simp: sendJSONRPCRelay_def classifyAndWrap_def classifyDirectRPCError_def)
  with v have "healthVerdict u w ?f t = v" for t by (simp add: healthVerdict_def classifyDirectRPCError_def)
  then show ?thesis using v' assms(1-4)
    by (auto simp: judge_replay_def blames_def relayInnerDirect_def Let_def classifyDirectRPCError_def endpointCancellationIsExempt_def
        classifyEndpointHealth_def judgedByItsBody_def)
qed

text \<open>C32. The replay judges by the rules of the relay: on an exchange that fails at the transport, and on a server error
  other than 501 whose body is the node's JSON-RPC error, the replay says still failing exactly when a relay of the
  same exchange through the JSON-RPC sender, not cancelled by its client, would mark the endpoint unhealthy. A server
  error other than 501 without such a body is still failing. Nothing is said of 501, which the replay takes for a recovery.\<close>

theorem replay_judges_like_the_relay:
  assumes "\<not> at_ClientCancel a"
  defines "f \<equiv> directRelayChainFamily (at_ChainID a)"
  shows "(\<forall>c st w. sendJSONRPCRelay u jv chk f (Inl (OtherError c st)) = Inl w \<longrightarrow>
      (fst (judge_replay u u' f (map_sum id Some (SendRequest (Inl (OtherError c st))))) = relayProbeStillFailing \<longleftrightarrow> blames maxA now u jv a (Inl w) e))
    \<and> (\<forall>code status body ra err w. 500 \<le> code \<and> code \<noteq> 501 \<and> u body = Some (Some err) \<and>
        sendJSONRPCRelay u jv chk f (Inr (code, status, body)) = Inl w \<longrightarrow>
      (fst (judge_replay u u' f (map_sum id Some (SendRequest (Inr (code, status, body, ra))))) = relayProbeStillFailing \<longleftrightarrow> blames maxA now u jv a (Inl w) e))
    \<and> (\<forall>code status body ra. 500 \<le> code \<and> code \<noteq> 501 \<and> (u body = None \<or> u body = Some None) \<longrightarrow>
      fst (judge_replay u u' f (map_sum id Some (SendRequest (Inr (code, status, body, ra))))) = relayProbeStillFailing)"
proof (intro conjI allI impI)
  note send = SendRequest_def
  show "fst (judge_replay u u' f (map_sum id Some (SendRequest (Inl (OtherError c st))))) = relayProbeStillFailing \<longleftrightarrow> blames maxA now u jv a (Inl w) e"
    if "sendJSONRPCRelay u jv chk f (Inl (OtherError c st)) = Inl w" for c st w
    using that replay_transport [OF assms(1)] by (simp add: send f_def)
  show "fst (judge_replay u u' f (map_sum id Some (SendRequest (Inr (code, status, body, ra))))) = relayProbeStillFailing \<longleftrightarrow> blames maxA now u jv a (Inl w) e"
    if "500 \<le> code \<and> code \<noteq> 501 \<and> u body = Some (Some err) \<and> sendJSONRPCRelay u jv chk f (Inr (code, status, body)) = Inl w"
    for code status body ra err w
    using that replay_server_error [OF assms(1), of code u body err jv chk status w] by (simp add: send f_def)
  show "fst (judge_replay u u' f (map_sum id Some (SendRequest (Inr (code, status, body, ra))))) = relayProbeStillFailing"
    if "500 \<le> code \<and> code \<noteq> 501 \<and> (u body = None \<or> u body = Some None)" for code status body ra
    using that bare_status_verdict [of TransportJsonRPC code f]
    by (auto simp: send judge_replay_def judgedByItsBody_def classifyHTTPStatus_def Let_def)
qed

definition sample_attempt :: attempt where
  "sample_attempt =
     \<lparr>at_ApiInterface = ''jsonrpc'', at_ChainID = ''ETH1'', at_Protocol = ProtocolHTTPS,
      at_Message = \<lparr>cm_Name = ''eth_call'', cm_Stateful = 0, cm_HangingApi = False, cm_FunctionTag = None\<rparr>,
      at_RequestData = ''{}'', at_RelayTimeout = second, at_HealthCheck = False, at_ClientCancel = False,
      at_BudgetExpired = None, at_LostBroadcast = None, at_RetryAfter = 0\<rparr>"

theorem replay_judges_like_the_relay_witness:
  "fst (judge_replay (\<lambda>_. None) (\<lambda>_. None) (directRelayChainFamily (at_ChainID sample_attempt))
     (map_sum id Some (SendRequest (Inr (503, ''503 Service Unavailable'', ''<html>'', 0))))) = relayProbeStillFailing"
  using replay_judges_like_the_relay [of sample_attempt "\<lambda>_. None" "\<lambda>_. True" "\<lambda>_ _. (False, '''')" "\<lambda>_. None" 1 0 sample_endpoint]
  by (simp add: sample_attempt_def)

section \<open>Unrecognised answers\<close>

text \<open>An error inside a 200 reply that no row of the tables recognises is judged in two ways: a relay that gets it leaves
  the endpoint as it is, without blame, while the replay of a recorded request that gets it says still failing, which
  keeps the endpoint out and raises the number of polls it needs to come back.\<close>

theorem unknown_answer_judged_twice:
  assumes "u body = Some (Some (code, msg))" "code \<noteq> 0" "body \<noteq> ''''" "jv body" "chk body 200 = (True, msg)"
    and "ClassifyError None (directRelayChainFamily (at_ChainID a)) TransportJsonRPC code msg = LavaErrorUnknown"
  shows "\<exists>r. sendJSONRPCRelay u jv chk (directRelayChainFamily (at_ChainID a)) (Inr (200, status, body)) = Inr r
    \<and> relayInnerDirect maxA now u jv a (Inr r) e = (e, [], None)
    \<and> fst (judge_replay u u (directRelayChainFamily (at_ChainID a)) (map_sum id Some (SendRequest (Inr (200, status, body, ra))))) = relayProbeStillFailing"
  using assms
  by (simp add: sendJSONRPCRelay_def Let_def classifyJSONRPCNodeError_def ExtractJSONRPCErrorCode_def ApplyNodeErrorClassification_def
      applyClassification_def ClassifyNodeErrorForRetry_def nodeErrorClassificationOf_def relayInnerDirect_def relayProvesEndpointHealthy_def
      judge_replay_def SendRequest_def IsRateLimited_def classifyEndpointHealth_def fault_axes LavaErrorUnknown_def)

lemma sample_unknown: "ClassifyError None (directRelayChainFamily ''ETH1'') TransportJsonRPC 3 ''boom'' = LavaErrorUnknown"
  by code_simp

theorem unknown_answer_judged_twice_witness:
  "fst (judge_replay (\<lambda>_. Some (Some (3, ''boom''))) (\<lambda>_. Some (Some (3, ''boom''))) (directRelayChainFamily (at_ChainID sample_attempt))
     (map_sum id Some (SendRequest (Inr (200, ''200 OK'', ''{}'', 0))))) = relayProbeStillFailing"
  using unknown_answer_judged_twice [of "\<lambda>_. Some (Some (3, ''boom''))" "''{}''" 3 "''boom''" "\<lambda>_. True" "\<lambda>_ _. (True, ''boom'')"
      sample_attempt "''200 OK''" 1 0 sample_endpoint 0] sample_unknown
  by (auto simp: sample_attempt_def)

end
