(* ===== verification/RelayPolicy.thy ===== *)
theory RelayPolicy
  imports Prelude
begin

text \<open>
  The retry policy of a relay: \<open>protocol/relaypolicy/policy.go\<close> with the interface types of
  \<open>protocol/relaycore/interfaces.go\<close> and the selection modes of
  \<open>protocol/relaycore/selection.go\<close>. \<open>Decide\<close> makes every post-relay retry decision,
  \<open>OnSendRelayResult\<close> every decision about a failed dispatch, with the two counters of the
  policy object as explicit state. The locale \<open>relay_policy\<close> is the Go interface
  \<open>RelayPolicyInf\<close> with the laws the state machine relies on.
\<close>

section \<open>Interface types\<close>

datatype selection = Stateless | Stateful | CrossValidation

datatype action = ActionRetry | ActionStop

datatype send_result = SendSuccess | SendRetry | SendStop

record results_summary =
  SuccessCount :: int
  NodeErrors :: int
  SpecialNodeErrors :: int
  ProtocolErrors :: int
  HasNonRetryableNodeError :: bool
  HasNodeCapabilityRefusal :: bool
  HasUnsupportedMethod :: bool
  HasPermanentProtocolError :: bool
  HasEpochMismatch :: bool
  OnlyRateLimited :: bool

definition empty_summary :: results_summary where
  "empty_summary = \<lparr>SuccessCount = 0, NodeErrors = 0, SpecialNodeErrors = 0, ProtocolErrors = 0,
     HasNonRetryableNodeError = False, HasNodeCapabilityRefusal = False,
     HasUnsupportedMethod = False, HasPermanentProtocolError = False,
     HasEpochMismatch = False, OnlyRateLimited = False\<rparr>"

record decision_input =
  Selection :: selection
  AttemptNumber :: int
  IsBatch :: bool
  Summary :: results_summary
  IsTickerHedge :: bool
  IsDefaultApi :: bool
  Pinned :: bool

record decision_output =
  Action :: action
  Reason :: string

section \<open>The policy object\<close>

record policy_config =
  MaxRetries :: int
  RelayRetryLimit :: int
  DisableBatchRetry :: bool
  EnableCircuitBreaker :: bool
  CircuitBreakerThreshold :: int
  SendRelayAttempts :: int

record policy =
  config :: policy_config
  consecutiveBatchErrors :: int
  consecutivePairingErrors :: int

definition NewPolicy :: "policy_config \<Rightarrow> policy" where
  "NewPolicy c = \<lparr>config = c, consecutiveBatchErrors = 0, consecutivePairingErrors = 0\<rparr>"

definition stop_with :: "string \<Rightarrow> decision_output" where
  "stop_with r = \<lparr>Action = ActionStop, Reason = r\<rparr>"

definition retry_with :: "string \<Rightarrow> decision_output" where
  "retry_with r = \<lparr>Action = ActionRetry, Reason = r\<rparr>"

text \<open>
  The flag \<open>rateLimitRetrySafe\<close> of \<open>Decide\<close>: the one carve-out for writes and batches. It starts
  as "only rate-limited and not a hedge" and is withdrawn for a stateful batch with a node error.
\<close>

definition rateLimitRetrySafe :: "decision_input \<Rightarrow> bool" where
  "rateLimitRetrySafe input =
     (let safe = OnlyRateLimited (Summary input) \<and> \<not> IsTickerHedge input
      in if Selection input = Stateful \<and> IsBatch input
            \<and> NodeErrors (Summary input) + SpecialNodeErrors (Summary input) > 0
         then False else safe)"

definition totalErrors :: "decision_input \<Rightarrow> int" where
  "totalErrors input = NodeErrors (Summary input) + SpecialNodeErrors (Summary input)
     + ProtocolErrors (Summary input)"

definition Decide :: "policy \<Rightarrow> decision_input \<Rightarrow> decision_output" where
  "Decide p input =
    (if Selection input = CrossValidation then stop_with ''CrossValidation''
     else if Pinned input then stop_with ''Pinned''
     else if Selection input = Stateful \<and> \<not> rateLimitRetrySafe input then stop_with ''Stateful''
     else if HasNonRetryableNodeError (Summary input) then stop_with ''NonRetryableNodeError''
     else if HasPermanentProtocolError (Summary input) then stop_with ''PermanentProtocolError''
     else if IsDefaultApi input \<and> HasNodeCapabilityRefusal (Summary input)
       then stop_with ''UnlistedMethodRefused''
     else if AttemptNumber input \<ge> MaxRetries (config p) then stop_with ''MaxRetriesReached''
     else if IsBatch input \<and> DisableBatchRetry (config p) \<and> \<not> rateLimitRetrySafe input
       then stop_with ''BatchDisabled''
     else if HasEpochMismatch (Summary input) \<and> SuccessCount (Summary input) = 0
       then retry_with ''EpochMismatch''
     else if \<not> IsTickerHedge input \<and> totalErrors input > RelayRetryLimit (config p)
       then stop_with ''ErrorToleranceExceeded''
     else retry_with ''Default'')"

text \<open>The sentinels of \<open>protocol/lavasession/errors.go\<close> that name a pinned upstream.\<close>

definition SelectedProviderUnavailableError :: string where
  "SelectedProviderUnavailableError = ''Header-selected provider is not a valid provider for this request''"

definition SelectedProviderAlreadyFailedError :: string where
  "SelectedProviderAlreadyFailedError = ''Header-selected provider has already failed for this request''"

definition PairingListEmptyError :: string where
  "PairingListEmptyError = ''No pairings available.''"

definition PinnedUpstreamUnservable :: "go_error option \<Rightarrow> bool" where
  "PinnedUpstreamUnservable err \<longleftrightarrow>
     errors_is_opt err SelectedProviderUnavailableError
     \<or> errors_is_opt err SelectedProviderAlreadyFailedError"

definition OnSendRelayResult ::
    "policy \<Rightarrow> go_error option \<Rightarrow> bool \<Rightarrow> selection \<Rightarrow> policy \<times> send_result" where
  "OnSendRelayResult p err isPairingListEmpty sel =
    (if err = None then (p\<lparr>consecutiveBatchErrors := 0, consecutivePairingErrors := 0\<rparr>, SendSuccess)
     else if sel = CrossValidation then (p, SendStop)
     else if PinnedUpstreamUnservable err then (p, SendStop)
     else
       let p1 = p\<lparr>consecutiveBatchErrors := consecutiveBatchErrors p + 1\<rparr>;
           p2 = (if EnableCircuitBreaker (config p) \<and> isPairingListEmpty
                   then p1\<lparr>consecutivePairingErrors := consecutivePairingErrors p1 + 1\<rparr>
                 else if EnableCircuitBreaker (config p)
                   then p1\<lparr>consecutivePairingErrors := 0\<rparr>
                 else p1)
       in if EnableCircuitBreaker (config p) \<and> isPairingListEmpty
             \<and> consecutivePairingErrors p2 \<ge> CircuitBreakerThreshold (config p)
            then (p2, SendStop)
          else if consecutiveBatchErrors p2 > SendRelayAttempts (config p) then (p2, SendStop)
          else (p2, SendRetry))"

definition GetConsecutiveBatchErrors :: "policy \<Rightarrow> int" where
  "GetConsecutiveBatchErrors p = consecutiveBatchErrors p"

section \<open>What a retry means\<close>

lemma stop_with_simps [simp]: "Action (stop_with r) = ActionStop" "Reason (stop_with r) = r"
  by (simp_all add: stop_with_def)

lemma retry_with_simps [simp]: "Action (retry_with r) = ActionRetry" "Reason (retry_with r) = r"
  by (simp_all add: retry_with_def)

lemma rateLimitRetrySafe_iff:
  "rateLimitRetrySafe i \<longleftrightarrow> OnlyRateLimited (Summary i) \<and> \<not> IsTickerHedge i
     \<and> \<not> (Selection i = Stateful \<and> IsBatch i
          \<and> NodeErrors (Summary i) + SpecialNodeErrors (Summary i) > 0)"
  by (auto simp: rateLimitRetrySafe_def Let_def)

text \<open>
  The specification \<open>Decide\<close> implements: a request may be sent to another endpoint exactly when
  its mode allows a second attempt, nothing permanent was reported, the attempt budget is not used
  up, and the errors so far are tolerated.
\<close>

definition mode_allows_retry :: "decision_input \<Rightarrow> bool" where
  "mode_allows_retry i \<longleftrightarrow> Selection i \<noteq> CrossValidation \<and> \<not> Pinned i
     \<and> (Selection i = Stateful \<longrightarrow> rateLimitRetrySafe i)"

definition permanent_failure :: "decision_input \<Rightarrow> bool" where
  "permanent_failure i \<longleftrightarrow> HasNonRetryableNodeError (Summary i)
     \<or> HasPermanentProtocolError (Summary i)
     \<or> (IsDefaultApi i \<and> HasNodeCapabilityRefusal (Summary i))"

definition within_limits :: "policy \<Rightarrow> decision_input \<Rightarrow> bool" where
  "within_limits p i \<longleftrightarrow> AttemptNumber i < MaxRetries (config p)
     \<and> (IsBatch i \<and> DisableBatchRetry (config p) \<longrightarrow> rateLimitRetrySafe i)"

definition errors_tolerated :: "policy \<Rightarrow> decision_input \<Rightarrow> bool" where
  "errors_tolerated p i \<longleftrightarrow> (HasEpochMismatch (Summary i) \<and> SuccessCount (Summary i) = 0)
     \<or> IsTickerHedge i \<or> totalErrors i \<le> RelayRetryLimit (config p)"

lemma Decide_retry_cases:
  "Action (Decide p i) = ActionRetry \<longleftrightarrow>
     mode_allows_retry i \<and> \<not> permanent_failure i \<and> within_limits p i \<and> errors_tolerated p i"
  by (auto simp: Decide_def mode_allows_retry_def permanent_failure_def within_limits_def
      errors_tolerated_def)

lemma action_not_retry [simp]: "a \<noteq> ActionRetry \<longleftrightarrow> a = ActionStop"
  by (cases a) simp_all

text \<open>
  The whole retry decision, as one equivalence: \<open>Decide\<close> answers "retry" exactly for a request
  whose mode allows a second attempt (not cross-validated, not pinned, and a write only under the
  rate-limit carve-out), with no permanent failure, inside the attempt and batch limits, and with
  an error count the policy tolerates (a hedge and an epoch mismatch are exempt from that count).
\<close>

theorem Decide_retry_iff:
  "Action (Decide p i) = ActionRetry \<longleftrightarrow>
     (Selection i \<noteq> CrossValidation \<and> \<not> Pinned i
       \<and> (Selection i \<noteq> Stateful \<or> rateLimitRetrySafe i))
     \<and> \<not> (HasNonRetryableNodeError (Summary i) \<or> HasPermanentProtocolError (Summary i)
          \<or> (IsDefaultApi i \<and> HasNodeCapabilityRefusal (Summary i)))
     \<and> AttemptNumber i < MaxRetries (config p)
     \<and> (rateLimitRetrySafe i \<or> \<not> (IsBatch i \<and> DisableBatchRetry (config p)))
     \<and> ((HasEpochMismatch (Summary i) \<and> SuccessCount (Summary i) = 0)
        \<or> IsTickerHedge i \<or> totalErrors i \<le> RelayRetryLimit (config p))"
  by (auto simp: Decide_retry_cases mode_allows_retry_def permanent_failure_def
      within_limits_def errors_tolerated_def)

text \<open>
  A write is never run twice on a guess: a stateful request is retried only when every failure
  so far was a rate limit, the decision is not a hedge over a relay still in flight, and, for a
  batch, no element was answered with a node error.
\<close>

theorem stateful_retry_is_safe:
  assumes "Selection i = Stateful" and "Action (Decide p i) = ActionRetry"
  shows "OnlyRateLimited (Summary i) \<and> \<not> IsTickerHedge i \<and> \<not> Pinned i
    \<and> \<not> (IsBatch i \<and> NodeErrors (Summary i) + SpecialNodeErrors (Summary i) > 0)
    \<and> AttemptNumber i < MaxRetries (config p)"
  using assms
  by (auto simp: Decide_retry_cases mode_allows_retry_def within_limits_def rateLimitRetrySafe_iff)

definition sample_config :: policy_config where
  "sample_config = \<lparr>MaxRetries = 10, RelayRetryLimit = 2, DisableBatchRetry = True,
     EnableCircuitBreaker = True, CircuitBreakerThreshold = 2, SendRelayAttempts = 3\<rparr>"

definition sample_write :: decision_input where
  "sample_write = \<lparr>Selection = Stateful, AttemptNumber = 1, IsBatch = False,
     Summary = empty_summary\<lparr>ProtocolErrors := 1, OnlyRateLimited := True\<rparr>,
     IsTickerHedge = False, IsDefaultApi = False, Pinned = False\<rparr>"

lemmas policy_samples = sample_config_def sample_write_def empty_summary_def NewPolicy_def

theorem Decide_retry_iff_witness:
  "Action (Decide (NewPolicy sample_config) sample_write) = ActionRetry \<and> \<not> Pinned sample_write
   \<and> AttemptNumber sample_write < MaxRetries sample_config"
  unfolding Decide_retry_iff [of "NewPolicy sample_config" sample_write]
  by (simp add: rateLimitRetrySafe_def totalErrors_def policy_samples)

theorem stateful_retry_is_safe_witness:
  "Selection sample_write = Stateful
   \<and> Action (Decide (NewPolicy sample_config) sample_write) = ActionRetry
   \<and> OnlyRateLimited (Summary sample_write) \<and> \<not> IsTickerHedge sample_write"
proof -
  have sel: "Selection sample_write = Stateful" by (simp add: policy_samples)
  have act: "Action (Decide (NewPolicy sample_config) sample_write) = ActionRetry"
    by (simp add: Decide_def rateLimitRetrySafe_def totalErrors_def policy_samples)
  from stateful_retry_is_safe [OF sel act] sel act show ?thesis by simp
qed

section \<open>Dispatch failures\<close>

lemma OnSend_config [simp]: "config (fst (OnSendRelayResult p e b sel)) = config p"
  by (simp add: OnSendRelayResult_def Let_def)

lemma OnSend_success_iff: "snd (OnSendRelayResult p e b sel) = SendSuccess \<longleftrightarrow> e = None"
  by (simp add: OnSendRelayResult_def Let_def)

lemma OnSend_retry_counts:
  assumes "snd (OnSendRelayResult p e b sel) = SendRetry"
  shows "consecutiveBatchErrors (fst (OnSendRelayResult p e b sel)) = consecutiveBatchErrors p + 1"
    and "consecutiveBatchErrors p + 1 \<le> SendRelayAttempts (config p)"
    and "sel \<noteq> CrossValidation" and "\<not> PinnedUpstreamUnservable e"
  using assms by (auto simp: OnSendRelayResult_def Let_def split: if_splits)

lemma OnSend_retry_pairing:
  assumes "snd (OnSendRelayResult p e True sel) = SendRetry" "EnableCircuitBreaker (config p)"
  shows "consecutivePairingErrors (fst (OnSendRelayResult p e True sel))
      = consecutivePairingErrors p + 1"
    and "consecutivePairingErrors p + 1 < CircuitBreakerThreshold (config p)"
  using assms by (auto simp: OnSendRelayResult_def Let_def split: if_splits)

text \<open>
  A run of failed dispatches of one request: the pairs are the errors with the
  \<open>isPairingListEmpty\<close> flag, the result is the policy afterwards, how many resends it granted and
  whether it stopped the request.
\<close>

fun send_failures ::
    "policy \<Rightarrow> selection \<Rightarrow> (go_error \<times> bool) list \<Rightarrow> policy \<times> nat \<times> bool" where
  "send_failures p sel [] = (p, 0, False)"
| "send_failures p sel ((e, b) # es) =
     (case OnSendRelayResult p (Some e) b sel of
        (p', SendRetry) \<Rightarrow>
          (case send_failures p' sel es of (q, n, stopped) \<Rightarrow> (q, Suc n, stopped))
      | (p', _) \<Rightarrow> (p', 0, True))"

lemma send_failures_bound:
  "send_failures p sel es = (q, n, stopped) \<Longrightarrow>
     config q = config p
     \<and> (n = 0 \<or> consecutiveBatchErrors p + int n \<le> SendRelayAttempts (config p))
     \<and> (stopped \<or> n = length es)"
proof (induction p sel es arbitrary: q n stopped rule: send_failures.induct)
  case (1 p sel)
  then show ?case by auto
next
  case (2 p sel e b es)
  obtain p' r where on: "OnSendRelayResult p (Some e) b sel = (p', r)"
    by (cases "OnSendRelayResult p (Some e) b sel")
  have cfg: "config p' = config p"
    using OnSend_config [of p "Some e" b sel] on by simp
  show ?case
  proof (cases "r = SendRetry")
    case True
    obtain q' m s where rec: "send_failures p' sel es = (q', m, s)"
      by (cases "send_failures p' sel es")
    from "2.prems" on True rec have res: "q = q'" "n = Suc m" "stopped = s"
      by simp_all
    from OnSend_retry_counts [of p "Some e" b sel] on True
    have "consecutiveBatchErrors p' = consecutiveBatchErrors p + 1"
      and "consecutiveBatchErrors p + 1 \<le> SendRelayAttempts (config p)"
      by simp_all
    with "2.IH" [OF on [symmetric] True rec] cfg res show ?thesis by auto
  next
    case False
    with "2.prems" on cfg show ?thesis by (cases r) auto
  qed
qed

text \<open>
  A request whose dispatch keeps failing is given up: starting from a fresh policy, a run of
  failed sends is granted at most \<open>SendRelayAttempts\<close> resends, and once more failures than that
  happen in a row the policy has stopped the request.
\<close>

theorem send_failures_stop:
  assumes "send_failures (NewPolicy c) sel es = (q, n, stopped)" and "0 \<le> SendRelayAttempts c"
  shows "int n \<le> SendRelayAttempts c \<and> (int (length es) \<le> SendRelayAttempts c \<or> stopped)"
  using send_failures_bound [OF assms(1)] assms(2) by (auto simp: NewPolicy_def)

theorem send_failures_stop_witness:
  "\<exists>q n. send_failures (NewPolicy sample_config) Stateless
       (replicate 5 (ErrNew ''dial failed'', False)) = (q, n, True) \<and> int n \<le> 3"
proof -
  obtain q n s where run: "send_failures (NewPolicy sample_config) Stateless
      (replicate 5 (ErrNew ''dial failed'', False)) = (q, n, s)"
    by (cases "send_failures (NewPolicy sample_config) Stateless
      (replicate 5 (ErrNew ''dial failed'', False))")
  have pos: "0 \<le> SendRelayAttempts sample_config" by (simp add: sample_config_def)
  from send_failures_stop [OF run pos] run show ?thesis by (auto simp: sample_config_def)
qed

lemma send_failures_breaker_aux:
  "\<lbrakk>send_failures p sel es = (q, n, stopped); EnableCircuitBreaker (config p);
    \<forall>x\<in>set es. snd x\<rbrakk> \<Longrightarrow>
     n = 0 \<or> consecutivePairingErrors p + int n < CircuitBreakerThreshold (config p)"
proof (induction p sel es arbitrary: q n stopped rule: send_failures.induct)
  case (1 p sel)
  then show ?case by auto
next
  case (2 p sel e b es)
  obtain p' r where on: "OnSendRelayResult p (Some e) b sel = (p', r)"
    by (cases "OnSendRelayResult p (Some e) b sel")
  have cfg: "config p' = config p"
    using OnSend_config [of p "Some e" b sel] on by simp
  show ?case
  proof (cases "r = SendRetry")
    case True
    obtain q' m s where rec: "send_failures p' sel es = (q', m, s)"
      by (cases "send_failures p' sel es")
    from "2.prems" on True rec have res: "q = q'" "n = Suc m" "stopped = s" and b
      by simp_all
    from OnSend_retry_pairing [of p "Some e" sel] on True \<open>b\<close> "2.prems"(2)
    have "consecutivePairingErrors p' = consecutivePairingErrors p + 1"
      and "consecutivePairingErrors p + 1 < CircuitBreakerThreshold (config p)"
      by simp_all
    with "2.IH" [OF on [symmetric] True rec] "2.prems" cfg res show ?thesis by auto
  next
    case False
    with "2.prems" on cfg show ?thesis by (cases r) auto
  qed
qed

text \<open>
  The circuit breaker trips: with the breaker enabled and every failure an empty pairing list,
  fewer than \<open>CircuitBreakerThreshold\<close> resends are granted, whatever the send-attempt limit is.
\<close>

theorem circuit_breaker_trips:
  assumes "send_failures (NewPolicy c) sel es = (q, n, stopped)"
    and "EnableCircuitBreaker c" and "\<forall>x\<in>set es. snd x" and "1 \<le> CircuitBreakerThreshold c"
  shows "int n < CircuitBreakerThreshold c \<and> (stopped \<or> int (length es) < CircuitBreakerThreshold c)"
proof -
  from send_failures_breaker_aux [OF assms(1)] assms(2-4)
  have "int n < CircuitBreakerThreshold c" by (auto simp: NewPolicy_def)
  with send_failures_bound [OF assms(1)] show ?thesis by auto
qed

theorem circuit_breaker_trips_witness:
  "\<exists>q n. send_failures (NewPolicy sample_config) Stateless
       (replicate 2 (ErrSentinel PairingListEmptyError, True)) = (q, n, True) \<and> int n < 2"
proof -
  obtain q n s where run: "send_failures (NewPolicy sample_config) Stateless
      (replicate 2 (ErrSentinel PairingListEmptyError, True)) = (q, n, s)"
    by (cases "send_failures (NewPolicy sample_config) Stateless
      (replicate 2 (ErrSentinel PairingListEmptyError, True))")
  have "EnableCircuitBreaker sample_config" "1 \<le> CircuitBreakerThreshold sample_config"
    by (simp_all add: sample_config_def)
  from circuit_breaker_trips [OF run this(1) _ this(2)] run show ?thesis
    by (auto simp: sample_config_def)
qed

section \<open>The policy interface\<close>

text \<open>
  \<open>RelayPolicyInf\<close> as its client, the relay state machine, relies on it. \<open>max_attempts\<close> is the
  attempt budget of a policy, which no operation changes.
\<close>

locale relay_policy =
  fixes decide :: "'p \<Rightarrow> decision_input \<Rightarrow> decision_output"
    and on_send :: "'p \<Rightarrow> go_error option \<Rightarrow> bool \<Rightarrow> selection \<Rightarrow> 'p \<times> send_result"
    and max_attempts :: "'p \<Rightarrow> int"
  assumes cv_stops: "Selection i = CrossValidation \<Longrightarrow> Action (decide p i) = ActionStop"
    and pinned_stops: "Pinned i \<Longrightarrow> Action (decide p i) = ActionStop"
    and write_hedge_stops:
      "Selection i = Stateful \<Longrightarrow> IsTickerHedge i \<Longrightarrow> Action (decide p i) = ActionStop"
    and attempts_bounded:
      "Action (decide p i) = ActionRetry \<Longrightarrow> AttemptNumber i < max_attempts p"
    and success_iff: "snd (on_send p e b sel) = SendSuccess \<longleftrightarrow> e = None"
    and cv_send_stops: "snd (on_send p (Some er) b CrossValidation) = SendStop"
    and on_send_keeps: "max_attempts (fst (on_send p e b sel)) = max_attempts p"

interpretation router_policy:
  relay_policy Decide OnSendRelayResult "\<lambda>p. MaxRetries (config p)"
proof (unfold_locales, goal_cases)
  case (1 i p)
  then show ?case by (simp add: Decide_def)
next
  case (2 i p)
  then show ?case by (simp add: Decide_def)
next
  case (3 i p)
  then show ?case by (auto simp: Decide_def rateLimitRetrySafe_iff)
next
  case (4 p i)
  then show ?case by (simp add: Decide_retry_cases within_limits_def)
next
  case (5 p e b sel)
  show ?case by (rule OnSend_success_iff)
next
  case (6 p er b)
  show ?case by (simp add: OnSendRelayResult_def)
next
  case (7 p e b sel)
  show ?case by simp
qed

text \<open>
  A policy that names its reasons: never blank, and never with the label that availability scoring
  reads as the request's own timeout.
\<close>

locale labelled_policy = relay_policy +
  assumes reason_given: "Reason (decide p i) \<noteq> ''''"
    and reason_not_timeout: "Reason (decide p i) \<noteq> ''ProcessingTimeout''"

interpretation router_labels:
  labelled_policy Decide OnSendRelayResult "\<lambda>p. MaxRetries (config p)"
  by unfold_locales (simp_all add: Decide_def stop_with_def retry_with_def)

end
