(* ===== verification/Results.thy ===== *)
theory Results
  imports Complex_Main "HOL-Library.Word" RetryAfter RelayPolicy Consistency ErrorRegistry
begin

text \<open>
  What a request's attempts came back with and which of it the client reads:
  \<open>relaycore/results_manager.go\<close>, \<open>relaycore/relay_errors.go\<close>, \<open>relaycore/client_facing_error.go\<close>
  and the result selection of \<open>relaycore/relay_processor.go\<close> for requests without
  cross-validation. The chain-specific parts (whether a reply is a node error, how an error is
  classified) are the fields of \<open>protocol_message\<close> and the arguments \<open>classify\<close>, \<open>is_unsupported\<close>
  and \<open>should_retry\<close>; \<open>ds\<close> renders a duration. The order in which Go visits a map is an argument
  (\<open>iter\<close>). Reputation scores are reals. The forwarded texts (upstream body, content type, cause)
  are left out of the client-facing error.
\<close>

section \<open>Results and errors\<close>

type_synonym hash = "256 word"

record Reply =
  Data :: string
  LatestBlock :: int

record ProviderInfo =
  ProviderAddress :: string
  ProviderReputationSummary :: real
  ProviderStake :: int
  ProviderGroup :: string

record ClientFacingError =
  UpstreamStatus :: int
  TimedOut :: bool
  RouterErrorCode :: int
  RouterErrorName :: string

record RelayResult =
  RR_Reply :: "Reply option"
  RR_ProviderInfo :: ProviderInfo
  Finalized :: bool
  StatusCode :: int
  CrossValidationCount :: int
  ResponseHash :: hash
  CrossValidationFailureReason :: string
  IsUnsupportedMethod :: bool
  IsNonRetryable :: bool
  IsRateLimited :: bool
  IsNodeCapability :: bool
  ClientFacing :: "ClientFacingError option"

record RelayResponse =
  Resp_RelayResult :: RelayResult
  Resp_Err :: "go_error option"

record RelayError =
  RE_Err :: go_error
  RE_ProviderInfo :: ProviderInfo
  RE_Response :: "RelayResponse option"
  RE_LavaError :: "LavaError option"
  JSONRPCErrorCode :: int

record RelayErrors =
  RelayErrors :: "RelayError list"
  OnFailureMergeAll :: bool

definition empty_result :: RelayResult where
  "empty_result = \<lparr>RR_Reply = None,
     RR_ProviderInfo = \<lparr>ProviderAddress = '''', ProviderReputationSummary = 0, ProviderStake = 0, ProviderGroup = ''''\<rparr>,
     Finalized = False, StatusCode = 0, CrossValidationCount = 0, ResponseHash = 0,
     CrossValidationFailureReason = '''', IsUnsupportedMethod = False, IsNonRetryable = False,
     IsRateLimited = False, IsNodeCapability = False, ClientFacing = None\<rparr>"

section \<open>The best error\<close>

text \<open>\<open>regexp.ReplaceAllString\<close> with the pattern \<open>prefix\d+\<close>, each match replaced by \<open>prefix*\<close>.\<close>

function replace_digits :: "string \<Rightarrow> string \<Rightarrow> string" where
  "replace_digits prefix [] = []"
| "replace_digits prefix (c # cs) =
    (if prefix \<noteq> [] \<and> is_prefix_of prefix (c # cs)
        \<and> drop (length prefix) (c # cs) \<noteq> [] \<and> is_digit (hd (drop (length prefix) (c # cs)))
     then prefix @ ''*'' @ replace_digits prefix (dropWhile is_digit (drop (length prefix) (c # cs)))
     else c # replace_digits prefix cs)"
  by pat_completeness auto
termination
proof (relation "measure (\<lambda>(prefix, s). length s)", goal_cases)
  case (2 prefix c cs)
  then have "length (drop (length prefix) (c # cs)) < length (c # cs)" by (cases prefix) auto
  with length_dropWhile_le [of is_digit "drop (length prefix) (c # cs)"] show ?case by simp
qed simp_all

definition sanitizeError :: "(duration \<Rightarrow> string) \<Rightarrow> go_error \<Rightarrow> string" where
  "sanitizeError ds err = replace_digits ''GUID:'' (replace_digits ''SessionId:'' (err_text ds err))"

text \<open>The loop of \<open>findMaxAppearances\<close>: the first of the longest lists, in visiting order.\<close>

fun max_appearances :: "(string \<times> nat list) list \<Rightarrow> nat \<Rightarrow> nat list \<Rightarrow> nat \<times> nat list" where
  "max_appearances [] maxVal arr = (maxVal, arr)"
| "max_appearances (kv # kvs) maxVal arr =
    (if length (snd kv) > maxVal then max_appearances kvs (length (snd kv)) (snd kv)
     else max_appearances kvs maxVal arr)"

definition findMaxAppearances :: "(string \<times> nat list) list \<Rightarrow> nat \<times> int" where
  "findMaxAppearances input =
    (case max_appearances input 0 [] of (maxVal, arr) \<Rightarrow>
       (maxVal, if arr \<noteq> [] then int (hd arr) else - 1))"

definition AddError :: "RelayError \<Rightarrow> RelayErrors \<Rightarrow> RelayErrors" where
  "AddError err r = r\<lparr>RelayErrors := RelayErrors r @ [err]\<rparr>"

fun unique_errors :: "(duration \<Rightarrow> string) \<Rightarrow> RelayError list \<Rightarrow> string list \<Rightarrow> go_error list" where
  "unique_errors ds [] seen = []"
| "unique_errors ds (e # es) seen =
    (let s = sanitizeError ds (RE_Err e)
     in if s \<in> set seen then unique_errors ds es seen else RE_Err e # unique_errors ds es (s # seen))"

definition getAllUniqueErrors :: "(duration \<Rightarrow> string) \<Rightarrow> RelayErrors \<Rightarrow> go_error list" where
  "getAllUniqueErrors ds r = unique_errors ds (RelayErrors r) []"

definition mergeAllErrors :: "(duration \<Rightarrow> string) \<Rightarrow> RelayErrors \<Rightarrow> go_error" where
  "mergeAllErrors ds r =
    (let all = getAllUniqueErrors ds r
     in ErrNew (concat (map (\<lambda>(idx, e). format_nat idx @ ''. '' @ err_text ds e
          @ (if int idx < int (length all) - 1 then '', '' else [])) (enumerate 0 all))))"

text \<open>The scan over the errors: the indices per message, and the best index, its score and whether it is external.\<close>

record best_scan =
  bestIndex :: int
  bestResult :: real
  bestIsExternal :: bool
  errorMap :: "(string, nat list) gomap"

definition scan_error :: "(duration \<Rightarrow> string) \<Rightarrow> nat \<times> RelayError \<Rightarrow> best_scan \<Rightarrow> best_scan" where
  "scan_error ds ie s =
    (case ie of (idx, relayError) \<Rightarrow>
     let errorMessage = sanitizeError ds (RE_Err relayError);
         indices = (case mget (errorMap s) errorMessage of Some is \<Rightarrow> is | None \<Rightarrow> []);
         s = s\<lparr>errorMap := mput errorMessage (indices @ [idx]) (errorMap s)\<rparr>;
         currentResult = ProviderReputationSummary (RE_ProviderInfo relayError)
                           * of_int (ProviderStake (RE_ProviderInfo relayError));
         isExternal = (case RE_LavaError relayError of None \<Rightarrow> False | Some le \<Rightarrow> Category le = CategoryExternal)
     in if isExternal \<and> \<not> bestIsExternal s
        then s\<lparr>bestResult := currentResult, bestIndex := int idx, bestIsExternal := True\<rparr>
        else if isExternal = bestIsExternal s \<and> currentResult \<ge> bestResult s
        then s\<lparr>bestResult := currentResult, bestIndex := int idx, bestIsExternal := isExternal\<rparr>
        else s)"

definition scan_errors :: "(duration \<Rightarrow> string) \<Rightarrow> RelayError list \<Rightarrow> best_scan" where
  "scan_errors ds es = fold (scan_error ds) (enumerate 0 es)
     \<lparr>bestIndex = - 1, bestResult = 0, bestIsExternal = False, errorMap = []\<rparr>"

text \<open>
  The picked error and the errors afterwards: the count of the majority pick is written into its stored
  response. Indexing the empty list panics (\<open>None\<close>).
\<close>

definition GetBestErrorMessageForUser ::
    "(duration \<Rightarrow> string) \<Rightarrow> ((string, nat list) gomap \<Rightarrow> (string \<times> nat list) list) \<Rightarrow> RelayErrors
      \<Rightarrow> (RelayError \<times> RelayErrors) option" where
  "GetBestErrorMessageForUser ds iter r =
    (let s = scan_errors ds (RelayErrors r)
     in case findMaxAppearances (iter (errorMap s)) of (errorCount, index) \<Rightarrow>
        if index \<ge> 0 \<and> errorCount \<ge> length (RelayErrors r) div 2 then
          let e = RelayErrors r ! nat index;
              e' = e\<lparr>RE_Response := map_option (\<lambda>resp. resp\<lparr>Resp_RelayResult :=
                     (Resp_RelayResult resp)\<lparr>CrossValidationCount := int errorCount\<rparr>\<rparr>) (RE_Response e)\<rparr>
          in Some (e', r\<lparr>RelayErrors := (RelayErrors r)[nat index := e']\<rparr>)
        else if bestIndex s \<noteq> - 1 then Some (RelayErrors r ! nat (bestIndex s), r)
        else if OnFailureMergeAll r then
          Some (\<lparr>RE_Err = mergeAllErrors ds r, RE_ProviderInfo = RR_ProviderInfo empty_result, RE_Response = None,
                 RE_LavaError = None, JSONRPCErrorCode = 0\<rparr>, r)
        else case RelayErrors r of [] \<Rightarrow> None | e # es \<Rightarrow> Some (e, r))"

section \<open>The results manager\<close>

text \<open>What a protocol message tells the results manager about a reply.\<close>

record protocol_message =
  RequestedBlock :: int
  IsSubscribe :: bool
  CheckResponseError :: "string \<Rightarrow> int \<Rightarrow> bool \<times> string"
  IsJsonRPC :: bool
  ExtractJSONRPCErrorCode :: "string \<Rightarrow> int"
  ClassificationStatus :: "(string \<Rightarrow> int \<Rightarrow> int) option"
  ClassifyNodeError :: "int \<Rightarrow> string \<Rightarrow> LavaError"

record ResultsManager =
  nodeResponseErrors :: RelayErrors
  protocolResponseErrors :: RelayErrors
  successResults :: "RelayResult list"

definition NewResultsManager :: ResultsManager where
  "NewResultsManager = \<lparr>nodeResponseErrors = \<lparr>RelayErrors = [], OnFailureMergeAll = False\<rparr>,
     protocolResponseErrors = \<lparr>RelayErrors = [], OnFailureMergeAll = True\<rparr>, successResults = []\<rparr>"

definition setErrorResponse :: "(go_error \<Rightarrow> LavaError) \<Rightarrow> go_error \<Rightarrow> RelayResponse \<Rightarrow> ResultsManager \<Rightarrow> ResultsManager" where
  "setErrorResponse classify err response rm =
     rm\<lparr>protocolResponseErrors := AddError
       \<lparr>RE_Err = err, RE_ProviderInfo = RR_ProviderInfo (Resp_RelayResult response),
        RE_Response = Some response, RE_LavaError = Some (classify err), JSONRPCErrorCode = 0\<rparr>
       (protocolResponseErrors rm)\<rparr>"

text \<open>The message and the code a node error is filed under.\<close>

definition node_error_message :: "string \<Rightarrow> string \<Rightarrow> int \<Rightarrow> string" where
  "node_error_message errorMessage data status =
    (let m = (if errorMessage = [] then data else errorMessage)
     in if m = [] then ''node error with no message (status '' @ format_int status @ '')'' else m)"

definition node_error_codes :: "protocol_message \<Rightarrow> string \<Rightarrow> int \<Rightarrow> int \<times> int" where
  "node_error_codes pm data status =
    (let code = (if IsJsonRPC pm then ExtractJSONRPCErrorCode pm data else 0);
         errorCode = (if code \<noteq> 0 then code else status)
     in (case ClassificationStatus pm of Some f \<Rightarrow> f data status | None \<Rightarrow> errorCode, code))"

definition setValidResponse ::
    "protocol_message \<Rightarrow> RelayResponse \<Rightarrow> ResultsManager \<Rightarrow> go_error option \<times> ResultsManager" where
  "setValidResponse pm response rm =
    (let result = Resp_RelayResult response;
         result = (if RequestedBlock pm = LATEST_BLOCK then result\<lparr>Finalized := False\<rparr> else result);
         response = response\<lparr>Resp_RelayResult := result\<rparr>
     in case RR_Reply result of
          None \<Rightarrow> (None, rm)
        | Some reply \<Rightarrow>
           if IsSubscribe pm then (None, rm\<lparr>successResults := successResults rm @ [result]\<rparr>)
           else case CheckResponseError pm (Data reply) (StatusCode result) of (foundError, errorMessage) \<Rightarrow>
             if foundError then
               let err = ErrNew (node_error_message errorMessage (Data reply) (StatusCode result));
                   codes = node_error_codes pm (Data reply) (StatusCode result);
                   classified = ClassifyNodeError pm (fst codes) (node_error_message errorMessage (Data reply) (StatusCode result))
               in (Some err, rm\<lparr>nodeResponseErrors := AddError
                    \<lparr>RE_Err = err, RE_ProviderInfo = RR_ProviderInfo result, RE_Response = Some response,
                     RE_LavaError = Some classified, JSONRPCErrorCode = snd codes\<rparr> (nodeResponseErrors rm)\<rparr>)
             else (None, rm\<lparr>successResults := successResults rm @ [result]\<rparr>))"

definition rm_SetResponse ::
    "(go_error \<Rightarrow> LavaError) \<Rightarrow> protocol_message \<Rightarrow> RelayResponse option \<Rightarrow> ResultsManager
      \<Rightarrow> go_error option \<times> ResultsManager" where
  "rm_SetResponse classify pm response rm =
    (case response of None \<Rightarrow> (None, rm)
     | Some response \<Rightarrow>
        (case Resp_Err response of
           Some err \<Rightarrow> (None, setErrorResponse classify err response rm)
         | None \<Rightarrow> setValidResponse pm response rm))"

text \<open>\<open>NodeErrors\<close> reads the stored response of each node error; all of them have one.\<close>

definition rm_NodeErrors :: "ResultsManager \<Rightarrow> RelayResult list" where
  "rm_NodeErrors rm = map (\<lambda>e. Resp_RelayResult (the (RE_Response e))) (RelayErrors (nodeResponseErrors rm))"

definition NodeResults :: "ResultsManager \<Rightarrow> RelayResult list" where
  "NodeResults rm = successResults rm @ rm_NodeErrors rm"

definition is_special_error :: "RelayError \<Rightarrow> bool" where
  "is_special_error e \<longleftrightarrow>
    (case RE_Response e of None \<Rightarrow> False
     | Some resp \<Rightarrow> (case RR_Reply (Resp_RelayResult resp) of None \<Rightarrow> False
        | Some reply \<Rightarrow> str_contains (Data reply) ''The node does not track the shard ID''))"

definition GetResults :: "ResultsManager \<Rightarrow> int \<times> int \<times> int \<times> int" where
  "GetResults rm =
    (let special = int (length (filter is_special_error (RelayErrors (nodeResponseErrors rm))))
     in (int (length (successResults rm)),
         int (length (RelayErrors (nodeResponseErrors rm))) - special, special,
         int (length (RelayErrors (protocolResponseErrors rm)))))"

definition RequiredResults :: "int \<Rightarrow> ResultsManager \<Rightarrow> bool" where
  "RequiredResults requiredSuccesses rm \<longleftrightarrow> int (length (successResults rm)) \<ge> requiredSuccesses"

definition HasResults :: "ResultsManager \<Rightarrow> bool" where
  "HasResults rm \<longleftrightarrow> length (successResults rm) + length (RelayErrors (nodeResponseErrors rm))
     + length (RelayErrors (protocolResponseErrors rm)) > 0"

section \<open>The summary the policy decides on\<close>

definition onlyRateLimited :: "RelayResult list \<Rightarrow> RelayError list \<Rightarrow> bool" where
  "onlyRateLimited nodeErrorResults protocolErrorResults =
    (if length nodeErrorResults + length protocolErrorResults = 0 then False
     else list_all IsRateLimited nodeErrorResults
        \<and> list_all (\<lambda>e. errors_is (RE_Err e) StatusCodeError429) protocolErrorResults)"

definition EpochMismatchError :: string where "EpochMismatchError = ''Tried to Report to an older epoch''"

definition GetResultsSummary ::
    "(go_error \<Rightarrow> bool) \<Rightarrow> (go_error \<Rightarrow> bool) \<Rightarrow> ResultsManager \<Rightarrow> results_summary" where
  "GetResultsSummary is_unsupported should_retry rm =
    (case GetResults rm of (success, nodeErrors, special, protocolErrors) \<Rightarrow>
     let nodeErrs = rm_NodeErrors rm;
         protErrs = RelayErrors (protocolResponseErrors rm);
         epoch = (\<lambda>e. errors_is (RE_Err e) EpochMismatchError)
     in \<lparr>SuccessCount = success, NodeErrors = nodeErrors, SpecialNodeErrors = special,
         ProtocolErrors = protocolErrors,
         HasNonRetryableNodeError = list_ex IsNonRetryable nodeErrs,
         HasNodeCapabilityRefusal = list_ex IsNodeCapability nodeErrs,
         HasUnsupportedMethod = list_ex IsUnsupportedMethod nodeErrs,
         HasPermanentProtocolError = list_ex (\<lambda>e. \<not> epoch e
             \<and> (is_unsupported (RE_Err e) \<or> \<not> should_retry (RE_Err e))) protErrs,
         HasEpochMismatch = list_ex epoch protErrs,
         OnlyRateLimited = onlyRateLimited nodeErrs protErrs\<rparr>)"

section \<open>What the client reads\<close>

text \<open>\<open>errors.As\<close> for \<open>*lavasession.HTTPStatusError\<close>: the status code of the first one in the tree.\<close>

fun find_http_status :: "go_error \<Rightarrow> int option"
  and find_http_status_list :: "go_error list \<Rightarrow> int option" where
  "find_http_status (ErrHTTPStatus _ code _) = Some code"
| "find_http_status (ErrWrap _ es) = find_http_status_list es"
| "find_http_status (ErrRateLimited _ (Some c)) = find_http_status c"
| "find_http_status (ErrRateLimited _ None) = None"
| "find_http_status (ErrSentinel _) = None"
| "find_http_status (ErrNew _) = None"
| "find_http_status_list [] = None"
| "find_http_status_list (e # es) =
     (case find_http_status e of Some c \<Rightarrow> Some c | None \<Rightarrow> find_http_status_list es)"

definition transportFailureCodes :: "(int, bool) gomap" where
  "transportFailureCodes = [(1001, True), (1002, False), (1003, False), (1004, False), (1005, False),
     (1006, False), (1007, True), (1009, False)]"

definition clientFacingFromProtocolError :: "go_error option \<Rightarrow> LavaError option \<Rightarrow> ClientFacingError option" where
  "clientFacingFromProtocolError err lavaErr =
    (case err of None \<Rightarrow> None
     | Some err \<Rightarrow>
        let cf = \<lparr>UpstreamStatus = 0, TimedOut = False,
                  RouterErrorCode = (case lavaErr of Some le \<Rightarrow> Code le | None \<Rightarrow> 0),
                  RouterErrorName = (case lavaErr of Some le \<Rightarrow> Name le | None \<Rightarrow> '''')\<rparr>;
            httpStatus = (case find_http_status err of Some code \<Rightarrow> code | None \<Rightarrow> 0)
        in if httpStatus \<ge> 400 then Some (cf\<lparr>UpstreamStatus := httpStatus\<rparr>)
           else case lavaErr of None \<Rightarrow> None
                | Some le \<Rightarrow>
                   (case mget transportFailureCodes (Code le) of
                      Some timedOut \<Rightarrow> Some (cf\<lparr>TimedOut := timedOut\<rparr>)
                    | None \<Rightarrow> None))"

definition NoAnswerStatus :: "ClientFacingError option \<Rightarrow> int" where
  "NoAnswerStatus cf = (case cf of Some c \<Rightarrow> if TimedOut c then 504 else 502 | None \<Rightarrow> 502)"

definition replyRank :: "RelayError \<Rightarrow> int" where
  "replyRank e =
    (case clientFacingFromProtocolError (Some (RE_Err e)) (RE_LavaError e) of
       None \<Rightarrow> 2
     | Some cf \<Rightarrow>
        if UpstreamStatus cf = 429 then 3
        else if UpstreamStatus cf \<noteq> 0 then 4
        else if TimedOut cf then 1 else 0)"

fun reply_loop :: "RelayError list \<Rightarrow> RelayError \<Rightarrow> int \<Rightarrow> RelayError" where
  "reply_loop [] best bestRank = best"
| "reply_loop (c # cs) best bestRank =
     (if replyRank c > bestRank then reply_loop cs c (replyRank c) else reply_loop cs best bestRank)"

definition replyProtocolError :: "RelayError \<Rightarrow> RelayError list \<Rightarrow> RelayError" where
  "replyProtocolError picked all = reply_loop all picked (replyRank picked)"

text \<open>
  \<open>buildFailureResult\<close> for a request no node answered: the result with its status, and the results
  manager after the pick.
\<close>

definition buildFailureResult ::
    "(duration \<Rightarrow> string) \<Rightarrow> ((string, nat list) gomap \<Rightarrow> (string \<times> nat list) list) \<Rightarrow> ResultsManager
      \<Rightarrow> (RelayResult \<times> go_error option \<times> ResultsManager) option" where
  "buildFailureResult ds iter rm =
    (let nodeErrors = rm_NodeErrors rm;
         protocolErrors = RelayErrors (protocolResponseErrors rm);
         returnedResult = empty_result\<lparr>StatusCode := 500\<rparr>
     in if nodeErrors \<noteq> [] then
          (case GetBestErrorMessageForUser ds iter (nodeResponseErrors rm) of None \<Rightarrow> None
           | Some (nodeErr, errs) \<Rightarrow>
              Some (case RE_Response nodeErr of Some resp \<Rightarrow> Resp_RelayResult resp | None \<Rightarrow> returnedResult,
                    Some (RE_Err nodeErr), rm\<lparr>nodeResponseErrors := errs\<rparr>))
        else if protocolErrors \<noteq> [] then
          (case GetBestErrorMessageForUser ds iter (protocolResponseErrors rm) of None \<Rightarrow> None
           | Some (protocolErr, errs) \<Rightarrow>
              let replyErr = replyProtocolError protocolErr (RelayErrors errs);
                  returnedResult = (case RE_Response replyErr of Some resp \<Rightarrow> Resp_RelayResult resp | None \<Rightarrow> returnedResult);
                  cf = clientFacingFromProtocolError (Some (RE_Err replyErr)) (RE_LavaError replyErr);
                  returnedResult = (case cf of
                      Some c \<Rightarrow> returnedResult\<lparr>ClientFacing := cf,
                        StatusCode := (if UpstreamStatus c \<noteq> 0 then UpstreamStatus c else NoAnswerStatus cf)\<rparr>
                    | None \<Rightarrow> if onlyRateLimited nodeErrors (RelayErrors errs)
                              then returnedResult\<lparr>StatusCode := 429\<rparr> else returnedResult)
              in Some (returnedResult, Some (RE_Err protocolErr), rm\<lparr>protocolResponseErrors := errs\<rparr>))
        else Some (returnedResult, None, rm))"

datatype processing = Answer RelayResult | Failure RelayResult

definition processNonCrossValidationResult ::
    "(duration \<Rightarrow> string) \<Rightarrow> ((string, nat list) gomap \<Rightarrow> (string \<times> nat list) list) \<Rightarrow> ResultsManager
      \<Rightarrow> processing option" where
  "processNonCrossValidationResult ds iter rm =
    (case successResults rm of
       r # _ \<Rightarrow> Some (Answer r)
     | [] \<Rightarrow>
        (case rm_NodeErrors rm of
           e # _ \<Rightarrow> (case find IsNonRetryable (rm_NodeErrors rm) of
                      Some r \<Rightarrow> Some (Answer r) | None \<Rightarrow> Some (Answer e))
         | [] \<Rightarrow> map_option (\<lambda>(r, _, _). Failure r) (buildFailureResult ds iter rm)))"

section \<open>Every answer is filed once\<close>

definition rm_run ::
    "(go_error \<Rightarrow> LavaError) \<Rightarrow> protocol_message \<Rightarrow> RelayResponse option list \<Rightarrow> ResultsManager \<Rightarrow> ResultsManager" where
  "rm_run classify pm rs rm = fold (\<lambda>resp rm. snd (rm_SetResponse classify pm resp rm)) rs rm"

definition is_answer :: "RelayResponse option \<Rightarrow> bool" where
  "is_answer resp = (case resp of None \<Rightarrow> False
     | Some r \<Rightarrow> Resp_Err r \<noteq> None \<or> RR_Reply (Resp_RelayResult r) \<noteq> None)"

definition filed :: "ResultsManager \<Rightarrow> nat" where
  "filed rm = length (successResults rm) + length (RelayErrors (nodeResponseErrors rm))
     + length (RelayErrors (protocolResponseErrors rm))"

text \<open>Every node error carries the response it came from.\<close>

definition rm_ok :: "ResultsManager \<Rightarrow> bool" where
  "rm_ok rm \<longleftrightarrow> (\<forall>e\<in>set (RelayErrors (nodeResponseErrors rm)). RE_Response e \<noteq> None)
     \<and> (\<forall>e\<in>set (RelayErrors (protocolResponseErrors rm)). RE_Response e \<noteq> None)
     \<and> \<not> OnFailureMergeAll (nodeResponseErrors rm) \<and> OnFailureMergeAll (protocolResponseErrors rm)"

lemmas set_response_defs = rm_SetResponse_def setErrorResponse_def setValidResponse_def AddError_def Let_def

lemma set_response_filed:
  "filed (snd (rm_SetResponse classify pm resp rm)) = filed rm + (if is_answer resp then 1 else 0)"
  by (auto simp: set_response_defs is_answer_def filed_def split: option.split prod.split)

lemma set_response_ok: "rm_ok rm \<Longrightarrow> rm_ok (snd (rm_SetResponse classify pm resp rm))"
  by (auto simp: set_response_defs rm_ok_def split: option.split prod.split)

lemma run_filed: "filed (rm_run classify pm rs rm) = filed rm + length (filter is_answer rs)"
  by (induction rs arbitrary: rm) (simp_all add: rm_run_def set_response_filed)

lemma run_ok: "rm_ok rm \<Longrightarrow> rm_ok (rm_run classify pm rs rm)"
  by (induction rs arbitrary: rm) (simp_all add: rm_run_def set_response_ok)

lemma new_rm_ok: "rm_ok NewResultsManager" "filed NewResultsManager = 0"
  by (simp_all add: NewResultsManager_def rm_ok_def filed_def)

text \<open>
  Nothing a provider answers is lost or counted twice: after any sequence of responses, the
  successes, node errors, special node errors and protocol errors the policy is shown add up to the
  number of responses that carried a reply or an error, and there are results to show exactly when
  there is at least one.
\<close>

theorem responses_accounted:
  "(case GetResults (rm_run classify pm rs NewResultsManager) of (success, nodeErrors, special, protocolErrors) \<Rightarrow>
      success + nodeErrors + special + protocolErrors = int (length (filter is_answer rs))
      \<and> 0 \<le> nodeErrors \<and> 0 \<le> special)
   \<and> (HasResults (rm_run classify pm rs NewResultsManager) \<longleftrightarrow> (\<exists>r\<in>set rs. is_answer r))
   \<and> SuccessCount (GetResultsSummary is_unsupported should_retry (rm_run classify pm rs NewResultsManager))
       = int (length (successResults (rm_run classify pm rs NewResultsManager)))"
proof -
  let ?rm = "rm_run classify pm rs NewResultsManager"
  have "filed ?rm = length (filter is_answer rs)" by (simp add: run_filed new_rm_ok)
  moreover have "length (filter is_special_error (RelayErrors (nodeResponseErrors ?rm)))
      \<le> length (RelayErrors (nodeResponseErrors ?rm))" by (rule length_filter_le)
  moreover have "0 < length (filter is_answer rs) \<longleftrightarrow> (\<exists>r\<in>set rs. is_answer r)"
    by (auto simp: filter_empty_conv)
  ultimately show ?thesis
    by (simp add: GetResults_def GetResultsSummary_def HasResults_def filed_def Let_def)
qed

section \<open>The pick\<close>

definition indices_of :: "(duration \<Rightarrow> string) \<Rightarrow> nat \<Rightarrow> string \<Rightarrow> RelayError list \<Rightarrow> nat list" where
  "indices_of ds k m es = map fst (filter (\<lambda>ie. sanitizeError ds (RE_Err (snd ie)) = m) (enumerate k es))"

lemma indices_of_simps [simp]:
  "indices_of ds k m [] = []"
  "indices_of ds k m (e # es) =
     (if sanitizeError ds (RE_Err e) = m then k # indices_of ds (Suc k) m es else indices_of ds (Suc k) m es)"
  by (simp_all add: indices_of_def)

lemma indices_of_nth:
  "i \<in> set (indices_of ds k m es) \<Longrightarrow> k \<le> i \<and> i < k + length es \<and> sanitizeError ds (RE_Err (es ! (i - k))) = m"
  by (auto simp: indices_of_def in_set_enumerate_eq)

lemma length_indices_of:
  "length (indices_of ds k m es) = length (filter (\<lambda>e. sanitizeError ds (RE_Err e) = m) es)"
  by (induction es arbitrary: k) simp_all

lemma scan_error_map:
  "errorMap (scan_error ds (i, e) s) = mput (sanitizeError ds (RE_Err e))
     ((case mget (errorMap s) (sanitizeError ds (RE_Err e)) of Some is \<Rightarrow> is | None \<Rightarrow> []) @ [i]) (errorMap s)"
  by (simp add: scan_error_def Let_def)

lemma fold_scan_map:
  "mget (errorMap (fold (scan_error ds) (enumerate k es) s)) m =
    (if indices_of ds k m es = [] then mget (errorMap s) m
     else Some ((case mget (errorMap s) m of Some is \<Rightarrow> is | None \<Rightarrow> []) @ indices_of ds k m es))"
  by (induction es arbitrary: k s) (auto simp: scan_error_map split: option.split)

lemma scan_map:
  "mget (errorMap (scan_errors ds es)) m =
    (if indices_of ds 0 m es = [] then None else Some (indices_of ds 0 m es))"
  by (simp add: scan_errors_def fold_scan_map)

lemma fold_scan_wf:
  "wf_map (errorMap s) \<Longrightarrow> wf_map (errorMap (fold (scan_error ds) (enumerate k es) s))"
  by (induction es arbitrary: k s) (simp_all add: scan_error_map)

lemma scan_wf: "wf_map (errorMap (scan_errors ds es))"
  by (simp add: scan_errors_def fold_scan_wf)

lemma fold_scan_best:
  "(bestIndex s = - 1 \<or> (0 \<le> bestIndex s \<and> bestIndex s < int k)) \<Longrightarrow>
   (let s' = fold (scan_error ds) (enumerate k es) s
    in bestIndex s' = - 1 \<or> (0 \<le> bestIndex s' \<and> bestIndex s' < int (k + length es)))"
proof (induction es arbitrary: k s)
  case (Cons e es)
  have "bestIndex (scan_error ds (k, e) s) = - 1
      \<or> (0 \<le> bestIndex (scan_error ds (k, e) s) \<and> bestIndex (scan_error ds (k, e) s) < int (Suc k))"
    using Cons.prems by (auto simp: scan_error_def Let_def)
  from Cons.IH [OF this] show ?case by (simp add: Let_def)
qed (simp add: Let_def)

lemma fold_scan_stays:
  "bestIndex s \<noteq> - 1 \<Longrightarrow> bestIndex (fold (scan_error ds) (enumerate k es) s) \<noteq> - 1"
proof (induction es arbitrary: k s)
  case (Cons e es)
  have "bestIndex (scan_error ds (k, e) s) \<noteq> - 1" using Cons.prems by (auto simp: scan_error_def Let_def)
  from Cons.IH [OF this] show ?case by simp
qed simp

definition score :: "RelayError \<Rightarrow> real" where
  "score e = ProviderReputationSummary (RE_ProviderInfo e) * of_int (ProviderStake (RE_ProviderInfo e))"

lemma scan_best:
  assumes "es \<noteq> []" "\<forall>e\<in>set es. 0 \<le> score e"
  shows "0 \<le> bestIndex (scan_errors ds es) \<and> bestIndex (scan_errors ds es) < int (length es)"
proof -
  let ?s = "\<lparr>bestIndex = - 1, bestResult = 0, bestIsExternal = False, errorMap = []\<rparr>"
  obtain e es' where es: "es = e # es'" using assms(1) by (cases es) auto
  have "bestIndex (scan_error ds (0, e) ?s) \<noteq> - 1"
    using assms(2) es by (auto simp: scan_error_def Let_def score_def split: option.split)
  from fold_scan_stays [OF this, of ds 1 es'] have "bestIndex (scan_errors ds es) \<noteq> - 1"
    by (simp add: scan_errors_def es)
  then show ?thesis using fold_scan_best [of ?s 0 ds es] by (simp add: scan_errors_def Let_def)
qed

lemma max_appearances_spec:
  "max_appearances kvs v arr = (v', arr') \<Longrightarrow>
     v \<le> v' \<and> (\<forall>kv\<in>set kvs. length (snd kv) \<le> v')
     \<and> ((v' = v \<and> arr' = arr) \<or> (v < v' \<and> (\<exists>kv\<in>set kvs. arr' = snd kv \<and> v' = length (snd kv))))"
  by (induction kvs arbitrary: v arr) (fastforce split: if_splits)+

text \<open>The order in which a map is visited is some arrangement of its entries.\<close>

definition visits_all :: "(('k, 'v) gomap \<Rightarrow> ('k \<times> 'v) list) \<Rightarrow> bool" where
  "visits_all iter \<longleftrightarrow> (\<forall>m. set (iter m) = set m)"

lemma max_of_errors:
  assumes "visits_all iter" "es \<noteq> []"
    and "findMaxAppearances (iter (errorMap (scan_errors ds es))) = (errorCount, index)"
  shows "0 \<le> index \<and> nat index < length es
    \<and> errorCount = length (filter (\<lambda>e. sanitizeError ds (RE_Err e) = sanitizeError ds (RE_Err (es ! nat index))) es)
    \<and> (\<forall>m. length (filter (\<lambda>e. sanitizeError ds (RE_Err e) = m) es) \<le> errorCount)"
proof -
  let ?map = "errorMap (scan_errors ds es)"
  obtain arr where arr: "max_appearances (iter ?map) 0 [] = (errorCount, arr)"
    "index = (if arr \<noteq> [] then int (hd arr) else - 1)"
    using assms(3) by (auto simp: findMaxAppearances_def split: prod.splits)
  have entries: "set (iter ?map) = {(m, indices_of ds 0 m es) |m. indices_of ds 0 m es \<noteq> []}"
    using assms(1) by (auto simp: visits_all_def wf_map_in_iff [OF scan_wf] scan_map split: if_splits)
  note spec = max_appearances_spec [OF arr(1)]
  have le: "length (indices_of ds 0 m es) \<le> errorCount" for m
    using spec entries by (cases "indices_of ds 0 m es = []") force+
  obtain e es' where "es = e # es'" using assms(2) by (cases es) auto
  then have "0 < errorCount" using le [of "sanitizeError ds (RE_Err e)"] by simp
  with spec entries obtain m where m: "arr = indices_of ds 0 m es" "errorCount = length arr" by fastforce
  with \<open>0 < errorCount\<close> have "arr \<noteq> []" by auto
  then have "hd arr \<in> set (indices_of ds 0 m es)" using m by simp
  from indices_of_nth [OF this] have "hd arr < length es" "sanitizeError ds (RE_Err (es ! hd arr)) = m" by simp_all
  with arr(2) \<open>arr \<noteq> []\<close> m le show ?thesis by (simp add: length_indices_of)
qed

lemma disjoint_filters:
  "(\<And>x. \<not> (P x \<and> Q x)) \<Longrightarrow> length (filter P xs) + length (filter Q xs) \<le> length xs"
  by (induction xs) auto

text \<open>The pick is one of the errors, or the one with the agreement count written into it.\<close>

definition same_error :: "RelayError \<Rightarrow> RelayError \<Rightarrow> bool" where
  "same_error e e' \<longleftrightarrow> RE_Err e = RE_Err e' \<and> RE_LavaError e = RE_LavaError e' \<and> RE_ProviderInfo e = RE_ProviderInfo e'
     \<and> (RE_Response e = None \<longleftrightarrow> RE_Response e' = None)"

lemma pick_spec:
  assumes "visits_all iter" "RelayErrors r \<noteq> []" "\<forall>e\<in>set (RelayErrors r). 0 \<le> score e"
  shows "\<exists>e r' i. GetBestErrorMessageForUser ds iter r = Some (e, r') \<and> i < length (RelayErrors r)
    \<and> same_error (RelayErrors r ! i) e \<and> list_all2 same_error (RelayErrors r) (RelayErrors r')
    \<and> (\<forall>m. length (RelayErrors r) < 2 * length (filter (\<lambda>e. sanitizeError ds (RE_Err e) = m) (RelayErrors r))
          \<longrightarrow> sanitizeError ds (RE_Err (RelayErrors r ! i)) = m)"
proof -
  let ?es = "RelayErrors r"
  obtain c idx where f: "findMaxAppearances (iter (errorMap (scan_errors ds ?es))) = (c, idx)" by force
  note max = max_of_errors [OF assms(1,2) f]
  note best = scan_best [OF assms(2,3), of ds]
  have refl: "list_all2 same_error ?es ?es" by (rule list.rel_refl) (simp add: same_error_def)
  have half: "\<not> length ?es < 2 * length (filter (\<lambda>e. sanitizeError ds (RE_Err e) = m) ?es)"
    if "\<not> c \<ge> length ?es div 2" for m
  proof -
    from max have "length (filter (\<lambda>e. sanitizeError ds (RE_Err e) = m) ?es) \<le> c" by blast
    with that show ?thesis by simp
  qed
  show ?thesis
  proof (cases "c \<ge> length ?es div 2")
    case True
    have maj: "sanitizeError ds (RE_Err (?es ! nat idx)) = m"
      if m: "length ?es < 2 * length (filter (\<lambda>e. sanitizeError ds (RE_Err e) = m) ?es)" for m
    proof (rule ccontr)
      let ?m' = "sanitizeError ds (RE_Err (?es ! nat idx))"
      assume ne: "?m' \<noteq> m"
      let ?f = "\<lambda>m. filter (\<lambda>e. sanitizeError ds (RE_Err e) = m) ?es"
      have "length (?f m) + length (?f ?m') \<le> length ?es"
        using ne by (intro disjoint_filters) auto
      moreover have "length (?f m) \<le> length (?f ?m')" using max by metis
      ultimately show False using m by linarith
    qed
    show ?thesis
      unfolding GetBestErrorMessageForUser_def Let_def f
      using True max maj refl
      by (auto simp: same_error_def list_all2_conv_all_nth nth_list_update intro!: exI [of _ "nat idx"])
  next
    case False
    then show ?thesis
      unfolding GetBestErrorMessageForUser_def Let_def f
      using best refl half by (auto simp: same_error_def intro!: exI [of _ "nat (bestIndex (scan_errors ds ?es))"])
  qed
qed

text \<open>
  The error picker agrees with a majority: whenever more than half of the failed attempts report the
  same error, up to session and request ids, the error returned is that one, whatever order the
  error map is visited in and whatever the providers' scores and categories.
\<close>

theorem majority_error_wins:
  assumes "visits_all iter" and "\<forall>e\<in>set (RelayErrors r). 0 \<le> score e"
    and "length (RelayErrors r) < 2 * length (filter (\<lambda>e. sanitizeError ds (RE_Err e) = m) (RelayErrors r))"
  shows "\<exists>e r'. GetBestErrorMessageForUser ds iter r = Some (e, r') \<and> sanitizeError ds (RE_Err e) = m"
proof -
  from assms(3) have "RelayErrors r \<noteq> []" by auto
  from pick_spec [OF assms(1) this assms(2), of ds] assms(3) show ?thesis
    by (auto simp: same_error_def)
qed

definition plain_error :: "string \<Rightarrow> error_category \<Rightarrow> RelayError" where
  "plain_error m c = \<lparr>RE_Err = ErrNew m, RE_ProviderInfo = RR_ProviderInfo empty_result, RE_Response = None,
     RE_LavaError = Some \<lparr>Code = 2003, Name = ''NODE_INTERNAL_ERROR'', Category = c, SubCategory = SubCategoryNone, Retryable = True, MayHaveReachedNode = False\<rparr>, JSONRPCErrorCode = 0\<rparr>"

definition three_errors :: "string \<Rightarrow> string \<Rightarrow> string \<Rightarrow> RelayErrors" where
  "three_errors a b c = \<lparr>RelayErrors = [plain_error a CategoryInternal, plain_error b CategoryExternal,
     plain_error c CategoryInternal], OnFailureMergeAll = True\<rparr>"

lemma sanitize_short: "err_text ds e = [c] \<Longrightarrow> sanitizeError ds e = [c]"
  by (simp add: sanitizeError_def)

theorem majority_error_wins_witness:
  "\<exists>e r'. GetBestErrorMessageForUser (\<lambda>_. '''') rev (three_errors ''a'' ''b'' ''a'') = Some (e, r')
     \<and> sanitizeError (\<lambda>_. '''') (RE_Err e) = ''a''"
proof -
  have "sanitizeError (\<lambda>_. '''') (ErrNew ''a'') = ''a''" "sanitizeError (\<lambda>_. '''') (ErrNew ''b'') = ''b''"
    by (simp_all add: sanitize_short)
  then show ?thesis
    using majority_error_wins [of rev "three_errors ''a'' ''b'' ''a''" "\<lambda>_. ''''" "''a''"]
    by (simp add: visits_all_def three_errors_def plain_error_def score_def empty_result_def)
qed

text \<open>
  The picker's half is rounded down: with three failed attempts that all differ, the first one visited
  is returned as if it were a majority, an internal error although an external one is there, with one
  of three agreeing.
\<close>

theorem minority_error_returned:
  "\<exists>e r'. GetBestErrorMessageForUser (\<lambda>_. '''') id (three_errors ''a'' ''b'' ''c'') = Some (e, r')
     \<and> e = plain_error ''a'' CategoryInternal
     \<and> 2 * length (filter (\<lambda>x. RE_Err x = RE_Err e) (RelayErrors (three_errors ''a'' ''b'' ''c'')))
         < length (RelayErrors (three_errors ''a'' ''b'' ''c''))"
proof -
  let ?r = "three_errors ''a'' ''b'' ''c''"
  have "sanitizeError (\<lambda>_. '''') (ErrNew ''a'') = ''a''" "sanitizeError (\<lambda>_. '''') (ErrNew ''b'') = ''b''"
    "sanitizeError (\<lambda>_. '''') (ErrNew ''c'') = ''c''"
    by (simp_all add: sanitize_short)
  then have "errorMap (scan_errors (\<lambda>_. '''') (RelayErrors ?r)) = [(''a'', [0]), (''b'', [1]), (''c'', [2])]"
    by (simp add: scan_errors_def three_errors_def plain_error_def scan_error_map)
  then have "findMaxAppearances (id (errorMap (scan_errors (\<lambda>_. '''') (RelayErrors ?r)))) = (1, 0)"
    by (simp add: findMaxAppearances_def)
  moreover have "length (RelayErrors ?r) = 3" "RelayErrors ?r ! 0 = plain_error ''a'' CategoryInternal"
    by (simp_all add: three_errors_def)
  ultimately have "\<exists>r'. GetBestErrorMessageForUser (\<lambda>_. '''') id ?r = Some (plain_error ''a'' CategoryInternal, r')"
    unfolding GetBestErrorMessageForUser_def Let_def by (simp add: plain_error_def)
  then show ?thesis by (auto simp: three_errors_def plain_error_def)
qed

section \<open>The status the client reads\<close>

lemma same_error_rank: "same_error e e' \<Longrightarrow> replyRank e = replyRank e'"
  by (simp add: same_error_def replyRank_def)

lemma reply_loop_spec:
  "reply_loop cs best (replyRank best) \<in> insert best (set cs)
   \<and> (\<forall>c\<in>insert best (set cs). replyRank c \<le> replyRank (reply_loop cs best (replyRank best)))"
proof (induction cs arbitrary: best)
  case (Cons c cs)
  show ?case
  proof (cases "replyRank c > replyRank best")
    case True
    with Cons.IH [of c] show ?thesis by fastforce
  next
    case False
    with Cons.IH [of best] show ?thesis by fastforce
  qed
qed simp

lemma rank_facts:
  shows "replyRank e \<in> {0, 1, 2, 3, 4}"
    and "replyRank e = 4 \<Longrightarrow> \<exists>cf s. clientFacingFromProtocolError (Some (RE_Err e)) (RE_LavaError e) = Some cf
        \<and> UpstreamStatus cf = s \<and> find_http_status (RE_Err e) = Some s \<and> 400 \<le> s \<and> s \<noteq> 429"
    and "replyRank e \<le> 1 \<Longrightarrow> \<exists>cf. clientFacingFromProtocolError (Some (RE_Err e)) (RE_LavaError e) = Some cf
        \<and> UpstreamStatus cf = 0 \<and> (TimedOut cf \<longleftrightarrow> replyRank e = 1)"
  by (auto simp: replyRank_def clientFacingFromProtocolError_def Let_def split: option.splits if_splits)

text \<open>
  The status of a request no node answered: if some upstream answered with an error status other than
  a throttle, the client reads the status of such an answer; if no upstream answered at all, the client
  reads 504 when one attempt timed out and 502 otherwise. The order in which Go visits the error map
  does not matter.
\<close>

theorem client_status:
  assumes "visits_all iter" and "rm_ok rm" and "successResults rm = []"
    and "RelayErrors (nodeResponseErrors rm) = []" and "RelayErrors (protocolResponseErrors rm) \<noteq> []"
    and "\<forall>e\<in>set (RelayErrors (protocolResponseErrors rm)). 0 \<le> score e"
  shows "\<exists>r. processNonCrossValidationResult ds iter rm = Some (Failure r)
    \<and> ((\<exists>e\<in>set (RelayErrors (protocolResponseErrors rm)). replyRank e = 4) \<longrightarrow>
         (\<exists>e\<in>set (RelayErrors (protocolResponseErrors rm)). replyRank e = 4
            \<and> find_http_status (RE_Err e) = Some (StatusCode r)))
    \<and> ((\<forall>e\<in>set (RelayErrors (protocolResponseErrors rm)). replyRank e \<le> 1) \<longrightarrow>
         StatusCode r = (if \<exists>e\<in>set (RelayErrors (protocolResponseErrors rm)). replyRank e = 1 then 504 else 502))"
proof -
  let ?es = "RelayErrors (protocolResponseErrors rm)"
  obtain p r' i where pick: "GetBestErrorMessageForUser ds iter (protocolResponseErrors rm) = Some (p, r')"
    "i < length ?es" "same_error (?es ! i) p" "list_all2 same_error ?es (RelayErrors r')"
    using pick_spec [OF assms(1,5,6), of ds] by metis
  define e where "e = replyProtocolError p (RelayErrors r')"
  have origin: "\<exists>x\<in>set ?es. same_error x y" if "y \<in> insert p (set (RelayErrors r'))" for y
  proof -
    from that pick(3,4) obtain j where "j < length ?es" "same_error (?es ! j) y"
      using pick(2) by (auto simp: list_all2_conv_all_nth in_set_conv_nth)
    then show ?thesis using nth_mem by blast
  qed
  have image: "\<exists>y\<in>set (RelayErrors r'). same_error x y" if "x \<in> set ?es" for x
    using that pick(4) by (fastforce simp: list_all2_conv_all_nth in_set_conv_nth)
  have loop: "e \<in> insert p (set (RelayErrors r'))" "\<And>c. c \<in> set (RelayErrors r') \<Longrightarrow> replyRank c \<le> replyRank e"
    using reply_loop_spec [of "RelayErrors r'" p] by (auto simp: e_def replyProtocolError_def)
  obtain x where x: "x \<in> set ?es" "same_error x e" using origin [OF loop(1)] by blast
  have best: "replyRank y \<le> replyRank e" if "y \<in> set ?es" for y
    using image [OF that] loop(2) same_error_rank by metis
  obtain resp where resp: "RE_Response e = Some resp"
    using x assms(2) by (auto simp: rm_ok_def same_error_def)
  let ?cf = "clientFacingFromProtocolError (Some (RE_Err e)) (RE_LavaError e)"
  obtain r where r: "processNonCrossValidationResult ds iter rm = Some (Failure r)"
    "\<And>cf. ?cf = Some cf \<Longrightarrow> StatusCode r = (if UpstreamStatus cf \<noteq> 0 then UpstreamStatus cf else NoAnswerStatus (Some cf))"
    using assms(3-5) pick(1) resp
    by (auto simp: processNonCrossValidationResult_def buildFailureResult_def rm_NodeErrors_def Let_def
        e_def [symmetric] split: option.split)
  have "find_http_status (RE_Err x) = Some (StatusCode r) \<and> replyRank x = 4" if "replyRank e = 4"
    using rank_facts(2) [OF that] r(2) x same_error_rank [OF x(2)] that by (auto simp: same_error_def)
  moreover have "replyRank e = 4" if "y \<in> set ?es" "replyRank y = 4" for y
    using best [OF that(1)] that(2) rank_facts(1) [of e] by auto
  moreover have "StatusCode r = (if replyRank e = 1 then 504 else 502)" if "replyRank e \<le> 1"
    using rank_facts(3) [OF that] r(2) by (auto simp: NoAnswerStatus_def)
  moreover have "replyRank e = 1 \<longleftrightarrow> (\<exists>y\<in>set ?es. replyRank y = 1)" if "\<forall>y\<in>set ?es. replyRank y \<le> 1"
    using that best x(1) same_error_rank [OF x(2)] by fastforce
  moreover have "replyRank e \<le> 1" if "\<forall>y\<in>set ?es. replyRank y \<le> 1"
    using that x(1) same_error_rank [OF x(2)] by fastforce
  ultimately show ?thesis using r(1) x(1) by (intro exI [of _ r]) auto
qed

definition transport_error :: "int \<Rightarrow> RelayError" where
  "transport_error code = \<lparr>RE_Err = ErrNew ''dial'', RE_ProviderInfo = RR_ProviderInfo empty_result,
     RE_Response = Some \<lparr>Resp_RelayResult = empty_result, Resp_Err = Some (ErrNew ''dial'')\<rparr>,
     RE_LavaError = Some \<lparr>Code = code, Name = ''transport'', Category = CategoryInternal, SubCategory = SubCategoryNone,
       Retryable = True, MayHaveReachedNode = False\<rparr>, JSONRPCErrorCode = 0\<rparr>"

theorem client_status_witness:
  "\<exists>r. processNonCrossValidationResult (\<lambda>_. '''') rev
     (NewResultsManager\<lparr>protocolResponseErrors :=
        \<lparr>RelayErrors = [transport_error 1002, transport_error 1001], OnFailureMergeAll = True\<rparr>\<rparr>) = Some (Failure r)
     \<and> StatusCode r = 504"
  using client_status [of rev "NewResultsManager\<lparr>protocolResponseErrors :=
      \<lparr>RelayErrors = [transport_error 1002, transport_error 1001], OnFailureMergeAll = True\<rparr>\<rparr>" "\<lambda>_. ''''"]
  by (auto simp: visits_all_def rm_ok_def NewResultsManager_def transport_error_def score_def empty_result_def
      replyRank_def clientFacingFromProtocolError_def transportFailureCodes_def)

end
