(* ===== verification/Quorum.thy ===== *)
theory Quorum
  imports Results "HOL-Library.List_Lexorder" "HOL-Library.Char_ord"
begin

text \<open>
  Cross-validation in \<open>relaycore/relay_processor.go\<close>: the tally kept while responses arrive, the early
  exit, the attempt-window check, the final evaluation over all successes, and the watcher of the
  providers that answer after the reply. The canonical response hash (JSON canonicalisation and
  SHA-256) is the argument \<open>H\<close>; \<open>iter\<close> is the order in which Go visits a map. A Go set is a list of its
  members. Each method holds the processor's lock, so it is one step; the response channel is the list
  of the responses in it. A success always carries a reply, so the log line that would fail on a nil one is not a branch.
\<close>

section \<open>Parameters and processor\<close>

record CrossValidationParams =
  MaxParticipants :: int
  AgreementThreshold :: int
  MinGroups :: int
  PerGroupQuorum :: bool

record quorumStat =
  qs_count :: int
  qs_groupCounts :: "(string, int) gomap"

record RelayProcessor =
  rp_params :: "CrossValidationParams option"
  rp_selection :: selection
  rp_results :: ResultsManager
  quorumMap :: "(hash, quorumStat) gomap"
  currentQuorumEqualResults :: int
  crossValidationQueriedProviders :: "string list"
  crossValidationProviderGroups :: "(string, string) gomap option"
  crossValidationUnderstaffedGroups :: "string list"
  crossValidationAnswered :: "string list"

definition noCrossValidationRequirement :: int where "noCrossValidationRequirement = 1"

definition statefulFanOutCeiling :: int where "statefulFanOutCeiling = 10"

definition responseBufferSize :: "int \<Rightarrow> selection \<Rightarrow> CrossValidationParams option \<Rightarrow> int" where
  "responseBufferSize relayRetryLimit sel params =
    ((case params of
        Some p \<Rightarrow> if sel = CrossValidation then MaxParticipants p
                   else if sel = Stateful then statefulFanOutCeiling else 1
      | None \<Rightarrow> if sel = Stateful then statefulFanOutCeiling else 1) + relayRetryLimit)"

text \<open>\<open>LavaFormatFatal\<close> ends the process: no processor (\<open>None\<close>).\<close>

definition NewRelayProcessor :: "CrossValidationParams option \<Rightarrow> selection \<Rightarrow> RelayProcessor option" where
  "NewRelayProcessor params sel =
    (if sel = CrossValidation \<and> params = None then None
     else if (case params of Some p \<Rightarrow> AgreementThreshold p < 1 \<or> MaxParticipants p < 1 | None \<Rightarrow> False) then None
     else Some \<lparr>rp_params = params, rp_selection = sel, rp_results = NewResultsManager, quorumMap = [],
       currentQuorumEqualResults = 0, crossValidationQueriedProviders = [],
       crossValidationProviderGroups = None, crossValidationUnderstaffedGroups = [],
       crossValidationAnswered = []\<rparr>)"

definition getAgreementThreshold :: "RelayProcessor \<Rightarrow> int" where
  "getAgreementThreshold rp =
    (case rp_params rp of Some p \<Rightarrow> AgreementThreshold p | None \<Rightarrow> noCrossValidationRequirement)"

definition getMaxParticipants :: "RelayProcessor \<Rightarrow> int" where
  "getMaxParticipants rp =
    (case rp_params rp of Some p \<Rightarrow> MaxParticipants p | None \<Rightarrow> noCrossValidationRequirement)"

definition getMinGroups :: "RelayProcessor \<Rightarrow> int" where
  "getMinGroups rp =
    (case rp_params rp of
       Some p \<Rightarrow> if MinGroups p > noCrossValidationRequirement then MinGroups p else noCrossValidationRequirement
     | None \<Rightarrow> noCrossValidationRequirement)"

definition perGroupQuorum :: "RelayProcessor \<Rightarrow> bool" where
  "perGroupQuorum rp = (case rp_params rp of Some p \<Rightarrow> PerGroupQuorum p | None \<Rightarrow> False)"

section \<open>The quorum rule\<close>

definition QualifyingGroupCount :: "(string, int) gomap \<Rightarrow> int \<Rightarrow> int" where
  "QualifyingGroupCount groupCounts threshold = int (length (filter (\<lambda>kv. snd kv \<ge> threshold) groupCounts))"

definition hashQuorumReached :: "RelayProcessor \<Rightarrow> int \<Rightarrow> (string, int) gomap \<Rightarrow> int \<Rightarrow> int \<Rightarrow> bool" where
  "hashQuorumReached rp count groupCounts threshold minGroups =
    (if perGroupQuorum rp then QualifyingGroupCount groupCounts threshold \<ge> minGroups
     else count \<ge> threshold \<and> int (length groupCounts) \<ge> minGroups)"

definition crossValidationQuorumReached :: "RelayProcessor \<Rightarrow> bool" where
  "crossValidationQuorumReached rp \<longleftrightarrow>
     list_ex (\<lambda>kv. fst kv \<noteq> 0 \<and> hashQuorumReached rp (qs_count (snd kv)) (qs_groupCounts (snd kv))
       (getAgreementThreshold rp) (getMinGroups rp)) (quorumMap rp)"

text \<open>Adding to a counter of a map: a missing counter is zero.\<close>

definition bump :: "'k \<Rightarrow> int \<Rightarrow> ('k, int) gomap \<Rightarrow> ('k, int) gomap" where
  "bump k n m = mput k ((case mget m k of Some c \<Rightarrow> c | None \<Rightarrow> 0) + n) m"

text \<open>
  The loop over the queried providers: how many are in flight outside under-staffed groups, in total
  and by group; \<open>None\<close> when one of them has no known group.
\<close>

fun in_flight_loop ::
    "(string, string) gomap \<Rightarrow> string list \<Rightarrow> string list \<Rightarrow> string list \<Rightarrow> int \<Rightarrow> (string, int) gomap
      \<Rightarrow> (int \<times> (string, int) gomap) option" where
  "in_flight_loop groups understaffed answered [] inFlight byGroup = Some (inFlight, byGroup)"
| "in_flight_loop groups understaffed answered (p # ps) inFlight byGroup =
    (if p \<in> set answered then in_flight_loop groups understaffed answered ps inFlight byGroup
     else case mget groups p of
       None \<Rightarrow> None
     | Some grp \<Rightarrow>
         if grp \<in> set understaffed then in_flight_loop groups understaffed answered ps inFlight byGroup
         else in_flight_loop groups understaffed answered ps (inFlight + 1) (bump grp 1 byGroup))"

definition crossValidationQuorumStillCompletable :: "RelayProcessor \<Rightarrow> int \<Rightarrow> int \<Rightarrow> bool" where
  "crossValidationQuorumStillCompletable rp threshold minGroups =
    (case crossValidationProviderGroups rp of None \<Rightarrow> True
     | Some groups \<Rightarrow>
        (case in_flight_loop groups (crossValidationUnderstaffedGroups rp) (crossValidationAnswered rp)
                (crossValidationQueriedProviders rp) 0 [] of
           None \<Rightarrow> True
         | Some (inFlight, byGroup) \<Rightarrow>
             if inFlight = 0 then False
             else list_ex (\<lambda>kv. hashQuorumReached rp (qs_count (snd kv) + inFlight)
                    (fold (\<lambda>(g, n). bump g n) byGroup (qs_groupCounts (snd kv))) threshold minGroups) (quorumMap rp)))"

definition CrossValidationMissingOnlyGroups :: "RelayProcessor \<Rightarrow> bool" where
  "CrossValidationMissingOnlyGroups rp =
    (if rp_selection rp \<noteq> CrossValidation then False
     else
       let threshold = getAgreementThreshold rp; minGroups = getMinGroups rp
       in list_ex (\<lambda>kv. fst kv \<noteq> 0 \<and> qs_count (snd kv) \<ge> threshold
              \<and> \<not> hashQuorumReached rp (qs_count (snd kv)) (qs_groupCounts (snd kv)) threshold minGroups) (quorumMap rp)
          \<and> \<not> crossValidationQuorumStillCompletable rp threshold minGroups)"

definition DefaultProviderGroup :: string where "DefaultProviderGroup = ''default''"

definition fold_group :: "string \<Rightarrow> string" where
  "fold_group grp = (if grp = '''' then DefaultProviderGroup else grp)"

definition quorumGroupOf :: "RelayResult \<Rightarrow> string" where
  "quorumGroupOf result = fold_group (ProviderGroup (RR_ProviderInfo result))"

definition SetCrossValidationQueriedProviders :: "string list \<Rightarrow> RelayProcessor \<Rightarrow> RelayProcessor" where
  "SetCrossValidationQueriedProviders providers rp = rp\<lparr>crossValidationQueriedProviders := providers\<rparr>"

definition SetCrossValidationGroupLayout ::
    "(string, string) gomap \<Rightarrow> string list \<Rightarrow> RelayProcessor \<Rightarrow> RelayProcessor" where
  "SetCrossValidationGroupLayout providerGroups understaffedGroups rp =
     rp\<lparr>crossValidationProviderGroups := Some (map (\<lambda>kv. (fst kv, fold_group (snd kv))) providerGroups),
        crossValidationUnderstaffedGroups := map fold_group understaffedGroups\<rparr>"

section \<open>Filing a response\<close>

definition responseContentHash :: "(string \<Rightarrow> hash) \<Rightarrow> string \<Rightarrow> hash" where
  "responseContentHash H data = (if data = [] then 0 else H data)"

definition recordCrossValidationResponse :: "RelayResponse \<Rightarrow> bool \<Rightarrow> RelayProcessor \<Rightarrow> RelayProcessor" where
  "recordCrossValidationResponse response countsTowardQuorum rp =
    (let result = Resp_RelayResult response;
         rp = rp\<lparr>crossValidationAnswered :=
                List.insert (ProviderAddress (RR_ProviderInfo result)) (crossValidationAnswered rp)\<rparr>
     in if \<not> countsTowardQuorum then rp
        else
          let hash = ResponseHash result;
              stat = (case mget (quorumMap rp) hash of Some stat \<Rightarrow> stat
                      | None \<Rightarrow> \<lparr>qs_count = 0, qs_groupCounts = []\<rparr>);
              stat = \<lparr>qs_count = qs_count stat + 1, qs_groupCounts = bump (quorumGroupOf result) 1 (qs_groupCounts stat)\<rparr>;
              rp = rp\<lparr>quorumMap := mput hash stat (quorumMap rp)\<rparr>
          in if qs_count stat > currentQuorumEqualResults rp
             then rp\<lparr>currentQuorumEqualResults := qs_count stat\<rparr> else rp)"

definition cache_hash :: "(string \<Rightarrow> hash) \<Rightarrow> RelayProcessor \<Rightarrow> RelayResponse \<Rightarrow> RelayResponse" where
  "cache_hash H rp response =
    (case RR_Reply (Resp_RelayResult response) of
       Some reply \<Rightarrow> if rp_selection rp = CrossValidation \<and> Data reply \<noteq> []
         then response\<lparr>Resp_RelayResult := (Resp_RelayResult response)\<lparr>ResponseHash := responseContentHash H (Data reply)\<rparr>\<rparr>
         else response
     | None \<Rightarrow> response)"

definition handleResponse ::
    "(string \<Rightarrow> hash) \<Rightarrow> (go_error \<Rightarrow> LavaError) \<Rightarrow> protocol_message \<Rightarrow> RelayResponse option
      \<Rightarrow> RelayProcessor \<Rightarrow> RelayProcessor" where
  "handleResponse H classify pm response rp =
    (let response = map_option (cache_hash H rp) response
     in case rm_SetResponse classify pm response (rp_results rp) of (nodeError, rm) \<Rightarrow>
        let rp = rp\<lparr>rp_results := rm\<rparr>
        in case response of
             Some resp \<Rightarrow> if rp_selection rp = CrossValidation
               then recordCrossValidationResponse resp (nodeError = None \<and> Resp_Err resp = None) rp else rp
           | None \<Rightarrow> rp)"

fun readExistingResponses ::
    "(string \<Rightarrow> hash) \<Rightarrow> (go_error \<Rightarrow> LavaError) \<Rightarrow> protocol_message \<Rightarrow> RelayResponse option list
      \<Rightarrow> RelayProcessor \<Rightarrow> RelayProcessor" where
  "readExistingResponses H classify pm [] rp = rp"
| "readExistingResponses H classify pm (r # rs) rp =
     readExistingResponses H classify pm rs (handleResponse H classify pm r rp)"

text \<open>
  \<open>SetResponse\<close> on a channel of the given capacity: the send alone first, and only on a full buffer the
  choice between waiting (\<open>None\<close>) and giving up because the request is over.
\<close>

definition rp_SetResponse :: "int \<Rightarrow> bool \<Rightarrow> RelayResponse option \<Rightarrow> RelayResponse list \<Rightarrow> RelayResponse list option" where
  "rp_SetResponse capacity ctxDone response chan =
    (case response of None \<Rightarrow> Some chan
     | Some r \<Rightarrow>
        if int (length chan) < capacity then Some (chan @ [r])
        else if ctxDone then Some chan else None)"

section \<open>When to stop waiting\<close>

definition checkEndProcessing :: "int \<Rightarrow> int \<Rightarrow> RelayProcessor \<Rightarrow> bool" where
  "checkEndProcessing responsesCount sessionsLatestBatch rp =
    (if responsesCount \<ge> sessionsLatestBatch then True
     else case rp_selection rp of
       CrossValidation \<Rightarrow> crossValidationQuorumReached rp
     | _ \<Rightarrow> RequiredResults 1 (rp_results rp))"

definition HasRequiredNodeResults :: "RelayProcessor \<Rightarrow> bool \<times> int" where
  "HasRequiredNodeResults rp =
    (case GetResults (rp_results rp) of (resultsCount, nodeErrors, specialNodeErrors, protocolErrors) \<Rightarrow>
       if rp_selection rp = CrossValidation then (crossValidationQuorumReached rp, nodeErrors)
       else (resultsCount \<ge> 1, nodeErrors))"

text \<open>\<open>WaitForResults\<close> over the responses that arrive before the context is done; true when it finished.\<close>

fun wait_loop ::
    "(string \<Rightarrow> hash) \<Rightarrow> (go_error \<Rightarrow> LavaError) \<Rightarrow> protocol_message \<Rightarrow> int \<Rightarrow> RelayResponse option list \<Rightarrow> int
      \<Rightarrow> RelayProcessor \<Rightarrow> bool \<times> RelayProcessor" where
  "wait_loop H classify pm batch [] responsesCount rp = (False, rp)"
| "wait_loop H classify pm batch (r # rs) responsesCount rp =
    (let rp = handleResponse H classify pm r rp
     in if checkEndProcessing (responsesCount + 1) batch rp then (True, rp)
        else wait_loop H classify pm batch rs (responsesCount + 1) rp)"

definition WaitForResults ::
    "(string \<Rightarrow> hash) \<Rightarrow> (go_error \<Rightarrow> LavaError) \<Rightarrow> protocol_message \<Rightarrow> int \<Rightarrow> RelayResponse option list
      \<Rightarrow> RelayProcessor \<Rightarrow> bool \<times> RelayProcessor" where
  "WaitForResults H classify pm batch rs rp = wait_loop H classify pm batch rs 0 rp"

section \<open>Final evaluation\<close>

record resultCount =
  rc_count :: int
  rc_result :: RelayResult
  rc_groupCounts :: "(string, int) gomap"

record quorumWinner =
  w_found :: bool
  w_result :: RelayResult
  w_hash :: hash
  w_count :: int
  w_distinctGroups :: int
  w_qualifyingGroups :: int
  w_maxCount :: int
  w_maxRealCount :: int
  w_anyGroupReachedQuorum :: bool

definition no_winner :: quorumWinner where
  "no_winner = \<lparr>w_found = False, w_result = empty_result, w_hash = 0, w_count = 0, w_distinctGroups = 0,
     w_qualifyingGroups = 0, w_maxCount = 0, w_maxRealCount = 0, w_anyGroupReachedQuorum = False\<rparr>"

text \<open>The body of the loop over the candidate hashes.\<close>

definition consider_hash :: "int \<Rightarrow> int \<Rightarrow> bool \<Rightarrow> hash \<times> resultCount \<Rightarrow> quorumWinner \<Rightarrow> quorumWinner" where
  "consider_hash crossValidationSize minGroups perGroup kv w =
    (case kv of (hash, count) \<Rightarrow>
     let w = (if rc_count count > w_maxCount w then w\<lparr>w_maxCount := rc_count count\<rparr> else w);
         take = (\<lambda>w qual. w\<lparr>w_found := True, w_qualifyingGroups := qual, w_count := rc_count count,
                  w_result := rc_result count, w_hash := hash,
                  w_distinctGroups := int (length (rc_groupCounts count))\<rparr>)
     in if perGroup then
          let qualGroups = QualifyingGroupCount (rc_groupCounts count) crossValidationSize;
              w = (if qualGroups > 0 then w\<lparr>w_anyGroupReachedQuorum := True\<rparr> else w)
          in if qualGroups \<ge> minGroups
                \<and> (\<not> w_found w \<or> qualGroups > w_qualifyingGroups w
                    \<or> (qualGroups = w_qualifyingGroups w \<and> rc_count count > w_count w))
             then take w qualGroups else w
        else if rc_count count \<ge> crossValidationSize \<and> int (length (rc_groupCounts count)) \<ge> minGroups
                \<and> (\<not> w_found w \<or> rc_count count > w_count w)
             then take w (w_qualifyingGroups w) else w)"

definition selectQuorumWinner ::
    "((hash, resultCount) gomap \<Rightarrow> (hash \<times> resultCount) list) \<Rightarrow> (hash, resultCount) gomap \<Rightarrow> RelayResult list
      \<Rightarrow> int \<Rightarrow> nat option \<Rightarrow> string list \<Rightarrow> int \<Rightarrow> int \<Rightarrow> bool \<Rightarrow> quorumWinner" where
  "selectQuorumWinner iter countMap results nilReplies nilReplyIdx nilReplyGroups crossValidationSize minGroups perGroup =
    (let w = fold (consider_hash crossValidationSize minGroups perGroup) (iter countMap) no_winner;
         w = w\<lparr>w_maxRealCount := w_maxCount w\<rparr>;
         w = (if nilReplies > w_maxCount w then w\<lparr>w_maxCount := nilReplies\<rparr> else w)
     in if \<not> perGroup \<and> \<not> w_found w \<and> nilReplies \<ge> crossValidationSize \<and> int (length nilReplyGroups) \<ge> minGroups
        then w\<lparr>w_found := True, w_count := nilReplies,
               w_result := (case nilReplyIdx of Some i \<Rightarrow> results ! i | None \<Rightarrow> empty_result),
               w_distinctGroups := int (length nilReplyGroups)\<rparr>
        else w)"

text \<open>The tally over all results: counts per hash, and the empty replies.\<close>

record tally =
  countMap :: "(hash, resultCount) gomap"
  nilReplies :: int
  nilReplyIdx :: "nat option"
  nilReplyGroups :: "string list"

definition has_data :: "RelayResult \<Rightarrow> bool" where
  "has_data result \<longleftrightarrow> (case RR_Reply result of Some reply \<Rightarrow> Data reply \<noteq> [] | None \<Rightarrow> False)"

definition result_hash :: "(string \<Rightarrow> hash) \<Rightarrow> RelayResult \<Rightarrow> hash" where
  "result_hash H result =
    (if ResponseHash result = 0
     then (case RR_Reply result of Some reply \<Rightarrow> responseContentHash H (Data reply) | None \<Rightarrow> 0)
     else ResponseHash result)"

definition tally_one :: "(string \<Rightarrow> hash) \<Rightarrow> nat \<times> RelayResult \<Rightarrow> tally \<Rightarrow> tally" where
  "tally_one H ir t =
    (case ir of (idx, result) \<Rightarrow>
     if has_data result then
       let hash = result_hash H result
       in case mget (countMap t) hash of
            Some c \<Rightarrow> t\<lparr>countMap := mput hash (c\<lparr>rc_count := rc_count c + 1,
                rc_groupCounts := bump (quorumGroupOf result) 1 (rc_groupCounts c)\<rparr>) (countMap t)\<rparr>
          | None \<Rightarrow> t\<lparr>countMap := mput hash \<lparr>rc_count = 1, rc_result = result,
                rc_groupCounts = [(quorumGroupOf result, 1)]\<rparr> (countMap t)\<rparr>
     else t\<lparr>nilReplies := nilReplies t + 1, nilReplyIdx := Some idx,
            nilReplyGroups := List.insert (quorumGroupOf result) (nilReplyGroups t)\<rparr>)"

definition tally_results :: "(string \<Rightarrow> hash) \<Rightarrow> RelayResult list \<Rightarrow> tally" where
  "tally_results H results = fold (tally_one H) (enumerate 0 results)
     \<lparr>countMap = [], nilReplies = 0, nilReplyIdx = None, nilReplyGroups = []\<rparr>"

definition CrossValidationReasonInsufficientResponses :: string where
  "CrossValidationReasonInsufficientResponses = ''insufficient-responses''"
definition CrossValidationReasonNoAgreement :: string where
  "CrossValidationReasonNoAgreement = ''no-agreement''"
definition CrossValidationReasonDiversityUnmet :: string where
  "CrossValidationReasonDiversityUnmet = ''diversity-unmet''"
definition CrossValidationReasonGroupQuorumUnmet :: string where
  "CrossValidationReasonGroupQuorumUnmet = ''group-quorum-unmet''"

text \<open>The consensus result, or the reason there is none.\<close>

definition responsesCrossValidation ::
    "(string \<Rightarrow> hash) \<Rightarrow> ((hash, resultCount) gomap \<Rightarrow> (hash \<times> resultCount) list) \<Rightarrow> RelayProcessor
      \<Rightarrow> RelayResult list \<Rightarrow> int \<Rightarrow> string + RelayResult" where
  "responsesCrossValidation H iter rp results crossValidationSize =
    (if crossValidationSize \<le> 0 then Inl ''''
     else
       let t = tally_results H results;
           w = selectQuorumWinner iter (countMap t) results (nilReplies t) (nilReplyIdx t) (nilReplyGroups t)
                 crossValidationSize (getMinGroups rp) (perGroupQuorum rp)
       in if \<not> w_found w then
            (if perGroupQuorum rp then Inl CrossValidationReasonGroupQuorumUnmet
             else if w_maxRealCount w < crossValidationSize then Inl CrossValidationReasonNoAgreement
             else Inl CrossValidationReasonDiversityUnmet)
          else Inr ((w_result w)\<lparr>CrossValidationCount := w_count w, ResponseHash := w_hash w\<rparr>))"

definition processCrossValidationResult ::
    "(string \<Rightarrow> hash) \<Rightarrow> ((hash, resultCount) gomap \<Rightarrow> (hash \<times> resultCount) list) \<Rightarrow> RelayProcessor \<Rightarrow> processing" where
  "processCrossValidationResult H iter rp =
    (let successes = successResults (rp_results rp); required = getAgreementThreshold rp
     in if int (length successes) \<ge> required then
          (case responsesCrossValidation H iter rp successes required of
             Inr result \<Rightarrow> Answer result
           | Inl reason \<Rightarrow> Failure (empty_result\<lparr>StatusCode := 500, CrossValidationFailureReason := reason\<rparr>))
        else Failure (empty_result\<lparr>StatusCode := 500,
               CrossValidationFailureReason := CrossValidationReasonInsufficientResponses\<rparr>))"

definition ProcessingResult ::
    "(string \<Rightarrow> hash) \<Rightarrow> ((hash, resultCount) gomap \<Rightarrow> (hash \<times> resultCount) list) \<Rightarrow> (duration \<Rightarrow> string)
      \<Rightarrow> ((string, nat list) gomap \<Rightarrow> (string \<times> nat list) list) \<Rightarrow> RelayProcessor \<Rightarrow> processing option" where
  "ProcessingResult H iter ds iter' rp =
    (case rp_selection rp of
       CrossValidation \<Rightarrow> Some (processCrossValidationResult H iter rp)
     | _ \<Rightarrow> processNonCrossValidationResult ds iter' (rp_results rp))"

section \<open>The plurality header\<close>

definition plural_count :: "(string \<Rightarrow> hash) \<Rightarrow> RelayResult list \<Rightarrow> (hash, int) gomap" where
  "plural_count H results = fold (\<lambda>r m. if result_hash H r = 0 then m else bump (result_hash H r) 1 m) results []"

definition plural_members :: "(string \<Rightarrow> hash) \<Rightarrow> RelayResult list \<Rightarrow> hash \<Rightarrow> string list" where
  "plural_members H results h = filter (\<lambda>a. a \<noteq> '''') (map (\<lambda>r. ProviderAddress (RR_ProviderInfo r))
     (filter (\<lambda>r. result_hash H r = h) results))"

fun plurality_loop :: "(hash \<times> int) list \<Rightarrow> int \<Rightarrow> hash \<Rightarrow> bool \<Rightarrow> int \<times> hash \<times> bool" where
  "plurality_loop [] sz h tied = (sz, h, tied)"
| "plurality_loop (kv # kvs) sz h tied =
    (if snd kv > sz then plurality_loop kvs (snd kv) (fst kv) False
     else if snd kv = sz then plurality_loop kvs sz h True
     else plurality_loop kvs sz h tied)"

definition CrossValidationPlurality ::
    "(string \<Rightarrow> hash) \<Rightarrow> ((hash, int) gomap \<Rightarrow> (hash \<times> int) list) \<Rightarrow> RelayResult list \<Rightarrow> int \<times> string list" where
  "CrossValidationPlurality H iter results =
    (case plurality_loop (iter (plural_count H results)) 0 0 False of (sz, h, tied) \<Rightarrow>
       if sz = 0 \<or> tied then (sz, []) else (sz, remdups_adj (sort (plural_members H results h))))"

section \<open>Stragglers\<close>

datatype straggler_outcome =
    OutcomeAgreed | OutcomeDisagreed | OutcomeNodeError | OutcomeProtocolError | OutcomeNotReceived

record straggler_result =
  sr_ProviderAddress :: string
  sr_ProviderGroup :: string
  sr_Outcome :: straggler_outcome
  sr_ResponseHash :: hash

definition classifyStragglerResponse ::
    "(string \<Rightarrow> hash) \<Rightarrow> protocol_message \<Rightarrow> hash \<Rightarrow> RelayResponse \<Rightarrow> straggler_outcome \<times> hash" where
  "classifyStragglerResponse H pm consensusHash response =
    (if Resp_Err response \<noteq> None then (OutcomeProtocolError, 0)
     else case RR_Reply (Resp_RelayResult response) of
       None \<Rightarrow> (OutcomeProtocolError, 0)
     | Some reply \<Rightarrow>
         if fst (CheckResponseError pm (Data reply) (StatusCode (Resp_RelayResult response)))
         then (OutcomeNodeError, 0)
         else let h = responseContentHash H (Data reply)
              in if h = consensusHash then (OutcomeAgreed, h) else (OutcomeDisagreed, h))"

type_synonym watch_state = "string list \<times> straggler_result list"

definition resolve_one :: "string \<Rightarrow> string \<Rightarrow> straggler_outcome \<Rightarrow> hash \<Rightarrow> watch_state \<Rightarrow> watch_state" where
  "resolve_one addr grp outcome h ws =
    (case ws of (pending, out) \<Rightarrow>
       if addr \<notin> set pending then ws
       else (removeAll addr pending, out @ [\<lparr>sr_ProviderAddress = addr, sr_ProviderGroup = grp, sr_Outcome = outcome,
              sr_ResponseHash = h\<rparr>]))"

definition watch_resolve :: "(string \<Rightarrow> hash) \<Rightarrow> protocol_message \<Rightarrow> hash \<Rightarrow> RelayResponse option \<Rightarrow> watch_state \<Rightarrow> watch_state" where
  "watch_resolve H pm consensusHash response ws =
    (case response of None \<Rightarrow> ws
     | Some resp \<Rightarrow>
        (case classifyStragglerResponse H pm consensusHash resp of (outcome, h) \<Rightarrow>
           resolve_one (ProviderAddress (RR_ProviderInfo (Resp_RelayResult resp)))
             (ProviderGroup (RR_ProviderInfo (Resp_RelayResult resp))) outcome h ws))"

definition resolveFromRecorded :: "hash \<Rightarrow> ResultsManager \<Rightarrow> watch_state \<Rightarrow> watch_state" where
  "resolveFromRecorded consensusHash rm ws =
    (let ws = fold (\<lambda>r. resolve_one (ProviderAddress (RR_ProviderInfo r)) (ProviderGroup (RR_ProviderInfo r))
               (if ResponseHash r = consensusHash then OutcomeAgreed else OutcomeDisagreed) (ResponseHash r))
             (successResults rm) ws;
         ws = fold (\<lambda>r. resolve_one (ProviderAddress (RR_ProviderInfo r)) (ProviderGroup (RR_ProviderInfo r))
               OutcomeNodeError 0) (rm_NodeErrors rm) ws
     in fold (\<lambda>e. resolve_one (ProviderAddress (RE_ProviderInfo e)) (ProviderGroup (RE_ProviderInfo e))
               OutcomeProtocolError 0) (RelayErrors (protocolResponseErrors rm)) ws)"

text \<open>The reading loops stop as soon as nobody is pending.\<close>

fun watch_read :: "(string \<Rightarrow> hash) \<Rightarrow> protocol_message \<Rightarrow> hash \<Rightarrow> RelayResponse option list \<Rightarrow> watch_state \<Rightarrow> watch_state" where
  "watch_read H pm c [] ws = ws"
| "watch_read H pm c (r # rs) ws =
     (if fst ws = [] then ws else watch_read H pm c rs (watch_resolve H pm c r ws))"

definition giveUp ::
    "(string \<Rightarrow> hash) \<Rightarrow> protocol_message \<Rightarrow> hash \<Rightarrow> RelayResponse option list \<Rightarrow> ResultsManager \<Rightarrow> watch_state
      \<Rightarrow> straggler_result list" where
  "giveUp H pm c buffered rm ws =
    (let ws = watch_read H pm c buffered ws
     in if fst ws = [] then snd ws
        else let ws = resolveFromRecorded c rm ws
             in snd ws @ map (\<lambda>a. \<lparr>sr_ProviderAddress = a, sr_ProviderGroup = '''', sr_Outcome = OutcomeNotReceived,
                  sr_ResponseHash = 0\<rparr>) (fst ws))"

text \<open>
  The watcher: the results recorded when it starts, the responses it reads before its deadline, then
  what is still buffered at the deadline and the results recorded by then.
\<close>

definition WatchCrossValidationStragglers ::
    "(string \<Rightarrow> hash) \<Rightarrow> protocol_message \<Rightarrow> string list \<Rightarrow> hash \<Rightarrow> ResultsManager \<Rightarrow> RelayResponse option list
      \<Rightarrow> RelayResponse option list \<Rightarrow> ResultsManager \<Rightarrow> straggler_result list" where
  "WatchCrossValidationStragglers H pm pendingProviders c rm0 arriving buffered rm1 =
    (let pending = remdups (filter (\<lambda>a. a \<noteq> '''') pendingProviders)
     in if pending = [] then []
        else let ws = watch_read H pm c arriving (resolveFromRecorded c rm0 (pending, []))
             in if fst ws = [] then snd ws else giveUp H pm c buffered rm1 ws)"

section \<open>Tallies as lists of groups\<close>

text \<open>What a counter map holds after a list of groups was counted into it, one by one.\<close>

definition group_tally :: "string list \<Rightarrow> (string, int) gomap" where
  "group_tally gs = fold (\<lambda>g. bump g 1) gs []"

lemma mget_bump [simp]:
  "mget (bump k n m) = (mget m)(k \<mapsto> (case mget m k of Some c \<Rightarrow> c | None \<Rightarrow> 0) + n)"
  by (simp add: bump_def)

lemma wf_bump [simp]: "wf_map m \<Longrightarrow> wf_map (bump k n m)"
  by (simp add: bump_def)

lemma group_tally_snoc [simp]: "group_tally (gs @ [g]) = bump g 1 (group_tally gs)"
  by (simp add: group_tally_def)

lemma group_tally_Nil [simp]: "group_tally [] = []"
  by (simp add: group_tally_def)

lemma group_tally_get:
  "mget (group_tally gs) g = (if g \<in> set gs then Some (int (count_list gs g)) else None)"
proof (induction gs rule: rev_induct)
  case (snoc x xs)
  then show ?case by (cases "g = x") (auto simp: count_list_append count_list_0_iff)
qed simp

lemma group_tally_wf [simp]: "wf_map (group_tally gs)"
  by (induction gs rule: rev_induct) simp_all

lemma card_filter_map:
  assumes "wf_map m"
  shows "length (filter (\<lambda>kv. P (fst kv) (snd kv)) m) = card {k. \<exists>v. mget m k = Some v \<and> P k v}"
proof -
  have "wf_map (filter (\<lambda>kv. P (fst kv) (snd kv)) m)" using assms by (rule wf_map_filter)
  then have "length (filter (\<lambda>kv. P (fst kv) (snd kv)) m) = card (fst ` set (filter (\<lambda>kv. P (fst kv) (snd kv)) m))"
    by (metis distinct_card length_map list.set_map wf_map_def)
  also have "fst ` set (filter (\<lambda>kv. P (fst kv) (snd kv)) m) = {k. \<exists>v. mget m k = Some v \<and> P k v}"
    using wf_map_in_iff [OF assms] by (force simp: image_iff)
  finally show ?thesis .
qed

lemma length_group_tally: "length (group_tally gs) = card (set gs)"
  using card_filter_map [OF group_tally_wf [of gs], of "\<lambda>_ _. True"] by (simp add: group_tally_get)

lemma qualifying_group_tally:
  "QualifyingGroupCount (group_tally gs) t = int (card {g \<in> set gs. t \<le> int (count_list gs g)})"
proof -
  have "{k. \<exists>v. mget (group_tally gs) k = Some v \<and> t \<le> v} = {g \<in> set gs. t \<le> int (count_list gs g)}"
    by (auto simp: group_tally_get split: if_splits)
  then show ?thesis
    using card_filter_map [OF group_tally_wf [of gs], of "\<lambda>_ v. t \<le> v"] by (simp add: QualifyingGroupCount_def)
qed

text \<open>The rule a request is held to, on the groups of the providers that returned one response.\<close>

definition quorum_rule :: "bool \<Rightarrow> int \<Rightarrow> int \<Rightarrow> string list \<Rightarrow> bool" where
  "quorum_rule perGroup threshold minGroups gs =
    (if perGroup then minGroups \<le> int (card {g \<in> set gs. threshold \<le> int (count_list gs g)})
     else threshold \<le> int (length gs) \<and> minGroups \<le> int (card (set gs)))"

lemma hashQuorumReached_rule:
  "hashQuorumReached rp (int (length gs)) (group_tally gs) t mg = quorum_rule (perGroupQuorum rp) t mg gs"
  by (simp add: hashQuorumReached_def quorum_rule_def length_group_tally qualifying_group_tally)

lemma getMinGroups_pos: "1 \<le> getMinGroups rp"
  by (simp add: getMinGroups_def noCrossValidationRequirement_def split: option.split)

lemma quorum_rule_nonempty: "quorum_rule pg t mg gs \<Longrightarrow> 1 \<le> mg \<Longrightarrow> gs \<noteq> []"
  by (auto simp: quorum_rule_def split: if_splits)

section \<open>The tally over all results\<close>

definition agreeing :: "(string \<Rightarrow> hash) \<Rightarrow> hash \<Rightarrow> RelayResult list \<Rightarrow> RelayResult list" where
  "agreeing H h results = filter (\<lambda>r. has_data r \<and> result_hash H r = h) results"

definition groups_for :: "(string \<Rightarrow> hash) \<Rightarrow> hash \<Rightarrow> RelayResult list \<Rightarrow> string list" where
  "groups_for H h results = map quorumGroupOf (agreeing H h results)"

definition nil_groups :: "RelayResult list \<Rightarrow> string list" where
  "nil_groups results = map quorumGroupOf (filter (\<lambda>r. \<not> has_data r) results)"

lemma tally_snoc: "tally_results H (rs @ [r]) = tally_one H (length rs, r) (tally_results H rs)"
  by (simp add: tally_results_def enumerate_append_eq)

lemma tally_count:
  "mget (countMap (tally_results H rs)) h =
    (if agreeing H h rs = [] then None
     else Some \<lparr>rc_count = int (length (agreeing H h rs)), rc_result = hd (agreeing H h rs),
                rc_groupCounts = group_tally (groups_for H h rs)\<rparr>)"
proof (induction rs rule: rev_induct)
  case Nil
  show ?case by (simp add: tally_results_def agreeing_def)
next
  case (snoc r rs)
  have one: "[(g, 1::int)] = bump g 1 []" for g :: string by (simp add: bump_def)
  show ?case
  proof (cases "has_data r \<and> result_hash H r = h")
    case True
    with snoc.IH show ?thesis
      by (auto simp: tally_snoc tally_one_def agreeing_def groups_for_def one)
  next
    case False
    with snoc.IH show ?thesis
      by (auto simp: tally_snoc tally_one_def agreeing_def groups_for_def Let_def split: option.split)
  qed
qed

lemma tally_wf: "wf_map (countMap (tally_results H rs))"
proof (induction rs rule: rev_induct)
  case (snoc r rs)
  then show ?case by (auto simp: tally_snoc tally_one_def Let_def split: option.split)
qed (simp add: tally_results_def)

lemma tally_nil:
  "nilReplies (tally_results H rs) = int (length (nil_groups rs))
   \<and> int (length (nilReplyGroups (tally_results H rs))) = int (card (set (nil_groups rs)))
   \<and> distinct (nilReplyGroups (tally_results H rs))
   \<and> set (nilReplyGroups (tally_results H rs)) = set (nil_groups rs)
   \<and> (nil_groups rs \<noteq> [] \<longrightarrow> (\<exists>i<length rs. nilReplyIdx (tally_results H rs) = Some i \<and> \<not> has_data (rs ! i)))"
proof (induction rs rule: rev_induct)
  case Nil
  show ?case by (simp add: tally_results_def nil_groups_def)
next
  case (snoc r rs)
  show ?case
  proof (cases "has_data r")
    case True
    then have same: "nilReplies (tally_results H (rs @ [r])) = nilReplies (tally_results H rs)"
      "nilReplyGroups (tally_results H (rs @ [r])) = nilReplyGroups (tally_results H rs)"
      "nilReplyIdx (tally_results H (rs @ [r])) = nilReplyIdx (tally_results H rs)"
      by (auto simp: tally_snoc tally_one_def Let_def split: option.split)
    have "nil_groups (rs @ [r]) = nil_groups rs" using True by (simp add: nil_groups_def)
    with snoc.IH same show ?thesis by (auto simp: nth_append)
  next
    case False
    have "nil_groups (rs @ [r]) = nil_groups rs @ [quorumGroupOf r]" using False by (simp add: nil_groups_def)
    with False snoc.IH show ?thesis
      by (auto simp: tally_snoc tally_one_def card_insert_if insert_absorb distinct_card
          intro!: exI [of _ "length rs"])
  qed
qed

section \<open>The winner\<close>

definition qualifies :: "int \<Rightarrow> int \<Rightarrow> bool \<Rightarrow> resultCount \<Rightarrow> bool" where
  "qualifies t mg pg c =
    (if pg then QualifyingGroupCount (rc_groupCounts c) t \<ge> mg
     else rc_count c \<ge> t \<and> int (length (rc_groupCounts c)) \<ge> mg)"

text \<open>What decides between two qualifying hashes.\<close>

definition weight :: "int \<Rightarrow> bool \<Rightarrow> resultCount \<Rightarrow> int" where
  "weight t pg c = (if pg then QualifyingGroupCount (rc_groupCounts c) t else rc_count c)"

definition winner_of :: "int \<Rightarrow> int \<Rightarrow> bool \<Rightarrow> (hash \<times> resultCount) set \<Rightarrow> quorumWinner \<Rightarrow> bool" where
  "winner_of t mg pg S w \<longleftrightarrow>
     (w_found w \<longleftrightarrow> (\<exists>kv\<in>S. qualifies t mg pg (snd kv)))
   \<and> (w_found w \<longrightarrow> (\<exists>kv\<in>S. qualifies t mg pg (snd kv) \<and> w_hash w = fst kv
        \<and> w_count w = rc_count (snd kv) \<and> w_result w = rc_result (snd kv)
        \<and> (pg \<longrightarrow> w_qualifyingGroups w = weight t pg (snd kv))
        \<and> (\<forall>kv'\<in>S. qualifies t mg pg (snd kv') \<longrightarrow> weight t pg (snd kv') \<le> weight t pg (snd kv))))
   \<and> (\<not> w_found w \<longrightarrow> w_hash w = 0)
   \<and> 0 \<le> w_maxCount w \<and> (\<forall>kv\<in>S. rc_count (snd kv) \<le> w_maxCount w)
   \<and> (w_maxCount w = 0 \<or> (\<exists>kv\<in>S. w_maxCount w = rc_count (snd kv)))"

lemma consider_keeps_max:
  "w_maxCount (consider_hash t mg pg kv w) = max (w_maxCount w) (rc_count (snd kv))"
  by (cases kv) (auto simp: consider_hash_def Let_def max_def)

lemma consider_cases:
  shows "qualifies t mg pg (snd kv) \<and> (\<not> w_found w \<or> weight t pg (snd kv) > (if pg then w_qualifyingGroups w else w_count w)
            \<or> (pg \<and> weight t pg (snd kv) = w_qualifyingGroups w \<and> rc_count (snd kv) > w_count w)) \<Longrightarrow>
          w_found (consider_hash t mg pg kv w) \<and> w_hash (consider_hash t mg pg kv w) = fst kv
          \<and> w_count (consider_hash t mg pg kv w) = rc_count (snd kv) \<and> w_result (consider_hash t mg pg kv w) = rc_result (snd kv)
          \<and> (pg \<longrightarrow> w_qualifyingGroups (consider_hash t mg pg kv w) = weight t pg (snd kv))"
    and "\<not> (qualifies t mg pg (snd kv) \<and> (\<not> w_found w \<or> weight t pg (snd kv) > (if pg then w_qualifyingGroups w else w_count w)
            \<or> (pg \<and> weight t pg (snd kv) = w_qualifyingGroups w \<and> rc_count (snd kv) > w_count w))) \<Longrightarrow>
          w_found (consider_hash t mg pg kv w) = w_found w \<and> w_hash (consider_hash t mg pg kv w) = w_hash w
          \<and> w_count (consider_hash t mg pg kv w) = w_count w \<and> w_result (consider_hash t mg pg kv w) = w_result w
          \<and> w_qualifyingGroups (consider_hash t mg pg kv w) = w_qualifyingGroups w"
  by (cases kv; auto simp: consider_hash_def qualifies_def weight_def Let_def split: if_splits)+

lemma fold_consider: "winner_of t mg pg (set kvs) (fold (consider_hash t mg pg) kvs no_winner)"
proof (induction kvs rule: rev_induct)
  case Nil
  show ?case by (simp add: winner_of_def no_winner_def)
next
  case (snoc kv kvs)
  let ?w = "fold (consider_hash t mg pg) kvs no_winner"
  let ?take = "qualifies t mg pg (snd kv) \<and> (\<not> w_found ?w
     \<or> weight t pg (snd kv) > (if pg then w_qualifyingGroups ?w else w_count ?w)
     \<or> (pg \<and> weight t pg (snd kv) = w_qualifyingGroups ?w \<and> rc_count (snd kv) > w_count ?w))"
  have best: "weight t pg (snd kv') \<le> (if pg then w_qualifyingGroups ?w else w_count ?w)"
    if "kv' \<in> set kvs" "qualifies t mg pg (snd kv')" "w_found ?w" for kv'
    using snoc.IH that by (auto simp: winner_of_def weight_def split: if_splits)
  have max: "w_maxCount (consider_hash t mg pg kv ?w) = max (w_maxCount ?w) (rc_count (snd kv))"
    by (rule consider_keeps_max)
  let ?w' = "consider_hash t mg pg kv ?w"
  have found: "w_found ?w' \<longleftrightarrow> (\<exists>kv\<in>set (kvs @ [kv]). qualifies t mg pg (snd kv))"
    using consider_cases [of t mg pg kv ?w] snoc.IH by (cases ?take) (auto simp: winner_of_def)
  have hash: "w_hash ?w' = 0" if "\<not> w_found ?w'"
    using that consider_cases [of t mg pg kv ?w] snoc.IH by (cases ?take) (auto simp: winner_of_def)
  have pick: "\<exists>kv'\<in>set (kvs @ [kv]). qualifies t mg pg (snd kv') \<and> w_hash ?w' = fst kv'
        \<and> w_count ?w' = rc_count (snd kv') \<and> w_result ?w' = rc_result (snd kv')
        \<and> (pg \<longrightarrow> w_qualifyingGroups ?w' = weight t pg (snd kv'))
        \<and> (\<forall>kv''\<in>set (kvs @ [kv]). qualifies t mg pg (snd kv'') \<longrightarrow> weight t pg (snd kv'') \<le> weight t pg (snd kv'))"
    if "w_found ?w'"
  proof (cases ?take)
    case True
    have "weight t pg (snd kv'') \<le> weight t pg (snd kv)"
      if "kv'' \<in> set (kvs @ [kv])" "qualifies t mg pg (snd kv'')" for kv''
    proof (cases "w_found ?w \<and> kv'' \<noteq> kv")
      case True
      with best [of kv''] that \<open>?take\<close> show ?thesis by (cases pg) auto
    next
      case False
      with that snoc.IH show ?thesis by (auto simp: winner_of_def)
    qed
    with True consider_cases(1) [OF True] show ?thesis by (intro bexI [of _ kv]) auto
  next
    case False
    from consider_cases(2) [OF False] that have "w_found ?w" by simp
    with snoc.IH obtain kv' where kv': "kv' \<in> set kvs" "qualifies t mg pg (snd kv')" "w_hash ?w = fst kv'"
      "w_count ?w = rc_count (snd kv')" "w_result ?w = rc_result (snd kv')"
      "pg \<longrightarrow> w_qualifyingGroups ?w = weight t pg (snd kv')"
      "\<forall>kv''\<in>set kvs. qualifies t mg pg (snd kv'') \<longrightarrow> weight t pg (snd kv'') \<le> weight t pg (snd kv')"
      unfolding winner_of_def by blast
    have "qualifies t mg pg (snd kv) \<longrightarrow> weight t pg (snd kv) \<le> weight t pg (snd kv')"
      using False \<open>w_found ?w\<close> kv'(4,6) by (cases pg) (auto simp: weight_def)
    with consider_cases(2) [OF False] kv' show ?thesis by (intro bexI [of _ kv']) auto
  qed
  have "0 \<le> w_maxCount ?w' \<and> (\<forall>kv'\<in>set (kvs @ [kv]). rc_count (snd kv') \<le> w_maxCount ?w')
      \<and> (w_maxCount ?w' = 0 \<or> (\<exists>kv'\<in>set (kvs @ [kv]). w_maxCount ?w' = rc_count (snd kv')))"
    using snoc.IH by (auto simp: max max_def winner_of_def)
  with found hash pick show ?case unfolding winner_of_def by simp
qed

text \<open>The candidates of the final evaluation are the response hashes with data behind them.\<close>

lemma candidate_iff:
  assumes "visits_all iter"
  shows "(h, c) \<in> set (iter (countMap (tally_results H rs))) \<longleftrightarrow> agreeing H h rs \<noteq> []
    \<and> c = \<lparr>rc_count = int (length (agreeing H h rs)), rc_result = hd (agreeing H h rs),
           rc_groupCounts = group_tally (groups_for H h rs)\<rparr>"
  using assms tally_wf [of H rs] by (auto simp: visits_all_def wf_map_in_iff tally_count split: if_splits)

lemma candidate_qualifies:
  "qualifies t mg pg \<lparr>rc_count = int (length (agreeing H h rs)), rc_result = r,
     rc_groupCounts = group_tally (groups_for H h rs)\<rparr> = quorum_rule pg t mg (groups_for H h rs)"
  by (simp add: qualifies_def quorum_rule_def qualifying_group_tally length_group_tally)
     (simp add: groups_for_def)

definition agreement_weight :: "bool \<Rightarrow> int \<Rightarrow> string list \<Rightarrow> int" where
  "agreement_weight pg t gs =
    (if pg then int (card {g \<in> set gs. t \<le> int (count_list gs g)}) else int (length gs))"

lemma candidate_weight:
  "weight t pg \<lparr>rc_count = int (length (agreeing H h rs)), rc_result = r,
     rc_groupCounts = group_tally (groups_for H h rs)\<rparr> = agreement_weight pg t (groups_for H h rs)"
  by (simp add: weight_def agreement_weight_def qualifying_group_tally groups_for_def)

text \<open>The evaluation, on the results themselves: a real consensus, the empty-reply fallback, or none.\<close>

definition final_winner ::
    "(string \<Rightarrow> hash) \<Rightarrow> ((hash, resultCount) gomap \<Rightarrow> (hash \<times> resultCount) list) \<Rightarrow> int \<Rightarrow> int \<Rightarrow> bool
      \<Rightarrow> RelayResult list \<Rightarrow> quorumWinner" where
  "final_winner H iter t mg pg rs =
    (let t' = tally_results H rs in
     selectQuorumWinner iter (countMap t') rs (nilReplies t') (nilReplyIdx t') (nilReplyGroups t') t mg pg)"

lemma winner_cases:
  assumes "visits_all iter" "1 \<le> mg" and w_def: "w = final_winner H iter t mg pg rs"
  shows "(\<exists>h. quorum_rule pg t mg (groups_for H h rs)) \<Longrightarrow>
           \<exists>h. w_found w \<and> w_hash w = h \<and> quorum_rule pg t mg (groups_for H h rs)
             \<and> w_result w = hd (agreeing H h rs) \<and> agreeing H h rs \<noteq> []
             \<and> w_count w = int (length (agreeing H h rs))
             \<and> (\<forall>h'. quorum_rule pg t mg (groups_for H h' rs) \<longrightarrow>
                  agreement_weight pg t (groups_for H h' rs) \<le> agreement_weight pg t (groups_for H h rs))"
    and "\<not> (\<exists>h. quorum_rule pg t mg (groups_for H h rs)) \<Longrightarrow>
           w_found w = (\<not> pg \<and> quorum_rule False t mg (nil_groups rs)) \<and> w_hash w = 0
           \<and> (w_found w \<longrightarrow> w_result w \<in> set rs \<and> \<not> has_data (w_result w) \<and> w_count w = int (length (nil_groups rs)))
           \<and> (w_maxRealCount w < t \<longleftrightarrow> (\<forall>h. int (length (agreeing H h rs)) < t) \<and> 0 < t)"
proof -
  let ?kvs = "iter (countMap (tally_results H rs))"
  let ?w0 = "fold (consider_hash t mg pg) ?kvs no_winner"
  note cand = candidate_iff [OF assms(1), of _ _ H rs]
  have wo: "winner_of t mg pg (set ?kvs) ?w0" by (rule fold_consider)
  have ex: "(\<exists>kv\<in>set ?kvs. qualifies t mg pg (snd kv)) \<longleftrightarrow> (\<exists>h. quorum_rule pg t mg (groups_for H h rs))"
  proof
    assume "\<exists>kv\<in>set ?kvs. qualifies t mg pg (snd kv)"
    then show "\<exists>h. quorum_rule pg t mg (groups_for H h rs)" by (auto simp: cand candidate_qualifies)
  next
    assume "\<exists>h. quorum_rule pg t mg (groups_for H h rs)"
    then obtain h where h: "quorum_rule pg t mg (groups_for H h rs)" by blast
    from quorum_rule_nonempty [OF h assms(2)] have "agreeing H h rs \<noteq> []" by (simp add: groups_for_def)
    with h show "\<exists>kv\<in>set ?kvs. qualifies t mg pg (snd kv)"
      by (intro bexI [of _ "(h, _)"]) (simp_all add: cand candidate_qualifies)
  qed
  have w: "w = (let w = ?w0\<lparr>w_maxRealCount := w_maxCount ?w0\<rparr>;
      w = (if nilReplies (tally_results H rs) > w_maxCount w then w\<lparr>w_maxCount := nilReplies (tally_results H rs)\<rparr> else w)
     in if \<not> pg \<and> \<not> w_found w \<and> quorum_rule False t mg (nil_groups rs)
        then w\<lparr>w_found := True, w_count := nilReplies (tally_results H rs),
               w_result := (case nilReplyIdx (tally_results H rs) of Some i \<Rightarrow> rs ! i | None \<Rightarrow> empty_result),
               w_distinctGroups := int (length (nilReplyGroups (tally_results H rs)))\<rparr> else w)"
  proof -
    have nil: "quorum_rule False t mg (nil_groups rs) \<longleftrightarrow> nilReplies (tally_results H rs) \<ge> t
        \<and> int (length (nilReplyGroups (tally_results H rs))) \<ge> mg"
      using tally_nil [of H rs] by (simp add: quorum_rule_def)
    show ?thesis unfolding w_def final_winner_def selectQuorumWinner_def Let_def nil by (rule refl)
  qed
  show "\<exists>h. w_found w \<and> w_hash w = h \<and> quorum_rule pg t mg (groups_for H h rs)
             \<and> w_result w = hd (agreeing H h rs) \<and> agreeing H h rs \<noteq> []
             \<and> w_count w = int (length (agreeing H h rs))
             \<and> (\<forall>h'. quorum_rule pg t mg (groups_for H h' rs) \<longrightarrow>
                  agreement_weight pg t (groups_for H h' rs) \<le> agreement_weight pg t (groups_for H h rs))"
    if "\<exists>h. quorum_rule pg t mg (groups_for H h rs)"
  proof -
    from wo ex that have found: "w_found ?w0" by (simp add: winner_of_def)
    with wo obtain h c where hc: "(h, c) \<in> set ?kvs" "qualifies t mg pg c" "w_hash ?w0 = h" "w_count ?w0 = rc_count c"
      "w_result ?w0 = rc_result c"
      "\<forall>kv'\<in>set ?kvs. qualifies t mg pg (snd kv') \<longrightarrow> weight t pg (snd kv') \<le> weight t pg c"
      unfolding winner_of_def by auto
    have best: "agreement_weight pg t (groups_for H h' rs) \<le> agreement_weight pg t (groups_for H h rs)"
      if q: "quorum_rule pg t mg (groups_for H h' rs)" for h'
    proof -
      from quorum_rule_nonempty [OF q assms(2)] have "agreeing H h' rs \<noteq> []" by (simp add: groups_for_def)
      then have "(h', \<lparr>rc_count = int (length (agreeing H h' rs)), rc_result = hd (agreeing H h' rs),
           rc_groupCounts = group_tally (groups_for H h' rs)\<rparr>) \<in> set ?kvs" by (simp add: cand)
      from hc(6) [rule_format, OF this] q hc(1) show ?thesis
        by (simp add: cand candidate_qualifies candidate_weight)
    qed
    from hc found best show ?thesis
      by (intro exI [of _ h]) (auto simp: w Let_def cand candidate_qualifies)
  qed
  show "w_found w = (\<not> pg \<and> quorum_rule False t mg (nil_groups rs)) \<and> w_hash w = 0
           \<and> (w_found w \<longrightarrow> w_result w \<in> set rs \<and> \<not> has_data (w_result w) \<and> w_count w = int (length (nil_groups rs)))
           \<and> (w_maxRealCount w < t \<longleftrightarrow> (\<forall>h. int (length (agreeing H h rs)) < t) \<and> 0 < t)"
    if none: "\<not> (\<exists>h. quorum_rule pg t mg (groups_for H h rs))"
  proof -
    from wo ex none have nf: "\<not> w_found ?w0" "w_hash ?w0 = 0" by (auto simp: winner_of_def)
    have real: "w_maxRealCount w = w_maxCount ?w0" by (simp add: w Let_def)
    from wo have max: "0 \<le> w_maxCount ?w0" "\<forall>kv\<in>set ?kvs. rc_count (snd kv) \<le> w_maxCount ?w0"
      "w_maxCount ?w0 = 0 \<or> (\<exists>kv\<in>set ?kvs. w_maxCount ?w0 = rc_count (snd kv))"
      unfolding winner_of_def by simp_all
    have counts: "int (length (agreeing H h rs)) \<le> w_maxCount ?w0" for h
    proof (cases "agreeing H h rs = []")
      case False
      then have "(h, \<lparr>rc_count = int (length (agreeing H h rs)), rc_result = hd (agreeing H h rs),
           rc_groupCounts = group_tally (groups_for H h rs)\<rparr>) \<in> set ?kvs" by (simp add: cand)
      from max(2) [rule_format, OF this] show ?thesis by simp
    qed (simp add: max(1))
    have attained: "w_maxCount ?w0 = 0 \<or> (\<exists>h. w_maxCount ?w0 = int (length (agreeing H h rs)))"
      using max(3) by (auto simp: cand)
    have "w_maxCount ?w0 < t \<longleftrightarrow> (\<forall>h. int (length (agreeing H h rs)) < t) \<and> 0 < t"
      using counts attained by (metis le_less_trans of_nat_0_le_iff)
    moreover have "nil_groups rs \<noteq> []" if "quorum_rule False t mg (nil_groups rs)"
      using quorum_rule_nonempty [OF that assms(2)] .
    ultimately show ?thesis
      using nf tally_nil [of H rs] by (auto simp: real w Let_def)
  qed
qed

lemma consensus_with_content:
  assumes "visits_all iter" and "0 < t" and "\<exists>h. quorum_rule (perGroupQuorum rp) t (getMinGroups rp) (groups_for H h results)"
  shows "\<exists>r. responsesCrossValidation H iter rp results t = Inr r \<and> has_data r"
proof -
  let ?w = "final_winner H iter t (getMinGroups rp) (perGroupQuorum rp) results"
  from winner_cases(1) [OF assms(1) getMinGroups_pos [of rp] refl assms(3)] obtain h where
    h: "w_found ?w" "w_result ?w = hd (agreeing H h results)" "agreeing H h results \<noteq> []" by blast
  from list.set_sel(1) [OF h(3)] have "has_data (w_result ?w)" by (simp add: h(2)) (simp add: agreeing_def)
  with h(1) assms(2) show ?thesis
    by (simp add: responsesCrossValidation_def Let_def final_winner_def [unfolded Let_def, symmetric]) (simp add: has_data_def)
qed

text \<open>
  C5. When the final evaluation finds a consensus and what it says when it finds none. There is a consensus
  exactly when some response hash satisfies the quorum rule or, outside per-group mode, the empty
  replies do. Without one the reason tells the cases apart: in per-group mode too few groups reached
  their quorum; otherwise no response reached the threshold, or one did without spanning the groups.
\<close>

theorem consensus_iff:
  assumes "visits_all iter" and "0 < t"
  shows "case responsesCrossValidation H iter rp results t of
      Inr r \<Rightarrow> (\<exists>h. quorum_rule (perGroupQuorum rp) t (getMinGroups rp) (groups_for H h results))
        \<or> (\<not> perGroupQuorum rp \<and> quorum_rule False t (getMinGroups rp) (nil_groups results))
    | Inl reason \<Rightarrow> \<not> (\<exists>h. quorum_rule (perGroupQuorum rp) t (getMinGroups rp) (groups_for H h results))
        \<and> \<not> (\<not> perGroupQuorum rp \<and> quorum_rule False t (getMinGroups rp) (nil_groups results))
        \<and> reason = (if perGroupQuorum rp then CrossValidationReasonGroupQuorumUnmet
            else if \<forall>h. int (length (groups_for H h results)) < t then CrossValidationReasonNoAgreement
            else CrossValidationReasonDiversityUnmet)"
  using winner_cases [OF assms(1) getMinGroups_pos [of rp] refl, of "perGroupQuorum rp" t H results] assms(2)
  unfolding responsesCrossValidation_def Let_def final_winner_def [unfolded Let_def, symmetric]
  by (cases "\<exists>h. quorum_rule (perGroupQuorum rp) t (getMinGroups rp) (groups_for H h results)")
     (auto simp: groups_for_def split: if_splits)

text \<open>Two groups, and three providers of which two agree across them.\<close>

definition sample_result :: "string \<Rightarrow> string \<Rightarrow> string \<Rightarrow> RelayResult" where
  "sample_result addr grp data = empty_result\<lparr>RR_Reply := Some \<lparr>Data = data, LatestBlock = 7\<rparr>,
     RR_ProviderInfo := \<lparr>ProviderAddress = addr, ProviderReputationSummary = 0, ProviderStake = 0, ProviderGroup = grp\<rparr>\<rparr>"

definition sample_hash :: "string \<Rightarrow> hash" where
  "sample_hash d = (if d = ''x'' then 1 else 2)"

definition sample_results :: "RelayResult list" where
  "sample_results = [sample_result ''p1'' ''a'' ''x'', sample_result ''p2'' ''a'' ''y'', sample_result ''p3'' ''b'' ''x'']"

definition sample_params :: CrossValidationParams where
  "sample_params = \<lparr>MaxParticipants = 3, AgreementThreshold = 2, MinGroups = 2, PerGroupQuorum = False\<rparr>"

definition sample_rp :: RelayProcessor where
  "sample_rp = the (NewRelayProcessor (Some sample_params) CrossValidation)"

lemma sample_groups:
  "groups_for sample_hash 1 sample_results = [''a'', ''b'']"
  by (simp add: groups_for_def agreeing_def sample_results_def sample_result_def sample_hash_def has_data_def
      result_hash_def responseContentHash_def quorumGroupOf_def fold_group_def empty_result_def)

lemma sample_rp_params: "perGroupQuorum sample_rp = False" "getMinGroups sample_rp = 2" "getAgreementThreshold sample_rp = 2"
  by (simp_all add: sample_rp_def NewRelayProcessor_def sample_params_def perGroupQuorum_def getMinGroups_def
      getAgreementThreshold_def noCrossValidationRequirement_def)

lemma sample_quorum: "quorum_rule (perGroupQuorum sample_rp) 2 (getMinGroups sample_rp) (groups_for sample_hash 1 sample_results)"
  by (simp add: sample_groups sample_rp_params quorum_rule_def)

theorem consensus_iff_witness: "\<exists>r. responsesCrossValidation sample_hash rev sample_rp sample_results 2 = Inr r"
  using consensus_iff [where iter = rev and t = 2 and H = sample_hash and rp = sample_rp and results = sample_results] sample_quorum
  by (auto simp: visits_all_def split: sum.splits)

text \<open>
  What a consensus is: the answer returned is one provider's own reply, the count on it is the number
  of providers that returned the same content, and those providers satisfy the quorum rule, so a single
  group never carries a request that asks for two; no response that satisfies the rule has more
  agreement behind it. An empty reply is returned only when no content satisfies the rule.
\<close>

theorem consensus_is_agreed:
  assumes "visits_all iter" and "responsesCrossValidation H iter rp results t = Inr r"
  shows "\<exists>x\<in>set results. RR_Reply r = RR_Reply x \<and> RR_ProviderInfo r = RR_ProviderInfo x
    \<and> (if has_data x
       then result_hash H x = ResponseHash r
          \<and> CrossValidationCount r = int (length (groups_for H (ResponseHash r) results))
          \<and> quorum_rule (perGroupQuorum rp) t (getMinGroups rp) (groups_for H (ResponseHash r) results)
          \<and> (\<forall>h. quorum_rule (perGroupQuorum rp) t (getMinGroups rp) (groups_for H h results) \<longrightarrow>
                agreement_weight (perGroupQuorum rp) t (groups_for H h results)
                \<le> agreement_weight (perGroupQuorum rp) t (groups_for H (ResponseHash r) results))
       else \<not> perGroupQuorum rp \<and> ResponseHash r = 0
          \<and> CrossValidationCount r = int (length (nil_groups results))
          \<and> quorum_rule False t (getMinGroups rp) (nil_groups results)
          \<and> (\<forall>h. \<not> quorum_rule (perGroupQuorum rp) t (getMinGroups rp) (groups_for H h results)))"
proof -
  let ?w = "final_winner H iter t (getMinGroups rp) (perGroupQuorum rp) results"
  note wc = winner_cases [OF assms(1) getMinGroups_pos [of rp] refl, of "perGroupQuorum rp" t H results]
  from assms(2) have r: "w_found ?w" "r = (w_result ?w)\<lparr>CrossValidationCount := w_count ?w, ResponseHash := w_hash ?w\<rparr>"
    by (auto simp: responsesCrossValidation_def Let_def final_winner_def split: if_splits)
  show ?thesis
  proof (cases "\<exists>h. quorum_rule (perGroupQuorum rp) t (getMinGroups rp) (groups_for H h results)")
    case True
    from wc(1) [OF True] obtain h where h: "w_hash ?w = h"
      "quorum_rule (perGroupQuorum rp) t (getMinGroups rp) (groups_for H h results)"
      "w_result ?w = hd (agreeing H h results)" "agreeing H h results \<noteq> []"
      "w_count ?w = int (length (agreeing H h results))"
      "\<forall>h'. quorum_rule (perGroupQuorum rp) t (getMinGroups rp) (groups_for H h' results) \<longrightarrow>
         agreement_weight (perGroupQuorum rp) t (groups_for H h' results)
         \<le> agreement_weight (perGroupQuorum rp) t (groups_for H h results)" by blast
    from list.set_sel(1) [OF h(4)] have x: "hd (agreeing H h results) \<in> set results"
      "has_data (hd (agreeing H h results))" "result_hash H (hd (agreeing H h results)) = h"
      by (auto simp: agreeing_def)
    show ?thesis
      by (rule bexI [OF _ x(1)]) (use h x r in \<open>simp add: groups_for_def\<close>)
  next
    case False
    from wc(2) [OF False] r(1) have x: "w_result ?w \<in> set results" "\<not> has_data (w_result ?w)" "w_hash ?w = 0"
      "w_count ?w = int (length (nil_groups results))" "\<not> perGroupQuorum rp"
      "quorum_rule False t (getMinGroups rp) (nil_groups results)" by auto
    show ?thesis
      by (rule bexI [OF _ x(1)]) (use False x r in simp)
  qed
qed

theorem consensus_is_agreed_witness:
  "\<exists>r. responsesCrossValidation sample_hash rev sample_rp sample_results 2 = Inr r \<and> has_data r"
proof -
  have iter: "visits_all rev" by (simp add: visits_all_def)
  obtain r where r: "responsesCrossValidation sample_hash rev sample_rp sample_results 2 = Inr r"
    using consensus_with_content [OF iter, of 2 sample_rp sample_hash sample_results] sample_quorum by auto
  from consensus_is_agreed [OF iter r] sample_quorum show ?thesis
    using r by (auto simp: has_data_def split: if_splits)
qed

end
