(* ===== verification/RelayStateMachine.thy ===== *)
theory RelayStateMachine
  imports Quorum
begin

text \<open>
  The state machine that drives one request: \<open>relaycore/unified_relay_state_machine.go\<close> and
  \<open>relaycore/relay_state.go\<close>. Each arm of the select loop is one operation on the machine's state; the
  policy is the pair of functions the Go interface \<open>RelayPolicyInf\<close> has (and its error counter), and what
  an arm reads from the rest of the request at that moment (attempts in flight, batch number, results
  summary, the state of the processing context) is the record \<open>env\<close>. The request has analytics, so a hedge is counted. Instructions sent on the task
  channel are appended to \<open>out\<close>. A goroutine waiting in \<open>validateReturnCondition\<close> is an entry of
  \<open>validators\<close>; \<open>returnCondition\<close> is the channel of capacity one.
\<close>

section \<open>Configuration, request and state\<close>

record StateMachineConfig =
  sm_EnableCircuitBreaker :: bool
  sm_EnableTimeoutPriority :: bool
  sm_SendRelayAttempts :: int

record request =
  req_IsBatch :: bool
  req_IsDefaultApi :: bool
  req_DirectiveHeaders :: "(string, string) gomap"

record RelayState =
  stateNumber :: int
  isEarliestUsed :: bool

record instruction =
  ins_Err :: "go_error option"
  ins_Done :: bool
  ins_RelayState :: "RelayState option"
  ins_NumOfProviders :: int
  ins_StopReason :: string

record env =
  env_CurrentlyUsed :: nat
  env_BatchNumber :: int
  env_Summary :: results_summary
  env_PriorityErr :: "go_error option"
  env_CtxErr :: "go_error option"
  env_MissingOnlyGroups :: bool

record 'p state_machine =
  sm_selection :: selection
  sm_params :: "CrossValidationParams option"
  stopReason :: string
  pendingStopReason :: string
  hedgePending :: bool
  pairingEmptyWarned :: bool
  relayState :: "RelayState list"
  sm_policy :: 'p
  hedgeCount :: int
  validators :: "(int \<times> go_error option) list"
  returnCondition :: "go_error option option"
  out :: "instruction list"
  finished :: bool

definition StopReasonProcessingTimeout :: string where "StopReasonProcessingTimeout = ''ProcessingTimeout''"
definition StopReasonCallerGone :: string where "StopReasonCallerGone = ''CallerGone''"
definition StopReasonCrossValidationGroupsQuiet :: string where
  "StopReasonCrossValidationGroupsQuiet = ''CrossValidationGroupsQuiet''"
definition ErrCrossValidationGroupsQuiet :: string where
  "ErrCrossValidationGroupsQuiet = ''cross-validation quorum can only be completed by under-staffed provider groups whose providers did not answer within the attempt window''"
definition DeadlineExceeded :: string where "DeadlineExceeded = ''context deadline exceeded''"

section \<open>The selection of a request\<close>

text \<open>
  \<open>stateful\<close> is the spec's category of the method; \<open>headers\<close> is what \<open>GetCrossValidationParameters\<close> says:
  no headers, an error, or parameters.
\<close>

definition choose_selection ::
    "CrossValidationParams option \<Rightarrow> bool \<Rightarrow> bool \<Rightarrow> (go_error + CrossValidationParams) option
      \<Rightarrow> go_error + (selection \<times> CrossValidationParams option)" where
  "choose_selection cvOverride forbidCaller stateful headers =
    (case cvOverride of
       Some p \<Rightarrow> Inr (CrossValidation, Some p)
     | None \<Rightarrow>
        if forbidCaller then Inr (if stateful then Stateful else Stateless, None)
        else if stateful then Inr (Stateful, None)
        else case headers of
               Some (Inl err) \<Rightarrow> Inl (ErrWrap ''invalid cross-validation headers'' [err])
             | Some (Inr p) \<Rightarrow> Inr (CrossValidation, Some p)
             | None \<Rightarrow> Inr (Stateless, None))"

definition NewUnifiedRelayStateMachine ::
    "CrossValidationParams option \<Rightarrow> bool \<Rightarrow> bool \<Rightarrow> (go_error + CrossValidationParams) option \<Rightarrow> 'p
      \<Rightarrow> go_error + 'p state_machine" where
  "NewUnifiedRelayStateMachine cvOverride forbidCaller stateful headers policy =
    (case choose_selection cvOverride forbidCaller stateful headers of
       Inl e \<Rightarrow> Inl e
     | Inr (sel, params) \<Rightarrow> Inr \<lparr>sm_selection = sel, sm_params = params, stopReason = '''', pendingStopReason = '''',
         hedgePending = False, pairingEmptyWarned = False, relayState = [], sm_policy = policy, hedgeCount = 0,
         validators = [], returnCondition = None, out = [], finished = False\<rparr>)"

definition STICKINESS_HEADER_NAME :: string where "STICKINESS_HEADER_NAME = ''lava-stickiness''"
definition SELECT_PROVIDER_HEADER_NAME :: string where "SELECT_PROVIDER_HEADER_NAME = ''lava-select-provider''"
definition SELECT_PROVIDER_STRICT_HEADER_NAME :: string where
  "SELECT_PROVIDER_STRICT_HEADER_NAME = ''lava-select-provider-strict''"

definition SelectProviderStrict :: "(string, string) gomap \<Rightarrow> bool" where
  "SelectProviderStrict headers \<longleftrightarrow>
    to_lower (trim_space (case mget headers SELECT_PROVIDER_STRICT_HEADER_NAME of Some v \<Rightarrow> v | None \<Rightarrow> ''''))
      = ''true''"

definition PinnedByDirectives :: "(string, string) gomap \<Rightarrow> bool" where
  "PinnedByDirectives headers =
    (if mget headers STICKINESS_HEADER_NAME \<noteq> None then True
     else mget headers SELECT_PROVIDER_HEADER_NAME \<noteq> None \<and> SelectProviderStrict headers)"

section \<open>Stop reasons\<close>

definition setStopReason :: "string \<Rightarrow> 'p state_machine \<Rightarrow> 'p state_machine" where
  "setStopReason reason sm = sm\<lparr>stopReason := reason\<rparr>"

definition stopReasonOr :: "string \<Rightarrow> 'p state_machine \<Rightarrow> string" where
  "stopReasonOr fallback sm = (if stopReason sm \<noteq> '''' then stopReason sm else fallback)"

definition recordStopReason :: "env \<Rightarrow> string \<Rightarrow> 'p state_machine \<Rightarrow> 'p state_machine" where
  "recordStopReason e reason sm =
    (if env_CurrentlyUsed e > 0 then sm\<lparr>pendingStopReason := reason\<rparr> else setStopReason reason sm)"

definition settleStopReason :: "'p state_machine \<Rightarrow> string \<times> 'p state_machine" where
  "settleStopReason sm =
    (if stopReason sm \<noteq> '''' then (stopReason sm, sm)
     else let sm = (if pendingStopReason sm \<noteq> '''' then setStopReason (pendingStopReason sm) sm else sm)
          in (stopReason sm, sm))"

definition endOfRoadReason :: "go_error \<Rightarrow> 'p state_machine \<Rightarrow> string" where
  "endOfRoadReason err sm =
    (if errors_is err DeadlineExceeded then stopReasonOr StopReasonProcessingTimeout sm
     else stopReasonOr StopReasonCallerGone sm)"

section \<open>Relay states and instructions\<close>

definition getLatestState :: "'p state_machine \<Rightarrow> RelayState option" where
  "getLatestState sm = (if relayState sm = [] then None else Some (last (relayState sm)))"

definition stateTransition :: "RelayState option \<Rightarrow> 'p state_machine \<Rightarrow> 'p state_machine" where
  "stateTransition current sm =
    sm\<lparr>relayState := relayState sm @
       [case current of None \<Rightarrow> \<lparr>stateNumber = 0, isEarliestUsed = False\<rparr>
        | Some rs \<Rightarrow> \<lparr>stateNumber = stateNumber rs + 1, isEarliestUsed = isEarliestUsed rs\<rparr>]\<rparr>"

definition send_relay :: "int \<Rightarrow> 'p state_machine \<Rightarrow> 'p state_machine" where
  "send_relay n sm = sm\<lparr>out := out sm @ [\<lparr>ins_Err = None, ins_Done = False, ins_RelayState = getLatestState sm,
     ins_NumOfProviders = n, ins_StopReason = ''''\<rparr>]\<rparr>"

definition send_done :: "go_error option \<Rightarrow> string \<Rightarrow> 'p state_machine \<Rightarrow> 'p state_machine" where
  "send_done err reason sm = sm\<lparr>out := out sm @ [\<lparr>ins_Err = err, ins_Done = True, ins_RelayState = None,
     ins_NumOfProviders = 0, ins_StopReason = reason\<rparr>], finished := True\<rparr>"

definition buildDecisionInput :: "request \<Rightarrow> env \<Rightarrow> bool \<Rightarrow> 'p state_machine \<Rightarrow> decision_input" where
  "buildDecisionInput req e isTickerHedge sm =
    \<lparr>Selection = sm_selection sm, AttemptNumber = env_BatchNumber e, IsBatch = req_IsBatch req,
     Summary = env_Summary e, IsTickerHedge = isTickerHedge, IsDefaultApi = req_IsDefaultApi req,
     Pinned = PinnedByDirectives (req_DirectiveHeaders req)\<rparr>"

text \<open>The attempt window: a non-positive one never fires.\<close>

definition attemptWindow :: "duration \<Rightarrow> duration" where
  "attemptWindow relayTimeout = (if relayTimeout \<le> 0 then max_int64 else relayTimeout)"

definition start :: "'p state_machine \<Rightarrow> 'p state_machine" where
  "start sm =
    (let sm = stateTransition None sm;
         numProviders = (case sm_params sm of
             Some p \<Rightarrow> if sm_selection sm = CrossValidation then MaxParticipants p else 1 | None \<Rightarrow> 1)
     in send_relay numProviders sm)"

section \<open>The arms of the loop\<close>

text \<open>\<open>checkAndHandleTimeout\<close>: the machine after the timeout, if the context is done.\<close>

definition checkAndHandleTimeout :: "go_error option \<Rightarrow> 'p state_machine \<Rightarrow> 'p state_machine option" where
  "checkAndHandleTimeout ctxErr sm =
    (case ctxErr of None \<Rightarrow> None
     | Some err \<Rightarrow> Some (send_done (Some err) (endOfRoadReason err sm) sm))"

definition on_batch_update ::
    "('p \<Rightarrow> go_error option \<Rightarrow> bool \<Rightarrow> selection \<Rightarrow> 'p \<times> send_result) \<Rightarrow> ('p \<Rightarrow> int) \<Rightarrow> StateMachineConfig
      \<Rightarrow> env \<Rightarrow> go_error option \<Rightarrow> 'p state_machine \<Rightarrow> 'p state_machine" where
  "on_batch_update on_send batch_errors c e err sm =
    (let isPairingListEmpty = errors_is_opt err PairingListEmptyError
     in case on_send (sm_policy sm) err isPairingListEmpty (sm_selection sm) of (pol, result) \<Rightarrow>
        let sm = sm\<lparr>sm_policy := pol\<rparr>
        in case result of
             SendSuccess \<Rightarrow>
               if hedgePending sm then sm\<lparr>hedgePending := False, hedgeCount := hedgeCount sm + 1\<rparr> else sm
           | SendStop \<Rightarrow>
               let sm = (if isPairingListEmpty \<and> sm_EnableCircuitBreaker c
                         then (recordStopReason e ''AllProvidersExhausted'' sm)\<lparr>pairingEmptyWarned := True\<rparr>
                         else if PinnedUpstreamUnservable err then recordStopReason e ''PinnedProviderUnavailable'' sm
                         else if env_BatchNumber e = 0 \<and> batch_errors (sm_policy sm) = sm_SendRelayAttempts c + 1
                         then recordStopReason e ''FirstMessageFailed'' sm
                         else recordStopReason e ''BatchSendFailed'' sm)
               in sm\<lparr>hedgePending := False, validators := validators sm @ [(env_BatchNumber e, err)]\<rparr>
           | SendRetry \<Rightarrow>
               (case (if sm_EnableTimeoutPriority c then checkAndHandleTimeout (env_CtxErr e) sm else None) of
                  Some sm' \<Rightarrow> sm'
                | None \<Rightarrow> send_relay 1 sm))"

definition on_results ::
    "('p \<Rightarrow> decision_input \<Rightarrow> decision_output) \<Rightarrow> StateMachineConfig \<Rightarrow> request \<Rightarrow> env \<Rightarrow> bool
      \<Rightarrow> 'p state_machine \<Rightarrow> 'p state_machine" where
  "on_results decide c req e success sm =
    (if success then send_done None ''Success'' sm
     else case (if sm_EnableTimeoutPriority c then checkAndHandleTimeout (env_CtxErr e) sm else None) of
       Some sm' \<Rightarrow> sm'
     | None \<Rightarrow>
         let output = decide (sm_policy sm) (buildDecisionInput req e False sm)
         in if Action output = ActionRetry then
              let sm = sm\<lparr>hedgePending := False\<rparr>;
                  sm = stateTransition (getLatestState sm) sm
              in send_relay 1 sm
            else
              let sm = recordStopReason e (Reason output) sm
              in sm\<lparr>validators := validators sm @ [(env_BatchNumber e, None)]\<rparr>)"

definition on_tick ::
    "('p \<Rightarrow> decision_input \<Rightarrow> decision_output) \<Rightarrow> StateMachineConfig \<Rightarrow> request \<Rightarrow> env
      \<Rightarrow> 'p state_machine \<Rightarrow> 'p state_machine" where
  "on_tick decide c req e sm =
    (case (if sm_EnableTimeoutPriority c then checkAndHandleTimeout (env_CtxErr e) sm else None) of
       Some sm' \<Rightarrow> sm'
     | None \<Rightarrow>
         if sm_selection sm = CrossValidation \<and> env_MissingOnlyGroups e
         then send_done (Some (ErrSentinel ErrCrossValidationGroupsQuiet)) StopReasonCrossValidationGroupsQuiet sm
         else
           let output = decide (sm_policy sm) (buildDecisionInput req e True sm)
           in if Action output = ActionRetry then
                (send_relay 1 (stateTransition (getLatestState sm) sm))\<lparr>hedgePending := True\<rparr>
              else sm)"

definition on_return :: "go_error option \<Rightarrow> 'p state_machine \<Rightarrow> 'p state_machine" where
  "on_return returnErr sm = (case settleStopReason sm of (reason, sm) \<Rightarrow> send_done returnErr reason sm)"

definition on_ctx_done :: "go_error \<Rightarrow> 'p state_machine \<Rightarrow> 'p state_machine" where
  "on_ctx_done err sm = send_done (Some err) (endOfRoadReason err sm) sm"

text \<open>\<open>validateReturnCondition\<close> after its sleep: the signal is dropped when the channel is full.\<close>

definition signalReturnCondition :: "go_error option \<Rightarrow> 'p state_machine \<Rightarrow> 'p state_machine" where
  "signalReturnCondition err sm =
    (case returnCondition sm of None \<Rightarrow> sm\<lparr>returnCondition := Some err\<rparr> | Some _ \<Rightarrow> sm)"

definition validateReturnCondition :: "env \<Rightarrow> int \<times> go_error option \<Rightarrow> 'p state_machine \<Rightarrow> 'p state_machine" where
  "validateReturnCondition e v sm =
    (let sm = sm\<lparr>validators := remove1 v (validators sm)\<rparr>
     in if fst v = env_BatchNumber e \<and> env_CurrentlyUsed e = 0 then signalReturnCondition (snd v) sm else sm)"

section \<open>The loop\<close>

datatype event = BatchUpdate "go_error option" | GotResults bool | Tick | Returned | CtxDone

definition on_event ::
    "('p \<Rightarrow> decision_input \<Rightarrow> decision_output) \<Rightarrow> ('p \<Rightarrow> go_error option \<Rightarrow> bool \<Rightarrow> selection \<Rightarrow> 'p \<times> send_result)
      \<Rightarrow> ('p \<Rightarrow> int) \<Rightarrow> StateMachineConfig \<Rightarrow> request \<Rightarrow> env \<Rightarrow> event \<Rightarrow> 'p state_machine \<Rightarrow> 'p state_machine" where
  "on_event decide on_send batch_errors c req e ev sm =
    (case (if sm_EnableTimeoutPriority c then checkAndHandleTimeout (env_PriorityErr e) sm else None) of
       Some sm' \<Rightarrow> sm'
     | None \<Rightarrow>
        (case ev of
           BatchUpdate err \<Rightarrow> on_batch_update on_send batch_errors c e err sm
         | GotResults success \<Rightarrow> on_results decide c req e success sm
         | Tick \<Rightarrow> on_tick decide c req e sm
         | Returned \<Rightarrow> (case returnCondition sm of Some err \<Rightarrow> on_return err sm | None \<Rightarrow> sm)
         | CtxDone \<Rightarrow> (case env_CtxErr e of Some err \<Rightarrow> on_ctx_done err sm | None \<Rightarrow> sm)))"

text \<open>
  A run of the machine: events in any order with any environment, while it has not finished, and the
  waking of waiting goroutines. The list names the environments the run met.
\<close>

inductive sm_run ::
    "('p \<Rightarrow> decision_input \<Rightarrow> decision_output) \<Rightarrow> ('p \<Rightarrow> go_error option \<Rightarrow> bool \<Rightarrow> selection \<Rightarrow> 'p \<times> send_result)
      \<Rightarrow> ('p \<Rightarrow> int) \<Rightarrow> StateMachineConfig \<Rightarrow> request \<Rightarrow> env list \<Rightarrow> 'p state_machine \<Rightarrow> 'p state_machine \<Rightarrow> bool"
  for decide on_send batch_errors c req where
  started: "sm_run decide on_send batch_errors c req [] sm (start sm)"
| event: "sm_run decide on_send batch_errors c req es sm0 sm \<Longrightarrow> \<not> finished sm \<Longrightarrow>
    sm_run decide on_send batch_errors c req (es @ [e]) sm0 (on_event decide on_send batch_errors c req e ev sm)"
| wake: "sm_run decide on_send batch_errors c req es sm0 sm \<Longrightarrow> v \<in> set (validators sm) \<Longrightarrow>
    sm_run decide on_send batch_errors c req (es @ [e]) sm0 (validateReturnCondition e v sm)"

section \<open>What every run keeps\<close>

definition numbered :: "RelayState list \<Rightarrow> bool" where
  "numbered rs \<longleftrightarrow> rs \<noteq> [] \<and> map stateNumber rs = map int [0..<length rs]"

definition dispatches :: "'p state_machine \<Rightarrow> instruction list" where
  "dispatches sm = filter (\<lambda>i. \<not> ins_Done i) (out sm)"

text \<open>
  States are numbered from 0; a dispatch carries one of them and no error; the only instruction that
  ends the request is the last one, and it is there exactly when the machine has finished; no more
  hedges are counted than states were added.
\<close>

definition outputs_ok :: "RelayState list \<Rightarrow> bool \<Rightarrow> instruction list \<Rightarrow> bool" where
  "outputs_ok rs fin is \<longleftrightarrow> (\<exists>pre.
     (\<forall>i\<in>set pre. \<not> ins_Done i \<and> ins_Err i = None \<and> (\<exists>s\<in>set rs. ins_RelayState i = Some s))
     \<and> (if fin then \<exists>d. ins_Done d \<and> is = pre @ [d] else is = pre))"

definition sm_inv :: "'p state_machine \<Rightarrow> bool" where
  "sm_inv sm \<longleftrightarrow> numbered (relayState sm) \<and> outputs_ok (relayState sm) (finished sm) (out sm)
     \<and> 0 \<le> hedgeCount sm \<and> hedgeCount sm + (if hedgePending sm then 1 else 0) \<le> int (length (relayState sm)) - 1"

lemma outputs_dispatch:
  assumes "outputs_ok rs False is" "s \<in> set rs" "\<not> ins_Done i" "ins_Err i = None" "ins_RelayState i = Some s"
  shows "outputs_ok rs False (is @ [i])"
  using assms by (auto simp: outputs_ok_def)

lemma outputs_done: "outputs_ok rs False is \<Longrightarrow> ins_Done d \<Longrightarrow> outputs_ok rs True (is @ [d])"
  by (auto simp: outputs_ok_def)

lemma outputs_more_states:
  assumes "outputs_ok rs fin is" shows "outputs_ok (rs @ ts) fin is"
proof -
  from assms obtain pre where
    "\<forall>i\<in>set pre. \<not> ins_Done i \<and> ins_Err i = None \<and> (\<exists>s\<in>set rs. ins_RelayState i = Some s)"
    "if fin then \<exists>d. ins_Done d \<and> is = pre @ [d] else is = pre" unfolding outputs_ok_def by blast
  then show ?thesis unfolding outputs_ok_def by (intro exI [of _ pre]) auto
qed

lemma numbered_snoc:
  assumes "numbered rs"
  shows "numbered (rs @ [\<lparr>stateNumber = stateNumber (last rs) + 1, isEarliestUsed = b\<rparr>])"
proof -
  from assms have ne: "rs \<noteq> []" and eq: "map stateNumber rs = map int [0..<length rs]" by (auto simp: numbered_def)
  have "stateNumber (last rs) = last (map stateNumber rs)" using ne by (simp add: last_map)
  also have "\<dots> = int (length rs - 1)" using ne unfolding eq by (simp add: last_map)
  finally show ?thesis using ne eq by (cases rs) (simp_all add: numbered_def)
qed

lemma latest_state: "numbered (relayState sm) \<Longrightarrow> getLatestState sm = Some (last (relayState sm))"
  by (simp add: getLatestState_def numbered_def)

lemma inv_dispatch:
  assumes "sm_inv sm" "\<not> finished sm" shows "sm_inv (send_relay n sm)"
proof -
  have "last (relayState sm) \<in> set (relayState sm)" using assms(1) by (simp add: sm_inv_def numbered_def)
  moreover have "getLatestState sm = Some (last (relayState sm))" using assms(1) by (intro latest_state) (simp add: sm_inv_def)
  ultimately show ?thesis using assms by (simp add: sm_inv_def send_relay_def outputs_dispatch)
qed

lemma inv_done: "sm_inv sm \<Longrightarrow> \<not> finished sm \<Longrightarrow> sm_inv (send_done err reason sm)"
  by (simp add: sm_inv_def send_done_def outputs_done)

lemma inv_transition: "sm_inv sm \<Longrightarrow> sm_inv (stateTransition (getLatestState sm) sm)"
  by (simp add: sm_inv_def stateTransition_def latest_state numbered_snoc outputs_more_states)

lemma transition_fields [simp]:
  "finished (stateTransition r sm) = finished sm" "hedgePending (stateTransition r sm) = hedgePending sm"
  "hedgeCount (stateTransition r sm) = hedgeCount sm" "sm_selection (stateTransition r sm) = sm_selection sm"
  "length (relayState (stateTransition r sm)) = Suc (length (relayState sm))"
  by (simp_all add: stateTransition_def)

lemma reason_recorded_fields [simp]:
  "finished (recordStopReason e r sm) = finished sm" "hedgePending (recordStopReason e r sm) = hedgePending sm"
  "hedgeCount (recordStopReason e r sm) = hedgeCount sm" "relayState (recordStopReason e r sm) = relayState sm"
  "out (recordStopReason e r sm) = out sm" "sm_selection (recordStopReason e r sm) = sm_selection sm"
  "sm_policy (recordStopReason e r sm) = sm_policy sm" "returnCondition (recordStopReason e r sm) = returnCondition sm"
  by (simp_all add: recordStopReason_def setStopReason_def)

lemma inv_record: "sm_inv sm \<Longrightarrow> sm_inv (recordStopReason e r sm)"
  by (simp add: sm_inv_def)

lemma inv_bookkeeping:
  "sm_inv sm \<Longrightarrow> sm_inv (sm\<lparr>sm_policy := p\<rparr>)" "sm_inv sm \<Longrightarrow> sm_inv (sm\<lparr>validators := v\<rparr>)"
  "sm_inv sm \<Longrightarrow> sm_inv (sm\<lparr>pairingEmptyWarned := b\<rparr>)" "sm_inv sm \<Longrightarrow> sm_inv (sm\<lparr>returnCondition := rc\<rparr>)"
  "sm_inv sm \<Longrightarrow> sm_inv (sm\<lparr>stopReason := r\<rparr>)" "sm_inv sm \<Longrightarrow> sm_inv (sm\<lparr>hedgePending := False\<rparr>)"
  by (auto simp: sm_inv_def split: if_splits)

lemma inv_hedge_counted:
  "sm_inv sm \<Longrightarrow> hedgePending sm \<Longrightarrow> sm_inv (sm\<lparr>hedgePending := False, hedgeCount := hedgeCount sm + 1\<rparr>)"
  by (auto simp: sm_inv_def)

lemma inv_hedge_asked:
  assumes "sm_inv sm" "\<not> finished sm"
  shows "sm_inv ((send_relay 1 (stateTransition (getLatestState sm) sm))\<lparr>hedgePending := True\<rparr>)"
proof -
  have "sm_inv (send_relay 1 (stateTransition (getLatestState sm) sm))"
    using assms by (intro inv_dispatch inv_transition) simp_all
  moreover have "hedgeCount sm \<le> int (length (relayState sm)) - 1"
    using assms(1) by (auto simp: sm_inv_def split: if_splits)
  ultimately show ?thesis by (auto simp: sm_inv_def send_relay_def)
qed

lemma inv_timeout: "sm_inv sm \<Longrightarrow> \<not> finished sm \<Longrightarrow> checkAndHandleTimeout ce sm = Some sm' \<Longrightarrow> sm_inv sm'"
  by (auto simp: checkAndHandleTimeout_def inv_done split: option.splits)

lemma inv_batch_update:
  assumes "sm_inv sm" "\<not> finished sm"
  shows "sm_inv (on_batch_update on_send be c e err sm)"
proof -
  obtain pol res where os: "on_send (sm_policy sm) err (errors_is_opt err PairingListEmptyError) (sm_selection sm) = (pol, res)"
    by force
  let ?sm = "sm\<lparr>sm_policy := pol\<rparr>"
  have sm: "sm_inv ?sm" "\<not> finished ?sm" using assms by (simp_all add: inv_bookkeeping)
  show ?thesis
  proof (cases res)
    case SendSuccess
    with os sm inv_hedge_counted [OF sm(1)] show ?thesis by (simp add: on_batch_update_def Let_def)
  next
    case SendRetry
    with os sm inv_timeout [OF sm] inv_dispatch [OF sm] show ?thesis
      by (auto simp: on_batch_update_def Let_def split: option.split)
  next
    case SendStop
    with os sm show ?thesis
      by (auto simp: on_batch_update_def Let_def intro!: inv_bookkeeping inv_record)
  qed
qed

lemma inv_results:
  assumes "sm_inv sm" "\<not> finished sm" shows "sm_inv (on_results decide c req e success sm)"
proof -
  have sm: "sm_inv (sm\<lparr>hedgePending := False\<rparr>)" using assms by (simp add: inv_bookkeeping)
  have "sm_inv (send_relay 1 (stateTransition (getLatestState (sm\<lparr>hedgePending := False\<rparr>)) (sm\<lparr>hedgePending := False\<rparr>)))"
    using assms(2) by (intro inv_dispatch inv_transition sm) simp
  then show ?thesis
    using assms inv_timeout [OF assms]
    by (auto simp: on_results_def Let_def intro: inv_done inv_bookkeeping inv_record split: option.split)
qed

lemma inv_tick:
  assumes "sm_inv sm" "\<not> finished sm" shows "sm_inv (on_tick decide c req e sm)"
  using assms inv_timeout [OF assms] inv_hedge_asked [OF assms]
  by (auto simp: on_tick_def Let_def intro: inv_done split: option.split)

lemma inv_return: "sm_inv sm \<Longrightarrow> \<not> finished sm \<Longrightarrow> sm_inv (on_return err sm)"
  by (auto simp: on_return_def settleStopReason_def setStopReason_def Let_def intro!: inv_done inv_bookkeeping)

lemma inv_event:
  assumes "sm_inv sm" "\<not> finished sm" shows "sm_inv (on_event decide on_send be c req e ev sm)"
  using assms inv_timeout [OF assms]
  by (auto simp: on_event_def on_ctx_done_def
      intro: inv_batch_update inv_results inv_tick inv_return inv_done split: option.split event.split)

lemma inv_validate: "sm_inv sm \<Longrightarrow> sm_inv (validateReturnCondition e v sm)"
  by (auto simp: validateReturnCondition_def signalReturnCondition_def Let_def intro: inv_bookkeeping split: option.split)

text \<open>A machine as it is built: nothing recorded, nothing sent.\<close>

definition fresh_machine :: "'p state_machine \<Rightarrow> bool" where
  "fresh_machine sm \<longleftrightarrow> relayState sm = [] \<and> out sm = [] \<and> \<not> finished sm \<and> \<not> hedgePending sm \<and> hedgeCount sm = 0
     \<and> stopReason sm = '''' \<and> pendingStopReason sm = '''' \<and> validators sm = [] \<and> returnCondition sm = None"

lemma new_machine_fresh: "NewUnifiedRelayStateMachine ov fb st hs p = Inr sm \<Longrightarrow> fresh_machine sm"
  by (auto simp: NewUnifiedRelayStateMachine_def fresh_machine_def split: sum.splits)

lemma inv_start: "fresh_machine sm \<Longrightarrow> sm_inv (start sm)"
  by (simp add: fresh_machine_def start_def Let_def send_relay_def stateTransition_def sm_inv_def numbered_def
      getLatestState_def outputs_ok_def)

lemma run_inv: "sm_run decide on_send be c req es sm0 sm \<Longrightarrow> fresh_machine sm0 \<Longrightarrow> sm_inv sm"
  by (induction rule: sm_run.induct) (simp_all add: inv_start inv_event inv_validate)

section \<open>What the policy's contract gives\<close>

lemma dispatches_fields [simp]:
  "dispatches (send_relay n sm) = dispatches sm @ [\<lparr>ins_Err = None, ins_Done = False, ins_RelayState = getLatestState sm,
     ins_NumOfProviders = n, ins_StopReason = ''''\<rparr>]"
  "dispatches (send_done err reason sm) = dispatches sm"
  "dispatches (stateTransition s sm) = dispatches sm" "dispatches (recordStopReason e r sm) = dispatches sm"
  "dispatches (sm\<lparr>hedgePending := b\<rparr>) = dispatches sm" "dispatches (sm\<lparr>sm_policy := p\<rparr>) = dispatches sm"
  "dispatches (sm\<lparr>validators := v\<rparr>) = dispatches sm" "dispatches (sm\<lparr>pairingEmptyWarned := b\<rparr>) = dispatches sm"
  "dispatches (sm\<lparr>hedgeCount := n'\<rparr>) = dispatches sm" "dispatches (sm\<lparr>returnCondition := rc\<rparr>) = dispatches sm"
  "dispatches (sm\<lparr>stopReason := r'\<rparr>) = dispatches sm" "dispatches (sm\<lparr>pendingStopReason := r'\<rparr>) = dispatches sm"
  by (simp_all add: dispatches_def send_relay_def send_done_def stateTransition_def)

lemma settle_fields:
  "settleStopReason sm = (r, sm') \<Longrightarrow> dispatches sm' = dispatches sm \<and> relayState sm' = relayState sm
     \<and> sm_selection sm' = sm_selection sm \<and> hedgePending sm' = hedgePending sm \<and> hedgeCount sm' = hedgeCount sm
     \<and> sm_params sm' = sm_params sm \<and> out sm' = out sm"
  by (auto simp: settleStopReason_def setStopReason_def Let_def dispatches_def split: if_splits)

lemma sends_selection [simp]:
  "sm_selection (send_relay n sm) = sm_selection sm" "sm_selection (send_done err reason sm) = sm_selection sm"
  "relayState (send_relay n sm) = relayState sm" "relayState (send_done err reason sm) = relayState sm"
  "hedgePending (send_relay n sm) = hedgePending sm" "hedgePending (send_done err reason sm) = hedgePending sm"
  "hedgeCount (send_relay n sm) = hedgeCount sm" "hedgeCount (send_done err reason sm) = hedgeCount sm"
  by (simp_all add: send_relay_def send_done_def)

lemmas arm_defs = on_event_def on_batch_update_def on_results_def on_tick_def on_return_def on_ctx_done_def
  checkAndHandleTimeout_def Let_def

lemma validate_fields:
  "dispatches (validateReturnCondition e v sm) = dispatches sm" "relayState (validateReturnCondition e v sm) = relayState sm"
  "sm_selection (validateReturnCondition e v sm) = sm_selection sm"
  "hedgePending (validateReturnCondition e v sm) = hedgePending sm" "hedgeCount (validateReturnCondition e v sm) = hedgeCount sm"
  "out (validateReturnCondition e v sm) = out sm" "finished (validateReturnCondition e v sm) = finished sm"
  by (simp_all add: validateReturnCondition_def signalReturnCondition_def Let_def dispatches_def split: option.split)

text \<open>
  What one turn of the loop can do to the machine: end the request in one of its ways, file or hold back
  a reason, start a waiting goroutine once there is one, or dispatch, each dispatch with the decision
  behind it.
\<close>

definition given_reason :: "('p \<Rightarrow> decision_input \<Rightarrow> decision_output) \<Rightarrow> string \<Rightarrow> bool" where
  "given_reason decide r \<longleftrightarrow> r \<in> {''AllProvidersExhausted'', ''PinnedProviderUnavailable'', ''FirstMessageFailed'', ''BatchSendFailed''}
     \<or> (\<exists>p i. r = Reason (decide p i))"

definition ending :: "'p state_machine \<Rightarrow> go_error option \<Rightarrow> string \<Rightarrow> 'p state_machine \<Rightarrow> bool" where
  "ending sm err r sm' \<longleftrightarrow> (err = None \<and> r = ''Success'')
     \<or> (\<exists>er. err = Some er \<and> r = endOfRoadReason er sm')
     \<or> (err = Some (ErrSentinel ErrCrossValidationGroupsQuiet) \<and> r = StopReasonCrossValidationGroupsQuiet)
     \<or> (returnCondition sm = Some err \<and> r = stopReason sm' \<and> (pendingStopReason sm' \<noteq> '''' \<longrightarrow> stopReason sm' \<noteq> ''''))"

definition files_reason :: "('p \<Rightarrow> decision_input \<Rightarrow> decision_output) \<Rightarrow> env \<Rightarrow> 'p state_machine \<Rightarrow> string \<Rightarrow> bool" where
  "files_reason decide e sm r \<longleftrightarrow> (given_reason decide r \<and> env_CurrentlyUsed e = 0)
     \<or> (r = pendingStopReason sm \<and> r \<noteq> '''' \<and> returnCondition sm \<noteq> None)"

definition has_reason :: "('p \<Rightarrow> decision_input \<Rightarrow> decision_output) \<Rightarrow> 'p state_machine \<Rightarrow> bool" where
  "has_reason decide sm \<longleftrightarrow> given_reason decide (stopReason sm) \<or> given_reason decide (pendingStopReason sm)"

lemma record_has_reason:
  "given_reason decide r \<Longrightarrow> has_reason decide (recordStopReason e r sm)"
  by (simp add: has_reason_def recordStopReason_def setStopReason_def)

lemma has_reason_fields [simp]:
  "has_reason decide (sm\<lparr>pairingEmptyWarned := b\<rparr>) = has_reason decide sm"
  "has_reason decide (sm\<lparr>hedgePending := b\<rparr>) = has_reason decide sm"
  by (simp_all add: has_reason_def)

lemma settle_ending:
  assumes "settleStopReason sm = (r, sm')" "returnCondition sm = Some err" shows "ending sm err r sm'"
  using assms by (auto simp: settleStopReason_def setStopReason_def Let_def ending_def split: if_splits)

lemma event_preserves:
  assumes "P sm"
    and ends: "\<And>sm' err r. P sm' \<Longrightarrow> ending sm err r sm' \<Longrightarrow> P (send_done err r sm')"
    and books: "\<And>sm p. P sm \<Longrightarrow> P (sm\<lparr>sm_policy := p\<rparr>)" "\<And>sm b. P sm \<Longrightarrow> P (sm\<lparr>pairingEmptyWarned := b\<rparr>)"
      "\<And>sm. P sm \<Longrightarrow> P (sm\<lparr>hedgePending := False\<rparr>)"
    and reason: "\<And>sm' r. P sm' \<Longrightarrow> files_reason decide e sm r \<Longrightarrow> P (sm'\<lparr>stopReason := r\<rparr>)"
    and held: "\<And>sm' r. P sm' \<Longrightarrow> given_reason decide r \<Longrightarrow> P (sm'\<lparr>pendingStopReason := r\<rparr>)"
    and waits: "\<And>sm' v. P sm' \<Longrightarrow> has_reason decide sm' \<Longrightarrow> P (sm'\<lparr>validators := v\<rparr>)"
    and fired: "\<And>sm. P sm \<Longrightarrow> hedgePending sm \<Longrightarrow> P (sm\<lparr>hedgePending := False, hedgeCount := hedgeCount sm + 1\<rparr>)"
    and resend: "\<And>sm' b err. P sm' \<Longrightarrow> snd (on_send (sm_policy sm) err b (sm_selection sm)) = SendRetry \<Longrightarrow> P (send_relay 1 sm')"
    and retry: "\<And>sm'. P sm' \<Longrightarrow> Action (decide (sm_policy sm) (buildDecisionInput req e False sm)) = ActionRetry \<Longrightarrow>
        P (send_relay 1 (stateTransition (getLatestState sm') sm'))"
    and hedge: "\<And>sm'. P sm' \<Longrightarrow> Action (decide (sm_policy sm) (buildDecisionInput req e True sm)) = ActionRetry \<Longrightarrow>
        P ((send_relay 1 (stateTransition (getLatestState sm') sm'))\<lparr>hedgePending := True\<rparr>)"
  shows "P (on_event decide on_send be c req e ev sm)"
proof -
  have rec_ok: "P sm' \<Longrightarrow> given_reason decide r \<Longrightarrow> P (recordStopReason e r sm')" for sm' r
    using reason held by (simp add: recordStopReason_def setStopReason_def files_reason_def)
  have waits_ok: "P (sm'\<lparr>hedgePending := False, validators := v\<rparr>)" if "P sm'" "has_reason decide sm'" for sm' v
    using waits [of "sm'\<lparr>hedgePending := False\<rparr>" v] books(3) [OF that(1)] that(2) by simp
  have stop_ok: "P ((recordStopReason e r sm')\<lparr>hedgePending := False, validators := v\<rparr>)"
    if "P sm'" "given_reason decide r" for sm' r v
    using waits_ok [OF rec_ok [OF that] record_has_reason [OF that(2)]] .
  have warn_ok: "P ((recordStopReason e r sm')\<lparr>pairingEmptyWarned := True, hedgePending := False, validators := v\<rparr>)"
    if "P sm'" "given_reason decide r" for sm' r v
    using waits_ok [OF books(2) [OF rec_ok [OF that]], of True v] record_has_reason [OF that(2)] by simp
  have road: "P sm' \<Longrightarrow> checkAndHandleTimeout ce sm' = Some sm'' \<Longrightarrow> P sm''" for ce sm' sm''
    using ends by (auto simp: checkAndHandleTimeout_def ending_def split: option.splits)
  have batch: "P (on_batch_update on_send be c e err sm)" for err
  proof -
    obtain pol res where os: "on_send (sm_policy sm) err (errors_is_opt err PairingListEmptyError) (sm_selection sm) = (pol, res)"
      by force
    have sm: "P (sm\<lparr>sm_policy := pol\<rparr>)" using books(1) assms(1) .
    show ?thesis
    proof (cases res)
      case SendSuccess
      with os sm fired [OF sm] show ?thesis by (simp add: on_batch_update_def Let_def)
    next
      case SendRetry
      with os have "P (send_relay 1 (sm\<lparr>sm_policy := pol\<rparr>))"
        using resend [OF sm, of err "errors_is_opt err PairingListEmptyError"] by simp
      with os SendRetry road [OF sm] show ?thesis by (simp add: on_batch_update_def Let_def split: option.split)
    next
      case SendStop
      with os stop_ok [OF sm] warn_ok [OF sm] show ?thesis
        by (simp add: on_batch_update_def Let_def given_reason_def)
    qed
  qed
  have results: "P (on_results decide c req e success sm)" for success
  proof -
    let ?r = "Reason (decide (sm_policy sm) (buildDecisionInput req e False sm))"
    have "given_reason decide ?r" by (auto simp: given_reason_def)
    from rec_ok [OF assms(1) this] waits record_has_reason [OF this]
    have "P ((recordStopReason e ?r sm)\<lparr>validators := v\<rparr>)" for v by blast
    moreover have "P (send_done None ''Success'' sm)" using ends assms(1) by (simp add: ending_def)
    ultimately show ?thesis
      using road [OF assms(1)] retry [OF books(3) [OF assms(1)]]
      by (simp add: on_results_def Let_def split: option.split)
  qed
  have tick: "P (on_tick decide c req e sm)"
  proof -
    have "P (send_done (Some (ErrSentinel ErrCrossValidationGroupsQuiet)) StopReasonCrossValidationGroupsQuiet sm)"
      using ends assms(1) by (simp add: ending_def)
    then show ?thesis using assms(1) road [OF assms(1)] hedge [OF assms(1)]
      by (simp add: on_tick_def Let_def split: option.split)
  qed
  have ret_ok: "P (on_return err sm)" if "returnCondition sm = Some err" for err
  proof -
    have "P (snd (settleStopReason sm))"
      using assms(1) that reason [OF assms(1)] by (simp add: settleStopReason_def setStopReason_def Let_def files_reason_def)
    moreover obtain r sm' where st: "settleStopReason sm = (r, sm')" by force
    ultimately show ?thesis using ends [OF _ settle_ending [OF st that]] by (simp add: on_return_def)
  qed
  have ctx_ok: "P (on_ctx_done err sm)" for err
    using ends assms(1) by (auto simp: on_ctx_done_def ending_def)
  show ?thesis
    using assms(1) road [OF assms(1)] batch results tick ret_ok ctx_ok
    by (simp add: on_event_def split: option.split event.split)
qed

lemma event_selection: "sm_selection (on_event decide on_send be c req e ev sm) = sm_selection sm"
  by (rule event_preserves [where P = "\<lambda>sm'. sm_selection sm' = sm_selection sm"]) simp_all

lemma run_selection: "sm_run decide on_send be c req es sm0 sm \<Longrightarrow> sm_selection sm = sm_selection sm0"
  by (induction rule: sm_run.induct) (simp_all add: start_def Let_def event_selection validate_fields)

context relay_policy
begin

lemma cv_event_dispatches:
  assumes "sm_selection sm = CrossValidation"
  shows "dispatches (on_event decide on_send be c req e ev sm) = dispatches sm"
proof -
  have stop: "Action (decide p (buildDecisionInput req e b sm)) \<noteq> ActionRetry" for p b
    using cv_stops [of "buildDecisionInput req e b sm" p] assms by (simp add: buildDecisionInput_def)
  have send: "snd (on_send p err b CrossValidation) \<noteq> SendRetry" for p err b
    using cv_send_stops [of p _ b] success_iff [of p None b CrossValidation] by (cases err) auto
  show ?thesis
    by (rule event_preserves [where P = "\<lambda>sm'. dispatches sm' = dispatches sm"]) (simp_all add: stop send assms)
qed

lemma pinned_event_states:
  assumes "PinnedByDirectives (req_DirectiveHeaders req)"
  shows "relayState (on_event decide on_send be c req e ev sm) = relayState sm"
proof -
  have stop: "Action (decide p (buildDecisionInput req e b sm)) \<noteq> ActionRetry" for p b
    using pinned_stops [of "buildDecisionInput req e b sm" p] assms by (simp add: buildDecisionInput_def)
  show ?thesis
    by (rule event_preserves [where P = "\<lambda>sm'. relayState sm' = relayState sm"]) (simp_all add: stop)
qed

lemma write_event_hedge:
  assumes "sm_selection sm = Stateful" "\<not> hedgePending sm"
  shows "\<not> hedgePending (on_event decide on_send be c req e ev sm)
    \<and> hedgeCount (on_event decide on_send be c req e ev sm) = hedgeCount sm"
proof -
  have stop: "Action (decide p (buildDecisionInput req e True sm)) \<noteq> ActionRetry" for p
    using write_hedge_stops [of "buildDecisionInput req e True sm" p] assms(1) by (simp add: buildDecisionInput_def)
  show ?thesis
    by (rule event_preserves [where P = "\<lambda>sm'. \<not> hedgePending sm' \<and> hedgeCount sm' = hedgeCount sm"])
       (simp_all add: stop assms)
qed

lemma cv_run_dispatches:
  "sm_run decide on_send be c req es sm0 sm \<Longrightarrow> sm_selection sm0 = CrossValidation \<Longrightarrow>
     dispatches sm = dispatches (start sm0)"
  by (induction rule: sm_run.induct) (auto simp: cv_event_dispatches validate_fields dest: run_selection)

lemma pinned_run_states:
  "sm_run decide on_send be c req es sm0 sm \<Longrightarrow> PinnedByDirectives (req_DirectiveHeaders req) \<Longrightarrow>
     relayState sm = relayState (start sm0)"
  by (induction rule: sm_run.induct) (auto simp: pinned_event_states validate_fields)

lemma write_run_hedges:
  "sm_run decide on_send be c req es sm0 sm \<Longrightarrow> sm_selection sm0 = Stateful \<Longrightarrow> fresh_machine sm0 \<Longrightarrow>
     \<not> hedgePending sm \<and> hedgeCount sm = 0"
proof (induction rule: sm_run.induct)
  case (started sm)
  then show ?case by (simp add: start_def Let_def fresh_machine_def)
next
  case (event es sm0 sm e ev)
  with write_event_hedge [of sm be c req e ev] show ?case by (auto dest: run_selection)
next
  case (wake es sm0 sm v e)
  then show ?case by (simp add: validate_fields)
qed

end

end
