(* ===== verification/QuorumFlow.thy ===== *)
theory QuorumFlow
  imports Quorum "HOL-Library.Multiset"
begin

text \<open>
  What the cross-validation tally promises while a request runs: the running tally agrees with the
  final evaluation, so an early exit is never taken back; the attempt-window stop gives up nothing a
  staffed group could still complete; every provider that was still pending at the reply is reported
  once.
\<close>

section \<open>The running tally\<close>

text \<open>A response as it comes from the wire: no hash cached yet.\<close>

definition fresh_response :: "RelayResponse \<Rightarrow> bool" where
  "fresh_response resp \<longleftrightarrow> ResponseHash (Resp_RelayResult resp) = 0"

definition stat_of :: "string list \<Rightarrow> quorumStat option" where
  "stat_of gs = (if gs = [] then None
     else Some \<lparr>qs_count = int (length gs), qs_groupCounts = group_tally gs\<rparr>)"

definition rp_groups :: "(string \<Rightarrow> hash) \<Rightarrow> RelayProcessor \<Rightarrow> hash \<Rightarrow> string list" where
  "rp_groups H rp h = groups_for H h (successResults (rp_results rp))"

definition tally_inv :: "(string \<Rightarrow> hash) \<Rightarrow> RelayProcessor \<Rightarrow> bool" where
  "tally_inv H rp \<longleftrightarrow> wf_map (quorumMap rp)
     \<and> (\<forall>h. h \<noteq> 0 \<longrightarrow> mget (quorumMap rp) h = stat_of (rp_groups H rp h))"

definition bump_stat :: "RelayResult \<Rightarrow> (hash, quorumStat) gomap \<Rightarrow> (hash, quorumStat) gomap" where
  "bump_stat r m =
    (let stat = (case mget m (ResponseHash r) of Some stat \<Rightarrow> stat | None \<Rightarrow> \<lparr>qs_count = 0, qs_groupCounts = []\<rparr>)
     in mput (ResponseHash r) \<lparr>qs_count = qs_count stat + 1,
          qs_groupCounts = bump (quorumGroupOf r) 1 (qs_groupCounts stat)\<rparr> m)"

lemma record_quorumMap:
  "quorumMap (recordCrossValidationResponse resp counts rp)
     = (if counts then bump_stat (Resp_RelayResult resp) (quorumMap rp) else quorumMap rp)"
  by (simp add: recordCrossValidationResponse_def bump_stat_def Let_def)

lemma record_fields [simp]:
  "rp_results (recordCrossValidationResponse resp counts rp) = rp_results rp"
  "rp_selection (recordCrossValidationResponse resp counts rp) = rp_selection rp"
  "rp_params (recordCrossValidationResponse resp counts rp) = rp_params rp"
  by (simp_all add: recordCrossValidationResponse_def Let_def)

lemma handle_fields [simp]:
  "rp_selection (handleResponse H classify pm resp rp) = rp_selection rp"
  "rp_params (handleResponse H classify pm resp rp) = rp_params rp"
  by (simp_all add: handleResponse_def Let_def split: prod.split option.split)

definition as_stored :: "protocol_message \<Rightarrow> RelayResult \<Rightarrow> RelayResult" where
  "as_stored pm r = (if RequestedBlock pm = LATEST_BLOCK then r\<lparr>Finalized := False\<rparr> else r)"

lemma as_stored_fields [simp]:
  "ResponseHash (as_stored pm r) = ResponseHash r" "RR_Reply (as_stored pm r) = RR_Reply r"
  "quorumGroupOf (as_stored pm r) = quorumGroupOf r" "StatusCode (as_stored pm r) = StatusCode r"
  by (simp_all add: as_stored_def quorumGroupOf_def)

lemma setValid_cases:
  obtains (nil) "RR_Reply (Resp_RelayResult resp) = None" "setValidResponse pm resp rm = (None, rm)"
    | (node) e errs where "setValidResponse pm resp rm = (Some e, rm\<lparr>nodeResponseErrors := errs\<rparr>)"
    | (ok) "RR_Reply (Resp_RelayResult resp) \<noteq> None"
        "setValidResponse pm resp rm = (None, rm\<lparr>successResults := successResults rm @ [as_stored pm (Resp_RelayResult resp)]\<rparr>)"
proof (cases "RR_Reply (Resp_RelayResult resp)")
  case None
  then show ?thesis by (intro nil) (simp_all add: setValidResponse_def Let_def)
next
  case (Some reply)
  obtain b m where "CheckResponseError pm (Data reply) (StatusCode (Resp_RelayResult resp)) = (b, m)" by force
  then show ?thesis
    using Some node ok
    by (cases "IsSubscribe pm"; cases b)
       (simp_all add: setValidResponse_def as_stored_def [symmetric] Let_def)
qed

text \<open>What filing a fresh response does to the tally and to the successes.\<close>

lemma handle_cases:
  assumes "rp_selection rp = CrossValidation" "fresh_response resp"
    and rp'_def: "rp' = handleResponse H classify pm (Some resp) rp"
  obtains (skip) "quorumMap rp' = quorumMap rp" "successResults (rp_results rp') = successResults (rp_results rp)"
    | (empty) r where "quorumMap rp' = bump_stat r (quorumMap rp)" "ResponseHash r = 0"
        "successResults (rp_results rp') = successResults (rp_results rp)"
    | (success) r where "quorumMap rp' = bump_stat r (quorumMap rp)" "result_hash H r = ResponseHash r"
        "\<not> has_data r \<Longrightarrow> ResponseHash r = 0" "quorumGroupOf r = quorumGroupOf (Resp_RelayResult resp)"
        "successResults (rp_results rp') = successResults (rp_results rp) @ [r]"
proof -
  let ?resp = "cache_hash H rp resp"
  let ?r = "Resp_RelayResult ?resp"
  have reply: "RR_Reply ?r = RR_Reply (Resp_RelayResult resp)" "RR_ProviderInfo ?r = RR_ProviderInfo (Resp_RelayResult resp)"
    "Resp_Err ?resp = Resp_Err resp"
    by (simp_all add: cache_hash_def split: option.split)
  have hash: "ResponseHash ?r = (case RR_Reply ?r of Some reply \<Rightarrow> responseContentHash H (Data reply) | None \<Rightarrow> 0)"
    using assms(1,2) unfolding reply(1)
    by (auto simp: cache_hash_def fresh_response_def responseContentHash_def split: option.split)
  have rp': "rp' = (case rm_SetResponse classify pm (Some ?resp) (rp_results rp) of (nodeError, rm) \<Rightarrow>
      recordCrossValidationResponse ?resp (nodeError = None \<and> Resp_Err ?resp = None) (rp\<lparr>rp_results := rm\<rparr>))"
    using assms(1) by (simp add: rp'_def handleResponse_def Let_def split: prod.split)
  show ?thesis
  proof (cases "Resp_Err resp")
    case (Some e)
    then show ?thesis using reply(3)
      by (intro skip) (simp_all add: rp' rm_SetResponse_def record_quorumMap setErrorResponse_def)
  next
    case None
    note simps = rp' rm_SetResponse_def record_quorumMap None reply(3)
    show ?thesis
    proof (cases rule: setValid_cases [of ?resp pm "rp_results rp"])
      case nil
      then show ?thesis using hash by (intro empty [of ?r]) (simp_all add: simps)
    next
      case (node e errs)
      then show ?thesis by (intro skip) (simp_all add: simps)
    next
      case ok
      let ?fin = "as_stored pm ?r"
      have "result_hash H ?fin = ResponseHash ?fin" "\<not> has_data ?fin \<longrightarrow> ResponseHash ?fin = 0"
        using hash ok(1) by (auto simp: result_hash_def has_data_def responseContentHash_def split: option.splits)
      moreover have "bump_stat ?r = bump_stat ?fin" by (simp add: bump_stat_def fun_eq_iff)
      moreover have "quorumGroupOf ?fin = quorumGroupOf (Resp_RelayResult resp)" using reply(2) by (simp add: quorumGroupOf_def as_stored_def)
      ultimately show ?thesis using ok by (intro success [of ?fin]) (simp_all add: simps)
    qed
  qed
qed

lemma stat_of_snoc:
  "stat_of (gs @ [g]) =
    (let stat = (case stat_of gs of Some stat \<Rightarrow> stat | None \<Rightarrow> \<lparr>qs_count = 0, qs_groupCounts = []\<rparr>)
     in Some \<lparr>qs_count = qs_count stat + 1, qs_groupCounts = bump g 1 (qs_groupCounts stat)\<rparr>)"
  by (simp add: stat_of_def Let_def)

lemma bump_stat_get:
  "mget (bump_stat r m) h = (if h = ResponseHash r
     then (let stat = (case mget m h of Some stat \<Rightarrow> stat | None \<Rightarrow> \<lparr>qs_count = 0, qs_groupCounts = []\<rparr>)
           in Some \<lparr>qs_count = qs_count stat + 1, qs_groupCounts = bump (quorumGroupOf r) 1 (qs_groupCounts stat)\<rparr>)
     else mget m h)"
  by (simp add: bump_stat_def Let_def)

lemma bump_stat_wf: "wf_map m \<Longrightarrow> wf_map (bump_stat r m)"
  by (simp add: bump_stat_def Let_def)

lemma groups_for_snoc:
  "groups_for H h (rs @ [r]) =
     (if has_data r \<and> result_hash H r = h then groups_for H h rs @ [quorumGroupOf r] else groups_for H h rs)"
  by (simp add: groups_for_def agreeing_def)

lemma handle_tally_inv:
  assumes "rp_selection rp = CrossValidation" "fresh_response resp" "tally_inv H rp"
  shows "tally_inv H (handleResponse H classify pm (Some resp) rp)"
  using assms(1,2) refl
proof (cases rule: handle_cases [where H = H and classify = classify and pm = pm])
  case skip
  then show ?thesis using assms(3) by (simp add: tally_inv_def rp_groups_def)
next
  case (empty r)
  then show ?thesis using assms(3) by (auto simp: tally_inv_def rp_groups_def bump_stat_wf bump_stat_get)
next
  case (success r)
  then show ?thesis using assms(3)
    by (auto simp: tally_inv_def rp_groups_def bump_stat_wf bump_stat_get groups_for_snoc stat_of_snoc)
qed

lemma run_tally_inv:
  assumes "rp_selection rp = CrossValidation" "tally_inv H rp" "\<forall>r\<in>set rs. fresh_response r"
  shows "tally_inv H (readExistingResponses H classify pm (map Some rs) rp)"
  using assms by (induction rs arbitrary: rp) (simp_all add: handle_tally_inv)

lemma run_fields [simp]:
  "rp_selection (readExistingResponses H classify pm rs rp) = rp_selection rp"
  "rp_params (readExistingResponses H classify pm rs rp) = rp_params rp"
  by (induction rs arbitrary: rp) simp_all

lemma new_processor:
  assumes "NewRelayProcessor params sel = Some rp"
  shows "rp_params rp = params" "rp_selection rp = sel" "tally_inv H rp"
    "sel = CrossValidation \<Longrightarrow> 1 \<le> getAgreementThreshold rp" "successResults (rp_results rp) = []"
  using assms
  by (auto simp: NewRelayProcessor_def tally_inv_def stat_of_def rp_groups_def groups_for_def agreeing_def
      NewResultsManager_def getAgreementThreshold_def split: if_splits option.splits)

lemma params_fields:
  assumes "rp_params rp' = rp_params rp"
  shows "perGroupQuorum rp' = perGroupQuorum rp" "getMinGroups rp' = getMinGroups rp"
    "getAgreementThreshold rp' = getAgreementThreshold rp"
  using assms by (simp_all add: perGroupQuorum_def getMinGroups_def getAgreementThreshold_def)

text \<open>The early exit, on the successes recorded so far.\<close>

lemma reached_iff:
  assumes "tally_inv H rp"
  shows "crossValidationQuorumReached rp \<longleftrightarrow> (\<exists>h. h \<noteq> 0 \<and>
    quorum_rule (perGroupQuorum rp) (getAgreementThreshold rp) (getMinGroups rp) (rp_groups H rp h))"
proof -
  have wf: "wf_map (quorumMap rp)" using assms by (simp add: tally_inv_def)
  have entry: "(h, st) \<in> set (quorumMap rp) \<longleftrightarrow> rp_groups H rp h \<noteq> []
      \<and> st = \<lparr>qs_count = int (length (rp_groups H rp h)), qs_groupCounts = group_tally (rp_groups H rp h)\<rparr>"
    if "h \<noteq> 0" for h st
    using assms that by (auto simp: wf_map_in_iff [OF wf] tally_inv_def stat_of_def split: if_splits)
  have "crossValidationQuorumReached rp \<longleftrightarrow> (\<exists>h st. (h, st) \<in> set (quorumMap rp) \<and> h \<noteq> 0
      \<and> hashQuorumReached rp (qs_count st) (qs_groupCounts st) (getAgreementThreshold rp) (getMinGroups rp))"
    unfolding crossValidationQuorumReached_def list_ex_iff by (metis fst_conv prod.collapse snd_conv)
  also have "\<dots> \<longleftrightarrow> (\<exists>h. h \<noteq> 0 \<and> rp_groups H rp h \<noteq> [] \<and>
    quorum_rule (perGroupQuorum rp) (getAgreementThreshold rp) (getMinGroups rp) (rp_groups H rp h))"
    (is "?l \<longleftrightarrow> ?r")
  proof
    assume ?l
    then show ?r using entry by (auto simp: hashQuorumReached_rule)
  next
    assume ?r
    then obtain h where h: "h \<noteq> 0" "rp_groups H rp h \<noteq> []"
      "quorum_rule (perGroupQuorum rp) (getAgreementThreshold rp) (getMinGroups rp) (rp_groups H rp h)" by blast
    then show ?l
      by (intro exI [of _ h] exI [of _ "\<lparr>qs_count = int (length (rp_groups H rp h)),
        qs_groupCounts = group_tally (rp_groups H rp h)\<rparr>"]) (simp add: entry hashQuorumReached_rule)
  qed
  finally show ?thesis using quorum_rule_nonempty [OF _ getMinGroups_pos] by blast
qed

lemma reached_answers:
  assumes "NewRelayProcessor (Some params) CrossValidation = Some rp" and "\<forall>r\<in>set rs. fresh_response r"
    and "visits_all iter"
    and "crossValidationQuorumReached (readExistingResponses H classify pm (map Some rs) rp)"
  shows "(\<exists>r. processCrossValidationResult H iter (readExistingResponses H classify pm (map Some rs) rp) = Answer r
      \<and> has_data r)
    \<and> fst (HasRequiredNodeResults (readExistingResponses H classify pm (map Some rs) rp))
    \<and> checkEndProcessing n batch (readExistingResponses H classify pm (map Some rs) rp)"
proof -
  define rp' where "rp' = readExistingResponses H classify pm (map Some rs) rp"
  note new = new_processor [OF assms(1)]
  have sel: "rp_selection rp' = CrossValidation" and params: "rp_params rp' = Some params"
    using new by (simp_all add: rp'_def)
  have inv: "tally_inv H rp'" unfolding rp'_def using new assms(2) by (intro run_tally_inv) simp_all
  let ?t = "getAgreementThreshold rp'" and ?res = "successResults (rp_results rp')"
  have t: "1 \<le> ?t" using new(4) params new(1) by (simp add: getAgreementThreshold_def)
  obtain h where h: "quorum_rule (perGroupQuorum rp') ?t (getMinGroups rp') (groups_for H h ?res)"
    using assms(4) reached_iff [OF inv] by (auto simp: rp'_def rp_groups_def)
  have "?t \<le> int (length (groups_for H h ?res))"
  proof (cases "perGroupQuorum rp'")
    case True
    with h getMinGroups_pos [of rp'] have "{g \<in> set (groups_for H h ?res). ?t \<le> int (count_list (groups_for H h ?res) g)} \<noteq> {}"
      by (auto simp: quorum_rule_def simp del: Collect_empty_eq)
    then obtain g where "?t \<le> int (count_list (groups_for H h ?res) g)" by blast
    then show ?thesis using count_le_length [of "groups_for H h ?res" g] by linarith
  qed (use h in \<open>simp add: quorum_rule_def\<close>)
  also have "\<dots> \<le> int (length ?res)" by (simp add: groups_for_def agreeing_def)
  finally have enough: "?t \<le> int (length ?res)" .
  obtain r where r: "responsesCrossValidation H iter rp' ?res ?t = Inr r" "has_data r"
    using consensus_with_content [OF assms(3), of ?t rp' H ?res] h t by fastforce
  from r have "\<exists>r. processCrossValidationResult H iter rp' = Answer r \<and> has_data r"
    using r enough by (simp add: processCrossValidationResult_def Let_def)
  moreover have "fst (HasRequiredNodeResults rp')" "checkEndProcessing n batch rp'"
    using sel assms(4) by (simp_all add: HasRequiredNodeResults_def checkEndProcessing_def rp'_def [symmetric] split: prod.split)
  ultimately show ?thesis by (simp add: rp'_def)
qed

text \<open>
  C6. The early exit is never taken back: if the running tally says a quorum is reached after any sequence
  of responses, then the final evaluation over the same responses returns an answer with content,
  whatever order Go visits its maps in, and the state machine and the reader agree that the request has
  what it needs.
\<close>

theorem early_exit_is_final:
  assumes "NewRelayProcessor (Some params) CrossValidation = Some rp" and "\<forall>r\<in>set rs. fresh_response r"
    and "visits_all iter"
    and "crossValidationQuorumReached (readExistingResponses H classify pm (map Some rs) rp)"
  shows "(\<exists>r. processCrossValidationResult H iter (readExistingResponses H classify pm (map Some rs) rp) = Answer r
      \<and> has_data r)
    \<and> fst (HasRequiredNodeResults (readExistingResponses H classify pm (map Some rs) rp))
    \<and> checkEndProcessing n batch (readExistingResponses H classify pm (map Some rs) rp)"
  by (rule reached_answers [OF assms])

definition sample_responses :: "RelayResponse list" where
  "sample_responses = map (\<lambda>r. \<lparr>Resp_RelayResult = r, Resp_Err = None\<rparr>) sample_results"

definition sample_message :: protocol_message where
  "sample_message = \<lparr>RequestedBlock = 5, IsSubscribe = False, CheckResponseError = (\<lambda>_ _. (False, '''')),
     IsJsonRPC = True, ExtractJSONRPCErrorCode = (\<lambda>_. 0), ClassificationStatus = None,
     ClassifyNodeError = (\<lambda>c m. LavaErrorUnknown)\<rparr>"

definition sample_run :: RelayProcessor where
  "sample_run = readExistingResponses sample_hash (\<lambda>_. LavaErrorUnknown)
     sample_message (map Some sample_responses) sample_rp"

lemma sample_rp_new: "NewRelayProcessor (Some sample_params) CrossValidation = Some sample_rp"
  by (simp add: sample_rp_def NewRelayProcessor_def sample_params_def)

lemma sample_fresh: "\<forall>r\<in>set sample_responses. fresh_response r"
  by (simp add: sample_responses_def sample_results_def sample_result_def empty_result_def fresh_response_def)

lemma sample_run_groups: "rp_groups sample_hash sample_run 1 = [''a'', ''b'']"
  by (simp add: sample_run_def sample_responses_def sample_results_def sample_result_def sample_message_def
      handleResponse_def cache_hash_def rm_SetResponse_def setValidResponse_def Let_def sample_rp_def
      NewRelayProcessor_def sample_params_def empty_result_def responseContentHash_def sample_hash_def
      block_tags NewResultsManager_def rp_groups_def groups_for_def agreeing_def has_data_def result_hash_def
      quorumGroupOf_def fold_group_def recordCrossValidationResponse_def)

lemma sample_run_reached: "crossValidationQuorumReached sample_run"
proof -
  have inv: "tally_inv sample_hash sample_run"
    unfolding sample_run_def using new_processor [OF sample_rp_new] sample_fresh by (intro run_tally_inv) simp_all
  have "rp_params sample_run = rp_params sample_rp" by (simp add: sample_run_def)
  note params = params_fields [OF this]
  show ?thesis
    unfolding reached_iff [OF inv]
    by (intro exI [of _ 1]) (simp add: sample_run_groups params sample_rp_params quorum_rule_def)
qed

theorem early_exit_is_final_witness:
  "\<exists>r. processCrossValidationResult sample_hash rev sample_run = Answer r \<and> has_data r"
  using early_exit_is_final [OF sample_rp_new sample_fresh, of rev sample_hash
      "\<lambda>_. LavaErrorUnknown" sample_message]
    sample_run_reached
  by (simp add: visits_all_def sample_run_def)

section \<open>The attempt window\<close>

text \<open>The groups of the providers in flight outside under-staffed groups.\<close>

definition in_flight_groups :: "(string, string) gomap \<Rightarrow> string list \<Rightarrow> string list \<Rightarrow> string list \<Rightarrow> string list" where
  "in_flight_groups groups understaffed answered queried =
     map (\<lambda>p. the (mget groups p))
       (filter (\<lambda>p. p \<notin> set answered \<and> the (mget groups p) \<notin> set understaffed) queried)"

lemma quorum_rule_mono:
  assumes "mset gs \<subseteq># mset gs'" "quorum_rule pg t mg gs"
  shows "quorum_rule pg t mg gs'"
proof -
  have sub: "set gs \<subseteq> set gs'" using set_mset_mono [OF assms(1)] by simp
  have count: "count_list gs g \<le> count_list gs' g" for g
    using mset_subset_eq_count [OF assms(1), of g] by (simp add: count_mset count_list_eq_length_filter)
  have "{g \<in> set gs. t \<le> int (count_list gs g)} \<subseteq> {g \<in> set gs'. t \<le> int (count_list gs' g)}"
    using sub count order_trans by (fastforce intro: order_trans [of t])
  then have "card {g \<in> set gs. t \<le> int (count_list gs g)} \<le> card {g \<in> set gs'. t \<le> int (count_list gs' g)}"
    by (intro card_mono) simp_all
  moreover have "card (set gs) \<le> card (set gs')" using sub by (intro card_mono) simp_all
  moreover have "length gs \<le> length gs'" using size_mset_mono [OF assms(1)] by simp
  ultimately show ?thesis using assms(2) by (auto simp: quorum_rule_def split: if_splits)
qed

lemma in_flight_loop_spec:
  "in_flight_loop groups us ans ps n m = Some (n', m') \<Longrightarrow>
     n' = n + int (length (in_flight_groups groups us ans ps))
     \<and> m' = fold (\<lambda>g. bump g 1) (in_flight_groups groups us ans ps) m
     \<and> (\<forall>p\<in>set ps. p \<notin> set ans \<longrightarrow> mget groups p \<noteq> None)"
proof (induction ps arbitrary: n m)
  case (Cons p ps)
  show ?case
  proof (cases "p \<in> set ans")
    case True
    with Cons.IH [of n m] Cons.prems show ?thesis by (simp add: in_flight_groups_def)
  next
    case False
    with Cons.prems obtain g where g: "mget groups p = Some g" by (auto split: option.splits)
    show ?thesis
    proof (cases "g \<in> set us")
      case True
      with False g Cons.IH [of n m] Cons.prems show ?thesis by (simp add: in_flight_groups_def)
    next
      case notin: False
      with False g Cons.prems have "in_flight_loop groups us ans ps (n + 1) (bump g 1 m) = Some (n', m')" by simp
      from Cons.IH [OF this] False g notin show ?thesis by (simp add: in_flight_groups_def)
    qed
  qed
qed (simp add: in_flight_groups_def)

text \<open>Adding a tally to a tally counts both lists.\<close>

lemma fold_bump_wf: "wf_map m \<Longrightarrow> wf_map (fold (\<lambda>(g, n). bump g n) kvs m)"
  by (induction kvs arbitrary: m) auto

lemma fold_bump_get:
  "wf_map kvs \<Longrightarrow> mget (fold (\<lambda>(g, n). bump g n) kvs m) g =
     (case mget kvs g of None \<Rightarrow> mget m g | Some n \<Rightarrow> Some ((case mget m g of Some c \<Rightarrow> c | None \<Rightarrow> 0) + n))"
proof (induction kvs arbitrary: m)
  case (Cons kv kvs)
  obtain k n where kv: "kv = (k, n)" by force
  with Cons.prems have wf: "wf_map kvs" and notin: "mget kvs k = None"
    by (auto simp: wf_map_def map_of_eq_None_iff)
  show ?case using Cons.IH [OF wf, of "bump k n m"] notin by (auto simp: kv split: option.split)
qed simp

lemma same_map_rule:
  assumes "wf_map m" "mget m = mget (group_tally gs)"
  shows "hashQuorumReached rp (int (length gs)) m t mg = quorum_rule (perGroupQuorum rp) t mg gs"
proof -
  have "length m = length (group_tally gs)"
    using card_filter_map [OF assms(1), of "\<lambda>_ _. True"] card_filter_map [OF group_tally_wf, of "\<lambda>_ _. True" gs] assms(2)
    by simp
  moreover have "QualifyingGroupCount m t = QualifyingGroupCount (group_tally gs) t"
    using card_filter_map [OF assms(1), of "\<lambda>_ v. t \<le> v"] card_filter_map [OF group_tally_wf, of "\<lambda>_ v. t \<le> v" gs] assms(2)
    by (simp add: QualifyingGroupCount_def)
  ultimately show ?thesis unfolding hashQuorumReached_rule [symmetric] by (simp add: hashQuorumReached_def)
qed

lemma tally_plus_tally:
  "mget (fold (\<lambda>(g, n). bump g n) (group_tally fs) (group_tally gs)) = mget (group_tally (gs @ fs))"
  by (rule ext) (auto simp: fold_bump_get group_tally_get count_list_append count_list_0_iff split: option.split)

lemma not_completable:
  assumes "tally_inv H rp" "\<not> crossValidationQuorumStillCompletable rp t mg"
  obtains groups where "crossValidationProviderGroups rp = Some groups"
    "\<forall>p\<in>set (crossValidationQueriedProviders rp). p \<notin> set (crossValidationAnswered rp) \<longrightarrow> mget groups p \<noteq> None"
    "in_flight_groups groups (crossValidationUnderstaffedGroups rp) (crossValidationAnswered rp)
       (crossValidationQueriedProviders rp) = []
     \<or> (\<forall>h. h \<noteq> 0 \<and> rp_groups H rp h \<noteq> [] \<longrightarrow> \<not> quorum_rule (perGroupQuorum rp) t mg (rp_groups H rp h @
          in_flight_groups groups (crossValidationUnderstaffedGroups rp) (crossValidationAnswered rp)
            (crossValidationQueriedProviders rp)))"
proof -
  obtain groups n m where g: "crossValidationProviderGroups rp = Some groups"
    and loop: "in_flight_loop groups (crossValidationUnderstaffedGroups rp) (crossValidationAnswered rp)
        (crossValidationQueriedProviders rp) 0 [] = Some (n, m)"
    and none: "n = 0 \<or> \<not> list_ex (\<lambda>kv. hashQuorumReached rp (qs_count (snd kv) + n)
        (fold (\<lambda>(g, n). bump g n) m (qs_groupCounts (snd kv))) t mg) (quorumMap rp)"
    using assms(2) by (auto simp: crossValidationQuorumStillCompletable_def split: option.splits if_splits)
  let ?F = "in_flight_groups groups (crossValidationUnderstaffedGroups rp) (crossValidationAnswered rp)
       (crossValidationQueriedProviders rp)"
  from in_flight_loop_spec [OF loop] have nm: "n = int (length ?F)" "m = group_tally ?F"
    "\<forall>p\<in>set (crossValidationQueriedProviders rp). p \<notin> set (crossValidationAnswered rp) \<longrightarrow> mget groups p \<noteq> None"
    by (simp_all add: group_tally_def)
  have "\<not> quorum_rule (perGroupQuorum rp) t mg (rp_groups H rp h @ ?F)"
    if "?F \<noteq> []" "h \<noteq> 0" "rp_groups H rp h \<noteq> []" for h
  proof -
    let ?gs = "rp_groups H rp h"
    have "mget (quorumMap rp) h = Some \<lparr>qs_count = int (length ?gs), qs_groupCounts = group_tally ?gs\<rparr>"
      using assms(1) that(2,3) by (simp add: tally_inv_def stat_of_def)
    then have "\<not> hashQuorumReached rp (int (length ?gs) + n) (fold (\<lambda>(g, n). bump g n) m (group_tally ?gs)) t mg"
      using none that(1) nm(1) by (auto simp: list_ex_iff dest!: map_of_SomeD)
    moreover have "hashQuorumReached rp (int (length (?gs @ ?F))) (fold (\<lambda>(g, n). bump g n) m (group_tally ?gs)) t mg
        = quorum_rule (perGroupQuorum rp) t mg (?gs @ ?F)"
      unfolding nm(2) by (rule same_map_rule [OF fold_bump_wf [OF group_tally_wf] tally_plus_tally])
    ultimately show ?thesis by (simp add: nm(1))
  qed
  with g nm(3) that show ?thesis by blast
qed

definition response_group :: "RelayResponse \<Rightarrow> string" where
  "response_group resp = quorumGroupOf (Resp_RelayResult resp)"

definition response_provider :: "RelayResponse \<Rightarrow> string" where
  "response_provider resp = ProviderAddress (RR_ProviderInfo (Resp_RelayResult resp))"

lemma handle_groups:
  assumes "rp_selection rp = CrossValidation" "fresh_response resp"
  shows "\<exists>ds. rp_groups H (handleResponse H classify pm (Some resp) rp) h = rp_groups H rp h @ ds
    \<and> mset ds \<subseteq># {#response_group resp#}"
  using assms refl
proof (cases rule: handle_cases [where H = H and classify = classify and pm = pm])
  case (success r)
  then show ?thesis by (auto simp: rp_groups_def groups_for_snoc response_group_def)
qed (simp_all add: rp_groups_def)

lemma run_groups:
  assumes "rp_selection rp = CrossValidation" "\<forall>r\<in>set rs. fresh_response r"
  shows "\<exists>ds. rp_groups H (readExistingResponses H classify pm (map Some rs) rp) h = rp_groups H rp h @ ds
    \<and> mset ds \<subseteq># mset (map response_group rs)"
  using assms
proof (induction rs arbitrary: rp)
  case (Cons r rs)
  let ?rp = "handleResponse H classify pm (Some r) rp"
  obtain d1 where d1: "rp_groups H ?rp h = rp_groups H rp h @ d1" "mset d1 \<subseteq># {#response_group r#}"
    using handle_groups [of rp r H classify pm h] Cons.prems by auto
  obtain d2 where "rp_groups H (readExistingResponses H classify pm (map Some rs) ?rp) h = rp_groups H ?rp h @ d2"
    "mset d2 \<subseteq># mset (map response_group rs)"
    using Cons.IH [of ?rp] Cons.prems by auto
  with d1 show ?case
    using subset_mset.add_mono [OF d1(2)] by (intro exI [of _ "d1 @ d2"]) fastforce
qed simp

lemma distinct_sub:
  assumes "distinct xs" "set xs \<subseteq> set ys" shows "mset xs \<subseteq># mset ys"
  using assms mset_set_set [OF assms(1)] mset_set_set_mset_msubset [of "mset ys"]
  by (metis (no_types, lifting) List.finite_set set_mset_mset subset_imp_msubset_mset_set subset_mset.order_trans)

text \<open>Whoever answers from outside an under-staffed group was counted as in flight.\<close>

lemma in_flight_answers:
  assumes "distinct (map response_provider rs)"
    and "\<forall>r\<in>set rs. response_provider r \<in> set queried - set answered"
    and "\<forall>r\<in>set rs. mget groups (response_provider r) = Some (response_group r) \<and> response_group r \<notin> set understaffed"
  shows "mset (map response_group rs) \<subseteq># mset (in_flight_groups groups understaffed answered queried)"
proof -
  define Q where "Q = filter (\<lambda>p. p \<notin> set answered \<and> the (mget groups p) \<notin> set understaffed) queried"
  have "mset (map response_provider rs) \<subseteq># mset Q"
    using assms by (intro distinct_sub) (auto simp: Q_def)
  from image_mset_subseteq_mono [OF this, of "\<lambda>p. the (mget groups p)"]
  have "mset (map (\<lambda>r. the (mget groups (response_provider r))) rs) \<subseteq># mset (in_flight_groups groups understaffed answered queried)"
    by (simp add: Q_def in_flight_groups_def image_mset.compositionality comp_def)
  moreover have "map (\<lambda>r. the (mget groups (response_provider r))) rs = map response_group rs"
    using assms(3) by (intro map_cong) auto
  ultimately show ?thesis by simp
qed

text \<open>
  C7. The attempt-window stop gives up only on under-staffed groups: when the processor says that a request
  should stop at its window and the quorum has not been reached, then whatever the queried providers of
  all other groups still answer, in whatever order and number, the quorum is not reached. Each provider
  answers once and under the group the dispatcher recorded for it.
\<close>

theorem window_stop_is_safe:
  assumes "rp_selection rp = CrossValidation" and "tally_inv H rp"
    and "CrossValidationMissingOnlyGroups rp" and "\<not> crossValidationQuorumReached rp"
    and "\<forall>r\<in>set rs. fresh_response r" and "distinct (map response_provider rs)"
    and "\<forall>r\<in>set rs. response_provider r \<in> set (crossValidationQueriedProviders rp) - set (crossValidationAnswered rp)"
    and "\<forall>r\<in>set rs. crossValidationProviderGroups rp \<noteq> None
           \<and> mget (the (crossValidationProviderGroups rp)) (response_provider r) = Some (response_group r)
           \<and> response_group r \<notin> set (crossValidationUnderstaffedGroups rp)"
  shows "\<not> crossValidationQuorumReached (readExistingResponses H classify pm (map Some rs) rp)"
proof -
  let ?rp' = "readExistingResponses H classify pm (map Some rs) rp"
  let ?rule = "quorum_rule (perGroupQuorum rp) (getAgreementThreshold rp) (getMinGroups rp)"
  have inv': "tally_inv H ?rp'" using assms(1,2,5) by (intro run_tally_inv)
  have params: "rp_params ?rp' = rp_params rp" by simp
  from assms(1,3) obtain h0 st where st: "(h0, st) \<in> set (quorumMap rp)" "h0 \<noteq> 0"
    and nc: "\<not> crossValidationQuorumStillCompletable rp (getAgreementThreshold rp) (getMinGroups rp)"
    by (auto simp: CrossValidationMissingOnlyGroups_def Let_def list_ex_iff)
  have h0: "rp_groups H rp h0 \<noteq> []"
    using assms(2) st by (auto simp: tally_inv_def wf_map_in_iff stat_of_def split: if_splits)
  obtain groups where groups: "crossValidationProviderGroups rp = Some groups"
    and exh: "in_flight_groups groups (crossValidationUnderstaffedGroups rp) (crossValidationAnswered rp)
         (crossValidationQueriedProviders rp) = []
       \<or> (\<forall>h. h \<noteq> 0 \<and> rp_groups H rp h \<noteq> [] \<longrightarrow> \<not> ?rule (rp_groups H rp h @
          in_flight_groups groups (crossValidationUnderstaffedGroups rp) (crossValidationAnswered rp)
            (crossValidationQueriedProviders rp)))"
    by (rule not_completable [OF assms(2) nc])
  define F where "F = in_flight_groups groups (crossValidationUnderstaffedGroups rp) (crossValidationAnswered rp)
    (crossValidationQueriedProviders rp)"
  have D: "mset (map response_group rs) \<subseteq># mset F"
    unfolding F_def using assms(6-8) groups by (intro in_flight_answers) auto
  have "\<not> ?rule (rp_groups H ?rp' h)" if "h \<noteq> 0" for h
  proof
    assume q: "?rule (rp_groups H ?rp' h)"
    obtain ds where ds: "rp_groups H ?rp' h = rp_groups H rp h @ ds" "mset ds \<subseteq># mset (map response_group rs)"
      using run_groups [OF assms(1,5)] by blast
    have dsF: "mset ds \<subseteq># mset F" using ds(2) D by (rule subset_mset.order_trans)
    show False
    proof (cases "F = []")
      case True
      with dsF ds(1) q that assms(4) reached_iff [OF assms(2)] show False by auto
    next
      case False
      let ?h = "if rp_groups H rp h = [] then h0 else h"
      have "mset (rp_groups H ?rp' h) \<subseteq># mset (rp_groups H rp ?h @ F)"
        using dsF ds(1) by (auto intro: subset_mset.add_mono subset_mset.add_increasing)
      from quorum_rule_mono [OF this q] exh False h0 st(2) that show False
        by (auto simp: F_def split: if_splits)
    qed
  qed
  then show ?thesis unfolding reached_iff [OF inv'] using params_fields [OF params] by auto
qed

text \<open>Two providers of group \<open>a\<close> agree; a third of \<open>a\<close> and the only one of \<open>b\<close> are in flight.\<close>

definition waiting_rp :: RelayProcessor where
  "waiting_rp = sample_rp\<lparr>
     rp_results := NewResultsManager\<lparr>successResults := [sample_result ''p1'' ''a'' ''x'', sample_result ''p2'' ''a'' ''x'']\<rparr>,
     quorumMap := [(1, \<lparr>qs_count = 2, qs_groupCounts = [(''a'', 2)]\<rparr>)],
     crossValidationQueriedProviders := [''p1'', ''p2'', ''p3'', ''p4''],
     crossValidationProviderGroups := Some [(''p1'', ''a''), (''p2'', ''a''), (''p3'', ''a''), (''p4'', ''b'')],
     crossValidationUnderstaffedGroups := [''b''], crossValidationAnswered := [''p1'', ''p2'']\<rparr>"

lemma waiting_params: "perGroupQuorum waiting_rp = False" "getMinGroups waiting_rp = 2"
  "getAgreementThreshold waiting_rp = 2" "rp_selection waiting_rp = CrossValidation"
proof -
  have "rp_params waiting_rp = rp_params sample_rp" by (simp add: waiting_rp_def)
  from params_fields [OF this] sample_rp_params show "perGroupQuorum waiting_rp = False" "getMinGroups waiting_rp = 2"
    "getAgreementThreshold waiting_rp = 2" by simp_all
  show "rp_selection waiting_rp = CrossValidation"
    by (simp add: waiting_rp_def sample_rp_def NewRelayProcessor_def sample_params_def)
qed

lemma waiting_inv: "tally_inv sample_hash waiting_rp"
  by (simp add: tally_inv_def waiting_rp_def stat_of_def rp_groups_def groups_for_def agreeing_def has_data_def
      sample_result_def empty_result_def result_hash_def responseContentHash_def sample_hash_def quorumGroupOf_def
      fold_group_def group_tally_def bump_def)

lemma waiting_stop: "CrossValidationMissingOnlyGroups waiting_rp" "\<not> crossValidationQuorumReached waiting_rp"
  unfolding CrossValidationMissingOnlyGroups_def crossValidationQuorumReached_def
    crossValidationQuorumStillCompletable_def hashQuorumReached_def waiting_params Let_def
  by (simp_all add: waiting_rp_def bump_def)

theorem window_stop_is_safe_witness:
  "\<not> crossValidationQuorumReached (readExistingResponses sample_hash (\<lambda>_. LavaErrorUnknown)
     sample_message [Some \<lparr>Resp_RelayResult = sample_result ''p3'' ''a'' ''x'', Resp_Err = None\<rparr>] waiting_rp)"
  using window_stop_is_safe [OF waiting_params(4) waiting_inv waiting_stop,
      of "[\<lparr>Resp_RelayResult = sample_result ''p3'' ''a'' ''x'', Resp_Err = None\<rparr>]"
        "\<lambda>_. LavaErrorUnknown" sample_message]
  by (simp add: fresh_response_def sample_result_def empty_result_def response_provider_def response_group_def
      waiting_rp_def quorumGroupOf_def fold_group_def)

section \<open>Stragglers\<close>

text \<open>The watcher's books: who is pending and what was reported, for the providers it watches.\<close>

definition watch_ok :: "string set \<Rightarrow> watch_state \<Rightarrow> bool" where
  "watch_ok P ws \<longleftrightarrow> distinct (fst ws) \<and> distinct (map sr_ProviderAddress (snd ws))
     \<and> set (fst ws) \<inter> sr_ProviderAddress ` set (snd ws) = {}
     \<and> set (fst ws) \<union> sr_ProviderAddress ` set (snd ws) = P
     \<and> (\<forall>x\<in>set (snd ws). sr_Outcome x \<noteq> OutcomeNotReceived)"

lemma resolve_one_ok:
  "watch_ok P ws \<Longrightarrow> outcome \<noteq> OutcomeNotReceived \<Longrightarrow> watch_ok P (resolve_one a g outcome h ws)"
  by (cases ws) (auto simp: resolve_one_def watch_ok_def distinct_removeAll)

lemma resolve_one_pending: "set (fst (resolve_one a g outcome h ws)) = set (fst ws) - {a}"
  by (cases ws) (auto simp: resolve_one_def)

lemma classify_received: "classifyStragglerResponse H pm c resp = (outcome, h) \<Longrightarrow> outcome \<noteq> OutcomeNotReceived"
  by (auto simp: classifyStragglerResponse_def Let_def split: if_splits option.splits)

lemma watch_resolve_ok: "watch_ok P ws \<Longrightarrow> watch_ok P (watch_resolve H pm c r ws)"
  by (auto simp: watch_resolve_def resolve_one_ok classify_received split: option.split prod.split)

lemma watch_read_ok: "watch_ok P ws \<Longrightarrow> watch_ok P (watch_read H pm c rs ws)"
  by (induction rs arbitrary: ws) (simp_all add: watch_resolve_ok)

lemma fold_resolve_ok:
  assumes "watch_ok P ws" "\<And>x. oc x \<noteq> OutcomeNotReceived"
  shows "watch_ok P (fold (\<lambda>x. resolve_one (a x) (g x) (oc x) (h x)) xs ws)"
  using assms by (induction xs arbitrary: ws) (simp_all add: resolve_one_ok)

lemma fold_resolve_pending:
  "set (fst (fold (\<lambda>x. resolve_one (a x) (g x) (oc x) (h x)) xs ws)) = set (fst ws) - a ` set xs"
  by (induction xs arbitrary: ws) (auto simp: resolve_one_pending)

lemma recorded_ok: "watch_ok P ws \<Longrightarrow> watch_ok P (resolveFromRecorded c rm ws)"
  unfolding resolveFromRecorded_def Let_def by (intro fold_resolve_ok) simp_all

definition recorded_providers :: "ResultsManager \<Rightarrow> string set" where
  "recorded_providers rm = (\<lambda>r. ProviderAddress (RR_ProviderInfo r)) ` set (successResults rm)
     \<union> (\<lambda>r. ProviderAddress (RR_ProviderInfo r)) ` set (rm_NodeErrors rm)
     \<union> (\<lambda>e. ProviderAddress (RE_ProviderInfo e)) ` set (RelayErrors (protocolResponseErrors rm))"

lemma recorded_pending: "set (fst (resolveFromRecorded c rm ws)) = set (fst ws) - recorded_providers rm"
  unfolding resolveFromRecorded_def Let_def recorded_providers_def fold_resolve_pending by blast

lemma watch_read_pending:
  "Some resp \<in> set rs \<Longrightarrow> response_provider resp \<notin> set (fst (watch_read H pm c rs ws))"
proof (induction rs arbitrary: ws)
  case (Cons r rs)
  have stays: "set (fst (watch_read H pm c rs ws)) \<subseteq> set (fst ws)" for ws
  proof (induction rs arbitrary: ws)
    case (Cons r rs)
    have "set (fst (watch_resolve H pm c r ws)) \<subseteq> set (fst ws)"
      by (auto simp: watch_resolve_def resolve_one_pending split: option.split prod.split)
    with Cons [of "watch_resolve H pm c r ws"] show ?case by auto
  qed simp
  have "response_provider resp \<notin> set (fst (watch_resolve H pm c (Some resp) ws))"
    by (auto simp: watch_resolve_def resolve_one_pending response_provider_def split: prod.split)
  with Cons.prems Cons.IH [of "watch_resolve H pm c r ws"] stays [of "watch_resolve H pm c (Some resp) ws"]
  show ?case by (cases "r = Some resp") auto
qed simp

lemma report_missing:
  assumes "watch_ok P (pend, out)"
    and "rep = out @ map (\<lambda>a. \<lparr>sr_ProviderAddress = a, sr_ProviderGroup = '''', sr_Outcome = OutcomeNotReceived,
           sr_ResponseHash = 0\<rparr>) pend"
  shows "distinct (map sr_ProviderAddress rep)" "sr_ProviderAddress ` set rep = P"
    "\<forall>x\<in>set rep. sr_Outcome x = OutcomeNotReceived \<longrightarrow> sr_ProviderAddress x \<in> set pend"
  using assms by (auto simp: watch_ok_def comp_def image_Un image_image)

abbreviation not_received :: "string \<Rightarrow> straggler_result" where
  "not_received a \<equiv> \<lparr>sr_ProviderAddress = a, sr_ProviderGroup = '''', sr_Outcome = OutcomeNotReceived, sr_ResponseHash = 0\<rparr>"

text \<open>What the watcher reports when it gives up.\<close>

lemma give_up_report:
  fixes c rm1
  assumes "watch_ok P ws"
  defines "ws3 \<equiv> resolveFromRecorded c rm1 ws"
  defines "rep \<equiv> snd ws3 @ map not_received (fst ws3)"
  shows "distinct (map sr_ProviderAddress rep)" "sr_ProviderAddress ` set rep = P"
    "x \<in> set rep \<Longrightarrow> sr_Outcome x = OutcomeNotReceived \<Longrightarrow>
       sr_ProviderAddress x \<in> set (fst ws3) \<and> sr_ProviderAddress x \<notin> recorded_providers rm1"
proof -
  have ok3: "watch_ok P (fst ws3, snd ws3)" using assms(1) by (simp add: ws3_def recorded_ok)
  note rm = report_missing [OF ok3 rep_def [THEN meta_eq_to_obj_eq]]
  show "distinct (map sr_ProviderAddress rep)" "sr_ProviderAddress ` set rep = P" using rm(1,2) by auto
  have "set (fst ws3) \<inter> recorded_providers rm1 = {}" by (auto simp: ws3_def recorded_pending)
  then show "x \<in> set rep \<Longrightarrow> sr_Outcome x = OutcomeNotReceived \<Longrightarrow>
       sr_ProviderAddress x \<in> set (fst ws3) \<and> sr_ProviderAddress x \<notin> recorded_providers rm1"
    using rm(3) by blast
qed

text \<open>
  Every provider that was pending when the reply went out is reported exactly once, and no provider
  that was not pending is; a provider is reported as not received only if none of its responses was
  buffered at the deadline and none had been recorded by another reader.
\<close>

theorem stragglers_reported_once:
  "distinct (map sr_ProviderAddress (WatchCrossValidationStragglers H pm pending c rm0 arriving buffered rm1))
   \<and> sr_ProviderAddress ` set (WatchCrossValidationStragglers H pm pending c rm0 arriving buffered rm1)
       = set pending - {''''}
   \<and> (\<forall>x\<in>set (WatchCrossValidationStragglers H pm pending c rm0 arriving buffered rm1).
        sr_Outcome x = OutcomeNotReceived \<longrightarrow> sr_ProviderAddress x \<notin> recorded_providers rm1
          \<and> (\<forall>resp. Some resp \<in> set buffered \<longrightarrow> response_provider resp \<noteq> sr_ProviderAddress x))"
proof -
  let ?P = "set pending - {''''}"
  let ?p = "remdups (filter (\<lambda>a. a \<noteq> '''') pending)"
  let ?ws = "watch_read H pm c arriving (resolveFromRecorded c rm0 (?p, []))"
  let ?ws2 = "watch_read H pm c buffered ?ws"
  let ?ws3 = "resolveFromRecorded c rm1 ?ws2"
  have "watch_ok ?P (?p, [])" by (auto simp: watch_ok_def)
  then have ok: "watch_ok ?P ?ws" by (intro watch_read_ok recorded_ok)
  then have ok2: "watch_ok ?P ?ws2" by (rule watch_read_ok)
  then have ok3: "watch_ok ?P ?ws3" by (rule recorded_ok)
  have buffered: "\<forall>resp. Some resp \<in> set buffered \<longrightarrow> response_provider resp \<notin> set (fst ?ws3)"
    unfolding recorded_pending using watch_read_pending [of _ buffered H pm c ?ws] by blast
  consider "?p = []" | "?p \<noteq> []" "fst ?ws = []" | "?p \<noteq> []" "fst ?ws \<noteq> []" "fst ?ws2 = []"
    | "?p \<noteq> []" "fst ?ws \<noteq> []" "fst ?ws2 \<noteq> []" by blast
  then show ?thesis
  proof cases
    case 1
    then have "?P = {}" by (auto simp: filter_empty_conv)
    with 1 show ?thesis by (simp add: WatchCrossValidationStragglers_def)
  next
    case 2
    with ok show ?thesis by (auto simp: WatchCrossValidationStragglers_def Let_def watch_ok_def)
  next
    case 3
    with ok2 show ?thesis by (auto simp: WatchCrossValidationStragglers_def giveUp_def Let_def watch_ok_def)
  next
    case 4
    then have rep: "WatchCrossValidationStragglers H pm pending c rm0 arriving buffered rm1 = snd ?ws3 @ map not_received (fst ?ws3)"
      by (simp add: WatchCrossValidationStragglers_def giveUp_def Let_def)
    from give_up_report [OF ok2, where c = c and ?rm1.0 = rm1] buffered show ?thesis unfolding rep by auto
  qed
qed

theorem stragglers_reported_once_witness:
  "\<exists>x\<in>set (WatchCrossValidationStragglers sample_hash sample_message [''p4''] 1 NewResultsManager [] [] NewResultsManager).
     sr_Outcome x = OutcomeNotReceived \<and> sr_ProviderAddress x = ''p4'' \<and> sr_ProviderAddress x \<notin> recorded_providers NewResultsManager"
proof -
  have "WatchCrossValidationStragglers sample_hash sample_message [''p4''] 1 NewResultsManager [] [] NewResultsManager
    = [\<lparr>sr_ProviderAddress = ''p4'', sr_ProviderGroup = '''', sr_Outcome = OutcomeNotReceived, sr_ResponseHash = 0\<rparr>]"
    by (simp add: WatchCrossValidationStragglers_def Let_def resolveFromRecorded_def NewResultsManager_def rm_NodeErrors_def giveUp_def)
  with stragglers_reported_once [of sample_hash sample_message "[''p4'']" 1 NewResultsManager "[]" "[]" NewResultsManager]
  show ?thesis by simp
qed

end
