(* ===== verification/CVPolicy.thy ===== *)
theory CVPolicy
  imports RelayStateMachine QuorumFlow
begin

text \<open>
  Per-method cross-validation policies (\<open>src/protocol/rpcsmartrouter/cross_validation_policy.go\<close>,
  \<open>cross_validation_boot.go\<close>, \<open>smartrouter_relay_state_machine.go\<close>, the capacity checks of
  \<open>rpcsmartrouter_server.go\<close>, and \<open>GetCrossValidationParameters\<close> of \<open>chainlib/protocol_message.go\<close>): how an
  operator's policy and a caller's headers become the parameters a request is cross-validated with, and
  when a fleet can meet them.

  A nil resolver is \<open>None\<close>, a nil bound \<open>None\<close>. Error values keep the fixed part of their text. Counts are
  Go \<open>int\<close>s; the one product that could leave their range wraps. Reading the configuration file
  (viper) is outside; the two reads of the session manager's counts
  behind the capacity check are one snapshot; what the chain parser knows of a method is the record \<open>chain_parser\<close>.
\<close>

section \<open>Headers\<close>

definition CROSS_VALIDATION_HEADER_MAX_PARTICIPANTS :: string where
  "CROSS_VALIDATION_HEADER_MAX_PARTICIPANTS = ''lava-cross-validation-max-participants''"

definition CROSS_VALIDATION_HEADER_AGREEMENT_THRESHOLD :: string where
  "CROSS_VALIDATION_HEADER_AGREEMENT_THRESHOLD = ''lava-cross-validation-agreement-threshold''"

text \<open>No headers, an error, or the parameters the headers ask for.\<close>

definition GetCrossValidationParameters :: "(string, string) gomap \<Rightarrow> (go_error + CrossValidationParams) option" where
  "GetCrossValidationParameters directiveHeaders =
     (case (mget directiveHeaders CROSS_VALIDATION_HEADER_MAX_PARTICIPANTS,
            mget directiveHeaders CROSS_VALIDATION_HEADER_AGREEMENT_THRESHOLD) of
        (None, None) \<Rightarrow> None
      | (None, Some _) \<Rightarrow> Some (Inl (ErrNew ''cross-validation max-participants header is required when using cross-validation''))
      | (Some m, threshold) \<Rightarrow>
          (case atoi m of
             None \<Rightarrow> Some (Inl (ErrNew ''invalid cross-validation max-participants: must be a positive integer''))
           | Some maxParticipants \<Rightarrow>
               if maxParticipants < 1 then
                 Some (Inl (ErrNew ''invalid cross-validation max-participants: must be a positive integer''))
               else
                 (case threshold of
                    None \<Rightarrow> Some (Inl (ErrNew ''cross-validation agreement-threshold header is required when using cross-validation''))
                  | Some t \<Rightarrow>
                      (case atoi t of
                         None \<Rightarrow> Some (Inl (ErrNew ''invalid cross-validation agreement-threshold: must be a positive integer''))
                       | Some agreementThreshold \<Rightarrow>
                           if agreementThreshold < 1 then
                             Some (Inl (ErrNew ''invalid cross-validation agreement-threshold: must be a positive integer''))
                           else if agreementThreshold > maxParticipants then
                             Some (Inl (ErrNew ''cross-validation agreement-threshold cannot be greater than max-participants''))
                           else Some (Inr \<lparr>MaxParticipants = maxParticipants, AgreementThreshold = agreementThreshold,
                                           MinGroups = 1, PerGroupQuorum = False\<rparr>)))))"

section \<open>Policies\<close>

definition defaultEnabledMaxParticipants :: int where "defaultEnabledMaxParticipants = 3"
definition defaultEnabledAgreementThreshold :: int where "defaultEnabledAgreementThreshold = 2"
definition defaultEnabledMinGroups :: int where "defaultEnabledMinGroups = 1"

record Bound =
  Floor :: "int option"
  Cap :: "int option"

record CrossValidationPolicy =
  pol_Enabled :: bool
  pol_MaxParticipants :: Bound
  pol_AgreementThreshold :: Bound
  pol_MinGroups :: Bound
  pol_PerGroupQuorum :: bool
  pol_ForbidCallerCV :: bool

record CrossValidationPolicyEntry =
  ent_ChainID :: string
  ent_ApiInterface :: string
  ent_Method :: string
  ent_Policy :: CrossValidationPolicy

record CrossValidationPolicyResolver =
  policies :: "(string, CrossValidationPolicy) gomap"
  positions :: "(string, int) gomap"

definition policyKeySeparator :: string where
  "policyKeySeparator = [char_of (0 :: nat)]"

definition policyKeyPrefix :: "string \<Rightarrow> string \<Rightarrow> string" where
  "policyKeyPrefix chainID apiInterface =
     to_lower chainID @ policyKeySeparator @ to_lower apiInterface @ policyKeySeparator"

definition policyKey :: "string \<Rightarrow> string \<Rightarrow> string \<Rightarrow> string" where
  "policyKey chainID apiInterface method = policyKeyPrefix chainID apiInterface @ method"

definition resolveKnob :: "int \<Rightarrow> bool \<Rightarrow> Bound \<Rightarrow> int \<Rightarrow> int" where
  "resolveKnob callerVal callerPresent b def =
     (let base = (if callerPresent then callerVal else case Floor b of Some f \<Rightarrow> f | None \<Rightarrow> def);
          base = (case Floor b of Some f \<Rightarrow> if base < f then f else base | None \<Rightarrow> base)
      in case Cap b of Some c \<Rightarrow> if base > c then c else base | None \<Rightarrow> base)"

abbreviation noCallerMax :: "CrossValidationPolicy \<Rightarrow> int" where
  "noCallerMax p \<equiv> resolveKnob 0 False (pol_MaxParticipants p) defaultEnabledMaxParticipants"

abbreviation noCallerThreshold :: "CrossValidationPolicy \<Rightarrow> int" where
  "noCallerThreshold p \<equiv> resolveKnob 0 False (pol_AgreementThreshold p) defaultEnabledAgreementThreshold"

abbreviation noCallerMinGroups :: "CrossValidationPolicy \<Rightarrow> int" where
  "noCallerMinGroups p \<equiv> resolveKnob 0 False (pol_MinGroups p) defaultEnabledMinGroups"

text \<open>The checks of one knob. The three knobs are visited in the order of a Go map, so which of
  several errors is reported is not determined; here it is the first in this order.\<close>

definition check_bound :: "Bound \<Rightarrow> go_error option" where
  "check_bound b =
     (if (case Floor b of Some f \<Rightarrow> f < 1 | None \<Rightarrow> False) then Some (ErrNew ''floor must be >= 1'')
      else if (case Cap b of Some c \<Rightarrow> c < 1 | None \<Rightarrow> False) then Some (ErrNew ''cap must be >= 1'')
      else case (Floor b, Cap b) of
             (Some f, Some c) \<Rightarrow> if f > c then Some (ErrNew ''floor cannot exceed cap'') else None
           | _ \<Rightarrow> None)"

fun first_error :: "go_error option list \<Rightarrow> go_error option" where
  "first_error [] = None"
| "first_error (Some e # es) = Some e"
| "first_error (None # es) = first_error es"

definition Validate :: "CrossValidationPolicy \<Rightarrow> go_error option" where
  "Validate p =
     (if pol_Enabled p \<and> pol_ForbidCallerCV p then
        Some (ErrNew ''enabled and forbid-caller-cv are mutually exclusive'')
      else case first_error (map check_bound [pol_MaxParticipants p, pol_AgreementThreshold p, pol_MinGroups p]) of
             Some e \<Rightarrow> Some e
           | None \<Rightarrow>
               if \<not> pol_Enabled p then None
               else if noCallerThreshold p > noCallerMax p then
                 Some (ErrNew ''agreement-threshold exceeds max-participants with no caller'')
               else if noCallerMinGroups p > noCallerMax p then
                 Some (ErrNew ''min-groups exceeds max-participants with no caller'')
               else if pol_PerGroupQuorum p then
                 if noCallerMinGroups p \<le> 1 then Some (ErrNew ''per-group-quorum requires min-groups > 1'')
                 else if mul64 (noCallerMinGroups p) (noCallerThreshold p) > noCallerMax p then
                   Some (ErrNew ''per-group-quorum needs max-participants >= min-groups * agreement-threshold'')
                 else None
               else None)"

fun add_policies :: "int \<Rightarrow> CrossValidationPolicyEntry list \<Rightarrow> CrossValidationPolicyResolver \<Rightarrow>
    go_error + CrossValidationPolicyResolver" where
  "add_policies i [] r = Inr r"
| "add_policies i (e # es) r =
     (if ent_ChainID e = [] \<or> ent_ApiInterface e = [] \<or> ent_Method e = [] then
        Inl (ErrNew ''cross-validation policy must set chain-id, api-interface, and method'')
      else case Validate (ent_Policy e) of
             Some err \<Rightarrow> Inl (ErrWrap ''invalid cross-validation policy'' [err])
           | None \<Rightarrow>
               let key = policyKey (ent_ChainID e) (ent_ApiInterface e) (ent_Method e) in
               if mget (policies r) key \<noteq> None then Inl (ErrNew ''duplicate cross-validation policy'')
               else add_policies (i + 1) es
                      (r\<lparr>policies := mput key (ent_Policy e) (policies r), positions := mput key i (positions r)\<rparr>))"

definition NewCrossValidationPolicyResolver ::
    "CrossValidationPolicyEntry list \<Rightarrow> go_error + CrossValidationPolicyResolver" where
  "NewCrossValidationPolicyResolver cfg = add_policies 0 cfg \<lparr>policies = [], positions = []\<rparr>"

definition hasBounds :: "CrossValidationPolicy \<Rightarrow> bool" where
  "hasBounds p \<longleftrightarrow>
     list_ex (\<lambda>b. Floor b \<noteq> None \<or> Cap b \<noteq> None) [pol_MaxParticipants p, pol_AgreementThreshold p, pol_MinGroups p]"

definition governsRequests :: "CrossValidationPolicy \<Rightarrow> bool" where
  "governsRequests p \<longleftrightarrow> pol_Enabled p \<or> pol_ForbidCallerCV p \<or> hasBounds p"

text \<open>\<open>endpoints\<close> are the chain ids and API interfaces served.\<close>

definition validatePolicyEndpoints :: "CrossValidationPolicyEntry list \<Rightarrow> (string \<times> string) list \<Rightarrow> go_error option" where
  "validatePolicyEndpoints cfg endpoints =
     (let served = map (\<lambda>(c, a). policyKeyPrefix c a) endpoints;
          unserved = filter (\<lambda>e. governsRequests (ent_Policy e) \<and>
            policyKeyPrefix (ent_ChainID e) (ent_ApiInterface e) \<notin> set served) cfg
      in if unserved \<noteq> [] then
           Some (ErrNew ''cross-validation policies name a chain-id and api-interface that no endpoint serves'')
         else None)"

definition PreflightValidateCrossValidationConfig ::
    "CrossValidationPolicyEntry list \<Rightarrow> (string \<times> string) list \<Rightarrow> go_error option" where
  "PreflightValidateCrossValidationConfig cfg endpoints =
     (case NewCrossValidationPolicyResolver cfg of
        Inl e \<Rightarrow> Some e
      | Inr _ \<Rightarrow> validatePolicyEndpoints cfg endpoints)"

section \<open>Resolving a request\<close>

definition HasPolicies :: "CrossValidationPolicyResolver option \<Rightarrow> bool" where
  "HasPolicies r \<longleftrightarrow> (case r of None \<Rightarrow> False | Some r \<Rightarrow> policies r \<noteq> [])"

definition ForbidsCallerCV :: "CrossValidationPolicyResolver option \<Rightarrow> string \<Rightarrow> string \<Rightarrow> string \<Rightarrow> bool" where
  "ForbidsCallerCV r chainID apiInterface method \<longleftrightarrow>
     (case r of
        None \<Rightarrow> False
      | Some r \<Rightarrow>
          (case mget (policies r) (policyKey chainID apiInterface method) of
             None \<Rightarrow> False
           | Some p \<Rightarrow> pol_ForbidCallerCV p \<and> \<not> pol_Enabled p))"

text \<open>What an enabled policy makes of the caller's parameters (\<open>None\<close>: no headers).\<close>

definition resolve_enabled :: "CrossValidationPolicy \<Rightarrow> CrossValidationParams option \<Rightarrow> CrossValidationParams" where
  "resolve_enabled p caller =
     (let present = caller \<noteq> None;
          maxP = resolveKnob (case caller of Some c \<Rightarrow> MaxParticipants c | None \<Rightarrow> 0) present (pol_MaxParticipants p) defaultEnabledMaxParticipants;
          thr = resolveKnob (case caller of Some c \<Rightarrow> AgreementThreshold c | None \<Rightarrow> 0) present (pol_AgreementThreshold p) defaultEnabledAgreementThreshold;
          groups = resolveKnob 0 False (pol_MinGroups p) defaultEnabledMinGroups;
          maxP = (if noCallerThreshold p > maxP then noCallerThreshold p else maxP);
          maxP = (if noCallerMinGroups p > maxP then noCallerMinGroups p else maxP);
          thr = (if thr > maxP then maxP else thr);
          groups = (if groups > maxP then maxP else groups)
      in \<lparr>MaxParticipants = maxP, AgreementThreshold = thr, MinGroups = groups,
          PerGroupQuorum = (pol_PerGroupQuorum p \<and> groups > 1)\<rparr>)"

text \<open>\<open>Resolve\<close> with its second result as an option: \<open>None\<close> when cross-validation does not apply.\<close>

definition Resolve :: "CrossValidationPolicyResolver option \<Rightarrow> string \<Rightarrow> string \<Rightarrow> string \<Rightarrow>
    CrossValidationParams option \<Rightarrow> CrossValidationParams option" where
  "Resolve r chainID apiInterface method caller =
     (case r of
        None \<Rightarrow> caller
      | Some r \<Rightarrow>
          (case mget (policies r) (policyKey chainID apiInterface method) of
             None \<Rightarrow> caller
           | Some p \<Rightarrow>
               if pol_ForbidCallerCV p then None
               else if \<not> pol_Enabled p then caller
               else Some (resolve_enabled p caller)))"

definition stricterCrossValidation :: "CrossValidationParams \<Rightarrow> CrossValidationParams \<Rightarrow> bool" where
  "stricterCrossValidation a b \<longleftrightarrow>
     (if AgreementThreshold a \<noteq> AgreementThreshold b then AgreementThreshold a > AgreementThreshold b
      else if MinGroups a \<noteq> MinGroups b then MinGroups a > MinGroups b
      else if PerGroupQuorum a \<noteq> PerGroupQuorum b then PerGroupQuorum a
      else MaxParticipants a > MaxParticipants b)"

fun split_on :: "char \<Rightarrow> string \<Rightarrow> string list" where
  "split_on c [] = [[]]"
| "split_on c (x # xs) =
     (if x = c then [] # split_on c xs
      else case split_on c xs of [] \<Rightarrow> [[x]] | y # ys \<Rightarrow> (x # y) # ys)"

definition crossValidationPolicyMethods :: "string \<Rightarrow> string \<Rightarrow> string list" where
  "crossValidationPolicyMethods apiInterface method =
     (if to_lower apiInterface = ''graphql'' \<and> CHR ''&'' \<in> set method then split_on CHR ''&'' method else [method])"

text \<open>The strictest of the policies that apply to a request's methods.\<close>

fun strictest :: "CrossValidationParams option list \<Rightarrow> CrossValidationParams option \<Rightarrow> CrossValidationParams option" where
  "strictest [] best = best"
| "strictest (None # es) best = strictest es best"
| "strictest (Some eff # es) best =
     strictest es (case best of
                     None \<Rightarrow> Some eff
                   | Some b \<Rightarrow> if stricterCrossValidation eff b then Some eff else best)"

definition MaximumNumberOfTickerRelayRetries :: int where "MaximumNumberOfTickerRelayRetries = 10"
definition router_SendRelayAttempts :: int where "router_SendRelayAttempts = 3"

definition SmartRouterPolicyConfig :: "int \<Rightarrow> bool \<Rightarrow> policy_config" where
  "SmartRouterPolicyConfig relayRetryLimit disableBatchRequestRetry =
     \<lparr>MaxRetries = MaximumNumberOfTickerRelayRetries, RelayRetryLimit = relayRetryLimit,
      DisableBatchRetry = disableBatchRequestRetry, EnableCircuitBreaker = True, CircuitBreakerThreshold = 2,
      SendRelayAttempts = router_SendRelayAttempts\<rparr>"

text \<open>The override and the forbid flag a request's machine is built with.\<close>

definition request_override :: "CrossValidationPolicyResolver option \<Rightarrow> string \<Rightarrow> string \<Rightarrow> string \<Rightarrow> bool \<Rightarrow>
    (go_error + CrossValidationParams) option \<Rightarrow> go_error + (CrossValidationParams option \<times> bool)" where
  "request_override r chainID apiInterface method routesAsWrite headers =
     (if \<not> HasPolicies r then Inr (None, False)
      else
        let methods = crossValidationPolicyMethods apiInterface method;
            forbid = list_ex (ForbidsCallerCV r chainID apiInterface) methods
        in if routesAsWrite then Inr (None, forbid)
           else case (if forbid then None else headers) of
                  Some (Inl err) \<Rightarrow> Inl (ErrWrap ''invalid cross-validation headers'' [err])
                | Some (Inr caller) \<Rightarrow>
                    Inr (strictest (map (\<lambda>m. Resolve r chainID apiInterface m (Some caller)) methods) None, forbid)
                | None \<Rightarrow>
                    Inr (strictest (map (\<lambda>m. Resolve r chainID apiInterface m None) methods) None, forbid))"

definition NewSmartRouterRelayStateMachineWithPolicy ::
    "CrossValidationPolicyResolver option \<Rightarrow> string \<Rightarrow> string \<Rightarrow> string \<Rightarrow> bool \<Rightarrow>
     (go_error + CrossValidationParams) option \<Rightarrow> policy \<Rightarrow> go_error + policy state_machine" where
  "NewSmartRouterRelayStateMachineWithPolicy r chainID apiInterface method routesAsWrite headers policy =
     (case request_override r chainID apiInterface method routesAsWrite headers of
        Inl e \<Rightarrow> Inl e
      | Inr (cvOverride, forbidCallerCV) \<Rightarrow>
          NewUnifiedRelayStateMachine cvOverride forbidCallerCV routesAsWrite headers policy)"

section \<open>What an endpoint's policies require\<close>

text \<open>The policies of an endpoint with their keys, in the order of the map.\<close>

definition endpoint_policies :: "CrossValidationPolicyResolver option \<Rightarrow> string \<Rightarrow> string \<Rightarrow>
    (string \<times> CrossValidationPolicy) list" where
  "endpoint_policies r chainID apiInterface =
     (case r of
        None \<Rightarrow> []
      | Some r \<Rightarrow> filter (\<lambda>(key, p). is_prefix_of (policyKeyPrefix chainID apiInterface) key) (policies r))"

record PolicyRef =
  Position :: int
  ref_Method :: string

definition PolicyRef_String :: "PolicyRef \<Rightarrow> string" where
  "PolicyRef_String ref = ''policy #'' @ format_int (Position ref) @ '' '' @ ref_Method ref"

definition trim_prefix :: "string \<Rightarrow> string \<Rightarrow> string" where
  "trim_prefix prefix key = (if is_prefix_of prefix key then drop (length prefix) key else key)"

definition PolicyRefs :: "CrossValidationPolicyResolver option \<Rightarrow> string \<Rightarrow> string \<Rightarrow> PolicyRef list" where
  "PolicyRefs r chainID apiInterface =
     sort_key ref_Method
       (map (\<lambda>(key, p). \<lparr>Position = (case mget (positions (the r)) key of Some i \<Rightarrow> i | None \<Rightarrow> 0),
                         ref_Method = trim_prefix (policyKeyPrefix chainID apiInterface) key\<rparr>)
         (filter (\<lambda>(key, p). governsRequests p) (endpoint_policies r chainID apiInterface)))"

definition PolicyMethods :: "CrossValidationPolicyResolver option \<Rightarrow> string \<Rightarrow> string \<Rightarrow> string list" where
  "PolicyMethods r chainID apiInterface = map ref_Method (PolicyRefs r chainID apiInterface)"

definition MaxResolvedMinGroups :: "CrossValidationPolicyResolver option \<Rightarrow> string \<Rightarrow> string \<Rightarrow> int" where
  "MaxResolvedMinGroups r chainID apiInterface =
     fold (\<lambda>(key, p) m. if pol_Enabled p \<and> noCallerMinGroups p > m then noCallerMinGroups p else m)
       (endpoint_policies r chainID apiInterface) 0"

record GroupRequirement =
  req_MinGroups :: int
  req_Threshold :: int

definition requirement_of :: "CrossValidationPolicy \<Rightarrow> GroupRequirement" where
  "requirement_of p = \<lparr>req_MinGroups = noCallerMinGroups p, req_Threshold = noCallerThreshold p\<rparr>"

definition PerGroupRequirements :: "CrossValidationPolicyResolver option \<Rightarrow> string \<Rightarrow> string \<Rightarrow> GroupRequirement list" where
  "PerGroupRequirements r chainID apiInterface =
     map (requirement_of \<circ> snd)
       (filter (\<lambda>(key, p). pol_Enabled p \<and> pol_PerGroupQuorum p) (endpoint_policies r chainID apiInterface))"

definition MinGroupsRequirements :: "CrossValidationPolicyResolver option \<Rightarrow> string \<Rightarrow> string \<Rightarrow> GroupRequirement list" where
  "MinGroupsRequirements r chainID apiInterface =
     map (requirement_of \<circ> snd)
       (filter (\<lambda>(key, p). pol_Enabled p \<and> \<not> pol_PerGroupQuorum p) (endpoint_policies r chainID apiInterface))"

definition headerlessParams :: "CrossValidationPolicyResolver option \<Rightarrow> string \<Rightarrow> string \<Rightarrow> CrossValidationParams list" where
  "headerlessParams r chainID apiInterface =
     map (\<lambda>(key, p). case Resolve r chainID apiInterface (trim_prefix (policyKeyPrefix chainID apiInterface) key) None of
                        Some params \<Rightarrow> params
                      | None \<Rightarrow> \<lparr>MaxParticipants = 0, AgreementThreshold = 0, MinGroups = 0, PerGroupQuorum = False\<rparr>)
       (filter (\<lambda>(key, p). pol_Enabled p) (endpoint_policies r chainID apiInterface))"

text \<open>\<open>strings.SplitN(key, sep, 3)\<close>, padded with empty parts.\<close>

definition cut :: "char \<Rightarrow> string \<Rightarrow> string \<times> string" where
  "cut c s = (takeWhile (\<lambda>x. x \<noteq> c) s, drop 1 (dropWhile (\<lambda>x. x \<noteq> c) s))"

definition splitPolicyKey :: "string \<Rightarrow> string \<times> string \<times> string" where
  "splitPolicyKey key =
     (let (chainID, rest) = cut (char_of (0 :: nat)) key; (apiInterface, method) = cut (char_of (0 :: nat)) rest
      in (chainID, apiInterface, method))"

definition ValidateNoStatefulPolicies :: "CrossValidationPolicyResolver option \<Rightarrow> (string \<Rightarrow> string \<Rightarrow> string \<Rightarrow> bool) \<Rightarrow>
    go_error option" where
  "ValidateNoStatefulPolicies r isStateful =
     (case r of
        None \<Rightarrow> None
      | Some r \<Rightarrow>
          if list_ex (\<lambda>(key, p). pol_Enabled p \<and> (case splitPolicyKey key of (c, a, m) \<Rightarrow> isStateful c a m)) (policies r)
          then Some (ErrNew ''cross-validation policy on stateful method is not allowed'') else None)"

section \<open>Boot\<close>

text \<open>What a chain parser can say about a method; \<open>None\<close> for a parser without the interface.\<close>

record chain_parser =
  ApiHasStatefulCategory :: "(string \<Rightarrow> bool) option"
  ApiNameDefined :: "(string \<Rightarrow> bool) option"

definition validateCrossValidationSpecGuards :: "CrossValidationPolicyResolver option \<Rightarrow> chain_parser \<Rightarrow> string \<Rightarrow> string \<Rightarrow>
    go_error option" where
  "validateCrossValidationSpecGuards r parser chainID apiInterface =
     (let refs = PolicyRefs r chainID apiInterface in
      if refs = [] then None
      else case ApiHasStatefulCategory parser of
             None \<Rightarrow> Some (ErrNew ''the chain parser cannot classify stateful methods'')
           | Some stateful \<Rightarrow>
               (case ValidateNoStatefulPolicies r (\<lambda>c a m.
                       to_lower c = to_lower chainID \<and> to_lower a = to_lower apiInterface \<and> stateful m) of
                  Some e \<Rightarrow> Some e
                | None \<Rightarrow>
                    (case ApiNameDefined parser of
                       None \<Rightarrow> Some (ErrNew ''the chain parser cannot list its methods'')
                     | Some defined \<Rightarrow>
                         if filter (\<lambda>ref. \<not> defined (ref_Method ref)) refs = [] then None
                         else Some (ErrNew ''cross-validation policies name methods this endpoint's spec does not serve''))))"

definition crossValidationBootCheck :: "CrossValidationPolicyEntry list \<Rightarrow> chain_parser \<Rightarrow> string \<Rightarrow> string \<Rightarrow> go_error option" where
  "crossValidationBootCheck cfg parser chainID apiInterface =
     (case NewCrossValidationPolicyResolver cfg of
        Inl e \<Rightarrow> Some e
      | Inr r \<Rightarrow> validateCrossValidationSpecGuards (Some r) parser chainID apiInterface)"

text \<open>The barrier all endpoints pass together: \<open>wait\<close> returns once nobody is pending.\<close>

record bootConfigBarrier =
  pending :: int
  failed :: "go_error list"

definition newBootConfigBarrier :: "int \<Rightarrow> bootConfigBarrier" where
  "newBootConfigBarrier endpoints = \<lparr>pending = endpoints, failed = []\<rparr>"

definition arrive :: "go_error option \<Rightarrow> bootConfigBarrier \<Rightarrow> bootConfigBarrier" where
  "arrive verdict b =
     (let b = (case verdict of Some e \<Rightarrow> b\<lparr>failed := failed b @ [e]\<rparr> | None \<Rightarrow> b) in b\<lparr>pending := pending b - 1\<rparr>)"

text \<open>\<open>None\<close>: still blocked; \<open>Some None\<close>: every configuration passed.\<close>

definition wait :: "bootConfigBarrier \<Rightarrow> go_error option option" where
  "wait b = (if pending b > 0 then None else Some (case failed b of [] \<Rightarrow> None | e # _ \<Rightarrow> Some e))"

section \<open>Capacity\<close>

definition CrossValidationReasonInsufficientCapacity :: string where
  "CrossValidationReasonInsufficientCapacity = ''insufficient-capacity''"
definition CrossValidationReasonInsufficientGroups :: string where
  "CrossValidationReasonInsufficientGroups = ''insufficient-groups''"

text \<open>The request-time guard. \<open>groupCounts\<close> is what the session manager counts for the request: the
  candidates of each group; the candidates and the groups are its total and its size.\<close>

definition validateCrossValidationCapacity ::
    "selection \<Rightarrow> CrossValidationParams option \<Rightarrow> (string, int) gomap \<Rightarrow> string" where
  "validateCrossValidationCapacity sel params groupCounts =
     (case params of
        None \<Rightarrow> []
      | Some p \<Rightarrow>
          if sel \<noteq> CrossValidation then []
          else if MaxParticipants p > sum_list (map snd groupCounts) then CrossValidationReasonInsufficientCapacity
          else if MinGroups p > int (length groupCounts) then CrossValidationReasonInsufficientGroups
          else if PerGroupQuorum p then
            if MaxParticipants p < mul64 (MinGroups p) (AgreementThreshold p) then CrossValidationReasonInsufficientCapacity
            else if QualifyingGroupCount groupCounts (AgreementThreshold p) < MinGroups p
            then CrossValidationReasonInsufficientGroups else []
          else [])"

definition crossValidationGroupShortfall :: "(string, int) gomap \<Rightarrow> CrossValidationParams option \<Rightarrow> int \<times> string" where
  "crossValidationGroupShortfall groupCounts params =
     (case params of
        None \<Rightarrow> (int (length groupCounts), [])
      | Some p \<Rightarrow>
          if MinGroups p \<le> 1 then (int (length groupCounts), [])
          else
            let qualifying = (if PerGroupQuorum p then QualifyingGroupCount groupCounts (AgreementThreshold p)
                              else int (length groupCounts))
            in (qualifying, if qualifying < MinGroups p then CrossValidationReasonInsufficientGroups else []))"

definition crossValidationShortfall :: "CrossValidationPolicyResolver option \<Rightarrow> string \<Rightarrow> string \<Rightarrow> (string, int) gomap \<Rightarrow> int \<times> int" where
  "crossValidationShortfall r chainID apiInterface groupSizes =
     fold (\<lambda>params (requiredProviders, requiredGroups).
        (if MaxParticipants params > sum_list (map snd groupSizes) then max requiredProviders (MaxParticipants params) else requiredProviders,
         if snd (crossValidationGroupShortfall groupSizes (Some params)) \<noteq> [] then max requiredGroups (MinGroups params) else requiredGroups))
       (headerlessParams r chainID apiInterface) (0, 0)"

definition groupsBelowThreshold :: "(string, int) gomap \<Rightarrow> int \<Rightarrow> string list" where
  "groupsBelowThreshold groupSizes threshold = sort (map fst (filter (\<lambda>(label, size). size < threshold) groupSizes))"

text \<open>The startup guards. The single-point-of-failure advisory only logs.\<close>

definition validateCrossValidationStartup :: "CrossValidationPolicyResolver option \<Rightarrow> chain_parser \<Rightarrow> string \<Rightarrow> string \<Rightarrow>
    int \<Rightarrow> (string, int) gomap \<Rightarrow> go_error option" where
  "validateCrossValidationStartup r parser chainID apiInterface configuredGroups groupSizes =
     (if \<not> HasPolicies r then None
      else case validateCrossValidationSpecGuards r parser chainID apiInterface of
             Some e \<Rightarrow> Some e
           | None \<Rightarrow>
               let requiredGroups = MaxResolvedMinGroups r chainID apiInterface in
               if requiredGroups > 1 \<and> configuredGroups > 0 \<and> configuredGroups < requiredGroups then
                 Some (ErrNew ''cross-validation min-groups policy cannot be satisfied'')
               else if groupSizes \<noteq> [] \<and>
                 list_ex (\<lambda>req. QualifyingGroupCount groupSizes (req_Threshold req) < req_MinGroups req)
                   (PerGroupRequirements r chainID apiInterface) then
                 Some (ErrNew ''cross-validation per-group-quorum policy cannot be satisfied'')
               else None)"

definition groupSizesOf :: "(string, string list) gomap \<Rightarrow> (string, int) gomap" where
  "groupSizesOf assignments = map (\<lambda>(label, ps). (label, int (length ps))) assignments"

definition staticProviderGroupAssignments :: "(string \<times> string) list \<Rightarrow> (string, string list) gomap" where
  "staticProviderGroupAssignments providers =
     map (\<lambda>(label, ps). (label, sort ps))
       (fold (\<lambda>(name, group) m.
          let label = (if group \<noteq> [] then group else DefaultProviderGroup)
          in mput label ((case mget m label of Some ps \<Rightarrow> ps | None \<Rightarrow> []) @ [name]) m) providers [])"

definition providersMissingFrom :: "(string, string list) gomap \<Rightarrow> (string, string list) gomap \<Rightarrow> string list" where
  "providersMissingFrom configured verified =
     sort (filter (\<lambda>p. p \<notin> set (concat (map snd verified))) (concat (map snd configured)))"

record crossValidationFleetAdvisory =
  requiredProviders :: int
  adv_requiredGroups :: int
  configuredShort :: bool
  unavailable :: "string list"

definition validateCrossValidationFleet :: "CrossValidationPolicyResolver option \<Rightarrow> chain_parser \<Rightarrow> string \<Rightarrow> string \<Rightarrow>
    (string, string list) gomap \<Rightarrow> (string, string list) gomap \<Rightarrow> go_error + crossValidationFleetAdvisory option" where
  "validateCrossValidationFleet r parser chainID apiInterface configured verified =
     (case validateCrossValidationStartup r parser chainID apiInterface (int (length configured)) (groupSizesOf configured) of
        Some e \<Rightarrow> Inl e
      | None \<Rightarrow>
          let (rp, rg) = crossValidationShortfall r chainID apiInterface (groupSizesOf verified);
              backupOnly = (configured = [] \<and> headerlessParams r chainID apiInterface \<noteq> [])
          in if rp = 0 \<and> rg = 0 \<and> \<not> backupOnly then Inr None
             else
               let (cp, cg) = crossValidationShortfall r chainID apiInterface (groupSizesOf configured)
               in Inr (Some \<lparr>requiredProviders = rp, adv_requiredGroups = rg,
                    configuredShort = (backupOnly \<or> cp > 0 \<or> cg > 0),
                    unavailable = providersMissingFrom configured verified\<rparr>))"

definition crossValidationFinality :: "int \<Rightarrow> int \<Rightarrow> int \<Rightarrow> string" where
  "crossValidationFinality requestedBlock latestBlock finalizationDistance =
     (if requestedBlock < 0 \<or> latestBlock \<le> 0 then ''unknown''
      else if IsFinalizedBlock requestedBlock latestBlock finalizationDistance then ''finalized'' else ''not_finalized'')"

section \<open>Knobs and validated policies\<close>

definition in_bound :: "Bound \<Rightarrow> int \<Rightarrow> bool" where
  "in_bound b v \<longleftrightarrow> (case Floor b of Some f \<Rightarrow> f \<le> v | None \<Rightarrow> True) \<and> (case Cap b of Some c \<Rightarrow> v \<le> c | None \<Rightarrow> True)"

lemma resolveKnob_in_bound:
  assumes "check_bound b = None"
  shows "in_bound b (resolveKnob v present b def)"
  using assms by (auto simp: check_bound_def in_bound_def resolveKnob_def Let_def split: option.splits if_splits)

lemma resolveKnob_pos:
  assumes "check_bound b = None" "1 \<le> def" "present \<Longrightarrow> 1 \<le> v"
  shows "1 \<le> resolveKnob v present b def"
  using assms by (auto simp: check_bound_def resolveKnob_def Let_def split: option.splits if_splits)

lemma resolveKnob_default_positions:
  "1 \<le> defaultEnabledMaxParticipants" "1 \<le> defaultEnabledAgreementThreshold" "1 \<le> defaultEnabledMinGroups"
  by (simp_all add: defaultEnabledMaxParticipants_def defaultEnabledAgreementThreshold_def defaultEnabledMinGroups_def)

lemma first_error_None: "first_error es = None \<longleftrightarrow> (\<forall>e \<in> set es. e = None)"
  by (induction es rule: first_error.induct) auto

text \<open>What a validated policy guarantees about itself.\<close>

lemma Validate_bounds:
  assumes "Validate p = None"
  shows "check_bound (pol_MaxParticipants p) = None" "check_bound (pol_AgreementThreshold p) = None"
    "check_bound (pol_MinGroups p) = None" "\<not> (pol_Enabled p \<and> pol_ForbidCallerCV p)"
  using assms by (auto simp: Validate_def first_error_None split: if_splits option.splits)

lemma Validate_enabled:
  assumes "Validate p = None" "pol_Enabled p"
  shows "noCallerThreshold p \<le> noCallerMax p" "noCallerMinGroups p \<le> noCallerMax p"
    "pol_PerGroupQuorum p \<Longrightarrow> 1 < noCallerMinGroups p"
    "pol_PerGroupQuorum p \<Longrightarrow> mul64 (noCallerMinGroups p) (noCallerThreshold p) \<le> noCallerMax p"
  using assms by (auto simp: Validate_def split: if_splits option.splits)

lemma noCaller_pos:
  assumes "Validate p = None"
  shows "1 \<le> noCallerMax p" "1 \<le> noCallerThreshold p" "1 \<le> noCallerMinGroups p"
  using Validate_bounds [OF assms] resolveKnob_default_positions by (auto intro: resolveKnob_pos)

text \<open>The invariant of a resolver: one validated policy under each key.\<close>

definition resolver_ok :: "CrossValidationPolicyResolver \<Rightarrow> bool" where
  "resolver_ok r \<longleftrightarrow> wf_map (policies r) \<and> (\<forall>k p. mget (policies r) k = Some p \<longrightarrow> Validate p = None)"

lemma add_policies_ok: "add_policies i es r = Inr r' \<Longrightarrow> resolver_ok r \<Longrightarrow> resolver_ok r'"
proof (induction i es r rule: add_policies.induct)
  case (2 i e es r)
  let ?k = "policyKey (ent_ChainID e) (ent_ApiInterface e) (ent_Method e)"
  let ?r = "r\<lparr>policies := mput ?k (ent_Policy e) (policies r), positions := mput ?k i (positions r)\<rparr>"
  have ok: "Validate (ent_Policy e) = None" and rest: "add_policies (i + 1) es ?r = Inr r'"
    and new: "\<not> (ent_ChainID e = [] \<or> ent_ApiInterface e = [] \<or> ent_Method e = [])" "\<not> mget (policies r) ?k \<noteq> None"
    using 2(2) by (auto simp: Let_def split: if_splits option.splits)
  have "resolver_ok ?r" using 2(3) ok by (auto simp: resolver_ok_def)
  then show ?case using 2(1) [OF new(1) ok refl new(2) rest] by blast
qed simp

lemma new_resolver_ok: "NewCrossValidationPolicyResolver cfg = Inr r \<Longrightarrow> resolver_ok r"
  unfolding NewCrossValidationPolicyResolver_def by (erule add_policies_ok) (simp add: resolver_ok_def)

lemma caller_params_ok:
  assumes "GetCrossValidationParameters hs = Some (Inr q)"
  shows "1 \<le> AgreementThreshold q" "AgreementThreshold q \<le> MaxParticipants q" "MinGroups q = 1" "\<not> PerGroupQuorum q"
  using assms by (auto simp: GetCrossValidationParameters_def split: option.splits if_splits)

text \<open>An enabled policy, whatever the caller asks.\<close>

lemma resolve_enabled_facts:
  assumes "Validate p = None" "pol_Enabled p"
    and "\<And>c. caller = Some c \<Longrightarrow> 1 \<le> AgreementThreshold c \<and> 1 \<le> MaxParticipants c"
  defines "q \<equiv> resolve_enabled p caller"
  shows "1 \<le> AgreementThreshold q" "AgreementThreshold q \<le> MaxParticipants q"
    "MinGroups q = noCallerMinGroups p" "MinGroups q \<le> MaxParticipants q" "noCallerThreshold p \<le> MaxParticipants q"
    "PerGroupQuorum q = pol_PerGroupQuorum p"
    "in_bound (pol_MaxParticipants p) (MaxParticipants q)" "in_bound (pol_AgreementThreshold p) (AgreementThreshold q)"
proof -
  let ?m = "resolveKnob (case caller of Some c \<Rightarrow> MaxParticipants c | None \<Rightarrow> 0) (caller \<noteq> None) (pol_MaxParticipants p) defaultEnabledMaxParticipants"
  let ?t = "resolveKnob (case caller of Some c \<Rightarrow> AgreementThreshold c | None \<Rightarrow> 0) (caller \<noteq> None) (pol_AgreementThreshold p) defaultEnabledAgreementThreshold"
  note b = Validate_bounds [OF assms(1)] and e = Validate_enabled [OF assms(1,2)] and pos = noCaller_pos [OF assms(1)]
  have "1 \<le> ?t" using b(2) resolveKnob_default_positions(2) assms(3) by (auto intro!: resolveKnob_pos split: option.splits)
  have q: "MaxParticipants q = max ?m (max (noCallerThreshold p) (noCallerMinGroups p))"
    "AgreementThreshold q = min ?t (MaxParticipants q)" "MinGroups q = noCallerMinGroups p"
    "PerGroupQuorum q \<longleftrightarrow> pol_PerGroupQuorum p \<and> noCallerMinGroups p > 1"
    by (auto simp: q_def resolve_enabled_def Let_def)
  show "1 \<le> AgreementThreshold q" "AgreementThreshold q \<le> MaxParticipants q" "MinGroups q = noCallerMinGroups p"
    "MinGroups q \<le> MaxParticipants q" "noCallerThreshold p \<le> MaxParticipants q"
    using q \<open>1 \<le> ?t\<close> pos by auto
  show "PerGroupQuorum q = pol_PerGroupQuorum p" using q(4) e(3) by auto
  have m: "in_bound (pol_MaxParticipants p) ?m" "in_bound (pol_MaxParticipants p) (noCallerMax p)"
    using resolveKnob_in_bound [OF b(1)] by blast+
  show "in_bound (pol_MaxParticipants p) (MaxParticipants q)"
    using m e(1,2) unfolding q(1) by (auto simp: in_bound_def split: option.splits)
  have t: "in_bound (pol_AgreementThreshold p) ?t" "in_bound (pol_AgreementThreshold p) (noCallerThreshold p)"
    using resolveKnob_in_bound [OF b(2)] by blast+
  show "in_bound (pol_AgreementThreshold p) (AgreementThreshold q)"
    using t unfolding q(2) q(1) by (auto simp: in_bound_def split: option.splits)
qed

text \<open>C10. A caller cannot weaken an operator's mandate. Under an enabled policy of a loaded configuration
  a request of the method that carries no cross-validation headers, or ones that parse, resolves to cross-validation
  parameters, whatever numbers the headers name: the threshold and the number of groups are positive and at most
  the number of participants, the relay processor accepts them, participants and threshold lie within the operator's
  floor and cap, and the groups required, and whether each needs its own quorum, are the operator's. Headers that do
  not parse never reach the resolver: the request is refused. With a quorum per group the product of groups and
  threshold may still exceed the participants; that is left to the capacity guard of the request.\<close>

theorem caller_cannot_weaken_policy:
  assumes "NewCrossValidationPolicyResolver cfg = Inr r"
    and "mget (policies r) (policyKey chain api method) = Some p" and "pol_Enabled p"
    and "caller = None \<or> GetCrossValidationParameters hs = Some (Inr (the caller))"
  shows "\<exists>q. Resolve (Some r) chain api method caller = Some q
    \<and> 1 \<le> AgreementThreshold q \<and> AgreementThreshold q \<le> MaxParticipants q
    \<and> 1 \<le> MinGroups q \<and> MinGroups q \<le> MaxParticipants q
    \<and> in_bound (pol_MaxParticipants p) (MaxParticipants q) \<and> in_bound (pol_AgreementThreshold p) (AgreementThreshold q)
    \<and> MinGroups q = noCallerMinGroups p \<and> PerGroupQuorum q = pol_PerGroupQuorum p
    \<and> NewRelayProcessor (Some q) CrossValidation \<noteq> None"
proof -
  have v: "Validate p = None" using new_resolver_ok [OF assms(1)] assms(2) by (auto simp: resolver_ok_def)
  have caller: "1 \<le> AgreementThreshold c \<and> 1 \<le> MaxParticipants c" if "caller = Some c" for c
    using assms(4) that caller_params_ok [of hs c] by auto
  note f = resolve_enabled_facts [OF v assms(3), of caller, OF caller]
  have "Resolve (Some r) chain api method caller = Some (resolve_enabled p caller)"
    using assms(2,3) Validate_bounds(4) [OF v] by (simp add: Resolve_def)
  moreover have "NewRelayProcessor (Some (resolve_enabled p caller)) CrossValidation \<noteq> None"
    using f(1,2) by (simp add: NewRelayProcessor_def)
  ultimately show ?thesis using f noCaller_pos(3) [OF v] by auto
qed

definition no_bound :: Bound where "no_bound = \<lparr>Floor = None, Cap = None\<rparr>"

definition strict_policy :: CrossValidationPolicy where
  "strict_policy = \<lparr>pol_Enabled = True, pol_MaxParticipants = no_bound, pol_AgreementThreshold = \<lparr>Floor = Some 3, Cap = None\<rparr>,
     pol_MinGroups = no_bound, pol_PerGroupQuorum = False, pol_ForbidCallerCV = False\<rparr>"

definition diverse_policy :: CrossValidationPolicy where
  "diverse_policy = \<lparr>pol_Enabled = True, pol_MaxParticipants = no_bound, pol_AgreementThreshold = no_bound,
     pol_MinGroups = \<lparr>Floor = Some 2, Cap = None\<rparr>, pol_PerGroupQuorum = False, pol_ForbidCallerCV = False\<rparr>"

definition graphql_config :: "CrossValidationPolicyEntry list" where
  "graphql_config =
     [\<lparr>ent_ChainID = ''APT1'', ent_ApiInterface = ''graphql'', ent_Method = ''balance'', ent_Policy = strict_policy\<rparr>,
      \<lparr>ent_ChainID = ''APT1'', ent_ApiInterface = ''graphql'', ent_Method = ''events'', ent_Policy = diverse_policy\<rparr>]"

definition graphql_resolver :: CrossValidationPolicyResolver where
  "graphql_resolver = projr (NewCrossValidationPolicyResolver graphql_config)"

lemma graphql_resolver_new: "NewCrossValidationPolicyResolver graphql_config = Inr graphql_resolver"
  by code_simp

lemma graphql_policies:
  "mget (policies graphql_resolver) (policyKey ''APT1'' ''GraphQL'' ''balance'') = Some strict_policy"
  "mget (policies graphql_resolver) (policyKey ''APT1'' ''GraphQL'' ''events'') = Some diverse_policy"
  by code_simp+

text \<open>A caller who asks for one participant and one answer still gets the operator's threshold of three.\<close>

theorem caller_cannot_weaken_policy_witness:
  "\<exists>q. Resolve (Some graphql_resolver) ''APT1'' ''GraphQL'' ''balance''
      (Some \<lparr>MaxParticipants = 1, AgreementThreshold = 1, MinGroups = 1, PerGroupQuorum = False\<rparr>) = Some q
    \<and> 3 \<le> AgreementThreshold q \<and> AgreementThreshold q \<le> MaxParticipants q"
proof -
  have hs: "GetCrossValidationParameters [(CROSS_VALIDATION_HEADER_MAX_PARTICIPANTS, ''1''),
      (CROSS_VALIDATION_HEADER_AGREEMENT_THRESHOLD, ''1'')] =
      Some (Inr \<lparr>MaxParticipants = 1, AgreementThreshold = 1, MinGroups = 1, PerGroupQuorum = False\<rparr>)"
    by code_simp
  show ?thesis
    using caller_cannot_weaken_policy [OF graphql_resolver_new graphql_policies(1),
        of "Some \<lparr>MaxParticipants = 1, AgreementThreshold = 1, MinGroups = 1, PerGroupQuorum = False\<rparr>"] hs
    by (auto simp: strict_policy_def in_bound_def)
qed

section \<open>Requests without a policy, requests with several\<close>

lemma split_on_nonempty: "split_on c s \<noteq> []"
  by (induction s) (auto split: list.splits)

lemma policy_methods_nonempty: "crossValidationPolicyMethods api method \<noteq> []"
  by (simp add: crossValidationPolicyMethods_def split_on_nonempty)

lemma stricter_irrefl [simp]: "\<not> stricterCrossValidation a a"
  by (simp add: stricterCrossValidation_def)

lemma strictest_same: "set es \<subseteq> {x} \<Longrightarrow> es \<noteq> [] \<or> best = x \<Longrightarrow> best = None \<or> best = x \<Longrightarrow> strictest es best = x"
  by (induction es best rule: strictest.induct) auto

text \<open>No method of the request has a policy that mandates or forbids.\<close>

definition ungoverned :: "CrossValidationPolicyResolver option \<Rightarrow> string \<Rightarrow> string \<Rightarrow> string \<Rightarrow> bool" where
  "ungoverned r chain api method \<longleftrightarrow>
     list_all (\<lambda>m. case r of None \<Rightarrow> True
        | Some r \<Rightarrow> (case mget (policies r) (policyKey chain api m) of None \<Rightarrow> True
                    | Some p \<Rightarrow> \<not> pol_Enabled p \<and> \<not> pol_ForbidCallerCV p))
       (crossValidationPolicyMethods api method)"

lemma ungoverned_resolve:
  assumes "ungoverned r chain api method" "m \<in> set (crossValidationPolicyMethods api method)"
  shows "Resolve r chain api m caller = caller" "\<not> ForbidsCallerCV r chain api m"
  using assms by (auto simp: ungoverned_def list_all_iff Resolve_def ForbidsCallerCV_def split: option.splits)

text \<open>Without a policy nothing changes: a request none of whose methods has an enabled or forbidding
  policy gets exactly the state machine it would get on a router with no policies, headers, writes and
  errors included, whatever policies other methods have.\<close>

theorem ungoverned_request_unchanged:
  assumes "ungoverned r chain api method"
  shows "NewSmartRouterRelayStateMachineWithPolicy r chain api method stateful headers pol
    = NewUnifiedRelayStateMachine None False stateful headers pol"
proof -
  let ?ms = "crossValidationPolicyMethods api method"
  have all: "strictest (map (\<lambda>m. Resolve r chain api m caller) ?ms) None = caller" for caller
    using ungoverned_resolve(1) [OF assms] policy_methods_nonempty [of api "method"]
    by (intro strictest_same) auto
  have none: "\<not> list_ex (ForbidsCallerCV r chain api) ?ms"
    using ungoverned_resolve(2) [OF assms] by (auto simp: list_ex_iff)
  show ?thesis
    by (auto simp: NewSmartRouterRelayStateMachineWithPolicy_def request_override_def Let_def all none
        NewUnifiedRelayStateMachine_def choose_selection_def split: option.split sum.split)
qed

theorem ungoverned_request_unchanged_witness:
  "NewSmartRouterRelayStateMachineWithPolicy (Some graphql_resolver) ''APT1'' ''graphql'' ''blocks'' False None (NewPolicy (SmartRouterPolicyConfig 2 False))
    = NewUnifiedRelayStateMachine None False False None (NewPolicy (SmartRouterPolicyConfig 2 False))"
proof -
  have "ungoverned (Some graphql_resolver) ''APT1'' ''graphql'' ''blocks''" by code_simp
  from ungoverned_request_unchanged [OF this] show ?thesis .
qed

text \<open>Of several policies the strictest in the code's order wins.\<close>

lemma stricter_trans: "stricterCrossValidation a b \<Longrightarrow> stricterCrossValidation b c \<Longrightarrow> stricterCrossValidation a c"
  by (auto simp: stricterCrossValidation_def split: if_splits)

lemma stricter_neg_trans: "\<not> stricterCrossValidation a b \<Longrightarrow> \<not> stricterCrossValidation b c \<Longrightarrow> \<not> stricterCrossValidation a c"
  by (auto simp: stricterCrossValidation_def split: if_splits)

lemma strictest_max:
  "Some e \<in> insert best (set es) \<Longrightarrow> \<exists>b. strictest es best = Some b \<and> \<not> stricterCrossValidation e b"
proof (induction es arbitrary: best e)
  case (Cons x es)
  show ?case
  proof (cases x)
    case None
    then show ?thesis using Cons by auto
  next
    case (Some eff)
    define best' where "best' = (case best of None \<Rightarrow> Some eff | Some b \<Rightarrow> if stricterCrossValidation eff b then Some eff else best)"
    obtain b where b: "best' = Some b" by (cases best; cases "stricterCrossValidation eff (the best)") (auto simp: best'_def)
    have run: "strictest (x # es) best = strictest es best'" by (simp add: Some best'_def)
    show ?thesis
    proof (cases "Some e \<in> set es")
      case True
      then show ?thesis unfolding run by (intro Cons.IH) simp
    next
      case False
      then have "best = Some e \<or> e = eff" using Cons.prems Some by auto
      then have e: "\<not> stricterCrossValidation e b"
        using b by (cases best) (auto simp: best'_def stricterCrossValidation_def split: if_splits)
      have "\<exists>c. strictest es best' = Some c \<and> \<not> stricterCrossValidation b c" by (rule Cons.IH) (simp add: b)
      then show ?thesis unfolding run using e stricter_neg_trans by blast
    qed
  qed
qed auto

lemma strictest_in: "strictest es best = Some b \<Longrightarrow> Some b \<in> insert best (set es)"
  by (induction es best rule: strictest.induct) (auto split: option.splits if_splits)

text \<open>Bundling a governed operation with others does not escape its threshold: a request that
  is not a write and selects a method with an enabled policy is cross-validated whatever else it
  selects, and needs at least as many agreeing answers as that policy alone asks for.\<close>

theorem bundling_keeps_threshold:
  assumes "NewCrossValidationPolicyResolver cfg = Inr r"
    and "m \<in> set (crossValidationPolicyMethods api method)"
    and "mget (policies r) (policyKey chain api m) = Some p" and "pol_Enabled p"
    and "request_override (Some r) chain api method False headers = Inr (ov, forbid)"
  shows "\<exists>q caller. ov = Some q \<and> Resolve (Some r) chain api m caller = Some (resolve_enabled p caller)
    \<and> caller \<in> {None, (case headers of Some (Inr c) \<Rightarrow> Some c | _ \<Rightarrow> None)}
    \<and> AgreementThreshold (resolve_enabled p caller) \<le> AgreementThreshold q"
proof -
  let ?ms = "crossValidationPolicyMethods api method"
  have "HasPolicies (Some r)" using assms(3) by (cases "policies r") (auto simp: HasPolicies_def)
  then obtain caller where ov: "ov = strictest (map (\<lambda>m. Resolve (Some r) chain api m caller) ?ms) None"
    and caller: "caller \<in> {None, (case headers of Some (Inr c) \<Rightarrow> Some c | _ \<Rightarrow> None)}"
    using assms(5) by (auto simp: request_override_def Let_def split: option.splits sum.splits if_splits)
  have "Validate p = None" using new_resolver_ok [OF assms(1)] assms(3) by (auto simp: resolver_ok_def)
  then have res: "Resolve (Some r) chain api m caller = Some (resolve_enabled p caller)"
    using assms(3,4) Validate_bounds(4) by (auto simp: Resolve_def)
  then have "Some (resolve_enabled p caller) \<in> set (map (\<lambda>m. Resolve (Some r) chain api m caller) ?ms)"
    using assms(2) by (metis imageI list.set_map)
  then obtain q where "ov = Some q" "\<not> stricterCrossValidation (resolve_enabled p caller) q"
    unfolding ov using strictest_max [of "resolve_enabled p caller" None] by (metis insertI2)
  moreover from this(2) have "AgreementThreshold (resolve_enabled p caller) \<le> AgreementThreshold q"
    by (auto simp: stricterCrossValidation_def split: if_splits)
  ultimately show ?thesis using res caller by blast
qed

theorem bundling_keeps_threshold_witness:
  "\<exists>q. request_override (Some graphql_resolver) ''APT1'' ''GraphQL'' ''balance&events'' False None = Inr (Some q, False)
     \<and> 3 \<le> AgreementThreshold q"
proof -
  let ?q = "\<lparr>MaxParticipants = 3, AgreementThreshold = 3, MinGroups = 1, PerGroupQuorum = False\<rparr>"
  have ov: "request_override (Some graphql_resolver) ''APT1'' ''GraphQL'' ''balance&events'' False None = Inr (Some ?q, False)"
    by code_simp
  have on: "pol_Enabled strict_policy" by code_simp
  have m: "''balance'' \<in> set (crossValidationPolicyMethods ''GraphQL'' ''balance&events'')" by code_simp
  have t: "AgreementThreshold (resolve_enabled strict_policy None) = 3" by code_simp
  show ?thesis
    using bundling_keeps_threshold [OF graphql_resolver_new m graphql_policies(1) on ov] ov t by auto
qed

text \<open>Bundling can lose group diversity: only the policy with the highest threshold is kept, so
  a method whose policy asks for two provider groups, selected together with one whose policy asks for a higher
  threshold, is answered under a requirement of a single group.\<close>

theorem bundling_loses_group_diversity:
  "map_option MinGroups (Resolve (Some graphql_resolver) ''APT1'' ''graphql'' ''events'' None) = Some 2
   \<and> (case request_override (Some graphql_resolver) ''APT1'' ''graphql'' ''events&balance'' False None of
        Inr (Some q, forbid) \<Rightarrow> MinGroups q = 1
      | _ \<Rightarrow> False)"
  by code_simp

section \<open>The request-time guard and the startup forecast\<close>

text \<open>A choice of \<open>k\<close> candidates that contains a given smaller one.\<close>

lemma extend_choice:
  assumes "M \<subseteq># mset gs" "size M \<le> k" "k \<le> length gs"
  obtains ps where "M \<subseteq># mset ps" "mset ps \<subseteq># mset gs" "length ps = k"
proof -
  obtain rs where rs: "mset rs = mset gs - M" using ex_mset by blast
  obtain ms where ms: "mset ms = M" using ex_mset by blast
  let ?ps = "ms @ take (k - length ms) rs"
  have "length ms = size M" using ms by (metis size_mset)
  moreover have "length rs = length gs - size M" using rs assms(1) by (metis size_Diff_submset size_mset)
  ultimately have "length ?ps = k" using assms by simp
  moreover have "mset (take (k - length ms) rs) \<subseteq># mset rs"
    by (metis append_take_drop_id mset_append mset_subset_eq_add_left)
  then have "mset ?ps \<subseteq># mset gs" using ms rs assms(1)
    by (metis add_diff_cancel_left' mset_append mset_subset_eq_mono_add_left_cancel subset_mset.add_diff_inverse)
  ultimately show thesis using that [of ?ps] ms by simp
qed

lemma per_group_needs:
  assumes "quorum_rule True t mg ps" "1 \<le> t" "1 \<le> mg"
  shows "mg * t \<le> int (length ps)"
proof -
  let ?G = "{g \<in> set ps. t \<le> int (count_list ps g)}"
  have "mg * t \<le> int (card ?G) * t" using assms by (intro mult_right_mono) (auto simp: quorum_rule_def)
  also have "\<dots> = (\<Sum>g\<in>?G. t)" by simp
  also have "\<dots> \<le> (\<Sum>g\<in>?G. int (count_list ps g))" by (rule sum_mono) simp
  also have "\<dots> \<le> (\<Sum>g\<in>set ps. int (count_list ps g))" by (rule sum_mono2) auto
  also have "\<dots> = int (length ps)" using sum_count_set [of ps "set ps"] by (simp flip: of_nat_sum)
  finally show ?thesis .
qed

text \<open>The smallest quorums: one provider of each group, or a threshold of providers of each group.\<close>

lemma diverse_core:
  assumes "n \<le> card (set gs)"
  obtains M where "M \<subseteq># mset gs" "size M = n" "n \<le> card (set_mset M)"
proof -
  obtain S where S: "S \<subseteq> set gs" "card S = n" "finite S"
    using obtain_subset_with_card_n [OF assms] by blast
  have "mset_set S \<subseteq># mset_set (set gs)" using S(1) by (simp add: subset_imp_msubset_mset_set)
  also have "\<dots> \<subseteq># mset gs" by (rule mset_set_set_mset_msubset [of "mset gs", simplified])
  finally have "mset_set S \<subseteq># mset gs" .
  then show thesis using that [of "mset_set S"] S by simp
qed

lemma per_group_core:
  assumes "n \<le> card {g \<in> set gs. k \<le> count_list gs g}"
  obtains M where "M \<subseteq># mset gs" "size M = n * k" "n \<le> card {g. g \<in> set gs \<and> k \<le> count M g}"
proof -
  obtain S where S: "S \<subseteq> {g \<in> set gs. k \<le> count_list gs g}" "card S = n" "finite S"
    using obtain_subset_with_card_n [OF assms] by blast
  let ?M = "\<Sum>g\<in>S. replicate_mset k g"
  have c: "count ?M g = (if g \<in> S then k else 0)" for g
    using S(3) by (simp add: count_sum sum.delta)
  have "?M \<subseteq># mset gs" using S(1) by (auto simp: subseteq_mset_def c count_mset)
  moreover have "size ?M = n * k" using S(2) by (simp add: size_multiset_sum)
  moreover have "n \<le> card {g. g \<in> set gs \<and> k \<le> count ?M g}"
    unfolding S(2) [symmetric] by (rule card_mono) (use S(1) in \<open>auto simp: c\<close>)
  ultimately show thesis using that by blast
qed

lemma sum_bump: "sum_list (map snd (bump k n m)) = sum_list (map snd m) + n"
  unfolding bump_def by (induction m) (auto split: option.split)

lemma sum_group_tally: "sum_list (map snd (group_tally gs)) = int (length gs)"
  by (induction gs rule: rev_induct) (simp_all add: sum_bump)

lemma capacity_guard_cases:
  "validateCrossValidationCapacity CrossValidation (Some q) (group_tally gs) = []
   \<longleftrightarrow> MaxParticipants q \<le> int (length gs) \<and> MinGroups q \<le> int (card (set gs))
     \<and> (PerGroupQuorum q \<longrightarrow> mul64 (MinGroups q) (AgreementThreshold q) \<le> MaxParticipants q
          \<and> MinGroups q \<le> int (card {g \<in> set gs. AgreementThreshold q \<le> int (count_list gs g)}))"
  by (auto simp: validateCrossValidationCapacity_def sum_group_tally length_group_tally qualifying_group_tally
      CrossValidationReasonInsufficientCapacity_def CrossValidationReasonInsufficientGroups_def)

lemma quorum_choice_exists:
  assumes "1 \<le> t" "t \<le> m" "1 \<le> mg" "mg \<le> m" "m \<le> int (length gs)" "mg \<le> int (card (set gs))"
    and pg: "pg \<Longrightarrow> mg * t \<le> m \<and> mg \<le> int (card {g \<in> set gs. t \<le> int (count_list gs g)})"
  shows "\<exists>ps. mset ps \<subseteq># mset gs \<and> int (length ps) = m \<and> quorum_rule pg t mg ps"
proof (cases pg)
  case True
  have "nat mg \<le> card {g \<in> set gs. nat t \<le> count_list gs g}" using pg [OF True] by (simp add: nat_le_iff)
  then obtain M where M: "M \<subseteq># mset gs" "size M = nat mg * nat t" "nat mg \<le> card {g. g \<in> set gs \<and> nat t \<le> count M g}"
    using per_group_core by blast
  have "size M \<le> nat m" using M(2) pg [OF True] assms(1,3) by (auto simp flip: nat_mult_distrib intro: nat_mono)
  then obtain ps where ps: "M \<subseteq># mset ps" "mset ps \<subseteq># mset gs" "length ps = nat m"
    using extend_choice [OF M(1)] assms(5) by (metis nat_le_iff)
  have "count M g \<le> count_list ps g" for g using ps(1) by (metis count_mset mset_subset_eq_count)
  then have "{g. g \<in> set gs \<and> nat t \<le> count M g} \<subseteq> {g \<in> set ps. t \<le> int (count_list ps g)}"
    using assms(1) mset_subset_eqD [OF ps(1)] by (auto simp: nat_le_iff simp flip: count_greater_zero_iff intro: order_trans [of t] of_nat_mono)
  then have "card {g. g \<in> set gs \<and> nat t \<le> count M g} \<le> card {g \<in> set ps. t \<le> int (count_list ps g)}"
    by (intro card_mono) auto
  with M(3) have "nat mg \<le> card {g \<in> set ps. t \<le> int (count_list ps g)}" by linarith
  then show ?thesis using ps assms(1,2) True by (intro exI [of _ ps]) (auto simp: quorum_rule_def)
next
  case False
  obtain M where M: "M \<subseteq># mset gs" "size M = nat mg" "nat mg \<le> card (set_mset M)"
    using diverse_core [of "nat mg" gs] assms(6) by (metis nat_le_iff)
  have "size M \<le> nat m" using M(2) assms(4) by simp
  then obtain ps where ps: "M \<subseteq># mset ps" "mset ps \<subseteq># mset gs" "length ps = nat m"
    using extend_choice [OF M(1)] assms(5) by (metis nat_le_iff)
  have "card (set_mset M) \<le> card (set ps)" using set_mset_mono [OF ps(1)] by (simp add: card_mono)
  then show ?thesis using ps M(3) assms(1,2) False by (intro exI [of _ ps]) (auto simp: quorum_rule_def)
qed

text \<open>C11. The request-time guard is exact. For well-formed parameters it lets a cross-validated request
  through exactly when some choice of \<open>MaxParticipants\<close> of the candidates would, by agreeing, satisfy the
  quorum rule the relay processor applies to the answers. (\<open>gs\<close> lists the group of each candidate.)\<close>

theorem capacity_guard_is_exact:
  assumes "1 \<le> AgreementThreshold q" "AgreementThreshold q \<le> MaxParticipants q" "1 \<le> MinGroups q"
    "MinGroups q \<le> MaxParticipants q" "length gs < 2147483648"
  shows "validateCrossValidationCapacity CrossValidation (Some q) (group_tally gs) = []
    \<longleftrightarrow> (\<exists>ps. mset ps \<subseteq># mset gs \<and> int (length ps) = MaxParticipants q
          \<and> quorum_rule (PerGroupQuorum q) (AgreementThreshold q) (MinGroups q) ps)"
    (is "?guard \<longleftrightarrow> ?choice")
proof -
  let ?m = "MaxParticipants q" and ?mg = "MinGroups q" and ?t = "AgreementThreshold q"
  have mul: "mul64 ?mg ?t = ?mg * ?t" if "?m \<le> int (length gs)"
  proof -
    have "?mg * ?t \<le> 2147483648 * 2147483648" using assms that by (intro mult_mono) linarith+
    moreover have "0 \<le> ?mg * ?t" using assms by simp
    ultimately show ?thesis by (simp add: mul64_id in_int64_def min_int64_def max_int64_def)
  qed
  show ?thesis
  proof
    assume ?guard
    with mul show ?choice unfolding capacity_guard_cases using assms by (intro quorum_choice_exists) auto
  next
    assume ?choice
    then obtain ps where ps: "mset ps \<subseteq># mset gs" "int (length ps) = ?m" "quorum_rule (PerGroupQuorum q) ?t ?mg ps" by blast
    note q = quorum_rule_mono [OF ps(1,3)]
    have "?m \<le> int (length gs)" using ps(1,2) size_mset_mono by fastforce
    moreover have "?mg \<le> int (card (set gs))"
      using q by (auto simp: quorum_rule_def split: if_splits elim!: order_trans intro!: card_mono)
    moreover have "?mg * ?t \<le> ?m" if "PerGroupQuorum q"
      using per_group_needs [of ?t ?mg ps] ps(2,3) that assms by simp
    ultimately show ?guard unfolding capacity_guard_cases using mul q by (simp add: quorum_rule_def split: if_splits)
  qed
qed

theorem capacity_guard_is_exact_witness:
  "\<exists>ps. mset ps \<subseteq># mset [''a'', ''b'', ''a'', ''c'', ''b''] \<and> int (length ps) = 4 \<and> quorum_rule True 2 2 ps"
  using capacity_guard_is_exact [of "\<lparr>MaxParticipants = 4, AgreementThreshold = 2, MinGroups = 2, PerGroupQuorum = True\<rparr>"
      "[''a'', ''b'', ''a'', ''c'', ''b'']"]
  by (simp add: validateCrossValidationCapacity_def group_tally_def bump_def QualifyingGroupCount_def mul64_def wrap64_def)

text \<open>The parameters of the headerless requests are those of the enabled policies of the endpoint.\<close>

lemma headerless_params_are:
  assumes "resolver_ok r"
  shows "set (headerlessParams (Some r) c a) =
    {resolve_enabled p None | m p. mget (policies r) (policyKey c a m) = Some p \<and> pol_Enabled p}"
proof -
  have "Resolve (Some r) c a m None = Some (resolve_enabled p None)"
    if "mget (policies r) (policyKey c a m) = Some p" "pol_Enabled p" for m p
    using that assms Validate_bounds(4) [of p] by (auto simp: Resolve_def resolver_ok_def)
  then show ?thesis
    using assms by (force simp: headerlessParams_def endpoint_policies_def is_prefix_of_iff trim_prefix_def policyKey_def
        resolver_ok_def wf_map_in_iff image_iff)
qed

lemma shortfall_fold:
  "fold (\<lambda>params (rp, rg). (if P params then max rp (f params) else rp, if Q params then max rg (g params) else rg)) qs (x, y) = (0 :: int, 0 :: int)
   \<longleftrightarrow> x = 0 \<and> y = 0 \<and> (\<forall>q\<in>set qs. (\<not> P q) \<and> \<not> Q q)"
  if "\<forall>q\<in>set qs. 1 \<le> f q \<and> 1 \<le> g q" "0 \<le> x" "0 \<le> y"
  using that by (induction qs arbitrary: x y) (auto simp: max_def split: if_splits)

text \<open>For the headerless request of a validated policy the guard and the forecast test the same two
  shortfalls: the per-group product fits by validation, and an empty layout has no candidate.\<close>

lemma headerless_policy:
  assumes "Validate p = None" "pol_Enabled p"
  defines "q \<equiv> resolve_enabled p None"
  shows "1 \<le> MaxParticipants q" "1 \<le> MinGroups q"
    "validateCrossValidationCapacity CrossValidation (Some q) sizes = [] \<longleftrightarrow>
      \<not> MaxParticipants q > sum_list (map snd sizes) \<and> \<not> snd (crossValidationGroupShortfall sizes (Some q)) \<noteq> []"
proof -
  note f = resolve_enabled_facts [OF assms(1,2), of None, folded q_def, simplified]
  note e = Validate_enabled [OF assms(1,2)] and pos = noCaller_pos [OF assms(1)]
  show m: "1 \<le> MaxParticipants q" and g: "1 \<le> MinGroups q" using f(1,2,3) pos(3) by auto
  have q: "MaxParticipants q = noCallerMax p" "AgreementThreshold q = noCallerThreshold p" "MinGroups q = noCallerMinGroups p"
    using e(1,2) by (auto simp: q_def resolve_enabled_def Let_def)
  have pg: "PerGroupQuorum q \<Longrightarrow> 1 < MinGroups q \<and> mul64 (MinGroups q) (AgreementThreshold q) \<le> MaxParticipants q"
    using f(6) e(3,4) q by simp
  have le: "QualifyingGroupCount sizes t \<le> int (length sizes)" for t by (simp add: QualifyingGroupCount_def)
  have "MinGroups q \<le> int (length sizes)" if "MinGroups q \<le> 1" "MaxParticipants q \<le> sum_list (map snd sizes)"
    using that m by (cases sizes) auto
  then show "validateCrossValidationCapacity CrossValidation (Some q) sizes = [] \<longleftrightarrow>
      \<not> MaxParticipants q > sum_list (map snd sizes) \<and> \<not> snd (crossValidationGroupShortfall sizes (Some q)) \<noteq> []"
    using pg le [of "AgreementThreshold q"]
    by (auto simp: validateCrossValidationCapacity_def crossValidationGroupShortfall_def Let_def not_less
        CrossValidationReasonInsufficientCapacity_def CrossValidationReasonInsufficientGroups_def)
qed

text \<open>The forecast at startup is exact. With a loaded configuration, no shortfall is reported for a
  layout of primaries exactly when the request-time guard accepts the headerless request of every method with an
  enabled policy, if all those primaries are candidates.\<close>

theorem startup_forecast_is_exact:
  assumes "NewCrossValidationPolicyResolver cfg = Inr r"
  shows "crossValidationShortfall (Some r) c a sizes = (0, 0)
    \<longleftrightarrow> (\<forall>m p. mget (policies r) (policyKey c a m) = Some p \<and> pol_Enabled p \<longrightarrow>
          validateCrossValidationCapacity CrossValidation (Resolve (Some r) c a m None) sizes = [])"
proof -
  have ok: "resolver_ok r" using assms(1) by (rule new_resolver_ok)
  let ?Q = "headerlessParams (Some r) c a"
  have v: "Validate p = None" if "mget (policies r) (policyKey c a m) = Some p" for m p
    using ok that by (auto simp: resolver_ok_def)
  have pos: "\<forall>q\<in>set ?Q. 1 \<le> MaxParticipants q \<and> 1 \<le> MinGroups q"
    unfolding headerless_params_are [OF ok] using v headerless_policy(1,2) by blast
  have "crossValidationShortfall (Some r) c a sizes = (0, 0) \<longleftrightarrow>
    (\<forall>q\<in>set ?Q. \<not> MaxParticipants q > sum_list (map snd sizes) \<and> \<not> snd (crossValidationGroupShortfall sizes (Some q)) \<noteq> [])"
    unfolding crossValidationShortfall_def using shortfall_fold [OF pos, of 0 0] by simp
  also have "\<dots> \<longleftrightarrow> (\<forall>q\<in>set ?Q. validateCrossValidationCapacity CrossValidation (Some q) sizes = [])"
    using v headerless_policy(3) [of _ sizes] unfolding headerless_params_are [OF ok] by blast
  also have "\<dots> \<longleftrightarrow> (\<forall>m p. mget (policies r) (policyKey c a m) = Some p \<and> pol_Enabled p \<longrightarrow>
          validateCrossValidationCapacity CrossValidation (Resolve (Some r) c a m None) sizes = [])"
    unfolding headerless_params_are [OF ok] using v Validate_bounds(4) by (fastforce simp: Resolve_def)
  finally show ?thesis .
qed

theorem startup_forecast_is_exact_witness:
  "validateCrossValidationCapacity CrossValidation (Resolve (Some graphql_resolver) ''APT1'' ''GraphQL'' ''events'' None)
     [(''x'', 2), (''y'', 1)] = []"
proof -
  have "crossValidationShortfall (Some graphql_resolver) ''APT1'' ''GraphQL'' [(''x'', 2), (''y'', 1)] = (0, 0)"
    by code_simp
  moreover have "pol_Enabled diverse_policy" by (simp add: diverse_policy_def)
  ultimately show ?thesis
    using startup_forecast_is_exact [OF graphql_resolver_new, of "''APT1''" "''GraphQL''" "[(''x'', 2), (''y'', 1)]"]
      graphql_policies(2) by blast
qed

section \<open>Who is left to answer\<close>

definition crossValidationMismatchEligible :: "bool \<Rightarrow> hash \<Rightarrow> bool" where
  "crossValidationMismatchEligible deterministic consensusHash \<longleftrightarrow> deterministic \<and> consensusHash \<noteq> 0"

definition crossValidationSuccessOutliers :: "RelayResult list \<Rightarrow> hash \<Rightarrow> bool \<Rightarrow> bool \<Rightarrow> RelayResult list" where
  "crossValidationSuccessOutliers successes consensusHash cvSuccess deterministic =
     (if \<not> cvSuccess \<or> \<not> crossValidationMismatchEligible deterministic consensusHash then []
      else filter (\<lambda>result. ProviderAddress (RR_ProviderInfo result) \<noteq> [] \<and> ResponseHash result \<noteq> consensusHash) successes)"

abbreviation received_from :: "RelayResult list \<Rightarrow> RelayResult list \<Rightarrow> RelayError list \<Rightarrow> string list" where
  "received_from successes nodeErrs protocolErrs \<equiv>
     map (ProviderAddress \<circ> RR_ProviderInfo) successes @ map (ProviderAddress \<circ> RR_ProviderInfo) nodeErrs
     @ map (ProviderAddress \<circ> RE_ProviderInfo) protocolErrs"

definition crossValidationPendingProviders ::
    "string list \<Rightarrow> RelayResult list \<Rightarrow> RelayResult list \<Rightarrow> RelayError list \<Rightarrow> string list" where
  "crossValidationPendingProviders allProviders successes nodeErrs protocolErrs =
     filter (\<lambda>addr. addr \<noteq> [] \<and> addr \<notin> set (received_from successes nodeErrs protocolErrs)) allProviders"

fun without_result :: "string list \<Rightarrow> (string, int) gomap \<Rightarrow> string list" where
  "without_result [] recorded = []"
| "without_result (addr # rest) recorded =
     (case mget recorded addr of
        Some n \<Rightarrow> if n > 0 then without_result rest (mput addr (n - 1) recorded) else addr # without_result rest recorded
      | None \<Rightarrow> addr # without_result rest recorded)"

definition attemptsWithoutResult ::
    "string list \<Rightarrow> RelayResult list \<Rightarrow> RelayResult list \<Rightarrow> RelayError list \<Rightarrow> string list" where
  "attemptsWithoutResult dispatched successes nodeErrs protocolErrs =
     without_result dispatched
       (fold (\<lambda>addr. bump addr 1) (received_from successes nodeErrs protocolErrs) [])"

definition preferStructuralFailureReason :: "RelayResult option \<Rightarrow> string \<Rightarrow> RelayResult option" where
  "preferStructuralFailureReason result failFastReason =
     (if failFastReason \<noteq> [] then map_option (\<lambda>r. r\<lparr>CrossValidationFailureReason := failFastReason\<rparr>) result else result)"

lemma without_result_count:
  assumes "\<forall>k n. mget recorded k = Some n \<longrightarrow> 0 \<le> n"
  shows "count_list (without_result dispatched recorded) a
    = count_list dispatched a - nat (case mget recorded a of Some n \<Rightarrow> n | None \<Rightarrow> 0)"
  using assms
proof (induction dispatched recorded rule: without_result.induct)
  case (2 addr rest recorded)
  show ?case
  proof (cases "\<exists>n. mget recorded addr = Some n \<and> 0 < n")
    case True
    then obtain n where n: "mget recorded addr = Some n" "0 < n" by blast
    moreover have "\<forall>k i. mget (mput addr (n - 1) recorded) k = Some i \<longrightarrow> 0 \<le> i" using 2(4) n(2) by simp
    note 2(2) [OF n this]
    ultimately show ?thesis by (auto simp: nat_diff_distrib)
  next
    case False
    with 2(1,3,4) show ?thesis by (cases "mget recorded addr") (auto simp: not_less dest: order.antisym)
  qed
qed simp

text \<open>An attempt is out exactly as often as its provider was asked without having answered.\<close>

lemma attempts_accounted:
  "count_list (attemptsWithoutResult dispatched ss ns ps) a
   = count_list dispatched a - count_list (received_from ss ns ps) a"
proof -
  define rs where "rs = received_from ss ns ps"
  have "\<forall>k n. mget (group_tally rs) k = Some n \<longrightarrow> 0 \<le> n" by (auto simp: group_tally_get split: if_splits)
  from without_result_count [OF this, of dispatched a] show ?thesis
    unfolding attemptsWithoutResult_def rs_def [symmetric] group_tally_def [symmetric] group_tally_get
    by (simp add: count_list_0_iff)
qed

end
