(* ===== verification/SessionSelect.thy ===== *)
theory SessionSelect
  imports SessionPool UpstreamSelector Holdoff AttemptHealth CVPolicy "HOL-Library.Sublist"
begin

text \<open>
  Which providers a request is handed (\<open>lavasession/consumer_session_manager.go\<close>, selection part): groups,
  the hold-off filter, write broadcasts, the choice by the optimizer, pins and sticky sessions,
  group-diverse ordering, and the failover cascade of backups, pool release and blocked providers.

  \<^item> A set of addresses (\<open>map[string]struct{}\<close>) is a finite set.
  \<^item> The optimizer is the field \<open>opt\<close> of the environment: \<open>opt k i\<close> is its answer to the \<open>i\<close>-th question of
    the \<open>k\<close>-th selection. \<open>UpstreamSelector\<close> provides it; what is relied on is the locale \<open>upstream_choice\<close>.
  \<^item> Each selection runs under the manager's read lock and reads the state given to it; only sticky
    sessions change. The cascade takes the lock once per stage; here nothing runs between its stages.
  \<^item> \<open>None\<close> is a fatal exit or a loop that does not end.
\<close>

section \<open>Groups\<close>

definition group_of :: "csm \<Rightarrow> string \<Rightarrow> string" where
  "group_of c addr =
     (case paired c addr of
        Some p \<Rightarrow> if GroupLabel p \<noteq> '''' then GroupLabel p else DefaultProviderGroup
      | None \<Rightarrow> DefaultProviderGroup)"

definition countDistinctGroups :: "csm \<Rightarrow> string list \<Rightarrow> nat" where
  "countDistinctGroups c addrs = length (remdups (map (group_of c) addrs))"

definition countByGroup :: "csm \<Rightarrow> string list \<Rightarrow> (string, int) gomap" where
  "countByGroup c addrs = fold (\<lambda>a. bump (group_of c a) 1) addrs []"

definition ProviderGroupAssignments :: "csm \<Rightarrow> (string, string list) gomap" where
  "ProviderGroupAssignments c =
     map (\<lambda>(g, as). (g, sort as))
       (fold (\<lambda>a m. mput (group_of c a) ((case mget m (group_of c a) of Some as \<Rightarrow> as | None \<Rightarrow> []) @ [a]) m) (validAddresses c) [])"

definition ProviderAndGroupCountsForRequest :: "string \<Rightarrow> string list \<Rightarrow> csm \<Rightarrow> nat \<times> nat" where
  "ProviderAndGroupCountsForRequest addon exts c =
     (let addrs = CalculateAddonValidAddresses addon exts c in (length addrs, countDistinctGroups c addrs))"

definition GroupCountsForRequest :: "string \<Rightarrow> string list \<Rightarrow> csm \<Rightarrow> (string, int) gomap" where
  "GroupCountsForRequest addon exts c = countByGroup c (CalculateAddonValidAddresses addon exts c)"

definition IsStaticProvider :: "string \<Rightarrow> csm \<Rightarrow> bool" where
  "IsStaticProvider addr c =
     (if addr = '''' then False
      else case mget (pairing c) addr of Some r \<Rightarrow> StaticProvider (providers c r)
      | None \<Rightarrow> (case mget (backupProviders c) addr of Some r \<Rightarrow> StaticProvider (providers c r)
      | None \<Rightarrow> (case mget (pairingPurge c) addr of Some r \<Rightarrow> StaticProvider (providers c r) | None \<Rightarrow> False)))"

section \<open>The request and its environment\<close>

datatype select_error = SelectedProviderUnavailable | SelectedProviderAlreadyFailed | PairingListEmpty | NoBackupProvider

record select_env =
  rateLimitHoldoff :: "registry option"
  sel_now :: time
  opt :: "nat \<Rightarrow> nat \<Rightarrow> string list \<Rightarrow> string fset \<Rightarrow> string list"
  opt_Strategy :: Strategy

record select_request =
  req_cu :: "64 word"
  req_addon :: string
  req_exts :: "string list"
  req_stateful :: int
  req_virtualEpoch :: "64 word"
  req_stickiness :: string
  req_selected :: string
  req_minGroups :: int
  req_perGroupTarget :: int

record ignoredProviders =
  ign_providers :: "string fset"
  triedByThisRequest :: "string fset"
  ign_currentEpoch :: "64 word"
  preferredProvider :: string

definition markTried :: "string \<Rightarrow> ignoredProviders \<Rightarrow> ignoredProviders" where
  "markTried addr ip = ip\<lparr>triedByThisRequest := finsert addr (triedByThisRequest ip)\<rparr>"

definition ignore :: "string \<Rightarrow> ignoredProviders \<Rightarrow> ignoredProviders" where
  "ignore addr ip = ip\<lparr>ign_providers := finsert addr (ign_providers ip)\<rparr>"

text \<open>The time a held-off provider is ready again.\<close>

definition held_until :: "select_env \<Rightarrow> string \<Rightarrow> time option" where
  "held_until env addr =
     (case rateLimitHoldoff env of
        None \<Rightarrow> None
      | Some reg \<Rightarrow> (case ProviderReadyAt reg (sel_now env) addr of (t, held) \<Rightarrow> if held then Some t else None))"

section \<open>Tiers, preferences, the hold-off\<close>

definition providerByAddress :: "csm \<Rightarrow> string \<Rightarrow> ref option" where
  "providerByAddress c addr = (case mget (pairing c) addr of Some r \<Rightarrow> Some r | None \<Rightarrow> mget (backupProviders c) addr)"

definition usedComputeUnits :: "csm \<Rightarrow> string \<Rightarrow> 64 word" where
  "usedComputeUnits c addr = (case providerByAddress c addr of Some r \<Rightarrow> UsedComputeUnits (providers c r) | None \<Rightarrow> 0)"

text \<open>An empty result names the reason; the reason is empty when there is nothing to judge.\<close>

definition usablePreferredProvider :: "select_env \<Rightarrow> ignoredProviders \<Rightarrow> string \<Rightarrow> string list \<Rightarrow> csm \<Rightarrow> string \<times> string" where
  "usablePreferredProvider env ip addon exts c =
     (let preferred = preferredProvider ip in
      if preferred = '''' then ('''', '''')
      else if preferred |\<in>| ign_providers ip then ('''', '''')
      else if held_until env preferred \<noteq> None then ('''', ''held off after a rate limit'')
      else if preferred \<in> set (getValidAddresses addon exts c) then (preferred, '''')
      else case backup c preferred of
             None \<Rightarrow> ('''', ''not a valid primary for this request, and not a backup'')
           | Some p \<Rightarrow>
               if preferred \<in> set (blockedBackupProviders c) then ('''', ''blocked backup'')
               else if \<not> IsSupportingAddon c addon p \<or> \<not> IsSupportingExtensions c exts p
               then ('''', ''backup does not serve this collection'')
               else (preferred, ''''))"

definition statefulFanoutPerTier :: nat where "statefulFanoutPerTier = 10"

text \<open>Most compute units first, then by address; the order is total, so the sort has one result.\<close>

definition rankStatefulTier :: "csm \<Rightarrow> string list \<Rightarrow> string fset \<Rightarrow> string list" where
  "rankStatefulTier c addrs ignored =
     take statefulFanoutPerTier
       (sort_key (\<lambda>a. - uint (usedComputeUnits c a)) (sort (filter (\<lambda>a. a |\<notin>| ignored) addrs)))"

definition eligibleBackupsForStateful ::
  "select_env \<Rightarrow> string fset \<Rightarrow> string \<Rightarrow> string list \<Rightarrow> string list \<Rightarrow> bool \<Rightarrow> csm \<Rightarrow> string list" where
  "eligibleBackupsForStateful env ignored addon exts alreadySelected honourHoldoff c =
     filter (\<lambda>a. a \<notin> set alreadySelected \<and> a |\<notin>| ignored \<and> a \<notin> set (blockedBackupProviders c)
               \<and> serves c addon exts (backup c a) \<and> \<not> (honourHoldoff \<and> held_until env a \<noteq> None))
       (map fst (backupProviders c))"

definition getProvidersForStatefulCalls ::
  "select_env \<Rightarrow> string list \<Rightarrow> string fset \<Rightarrow> string \<Rightarrow> string list \<Rightarrow> bool \<Rightarrow> csm \<Rightarrow> string list" where
  "getProvidersForStatefulCalls env valid ignored addon exts honourHoldoff c =
     (let provs = rankStatefulTier c valid ignored in
      if \<not> statefulToBackup c then provs
      else provs @ rankStatefulTier c (eligibleBackupsForStateful env ignored addon exts provs honourHoldoff c) ignored)"

text \<open>
  The scan of \<open>filterRateLimitedProviders\<close>: the ready addresses, how many of them are choosable, how many
  are held, and the held choosable one that is ready first.
\<close>

fun hold_scan :: "select_env \<Rightarrow> string fset \<Rightarrow> string list \<Rightarrow> string list \<times> nat \<times> nat \<times> (string \<times> time)
    \<Rightarrow> string list \<times> nat \<times> nat \<times> (string \<times> time)" where
  "hold_scan env ignored [] acc = acc"
| "hold_scan env ignored (a # as) (ready, readyChoosable, heldCount, soonest, soonestAt) =
     hold_scan env ignored as
       (case held_until env a of
          None \<Rightarrow> (ready @ [a], if a |\<in>| ignored then readyChoosable else readyChoosable + 1, heldCount, soonest, soonestAt)
        | Some t \<Rightarrow>
            (ready, readyChoosable, heldCount + 1,
             if a |\<in>| ignored then (soonest, soonestAt)
             else if soonest = '''' \<or> t < soonestAt then (a, t) else (soonest, soonestAt)))"

definition filterRateLimitedProviders :: "select_env \<Rightarrow> string list \<Rightarrow> string fset \<Rightarrow> string list" where
  "filterRateLimitedProviders env valid ignored =
     (case rateLimitHoldoff env of
        None \<Rightarrow> valid
      | Some _ \<Rightarrow>
          (case hold_scan env ignored valid ([], 0, 0, '''', zero_time) of (ready, readyChoosable, heldCount, soonest, _) \<Rightarrow>
             if heldCount = 0 then valid
             else if 0 < readyChoosable then ready
             else if soonest = '''' then ready
             else ready @ [soonest]))"

section \<open>The selection of addresses\<close>

text \<open>The optimizer asked up to \<open>k\<close> times, each answer ignored by the next question.\<close>

fun choose_providers :: "(nat \<Rightarrow> string list \<Rightarrow> string fset \<Rightarrow> string list) \<Rightarrow> nat \<Rightarrow> nat \<Rightarrow> string list \<Rightarrow> string fset \<Rightarrow> string list" where
  "choose_providers ask 0 i valid ignored = []"
| "choose_providers ask (Suc k) i valid ignored =
     (case ask i valid ignored of
        [] \<Rightarrow> []
      | ps \<Rightarrow> ps @ choose_providers ask k (Suc i) valid (ignored |\<union>| fset_of_list ps))"

definition pinned_addresses :: "string \<Rightarrow> string list \<Rightarrow> string fset \<Rightarrow> select_error + string list" where
  "pinned_addresses selected valid ignored =
     (case resolveSelectedProviderAddress selected valid of (addr, ambiguous) \<Rightarrow>
        if ambiguous \<noteq> [] then Inl SelectedProviderUnavailable
        else if addr = '''' then Inl SelectedProviderUnavailable
        else if addr |\<in>| ignored then Inl SelectedProviderAlreadyFailed
        else Inr [addr])"

definition pool_exhausted :: "string list \<Rightarrow> string fset \<Rightarrow> bool" where
  "pool_exhausted valid ignored \<longleftrightarrow>
     int (length valid) - int (fcard ignored) \<le> 0 \<and> length valid \<le> length (filter (\<lambda>a. a |\<in>| ignored) valid)"

definition broadcasts_write :: "select_env \<Rightarrow> select_request \<Rightarrow> bool" where
  "broadcasts_write env req \<longleftrightarrow> req_stateful req = CONSISTENCY_SELECT_ALL_PROVIDERS \<and> opt_Strategy env \<noteq> StrategyCost"

text \<open>The ordinary selection, once neither a pin nor a live sticky session decides.\<close>

definition ordinary_selection ::
  "select_env \<Rightarrow> nat \<Rightarrow> int \<Rightarrow> string fset \<Rightarrow> select_request \<Rightarrow> string \<Rightarrow> bool \<Rightarrow> csm \<Rightarrow> (select_error + string list) \<times> csm" where
  "ordinary_selection env k wanted ignored req stickiness pickOne c =
     (let valid = getValidAddresses (req_addon req) (req_exts req) c in
      if pool_exhausted valid ignored then (Inl PairingListEmpty, c)
      else
        let honourHoldoff = (\<not> broadcasts_write env req \<or> stickiness \<noteq> '''' \<or> pickOne);
            valid = (if honourHoldoff then filterRateLimitedProviders env valid ignored else valid);
            provs = (if broadcasts_write env req
                     then getProvidersForStatefulCalls env valid ignored (req_addon req) (req_exts req) honourHoldoff c
                     else if stickiness \<noteq> '''' then opt env k 0 valid ignored
                     else choose_providers (opt env k) (nat wanted) 0 valid ignored)
        in if provs = [] \<or> hd provs = '''' then (Inl PairingListEmpty, c)
           else if stickiness \<noteq> ''''
           then (Inr [hd provs],
                 c\<lparr>stickySessions := mput stickiness \<lparr>ss_Provider = hd provs, ss_Epoch = currentEpoch c, ss_Confirmed = False\<rparr> (stickySessions c)\<rparr>)
           else (Inr provs, c))"

definition selectProviderAddresses ::
  "select_env \<Rightarrow> nat \<Rightarrow> int \<Rightarrow> string fset \<Rightarrow> string fset \<Rightarrow> select_request \<Rightarrow> string \<Rightarrow> string \<Rightarrow> bool \<Rightarrow> csm
    \<Rightarrow> (select_error + string list) \<times> csm" where
  "selectProviderAddresses env k wanted ignored tried req stickiness selected pickOne c =
     (let valid = getValidAddresses (req_addon req) (req_exts req) c in
      if selected \<noteq> '''' then (pinned_addresses selected valid ignored, c)
      else case mget (stickySessions c) stickiness of
             None \<Rightarrow> ordinary_selection env k wanted ignored req stickiness pickOne c
           | Some pin \<Rightarrow>
               if ss_Provider pin |\<in>| tried then (Inl SelectedProviderAlreadyFailed, c)
               else if ss_Provider pin \<in> set valid
               then (if ss_Provider pin |\<in>| ignored then Inl SelectedProviderUnavailable else Inr [ss_Provider pin], c)
               else ordinary_selection env k wanted ignored req stickiness pickOne
                      (c\<lparr>stickySessions := mdel stickiness (stickySessions c)\<rparr>))"

definition getValidProviderAddresses ::
  "select_env \<Rightarrow> nat \<Rightarrow> int \<Rightarrow> string fset \<Rightarrow> string fset \<Rightarrow> select_request \<Rightarrow> string \<Rightarrow> string \<Rightarrow> csm
    \<Rightarrow> (select_error + string list) \<times> csm" where
  "getValidProviderAddresses env k wanted ignored tried req stickiness selected c =
     selectProviderAddresses env k wanted ignored tried req stickiness selected False c"

section \<open>Group-diverse ordering\<close>

text \<open>One pass of phase 1 over the ranked list: what is picked and how many of each opened group.\<close>

fun phase1 :: "(string \<Rightarrow> string) \<Rightarrow> (string \<Rightarrow> bool) \<Rightarrow> int \<Rightarrow> int \<Rightarrow> int \<Rightarrow> string list
    \<Rightarrow> string list \<times> (string, int) gomap \<Rightarrow> string list \<times> (string, int) gomap" where
  "phase1 grp canOpen wanted minGroups target [] acc = acc"
| "phase1 grp canOpen wanted minGroups target (a # as) (picked, counts) =
     (if int (length picked) \<ge> wanted then (picked, counts)
      else if mget counts (grp a) = None \<and> (int (length counts) \<ge> minGroups \<or> \<not> canOpen (grp a))
      then phase1 grp canOpen wanted minGroups target as (picked, counts)
      else if (case mget counts (grp a) of Some n \<Rightarrow> n | None \<Rightarrow> 0) \<ge> target
      then phase1 grp canOpen wanted minGroups target as (picked, counts)
      else phase1 grp canOpen wanted minGroups target as (picked @ [a], bump (grp a) 1 counts))"

fun fill_by_rank :: "int \<Rightarrow> string list \<Rightarrow> string list \<Rightarrow> string list" where
  "fill_by_rank wanted [] picked = picked"
| "fill_by_rank wanted (a # as) picked =
     (if int (length picked) \<ge> wanted then picked
      else if a \<in> set picked then fill_by_rank wanted as picked
      else fill_by_rank wanted as (picked @ [a]))"

definition orderForGroupDiversity :: "csm \<Rightarrow> string list \<Rightarrow> int \<Rightarrow> int \<Rightarrow> int \<Rightarrow> string list" where
  "orderForGroupDiversity c ranked wanted minGroups perGroupTarget =
     (let target = (if perGroupTarget < 1 then 1 else perGroupTarget);
          groupAvail = fold (\<lambda>a. bump (group_of c a) 1) ranked [];
          viable = (\<lambda>g. (case mget groupAvail g of Some n \<Rightarrow> n | None \<Rightarrow> 0) \<ge> target);
          acc = phase1 (group_of c) viable wanted minGroups target ranked ([], []);
          acc = phase1 (group_of c) (\<lambda>_. True) wanted minGroups target ranked acc
      in fill_by_rank wanted ranked (fst acc))"

section \<open>Providers with room for the request\<close>

record SessionWithProvider =
  SessionsWithProvider :: ref
  swp_CurrentEpoch :: "64 word"
  lastChance :: bool

definition validateComputeUnits :: "64 word \<Rightarrow> 64 word \<Rightarrow> cswp \<Rightarrow> bool" where
  "validateComputeUnits cu virtualEpoch p \<longleftrightarrow> \<not> UsedComputeUnits p + cu > MaxComputeUnits p * (virtualEpoch + 1)"

text \<open>\<open>None\<close> is \<open>MaxComputeUnitsExceededError\<close> and \<open>NegativeComputeUnitsAmountError\<close>.\<close>

definition addUsedComputeUnits :: "64 word \<Rightarrow> 64 word \<Rightarrow> cswp \<Rightarrow> cswp option" where
  "addUsedComputeUnits cu virtualEpoch p =
     (if UsedComputeUnits p + cu > MaxComputeUnits p * (virtualEpoch + 1) then None
      else Some (p\<lparr>UsedComputeUnits := UsedComputeUnits p + cu\<rparr>))"

definition decreaseUsedComputeUnits :: "64 word \<Rightarrow> cswp \<Rightarrow> cswp option" where
  "decreaseUsedComputeUnits cu p =
     (if UsedComputeUnits p < cu then None else Some (p\<lparr>UsedComputeUnits := UsedComputeUnits p - cu\<rparr>))"

type_synonym session_map = "(string, SessionWithProvider) gomap"

text \<open>
  The walk over one batch of addresses: \<open>None\<close> for an address in neither tier (fatal), else whether the
  wanted number was reached, the sessions found and the grown ignored set.
\<close>

fun fill_sessions :: "csm \<Rightarrow> select_request \<Rightarrow> nat \<Rightarrow> string list \<Rightarrow> session_map \<Rightarrow> ignoredProviders
    \<Rightarrow> (bool \<times> session_map \<times> ignoredProviders) option" where
  "fill_sessions c req wanted [] found ip = Some (False, found, ip)"
| "fill_sessions c req wanted (a # as) found ip =
     (case providerByAddress c a of
        None \<Rightarrow> None
      | Some r \<Rightarrow>
          if \<not> validateComputeUnits (req_cu req) (req_virtualEpoch req) (providers c r)
          then fill_sessions c req wanted as found (ignore a ip)
          else let found = mput a \<lparr>SessionsWithProvider = r, swp_CurrentEpoch = currentEpoch c, lastChance = False\<rparr> found in
               if length found = wanted then Some (True, found, ignore a ip)
               else fill_sessions c req wanted as found (ignore a ip))"

type_synonym picked_sessions = "(select_error + session_map) \<times> ignoredProviders \<times> csm \<times> nat"

text \<open>The outer loop: another batch of one while sessions are missing. \<open>k\<close> numbers the selections.\<close>

partial_function (option) fetch_loop ::
  "select_env \<Rightarrow> nat \<Rightarrow> nat \<Rightarrow> select_request \<Rightarrow> string list \<Rightarrow> session_map \<Rightarrow> ignoredProviders \<Rightarrow> csm \<Rightarrow> picked_sessions option" where
  "fetch_loop env k wanted req addrs found ip c =
     (case fill_sessions c req wanted addrs found ip of
        None \<Rightarrow> None
      | Some (enough, found, ip) \<Rightarrow>
          if enough then Some (Inr found, ip, c, k)
          else
            (case getValidProviderAddresses env k 1 (ign_providers ip) (triedByThisRequest ip) req (req_stickiness req) (req_selected req) c of
               (Inl e, c) \<Rightarrow> Some (if found \<noteq> [] then Inr found else Inl e, ip, c, Suc k)
             | (Inr addrs, c) \<Rightarrow> fetch_loop env (Suc k) wanted req addrs found ip c))"

definition newer_epoch :: "csm \<Rightarrow> ignoredProviders \<Rightarrow> ignoredProviders" where
  "newer_epoch c ip =
     (if ign_currentEpoch ip < currentEpoch c then ip\<lparr>ign_providers := {||}, ign_currentEpoch := currentEpoch c\<rparr> else ip)"

definition first_addresses ::
  "select_env \<Rightarrow> nat \<Rightarrow> int \<Rightarrow> select_request \<Rightarrow> ignoredProviders \<Rightarrow> csm \<Rightarrow> (select_error + string list) \<times> csm" where
  "first_addresses env k wanted req ip c =
     (if 1 < req_minGroups req
      then (case getValidProviderAddresses env k (int (length (validAddresses c))) (ign_providers ip) (triedByThisRequest ip) req '''' '''' c of
              (Inl e, c) \<Rightarrow> (Inl e, c)
            | (Inr ranked, c) \<Rightarrow> (Inr (orderForGroupDiversity c ranked wanted (req_minGroups req) (req_perGroupTarget req)), c))
      else let preferred = fst (usablePreferredProvider env ip (req_addon req) (req_exts req) c) in
           if preferred \<noteq> '''' then (Inr [preferred], c)
           else getValidProviderAddresses env k wanted (ign_providers ip) (triedByThisRequest ip) req (req_stickiness req) (req_selected req) c)"

definition getValidConsumerSessionsWithProvider ::
  "select_env \<Rightarrow> nat \<Rightarrow> int \<Rightarrow> select_request \<Rightarrow> ignoredProviders \<Rightarrow> csm \<Rightarrow> picked_sessions option" where
  "getValidConsumerSessionsWithProvider env k wanted req ip c =
     (let ip = newer_epoch c ip in
      case first_addresses env k wanted req ip c of
        (Inl e, c) \<Rightarrow> Some (Inl e, ip, c, Suc k)
      | (Inr addrs, c) \<Rightarrow> fetch_loop env (Suc k) (length addrs) req addrs [] ip c)"

section \<open>The failover cascade\<close>

definition getValidConsumerSessionsWithProviderFromBackupProviderList ::
  "select_env \<Rightarrow> nat \<Rightarrow> select_request \<Rightarrow> ignoredProviders \<Rightarrow> csm \<Rightarrow> picked_sessions option" where
  "getValidConsumerSessionsWithProviderFromBackupProviderList env k req ip c =
     (let ip = newer_epoch c ip;
          candidates = filter (\<lambda>a. a |\<notin>| ign_providers ip \<and> a \<notin> set (blockedBackupProviders c)
                                 \<and> serves c (req_addon req) (req_exts req) (backup c a)) (map fst (backupProviders c))
      in if candidates = [] then Some (Inl NoBackupProvider, ip, c, k)
         else case opt env k 0 candidates (ign_providers ip) of
                [] \<Rightarrow> Some (Inl NoBackupProvider, ip, c, Suc k)
              | a # _ \<Rightarrow>
                  (case mget (backupProviders c) a of
                     None \<Rightarrow> None
                   | Some r \<Rightarrow> Some (Inr [(a, \<lparr>SessionsWithProvider = r, swp_CurrentEpoch = currentEpoch c, lastChance = False\<rparr>)],
                                     ignore a ip, c, Suc k)))"

text \<open>
  The last resort before the blocked providers. No result is the Go code's false. What is logged about the
  empty pool is \<open>logPoolEmpty\<close> and changes nothing else.
\<close>

definition releaseBlockedProvidersIfPoolEmpty ::
  "select_env \<Rightarrow> nat \<Rightarrow> int \<Rightarrow> select_request \<Rightarrow> ignoredProviders \<Rightarrow> csm \<Rightarrow> (session_map option \<times> ignoredProviders \<times> csm \<times> nat) option" where
  "releaseBlockedProvidersIfPoolEmpty env k wanted req ip c =
     (case cacheAddonAddresses (req_addon req) (req_exts req) c of (addrs, c) \<Rightarrow>
        if addrs \<noteq> [] then Some (None, ip, c, k)
        else if \<not> releaseCouldServeThisRequest (ign_providers ip) (req_addon req) (req_exts req) (req_selected req) c
        then Some (None, ip, c, k)
        else let c = snd (resetValidAddresses (req_addon req) (req_exts req) c);
                 c = snd (cacheAddonAddresses (req_addon req) (req_exts req) c)
             in case getValidConsumerSessionsWithProvider env k wanted req ip c of
                  None \<Rightarrow> None
                | Some (Inl e, ip, c, k) \<Rightarrow> Some (None, ip, c, k)
                | Some (Inr found, ip, c, k) \<Rightarrow> Some (Some found, ip, c, k))"

definition all_endpoints_out :: "csm \<Rightarrow> (string, ref) gomap \<Rightarrow> string list \<Rightarrow> ref list" where
  "all_endpoints_out c pool listed =
     sort_key (\<lambda>r. PublicLavaAddress (providers c r))
       (map snd (filter (\<lambda>(a, r). cs_Endpoints (providers c r) \<noteq> [] \<and> a \<notin> set listed \<and> \<not> inRotation c (providers c r)) pool))"

definition lastChanceCandidatesLocked :: "csm \<Rightarrow> ref list" where
  "lastChanceCandidatesLocked c =
     List.map_filter (mget (pairing c)) (currentlyBlockedProviderAddresses c)
   @ all_endpoints_out c (pairing c) (currentlyBlockedProviderAddresses c)
   @ sort_key (\<lambda>r. - uint (UsedComputeUnits (providers c r)))
       (sort_key (\<lambda>r. PublicLavaAddress (providers c r)) (List.map_filter (mget (backupProviders c)) (blockedBackupProviders c)))
   @ all_endpoints_out c (backupProviders c) (blockedBackupProviders c)"

fun last_chance_walk :: "csm \<Rightarrow> select_request \<Rightarrow> ref list \<Rightarrow> ignoredProviders \<Rightarrow> UsedProviders
    \<Rightarrow> (string \<times> ref) option \<times> ignoredProviders \<times> UsedProviders" where
  "last_chance_walk c req [] ip up = (None, ip, up)"
| "last_chance_walk c req (r # rs) ip up =
     (let p = providers c r; addr = PublicLavaAddress p in
      if addr |\<in>| triedByThisRequest ip then last_chance_walk c req rs ip up
      else
        let ip = markTried addr (ignore addr ip); up = AddUnwantedAddresses addr (NewRouterKey (req_exts req)) up in
        if \<not> validateComputeUnits (req_cu req) (req_virtualEpoch req) p then last_chance_walk c req rs ip up
        else if \<not> IsSupportingAddon c (req_addon req) p \<or> \<not> IsSupportingExtensions c (req_exts req) p
        then last_chance_walk c req rs ip up
        else (Some (addr, r), ip, up))"

text \<open>Group-blind and unpinned, as the emergency fallback asks for its sessions.\<close>

definition group_blind :: "select_request \<Rightarrow> select_request" where
  "group_blind req = req\<lparr>req_stickiness := '''', req_selected := '''', req_minGroups := 1, req_perGroupTarget := 1\<rparr>"

definition lend_blocked :: "select_request \<Rightarrow> ignoredProviders \<Rightarrow> UsedProviders \<Rightarrow> csm \<Rightarrow> nat \<Rightarrow> picked_sessions \<times> UsedProviders" where
  "lend_blocked req ip up c k =
     (case last_chance_walk c req (lastChanceCandidatesLocked c) ip up of
        (None, ip, up) \<Rightarrow> ((Inl PairingListEmpty, ip, c, k), up)
      | (Some (addr, r), ip, up) \<Rightarrow>
          ((Inr [(addr, \<lparr>SessionsWithProvider = r, swp_CurrentEpoch = currentEpoch c, lastChance = True\<rparr>)],
            ip, atomicWriteBlockedStatus True r c, k), up))"

definition tryGetConsumerSessionWithProviderFromBlockedProviderList ::
  "select_env \<Rightarrow> nat \<Rightarrow> int \<Rightarrow> select_request \<Rightarrow> ignoredProviders \<Rightarrow> UsedProviders \<Rightarrow> csm \<Rightarrow> (picked_sessions \<times> UsedProviders) option" where
  "tryGetConsumerSessionWithProviderFromBlockedProviderList env k wanted req ip up c =
     (let epochChanged = ign_currentEpoch ip < currentEpoch c in
      if blockedTotalLocked c = 0 \<or> epochChanged
      then (case getValidConsumerSessionsWithProvider env k wanted (group_blind req) ip c of
              None \<Rightarrow> None
            | Some (res, ip, c, k) \<Rightarrow>
                if epochChanged \<or> res \<noteq> Inl PairingListEmpty then Some ((res, ip, c, k), up)
                else if lastChanceCandidatesLocked c = [] then Some ((res, ip, c, k), up)
                else Some (lend_blocked req ip up c k))
      else Some (lend_blocked req ip up c k))"

definition getSessionWithProviderOrError ::
  "select_env \<Rightarrow> nat \<Rightarrow> int \<Rightarrow> select_request \<Rightarrow> ignoredProviders \<Rightarrow> UsedProviders \<Rightarrow> csm \<Rightarrow> (picked_sessions \<times> UsedProviders) option" where
  "getSessionWithProviderOrError env k wanted req ip up c =
     (case getValidConsumerSessionsWithProvider env k wanted req ip c of
        None \<Rightarrow> None
      | Some (Inr found, ip, c, k) \<Rightarrow> Some ((Inr found, ip, c, k), up)
      | Some (Inl e, ip, c, k) \<Rightarrow>
          if e = PairingListEmpty
          then (case (if backupProviders c \<noteq> [] then getValidConsumerSessionsWithProviderFromBackupProviderList env k req ip c
                      else Some (Inl NoBackupProvider, ip, c, k)) of
                  None \<Rightarrow> None
                | Some (Inr found, ip, c, k) \<Rightarrow> Some ((Inr found, ip, c, k), up)
                | Some (Inl _, ip, c, k) \<Rightarrow>
                    (case releaseBlockedProvidersIfPoolEmpty env k wanted req ip c of
                       None \<Rightarrow> None
                     | Some (Some found, ip, c, k) \<Rightarrow> Some ((Inr found, ip, c, k), up)
                     | Some (None, ip, c, k) \<Rightarrow>
                         tryGetConsumerSessionWithProviderFromBlockedProviderList env k wanted req ip up c))
          else if e = SelectedProviderUnavailable
          then (case releaseBlockedProvidersIfPoolEmpty env k wanted req ip c of
                  None \<Rightarrow> None
                | Some (Some found, ip, c, k) \<Rightarrow> Some ((Inr found, ip, c, k), up)
                | Some (None, ip, c, k) \<Rightarrow> Some ((Inl e, ip, c, k), up))
          else Some ((Inl e, ip, c, k), up))"

section \<open>A group-diverse selection\<close>

text \<open>
  What one pass of phase 1 keeps, over the part \<open>done\<close> of the ranked list it has read: \<open>base\<close> is what
  was picked before the pass, \<open>ext\<close> what the pass added.
\<close>

definition pass_ok :: "(string \<Rightarrow> string) \<Rightarrow> (string \<Rightarrow> bool) \<Rightarrow> int \<Rightarrow> int \<Rightarrow> string list \<Rightarrow> string list \<Rightarrow> string list \<Rightarrow> bool" where
  "pass_ok grp co m t base done ext \<longleftrightarrow>
     (\<forall>g\<in>grp ` set ext. g \<notin> grp ` set base \<and> co g \<and> int (count_list (map grp ext) g) = min t (int (count_list (map grp done) g)))
   \<and> (int (card (grp ` set (base @ ext))) \<le> m \<or> ext = [])
   \<and> (int (card (grp ` set (base @ ext))) < m \<longrightarrow> (\<forall>g\<in>grp ` set done. co g \<longrightarrow> g \<in> grp ` set (base @ ext)))
   \<and> subseq ext done"

lemma pass_ok_start: "pass_ok grp co m t base [] []"
  by (simp add: pass_ok_def)

lemma subseq_snoc_skip: "subseq xs ys \<Longrightarrow> subseq xs (ys @ [y])"
  by (metis append.right_neutral subseq_append_iff subseq_Cons' list_emb_Nil list_emb_append_mono)

lemma subseq_snoc_both: "subseq xs ys \<Longrightarrow> subseq (xs @ [y]) (ys @ [y])"
  by (simp add: subseq_append')

lemma pass_ok_skip_closed:
  assumes ok: "pass_ok grp co m t base done ext"
    and no: "grp a \<notin> grp ` set (base @ ext)" "m \<le> int (card (grp ` set (base @ ext))) \<or> \<not> co (grp a)"
  shows "pass_ok grp co m t base (done @ [a]) ext"
proof -
  have "grp ` set ext \<subseteq> grp ` set (base @ ext)" by (intro image_mono) simp
  then have "g \<noteq> grp a" if "g \<in> grp ` set ext" for g using that no(1) by blast
  then have "count_list (map grp (done @ [a])) g = count_list (map grp done) g" if "g \<in> grp ` set ext" for g
    using that by auto
  then show ?thesis using ok no by (auto simp: pass_ok_def subseq_snoc_skip)
qed

lemma pass_ok_skip_full:
  assumes ok: "pass_ok grp co m t base done ext" and full: "t \<le> int (count_list (map grp (base @ ext)) (grp a))" and t: "1 \<le> t"
  shows "pass_ok grp co m t base (done @ [a]) ext"
proof -
  have opened: "grp a \<in> grp ` set (base @ ext)"
  proof (rule ccontr)
    assume "\<not> ?thesis"
    then have "count_list (map grp (base @ ext)) (grp a) = 0" by (intro count_notin) (simp only: set_map not_False_eq_True)
    then show False using full t by linarith
  qed
  have "int (count_list (map grp ext) g) = min t (int (count_list (map grp (done @ [a])) g))" if g: "g \<in> grp ` set ext" for g
  proof (cases "g = grp a")
    case True
    then have "grp a \<notin> grp ` set base" using ok g unfolding pass_ok_def by blast
    then have "count_list (map grp base) (grp a) = 0" by (simp add: count_list_0_iff)
    then have "t \<le> int (count_list (map grp ext) (grp a))" using full by simp
    moreover have "int (count_list (map grp ext) g) = min t (int (count_list (map grp done) g))" using ok g unfolding pass_ok_def by blast
    ultimately show ?thesis using True by auto
  next
    case False
    moreover have "int (count_list (map grp ext) g) = min t (int (count_list (map grp done) g))" using ok g unfolding pass_ok_def by blast
    ultimately show ?thesis by simp
  qed
  then show ?thesis using ok opened by (auto simp: pass_ok_def subseq_snoc_skip)
qed

lemma pass_ok_pick:
  assumes ok: "pass_ok grp co m t base done ext" and t: "1 \<le> t"
    and may: "grp a \<in> grp ` set (base @ ext) \<or> int (card (grp ` set (base @ ext))) < m \<and> co (grp a)"
    and room: "int (count_list (map grp (base @ ext)) (grp a)) < t"
    and base: "\<forall>g\<in>grp ` set base. t \<le> int (count_list (map grp base) g)"
  shows "pass_ok grp co m t base (done @ [a]) (ext @ [a])"
proof -
  have nb: "grp a \<notin> grp ` set base" using base room by (force simp: not_le)
  have co: "co (grp a)" using may ok nb by (auto simp: pass_ok_def)
  have cnt: "int (count_list (map grp ext) (grp a)) = min t (int (count_list (map grp done) (grp a)))"
  proof (cases "grp a \<in> grp ` set ext")
    case True
    then show ?thesis using ok unfolding pass_ok_def by blast
  next
    case False
    then have "int (card (grp ` set (base @ ext))) < m" using may nb by (auto simp: image_Un)
    then have "grp a \<notin> grp ` set done" using ok False nb co by (auto simp: pass_ok_def)
    then show ?thesis using False t by (simp add: count_list_0_iff)
  qed
  have "count_list (map grp base) (grp a) = 0" using nb by (simp add: count_list_0_iff)
  with room have lt: "int (count_list (map grp ext) (grp a)) < t" by simp
  have "int (count_list (map grp (ext @ [a])) g) = min t (int (count_list (map grp (done @ [a])) g))"
    if "g \<in> grp ` set (ext @ [a])" for g
    using that ok cnt lt by (cases "g = grp a") (auto simp: pass_ok_def)
  moreover have "int (card (grp ` set (base @ ext @ [a]))) \<le> m"
  proof (cases "grp a \<in> grp ` set (base @ ext)")
    case True
    then have "grp ` set (base @ ext @ [a]) = grp ` set (base @ ext)" by auto
    moreover have "ext \<noteq> []" using True nb by auto
    ultimately show ?thesis using ok by (simp add: pass_ok_def)
  next
    case False
    then have "int (card (grp ` set (base @ ext))) < m" using may by blast
    moreover have "grp ` set (base @ ext @ [a]) = insert (grp a) (grp ` set (base @ ext))" by auto
    ultimately show ?thesis using False by (simp add: card_insert_if)
  qed
  moreover have "\<forall>g\<in>grp ` set (done @ [a]). co g \<longrightarrow> g \<in> grp ` set (base @ ext @ [a])"
    if "int (card (grp ` set (base @ ext @ [a]))) < m"
  proof -
    have "card (grp ` set (base @ ext)) \<le> card (grp ` set (base @ ext @ [a]))" by (intro card_mono) auto
    then have "int (card (grp ` set (base @ ext))) < m" using that by linarith
    then show ?thesis using ok by (auto simp: pass_ok_def)
  qed
  ultimately show ?thesis using ok nb co by (auto simp: pass_ok_def subseq_snoc_both)
qed

lemma phase1_pass:
  assumes "phase1 grp co w m t as (base @ ext, group_tally (map grp (base @ ext))) = (p, counts)"
    and "pass_ok grp co m t base done ext" and "1 \<le> t"
    and "\<forall>g\<in>grp ` set base. t \<le> int (count_list (map grp base) g)"
  shows "counts = group_tally (map grp p) \<and> (int (length (base @ ext)) \<le> w \<longrightarrow> int (length p) \<le> w)
    \<and> (\<exists>done' ext'. p = base @ ext' \<and> pass_ok grp co m t base done' ext' \<and> (w \<le> int (length p) \<or> done' = done @ as)
          \<and> prefix done' (done @ as))"
  using assms
proof (induction as arbitrary: ext "done")
  case (Cons a as)
  let ?c = "group_tally (map grp (base @ ext))"
  have get: "mget ?c (grp a) = None \<longleftrightarrow> grp a \<notin> grp ` set (base @ ext)"
      "(case mget ?c (grp a) of Some n \<Rightarrow> n | None \<Rightarrow> 0) = int (count_list (map grp (base @ ext)) (grp a))"
    by (auto simp: group_tally_get count_list_0_iff)
  have len: "length ?c = card (grp ` set (base @ ext))" by (simp only: length_group_tally set_map)
  show ?case
  proof (cases "w \<le> int (length (base @ ext))")
    case True
    then have p: "p = base @ ext" and c: "counts = ?c" using Cons.prems(1) by (auto simp del: map_append)
    show ?thesis unfolding p c using True Cons.prems(2) by (auto intro!: exI [of _ "done"])
  next
    case False
    consider (closed) "grp a \<notin> grp ` set (base @ ext)" "m \<le> int (card (grp ` set (base @ ext))) \<or> \<not> co (grp a)"
      | (full) "\<not> (grp a \<notin> grp ` set (base @ ext) \<and> (m \<le> int (card (grp ` set (base @ ext))) \<or> \<not> co (grp a)))"
          "t \<le> int (count_list (map grp (base @ ext)) (grp a))"
      | (pick) "\<not> (grp a \<notin> grp ` set (base @ ext) \<and> (m \<le> int (card (grp ` set (base @ ext))) \<or> \<not> co (grp a)))"
          "int (count_list (map grp (base @ ext)) (grp a)) < t"
      by fastforce
    then show ?thesis
    proof cases
      case closed
      then have "phase1 grp co w m t as (base @ ext, ?c) = (p, counts)"
        using Cons.prems(1) False by (simp only: phase1.simps get len) simp
      from Cons.IH [OF this pass_ok_skip_closed [OF Cons.prems(2) closed] Cons.prems(3,4)] show ?thesis by simp
    next
      case full
      then have "phase1 grp co w m t as (base @ ext, ?c) = (p, counts)"
        using Cons.prems(1) False by (simp only: phase1.simps get len) (simp split: if_splits)
      from Cons.IH [OF this pass_ok_skip_full [OF Cons.prems(2) full(2) Cons.prems(3)] Cons.prems(3,4)] show ?thesis by simp
    next
      case pick
      have "phase1 grp co w m t as (base @ (ext @ [a]), group_tally (map grp (base @ (ext @ [a])))) = (p, counts)"
        using Cons.prems(1) False pick by (simp only: phase1.simps get len) (auto split: if_splits simp flip: append_assoc)
      moreover have "pass_ok grp co m t base (done @ [a]) (ext @ [a])"
        using pick by (intro pass_ok_pick Cons.prems) auto
      ultimately show ?thesis using Cons.IH [of "ext @ [a]" "done @ [a]"] Cons.prems(3,4) False by simp
    qed
  qed
next
  case Nil
  then have "p = base @ ext \<and> counts = group_tally (map grp p)" by (auto simp del: map_append)
  then show ?case using Nil.prems(2) by (auto intro: prefix_order.refl)
qed

lemma subseq_set: "subseq xs ys \<Longrightarrow> set xs \<subseteq> set ys"
  by (auto elim: list_emb_set)

lemma pass_ok_sub: "pass_ok grp co m t base done ext \<Longrightarrow> prefix done ranked \<Longrightarrow> subseq ext ranked"
  unfolding pass_ok_def by (rule subseq_order.order_trans [of ext "done"]) (auto intro: prefix_imp_subseq)

lemma distinct_subseq_of: "subseq xs ys \<Longrightarrow> distinct ys \<Longrightarrow> distinct xs"
  by (induction rule: list_emb.induct) (auto dest: subseq_set)

lemma distinct_by_group: "distinct xs \<Longrightarrow> distinct ys \<Longrightarrow> grp ` set xs \<inter> grp ` set ys = {} \<Longrightarrow> distinct (xs @ ys)"
  by auto

text \<open>Each group is filled up to the target, so a pick as long as the bound fills every group.\<close>

lemma full_groups:
  assumes "\<forall>g\<in>set gs. int (count_list gs g) \<le> t" "int (card (set gs)) \<le> m" "m * t \<le> int (length gs)" "1 \<le> t" "0 \<le> m"
  shows "int (card (set gs)) = m \<and> (\<forall>g\<in>set gs. int (count_list gs g) = t)"
proof -
  have len: "int (length gs) = (\<Sum>g\<in>set gs. int (count_list gs g))" by (simp flip: sum_count_set [of gs "set gs"])
  also have "\<dots> \<le> (\<Sum>g\<in>set gs. t)" using assms(1) by (intro sum_mono) auto
  finally have le: "int (length gs) \<le> int (card (set gs)) * t" by simp
  have "m \<le> int (card (set gs))"
  proof (rule ccontr)
    assume "\<not> ?thesis"
    then have "int (card (set gs)) * t < m * t" using assms(4) by simp
    then show False using le assms(3) by linarith
  qed
  then have card: "int (card (set gs)) = m" using assms(2) by simp
  have "int (count_list gs g) = t" if g: "g \<in> set gs" for g
  proof (rule ccontr)
    assume "int (count_list gs g) \<noteq> t"
    then have "int (count_list gs g) < t" using assms(1) g by fastforce
    then have "(\<Sum>g\<in>set gs. int (count_list gs g)) < (\<Sum>g\<in>set gs. t)"
      using assms(1) g by (intro sum_strict_mono_ex1) auto
    then show False using len assms(3) card by simp
  qed
  then show ?thesis using card by blast
qed

lemma fill_by_rank_facts:
  assumes "distinct picked" "distinct as"
  shows "\<exists>more. fill_by_rank w as picked = picked @ more \<and> distinct (picked @ more) \<and> set more \<subseteq> set as
    \<and> (int (length picked) \<le> w \<longrightarrow> int (length (picked @ more)) \<le> w)
    \<and> (int (length (picked @ more)) < w \<longrightarrow> set as \<subseteq> set (picked @ more))"
  using assms
proof (induction w as picked rule: fill_by_rank.induct)
  case (2 w a as picked)
  consider "w \<le> int (length picked)" | "int (length picked) < w" "a \<in> set picked" | "int (length picked) < w" "a \<notin> set picked"
    by linarith
  then show ?case
  proof cases
    case 3
    with 2 obtain more where "fill_by_rank w as (picked @ [a]) = (picked @ [a]) @ more" "distinct ((picked @ [a]) @ more)"
      "set more \<subseteq> set as" "int (length (picked @ [a])) \<le> w \<longrightarrow> int (length ((picked @ [a]) @ more)) \<le> w"
      "int (length ((picked @ [a]) @ more)) < w \<longrightarrow> set as \<subseteq> set ((picked @ [a]) @ more)"
      by fastforce
    with 3 show ?thesis by (intro exI [of _ "a # more"]) auto
  qed (use 2 in fastforce)+
qed simp

text \<open>The two passes of phase 1 from nothing: what is picked first, and that nobody is picked twice.\<close>

lemma two_passes:
  assumes "distinct ranked" "1 \<le> t"
    and pass1: "phase1 grp viable w m t ranked ([], []) = (p1, c1)" and pass2: "phase1 grp (\<lambda>_. True) w m t ranked (p1, c1) = (p2, c2)"
    and viable: "\<And>g. viable g \<longleftrightarrow> t \<le> int (count_list (map grp ranked) g)"
  shows "\<exists>ext. p2 = p1 @ ext \<and> distinct p2 \<and> set p2 \<subseteq> set ranked \<and> (0 \<le> w \<longrightarrow> int (length p2) \<le> w)"
    and "m * t \<le> w \<Longrightarrow> 0 \<le> m \<Longrightarrow> m \<le> int (card {g. viable g}) \<Longrightarrow> m \<le> int (card {g \<in> grp ` set p1. t \<le> int (count_list (map grp p1) g)})"
proof -
  from phase1_pass [of grp viable w m t ranked "[]" "[]" p1 c1 "[]"] pass1 pass_ok_start assms(2)
  obtain done1 where c1: "c1 = group_tally (map grp p1)" and len1: "0 \<le> w \<longrightarrow> int (length p1) \<le> w"
    and ok1: "pass_ok grp viable m t [] done1 p1" and end1: "w \<le> int (length p1) \<or> done1 = ranked" and pre1: "prefix done1 ranked"
    by auto
  have sub1: "subseq p1 ranked" using ok1 pre1 by (rule pass_ok_sub)
  then have d1: "distinct p1" and s1: "set p1 \<subseteq> set ranked" using assms(1) distinct_subseq_of subseq_set by blast+
  have cnt1: "viable g \<and> int (count_list (map grp p1) g) = min t (int (count_list (map grp done1) g))" if "g \<in> grp ` set p1" for g
    using ok1 that unfolding pass_ok_def by blast
  show "\<exists>ext. p2 = p1 @ ext \<and> distinct p2 \<and> set p2 \<subseteq> set ranked \<and> (0 \<le> w \<longrightarrow> int (length p2) \<le> w)"
  proof (cases "w \<le> int (length p1)")
    case True
    then have "p2 = p1" using pass2 by (cases ranked) simp_all
    then show ?thesis using d1 s1 len1 by simp
  next
    case False
    then have "done1 = ranked" using end1 by simp
    then have full: "\<forall>g\<in>grp ` set p1. t \<le> int (count_list (map grp p1) g)" using cnt1 viable by fastforce
    from phase1_pass [of grp "\<lambda>_. True" w m t ranked p1 "[]" p2 c2 "[]"] pass2 pass_ok_start assms(2) full c1
    obtain done2 ext where p2: "p2 = p1 @ ext" and len2: "int (length p1) \<le> w \<longrightarrow> int (length p2) \<le> w"
      and ok2: "pass_ok grp (\<lambda>_. True) m t p1 done2 ext" and pre2: "prefix done2 ranked" by auto
    have sub2: "subseq ext ranked" using ok2 pre2 by (rule pass_ok_sub)
    then have "distinct ext" "set ext \<subseteq> set ranked" using assms(1) distinct_subseq_of subseq_set by blast+
    moreover have "grp ` set p1 \<inter> grp ` set ext = {}" using ok2 unfolding pass_ok_def by blast
    ultimately show ?thesis using p2 d1 s1 len1 len2 distinct_by_group by auto
  qed
  assume w: "m * t \<le> w" "0 \<le> m" "m \<le> int (card {g. viable g})"
  have le: "\<forall>g\<in>set (map grp p1). int (count_list (map grp p1) g) \<le> t" using cnt1 by simp
  have card: "int (card (set (map grp p1))) \<le> m" using ok1 w(2) by (auto simp: pass_ok_def)
  show "m \<le> int (card {g \<in> grp ` set p1. t \<le> int (count_list (map grp p1) g)})"
  proof (cases "w \<le> int (length p1)")
    case True
    then have "int (card (set (map grp p1))) = m \<and> (\<forall>g\<in>set (map grp p1). int (count_list (map grp p1) g) = t)"
      using w assms(2) by (intro full_groups le card) auto
    then have "{g \<in> grp ` set p1. t \<le> int (count_list (map grp p1) g)} = grp ` set p1" "int (card (grp ` set p1)) = m" by auto
    then show ?thesis by simp
  next
    case False
    then have all: "done1 = ranked" using end1 by simp
    have eq: "{g \<in> grp ` set p1. t \<le> int (count_list (map grp p1) g)} = grp ` set p1" using cnt1 viable all by fastforce
    have "{g. viable g} \<subseteq> grp ` set ranked" 
    proof
      fix g
      assume "g \<in> {g. viable g}"
      then have "count_list (map grp ranked) g \<noteq> 0" using viable assms(2) by auto
      then show "g \<in> grp ` set ranked" by (metis count_notin set_map)
    qed
    then have "{g. viable g} \<subseteq> grp ` set p1" if "int (card (grp ` set p1)) < m" using that ok1 all unfolding pass_ok_def by auto
    then have "m \<le> int (card (grp ` set p1))" using w(3) by (meson List.finite_set card_mono finite_imageI not_less of_nat_mono order_trans)
    then show ?thesis unfolding eq .
  qed
qed

lemma group_counts: "countByGroup c addrs = group_tally (map (group_of c) addrs)"
  by (simp add: countByGroup_def group_tally_def fold_map comp_def)

lemma order_facts:
  fixes c ranked wanted minGroups perGroupTarget
  defines "ps \<equiv> orderForGroupDiversity c ranked wanted minGroups perGroupTarget" and "t \<equiv> max 1 perGroupTarget"
    and "viable \<equiv> {g. max 1 perGroupTarget \<le> int (count_list (map (group_of c) ranked) g)}"
  assumes "distinct ranked" "0 \<le> wanted"
  shows "distinct ps \<and> set ps \<subseteq> set ranked \<and> int (length ps) = min wanted (int (length ranked))"
    and "minGroups * t \<le> wanted \<Longrightarrow> 0 \<le> minGroups \<Longrightarrow> minGroups \<le> int (card viable) \<Longrightarrow>
      minGroups \<le> int (card {g \<in> set (map (group_of c) ps). t \<le> int (count_list (map (group_of c) ps) g)})"
proof -
  let ?g = "group_of c" and ?v = "\<lambda>g. (case mget (fold (\<lambda>a. bump (group_of c a) 1) ranked []) g of Some n \<Rightarrow> n | None \<Rightarrow> 0) \<ge> t"
  have avail: "fold (\<lambda>a. bump (group_of c a) 1) ranked [] = group_tally (map ?g ranked)" by (simp add: group_tally_def fold_map comp_def)
  have t: "1 \<le> t" "(if perGroupTarget < 1 then 1 else perGroupTarget) = t" by (auto simp: t_def)
  obtain p1 c1 p2 c2 where p1: "phase1 ?g ?v wanted minGroups t ranked ([], []) = (p1, c1)"
    and p2: "phase1 ?g (\<lambda>_. True) wanted minGroups t ranked (p1, c1) = (p2, c2)" by (meson surj_pair)
  have v: "?v g \<longleftrightarrow> t \<le> int (count_list (map ?g ranked) g)" for g
    using t(1) unfolding avail by (auto simp: group_tally_get count_list_0_iff)
  have ps: "ps = fill_by_rank wanted ranked p2"
    unfolding ps_def orderForGroupDiversity_def Let_def t(2) p1 p2 by simp
  note two = two_passes [OF assms(4) t(1) p1 p2 v]
  obtain ext where ext: "p2 = p1 @ ext" "distinct p2" "set p2 \<subseteq> set ranked" "int (length p2) \<le> wanted" using two(1) assms(5) by blast
  from fill_by_rank_facts [OF ext(2) assms(4), of wanted]
  obtain more where more: "ps = p2 @ more" "distinct ps" "set more \<subseteq> set ranked" "int (length ps) \<le> wanted"
    "int (length ps) < wanted \<longrightarrow> set ranked \<subseteq> set ps" using ext(4) unfolding ps by auto
  have sub: "set ps \<subseteq> set ranked" using more(1,3) ext(3) by auto
  have le: "length ps \<le> length ranked" using card_mono [OF _ sub] more(2) assms(4) by (simp add: distinct_card)
  have "length ranked \<le> length ps" if "int (length ps) < wanted"
    using card_mono [OF _ more(5) [rule_format, OF that]] more(2) assms(4) by (simp add: distinct_card)
  then have "int (length ps) = min wanted (int (length ranked))" using le more(4) by linarith
  then show "distinct ps \<and> set ps \<subseteq> set ranked \<and> int (length ps) = min wanted (int (length ranked))" using sub more(2) by simp
  assume m: "minGroups * t \<le> wanted" "0 \<le> minGroups" "minGroups \<le> int (card viable)"
  have "{g. ?v g} = viable" unfolding viable_def by (rule Collect_cong) (use v in \<open>simp only: t_def\<close>)
  then have "minGroups \<le> int (card {g \<in> ?g ` set p1. t \<le> int (count_list (map ?g p1) g)})"
    using two(2) [OF m(1,2)] m(3) by (simp only:)
  also have "\<dots> \<le> int (card {g \<in> set (map ?g ps). t \<le> int (count_list (map ?g ps) g)})"
    unfolding more(1) ext(1) by (intro of_nat_mono card_mono) auto
  finally show "minGroups \<le> int (card {g \<in> set (map ?g ps). t \<le> int (count_list (map ?g ps) g)})" .
qed

section \<open>What a selection hands out\<close>

lemma valid_offered:
  assumes "csm_ok c"
  shows "set (getValidAddresses addon exts c) \<subseteq> set (validAddresses c)"
  using assms by (auto simp: getValidAddresses_def CalculateAddonValidAddresses_def csm_ok_def caches_ok_def split: option.splits)

text \<open>The facts of the optimizer's contract that the loop over it rests on.\<close>

context upstream_choice
begin

lemma choose_providers_sound:
  "distinct (choose_providers pick k i valid ignored) \<and> set (choose_providers pick k i valid ignored) \<subseteq> set valid - fset ignored"
proof (induction k arbitrary: i ignored)
  case (Suc k)
  show ?case
  proof (cases "pick i valid ignored")
    case (Cons p ps)
    then have ps: "pick i valid ignored = [p]" "p \<in> set valid" "p |\<notin>| ignored" using chosen [of i valid ignored] by auto
    then show ?thesis using Suc.IH [of "Suc i" "finsert p ignored"] by auto
  qed simp
qed simp

lemma choose_providers_complete:
  assumes "card (set valid - fset ignored) \<le> k"
  shows "set (choose_providers pick k i valid ignored) = set valid - fset ignored"
  using assms
proof (induction k arbitrary: i ignored)
  case (Suc k)
  show ?case
  proof (cases "pick i valid ignored")
    case Nil
    then show ?thesis using chooses [of i valid ignored] by auto
  next
    case (Cons p ps)
    then have ps: "pick i valid ignored = [p]" "p \<in> set valid" "p |\<notin>| ignored" using chosen [of i valid ignored] by auto
    have eq: "set valid - fset (finsert p ignored) = (set valid - fset ignored) - {p}" by auto
    have "card (set valid - fset (finsert p ignored)) \<le> k" unfolding eq using Suc.prems ps by simp
    from Suc.IH [OF this, of "Suc i"] show ?thesis using ps by auto
  qed
qed simp

lemma choose_providers_empty:
  "choose_providers pick (Suc k) i valid ignored = [] \<longleftrightarrow> set valid \<subseteq> fset ignored"
proof (cases "pick i valid ignored")
  case Nil
  then show ?thesis using chooses by simp
next
  case (Cons p ps)
  then show ?thesis using chosen [of i valid ignored] by auto
qed

end

text \<open>The shape of the environment with the router's own optimizer.\<close>

lemma model_optimizer:
  assumes "opt env = (\<lambda>k i. ChooseUpstream mode scoring (\<lambda>a. Some (qos a)) stakes (draws k i))"
  shows "upstream_choice (opt env k)"
  unfolding assms by (rule optimizer.upstream_choice_axioms)

lemma no_hold_filter: "(\<And>a. a \<in> set valid \<Longrightarrow> held_until env a = None) \<Longrightarrow> filterRateLimitedProviders env valid ignored = valid"
proof -
  assume free: "\<And>a. a \<in> set valid \<Longrightarrow> held_until env a = None"
  have "hold_scan env ignored valid (ready, n, h, s) = (ready', n', h', s') \<Longrightarrow> h' = h" for ready n h s ready' n' h' s'
    using free by (induction valid arbitrary: ready n s) auto
  then show ?thesis
    by (cases "hold_scan env ignored valid ([], 0, 0, '''', zero_time)")
       (auto simp: filterRateLimitedProviders_def split: option.split prod.split)
qed

text \<open>A full ranking of the candidates, when none is ignored or held off.\<close>

lemma full_ranking:
  assumes env: "\<And>k. upstream_choice (opt env k)" and ok: "csm_ok c" and name: "'''' \<notin> set (validAddresses c)"
    and fresh: "getValidAddresses (req_addon req) (req_exts req) c = CalculateAddonValidAddresses (req_addon req) (req_exts req) c"
    and free: "\<And>a. a \<in> set (validAddresses c) \<Longrightarrow> held_until env a = None"
    and read: "req_stateful req \<noteq> CONSISTENCY_SELECT_ALL_PROVIDERS" and none: "CalculateAddonValidAddresses (req_addon req) (req_exts req) c \<noteq> []"
    and sticky: "mget (stickySessions c) '''' = None"
  shows "\<exists>ranked. getValidProviderAddresses env k (int (length (validAddresses c))) {||} tried req '''' '''' c = (Inr ranked, c)
    \<and> distinct ranked \<and> set ranked = set (CalculateAddonValidAddresses (req_addon req) (req_exts req) c)"
proof -
  let ?cands = "CalculateAddonValidAddresses (req_addon req) (req_exts req) c"
  let ?ranked = "choose_providers (opt env k) (length (validAddresses c)) 0 ?cands {||}"
  note env = env [of k]
  have cands: "set ?cands \<subseteq> set (validAddresses c)" by (auto simp: CalculateAddonValidAddresses_def)
  have "card (set ?cands - fset {||}) \<le> length (validAddresses c)"
    using card_mono [OF _ cands] card_length [of "validAddresses c"] by simp
  from upstream_choice.choose_providers_complete [OF env this, of 0] have set: "set ?ranked = set ?cands" by simp
  have dist: "distinct ?ranked" using upstream_choice.choose_providers_sound [OF env] by blast
  have ne: "?ranked \<noteq> []" using set none by (metis set_empty)
  then have "hd ?ranked \<noteq> ''''" using set cands name by (metis hd_in_set subsetD)
  moreover have "filterRateLimitedProviders env ?cands {||} = ?cands" using free cands by (intro no_hold_filter) auto
  moreover have "\<not> pool_exhausted ?cands {||}" using none by (simp add: pool_exhausted_def)
  ultimately have "getValidProviderAddresses env k (int (length (validAddresses c))) {||} tried req '''' '''' c = (Inr ?ranked, c)"
    using ne read sticky
    by (simp add: getValidProviderAddresses_def selectProviderAddresses_def ordinary_selection_def Let_def fresh broadcasts_write_def)
  then show ?thesis using dist set by blast
qed

lemma staffed_groups: "1 \<le> t \<Longrightarrow> {g. t \<le> int (count_list gs g)} = {g \<in> set gs. t \<le> int (count_list gs g)}"
proof (rule Collect_cong)
  fix g
  assume "1 \<le> t"
  then show "(t \<le> int (count_list gs g)) = (g \<in> set gs \<and> t \<le> int (count_list gs g))"
    by (cases "g \<in> set gs") simp_all
qed

lemma staffed_once: "{g \<in> set gs. 1 \<le> int (count_list gs g)} = set gs"
proof -
  have "1 \<le> int (count_list gs g)" if "g \<in> set gs" for g using that count_list_0_iff [of gs g] by (cases "count_list gs g") auto
  then show ?thesis by blast
qed

text \<open>C17. The capacity guard and the selection agree. When the guard admits a cross-validated request that
  needs several groups, the selection of \<open>GetSessions\<close> hands out exactly \<open>MaxParticipants\<close> different candidates
  whose agreement satisfies the quorum rule of the relay processor: for every ranking by the optimizer, including
  per-group quorums. The conditions: the request is not a broadcast; no candidate is ignored or held off after a rate
  limit; the list of candidates cached for the request's key, if there is one, is the one that would be computed now,
  which a pool release for another key can break; the optimizer has a QoS report for every candidate; no session is
  pinned under the empty sticky id and no address is empty; and fewer than \<open>2 ^ 31\<close> participants are asked for.\<close>

theorem admitted_selection_can_agree:
  assumes "csm_reachable c" "'''' \<notin> set (validAddresses c)" "mget (stickySessions c) '''' = None"
    and opt: "opt env = (\<lambda>k i. ChooseUpstream mode scoring (\<lambda>a. Some (qos a)) stakes (draws k i))"
    and fresh: "getValidAddresses (req_addon req) (req_exts req) c = CalculateAddonValidAddresses (req_addon req) (req_exts req) c"
    and free: "\<And>a. a \<in> set (validAddresses c) \<Longrightarrow> held_until env a = None"
    and req: "req_stateful req \<noteq> CONSISTENCY_SELECT_ALL_PROVIDERS" "req_minGroups req = MinGroups q" "1 < MinGroups q"
      "req_perGroupTarget req = (if PerGroupQuorum q then AgreementThreshold q else 1)" "ign_providers ip = {||}"
    and q: "1 \<le> AgreementThreshold q" "AgreementThreshold q \<le> MaxParticipants q" "MinGroups q \<le> MaxParticipants q"
      "MaxParticipants q < 2147483648"
    and guard: "validateCrossValidationCapacity CrossValidation (Some q) (GroupCountsForRequest (req_addon req) (req_exts req) c) = []"
  shows "\<exists>ps. first_addresses env k (MaxParticipants q) req ip c = (Inr ps, c) \<and> distinct ps \<and> int (length ps) = MaxParticipants q
    \<and> set ps \<subseteq> set (CalculateAddonValidAddresses (req_addon req) (req_exts req) c)
    \<and> quorum_rule (PerGroupQuorum q) (AgreementThreshold q) (MinGroups q) (map (group_of c) ps)"
proof -
  let ?cands = "CalculateAddonValidAddresses (req_addon req) (req_exts req) c" and ?t = "req_perGroupTarget req"
  have ok: "csm_ok c" using assms(1) by (rule csm_reachable_ok)
  have g: "MaxParticipants q \<le> int (length ?cands)" "MinGroups q \<le> int (card (set (map (group_of c) ?cands)))"
    "PerGroupQuorum q \<Longrightarrow> mul64 (MinGroups q) (AgreementThreshold q) \<le> MaxParticipants q
       \<and> MinGroups q \<le> int (card {g \<in> set (map (group_of c) ?cands). AgreementThreshold q \<le> int (count_list (map (group_of c) ?cands) g)})"
    using guard by (simp_all add: GroupCountsForRequest_def group_counts capacity_guard_cases)
  have ne: "?cands \<noteq> []" using g(1) q by auto
  obtain ranked where ranked: "getValidProviderAddresses env k (int (length (validAddresses c))) {||} (triedByThisRequest ip) req '''' '''' c = (Inr ranked, c)"
    "distinct ranked" "set ranked = set ?cands"
    using full_ranking [OF model_optimizer [OF opt] ok assms(2) fresh free req(1) ne assms(3)] by blast
  have dc: "distinct ?cands" using ok by (auto simp: CalculateAddonValidAddresses_def csm_ok_def lists_ok_def)
  have perm: "mset ranked = mset ?cands" using ranked(2,3) dc by (simp add: set_eq_iff_mset_eq_distinct)
  then have len: "length ranked = length ?cands" by (metis mset_eq_length)
  have cnt: "count_list (map (group_of c) ranked) = count_list (map (group_of c) ?cands)"
    using perm by (metis count_mset ext mset_map)
  let ?ps = "orderForGroupDiversity c ranked (MaxParticipants q) (MinGroups q) ?t"
  have first: "first_addresses env k (MaxParticipants q) req ip c = (Inr ?ps, c)"
    using req ranked(1) by (simp add: first_addresses_def)
  have w: "0 \<le> MaxParticipants q" using q by linarith
  note facts = order_facts [OF ranked(2) w, where c = c and minGroups = "MinGroups q" and perGroupTarget = ?t]
  have small: "mul64 (MinGroups q) (AgreementThreshold q) = MinGroups q * AgreementThreshold q"
  proof -
    have "MinGroups q * AgreementThreshold q \<le> 2147483648 * 2147483648" using q req(3) by (intro mult_mono) linarith+
    moreover have "0 \<le> MinGroups q * AgreementThreshold q" using q req(3) by simp
    ultimately show ?thesis by (simp add: mul64_id in_int64_def min_int64_def max_int64_def)
  qed
  have t: "max 1 ?t = ?t" using req(4) q(1) by auto
  have viable: "{g. ?t \<le> int (count_list (map (group_of c) ranked) g)} =
      (if PerGroupQuorum q then {g \<in> set (map (group_of c) ?cands). AgreementThreshold q \<le> int (count_list (map (group_of c) ?cands) g)}
       else set (map (group_of c) ?cands))"
    using staffed_groups [OF q(1), of "map (group_of c) ?cands"]
      staffed_once [of "map (group_of c) ?cands", folded staffed_groups [OF order.refl]] req(4) unfolding cnt
    by (cases "PerGroupQuorum q") (simp_all only: if_True if_False simp_thms)
  let ?staffed = "{g \<in> set (map (group_of c) ?ps). ?t \<le> int (count_list (map (group_of c) ?ps) g)}"
  have many: "MinGroups q \<le> int (card ?staffed)"
    using facts(2) viable g(2,3) small req(3,4) q(3) unfolding t by auto
  have "card ?staffed \<le> card (set (map (group_of c) ?ps))" by (intro card_mono) auto
  with many have groups: "MinGroups q \<le> int (card (set (map (group_of c) ?ps)))" by linarith
  have "int (length ?ps) = MaxParticipants q" using facts(1) g(1) len by linarith
  then have "quorum_rule (PerGroupQuorum q) (AgreementThreshold q) (MinGroups q) (map (group_of c) ?ps)"
    using many groups q(2) req(4) unfolding quorum_rule_def by (cases "PerGroupQuorum q") simp_all
  then show ?thesis using first facts(1) g(1) len ranked(3) by auto
qed

text \<open>Four providers in two groups, the last one held off after a rate limit in \<open>pool_env True\<close>.\<close>

definition pool_providers :: "ref \<Rightarrow> cswp" where
  "pool_providers r =
     (NewConsumerSessionWithProvider (if r = 0 then ''a1'' else if r = 1 then ''a2'' else if r = 2 then ''a3'' else ''b1'') [r] 1000 1 0)
       \<lparr>StaticProvider := True, GroupLabel := (if r < 3 then ''a'' else ''b'')\<rparr>"

definition pool_endpoints :: "ref \<Rightarrow> Endpoint" where
  "pool_endpoints r = demo_endpoint []"

definition pool_start :: csm where
  "pool_start = snd (UpdateAllProviders 1 [(0, 0), (1, 1), (2, 2), (3, 3)] [] 100 (NewConsumerSessionManager pool_providers pool_endpoints))"

definition pool_env :: "bool \<Rightarrow> select_env" where
  "pool_env held =
     \<lparr>rateLimitHoldoff = Some (if held then [(''b1'', \<lparr>urls = [(''u'', \<lparr>strikes = 1, readyAt = 900, lastSeen = 100\<rparr>)], escalatedUntil = 0\<rparr>)] else []),
      sel_now = 200, opt = (\<lambda>k i. ChooseUpstream SelectionModeBest (\<lambda>q s t. 1) (\<lambda>a. Some live_report) [] (1/2, 0)),
      opt_Strategy = StrategyBalanced\<rparr>"

definition two_groups :: CrossValidationParams where
  "two_groups = \<lparr>MaxParticipants = 3, AgreementThreshold = 2, MinGroups = 2, PerGroupQuorum = False\<rparr>"

definition pool_request :: select_request where
  "pool_request = \<lparr>req_cu = 10, req_addon = '''', req_exts = [], req_stateful = 0, req_virtualEpoch = 0, req_stickiness = '''',
     req_selected = '''', req_minGroups = 2, req_perGroupTarget = 1\<rparr>"

definition fresh_attempt :: ignoredProviders where
  "fresh_attempt = \<lparr>ign_providers = {||}, triedByThisRequest = {||}, ign_currentEpoch = 1, preferredProvider = ''''\<rparr>"

lemma pool_start_reachable: "csm_reachable pool_start"
proof -
  have "csm_reachable (csm_apply (Rebuilt 1 [(0, 0), (1, 1), (2, 2), (3, 3)] [] 100) (NewConsumerSessionManager pool_providers pool_endpoints))"
    by (rule csm_reachable.step [OF csm_reachable.start])
       (simp add: NewConsumerSessionManager_def pool_providers_def NewConsumerSessionWithProvider_def)
  then show ?thesis by (simp add: pool_start_def)
qed

lemma pool_start_facts:
  "validAddresses pool_start = [''a1'', ''a2'', ''a3'', ''b1'']" "mget (stickySessions pool_start) '''' = None"
  "CalculateAddonValidAddresses '''' [] pool_start = [''a1'', ''a2'', ''a3'', ''b1'']"
  "getValidAddresses '''' [] pool_start = [''a1'', ''a2'', ''a3'', ''b1'']"
  "validateCrossValidationCapacity CrossValidation (Some two_groups) (GroupCountsForRequest '''' [] pool_start) = []"
  by code_simp+

lemma pool_env_free: "held_until (pool_env False) a = None"
  by (simp add: held_until_def pool_env_def ProviderReadyAt_def)

lemma pool_sample_fields [simp]:
  "MaxParticipants two_groups = 3" "AgreementThreshold two_groups = 2" "MinGroups two_groups = 2" "\<not> PerGroupQuorum two_groups"
  "req_addon pool_request = ''''" "req_exts pool_request = []" "req_stateful pool_request = 0" "req_minGroups pool_request = 2"
  "req_perGroupTarget pool_request = 1" "ign_providers fresh_attempt = {||}"
  by (simp_all add: two_groups_def pool_request_def fresh_attempt_def)

theorem admitted_selection_can_agree_witness:
  "\<exists>ps. first_addresses (pool_env False) 0 3 pool_request fresh_attempt pool_start = (Inr ps, pool_start)
    \<and> length ps = 3 \<and> quorum_rule False 2 2 (map (group_of pool_start) ps)"
proof -
  have opt: "opt (pool_env False) = (\<lambda>k i. ChooseUpstream SelectionModeBest (\<lambda>q s t. 1) (\<lambda>a. Some ((\<lambda>a. live_report) a)) [] ((\<lambda>k i. (1/2, 0)) k i))"
    by (simp add: pool_env_def)
  show ?thesis
    using admitted_selection_can_agree [OF pool_start_reachable _ _ opt, of pool_request two_groups fresh_attempt 0]
    by (auto simp: pool_start_facts pool_env_free CONSISTENCY_SELECT_ALL_PROVIDERS_def)
qed

text \<open>C24. The hold-off filter does not know the groups a request needs. With three providers of one group and
  one of another, the guard admits a request that must reach two groups; when the only provider of the
  second group is held off after a rate limit, the selection drops it although nothing but it could make
  the answers diverse, and hands out three providers of one group, which no agreement can turn into
  a quorum.\<close>

theorem held_group_starves_quorum:
  "validateCrossValidationCapacity CrossValidation (Some two_groups) (GroupCountsForRequest '''' [] pool_start) = []
   \<and> first_addresses (pool_env True) 0 (MaxParticipants two_groups) pool_request fresh_attempt pool_start = (Inr [''a1'', ''a2'', ''a3''], pool_start)
   \<and> \<not> quorum_rule (PerGroupQuorum two_groups) (AgreementThreshold two_groups) (MinGroups two_groups)
         (map (group_of pool_start) [''a1'', ''a2'', ''a3''])"
proof (intro conjI)
  show "validateCrossValidationCapacity CrossValidation (Some two_groups) (GroupCountsForRequest '''' [] pool_start) = []" by (rule pool_start_facts)
  show "\<not> quorum_rule (PerGroupQuorum two_groups) (AgreementThreshold two_groups) (MinGroups two_groups)
         (map (group_of pool_start) [''a1'', ''a2'', ''a3''])" by code_simp
  have "fst (first_addresses (pool_env True) 0 (MaxParticipants two_groups) pool_request fresh_attempt pool_start) = Inr [''a1'', ''a2'', ''a3'']"
    by code_simp
  moreover have "snd (first_addresses (pool_env True) 0 (MaxParticipants two_groups) pool_request fresh_attempt pool_start) = pool_start"
    using pool_start_facts(2)
    by (simp add: first_addresses_def getValidProviderAddresses_def selectProviderAddresses_def ordinary_selection_def Let_def pool_request_def
        fresh_attempt_def split: prod.split sum.split)
  ultimately show "first_addresses (pool_env True) 0 (MaxParticipants two_groups) pool_request fresh_attempt pool_start = (Inr [''a1'', ''a2'', ''a3''], pool_start)"
    by (metis prod.collapse)
qed

section \<open>The hold-off filter\<close>

lemma hold_scan_spec:
  assumes "hold_scan env ignored valid (ready0, n0, h0, s0, at0) = (ready, n, h, s, soon)" and "'''' \<notin> set valid"
  shows "ready = ready0 @ filter (\<lambda>a. held_until env a = None) valid
    \<and> n = n0 + length (filter (\<lambda>a. held_until env a = None \<and> a |\<notin>| ignored) valid)
    \<and> h = h0 + length (filter (\<lambda>a. held_until env a \<noteq> None) valid)
    \<and> (s = '''' \<longleftrightarrow> s0 = '''' \<and> (\<forall>a\<in>set valid. held_until env a \<noteq> None \<longrightarrow> a |\<in>| ignored))
    \<and> (s \<noteq> '''' \<longrightarrow> (s = s0 \<and> soon = at0 \<or> s \<in> set valid \<and> s |\<notin>| ignored \<and> held_until env s = Some soon)
          \<and> (s0 \<noteq> '''' \<longrightarrow> soon \<le> at0) \<and> (\<forall>a\<in>set valid. \<forall>t. a |\<notin>| ignored \<longrightarrow> held_until env a = Some t \<longrightarrow> soon \<le> t))"
  using assms
proof (induction valid arbitrary: ready0 n0 h0 s0 at0)
  case (Cons a valid)
  have a: "a \<noteq> ''''" "'''' \<notin> set valid" using Cons.prems(2) by auto
  show ?case
  proof (cases "held_until env a")
    case None
    with Cons.prems(1) Cons.IH [OF _ a(2)] show ?thesis by fastforce
  next
    case (Some t)
    define s1 at1 where "s1 = (if a |\<in>| ignored then s0 else if s0 = '''' \<or> t < at0 then a else s0)"
      and "at1 = (if a |\<in>| ignored then at0 else if s0 = '''' \<or> t < at0 then t else at0)"
    have "hold_scan env ignored valid (ready0, n0, h0 + 1, s1, at1) = (ready, n, h, s, soon)"
      using Cons.prems(1) Some by (auto simp: s1_def at1_def split: if_splits)
    note IH = Cons.IH [OF this a(2)]
    have "s1 = '''' \<longleftrightarrow> s0 = '''' \<and> a |\<in>| ignored" using a(1) by (simp add: s1_def)
    with IH have 1: "s = '''' \<longleftrightarrow> s0 = '''' \<and> (\<forall>x\<in>set (a # valid). held_until env x \<noteq> None \<longrightarrow> x |\<in>| ignored)" using Some by auto
    have "(s = s0 \<and> soon = at0 \<or> s \<in> set (a # valid) \<and> s |\<notin>| ignored \<and> held_until env s = Some soon)
          \<and> (s0 \<noteq> '''' \<longrightarrow> soon \<le> at0) \<and> (\<forall>x\<in>set (a # valid). \<forall>t. x |\<notin>| ignored \<longrightarrow> held_until env x = Some t \<longrightarrow> soon \<le> t)" if "s \<noteq> ''''"
      using IH that Some a(1) by (auto simp: s1_def at1_def split: if_splits)
    then show ?thesis using 1 IH Some by auto
  qed
qed auto

text \<open>C23. The rate-limit filter never leaves a request without a candidate it had: with a choosable address
  before the filter there is one after it. Ready addresses all stay, in their order, and nothing is added; a
  held address stays only when the registry has nothing to say, or when no ready address is choosable,
  and then it is one that is ready no later than any other choosable one.\<close>

theorem holdoff_filter_exact:
  assumes "'''' \<notin> set valid" and "kept = filterRateLimitedProviders env valid ignored"
  shows "set kept \<subseteq> set valid \<and> filter (\<lambda>a. held_until env a = None) kept = filter (\<lambda>a. held_until env a = None) valid
    \<and> ((\<exists>a\<in>set valid. a |\<notin>| ignored) \<longrightarrow> (\<exists>a\<in>set kept. a |\<notin>| ignored))
    \<and> (\<forall>a\<in>set kept. \<forall>t. held_until env a = Some t \<longrightarrow>
          a |\<notin>| ignored \<and> (\<forall>b\<in>set valid. b |\<notin>| ignored \<longrightarrow> (\<exists>t'. held_until env b = Some t' \<and> t \<le> t')))"
proof (cases "rateLimitHoldoff env")
  case None
  then have "held_until env a = None" for a by (simp add: held_until_def)
  then show ?thesis using assms(2) None by (auto simp: filterRateLimitedProviders_def)
next
  case (Some reg)
  obtain ready n h s soon where scan: "hold_scan env ignored valid ([], 0, 0, '''', zero_time) = (ready, n, h, s, soon)" by (metis prod_cases5)
  note spec = hold_scan_spec [OF scan assms(1)]
  have kept: "kept = (if h = 0 then valid else if 0 < n then ready else if s = '''' then ready else ready @ [s])"
    using assms(2) Some scan by (simp add: filterRateLimitedProviders_def)
  have ready: "ready = filter (\<lambda>a. held_until env a = None) valid" using spec by simp
  have "n = length (filter (\<lambda>a. held_until env a = None \<and> a |\<notin>| ignored) valid)" using spec by simp
  then have n: "n = 0 \<longleftrightarrow> (\<forall>a\<in>set valid. held_until env a = None \<longrightarrow> a |\<in>| ignored)" by (auto simp: filter_empty_conv)
  have "h = length (filter (\<lambda>a. held_until env a \<noteq> None) valid)" using spec by simp
  then have h: "h = 0 \<longleftrightarrow> (\<forall>a\<in>set valid. held_until env a = None)" by (auto simp: filter_empty_conv)
  consider "h = 0" | "h \<noteq> 0" "0 < n" | "h \<noteq> 0" "n = 0" "s = ''''" | "h \<noteq> 0" "n = 0" "s \<noteq> ''''" by blast
  then show ?thesis
  proof cases
    case 2
    then show ?thesis using n by (auto simp: kept ready)
  next
    case 3
    then show ?thesis using n spec by (auto simp: kept ready)
  next
    case 4
    then have s: "s \<in> set valid" "s |\<notin>| ignored" "held_until env s = Some soon"
      "\<forall>a\<in>set valid. \<forall>t. a |\<notin>| ignored \<longrightarrow> held_until env a = Some t \<longrightarrow> soon \<le> t" using spec by auto
    have "\<exists>t'. held_until env b = Some t' \<and> soon \<le> t'" if "b \<in> set valid" "b |\<notin>| ignored" for b
      using that n 4(2) s(4) by (cases "held_until env b") auto
    then show ?thesis using 4 s by (auto simp: kept ready)
  qed (use h in \<open>auto simp: kept\<close>)
qed

theorem holdoff_filter_exact_witness:
  "filterRateLimitedProviders (pool_env True) [''b1''] {||} = [''b1'']
   \<and> (\<exists>a\<in>set (filterRateLimitedProviders (pool_env True) [''b1''] {||}). a |\<notin>| ({||} :: string fset))"
proof -
  have "\<exists>a\<in>set (filterRateLimitedProviders (pool_env True) [''b1''] {||}). a |\<notin>| ({||} :: string fset)"
    using holdoff_filter_exact [of "[''b1'']" _ "pool_env True" "{||}", OF _ refl] by simp
  moreover have "filterRateLimitedProviders (pool_env True) [''b1''] {||} = [''b1'']" by code_simp
  ultimately show ?thesis by blast
qed

section \<open>A pinned request\<close>

lemma resolve_folds: "fst (resolveSelectedProviderAddress sel addrs) \<noteq> '''' \<Longrightarrow>
    fst (resolveSelectedProviderAddress sel addrs) \<in> set addrs \<and> EqualFold (fst (resolveSelectedProviderAddress sel addrs)) sel"
proof -
  assume "fst (resolveSelectedProviderAddress sel addrs) \<noteq> ''''"
  moreover have "hd (filter (\<lambda>a. EqualFold a sel) addrs) \<in> set addrs \<and> EqualFold (hd (filter (\<lambda>a. EqualFold a sel) addrs)) sel"
    if "length (filter (\<lambda>a. EqualFold a sel) addrs) = 1"
  proof -
    from that have "filter (\<lambda>a. EqualFold a sel) addrs \<noteq> []" by auto
    then have "hd (filter (\<lambda>a. EqualFold a sel) addrs) \<in> set (filter (\<lambda>a. EqualFold a sel) addrs)" by (rule hd_in_set)
    then show ?thesis by simp
  qed
  ultimately show ?thesis by (auto simp: resolve_fst EqualFold_def split: if_splits)
qed

lemma pinned_outcome:
  "pinned_addresses sel addrs ignored = Inr ps \<Longrightarrow> \<exists>a. ps = [a] \<and> a \<in> set addrs \<and> a |\<notin>| ignored \<and> EqualFold a sel"
  "pinned_addresses sel addrs ignored = Inl e \<Longrightarrow> e = SelectedProviderUnavailable \<or> e = SelectedProviderAlreadyFailed"
  using resolve_folds [of sel addrs] by (auto simp: pinned_addresses_def split: prod.splits if_splits)

lemma pinned_selection:
  "req_selected req \<noteq> '''' \<Longrightarrow> getValidProviderAddresses env k w ignored tried req stick (req_selected req) c =
     (pinned_addresses (req_selected req) (getValidAddresses (req_addon req) (req_exts req) c) ignored, c)"
  by (simp add: getValidProviderAddresses_def selectProviderAddresses_def Let_def)

end
