(* ===== verification/SessionCascade.thy ===== *)
theory SessionCascade
  imports SessionSelect
begin

text \<open>
  What a request gets out of the selection of providers and its failover cascade, as a whole: it is
  always answered, every stage that hands out a session passes over a provider it had not passed over before, and a pin
  is never replaced by another provider.
\<close>

section \<open>Who may be handed out\<close>

definition eligible :: "select_request \<Rightarrow> csm \<Rightarrow> string \<Rightarrow> bool" where
  "eligible req c a \<longleftrightarrow>
     a \<in> set (getValidAddresses (req_addon req) (req_exts req) c)
   \<or> mget (backupProviders c) a \<noteq> None \<and> a \<notin> set (blockedBackupProviders c) \<and> serves c (req_addon req) (req_exts req) (backup c a)"

text \<open>Two states of the manager that differ in sticky sessions at most.\<close>

definition same_pool :: "csm \<Rightarrow> csm \<Rightarrow> bool" where
  "same_pool c c' \<longleftrightarrow> c' = c\<lparr>stickySessions := stickySessions c'\<rparr>"

lemma same_pool_refl [simp]: "same_pool c c"
  by (simp add: same_pool_def)

lemma same_pool_sticky [simp]: "same_pool c (c\<lparr>stickySessions := ss\<rparr>)"
  by (simp add: same_pool_def)

lemma same_pool_trans: "same_pool c d \<Longrightarrow> same_pool d e \<Longrightarrow> same_pool c e"
proof -
  assume "same_pool c d" "same_pool d e"
  then obtain s1 s2 where "d = c\<lparr>stickySessions := s1\<rparr>" "e = d\<lparr>stickySessions := s2\<rparr>" unfolding same_pool_def by blast
  then show ?thesis by simp
qed

lemma same_pool_fields:
  assumes "same_pool c c'"
  shows "getValidAddresses addon exts c' = getValidAddresses addon exts c" "providerByAddress c' = providerByAddress c"
    "providers c' = providers c" "currentEpoch c' = currentEpoch c" "eligible req c' = eligible req c" "csm_ok c' = csm_ok c"
    "backupProviders c' = backupProviders c" "validAddresses c' = validAddresses c"
proof -
  obtain ss where c': "c' = c\<lparr>stickySessions := ss\<rparr>" using assms unfolding same_pool_def by blast
  show "getValidAddresses addon exts c' = getValidAddresses addon exts c" for addon exts
    by (simp add: c' getValidAddresses_def CalculateAddonValidAddresses_def paired_def serves_def IsSupportingAddon_def IsSupportingExtensions_def
        split: option.split)
  then show "eligible req c' = eligible req c" for req
    by (simp add: fun_eq_iff eligible_def c' backup_def serves_def IsSupportingAddon_def IsSupportingExtensions_def split: option.split)
  show "providers c' = providers c" "currentEpoch c' = currentEpoch c" "backupProviders c' = backupProviders c" "validAddresses c' = validAddresses c"
    by (simp_all add: c')
  show "csm_ok c' = csm_ok c" by (simp add: c' csm_ok_def books_ok_def lists_ok_def backups_ok_def caches_ok_def)
  show "providerByAddress c' = providerByAddress c" by (simp add: c' providerByAddress_def fun_eq_iff split: option.split)
qed

text \<open>A selection hands out somebody, nobody ignored, and only eligible addresses.\<close>

lemma stateful_providers:
  "set (rankStatefulTier c addrs ignored) \<subseteq> set addrs - fset ignored"
  "set (getProvidersForStatefulCalls env valid ignored addon exts hold c)
     \<subseteq> (set valid \<union> set (eligibleBackupsForStateful env ignored addon exts (rankStatefulTier c valid ignored) hold c)) - fset ignored"
proof -
  show 1: "set (rankStatefulTier c addrs ignored) \<subseteq> set addrs - fset ignored" for addrs
    using set_take_subset by (fastforce simp: rankStatefulTier_def)
  show "set (getProvidersForStatefulCalls env valid ignored addon exts hold c)
     \<subseteq> (set valid \<union> set (eligibleBackupsForStateful env ignored addon exts (rankStatefulTier c valid ignored) hold c)) - fset ignored"
    using 1 by (auto simp: getProvidersForStatefulCalls_def Let_def)
qed

lemma backups_eligible:
  "set (eligibleBackupsForStateful env ignored (req_addon req) (req_exts req) sel hold c) \<subseteq> Collect (eligible req c)"
proof
  fix a
  assume a: "a \<in> set (eligibleBackupsForStateful env ignored (req_addon req) (req_exts req) sel hold c)"
  then have "serves c (req_addon req) (req_exts req) (backup c a)" "a \<notin> set (blockedBackupProviders c)"
    by (auto simp: eligibleBackupsForStateful_def)
  moreover from this(1) have "mget (backupProviders c) a \<noteq> None" by (auto simp: serves_def backup_def split: option.splits)
  ultimately show "a \<in> Collect (eligible req c)" by (simp add: eligible_def)
qed

lemma broadcast_eligible:
  assumes "set valid \<subseteq> Collect (eligible req c)"
  shows "set (getProvidersForStatefulCalls env valid ignored (req_addon req) (req_exts req) hold c) \<subseteq> Collect (eligible req c) - fset ignored"
  using assms stateful_providers(2) [of env valid ignored "req_addon req" "req_exts req" hold c]
    backups_eligible [of env ignored req "rankStatefulTier c valid ignored" hold c] by blast

lemma hold_filter_sub: "set (filterRateLimitedProviders env valid ignored) \<subseteq> set valid"
proof (cases "rateLimitHoldoff env")
  case (Some reg)
  have scan_sub: "set (fst r) \<subseteq> set ready0 \<union> set valid \<and> (fst (snd (snd (snd r))) = s0 \<or> fst (snd (snd (snd r))) \<in> set valid)"
    if "r = hold_scan env ignored valid (ready0, n0, h0, s0, t0)" for r ready0 n0 h0 s0 t0
    using that by (induction valid arbitrary: ready0 n0 h0 s0 t0) (auto split: option.splits if_splits, (fastforce split: if_splits)+)
  obtain ready n h s t where scan: "hold_scan env ignored valid ([], 0, 0, '''', zero_time) = (ready, n, h, s, t)" by (metis prod_cases5)
  with scan_sub [of "(ready, n, h, s, t)" "[]" 0 0 "''''" zero_time] have "set ready \<subseteq> set valid" "s = '''' \<or> s \<in> set valid" by auto
  then show ?thesis using Some scan by (auto simp: filterRateLimitedProviders_def)
qed (simp add: filterRateLimitedProviders_def)

context upstream_choice
begin

lemma pick_sub: "set (pick n valid ignored) \<subseteq> set valid - fset ignored"
  using choose_sound by blast

end

lemma ordinary_sound:
  assumes opt: "\<And>k. upstream_choice (opt env k)"
    and sel: "ordinary_selection env k w ignored req stick one c = (Inr ps, c')"
  shows "ps \<noteq> [] \<and> set ps \<subseteq> Collect (eligible req c) - fset ignored \<and> same_pool c c'"
proof -
  let ?valid = "getValidAddresses (req_addon req) (req_exts req) c"
  let ?hold = "\<not> broadcasts_write env req \<or> stick \<noteq> '''' \<or> one"
  let ?v = "if ?hold then filterRateLimitedProviders env ?valid ignored else ?valid"
  let ?provs = "if broadcasts_write env req then getProvidersForStatefulCalls env ?v ignored (req_addon req) (req_exts req) ?hold c
     else if stick \<noteq> '''' then opt env k 0 ?v ignored else choose_providers (opt env k) (nat w) 0 ?v ignored"
  have v: "set ?v \<subseteq> Collect (eligible req c)" using hold_filter_sub [of env ?valid ignored] by (auto simp: eligible_def)
  have provs: "set ?provs \<subseteq> Collect (eligible req c) - fset ignored"
  proof (cases "broadcasts_write env req")
    case True
    then show ?thesis using broadcast_eligible [OF v] by (simp only: if_True)
  next
    case False
    then show ?thesis using v upstream_choice.pick_sub [OF opt [of k], of 0 ?v ignored]
        upstream_choice.choose_providers_sound [OF opt [of k], of "nat w" 0 ?v ignored]
      by (cases "stick = ''''") (simp_all only: if_True if_False simp_thms, blast+)
  qed
  have "\<not> pool_exhausted ?valid ignored" and ne: "?provs \<noteq> []" and res: "(Inr ps, c') = (if stick \<noteq> '''' then (Inr [hd ?provs],
      c\<lparr>stickySessions := mput stick \<lparr>ss_Provider = hd ?provs, ss_Epoch = currentEpoch c, ss_Confirmed = False\<rparr> (stickySessions c)\<rparr>)
      else (Inr ?provs, c) :: (select_error + string list) \<times> csm)"
    using sel unfolding ordinary_selection_def Let_def by (metis (no_types, lifting) Inl_Inr_False Pair_inject)+
  show ?thesis
  proof (cases "stick = ''''")
    case True
    then show ?thesis using res ne provs by simp
  next
    case False
    then have "ps = [hd ?provs]" "same_pool c c'" using res by simp_all
    then show ?thesis using hd_in_set [OF ne] provs by auto
  qed
qed

lemma selection_sound:
  assumes opt: "\<And>k. upstream_choice (opt env k)"
    and sel: "getValidProviderAddresses env k w ignored tried req stick selected c = (Inr ps, c')"
  shows "ps \<noteq> [] \<and> set ps \<subseteq> Collect (eligible req c) - fset ignored \<and> same_pool c c' \<and> (selected \<noteq> '''' \<longrightarrow> (\<forall>a\<in>set ps. EqualFold a selected))"
proof (cases "selected = ''''")
  case False
  then have "pinned_addresses selected (getValidAddresses (req_addon req) (req_exts req) c) ignored = Inr ps" "c' = c"
    using sel by (auto simp: getValidProviderAddresses_def selectProviderAddresses_def Let_def)
  then show ?thesis using pinned_outcome(1) by (fastforce simp: eligible_def)
next
  case True
  note sel = sel [unfolded getValidProviderAddresses_def selectProviderAddresses_def Let_def True]
  show ?thesis
  proof (cases "mget (stickySessions c) stick")
    case None
    then show ?thesis using ordinary_sound [OF opt, of k w ignored req stick False c ps c'] sel True by simp
  next
    case (Some pin)
    let ?d = "c\<lparr>stickySessions := mdel stick (stickySessions c)\<rparr>"
    show ?thesis
    proof (cases "ss_Provider pin \<in> set (getValidAddresses (req_addon req) (req_exts req) c)")
      case True
      then show ?thesis using Some sel \<open>selected = ''''\<close> by (auto simp: eligible_def split: if_splits)
    next
      case False
      then have "ordinary_selection env k w ignored req stick False ?d = (Inr ps, c')" using Some sel by (simp split: if_splits)
      from ordinary_sound [OF opt this] show ?thesis
        using same_pool_fields(5) [of c ?d req] same_pool_trans [of c ?d c'] True by simp
    qed
  qed
qed

lemma selection_error_pool:
  assumes "getValidProviderAddresses env k w ignored tried req stick selected c = (Inl e, c')"
  shows "same_pool c c' \<and> (selected \<noteq> '''' \<longrightarrow> e \<noteq> PairingListEmpty)"
proof -
  have ord: "same_pool d c'" if "ordinary_selection env k w ignored req stick False d = (Inl e, c')" for d
    using that by (auto simp: ordinary_selection_def Let_def split: if_splits)
  show ?thesis
  proof (cases "selected = ''''")
    case False
    then show ?thesis using assms pinned_outcome(2)
      by (fastforce simp: getValidProviderAddresses_def selectProviderAddresses_def Let_def)
  next
    case True
    then show ?thesis using assms ord [of c] same_pool_trans [OF same_pool_sticky ord]
      by (auto simp: getValidProviderAddresses_def selectProviderAddresses_def Let_def split: option.splits if_splits)
  qed
qed

section \<open>The loop over batches of addresses ends\<close>

definition handed :: "select_request \<Rightarrow> csm \<Rightarrow> string \<Rightarrow> SessionWithProvider \<Rightarrow> bool" where
  "handed req c a s \<longleftrightarrow> providerByAddress c a = Some (SessionsWithProvider s) \<and> swp_CurrentEpoch s = currentEpoch c \<and> \<not> lastChance s
     \<and> validateComputeUnits (req_cu req) (req_virtualEpoch req) (providers c (SessionsWithProvider s))"

lemma eligible_known: "csm_ok c \<Longrightarrow> eligible req c a \<Longrightarrow> \<exists>r. providerByAddress c a = Some r"
  using valid_offered [of c "req_addon req" "req_exts req"]
  by (fastforce simp: eligible_def providerByAddress_def csm_ok_def lists_ok_def split: option.splits)

lemma mget_in: "mget m k = Some v \<Longrightarrow> (k, v) \<in> set m"
  by (induction m) (auto split: if_splits)

lemma mget_vals: "mget m k = Some v \<Longrightarrow> v \<in> snd ` set m"
  by (force dest: mget_in)

lemma mget_keys: "mget m k \<noteq> None \<Longrightarrow> k \<in> fst ` set m"
  by (auto intro: rev_image_eqI dest: mget_in)

lemma finite_eligible [simp]: "finite (Collect (eligible req c))"
proof -
  have "Collect (eligible req c) \<subseteq> set (getValidAddresses (req_addon req) (req_exts req) c) \<union> fst ` set (backupProviders c)"
    using mget_keys [of "backupProviders c"] by (auto simp: eligible_def)
  then show ?thesis by (rule finite_subset) simp
qed

lemma mput_ne [simp]: "mput k v m \<noteq> []"
  by (induction m) auto

lemma fill_spec:
  assumes "\<forall>a\<in>set addrs. \<exists>r. providerByAddress c a = Some r"
  shows "\<exists>b found' ip'. fill_sessions c req w addrs found ip = Some (b, found', ip') \<and> (b \<longrightarrow> found' \<noteq> [])
    \<and> fset (ign_providers ip) \<subseteq> fset (ign_providers ip') \<and> (\<not> b \<longrightarrow> set addrs \<subseteq> fset (ign_providers ip'))
    \<and> (\<forall>a s. mget found' a = Some s \<longrightarrow> mget found a = Some s \<or> a \<in> set addrs \<and> a |\<in>| ign_providers ip' \<and> handed req c a s)
    \<and> ip' = ip\<lparr>ign_providers := ign_providers ip'\<rparr>"
  using assms
proof (induction addrs arbitrary: found ip)
  case (Cons a addrs)
  obtain r where r: "providerByAddress c a = Some r" using Cons.prems by auto
  have known: "\<forall>x\<in>set addrs. \<exists>r. providerByAddress c x = Some r" using Cons.prems by simp
  have IH: "?case" if eq: "fill_sessions c req w (a # addrs) found ip = fill_sessions c req w addrs f (ignore a ip)"
    and f: "\<And>x s. mget f x = Some s \<Longrightarrow> mget found x = Some s \<or> x = a \<and> handed req c a s" for f
  proof -
    obtain b f' ip' where IH: "fill_sessions c req w addrs f (ignore a ip) = Some (b, f', ip')" "b \<longrightarrow> f' \<noteq> []"
      "fset (ign_providers (ignore a ip)) \<subseteq> fset (ign_providers ip')" "\<not> b \<longrightarrow> set addrs \<subseteq> fset (ign_providers ip')"
      "\<forall>x s. mget f' x = Some s \<longrightarrow> mget f x = Some s \<or> x \<in> set addrs \<and> x |\<in>| ign_providers ip' \<and> handed req c x s"
      "ip' = (ignore a ip)\<lparr>ign_providers := ign_providers ip'\<rparr>"
      using Cons.IH [OF known, of f "ignore a ip"] by blast
    have "a |\<in>| ign_providers ip'" using IH(3) by (auto simp: ignore_def)
    then have "mget found x = Some s \<or> x \<in> set (a # addrs) \<and> x |\<in>| ign_providers ip' \<and> handed req c x s" if "mget f' x = Some s" for x s
      using IH(5) f [of x s] that by auto
    moreover have "ip' = ip\<lparr>ign_providers := ign_providers ip'\<rparr>" by (subst IH(6)) (simp add: ignore_def)
    moreover have "fset (ign_providers ip) \<subseteq> fset (ign_providers ip')" "\<not> b \<longrightarrow> set (a # addrs) \<subseteq> fset (ign_providers ip')"
      using IH(3,4) by (auto simp: ignore_def)
    ultimately show ?thesis unfolding eq using IH(1,2) by blast
  qed
  show ?case
  proof (cases "validateComputeUnits (req_cu req) (req_virtualEpoch req) (providers c r)")
    case False
    then show ?thesis using r by (intro IH [of found]) simp_all
  next
    case True
    define f where "f = mput a \<lparr>SessionsWithProvider = r, swp_CurrentEpoch = currentEpoch c, lastChance = False\<rparr> found"
    have f: "mget f x = Some s \<Longrightarrow> mget found x = Some s \<or> x = a \<and> handed req c a s" for x s
      using True r by (auto simp: f_def handed_def split: if_splits)
    show ?thesis
    proof (cases "length f = w")
      case enough: True
      have "fill_sessions c req w (a # addrs) found ip = Some (True, f, ignore a ip)" using enough True r by (simp add: f_def)
      moreover have "f \<noteq> []" by (simp add: f_def)
      moreover have "mget found x = Some s \<or> x \<in> set (a # addrs) \<and> x |\<in>| ign_providers (ignore a ip) \<and> handed req c x s" if "mget f x = Some s" for x s
        using f [OF that] by (auto simp: ignore_def)
      moreover have "fset (ign_providers ip) \<subseteq> fset (ign_providers (ignore a ip))" "ignore a ip = ip\<lparr>ign_providers := ign_providers (ignore a ip)\<rparr>"
        by (auto simp: ignore_def)
      ultimately show ?thesis by blast
    next
      case more: False
      then show ?thesis using True r by (intro IH [of f] f) (simp_all add: f_def)
    qed
  qed
qed auto

text \<open>What the loop returns: an answer, sessions of eligible providers this request had not passed over.\<close>

definition sound_outcome :: "(string \<Rightarrow> bool) \<Rightarrow> select_request \<Rightarrow> csm \<Rightarrow> ignoredProviders \<Rightarrow> session_map \<Rightarrow> picked_sessions \<Rightarrow> bool" where
  "sound_outcome P req c ip found out' \<longleftrightarrow>
     (case out' of (res, ip', c', k') \<Rightarrow>
        same_pool c c' \<and> ip' = ip\<lparr>ign_providers := ign_providers ip'\<rparr> \<and> fset (ign_providers ip) \<subseteq> fset (ign_providers ip')
      \<and> (case res of
           Inl e \<Rightarrow> req_selected req \<noteq> '''' \<longrightarrow> e \<noteq> PairingListEmpty
         | Inr f \<Rightarrow> f \<noteq> [] \<and> (\<forall>a s. mget f a = Some s \<longrightarrow> mget found a = Some s
              \<or> eligible req c a \<and> a |\<notin>| ign_providers ip \<and> a |\<in>| ign_providers ip' \<and> handed req c a s \<and> P a)))"

lemma handed_same: "same_pool c d \<Longrightarrow> handed req d = handed req c"
  by (simp add: fun_eq_iff handed_def same_pool_fields)

lemma sound_outcome_trans:
  assumes later: "sound_outcome P req d ip' f out'" and pool: "same_pool c d"
    and ip: "fset (ign_providers ip) \<subseteq> fset (ign_providers ip')" "ip' = ip\<lparr>ign_providers := ign_providers ip'\<rparr>"
    and new: "\<And>a s. mget f a = Some s \<Longrightarrow> mget found a = Some s
      \<or> eligible req c a \<and> a |\<notin>| ign_providers ip \<and> a |\<in>| ign_providers ip' \<and> handed req c a s \<and> P a"
  shows "sound_outcome P req c ip found out'"
proof (cases out')
  case (fields res ip2 c2 k2)
  have "eligible req d = eligible req c" using same_pool_fields(5) [OF pool] .
  note same = this handed_same [OF pool]
  have l: "same_pool d c2" "ip2 = ip'\<lparr>ign_providers := ign_providers ip2\<rparr>" "fset (ign_providers ip') \<subseteq> fset (ign_providers ip2)"
    using later fields by (simp_all add: sound_outcome_def)
  have "ip2 = ip\<lparr>ign_providers := ign_providers ip2\<rparr>" by (subst l(2), subst ip(2)) simp
  moreover have "fset (ign_providers ip) \<subseteq> fset (ign_providers ip2)" using ip(1) l(3) by blast
  moreover have "case res of Inl e \<Rightarrow> req_selected req \<noteq> '''' \<longrightarrow> e \<noteq> PairingListEmpty
     | Inr f2 \<Rightarrow> f2 \<noteq> [] \<and> (\<forall>a s. mget f2 a = Some s \<longrightarrow> mget found a = Some s
          \<or> eligible req c a \<and> a |\<notin>| ign_providers ip \<and> a |\<in>| ign_providers ip2 \<and> handed req c a s \<and> P a)"
  proof (cases res)
    case (Inl e)
    then show ?thesis using later fields by (simp add: sound_outcome_def)
  next
    case (Inr f2)
    have f2: "mget f a = Some s \<or> eligible req c a \<and> a |\<notin>| ign_providers ip' \<and> a |\<in>| ign_providers ip2 \<and> handed req c a s
        \<and> P a" if "mget f2 a = Some s" for a s
      using later fields Inr that unfolding sound_outcome_def same by auto
    have "mget found a = Some s \<or> eligible req c a \<and> a |\<notin>| ign_providers ip \<and> a |\<in>| ign_providers ip2 \<and> handed req c a s
        \<and> P a" if "mget f2 a = Some s" for a s
      using f2 [OF that] new [of a s] ip(1) l(3) by blast
    moreover have "f2 \<noteq> []" using later fields Inr by (simp add: sound_outcome_def)
    ultimately show ?thesis by (simp add: Inr)
  qed
  ultimately show ?thesis using same_pool_trans [OF pool l(1)] by (simp add: sound_outcome_def fields)
qed

lemma fetch_loop_total:
  assumes opt: "\<And>k. upstream_choice (opt env k)" and P: "\<And>a. (req_selected req \<noteq> '''' \<longrightarrow> EqualFold a (req_selected req)) \<Longrightarrow> P a"
    and "csm_ok c" and "addrs \<noteq> []"
    and "set addrs \<subseteq> Collect (eligible req c) - fset (ign_providers ip)"
    and "\<forall>a\<in>set addrs. P a"
  shows "\<exists>out'. fetch_loop env k w req addrs found ip c = Some out' \<and> sound_outcome P req c ip found out'"
  using assms(3-)
proof (induction "card (Collect (eligible req c) - fset (ign_providers ip))" arbitrary: k addrs found ip c rule: less_induct)
  case less
  have known: "\<forall>a\<in>set addrs. \<exists>r. providerByAddress c a = Some r"
    using less.prems(1,3) eligible_known by blast
  obtain b f ip' where fill: "fill_sessions c req w addrs found ip = Some (b, f, ip')" "b \<longrightarrow> f \<noteq> []"
    "fset (ign_providers ip) \<subseteq> fset (ign_providers ip')" "\<not> b \<longrightarrow> set addrs \<subseteq> fset (ign_providers ip')"
    "\<forall>a s. mget f a = Some s \<longrightarrow> mget found a = Some s \<or> a \<in> set addrs \<and> a |\<in>| ign_providers ip' \<and> handed req c a s"
    "ip' = ip\<lparr>ign_providers := ign_providers ip'\<rparr>"
    using fill_spec [OF known, where req = req and w = w and found = found and ip = ip] by blast
  have new: "mget found a = Some s \<or> eligible req c a \<and> a |\<notin>| ign_providers ip \<and> a |\<in>| ign_providers ip' \<and> handed req c a s
      \<and> P a" if "mget f a = Some s" for a s
    using that fill(5) less.prems(3,4) by blast
  show ?case
  proof (cases b)
    case True
    then have "fetch_loop env k w req addrs found ip c = Some (Inr f, ip', c, k)" by (subst fetch_loop.simps) (simp add: fill(1))
    then show ?thesis using True fill(2,3,6) new by (simp add: sound_outcome_def)
  next
    case False
    obtain res d where sel: "getValidProviderAddresses env k 1 (ign_providers ip') (triedByThisRequest ip') req (req_stickiness req) (req_selected req) c = (res, d)"
      by (metis surj_pair)
    have loop: "fetch_loop env k w req addrs found ip c =
        (case res of Inl e \<Rightarrow> Some (if f \<noteq> [] then Inr f else Inl e, ip', d, Suc k) | Inr as \<Rightarrow> fetch_loop env (Suc k) w req as f ip' d)"
      using False by (subst fetch_loop.simps) (simp add: fill(1) sel)
    show ?thesis
    proof (cases res)
      case (Inl e)
      then show ?thesis using loop selection_error_pool [OF sel [unfolded Inl]] fill(3,6) new by (auto simp: sound_outcome_def)
    next
      case (Inr as)
      note snd = selection_sound [OF opt sel [unfolded Inr]]
      have pool: "same_pool c d" using snd by blast
      have E: "eligible req d = eligible req c" "csm_ok d" using same_pool_fields(5,6) [OF pool] less.prems(1) by simp_all
      have "Collect (eligible req c) - fset (ign_providers ip') \<subset> Collect (eligible req c) - fset (ign_providers ip)"
        using fill(3,4) less.prems(2,3) False by (cases addrs) auto
      then have smaller: "card (Collect (eligible req d) - fset (ign_providers ip')) < card (Collect (eligible req c) - fset (ign_providers ip))"
        unfolding E by (intro psubset_card_mono) simp_all
      obtain out' where out': "fetch_loop env (Suc k) w req as f ip' d = Some out'" "sound_outcome P req d ip' f out'"
        using less.hyps [OF smaller E(2), of as "Suc k" f] snd P unfolding E by blast
      have "sound_outcome P req c ip found out'"
        by (rule sound_outcome_trans [OF out'(2) pool fill(3,6)]) (use new in blast)
      then show ?thesis using loop Inr out'(1) by simp
    qed
  qed
qed

lemma fetch_loop_answers:
  assumes opt: "\<And>k. upstream_choice (opt env k)" and P: "\<And>a. (req_selected req \<noteq> '''' \<longrightarrow> EqualFold a (req_selected req)) \<Longrightarrow> P a"
    and ok: "csm_ok c" and addrs: "set addrs \<subseteq> Collect (eligible req c) - fset (ign_providers ip)" "\<forall>a\<in>set addrs. P a"
  shows "\<exists>out'. fetch_loop env k w req addrs [] ip c = Some out' \<and> sound_outcome P req c ip [] out'"
proof (cases "addrs = []")
  case True
  obtain res d where sel: "getValidProviderAddresses env k 1 (ign_providers ip) (triedByThisRequest ip) req (req_stickiness req) (req_selected req) c = (res, d)"
    by (metis surj_pair)
  have loop: "fetch_loop env k w req addrs [] ip c =
      (case res of Inl e \<Rightarrow> Some (Inl e, ip, d, Suc k) | Inr as \<Rightarrow> fetch_loop env (Suc k) w req as [] ip d)"
    using True by (subst fetch_loop.simps) (simp add: sel split: sum.split)
  show ?thesis
  proof (cases res)
    case (Inl e)
    then show ?thesis using loop selection_error_pool [OF sel [unfolded Inl]] by (simp add: sound_outcome_def)
  next
    case (Inr as)
    note snd = selection_sound [OF opt sel [unfolded Inr]]
    have pool: "same_pool c d" using snd by blast
    have E: "eligible req d = eligible req c" "csm_ok d" using same_pool_fields(5,6) [OF pool] ok by simp_all
    obtain out' where out': "fetch_loop env (Suc k) w req as [] ip d = Some out'" "sound_outcome P req d ip [] out'"
      using fetch_loop_total [where req = req and P = P and env = env and c = d and ip = ip and addrs = as and found = "[]", OF opt P E(2)] snd P
      unfolding E by blast
    have "sound_outcome P req c ip [] out'" by (rule sound_outcome_trans [OF out'(2) pool]) simp_all
    then show ?thesis using loop Inr out'(1) by simp
  qed
qed (use fetch_loop_total [OF opt P ok _ addrs] in blast)

section \<open>A round of selection\<close>

lemma phase1_sub: "set (fst (phase1 grp co w m t ranked acc)) \<subseteq> set (fst acc) \<union> set ranked"
  by (induction grp co w m t ranked acc rule: phase1.induct) auto

lemma fill_by_rank_sub: "set (fill_by_rank w ranked picked) \<subseteq> set picked \<union> set ranked"
  by (induction w ranked picked rule: fill_by_rank.induct) auto

lemma order_sub: "set (orderForGroupDiversity c ranked w m t) \<subseteq> set ranked"
  unfolding orderForGroupDiversity_def Let_def
  by (rule order.trans [OF fill_by_rank_sub] Un_least order.trans [OF phase1_sub] | simp)+

lemma preferred_sound:
  assumes "fst (usablePreferredProvider env ip (req_addon req) (req_exts req) c) = a" and "a \<noteq> ''''"
  shows "eligible req c a \<and> a |\<notin>| ign_providers ip \<and> a = preferredProvider ip"
  using assms
  by (auto simp: usablePreferredProvider_def eligible_def serves_def backup_def Let_def split: if_splits option.splits)

lemma first_addresses_sound:
  assumes opt: "\<And>k. upstream_choice (opt env k)" and first: "first_addresses env k w req ip c = (Inr addrs, c')"
  shows "set addrs \<subseteq> Collect (eligible req c) - fset (ign_providers ip) \<and> same_pool c c'
    \<and> (req_selected req \<noteq> '''' \<and> req_minGroups req \<le> 1 \<longrightarrow> (\<forall>a\<in>set addrs. EqualFold a (req_selected req) \<or> a \<noteq> '''' \<and> a = preferredProvider ip))"
proof (cases "1 < req_minGroups req")
  case True
  then obtain ranked where "getValidProviderAddresses env k (int (length (validAddresses c))) (ign_providers ip) (triedByThisRequest ip) req '''' '''' c
      = (Inr ranked, c')" "set addrs \<subseteq> set ranked"
    using first order_sub by (auto simp: first_addresses_def split: prod.splits sum.splits)
  then show ?thesis using selection_sound [OF opt, of k _ "ign_providers ip" _ req "''''" "''''" c ranked c'] True by auto
next
  case False
  let ?p = "fst (usablePreferredProvider env ip (req_addon req) (req_exts req) c)"
  show ?thesis
  proof (cases "?p = ''''")
    case True
    then have "getValidProviderAddresses env k w (ign_providers ip) (triedByThisRequest ip) req (req_stickiness req) (req_selected req) c = (Inr addrs, c')"
      using first False by (simp add: first_addresses_def Let_def)
    from selection_sound [OF opt this] show ?thesis by auto
  next
    case unset: False
    then have "addrs = [?p]" "c' = c" using first False by (auto simp: first_addresses_def Let_def)
    then show ?thesis using preferred_sound [OF refl unset] unset by auto
  qed
qed

lemma first_addresses_error:
  "first_addresses env k w req ip c = (Inl e, c') \<Longrightarrow> same_pool c c' \<and> (req_selected req \<noteq> '''' \<and> req_minGroups req \<le> 1 \<longrightarrow> e \<noteq> PairingListEmpty)"
  using selection_error_pool [of env k _ "ign_providers ip" "triedByThisRequest ip" req _ _ c e c']
  by (fastforce simp: first_addresses_def Let_def split: if_splits prod.splits sum.splits)

text \<open>
  What a round of selection over the state \<open>c\<close> leaves: a state that differs in sticky sessions at most, the
  request's record in the state's epoch or a later one, and an error or sessions, each of a provider it had not
  ignored before and ignores now.
\<close>

definition pin_of :: "select_request \<Rightarrow> ignoredProviders \<Rightarrow> string \<Rightarrow> bool" where
  "pin_of req ip a \<longleftrightarrow> (req_selected req \<noteq> '''' \<and> req_minGroups req \<le> 1 \<longrightarrow> EqualFold a (req_selected req) \<or> a \<noteq> '''' \<and> a = preferredProvider ip)"

definition round_ok :: "select_request \<Rightarrow> ignoredProviders \<Rightarrow> csm \<Rightarrow> (select_error + session_map) \<Rightarrow> ignoredProviders \<Rightarrow> csm \<Rightarrow> bool" where
  "round_ok req ip c res ip' c' \<longleftrightarrow>
     same_pool c c' \<and> ip' = (newer_epoch c ip)\<lparr>ign_providers := ign_providers ip'\<rparr>
   \<and> fset (ign_providers (newer_epoch c ip)) \<subseteq> fset (ign_providers ip')
   \<and> (case res of
        Inl e \<Rightarrow> req_selected req \<noteq> '''' \<and> req_minGroups req \<le> 1 \<longrightarrow> e \<noteq> PairingListEmpty
      | Inr f \<Rightarrow> f \<noteq> [] \<and> (\<forall>a s. mget f a = Some s \<longrightarrow> eligible req c a \<and> handed req c a s \<and> pin_of req ip a
           \<and> a |\<notin>| ign_providers (newer_epoch c ip) \<and> a |\<in>| ign_providers ip'))"

lemma round_answers:
  assumes opt: "\<And>k. upstream_choice (opt env k)" and ok: "csm_ok c"
  shows "\<exists>res ip' c' k'. getValidConsumerSessionsWithProvider env k w req ip c = Some (res, ip', c', k') \<and> round_ok req ip c res ip' c'"
proof -
  let ?ip = "newer_epoch c ip"
  have pref: "preferredProvider ?ip = preferredProvider ip" by (simp add: newer_epoch_def)
  obtain res d where first: "first_addresses env k w req ?ip c = (res, d)" by (metis surj_pair)
  show ?thesis
  proof (cases res)
    case (Inl e)
    then have "getValidConsumerSessionsWithProvider env k w req ip c = Some (Inl e, ?ip, d, Suc k)"
      using first by (simp add: getValidConsumerSessionsWithProvider_def)
    then show ?thesis using first_addresses_error [OF first [unfolded Inl]] by (simp add: round_ok_def)
  next
    case (Inr addrs)
    then have eq: "getValidConsumerSessionsWithProvider env k w req ip c = fetch_loop env (Suc k) (length addrs) req addrs [] ?ip d"
      using first by (simp add: getValidConsumerSessionsWithProvider_def)
    note f = first_addresses_sound [OF opt first [unfolded Inr], unfolded pref]
    have pool: "same_pool c d" using f by blast
    have E: "eligible req d = eligible req c" "csm_ok d" using same_pool_fields(5,6) [OF pool] ok by simp_all
    have "set addrs \<subseteq> Collect (eligible req d) - fset (ign_providers ?ip)" "\<forall>a\<in>set addrs. pin_of req ip a"
      using f unfolding E pin_of_def by blast+
    moreover have "pin_of req ip a" if "req_selected req \<noteq> '''' \<longrightarrow> EqualFold a (req_selected req)" for a using that by (simp add: pin_of_def)
    ultimately obtain res ip' c' k'
      where o': "fetch_loop env (Suc k) (length addrs) req addrs [] ?ip d = Some (res, ip', c', k')"
        "sound_outcome (pin_of req ip) req d ?ip [] (res, ip', c', k')"
      using fetch_loop_answers [OF opt _ E(2), of req "pin_of req ip" addrs ?ip "Suc k" "length addrs"] by (metis surj_pair)
    then have "same_pool c c'" using same_pool_trans [OF pool] by (simp add: sound_outcome_def)
    then have "round_ok req ip c res ip' c'"
      using o'(2) unfolding round_ok_def sound_outcome_def E handed_same [OF pool] by (cases res) simp_all
    then show ?thesis using eq o'(1) by simp
  qed
qed

section \<open>Every stage of the cascade gets further\<close>

text \<open>The names a request can ever pass over, which no operation of the cascade changes.\<close>

definition roster :: "csm \<Rightarrow> string set" where
  "roster c = fst ` set (pairing c @ backupProviders c) \<union> (\<lambda>r. PublicLavaAddress (providers c r)) ` snd ` set (pairing c @ backupProviders c)"

definition same_roster :: "csm \<Rightarrow> csm \<Rightarrow> bool" where
  "same_roster c c' \<longleftrightarrow> pairing c' = pairing c \<and> backupProviders c' = backupProviders c \<and> currentEpoch c' = currentEpoch c
     \<and> (\<forall>r. PublicLavaAddress (providers c' r) = PublicLavaAddress (providers c r))"

text \<open>Nor does the cascade touch endpoints or sessions: of a provider it only writes the recovery status.\<close>

definition same_sessions :: "csm \<Rightarrow> csm \<Rightarrow> bool" where
  "same_sessions c c' \<longleftrightarrow> endpoints c' = endpoints c
     \<and> (\<forall>r. (providers c' r)\<lparr>blockedAndUsed := False\<rparr> = (providers c r)\<lparr>blockedAndUsed := False\<rparr>)"

lemma same_sessions_refl [simp]: "same_sessions c c"
  by (simp add: same_sessions_def)

lemma same_sessions_trans [trans]: "same_sessions c d \<Longrightarrow> same_sessions d e \<Longrightarrow> same_sessions c e"
  by (simp add: same_sessions_def)

lemma same_sessions_address: "same_sessions c d \<Longrightarrow> PublicLavaAddress (providers d r) = PublicLavaAddress (providers c r)"
proof -
  assume "same_sessions c d"
  then have "PublicLavaAddress ((providers d r)\<lparr>blockedAndUsed := False\<rparr>) = PublicLavaAddress ((providers c r)\<lparr>blockedAndUsed := False\<rparr>)"
    by (simp add: same_sessions_def)
  then show ?thesis by simp
qed

lemma finite_roster [simp]: "finite (roster c)"
  by (simp add: roster_def)

lemma same_roster_refl [simp]: "same_roster c c"
  by (simp add: same_roster_def)

lemma same_roster_trans [trans]: "same_roster c d \<Longrightarrow> same_roster d e \<Longrightarrow> same_roster c e"
  by (simp add: same_roster_def)

lemma same_roster_eq: "same_roster c d \<Longrightarrow> roster d = roster c" "same_roster c d \<Longrightarrow> currentEpoch d = currentEpoch c"
  by (simp_all add: same_roster_def roster_def)

lemma same_pool_roster: "same_pool c d \<Longrightarrow> same_roster c d"
  using same_pool_fields(3,4,7) [of c d] unfolding same_pool_def same_roster_def by (metis csm.ext_inject csm.surjective csm.update_convs(4))

lemma same_pool_sessions: "same_pool c d \<Longrightarrow> same_sessions c d"
  unfolding same_pool_def same_sessions_def by (metis csm.ext_inject csm.surjective csm.update_convs(4))

lemma eligible_roster: "csm_ok c \<Longrightarrow> eligible req c a \<Longrightarrow> a \<in> roster c"
proof -
  assume "csm_ok c" "eligible req c a"
  from eligible_known [OF this] obtain r where "providerByAddress c a = Some r" by blast
  then have "a \<in> fst ` set (pairing c) \<or> a \<in> fst ` set (backupProviders c)"
    using mget_keys [of "pairing c" a] mget_keys [of "backupProviders c" a] by (auto simp: providerByAddress_def split: option.splits)
  then show ?thesis by (auto simp: roster_def)
qed

lemma cache_same: "same_roster c (snd (cacheAddonAddresses addon exts c))" "same_sessions c (snd (cacheAddonAddresses addon exts c))"
  by (simp_all add: cacheAddonAddresses_def same_roster_def same_sessions_def Let_def split: option.split)

lemma status_same: "same_roster c (atomicWriteBlockedStatus b r c)" "same_sessions c (atomicWriteBlockedStatus b r c)"
  by (simp_all add: atomicWriteBlockedStatus_def same_roster_def same_sessions_def)

lemma releaseAll_sessions: "same_sessions c (releaseAll route c)"
proof -
  have one: "same_sessions c (releaseOne route a c)" for a c
    using status_same(2) by (auto simp: releaseOne_def Let_def resetRedemption_def same_sessions_def split: option.split)
  have "same_sessions c (fold (releaseOne route) xs c)" for xs c
    by (induction xs arbitrary: c) (auto intro: same_sessions_trans [OF one])
  from this [of "c\<lparr>currentlyBlockedProviderAddresses := []\<rparr>"] show ?thesis
    by (simp add: releaseAll_eq same_sessions_def)
qed

lemma reset_same: "same_roster c (snd (resetValidAddresses addon exts c))" "same_sessions c (snd (resetValidAddresses addon exts c))"
proof -
  show s: "same_sessions c (snd (resetValidAddresses addon exts c))"
    using releaseAll_sessions [of c ReleasePoolEmpty]
    by (simp add: resetValidAddresses_def setValidAddressesToDefaultValue_def RemoveAddonAddresses_def Let_def same_sessions_def)
  show "same_roster c (snd (resetValidAddresses addon exts c))"
    using same_sessions_address [OF s] by (simp add: same_roster_def) (simp add: resetValidAddresses_def Let_def)
qed

definition further :: "csm \<Rightarrow> ignoredProviders \<Rightarrow> ignoredProviders \<Rightarrow> bool" where
  "further c ip ip' \<longleftrightarrow> (\<exists>a\<in>roster c. a |\<notin>| ign_providers ip \<and> a |\<in>| ign_providers ip')
     \<or> (\<exists>a\<in>roster c. a |\<notin>| triedByThisRequest ip \<and> a |\<in>| triedByThisRequest ip')"

definition grows :: "ignoredProviders \<Rightarrow> ignoredProviders \<Rightarrow> bool" where
  "grows ip ip' \<longleftrightarrow> fset (ign_providers ip) \<subseteq> fset (ign_providers ip') \<and> fset (triedByThisRequest ip) \<subseteq> fset (triedByThisRequest ip')
     \<and> ign_currentEpoch ip' = ign_currentEpoch ip \<and> preferredProvider ip' = preferredProvider ip"

lemma grows_refl [simp]: "grows ip ip"
  by (simp add: grows_def)

lemma grows_trans [trans]: "grows a b \<Longrightarrow> grows b c \<Longrightarrow> grows a c"
  by (auto simp: grows_def)

lemma further_grows: "further c ip ip' \<Longrightarrow> grows ip' ip'' \<Longrightarrow> further c ip ip''" "grows ip0 ip \<Longrightarrow> further c ip ip' \<Longrightarrow> further c ip0 ip'"
  by (auto simp: further_def grows_def)

lemma further_ignore: "a \<in> roster c \<Longrightarrow> a |\<notin>| ign_providers ip \<Longrightarrow> further c ip (ignore a ip)"
  by (auto simp: further_def ignore_def)

lemma grows_ignore [simp]: "grows ip (ignore a ip)" "grows ip (markTried a (ignore a ip))"
  by (auto simp: grows_def ignore_def markTried_def)

text \<open>The request's record belongs to the state's epoch, so a round keeps what it ignores.\<close>

definition in_epoch :: "csm \<Rightarrow> ignoredProviders \<Rightarrow> bool" where
  "in_epoch c ip \<longleftrightarrow> ign_currentEpoch ip = currentEpoch c"

lemma newer_epoch_same [simp]: "in_epoch c ip \<Longrightarrow> newer_epoch c ip = ip"
  by (simp add: in_epoch_def newer_epoch_def)

lemma in_epoch_keeps: "in_epoch c ip \<Longrightarrow> same_roster c d \<Longrightarrow> grows ip ip' \<Longrightarrow> in_epoch d ip'"
  by (simp add: in_epoch_def same_roster_def grows_def)

text \<open>What a stage of the cascade leaves behind.\<close>

definition stage_ok :: "ignoredProviders \<Rightarrow> csm \<Rightarrow> session_map option \<Rightarrow> ignoredProviders \<Rightarrow> csm \<Rightarrow> bool" where
  "stage_ok ip c found ip' c' \<longleftrightarrow> csm_ok c' \<and> same_roster c c' \<and> same_sessions c c' \<and> grows ip ip' \<and> (\<forall>f. found = Some f \<longrightarrow> f \<noteq> [] \<and> further c ip ip')"

lemma stage_ok_then:
  assumes "stage_ok ip c q ip1 c1" and "stage_ok ip1 c1 found ip2 c2"
  shows "stage_ok ip c found ip2 c2"
  using assms same_roster_trans [of c c1 c2] same_sessions_trans [of c c1 c2] grows_trans [of ip ip1 ip2] further_grows(2) [of ip ip1 c ip2]
    same_roster_eq(1) [of c c1] by (simp add: stage_ok_def further_def)

lemma stage_ok_epoch: "stage_ok ip c q ip' c' \<Longrightarrow> in_epoch c ip \<Longrightarrow> in_epoch c' ip'"
  by (auto simp: stage_ok_def intro: in_epoch_keeps)

definition found_of :: "select_error + session_map \<Rightarrow> session_map option" where
  "found_of res = (case res of Inl _ \<Rightarrow> None | Inr f \<Rightarrow> Some f)"

lemma found_of_simps [simp]: "found_of (Inl e) = None" "found_of (Inr f) = Some f"
  by (simp_all add: found_of_def)

lemma round_stage:
  assumes "round_ok req ip c res ip' c'" and ok: "csm_ok c" and "in_epoch c ip"
  shows "stage_ok ip c (found_of res) ip' c'"
proof -
  have r: "same_pool c c'" "ip' = ip\<lparr>ign_providers := ign_providers ip'\<rparr>" "fset (ign_providers ip) \<subseteq> fset (ign_providers ip')"
    using assms by (simp_all add: round_ok_def)
  have g: "grows ip ip'" by (subst r(2)) (use r(3) in \<open>simp add: grows_def\<close>)
  have "f \<noteq> [] \<and> further c ip ip'" if f: "res = Inr f" for f
  proof -
    have ne: "f \<noteq> []" and new: "mget f a = Some s \<Longrightarrow> eligible req c a \<and> a |\<notin>| ign_providers ip \<and> a |\<in>| ign_providers ip'" for a s
      using assms f by (simp_all add: round_ok_def)
    then obtain a s where "mget f a = Some s" by (cases f) (auto split: if_splits, metis)
    then show ?thesis using new ne eligible_roster [OF ok] unfolding further_def by blast
  qed
  then show ?thesis using g r(1) ok same_pool_roster same_pool_sessions same_pool_fields(6) by (cases res) (auto simp: stage_ok_def)
qed

lemma release_answers:
  assumes opt: "\<And>k. upstream_choice (opt env k)" and ok: "csm_ok c" and ep: "in_epoch c ip"
  shows "\<exists>found ip' c' k'. releaseBlockedProvidersIfPoolEmpty env k w req ip c = Some (found, ip', c', k') \<and> stage_ok ip c found ip' c'
    \<and> (\<forall>f a s. found = Some f \<longrightarrow> mget f a = Some s \<longrightarrow> pin_of req ip a \<and> \<not> lastChance s)"
proof -
  obtain addrs d where d: "cacheAddonAddresses (req_addon req) (req_exts req) c = (addrs, d)" by (metis surj_pair)
  have d': "csm_ok d" "same_roster c d" "same_sessions c d"
    using cache_ok [OF ok, of "req_addon req" "req_exts req"] cache_same [of c "req_addon req" "req_exts req"] d by simp_all
  then have sd: "stage_ok ip c None ip d" by (simp add: stage_ok_def)
  let ?e = "snd (cacheAddonAddresses (req_addon req) (req_exts req) (snd (resetValidAddresses (req_addon req) (req_exts req) d)))"
  have "csm_ok ?e" by (intro cache_ok reset_ok d'(1))
  moreover have "same_roster d ?e" using reset_same(1) cache_same(1) by (rule same_roster_trans)
  moreover have "same_sessions d ?e" using reset_same(2) cache_same(2) by (rule same_sessions_trans)
  ultimately have se: "stage_ok ip d None ip ?e" by (simp add: stage_ok_def)
  note se = stage_ok_then [OF sd se]
  then have e: "csm_ok ?e" "in_epoch ?e ip" using ep by (simp_all add: stage_ok_def in_epoch_keeps)
  obtain res ip' c' k' where r: "getValidConsumerSessionsWithProvider env k w req ip ?e = Some (res, ip', c', k')" "round_ok req ip ?e res ip' c'"
    using round_answers [OF opt e(1), of k w req ip] by blast
  note st = stage_ok_then [OF se round_stage [OF r(2) e]]
  show ?thesis
  proof (cases "addrs = [] \<and> releaseCouldServeThisRequest (ign_providers ip) (req_addon req) (req_exts req) (req_selected req) d")
    case True
    then have "releaseBlockedProvidersIfPoolEmpty env k w req ip c = Some (found_of res, ip', c', k')"
      using d r(1) by (cases res) (simp_all add: releaseBlockedProvidersIfPoolEmpty_def Let_def)
    moreover have "pin_of req ip a \<and> \<not> lastChance s" if "found_of res = Some f" "mget f a = Some s" for f a s
      using that r(2) by (cases res) (auto simp: round_ok_def handed_def)
    ultimately show ?thesis using st by blast
  qed (use d sd in \<open>auto simp: releaseBlockedProvidersIfPoolEmpty_def\<close>)
qed

lemma backup_answers:
  assumes opt: "\<And>k. upstream_choice (opt env k)" and ok: "csm_ok c" and ep: "in_epoch c ip"
  shows "\<exists>res ip' k'. getValidConsumerSessionsWithProviderFromBackupProviderList env k req ip c = Some (res, ip', c, k')
    \<and> stage_ok ip c (found_of res) ip' c"
proof -
  define cands where "cands = filter (\<lambda>a. a |\<notin>| ign_providers ip \<and> a \<notin> set (blockedBackupProviders c)
                                 \<and> serves c (req_addon req) (req_exts req) (backup c a)) (map fst (backupProviders c))"
  note def = getValidConsumerSessionsWithProviderFromBackupProviderList_def [of env k req ip c, unfolded newer_epoch_same [OF ep] Let_def, folded cands_def]
  show ?thesis
  proof (cases "opt env k 0 cands (ign_providers ip)")
    case Nil
    then show ?thesis using ok by (simp add: def stage_ok_def)
  next
    case (Cons a as)
    then have a: "a \<in> set cands" using upstream_choice.pick_sub [OF opt [of k], of 0 cands "ign_providers ip"] by auto
    then have "serves c (req_addon req) (req_exts req) (backup c a)" "a |\<notin>| ign_providers ip" by (simp_all add: cands_def)
    then obtain r where "mget (backupProviders c) a = Some r" by (auto simp: serves_def backup_def split: option.splits)
    moreover have "a \<in> roster c" using a by (auto simp: cands_def roster_def image_def)
    ultimately show ?thesis using Cons a ok further_ignore [OF _ \<open>a |\<notin>| ign_providers ip\<close>] by (auto simp: def stage_ok_def)
  qed
qed

lemma candidates_roster: "r \<in> set (lastChanceCandidatesLocked c) \<Longrightarrow> PublicLavaAddress (providers c r) \<in> roster c"
proof -
  assume "r \<in> set (lastChanceCandidatesLocked c)"
  then have "r \<in> snd ` set (pairing c) \<or> r \<in> snd ` set (backupProviders c)"
    by (auto simp: lastChanceCandidatesLocked_def all_endpoints_out_def List.map_filter_def intro: rev_image_eqI mget_vals)
  then show ?thesis by (auto simp: roster_def)
qed

lemma walk_further:
  assumes "\<And>r. r \<in> set rs \<Longrightarrow> PublicLavaAddress (providers c r) \<in> roster c"
    and "last_chance_walk c req rs ip up = (found, ip', up')"
  shows "grows ip ip' \<and> (found \<noteq> None \<longrightarrow> further c ip ip')"
  using assms
proof (induction c req rs ip up rule: last_chance_walk.induct)
  case (2 c req r rs ip up)
  let ?a = "PublicLavaAddress (providers c r)" and ?ip = "markTried (PublicLavaAddress (providers c r)) (ignore (PublicLavaAddress (providers c r)) ip)"
  show ?case
  proof (cases "?a |\<in>| triedByThisRequest ip")
    case True
    then show ?thesis using 2 by simp
  next
    case False
    then have f: "further c ip ?ip" using 2(4) [of r] unfolding further_def markTried_def ignore_def by (intro disjI2) auto
    have "grows ?ip ip'" using 2 False by (auto simp: Let_def split: if_splits)
    then show ?thesis using f further_grows(1) [OF f] grows_trans [OF grows_ignore(2)] by blast
  qed
qed simp

lemma lend_answers:
  assumes ok: "csm_ok c" and lend: "lend_blocked req ip up c k = ((res, ip', c', k'), up')"
  shows "stage_ok ip c (found_of res) ip' c'"
proof -
  obtain found ip1 up1 where w: "last_chance_walk c req (lastChanceCandidatesLocked c) ip up = (found, ip1, up1)" by (metis prod_cases3)
  note far = walk_further [OF candidates_roster w]
  show ?thesis
  proof (cases found)
    case None
    then show ?thesis using lend w far ok by (auto simp: lend_blocked_def stage_ok_def)
  next
    case (Some ar)
    obtain a r where ar: "ar = (a, r)" by fastforce
    have "csm_ok (atomicWriteBlockedStatus True r c)"
      using ok by (simp add: atomicWriteBlockedStatus_def csm_ok_def books_ok_def lists_ok_def backups_ok_def caches_ok_def)
    then show ?thesis using lend w far Some ar status_same by (auto simp: lend_blocked_def stage_ok_def)
  qed
qed

lemma blocked_answers:
  assumes opt: "\<And>k. upstream_choice (opt env k)" and ok: "csm_ok c" and ep: "in_epoch c ip"
  shows "\<exists>res ip' c' k' up'. tryGetConsumerSessionWithProviderFromBlockedProviderList env k w req ip up c = Some ((res, ip', c', k'), up')
    \<and> stage_ok ip c (found_of res) ip' c'"
proof -
  obtain l1 u1 where lend1: "lend_blocked req ip up c k = (l1, u1)" by fastforce
  obtain res ip' c' k' where r: "getValidConsumerSessionsWithProvider env k w (group_blind req) ip c = Some (res, ip', c', k')"
      "round_ok (group_blind req) ip c res ip' c'"
    using round_answers [OF opt ok, of k w "group_blind req" ip] by blast
  note st = round_stage [OF r(2) ok ep]
  obtain l2 u2 where lend2: "lend_blocked req ip' up c' k' = (l2, u2)" by fastforce
  have s1: "stage_ok ip c (found_of (fst l1)) (fst (snd l1)) (fst (snd (snd l1)))"
    using lend_answers [OF ok, of req ip up k] lend1 by (metis prod.collapse)
  have "stage_ok ip' c' (found_of (fst l2)) (fst (snd l2)) (fst (snd (snd l2)))"
    using lend_answers [of c' req ip' up k'] lend2 st unfolding stage_ok_def by (metis prod.collapse)
  note s2 = stage_ok_then [OF st this]
  show ?thesis
  proof (cases "blockedTotalLocked c = 0")
    case False
    then show ?thesis using s1 lend1 ep
      by (cases l1) (auto simp: tryGetConsumerSessionWithProviderFromBlockedProviderList_def in_epoch_def)
  next
    case True
    show ?thesis
    proof (cases "res \<noteq> Inl PairingListEmpty \<or> lastChanceCandidatesLocked c' = []")
      case stop: True
      then show ?thesis using True r(1) st ep
        by (auto simp: tryGetConsumerSessionWithProviderFromBlockedProviderList_def in_epoch_def)
    next
      case walk: False
      then show ?thesis using True r(1) s2 ep lend2
        by (cases l2) (auto simp: tryGetConsumerSessionWithProviderFromBlockedProviderList_def in_epoch_def)
    qed
  qed
qed

lemma cascade_answers:
  assumes opt: "\<And>k. upstream_choice (opt env k)" and ok: "csm_ok c" and ep: "in_epoch c ip"
  shows "\<exists>res ip' c' k' up'. getSessionWithProviderOrError env k w req ip up c = Some ((res, ip', c', k'), up')
    \<and> stage_ok ip c (found_of res) ip' c'"
proof -
  obtain res ip1 c1 k1 where r1: "getValidConsumerSessionsWithProvider env k w req ip c = Some (res, ip1, c1, k1)" "round_ok req ip c res ip1 c1"
    using round_answers [OF opt ok, of k w req ip] by blast
  note s1 = round_stage [OF r1(2) ok ep]
  then have 1: "csm_ok c1" "in_epoch c1 ip1" using stage_ok_epoch [OF s1 ep] by (simp_all add: stage_ok_def)
  obtain q4 ip4 c4 k4 where r4: "releaseBlockedProvidersIfPoolEmpty env k1 w req ip1 c1 = Some (q4, ip4, c4, k4)" "stage_ok ip1 c1 q4 ip4 c4"
    using release_answers [OF opt 1, of k1 w req] by blast
  obtain b ip2 k2 where r2: "(if backupProviders c1 \<noteq> [] then getValidConsumerSessionsWithProviderFromBackupProviderList env k1 req ip1 c1
      else Some (Inl NoBackupProvider, ip1, c1, k1)) = Some (b, ip2, c1, k2)" "stage_ok ip1 c1 (found_of b) ip2 c1"
    using backup_answers [OF opt 1, of k1 req] 1(1) by (cases "backupProviders c1 = []") (auto simp: stage_ok_def)
  note s2 = stage_ok_then [OF s1 r2(2)] and 2 = stage_ok_epoch [OF r2(2) 1(2)]
  obtain q ip3 c3 k3 where r3: "releaseBlockedProvidersIfPoolEmpty env k2 w req ip2 c1 = Some (q, ip3, c3, k3)" "stage_ok ip2 c1 q ip3 c3"
    using release_answers [OF opt 1(1) 2, of k2 w req] by blast
  note s3 = stage_ok_then [OF s2 r3(2)]
  have 3: "csm_ok c3" "in_epoch c3 ip3" using r3(2) stage_ok_epoch [OF r3(2) 2] by (simp_all add: stage_ok_def)
  obtain last ip5 c5 k5 up5 where r5: "tryGetConsumerSessionWithProviderFromBlockedProviderList env k3 w req ip3 up c3 = Some ((last, ip5, c5, k5), up5)"
      "stage_ok ip3 c3 (found_of last) ip5 c5"
    using blocked_answers [OF opt 3, of k3 w req up] by blast
  note s5 = stage_ok_then [OF s3 r5(2)] and s4 = stage_ok_then [OF s1 r4(2)]
  show ?thesis
  proof (cases res)
    case (Inr f)
    then show ?thesis using r1(1) s1 by (simp add: getSessionWithProviderOrError_def)
  next
    case (Inl e)
    consider "e = PairingListEmpty" | "e = SelectedProviderUnavailable" | "e \<noteq> PairingListEmpty" "e \<noteq> SelectedProviderUnavailable" by blast
    then show ?thesis
    proof cases
      case 1
      then show ?thesis using Inl r1(1) r2(1) r3(1) r5(1) s2 s3 s5
        by (cases b; cases q) (simp_all only: getSessionWithProviderOrError_def option.case sum.case prod.case simp_thms if_True found_of_simps, auto)
    next
      case 2
      then show ?thesis using Inl r1(1) r4(1) s4 by (cases q4) (auto simp: getSessionWithProviderOrError_def stage_ok_def)
    next
      case 3
      then show ?thesis using Inl r1(1) s1 by (simp add: getSessionWithProviderOrError_def)
    qed
  qed
qed

section \<open>Pins\<close>

text \<open>A pinned request leaves the cascade with sessions of its pin, none of them a last chance.\<close>

lemma cascade_pinned:
  assumes opt: "\<And>k. upstream_choice (opt env k)" and ok: "csm_ok c" and ep: "in_epoch c ip"
    and pinned: "req_selected req \<noteq> ''''" "req_minGroups req \<le> 1" and pref: "preferredProvider ip = ''''"
    and got: "getSessionWithProviderOrError env k wanted req ip up c = Some ((Inr found, ip', c', k'), up')"
    and s: "mget found a = Some s"
  shows "EqualFold a (req_selected req) \<and> \<not> lastChance s \<and> up' = up"
proof -
  have pin: "pin_of req i x \<Longrightarrow> preferredProvider i = '''' \<Longrightarrow> EqualFold x (req_selected req)" for i x
    using pinned by (simp add: pin_of_def)
  obtain res ip1 c1 k1 where r1: "getValidConsumerSessionsWithProvider env k wanted req ip c = Some (res, ip1, c1, k1)" "round_ok req ip c res ip1 c1"
    using round_answers [OF opt ok, of k wanted req ip] by blast
  note st = round_stage [OF r1(2) ok ep]
  then have 1: "csm_ok c1" "in_epoch c1 ip1" "preferredProvider ip1 = ''''" using stage_ok_epoch [OF st ep] pref by (simp_all add: stage_ok_def grows_def)
  show ?thesis
  proof (cases res)
    case (Inr f)
    then have "f = found" "up' = up" using got r1(1) by (simp_all add: getSessionWithProviderOrError_def)
    then show ?thesis using Inr r1(2) pin [OF _ pref] s by (simp add: round_ok_def handed_def)
  next
    case (Inl e)
    then have e: "e \<noteq> PairingListEmpty" using r1(2) pinned by (simp add: round_ok_def)
    obtain q ip3 c3 k3 where r3: "releaseBlockedProvidersIfPoolEmpty env k1 wanted req ip1 c1 = Some (q, ip3, c3, k3)"
        "\<forall>f a s. q = Some f \<longrightarrow> mget f a = Some s \<longrightarrow> pin_of req ip1 a \<and> \<not> lastChance s"
      using release_answers [OF opt 1(1,2), of k1 wanted req] by blast
    have "q = Some found \<and> up' = up"
      using got r1(1) r3(1) e Inl by (cases q) (auto simp: getSessionWithProviderOrError_def split: if_splits)
    then show ?thesis using r3(2) pin [OF _ 1(3)] s by blast
  qed
qed

end
