(* ===== verification/SessionLife.thy ===== *)
theory SessionLife
  imports SessionCascade
begin

text \<open>
  The life of a session (\<open>lavasession/single_consumer_session.go\<close>, \<open>consumer_types.go\<close>,
  \<open>consumer_session_manager.go\<close>): taking one from a provider's pool, the whole of \<open>GetSessions\<close>, and the ways
  a request gives a session back.

  \<^item> Sessions are those of direct RPC endpoints, the only ones the router builds; an endpoint without a
    direct connection (the provider-relay path, which dials) is never connected here.
  \<^item> A mutex that is held is the flag \<open>scs_locked\<close>; a session's pointer to its request is \<open>scs_inUse\<close>, and the request's
    \<open>UsedProviders\<close> is passed to the operation that releases the session.
  \<^item> QoS samples, optimizer samples and metrics are left out. A fatal exit is \<open>None\<close>.
  \<^item> The random number behind a new session's id is an argument.
  \<^item> A release is one step. The code frees the session before it decreases the provider's units, so another
    request may take the session in between and find the units not yet returned.
\<close>

section \<open>A session\<close>

datatype session_error =
    LockMisUseDetected | SessionIsAlreadyBlockListed | NegativeComputeUnitsAmount
  | MaximumNumberOfSessionsExceeded | DirectConnectionNotFound

definition RelayNumberIncrement :: "64 word" where "RelayNumberIncrement = 1"

definition MaximumNumberOfFailuresAllowedPerConsumerSession :: nat where
  "MaximumNumberOfFailuresAllowedPerConsumerSession = 15"

definition SetUsageForSession :: "64 word \<Rightarrow> RouterKey \<Rightarrow> SingleConsumerSession \<Rightarrow> SingleConsumerSession" where
  "SetUsageForSession cu key s =
     s\<lparr>LatestRelayCu := cu, RelayNum := RelayNum s + RelayNumberIncrement, scs_inUse := True, scs_routerKey := key\<rparr>"

definition scs_Free :: "SingleConsumerSession \<Rightarrow> SingleConsumerSession" where
  "scs_Free s = s\<lparr>scs_inUse := False, scs_routerKey := NewRouterKey [], scs_locked := False\<rparr>"

text \<open>What a release tells the request the session was taken for.\<close>

definition free_used ::
  "(string \<Rightarrow> go_error \<Rightarrow> bool) \<Rightarrow> (go_error \<Rightarrow> int) \<Rightarrow> string \<Rightarrow> go_error option \<Rightarrow> SingleConsumerSession \<Rightarrow> UsedProviders \<Rightarrow> UsedProviders" where
  "free_used unsupported statusCode addr err s up =
     (if scs_inUse s then RemoveUsed unsupported statusCode addr (scs_routerKey s) err up else up)"

text \<open>Blocked, ok, and the session.\<close>

definition TryUseSession :: "SingleConsumerSession \<Rightarrow> bool \<times> bool \<times> SingleConsumerSession" where
  "TryUseSession s =
     (if scs_locked s then (False, False, s)
      else if BlockListed s then (True, False, s)
      else if scs_inUse s then (True, False, s\<lparr>BlockListed := True\<rparr>)
      else (False, True, s\<lparr>scs_locked := True\<rparr>))"

text \<open>A session that was not locked is blocked and freed; the flag says whether it was locked.\<close>

definition VerifyLock :: "SingleConsumerSession \<Rightarrow> bool \<times> SingleConsumerSession" where
  "VerifyLock s = (if \<not> scs_locked s then (False, scs_Free (s\<lparr>BlockListed := True\<rparr>)) else (True, s))"

section \<open>Taking a session of an endpoint\<close>

text \<open>The walk over the sessions of the endpoint: the first one that can be used is locked.\<close>

fun try_sessions :: "ref \<Rightarrow> (int64, SingleConsumerSession) gomap \<Rightarrow> int64 option \<times> (int64, SingleConsumerSession) gomap" where
  "try_sessions e [] = (None, [])"
| "try_sessions e ((i, s) # rest) =
     (if scs_Endpoint s \<noteq> e then (case try_sessions e rest of (r, rest) \<Rightarrow> (r, (i, s) # rest))
      else case TryUseSession s of
             (_, True, s) \<Rightarrow> (Some i, (i, s) # rest)
           | (_, False, s) \<Rightarrow> (case try_sessions e rest of (r, rest) \<Rightarrow> (r, (i, s) # rest)))"

definition new_session :: "ref \<Rightarrow> cswp \<Rightarrow> SingleConsumerSession" where
  "new_session e p =
     \<lparr>CuSum = 0, LatestRelayCu = 0, scs_locked = False, RelayNum = 0, SingleConsumerSession.LatestBlock = 0, scs_Endpoint = e, BlockListed = False,
      ConsecutiveErrors = [], errorsCount = 0, scs_inUse = False, scs_routerKey = NewRouterKey [], scs_epoch = PairingEpoch p\<rparr>"

definition GetConsumerSessionInstanceFromEndpoint ::
  "nat \<Rightarrow> int64 \<Rightarrow> (ref \<Rightarrow> Endpoint) \<Rightarrow> ref \<Rightarrow> cswp \<Rightarrow> (session_error + int64 \<times> 64 word) \<times> cswp" where
  "GetConsumerSessionInstanceFromEndpoint maxSessions newId eps e p =
     (if \<not> IsDirectRPC (eps e) \<or> e \<notin> set (cs_Endpoints p) then (Inl DirectConnectionNotFound, p)
      else
        (case try_sessions e (Sessions p) of
           (Some i, ss) \<Rightarrow> (Inr (i, PairingEpoch p), p\<lparr>Sessions := ss\<rparr>)
         | (None, ss) \<Rightarrow>
             if length ss > maxSessions then (Inl MaximumNumberOfSessionsExceeded, p\<lparr>Sessions := ss\<rparr>)
             else (Inr (newId, PairingEpoch p),
                   p\<lparr>Sessions := mput newId (snd (snd (TryUseSession (new_session e p)))) ss\<rparr>)))"

section \<open>The endpoint a session is opened on\<close>

datatype endpointPickMode = endpointPickSkipDisabled | endpointPickReconnectDisabled | endpointPickLendDisabled

definition connectEndpoint :: "Endpoint \<Rightarrow> bool" where
  "connectEndpoint ep = (case DirectConnections ep of Some _ # _ \<Rightarrow> True | _ \<Rightarrow> False)"

definition restrict_to_path :: "(ref \<Rightarrow> Endpoint) \<Rightarrow> string option \<Rightarrow> ref list \<Rightarrow> bool" where
  "restrict_to_path eps path es = (case path of None \<Rightarrow> False | Some q \<Rightarrow> list_ex (\<lambda>e. ServesInternalPath q (eps e)) es)"

definition lastChanceBorrow :: "endpointPickMode \<Rightarrow> Endpoint \<Rightarrow> bool" where
  "lastChanceBorrow mode ep \<longleftrightarrow> mode = endpointPickLendDisabled \<and> IsDirectRPC ep"

definition pickable :: "endpointPickMode \<Rightarrow> string \<Rightarrow> string list \<Rightarrow> string option \<Rightarrow> bool \<Rightarrow> Endpoint \<Rightarrow> bool" where
  "pickable mode addon exts path restrictToPath ep \<longleftrightarrow>
     \<not> (restrictToPath \<and> \<not> ServesInternalPath (the path) ep)
   \<and> \<not> (heldByStateLocked ep \<and> \<not> lastChanceBorrow mode ep
        \<or> \<not> ep_Enabled ep \<and> mode \<noteq> endpointPickReconnectDisabled \<and> \<not> lastChanceBorrow mode ep)
   \<and> ServesDirectRelays ep \<and> CheckSupportForServices addon exts ep \<and> connectEndpoint ep"

definition reconnected :: "endpointPickMode \<Rightarrow> Endpoint \<Rightarrow> Endpoint" where
  "reconnected mode ep =
     (if mode = endpointPickReconnectDisabled \<and> \<not> ep_Enabled ep then clearRecoveryTrackingLocked (ep\<lparr>ep_Enabled := True\<rparr>) else ep)"

fun pick_endpoints :: "endpointPickMode \<Rightarrow> bool \<Rightarrow> (Endpoint \<Rightarrow> bool) \<Rightarrow> ref list \<Rightarrow> (ref \<Rightarrow> Endpoint) \<Rightarrow> ref list \<times> (ref \<Rightarrow> Endpoint)" where
  "pick_endpoints mode getAll ok [] eps = ([], eps)"
| "pick_endpoints mode getAll ok (e # es) eps =
     (if \<not> ok (eps e) then pick_endpoints mode getAll ok es eps
      else let eps = eps(e := reconnected mode (eps e)) in
           if \<not> getAll then ([e], eps)
           else case pick_endpoints mode getAll ok es eps of (picked, eps) \<Rightarrow> (e # picked, eps))"

definition all_disabled :: "(ref \<Rightarrow> Endpoint) \<Rightarrow> ref list \<Rightarrow> bool" where
  "all_disabled eps es \<longleftrightarrow>
     list_ex (\<lambda>e. ServesDirectRelays (eps e)) es \<and> list_all (\<lambda>e. ServesDirectRelays (eps e) \<longrightarrow> \<not> IsUsable (eps e)) es"

text \<open>
  The endpoints picked, whether every relay endpoint is out (\<open>AllProviderEndpointsDisabledError\<close>), and the
  endpoints after it. Connected is a list of endpoints that is not empty.
\<close>

definition fetchEndpointConnectionFromConsumerSessionWithProvider ::
  "endpointPickMode \<Rightarrow> bool \<Rightarrow> string \<Rightarrow> string list \<Rightarrow> string option \<Rightarrow> cswp \<Rightarrow> (ref \<Rightarrow> Endpoint) \<Rightarrow> ref list \<times> bool \<times> (ref \<Rightarrow> Endpoint)" where
  "fetchEndpointConnectionFromConsumerSessionWithProvider mode getAll addon exts path p eps =
     (case pick_endpoints mode getAll (pickable mode addon exts path (restrict_to_path eps path (cs_Endpoints p))) (cs_Endpoints p) eps of
        (picked, eps) \<Rightarrow> (picked, picked = [] \<and> all_disabled eps (cs_Endpoints p), eps))"


section \<open>Giving a session back\<close>

text \<open>
  \<open>rel_env\<close> holds the classifier's and the gRPC status's answers a release asks for. The session is the one
  with id \<open>i\<close> of the provider \<open>p\<close>, its \<open>Parent\<close>; \<open>up\<close> belongs to the request that holds it.
\<close>

record rel_env =
  rel_unsupported :: "string \<Rightarrow> go_error \<Rightarrow> bool"
  rel_statusCode :: "go_error \<Rightarrow> int"

definition put_session :: "int64 \<Rightarrow> SingleConsumerSession \<Rightarrow> cswp \<Rightarrow> cswp" where
  "put_session i s p = p\<lparr>Sessions := mput i s (Sessions p)\<rparr>"

definition freed :: "rel_env \<Rightarrow> int64 \<Rightarrow> go_error option \<Rightarrow> SingleConsumerSession \<Rightarrow> cswp \<times> UsedProviders \<Rightarrow> cswp \<times> UsedProviders" where
  "freed env i err s pu =
     (put_session i (scs_Free s) (fst pu),
      free_used (rel_unsupported env) (rel_statusCode env) (PublicLavaAddress (fst pu)) err s (snd pu))"

text \<open>The frame of every release: \<open>VerifyLock\<close>, which blocks and frees a session nobody holds.\<close>

definition verify_then ::
  "rel_env \<Rightarrow> int64 \<Rightarrow> (SingleConsumerSession \<Rightarrow> session_error option \<times> cswp \<times> UsedProviders) \<Rightarrow> cswp \<Rightarrow> UsedProviders
    \<Rightarrow> session_error option \<times> cswp \<times> UsedProviders" where
  "verify_then env i body p up =
     (case mget (Sessions p) i of
        None \<Rightarrow> (None, p, up)
      | Some s \<Rightarrow>
          (case VerifyLock s of
             (False, _) \<Rightarrow> (Some LockMisUseDetected, freed env i None (s\<lparr>BlockListed := True\<rparr>) (p, up))
           | (True, s) \<Rightarrow> body s))"

definition give_back :: "64 word \<Rightarrow> cswp \<times> UsedProviders \<Rightarrow> session_error option \<times> cswp \<times> UsedProviders" where
  "give_back cu pu =
     (case decreaseUsedComputeUnits cu (fst pu) of
        None \<Rightarrow> (Some NegativeComputeUnitsAmount, pu)
      | Some p \<Rightarrow> (None, p, snd pu))"

definition releaseWithoutPenalty :: "rel_env \<Rightarrow> int64 \<Rightarrow> go_error option \<Rightarrow> cswp \<Rightarrow> UsedProviders \<Rightarrow> session_error option \<times> cswp \<times> UsedProviders" where
  "releaseWithoutPenalty env i reason p up =
     verify_then env i (\<lambda>s. give_back (LatestRelayCu s) (freed env i reason (s\<lparr>LatestRelayCu := 0\<rparr>) (p, up))) p up"

definition OnSessionDiscarded where "OnSessionDiscarded = releaseWithoutPenalty"

definition OnSessionCancelled where "OnSessionCancelled = releaseWithoutPenalty"

definition OnSessionRateLimited where "OnSessionRateLimited = releaseWithoutPenalty"

text \<open>The tip sample of \<open>OnSessionDataNotHeld\<close> goes to the optimizer; its first \<open>VerifyLock\<close> returns before the second.\<close>

definition OnSessionDataNotHeld where "OnSessionDataNotHeld = releaseWithoutPenalty"

definition ReportAndBlockProviderError :: string where "ReportAndBlockProviderError = ''Report and block the provider''"

definition BlockProviderError :: string where "BlockProviderError = ''Block the provider''"

definition BlockEndpointError :: string where "BlockEndpointError = ''Block the endpoint''"

text \<open>The session after a failure, before it is freed.\<close>

definition failed_session :: "rel_env \<Rightarrow> go_error \<Rightarrow> SingleConsumerSession \<Rightarrow> SingleConsumerSession" where
  "failed_session env err s =
     (let s = (if errors_is err BlockEndpointError then s\<lparr>BlockListed := True\<rparr> else s);
          s = s\<lparr>ConsecutiveErrors := ConsecutiveErrors s @ [err], errorsCount := errorsCount s + 1\<rparr>;
          s = (if length (ConsecutiveErrors s) > MaximumNumberOfFailuresAllowedPerConsumerSession
                  \<or> IsSessionSyncLoss (rel_statusCode env err) err
               then s\<lparr>BlockListed := True\<rparr> else s)
      in s\<lparr>LatestRelayCu := 0\<rparr>)"

definition release_failed :: "rel_env \<Rightarrow> int64 \<Rightarrow> go_error \<Rightarrow> cswp \<Rightarrow> UsedProviders \<Rightarrow> session_error option \<times> cswp \<times> UsedProviders" where
  "release_failed env i err p up =
     verify_then env i
       (\<lambda>s. if BlockListed s then (Some SessionIsAlreadyBlockListed, freed env i (Some err) s (p, up))
            else give_back (LatestRelayCu s) (freed env i (Some err) (failed_session env err s) (p, up))) p up"

text \<open>
  The block it may ask of the manager afterwards: provider, reported, epoch and the number of errors in a row. It is
  asked for once the compute units are returned, and not for a provider lent from the blocked list.
\<close>

definition failure_block :: "rel_env \<Rightarrow> int64 \<Rightarrow> go_error \<Rightarrow> cswp \<Rightarrow> UsedProviders \<Rightarrow> (string \<times> bool \<times> 64 word \<times> 64 word) option" where
  "failure_block env i err p up =
     (if fst (release_failed env i err p up) = None \<and> \<not> blockedAndUsed p
         \<and> (errors_is err ReportAndBlockProviderError \<or> errors_is err BlockProviderError)
      then (case mget (Sessions p) i of
              None \<Rightarrow> None
            | Some s \<Rightarrow> Some (PublicLavaAddress p, errors_is err ReportAndBlockProviderError, PairingEpoch p,
                            of_nat (Suc (length (ConsecutiveErrors s)))))
      else None)"

text \<open>On the manager, for the provider at \<open>r\<close>.\<close>

definition releaseWithAvailabilityFailure ::
  "rel_env \<Rightarrow> ref \<Rightarrow> int64 \<Rightarrow> go_error \<Rightarrow> time \<Rightarrow> UsedProviders \<Rightarrow> csm \<Rightarrow> session_error option \<times> UsedProviders \<times> csm" where
  "releaseWithAvailabilityFailure env r i err now up c =
     (case release_failed env i err (providers c r) up of
        (e, p, up') \<Rightarrow>
          let c' = c\<lparr>providers := (providers c)(r := p)\<rparr> in
          case failure_block env i err (providers c r) up of
            None \<Rightarrow> (e, up', c')
          | Some (addr, rep, epoch, errs) \<Rightarrow>
              (e, up', snd (blockProvider addr BlockReasonExplicitSignal rep epoch 0 errs None now c')))"

definition OnSessionFailure where "OnSessionFailure = releaseWithAvailabilityFailure"

definition OnSessionUnresponsive where "OnSessionUnresponsive = releaseWithAvailabilityFailure"

definition served_session :: "int64 \<Rightarrow> SingleConsumerSession \<Rightarrow> SingleConsumerSession" where
  "served_session block s =
     s\<lparr>CuSum := CuSum s + LatestRelayCu s, LatestRelayCu := 0, ConsecutiveErrors := [], SingleConsumerSession.LatestBlock := block\<rparr>"

definition OnSessionDoneIncreaseCUOnly :: "rel_env \<Rightarrow> int64 \<Rightarrow> int64 \<Rightarrow> cswp \<Rightarrow> UsedProviders \<Rightarrow> session_error option \<times> cswp \<times> UsedProviders" where
  "OnSessionDoneIncreaseCUOnly env i block p up =
     verify_then env i (\<lambda>s. (None, freed env i None (served_session block s) (p, up))) p up"

text \<open>A provider lent from the blocked list has its status cleared and is released in the background.\<close>

definition OnSessionDone :: "rel_env \<Rightarrow> ref \<Rightarrow> int64 \<Rightarrow> int64 \<Rightarrow> UsedProviders \<Rightarrow> csm \<Rightarrow> session_error option \<times> UsedProviders \<times> csm" where
  "OnSessionDone env r i block up c =
     (let p = providers c r in
      case verify_then env i (\<lambda>s. (None, freed env i None (served_session block s) (p\<lparr>blockedAndUsed := False\<rparr>, up))) p up of
        (e, p', up') \<Rightarrow>
          let c' = c\<lparr>providers := (providers c)(r := p')\<rparr> in
          (e, up', if e = None \<and> mget (Sessions p) i \<noteq> None \<and> blockedAndUsed p then releaseBlockedProvider (PublicLavaAddress p) c' else c'))"


section \<open>GetSessions\<close>

text \<open>
  \<open>ids n\<close> is the session id the random source has for the \<open>n\<close>-th opening of a session, \<open>benchAfter\<close> is \<open>MaxConsecutiveConnectionAttempts\<close>. \<open>resolveSticky\<close> is
  \<open>resolveStickyPin\<close> with the fleet's claim registry behind it, absent when no registry is wired; it returns
  the local key too and may set local sticky sessions. \<open>takenAt\<close> is the time \<open>AddUsed\<close> reads.
\<close>

datatype sticky_error = StickyPairingListEmpty | ErrStickyUnavailable | StickySelect select_error

record life_env =
  life_sel :: select_env
  maxSessions :: nat
  ids :: "nat \<Rightarrow> int64"
  benchAfter :: "64 word"
  resolveSticky :: "(select_request \<Rightarrow> csm \<Rightarrow> (sticky_error + string) \<times> string \<times> csm) option"
  takenAt :: time

record GetSessionsOptions =
  opt_PreferredProvider :: string
  opt_MinGroups :: int
  opt_PerGroupTarget :: int
  opt_InternalPath :: "string option"

record taken_session =
  ts_Provider :: ref
  ts_Session :: int64
  ts_StakeSize :: int64
  ts_Epoch :: "64 word"
  ts_Reported :: "string list"

type_synonym taken_map = "(string, taken_session) gomap"

definition GetReportedProviders :: "64 word \<Rightarrow> csm \<Rightarrow> string list" where
  "GetReportedProviders epoch c =
     (if epoch \<noteq> currentEpoch c then []
      else filter (\<lambda>a. mget (pairing c) a \<noteq> None \<or> mget (backupProviders c) a \<noteq> None) (map fst (addedToPurgeAndReport (reportedProviders c))))"

text \<open>What one turn of the inner loop works on: the ids drawn so far, the request's records, the manager.\<close>

record turn =
  drawn :: nat
  t_ip :: ignoredProviders
  t_up :: UsedProviders
  t_csm :: csm
  t_taken :: taken_map

definition set_aside :: "string \<Rightarrow> turn \<Rightarrow> turn" where
  "set_aside a t = t\<lparr>t_ip := ignore a (t_ip t)\<rparr>"

definition put_provider :: "ref \<Rightarrow> cswp \<Rightarrow> turn \<Rightarrow> turn" where
  "put_provider r p t = t\<lparr>t_csm := (t_csm t)\<lparr>providers := (providers (t_csm t))(r := p)\<rparr>\<rparr>"

text \<open>A provider all of whose relay endpoints are out.\<close>

definition all_out :: "life_env \<Rightarrow> string \<Rightarrow> SessionWithProvider \<Rightarrow> turn \<Rightarrow> turn" where
  "all_out env a swp t =
     (set_aside a t)\<lparr>t_csm := snd (blockProvider a BlockReasonAllEndpointsDisabled True (swp_CurrentEpoch swp) (benchAfter env) 0
        (Some (SessionsWithProvider swp)) (sel_now (life_sel env)) (t_csm t))\<rparr>"

text \<open>A disabled endpoint is lent once per request. No result: this request was already lent one.\<close>

definition lend_once :: "SessionWithProvider \<Rightarrow> Endpoint \<Rightarrow> UsedProviders \<Rightarrow> UsedProviders option" where
  "lend_once swp ep up =
     (if lastChance swp \<and> \<not> snap_Enabled (HealthSnapshot ep)
      then (case TakeLastChance up of (True, up) \<Rightarrow> Some up | (False, _) \<Rightarrow> None)
      else Some up)"

text \<open>
  A session on the endpoint \<open>e\<close> of the provider, with the request's compute units booked; the flag says whether one
  was taken. \<open>None\<close> is a fatal exit.
\<close>

definition open_session :: "life_env \<Rightarrow> select_request \<Rightarrow> string \<Rightarrow> SessionWithProvider \<Rightarrow> ref \<Rightarrow> turn \<Rightarrow> (bool \<times> turn) option" where
  "open_session env req a swp e t =
     (let r = SessionsWithProvider swp; c = t_csm t; reported = GetReportedProviders (swp_CurrentEpoch swp) c in
      case GetConsumerSessionInstanceFromEndpoint (maxSessions env) (ids env (drawn t)) (endpoints c) e (providers c r) of
        (res, p) \<Rightarrow>
          let t = (put_provider r p t)\<lparr>drawn := Suc (drawn t)\<rparr> in
          case res of
            Inl err \<Rightarrow> if err = MaximumNumberOfSessionsExceeded then Some (False, set_aside a t) else None
          | Inr (i, pairingEpoch) \<Rightarrow>
          let s = the (mget (Sessions p) i) in
          (case addUsedComputeUnits (req_cu req) (req_virtualEpoch req) p of
             None \<Rightarrow> Some (False, set_aside a (put_provider r (put_session i (scs_Free s) p) t))
           | Some p \<Rightarrow>
               let p = put_session i (SetUsageForSession (req_cu req) (NewRouterKey (req_exts req)) s) p;
                   t = set_aside a (put_provider r p t)
               in Some (True, t\<lparr>t_taken := mput a \<lparr>ts_Provider = r, ts_Session = i, ts_StakeSize = stakeSize p, ts_Epoch = pairingEpoch,
                                             ts_Reported = reported\<rparr> (t_taken t)\<rparr>)))"

definition session_turn :: "life_env \<Rightarrow> select_request \<Rightarrow> string option \<Rightarrow> string \<Rightarrow> SessionWithProvider \<Rightarrow> turn \<Rightarrow> (bool \<times> turn) option" where
  "session_turn env req path a swp t =
     (let c = t_csm t; mode = (if lastChance swp then endpointPickLendDisabled else endpointPickSkipDisabled) in
      case fetchEndpointConnectionFromConsumerSessionWithProvider mode False (req_addon req) (req_exts req) path
             (providers c (SessionsWithProvider swp)) (endpoints c) of
        (picked, allDisabled, eps) \<Rightarrow>
          let t = t\<lparr>t_csm := c\<lparr>endpoints := eps\<rparr>\<rparr> in
          if allDisabled then Some (False, all_out env a swp t)
          else case picked of
                 [] \<Rightarrow> Some (False, set_aside a t)
               | e # _ \<Rightarrow>
                   (case lend_once swp (eps e) (t_up t) of
                      None \<Rightarrow> Some (False, set_aside a t)
                    | Some up \<Rightarrow> open_session env req a swp e (t\<lparr>t_up := up\<rparr>)))"

text \<open>The inner loop: it stops once the wanted number of sessions is reached.\<close>

fun session_turns :: "life_env \<Rightarrow> select_request \<Rightarrow> string option \<Rightarrow> nat \<Rightarrow> session_map \<Rightarrow> turn \<Rightarrow> (bool \<times> turn) option" where
  "session_turns env req path wanted [] t = Some (False, t)"
| "session_turns env req path wanted ((a, swp) # rest) t =
     (case session_turn env req path a swp t of
        None \<Rightarrow> None
      | Some (took, t) \<Rightarrow>
          if took \<and> length (t_taken t) = wanted then Some (True, t)
          else session_turns env req path wanted rest t)"


text \<open>The outer loop: one more provider from the whole cascade while sessions are missing.\<close>

partial_function (option) session_loop ::
  "life_env \<Rightarrow> nat \<Rightarrow> select_request \<Rightarrow> string option \<Rightarrow> nat \<Rightarrow> session_map \<Rightarrow> turn \<Rightarrow> ((select_error + taken_map) \<times> turn) option" where
  "session_loop env k req path wanted found t =
     (case session_turns env req path wanted found t of
        None \<Rightarrow> None
      | Some (enough, t) \<Rightarrow>
          if enough then Some (Inr (t_taken t), t)
          else
            (case getSessionWithProviderOrError (life_sel env) k 1 req (t_ip t) (t_up t) (t_csm t) of
               None \<Rightarrow> None
             | Some ((res, ip, c, k), up) \<Rightarrow>
                 let t = t\<lparr>t_ip := ip, t_up := up, t_csm := c\<rparr> in
                 (case res of
                    Inl e \<Rightarrow> Some (if t_taken t \<noteq> [] then Inr (t_taken t) else Inl e, t)
                  | Inr found \<Rightarrow> session_loop env k req path wanted found t)))"

text \<open>Under the selection lock: the cache warm-up, the ignored providers, the first cascade, the loop.\<close>

definition locked_sessions ::
  "life_env \<Rightarrow> int \<Rightarrow> select_request \<Rightarrow> string \<Rightarrow> string option \<Rightarrow> UsedProviders \<Rightarrow> csm \<Rightarrow> ((select_error + taken_map) \<times> turn) option" where
  "locked_sessions env wanted req preferred path up c =
     (case GetUnwantedProvidersToSend (NewRouterKey (req_exts req)) up of (unwanted, up) \<Rightarrow>
        let c = snd (cacheAddonAddresses (req_addon req) (req_exts req) c);
            ip = \<lparr>ign_providers = unwanted, triedByThisRequest = unwanted, ign_currentEpoch = currentEpoch c,
                  preferredProvider = (if req_selected req = '''' \<and> req_stickiness req = '''' then preferred else '''')\<rparr>
        in case getSessionWithProviderOrError (life_sel env) 0 wanted req ip up c of
             None \<Rightarrow> None
           | Some ((res, ip, c, k), up) \<Rightarrow>
               let t = \<lparr>drawn = 0, t_ip = ip, t_up = up, t_csm = c, t_taken = []\<rparr> in
               (case res of
                  Inl e \<Rightarrow> Some (Inl e, t)
                | Inr found \<Rightarrow> session_loop env k req path (length found) found t))"

datatype get_error = SelectFailed select_error | StickyFailed sticky_error | SelectionLockFailed

text \<open>The options, and the drop of every directive that names one provider under a group-diversity mandate.\<close>

definition resolved_request :: "GetSessionsOptions option \<Rightarrow> select_request \<Rightarrow> select_request" where
  "resolved_request opts req =
     (let req = req\<lparr>req_minGroups := (case opts of Some x \<Rightarrow> if 1 < opt_MinGroups x then opt_MinGroups x else 1 | None \<Rightarrow> 1),
                    req_perGroupTarget := (case opts of Some x \<Rightarrow> if 1 < opt_PerGroupTarget x then opt_PerGroupTarget x else 1 | None \<Rightarrow> 1)\<rparr>
      in if 1 < req_minGroups req then req\<lparr>req_selected := '''', req_stickiness := ''''\<rparr> else req)"

text \<open>
  The fleet's claim turned into a pin: a failure, or the request to go on with, the local key of the claim when
  there was one to resolve, and the manager.
\<close>

definition resolve_claim :: "life_env \<Rightarrow> select_request \<Rightarrow> csm \<Rightarrow> (sticky_error + select_request) \<times> string option \<times> csm" where
  "resolve_claim env req c =
     (case resolveSticky env of
        None \<Rightarrow> (Inr req, None, c)
      | Some resolve \<Rightarrow>
          if req_stickiness req = '''' \<or> req_selected req \<noteq> '''' then (Inr req, None, c)
          else (case resolve req c of
                  (Inl e, key, c) \<Rightarrow>
                    (if e = StickyPairingListEmpty then Inr (req\<lparr>req_stickiness := ''''\<rparr>) else Inl e, Some key, c)
                | (Inr provider, key, c) \<Rightarrow> (Inr (req\<lparr>req_selected := provider, req_stickiness := ''''\<rparr>), Some key, c)))"

definition invalidateStickyPin :: "string \<Rightarrow> csm \<Rightarrow> csm" where
  "invalidateStickyPin key c = (if key = '''' then c else c\<lparr>stickySessions := mdel key (stickySessions c)\<rparr>)"

text \<open>
  The whole call. \<open>lock\<close> is what \<open>TryLockSelection\<close> answers; the two deferred calls run at the end: \<open>AddUsed\<close>, then
  the drop of a local claim whose provider is no longer selectable.
\<close>

definition used_sessions :: "select_request \<Rightarrow> taken_map \<Rightarrow> ConsumerSessionsMap" where
  "used_sessions req taken = map (\<lambda>kv. (fst kv, Some \<lparr>Session = Some (NewRouterKey (req_exts req))\<rparr>)) taken"

definition GetSessions ::
  "life_env \<Rightarrow> int \<Rightarrow> select_request \<Rightarrow> GetSessionsOptions option \<Rightarrow> (UsedProviders \<Rightarrow> lock_result) \<Rightarrow> UsedProviders \<Rightarrow> csm
    \<Rightarrow> ((get_error + taken_map) \<times> UsedProviders \<times> csm) option" where
  "GetSessions env wanted req opts lock up c =
     (case resolve_claim env (resolved_request opts req) c of
        (Inl e, _, c) \<Rightarrow> Some (Inl (StickyFailed e), up, c)
      | (Inr req, key, c) \<Rightarrow>
          (case lock up of
             ContextDoneNoNeedToLockSelectionError \<Rightarrow> Some (Inl SelectionLockFailed, up, c)
           | Locked up \<Rightarrow>
               (case locked_sessions env wanted req (case opts of Some x \<Rightarrow> opt_PreferredProvider x | None \<Rightarrow> '''')
                       (case opts of Some x \<Rightarrow> opt_InternalPath x | None \<Rightarrow> None) up c of
                  None \<Rightarrow> None
                | Some (res, t) \<Rightarrow>
                    (case AddUsed (takenAt env) (case res of Inr taken \<Rightarrow> used_sessions req taken | Inl _ \<Rightarrow> [])
                            (case res of Inr _ \<Rightarrow> None | Inl _ \<Rightarrow> Some (ErrNew '''')) (t_up t) of
                       None \<Rightarrow> None
                     | Some up \<Rightarrow>
                         Some (case res of Inr taken \<Rightarrow> Inr taken | Inl e \<Rightarrow> Inl (SelectFailed e), up,
                               case key of
                                 Some key \<Rightarrow> if req_selected req \<noteq> '''' \<and> res = Inl SelectedProviderUnavailable
                                             then invalidateStickyPin key (t_csm t) else t_csm t
                               | None \<Rightarrow> t_csm t)))))"


section \<open>Every turn is answered\<close>

lemma block_same:
  "same_roster c (snd (blockProvider a reason rep epoch d e cb now c))" "same_sessions c (snd (blockProvider a reason rep epoch d e cb now c))"
proof -
  have out_fields: "pairing (snd (takeOut a r c)) = pairing c" "backupProviders (snd (takeOut a r c)) = backupProviders c"
    "currentEpoch (snd (takeOut a r c)) = currentEpoch c" "providers (snd (takeOut a r c)) = providers c"
    "endpoints (snd (takeOut a r c)) = endpoints c" for r c
    by (simp_all add: takeOut_def remove_unfold Let_def)
  have refresh: "pairing (refreshBlockOutcomeLocked a rep c) = pairing c" "backupProviders (refreshBlockOutcomeLocked a rep c) = backupProviders c"
    "currentEpoch (refreshBlockOutcomeLocked a rep c) = currentEpoch c" "providers (refreshBlockOutcomeLocked a rep c) = providers c"
    "endpoints (refreshBlockOutcomeLocked a rep c) = endpoints c" for c
    by (simp_all add: refreshBlockOutcomeLocked_def Let_def split: option.split)
  obtain b c' where tk: "takeOut a (blank_record\<lparr>br_Reason := reason, br_Since := now, br_Detail := blockDetail d e\<rparr>) c = (b, c')" by fastforce
  with out_fields have c': "pairing c' = pairing c" "backupProviders c' = backupProviders c" "currentEpoch c' = currentEpoch c"
    "providers c' = providers c" "endpoints c' = endpoints c" by (metis snd_conv)+
  show "same_roster c (snd (blockProvider a reason rep epoch d e cb now c))" "same_sessions c (snd (blockProvider a reason rep epoch d e cb now c))"
    by (cases b; simp add: blockProvider_def tk Let_def same_roster_def same_sessions_def refresh c')+
qed

lemma pick_one:
  "mode \<noteq> endpointPickReconnectDisabled \<Longrightarrow> pick_endpoints mode False ok es eps = ([], eps)
     \<or> (\<exists>e\<in>set es. ok (eps e) \<and> pick_endpoints mode False ok es eps = ([e], eps))"
  by (induction es) (auto simp: reconnected_def Let_def)

lemma connected_direct: "connectEndpoint ep \<Longrightarrow> IsDirectRPC ep"
  by (auto simp: connectEndpoint_def IsDirectRPC_def split: list.splits)

lemma fetch_one:
  assumes "mode \<noteq> endpointPickReconnectDisabled"
    and "fetchEndpointConnectionFromConsumerSessionWithProvider mode False addon exts path p eps = (picked, out', eps')"
  shows "eps' = eps \<and> (picked = [] \<or> (\<exists>e\<in>set (cs_Endpoints p). picked = [e] \<and> IsDirectRPC (eps e)))"
  using pick_one [OF assms(1), of "pickable mode addon exts path (restrict_to_path eps path (cs_Endpoints p))" "cs_Endpoints p" eps] assms(2)
  by (auto simp: fetchEndpointConnectionFromConsumerSessionWithProvider_def pickable_def connected_direct)

text \<open>Sessions that are held, and the ids still to be drawn.\<close>

definition held :: "csm \<Rightarrow> ref \<Rightarrow> int64 \<Rightarrow> bool" where
  "held c r i \<longleftrightarrow> (\<exists>s. mget (Sessions (providers c r)) i = Some s \<and> scs_locked s)"

definition keeps_held :: "csm \<Rightarrow> csm \<Rightarrow> bool" where
  "keeps_held c c' \<longleftrightarrow> (\<forall>r i s. mget (Sessions (providers c r)) i = Some s \<longrightarrow> scs_locked s \<longrightarrow> mget (Sessions (providers c' r)) i = Some s)"

definition ids_free :: "life_env \<Rightarrow> nat \<Rightarrow> csm \<Rightarrow> bool" where
  "ids_free env n c \<longleftrightarrow> (\<forall>m\<ge>n. \<forall>r. mget (Sessions (providers c r)) (ids env m) = None)"

definition sessions_ok :: "csm \<Rightarrow> bool" where
  "sessions_ok c \<longleftrightarrow> (\<forall>r. wf_map (Sessions (providers c r)))"

lemma keeps_held_refl [simp]: "keeps_held c c"
  by (simp add: keeps_held_def)

lemma keeps_held_trans: "keeps_held c d \<Longrightarrow> keeps_held d e \<Longrightarrow> keeps_held c e"
  by (simp add: keeps_held_def)

lemma keeps_held_held: "keeps_held c d \<Longrightarrow> held c r i \<Longrightarrow> held d r i"
  by (auto simp: keeps_held_def held_def)

lemma same_sessions_map: "same_sessions c d \<Longrightarrow> Sessions (providers d r) = Sessions (providers c r)"
proof -
  assume "same_sessions c d"
  then have "Sessions ((providers d r)\<lparr>blockedAndUsed := False\<rparr>) = Sessions ((providers c r)\<lparr>blockedAndUsed := False\<rparr>)" by (simp add: same_sessions_def)
  then show ?thesis by simp
qed

lemma same_sessions_held:
  assumes "same_sessions c d"
  shows "keeps_held c d" "ids_free env n d = ids_free env n c" "sessions_ok d = sessions_ok c"
  using same_sessions_map [OF assms] by (simp_all add: keeps_held_def ids_free_def sessions_ok_def)

lemma try_sessions_held:
  assumes "try_sessions e m = (r, m')" and "wf_map m"
  shows "map fst m' = map fst m \<and> (\<forall>k t. mget m k = Some t \<longrightarrow> scs_locked t \<longrightarrow> mget m' k = Some t)
    \<and> (\<forall>i. r = Some i \<longrightarrow> (\<exists>s. mget m i = Some s \<and> \<not> scs_locked s \<and> \<not> scs_inUse s \<and> \<not> BlockListed s \<and> mget m' i = Some (s\<lparr>scs_locked := True\<rparr>)))"
  using assms
proof (induction m arbitrary: r m')
  case (Cons x m)
  obtain i s where x: "x = (i, s)" by fastforce
  obtain r1 m1 where rec: "try_sessions e m = (r1, m1)" by fastforce
  have wf: "wf_map m" "mget m i = None" using Cons.prems(2) by (auto simp: x wf_map_def map_of_eq_None_iff)
  note IH = Cons.IH [OF rec wf(1)]
  have "mget m1 i = None" using IH wf(2) by (metis map_of_eq_None_iff set_map)
  note none = wf(2) this
  show ?case
  proof (cases "scs_Endpoint s = e")
    case False
    then have "r = r1" "m' = (i, s) # m1" using Cons.prems(1) rec by (auto simp: x)
    then show ?thesis using IH none by (auto simp: x)
  next
    case True
    obtain b ok s' where tu: "TryUseSession s = (b, ok, s')" by (metis prod_cases3)
    then have s': "scs_locked s \<Longrightarrow> s' = s \<and> \<not> ok" "ok \<Longrightarrow> \<not> scs_inUse s \<and> \<not> BlockListed s \<and> s' = s\<lparr>scs_locked := True\<rparr>"
      by (auto simp: TryUseSession_def split: if_splits)
    show ?thesis
    proof (cases ok)
      case taken: True
      then have "r = Some i" "m' = (i, s') # m" using Cons.prems(1) True tu by (auto simp: x)
      then show ?thesis using s' taken none by (auto simp: x)
    next
      case left: False
      then have "r = r1" "m' = (i, s') # m1" using Cons.prems(1) True tu rec by (auto simp: x)
      then show ?thesis using IH none s'(1) by (auto simp: x)
    qed
  qed
qed simp

text \<open>An opened session was free or is new; held ones stay as they are.\<close>

lemma instance_opened:
  assumes "GetConsumerSessionInstanceFromEndpoint n newId eps e p = (res, p')" and "wf_map (Sessions p)" and "mget (Sessions p) newId = None"
  shows "wf_map (Sessions p') \<and> (\<forall>k. mget (Sessions p) k = None \<longrightarrow> k \<noteq> newId \<longrightarrow> mget (Sessions p') k = None)
    \<and> (\<forall>k t. mget (Sessions p) k = Some t \<longrightarrow> scs_locked t \<longrightarrow> mget (Sessions p') k = Some t) \<and> UsedComputeUnits p' = UsedComputeUnits p
    \<and> (\<forall>i pe. res = Inr (i, pe) \<longrightarrow> (\<forall>s. mget (Sessions p) i = Some s \<longrightarrow> \<not> scs_locked s)
        \<and> (\<exists>s. mget (Sessions p') i = Some s \<and> scs_locked s \<and> \<not> scs_inUse s \<and> \<not> BlockListed s))"
proof -
  obtain r m where t: "try_sessions e (Sessions p) = (r, m)" by fastforce
  note h = try_sessions_held [OF t assms(2)]
  then have keys: "mget m k = None \<longleftrightarrow> mget (Sessions p) k = None" for k by (metis map_of_eq_None_iff set_map)
  have m: "wf_map m" "mget m newId = None" using h keys assms(2,3) by (auto simp: wf_map_def)
  have new: "snd (snd (TryUseSession (new_session e p))) = (new_session e p)\<lparr>scs_locked := True\<rparr>" by (simp add: TryUseSession_def new_session_def)
  have put: "mget m k = Some t \<Longrightarrow> mget (mput newId v m) k = Some t" for k t v using m(2) by auto
  show ?thesis
  proof (cases "\<not> IsDirectRPC (eps e) \<or> e \<notin> set (cs_Endpoints p)")
    case True
    then show ?thesis using assms by (auto simp: GetConsumerSessionInstanceFromEndpoint_def)
  next
    case False
    consider i where "r = Some i" | "r = None" "length m > n" | "r = None" "\<not> length m > n" by (cases r) auto
    then show ?thesis
    proof cases
      case (1 i)
      then show ?thesis using assms(1) False t h m keys by (auto simp: GetConsumerSessionInstanceFromEndpoint_def)
    next
      case 2
      then show ?thesis using assms(1) False t h m keys by (auto simp: GetConsumerSessionInstanceFromEndpoint_def)
    next
      case 3
      then have "res = Inr (newId, PairingEpoch p)" "p' = p\<lparr>Sessions := mput newId ((new_session e p)\<lparr>scs_locked := True\<rparr>) m\<rparr>"
        using assms(1) False t by (auto simp: GetConsumerSessionInstanceFromEndpoint_def new)
      then show ?thesis using h m put assms(3) keys by (auto simp: new_session_def)
    qed
  qed
qed

text \<open>What a turn leaves behind.\<close>

definition takes_free :: "life_env \<Rightarrow> turn \<Rightarrow> turn \<Rightarrow> bool" where
  "takes_free env t t' \<longleftrightarrow>
     (inj (ids env) \<and> sessions_ok (t_csm t) \<and> ids_free env (drawn t) (t_csm t) \<longrightarrow>
        sessions_ok (t_csm t') \<and> ids_free env (drawn t') (t_csm t') \<and> keeps_held (t_csm t) (t_csm t')
      \<and> (\<forall>a ts. mget (t_taken t') a = Some ts \<longrightarrow> mget (t_taken t) a = Some ts
           \<or> \<not> held (t_csm t) (ts_Provider ts) (ts_Session ts) \<and> held (t_csm t') (ts_Provider ts) (ts_Session ts)))"

definition turn_ok :: "life_env \<Rightarrow> turn \<Rightarrow> turn \<Rightarrow> bool" where
  "turn_ok env t t' \<longleftrightarrow> csm_ok (t_csm t') \<and> same_roster (t_csm t) (t_csm t') \<and> grows (t_ip t) (t_ip t') \<and> takes_free env t t'"

lemma takes_free_trans:
  assumes "takes_free env t t'" and "takes_free env t' t''"
  shows "takes_free env t t''"
  unfolding takes_free_def
proof (intro impI conjI allI)
  assume start: "inj (ids env) \<and> sessions_ok (t_csm t) \<and> ids_free env (drawn t) (t_csm t)"
  with assms(1) have 1: "sessions_ok (t_csm t')" "ids_free env (drawn t') (t_csm t')" "keeps_held (t_csm t) (t_csm t')"
    and new1: "\<And>a ts. mget (t_taken t') a = Some ts \<Longrightarrow> mget (t_taken t) a = Some ts
           \<or> \<not> held (t_csm t) (ts_Provider ts) (ts_Session ts) \<and> held (t_csm t') (ts_Provider ts) (ts_Session ts)"
    by (simp_all add: takes_free_def)
  with assms(2) start have 2: "sessions_ok (t_csm t'')" "ids_free env (drawn t'') (t_csm t'')" "keeps_held (t_csm t') (t_csm t'')"
    and new2: "\<And>a ts. mget (t_taken t'') a = Some ts \<Longrightarrow> mget (t_taken t') a = Some ts
           \<or> \<not> held (t_csm t') (ts_Provider ts) (ts_Session ts) \<and> held (t_csm t'') (ts_Provider ts) (ts_Session ts)"
    by (simp_all add: takes_free_def)
  from 2 keeps_held_trans [OF 1(3) 2(3)]
  show "sessions_ok (t_csm t'')" "ids_free env (drawn t'') (t_csm t'')" "keeps_held (t_csm t) (t_csm t'')" by simp_all
  fix a ts
  assume "mget (t_taken t'') a = Some ts"
  then show "mget (t_taken t) a = Some ts
           \<or> \<not> held (t_csm t) (ts_Provider ts) (ts_Session ts) \<and> held (t_csm t'') (ts_Provider ts) (ts_Session ts)"
    using new1 new2 keeps_held_held [OF 1(3)] keeps_held_held [OF 2(3)] by blast
qed

lemma takes_free_same:
  "same_sessions (t_csm t) (t_csm t') \<Longrightarrow> drawn t' = drawn t \<Longrightarrow> t_taken t' = t_taken t \<Longrightarrow> takes_free env t t'"
  by (simp add: takes_free_def same_sessions_held)

lemma turn_ok_trans: "turn_ok env t t' \<Longrightarrow> turn_ok env t' t'' \<Longrightarrow> turn_ok env t t''"
  using same_roster_trans grows_trans takes_free_trans by (auto simp: turn_ok_def)

lemma turn_ok_aside: "csm_ok (t_csm t) \<Longrightarrow> turn_ok env t (set_aside a t)"
  by (auto simp: turn_ok_def set_aside_def intro: takes_free_same)

text \<open>A turn that changes one provider's sessions.\<close>

lemma turn_ok_put:
  assumes "csm_ok (t_csm t)" and q: "PublicLavaAddress q = PublicLavaAddress (providers (t_csm t) r)"
    and t': "t_csm t' = (t_csm t)\<lparr>providers := (providers (t_csm t))(r := q)\<rparr>" "t_ip t' = ignore a (t_ip t)" "drawn t' = Suc (drawn t)"
    and sess: "\<And>m. m = Sessions (providers (t_csm t) r) \<Longrightarrow> wf_map m \<Longrightarrow> mget m (ids env (drawn t)) = None \<Longrightarrow>
      wf_map (Sessions q) \<and> (\<forall>k. mget m k = None \<longrightarrow> k \<noteq> ids env (drawn t) \<longrightarrow> mget (Sessions q) k = None)
      \<and> (\<forall>k u. mget m k = Some u \<longrightarrow> scs_locked u \<longrightarrow> mget (Sessions q) k = Some u)
      \<and> (\<forall>b ts. mget (t_taken t') b = Some ts \<longrightarrow> mget (t_taken t) b = Some ts
          \<or> ts_Provider ts = r \<and> (\<forall>u. mget m (ts_Session ts) = Some u \<longrightarrow> \<not> scs_locked u)
            \<and> (\<exists>u. mget (Sessions q) (ts_Session ts) = Some u \<and> scs_locked u))"
  shows "turn_ok env t t'"
proof -
  have "csm_ok (t_csm t')" using objects_ok [OF assms(1), of "endpoints (t_csm t)" "(providers (t_csm t))(r := q)"] by (simp add: t'(1))
  moreover have "same_roster (t_csm t) (t_csm t')" using q by (simp add: t'(1) same_roster_def)
  moreover have "takes_free env t t'"
    unfolding takes_free_def
  proof
    assume start: "inj (ids env) \<and> sessions_ok (t_csm t) \<and> ids_free env (drawn t) (t_csm t)"
    then have m: "wf_map (Sessions (providers (t_csm t) r))" "mget (Sessions (providers (t_csm t) r)) (ids env (drawn t)) = None"
      by (simp_all add: sessions_ok_def ids_free_def)
    note S = sess [OF refl m]
    have "ids env n \<noteq> ids env (drawn t)" if "Suc (drawn t) \<le> n" for n using start that by (simp add: inj_eq)
    then have "ids_free env (drawn t') (t_csm t')" using S start by (auto simp: ids_free_def t'(1,3))
    moreover have "sessions_ok (t_csm t')" "keeps_held (t_csm t) (t_csm t')" using S start by (auto simp: sessions_ok_def keeps_held_def t'(1))
    moreover have "mget (t_taken t) b = Some ts
         \<or> \<not> held (t_csm t) (ts_Provider ts) (ts_Session ts) \<and> held (t_csm t') (ts_Provider ts) (ts_Session ts)"
      if taken: "mget (t_taken t') b = Some ts" for b ts
    proof (cases "mget (t_taken t) b = Some ts")
      case False
      with S taken have "ts_Provider ts = r" "\<forall>u. mget (Sessions (providers (t_csm t) r)) (ts_Session ts) = Some u \<longrightarrow> \<not> scs_locked u"
        "\<exists>u. mget (Sessions q) (ts_Session ts) = Some u \<and> scs_locked u" by blast+
      then show ?thesis by (auto simp: held_def t'(1))
    qed simp
    ultimately show "sessions_ok (t_csm t') \<and> ids_free env (drawn t') (t_csm t') \<and> keeps_held (t_csm t) (t_csm t')
      \<and> (\<forall>a ts. mget (t_taken t') a = Some ts \<longrightarrow> mget (t_taken t) a = Some ts
           \<or> \<not> held (t_csm t) (ts_Provider ts) (ts_Session ts) \<and> held (t_csm t') (ts_Provider ts) (ts_Session ts))" by blast
  qed
  ultimately show ?thesis by (simp add: turn_ok_def t'(2))
qed

lemma instance_address:
  "PublicLavaAddress (snd (GetConsumerSessionInstanceFromEndpoint n i eps e p)) = PublicLavaAddress p"
  by (simp add: GetConsumerSessionInstanceFromEndpoint_def split: prod.split option.split)

lemma booked_address: "addUsedComputeUnits cu ve p = Some p' \<Longrightarrow> PublicLavaAddress p' = PublicLavaAddress p"
  by (auto simp: addUsedComputeUnits_def split: if_splits)

lemma opened_put:
  assumes "GetConsumerSessionInstanceFromEndpoint n newId eps e p = (Inr (i, pe), p')" and "wf_map (Sessions p)" and "mget (Sessions p) newId = None"
  shows "wf_map (mput i v (Sessions p')) \<and> (\<forall>k. mget (Sessions p) k = None \<longrightarrow> k \<noteq> newId \<longrightarrow> mget (mput i v (Sessions p')) k = None)
    \<and> (\<forall>k u. mget (Sessions p) k = Some u \<longrightarrow> scs_locked u \<longrightarrow> mget (mput i v (Sessions p')) k = Some u)
    \<and> (\<forall>u. mget (Sessions p) i = Some u \<longrightarrow> \<not> scs_locked u) \<and> scs_locked (the (mget (Sessions p') i))"
proof -
  note op = instance_opened [OF assms]
  then obtain s where s: "mget (Sessions p') i = Some s" "scs_locked s" by blast
  have "mget (mput i v (Sessions p')) k = None" if "mget (Sessions p) k = None" "k \<noteq> newId" for k
    using op that s by (cases "k = i") auto
  moreover have "mget (mput i v (Sessions p')) k = Some u" if "mget (Sessions p) k = Some u" "scs_locked u" for k u
    using op that by (cases "k = i") auto
  ultimately show ?thesis using op s by auto
qed

lemma open_answers:
  assumes ok: "csm_ok (t_csm t)" and e: "e \<in> set (cs_Endpoints (providers (t_csm t) (SessionsWithProvider swp)))" "IsDirectRPC (endpoints (t_csm t) e)"
  shows "\<exists>took t'. open_session env req a swp e t = Some (took, t') \<and> turn_ok env t t' \<and> t_up t' = t_up t
    \<and> (if took then \<exists>ts. t_taken t' = mput a ts (t_taken t) else t_taken t' = t_taken t)"
proof -
  let ?r = "SessionsWithProvider swp" let ?p = "providers (t_csm t) ?r"
  obtain res p where g: "GetConsumerSessionInstanceFromEndpoint (maxSessions env) (ids env (drawn t)) (endpoints (t_csm t)) e ?p = (res, p)" by fastforce
  then have addr: "PublicLavaAddress p = PublicLavaAddress ?p" using instance_address by (metis snd_conv)
  note op = instance_opened [OF g]
  let ?t = "(put_provider ?r p t)\<lparr>drawn := Suc (drawn t)\<rparr>"
  show ?thesis
  proof (cases res)
    case (Inl err)
    then have "err = MaximumNumberOfSessionsExceeded" using g e
      by (auto simp: GetConsumerSessionInstanceFromEndpoint_def split: if_splits prod.splits option.splits)
    moreover have "turn_ok env t (set_aside a ?t)"
      using addr op by (intro turn_ok_put [OF ok, where q = p and r = ?r and a = a]) (simp_all add: set_aside_def put_provider_def)
    ultimately have "open_session env req a swp e t = Some (False, set_aside a ?t)" "turn_ok env t (set_aside a ?t)"
      using g Inl by (simp_all add: open_session_def Let_def)
    then show ?thesis by (auto simp: set_aside_def put_provider_def)
  next
    case (Inr ie)
    obtain i pe where ie: "ie = (i, pe)" by fastforce
    note op = opened_put [OF g [unfolded Inr ie]]
    show ?thesis
    proof (cases "addUsedComputeUnits (req_cu req) (req_virtualEpoch req) p")
      case None
      let ?q = "put_session i (scs_Free (the (mget (Sessions p) i))) p"
      have "turn_ok env t (set_aside a (put_provider ?r ?q ?t))"
        using addr op by (intro turn_ok_put [OF ok, where q = ?q and r = ?r and a = a]) (simp_all add: set_aside_def put_provider_def put_session_def)
      then have "open_session env req a swp e t = Some (False, set_aside a (put_provider ?r ?q ?t))" "turn_ok env t (set_aside a (put_provider ?r ?q ?t))"
        using g Inr ie None by (simp_all add: open_session_def Let_def)
      then show ?thesis by (auto simp: set_aside_def put_provider_def)
    next
      case (Some p')
      let ?q = "put_session i (SetUsageForSession (req_cu req) (NewRouterKey (req_exts req)) (the (mget (Sessions p) i))) p'"
      let ?ts = "\<lparr>ts_Provider = ?r, ts_Session = i, ts_StakeSize = stakeSize ?q, ts_Epoch = pe, ts_Reported = GetReportedProviders (swp_CurrentEpoch swp) (t_csm t)\<rparr>"
      let ?u = "(set_aside a (put_provider ?r ?q ?t))\<lparr>t_taken := mput a ?ts (t_taken t)\<rparr>"
      have p': "Sessions p' = Sessions p" "PublicLavaAddress p' = PublicLavaAddress p" using Some by (auto simp: addUsedComputeUnits_def split: if_splits)
      have "turn_ok env t ?u"
        using addr op p' by (intro turn_ok_put [OF ok, where q = ?q and r = ?r and a = a])
          (simp_all add: set_aside_def put_provider_def put_session_def SetUsageForSession_def)
      then have "open_session env req a swp e t = Some (True, ?u)" "turn_ok env t ?u"
        using g Inr ie Some by (simp_all add: open_session_def Let_def) (simp add: set_aside_def put_provider_def)
      then show ?thesis by (auto simp: set_aside_def put_provider_def)
    qed
  qed
qed

lemma turn_answers:
  assumes ok: "csm_ok (t_csm t)"
  shows "\<exists>took t'. session_turn env req path a swp t = Some (took, t') \<and> turn_ok env t t'
    \<and> (if took then \<exists>ts. t_taken t' = mput a ts (t_taken t) else t_taken t' = t_taken t)"
proof -
  let ?c = "t_csm t" let ?mode = "if lastChance swp then endpointPickLendDisabled else endpointPickSkipDisabled"
  let ?p = "providers ?c (SessionsWithProvider swp)"
  obtain picked out' eps where f: "fetchEndpointConnectionFromConsumerSessionWithProvider ?mode False (req_addon req) (req_exts req) path ?p (endpoints ?c) = (picked, out', eps)"
    by (metis prod_cases3)
  have "?mode \<noteq> endpointPickReconnectDisabled" by simp
  from fetch_one [OF this f] have eps: "eps = endpoints ?c"
    and picked: "picked = [] \<or> (\<exists>e\<in>set (cs_Endpoints ?p). picked = [e] \<and> IsDirectRPC (eps e))" by auto
  have t: "t\<lparr>t_csm := ?c\<lparr>endpoints := eps\<rparr>\<rparr> = t" by (simp add: eps)
  have out_ok: "turn_ok env t (all_out env a swp t)"
    using block_ok [OF ok] block_same by (simp add: turn_ok_def all_out_def set_aside_def takes_free_same)
  have aside: "turn_ok env t (set_aside a t)" by (rule turn_ok_aside [OF ok])
  consider "out'" | "\<not> out'" "picked = []" | e where "\<not> out'" "picked = [e]" "e \<in> set (cs_Endpoints ?p)" "IsDirectRPC (eps e)" using picked by blast
  then show ?thesis
  proof cases
    case 1
    then have "session_turn env req path a swp t = Some (False, all_out env a swp t)" by (simp add: session_turn_def Let_def f t)
    moreover have "t_taken (all_out env a swp t) = t_taken t" by (simp add: all_out_def set_aside_def)
    ultimately show ?thesis using out_ok by auto
  next
    case 2
    then have "session_turn env req path a swp t = Some (False, set_aside a t)" by (simp add: session_turn_def Let_def f t)
    then show ?thesis using aside by (auto simp: set_aside_def)
  next
    case 3
    show ?thesis
    proof (cases "lend_once swp (eps e) (t_up t)")
      case None
      then have "session_turn env req path a swp t = Some (False, set_aside a t)" using 3 by (simp add: session_turn_def Let_def f t)
      then show ?thesis using aside by (auto simp: set_aside_def)
    next
      case (Some up)
      have "session_turn env req path a swp t = open_session env req a swp e (t\<lparr>t_up := up\<rparr>)" using 3 Some by (simp add: session_turn_def Let_def f t)
      moreover obtain took t' where "open_session env req a swp e (t\<lparr>t_up := up\<rparr>) = Some (took, t')" "turn_ok env (t\<lparr>t_up := up\<rparr>) t'"
          "if took then \<exists>ts. t_taken t' = mput a ts (t_taken t) else t_taken t' = t_taken t"
        using open_answers [of "t\<lparr>t_up := up\<rparr>" e swp env req a] ok 3 eps by (auto cong: if_cong)
      moreover have "turn_ok env t t' \<longleftrightarrow> turn_ok env (t\<lparr>t_up := up\<rparr>) t'" for t' by (simp add: turn_ok_def takes_free_def)
      ultimately show ?thesis by auto
    qed
  qed
qed

text \<open>A step of the loops never loses a session that was taken, and takes only sessions of the addresses it walks.\<close>

lemma turns_answer:
  assumes "csm_ok (t_csm t)"
  shows "\<exists>b t'. session_turns env req path w found t = Some (b, t') \<and> turn_ok env t t' \<and> (b \<longrightarrow> t_taken t' \<noteq> [])
    \<and> (\<forall>a. mget (t_taken t') a \<noteq> None \<longrightarrow> mget (t_taken t) a \<noteq> None \<or> (\<exists>swp. (a, swp) \<in> set found))"
  using assms
proof (induction found arbitrary: t)
  case Nil
  then have "turn_ok env t t" by (simp add: turn_ok_def takes_free_same)
  then show ?case by auto
next
  case (Cons x found)
  obtain a swp where x: "x = (a, swp)" by fastforce
  obtain took t1 where one: "session_turn env req path a swp t = Some (took, t1)" "turn_ok env t t1"
      "if took then \<exists>ts. t_taken t1 = mput a ts (t_taken t) else t_taken t1 = t_taken t"
    using turn_answers [OF Cons.prems, of env req path a swp] by blast
  then have taken: "mget (t_taken t1) y \<noteq> None \<Longrightarrow> mget (t_taken t) y \<noteq> None \<or> y = a" for y
    by (auto split: if_splits)
  show ?case
  proof (cases "took \<and> length (t_taken t1) = w")
    case True
    then have "t_taken t1 \<noteq> []" using one(3) by (metis mput_ne)
    then show ?thesis using True one(1,2) x taken by auto
  next
    case False
    have "csm_ok (t_csm t1)" using one(2) by (simp add: turn_ok_def)
    from Cons.IH [OF this] obtain b t2 where "session_turns env req path w found t1 = Some (b, t2)" "turn_ok env t1 t2" "b \<longrightarrow> t_taken t2 \<noteq> []"
      "\<forall>y. mget (t_taken t2) y \<noteq> None \<longrightarrow> mget (t_taken t1) y \<noteq> None \<or> (\<exists>s. (y, s) \<in> set found)" by blast
    moreover have "session_turns env req path w (x # found) t = session_turns env req path w found t1" using False one(1) x by auto
    moreover have "mget (t_taken t) y \<noteq> None \<or> (\<exists>s. (y, s) \<in> set (x # found))"
      if "mget (t_taken t2) y \<noteq> None" for y
      using \<open>\<forall>y. mget (t_taken t2) y \<noteq> None \<longrightarrow> mget (t_taken t1) y \<noteq> None \<or> (\<exists>s. (y, s) \<in> set found)\<close> that taken [of y] x by fastforce
    ultimately show ?thesis using turn_ok_trans [OF one(2)] by metis
  qed
qed


section \<open>GetSessions is answered\<close>

text \<open>How many times a request can still be handed a provider.\<close>

definition left_over :: "csm \<Rightarrow> ignoredProviders \<Rightarrow> nat" where
  "left_over c ip = card (roster c - fset (ign_providers ip)) + card (roster c - fset (triedByThisRequest ip))"

lemma further_less:
  assumes "further c ip ip'" and "grows ip ip'"
  shows "left_over c ip' < left_over c ip"
proof -
  have mono: "roster c - fset (ign_providers ip') \<subseteq> roster c - fset (ign_providers ip)"
    "roster c - fset (triedByThisRequest ip') \<subseteq> roster c - fset (triedByThisRequest ip)"
    using assms(2) by (auto simp: grows_def)
  then have le: "card (roster c - fset (ign_providers ip')) \<le> card (roster c - fset (ign_providers ip))"
    "card (roster c - fset (triedByThisRequest ip')) \<le> card (roster c - fset (triedByThisRequest ip))"
    by (simp_all add: card_mono)
  from assms(1) consider
      "roster c - fset (ign_providers ip') \<subset> roster c - fset (ign_providers ip)"
    | "roster c - fset (triedByThisRequest ip') \<subset> roster c - fset (triedByThisRequest ip)"
    unfolding further_def using mono by blast
  then show ?thesis
  proof cases
    case 1
    then have "card (roster c - fset (ign_providers ip')) < card (roster c - fset (ign_providers ip))" by (intro psubset_card_mono) simp_all
    then show ?thesis using le by (simp add: left_over_def)
  next
    case 2
    then have "card (roster c - fset (triedByThisRequest ip')) < card (roster c - fset (triedByThisRequest ip))" by (intro psubset_card_mono) simp_all
    then show ?thesis using le by (simp add: left_over_def)
  qed
qed

lemma grows_left: "grows ip ip' \<Longrightarrow> left_over c ip' \<le> left_over c ip"
  unfolding left_over_def by (intro add_mono card_mono) (auto simp: grows_def)

lemma same_left: "same_roster c d \<Longrightarrow> left_over d ip = left_over c ip"
  by (simp add: left_over_def same_roster_eq)

text \<open>What a request may be handed: with a pin, and without the router's own preference, only the pinned provider.\<close>

definition may_get :: "select_request \<Rightarrow> string \<Rightarrow> string \<Rightarrow> bool" where
  "may_get req preferred a \<longleftrightarrow> (req_selected req \<noteq> '''' \<and> req_minGroups req \<le> 1 \<and> preferred = '''' \<longrightarrow> EqualFold a (req_selected req))"

definition only_pin :: "select_request \<Rightarrow> string \<Rightarrow> (string, 'a) gomap \<Rightarrow> bool" where
  "only_pin req preferred m \<longleftrightarrow> (\<forall>a. mget m a \<noteq> None \<longrightarrow> may_get req preferred a)"

lemma cascade_found:
  assumes opt: "\<And>k. upstream_choice (opt env k)" and ok: "csm_ok c" and ep: "in_epoch c ip"
  obtains res ip' c' k' up' where "getSessionWithProviderOrError env k w req ip up c = Some ((res, ip', c', k'), up')"
    "stage_ok ip c (found_of res) ip' c'" "\<And>f. res = Inr f \<Longrightarrow> only_pin req (preferredProvider ip) f"
proof -
  obtain res ip' c' k' up' where r: "getSessionWithProviderOrError env k w req ip up c = Some ((res, ip', c', k'), up')"
    "stage_ok ip c (found_of res) ip' c'" using cascade_answers [OF opt ok ep, of k w req up] by blast
  moreover have "only_pin req (preferredProvider ip) f" if "res = Inr f" for f
    using cascade_pinned [OF opt ok ep _ _ _ r(1) [unfolded that]] by (auto simp: only_pin_def may_get_def)
  ultimately show thesis using that by blast
qed

lemma key_found: "(a, s) \<in> set m \<Longrightarrow> mget m a \<noteq> None"
  by (induction m) auto

lemma loop_answers:
  assumes opt: "\<And>k. upstream_choice (opt (life_sel env) k)"
    and "csm_ok (t_csm t)" and "in_epoch (t_csm t) (t_ip t)" and "only_pin req pref found" and "only_pin req pref (t_taken t)"
    and "pref = preferredProvider (t_ip t)"
  shows "\<exists>res t'. session_loop env k req path w found t = Some (res, t') \<and> turn_ok env t t' \<and> only_pin req pref (t_taken t')
    \<and> (\<forall>m. res = Inr m \<longrightarrow> m = t_taken t' \<and> m \<noteq> [])"
  using assms(2-)
proof (induction "left_over (t_csm t) (t_ip t)" arbitrary: k found t rule: less_induct)
  case less
  obtain b t1 where turns: "session_turns env req path w found t = Some (b, t1)" "turn_ok env t t1" "b \<longrightarrow> t_taken t1 \<noteq> []"
      "\<forall>a. mget (t_taken t1) a \<noteq> None \<longrightarrow> mget (t_taken t) a \<noteq> None \<or> (\<exists>swp. (a, swp) \<in> set found)"
    using turns_answer [OF less.prems(1), of env req path w found] by blast
  have pin1: "only_pin req pref (t_taken t1)"
    unfolding only_pin_def
  proof (intro allI impI)
    fix a
    assume "mget (t_taken t1) a \<noteq> None"
    with turns(4) consider "mget (t_taken t) a \<noteq> None" | swp where "(a, swp) \<in> set found" by blast
    then show "may_get req pref a" by cases (use less.prems(3,4) key_found [of a _ found] in \<open>auto simp: only_pin_def\<close>)
  qed
  have 1: "csm_ok (t_csm t1)" "same_roster (t_csm t) (t_csm t1)" "grows (t_ip t) (t_ip t1)" using turns(2) by (simp_all add: turn_ok_def)
  then have ep1: "in_epoch (t_csm t1) (t_ip t1)" and pref1: "pref = preferredProvider (t_ip t1)"
    using less.prems(2,5) in_epoch_keeps by (auto simp: grows_def)
  show ?case
  proof (cases b)
    case True
    then have "session_loop env k req path w found t = Some (Inr (t_taken t1), t1)" by (subst session_loop.simps) (simp add: turns(1))
    then show ?thesis using True turns(2,3) pin1 by simp
  next
    case False
    obtain res ip c k' up where casc: "getSessionWithProviderOrError (life_sel env) k 1 req (t_ip t1) (t_up t1) (t_csm t1) = Some ((res, ip, c, k'), up)"
        "stage_ok (t_ip t1) (t_csm t1) (found_of res) ip c" "\<And>f. res = Inr f \<Longrightarrow> only_pin req (preferredProvider (t_ip t1)) f"
      using cascade_found [OF opt 1(1) ep1, of k 1 req "t_up t1"] by blast
    let ?t = "t1\<lparr>t_ip := ip, t_up := up, t_csm := c\<rparr>"
    have loop: "session_loop env k req path w found t =
        (case res of Inl e \<Rightarrow> Some (if t_taken t1 \<noteq> [] then Inr (t_taken t1) else Inl e, ?t) | Inr f \<Rightarrow> session_loop env k' req path w f ?t)"
      using False by (subst session_loop.simps) (simp add: turns(1) casc(1) Let_def split: sum.split)
    have t: "turn_ok env t1 ?t" using casc(2) by (simp add: turn_ok_def stage_ok_def takes_free_same)
    show ?thesis
    proof (cases res)
      case (Inl e)
      then show ?thesis using loop turn_ok_trans [OF turns(2) t] pin1 by simp
    next
      case (Inr f)
      have g: "grows (t_ip t1) ip" "further (t_csm t1) (t_ip t1) ip" "csm_ok c" "same_roster (t_csm t1) c" using casc(2) Inr by (simp_all add: stage_ok_def)
      have "left_over c ip < left_over (t_csm t) (t_ip t)"
        using further_less [OF g(2,1)] same_left [OF g(4)] same_left [OF 1(2)] grows_left [OF 1(3), of "t_csm t"] by simp
      moreover have "in_epoch c ip" using in_epoch_keeps [OF ep1 g(4,1)] .
      moreover have "pref = preferredProvider ip" using pref1 g(1) by (simp add: grows_def)
      ultimately obtain res' t' where "session_loop env k' req path w f ?t = Some (res', t')" "turn_ok env ?t t'" "only_pin req pref (t_taken t')"
          "\<forall>m. res' = Inr m \<longrightarrow> m = t_taken t' \<and> m \<noteq> []"
        using less.hyps [of ?t f k'] g(3) casc(3) [OF Inr] pin1 pref1 by auto
      then show ?thesis using loop Inr turn_ok_trans [OF turns(2) turn_ok_trans [OF t]] by auto
    qed
  qed
qed

definition exclusive :: "life_env \<Rightarrow> csm \<Rightarrow> taken_map \<Rightarrow> csm \<Rightarrow> bool" where
  "exclusive env c taken c' \<longleftrightarrow>
     (inj (ids env) \<and> sessions_ok c \<and> ids_free env 0 c \<longrightarrow>
        keeps_held c c' \<and> (\<forall>a ts. mget taken a = Some ts \<longrightarrow> \<not> held c (ts_Provider ts) (ts_Session ts) \<and> held c' (ts_Provider ts) (ts_Session ts)))"

lemma locked_answers:
  assumes opt: "\<And>k. upstream_choice (opt (life_sel env) k)" and ok: "csm_ok c"
  shows "\<exists>res t. locked_sessions env w req preferred path up c = Some (res, t) \<and> csm_ok (t_csm t)
    \<and> (\<forall>m. res = Inr m \<longrightarrow> m \<noteq> [] \<and> exclusive env c m (t_csm t)
         \<and> only_pin req (if req_selected req = '''' \<and> req_stickiness req = '''' then preferred else '''') m)"
proof -
  obtain unwanted up1 where u: "GetUnwantedProvidersToSend (NewRouterKey (req_exts req)) up = (unwanted, up1)" by fastforce
  define d where "d = snd (cacheAddonAddresses (req_addon req) (req_exts req) c)"
  define pref where "pref = (if req_selected req = '''' \<and> req_stickiness req = '''' then preferred else '''')"
  define ip where "ip = \<lparr>ign_providers = unwanted, triedByThisRequest = unwanted, ign_currentEpoch = currentEpoch d, preferredProvider = pref\<rparr>"
  have ok1: "csm_ok d" and ep: "in_epoch d ip" using cache_ok [OF ok] by (simp_all add: d_def ip_def in_epoch_def)
  obtain res ip' c' k' up' where casc: "getSessionWithProviderOrError (life_sel env) 0 w req ip up1 d = Some ((res, ip', c', k'), up')"
      "stage_ok ip d (found_of res) ip' c'" "\<And>f. res = Inr f \<Longrightarrow> only_pin req (preferredProvider ip) f"
    using cascade_found [OF opt ok1 ep, of 0 w req up1] by blast
  let ?t = "\<lparr>drawn = 0, t_ip = ip', t_up = up', t_csm = c', t_taken = []\<rparr>"
  have eq: "locked_sessions env w req preferred path up c =
      (case res of Inl e \<Rightarrow> Some (Inl e, ?t) | Inr f \<Rightarrow> session_loop env k' req path (length f) f ?t)"
    using u casc(1) by (simp add: locked_sessions_def Let_def d_def ip_def pref_def)
  have c': "csm_ok c'" "in_epoch c' ip'" "pref = preferredProvider ip'" using casc(2) stage_ok_epoch [OF casc(2) ep] by (simp_all add: stage_ok_def grows_def ip_def)
  show ?thesis
  proof (cases res)
    case (Inl e)
    then show ?thesis using eq c' by simp
  next
    case (Inr f)
    have f: "only_pin req pref f" "only_pin req pref ([] :: taken_map)" using casc(3) [OF Inr] by (simp_all add: ip_def only_pin_def)
    obtain res' t' where "session_loop env k' req path (length f) f ?t = Some (res', t')" "turn_ok env ?t t'" "only_pin req pref (t_taken t')"
        "\<forall>m. res' = Inr m \<longrightarrow> m = t_taken t' \<and> m \<noteq> []"
      using loop_answers [OF opt, of ?t req pref f k' path "length f"] c' f by auto
    moreover have "same_sessions c c'" using casc(2) cache_same(2) same_sessions_trans unfolding stage_ok_def d_def by blast
    ultimately have "locked_sessions env w req preferred path up c = Some (res', t')" "csm_ok (t_csm t')"
      "\<forall>m. res' = Inr m \<longrightarrow> m \<noteq> [] \<and> exclusive env c m (t_csm t') \<and> only_pin req pref m"
      using eq Inr same_sessions_held [of c c'] same_sessions_map [of c c']
      by (auto simp: turn_ok_def exclusive_def takes_free_def held_def intro: keeps_held_trans)
    then show ?thesis unfolding pref_def by blast
  qed
qed

lemma used_loop: "\<exists>up'. add_used_loop now (used_sessions req taken) up = Some up'"
  by (induction taken arbitrary: up) (auto simp: used_sessions_def)

lemma add_used_answers: "\<exists>up'. AddUsed now (used_sessions req taken) err up = Some up'" "\<exists>up'. AddUsed now [] err up = Some up'"
  using used_loop [of now req taken "up\<lparr>sessionsLatestBatch := 0\<rparr>"] by (auto simp: AddUsed_def)


text \<open>The call as a whole.\<close>

lemma sessions_answer:
  assumes opt: "\<And>k. upstream_choice (opt (life_sel env) k)" and ok: "csm_ok c"
    and sticky: "\<And>resolve req' d out' key d'. resolveSticky env = Some resolve \<Longrightarrow> csm_ok d \<Longrightarrow> resolve req' d = (out', key, d') \<Longrightarrow> csm_ok d'"
  shows "\<exists>res up' c'. GetSessions env w req opts lock up c = Some (res, up', c') \<and> (\<forall>taken. res = Inr taken \<longrightarrow> taken \<noteq> []
    \<and> (resolveSticky env = None \<longrightarrow> exclusive env c taken c'
         \<and> (req_selected (resolved_request opts req) \<noteq> '''' \<longrightarrow> only_pin (resolved_request opts req) '''' taken)))"
proof -
  let ?req = "resolved_request opts req"
  obtain rr key d where rc: "resolve_claim env ?req c = (rr, key, d)" by (metis prod_cases3)
  then have okd: "csm_ok d" using sticky [OF _ ok] ok by (auto simp: resolve_claim_def split: option.splits if_splits prod.splits sum.splits)
  show ?thesis
  proof (cases rr)
    case (Inl e)
    then show ?thesis using rc by (simp add: GetSessions_def)
  next
    case (Inr r)
    have same: "resolveSticky env = None \<Longrightarrow> r = ?req \<and> d = c \<and> key = None" using rc Inr by (auto simp: resolve_claim_def)
    show ?thesis
    proof (cases "lock up")
      case ContextDoneNoNeedToLockSelectionError
      then show ?thesis using rc Inr by (simp add: GetSessions_def)
    next
      case (Locked up1)
      obtain res t where l: "locked_sessions env w r (case opts of Some x \<Rightarrow> opt_PreferredProvider x | None \<Rightarrow> '''')
                       (case opts of Some x \<Rightarrow> opt_InternalPath x | None \<Rightarrow> None) up1 d = Some (res, t)"
          "\<forall>m. res = Inr m \<longrightarrow> m \<noteq> [] \<and> exclusive env d m (t_csm t) \<and> only_pin r (if req_selected r = '''' \<and> req_stickiness r = ''''
             then (case opts of Some x \<Rightarrow> opt_PreferredProvider x | None \<Rightarrow> '''') else '''') m"
        using locked_answers [OF opt okd, of w r _ _ up1] by blast
      obtain up2 where "AddUsed (takenAt env) (case res of Inr taken \<Rightarrow> used_sessions r taken | Inl _ \<Rightarrow> [])
                            (case res of Inr _ \<Rightarrow> None | Inl _ \<Rightarrow> Some (ErrNew '''')) (t_up t) = Some up2"
        using add_used_answers by (cases res) (simp only: sum.case, blast)+
      then have eq: "GetSessions env w req opts lock up c = Some (case res of Inr taken \<Rightarrow> Inr taken | Inl e \<Rightarrow> Inl (SelectFailed e), up2,
            case key of Some key \<Rightarrow> if req_selected r \<noteq> '''' \<and> res = Inl SelectedProviderUnavailable then invalidateStickyPin key (t_csm t) else t_csm t
               | None \<Rightarrow> t_csm t)"
        using rc Inr Locked l(1) by (simp add: GetSessions_def)
      show ?thesis using l(2) same by (cases res) (auto simp: eq)
    qed
  qed
qed

text \<open>C18. A request for sessions is always answered. In every reachable state of the session manager without a shared sticky
  registry, with an optimizer that has a report for every provider and any draws,
  ignored, held-off, blocked or busy providers, pins, groups and internal paths, \<open>GetSessions\<close> returns: the loop over providers ends
  although the cascade may hand out providers that cannot be used, none of its fatal exits is met, and it returns an error
  or at least one session.\<close>

theorem get_sessions_always_answers:
  assumes "csm_reachable c"
    and "opt (life_sel env) = (\<lambda>k i. ChooseUpstream mode scoring (\<lambda>a. Some (qos a)) stakes (draws k i))" and "resolveSticky env = None"
  shows "\<exists>res up' c'. GetSessions env wanted req opts lock up c = Some (res, up', c') \<and> (\<forall>taken. res = Inr taken \<longrightarrow> taken \<noteq> [])"
  using sessions_answer [OF model_optimizer [OF assms(2)] csm_reachable_ok [OF assms(1)], of wanted req opts lock up] assms(3) by fastforce

text \<open>C21. A session is handed to one request at a time. Whatever \<open>GetSessions\<close> returns was not held by any request before the call and
  is held after it, and every session that was held is left exactly as it was, its booked compute units included. The random ids
  of new sessions are assumed not to repeat.\<close>

theorem sessions_are_exclusive:
  assumes "csm_reachable c"
    and "opt (life_sel env) = (\<lambda>k i. ChooseUpstream mode scoring (\<lambda>a. Some (qos a)) stakes (draws k i))" and "resolveSticky env = None"
    and "inj (ids env)" and "\<forall>r. wf_map (Sessions (providers c r))" and "\<forall>n r. mget (Sessions (providers c r)) (ids env n) = None"
    and "GetSessions env wanted req opts lock up c = Some (Inr taken, up', c')"
  shows "(\<forall>a ts. mget taken a = Some ts \<longrightarrow> \<not> held c (ts_Provider ts) (ts_Session ts) \<and> held c' (ts_Provider ts) (ts_Session ts))
    \<and> (\<forall>r i s. mget (Sessions (providers c r)) i = Some s \<longrightarrow> scs_locked s \<longrightarrow> mget (Sessions (providers c' r)) i = Some s)"
proof -
  have "exclusive env c taken c'"
    using sessions_answer [OF model_optimizer [OF assms(2)] csm_reachable_ok [OF assms(1)], of wanted req opts lock up] assms(3,7) by fastforce
  then show ?thesis using assms(4-6) by (simp add: exclusive_def sessions_ok_def ids_free_def keeps_held_def)
qed

text \<open>C19. A request pinned to a provider is never served by another one. When the client names a provider, no group diversity
  is asked for (at most one group; with more the pin is dropped on purpose) and the router has no shared sticky registry (and the optimizer a report for every
  provider), every session \<open>GetSessions\<close> returns belongs to an address equal to that name up to case: not the router's own preference,
  a backup, a replacement for a provider without room, or one lent from the blocked list.\<close>

theorem pinned_never_substituted:
  assumes "csm_reachable c"
    and "opt (life_sel env) = (\<lambda>k i. ChooseUpstream mode scoring (\<lambda>a. Some (qos a)) stakes (draws k i))" and "resolveSticky env = None"
    and "req_selected req \<noteq> ''''" and "\<forall>x. opts = Some x \<longrightarrow> opt_MinGroups x \<le> 1"
    and "GetSessions env wanted req opts lock up c = Some (Inr taken, up', c')" and "mget taken a \<noteq> None"
  shows "EqualFold a (req_selected req)"
proof -
  have req: "req_selected (resolved_request opts req) = req_selected req" "req_minGroups (resolved_request opts req) \<le> 1"
    using assms(5) by (auto simp: resolved_request_def Let_def split: option.split)
  have "only_pin (resolved_request opts req) '''' taken"
    using sessions_answer [OF model_optimizer [OF assms(2)] csm_reachable_ok [OF assms(1)], of wanted req opts lock up] assms(3,4,6) req(1) by fastforce
  then show ?thesis using assms(4,7) req by (simp add: only_pin_def may_get_def)
qed


section \<open>The books of compute units\<close>

text \<open>
  The steps of a provider's sessions, in any order and from any request: a session is opened on an endpoint, the opener books
  its compute units or is refused and frees the session, and a held session is given back by one of the releases. A session that
  is being opened is known to its opener only. Compute units stay below \<open>2 ^ 64\<close>.
\<close>

definition book :: "int64 \<Rightarrow> 64 word \<Rightarrow> 64 word \<Rightarrow> RouterKey \<Rightarrow> cswp \<Rightarrow> cswp" where
  "book i cu ve key p =
     (case mget (Sessions p) i of
        None \<Rightarrow> p
      | Some s \<Rightarrow>
          (case addUsedComputeUnits cu ve p of
             None \<Rightarrow> put_session i (scs_Free s) p
           | Some p \<Rightarrow> put_session i (SetUsageForSession cu key s) p))"

definition being_opened :: "SingleConsumerSession \<Rightarrow> bool" where
  "being_opened s \<longleftrightarrow> scs_locked s \<and> \<not> scs_inUse s"

definition settled :: "cswp \<Rightarrow> int64 \<Rightarrow> bool" where
  "settled p i \<longleftrightarrow> (\<forall>s. mget (Sessions p) i = Some s \<longrightarrow> \<not> being_opened s)"

inductive session_reachable :: "cswp \<Rightarrow> bool" where
  new: "Sessions p = [] \<Longrightarrow> UsedComputeUnits p = 0 \<Longrightarrow> session_reachable p"
| opened: "session_reachable p \<Longrightarrow> mget (Sessions p) i = None \<Longrightarrow>
    session_reachable (snd (GetConsumerSessionInstanceFromEndpoint n i eps e p))"
| booking: "session_reachable p \<Longrightarrow> mget (Sessions p) i = Some s \<Longrightarrow> being_opened s \<Longrightarrow> unat (UsedComputeUnits p) + unat cu < 2 ^ 64 \<Longrightarrow>
    session_reachable (book i cu ve key p)"
| without_penalty: "session_reachable p \<Longrightarrow> settled p i \<Longrightarrow> session_reachable (fst (snd (releaseWithoutPenalty env i reason p up)))"
| failed: "session_reachable p \<Longrightarrow> settled p i \<Longrightarrow> session_reachable (fst (snd (release_failed env i err p up)))"
| served: "session_reachable p \<Longrightarrow> settled p i \<Longrightarrow> session_reachable (fst (snd (OnSessionDoneIncreaseCUOnly env i block p up)))"
| status: "session_reachable p \<Longrightarrow> session_reachable (p\<lparr>blockedAndUsed := b\<rparr>)"

text \<open>A session in use is locked, a locked one is not blocked, and only one in use holds units of a running request.\<close>

definition session_ok :: "SingleConsumerSession \<Rightarrow> bool" where
  "session_ok s \<longleftrightarrow> (scs_inUse s \<longrightarrow> scs_locked s) \<and> (scs_locked s \<longrightarrow> \<not> BlockListed s) \<and> (\<not> scs_inUse s \<longrightarrow> LatestRelayCu s = 0)"

definition units :: "SingleConsumerSession \<Rightarrow> nat" where
  "units s = unat (CuSum s) + unat (LatestRelayCu s)"

definition all_units :: "(int64, SingleConsumerSession) gomap \<Rightarrow> nat" where
  "all_units m = sum_list (map (\<lambda>kv. units (snd kv)) m)"

definition balanced :: "cswp \<Rightarrow> bool" where
  "balanced p \<longleftrightarrow> wf_map (Sessions p) \<and> (\<forall>i s. mget (Sessions p) i = Some s \<longrightarrow> session_ok s) \<and> unat (UsedComputeUnits p) = all_units (Sessions p)"

lemma all_units_put_new: "mget m i = None \<Longrightarrow> all_units (mput i s m) = all_units m + units s"
  by (induction m) (auto simp: all_units_def split: if_splits)

lemma all_units_put: "mget m i = Some s \<Longrightarrow> all_units (mput i s' m) + units s = all_units m + units s'"
  by (induction m) (auto simp: all_units_def split: if_splits)

lemma try_sessions_cons:
  assumes "try_sessions e ((i, s) # m) = (r, m')"
  obtains z zs where "m' = (i, z) # zs" "z = s \<or> z = snd (snd (TryUseSession s))" "zs = m \<or> zs = snd (try_sessions e m)"
proof -
  obtain r1 m1 where rec: "try_sessions e m = (r1, m1)" by fastforce
  obtain b ok s' where tu: "TryUseSession s = (b, ok, s')" by (metis prod_cases3)
  have "m' = (i, s) # m1 \<or> m' = (i, s') # m \<or> m' = (i, s') # m1"
    using assms rec tu by (cases "scs_Endpoint s = e"; cases ok) simp_all
  then show thesis using that rec tu by auto
qed

lemma used_session_keeps:
  "units (snd (snd (TryUseSession s))) = units s" "session_ok s \<Longrightarrow> session_ok (snd (snd (TryUseSession s)))"
  by (simp_all add: TryUseSession_def units_def session_ok_def)

lemma try_sessions_keeps:
  "map fst (snd (try_sessions e m)) = map fst m" "all_units (snd (try_sessions e m)) = all_units m"
  "\<forall>kv\<in>set m. session_ok (snd kv) \<Longrightarrow> \<forall>kv\<in>set (snd (try_sessions e m)). session_ok (snd kv)"
proof (induction m)
  case (Cons x m)
  obtain i s where x: "x = (i, s)" by fastforce
  obtain r m' where t: "try_sessions e ((i, s) # m) = (r, m')" by fastforce
  from try_sessions_cons [OF t] obtain z zs where m': "m' = (i, z) # zs" "z = s \<or> z = snd (snd (TryUseSession s))" "zs = m \<or> zs = snd (try_sessions e m)" .
  have zs: "map fst zs = map fst m" "all_units zs = all_units m" using m'(3) Cons.IH(1,2) by auto
  have "units z = units s" using m'(2) used_session_keeps(1) by auto
  then show "map fst (snd (try_sessions e (x # m))) = map fst (x # m)" "all_units (snd (try_sessions e (x # m))) = all_units (x # m)"
    using zs unfolding x t by (simp_all add: m'(1) all_units_def)
  assume "\<forall>kv\<in>set (x # m). session_ok (snd kv)"
  then have "session_ok z" "\<forall>kv\<in>set zs. session_ok (snd kv)" using m'(2,3) used_session_keeps(2) Cons.IH(3) by (auto simp: x)
  then show "\<forall>kv\<in>set (snd (try_sessions e (x # m))). session_ok (snd kv)" unfolding x t by (simp add: m'(1))
qed simp_all

lemma balanced_ok: "balanced p \<longleftrightarrow> wf_map (Sessions p) \<and> (\<forall>kv\<in>set (Sessions p). session_ok (snd kv)) \<and> unat (UsedComputeUnits p) = all_units (Sessions p)"
  unfolding balanced_def by (metis (no_types, lifting) mget_in prod.collapse snd_conv wf_map_in_iff)

lemma balanced_open:
  assumes "balanced p" and "mget (Sessions p) i = None"
  shows "balanced (snd (GetConsumerSessionInstanceFromEndpoint n i eps e p))"
proof -
  obtain r m where t: "try_sessions e (Sessions p) = (r, m)" by fastforce
  have keys: "map fst m = map fst (Sessions p)" "all_units m = all_units (Sessions p)" using try_sessions_keeps(1,2) [of e "Sessions p"] t by simp_all
  have m: "wf_map m" "\<forall>kv\<in>set m. session_ok (snd kv)"
    using try_sessions_keeps(3) [of "Sessions p" e] t assms(1) keys(1) by (auto simp: balanced_ok wf_map_def)
  have "mget m i = None" using assms(2) keys(1) by (metis map_of_eq_None_iff set_map)
  moreover have "session_ok (snd (snd (TryUseSession (new_session e p))))" "units (snd (snd (TryUseSession (new_session e p)))) = 0"
    by (simp_all add: TryUseSession_def new_session_def session_ok_def units_def)
  ultimately have "balanced (p\<lparr>Sessions := mput i (snd (snd (TryUseSession (new_session e p)))) m\<rparr>)"
    using m keys assms(1) all_units_put_new [of m i] by (auto simp: balanced_def wf_map_in_iff [symmetric] split: if_splits)
  moreover have "balanced (p\<lparr>Sessions := m\<rparr>)" using m keys assms(1) by (simp add: balanced_ok)
  ultimately show ?thesis using t assms(1) by (auto simp: GetConsumerSessionInstanceFromEndpoint_def split: option.split)
qed

lemma balanced_put:
  assumes "balanced p" and "mget (Sessions p) i = Some s" and "session_ok s'" and "unat u + units s = unat (UsedComputeUnits p) + units s'"
  shows "balanced (put_session i s' (p\<lparr>UsedComputeUnits := u\<rparr>))"
  using assms all_units_put [OF assms(2), of s'] by (auto simp: balanced_def put_session_def split: if_splits)


lemma units_le: "balanced p \<Longrightarrow> mget (Sessions p) i = Some s \<Longrightarrow> units s \<le> unat (UsedComputeUnits p)"
proof -
  assume b: "balanced p" and s: "mget (Sessions p) i = Some s"
  have "units s \<in> set (map (\<lambda>kv. units (snd kv)) (Sessions p))" using mget_in [OF s] by force
  then have "units s \<le> all_units (Sessions p)" unfolding all_units_def by (intro member_le_sum_list) simp_all
  then show ?thesis using b by (simp add: balanced_def)
qed

lemma give_back_balanced:
  assumes b: "balanced p" and s: "mget (Sessions p) i = Some s" and s': "session_ok s'" "CuSum s' = CuSum s" "LatestRelayCu s' = 0"
  shows "give_back (LatestRelayCu s) (put_session i s' p, up) = (None, put_session i s' (p\<lparr>UsedComputeUnits := UsedComputeUnits p - LatestRelayCu s\<rparr>), up)
    \<and> balanced (put_session i s' (p\<lparr>UsedComputeUnits := UsedComputeUnits p - LatestRelayCu s\<rparr>))"
proof
  have le: "LatestRelayCu s \<le> UsedComputeUnits p" using units_le [OF b s] by (simp add: units_def word_le_nat_alt)
  then show "give_back (LatestRelayCu s) (put_session i s' p, up) = (None, put_session i s' (p\<lparr>UsedComputeUnits := UsedComputeUnits p - LatestRelayCu s\<rparr>), up)"
    by (simp add: give_back_def decreaseUsedComputeUnits_def put_session_def not_less)
  show "balanced (put_session i s' (p\<lparr>UsedComputeUnits := UsedComputeUnits p - LatestRelayCu s\<rparr>))"
    using le s' units_le [OF b s] by (intro balanced_put [OF b s]) (simp_all add: units_def unat_sub)
qed

lemma free_ok [simp]: "LatestRelayCu s = 0 \<Longrightarrow> session_ok (scs_Free s)" "CuSum (scs_Free s) = CuSum s" "LatestRelayCu (scs_Free s) = LatestRelayCu s"
  by (simp_all add: scs_Free_def session_ok_def)

lemma freed_fst: "fst (freed env i err s (p, up)) = put_session i (scs_Free s) p"
  by (simp add: freed_def)

text \<open>A settled session is free, and then a release is refused and the session blocked, or it is in use.\<close>

lemma verify_then_settled:
  assumes "balanced p" and "settled p i"
  shows "(\<exists>e up'. verify_then env i body p up = (e, p, up') \<and> e \<noteq> Some NegativeComputeUnitsAmount \<and> e \<noteq> Some SessionIsAlreadyBlockListed)
    \<or> (\<exists>s up'. mget (Sessions p) i = Some s \<and> \<not> scs_locked s \<and> verify_then env i body p up = (Some LockMisUseDetected, put_session i (scs_Free (s\<lparr>BlockListed := True\<rparr>)) p, up')
         \<and> balanced (put_session i (scs_Free (s\<lparr>BlockListed := True\<rparr>)) p))
    \<or> (\<exists>s. mget (Sessions p) i = Some s \<and> scs_locked s \<and> scs_inUse s \<and> \<not> BlockListed s \<and> verify_then env i body p up = body s)"
proof (cases "mget (Sessions p) i")
  case None
  then show ?thesis by (auto simp: verify_then_def)
next
  case (Some s)
  then have ok: "session_ok s" "\<not> being_opened s" using assms by (auto simp: balanced_def settled_def)
  show ?thesis
  proof (cases "scs_locked s")
    case True
    then show ?thesis using Some ok by (auto simp: verify_then_def VerifyLock_def being_opened_def session_ok_def)
  next
    case False
    then have z: "LatestRelayCu s = 0" using ok(1) by (auto simp: session_ok_def)
    then have "balanced (put_session i (scs_Free (s\<lparr>BlockListed := True\<rparr>)) (p\<lparr>UsedComputeUnits := UsedComputeUnits p\<rparr>))"
      by (intro balanced_put [OF assms(1) Some]) (simp_all add: units_def)
    then show ?thesis using Some False by (auto simp: verify_then_def VerifyLock_def freed_def)
  qed
qed

definition release_ok :: "session_error option \<times> cswp \<times> UsedProviders \<Rightarrow> bool" where
  "release_ok r \<longleftrightarrow> balanced (fst (snd r)) \<and> fst r \<noteq> Some NegativeComputeUnitsAmount \<and> fst r \<noteq> Some SessionIsAlreadyBlockListed"

lemma release_frame:
  assumes "balanced p" and "settled p i"
    and "\<And>s. mget (Sessions p) i = Some s \<Longrightarrow> scs_locked s \<Longrightarrow> \<not> BlockListed s \<Longrightarrow> release_ok (body s)"
  shows "release_ok (verify_then env i body p up)"
  using verify_then_settled [OF assms(1,2), of env body up] assms(1,3) by (auto simp: release_ok_def)

lemma without_penalty_held:
  assumes "balanced p" and s: "mget (Sessions p) i = Some s" "scs_locked s"
  shows "\<exists>up'. releaseWithoutPenalty env i reason p up =
      (None, put_session i (scs_Free (s\<lparr>LatestRelayCu := 0\<rparr>)) (p\<lparr>UsedComputeUnits := UsedComputeUnits p - LatestRelayCu s\<rparr>), up')
    \<and> balanced (put_session i (scs_Free (s\<lparr>LatestRelayCu := 0\<rparr>)) (p\<lparr>UsedComputeUnits := UsedComputeUnits p - LatestRelayCu s\<rparr>))"
  using give_back_balanced [OF assms(1) s(1), of "scs_Free (s\<lparr>LatestRelayCu := 0\<rparr>)"] s
  by (simp add: releaseWithoutPenalty_def verify_then_def VerifyLock_def freed_def)

lemma without_penalty_balanced: "balanced p \<Longrightarrow> settled p i \<Longrightarrow> release_ok (releaseWithoutPenalty env i reason p up)"
  unfolding releaseWithoutPenalty_def
proof (rule release_frame)
  fix s
  assume "balanced p" and "mget (Sessions p) i = Some s"
  then show "release_ok (give_back (LatestRelayCu s) (freed env i reason (s\<lparr>LatestRelayCu := 0\<rparr>) (p, up)))"
    using give_back_balanced [of p i s "scs_Free (s\<lparr>LatestRelayCu := 0\<rparr>)"] by (simp add: freed_def release_ok_def)
qed

lemma failed_balanced: "balanced p \<Longrightarrow> settled p i \<Longrightarrow> release_ok (release_failed env i err p up)"
  unfolding release_failed_def
proof (rule release_frame)
  fix s
  assume "balanced p" and "mget (Sessions p) i = Some s" and "\<not> BlockListed s"
  moreover have "LatestRelayCu (failed_session env err s) = 0" "CuSum (failed_session env err s) = CuSum s" by (simp_all add: failed_session_def Let_def)
  ultimately show "release_ok (if BlockListed s then (Some SessionIsAlreadyBlockListed, freed env i (Some err) s (p, up))
      else give_back (LatestRelayCu s) (freed env i (Some err) (failed_session env err s) (p, up)))"
    using give_back_balanced [of p i s "scs_Free (failed_session env err s)"] by (simp add: freed_def release_ok_def)
qed

lemma served_balanced: "balanced p \<Longrightarrow> settled p i \<Longrightarrow> release_ok (OnSessionDoneIncreaseCUOnly env i block p up)"
  unfolding OnSessionDoneIncreaseCUOnly_def
proof (rule release_frame)
  fix s
  assume b: "balanced p" and s: "mget (Sessions p) i = Some s"
  have "unat (CuSum s + LatestRelayCu s) = unat (CuSum s) + unat (LatestRelayCu s)"
    using units_le [OF b s] unsigned_less [of "UsedComputeUnits p", where 'a = nat] by (intro unat_add_lem [THEN iffD1]) (simp add: units_def)
  then have "units (scs_Free (served_session block s)) = units s" by (simp add: units_def served_session_def)
  then have "balanced (put_session i (scs_Free (served_session block s)) (p\<lparr>UsedComputeUnits := UsedComputeUnits p\<rparr>))"
    by (intro balanced_put [OF b s]) (simp_all add: served_session_def)
  then show "release_ok (None, freed env i None (served_session block s) (p, up))" by (simp add: freed_def release_ok_def)
qed

lemma book_balanced:
  assumes b: "balanced p" and s: "mget (Sessions p) i = Some s" "being_opened s" and room: "unat (UsedComputeUnits p) + unat cu < 2 ^ 64"
  shows "balanced (book i cu ve key p)"
proof -
  have ok: "session_ok s" "LatestRelayCu s = 0" using b s by (auto simp: balanced_def session_ok_def being_opened_def)
  show ?thesis
  proof (cases "addUsedComputeUnits cu ve p")
    case None
    have "balanced (put_session i (scs_Free s) (p\<lparr>UsedComputeUnits := UsedComputeUnits p\<rparr>))"
      using ok by (intro balanced_put [OF b s(1)]) (simp_all add: units_def)
    then show ?thesis using None s(1) by (simp add: book_def)
  next
    case (Some p')
    then have "p' = p\<lparr>UsedComputeUnits := UsedComputeUnits p + cu\<rparr>" by (auto simp: addUsedComputeUnits_def split: if_splits)
    moreover have "unat (UsedComputeUnits p + cu) = unat (UsedComputeUnits p) + unat cu"
      using room by (intro unat_add_lem [THEN iffD1]) simp
    then have "balanced (put_session i (SetUsageForSession cu key s) (p\<lparr>UsedComputeUnits := UsedComputeUnits p + cu\<rparr>))"
      using ok s(2) by (intro balanced_put [OF b s(1)]) (simp_all add: units_def SetUsageForSession_def session_ok_def being_opened_def)
    ultimately show ?thesis using Some s(1) by (simp add: book_def)
  qed
qed

lemma reachable_balanced: "session_reachable p \<Longrightarrow> balanced p"
proof (induction rule: session_reachable.induct)
  case (new p)
  then show ?case by (simp add: balanced_def all_units_def)
next
  case (without_penalty p i env reason up)
  then show ?case using without_penalty_balanced [of p i env reason up] by (simp add: release_ok_def)
next
  case (failed p i env err up)
  then show ?case using failed_balanced [of p i env err up] by (simp add: release_ok_def)
next
  case (served p i env block up)
  then show ?case using served_balanced [of p i env block up] by (simp add: release_ok_def)
next
  case (status p b)
  then show ?case by (simp add: balanced_def)
qed (rule balanced_open book_balanced; assumption)+

text \<open>C20. The books of compute units balance. In whatever order requests open sessions, book units, are refused, and give
  sessions back as served, failed, cancelled or twice, a provider's used units are the sum over its sessions of the units served
  and the units of running requests; only a session in use holds units of a running request, no session in use is blocked, and no release
  of a session ever finds too few units to give back or a blocked session.\<close>

theorem compute_unit_books:
  assumes "session_reachable p"
  shows "unat (UsedComputeUnits p) = all_units (Sessions p) \<and> (\<forall>i s. mget (Sessions p) i = Some s \<longrightarrow> session_ok s)
    \<and> (\<forall>env i reason err block up. settled p i \<longrightarrow>
         release_ok (releaseWithoutPenalty env i reason p up) \<and> release_ok (release_failed env i err p up)
         \<and> release_ok (OnSessionDoneIncreaseCUOnly env i block p up))"
  using reachable_balanced [OF assms] without_penalty_balanced failed_balanced served_balanced by (simp add: balanced_def)

text \<open>C22. Cancelling undoes taking. A request that opens a session and books its units, and is then cancelled before
  an answer, leaves the provider's used units as they were and the session free for the next request; the session it got was free or new.\<close>

theorem cancelled_session_gives_back:
  assumes "session_reachable p" and "mget (Sessions p) newId = None"
    and "GetConsumerSessionInstanceFromEndpoint n newId eps e p = (Inr (i, epoch), p1)"
    and "addUsedComputeUnits cu ve p1 = Some p2" and "unat (UsedComputeUnits p) + unat cu < 2 ^ 64"
    and "OnSessionCancelled env i reason (book i cu ve key p1) up = (err, p3, up')"
  shows "err = None \<and> UsedComputeUnits p3 = UsedComputeUnits p \<and> (\<forall>s. mget (Sessions p) i = Some s \<longrightarrow> \<not> scs_locked s)
    \<and> (\<exists>s. mget (Sessions p3) i = Some s \<and> \<not> scs_locked s \<and> \<not> scs_inUse s \<and> \<not> BlockListed s \<and> LatestRelayCu s = 0)"
proof -
  have bal: "balanced p" using reachable_balanced [OF assms(1)] .
  then have op: "\<forall>s. mget (Sessions p) i = Some s \<longrightarrow> \<not> scs_locked s" "UsedComputeUnits p1 = UsedComputeUnits p"
    "\<exists>s. mget (Sessions p1) i = Some s \<and> scs_locked s \<and> \<not> scs_inUse s \<and> \<not> BlockListed s"
    using instance_opened [OF assms(3) _ assms(2)] by (simp_all add: balanced_def)
  then obtain s where s: "mget (Sessions p1) i = Some s" "being_opened s" "\<not> BlockListed s" by (auto simp: being_opened_def)
  have bal1: "balanced p1" using balanced_open [OF bal assms(2), of n eps e] assms(3) by simp
  have room: "unat (UsedComputeUnits p1) + unat cu < 2 ^ 64" using assms(5) op(2) by simp
  let ?q = "book i cu ve key p1"
  have q: "?q = put_session i (SetUsageForSession cu key s) (p1\<lparr>UsedComputeUnits := UsedComputeUnits p1 + cu\<rparr>)"
    using s(1) assms(4) by (auto simp: book_def addUsedComputeUnits_def split: if_splits)
  have qs: "mget (Sessions ?q) i = Some (SetUsageForSession cu key s)" "scs_locked (SetUsageForSession cu key s)"
    using s(2) by (simp_all add: q put_session_def SetUsageForSession_def being_opened_def)
  from without_penalty_held [OF book_balanced [OF bal1 s(1,2) room] qs, of env reason up] assms(6)
  have p3: "err = None" "p3 = put_session i (scs_Free ((SetUsageForSession cu key s)\<lparr>LatestRelayCu := 0\<rparr>))
      (?q\<lparr>UsedComputeUnits := UsedComputeUnits ?q - cu\<rparr>)"
    by (auto simp: OnSessionCancelled_def SetUsageForSession_def)
  then show ?thesis using op(1,2) s(3) by (simp add: q put_session_def scs_Free_def SetUsageForSession_def)
qed


section \<open>Examples\<close>

declare fetch_loop.simps [code] session_loop.simps [code]

definition life_demo :: life_env where
  "life_demo = \<lparr>life_sel = pool_env False, maxSessions = 1000, ids = (\<lambda>n. int n + 1), benchAfter = 3, resolveSticky = None, takenAt = 200\<rparr>"

definition pinned_request :: select_request where
  "pinned_request = pool_request\<lparr>req_selected := ''A2'', req_minGroups := 1\<rparr>"

definition lock_free :: "UsedProviders \<Rightarrow> lock_result" where
  "lock_free up = Locked (up\<lparr>selecting := True\<rparr>)"

lemma pinned_served:
  "map_option (\<lambda>r. case fst r of Inr taken \<Rightarrow> map (\<lambda>kv. (fst kv, ts_Provider (snd kv), ts_Session (snd kv))) taken | Inl _ \<Rightarrow> [])
     (GetSessions life_demo 1 pinned_request None lock_free (NewUsedProviders None) pool_start) = Some [(''a2'', 1, 1)]"
  by code_simp


lemma pinned_sessions:
  "\<exists>taken up' c'. GetSessions life_demo 1 pinned_request None lock_free (NewUsedProviders None) pool_start = Some (Inr taken, up', c') \<and> mget taken ''a2'' \<noteq> None"
proof -
  obtain r where r: "GetSessions life_demo 1 pinned_request None lock_free (NewUsedProviders None) pool_start = Some r"
    "(case fst r of Inr taken \<Rightarrow> map (\<lambda>kv. (fst kv, ts_Provider (snd kv), ts_Session (snd kv))) taken | Inl _ \<Rightarrow> []) = [(''a2'', 1, 1)]"
    using pinned_served by auto
  obtain res up' c' where "r = (res, up', c')" by (metis prod_cases3)
  with r show ?thesis by (cases res) (auto split: if_splits)
qed

lemma demo_optimizer:
  "opt (life_sel life_demo) = (\<lambda>k i. ChooseUpstream SelectionModeBest (\<lambda>q s t. 1) (\<lambda>a. Some ((\<lambda>a. live_report) a)) [] ((\<lambda>k i. (1/2, 0)) k i))"
  by (simp add: life_demo_def pool_env_def)

lemma demo_env [simp]: "resolveSticky life_demo = None" "inj (ids life_demo)" "req_selected pinned_request = ''A2''"
  by (simp_all add: life_demo_def inj_def pinned_request_def)

lemma pool_start_idle: "Sessions (providers pool_start r) = []"
proof -
  have reg: "providers (fold reblockRegular kvs c) = providers c" for kvs c
    by (induction kvs arbitrary: c) (auto simp: reblockRegular_def)
  have bak: "providers (fold reblockBackup kvs c) = providers c" for kvs c
    by (induction kvs arbitrary: c) (auto simp: reblockBackup_def)
  have set: "Sessions (providers (setValidAddressesToDefaultValue '''' [] route c) r) = Sessions (providers c r)" for route c
    using same_sessions_map [OF releaseAll_sessions [of c route]] by (simp add: setValidAddressesToDefaultValue_def Let_def)
  show ?thesis
    by (simp add: pool_start_def update_unfold Let_def bak reg installBackups_def pushWeights_def refilled_def set installPairing_def)
       (simp add: NewConsumerSessionManager_def pool_providers_def NewConsumerSessionWithProvider_def)
qed

theorem get_sessions_always_answers_witness:
  "csm_reachable pool_start
   \<and> (\<exists>res up' c'. GetSessions life_demo 3 pool_request None lock_free (NewUsedProviders None) pool_start = Some (res, up', c'))"
  using get_sessions_always_answers [OF pool_start_reachable demo_optimizer demo_env(1)] pool_start_reachable by blast

theorem pinned_never_substituted_witness:
  "(\<exists>taken up' c'. GetSessions life_demo 1 pinned_request None lock_free (NewUsedProviders None) pool_start = Some (Inr taken, up', c') \<and> mget taken ''a2'' \<noteq> None)
   \<and> EqualFold ''a2'' ''A2''"
  using pinned_sessions pinned_never_substituted [OF pool_start_reachable demo_optimizer demo_env(1), of pinned_request None 1 lock_free "NewUsedProviders None" _ _ _ "''a2''"]
  by auto

theorem sessions_are_exclusive_witness:
  "\<exists>taken up' c' ts. GetSessions life_demo 1 pinned_request None lock_free (NewUsedProviders None) pool_start = Some (Inr taken, up', c')
     \<and> mget taken ''a2'' = Some ts \<and> held c' (ts_Provider ts) (ts_Session ts)"
proof -
  obtain taken up' c' ts where g: "GetSessions life_demo 1 pinned_request None lock_free (NewUsedProviders None) pool_start = Some (Inr taken, up', c')"
    "mget taken ''a2'' = Some ts" using pinned_sessions by auto
  then show ?thesis
    using sessions_are_exclusive [OF pool_start_reachable demo_optimizer demo_env(1,2) _ _ g(1)] by (auto simp: pool_start_idle)
qed

text \<open>A provider of the pool whose first session holds the ten units of a running request.\<close>

definition idle_provider :: cswp where
  "idle_provider = pool_providers 0"

definition opened_provider :: cswp where
  "opened_provider = snd (GetConsumerSessionInstanceFromEndpoint 1000 7 pool_endpoints 0 idle_provider)"

lemma idle_reachable: "session_reachable idle_provider"
  by (rule session_reachable.new) (simp_all add: idle_provider_def pool_providers_def NewConsumerSessionWithProvider_def)

lemma opened_facts:
  "mget (Sessions idle_provider) 7 = None" "UsedComputeUnits idle_provider = 0"
  "GetConsumerSessionInstanceFromEndpoint 1000 7 pool_endpoints 0 idle_provider = (Inr (7, 1), opened_provider)"
  "mget (Sessions opened_provider) 7 = Some ((new_session 0 idle_provider)\<lparr>scs_locked := True\<rparr>)"
  "addUsedComputeUnits 10 0 opened_provider = Some (opened_provider\<lparr>UsedComputeUnits := 10\<rparr>)"
  by (simp_all add: opened_provider_def idle_provider_def GetConsumerSessionInstanceFromEndpoint_def pool_providers_def NewConsumerSessionWithProvider_def
      pool_endpoints_def demo_endpoint_def new_endpoint_def IsDirectRPC_def TryUseSession_def new_session_def addUsedComputeUnits_def)

theorem compute_unit_books_witness:
  "session_reachable (book 7 10 0 (NewRouterKey []) opened_provider)
   \<and> unat (UsedComputeUnits (book 7 10 0 (NewRouterKey []) opened_provider)) = all_units (Sessions (book 7 10 0 (NewRouterKey []) opened_provider))
   \<and> UsedComputeUnits (book 7 10 0 (NewRouterKey []) opened_provider) = 10"
proof -
  have "session_reachable opened_provider" unfolding opened_provider_def by (rule session_reachable.opened [OF idle_reachable opened_facts(1)])
  moreover have "UsedComputeUnits opened_provider = 0" using instance_opened [OF opened_facts(3) _ opened_facts(1)] opened_facts(2)
    by (simp add: idle_provider_def pool_providers_def NewConsumerSessionWithProvider_def)
  ultimately have r: "session_reachable (book 7 10 0 (NewRouterKey []) opened_provider)"
    by (intro session_reachable.booking [OF _ opened_facts(4)]) (simp_all add: being_opened_def new_session_def)
  moreover have "UsedComputeUnits (book 7 10 0 (NewRouterKey []) opened_provider) = 10" using opened_facts(4,5) by (simp add: book_def put_session_def)
  ultimately show ?thesis using compute_unit_books [OF r] by simp
qed

theorem cancelled_session_gives_back_witness:
  "UsedComputeUnits (fst (snd (OnSessionCancelled \<lparr>rel_unsupported = (\<lambda>_ _. False), rel_statusCode = (\<lambda>_. 0)\<rparr> 7 None
     (book 7 10 0 (NewRouterKey []) opened_provider) (NewUsedProviders None)))) = 0"
  using cancelled_session_gives_back [OF idle_reachable opened_facts(1,3,5), where env = "\<lparr>rel_unsupported = (\<lambda>_ _. False), rel_statusCode = (\<lambda>_. 0)\<rparr>"
      and reason = None and key = "NewRouterKey []" and up = "NewUsedProviders None"] opened_facts(2)
  by (cases "OnSessionCancelled \<lparr>rel_unsupported = (\<lambda>_ _. False), rel_statusCode = (\<lambda>_. 0)\<rparr> 7 None
     (book 7 10 0 (NewRouterKey []) opened_provider) (NewUsedProviders None)") simp

end
