(* ===== verification/EndpointTip.thy ===== *)
theory EndpointTip
  imports Prelude
begin

text \<open>
  The per-endpoint tip store, \<open>protocol/endpointtip/store.go\<close>: a map from the composite key of an
  endpoint to the triple of block, observation time and source, written by pollers, relays and peers
  through the block-monotonic \<open>Set\<close> with its staleness backstop. The locale \<open>tip_store\<close> states what
  its readers rely on; the store's operations interpret it.
\<close>

section \<open>The store\<close>

datatype source = SourceUnknown | SourcePoll | SourceRelay | SourcePeer

definition source_String :: "source \<Rightarrow> string" where
  "source_String s = (case s of SourcePoll \<Rightarrow> ''poll'' | SourceRelay \<Rightarrow> ''relay''
     | SourcePeer \<Rightarrow> ''peer'' | SourceUnknown \<Rightarrow> ''unknown'')"

record tip =
  tBlock :: int64
  tObservedAt :: time
  tSource :: source

type_synonym store = "(string, tip) gomap"

definition NewStore :: store where
  "NewStore = []"

definition Key :: "string \<Rightarrow> string \<Rightarrow> string \<Rightarrow> string" where
  "Key chain apiInterface url = chain @ ''|'' @ apiInterface @ ''|'' @ url"

definition tip_Set :: "store \<Rightarrow> string \<Rightarrow> tip \<Rightarrow> duration \<Rightarrow> store \<times> bool" where
  "tip_Set s key t staleAfter =
    (if tBlock t \<le> 0 then (s, False)
     else (case mget s key of
        None \<Rightarrow> (mput key t s, True)
      | Some cur \<Rightarrow>
          if tBlock t > tBlock cur then
            (if tObservedAt cur > tObservedAt t
             then (mput key (t\<lparr>tObservedAt := tObservedAt cur\<rparr>) s, True)
             else (mput key t s, True))
          else if tBlock t = tBlock cur then
            (if tObservedAt t > tObservedAt cur then (mput key t s, True) else (s, True))
          else
            (if staleAfter > 0 \<and> time_sub (tObservedAt t) (tObservedAt cur) > staleAfter
             then (mput key t s, True)
             else (s, False))))"

definition tip_Get :: "store \<Rightarrow> string \<Rightarrow> tip option" where
  "tip_Get s key = mget s key"

definition tip_Block :: "store \<Rightarrow> string \<Rightarrow> int64" where
  "tip_Block s key = (case mget s key of None \<Rightarrow> 0 | Some t \<Rightarrow> tBlock t)"

definition tip_Remove :: "store \<Rightarrow> string \<Rightarrow> store" where
  "tip_Remove s key = mdel key s"

definition tip_Reset :: "store \<Rightarrow> store" where
  "tip_Reset s = []"

section \<open>Keys do not collide\<close>

lemma split_at_bar:
  assumes "CHR ''|'' \<notin> set a" "CHR ''|'' \<notin> set b" "a @ CHR ''|'' # x = b @ CHR ''|'' # y"
  shows "a = b \<and> x = y"
  using assms
proof (induction a arbitrary: b)
  case Nil
  then show ?case by (cases b) auto
next
  case (Cons c a)
  then show ?case by (cases b) auto
qed

text \<open>
  The composite key separates endpoints: for chain ids and interface names without a bar, two
  endpoints with the same key are the same chain, interface and URL. The URL may hold anything.
\<close>

theorem Key_injective:
  assumes "CHR ''|'' \<notin> set c" and "CHR ''|'' \<notin> set c'" and "CHR ''|'' \<notin> set a" and "CHR ''|'' \<notin> set a'"
    and "Key c a u = Key c' a' u'"
  shows "c = c' \<and> a = a' \<and> u = u'"
proof -
  from assms(5) have "c @ CHR ''|'' # (a @ CHR ''|'' # u) = c' @ CHR ''|'' # (a' @ CHR ''|'' # u')"
    by (simp add: Key_def)
  from split_at_bar [OF assms(1,2) this] split_at_bar [OF assms(3,4)] show ?thesis by blast
qed

theorem Key_injective_witness:
  "Key ''ETH1'' ''jsonrpc'' ''http://x|y'' = Key ''ETH1'' ''jsonrpc'' ''http://x|y''
   \<and> ''ETH1'' = ''ETH1'' \<and> ''jsonrpc'' = ''jsonrpc'' \<and> ''http://x|y'' = ''http://x|y''"
  using Key_injective [of "''ETH1''" "''ETH1''" "''jsonrpc''" "''jsonrpc''" "''http://x|y''"] by simp

section \<open>What a write does\<close>

definition store_inv :: "store \<Rightarrow> bool" where
  "store_inv s \<longleftrightarrow> wf_map s \<and> (\<forall>k t. mget s k = Some t \<longrightarrow> 0 < tBlock t)"

lemma tip_Set_inv: "store_inv s \<Longrightarrow> store_inv (fst (tip_Set s k t d))"
  by (auto simp: store_inv_def tip_Set_def split: option.splits if_splits)

lemma tip_Set_other: "k' \<noteq> k \<Longrightarrow> mget (fst (tip_Set s k t d)) k' = mget s k'"
  by (auto simp: tip_Set_def split: option.splits)

lemma tip_Set_accepted_iff:
  "store_inv s \<Longrightarrow> snd (tip_Set s k t d) \<longleftrightarrow>
     0 < tBlock t \<and> map_option tBlock (mget (fst (tip_Set s k t d)) k) = Some (tBlock t)"
  by (auto simp: tip_Set_def store_inv_def split: option.splits)

lemma tip_Set_stamp:
  assumes "mget s k = Some cur"
  shows "\<exists>cur'. mget (fst (tip_Set s k t d)) k = Some cur' \<and> tObservedAt cur \<le> tObservedAt cur'"
  using assms
  by (auto simp: tip_Set_def time_sub_def min_int64_def max_int64_def split: if_splits)

text \<open>
  A write keeps the promises its readers rely on: the answer is true exactly when the stored tip
  now carries the written block; other endpoints are untouched; and for an endpoint that had a tip,
  its freshness stamp never goes back, and its block goes down only when the incoming observation is
  more than \<open>staleAfter\<close> newer than the stored one.
\<close>

theorem tip_Set_contract:
  assumes "store_inv s"
  shows "(snd (tip_Set s k t d) \<longleftrightarrow> 0 < tBlock t \<and> tip_Block (fst (tip_Set s k t d)) k = tBlock t)
    \<and> (\<forall>k'. k' \<noteq> k \<longrightarrow> tip_Get (fst (tip_Set s k t d)) k' = tip_Get s k')
    \<and> (\<forall>cur. tip_Get s k = Some cur \<longrightarrow>
        (\<exists>cur'. tip_Get (fst (tip_Set s k t d)) k = Some cur'
          \<and> tObservedAt cur \<le> tObservedAt cur'
          \<and> (tBlock cur' < tBlock cur \<longrightarrow>
               cur' = t \<and> 0 < d \<and> d < time_sub (tObservedAt t) (tObservedAt cur))))"
proof (intro conjI allI impI)
  show "snd (tip_Set s k t d) \<longleftrightarrow> 0 < tBlock t \<and> tip_Block (fst (tip_Set s k t d)) k = tBlock t"
    using tip_Set_accepted_iff [OF assms, of k t d]
    by (auto simp: tip_Block_def split: option.splits)
next
  fix k' assume "k' \<noteq> k"
  then show "tip_Get (fst (tip_Set s k t d)) k' = tip_Get s k'"
    by (simp add: tip_Get_def tip_Set_other)
next
  fix cur assume cur: "tip_Get s k = Some cur"
  then obtain cur' where cur': "mget (fst (tip_Set s k t d)) k = Some cur'"
    and "tObservedAt cur \<le> tObservedAt cur'"
    using tip_Set_stamp [of s k cur t d] by (auto simp: tip_Get_def)
  moreover have "tBlock cur' < tBlock cur \<longrightarrow>
      cur' = t \<and> 0 < d \<and> d < time_sub (tObservedAt t) (tObservedAt cur)"
    using cur cur' by (auto simp: tip_Get_def tip_Set_def split: if_splits)
  ultimately show "\<exists>cur'. tip_Get (fst (tip_Set s k t d)) k = Some cur'
      \<and> tObservedAt cur \<le> tObservedAt cur'
      \<and> (tBlock cur' < tBlock cur \<longrightarrow>
           cur' = t \<and> 0 < d \<and> d < time_sub (tObservedAt t) (tObservedAt cur))"
    by (auto simp: tip_Get_def)
qed

definition sample_tip :: tip where
  "sample_tip = \<lparr>tBlock = 100, tObservedAt = 50, tSource = SourcePoll\<rparr>"

theorem tip_Set_contract_witness:
  "store_inv [(''k'', sample_tip)]
   \<and> tip_Get (fst (tip_Set [(''k'', sample_tip)] ''k'' (sample_tip\<lparr>tBlock := 90\<rparr>) second)) ''k''
       \<noteq> None"
proof -
  have inv: "store_inv [(''k'', sample_tip)]"
    by (simp add: store_inv_def wf_map_def sample_tip_def)
  have get: "tip_Get [(''k'', sample_tip)] ''k'' = Some sample_tip" by (simp add: tip_Get_def)
  from tip_Set_contract [OF inv, of "''k''" "sample_tip\<lparr>tBlock := 90\<rparr>" second] get inv
  show ?thesis by auto
qed

section \<open>The contract as an interface\<close>

text \<open>
  What the readers of the store (sync scoring, the consistency gate, the poll-suppression gate) rely
  on, for any implementation: writes to other endpoints do not disturb a tip, and a tip's stamp is
  monotone. Its lemma lifts both to any sequence of writes.
\<close>

locale tip_store =
  fixes set_tip :: "'s \<Rightarrow> 'k \<Rightarrow> tip \<Rightarrow> duration \<Rightarrow> 's \<times> bool"
    and get_tip :: "'s \<Rightarrow> 'k \<Rightarrow> tip option"
    and ok :: "'s \<Rightarrow> bool"
  assumes ok_set: "ok s \<Longrightarrow> ok (fst (set_tip s k t d))"
    and set_other: "ok s \<Longrightarrow> k' \<noteq> k \<Longrightarrow> get_tip (fst (set_tip s k t d)) k' = get_tip s k'"
    and set_stamp: "ok s \<Longrightarrow> get_tip s k = Some cur \<Longrightarrow>
      \<exists>cur'. get_tip (fst (set_tip s k t d)) k = Some cur' \<and> tObservedAt cur \<le> tObservedAt cur'"
begin

lemma set_any_stamp:
  assumes "ok s" "get_tip s k = Some cur"
  shows "\<exists>cur'. get_tip (fst (set_tip s k' t d)) k = Some cur' \<and> tObservedAt cur \<le> tObservedAt cur'"
  using assms set_stamp set_other by (cases "k' = k") auto

lemma writes_stamp:
  assumes "ok s" "get_tip s k = Some cur"
  shows "ok (fold (\<lambda>(k', t, d) s. fst (set_tip s k' t d)) ws s)
    \<and> (\<exists>cur'. get_tip (fold (\<lambda>(k', t, d) s. fst (set_tip s k' t d)) ws s) k = Some cur'
         \<and> tObservedAt cur \<le> tObservedAt cur')"
  using assms
proof (induction ws arbitrary: s cur)
  case Nil
  then show ?case by simp
next
  case (Cons w ws)
  obtain k' t d where w: "w = (k', t, d)" by (cases w)
  from set_any_stamp [OF Cons.prems] obtain cur1 where
    "get_tip (fst (set_tip s k' t d)) k = Some cur1" and le: "tObservedAt cur \<le> tObservedAt cur1"
    by blast
  from Cons.IH [OF ok_set [OF Cons.prems(1)] this(1)] le show ?case
    by (auto simp: w)
qed

lemma writes_other:
  assumes "ok s" "\<forall>(k', t, d)\<in>set ws. k' \<noteq> k"
  shows "get_tip (fold (\<lambda>(k', t, d) s. fst (set_tip s k' t d)) ws s) k = get_tip s k"
  using assms by (induction ws arbitrary: s) (auto simp: set_other ok_set split: prod.splits)

end

interpretation endpoint_tips: tip_store tip_Set tip_Get store_inv
proof (unfold_locales, goal_cases)
  case (1 s k t d)
  then show ?case by (rule tip_Set_inv)
next
  case (2 s k' k t d)
  then show ?case by (simp add: tip_Get_def tip_Set_other)
next
  case (3 s k cur t d)
  then show ?case using tip_Set_stamp by (simp add: tip_Get_def)
qed

text \<open>
  Over any sequence of writes to any endpoints, an endpoint that has a tip keeps one, and its
  freshness stamp never moves backwards, so a late straggler cannot make a live endpoint look stale.
\<close>

theorem tip_stamp_never_regresses:
  assumes "store_inv s" and "tip_Get s k = Some cur"
  shows "\<exists>cur'. tip_Get (fold (\<lambda>(k', t, d) s. fst (tip_Set s k' t d)) ws s) k = Some cur'
    \<and> tObservedAt cur \<le> tObservedAt cur'"
  using endpoint_tips.writes_stamp [OF assms] by blast

theorem tip_stamp_never_regresses_witness:
  "\<exists>cur'. tip_Get (fold (\<lambda>(k', t, d) s. fst (tip_Set s k' t d))
       [(''k'', sample_tip\<lparr>tBlock := 200, tObservedAt := 10\<rparr>, second),
        (''j'', sample_tip, second)] [(''k'', sample_tip)]) ''k'' = Some cur' \<and> 50 \<le> tObservedAt cur'"
proof -
  have inv: "store_inv [(''k'', sample_tip)]"
    by (simp add: store_inv_def wf_map_def sample_tip_def)
  have get: "tip_Get [(''k'', sample_tip)] ''k'' = Some sample_tip" by (simp add: tip_Get_def)
  from tip_stamp_never_regresses [OF inv get] show ?thesis by (simp only: sample_tip_def tip.simps)
qed

end
