(* ===== verification/EndpointMonitor.thy ===== *)
theory EndpointMonitor
  imports Complex_Main EndpointTip EndpointHealth
begin

text \<open>
  What this process has seen of each upstream (\<open>src/protocol/endpointstate/observation.go\<close>,
  \<open>peer_observations.go\<close>, \<open>poll_cadence.go\<close>, the tracker lifecycle of \<open>endpoint_monitor.go\<close>), and the verdict
  the probe loop renders from it (\<open>src/protocol/probing/\<close>).

  The monitor keeps poll health and stall evidence per url; the observed tip lives in the store of
  \<open>EndpointTip\<close>, which is part of the state here. Callbacks become a list of effects. The answer of the fleet store
  to a fetch is an argument. The chain trackers themselves are outside; that a url has one is recorded by its
  observation generation.
\<close>

section \<open>The monitor\<close>

record EndpointObservation =
  obs_LatestBlock :: int64
  obs_ObservedAt :: time
  obs_Source :: source
  LastPollAttempt :: time
  LastSuccessfulPoll :: time
  LastPollLatency :: duration
  LastPollError :: string
  ConsecutivePollFailures :: int
  LastAnsweredBlock :: int64
  SameBlockCycles :: int
  HighestBlockSeen :: int64
  lastCountedRelayAt :: time

definition zero_observation :: EndpointObservation where
  "zero_observation =
     \<lparr>obs_LatestBlock = 0, obs_ObservedAt = zero_time, obs_Source = SourceUnknown, LastPollAttempt = zero_time,
      LastSuccessfulPoll = zero_time, LastPollLatency = 0, LastPollError = '''', ConsecutivePollFailures = 0,
      LastAnsweredBlock = 0, SameBlockCycles = 0, HighestBlockSeen = 0, lastCountedRelayAt = zero_time\<rparr>"

record EndpointMonitor =
  observations :: "(string, EndpointObservation) gomap"
  generations :: "(string, int) gomap"
  nextObsGen :: int
  lastPublished :: "(string, time) gomap"
  stopped :: bool
  mon_tips :: store
  mon_chainID :: string
  mon_apiInterface :: string
  tipStaleAfter :: duration
  relayGateFreshness :: duration
  flatPollInterval :: duration
  stallCycles :: int
  peerGate :: bool
  podID :: string

text \<open>What the monitor tells its owner: a vote on the chain tip, a block to publish to the fleet, the block a poll
  was answered with.\<close>

datatype monitor_effect = TipObservation string int64 bool | PublishObservation string int64 | PollBlock string int64

definition minStallCycles :: int where "minStallCycles = 3"

text \<open>Floating-point divisors are reals; the special value NaN has no counterpart.\<close>

definition DefaultPollDivisor :: real where "DefaultPollDivisor = 2"
definition MinPollDivisor :: real where "MinPollDivisor = 1 / 4"
definition MaxPollDivisor :: real where "MaxPollDivisor = 8"

definition resolvePollDivisor :: "real \<Rightarrow> real" where
  "resolvePollDivisor divisor =
     (if divisor = 0 then DefaultPollDivisor
      else if divisor < MinPollDivisor \<or> divisor > MaxPollDivisor then DefaultPollDivisor else divisor)"

definition resolveFlatPollInterval :: "duration \<Rightarrow> real \<Rightarrow> duration" where
  "resolveFlatPollInterval averageBlockTime divisor =
     (let interval = \<lfloor>of_int averageBlockTime / divisor\<rfloor> in if interval \<le> 0 then averageBlockTime else interval)"

definition stallCyclesFor :: "real \<Rightarrow> int" where
  "stallCyclesFor divisor = (let n = \<lceil>10 * divisor\<rceil> in if n < minStallCycles then minStallCycles else n)"

definition DefaultMaxRelaySkipsBeforePoll :: int where "DefaultMaxRelaySkipsBeforePoll = 4"

definition worstCaseGapBetweenPolls :: "duration \<Rightarrow> duration" where
  "worstCaseGapBetweenPolls interval = mul64 (DefaultMaxRelaySkipsBeforePoll + 1) interval"

definition DefaultAverageBlockTime :: duration where "DefaultAverageBlockTime = 12 * second"

definition NewEndpointMonitor :: "string \<Rightarrow> string \<Rightarrow> duration \<Rightarrow> real \<Rightarrow> bool \<Rightarrow> string \<Rightarrow> store \<Rightarrow> EndpointMonitor" where
  "NewEndpointMonitor chain api averageBlockTime pollDivisor peers pod tips =
     (let avgBlockTime = (if averageBlockTime = 0 then DefaultAverageBlockTime else averageBlockTime);
          divisor = resolvePollDivisor pollDivisor
      in \<lparr>observations = [], generations = [], nextObsGen = 0, lastPublished = [], stopped = False, mon_tips = tips,
          mon_chainID = chain, mon_apiInterface = api, tipStaleAfter = StalenessWindow avgBlockTime,
          relayGateFreshness = avgBlockTime, flatPollInterval = resolveFlatPollInterval avgBlockTime divisor,
          stallCycles = stallCyclesFor divisor, peerGate = peers, podID = pod\<rparr>)"

definition tipKey :: "EndpointMonitor \<Rightarrow> string \<Rightarrow> string" where
  "tipKey m url = Key (mon_chainID m) (mon_apiInterface m) url"

definition acceptsLocked :: "EndpointMonitor \<Rightarrow> string \<Rightarrow> int \<Rightarrow> bool" where
  "acceptsLocked m url gen \<longleftrightarrow> \<not> stopped m \<and> mget (generations m) url = Some gen"

definition observation_of :: "EndpointMonitor \<Rightarrow> string \<Rightarrow> EndpointObservation" where
  "observation_of m url = (case mget (observations m) url of Some ob \<Rightarrow> ob | None \<Rightarrow> zero_observation)"

definition noteAnsweredBlockLocked :: "int64 \<Rightarrow> bool \<Rightarrow> EndpointObservation \<Rightarrow> EndpointObservation" where
  "noteAnsweredBlockLocked block countRepeat ob =
     (let ob1 = ob\<lparr>LastAnsweredBlock := block\<rparr> in
      if block > HighestBlockSeen ob1 then ob1\<lparr>HighestBlockSeen := block, SameBlockCycles := 0\<rparr>
      else if countRepeat then ob1\<lparr>SameBlockCycles := SameBlockCycles ob1 + 1\<rparr> else ob1)"

definition tipRepeats :: "EndpointMonitor \<Rightarrow> string \<Rightarrow> int64 \<Rightarrow> bool" where
  "tipRepeats m url block \<longleftrightarrow>
     (case tip_Get (mon_tips m) (tipKey m url) of Some prior \<Rightarrow> tBlock prior = block | None \<Rightarrow> False)"

definition shouldPublishLocked :: "string \<Rightarrow> time \<Rightarrow> EndpointMonitor \<Rightarrow> bool \<times> EndpointMonitor" where
  "shouldPublishLocked url now m =
     (if \<not> peerGate m then (False, m)
      else if (case mget (lastPublished m) url of
                 Some prev \<Rightarrow> time_sub now prev < relayGateFreshness m div 2 | None \<Rightarrow> False) then (False, m)
      else (True, m\<lparr>lastPublished := mput url now (lastPublished m)\<rparr>))"

text \<open>The common tail of the three writers: the guarded write to the tip store, the vote it becomes, and
  whether it is published.\<close>

definition write_tip :: "string \<Rightarrow> int64 \<Rightarrow> time \<Rightarrow> source \<Rightarrow> bool \<Rightarrow> EndpointMonitor \<Rightarrow> (bool \<times> monitor_effect list) \<times> EndpointMonitor" where
  "write_tip url block now src publish m =
     (let repeat = tipRepeats m url block;
          res = tip_Set (mon_tips m) (tipKey m url) \<lparr>tBlock = block, tObservedAt = now, tSource = src\<rparr> (tipStaleAfter m);
          m1 = m\<lparr>mon_tips := fst res\<rparr>
      in if \<not> snd res then ((False, []), m1)
         else if publish then
           ((True, TipObservation url block repeat # (if fst (shouldPublishLocked url now m1) then [PublishObservation url block] else [])),
            snd (shouldPublishLocked url now m1))
         else ((True, [TipObservation url block repeat]), m1))"

definition recordPollObservation :: "string \<Rightarrow> int \<Rightarrow> int64 \<Rightarrow> duration \<Rightarrow> string option \<Rightarrow> time \<Rightarrow> EndpointMonitor \<Rightarrow>
    monitor_effect list \<times> EndpointMonitor" where
  "recordPollObservation url gen block latency err now m =
     (if \<not> acceptsLocked m url gen then ([], m)
      else
        let ob = observation_of m url in
        if now < LastPollAttempt ob then ([], m)
        else if err = None \<and> block > 0 then
          let ob1 = noteAnsweredBlockLocked block True (ob\<lparr>LastPollAttempt := now, LastSuccessfulPoll := now,
                      LastPollLatency := latency, LastPollError := '''', ConsecutivePollFailures := 0\<rparr>);
              res = write_tip url block now SourcePoll True m
          in (snd (fst res) @ [PollBlock url block], (snd res)\<lparr>observations := mput url ob1 (observations m)\<rparr>)
        else
          ([], m\<lparr>observations := mput url (ob\<lparr>LastPollAttempt := now,
             LastPollError := (case err of Some er \<Rightarrow> er | None \<Rightarrow> ''poll did not parse a block''),
             ConsecutivePollFailures := ConsecutivePollFailures ob + 1\<rparr>) (observations m)\<rparr>))"

definition RecordRelayObservation :: "string \<Rightarrow> int \<Rightarrow> int64 \<Rightarrow> time \<Rightarrow> EndpointMonitor \<Rightarrow> (bool \<times> monitor_effect list) \<times> EndpointMonitor" where
  "RecordRelayObservation url gen block now m =
     (if block \<le> 0 \<or> \<not> acceptsLocked m url gen then ((False, []), m)
      else
        write_tip url block now SourceRelay True
          (m\<lparr>observations := mput url (noteAnsweredBlockLocked block False (observation_of m url)) (observations m)\<rparr>))"

definition recordPeerObservation :: "string \<Rightarrow> int \<Rightarrow> int64 \<Rightarrow> time \<Rightarrow> EndpointMonitor \<Rightarrow> (bool \<times> monitor_effect list) \<times> EndpointMonitor" where
  "recordPeerObservation url gen block now m =
     (if block \<le> 0 \<or> \<not> acceptsLocked m url gen then ((False, []), m)
      else
        write_tip url block now SourcePeer False
          (m\<lparr>observations := mput url (observation_of m url) (observations m)\<rparr>))"

definition fill_tip :: "EndpointMonitor \<Rightarrow> string \<Rightarrow> EndpointObservation \<Rightarrow> EndpointObservation" where
  "fill_tip m url ob =
     (case tip_Get (mon_tips m) (tipKey m url) of
        None \<Rightarrow> ob
      | Some t \<Rightarrow> ob\<lparr>obs_LatestBlock := tBlock t, obs_ObservedAt := tObservedAt t, obs_Source := tSource t\<rparr>)"

definition GetObservation :: "EndpointMonitor \<Rightarrow> string \<Rightarrow> EndpointObservation \<times> bool" where
  "GetObservation m url =
     (fill_tip m url (observation_of m url),
      mget (observations m) url \<noteq> None \<or> tip_Get (mon_tips m) (tipKey m url) \<noteq> None)"

definition SnapshotObservations :: "EndpointMonitor \<Rightarrow> (string, EndpointObservation) gomap" where
  "SnapshotObservations m = map (\<lambda>(url, ob). (url, fill_tip m url ob)) (observations m)"

definition freshRelayTip :: "EndpointMonitor \<Rightarrow> string \<Rightarrow> time \<Rightarrow> tip option" where
  "freshRelayTip m url now =
     (case tip_Get (mon_tips m) (tipKey m url) of
        None \<Rightarrow> None
      | Some t \<Rightarrow>
          if tSource t \<noteq> SourceRelay \<or> tBlock t \<le> 0 then None
          else if time_sub now (tObservedAt t) > relayGateFreshness m then None else Some t)"

definition countRelayCoveredCycle :: "string \<Rightarrow> int \<Rightarrow> tip \<Rightarrow> EndpointMonitor \<Rightarrow> EndpointMonitor" where
  "countRelayCoveredCycle url gen t m =
     (if \<not> acceptsLocked m url gen then m
      else case mget (observations m) url of
             None \<Rightarrow> m
           | Some ob \<Rightarrow>
               if HighestBlockSeen ob \<le> 0 \<or> \<not> tObservedAt t > lastCountedRelayAt ob then m
               else m\<lparr>observations := mput url ((noteAnsweredBlockLocked (tBlock t) True ob)\<lparr>lastCountedRelayAt := tObservedAt t\<rparr>) (observations m)\<rparr>)"

definition localPollHealthy :: "EndpointMonitor \<Rightarrow> string \<Rightarrow> bool" where
  "localPollHealthy m url \<longleftrightarrow>
     (case mget (observations m) url of Some ob \<Rightarrow> ConsecutivePollFailures ob = 0 | None \<Rightarrow> False)"

text \<open>The peer half of the gate. \<open>fetched\<close> is the answer of the fleet store: an error, a miss, or a block with the
  pod that published it and its age.\<close>

definition freshPeerTip :: "string \<Rightarrow> int \<Rightarrow> time \<Rightarrow> (string + (int64 \<times> string \<times> duration) option) \<Rightarrow> EndpointMonitor \<Rightarrow>
    (int64 option \<times> monitor_effect list) \<times> EndpointMonitor" where
  "freshPeerTip url gen now fetched m =
     (if \<not> peerGate m \<or> \<not> localPollHealthy m url then ((None, []), m)
      else case fetched of
             Inl _ \<Rightarrow> ((None, []), m)
           | Inr None \<Rightarrow> ((None, []), m)
           | Inr (Some (block, pod, age)) \<Rightarrow>
               if block \<le> 0 \<or> pod = podID m \<or> age > relayGateFreshness m then ((None, []), m)
               else
                 let res = recordPeerObservation url gen block (now - age) m
                 in ((Some block, snd (fst res)), snd res))"

text \<open>The traffic gate a tracker asks before each poll: whether the poll is skipped.\<close>

definition RelayTipFresh :: "string \<Rightarrow> int \<Rightarrow> time \<Rightarrow> (string + (int64 \<times> string \<times> duration) option) \<Rightarrow> EndpointMonitor \<Rightarrow>
    (bool \<times> monitor_effect list) \<times> EndpointMonitor" where
  "RelayTipFresh url gen now fetched m =
     (case freshRelayTip m url now of
        Some t \<Rightarrow> ((True, []), countRelayCoveredCycle url gen t m)
      | None \<Rightarrow>
          let res = freshPeerTip url gen now fetched m in ((fst (fst res) \<noteq> None, snd (fst res)), snd res))"

definition ResetStallCounters :: "EndpointMonitor \<Rightarrow> EndpointMonitor" where
  "ResetStallCounters m = m\<lparr>observations := map (\<lambda>(url, ob). (url, ob\<lparr>SameBlockCycles := 0\<rparr>)) (observations m)\<rparr>"

text \<open>A tracker is created: the url gets a fresh generation.\<close>

definition register_generation :: "string \<Rightarrow> EndpointMonitor \<Rightarrow> int \<times> EndpointMonitor" where
  "register_generation url m =
     (nextObsGen m + 1, m\<lparr>nextObsGen := nextObsGen m + 1, generations := mput url (nextObsGen m + 1) (generations m)\<rparr>)"

definition ObservationGeneration :: "EndpointMonitor \<Rightarrow> string \<Rightarrow> int option" where
  "ObservationGeneration m url = mget (generations m) url"

definition RemoveTracker :: "string \<Rightarrow> EndpointMonitor \<Rightarrow> EndpointMonitor" where
  "RemoveTracker url m =
     m\<lparr>observations := mdel url (observations m), generations := mdel url (generations m),
       lastPublished := mdel url (lastPublished m), mon_tips := tip_Remove (mon_tips m) (tipKey m url)\<rparr>"

definition Stop :: "EndpointMonitor \<Rightarrow> EndpointMonitor" where
  "Stop m =
     m\<lparr>stopped := True, mon_tips := fold (\<lambda>url s. tip_Remove s (tipKey m url)) (map fst (observations m)) (mon_tips m),
       observations := [], generations := [], lastPublished := []\<rparr>"

section \<open>Every order of events\<close>

datatype monitor_event =
    TrackerCreated string
  | TrackerRemoved string
  | PollDone string int int64 duration "string option" time
  | RelayServed string int int64 time
  | GateAsked string int time "string + (int64 \<times> string \<times> duration) option"
  | StallCountersReset
  | MonitorStopped

fun monitor_apply :: "monitor_event \<Rightarrow> EndpointMonitor \<Rightarrow> EndpointMonitor" where
  "monitor_apply (TrackerCreated url) m = snd (register_generation url m)"
| "monitor_apply (TrackerRemoved url) m = RemoveTracker url m"
| "monitor_apply (PollDone url gen block latency err now) m = snd (recordPollObservation url gen block latency err now m)"
| "monitor_apply (RelayServed url gen block now) m = snd (RecordRelayObservation url gen block now m)"
| "monitor_apply (GateAsked url gen now fetched) m = snd (RelayTipFresh url gen now fetched m)"
| "monitor_apply StallCountersReset m = ResetStallCounters m"
| "monitor_apply MonitorStopped m = Stop m"

abbreviation monitor_run :: "monitor_event list \<Rightarrow> EndpointMonitor \<Rightarrow> EndpointMonitor" where
  "monitor_run evs m \<equiv> fold monitor_apply evs m"

lemma shouldPublish_fields [simp]:
  "observations (snd (shouldPublishLocked url now m)) = observations m"
  "generations (snd (shouldPublishLocked url now m)) = generations m"
  "nextObsGen (snd (shouldPublishLocked url now m)) = nextObsGen m"
  "stopped (snd (shouldPublishLocked url now m)) = stopped m"
  "mon_tips (snd (shouldPublishLocked url now m)) = mon_tips m"
  "mon_chainID (snd (shouldPublishLocked url now m)) = mon_chainID m"
  "mon_apiInterface (snd (shouldPublishLocked url now m)) = mon_apiInterface m"
  "podID (snd (shouldPublishLocked url now m)) = podID m"
  by (auto simp: shouldPublishLocked_def)

lemma write_tip_fields [simp]:
  "observations (snd (write_tip url block now src pub m)) = observations m"
  "generations (snd (write_tip url block now src pub m)) = generations m"
  "nextObsGen (snd (write_tip url block now src pub m)) = nextObsGen m"
  "stopped (snd (write_tip url block now src pub m)) = stopped m"
  "mon_chainID (snd (write_tip url block now src pub m)) = mon_chainID m"
  "mon_apiInterface (snd (write_tip url block now src pub m)) = mon_apiInterface m"
  "podID (snd (write_tip url block now src pub m)) = podID m"
  by (simp_all add: write_tip_def Let_def)

lemma write_tip_tips:
  "mon_tips (snd (write_tip url block now src pub m))
   = fst (tip_Set (mon_tips m) (tipKey m url) \<lparr>tBlock = block, tObservedAt = now, tSource = src\<rparr> (tipStaleAfter m))"
  by (simp add: write_tip_def Let_def)

section \<open>First-hand evidence\<close>

lemma tipKey_eq [simp]: "tipKey m u = tipKey m v \<longleftrightarrow> u = v"
  by (simp add: tipKey_def Key_def)

lemma tipKey_fields: "mon_chainID m' = mon_chainID m \<Longrightarrow> mon_apiInterface m' = mon_apiInterface m \<Longrightarrow> tipKey m' = tipKey m"
  by (rule ext) (simp add: tipKey_def)

lemma note_fields [simp]:
  "LastSuccessfulPoll (noteAnsweredBlockLocked b c ob) = LastSuccessfulPoll ob"
  "ConsecutivePollFailures (noteAnsweredBlockLocked b c ob) = ConsecutivePollFailures ob"
  "LastPollAttempt (noteAnsweredBlockLocked b c ob) = LastPollAttempt ob"
  "HighestBlockSeen (noteAnsweredBlockLocked b c ob) = max b (HighestBlockSeen ob)"
  by (auto simp: noteAnsweredBlockLocked_def Let_def max_def)

text \<open>The times of this pod's successful polls of a url, and the blocks the url answered this pod with.\<close>

definition local_polls :: "string \<Rightarrow> monitor_event list \<Rightarrow> time set" where
  "local_polls url evs = {now. \<exists>gen block latency. PollDone url gen block latency None now \<in> set evs \<and> 0 < block}"

definition local_blocks :: "string \<Rightarrow> monitor_event list \<Rightarrow> int64 set" where
  "local_blocks url evs = {block. (\<exists>gen latency now. PollDone url gen block latency None now \<in> set evs)
     \<or> (\<exists>gen now. RelayServed url gen block now \<in> set evs)}"

lemma local_mono: "set evs \<subseteq> set evs' \<Longrightarrow> local_polls url evs \<subseteq> local_polls url evs'"
  "set evs \<subseteq> set evs' \<Longrightarrow> local_blocks url evs \<subseteq> local_blocks url evs'"
  by (auto simp: local_polls_def local_blocks_def)

definition first_hand :: "monitor_event list \<Rightarrow> EndpointMonitor \<Rightarrow> string \<Rightarrow> bool" where
  "first_hand evs m url \<longleftrightarrow>
     (LastSuccessfulPoll (observation_of m url) = zero_time \<or> LastSuccessfulPoll (observation_of m url) \<in> local_polls url evs)
     \<and> (HighestBlockSeen (observation_of m url) = 0 \<or> HighestBlockSeen (observation_of m url) \<in> local_blocks url evs)
     \<and> 0 \<le> HighestBlockSeen (observation_of m url)
     \<and> (\<forall>t. tip_Get (mon_tips m) (tipKey m url) = Some t \<longrightarrow> tSource t = SourceRelay \<longrightarrow> tBlock t \<in> local_blocks url evs)"

lemma observation_of_put [simp]:
  "observation_of (m\<lparr>observations := mput url ob (observations m0)\<rparr>) url'
   = (if url' = url then ob else observation_of (m\<lparr>observations := observations m0\<rparr>) url')"
  by (simp add: observation_of_def)

lemma observation_of_id [simp]: "observation_of (m\<lparr>observations := observations m\<rparr>) = observation_of m"
  by (rule ext) (simp add: observation_of_def)

lemma tipKey_simps [simp]: "tipKey (m\<lparr>observations := x\<rparr>) = tipKey m" "tipKey (m\<lparr>mon_tips := y\<rparr>) = tipKey m"
  "tipKey (snd (write_tip u block now src pub m)) = tipKey m"
  by (rule tipKey_fields, simp_all)+

lemma observation_of_same: "observations m' = observations m \<Longrightarrow> observation_of m' = observation_of m"
  by (rule ext) (simp add: observation_of_def)

lemma zero_observation_simps [simp]:
  "LastSuccessfulPoll zero_observation = 0" "HighestBlockSeen zero_observation = 0"
  by (simp_all add: zero_observation_def)

text \<open>What a write leaves in the store under a key: what was there, or the block and source written.\<close>

lemma tip_Set_content:
  assumes "tip_Get (fst (tip_Set s k t d)) k' = Some t'"
  shows "tip_Get s k' = Some t' \<or> k' = k \<and> tBlock t' = tBlock t \<and> tSource t' = tSource t"
  using assms by (cases "k' = k") (auto simp: tip_Get_def tip_Set_def split: if_splits option.splits)

lemma write_tip_content:
  assumes "tip_Get (mon_tips (snd (write_tip url block now src pub m))) (tipKey m url') = Some t"
  shows "tip_Get (mon_tips m) (tipKey m url') = Some t \<or> url' = url \<and> tBlock t = block \<and> tSource t = src"
  using tip_Set_content [OF assms [unfolded write_tip_tips]] by auto

lemma first_hand_mono: "first_hand evs m url \<Longrightarrow> set evs \<subseteq> set evs' \<Longrightarrow> first_hand evs' m url"
  using local_mono [of evs evs' url] by (auto simp: first_hand_def)

lemma first_hand_more: "first_hand evs m url \<Longrightarrow> first_hand (evs @ [ev]) m url"
  by (erule first_hand_mono) auto

lemma first_hand_poll:
  assumes "first_hand evs m url"
  shows "first_hand (evs @ [PollDone u gen block latency err now]) (snd (recordPollObservation u gen block latency err now m)) url"
proof -
  let ?evs = "evs @ [PollDone u gen block latency err now]"
  have base: "first_hand ?evs m url" using assms by (rule first_hand_more)
  show ?thesis
  proof (cases "acceptsLocked m u gen \<and> \<not> now < LastPollAttempt (observation_of m u)")
    case False
    then show ?thesis using base by (auto simp: recordPollObservation_def Let_def)
  next
    case acc: True
    show ?thesis
    proof (cases "err = None \<and> block > 0")
      case False
      with acc base show ?thesis
        by (auto simp: recordPollObservation_def Let_def first_hand_def)
    next
      case True
      let ?w = "snd (write_tip u block now SourcePoll True m)"
      let ?ob = "noteAnsweredBlockLocked block True ((observation_of m u)\<lparr>LastPollAttempt := now, LastSuccessfulPoll := now,
                      LastPollLatency := latency, LastPollError := '''', ConsecutivePollFailures := 0\<rparr>)"
      have m': "snd (recordPollObservation u gen block latency err now m) = ?w\<lparr>observations := mput u ?ob (observations m)\<rparr>"
        using acc True by (simp add: recordPollObservation_def Let_def)
      have tips: "tBlock t \<in> local_blocks url ?evs"
        if "tip_Get (mon_tips ?w) (tipKey m url) = Some t" "tSource t = SourceRelay" for t
        using write_tip_content [OF that(1)] that(2) base by (auto simp: first_hand_def)
      have new: "now \<in> local_polls u ?evs" "block \<in> local_blocks u ?evs"
        using True by (auto simp: local_polls_def local_blocks_def)
      have obs: "observation_of (?w\<lparr>observations := observations m\<rparr>) = observation_of m" by (rule observation_of_same) simp
      show ?thesis unfolding m' using base tips new True
        by (auto simp: first_hand_def obs max_def)
    qed
  qed
qed

lemma first_hand_write:
  assumes "first_hand evs m url" "src = SourceRelay \<Longrightarrow> block \<in> local_blocks u evs"
  shows "first_hand evs (snd (write_tip u block now src pub m)) url"
  using assms write_tip_content [of u block now src pub m url]
  by (auto simp: first_hand_def observation_of_same [of "snd (write_tip u block now src pub m)" m])

lemma first_hand_relay:
  assumes "first_hand evs m url"
  shows "first_hand (evs @ [RelayServed u gen block now]) (snd (RecordRelayObservation u gen block now m)) url"
proof (cases "block \<le> 0 \<or> \<not> acceptsLocked m u gen")
  case True
  then show ?thesis using first_hand_more [OF assms] by (simp add: RecordRelayObservation_def)
next
  case False
  let ?evs = "evs @ [RelayServed u gen block now]"
  let ?m = "m\<lparr>observations := mput u (noteAnsweredBlockLocked block False (observation_of m u)) (observations m)\<rparr>"
  have new: "block \<in> local_blocks u ?evs" by (auto simp: local_blocks_def)
  have "first_hand ?evs m url" using assms by (rule first_hand_more)
  then have "first_hand ?evs ?m url"
    using new by (auto simp: first_hand_def max_def)
  then show ?thesis using False new by (auto simp: RecordRelayObservation_def intro: first_hand_write)
qed

lemma first_hand_gate:
  assumes "first_hand evs m url"
  shows "first_hand evs (snd (RelayTipFresh u gen now fetched m)) url"
proof (cases "freshRelayTip m u now")
  case (Some t)
  then have t: "tip_Get (mon_tips m) (tipKey m u) = Some t" "tSource t = SourceRelay"
    by (auto simp: freshRelayTip_def split: option.splits if_splits)
  have "first_hand evs (countRelayCoveredCycle u gen t m) url"
    using assms t
    by (auto simp: countRelayCoveredCycle_def first_hand_def observation_of_def tipKey_def max_def split: option.splits)
  then show ?thesis using Some by (simp add: RelayTipFresh_def)
next
  case None
  have "first_hand evs (snd (recordPeerObservation u gen block at' m)) url" for block at'
  proof -
    let ?m = "m\<lparr>observations := mput u (observation_of m u) (observations m)\<rparr>"
    have "first_hand evs ?m url"
      using assms by (auto simp: first_hand_def)
    then show ?thesis using assms by (auto simp: recordPeerObservation_def intro: first_hand_write)
  qed
  then have "first_hand evs (snd (freshPeerTip u gen now fetched m)) url"
    using assms by (auto simp: freshPeerTip_def Let_def split: sum.split option.split)
  then show ?thesis using None by (simp add: RelayTipFresh_def Let_def)
qed

lemma tip_Get_Remove: "tip_Get (tip_Remove s k) k' = (if k' = k then None else tip_Get s k')"
  by (simp add: tip_Get_def tip_Remove_def)

lemma tip_Get_Removes: "tip_Get (fold (\<lambda>u s. tip_Remove s (f u)) us s) k = (if k \<in> f ` set us then None else tip_Get s k)"
  by (induction us arbitrary: s) (auto simp: tip_Get_Remove)

lemma first_hand_step:
  assumes "first_hand evs m url"
  shows "first_hand (evs @ [ev]) (monitor_apply ev m) url"
proof -
  show ?thesis
  proof (cases ev)
    case (PollDone u gen block latency err now)
    then show ?thesis using first_hand_poll [OF assms] by simp
  next
    case (RelayServed u gen block now)
    then show ?thesis using first_hand_relay [OF assms] by simp
  next
    case (GateAsked u gen now fetched)
    then show ?thesis using first_hand_gate [OF first_hand_more [OF assms, of ev]] by simp
  next
    case (TrackerCreated u)
    then show ?thesis using first_hand_more [OF assms, of ev] by (simp add: register_generation_def first_hand_def observation_of_def tipKey_def)
  next
    case (TrackerRemoved u)
    then show ?thesis using first_hand_more [OF assms, of ev]
      by (auto simp: RemoveTracker_def first_hand_def observation_of_def tipKey_def tip_Get_Remove)
  next
    case StallCountersReset
    have "mget (map (\<lambda>(u, ob). (u, ob\<lparr>SameBlockCycles := 0\<rparr>)) xs) url = map_option (\<lambda>ob. ob\<lparr>SameBlockCycles := 0\<rparr>) (mget xs url)"
      for xs :: "(string \<times> EndpointObservation) list" by (induction xs) auto
    then show ?thesis using first_hand_more [OF assms, of ev] StallCountersReset
      by (auto simp: ResetStallCounters_def first_hand_def observation_of_def tipKey_def split: option.splits)
  next
    case MonitorStopped
    then show ?thesis using first_hand_more [OF assms, of ev]
      by (auto simp: Stop_def first_hand_def observation_of_def tipKey_def tip_Get_Removes split: if_splits)
  qed
qed

lemma monitor_run_first_hand:
  assumes "\<forall>u. tip_Get tips (Key chain api u) = None"
  shows "first_hand evs (monitor_run evs (NewEndpointMonitor chain api avg divisor peers pod tips)) url"
proof (induction evs rule: rev_induct)
  case Nil
  then show ?case using assms(1) by (simp add: first_hand_def NewEndpointMonitor_def observation_of_def tipKey_def Let_def)
next
  case (snoc ev evs)
  then show ?case using first_hand_step by simp
qed

text \<open>What re-enables an endpoint and what marks it as stalled was seen by this process itself. In any run of the
  monitor, the time of a url's last successful poll is the time of a poll of that url by this process that
  succeeded, and the highest block it has shown is a block it answered this process with; nothing borrowed
  from another process enters either.\<close>

theorem evidence_is_first_hand:
  assumes "\<forall>u. tip_Get tips (Key chain api u) = None"
    and "m = monitor_run evs (NewEndpointMonitor chain api avg divisor peers pod tips)"
  shows "(LastSuccessfulPoll (fst (GetObservation m url)) = zero_time \<or> LastSuccessfulPoll (fst (GetObservation m url)) \<in> local_polls url evs)
    \<and> (HighestBlockSeen (fst (GetObservation m url)) = 0 \<or> HighestBlockSeen (fst (GetObservation m url)) \<in> local_blocks url evs)"
proof -
  have "first_hand evs m url" unfolding assms(2) by (rule monitor_run_first_hand [OF assms(1)])
  then show ?thesis by (auto simp: first_hand_def GetObservation_def fill_tip_def split: option.split)
qed

theorem evidence_is_first_hand_witness:
  "LastSuccessfulPoll (fst (GetObservation (monitor_run [TrackerCreated ''u'', PollDone ''u'' 1 100 5 None 9]
      (NewEndpointMonitor ''ETH1'' ''jsonrpc'' 0 0 True ''pod'' [])) ''u'')) = 9
   \<and> 9 \<in> local_polls ''u'' [TrackerCreated ''u'', PollDone ''u'' 1 100 5 None 9]"
proof -
  let ?evs = "[TrackerCreated ''u'', PollDone ''u'' 1 100 5 None 9]"
  let ?m = "monitor_run ?evs (NewEndpointMonitor ''ETH1'' ''jsonrpc'' 0 0 True ''pod'' [])"
  have "LastSuccessfulPoll (fst (GetObservation ?m ''u'')) = 9"
    by (simp add: NewEndpointMonitor_def register_generation_def recordPollObservation_def acceptsLocked_def observation_of_def
        zero_observation_def GetObservation_def fill_tip_def Let_def split: option.split)
  moreover have "\<forall>u. tip_Get [] (Key ''ETH1'' ''jsonrpc'' u) = None" by (simp add: tip_Get_def)
  from evidence_is_first_hand [OF this refl, where url = "''u''" and evs = ?evs and avg = 0 and divisor = 0 and peers = True and pod = "''pod''"]
  have "LastSuccessfulPoll (fst (GetObservation ?m ''u'')) = zero_time \<or> LastSuccessfulPoll (fst (GetObservation ?m ''u'')) \<in> local_polls ''u'' ?evs"
    by blast
  ultimately show ?thesis by simp
qed

text \<open>What a poll is skipped for on another pod's word: only while this pod's own last poll succeeded, never on its
  own note, never on an old one.\<close>

lemma borrowed_tip:
  assumes "fst (fst (freshPeerTip url gen now fetched m)) = Some block"
  shows "localPollHealthy m url \<and> (\<exists>pod age. fetched = Inr (Some (block, pod, age)) \<and> pod \<noteq> podID m \<and> age \<le> relayGateFreshness m)"
  using assms by (auto simp: freshPeerTip_def Let_def split: if_splits sum.splits option.splits)

section \<open>Removed trackers stay removed\<close>

lemma gated_no_change:
  assumes "\<not> acceptsLocked m url gen"
  shows "recordPollObservation url gen block latency err now m = ([], m)"
    "RecordRelayObservation url gen block now m = ((False, []), m)"
    "recordPeerObservation url gen block now m = ((False, []), m)"
    "countRelayCoveredCycle url gen t m = m"
    "snd (RelayTipFresh url gen now fetched m) = m"
proof -
  show *: "recordPollObservation url gen block latency err now m = ([], m)"
    "RecordRelayObservation url gen block now m = ((False, []), m)" "countRelayCoveredCycle url gen t m = m" for t
    using assms by (simp_all add: recordPollObservation_def RecordRelayObservation_def countRelayCoveredCycle_def)
  show p: "recordPeerObservation url gen block now m = ((False, []), m)" for block now
    using assms by (simp add: recordPeerObservation_def)
  show "snd (RelayTipFresh url gen now fetched m) = m"
    by (auto simp: RelayTipFresh_def freshPeerTip_def Let_def p * split: option.split sum.split)
qed

text \<open>The events that carry a url and the generation of the tracker they come from.\<close>

fun event_source :: "monitor_event \<Rightarrow> (string \<times> int) option" where
  "event_source (PollDone url gen block latency err now) = Some (url, gen)"
| "event_source (RelayServed url gen block now) = Some (url, gen)"
| "event_source (GateAsked url gen now fetched) = Some (url, gen)"
| "event_source _ = None"

lemma stale_event: "event_source ev = Some (url, gen) \<Longrightarrow> \<not> acceptsLocked m url gen \<Longrightarrow> monitor_apply ev m = m"
  by (cases ev) (simp_all add: gated_no_change)

definition forgotten :: "EndpointMonitor \<Rightarrow> string \<Rightarrow> bool" where
  "forgotten m url \<longleftrightarrow> mget (generations m) url = None \<and> mget (observations m) url = None
     \<and> tip_Get (mon_tips m) (tipKey m url) = None"

lemma poll_generations: "generations (snd (recordPollObservation u gen block latency err now m)) = generations m"
  "mon_chainID (snd (recordPollObservation u gen block latency err now m)) = mon_chainID m"
  "mon_apiInterface (snd (recordPollObservation u gen block latency err now m)) = mon_apiInterface m"
  "nextObsGen (snd (recordPollObservation u gen block latency err now m)) = nextObsGen m"
  by (auto simp: recordPollObservation_def Let_def)

lemma relay_generations: "generations (snd (RecordRelayObservation u gen block now m)) = generations m"
  "mon_chainID (snd (RecordRelayObservation u gen block now m)) = mon_chainID m"
  "mon_apiInterface (snd (RecordRelayObservation u gen block now m)) = mon_apiInterface m"
  "nextObsGen (snd (RecordRelayObservation u gen block now m)) = nextObsGen m"
  by (auto simp: RecordRelayObservation_def)

lemma gate_generations: "generations (snd (RelayTipFresh u gen now fetched m)) = generations m"
  "mon_chainID (snd (RelayTipFresh u gen now fetched m)) = mon_chainID m"
  "mon_apiInterface (snd (RelayTipFresh u gen now fetched m)) = mon_apiInterface m"
  "nextObsGen (snd (RelayTipFresh u gen now fetched m)) = nextObsGen m"
  by (auto simp: RelayTipFresh_def freshPeerTip_def recordPeerObservation_def countRelayCoveredCycle_def Let_def
      split: option.split sum.split)

lemmas event_generations = poll_generations relay_generations gate_generations

lemma poll_other: "u \<noteq> url \<Longrightarrow> mget (observations (snd (recordPollObservation u gen block latency err now m))) url = mget (observations m) url"
  "u \<noteq> url \<Longrightarrow> tip_Get (mon_tips (snd (recordPollObservation u gen block latency err now m))) (tipKey m url) = tip_Get (mon_tips m) (tipKey m url)"
  by (auto simp: recordPollObservation_def Let_def write_tip_tips tip_Get_def tip_Set_other)

lemma relay_other: "u \<noteq> url \<Longrightarrow> mget (observations (snd (RecordRelayObservation u gen block now m))) url = mget (observations m) url"
  "u \<noteq> url \<Longrightarrow> tip_Get (mon_tips (snd (RecordRelayObservation u gen block now m))) (tipKey m url) = tip_Get (mon_tips m) (tipKey m url)"
  by (auto simp: RecordRelayObservation_def Let_def write_tip_tips tip_Get_def tip_Set_other)

lemma gate_other: "u \<noteq> url \<Longrightarrow> mget (observations (snd (RelayTipFresh u gen now fetched m))) url = mget (observations m) url"
  "u \<noteq> url \<Longrightarrow> tip_Get (mon_tips (snd (RelayTipFresh u gen now fetched m))) (tipKey m url) = tip_Get (mon_tips m) (tipKey m url)"
  by (auto simp: RelayTipFresh_def freshPeerTip_def recordPeerObservation_def countRelayCoveredCycle_def Let_def
      write_tip_tips tip_Get_def tip_Set_other split: option.split sum.split)

lemma event_keys: "tipKey (snd (recordPollObservation u gen block latency err now m)) = tipKey m"
  "tipKey (snd (RecordRelayObservation u gen block now m)) = tipKey m" "tipKey (snd (RelayTipFresh u gen now fetched m)) = tipKey m"
  by (rule tipKey_fields, simp_all add: event_generations)+

lemmas forgotten_other = forgotten_def event_generations event_keys poll_other relay_other gate_other

lemma forgotten_step:
  assumes "forgotten m url" "ev \<noteq> TrackerCreated url"
  shows "forgotten (monitor_apply ev m) url"
proof (cases "event_source ev")
  case None
  then show ?thesis using assms
    by (cases ev) (auto simp: forgotten_def register_generation_def RemoveTracker_def ResetStallCounters_def Stop_def tipKey_def
        tip_Get_Remove tip_Get_Removes map_of_eq_None_iff image_iff split: if_splits)
next
  case (Some ug)
  then obtain u gen where src: "event_source ev = Some (u, gen)" by (cases ug) auto
  show ?thesis
  proof (cases "u = url")
    case True
    with assms(1) have "\<not> acceptsLocked m u gen" by (simp add: acceptsLocked_def forgotten_def)
    with src have "monitor_apply ev m = m" by (rule stale_event)
    with assms(1) show ?thesis by simp
  next
    case False
    then show ?thesis using assms(1) src by (cases ev) (auto simp: forgotten_other)
  qed
qed

lemma forgotten_run: "TrackerCreated url \<notin> set evs \<Longrightarrow> forgotten m url \<Longrightarrow> forgotten (monitor_run evs m) url"
proof (induction evs arbitrary: m)
  case (Cons ev evs)
  then have "forgotten (monitor_apply ev m) url" by (intro forgotten_step) auto
  with Cons show ?case by simp
qed simp

lemma generations_grow: "nextObsGen m \<le> nextObsGen (monitor_run evs m)"
proof (induction evs arbitrary: m)
  case (Cons ev evs)
  have "nextObsGen m \<le> nextObsGen (monitor_apply ev m)"
    by (cases ev) (simp_all add: event_generations register_generation_def RemoveTracker_def ResetStallCounters_def Stop_def)
  then show ?case using Cons [of "monitor_apply ev m"] by simp
qed simp

text \<open>A removed tracker leaves nothing behind. After \<open>RemoveTracker\<close>, whatever polls, relays and gate
  questions of the old tracker still arrive, in any order and mixed with the traffic of other urls, the url has
  no observation and no tip until a tracker is created for it again; and a tracker created then is not
  touched by events that carry a generation issued before it.\<close>

theorem removed_tracker_stays_removed:
  assumes "TrackerCreated url \<notin> set evs"
  shows "GetObservation (monitor_run evs (RemoveTracker url m)) url = (zero_observation, False)
    \<and> (\<forall>ev gen. event_source ev = Some (url, gen) \<longrightarrow> gen \<le> nextObsGen m \<longrightarrow>
        monitor_apply ev (snd (register_generation url (monitor_run evs (RemoveTracker url m))))
        = snd (register_generation url (monitor_run evs (RemoveTracker url m))))"
proof -
  let ?m = "monitor_run evs (RemoveTracker url m)"
  have f0: "forgotten (RemoveTracker url m) url"
    by (simp add: forgotten_def RemoveTracker_def tip_Get_Remove tipKey_def)
  have f: "forgotten ?m url" using forgotten_run [OF assms f0] .
  from generations_grow [of "RemoveTracker url m" evs] have "nextObsGen m \<le> nextObsGen ?m" by (simp add: RemoveTracker_def)
  then have "gen \<le> nextObsGen m \<Longrightarrow> \<not> acceptsLocked (snd (register_generation url ?m)) url gen" for gen
    by (simp add: acceptsLocked_def register_generation_def)
  then have "\<forall>ev gen. event_source ev = Some (url, gen) \<longrightarrow> gen \<le> nextObsGen m \<longrightarrow>
      monitor_apply ev (snd (register_generation url ?m)) = snd (register_generation url ?m)"
    using stale_event by blast
  moreover have "GetObservation ?m url = (zero_observation, False)"
    using f by (simp add: GetObservation_def fill_tip_def observation_of_def forgotten_def)
  ultimately show ?thesis by blast
qed

theorem removed_tracker_stays_removed_witness:
  "GetObservation (monitor_run [PollDone ''u'' 1 100 5 None 9] (RemoveTracker ''u''
      (snd (register_generation ''u'' (NewEndpointMonitor ''ETH1'' ''jsonrpc'' 0 0 False ''pod'' []))))) ''u'' = (zero_observation, False)"
proof -
  let ?m = "snd (register_generation ''u'' (NewEndpointMonitor ''ETH1'' ''jsonrpc'' 0 0 False ''pod'' []))"
  show ?thesis using removed_tracker_stays_removed [of "''u''" "[PollDone ''u'' 1 100 5 None 9]" ?m] by simp
qed

section \<open>Verdicts\<close>

record RecoveryEvidence =
  re_LastSuccessfulPoll :: time
  PollHealthy :: bool

record EndpointVerdict =
  Healthy :: bool
  v_Latency :: duration
  v_Block :: int
  v_Recovery :: RecoveryEvidence

record ProviderSample =
  Availability :: real
  HasLatency :: bool
  ps_Latency :: duration
  HasBlock :: bool
  ps_Block :: int

record VerdictConfig =
  vc_StalenessWindow :: duration
  LagToleranceBlocks :: int
  ReEnableHysteresis :: int

definition DefaultProbeReEnableHysteresis :: int where "DefaultProbeReEnableHysteresis = 3"
definition minProbeStaleness :: duration where "minProbeStaleness = 5 * second"
definition DefaultLagToleranceBlocks :: int where "DefaultLagToleranceBlocks = 10"

definition DefaultVerdictConfig :: "duration \<Rightarrow> VerdictConfig" where
  "DefaultVerdictConfig averageBlockTime =
     \<lparr>vc_StalenessWindow = max (StalenessWindow averageBlockTime) minProbeStaleness,
      LagToleranceBlocks = DefaultLagToleranceBlocks, ReEnableHysteresis = DefaultProbeReEnableHysteresis\<rparr>"

text \<open>The consensus baseline is an option: \<open>None\<close> when there is none.\<close>

definition RenderEndpointVerdict :: "EndpointObservation \<Rightarrow> int64 option \<Rightarrow> time \<Rightarrow> VerdictConfig \<Rightarrow> EndpointVerdict" where
  "RenderEndpointVerdict ob base now vc =
     (let alive = (obs_LatestBlock ob > 0 \<and> obs_ObservedAt ob \<noteq> zero_time
                   \<and> time_sub now (obs_ObservedAt ob) \<le> vc_StalenessWindow vc);
          keepingUp = (case base of
                         Some b \<Rightarrow> obs_LatestBlock ob > 0 \<longrightarrow> obs_LatestBlock ob \<ge> wrap64 (b - LagToleranceBlocks vc)
                       | None \<Rightarrow> True);
          block = (if obs_LatestBlock ob > 0 then obs_LatestBlock ob else 0);
          pollSucceededLast = (ConsecutivePollFailures ob = 0 \<and> LastSuccessfulPoll ob \<noteq> zero_time)
      in \<lparr>Healthy = (alive \<and> keepingUp), v_Latency = LastPollLatency ob, v_Block = block,
          v_Recovery = \<lparr>re_LastSuccessfulPoll = LastSuccessfulPoll ob, PollHealthy = (pollSucceededLast \<and> keepingUp)\<rparr>\<rparr>)"

fun aggregate_loop :: "EndpointVerdict list \<Rightarrow> nat \<Rightarrow> bool \<Rightarrow> duration \<Rightarrow> bool \<Rightarrow> int \<Rightarrow> nat \<times> bool \<times> duration \<times> bool \<times> int" where
  "aggregate_loop [] healthy haveLatency minLatency haveBlock maxBlock = (healthy, haveLatency, minLatency, haveBlock, maxBlock)"
| "aggregate_loop (v # vs) healthy haveLatency minLatency haveBlock maxBlock =
     (if \<not> Healthy v then aggregate_loop vs healthy haveLatency minLatency haveBlock maxBlock
      else
        let lat = (v_Latency v > 0 \<and> (\<not> haveLatency \<or> v_Latency v < minLatency));
            blk = (v_Block v > 0 \<and> v_Block v > maxBlock)
        in aggregate_loop vs (healthy + 1) (haveLatency \<or> lat) (if lat then v_Latency v else minLatency)
             (haveBlock \<or> blk) (if blk then v_Block v else maxBlock))"

definition AggregateProviderSample :: "EndpointVerdict list \<Rightarrow> ProviderSample option" where
  "AggregateProviderSample verdicts =
     (if verdicts = [] then None
      else case aggregate_loop verdicts 0 False 0 False 0 of
             (healthy, haveLatency, minLatency, haveBlock, maxBlock) \<Rightarrow>
               Some \<lparr>Availability = real healthy / real (length verdicts), HasLatency = haveLatency,
                     ps_Latency = minLatency, HasBlock = haveBlock, ps_Block = maxBlock\<rparr>)"

text \<open>The sample: the share of healthy endpoints, the smallest known latency and the highest known block among them.\<close>

abbreviation known_latencies :: "EndpointVerdict list \<Rightarrow> duration set" where
  "known_latencies vs \<equiv> {v_Latency v | v. v \<in> set vs \<and> Healthy v \<and> 0 < v_Latency v}"

abbreviation known_blocks :: "EndpointVerdict list \<Rightarrow> int set" where
  "known_blocks vs \<equiv> {v_Block v | v. v \<in> set vs \<and> Healthy v \<and> 0 < v_Block v}"

lemma aggregate_loop_spec:
  assumes "aggregate_loop vs h0 hl ml hb mb = (h, hl', ml', hb', mb')" "0 \<le> mb" "hb \<longleftrightarrow> 0 < mb"
  shows "h = h0 + length (filter Healthy vs)
    \<and> (hl' \<longleftrightarrow> hl \<or> known_latencies vs \<noteq> {})
    \<and> (hl' \<longrightarrow> (hl \<and> ml' = ml \<or> ml' \<in> known_latencies vs) \<and> (hl \<longrightarrow> ml' \<le> ml) \<and> (\<forall>x\<in>known_latencies vs. ml' \<le> x))
    \<and> mb' \<in> insert mb (known_blocks vs) \<and> (\<forall>x\<in>insert mb (known_blocks vs). x \<le> mb') \<and> (hb' \<longleftrightarrow> 0 < mb')"
  using assms
proof (induction vs h0 hl ml hb mb rule: aggregate_loop.induct)
  case (2 v vs h0 hl ml hb mb)
  show ?case
  proof (cases "Healthy v")
    case False
    with 2 show ?thesis by auto
  next
    case True
    let ?lat = "v_Latency v > 0 \<and> (\<not> hl \<or> v_Latency v < ml)" and ?blk = "v_Block v > 0 \<and> v_Block v > mb"
    have eq: "aggregate_loop vs (h0 + 1) (hl \<or> ?lat) (if ?lat then v_Latency v else ml) (hb \<or> ?blk) (if ?blk then v_Block v else mb)
        = (h, hl', ml', hb', mb')" using 2(3) True by (simp add: Let_def)
    have "0 \<le> (if ?blk then v_Block v else mb)" "(hb \<or> ?blk) = (0 < (if ?blk then v_Block v else mb))" using 2(4,5) by auto
    note ih = 2(2) [OF True[THEN not_not[THEN iffD2]] refl refl eq this]
    have "known_latencies (v # vs) = (if 0 < v_Latency v then insert (v_Latency v) (known_latencies vs) else known_latencies vs)"
      "known_blocks (v # vs) = (if 0 < v_Block v then insert (v_Block v) (known_blocks vs) else known_blocks vs)"
      using True by auto
    with ih True show ?thesis by (auto split: if_splits)
  qed
qed simp

lemma provider_sample_spec:
  assumes "AggregateProviderSample vs = Some s"
  shows "Availability s = real (length (filter Healthy vs)) / real (length vs)"
    "HasLatency s \<longleftrightarrow> known_latencies vs \<noteq> {}"
    "HasLatency s \<Longrightarrow> ps_Latency s \<in> known_latencies vs \<and> (\<forall>x\<in>known_latencies vs. ps_Latency s \<le> x)"
    "HasBlock s \<longleftrightarrow> known_blocks vs \<noteq> {}"
    "HasBlock s \<Longrightarrow> ps_Block s \<in> known_blocks vs \<and> (\<forall>x\<in>known_blocks vs. x \<le> ps_Block s)"
proof -
  obtain h hl ml hb mb where l: "aggregate_loop vs 0 False 0 False 0 = (h, hl, ml, hb, mb)" by (metis prod_cases5)
  have s: "s = \<lparr>Availability = real h / real (length vs), HasLatency = hl, ps_Latency = ml, HasBlock = hb, ps_Block = mb\<rparr>"
    using assms l by (auto simp: AggregateProviderSample_def split: if_splits)
  note f = aggregate_loop_spec [OF l, simplified]
  show "Availability s = real (length (filter Healthy vs)) / real (length vs)" using f s by simp
  show "HasLatency s \<longleftrightarrow> known_latencies vs \<noteq> {}" using f s by auto
  show "HasLatency s \<Longrightarrow> ps_Latency s \<in> known_latencies vs \<and> (\<forall>x\<in>known_latencies vs. ps_Latency s \<le> x)" using f s by auto
  show "HasBlock s \<longleftrightarrow> known_blocks vs \<noteq> {}" "HasBlock s \<Longrightarrow> ps_Block s \<in> known_blocks vs \<and> (\<forall>x\<in>known_blocks vs. x \<le> ps_Block s)"
    using f s by fastforce+
qed

section \<open>The probe loop reads the monitor\<close>

text \<open>A run of one url: monitor events, events of its endpoint other than probes, and probe cycles, which feed the
  endpoint what the monitor holds at that moment.\<close>

datatype loop_event =
    MonitorEvent monitor_event
  | EndpointEvent ep_event
  | ProbeCycle time "int64 option" VerdictConfig

definition probe_event :: "string \<Rightarrow> time \<Rightarrow> int64 option \<Rightarrow> VerdictConfig \<Rightarrow> EndpointMonitor \<Rightarrow> ep_event" where
  "probe_event url now base vc m =
     (let v = v_Recovery (RenderEndpointVerdict (fst (GetObservation m url)) base now vc)
      in Probed (re_LastSuccessfulPoll v) (PollHealthy v) (ReEnableHysteresis vc))"

fun endpoint_trace :: "string \<Rightarrow> loop_event list \<Rightarrow> EndpointMonitor \<Rightarrow> ep_event list" where
  "endpoint_trace url [] m = []"
| "endpoint_trace url (MonitorEvent ev # evs) m = endpoint_trace url evs (monitor_apply ev m)"
| "endpoint_trace url (EndpointEvent ev # evs) m = ev # endpoint_trace url evs m"
| "endpoint_trace url (ProbeCycle now base vc # evs) m = probe_event url now base vc m # endpoint_trace url evs m"

fun monitor_trace :: "loop_event list \<Rightarrow> monitor_event list" where
  "monitor_trace [] = []"
| "monitor_trace (MonitorEvent ev # evs) = ev # monitor_trace evs"
| "monitor_trace (_ # evs) = monitor_trace evs"

lemma monitor_trace_append [simp]: "monitor_trace (xs @ ys) = monitor_trace xs @ monitor_trace ys"
  by (induction xs rule: monitor_trace.induct) simp_all

lemma endpoint_trace_append:
  "endpoint_trace url (xs @ ys) m = endpoint_trace url xs m @ endpoint_trace url ys (monitor_run (monitor_trace xs) m)"
  by (induction url xs m rule: endpoint_trace.induct) simp_all

lemma probe_polls_are_local:
  assumes "\<forall>u. tip_Get tips (Key chain api u) = None" "\<forall>p h k. EndpointEvent (Probed p h k) \<notin> set evs"
    and "Probed p True k \<in> set (endpoint_trace url evs (monitor_run evs0 (NewEndpointMonitor chain api avg divisor peers pod tips)))"
  shows "p \<in> local_polls url (evs0 @ monitor_trace evs)"
  using assms(2,3)
proof (induction evs arbitrary: evs0)
  case (Cons ev evs)
  let ?m = "\<lambda>xs. monitor_run xs (NewEndpointMonitor chain api avg divisor peers pod tips)"
  show ?case
  proof (cases ev)
    case (MonitorEvent mev)
    then show ?thesis using Cons.IH [of "evs0 @ [mev]"] Cons.prems by simp
  next
    case (EndpointEvent e)
    then show ?thesis using Cons.IH [of evs0] Cons.prems by auto
  next
    case (ProbeCycle now base vc)
    have "first_hand evs0 (?m evs0) url" by (rule monitor_run_first_hand [OF assms(1)])
    then have "probe_event url now base vc (?m evs0) = Probed p True k \<Longrightarrow> p \<in> local_polls url evs0"
      by (auto simp: probe_event_def RenderEndpointVerdict_def GetObservation_def fill_tip_def first_hand_def Let_def split: option.splits)
    moreover have "local_polls url evs0 \<subseteq> local_polls url (evs0 @ monitor_trace (ev # evs))" by (intro local_mono) auto
    ultimately show ?thesis using Cons.IH [of evs0] Cons.prems ProbeCycle by auto
  qed
qed simp

lemma finite_local_polls: "finite (local_polls url evs)"
  by (rule finite_subset [of _ "(\<lambda>ev. case ev of PollDone u g b l e now \<Rightarrow> now | _ \<Rightarrow> 0) ` set evs"])
     (force simp: local_polls_def image_iff)+

text \<open>C27. End to end: the probe loop returns a url to rotation on polls alone only after this process itself has
  polled the url successfully, at instants after the failure that took it out, as often as the configured streak
  demands, doubled for every recent relapse. However polls, relays, other pods' notes, failures and
  replays interleave, nothing else substitutes for such a poll.\<close>

theorem reenabled_on_own_polls:
  assumes "\<forall>u. tip_Get tips (Key chain api u) = None" "\<forall>p h k. EndpointEvent (Probed p h k) \<notin> set evs"
    and "m = monitor_run evs0 (NewEndpointMonitor chain api avg divisor peers pod tips)"
    and "ep_Enabled e0" "e = markUnhealthyAt maxA t reason e0" "stays_disabled maxA (endpoint_trace url evs m) e"
    and "e' = ep_run maxA (endpoint_trace url evs m) e"
    and "ep_Enabled (ep_apply maxA (probe_event url now base vc (monitor_run (monitor_trace evs) m)) e')"
  shows "shl64 (max 1 (ReEnableHysteresis vc)) (reenableProbeFlaps e')
    \<le> int (card {p \<in> local_polls url (evs0 @ monitor_trace evs). t < p})"
proof -
  let ?evs = "evs @ [ProbeCycle now base vc]"
  let ?tr = "endpoint_trace url evs m"
  obtain p h k where pr: "probe_event url now base vc (monitor_run (monitor_trace evs) m) = Probed p h k" "k = ReEnableHysteresis vc"
    by (simp add: probe_event_def Let_def)
  have tr: "endpoint_trace url ?evs m = ?tr @ [Probed p h k]" using pr(1) by (simp add: endpoint_trace_append)
  have "\<not> ep_Enabled e'" using stays_disabled_end [OF assms(6)] assms(7) by simp
  with assms(8) pr(1) have rep: "RecordProbeVerdict maxA p h k e' = (True, snd (RecordProbeVerdict maxA p h k e'))"
    by (auto simp: endpoint_defs Let_def split: if_splits)
  have "q \<in> local_polls url (evs0 @ monitor_trace evs)" if "Probed q True j \<in> set (?tr @ [Probed p h k])" for q j
  proof -
    have "\<forall>p h k. EndpointEvent (Probed p h k) \<notin> set ?evs" using assms(2) by simp
    moreover have "Probed q True j \<in> set (endpoint_trace url ?evs (monitor_run evs0 (NewEndpointMonitor chain api avg divisor peers pod tips)))"
      using that tr assms(3) by simp
    ultimately show ?thesis using probe_polls_are_local [OF assms(1)] by fastforce
  qed
  then have "healthy_polls t (?tr @ [Probed p h k]) \<subseteq> {p \<in> local_polls url (evs0 @ monitor_trace evs). t < p}"
    by (auto simp: healthy_polls_def)
  then have "card (healthy_polls t (?tr @ [Probed p h k])) \<le> card {p \<in> local_polls url (evs0 @ monitor_trace evs). t < p}"
    by (intro card_mono) (simp_all add: finite_local_polls)
  moreover have "shl64 (max 1 k) (reenableProbeFlaps e') \<le> int (card (healthy_polls t (?tr @ [Probed p h k])))"
    using reenable_polls_counted [OF assms(4,5,6)] rep assms(7) by blast
  ultimately show ?thesis using pr(2) by simp
qed

theorem reenabled_on_own_polls_witness:
  "1 \<le> int (card {p \<in> local_polls ''u'' [TrackerCreated ''u'', PollDone ''u'' 1 100 5 None 9]. 7 < p})"
proof -
  let ?m = "monitor_run [TrackerCreated ''u''] (NewEndpointMonitor ''ETH1'' ''jsonrpc'' 0 0 True ''pod'' [])"
  let ?vc = "\<lparr>vc_StalenessWindow = 5, LagToleranceBlocks = 10, ReEnableHysteresis = 1\<rparr>"
  let ?evs = "[MonitorEvent (PollDone ''u'' 1 100 5 None 9)]"
  have "probe_event ''u'' 10 None ?vc (monitor_run (monitor_trace ?evs) ?m) = Probed 9 True 1"
    by (simp add: probe_event_def RenderEndpointVerdict_def NewEndpointMonitor_def register_generation_def recordPollObservation_def
        acceptsLocked_def observation_of_def zero_observation_def GetObservation_def fill_tip_def Let_def split: option.split)
  moreover have "ep_Enabled (ep_apply 1 (Probed 9 True 1) sample_disabled)" "\<not> ep_Enabled sample_disabled"
    "ep_Enabled sample_endpoint" "reenableProbeFlaps sample_disabled = 0"
    by (simp_all add: sample_disabled_def sample_endpoint_def new_endpoint_def endpoint_defs shl64_def Let_def)
  moreover have "\<forall>u. tip_Get [] (Key ''ETH1'' ''jsonrpc'' u) = None" by (simp add: tip_Get_def)
  ultimately show ?thesis
    using reenabled_on_own_polls [of "[]" "''ETH1''" "''jsonrpc''" ?evs ?m "[TrackerCreated ''u'']" 0 0 True "''pod''"
        sample_endpoint sample_disabled 1 7 EndpointDisableNodeError "''u''" sample_disabled 10 None ?vc]
    by (simp add: sample_disabled_def [symmetric] shl64_def)
qed

end
