(* ===== verification/HeadStall.thy ===== *)
theory HeadStall
  imports EndpointMonitor
begin

text \<open>
  Head-stalled endpoints (\<open>src/protocol/rpcsmartrouter/head_stall.go\<close>).

  An endpoint that keeps answering with one block while another url moves ahead is taken out of rotation, never the
  last usable one. One \<open>Endpoint\<close> object can be listed twice and several objects can share a url, so endpoints
  live in a heap and are named by their address. The callbacks to the session manager and to the health gauge are
  a list of calls.
\<close>

section \<open>Endpoints in a heap\<close>

type_synonym ep_heap = "nat \<Rightarrow> Endpoint"

record EndpointWithDirectConnection =
  ewd_Endpoint :: nat
  ewd_ProviderAddress :: string
  Backup :: bool

datatype stall_call = Recovered string | ProviderHealth string bool

record headStallState =
  stalled :: "string list"
  kept :: "string list"

record headStallResult =
  res_added :: int
  res_removed :: int
  res_kept :: int
  res_released :: int

text \<open>What one step carries along: the heap, the kept urls, the calls made and the counts.\<close>

record stall_step =
  ss_heap :: ep_heap
  ss_kept :: "string list"
  ss_calls :: "stall_call list"
  ss_res :: headStallResult

definition isStalled :: "headStallState \<Rightarrow> string \<Rightarrow> bool" where
  "isStalled s url \<longleftrightarrow> url \<in> set (stalled s)"

definition markKept :: "string \<Rightarrow> string list \<Rightarrow> bool \<times> string list" where
  "markKept url ks = (if url \<in> set ks then (False, ks) else (True, ks @ [url]))"

definition clearKept :: "string \<Rightarrow> string list \<Rightarrow> string list" where
  "clearKept url ks = filter (\<lambda>u. u \<noteq> url) ks"

definition headStall_sync :: "string list \<Rightarrow> string list \<Rightarrow> string list \<Rightarrow> headStallState" where
  "headStall_sync stalledURLs liveURLs ks = \<lparr>stalled = stalledURLs, kept = filter (\<lambda>u. u \<in> set liveURLs) ks\<rparr>"

definition headStall_reset :: headStallState where
  "headStall_reset = \<lparr>stalled = [], kept = []\<rparr>"

section \<open>Grouping by url\<close>

text \<open>One entry per endpoint object, in the order listed.\<close>

fun unique_endpoints :: "EndpointWithDirectConnection list \<Rightarrow> nat list \<Rightarrow> EndpointWithDirectConnection list" where
  "unique_endpoints [] seen = []"
| "unique_endpoints (ep # eps) seen =
     (if ewd_Endpoint ep \<in> set seen then unique_endpoints eps seen
      else ep # unique_endpoints eps (ewd_Endpoint ep # seen))"

fun group_by_url :: "ep_heap \<Rightarrow> EndpointWithDirectConnection list \<Rightarrow> (string, EndpointWithDirectConnection list) gomap \<Rightarrow>
    (string, EndpointWithDirectConnection list) gomap" where
  "group_by_url h [] groups = groups"
| "group_by_url h (ep # eps) groups =
     group_by_url h eps
       (let url = NetworkAddress (h (ewd_Endpoint ep))
        in mput url ((case mget groups url of Some g \<Rightarrow> g | None \<Rightarrow> []) @ [ep]) groups)"

definition groupAny :: "ep_heap \<Rightarrow> (Endpoint \<Rightarrow> bool) \<Rightarrow> EndpointWithDirectConnection list \<Rightarrow> bool" where
  "groupAny h pred eps \<longleftrightarrow> list_ex (\<lambda>ep. pred (h (ewd_Endpoint ep))) eps"

definition countUsableURLs :: "ep_heap \<Rightarrow> (string, EndpointWithDirectConnection list) gomap \<Rightarrow> int" where
  "countUsableURLs h groups = int (length (filter (\<lambda>g. groupAny h IsUsable (snd g)) groups))"

definition providerAllUsable :: "ep_heap \<Rightarrow> EndpointWithDirectConnection list \<Rightarrow> string \<Rightarrow> bool" where
  "providerAllUsable h everyone provider \<longleftrightarrow>
     list_all (\<lambda>ep. ewd_ProviderAddress ep = provider \<longrightarrow> IsUsable (h (ewd_Endpoint ep))) everyone"

fun stuckRecord :: "ep_heap \<Rightarrow> EndpointWithDirectConnection list \<Rightarrow> StateReasonRecord option" where
  "stuckRecord h [] = None"
| "stuckRecord h (ep # eps) =
     (case StateReason EndpointDisableHeadStalled (h (ewd_Endpoint ep)) of Some r \<Rightarrow> Some r | None \<Rightarrow> stuckRecord h eps)"

definition holdsStall :: "Endpoint \<Rightarrow> bool" where
  "holdsStall e \<longleftrightarrow> StateReason EndpointDisableHeadStalled e \<noteq> None"

section \<open>Releasing a url\<close>

text \<open>The reason comes off every endpoint of the url that holds it.\<close>

definition remove_stall :: "ep_heap \<Rightarrow> nat \<Rightarrow> ep_heap" where
  "remove_stall h p = h(p := snd (RemoveStateReason EndpointDisableHeadStalled (h p)))"

definition heap_release :: "EndpointWithDirectConnection list \<Rightarrow> ep_heap \<Rightarrow> ep_heap" where
  "heap_release eps h = fold (\<lambda>ep h. remove_stall h (ewd_Endpoint ep)) eps h"

definition release :: "EndpointWithDirectConnection list \<Rightarrow> string \<times> EndpointWithDirectConnection list \<Rightarrow> stall_step \<Rightarrow> bool \<times> stall_step" where
  "release everyone g s =
     (case stuckRecord (ss_heap s) (snd g) of
        None \<Rightarrow> (False, s)
      | Some sr \<Rightarrow>
          let released = filter (\<lambda>ep. holdsStall (ss_heap s (ewd_Endpoint ep))) (snd g);
              h = heap_release (snd g) (ss_heap s)
          in if released = [] then (False, s\<lparr>ss_heap := h\<rparr>)
             else (True, s\<lparr>ss_heap := h, ss_kept := clearKept (fst g) (ss_kept s),
               ss_calls := ss_calls s @ concat (map (\<lambda>ep.
                 if \<not> IsUsable (h (ewd_Endpoint ep)) then []
                 else Recovered (ewd_ProviderAddress ep) #
                      (if providerAllUsable h everyone (ewd_ProviderAddress ep)
                       then [ProviderHealth (ewd_ProviderAddress ep) True] else [])) released)\<rparr>))"

section \<open>The step\<close>

definition remove_moved :: "(string \<Rightarrow> EndpointObservation) \<Rightarrow> EndpointWithDirectConnection list \<Rightarrow>
    string \<times> EndpointWithDirectConnection list \<Rightarrow> stall_step \<Rightarrow> stall_step" where
  "remove_moved obs everyone g s =
     (case stuckRecord (ss_heap s) (snd g) of
        None \<Rightarrow> s
      | Some sr \<Rightarrow>
          if HighestBlockSeen (obs (fst g)) > sr_Block sr then
            case release everyone g s of
              (True, s1) \<Rightarrow> s1\<lparr>ss_res := (ss_res s1)\<lparr>res_removed := res_removed (ss_res s1) + 1\<rparr>\<rparr>
            | (False, s1) \<Rightarrow> s1
          else s)"

definition chain_high :: "(string \<Rightarrow> EndpointObservation) \<Rightarrow> string list \<Rightarrow> int" where
  "chain_high obs urls = fold (\<lambda>url high. max (HighestBlockSeen (obs url)) high) urls 0"

definition add_stall :: "time \<Rightarrow> int \<Rightarrow> EndpointWithDirectConnection list \<Rightarrow> ep_heap \<Rightarrow> ep_heap" where
  "add_stall now block eps h =
     fold (\<lambda>ep h. h(ewd_Endpoint ep := snd (AddStateReason EndpointDisableHeadStalled now block (h (ewd_Endpoint ep))))) eps h"

definition add_stalled :: "(string \<Rightarrow> EndpointObservation) \<Rightarrow> int \<Rightarrow> time \<Rightarrow> int \<Rightarrow>
    string \<times> EndpointWithDirectConnection list \<Rightarrow> int \<times> stall_step \<Rightarrow> int \<times> stall_step" where
  "add_stalled obs n now chainHigh g us =
     (case us of (usable, s) \<Rightarrow>
        let pending = filter (\<lambda>ep. \<not> holdsStall (ss_heap s (ewd_Endpoint ep))) (snd g);
            ob = obs (fst g);
            wasUsable = groupAny (ss_heap s) IsUsable (snd g)
        in if pending = [] then (usable, s)
           else if SameBlockCycles ob < n \<or> HighestBlockSeen ob \<le> 0 \<or> HighestBlockSeen ob \<ge> chainHigh then
             (usable, s\<lparr>ss_kept := clearKept (fst g) (ss_kept s)\<rparr>)
           else if wasUsable \<and> usable \<le> 1 then
             case markKept (fst g) (ss_kept s) of
               (isFirst, ks) \<Rightarrow>
                 (usable, s\<lparr>ss_kept := ks, ss_res := (if isFirst then (ss_res s)\<lparr>res_kept := res_kept (ss_res s) + 1\<rparr> else ss_res s)\<rparr>)
           else
             (if wasUsable then usable - 1 else usable,
              s\<lparr>ss_heap := add_stall now (HighestBlockSeen ob) pending (ss_heap s), ss_kept := clearKept (fst g) (ss_kept s),
                ss_res := (ss_res s)\<lparr>res_added := res_added (ss_res s) + 1\<rparr>\<rparr>))"

text \<open>The stuck url to bring back: the highest block, the most recently stuck on a tie.\<close>

fun pick_stalled :: "ep_heap \<Rightarrow> (string, EndpointWithDirectConnection list) gomap \<Rightarrow>
    ((string \<times> EndpointWithDirectConnection list) \<times> StateReasonRecord) option \<Rightarrow>
    ((string \<times> EndpointWithDirectConnection list) \<times> StateReasonRecord) option" where
  "pick_stalled h [] pick = pick"
| "pick_stalled h (g # gs) pick =
     (case stuckRecord h (snd g) of
        None \<Rightarrow> pick_stalled h gs pick
      | Some sr \<Rightarrow>
          if \<not> groupAny h ep_Enabled (snd g) then pick_stalled h gs pick
          else case pick of
                 None \<Rightarrow> pick_stalled h gs (Some (g, sr))
               | Some (_, best) \<Rightarrow>
                   if sr_Block sr > sr_Block best \<or> (sr_Block sr = sr_Block best \<and> sr_Since sr > sr_Since best)
                   then pick_stalled h gs (Some (g, sr)) else pick_stalled h gs pick)"

definition never_empty :: "EndpointWithDirectConnection list \<Rightarrow> (string, EndpointWithDirectConnection list) gomap \<Rightarrow> stall_step \<Rightarrow> stall_step" where
  "never_empty everyone groups s =
     (if countUsableURLs (ss_heap s) groups \<noteq> 0 then s
      else case pick_stalled (ss_heap s) groups None of
             None \<Rightarrow> s
           | Some (g, _) \<Rightarrow>
               (case release everyone g s of
                  (True, s1) \<Rightarrow> s1\<lparr>ss_kept := snd (markKept (fst g) (ss_kept s1)),
                                  ss_res := (ss_res s1)\<lparr>res_released := res_released (ss_res s1) + 1\<rparr>\<rparr>
                | (False, s1) \<Rightarrow> s1))"

text \<open>The endpoints that hold the reason, with their url.\<close>

definition stall_holders :: "ep_heap \<Rightarrow> (string, EndpointWithDirectConnection list) gomap \<Rightarrow> (string \<times> EndpointWithDirectConnection) list" where
  "stall_holders h groups =
     concat (map (\<lambda>g. map (\<lambda>ep. (fst g, ep)) (filter (\<lambda>ep. holdsStall (h (ewd_Endpoint ep))) (snd g))) groups)"

definition runHeadStallStep :: "EndpointWithDirectConnection list \<Rightarrow> (string \<Rightarrow> EndpointObservation) \<Rightarrow> int \<Rightarrow> time \<Rightarrow>
    headStallState \<Rightarrow> ep_heap \<Rightarrow> headStallResult \<times> stall_call list \<times> headStallState \<times> ep_heap" where
  "runHeadStallStep endpoints obs n now state h =
     (let everyone = unique_endpoints endpoints [];
          relaying = filter (\<lambda>ep. ServesDirectRelays (h (ewd_Endpoint ep))) everyone;
          groups = group_by_url h relaying [];
          s0 = \<lparr>ss_heap = h, ss_kept = kept state, ss_calls = [],
                ss_res = \<lparr>res_added = 0, res_removed = 0, res_kept = 0, res_released = 0\<rparr>\<rparr>;
          s1 = fold (remove_moved obs everyone) groups s0;
          chainHigh = chain_high obs (map (\<lambda>ep. NetworkAddress (h (ewd_Endpoint ep))) everyone);
          s2 = snd (fold (add_stalled obs n now chainHigh) groups (countUsableURLs (ss_heap s1) groups, s1));
          s3 = never_empty everyone groups s2;
          holders = stall_holders (ss_heap s3) groups
      in (ss_res s3,
          ss_calls s3 @ map (\<lambda>p. ProviderHealth p False) (remdups (map (ewd_ProviderAddress \<circ> snd) holders)),
          headStall_sync (remdups (map fst holders)) (map fst groups) (ss_kept s3),
          ss_heap s3))"

section \<open>What a step can change\<close>

lemma StateReason_remove [simp]:
  "StateReason r (snd (RemoveStateReason r' e)) = (if r = r' then None else StateReason r e)"
  by (auto simp: StateReason_def RemoveStateReason_def split: option.split)

lemma StateReason_add [simp]:
  "StateReason r (snd (AddStateReason r' now b e)) =
    (if r = r' \<and> StateReason r e = None then Some \<lparr>sr_Reason = r, sr_Since = now, sr_Block = b\<rparr> else StateReason r e)"
  by (auto simp: StateReason_def AddStateReason_def split: option.split)

lemma remove_idem [simp]: "snd (RemoveStateReason r (snd (RemoveStateReason r e))) = snd (RemoveStateReason r e)"
  by (simp add: RemoveStateReason_def split: option.split)

lemma add_idem [simp]: "snd (AddStateReason r now b (snd (AddStateReason r now b e))) = snd (AddStateReason r now b e)"
  by (simp add: AddStateReason_def split: option.split)

lemma reason_ops_fields [simp]:
  "ep_Enabled (snd (RemoveStateReason r e)) = ep_Enabled e" "ep_Enabled (snd (AddStateReason r now b e)) = ep_Enabled e"
  "NetworkAddress (snd (RemoveStateReason r e)) = NetworkAddress e" "NetworkAddress (snd (AddStateReason r now b e)) = NetworkAddress e"
  "DirectConnections (snd (RemoveStateReason r e)) = DirectConnections e" "DirectConnections (snd (AddStateReason r now b e)) = DirectConnections e"
  by (auto simp: RemoveStateReason_def AddStateReason_def split: option.split)

lemma heap_release_at:
  "heap_release eps h p = (if p \<in> ewd_Endpoint ` set eps then snd (RemoveStateReason EndpointDisableHeadStalled (h p)) else h p)"
  unfolding heap_release_def by (induction eps arbitrary: h) (auto simp: remove_stall_def)

lemma add_stall_at:
  "add_stall now b eps h p = (if p \<in> ewd_Endpoint ` set eps then snd (AddStateReason EndpointDisableHeadStalled now b (h p)) else h p)"
  unfolding add_stall_def by (induction eps arbitrary: h) auto

text \<open>The only state reason in use.\<close>

definition only_head_stall :: "Endpoint \<Rightarrow> bool" where
  "only_head_stall e \<longleftrightarrow> fst ` set (stateReasons e) \<subseteq> {EndpointDisableHeadStalled}"

lemma only_head_stall_ops:
  "only_head_stall e \<Longrightarrow> only_head_stall (snd (AddStateReason EndpointDisableHeadStalled now b e))"
  "only_head_stall e \<Longrightarrow> stateReasons (snd (RemoveStateReason EndpointDisableHeadStalled e)) = []"
proof -
  show "only_head_stall e \<Longrightarrow> only_head_stall (snd (AddStateReason EndpointDisableHeadStalled now b e))"
    by (auto simp: only_head_stall_def AddStateReason_def dom_update split: option.split)
  assume e: "only_head_stall e"
  have "mdel EndpointDisableHeadStalled (stateReasons e) = []"
    using e by (auto simp: only_head_stall_def AList.delete_eq filter_empty_conv)
  moreover have "stateReasons e = []" if "mget (stateReasons e) EndpointDisableHeadStalled = None"
  proof (rule ccontr)
    assume "stateReasons e \<noteq> []"
    then obtain k v where "(k, v) \<in> set (stateReasons e)" by (metis list.set_intros(1) list.exhaust surj_pair)
    with e have "EndpointDisableHeadStalled \<in> fst ` set (stateReasons e)" by (force simp: only_head_stall_def)
    with that show False by (simp add: map_of_eq_None_iff)
  qed
  ultimately show "stateReasons (snd (RemoveStateReason EndpointDisableHeadStalled e)) = []"
    by (auto simp: RemoveStateReason_def split: option.split)
qed

lemma held_iff_stalled: "only_head_stall e \<Longrightarrow> heldByStateLocked e \<longleftrightarrow> holdsStall e"
  using only_head_stall_ops(2) [of e]
  by (auto simp: heldByStateLocked_def holdsStall_def StateReason_def RemoveStateReason_def split: option.splits)

text \<open>What every step keeps, relative to the heap it started from: \<open>mark\<close> says which endpoints may newly be
  marked as stalled.\<close>

definition stall_inv :: "ep_heap \<Rightarrow> (nat \<Rightarrow> bool) \<Rightarrow> ep_heap \<Rightarrow> bool" where
  "stall_inv h0 mark h \<longleftrightarrow> (\<forall>p. ep_Enabled (h p) = ep_Enabled (h0 p) \<and> NetworkAddress (h p) = NetworkAddress (h0 p)
     \<and> DirectConnections (h p) = DirectConnections (h0 p) \<and> (only_head_stall (h0 p) \<longrightarrow> only_head_stall (h p))
     \<and> (holdsStall (h p) \<longrightarrow> holdsStall (h0 p) \<or> mark p))"

lemma stall_inv_refl [simp]: "stall_inv h mark h"
  by (simp add: stall_inv_def)

lemma only_head_stall_remove: "only_head_stall e \<Longrightarrow> only_head_stall (snd (RemoveStateReason EndpointDisableHeadStalled e))"
  using only_head_stall_ops(2) [of e] by (simp add: only_head_stall_def)

lemma stall_inv_release: "stall_inv h0 mark h \<Longrightarrow> stall_inv h0 mark (heap_release eps h)"
  by (auto simp: stall_inv_def heap_release_at only_head_stall_remove holdsStall_def)

lemma stall_inv_add:
  "stall_inv h0 mark h \<Longrightarrow> \<forall>ep\<in>set eps. mark (ewd_Endpoint ep) \<Longrightarrow> stall_inv h0 mark (add_stall now b eps h)"
  by (auto simp: stall_inv_def add_stall_at only_head_stall_ops holdsStall_def)

lemma release_heap: "ss_heap (snd (release everyone g s)) = ss_heap s \<or> ss_heap (snd (release everyone g s)) = heap_release (snd g) (ss_heap s)"
  by (auto simp: release_def Let_def split: option.split)

lemma stall_inv_remove_moved: "stall_inv h0 mark (ss_heap s) \<Longrightarrow> stall_inv h0 mark (ss_heap (remove_moved obs everyone g s))"
  using release_heap [of everyone g s] stall_inv_release [of h0 mark "ss_heap s" "snd g"]
  by (auto simp: remove_moved_def split: option.split prod.split bool.split)

lemma stall_inv_never_empty: "stall_inv h0 mark (ss_heap s) \<Longrightarrow> stall_inv h0 mark (ss_heap (never_empty everyone groups s))"
proof -
  assume inv: "stall_inv h0 mark (ss_heap s)"
  have "stall_inv h0 mark (ss_heap (snd (release everyone g s)))" for g
    using release_heap [of everyone g s] stall_inv_release [OF inv, of "snd g"] inv by auto
  then show ?thesis using inv by (auto simp: never_empty_def split: option.split prod.split bool.split) (metis snd_conv)+
qed

lemma stall_inv_add_stalled:
  assumes "stall_inv h0 mark (ss_heap (snd us))"
    and "\<And>ep. ep \<in> set (snd g) \<Longrightarrow> n \<le> SameBlockCycles (obs (fst g)) \<Longrightarrow> 0 < HighestBlockSeen (obs (fst g))
           \<Longrightarrow> HighestBlockSeen (obs (fst g)) < high \<Longrightarrow> mark (ewd_Endpoint ep)"
  shows "stall_inv h0 mark (ss_heap (snd (add_stalled obs n now high g us)))"
  using assms by (auto simp: add_stalled_def Let_def intro!: stall_inv_add split: prod.split)

lemma fold_inv:
  assumes "P s" "\<And>x s. x \<in> set xs \<Longrightarrow> P s \<Longrightarrow> P (f x s)"
  shows "P (fold f xs s)"
  using assms by (induction xs arbitrary: s) auto

section \<open>Groups\<close>

lemma group_mono:
  "mget groups u = Some g \<Longrightarrow> \<exists>g'. mget (group_by_url h eps groups) u = Some g' \<and> set g \<subseteq> set g'"
proof (induction eps arbitrary: groups g)
  case (Cons ep eps)
  let ?gs = "mput (NetworkAddress (h (ewd_Endpoint ep)))
    ((case mget groups (NetworkAddress (h (ewd_Endpoint ep))) of Some g \<Rightarrow> g | None \<Rightarrow> []) @ [ep]) groups"
  obtain g1 where "mget ?gs u = Some g1" "set g \<subseteq> set g1" using Cons.prems by (cases "u = NetworkAddress (h (ewd_Endpoint ep))") auto
  with Cons.IH [of ?gs g1] show ?case by (auto simp: Let_def)
qed auto

lemma group_complete: "ep \<in> set eps \<Longrightarrow> \<exists>g. (NetworkAddress (h (ewd_Endpoint ep)), g) \<in> set (group_by_url h eps groups) \<and> ep \<in> set g"
proof (induction eps arbitrary: groups)
  case (Cons x eps)
  let ?u = "NetworkAddress (h (ewd_Endpoint x))"
  let ?gs = "mput ?u ((case mget groups ?u of Some g \<Rightarrow> g | None \<Rightarrow> []) @ [x]) groups"
  show ?case
  proof (cases "ep = x")
    case True
    obtain g where "mget ?gs ?u = Some g" "x \<in> set g" by simp
    from group_mono [OF this(1), of h eps] this(2) obtain g' where "mget (group_by_url h eps ?gs) ?u = Some g'" "x \<in> set g'" by blast
    then have "(?u, g') \<in> set (group_by_url h eps ?gs)" by (simp add: map_of_SomeD)
    with \<open>x \<in> set g'\<close> True show ?thesis by (auto simp: Let_def)
  next
    case False
    then show ?thesis using Cons by (auto simp: Let_def)
  qed
qed simp

definition groups_ok :: "ep_heap \<Rightarrow> EndpointWithDirectConnection set \<Rightarrow> (string, EndpointWithDirectConnection list) gomap \<Rightarrow> bool" where
  "groups_ok h E groups \<longleftrightarrow> wf_map groups \<and> (\<forall>u g. mget groups u = Some g \<longrightarrow> (\<forall>ep\<in>set g. NetworkAddress (h (ewd_Endpoint ep)) = u \<and> ep \<in> E))"

lemma group_sound: "groups_ok h E groups \<Longrightarrow> set eps \<subseteq> E \<Longrightarrow> groups_ok h E (group_by_url h eps groups)"
proof (induction eps arbitrary: groups)
  case (Cons x eps)
  let ?u = "NetworkAddress (h (ewd_Endpoint x))"
  have "groups_ok h E (mput ?u ((case mget groups ?u of Some g \<Rightarrow> g | None \<Rightarrow> []) @ [x]) groups)"
    using Cons.prems by (cases "mget groups ?u") (auto simp: groups_ok_def)
  with Cons.IH Cons.prems(2) show ?case by (simp add: Let_def)
qed simp

lemma group_member:
  assumes "(u, g) \<in> set (group_by_url h eps [])" "ep \<in> set g"
  shows "NetworkAddress (h (ewd_Endpoint ep)) = u" "ep \<in> set eps"
proof -
  have "groups_ok h (set eps) (group_by_url h eps [])" by (rule group_sound) (simp_all add: groups_ok_def)
  with assms show "NetworkAddress (h (ewd_Endpoint ep)) = u" "ep \<in> set eps" by (auto simp: groups_ok_def wf_map_in_iff)
qed

lemma unique_subset: "set (unique_endpoints eps seen) \<subseteq> set eps"
  by (induction eps arbitrary: seen) auto

lemma unique_covers: "ep \<in> set eps \<Longrightarrow> ewd_Endpoint ep \<in> set seen \<or> (\<exists>ep'\<in>set (unique_endpoints eps seen). ewd_Endpoint ep' = ewd_Endpoint ep)"
proof (induction eps arbitrary: seen)
  case (Cons x eps)
  then show ?case using Cons.IH [of "ewd_Endpoint x # seen"] Cons.IH [of seen] by (cases "ep = x") auto
qed simp

section \<open>Never the last one\<close>

lemma stuck_iff: "stuckRecord h eps \<noteq> None \<longleftrightarrow> (\<exists>ep\<in>set eps. holdsStall (h (ewd_Endpoint ep)))"
  by (induction eps) (auto simp: holdsStall_def split: option.splits)

lemma pick_some:
  "pick \<noteq> None \<or> (\<exists>g\<in>set gs. stuckRecord h (snd g) \<noteq> None \<and> groupAny h ep_Enabled (snd g)) \<Longrightarrow>
    pick_stalled h gs pick \<noteq> None"
proof (induction gs arbitrary: pick)
  case (Cons g gs)
  show ?case
  proof (cases "stuckRecord h (snd g) = None \<or> \<not> groupAny h ep_Enabled (snd g)")
    case True
    then have "pick_stalled h (g # gs) pick = pick_stalled h gs pick" by (auto split: option.split)
    moreover have "pick \<noteq> None \<or> (\<exists>g\<in>set gs. stuckRecord h (snd g) \<noteq> None \<and> groupAny h ep_Enabled (snd g))"
      using True Cons.prems unfolding list.set(2) bex_simps by blast
    ultimately show ?thesis using Cons.IH [of pick] by (simp only: not_False_eq_True)
  next
    case False
    then obtain sr where "stuckRecord h (snd g) = Some sr" by auto
    then have "pick_stalled h (g # gs) pick = pick_stalled h gs (Some (g, sr)) \<or>
        pick \<noteq> None \<and> pick_stalled h (g # gs) pick = pick_stalled h gs pick"
      using False by (simp split: option.split prod.split)
    then show ?thesis using Cons.IH [of "Some (g, sr)"] Cons.IH [of pick] by (metis option.distinct(1))
  qed
qed simp

lemma pick_member:
  "pick_stalled h gs pick = Some (g, r) \<Longrightarrow>
    pick = Some (g, r) \<or> g \<in> set gs \<and> stuckRecord h (snd g) = Some r \<and> groupAny h ep_Enabled (snd g)"
proof (induction gs arbitrary: pick)
  case (Cons x gs)
  consider "pick_stalled h gs pick = Some (g, r)"
    | sr where "stuckRecord h (snd x) = Some sr" "groupAny h ep_Enabled (snd x)" "pick_stalled h gs (Some (x, sr)) = Some (g, r)"
    using Cons.prems by (auto split: option.splits if_splits)
  then show ?case
  proof cases
    case 1
    then show ?thesis using Cons.IH by auto
  next
    case 2
    then show ?thesis using Cons.IH [OF 2(3)] by auto
  qed
qed simp

lemma never_empty_usable:
  assumes "g0 \<in> set groups" "groupAny (ss_heap s) ep_Enabled (snd g0)" "\<forall>p. only_head_stall (ss_heap s p)"
  shows "\<exists>g\<in>set groups. groupAny (ss_heap (never_empty everyone groups s)) IsUsable (snd g)"
proof (cases "countUsableURLs (ss_heap s) groups = 0")
  case False
  then have "\<exists>g\<in>set groups. groupAny (ss_heap s) IsUsable (snd g)" by (auto simp: countUsableURLs_def filter_empty_conv)
  with False show ?thesis by (simp add: never_empty_def)
next
  case True
  let ?h = "ss_heap s"
  from True assms(1) have "\<not> groupAny ?h IsUsable (snd g0)" by (auto simp: countUsableURLs_def filter_empty_conv)
  with assms(2,3) have "stuckRecord ?h (snd g0) \<noteq> None"
    unfolding stuck_iff by (auto simp: groupAny_def list_ex_iff IsUsable_def held_iff_stalled)
  with assms(1,2) have "pick_stalled ?h groups None \<noteq> None" by (intro pick_some) blast
  then obtain g r where pick: "pick_stalled ?h groups None = Some (g, r)" by auto
  from pick_member [OF pick] have g: "g \<in> set groups" "stuckRecord ?h (snd g) = Some r" "groupAny ?h ep_Enabled (snd g)" by auto
  have "filter (\<lambda>ep. holdsStall (?h (ewd_Endpoint ep))) (snd g) \<noteq> []"
    using g(2) stuck_iff [of ?h "snd g"] by (auto simp: filter_empty_conv)
  then have heap: "ss_heap (never_empty everyone groups s) = heap_release (snd g) ?h"
    using True pick g(2) by (simp add: never_empty_def release_def Let_def)
  obtain ep where ep: "ep \<in> set (snd g)" "ep_Enabled (?h (ewd_Endpoint ep))" using g(3) by (auto simp: groupAny_def list_ex_iff)
  then have "IsUsable (heap_release (snd g) ?h (ewd_Endpoint ep))"
    using assms(3) by (auto simp: heap_release_at IsUsable_def heldByStateLocked_def only_head_stall_ops(2))
  with ep(1) g(1) heap show ?thesis by (auto simp: groupAny_def list_ex_iff)
qed

section \<open>The step as a whole\<close>

lemma chain_high_bound: "high0 \<le> fold (\<lambda>url high. max (HighestBlockSeen (obs url)) high) urls high0 \<and>
    (fold (\<lambda>url high. max (HighestBlockSeen (obs url)) high) urls high0 = high0 \<or>
     (\<exists>url\<in>set urls. fold (\<lambda>url high. max (HighestBlockSeen (obs url)) high) urls high0 = HighestBlockSeen (obs url)))"
proof (induction urls arbitrary: high0)
  case (Cons u urls)
  show ?case using Cons.IH [of "max (HighestBlockSeen (obs u)) high0"] by (auto simp: max_def split: if_splits)
qed simp

lemma below_chain_high:
  assumes "0 < HighestBlockSeen b" "HighestBlockSeen b < chain_high obs urls"
  shows "\<exists>url\<in>set urls. HighestBlockSeen b < HighestBlockSeen (obs url)"
  using assms chain_high_bound [of 0 obs urls] by (auto simp: chain_high_def)

text \<open>The step up to the never-empty rule keeps \<open>stall_inv\<close> for any \<open>mark\<close> that covers the stuck urls.\<close>

lemma step_heap_inv:
  fixes endpoints obs n now state h
  defines "everyone \<equiv> unique_endpoints endpoints []"
  defines "groups \<equiv> group_by_url h (filter (\<lambda>ep. ServesDirectRelays (h (ewd_Endpoint ep))) everyone) []"
  defines "high \<equiv> chain_high obs (map (\<lambda>ep. NetworkAddress (h (ewd_Endpoint ep))) everyone)"
  assumes step: "runHeadStallStep endpoints obs n now state h = (res, calls, state', h')"
    and mark: "\<And>g ep. g \<in> set groups \<Longrightarrow> ep \<in> set (snd g) \<Longrightarrow> n \<le> SameBlockCycles (obs (fst g)) \<Longrightarrow> 0 < HighestBlockSeen (obs (fst g))
      \<Longrightarrow> HighestBlockSeen (obs (fst g)) < high \<Longrightarrow> mark (ewd_Endpoint ep)"
  shows "\<exists>s. h' = ss_heap (never_empty everyone groups s) \<and> stall_inv h mark (ss_heap s)"
proof -
  let ?s0 = "\<lparr>ss_heap = h, ss_kept = kept state, ss_calls = [],
                ss_res = \<lparr>res_added = 0, res_removed = 0, res_kept = 0, res_released = 0\<rparr>\<rparr>"
  let ?s1 = "fold (remove_moved obs everyone) groups ?s0"
  let ?s2 = "snd (fold (add_stalled obs n now high) groups (countUsableURLs (ss_heap ?s1) groups, ?s1))"
  have "stall_inv h mark (ss_heap ?s1)"
    by (rule fold_inv [where P = "\<lambda>s. stall_inv h mark (ss_heap s)"]) (simp_all add: stall_inv_remove_moved)
  then have "stall_inv h mark (ss_heap ?s2)"
    by (intro fold_inv [where P = "\<lambda>us. stall_inv h mark (ss_heap (snd us))"] stall_inv_add_stalled mark) simp_all
  moreover have "h' = ss_heap (never_empty everyone groups ?s2)"
    using step by (simp add: runHeadStallStep_def Let_def everyone_def groups_def high_def)
  ultimately show ?thesis by blast
qed

lemma step_stalled:
  assumes "runHeadStallStep endpoints obs n now st h = (res, calls, st', h')"
  shows "stalled st' = remdups (map fst (stall_holders h'
    (group_by_url h (filter (\<lambda>ep. ServesDirectRelays (h (ewd_Endpoint ep))) (unique_endpoints endpoints [])) [])))"
  using assms by (auto simp: runHeadStallStep_def Let_def headStall_sync_def)

text \<open>The head-stall rule never takes the last endpoint away. If some listed endpoint that serves direct relays
  was enabled before the step, then after it some listed one is usable (enabled and held out by no reason),
  whatever the observations say: also when every url was already marked stalled at the start of the step.
  Endpoints start with no state reason and the head stall is the only one in use.\<close>

theorem head_stall_never_empties:
  assumes "\<forall>p. only_head_stall (h p)" "ep \<in> set endpoints" "ServesDirectRelays (h (ewd_Endpoint ep))" "ep_Enabled (h (ewd_Endpoint ep))"
    and step: "runHeadStallStep endpoints obs n now state h = (res, calls, state', h')"
  shows "\<exists>ep'\<in>set endpoints. ServesDirectRelays (h' (ewd_Endpoint ep')) \<and> IsUsable (h' (ewd_Endpoint ep'))"
proof -
  let ?ev = "unique_endpoints endpoints []"
  let ?groups = "group_by_url h (filter (\<lambda>ep. ServesDirectRelays (h (ewd_Endpoint ep))) ?ev) []"
  obtain s where h': "h' = ss_heap (never_empty ?ev ?groups s)" and inv: "stall_inv h (\<lambda>_. True) (ss_heap s)"
    using step_heap_inv [OF step, of "\<lambda>_. True"] by auto
  obtain ep1 where ep1: "ep1 \<in> set ?ev" "ewd_Endpoint ep1 = ewd_Endpoint ep" using unique_covers [OF assms(2), of "[]"] by auto
  have "ep1 \<in> set (filter (\<lambda>ep. ServesDirectRelays (h (ewd_Endpoint ep))) ?ev)" using ep1 assms(3) by simp
  from group_complete [OF this, of h "[]"] obtain u g where g: "(u, g) \<in> set ?groups" "ep1 \<in> set g" by blast
  have "groupAny (ss_heap s) ep_Enabled g" using g(2) ep1(2) inv assms(4) by (auto simp: groupAny_def list_ex_iff stall_inv_def)
  moreover have "\<forall>p. only_head_stall (ss_heap s p)" using inv assms(1) by (simp add: stall_inv_def)
  ultimately obtain g1 where "g1 \<in> set ?groups" "groupAny h' IsUsable (snd g1)"
    using never_empty_usable [of "(u, g)" ?groups s ?ev] g(1) h' by auto
  then obtain ep' where ep': "(fst g1, snd g1) \<in> set ?groups" "ep' \<in> set (snd g1)" "IsUsable (h' (ewd_Endpoint ep'))"
    by (auto simp: groupAny_def list_ex_iff)
  have "ep' \<in> set ?ev" "ServesDirectRelays (h (ewd_Endpoint ep'))" using group_member(2) [OF ep'(1,2)] by auto
  moreover have "DirectConnections (h' p) = DirectConnections (h p)" for p
    using stall_inv_never_empty [OF inv, of ?ev ?groups] h' by (simp add: stall_inv_def)
  ultimately show ?thesis using ep'(3) unique_subset [of endpoints "[]"] by (auto simp: ServesDirectRelays_def)
qed

text \<open>Only a stuck endpoint is marked, and only while the chain moves: an endpoint that holds the head-stall reason
  after a step and did not before is a listed one that serves direct relays, has answered the same block for at
  least \<open>n\<close> cycles, and another listed url has seen a higher block. On a quiet chain, where no url is ahead of
  another, nothing is marked.\<close>

theorem head_stall_marks_the_stuck:
  assumes step: "runHeadStallStep endpoints obs n now state h = (res, calls, state', h')"
    and new: "holdsStall (h' p)" "\<not> holdsStall (h p)"
  shows "p \<in> ewd_Endpoint ` set endpoints \<and> ServesDirectRelays (h p) \<and> n \<le> SameBlockCycles (obs (NetworkAddress (h p)))
    \<and> 0 < HighestBlockSeen (obs (NetworkAddress (h p)))
    \<and> (\<exists>ep\<in>set endpoints. HighestBlockSeen (obs (NetworkAddress (h p))) < HighestBlockSeen (obs (NetworkAddress (h (ewd_Endpoint ep)))))"
    (is "?mark p")
proof -
  let ?ev = "unique_endpoints endpoints []"
  let ?groups = "group_by_url h (filter (\<lambda>ep. ServesDirectRelays (h (ewd_Endpoint ep))) ?ev) []"
  define mark where "mark = ?mark"
  have mark: "mark (ewd_Endpoint ep)"
    if g: "g \<in> set ?groups" "ep \<in> set (snd g)" and "n \<le> SameBlockCycles (obs (fst g))" "0 < HighestBlockSeen (obs (fst g))"
      "HighestBlockSeen (obs (fst g)) < chain_high obs (map (\<lambda>ep. NetworkAddress (h (ewd_Endpoint ep))) ?ev)" for g ep
  proof -
    have "(fst g, snd g) \<in> set ?groups" using g(1) by simp
    note m = group_member [OF this g(2)]
    show ?thesis using m below_chain_high [OF that(4,5)] that(3,4) unique_subset [of endpoints "[]"]
      unfolding mark_def by auto
  qed
  have "\<exists>s. h' = ss_heap (never_empty ?ev ?groups s) \<and> stall_inv h mark (ss_heap s)"
    using step by (rule step_heap_inv) (rule mark)
  then obtain s where "h' = ss_heap (never_empty ?ev ?groups s)" "stall_inv h mark (ss_heap s)" by blast
  with stall_inv_never_empty have "stall_inv h mark h'" by blast
  with new have "mark p" unfolding stall_inv_def by blast
  then show ?thesis unfolding mark_def .
qed

section \<open>Examples\<close>

text \<open>Two urls: one stuck at block 100 for 20 cycles, the other at 140.\<close>

definition stall_heap :: ep_heap where
  "stall_heap p = new_endpoint (if p = 0 then ''https://a'' else ''https://b'') [Some ProtocolHTTPS] [] [] False []"

definition stall_listed :: "EndpointWithDirectConnection list" where
  "stall_listed = [\<lparr>ewd_Endpoint = 0, ewd_ProviderAddress = ''pa'', Backup = False\<rparr>, \<lparr>ewd_Endpoint = 1, ewd_ProviderAddress = ''pb'', Backup = False\<rparr>]"

definition stall_obs :: "string \<Rightarrow> EndpointObservation" where
  "stall_obs u = zero_observation\<lparr>SameBlockCycles := 20, HighestBlockSeen := (if u = ''https://a'' then 100 else 140)\<rparr>"

lemma sample_only_stall: "\<forall>p. only_head_stall (stall_heap p)"
  by (simp add: stall_heap_def only_head_stall_def new_endpoint_def)

lemmas sample_stall_defs = runHeadStallStep_def stall_listed_def stall_obs_def stall_heap_def new_endpoint_def
  Let_def ServesDirectRelays_def chain_high_def countUsableURLs_def groupAny_def IsUsable_def heldByStateLocked_def
  add_stalled_def add_stall_def remove_moved_def never_empty_def holdsStall_def StateReason_def AddStateReason_def
  zero_observation_def markKept_def clearKept_def headStall_sync_def stall_holders_def

theorem head_stall_never_empties_witness:
  "\<exists>ep'\<in>set stall_listed. ServesDirectRelays (snd (snd (snd (runHeadStallStep stall_listed stall_obs 10 100 headStall_reset stall_heap))) (ewd_Endpoint ep')) \<and>
     IsUsable (snd (snd (snd (runHeadStallStep stall_listed stall_obs 10 100 headStall_reset stall_heap))) (ewd_Endpoint ep'))"
proof -
  obtain r c st h' where e: "runHeadStallStep stall_listed stall_obs 10 100 headStall_reset stall_heap = (r, c, st, h')" by (metis prod_cases4)
  show ?thesis using head_stall_never_empties [OF sample_only_stall _ _ _ e, of "hd stall_listed"] e
    by (simp add: stall_listed_def stall_heap_def ServesDirectRelays_def new_endpoint_def)
qed

theorem head_stall_marks_the_stuck_witness:
  "holdsStall (snd (snd (snd (runHeadStallStep stall_listed stall_obs 10 100 headStall_reset stall_heap))) 0) \<and>
   10 \<le> SameBlockCycles (stall_obs (NetworkAddress (stall_heap 0)))"
proof -
  have s: "holdsStall (snd (snd (snd (runHeadStallStep stall_listed stall_obs 10 100 headStall_reset stall_heap))) 0)"
    by (simp add: sample_stall_defs headStall_reset_def)
  obtain r c st h' where e: "runHeadStallStep stall_listed stall_obs 10 100 headStall_reset stall_heap = (r, c, st, h')" by (metis prod_cases4)
  show ?thesis using head_stall_marks_the_stuck [OF e, of 0] s e
    by (simp add: holdsStall_def StateReason_def stall_heap_def new_endpoint_def)
qed

end
