(* ===== verification/ProbeCycle.thy ===== *)
theory ProbeCycle
  imports HeadStall AttemptHealth
begin

text \<open>
  The probe cycle and idle mode: \<open>runProbeCycleCore\<close>, \<open>runProbeCycle\<close>, \<open>consensusObservations\<close>,
  \<open>recomputeChainStateConsensus\<close> and \<open>onTipObservation\<close> of \<open>src/protocol/rpcsmartrouter/rpcsmartrouter_server.go\<close>,
  \<open>relayProbeRunner\<close> of \<open>recovery_probe.go\<close>, and \<open>src/protocol/endpointstate/idle.go\<close>.

  A replay runs on its own goroutine: launching it and applying its verdict are two steps, and any number of cycles
  may run between them. The log of the wake burst and its polls are the events of its run.
\<close>

section \<open>Replays\<close>

record probe_state =
  pc_heap :: ep_heap
  inFlight :: "(string, nat \<times> string) gomap"
  pc_recovered :: "string list"

text \<open>\<open>launch\<close> of an asynchronous runner: nothing when a replay for the key is outstanding.\<close>

definition launch :: "string \<Rightarrow> nat \<Rightarrow> string \<Rightarrow> probe_state \<Rightarrow> probe_state" where
  "launch key target provider s =
     (if mget (inFlight s) key \<noteq> None then s else s\<lparr>inFlight := mput key (target, provider) (inFlight s)\<rparr>)"

definition note_recovered :: "string \<Rightarrow> probe_state \<Rightarrow> probe_state" where
  "note_recovered provider s = s\<lparr>pc_recovered := pc_recovered s @ [provider]\<rparr>"

text \<open>The end of a replay: its verdict is applied and the key is free again.\<close>

definition replay_done :: "int \<Rightarrow> string \<Rightarrow> relayProbeVerdict \<Rightarrow> probe_state \<Rightarrow> probe_state" where
  "replay_done maxA key verdict s =
     (case mget (inFlight s) key of
        None \<Rightarrow> s
      | Some (target, provider) \<Rightarrow>
          (case apply_replay maxA verdict (pc_heap s target) of
             (recovered, e) \<Rightarrow>
               (let s1 = s\<lparr>pc_heap := (pc_heap s)(target := e), inFlight := mdel key (inFlight s)\<rparr>
                in if recovered then note_recovered provider s1 else s1)))"

section \<open>One cycle\<close>

record probe_counts =
  pn_scored :: int
  pn_reEnabled :: int
  pn_syncOmitted :: int
  pn_evidenceGated :: int

text \<open>One endpoint of the cycle. \<open>replayer\<close> is false when there is none: recovery then rests on the polls alone.\<close>

definition probe_one :: "int \<Rightarrow> (string \<Rightarrow> EndpointObservation) \<Rightarrow> int64 option \<Rightarrow> time \<Rightarrow> VerdictConfig \<Rightarrow> bool \<Rightarrow> EndpointWithDirectConnection \<Rightarrow>
    probe_counts \<times> (string, EndpointVerdict list) gomap \<times> probe_state \<Rightarrow> probe_counts \<times> (string, EndpointVerdict list) gomap \<times> probe_state" where
  "probe_one maxA obs base now vc replayer ep acc =
     (case acc of (n, byProvider, s) \<Rightarrow>
        let p = ewd_Endpoint ep; provider = ewd_ProviderAddress ep; k = ReEnableHysteresis vc;
            e0 = pc_heap s p;
            n1 = n\<lparr>pn_scored := pn_scored n + 1,
                   pn_evidenceGated := pn_evidenceGated n + (if \<not> ep_Enabled e0 \<and> relayProbeMethod e0 \<noteq> '''' then 1 else 0)\<rparr>;
            v = RenderEndpointVerdict (obs (NetworkAddress e0)) base now vc;
            res = RecordProbeVerdict maxA (re_LastSuccessfulPoll (v_Recovery v)) (PollHealthy (v_Recovery v)) k e0;
            s1 = s\<lparr>pc_heap := (pc_heap s)(p := snd res)\<rparr>;
            verdicts = mput provider ((case mget byProvider provider of Some vs \<Rightarrow> vs | None \<Rightarrow> []) @ [v]) byProvider
        in if fst res then (n1\<lparr>pn_reEnabled := pn_reEnabled n1 + 1\<rparr>, verdicts, note_recovered provider s1)
           else case PendingRelayProbe k (snd res) of
                  None \<Rightarrow> (n1, verdicts, s1)
                | Some _ \<Rightarrow>
                    if \<not> replayer then
                      (case ConfirmRelayRecovery maxA (snd res) of
                         (True, e) \<Rightarrow> (n1\<lparr>pn_reEnabled := pn_reEnabled n1 + 1\<rparr>, verdicts, note_recovered provider (s1\<lparr>pc_heap := (pc_heap s1)(p := e)\<rparr>))
                       | (False, e) \<Rightarrow> (n1, verdicts, s1\<lparr>pc_heap := (pc_heap s1)(p := e)\<rparr>))
                    else (n1, verdicts, launch (NetworkAddress e0) p provider s1))"

text \<open>The samples of a cycle: per provider the aggregated sample and whether it carries sync evidence.\<close>

definition cycle_samples :: "(string, EndpointVerdict list) gomap \<Rightarrow> int64 option \<Rightarrow> (string \<times> ProviderSample \<times> bool) list" where
  "cycle_samples byProvider base =
     List.map_filter (\<lambda>(provider, vs). map_option (\<lambda>ps. (provider, ps, HasBlock ps \<and> base \<noteq> None)) (AggregateProviderSample vs)) byProvider"

definition runProbeCycleCore :: "int \<Rightarrow> EndpointWithDirectConnection list \<Rightarrow> (string \<Rightarrow> EndpointObservation) \<Rightarrow> int64 option \<Rightarrow> time \<Rightarrow>
    VerdictConfig \<Rightarrow> bool \<Rightarrow> bool \<Rightarrow> probe_state \<Rightarrow> probe_counts \<times> (string \<times> ProviderSample \<times> bool) list \<times> probe_state" where
  "runProbeCycleCore maxA endpoints obs base now vc appender replayer s =
     (case fold (probe_one maxA obs base now vc replayer) endpoints
             (\<lparr>pn_scored = 0, pn_reEnabled = 0, pn_syncOmitted = 0, pn_evidenceGated = 0\<rparr>, [], s) of
        (n, byProvider, s1) \<Rightarrow>
          if \<not> appender then (n, [], s1)
          else let samples = cycle_samples byProvider base
               in (n\<lparr>pn_syncOmitted := int (length (filter (\<lambda>(_, _, hasSync). \<not> hasSync) samples))\<rparr>, samples, s1))"

section \<open>Idle mode\<close>

definition MinIdleAfter :: duration where "MinIdleAfter = 10 * second"

definition resolveIdleConfig :: "duration \<Rightarrow> duration \<Rightarrow> duration \<Rightarrow> duration \<times> duration" where
  "resolveIdleConfig idleAfter idlePollInterval flatPoll =
     (if idleAfter = 0 then (0, 0)
      else if idleAfter < MinIdleAfter then (0, 0)
      else let heartbeat = (if idlePollInterval < 0 then 0 else idlePollInterval)
           in (idleAfter, if heartbeat > 0 \<and> heartbeat < flatPoll then flatPoll else heartbeat))"

text \<open>The completion channel of a wake burst is its number.\<close>

record idle_state =
  idleAfter :: duration
  idlePollInterval :: duration
  lastClientRelay :: time
  wakeDone :: "nat option"
  wakeBursts :: nat
  idleAnnounced :: bool

definition IdleModeEnabled :: "idle_state \<Rightarrow> bool" where
  "IdleModeEnabled i \<longleftrightarrow> idleAfter i > 0"

definition IsIdle :: "idle_state \<Rightarrow> time \<Rightarrow> bool" where
  "IsIdle i now \<longleftrightarrow> (if idleAfter i \<le> 0 then False else time_sub now (lastClientRelay i) > idleAfter i)"

definition wakeInProgress :: "idle_state \<Rightarrow> bool" where
  "wakeInProgress i \<longleftrightarrow> wakeDone i \<noteq> None"

definition IdleOrWaking :: "idle_state \<Rightarrow> time \<Rightarrow> bool" where
  "IdleOrWaking i now \<longleftrightarrow> IsIdle i now \<or> wakeInProgress i"

record IdleSnapshot =
  is_Enabled :: bool
  is_Idle :: bool
  is_LastClientRelay :: time
  is_IdleSince :: time
  is_WakeInProgress :: bool

definition take_IdleSnapshot :: "idle_state \<Rightarrow> time \<Rightarrow> IdleSnapshot" where
  "take_IdleSnapshot i now =
     (if idleAfter i \<le> 0 then
        \<lparr>is_Enabled = False, is_Idle = False, is_LastClientRelay = zero_time, is_IdleSince = zero_time, is_WakeInProgress = False\<rparr>
      else \<lparr>is_Enabled = True, is_Idle = IsIdle i now, is_LastClientRelay = lastClientRelay i,
            is_IdleSince = (if IsIdle i now then lastClientRelay i + idleAfter i else zero_time), is_WakeInProgress = wakeInProgress i\<rparr>)"

text \<open>The channel the relay waits on, and the new state.\<close>

definition startWake :: "idle_state \<Rightarrow> nat \<times> idle_state" where
  "startWake i =
     (case wakeDone i of
        Some ch \<Rightarrow> (ch, i)
      | None \<Rightarrow> (wakeBursts i, i\<lparr>wakeDone := Some (wakeBursts i), wakeBursts := wakeBursts i + 1, idleAnnounced := False\<rparr>))"

definition NoteClientRelay :: "time \<Rightarrow> idle_state \<Rightarrow> nat option \<times> idle_state" where
  "NoteClientRelay now i =
     (if idleAfter i \<le> 0 then (None, i)
      else let prev = lastClientRelay i; i1 = i\<lparr>lastClientRelay := now\<rparr>
           in if time_sub now prev > idleAfter i then (case startWake i1 of (ch, i2) \<Rightarrow> (Some ch, i2)) else (wakeDone i1, i1))"

text \<open>The end of a burst: only its own channel is cleared.\<close>

definition endWake :: "nat \<Rightarrow> idle_state \<Rightarrow> idle_state" where
  "endWake ch i = (if wakeDone i = Some ch then i\<lparr>wakeDone := None\<rparr> else i)"

text \<open>Whether a tracker skips its cycle.\<close>

definition idleGate :: "time \<Rightarrow> duration \<Rightarrow> idle_state \<Rightarrow> bool \<times> idle_state" where
  "idleGate now sinceLastRealPoll i =
     (if \<not> IsIdle i now then (False, i)
      else if idlePollInterval i > 0 \<and> sinceLastRealPoll \<ge> idlePollInterval i then (False, i)
      else (True, i\<lparr>idleAnnounced := True\<rparr>))"

definition FetchTimeout :: "duration \<Rightarrow> duration" where
  "FetchTimeout minimumTimePerRelayDelay = max (10 * second) minimumTimePerRelayDelay"

definition pollNowUnstartedGrace :: duration where "pollNowUnstartedGrace = 2 * second"

definition wake_budget :: "duration \<Rightarrow> duration" where
  "wake_budget minimumTimePerRelayDelay = FetchTimeout minimumTimePerRelayDelay + pollNowUnstartedGrace + second"

section \<open>Votes and the tip\<close>

definition consensusObservations :: "(string, EndpointObservation) gomap \<Rightarrow> (string \<Rightarrow> bool) \<Rightarrow> block_observation list" where
  "consensusObservations snap held =
     map (\<lambda>(url, ob). \<lparr>URL = url, Block = obs_LatestBlock ob, ObservedAt = obs_ObservedAt ob\<rparr>)
       (filter (\<lambda>(url, ob). \<not> (obs_LatestBlock ob \<le> 0 \<or> held url)) snap)"

definition recomputeChainStateConsensus :: "EndpointMonitor \<Rightarrow> headStallState \<Rightarrow> time \<Rightarrow> chain_state \<Rightarrow> chain_state \<times> regression" where
  "recomputeChainStateConsensus m st now cs = Recompute cs now (consensusObservations (SnapshotObservations m) (isStalled st))"

text \<open>The chain state and the value the latest-block gauge is set to, if any.\<close>

definition onTipObservation :: "headStallState \<Rightarrow> time \<Rightarrow> string \<Rightarrow> int64 \<Rightarrow> bool \<Rightarrow> chain_state \<Rightarrow> chain_state \<times> int64 option" where
  "onTipObservation st now url block repeat cs =
     (if repeat \<and> isStalled st url then (cs, None)
      else let cs' = newState (SetLatestBlock cs now block) in (cs', GetLatestBlock cs' now))"

definition DefaultURLAnswerTimeout :: duration where "DefaultURLAnswerTimeout = 2 * minute"

definition urlAnswerTimeout :: "duration \<Rightarrow> duration \<Rightarrow> duration" where
  "urlAnswerTimeout worstCaseGap pollInterval = max DefaultURLAnswerTimeout (worstCaseGap + pollInterval)"

section \<open>The whole cycle\<close>

text \<open>\<open>runProbeCycle\<close>: the core, then the head-stall step, unless the chain is idle or waking.\<close>

definition runProbeCycle :: "int \<Rightarrow> EndpointWithDirectConnection list \<Rightarrow> EndpointMonitor \<Rightarrow> idle_state \<Rightarrow> chain_state \<Rightarrow> time \<Rightarrow> VerdictConfig \<Rightarrow>
    bool \<Rightarrow> headStallState \<Rightarrow> probe_state \<Rightarrow> probe_counts \<times> (string \<times> ProviderSample \<times> bool) list \<times> stall_call list \<times> headStallState \<times> probe_state" where
  "runProbeCycle maxA endpoints m i cs now vc appender st s =
     (let base = (case GetLatestBlockWithTime cs now of Some (block, _) \<Rightarrow> if block > 0 then Some block else None | None \<Rightarrow> None);
          obs = (\<lambda>url. fst (GetObservation m url));
          paused = IdleOrWaking i now
      in case runProbeCycleCore maxA endpoints obs base now vc (appender \<and> \<not> paused) True s of
           (n, samples, s1) \<Rightarrow>
             if paused then (n, samples, [], st, s1)
             else case runHeadStallStep endpoints obs (stallCycles m) now st (pc_heap s1) of
                    (res, calls, st', h') \<Rightarrow> (n, samples, calls, st', s1\<lparr>pc_heap := h'\<rparr>))"

section \<open>A cycle keeps the pool served\<close>

text \<open>What a probe of one endpoint leaves as it was in the heap.\<close>

definition probe_keeps :: "ep_heap \<Rightarrow> ep_heap \<Rightarrow> bool" where
  "probe_keeps h h' \<longleftrightarrow> (\<forall>p. (ep_Enabled (h p) \<longrightarrow> ep_Enabled (h' p)) \<and> stateReasons (h' p) = stateReasons (h p)
     \<and> DirectConnections (h' p) = DirectConnections (h p) \<and> NetworkAddress (h' p) = NetworkAddress (h p))"

lemma probe_verdict_keeps:
  "ep_Enabled e \<longrightarrow> ep_Enabled (snd (RecordProbeVerdict maxA poll healthy k e))"
  "stateReasons (snd (RecordProbeVerdict maxA poll healthy k e)) = stateReasons e"
  "DirectConnections (snd (RecordProbeVerdict maxA poll healthy k e)) = DirectConnections e"
  "NetworkAddress (snd (RecordProbeVerdict maxA poll healthy k e)) = NetworkAddress e"
  by (auto simp: endpoint_defs Let_def)

lemma confirm_keeps:
  "ep_Enabled e \<longrightarrow> ep_Enabled (snd (ConfirmRelayRecovery maxA e))"
  "stateReasons (snd (ConfirmRelayRecovery maxA e)) = stateReasons e"
  "DirectConnections (snd (ConfirmRelayRecovery maxA e)) = DirectConnections e"
  "NetworkAddress (snd (ConfirmRelayRecovery maxA e)) = NetworkAddress e"
  by (auto simp: endpoint_defs Let_def)

lemma probe_keeps_refl [simp]: "probe_keeps h h"
  by (simp add: probe_keeps_def)

lemma probe_keeps_trans: "probe_keeps h h' \<Longrightarrow> probe_keeps h' h'' \<Longrightarrow> probe_keeps h h''"
  by (simp add: probe_keeps_def)

lemma probe_one_heap:
  "\<exists>e. pc_heap (snd (snd (probe_one maxA obs base now vc replayer ep (n, byP, s)))) = (pc_heap s)(ewd_Endpoint ep := e)
     \<and> (e = snd (RecordProbeVerdict maxA (re_LastSuccessfulPoll (v_Recovery (RenderEndpointVerdict (obs (NetworkAddress (pc_heap s (ewd_Endpoint ep)))) base now vc)))
              (PollHealthy (v_Recovery (RenderEndpointVerdict (obs (NetworkAddress (pc_heap s (ewd_Endpoint ep)))) base now vc))) (ReEnableHysteresis vc) (pc_heap s (ewd_Endpoint ep)))
        \<or> e = snd (ConfirmRelayRecovery maxA (snd (RecordProbeVerdict maxA (re_LastSuccessfulPoll (v_Recovery (RenderEndpointVerdict (obs (NetworkAddress (pc_heap s (ewd_Endpoint ep)))) base now vc)))
              (PollHealthy (v_Recovery (RenderEndpointVerdict (obs (NetworkAddress (pc_heap s (ewd_Endpoint ep)))) base now vc))) (ReEnableHysteresis vc) (pc_heap s (ewd_Endpoint ep))))))"
  unfolding probe_one_def by (auto simp: Let_def note_recovered_def launch_def split: option.split prod.split bool.split)

lemma probe_one_keeps: "probe_keeps (pc_heap s) (pc_heap (snd (snd (probe_one maxA obs base now vc replayer ep (n, byP, s)))))"
proof -
  obtain e where e: "pc_heap (snd (snd (probe_one maxA obs base now vc replayer ep (n, byP, s)))) = (pc_heap s)(ewd_Endpoint ep := e)"
    and "\<exists>poll healthy k. e = snd (RecordProbeVerdict maxA poll healthy k (pc_heap s (ewd_Endpoint ep)))
      \<or> e = snd (ConfirmRelayRecovery maxA (snd (RecordProbeVerdict maxA poll healthy k (pc_heap s (ewd_Endpoint ep)))))"
    using probe_one_heap [of maxA obs base now vc replayer ep n byP s] by blast
  then show ?thesis by (auto simp: probe_keeps_def confirm_keeps probe_verdict_keeps)
qed

lemma cycle_core_keeps:
  assumes "runProbeCycleCore maxA endpoints obs base now vc appender replayer s = (n, samples, s')"
  shows "probe_keeps (pc_heap s) (pc_heap s')"
proof -
  let ?i = "(\<lparr>pn_scored = 0, pn_reEnabled = 0, pn_syncOmitted = 0, pn_evidenceGated = 0\<rparr>, [], s)"
  have "probe_keeps (pc_heap s) (pc_heap (snd (snd (fold (probe_one maxA obs base now vc replayer) endpoints ?i))))"
  proof (rule fold_inv [where P = "\<lambda>a. probe_keeps (pc_heap s) (pc_heap (snd (snd a)))"])
    fix ep and a :: "probe_counts \<times> (string, EndpointVerdict list) gomap \<times> probe_state"
    assume a: "probe_keeps (pc_heap s) (pc_heap (snd (snd a)))"
    obtain n1 byP s1 where "a = (n1, byP, s1)" by (cases a)
    with a probe_one_keeps [of s1 maxA obs base now vc replayer ep n1 byP]
    show "probe_keeps (pc_heap s) (pc_heap (snd (snd (probe_one maxA obs base now vc replayer ep a))))"
      using probe_keeps_trans by auto
  qed simp
  moreover have "snd (snd (fold (probe_one maxA obs base now vc replayer) endpoints ?i)) = s'"
    using assms by (auto simp: runProbeCycleCore_def Let_def split: prod.splits if_splits)
  ultimately show ?thesis by simp
qed

text \<open>C30. A probe cycle never leaves the pool without a usable endpoint while one is enabled. If some listed endpoint that
  serves direct relays was enabled when the cycle began, then after the cycle (re-enabling, replays launched, and the
  head-stall step unless the chain is idle or waking) some listed one is usable: enabled and held out by no reason.
  While the step is paused, an endpoint usable before stays usable.\<close>

theorem probe_cycle_keeps_a_url:
  assumes cycle: "runProbeCycle maxA endpoints m i cs now vc appender st s = (n, samples, calls, st', s')"
    and "\<forall>p. only_head_stall (pc_heap s p)" "ep \<in> set endpoints" "ServesDirectRelays (pc_heap s (ewd_Endpoint ep))"
    and "ep_Enabled (pc_heap s (ewd_Endpoint ep))" "IdleOrWaking i now \<longrightarrow> IsUsable (pc_heap s (ewd_Endpoint ep))"
  shows "\<exists>ep'\<in>set endpoints. ServesDirectRelays (pc_heap s' (ewd_Endpoint ep')) \<and> IsUsable (pc_heap s' (ewd_Endpoint ep'))"
proof -
  obtain n1 samples1 s1 obs base appender1 where core: "runProbeCycleCore maxA endpoints obs base now vc appender1 True s = (n1, samples1, s1)"
    and rest: "if IdleOrWaking i now then s' = s1
      else \<exists>res. runHeadStallStep endpoints obs (stallCycles m) now st (pc_heap s1) = (res, calls, st', pc_heap s')"
    using cycle unfolding runProbeCycle_def Let_def by (fastforce split: prod.splits if_splits)
  note keeps = cycle_core_keeps [OF core]
  have ep1: "ServesDirectRelays (pc_heap s1 (ewd_Endpoint ep))" "ep_Enabled (pc_heap s1 (ewd_Endpoint ep))" "\<forall>p. only_head_stall (pc_heap s1 p)"
    using keeps assms(2,4,5) by (auto simp: probe_keeps_def ServesDirectRelays_def only_head_stall_def)
  show ?thesis
  proof (cases "IdleOrWaking i now")
    case True
    have "IsUsable (pc_heap s1 (ewd_Endpoint ep))"
      using keeps True assms(6) by (auto simp: probe_keeps_def IsUsable_def heldByStateLocked_def)
    with True rest ep1(1) assms(3) show ?thesis by auto
  next
    case False
    with rest obtain res where "runHeadStallStep endpoints obs (stallCycles m) now st (pc_heap s1) = (res, calls, st', pc_heap s')" by auto
    from head_stall_never_empties [OF ep1(3) assms(3) ep1(1,2) this] show ?thesis .
  qed
qed

section \<open>Frozen urls\<close>

lemma stalled_after_step:
  assumes step: "runHeadStallStep endpoints obs n now st h = (res, calls, st', h')"
    and "ep \<in> set endpoints" "ServesDirectRelays (h (ewd_Endpoint ep))" "holdsStall (h' (ewd_Endpoint ep))"
  shows "isStalled st' (NetworkAddress (h (ewd_Endpoint ep)))"
proof -
  let ?ev = "unique_endpoints endpoints []"
  let ?groups = "group_by_url h (filter (\<lambda>ep. ServesDirectRelays (h (ewd_Endpoint ep))) ?ev) []"
  obtain ep1 where ep1: "ep1 \<in> set ?ev" "ewd_Endpoint ep1 = ewd_Endpoint ep" using unique_covers [OF assms(2), of "[]"] by auto
  then have "ep1 \<in> set (filter (\<lambda>ep. ServesDirectRelays (h (ewd_Endpoint ep))) ?ev)" using assms(3) by simp
  from group_complete [OF this, of h "[]"] ep1(2) obtain g where g: "(NetworkAddress (h (ewd_Endpoint ep)), g) \<in> set ?groups" "ep1 \<in> set g" by auto
  have "(NetworkAddress (h (ewd_Endpoint ep)), ep1) \<in> set (stall_holders h' ?groups)"
    using g ep1(2) assms(4) unfolding stall_holders_def by force
  then show ?thesis unfolding isStalled_def step_stalled [OF step] by (auto intro: rev_image_eqI)
qed

text \<open>C31. Frozen urls cannot pin the chain's tip. After a head-stall step, a url one of whose endpoints is held as stalled has
  no vote in the consensus and its repeats do not refresh the tip; so a baseline that forms is close to a block seen
  from a url that is not stalled, and a tip nothing else refreshes expires and heals.\<close>

theorem frozen_urls_cannot_pin_the_tip:
  assumes step: "runHeadStallStep endpoints obs n now st h = (res, calls, st', h')"
    and "ep \<in> set endpoints" "ServesDirectRelays (h (ewd_Endpoint ep))" "holdsStall (h' (ewd_Endpoint ep))"
    and "0 \<le> BucketWidth c"
  shows "onTipObservation st' t (NetworkAddress (h (ewd_Endpoint ep))) block True cs = (cs, None)
    \<and> NetworkAddress (h (ewd_Endpoint ep)) \<notin> URL ` set (consensusObservations snap (isStalled st'))
    \<and> (\<forall>b. computeMajorityBaseline (consensusObservations snap (isStalled st')) t c = Some b \<longrightarrow>
        (\<exists>url ob. (url, ob) \<in> set snap \<and> \<not> isStalled st' url \<and> b - BucketWidth c \<le> obs_LatestBlock ob \<and> obs_LatestBlock ob \<le> b))"
proof (intro conjI allI impI)
  have st: "isStalled st' (NetworkAddress (h (ewd_Endpoint ep)))" by (rule stalled_after_step [OF assms(1-4)])
  then show "onTipObservation st' t (NetworkAddress (h (ewd_Endpoint ep))) block True cs = (cs, None)" by (simp add: onTipObservation_def)
  show "NetworkAddress (h (ewd_Endpoint ep)) \<notin> URL ` set (consensusObservations snap (isStalled st'))"
    using st by (auto simp: consensusObservations_def)
  fix b assume b: "computeMajorityBaseline (consensusObservations snap (isStalled st')) t c = Some b"
  let ?V = "vote_map c t (consensusObservations snap (isStalled st'))"
  have vote: "\<exists>o'. (u, o') \<in> set snap \<and> \<not> isStalled st' u \<and> obs_LatestBlock o' = Block ob" if "(u, ob) \<in> set ?V" for u ob
    using vote_map_entry [OF that] by (auto simp: consensusObservations_def)
  have "honest_votes (\<lambda>_. True) c t (consensusObservations snap (isStalled st')) = ?V" by (simp add: honest_votes_def)
  with baseline_near_honest_vote [OF assms(5) b, of "\<lambda>_. True"] obtain u ob
    where "(u, ob) \<in> set ?V" "b - BucketWidth c \<le> Block ob" "Block ob \<le> b" by auto
  with vote show "\<exists>url ob. (url, ob) \<in> set snap \<and> \<not> isStalled st' url \<and> b - BucketWidth c \<le> obs_LatestBlock ob \<and> obs_LatestBlock ob \<le> b"
    by (metis (no_types, lifting))
qed

lemma stall_sample_marked:
  "holdsStall (snd (snd (snd (runHeadStallStep stall_listed stall_obs 10 100 headStall_reset stall_heap))) 0)"
  by (simp add: sample_stall_defs headStall_reset_def)

theorem frozen_urls_cannot_pin_the_tip_witness:
  "''https://a'' \<notin> URL ` set (consensusObservations [(''https://a'', stall_obs ''https://a'')]
     (isStalled (fst (snd (snd (runHeadStallStep stall_listed stall_obs 10 100 headStall_reset stall_heap))))))"
proof -
  let ?r = "runHeadStallStep stall_listed stall_obs 10 100 headStall_reset stall_heap"
  have step: "?r = (fst ?r, fst (snd ?r), fst (snd (snd ?r)), snd (snd (snd ?r)))" by simp
  have ep: "hd stall_listed \<in> set stall_listed" "ewd_Endpoint (hd stall_listed) = 0" "ServesDirectRelays (stall_heap (ewd_Endpoint (hd stall_listed)))"
    "NetworkAddress (stall_heap 0) = ''https://a''"
    by (simp_all add: stall_listed_def stall_heap_def ServesDirectRelays_def new_endpoint_def)
  have w: "0 \<le> BucketWidth (DefaultConfig second)" by (simp add: DefaultConfig_def DefaultBucketWidth_def Let_def)
  have held: "holdsStall (snd (snd (snd ?r)) (ewd_Endpoint (hd stall_listed)))" using stall_sample_marked ep(2) by simp
  from frozen_urls_cannot_pin_the_tip [OF step ep(1,3) held w, of 0 0 "NewWithClock []  (DefaultConfig second)" "[(''https://a'', stall_obs ''https://a'')]"] ep(2,4)
  show ?thesis by simp
qed

definition sample_monitor :: EndpointMonitor where
  "sample_monitor = \<lparr>observations = [], generations = [], nextObsGen = 0, lastPublished = [], stopped = False, mon_tips = [],
     mon_chainID = ''ETH1'', mon_apiInterface = ''jsonrpc'', tipStaleAfter = 0, relayGateFreshness = 0, flatPollInterval = second,
     stallCycles = 10, peerGate = False, podID = []\<rparr>"

definition sample_idle :: idle_state where
  "sample_idle = \<lparr>idleAfter = 0, idlePollInterval = 0, lastClientRelay = zero_time, wakeDone = None, wakeBursts = 0, idleAnnounced = False\<rparr>"

theorem probe_cycle_keeps_a_url_witness:
  "\<exists>ep'\<in>set stall_listed. IsUsable (pc_heap (snd (snd (snd (snd (runProbeCycle 50 stall_listed sample_monitor sample_idle
      (NewWithClock ''ETH1'' (DefaultConfig second)) 100 (DefaultVerdictConfig second) False headStall_reset
      \<lparr>pc_heap = stall_heap, inFlight = [], pc_recovered = []\<rparr>))))) (ewd_Endpoint ep'))"
proof -
  let ?s = "\<lparr>pc_heap = stall_heap, inFlight = [], pc_recovered = []\<rparr>"
  let ?r = "runProbeCycle 50 stall_listed sample_monitor sample_idle (NewWithClock ''ETH1'' (DefaultConfig second)) 100 (DefaultVerdictConfig second) False headStall_reset ?s"
  have cycle: "?r = (fst ?r, fst (snd ?r), fst (snd (snd ?r)), fst (snd (snd (snd ?r))), snd (snd (snd (snd ?r))))" by simp
  have "\<forall>p. only_head_stall (pc_heap ?s p)" using sample_only_stall by simp
  moreover have "hd stall_listed \<in> set stall_listed" by (simp add: stall_listed_def)
  moreover have "ServesDirectRelays (pc_heap ?s (ewd_Endpoint (hd stall_listed)))" "ep_Enabled (pc_heap ?s (ewd_Endpoint (hd stall_listed)))"
    "IsUsable (pc_heap ?s (ewd_Endpoint (hd stall_listed)))"
    by (simp_all add: stall_listed_def stall_heap_def ServesDirectRelays_def new_endpoint_def IsUsable_def heldByStateLocked_def)
  ultimately show ?thesis using probe_cycle_keeps_a_url [OF cycle] by blast
qed

section \<open>Idle periods\<close>

text \<open>In every order of relays and ends of bursts at most one burst runs, and its channel is the latest.\<close>

datatype idle_event = ClientRelay time | BurstEnded nat

fun idle_apply :: "idle_event \<Rightarrow> idle_state \<Rightarrow> idle_state" where
  "idle_apply (ClientRelay now) i = snd (NoteClientRelay now i)"
| "idle_apply (BurstEnded ch) i = endWake ch i"

definition idle_ok :: "idle_state \<Rightarrow> bool" where
  "idle_ok i \<longleftrightarrow> (\<forall>ch. wakeDone i = Some ch \<longrightarrow> Suc ch = wakeBursts i)"

lemma idle_ok_apply: "idle_ok i \<Longrightarrow> idle_ok (idle_apply ev i)"
  by (cases ev) (auto simp: idle_ok_def NoteClientRelay_def startWake_def endWake_def Let_def split: option.splits prod.splits)

lemma idle_ok_run: "idle_ok i \<Longrightarrow> idle_ok (fold idle_apply evs i)"
  by (induction evs arbitrary: i) (auto simp: idle_ok_apply)

text \<open>A burst can outlive the idle window it ended: with the shortest window accepted, a relay eleven seconds after the one
  that started the burst closes a second idle gap while the burst is still within its budget, and joins it.\<close>

lemma burst_outlives_idle_window:
  defines "i \<equiv> snd (NoteClientRelay (100 * second) \<lparr>idleAfter = fst (resolveIdleConfig (10 * second) 0 second), idlePollInterval = 0,
      lastClientRelay = 0, wakeDone = None, wakeBursts = 0, idleAnnounced = True\<rparr>)"
  shows "time_sub (111 * second) (lastClientRelay i) < wake_budget 0 \<and> time_sub (111 * second) (lastClientRelay i) > idleAfter i
    \<and> NoteClientRelay (111 * second) i = (Some 0, i\<lparr>lastClientRelay := 111 * second\<rparr>) \<and> wakeInProgress i"
  by (simp add: i_def NoteClientRelay_def startWake_def resolveIdleConfig_def MinIdleAfter_def Let_def wake_budget_def FetchTimeout_def
      pollNowUnstartedGrace_def wakeInProgress_def second_def time_sub_def min_int64_def max_int64_def)

end
