(* ===== verification/RelayRuns.thy ===== *)
theory RelayRuns
  imports RelayStateMachine
begin

text \<open>
  What a whole run of the state machine guarantees when it is driven by the router's own policy
  (\<open>relaypolicy/policy.go\<close>): how often it dispatches, how it ends, and the reason it gives. The
  lemmas about the reason are proved over the policy's contract and reach the router through its
  interpretation.
\<close>

section \<open>The reason a request ends with\<close>

text \<open>
  No machine holds the timeout label as a policy reason, every instruction that carries it carries a
  deadline error, and no instruction that ends the request is without a reason.
\<close>

definition timeout_honest :: "instruction \<Rightarrow> bool" where
  "timeout_honest i \<longleftrightarrow> (ins_Done i \<longrightarrow> ins_StopReason i \<noteq> ''''
     \<and> (ins_StopReason i = StopReasonProcessingTimeout \<longrightarrow>
          (\<exists>er. ins_Err i = Some er \<and> errors_is er DeadlineExceeded)))"

definition label_inv :: "'p state_machine \<Rightarrow> bool" where
  "label_inv sm \<longleftrightarrow> stopReason sm \<noteq> StopReasonProcessingTimeout \<and> pendingStopReason sm \<noteq> StopReasonProcessingTimeout
     \<and> (validators sm \<noteq> [] \<or> returnCondition sm \<noteq> None \<longrightarrow> stopReason sm \<noteq> '''' \<or> pendingStopReason sm \<noteq> '''')
     \<and> (\<forall>i\<in>set (out sm). timeout_honest i)"

lemmas reason_names = StopReasonProcessingTimeout_def StopReasonCallerGone_def StopReasonCrossValidationGroupsQuiet_def

lemma endOfRoad_honest:
  assumes "stopReason sm \<noteq> StopReasonProcessingTimeout"
  shows "endOfRoadReason er sm \<noteq> ''''"
    and "endOfRoadReason er sm = StopReasonProcessingTimeout \<Longrightarrow> errors_is er DeadlineExceeded"
  using assms by (auto simp: endOfRoadReason_def stopReasonOr_def reason_names split: if_splits)

lemma label_send_relay: "label_inv (send_relay n sm) = label_inv sm"
  by (auto simp: label_inv_def send_relay_def timeout_honest_def)

lemma label_transition: "label_inv (stateTransition r sm) = label_inv sm"
  by (simp add: label_inv_def stateTransition_def)

lemma label_books:
  "label_inv (sm\<lparr>sm_policy := p\<rparr>) = label_inv sm" "label_inv (sm\<lparr>pairingEmptyWarned := b\<rparr>) = label_inv sm"
  "label_inv (sm\<lparr>hedgePending := b\<rparr>) = label_inv sm" "label_inv (sm\<lparr>hedgePending := b, hedgeCount := n\<rparr>) = label_inv sm"
  by (simp_all add: label_inv_def)

lemma label_ending:
  assumes "label_inv sm" "label_inv sm'" "ending sm err r sm'" "returnCondition sm' = returnCondition sm"
  shows "label_inv (send_done err r sm')"
proof -
  have "timeout_honest \<lparr>ins_Err = err, ins_Done = True, ins_RelayState = None, ins_NumOfProviders = 0, ins_StopReason = r\<rparr>"
    using assms endOfRoad_honest [of sm'] by (auto simp: ending_def timeout_honest_def label_inv_def reason_names)
  then show ?thesis using assms(2) by (simp add: label_inv_def send_done_def)
qed

text \<open>While attempts are in flight, no reason is filed and no waiting goroutine signals.\<close>

definition quiet_inv :: "'p state_machine \<Rightarrow> bool" where
  "quiet_inv sm \<longleftrightarrow> stopReason sm = '''' \<and> returnCondition sm = None
     \<and> (\<forall>i\<in>set (out sm). \<forall>er. ins_Err i = Some er \<and> errors_is er DeadlineExceeded \<longrightarrow>
          ins_StopReason i = StopReasonProcessingTimeout)"

context labelled_policy
begin

lemma given_labels:
  assumes "given_reason decide r" shows "r \<noteq> ''''" and "r \<noteq> StopReasonProcessingTimeout"
proof -
  have "r \<noteq> '''' \<and> r \<noteq> StopReasonProcessingTimeout"
  proof (cases "r \<in> {''AllProvidersExhausted'', ''PinnedProviderUnavailable'', ''FirstMessageFailed'', ''BatchSendFailed''}")
    case True
    then show ?thesis by (elim insertE emptyE) (simp_all add: reason_names)
  next
    case False
    with assms have "\<exists>p i. r = Reason (decide p i)" by (simp only: given_reason_def simp_thms)
    then obtain p i where "r = Reason (decide p i)" by (elim exE)
    then show ?thesis using reason_given reason_not_timeout by (simp add: reason_names)
  qed
  then show "r \<noteq> ''''" and "r \<noteq> StopReasonProcessingTimeout" by simp_all
qed

lemma label_event:
  assumes "label_inv sm" shows "label_inv (on_event decide on_send be c req e ev sm)"
proof -
  have "label_inv (on_event decide on_send be c req e ev sm) \<and>
      returnCondition (on_event decide on_send be c req e ev sm) = returnCondition sm"
  proof (rule event_preserves [where P = "\<lambda>sm'. label_inv sm' \<and> returnCondition sm' = returnCondition sm"], goal_cases)
    case 1
    then show ?case using assms by simp
  next
    case (2 sm' err r)
    then show ?case using assms by (simp add: label_ending) (simp add: send_done_def)
  next
    case (6 sm' r)
    then have "r \<noteq> ''''" "r \<noteq> StopReasonProcessingTimeout"
      using assms given_labels by (auto simp: files_reason_def label_inv_def)
    with 6 show ?case by (simp add: label_inv_def)
  next
    case (7 sm' r)
    with given_labels [of r] show ?case by (simp add: label_inv_def)
  next
    case (8 sm' v)
    then have "stopReason sm' \<noteq> '''' \<or> pendingStopReason sm' \<noteq> ''''"
      using given_labels by (auto simp: has_reason_def)
    with 8 show ?case by (simp add: label_inv_def)
  qed (simp_all add: label_books label_send_relay label_transition, simp_all add: send_relay_def stateTransition_def)
  then show ?thesis by simp
qed

lemma label_validate:
  assumes "label_inv sm" "v \<in> set (validators sm)" shows "label_inv (validateReturnCondition e v sm)"
proof -
  have "validators sm \<noteq> []" using assms(2) by auto
  then show ?thesis using assms(1)
    by (auto simp: label_inv_def validateReturnCondition_def signalReturnCondition_def Let_def split: option.split)
qed

lemma label_run:
  "sm_run decide on_send be c req es sm0 sm \<Longrightarrow> fresh_machine sm0 \<Longrightarrow> label_inv sm"
proof (induction rule: sm_run.induct)
  case (started sm)
  then show ?case
    by (simp add: start_def Let_def label_send_relay label_transition) (simp add: label_inv_def fresh_machine_def reason_names)
qed (simp_all add: label_event label_validate)

lemma quiet_event:
  assumes "quiet_inv sm" "env_CurrentlyUsed e > 0" shows "quiet_inv (on_event decide on_send be c req e ev sm)"
proof (rule event_preserves [where P = quiet_inv], goal_cases)
  case 1
  then show ?case using assms by simp
next
  case (2 sm' err r)
  then show ?case using assms
    by (auto simp: ending_def quiet_inv_def send_done_def endOfRoadReason_def stopReasonOr_def
        ErrCrossValidationGroupsQuiet_def DeadlineExceeded_def)
next
  case (6 sm' r)
  then show ?case using assms by (simp add: files_reason_def quiet_inv_def)
qed (simp_all add: quiet_inv_def send_relay_def stateTransition_def)

lemma quiet_run:
  "sm_run decide on_send be c req es sm0 sm \<Longrightarrow> fresh_machine sm0 \<Longrightarrow> \<forall>e\<in>set es. env_CurrentlyUsed e > 0 \<Longrightarrow> quiet_inv sm"
proof (induction rule: sm_run.induct)
  case (started sm)
  then show ?case
    by (simp add: start_def Let_def quiet_inv_def fresh_machine_def send_relay_def stateTransition_def)
next
  case (event es sm0 sm e ev)
  then show ?case by (simp add: quiet_event)
next
  case (wake es sm0 sm v e)
  then show ?case by (simp add: quiet_inv_def validateReturnCondition_def Let_def)
qed

end

section \<open>Runs of the router's machine\<close>

text \<open>
  C8. Every request ends at most once, and tells its caller everything in order: in any run of the
  machine, whatever the order of results, send reports, ticks, wake-ups and deadlines, the task
  channel carries a sequence of dispatches, each with one of the request's numbered states and no
  error, followed, exactly when the machine has finished, by one final instruction. Each state beyond
  the first was added for one retry or hedge, so no more hedges are counted than states.
\<close>

theorem run_ends_once:
  assumes "NewUnifiedRelayStateMachine cvOverride forbid stateful headers (NewPolicy pc) = Inr sm0"
    and "sm_run Decide OnSendRelayResult GetConsecutiveBatchErrors c req es sm0 sm"
  shows "map stateNumber (relayState sm) = map int [0..<length (relayState sm)]
    \<and> (\<exists>pre. (\<forall>i\<in>set pre. \<not> ins_Done i \<and> ins_Err i = None \<and> (\<exists>s\<in>set (relayState sm). ins_RelayState i = Some s))
         \<and> (if finished sm then \<exists>d. ins_Done d \<and> out sm = pre @ [d] else out sm = pre))
    \<and> 0 \<le> hedgeCount sm \<and> hedgeCount sm \<le> int (length (relayState sm)) - 1"
proof -
  from run_inv [OF assms(2) new_machine_fresh [OF assms(1)]]
  show ?thesis by (auto simp: sm_inv_def numbered_def outputs_ok_def split: if_splits)
qed

text \<open>A concrete request: its configuration, environment and the machine the constructor builds.\<close>

definition sample_sm_config :: StateMachineConfig where
  "sample_sm_config = \<lparr>sm_EnableCircuitBreaker = True, sm_EnableTimeoutPriority = True, sm_SendRelayAttempts = 3\<rparr>"

definition sample_request :: request where
  "sample_request = \<lparr>req_IsBatch = False, req_IsDefaultApi = False, req_DirectiveHeaders = []\<rparr>"

definition sample_pinned :: request where
  "sample_pinned = sample_request\<lparr>req_DirectiveHeaders := [(STICKINESS_HEADER_NAME, ''u1'')]\<rparr>"

definition sample_env :: env where
  "sample_env = \<lparr>env_CurrentlyUsed = 1, env_BatchNumber = 1, env_Summary = empty_summary, env_PriorityErr = None,
     env_CtxErr = None, env_MissingOnlyGroups = False\<rparr>"

definition sample_expired :: env where
  "sample_expired = sample_env\<lparr>env_CtxErr := Some (ErrSentinel DeadlineExceeded)\<rparr>"

definition sample_machine :: "selection \<Rightarrow> CrossValidationParams option \<Rightarrow> policy state_machine" where
  "sample_machine sel params = \<lparr>sm_selection = sel, sm_params = params, stopReason = '''', pendingStopReason = '''',
     hedgePending = False, pairingEmptyWarned = False, relayState = [], sm_policy = NewPolicy sample_config, hedgeCount = 0,
     validators = [], returnCondition = None, out = [], finished = False\<rparr>"

definition sample_cv :: CrossValidationParams where
  "sample_cv = \<lparr>MaxParticipants = 3, AgreementThreshold = 2, MinGroups = 0, PerGroupQuorum = False\<rparr>"

lemma sample_machines:
  "NewUnifiedRelayStateMachine None False False None (NewPolicy sample_config) = Inr (sample_machine Stateless None)"
  "NewUnifiedRelayStateMachine None False True None (NewPolicy sample_config) = Inr (sample_machine Stateful None)"
  "NewUnifiedRelayStateMachine (Some sample_cv) False False None (NewPolicy sample_config)
     = Inr (sample_machine CrossValidation (Some sample_cv))"
  by (simp_all add: NewUnifiedRelayStateMachine_def choose_selection_def sample_machine_def)

text \<open>One turn of the sample machine after its first dispatch, as a run.\<close>

definition sample_turn :: "request \<Rightarrow> env \<Rightarrow> event \<Rightarrow> policy state_machine \<Rightarrow> policy state_machine" where
  "sample_turn req e ev sm0 =
     on_event Decide OnSendRelayResult GetConsecutiveBatchErrors sample_sm_config req e ev (start sm0)"

lemma sample_turn_run:
  "sm_run Decide OnSendRelayResult GetConsecutiveBatchErrors sample_sm_config req [e] (sample_machine sel params)
     (sample_turn req e ev (sample_machine sel params))"
proof -
  have "\<not> finished (start (sample_machine sel params))"
    by (simp add: start_def Let_def send_relay_def stateTransition_def sample_machine_def)
  from sm_run.event [OF sm_run.started this, of _ _ _ _ _ e ev] show ?thesis by (simp add: sample_turn_def)
qed

lemmas sample_defs = sample_sm_config_def sample_request_def sample_pinned_def sample_env_def sample_expired_def
  sample_machine_def sample_cv_def sample_turn_def on_event_def on_batch_update_def on_tick_def on_results_def on_ctx_done_def
  checkAndHandleTimeout_def start_def send_relay_def send_done_def stateTransition_def getLatestState_def
  OnSendRelayResult_def Let_def

theorem run_ends_once_witness:
  "finished (sample_turn sample_request sample_expired CtxDone (sample_machine Stateless None))
   \<and> (\<exists>pre d. ins_Done d \<and> out (sample_turn sample_request sample_expired CtxDone (sample_machine Stateless None)) = pre @ [d]
        \<and> (\<forall>i\<in>set pre. \<not> ins_Done i))"
proof -
  have fin: "finished (sample_turn sample_request sample_expired CtxDone (sample_machine Stateless None))"
    by (simp add: sample_defs)
  with run_ends_once [OF sample_machines(1) sample_turn_run, of sample_request sample_expired CtxDone]
  show ?thesis by (simp only: if_True) blast
qed

text \<open>
  C9. A cross-validated request is sent out exactly once, to \<open>MaxParticipants\<close> providers: neither a
  retry, nor a hedge, nor a resend after a failed dispatch adds another batch.
\<close>

theorem cross_validation_dispatches_once:
  assumes "NewUnifiedRelayStateMachine cvOverride forbid stateful headers (NewPolicy pc) = Inr sm0"
    and "sm_selection sm0 = CrossValidation"
    and "sm_run Decide OnSendRelayResult GetConsecutiveBatchErrors c req es sm0 sm"
  shows "\<exists>p. sm_params sm0 = Some p \<and> map ins_NumOfProviders (dispatches sm) = [MaxParticipants p]"
proof -
  obtain p where p: "sm_params sm0 = Some p"
    using assms(1,2) by (auto simp: NewUnifiedRelayStateMachine_def choose_selection_def split: option.splits if_splits sum.splits)
  have "dispatches sm = dispatches (start sm0)" by (rule router_policy.cv_run_dispatches [OF assms(3,2)])
  with p new_machine_fresh [OF assms(1)] assms(2) show ?thesis
    by (simp add: start_def Let_def) (simp add: dispatches_def fresh_machine_def stateTransition_def)
qed

theorem cross_validation_dispatches_once_witness:
  "map ins_NumOfProviders (dispatches (sample_turn sample_request sample_env Tick
     (sample_machine CrossValidation (Some sample_cv)))) = [3]"
proof -
  have "sm_selection (sample_machine CrossValidation (Some sample_cv)) = CrossValidation" by (simp add: sample_machine_def)
  from cross_validation_dispatches_once [OF sample_machines(3) this sample_turn_run, of sample_request sample_env Tick]
  show ?thesis by (simp add: sample_machine_def sample_cv_def)
qed

text \<open>
  A pinned request (the stickiness header, or a strictly selected provider) never fans out: it
  keeps its single state, number 0, every dispatch carries that state, and no hedge is ever counted.
\<close>

theorem pinned_request_never_retries:
  assumes "NewUnifiedRelayStateMachine cvOverride forbid stateful headers (NewPolicy pc) = Inr sm0"
    and "PinnedByDirectives (req_DirectiveHeaders req)"
    and "sm_run Decide OnSendRelayResult GetConsecutiveBatchErrors c req es sm0 sm"
  shows "map stateNumber (relayState sm) = [0] \<and> hedgeCount sm = 0
    \<and> (\<forall>i\<in>set (dispatches sm). \<exists>s. ins_RelayState i = Some s \<and> stateNumber s = 0)"
proof -
  have one: "relayState sm = [\<lparr>stateNumber = 0, isEarliestUsed = False\<rparr>]"
    using router_policy.pinned_run_states [OF assms(3,2)] new_machine_fresh [OF assms(1)]
    by (simp add: start_def Let_def send_relay_def stateTransition_def fresh_machine_def)
  from run_inv [OF assms(3) new_machine_fresh [OF assms(1)]] one show ?thesis
    by (auto simp: sm_inv_def outputs_ok_def dispatches_def split: if_splits)
qed

theorem pinned_request_never_retries_witness:
  "PinnedByDirectives (req_DirectiveHeaders sample_pinned)
   \<and> map stateNumber (relayState (sample_turn sample_pinned sample_env Tick (sample_machine Stateless None))) = [0]"
proof -
  have "PinnedByDirectives (req_DirectiveHeaders sample_pinned)"
    by (simp add: PinnedByDirectives_def sample_pinned_def sample_request_def)
  with pinned_request_never_retries [OF sample_machines(1) this sample_turn_run, of sample_env Tick] show ?thesis by blast
qed

text \<open>
  A write is never hedged: in no run of a stateful request does the machine ask for a hedge or
  count one, whatever its ticker does.
\<close>

theorem write_never_hedged:
  assumes "NewUnifiedRelayStateMachine cvOverride forbid stateful headers (NewPolicy pc) = Inr sm0"
    and "sm_selection sm0 = Stateful"
    and "sm_run Decide OnSendRelayResult GetConsecutiveBatchErrors c req es sm0 sm"
  shows "\<not> hedgePending sm \<and> hedgeCount sm = 0"
  using router_policy.write_run_hedges [OF assms(3,2) new_machine_fresh [OF assms(1)]] .

theorem write_never_hedged_witness:
  "hedgeCount (sample_turn sample_request sample_env Tick (sample_machine Stateful None)) = 0"
proof -
  have "sm_selection (sample_machine Stateful None) = Stateful" by (simp add: sample_machine_def)
  from write_never_hedged [OF sample_machines(2) this sample_turn_run, of sample_request sample_env Tick]
  show ?thesis by blast
qed

text \<open>
  The timeout label is honest: a finished request always names a reason, and when it names
  \<open>ProcessingTimeout\<close>, which availability scoring reads as blame for the endpoint, its error is a
  real deadline, never the caller hanging up and never a reason of the policy.
\<close>

theorem timeout_label_is_honest:
  assumes "NewUnifiedRelayStateMachine cvOverride forbid stateful headers (NewPolicy pc) = Inr sm0"
    and "sm_run Decide OnSendRelayResult GetConsecutiveBatchErrors c req es sm0 sm"
    and "i \<in> set (out sm)" and "ins_Done i"
  shows "ins_StopReason i \<noteq> '''' \<and> (ins_StopReason i = StopReasonProcessingTimeout \<longrightarrow>
    (\<exists>er. ins_Err i = Some er \<and> errors_is er DeadlineExceeded))"
  using router_labels.label_run [OF assms(2) new_machine_fresh [OF assms(1)]] assms(3,4)
  by (auto simp: label_inv_def timeout_honest_def)

theorem timeout_label_is_honest_witness:
  "\<exists>i\<in>set (out (sample_turn sample_request sample_expired CtxDone (sample_machine Stateless None))).
     ins_Done i \<and> ins_StopReason i = StopReasonProcessingTimeout \<and> (\<exists>er. ins_Err i = Some er \<and> errors_is er DeadlineExceeded)"
proof -
  let ?sm = "sample_turn sample_request sample_expired CtxDone (sample_machine Stateless None)"
  let ?i = "\<lparr>ins_Err = Some (ErrSentinel DeadlineExceeded), ins_Done = True, ins_RelayState = None,
     ins_NumOfProviders = 0, ins_StopReason = StopReasonProcessingTimeout\<rparr>"
  have i: "?i \<in> set (out ?sm)" by (simp add: sample_defs endOfRoadReason_def stopReasonOr_def)
  have d: "ins_Done ?i" and r: "ins_StopReason ?i = StopReasonProcessingTimeout" by simp_all
  from timeout_label_is_honest [OF sample_machines(1) sample_turn_run i d] d r i show ?thesis by blast
qed

text \<open>
  A policy stop never hides the timeout: as long as some attempt was in flight throughout, a
  request whose deadline then ends it reports \<open>ProcessingTimeout\<close>, however often the policy wanted to
  stop before (those reasons are held back).
\<close>

theorem deadline_with_attempts_in_flight:
  assumes "NewUnifiedRelayStateMachine cvOverride forbid stateful headers (NewPolicy pc) = Inr sm0"
    and "sm_run Decide OnSendRelayResult GetConsecutiveBatchErrors c req es sm0 sm"
    and "\<forall>e\<in>set es. env_CurrentlyUsed e > 0"
    and "i \<in> set (out sm)" "ins_Err i = Some er" "errors_is er DeadlineExceeded"
  shows "ins_StopReason i = StopReasonProcessingTimeout"
  using router_labels.quiet_run [OF assms(2) new_machine_fresh [OF assms(1)] assms(3)] assms(4-6)
  by (auto simp: quiet_inv_def)

theorem deadline_with_attempts_in_flight_witness:
  "map ins_StopReason (filter ins_Done (out (sample_turn sample_request sample_expired CtxDone (sample_machine Stateless None))))
     = [StopReasonProcessingTimeout]"
proof -
  let ?sm = "sample_turn sample_request sample_expired CtxDone (sample_machine Stateless None)"
  obtain i where i: "filter ins_Done (out ?sm) = [i]" "i \<in> set (out ?sm)" "ins_Err i = Some (ErrSentinel DeadlineExceeded)"
    by (simp add: sample_defs)
  have used: "\<forall>e\<in>set [sample_expired]. env_CurrentlyUsed e > 0" by (simp add: sample_defs)
  from deadline_with_attempts_in_flight [OF sample_machines(1) sample_turn_run used i(2,3)] i(1) show ?thesis by simp
qed

text \<open>
  With timeout priority on, an expired request does nothing more: whatever event is ready, the
  turn that finds the context done sends only the final instruction with the context's error.
\<close>

theorem timeout_has_priority:
  assumes "sm_EnableTimeoutPriority c" and "env_PriorityErr e = Some er"
  shows "on_event Decide OnSendRelayResult GetConsecutiveBatchErrors c req e ev sm
    = send_done (Some er) (endOfRoadReason er sm) sm"
  using assms by (simp add: on_event_def checkAndHandleTimeout_def)

theorem timeout_has_priority_witness:
  "out (sample_turn sample_request (sample_env\<lparr>env_PriorityErr := Some (ErrSentinel DeadlineExceeded)\<rparr>) (GotResults False)
     (sample_machine Stateless None))
   = out (start (sample_machine Stateless None)) @ [\<lparr>ins_Err = Some (ErrSentinel DeadlineExceeded), ins_Done = True,
       ins_RelayState = None, ins_NumOfProviders = 0, ins_StopReason = StopReasonProcessingTimeout\<rparr>]"
proof -
  have c: "sm_EnableTimeoutPriority sample_sm_config" by (simp add: sample_sm_config_def)
  have e: "env_PriorityErr (sample_env\<lparr>env_PriorityErr := Some (ErrSentinel DeadlineExceeded)\<rparr>) = Some (ErrSentinel DeadlineExceeded)"
    by simp
  have "stopReason (start (sample_machine Stateless None)) = ''''" by (simp add: sample_defs)
  with timeout_has_priority [OF c e, of sample_request "GotResults False"] show ?thesis
    by (simp add: sample_turn_def send_done_def endOfRoadReason_def stopReasonOr_def)
qed

text \<open>
  When a request is cross-validated: exactly when the operator's override says so, or when the
  caller may ask for it, the method is not a write, and its headers parse; headers that do not parse
  are refused, and a write is never cross-validated on a caller's word.
\<close>

theorem selection_of_request:
  "(\<exists>p. choose_selection cvOverride forbidCaller stateful headers = Inr (CrossValidation, Some p)) \<longleftrightarrow>
     cvOverride \<noteq> None \<or> (\<not> forbidCaller \<and> \<not> stateful \<and> (\<exists>p. headers = Some (Inr p)))"
  by (auto simp: choose_selection_def split: option.split sum.split)

end
