(* ===== verification/Spec2Isabelle.thy ===== *)
theory Spec2Isabelle
  imports SpecExpand CacheServer SessionPool UpstreamSelector SessionLife ProbeCycle ErrorVerdicts EndpointTip Holdoff UsedProviders ChainState CVPolicy QuorumFlow RelayRuns
begin

text \<open>
  \<^bold>\<open>A verification library for the smart router.\<close>

  The smart router is a proxy in front of many RPC upstreams ("providers") of many chains. A request
  enters a listener, is parsed, gets a selection mode (a read, a write, or a cross-validated read) and
  is handed to the relay core under \<open>src/protocol/\<close>. There a state machine
  (\<open>relaycore/unified_relay_state_machine.go\<close>) dispatches it, reads the results the relay processor
  (\<open>relaycore/relay_processor.go\<close>) collects, and asks the policy (\<open>relaypolicy/policy.go\<close>) whether to
  try again. Which providers may still be asked is kept per request in \<open>lavasession/used_providers.go\<close>;
  which ones asked to be left alone, for all requests, in \<open>holdoff/holdoff.go\<close>; which ones are too far
  behind is decided by \<open>relaycore/consistency_validation.go\<close> against the chain tip of
  \<open>chainstate/chain_state.go\<close>, whose per-endpoint inputs live in \<open>endpointtip/store.go\<close>. What an upstream's
  failure means is decided by the classifier under \<open>src/protocol/common/\<close>. Replies are shared between
  routers through the cache server under \<open>src/ecosystem/cache/\<close>. Which methods a chain has comes from
  its spec, expanded through the specs it imports by \<open>src/types/spec/\<close>. Each upstream url has a chain tracker that polls
  it (\<open>endpointstate/\<close>); a probe loop turns polls and replays into the health of the endpoints
  (\<open>lavasession/consumer_types.go\<close>), takes stuck ones out (\<open>rpcsmartrouter/head_stall.go\<close>) and feeds the chain tip.

  \<^bold>\<open>Theories, code and what is shown.\<close>

  \<^item> \<open>Prelude\<close>: Go's 64-bit arithmetic, times and durations, errors with \<open>errors.Is\<close>, maps as
    association lists with distinct keys, and string formatting. The locale \<open>keyed_store\<close> is the
    contract of a Go map, interpreted on the association lists.
  \<^item> \<open>RelayPolicy\<close> (\<open>relaypolicy/policy.go\<close>, \<open>relaycore/interfaces.go\<close>): \<open>Decide\<close>,
    \<open>OnSendRelayResult\<close>. The retry decision as one equivalence, safety of retried writes, the bounds on
    resends and the circuit breaker. The Go interface \<open>RelayPolicyInf\<close> is the locale \<open>relay_policy\<close>,
    extended by \<open>labelled_policy\<close>; both are interpreted on the router's policy.
  \<^item> \<open>RetryAfter\<close> (\<open>common/retry_after.go\<close>): the delay an upstream asks for, from HTTP and gRPC,
    and the typed rate-limit error. \<open>http.ParseTime\<close> is the argument \<open>pt\<close>.
  \<^item> \<open>Holdoff\<close> (\<open>utils/backoff/backoff.go\<close>, \<open>holdoff/holdoff.go\<close>): the penalty ladder and the
    registry. One strike per hold-off, provider-wide escalation, clearing by an answer, and the one-hour
    bound in every reachable state. Floating-point numbers are reals; the random jitter is an argument.
  \<^item> \<open>ChainState\<close> (\<open>chainstate/chain_state.go\<close>): the guarded tip and the majority baseline. The sliding
    window against its specification, resistance to a lying minority, the band invariant of every
    reachable state, edge correction, the guard, and self-healing.
  \<^item> \<open>EndpointTip\<close> (\<open>endpointtip/store.go\<close>): the tip store, its contract as the locale \<open>tip_store\<close> and
    the interpretation on the code's operations.
  \<^item> \<open>Consistency\<close> (\<open>relaycore/consistency_config.go\<close>, \<open>consistency_validation.go\<close>,
    \<open>types/spec/constants.go\<close>): the pre-request gate.
  \<^item> \<open>UsedProviders\<close> (\<open>lavasession/used_providers.go\<close>, \<open>router_key.go\<close>, \<open>common/eligibility.go\<close>):
    exclusions per router key, batches, the selection lock. Isolation of the user's blocklist and the
    single sync-loss retry by rule induction over all operations; round trip of a dropped batch.
  \<^item> \<open>Results\<close> (\<open>relaycore/results_manager.go\<close>, \<open>relay_errors.go\<close>, \<open>client_facing_error.go\<close>, parts of
    \<open>relay_processor.go\<close>): filing of responses, the summary the policy reads, the error a client sees.
  \<^item> \<open>Quorum\<close> and \<open>QuorumFlow\<close> (\<open>relaycore/relay_processor.go\<close>): cross-validation. The final evaluation
    against the quorum rule, the agreement of the running tally with it, the attempt-window stop, and the
    straggler watcher.
  \<^item> \<open>RelayStateMachine\<close> and \<open>RelayRuns\<close> (\<open>relaycore/unified_relay_state_machine.go\<close>,
    \<open>relay_state.go\<close>): each arm of the select loop as one operation, runs as an inductive relation over
    arbitrary event orders, and what every run of the machine with the router's policy guarantees.
  \<^item> \<open>CVPolicy\<close> (\<open>rpcsmartrouter/cross_validation_policy.go\<close>, \<open>cross_validation_boot.go\<close>,
    \<open>smartrouter_relay_state_machine.go\<close>, parts of \<open>rpcsmartrouter_server.go\<close>): per-method
    cross-validation policies. A caller cannot weaken an enabled policy, the request-time capacity guard is
    exact for the quorum rule, the startup forecast is exact for the guard, and what bundled methods lose.
  \<^item> \<open>ErrorRegistry\<close>, \<open>ErrorCodes\<close>, \<open>ErrorClassifier\<close> (\<open>common/error_registry.go\<close>, \<open>error_codes.go\<close>,
    \<open>error_classifier.go\<close>, \<open>error_xrpl.go\<close>, \<open>xrplEngineResult.go\<close>): the registered codes, the matchers
    and their tables, the tiered classification, connection faults. \<open>GoRegexp\<close> is the part of Go's regular
    expressions the tables use, as a relation and an executable matcher proved equivalent. \<open>ErrorVerdicts\<close>
    shows that every verdict is registered, that the verdicts agree with the transport's
    typed rate limit, what a connection verdict says about delivery, and that no refusal of the XRP Ledger goes
    unclassified.
  \<^item> \<open>EndpointHealth\<close> (\<open>lavasession/consumer_types.go\<close>, \<open>endpoint_state_reason.go\<close>): an endpoint's failure
    counter, its disabling and its return by probes and replays, in every order of events (\<open>ep_reachable\<close>).
    \<open>EndpointMonitor\<close> (\<open>endpointstate/\<close>, \<open>probing/\<close>): observations from polls, relays and peers and the verdicts
    on them; what re-enables an endpoint was seen by this process itself. \<open>HeadStall\<close> (\<open>rpcsmartrouter/head_stall.go\<close>):
    stuck urls taken out, over a heap of endpoints. \<open>AttemptHealth\<close> (\<open>chainlib/node_error_handler.go\<close>,
    \<open>rpcsmartrouter/error_mapper.go\<close>, \<open>direct_rpc_relay.go\<close>, \<open>recovery_probe.go\<close>, \<open>relayInnerDirect\<close>): what an attempt
    and a replay mean for the endpoint, and where the two agree. \<open>ProbeCycle\<close> (\<open>runProbeCycle\<close>,
    \<open>endpointstate/idle.go\<close>): the cycle as a whole, with the chain tip's consensus and idle mode.
  \<^item> \<open>SessionPool\<close> (\<open>lavasession/consumer_session_manager.go\<close>, \<open>block_reason.go\<close>, \<open>reported_providers.go\<close>): the pool of
    providers over heaps of providers and endpoints. The books of blocked providers balance in every order of
    operations (\<open>csm_reachable\<close>), a blocked provider is not offered, an epoch rebuild keeps known-bad providers out, the
    last-resort release is tried exactly when it helps, and the two ways in which a released provider is still not offered.
  \<^item> \<open>UpstreamSelector\<close> (\<open>provideroptimizer/\<close>): scores and the choice among candidates; bounds of a score,
    proportional draws, the deterministic mode. The optimizer's side of the contract with the session manager is the
    locale \<open>upstream_choice\<close>.
  \<^item> \<open>SessionSelect\<close>, \<open>SessionCascade\<close> and \<open>SessionLife\<close> (\<open>lavasession/consumer_session_manager.go\<close>, \<open>consumer_types.go\<close>,
    \<open>single_consumer_session.go\<close>): which providers a request is handed, over the pool and the optimizer's contract, with the
    hold-off registry and the cross-validation policy; opening a session on an endpoint, \<open>GetSessions\<close> as a whole, and giving sessions
    back. An admitted request gets providers that can agree while the cached candidates are current, the hold-off filter is exact, \<open>GetSessions\<close> always answers, a request pinned without group diversity is never served by another provider, a session is held by one request, the books of compute units
    balance in every order of steps (\<open>session_reachable\<close>), and the case in which the filter starves a quorum.
  \<^item> \<open>CacheKeys\<close>, \<open>CacheStores\<close>, \<open>CacheEngine\<close>, \<open>CacheServer\<close> (\<open>ecosystem/cache/\<close> and \<open>core/\<close>): keys and
    lifetimes, the expiring maps, the engine over the store interface, and the store on ristretto behind the RPC
    handlers. Go's \<open>KVStore\<close> is the locale \<open>kv_store\<close>, extended to \<open>cache_server\<close>; what a cache with room promises is \<open>roomy_ristretto\<close>; the contracts of the
    expiring maps are \<open>expiring_store\<close>, \<open>claim_store\<close> and \<open>monotone_store\<close>. Isolation of keyspaces, injectivity
    of keys, every served reply was written for that request, the round trip of a write until it expires, one owner per
    session, and a visible tip that never falls.
  \<^item> \<open>SpecExpand\<close> (\<open>types/spec/combinable.go\<close>, \<open>api_collection.go\<close>, \<open>spec.go\<close>, \<open>expand.go\<close>,
    \<open>utils/keeper/spec.go\<close>): spec inheritance over a heap of collections. Termination and refusal of import
    cycles, and the combination of collections against its specification; the Go interface \<open>Combinable\<close> is the
    locale \<open>combinable_items\<close>, interpreted on its five implementations.
  \<^item> this theory: what holds of the components together.

  \<^bold>\<open>Conventions.\<close> A Go struct is a record, an enum a datatype, a returned or mutated state an explicit
  result, a panic or a fatal exit \<open>None\<close>. An operation that holds one mutex for its whole body is one
  step; concurrency is the arbitrary order of steps in \<open>chain_step\<close>, \<open>holdoff_step\<close>, \<open>up_op\<close>,
  \<open>ep_reachable\<close>, \<open>csm_reachable\<close>, \<open>session_reachable\<close>, \<open>monitor_run\<close> and \<open>sm_run\<close>. The order in which Go ranges over a map is either the order of the association list or an
  argument \<open>iter\<close> that visits every entry once (\<open>visits_all\<close>), so results hold for all orders. There is
  no fuel: a recursion is structural or has a termination proof, the loops that fetch providers and open sessions (\<open>fetch_loop\<close>,
  \<open>session_loop\<close>) are partial functions proved to return in every reachable state, and the one loop that waits
  (\<open>TryLockSelection\<close>) is shown to answer within 201 polls.

  \<^bold>\<open>Parameters.\<close> \<open>H\<close> is the content hash of a reply (canonical JSON form and SHA-256), \<open>classify\<close>,
  \<open>unsupported\<close>, \<open>should_retry\<close> and the fields of \<open>protocol_message\<close> are the error classifier and the
  chain-specific reply parsers, \<open>ds\<close> renders a duration, \<open>statusCode\<close> is the gRPC status of an error.
  No theorem assumes anything of them; below the classifier's parameter is filled with the modelled one. The
  ristretto cache is a record of its operations with the laws of the locale \<open>ristretto_cache\<close> (a read
  returns only what was set under its key since the last clearing), for the round trip those of \<open>roomy_ristretto\<close> (writes are
  applied and last until they expire), and gzip a codec whose decompression undoes its
  compression (\<open>codec_ok\<close>); both are instantiated by concrete functions.

  \<^bold>\<open>Not modelled.\<close> Transports and listeners (network I/O), request parsing per API interface, the
  decaying averages and percentiles behind a QoS report, chain trackers, the REST, GraphQL and gRPC senders, the RESP store and
  the client of the cache, error logging, Unicode lower-casing beyond ASCII, the loading of spec files, the
  trace strings of spec expansion, metrics, logging and the command line.
\<close>

section \<open>Results and the state machine\<close>

text \<open>What the results manager has filed after a list of responses.\<close>

definition node_error :: "protocol_message \<Rightarrow> RelayResponse \<Rightarrow> bool" where
  "node_error pm resp \<longleftrightarrow> Resp_Err resp = None \<and> \<not> IsSubscribe pm
     \<and> (case RR_Reply (Resp_RelayResult resp) of None \<Rightarrow> False
        | Some reply \<Rightarrow> fst (CheckResponseError pm (Data reply) (StatusCode (Resp_RelayResult resp))))"

lemma set_response_protocol_errors:
  "RE_Err ` set (RelayErrors (protocolResponseErrors (snd (rm_SetResponse classify pm resp rm))))
   = RE_Err ` set (RelayErrors (protocolResponseErrors rm)) \<union> {er. \<exists>r. resp = Some r \<and> Resp_Err r = Some er}"
  by (auto simp: set_response_defs split: option.split prod.split)

lemma run_protocol_errors:
  "RE_Err ` set (RelayErrors (protocolResponseErrors (rm_run classify pm rs rm)))
   = RE_Err ` set (RelayErrors (protocolResponseErrors rm)) \<union> {er. \<exists>r. Some r \<in> set rs \<and> Resp_Err r = Some er}"
  unfolding rm_run_def by (induction rs arbitrary: rm) (auto simp: set_response_protocol_errors)

lemma set_response_node_errors:
  "IsRateLimited ` set (rm_NodeErrors (snd (rm_SetResponse classify pm resp rm)))
   = IsRateLimited ` set (rm_NodeErrors rm) \<union> {IsRateLimited (Resp_RelayResult r) | r. resp = Some r \<and> node_error pm r}"
  by (auto simp: set_response_defs rm_NodeErrors_def node_error_def split: option.split prod.split)

lemma run_node_errors:
  "IsRateLimited ` set (rm_NodeErrors (rm_run classify pm rs rm))
   = IsRateLimited ` set (rm_NodeErrors rm) \<union> {IsRateLimited (Resp_RelayResult r) | r. Some r \<in> set rs \<and> node_error pm r}"
  unfolding rm_run_def by (induction rs arbitrary: rm) (auto simp: set_response_node_errors)

lemma only_rate_limited_run:
  assumes "OnlyRateLimited (GetResultsSummary unsupported should_retry (rm_run classify pm rs NewResultsManager))"
    and "Some r \<in> set rs"
  shows "(\<forall>er. Resp_Err r = Some er \<longrightarrow> errors_is er StatusCodeError429) \<and> (node_error pm r \<longrightarrow> IsRateLimited (Resp_RelayResult r))"
proof -
  let ?rm = "rm_run classify pm rs NewResultsManager"
  from assms(1) have all: "\<forall>er\<in>RE_Err ` set (RelayErrors (protocolResponseErrors ?rm)). errors_is er StatusCodeError429"
    "\<forall>b\<in>IsRateLimited ` set (rm_NodeErrors ?rm). b"
    by (auto simp: GetResultsSummary_def onlyRateLimited_def list_all_iff Let_def split: prod.splits if_splits)
  from all(1) assms(2) have "\<forall>er. Resp_Err r = Some er \<longrightarrow> errors_is er StatusCodeError429"
    unfolding run_protocol_errors by blast
  moreover from all(2) assms(2) have "node_error pm r \<longrightarrow> IsRateLimited (Resp_RelayResult r)"
    unfolding run_node_errors by blast
  ultimately show ?thesis by simp
qed

text \<open>
  C1. A write goes out a second time only when every answer so far was a refusal to be asked: if, after
  the results of the responses \<open>rs\<close> came in, the machine of a stateful request dispatches again, then
  every attempt that failed on the wire failed with a rate limit, every node error was a rate limit,
  and the request is neither pinned nor at its attempt limit.
\<close>

theorem write_resent_only_after_rate_limits:
  assumes "sm_selection sm = Stateful"
    and "env_Summary e = GetResultsSummary unsupported should_retry (rm_run classify pm rs NewResultsManager)"
    and "dispatches (on_event Decide OnSendRelayResult GetConsecutiveBatchErrors c req e (GotResults success) sm) \<noteq> dispatches sm"
  shows "(\<forall>r. Some r \<in> set rs \<longrightarrow> (\<forall>er. Resp_Err r = Some er \<longrightarrow> errors_is er StatusCodeError429)
      \<and> (node_error pm r \<longrightarrow> IsRateLimited (Resp_RelayResult r)))
    \<and> \<not> PinnedByDirectives (req_DirectiveHeaders req)
    \<and> env_BatchNumber e < MaxRetries (config (sm_policy sm))"
proof -
  let ?i = "buildDecisionInput req e False sm"
  have "Action (Decide (sm_policy sm) ?i) = ActionRetry"
    using assms(3) by (auto simp: on_event_def on_results_def checkAndHandleTimeout_def Let_def split: option.splits if_splits)
  then have d: "mode_allows_retry ?i" "within_limits (sm_policy sm) ?i" by (simp_all add: Decide_retry_cases)
  then have "OnlyRateLimited (env_Summary e)" "\<not> PinnedByDirectives (req_DirectiveHeaders req)"
    "env_BatchNumber e < MaxRetries (config (sm_policy sm))"
    using assms(1) by (auto simp: mode_allows_retry_def within_limits_def rateLimitRetrySafe_iff buildDecisionInput_def)
  with only_rate_limited_run [of unsupported should_retry classify pm rs] assms(2) show ?thesis by auto
qed

definition throttled_response :: RelayResponse where
  "throttled_response = \<lparr>Resp_RelayResult = empty_result, Resp_Err = Some (ErrSentinel StatusCodeError429)\<rparr>"

definition sample_classify :: "go_error \<Rightarrow> LavaError" where
  "sample_classify err = LavaErrorUnknown"

definition throttled_env :: env where
  "throttled_env = sample_env\<lparr>env_Summary := GetResultsSummary (\<lambda>_. False) (\<lambda>_. True)
     (rm_run sample_classify sample_message [Some throttled_response] NewResultsManager)\<rparr>"

theorem write_resent_only_after_rate_limits_witness:
  "dispatches (sample_turn sample_request throttled_env (GotResults False) (sample_machine Stateful None))
     \<noteq> dispatches (start (sample_machine Stateful None))
   \<and> errors_is (ErrSentinel StatusCodeError429) StatusCodeError429
   \<and> env_BatchNumber throttled_env < MaxRetries sample_config"
proof -
  let ?sm = "start (sample_machine Stateful None)"
  have sel: "sm_selection ?sm = Stateful" by (simp add: sample_defs)
  have pol: "sm_policy ?sm = NewPolicy sample_config" by (simp add: sample_defs)
  have sum: "env_Summary throttled_env = GetResultsSummary (\<lambda>_. False) (\<lambda>_. True)
     (rm_run sample_classify sample_message [Some throttled_response] NewResultsManager)" by (simp add: throttled_env_def)
  have retry: "Action (Decide (NewPolicy sample_config) (buildDecisionInput sample_request throttled_env False ?sm)) = ActionRetry"
    by (simp add: buildDecisionInput_def sel sum)
       (simp add: Decide_def rateLimitRetrySafe_def totalErrors_def policy_samples GetResultsSummary_def GetResults_def
        rm_run_def set_response_defs throttled_response_def NewResultsManager_def rm_NodeErrors_def onlyRateLimited_def
        throttled_env_def sample_env_def sample_request_def PinnedByDirectives_def retry_with_def EpochMismatchError_def StatusCodeError429_def)
  have more: "dispatches (on_event Decide OnSendRelayResult GetConsecutiveBatchErrors sample_sm_config sample_request throttled_env
      (GotResults False) ?sm) \<noteq> dispatches ?sm"
    using retry pol by (simp add: on_event_def on_results_def Let_def checkAndHandleTimeout_def throttled_env_def sample_env_def)
  from write_resent_only_after_rate_limits [OF sel sum more] more pol show ?thesis
    by (simp add: sample_turn_def throttled_response_def NewPolicy_def)
qed

lemma run_selection_kept: "rp_selection (readExistingResponses H classify pm rs rp) = rp_selection rp"
  by (induction rs arbitrary: rp)
     (simp_all add: handleResponse_def recordCrossValidationResponse_def Let_def split: option.split prod.split)

text \<open>
  C2. A request that ends in success has an answer to give: when the reader's verdict on the responses
  makes the machine end the request without an error, \<open>ProcessingResult\<close> returns an answer and not a
  failure, in every selection mode and whatever order Go visits its maps in.
\<close>

theorem success_has_an_answer:
  assumes "NewRelayProcessor params sel = Some rp" and "\<forall>r\<in>set rs. fresh_response r" and "visits_all iter"
    and "out (on_event Decide OnSendRelayResult GetConsecutiveBatchErrors c req e
           (GotResults (fst (HasRequiredNodeResults (readExistingResponses H classify pm (map Some rs) rp)))) sm) = out sm @ [i]"
    and "ins_Done i" and "ins_Err i = None"
  shows "\<exists>r. ProcessingResult H iter ds iter' (readExistingResponses H classify pm (map Some rs) rp) = Some (Answer r)"
proof -
  let ?rp = "readExistingResponses H classify pm (map Some rs) rp"
  have ok: "fst (HasRequiredNodeResults ?rp)"
    using assms(4-6) by (auto simp: on_event_def on_results_def checkAndHandleTimeout_def Let_def send_done_def send_relay_def
        stateTransition_def split: option.splits if_splits)
  have sel: "rp_selection ?rp = sel" using assms(1) by (auto simp: run_selection_kept NewRelayProcessor_def split: if_splits)
  show ?thesis
  proof (cases "sel = CrossValidation")
    case True
    with assms(1) obtain p where "NewRelayProcessor (Some p) CrossValidation = Some rp"
      by (cases params) (simp_all add: NewRelayProcessor_def)
    moreover have "crossValidationQuorumReached ?rp"
      using ok sel True by (simp add: HasRequiredNodeResults_def split: prod.splits)
    ultimately obtain r where "processCrossValidationResult H iter ?rp = Answer r"
      using reached_answers [of p rp rs iter H classify pm] assms(2,3) by blast
    then show ?thesis using sel True by (simp add: ProcessingResult_def)
  next
    case False
    with ok sel have "successResults (rp_results ?rp) \<noteq> []"
      by (auto simp: HasRequiredNodeResults_def GetResults_def Let_def)
    then show ?thesis using sel False
      by (cases sel; cases "successResults (rp_results ?rp)") (simp_all add: ProcessingResult_def processNonCrossValidationResult_def)
  qed
qed

theorem success_has_an_answer_witness:
  "\<exists>r. ProcessingResult sample_hash rev (\<lambda>_. '''') id (readExistingResponses sample_hash sample_classify sample_message
     (map Some sample_responses) sample_rp) = Some (Answer r)"
proof -
  let ?sm = "start (sample_machine CrossValidation (Some sample_cv))"
  let ?rp = "readExistingResponses sample_hash sample_classify sample_message (map Some sample_responses) sample_rp"
  let ?i = "\<lparr>ins_Err = None, ins_Done = True, ins_RelayState = None, ins_NumOfProviders = 0, ins_StopReason = ''Success''\<rparr>"
  have iter: "visits_all rev" by (simp add: visits_all_def)
  have run: "?rp = sample_run" by (simp add: sample_run_def sample_classify_def [abs_def])
  have "fst (HasRequiredNodeResults ?rp)"
    using reached_answers [OF sample_rp_new sample_fresh iter, of sample_hash sample_classify sample_message] sample_run_reached run
    by simp
  then have out: "out (on_event Decide OnSendRelayResult GetConsecutiveBatchErrors sample_sm_config sample_request sample_env
      (GotResults (fst (HasRequiredNodeResults ?rp))) ?sm) = out ?sm @ [?i]"
    by (simp add: on_event_def on_results_def checkAndHandleTimeout_def sample_env_def send_done_def)
  show ?thesis
    by (rule success_has_an_answer [OF sample_rp_new sample_fresh iter out]) simp_all
qed

section \<open>Node errors and the classifier\<close>

text \<open>How the results manager classifies the text of a node error: the connection rows that also hold
  for a reply, then the chain's rows, then those of the transport.\<close>

definition classify_reply :: "string \<Rightarrow> TransportType \<Rightarrow> int \<Rightarrow> string \<Rightarrow> LavaError" where
  "classify_reply chain transport errorCode errorMessage =
     ClassifyError (DetectConnectionErrorInReplyText errorMessage) (GetChainFamilyOrDefault chain)
       transport errorCode errorMessage"

lemma fallbacks_registered: "list_all (\<lambda>row. fb_result row \<in> set all_codes) stringConnectionFallbacks"
  by (simp add: stringConnectionFallbacks_def all_codes_def)

lemma classify_reply_registered: "classify_reply chain t code msg \<in> insert LavaErrorUnknown (set all_codes)"
proof (cases "DetectConnectionErrorInReplyText msg")
  case None
  then show ?thesis using verdict_registered by (simp add: classify_reply_def)
next
  case (Some le)
  then have "le \<in> fb_result ` set stringConnectionFallbacks"
    by (auto simp: DetectConnectionErrorInReplyText_def Let_def find_Some_iff)
  then have "le \<in> set all_codes" using fallbacks_registered by (auto simp: list_all_iff)
  then show ?thesis by (simp add: classify_reply_def ClassifyError_def Some)
qed

definition node_verdicts :: "ResultsManager \<Rightarrow> LavaError option set" where
  "node_verdicts rm = RE_LavaError ` set (RelayErrors (nodeResponseErrors rm))"

lemma run_node_verdicts:
  assumes "\<And>c m. Some (ClassifyNodeError pm c m) \<in> V"
  shows "node_verdicts rm \<subseteq> V \<Longrightarrow> node_verdicts (rm_run classify pm rs rm) \<subseteq> V"
proof (induction rs arbitrary: rm)
  case (Cons r rs)
  have "node_verdicts (snd (rm_SetResponse classify pm r rm)) \<subseteq> V"
    using Cons.prems assms by (auto simp: node_verdicts_def set_response_defs split: option.split prod.split)
  from Cons.IH [OF this] show ?case by (simp add: rm_run_def)
qed (simp add: rm_run_def)

text \<open>
  Every node error a request keeps carries a registered verdict: with the router's classifier,
  whatever the upstreams answer, in any order, each error filed by the results manager is labelled with the
  unknown error or with a code of the registry, so \<open>EndpointAtFault\<close>, the retry axes and the name
  in the logs are always those of one registered code.
\<close>

theorem node_errors_carry_registered_verdicts:
  assumes "ClassifyNodeError pm = classify_reply chain transport"
    and "e \<in> set (RelayErrors (nodeResponseErrors (rm_run classify pm rs NewResultsManager)))"
  shows "\<exists>le. RE_LavaError e = Some le \<and> le \<in> insert LavaErrorUnknown (set all_codes)"
proof -
  have "node_verdicts (rm_run classify pm rs NewResultsManager) \<subseteq> Some ` insert LavaErrorUnknown (set all_codes)"
  proof (rule run_node_verdicts)
    show "Some (ClassifyNodeError pm c m) \<in> Some ` insert LavaErrorUnknown (set all_codes)" for c m
      unfolding assms(1) by (rule imageI) (rule classify_reply_registered)
  qed (simp add: node_verdicts_def NewResultsManager_def)
  then show ?thesis using assms(2) unfolding node_verdicts_def by auto
qed

definition overloaded_message :: protocol_message where
  "overloaded_message = sample_message\<lparr>CheckResponseError := (\<lambda>_ _. (True, ''rate limit exceeded'')),
     ClassifyNodeError := classify_reply ''ETH1'' TransportJsonRPC\<rparr>"

definition overloaded_run :: ResultsManager where
  "overloaded_run = rm_run sample_classify overloaded_message (map Some (take 1 sample_responses)) NewResultsManager"

theorem node_errors_carry_registered_verdicts_witness:
  "\<exists>le. map RE_LavaError (RelayErrors (nodeResponseErrors overloaded_run)) = [Some le]
     \<and> le \<in> insert LavaErrorUnknown (set all_codes)"
proof -
  have msg: "ClassifyNodeError overloaded_message = classify_reply ''ETH1'' TransportJsonRPC"
    by (simp add: overloaded_message_def)
  obtain e where e: "RelayErrors (nodeResponseErrors overloaded_run) = [e]"
    by (simp add: overloaded_run_def overloaded_message_def sample_message_def sample_responses_def sample_results_def
        sample_result_def empty_result_def rm_run_def set_response_defs NewResultsManager_def block_tags)
  then have "e \<in> set (RelayErrors (nodeResponseErrors overloaded_run))" by simp
  from node_errors_carry_registered_verdicts [OF msg this [unfolded overloaded_run_def]] e show ?thesis by auto
qed

section \<open>The chain tip and the consistency gate\<close>

lemma gate_passes:
  assumes "chain_tip \<le> e + EndpointLagThreshold cc" "in_int64 chain_tip"
  shows "ValidateEndpointCapability e chain_tip b (Some cc) = None"
proof -
  have "add64 chain_tip (- e) = chain_tip - e" if "0 < e" "e < chain_tip"
    using that assms(2) by (subst add64_id) (auto simp: in_int64_def min_int64_def max_int64_def)
  then show ?thesis using assms(1)
    by (auto simp: ValidateEndpointCapability_def IsEndpointTooFarBehind_def Let_def)
qed

text \<open>
  C3. A lying minority cannot shut honest endpoints out for long: after a recompute in which at least half
  of the voting endpoints are honest, with fresh blocks between \<open>lo\<close> and \<open>hi\<close>, and a majority forms, an
  endpoint at or above \<open>lo\<close> passes the consistency gate, whatever the liars report and whatever the tip
  was, provided the gate tolerates the honest spread plus the bucket width and the outlier band.
\<close>

theorem honest_endpoint_passes_gate:
  assumes "chain_reachable cs"
    and "computeMajorityBaseline obs (now + warpOffset cs) (cfg cs) = Some b"
    and "length (vote_map (cfg cs) (now + warpOffset cs) obs) \<le> 2 * length (honest_votes H (cfg cs) (now + warpOffset cs) obs)"
    and "\<forall>ob\<in>set obs. H (URL ob) \<and> counts_vote (cfg cs) (now + warpOffset cs) ob \<longrightarrow> lo \<le> Block ob \<and> Block ob \<le> hi"
    and "hi - lo + BucketWidth (cfg cs) + OutlierThreshold (cfg cs) \<le> EndpointLagThreshold cc"
    and "lo \<le> e" and "in_int64 (latestBlock (fst (Recompute cs now obs)))"
  shows "ValidateEndpointCapability e (latestBlock (fst (Recompute cs now obs))) requested (Some cc) = None"
proof (rule gate_passes)
  note inv = chain_reachable_inv [OF assms(1)]
  then have w: "0 \<le> BucketWidth (cfg cs)" by (simp add: chain_inv_def wf_config_def)
  from baseline_near_honest_vote [OF w assms(2,3)] obtain u ob where
    v: "(u, ob) \<in> set (vote_map (cfg cs) (now + warpOffset cs) obs)" "H u" and near: "b - BucketWidth (cfg cs) \<le> Block ob" by blast
  from vote_map_entry [OF v(1)] v(2) assms(4) have "Block ob \<le> hi" by auto
  with near Recompute_band(2) [OF inv assms(2)] assms(5,6)
  show "latestBlock (fst (Recompute cs now obs)) \<le> e + EndpointLagThreshold cc" by linarith
qed (rule assms(7))

theorem honest_endpoint_passes_gate_witness:
  "ValidateEndpointCapability 1000 (latestBlock (fst (Recompute sample_chain 10 sample_obs))) LATEST_BLOCK
     (Some \<lparr>EndpointLagThreshold = 600\<rparr>) = None"
proof -
  have maj: "computeMajorityBaseline sample_obs (10 + warpOffset sample_chain) (cfg sample_chain) = Some 1002"
    by (simp add: sample_chain_cfg sample_majority)
  have half: "length (vote_map (cfg sample_chain) (10 + warpOffset sample_chain) sample_obs)
      \<le> 2 * length (honest_votes (\<lambda>u. u \<noteq> ''c'') (cfg sample_chain) (10 + warpOffset sample_chain) sample_obs)"
    by (simp add: honest_votes_def sample_votes_simps sample_chain_cfg)
  have honest: "\<forall>ob\<in>set sample_obs. URL ob \<noteq> ''c'' \<and> counts_vote (cfg sample_chain) (10 + warpOffset sample_chain) ob
      \<longrightarrow> 1000 \<le> Block ob \<and> Block ob \<le> 1002" by (auto simp: sample_obs_def obs_at_def)
  have thr: "1002 - 1000 + BucketWidth (cfg sample_chain) + OutlierThreshold (cfg sample_chain)
      \<le> EndpointLagThreshold \<lparr>EndpointLagThreshold = 600\<rparr>"
    by (simp add: sample_chain_cfg sample_threshold) (simp add: DefaultConfig_def DefaultBucketWidth_def Let_def)
  have "in_int64 (latestBlock (fst (Recompute sample_chain 10 sample_obs)))"
    using Recompute_band(1,2) [OF chain_reachable_inv [OF sample_chain_reachable] maj]
    by (simp add: sample_chain_cfg sample_threshold in_int64_def min_int64_def max_int64_def)
  from honest_endpoint_passes_gate [OF sample_chain_reachable maj half honest thr _ this, of 1000 LATEST_BLOCK]
  show ?thesis by simp
qed

text \<open>
  C4. The gate's tolerance is what decides how far the guard protects: while a baseline is held, one
  observation at the upper edge of the outlier band is accepted as the tip, and then every endpoint at
  or below the baseline is turned away from requests for the latest block when the gate tolerates less
  than the band, as the default of 10 blocks does against a band of at least 32.
\<close>

theorem band_edge_report_shuts_out_majority:
  assumes "chain_reachable cs" and "hasBaseline cs" and "in_int64 (baseline cs + OutlierThreshold (cfg cs))"
    and "block = baseline cs + OutlierThreshold (cfg cs)" and "latestBlock cs < block"
    and "0 < e" and "e \<le> baseline cs" and "EndpointLagThreshold cc < OutlierThreshold (cfg cs)"
  shows "advanced (SetLatestBlock cs now block)
    \<and> (\<exists>err. ValidateEndpointCapability e (latestBlock (newState (SetLatestBlock cs now block))) LATEST_BLOCK (Some cc) = Some err
         \<and> errors_is err ConsistencyError)"
proof -
  note inv = chain_reachable_inv [OF assms(1)]
  then have pos: "0 < baseline cs" "0 < OutlierThreshold (cfg cs)" "0 \<le> latestBlock cs"
    using assms(2) by (simp_all add: chain_inv_def wf_config_def)
  have tip: "latestBlock (newState (SetLatestBlock cs now block)) = block" "advanced (SetLatestBlock cs now block)"
    using assms(2-5) pos by (simp_all add: SetLatestBlock_def Let_def add64_id)
  have lag: "add64 block (- e) = block - e"
    using assms(3,4,6,7) pos by (subst add64_id) (auto simp: in_int64_def min_int64_def max_int64_def)
  show ?thesis unfolding tip(1)
    using tip(2) lag assms(4,6,7,8) pos
    by (simp add: ValidateEndpointCapability_def ShouldSkipConsistencyValidation_def IsEndpointTooFarBehind_def Let_def block_tags)
qed

definition sample_agreed :: chain_state where
  "sample_agreed = fst (Recompute sample_chain 10 sample_obs)"

theorem band_edge_report_shuts_out_majority_witness:
  "\<exists>err. ValidateEndpointCapability 1000 (latestBlock (newState (SetLatestBlock sample_agreed 11 1514))) LATEST_BLOCK
     (Some DefaultConsistencyValidationConfig) = Some err \<and> errors_is err ConsistencyError"
proof -
  have maj: "computeMajorityBaseline sample_obs (10 + warpOffset sample_chain) (cfg sample_chain) = Some 1002"
    by (simp add: sample_chain_cfg sample_majority)
  note band = Recompute_band [OF chain_reachable_inv [OF sample_chain_reachable] maj, folded sample_agreed_def]
  have reach: "chain_reachable sample_agreed"
    unfolding sample_agreed_def by (rule chain_reachable.step [OF sample_chain_reachable chain_step.recompute])
  have c: "OutlierThreshold (cfg sample_agreed) = 512"
    by (simp add: sample_agreed_def sample_chain_cfg sample_threshold)
  have l: "latestBlock sample_agreed < 1514"
    using maj by (simp add: sample_agreed_def Recompute_def Let_def) (simp add: sample_chain_def NewWithClock_def Let_def)
  have "in_int64 (baseline sample_agreed + OutlierThreshold (cfg sample_agreed))" "hasBaseline sample_agreed"
    "1514 = baseline sample_agreed + OutlierThreshold (cfg sample_agreed)"
    by (simp_all add: band c in_int64_def min_int64_def max_int64_def)
  from band_edge_report_shuts_out_majority [OF reach this(2,1,3) l, of 1000 DefaultConsistencyValidationConfig 11] band c
  show ?thesis by (simp add: DefaultConsistencyValidationConfig_def)
qed

end
